(* ===== verification/Prelude.thy ===== *)
theory Prelude
  imports Complex_Main "HOL-Library.Word" "HOL-Library.Finite_Map"
begin

text \<open>
  Shared vocabulary of the development: the machine integer types of Go as words, Go maps as
  finite maps (a read of an absent key or of a nil map gives the zero value, \<open>len\<close> counts
  the keys), a fallible result as a sum, and the bounded-counter contract that the four counting
  maps of a baseline share.
\<close>

type_synonym u64 = "64 word"
type_synonym i64 = "64 word"
type_synonym u32 = "32 word"
type_synonym u16 = "16 word"
type_synonym ('e, 'a) result = "'e + 'a"

named_theorems go_map "reads and sizes of Go maps"
named_theorems go_record "unfolding of small struct operations"

subsection \<open>Go maps\<close>

definition fmsize :: "('k, 'v) fmap \<Rightarrow> nat" where
  "fmsize m = fcard (fmdom m)"

definition fmget :: "'v \<Rightarrow> ('k, 'v) fmap \<Rightarrow> 'k \<Rightarrow> 'v" where
  "fmget z m k = (case fmlookup m k of None \<Rightarrow> z | Some v \<Rightarrow> v)"

lemma fmget_fmupd [simp, go_map]:
  "fmget z (fmupd k v m) j = (if j = k then v else fmget z m j)"
  by (simp add: fmget_def)

lemma fmget_fmempty [simp, go_map]: "fmget z fmempty k = z"
  by (simp add: fmget_def)

lemma fmget_None [go_map]: "fmlookup m k = None \<Longrightarrow> fmget z m k = z"
  by (simp add: fmget_def)

lemma fmget_Some [go_map]: "fmlookup m k = Some v \<Longrightarrow> fmget z m k = v"
  by (simp add: fmget_def)

lemma fmsize_fmempty [simp, go_map]: "fmsize fmempty = 0"
  by (simp add: fmsize_def)

lemma fmsize_fmupd [go_map]:
  "fmsize (fmupd k v m) = (if fmlookup m k = None then Suc (fmsize m) else fmsize m)"
  by (auto simp: fmsize_def fcard_finsert_if fmdom_notI fmdomI fmlookup_dom_iff)

lemma fmsize_fmupd_le: "fmsize (fmupd k v m) \<le> Suc (fmsize m)"
  by (simp add: fmsize_fmupd)

subsection \<open>Early returns\<close>

lemma guard_None: "(if p then Some e else x) = None \<longleftrightarrow> \<not> p \<and> x = None"
  by simp

lemma guard_False: "(if p then False else q) \<longleftrightarrow> \<not> p \<and> q"
  by simp

subsection \<open>Counters\<close>

lemma unat_inc64: "unat (x :: u64) < 2 ^ 64 - 1 \<Longrightarrow> unat (x + 1) = Suc (unat x)"
  by (simp add: unat_word_ariths)

lemma unat_inc_le: "unat (x + 1 :: u64) \<le> Suc (unat x)"
  by (simp add: unat_word_ariths)

text \<open>The contract of a bounded counting map: a known key is incremented, a new key is admitted
  while there is room, and otherwise the map is returned as it is.\<close>

locale bounded_counts =
  fixes rec :: "('k, u64) fmap \<Rightarrow> 'k \<Rightarrow> ('k, u64) fmap"
    and cap :: nat
  assumes rec_full: "fmlookup m k = None \<Longrightarrow> cap \<le> fmsize m \<Longrightarrow> rec m k = m"
    and rec_room: "fmlookup m k \<noteq> None \<or> fmsize m < cap \<Longrightarrow>
      rec m k = fmupd k (fmget 0 m k + 1) m"
begin

lemma rec_cases:
  obtains (full) "rec m k = m" "fmlookup m k = None" "cap \<le> fmsize m"
  | (room) "rec m k = fmupd k (fmget 0 m k + 1) m" "fmlookup m k \<noteq> None \<or> fmsize m < cap"
  using rec_full rec_room by (metis not_less)

lemma size_bound: "fmsize m \<le> cap \<Longrightarrow> fmsize (rec m k) \<le> cap"
  by (rule rec_cases [of m k]) (auto simp: fmsize_fmupd)

lemma size_mono: "fmsize m \<le> fmsize (rec m k)"
  by (rule rec_cases [of m k]) (auto simp: fmsize_fmupd)

lemma keeps: "fmlookup m j \<noteq> None \<Longrightarrow> fmlookup (rec m k) j \<noteq> None"
  by (rule rec_cases [of m k]) auto

lemma other: "j \<noteq> k \<Longrightarrow> fmget 0 (rec m k) j = fmget 0 m j"
  by (rule rec_cases [of m k]) auto

lemma lookup_other: "j \<noteq> k \<Longrightarrow> fmlookup (rec m k) j = fmlookup m j"
  by (rule rec_cases [of m k]) auto

lemma known: "fmlookup m k \<noteq> None \<Longrightarrow> fmget 0 (rec m k) k = fmget 0 m k + 1"
  by (simp add: rec_room)

lemma step_le: "unat (fmget 0 (rec m k) j) \<le> unat (fmget 0 m j) + (if j = k then 1 else 0)"
  by (rule rec_cases [of m k]) (auto simp: unat_inc_le)

end

end
