(* ===== verification/Go_Time.thy ===== *)
theory Go_Time
  imports Prelude
begin

text \<open>
  The part of Go's \<^verbatim>\<open>time\<close> package the engine uses. An instant is a number of
  nanoseconds since the zero \<^verbatim>\<open>time.Time\<close> (January 1 of year 1, 00:00 UTC) with
  the offset of its location in seconds; its text is what the RFC 3339 layout spells. \<^verbatim>\<open>Sub\<close> saturates at the range of
  \<^verbatim>\<open>time.Duration\<close>, a signed 64-bit count of nanoseconds.
\<close>

record gotime =
  t_ns :: int
  t_offset :: int

definition zeroTime :: gotime where
  "zeroTime = \<lparr>t_ns = 0, t_offset = 0\<rparr>"

definition Time_IsZero :: "gotime \<Rightarrow> bool" where
  "Time_IsZero t = (t_ns t = 0)"

definition Time_After :: "gotime \<Rightarrow> gotime \<Rightarrow> bool" where
  "Time_After t u = (t_ns u < t_ns t)"

definition Time_Before :: "gotime \<Rightarrow> gotime \<Rightarrow> bool" where
  "Time_Before t u = (t_ns t < t_ns u)"

definition maxDuration :: int where "maxDuration = 2 ^ 63 - 1"
definition minDuration :: int where "minDuration = - (2 ^ 63)"

definition Time_Sub :: "gotime \<Rightarrow> gotime \<Rightarrow> i64" where
  "Time_Sub t u = word_of_int (max minDuration (min maxDuration (t_ns t - t_ns u)))"

definition Time_UTC_Hour :: "gotime \<Rightarrow> nat" where
  "Time_UTC_Hour t = nat (t_ns t div 3600000000000 mod 24)"

definition yearOfDay :: "int \<Rightarrow> int" where
  "yearOfDay d =
     (let n400 = d div 146097; r400 = d mod 146097;
          n100 = min 3 (r400 div 36524); r100 = r400 - n100 * 36524;
          n4 = r100 div 1461; r4 = r100 mod 1461;
          n1 = min 3 (r4 div 365)
      in 1 + 400 * n400 + 100 * n100 + 4 * n4 + n1)"

definition Time_Year :: "gotime \<Rightarrow> int" where
  "Time_Year t = yearOfDay ((t_ns t + t_offset t * 1000000000) div 86400000000000)"

text \<open>The RFC 3339 text of a time, by what it spells: the wall clock, in nanoseconds from January 1 of year 1, and
  the zone in whole minutes, towards zero. \<^verbatim>\<open>time.Parse\<close> reads years 0 to 9999 and zones of up to 24 hours.\<close>

record time_text =
  tt_clock :: int
  tt_zone :: int

definition formatTime :: "gotime \<Rightarrow> time_text" where
  "formatTime t =
     \<lparr>tt_clock = t_ns t + t_offset t * 1000000000,
      tt_zone = (if 0 \<le> t_offset t then t_offset t div 60 else - (- t_offset t div 60))\<rparr>"

definition parseTime :: "time_text \<Rightarrow> gotime option" where
  "parseTime s =
     (let year = yearOfDay (tt_clock s div 86400000000000)
      in if 0 \<le> year \<and> year \<le> 9999 \<and> \<bar>tt_zone s\<bar> div 60 \<le> 24
         then Some \<lparr>t_ns = tt_clock s - tt_zone s * 60 * 1000000000, t_offset = tt_zone s * 60\<rparr> else None)"

text \<open>The times whose text reads back as the time itself.\<close>

definition time_storable :: "gotime \<Rightarrow> bool" where
  "time_storable t = (0 \<le> Time_Year t \<and> Time_Year t \<le> 9999 \<and> t_offset t mod 60 = 0 \<and> \<bar>t_offset t\<bar> < 25 * 3600)"

lemmas time_order = Time_After_def Time_Before_def Time_IsZero_def

lemma Time_After_irrefl [simp]: "\<not> Time_After t t"
  by (simp add: Time_After_def)

lemma Time_After_trans: "Time_After t u \<Longrightarrow> Time_After u v \<Longrightarrow> Time_After t v"
  by (simp add: Time_After_def)

lemma truncated_minutes: "(if 0 \<le> a then a div 60 else - (- a div 60)) * 60 = a \<longleftrightarrow> a mod 60 = 0" for a :: int
proof -
  have up: "x div 60 * 60 = x \<longleftrightarrow> 60 dvd x" for x :: int by (metis dvd_div_mult_self dvd_triv_right)
  have "- (- a div 60) * 60 = a \<longleftrightarrow> - a div 60 * 60 = - a" by (metis minus_mult_left minus_minus)
  then show ?thesis using up [of a] up [of "- a"] by (simp only: dvd_eq_mod_eq_0 [symmetric] dvd_minus_iff split: if_split) blast
qed

lemma parse_format_time: "parseTime (formatTime t) = Some t \<longleftrightarrow> time_storable t"
proof -
  let ?z = "tt_zone (formatTime t)" and ?n = "t_ns t" and ?o = "t_offset t"
  have year: "yearOfDay (tt_clock (formatTime t) div 86400000000000) = Time_Year t"
    by (simp add: formatTime_def Time_Year_def)
  have z: "?z * 60 = ?o \<longleftrightarrow> ?o mod 60 = 0" using truncated_minutes by (simp add: formatTime_def)
  have lim: "m div 60 \<le> 24 \<longleftrightarrow> m < 1500" for m :: int by presburger
  have hours: "\<bar>?z\<bar> div 60 \<le> 24 \<longleftrightarrow> \<bar>?o\<bar> < 25 * 3600" if "?z * 60 = ?o"
    unfolding lim that [symmetric] by (simp add: abs_mult)
  have eq: "\<lparr>t_ns = tt_clock (formatTime t) - ?z * 60 * 1000000000, t_offset = ?z * 60\<rparr> = t \<longleftrightarrow> ?z * 60 = ?o"
    by (cases t) (auto simp: formatTime_def)
  show ?thesis unfolding parseTime_def Let_def year time_storable_def using eq z hours by auto
qed

lemma Time_UTC_Hour_less: "Time_UTC_Hour t < 24"
  by (simp add: Time_UTC_Hour_def nat_less_iff)

lemma sint_Time_Sub:
  "sint (Time_Sub t u) = max minDuration (min maxDuration (t_ns t - t_ns u))"
  by (simp add: Time_Sub_def sint_sbintrunc' signed_take_bit_int_eq_self minDuration_def maxDuration_def)

lemma Time_Sub_pos_iff: "0 < sint (Time_Sub t u) \<longleftrightarrow> Time_After t u"
  by (auto simp: sint_Time_Sub Time_After_def maxDuration_def minDuration_def max_def min_def)

end
