(* ===== verification/Float64.thy ===== *)
theory Float64
  imports Prelude "HOL-Library.Log_Nat"
begin

text \<open>
  IEEE 754 binary64 as Go's \<^verbatim>\<open>float64\<close>: a finite value is a rational, every
  arithmetic operation rounds its exact result once to nearest, ties to even, with the subnormal
  spacing at the bottom and an overflow to an infinity at the top. The two zeros are one value: no
  operation of the sources can tell them apart except a division by a negative zero. Each operation
  rounds by itself (no fused multiply-add, as on amd64). \<open>rnd_mono\<close>, \<open>rnd_exact\<close> and
  \<open>rnd_idem\<close> are the facts the bounds of the scores rest on.
\<close>

subsection \<open>Rounding to 53 bits\<close>

definition ilog2 :: "rat \<Rightarrow> int" where
  "ilog2 x = (let (n, d) = quotient_of x; k = bitlen n - bitlen d
              in if 2 powi k \<le> x then k else k - 1)"

definition ulp_exp :: "rat \<Rightarrow> int" where
  "ulp_exp x = max (ilog2 \<bar>x\<bar> - 52) (- 1074)"

definition round_even :: "rat \<Rightarrow> int" where
  "round_even x = (let f = \<lfloor>x\<rfloor>; r = x - of_int f in
     if r < 1 / 2 then f else if 1 / 2 < r then f + 1
     else if even f then f else f + 1)"

definition rnd :: "rat \<Rightarrow> rat" where
  "rnd x = (if x = 0 then 0 else of_int (round_even (x / 2 powi ulp_exp x)) * 2 powi ulp_exp x)"

lemma bitlen_bounds_rat:
  fixes n :: int
  assumes "0 < n"
  shows "(2::rat) powi (bitlen n - 1) \<le> of_int n" and "of_int n < (2::rat) powi bitlen n"
proof -
  have b: "0 < bitlen n" using assms by (simp add: bitlen_alt_def)
  have 1: "2 ^ nat (bitlen n - 1) \<le> n" "n < 2 ^ nat (bitlen n)"
    using bitlen_bounds[OF assms] by auto
  have "of_int (2 ^ nat (bitlen n - 1)) \<le> (of_int n :: rat)" using 1(1) by (simp only: of_int_le_iff)
  then show "(2::rat) powi (bitlen n - 1) \<le> of_int n" using b by (simp add: power_int_def)
  have "(of_int n :: rat) < of_int (2 ^ nat (bitlen n))" using 1(2) by (simp only: of_int_less_iff)
  then show "of_int n < (2::rat) powi bitlen n" using b by (simp add: power_int_def)
qed

lemma ilog2_bounds:
  assumes "0 < x"
  shows "2 powi ilog2 x \<le> x" and "x < 2 powi (ilog2 x + 1)"
proof -
  obtain n d where q: "quotient_of x = (n, d)" by (cases "quotient_of x")
  have d: "0 < d" using q quotient_of_denom_pos by blast
  have x: "x = of_int n / of_int d" using q by (rule quotient_of_div)
  have n: "0 < n" using assms d x by (simp add: zero_less_divide_iff)
  let ?k = "bitlen n - bitlen d"
  have lo: "2 powi (?k - 1) \<le> x"
  proof -
    have "(2::rat) powi (?k - 1) * of_int d \<le> 2 powi (?k - 1) * 2 powi bitlen d"
      using bitlen_bounds_rat(2)[OF d] by (intro mult_left_mono) auto
    also have "\<dots> = 2 powi (bitlen n - 1)" by (simp add: power_int_add [symmetric])
    also have "\<dots> \<le> of_int n" by (rule bitlen_bounds_rat(1)[OF n])
    finally show ?thesis using d by (simp add: x field_simps)
  qed
  have hi: "x < 2 powi (?k + 1)"
  proof -
    have "(of_int n::rat) < 2 powi bitlen n" by (rule bitlen_bounds_rat(2)[OF n])
    also have "\<dots> = 2 powi (?k + 1) * 2 powi (bitlen d - 1)" by (simp add: power_int_add [symmetric])
    also have "\<dots> \<le> 2 powi (?k + 1) * of_int d"
      using bitlen_bounds_rat(1)[OF d] by (intro mult_left_mono) auto
    finally show ?thesis using d by (simp add: x field_simps)
  qed
  show "2 powi ilog2 x \<le> x" "x < 2 powi (ilog2 x + 1)"
    using lo hi by (auto simp: ilog2_def q Let_def)
qed

lemma round_even_mono: "x \<le> y \<Longrightarrow> round_even x \<le> round_even y"
proof -
  assume le: "x \<le> y"
  then have fl: "\<lfloor>x\<rfloor> \<le> \<lfloor>y\<rfloor>" by (rule floor_mono)
  show ?thesis
  proof (cases "\<lfloor>x\<rfloor> = \<lfloor>y\<rfloor>")
    case True
    then show ?thesis using le by (auto simp: round_even_def Let_def)
  next
    case False
    then have "\<lfloor>x\<rfloor> + 1 \<le> \<lfloor>y\<rfloor>" using fl by linarith
    moreover have "round_even x \<le> \<lfloor>x\<rfloor> + 1" "\<lfloor>y\<rfloor> \<le> round_even y"
      by (auto simp: round_even_def Let_def)
    ultimately show ?thesis by linarith
  qed
qed

lemma round_even_of_int [simp]: "round_even (of_int k) = k"
  by (simp add: round_even_def Let_def)

lemma round_even_le: "x \<le> of_int k \<Longrightarrow> round_even x \<le> k"
  using round_even_mono [of x "of_int k"] by simp

lemma round_even_ge: "of_int k \<le> x \<Longrightarrow> k \<le> round_even x"
  using round_even_mono [of "of_int k" x] by simp

lemma round_even_uminus: "round_even (- x) = - round_even x"
proof (cases "x \<in> \<int>")
  case True
  then obtain k where "x = of_int k" by (auto elim: Ints_cases)
  then show ?thesis by (metis of_int_minus round_even_of_int)
next
  case False
  then have c: "\<lfloor>- x\<rfloor> = - \<lfloor>x\<rfloor> - 1"
    by (metis (no_types, lifting) add_uminus_conv_diff ceiling_altdef ceiling_def floor_of_int minus_add_distrib minus_minus Ints_of_int)
  show ?thesis by (auto simp: round_even_def Let_def c)
qed

lemma rnd_0 [simp]: "rnd 0 = 0"
  by (simp add: rnd_def)

lemma rnd_uminus: "rnd (- x) = - rnd x"
  by (simp add: rnd_def ulp_exp_def round_even_uminus)

lemma pow2_le_iff: "(2::rat) powi a \<le> 2 powi b \<longleftrightarrow> a \<le> b"
  by (metis linorder_not_le one_le_numeral one_less_numeral_iff power_int_increasing
      power_int_strict_increasing semiring_norm(76))

lemma pow2_less_iff: "(2::rat) powi a < 2 powi b \<longleftrightarrow> a < b"
  by (meson linorder_not_le pow2_le_iff)

lemma ilog2_lessI: "0 < x \<Longrightarrow> x < 2 powi k \<Longrightarrow> ilog2 x < k"
  using ilog2_bounds(1) [of x] pow2_less_iff [of "ilog2 x" k] by auto

lemma ilog2_geI: "0 < x \<Longrightarrow> 2 powi k \<le> x \<Longrightarrow> k \<le> ilog2 x"
  using ilog2_bounds(2) [of x] pow2_less_iff [of k "ilog2 x + 1"] by auto

lemma ilog2_mono: "0 < x \<Longrightarrow> x \<le> y \<Longrightarrow> ilog2 x \<le> ilog2 y"
  by (rule ilog2_geI) (use ilog2_bounds(1)[of x] in auto)

text \<open>A number with at most 53 significant bits, at or above the subnormal spacing, is kept.\<close>

lemma rnd_exact:
  assumes "\<bar>m\<bar> \<le> 2 ^ 53" and "- 1074 \<le> e"
  shows "rnd (of_int m * 2 powi e) = of_int m * 2 powi e"
proof (cases "m = 0")
  case False
  let ?x = "of_int m * 2 powi e :: rat"
  have x0: "?x \<noteq> 0" "0 < \<bar>?x\<bar>" using False by auto
  have ax: "\<bar>?x\<bar> = of_int \<bar>m\<bar> * 2 powi e" by (simp add: abs_mult)
  have u: "\<exists>k. ?x / 2 powi ulp_exp ?x = of_int k"
  proof (cases "\<bar>m\<bar> = 2 ^ 53")
    case True
    have "ulp_exp ?x \<le> e + 1"
    proof -
      have "\<bar>?x\<bar> < 2 powi (e + 54)"
        by (simp add: ax True power_int_add)
      then have "ilog2 \<bar>?x\<bar> < e + 54" using x0 by (intro ilog2_lessI)
      then show ?thesis using assms(2) by (simp add: ulp_exp_def)
    qed
    then obtain j where j: "e + 1 - ulp_exp ?x = int j" by (metis diff_ge_0_iff_ge nonneg_int_cases)
    have "even \<bar>m\<bar>" using True by simp
    then have "m = 2 * (m div 2)" by simp
    then have "?x = of_int (m div 2) * 2 powi (e + 1)"
      by (simp add: power_int_add)
    then have "?x / 2 powi ulp_exp ?x = of_int (m div 2) * 2 powi (e + 1 - ulp_exp ?x)"
      by (simp add: power_int_diff)
    also have "\<dots> = of_int (m div 2 * 2 ^ j)" by (simp add: j)
    finally show ?thesis by blast
  next
    case False
    have "ulp_exp ?x \<le> e"
    proof -
      have "\<bar>?x\<bar> < 2 ^ 53 * 2 powi e"
        unfolding ax using False assms(1)
        by (intro mult_strict_right_mono) (metis of_int_less_numeral_power_cancel_iff less_le, simp)
      also have "\<dots> = 2 powi (e + 53)" by (simp add: power_int_add)
      finally have "ilog2 \<bar>?x\<bar> < e + 53" using x0 by (intro ilog2_lessI)
      then show ?thesis using assms(2) by (simp add: ulp_exp_def)
    qed
    then obtain j where j: "e - ulp_exp ?x = int j" by (metis diff_ge_0_iff_ge nonneg_int_cases)
    have "?x / 2 powi ulp_exp ?x = of_int m * 2 powi (e - ulp_exp ?x)"
      by (simp add: power_int_diff)
    also have "\<dots> = of_int (m * 2 ^ j)" by (simp add: j)
    finally show ?thesis by blast
  qed
  then obtain k where k: "?x / 2 powi ulp_exp ?x = of_int k" by blast
  then have "rnd ?x = of_int k * 2 powi ulp_exp ?x" using x0(1) by (simp add: rnd_def)
  also have "\<dots> = ?x" by (simp add: k [symmetric])
  finally show ?thesis .
qed simp


lemma rnd_pow2: "- 1074 \<le> e \<Longrightarrow> rnd (2 powi e) = 2 powi e"
  using rnd_exact [of 1 e] by simp

lemma rnd_of_int: "\<bar>m\<bar> \<le> 2 ^ 53 \<Longrightarrow> rnd (of_int m) = of_int m"
  using rnd_exact [of m 0] by simp

lemma rnd_1 [simp]: "rnd 1 = 1"
  using rnd_of_int [of 1] by simp

lemma rnd_mono_pos:
  assumes "0 < x" and "x \<le> y"
  shows "rnd x \<le> rnd y"
proof (cases "ulp_exp x = ulp_exp y")
  case True
  have "round_even (x / 2 powi ulp_exp y) \<le> round_even (y / 2 powi ulp_exp y)"
    using assms by (intro round_even_mono divide_right_mono) auto
  then show ?thesis using assms True by (auto simp: rnd_def intro!: mult_right_mono)
next
  case False
  let ?ex = "ulp_exp x" and ?ey = "ulp_exp y"
  have lt: "?ex < ?ey" using False assms ilog2_mono [of x y] by (auto simp: ulp_exp_def)
  have ey: "?ey = ilog2 y - 52" using lt assms by (auto simp: ulp_exp_def)
  have "x < 2 powi (ilog2 x + 1)" using assms(1) by (rule ilog2_bounds(2))
  also have "\<dots> \<le> 2 powi (?ex + 53)" using assms by (simp add: pow2_le_iff ulp_exp_def)
  finally have "x / 2 powi ?ex \<le> of_int (2 ^ 53)" by (simp add: field_simps power_int_add)
  then have "round_even (x / 2 powi ?ex) \<le> round_even (of_int (2 ^ 53))" by (rule round_even_mono)
  then have "round_even (x / 2 powi ?ex) \<le> 2 ^ 53" by (simp only: round_even_of_int)
  then have "of_int (round_even (x / 2 powi ?ex)) \<le> (of_int (2 ^ 53) :: rat)"
    by (simp only: of_int_le_iff)
  then have "rnd x \<le> 2 ^ 53 * 2 powi ?ex" using assms by (simp add: rnd_def)
  also have "\<dots> = 2 powi (?ex + 53)" by (simp add: power_int_add)
  also have "\<dots> \<le> 2 powi (?ey + 52)" using lt by (simp add: pow2_le_iff)
  finally have rx: "rnd x \<le> 2 ^ 52 * 2 powi ?ey" by (simp add: power_int_add)
  have "2 powi ilog2 y \<le> y" using assms by (intro ilog2_bounds(1)) auto
  then have "2 powi (?ey + 52) \<le> y" using ey by simp
  then have "of_int (2 ^ 52) \<le> y / 2 powi ?ey" by (simp add: field_simps power_int_add)
  then have "round_even (of_int (2 ^ 52)) \<le> round_even (y / 2 powi ?ey)" by (rule round_even_mono)
  then have "2 ^ 52 \<le> round_even (y / 2 powi ?ey)" by (simp only: round_even_of_int)
  then have "of_int (2 ^ 52) \<le> (of_int (round_even (y / 2 powi ?ey)) :: rat)"
    by (simp only: of_int_le_iff)
  then have "2 ^ 52 * 2 powi ?ey \<le> rnd y" using assms by (simp add: rnd_def)
  with rx show ?thesis by simp
qed

lemma rnd_nonneg: "0 \<le> x \<Longrightarrow> 0 \<le> rnd x"
proof (cases "x = 0")
  case False
  assume "0 \<le> x"
  then have "round_even (of_int 0) \<le> round_even (x / 2 powi ulp_exp x)"
    by (intro round_even_mono) simp
  then have "0 \<le> round_even (x / 2 powi ulp_exp x)" by (simp only: round_even_of_int)
  then show ?thesis using False by (simp add: rnd_def)
qed simp

theorem rnd_mono: "x \<le> y \<Longrightarrow> rnd x \<le> rnd y"
proof -
  assume le: "x \<le> y"
  consider "0 < x" | "y < 0" | "x \<le> 0" "0 \<le> y" by linarith
  then show ?thesis
  proof cases
    case 1 then show ?thesis using le by (rule rnd_mono_pos)
  next
    case 2
    then have "rnd (- y) \<le> rnd (- x)" using le by (intro rnd_mono_pos) auto
    then show ?thesis by (simp add: rnd_uminus)
  next
    case 3
    then have "rnd x \<le> 0" "0 \<le> rnd y" using rnd_nonneg [of "- x"] rnd_nonneg [of y] by (auto simp: rnd_uminus)
    then show ?thesis by simp
  qed
qed

lemma rnd_form: "\<exists>m e. rnd x = of_int m * 2 powi e \<and> \<bar>m\<bar> \<le> 2 ^ 53 \<and> - 1074 \<le> e"
proof (cases "x = 0")
  case True
  then show ?thesis by (intro exI [of _ 0]) auto
next
  case False
  let ?e = "ulp_exp x" and ?q = "x / 2 powi ulp_exp x"
  have "\<bar>x\<bar> < 2 powi (ilog2 \<bar>x\<bar> + 1)" using False by (intro ilog2_bounds(2)) auto
  also have "\<dots> \<le> 2 powi (?e + 53)" by (simp add: pow2_le_iff ulp_exp_def)
  finally have "\<bar>?q\<bar> \<le> of_int (2 ^ 53)" by (simp add: field_simps power_int_add abs_divide)
  then have "?q \<le> of_int (2 ^ 53)" "of_int (- (2 ^ 53)) \<le> ?q"
    by (metis abs_le_D1, metis abs_le_D2 minus_le_iff of_int_minus)
  then have "\<bar>round_even ?q\<bar> \<le> 2 ^ 53" using round_even_le [of ?q "2 ^ 53"] round_even_ge [of "- (2 ^ 53)" ?q]
    by linarith
  moreover have "- 1074 \<le> ?e" by (simp add: ulp_exp_def)
  ultimately show ?thesis using False
    by (intro exI [of _ "round_even ?q"] exI [of _ ?e]) (simp add: rnd_def)
qed

lemma rnd_idem [simp]: "rnd (rnd x) = rnd x"
  using rnd_form [of x] rnd_exact by metis

lemma rnd_le_1: "x \<le> 1 \<Longrightarrow> rnd x \<le> 1"
  using rnd_mono [of x 1] by simp

lemmas rnd_bounds = rnd_nonneg rnd_le_1


subsection \<open>Values and operations\<close>

datatype f64 = Fin rat | PInf | NInf | NaN

definition f64_of :: "rat \<Rightarrow> f64" where
  "f64_of x = (let r = rnd x in
     if 2 ^ 1024 \<le> r then PInf else if r \<le> - (2 ^ 1024) then NInf else Fin r)"

definition rat_u64 :: "u64 \<Rightarrow> rat" where
  "rat_u64 w = of_int (uint w)"

definition f64_of_u64 :: "u64 \<Rightarrow> f64" where
  "f64_of_u64 w = f64_of (rat_u64 w)"

definition f64_of_i64 :: "i64 \<Rightarrow> f64" where
  "f64_of_i64 w = f64_of (of_int (sint w))"

fun fneg :: "f64 \<Rightarrow> f64" where
  "fneg (Fin a) = Fin (- a)"
| "fneg PInf = NInf"
| "fneg NInf = PInf"
| "fneg NaN = NaN"

fun fadd :: "f64 \<Rightarrow> f64 \<Rightarrow> f64" where
  "fadd (Fin a) (Fin b) = f64_of (a + b)"
| "fadd NaN _ = NaN"
| "fadd _ NaN = NaN"
| "fadd PInf NInf = NaN"
| "fadd NInf PInf = NaN"
| "fadd PInf _ = PInf"
| "fadd NInf _ = NInf"
| "fadd _ PInf = PInf"
| "fadd _ NInf = NInf"

definition fsub :: "f64 \<Rightarrow> f64 \<Rightarrow> f64" where
  "fsub a b = fadd a (fneg b)"

definition inf_sgn :: "rat \<Rightarrow> f64" where
  "inf_sgn s = (if 0 < s then PInf else if s < 0 then NInf else NaN)"

fun fmul :: "f64 \<Rightarrow> f64 \<Rightarrow> f64" where
  "fmul (Fin a) (Fin b) = f64_of (a * b)"
| "fmul NaN _ = NaN"
| "fmul _ NaN = NaN"
| "fmul PInf PInf = PInf"
| "fmul PInf NInf = NInf"
| "fmul NInf PInf = NInf"
| "fmul NInf NInf = PInf"
| "fmul PInf (Fin b) = inf_sgn b"
| "fmul (Fin a) PInf = inf_sgn a"
| "fmul NInf (Fin b) = inf_sgn (- b)"
| "fmul (Fin a) NInf = inf_sgn (- a)"

fun fdiv :: "f64 \<Rightarrow> f64 \<Rightarrow> f64" where
  "fdiv (Fin a) (Fin b) = (if b = 0 then inf_sgn a else f64_of (a / b))"
| "fdiv NaN _ = NaN"
| "fdiv _ NaN = NaN"
| "fdiv (Fin a) _ = Fin 0"
| "fdiv PInf (Fin b) = (if b < 0 then NInf else PInf)"
| "fdiv NInf (Fin b) = (if b < 0 then PInf else NInf)"
| "fdiv _ _ = NaN"

fun flt :: "f64 \<Rightarrow> f64 \<Rightarrow> bool" where
  "flt (Fin a) (Fin b) = (a < b)"
| "flt NaN _ = False"
| "flt _ NaN = False"
| "flt NInf b = (b \<noteq> NInf)"
| "flt (Fin _) PInf = True"
| "flt _ _ = False"

fun fle :: "f64 \<Rightarrow> f64 \<Rightarrow> bool" where
  "fle (Fin a) (Fin b) = (a \<le> b)"
| "fle NaN _ = False"
| "fle _ NaN = False"
| "fle NInf _ = True"
| "fle _ PInf = True"
| "fle _ _ = False"

fun feq :: "f64 \<Rightarrow> f64 \<Rightarrow> bool" where
  "feq NaN _ = False"
| "feq _ NaN = False"
| "feq a b = (a = b)"

definition isNaN :: "f64 \<Rightarrow> bool" where
  "isNaN a = (a = NaN)"

definition isInf :: "f64 \<Rightarrow> bool" where
  "isInf a = (a = PInf \<or> a = NInf)"

text \<open>Go's built-in \<^verbatim>\<open>min\<close> and \<^verbatim>\<open>max\<close>: a NaN argument gives NaN.\<close>

definition fmin :: "f64 \<Rightarrow> f64 \<Rightarrow> f64" where
  "fmin a b = (if a = NaN \<or> b = NaN then NaN else if fle a b then a else b)"

definition fmax :: "f64 \<Rightarrow> f64 \<Rightarrow> f64" where
  "fmax a b = (if a = NaN \<or> b = NaN then NaN else if fle a b then b else a)"

text \<open>Truncation to \<^verbatim>\<open>int64\<close>; a value out of range gives the smallest integer, as
  the amd64 conversion instruction does.\<close>

fun i64_of_f64 :: "f64 \<Rightarrow> i64" where
  "i64_of_f64 (Fin a) =
     (let t = (if 0 \<le> a then \<lfloor>a\<rfloor> else \<lceil>a\<rceil>)
      in if - (2 ^ 63) \<le> t \<and> t < 2 ^ 63 then word_of_int t else word_of_int (- (2 ^ 63)))"
| "i64_of_f64 _ = word_of_int (- (2 ^ 63))"

text \<open>\<^verbatim>\<open>math.Sqrt\<close>, correctly rounded: the significand of the root is an integer
  square root, rounded up past the midpoint.\<close>

fun isqrt :: "nat \<Rightarrow> nat" where
  "isqrt n = (if n = 0 then 0 else
     let r = 2 * isqrt (n div 4) in if (r + 1) * (r + 1) \<le> n then r + 1 else r)"

declare isqrt.simps [simp del]

definition rsqrt :: "rat \<Rightarrow> rat" where
  "rsqrt x = (let u = ilog2 x div 2 - 52; q = x / 2 powi (2 * u); m = isqrt (nat \<lfloor>q\<rfloor>) in
     (if (of_nat m + 1 / 2) * (of_nat m + 1 / 2) < q then of_nat (m + 1) else of_nat m) * 2 powi u)"

fun fsqrt :: "f64 \<Rightarrow> f64" where
  "fsqrt (Fin a) = (if a < 0 then NaN else if a = 0 then Fin 0 else Fin (rsqrt a))"
| "fsqrt PInf = PInf"
| "fsqrt _ = NaN"

definition f0 :: f64 where "f0 = Fin 0"
definition f1 :: f64 where "f1 = Fin 1"

text \<open>A value the format can hold.\<close>

fun fvalid :: "f64 \<Rightarrow> bool" where
  "fvalid (Fin a) = (rnd a = a \<and> \<bar>a\<bar> < 2 ^ 1024)"
| "fvalid _ = True"

subsection \<open>The unit interval\<close>

fun in01 :: "f64 \<Rightarrow> bool" where
  "in01 (Fin a) = (0 \<le> a \<and> a \<le> 1)"
| "in01 _ = False"

lemma in01E: "in01 a \<Longrightarrow> (\<And>r. a = Fin r \<Longrightarrow> 0 \<le> r \<Longrightarrow> r \<le> 1 \<Longrightarrow> P) \<Longrightarrow> P"
  by (cases a) auto

lemma in01_iff: "in01 a \<longleftrightarrow> (\<exists>r. a = Fin r \<and> 0 \<le> r \<and> r \<le> 1)"
  by (cases a) auto

lemma in01_consts [simp]: "in01 f0" "in01 f1"
  by (simp_all add: f0_def f1_def)

lemma in01_not_special [simp]: "in01 a \<Longrightarrow> \<not> isNaN a" "in01 a \<Longrightarrow> \<not> isInf a"
  by (auto simp: isNaN_def isInf_def elim: in01E)

lemma big_f64: "(1::rat) < 2 ^ 1024"
  by (simp add: one_less_power)

lemma f64_of_01: "- 1 \<le> x \<Longrightarrow> x \<le> 1 \<Longrightarrow> f64_of x = Fin (rnd x)"
  using rnd_mono [of x 1] rnd_mono [of "- 1" x] big_f64 rnd_uminus [of 1]
  by (simp add: f64_of_def Let_def)

lemma f64_of_small: "\<bar>x\<bar> \<le> 2 ^ 1000 \<Longrightarrow> f64_of x = Fin (rnd x)"
proof -
  assume x: "\<bar>x\<bar> \<le> 2 ^ 1000"
  have e: "rnd (2 ^ 1000) = 2 ^ 1000" using rnd_exact [of 1 1000] by simp
  have lt: "(2::rat) ^ 1000 < 2 ^ 1024" by (rule power_strict_increasing) auto
  have "rnd x \<le> rnd (2 ^ 1000)" "rnd (- (2 ^ 1000)) \<le> rnd x"
    using x by (auto intro!: rnd_mono simp: abs_le_iff minus_le_iff)
  then have "rnd x \<le> 2 ^ 1000" "- (2 ^ 1000) \<le> rnd x" unfolding rnd_uminus e by auto
  then have "\<not> 2 ^ 1024 \<le> rnd x" "\<not> rnd x \<le> - (2 ^ 1024)" using lt by linarith+
  then show ?thesis by (simp only: f64_of_def Let_def if_False)
qed

text \<open>The overflow test of \<open>f64_of\<close> is skipped on values far below the limit, so that closed
  terms evaluate quickly.\<close>

lemma f64_of_code [code]:
  "f64_of x = (if \<bar>x\<bar> \<le> 1152921504606846976 then Fin (rnd x)
     else let r = rnd x in
       if 2 ^ 1024 \<le> r then PInf else if r \<le> - (2 ^ 1024) then NInf else Fin r)"
proof (cases "\<bar>x\<bar> \<le> 1152921504606846976")
  case True
  moreover have "(1152921504606846976 :: rat) \<le> 2 ^ 1000"
    using power_increasing [of 60 1000 "2 :: rat"] by simp
  ultimately have "f64_of x = Fin (rnd x)" by (intro f64_of_small) linarith
  with True show ?thesis by simp
qed (simp add: f64_of_def)

lemma f64_of_mono: "x \<le> y \<Longrightarrow> fle (f64_of x) (f64_of y)"
  using rnd_mono [of x y] big_f64 by (auto simp: f64_of_def Let_def)

lemma f64_of_self: "fvalid (Fin r) \<Longrightarrow> f64_of r = Fin r"
  by (auto simp: f64_of_def Let_def)

lemma f64_of_0 [simp]: "f64_of 0 = Fin 0"
  using big_f64 by (simp add: f64_of_def)

lemma f64_of_1 [simp]: "f64_of 1 = Fin 1"
  using big_f64 by (simp add: f64_of_def)

lemma in01_f64_of: "0 \<le> x \<Longrightarrow> x \<le> 1 \<Longrightarrow> in01 (f64_of x)"
  by (simp add: f64_of_01 rnd_bounds)

lemma in01_fmul: "in01 a \<Longrightarrow> in01 b \<Longrightarrow> in01 (fmul a b)"
  by (auto elim!: in01E intro!: in01_f64_of mult_le_one)

lemma fsub_01: "0 \<le> a \<Longrightarrow> a \<le> 1 \<Longrightarrow> fsub f1 (Fin a) = Fin (rnd (1 - a))"
  by (simp add: fsub_def f1_def f64_of_01)

lemma in01_fsub: "in01 a \<Longrightarrow> in01 (fsub f1 a)"
  by (auto elim!: in01E simp: fsub_01 rnd_bounds)

lemma fle_trans: "fle a b \<Longrightarrow> fle b c \<Longrightarrow> fle a c"
  by (cases a; cases b; cases c) auto

lemma fle_antisym: "fle a b \<Longrightarrow> fle b a \<Longrightarrow> a = b"
  by (cases a; cases b) auto

lemma flt_not_fle: "\<not> isNaN a \<Longrightarrow> \<not> isNaN b \<Longrightarrow> flt a b \<longleftrightarrow> \<not> fle b a"
  by (cases a; cases b) (auto simp: isNaN_def)

lemma in01_clamp: "a \<noteq> NaN \<Longrightarrow> in01 (fmax (fmin a f1) f0)"
  by (cases a) (auto simp: fmin_def fmax_def f0_def f1_def)

lemma in01_fmin: "in01 a \<Longrightarrow> fmin a f1 = a"
  by (auto elim!: in01E simp: fmin_def f1_def)

lemma in01_fmax: "in01 a \<Longrightarrow> fmax a f0 = a"
  by (auto elim!: in01E simp: fmax_def f0_def)

text \<open>Rounding is exact on a product with 0 or 1 and monotone in each factor.\<close>

lemma fmul_mono_01:
  assumes "in01 a" "in01 b" "in01 a'" "in01 b'" "fle a a'" "fle b b'"
  shows "fle (fmul a b) (fmul a' b')"
  using assms by (auto elim!: in01E intro!: f64_of_mono mult_mono)

lemma fsub_antimono_01: "in01 a \<Longrightarrow> in01 b \<Longrightarrow> fle a b \<Longrightarrow> fle (fsub f1 b) (fsub f1 a)"
  by (auto elim!: in01E simp: fsub_01 intro!: rnd_mono)

lemma fvalid_f64_of [simp]: "fvalid (f64_of x)"
  by (auto simp: f64_of_def Let_def)

lemma fvalid_consts [simp]: "fvalid f0" "fvalid f1"
  using big_f64 by (simp_all add: f0_def f1_def)

lemma fvalid_fneg [simp]: "fvalid (fneg a) = fvalid a"
  by (cases a) (auto simp: rnd_uminus)

lemma fvalid_fadd [simp]: "fvalid a \<Longrightarrow> fvalid b \<Longrightarrow> fvalid (fadd a b)"
  by (cases a; cases b) auto

lemma fvalid_fmul [simp]: "fvalid a \<Longrightarrow> fvalid b \<Longrightarrow> fvalid (fmul a b)"
  by (cases a; cases b) (auto simp: inf_sgn_def)

lemma fmul_le_left: "in01 a \<Longrightarrow> in01 b \<Longrightarrow> fvalid a \<Longrightarrow> fle (fmul a b) a"
  by (elim in01E) (metis f64_of_mono f64_of_self fmul.simps(1) mult_left_le)

lemma fmul_le_right: "in01 a \<Longrightarrow> in01 b \<Longrightarrow> fvalid b \<Longrightarrow> fle (fmul a b) b"
  by (elim in01E) (metis f64_of_mono f64_of_self fmul.simps(1) mult_left_le_one_le)

lemma fmul_one: "in01 a \<Longrightarrow> fvalid a \<Longrightarrow> fmul a f1 = a" "in01 a \<Longrightarrow> fvalid a \<Longrightarrow> fmul f1 a = a"
  by (auto elim!: in01E simp: f1_def f64_of_self)

lemma fmul_zero: "in01 a \<Longrightarrow> fmul a f0 = f0" "in01 a \<Longrightarrow> fmul f0 a = f0"
  by (auto elim!: in01E simp: f0_def)

lemma fsub_zero: "fsub f1 f0 = f1"
  by (simp add: f0_def fsub_01) (simp add: f1_def)

lemmas f64_unit = in01_fmul in01_fsub in01_clamp in01_consts

subsection \<open>Moving averages of an indicator\<close>

lemma one_minus_exact:
  assumes "1 / 2 \<le> e" and "e \<le> 1" and "rnd e = e"
  shows "rnd (1 - e) = 1 - e"
proof (cases "e = 1")
  case False
  have "ilog2 e < 0" using assms False by (intro ilog2_lessI) auto
  moreover have "- 1 \<le> ilog2 e" using assms by (intro ilog2_geI) auto
  ultimately have u: "ulp_exp e = - 53" using assms by (simp add: ulp_exp_def)
  then have e: "e = of_int (round_even (e / 2 powi (- 53))) * 2 powi (- 53)"
    using assms by (metis assms(3) rnd_def not_le zero_less_divide_1_iff zero_less_numeral)
  define j where "j = round_even (e / 2 powi (- 53))"
  have ej: "e = of_int j * 2 powi (- 53)" using e by (simp add: j_def)
  have "0 \<le> j" "j \<le> 2 ^ 53"
    using assms(1,2) ej by (auto simp: power_int_minus field_simps)
  moreover have "1 - e = of_int (2 ^ 53 - j) * 2 powi (- 53)"
    by (subst ej) (simp add: power_int_minus field_simps)
  moreover have "\<bar>2 ^ 53 - j\<bar> \<le> 2 ^ 53" using \<open>0 \<le> j\<close> \<open>j \<le> 2 ^ 53\<close> by simp
  moreover have "- 1074 \<le> (- 53 :: int)" by simp
  ultimately show ?thesis using rnd_exact [of "2 ^ 53 - j" "- 53"] by metis
qed simp

lemma ema_step_01:
  assumes r: "0 \<le> r" "r \<le> 1 / 2" and e: "in01 e" "fvalid e" and s: "s = f0 \<or> s = f1"
  shows "in01 (fadd e (fmul (Fin r) (fsub s e)))"
  using s
proof
  obtain x where x: "e = Fin x" "0 \<le> x" "x \<le> 1" "rnd x = x" using e by (auto elim: in01E)
  {
    assume s0: "s = f0"
    have d: "fsub s e = Fin (- x)" using s0 x by (simp add: fsub_def f0_def f64_of_01 rnd_uminus)
    have rx: "0 \<le> r * x" "r * x \<le> x" using r x by (auto intro: mult_left_le_one_le)
    have m: "fmul (Fin r) (Fin (- x)) = Fin (- rnd (r * x))"
      using rx x by (simp add: f64_of_01 rnd_uminus)
    have "rnd (r * x) \<le> x" using rnd_mono [OF rx(2)] x by simp
    then show "in01 (fadd e (fmul (Fin r) (fsub s e)))"
      using rnd_nonneg [OF rx(1)] x d m by (auto intro!: in01_f64_of)
  next
    assume s1: "s = f1"
    let ?d = "rnd (1 - x)"
    have d: "fsub s e = Fin ?d" using s1 x fsub_01 [of x] by simp
    have d01: "0 \<le> ?d" "?d \<le> 1" using x by (auto intro: rnd_bounds)
    have rd: "0 \<le> r * ?d" "r * ?d \<le> ?d" "r * ?d \<le> 1 / 2"
      using r d01 mult_mono [of r "1 / 2" ?d 1] by (auto intro: mult_left_le_one_le)
    have m: "fmul (Fin r) (Fin ?d) = Fin (rnd (r * ?d))" using rd d01 by (simp add: f64_of_01)
    have half: "rnd (1 / 2) = 1 / 2" using rnd_exact [of 1 "- 1"] by (simp add: power_int_minus)
    have "rnd (r * ?d) \<le> 1 - x"
    proof (cases "1 / 2 \<le> x")
      case True
      then have "?d = 1 - x" using x by (intro one_minus_exact) auto
      then show ?thesis using rnd_mono [OF rd(2)] by simp
    next
      case False
      have "rnd (r * ?d) \<le> 1 / 2" using rnd_mono [OF rd(3)] half by simp
      with False show ?thesis by linarith
    qed
    then show "in01 (fadd e (fmul (Fin r) (fsub s e)))"
      using rnd_nonneg [OF rd(1)] x d m by (auto intro!: in01_f64_of)
  }
qed

subsection \<open>Counts as floats\<close>

lemma f64_of_not_NaN [simp]: "f64_of x \<noteq> NaN"
  by (simp add: f64_of_def Let_def)

lemma rat_u64_bounds: "0 \<le> rat_u64 w" "rat_u64 w \<le> 2 ^ 64" "w \<noteq> 0 \<Longrightarrow> 1 \<le> rat_u64 w"
proof -
  have "uint w < 2 ^ 64" using uint_lt2p [of w] by simp
  then have "(of_int (uint w) :: rat) \<le> of_int (2 ^ 64)" by (simp only: of_int_le_iff less_imp_le)
  then show "rat_u64 w \<le> 2 ^ 64" unfolding rat_u64_def by (simp only: of_int_power of_int_numeral)
  have "(of_int 0 :: rat) \<le> of_int (uint w)" by (simp only: of_int_le_iff uint_nonnegative)
  then show "0 \<le> rat_u64 w" unfolding rat_u64_def by (simp only: of_int_0)
  assume "w \<noteq> 0"
  then have "1 \<le> uint w" by (metis int_one_le_iff_zero_less uint_0_iff uint_nonnegative order.order_iff_strict)
  then have "(of_int 1 :: rat) \<le> of_int (uint w)" by (simp only: of_int_le_iff)
  then show "1 \<le> rat_u64 w" unfolding rat_u64_def by (simp only: of_int_1)
qed

lemma rat_u64_mono: "a \<le> b \<Longrightarrow> rat_u64 a \<le> rat_u64 b"
  unfolding rat_u64_def word_le_def by (simp only: of_int_le_iff)

lemma f64_of_u64_Fin: "f64_of_u64 w = Fin (rnd (rat_u64 w))"
proof -
  have "(2::rat) ^ 64 \<le> 2 ^ 1000" by (rule power_increasing) auto
  then have "rat_u64 w \<le> 2 ^ 1000" using rat_u64_bounds(2) by (rule order_trans [rotated])
  then show ?thesis using rat_u64_bounds(1) [of w] by (simp add: f64_of_u64_def f64_of_small)
qed

lemma rnd_u64_ge_1: "w \<noteq> 0 \<Longrightarrow> 1 \<le> rnd (rat_u64 w)"
  using rnd_mono [of 1 "rat_u64 w"] rat_u64_bounds(3) by simp

lemma ratio_01:
  assumes "b \<noteq> 0"
  shows "in01 (fmin (fdiv (f64_of_u64 a) (f64_of_u64 b)) f1)"
proof -
  let ?x = "rnd (rat_u64 a)" and ?y = "rnd (rat_u64 b)"
  have y: "1 \<le> ?y" using assms by (rule rnd_u64_ge_1)
  have "0 \<le> ?x / ?y" using y by (simp add: rnd_nonneg rat_u64_bounds(1))
  then have "0 \<le> rnd (?x / ?y)" by (rule rnd_nonneg)
  moreover have "fdiv (f64_of_u64 a) (f64_of_u64 b) = f64_of (?x / ?y)" using y by (simp add: f64_of_u64_Fin)
  ultimately show ?thesis by (auto simp: f64_of_def Let_def fmin_def f1_def)
qed

text \<open>A positive count divided by a total at least as large is a proportion in (0, 1].\<close>

lemma proportion:
  assumes "a \<noteq> 0" and "a \<le> b"
  shows "\<exists>r. fdiv (f64_of_u64 a) (f64_of_u64 b) = Fin r \<and> 0 < r \<and> r \<le> 1"
proof -
  let ?x = "rnd (rat_u64 a)" and ?y = "rnd (rat_u64 b)"
  have x: "1 \<le> ?x" using assms(1) by (rule rnd_u64_ge_1)
  have xy: "?x \<le> ?y" using assms(2) by (intro rnd_mono rat_u64_mono)
  have "?y \<le> rnd (2 ^ 64)" by (intro rnd_mono rat_u64_bounds(2))
  then have y: "?y \<le> 2 ^ 64" using rnd_exact [of 1 64] by simp
  have q1: "0 \<le> ?x / ?y" "?x / ?y \<le> 1" using x xy by auto
  have q2: "1 / 2 ^ 64 \<le> ?x / ?y" by (rule frac_le) (use x xy y in linarith)+
  have p: "1 / 2 ^ 64 = (2 powi (- 64) :: rat)" by (simp add: power_int_minus)
  have e: "rnd (1 / 2 ^ 64) = 1 / 2 ^ 64" unfolding p by (rule rnd_pow2) simp
  have "- 1 \<le> ?x / ?y" using q1(1) by (rule order_trans [rotated]) simp
  then have fin: "f64_of (?x / ?y) = Fin (rnd (?x / ?y))" using q1(2) by (rule f64_of_01)
  have "fdiv (f64_of_u64 a) (f64_of_u64 b) = Fin (rnd (?x / ?y))"
    using x xy fin by (simp add: f64_of_u64_Fin)
  moreover have "1 / 2 ^ 64 \<le> rnd (?x / ?y)" using rnd_mono [OF q2] e by simp
  then have "0 < rnd (?x / ?y)" by (rule less_le_trans [rotated]) simp
  moreover have "rnd (?x / ?y) \<le> 1" using q1 by (intro rnd_le_1)
  ultimately show ?thesis by blast
qed

end
