(* ===== verification/Event.thy ===== *)
theory Event
  imports Go_Time Float64
begin

text \<open>
  The event package (\<^verbatim>\<open>event/event.go\<close>, \<^verbatim>\<open>event/execution.go\<close>): the
  normalized record of one action and its validation. The string-typed enumerations of the source
  stay strings, since a Go value of such a type can hold any string and \<open>valid\<close> is what
  refuses the others. A dynamic attribute value is a \<open>goany\<close>; a dynamic type the sources do not
  look into is carried by its printed form. The theorems say what a validated event guarantees and
  that an elapsed time is computed without wrapping.
\<close>

subsection \<open>Attribute values\<close>

datatype goany =
    AnyFloat64 f64
  | AnyFloat32 f64
  | AnyInt i64
  | AnyInt32 u32
  | AnyInt64 i64
  | AnyBool bool
  | AnyString string
  | AnyOther string

subsection \<open>Actors, operations, targets\<close>

datatype event_error =
    ErrMissingID
  | ErrMissingTimestamp
  | ErrMissingActorID
  | ErrInvalidActorType string
  | ErrInvalidIdentityConfidence f64
  | ErrMissingOperationName
  | ErrInvalidOperationCategory string
  | ErrInvalidOperationDirection string
  | ErrInvalidTimestampYear int
  | ErrInvalidTimestampZone int
  | ErrInvalidDuration u64

type_synonym ActorType = string

definition ActorTypes :: "ActorType list" where
  "ActorTypes = [''service'', ''user'', ''service_account'', ''ai_agent'', ''device'', ''unknown'']"

definition ActorType_valid :: "ActorType \<Rightarrow> bool" where
  "ActorType_valid t = List.member ActorTypes t"

record Actor =
  actor_ID :: string
  actor_Type :: ActorType
  actor_IdentityConfidence :: f64

definition Actor_validate :: "Actor \<Rightarrow> event_error option" where
  "Actor_validate a =
     (if actor_ID a = '''' then Some ErrMissingActorID
      else if \<not> ActorType_valid (actor_Type a) then Some (ErrInvalidActorType (actor_Type a))
      else if isNaN (actor_IdentityConfidence a) \<or> flt (actor_IdentityConfidence a) f0
              \<or> flt f1 (actor_IdentityConfidence a)
        then Some (ErrInvalidIdentityConfidence (actor_IdentityConfidence a))
      else None)"

type_synonym OperationCategory = string

definition OperationCategories :: "OperationCategory list" where
  "OperationCategories = [''http'', ''db'', ''rpc'', ''tool'', ''external'']"

definition OperationCategory_valid :: "OperationCategory \<Rightarrow> bool" where
  "OperationCategory_valid c = List.member OperationCategories c"

type_synonym OperationDirection = string

definition OperationDirections :: "OperationDirection list" where
  "OperationDirections = ['''', ''inbound'', ''outbound'']"

definition OperationDirection_valid :: "OperationDirection \<Rightarrow> bool" where
  "OperationDirection_valid d = List.member OperationDirections d"

type_synonym TargetCategory = string

definition TargetCategories :: "TargetCategory list" where
  "TargetCategories = ['''', ''internal'', ''external'', ''database'']"

definition TargetCategory_valid :: "TargetCategory \<Rightarrow> bool" where
  "TargetCategory_valid c = List.member TargetCategories c"

record Operation =
  op_Category :: OperationCategory
  op_Name :: string
  op_Direction :: OperationDirection

definition Operation_validate :: "Operation \<Rightarrow> event_error option" where
  "Operation_validate p =
     (if \<not> OperationCategory_valid (op_Category p)
        then Some (ErrInvalidOperationCategory (op_Category p))
      else if op_Name p = '''' then Some ErrMissingOperationName
      else if \<not> OperationDirection_valid (op_Direction p)
        then Some (ErrInvalidOperationDirection (op_Direction p))
      else None)"

record Target =
  target_Name :: string
  target_Category :: TargetCategory

type_synonym ApprovalStatus = string

abbreviation (input) ApprovalUnspecified :: ApprovalStatus where "ApprovalUnspecified \<equiv> ''''"
abbreviation (input) ApprovalNotRequired :: ApprovalStatus where "ApprovalNotRequired \<equiv> ''not_required''"
abbreviation (input) ApprovalRequired :: ApprovalStatus where "ApprovalRequired \<equiv> ''required''"
abbreviation (input) ApprovalApproved :: ApprovalStatus where "ApprovalApproved \<equiv> ''approved''"
abbreviation (input) ApprovalDenied :: ApprovalStatus where "ApprovalDenied \<equiv> ''denied''"

subsection \<open>Execution evidence\<close>

type_synonym SpanStatus = string

definition SpanStatus_Valid :: "SpanStatus \<Rightarrow> bool" where
  "SpanStatus_Valid s = List.member [''unset'', ''ok'', ''error''] s"

type_synonym SpanLineage = string

definition SpanLineage_Valid :: "SpanLineage \<Rightarrow> bool" where
  "SpanLineage_Valid l = List.member [''root'', ''child''] l"

definition MaxDurationNanos :: u64 where
  "MaxDurationNanos = 9223372036854775807"

record Execution =
  ex_DurationNanos :: u64
  ex_DurationObserved :: bool
  ex_Status :: SpanStatus

definition DurationFrom :: "u64 \<Rightarrow> u64 \<Rightarrow> u64 \<times> bool" where
  "DurationFrom startNanos endNanos =
     (if startNanos = 0 \<or> endNanos = 0 then (0, False)
      else if endNanos < startNanos then (0, False)
      else let elapsed = endNanos - startNanos in
        if MaxDurationNanos < elapsed then (0, False) else (elapsed, True))"

definition Execution_validate :: "Execution \<Rightarrow> event_error option" where
  "Execution_validate x =
     (if ex_DurationObserved x \<and> MaxDurationNanos < ex_DurationNanos x
      then Some (ErrInvalidDuration (ex_DurationNanos x)) else None)"

subsection \<open>Events\<close>

record Context =
  ctx_Environment :: string
  ctx_TraceID :: string
  ctx_SpanID :: string
  ctx_SessionID :: string
  ctx_DelegatedFrom :: string
  ctx_ApprovalStatus :: ApprovalStatus
  ctx_ParentSpanID :: string
  ctx_SpanLineage :: SpanLineage

record Event =
  ev_ID :: string
  ev_Timestamp :: gotime
  ev_Actor :: Actor
  ev_Operation :: Operation
  ev_Target :: Target
  ev_Attributes :: "(string, goany) fmap"
  ev_Context :: Context
  ev_Execution :: Execution

definition validateTimestamp :: "gotime \<Rightarrow> event_error option" where
  "validateTimestamp t =
     (if Time_Year t < 0 \<or> 9999 < Time_Year t then Some (ErrInvalidTimestampYear (Time_Year t))
      else if t_offset t \<le> - (24 * 60 * 60) \<or> 24 * 60 * 60 \<le> t_offset t
        then Some (ErrInvalidTimestampZone (t_offset t))
      else None)"

definition orElse :: "'e option \<Rightarrow> 'e option \<Rightarrow> 'e option" where
  "orElse a b = (case a of Some e \<Rightarrow> Some e | None \<Rightarrow> b)"

definition Event_Validate :: "Event \<Rightarrow> event_error option" where
  "Event_Validate e =
     (if ev_ID e = '''' then Some ErrMissingID
      else if Time_IsZero (ev_Timestamp e) then Some ErrMissingTimestamp
      else orElse (validateTimestamp (ev_Timestamp e))
        (orElse (Actor_validate (ev_Actor e))
          (orElse (Operation_validate (ev_Operation e))
            (Execution_validate (ev_Execution e)))))"

subsection \<open>What a validated event guarantees\<close>

lemma orElse_None_iff [simp]: "orElse a b = None \<longleftrightarrow> a = None \<and> b = None"
  by (cases a) (auto simp: orElse_def)

lemma confidence_range:
  "\<not> (isNaN c \<or> flt c f0 \<or> flt f1 c) \<longleftrightarrow> in01 c"
  by (cases c) (auto simp: isNaN_def f0_def f1_def)

lemma Actor_validate_None_iff:
  "Actor_validate a = None \<longleftrightarrow>
     actor_ID a \<noteq> '''' \<and> ActorType_valid (actor_Type a) \<and> in01 (actor_IdentityConfidence a)"
  using confidence_range [of "actor_IdentityConfidence a"] by (auto simp: Actor_validate_def)

lemma Operation_validate_None_iff:
  "Operation_validate p = None \<longleftrightarrow>
     OperationCategory_valid (op_Category p) \<and> op_Name p \<noteq> '''' \<and>
     OperationDirection_valid (op_Direction p)"
  by (auto simp: Operation_validate_def)

lemma Execution_validate_None_iff:
  "Execution_validate x = None \<longleftrightarrow>
     (ex_DurationObserved x \<longrightarrow> ex_DurationNanos x \<le> MaxDurationNanos)"
  by (auto simp: Execution_validate_def not_less)

lemma validateTimestamp_None_iff:
  "validateTimestamp t = None \<longleftrightarrow>
     Time_Year t \<in> {0..9999} \<and> \<bar>t_offset t\<bar> < 24 * 60 * 60"
  by (auto simp: validateTimestamp_def)

lemmas validate_iffs = Actor_validate_None_iff Operation_validate_None_iff
  Execution_validate_None_iff validateTimestamp_None_iff

text \<open>
  An event passes \<open>Event_Validate\<close> exactly when its identifier is set, its timestamp is a
  non-zero instant of a year between 0 and 9999 with an offset below a day, its actor has an
  identifier, a known type and a finite identity confidence in the unit interval, its operation has a
  known category, a name and a known direction, and an observed duration is at most the largest
  signed 64-bit count.
\<close>

theorem Event_Validate_iff:
  "Event_Validate e = None \<longleftrightarrow>
     ev_ID e \<noteq> '''' \<and> t_ns (ev_Timestamp e) \<noteq> 0 \<and>
     Time_Year (ev_Timestamp e) \<in> {0..9999} \<and> \<bar>t_offset (ev_Timestamp e)\<bar> < 86400 \<and>
     actor_ID (ev_Actor e) \<noteq> '''' \<and> ActorType_valid (actor_Type (ev_Actor e)) \<and>
     in01 (actor_IdentityConfidence (ev_Actor e)) \<and>
     OperationCategory_valid (op_Category (ev_Operation e)) \<and> op_Name (ev_Operation e) \<noteq> '''' \<and>
     OperationDirection_valid (op_Direction (ev_Operation e)) \<and>
     (\<not> ex_DurationObserved (ev_Execution e) \<or>
       ex_DurationNanos (ev_Execution e) \<le> MaxDurationNanos)"
  by (auto simp: Event_Validate_def validate_iffs Time_IsZero_def)

lemma DurationFrom_observed:
  "DurationFrom s e = (d, True) \<longleftrightarrow>
     s \<noteq> 0 \<and> e \<noteq> 0 \<and> s \<le> e \<and> d = e - s \<and> d \<le> MaxDurationNanos"
  by (auto simp: DurationFrom_def Let_def not_less)

text \<open>
  \<open>DurationFrom\<close> reports an observed duration exactly when both ends are present, the end
  does not precede the start and the difference, taken over the integers, fits the signed range; the
  reported value is that difference, with no wrap-around, and every other input is unobserved with
  duration zero.
\<close>

theorem DurationFrom_exact:
  "DurationFrom s e =
     (if 0 < uint s \<and> 0 < uint e \<and> uint s \<le> uint e \<and> uint e - uint s \<le> 2 ^ 63 - 1
      then (word_of_int (uint e - uint s), True) else (0, False))"
proof -
  have z: "\<And>w :: u64. (w = 0) = (\<not> 0 < uint w)"
    by (metis uint_0_iff uint_lt_0 linorder_not_less order.order_iff_strict uint_nonnegative)
  have m: "uint MaxDurationNanos = 2 ^ 63 - 1" by (simp add: MaxDurationNanos_def)
  show ?thesis
  proof (cases "s \<le> e")
    case True
    then have le: "uint s \<le> uint e" by (simp add: word_le_def)
    have d: "uint (e - s) = uint e - uint s" using True by (simp add: uint_minus_simple_alt word_le_def)
    show ?thesis using True le d m z [of s] z [of e]
      by (auto simp: DurationFrom_def Let_def word_less_def not_less word_of_int_minus)
  next
    case False
    then have "\<not> uint s \<le> uint e" by (simp add: word_le_def)
    then show ?thesis using False by (auto simp: DurationFrom_def not_le)
  qed
qed

end
