(* ===== verification/Features.thy ===== *)
theory Features
  imports Event
begin

text \<open>
  Feature extraction (\<^verbatim>\<open>internal/features/features.go\<close>): an event is split into the
  stable dimensions a fingerprint is computed from and the volatile ones the anomaly stage reads. A
  millisecond attribute of an integer type is scaled with the wrap-around of 64-bit multiplication,
  one of a floating-point type by a truncating conversion.
\<close>

record StableFeatures =
  sf_ActorType :: ActorType
  sf_OperationCategory :: OperationCategory
  sf_OperationName :: string
  sf_TargetName :: string
  sf_TargetCategory :: TargetCategory
  sf_Environment :: string

record VolatileFeatures =
  vf_Timestamp :: gotime
  vf_Latency :: i64
  vf_HasLatency :: bool
  vf_Error :: bool
  vf_DelegatedFrom :: string

record Features =
  ft_Stable :: StableFeatures
  ft_Volatile :: VolatileFeatures

definition AttrDurationMS :: string where "AttrDurationMS = ''duration_ms''"
definition AttrError :: string where "AttrError = ''error''"

definition Millisecond :: i64 where "Millisecond = 1000000"

definition durationMillisAttr :: "(string, goany) fmap \<Rightarrow> string \<Rightarrow> i64 \<times> bool" where
  "durationMillisAttr attrs key =
     (case fmlookup attrs key of
        None \<Rightarrow> (0, False)
      | Some (AnyFloat64 n) \<Rightarrow> (i64_of_f64 (fmul n (f64_of_i64 Millisecond)), True)
      | Some (AnyFloat32 n) \<Rightarrow> (i64_of_f64 (fmul n (f64_of_i64 Millisecond)), True)
      | Some (AnyInt n) \<Rightarrow> (n * Millisecond, True)
      | Some (AnyInt32 n) \<Rightarrow> (scast n * Millisecond, True)
      | Some (AnyInt64 n) \<Rightarrow> (n * Millisecond, True)
      | Some _ \<Rightarrow> (0, False))"

definition boolAttr :: "(string, goany) fmap \<Rightarrow> string \<Rightarrow> bool" where
  "boolAttr attrs key =
     (case fmlookup attrs key of Some (AnyBool b) \<Rightarrow> b | _ \<Rightarrow> False)"

definition Extract :: "Event \<Rightarrow> Features" where
  "Extract e =
     (let (latency, hasLatency) = durationMillisAttr (ev_Attributes e) AttrDurationMS in
      \<lparr>ft_Stable =
         \<lparr>sf_ActorType = actor_Type (ev_Actor e),
          sf_OperationCategory = op_Category (ev_Operation e),
          sf_OperationName = op_Name (ev_Operation e),
          sf_TargetName = target_Name (ev_Target e),
          sf_TargetCategory = target_Category (ev_Target e),
          sf_Environment = ctx_Environment (ev_Context e)\<rparr>,
       ft_Volatile =
         \<lparr>vf_Timestamp = ev_Timestamp e,
          vf_Latency = latency,
          vf_HasLatency = hasLatency,
          vf_Error = boolAttr (ev_Attributes e) AttrError,
          vf_DelegatedFrom = ctx_DelegatedFrom (ev_Context e)\<rparr>\<rparr>)"

lemma Extract_stable [simp, go_record]:
  "sf_ActorType (ft_Stable (Extract e)) = actor_Type (ev_Actor e)"
  "sf_OperationCategory (ft_Stable (Extract e)) = op_Category (ev_Operation e)"
  "sf_OperationName (ft_Stable (Extract e)) = op_Name (ev_Operation e)"
  "sf_TargetName (ft_Stable (Extract e)) = target_Name (ev_Target e)"
  "sf_TargetCategory (ft_Stable (Extract e)) = target_Category (ev_Target e)"
  "sf_Environment (ft_Stable (Extract e)) = ctx_Environment (ev_Context e)"
  by (simp_all add: Extract_def split_def Let_def)

lemma Extract_volatile [simp, go_record]:
  "vf_Timestamp (ft_Volatile (Extract e)) = ev_Timestamp e"
  "vf_DelegatedFrom (ft_Volatile (Extract e)) = ctx_DelegatedFrom (ev_Context e)"
  by (simp_all add: Extract_def split_def Let_def)

text \<open>The stable part does not look at the timestamp, the attributes, the correlation
  identifiers or the execution evidence of an event.\<close>

lemma Extract_stable_cong:
  assumes "ev_Actor e = ev_Actor e'" and "ev_Operation e = ev_Operation e'"
    and "ev_Target e = ev_Target e'"
    and "ctx_Environment (ev_Context e) = ctx_Environment (ev_Context e')"
  shows "ft_Stable (Extract e) = ft_Stable (Extract e')"
  using assms by (simp add: Extract_def split_def Let_def)

end
