(* ===== verification/Fingerprint.thy ===== *)
theory Fingerprint
  imports Features
begin

unbundle bit_operations_syntax

text \<open>
  Fingerprints (\<^verbatim>\<open>internal/fingerprint/fingerprint.go\<close>): the 64-bit FNV-1a hash of
  the stable features, written in lower-case hexadecimal. \<open>fp_stream\<close> is the byte stream that
  \<open>writeField\<close> feeds into the hash. The stream determines the features when no field holds a NUL
  byte, and does not when one does.
\<close>

record Fingerprint =
  fp_ID :: string
  fp_Stable :: StableFeatures

definition fingerprintVersion :: string where "fingerprintVersion = ''1''"

subsection \<open>hash/fnv and strconv\<close>

definition fnv_offset64 :: u64 where "fnv_offset64 = 14695981039346656037"
definition fnv_prime64 :: u64 where "fnv_prime64 = 1099511628211"

fun fnv_write :: "u64 \<Rightarrow> string \<Rightarrow> u64" where
  "fnv_write h [] = h"
| "fnv_write h (c # cs) = fnv_write ((h XOR of_char c) * fnv_prime64) cs"

definition hex_digit :: "nat \<Rightarrow> char" where
  "hex_digit d = ''0123456789abcdef'' ! d"

fun hex_nat :: "nat \<Rightarrow> string" where
  "hex_nat n = (if n < 16 then [hex_digit n] else hex_nat (n div 16) @ [hex_digit (n mod 16)])"

declare hex_nat.simps [simp del]

definition FormatUint16 :: "u64 \<Rightarrow> string" where
  "FormatUint16 w = hex_nat (unat w)"

subsection \<open>The fingerprint\<close>

definition nul :: char where "nul = CHR 0x00"

definition writeField :: "u64 \<Rightarrow> string \<Rightarrow> u64" where
  "writeField h s = fnv_write (fnv_write h s) [nul]"

definition Fingerprint_Compute :: "StableFeatures \<Rightarrow> Fingerprint" where
  "Fingerprint_Compute sf =
     (let h0 = writeField fnv_offset64 fingerprintVersion;
          h1 = writeField h0 (sf_ActorType sf);
          h2 = writeField h1 (sf_OperationCategory sf);
          h3 = writeField h2 (sf_OperationName sf);
          h4 = writeField h3 (sf_TargetName sf);
          h5 = writeField h4 (sf_TargetCategory sf);
          h6 = writeField h5 (sf_Environment sf)
      in \<lparr>fp_ID = FormatUint16 h6, fp_Stable = sf\<rparr>)"

subsection \<open>The hashed stream\<close>

definition fp_fields :: "StableFeatures \<Rightarrow> string list" where
  "fp_fields s = [fingerprintVersion, sf_ActorType s, sf_OperationCategory s, sf_OperationName s,
     sf_TargetName s, sf_TargetCategory s, sf_Environment s]"

definition fp_stream :: "StableFeatures \<Rightarrow> string" where
  "fp_stream s = concat (map (\<lambda>f. f @ [nul]) (fp_fields s))"

lemma fnv_write_append [simp]: "fnv_write h (xs @ ys) = fnv_write (fnv_write h xs) ys"
  by (induction xs arbitrary: h) auto

lemma fp_ID_stream: "fp_ID (Fingerprint_Compute s) = FormatUint16 (fnv_write fnv_offset64 (fp_stream s))"
  by (simp add: Fingerprint_Compute_def fp_stream_def fp_fields_def writeField_def Let_def)

lemma fp_Stable_Compute [simp]: "fp_Stable (Fingerprint_Compute s) = s"
  by (simp add: Fingerprint_Compute_def Let_def)

lemma append_nul_inject:
  assumes "nul \<notin> set a" and "nul \<notin> set b"
  shows "a @ nul # xs = b @ nul # ys \<longleftrightarrow> a = b \<and> xs = ys"
  using assms
proof (induction a arbitrary: b)
  case Nil
  then show ?case by (cases b) auto
next
  case (Cons c cs)
  then show ?case by (cases b) auto
qed

lemma framed_inject:
  "length fs = length gs \<Longrightarrow> \<forall>f \<in> set fs \<union> set gs. nul \<notin> set f \<Longrightarrow>
   concat (map (\<lambda>f. f @ [nul]) fs) = concat (map (\<lambda>f. f @ [nul]) gs) \<longleftrightarrow> fs = gs"
  by (induction fs gs rule: list_induct2) (auto simp: append_nul_inject)

lemma fp_fields_inject: "fp_fields s = fp_fields t \<longleftrightarrow> s = t"
  by (cases s; cases t) (auto simp: fp_fields_def)

definition nul_free :: "StableFeatures \<Rightarrow> bool" where
  "nul_free s = list_all (\<lambda>f. nul \<notin> set f) (fp_fields s)"

lemma fp_stream_inject:
  assumes "nul_free s" and "nul_free t"
  shows "fp_stream s = fp_stream t \<longleftrightarrow> s = t"
proof -
  have "fp_stream s = fp_stream t \<longleftrightarrow> fp_fields s = fp_fields t"
    unfolding fp_stream_def using assms
    by (intro framed_inject) (auto simp: nul_free_def list_all_iff fp_fields_def)
  then show ?thesis by (simp add: fp_fields_inject)
qed

subsection \<open>Shape of the identifier\<close>

lemma hex_nat_ne [simp]: "hex_nat n \<noteq> []" "[] \<noteq> hex_nat n"
  by (subst hex_nat.simps, simp)+

lemma hex_digit_chars: "d < 16 \<Longrightarrow> hex_digit d \<in> set ''0123456789abcdef''"
  unfolding hex_digit_def by (rule nth_mem) simp

lemma hex_nat_chars: "set (hex_nat n) \<subseteq> set ''0123456789abcdef''"
proof (induction n rule: hex_nat.induct)
  case (1 n)
  show ?case
    using 1 hex_digit_chars [of n] hex_digit_chars [of "n mod 16"]
    by (subst hex_nat.simps) auto
qed

lemma fp_ID_ne [simp]: "fp_ID (Fingerprint_Compute s) \<noteq> ''''"
  by (simp add: Fingerprint_Compute_def FormatUint16_def Let_def)

lemma fp_ID_chars: "set (fp_ID (Fingerprint_Compute s)) \<subseteq> set ''0123456789abcdef''"
  using hex_nat_chars by (simp add: Fingerprint_Compute_def FormatUint16_def Let_def)

text \<open>A hexadecimal rendering loses nothing: equal identifiers mean equal hashes.\<close>

lemma hex_digit_inject: "d < 16 \<Longrightarrow> e < 16 \<Longrightarrow> hex_digit d = hex_digit e \<longleftrightarrow> d = e"
  unfolding hex_digit_def by (subst nth_eq_iff_index_eq) auto

lemma hex_nat_inject: "hex_nat m = hex_nat n \<longleftrightarrow> m = n"
proof (induction m arbitrary: n rule: hex_nat.induct)
  case (1 m)
  show ?case
  proof (cases "m < 16 \<or> n < 16")
    case True
    then show ?thesis
      by (auto simp: hex_nat.simps [of m] hex_nat.simps [of n] hex_digit_inject split: if_splits)
  next
    case False
    then have "hex_nat m = hex_nat n \<longleftrightarrow> m div 16 = n div 16 \<and> m mod 16 = n mod 16"
      using 1 [of "n div 16"]
      by (auto simp: hex_nat.simps [of m] hex_nat.simps [of n] hex_digit_inject)
    then show ?thesis by (metis div_mult_mod_eq)
  qed
qed

lemma FormatUint16_inject: "FormatUint16 a = FormatUint16 b \<longleftrightarrow> a = b"
  by (simp add: FormatUint16_def hex_nat_inject word_unat_eq_iff)

end
