(* ===== verification/Baseline.thy ===== *)
theory Baseline
  imports Fingerprint
begin

text \<open>
  The learned statistics of one actor (\<^verbatim>\<open>internal/baseline/baseline.go\<close>). The
  steps of \<^verbatim>\<open>FingerprintStats.observe\<close> are one definition per block of the method,
  composed in its order; \<open>Baseline_Observe\<close> is the whole method, with its admission control, the
  update of the predecessor's counters and the guarded shift of the history window. The lemmas show
  the bounds on every map, that nothing learned is evicted, and that the counters of transitions and
  of 3-grams stay below the totals they are divided by.
\<close>

subsection \<open>Constants\<close>

definition emaAlpha :: f64 where "emaAlpha = f64_of (1 / 5)"
definition oneMinusEmaAlpha :: f64 where "oneMinusEmaAlpha = f64_of (4 / 5)"
definition hourActivityAlpha :: f64 where "hourActivityAlpha = f64_of (1 / 50)"
definition maxPredecessors :: nat where "maxPredecessors = 64"
definition maxTrigramPredecessors :: nat where "maxTrigramPredecessors = 64"
definition maxDelegators :: nat where "maxDelegators = 64"
definition maxFingerprints :: nat where "maxFingerprints = 512"

subsection \<open>Keys\<close>

record TrigramKey =
  tk_First :: string
  tk_Second :: string

definition trigramKeySeparator :: char where "trigramKeySeparator = CHR ''|''"

definition TrigramKey_MarshalText :: "TrigramKey \<Rightarrow> string" where
  "TrigramKey_MarshalText k = tk_First k @ [trigramKeySeparator] @ tk_Second k"

text \<open>\<^verbatim>\<open>strings.Cut\<close> with a separator of one byte: the text before and after its
  first occurrence.\<close>

fun strings_Cut :: "string \<Rightarrow> char \<Rightarrow> (string \<times> string) option" where
  "strings_Cut [] sep = None"
| "strings_Cut (c # cs) sep =
     (if c = sep then Some ([], cs)
      else map_option (\<lambda>(a, b). (c # a, b)) (strings_Cut cs sep))"

definition TrigramKey_UnmarshalText :: "string \<Rightarrow> (string, TrigramKey) result" where
  "TrigramKey_UnmarshalText txt =
     (case strings_Cut txt trigramKeySeparator of
        None \<Rightarrow> Inl txt
      | Some (a, b) \<Rightarrow> Inr \<lparr>tk_First = a, tk_Second = b\<rparr>)"

record Key =
  key_Scope :: string
  key_ActorID :: string
  key_Environment :: string

subsection \<open>Statistics of one fingerprint\<close>

record FingerprintStats =
  fs_Count :: u64
  fs_FirstObserved :: gotime
  fs_LastObserved :: gotime
  fs_LatencyObservations :: u64
  fs_LatencyMean :: f64
  fs_LatencyVariance :: f64
  fs_IntervalObservations :: u64
  fs_IntervalMean :: f64
  fs_IntervalVariance :: f64
  fs_ErrorRate :: f64
  fs_TimePatternObservations :: u64
  fs_HourActivity :: "f64 list"
  fs_Stable :: StableFeatures
  fs_PredecessorCounts :: "(string, u64) fmap"
  fs_OutgoingTransitionTotal :: u64
  fs_TrigramCounts :: "(TrigramKey, u64) fmap"
  fs_TrigramContinuationTotal :: "(string, u64) fmap"

definition zeroStable :: StableFeatures where
  "zeroStable = \<lparr>sf_ActorType = '''', sf_OperationCategory = '''', sf_OperationName = '''',
     sf_TargetName = '''', sf_TargetCategory = '''', sf_Environment = ''''\<rparr>"

definition zeroStats :: FingerprintStats where
  "zeroStats = \<lparr>fs_Count = 0, fs_FirstObserved = zeroTime, fs_LastObserved = zeroTime,
     fs_LatencyObservations = 0, fs_LatencyMean = f0, fs_LatencyVariance = f0,
     fs_IntervalObservations = 0, fs_IntervalMean = f0, fs_IntervalVariance = f0,
     fs_ErrorRate = f0, fs_TimePatternObservations = 0, fs_HourActivity = replicate 24 f0,
     fs_Stable = zeroStable, fs_PredecessorCounts = fmempty, fs_OutgoingTransitionTotal = 0,
     fs_TrigramCounts = fmempty, fs_TrigramContinuationTotal = fmempty\<rparr>"

definition recordPredecessor :: "(string, u64) fmap \<Rightarrow> string \<Rightarrow> (string, u64) fmap" where
  "recordPredecessor counts predecessor =
     (if fmlookup counts predecessor = None \<and> maxPredecessors \<le> fmsize counts then counts
      else fmupd predecessor (fmget 0 counts predecessor + 1) counts)"

definition recordTrigram :: "(TrigramKey, u64) fmap \<Rightarrow> TrigramKey \<Rightarrow> (TrigramKey, u64) fmap" where
  "recordTrigram counts key =
     (if fmlookup counts key = None \<and> maxTrigramPredecessors \<le> fmsize counts then counts
      else fmupd key (fmget 0 counts key + 1) counts)"

definition recordTrigramContinuation :: "(string, u64) fmap \<Rightarrow> string \<Rightarrow> (string, u64) fmap" where
  "recordTrigramContinuation counts grandparent =
     (if fmlookup counts grandparent = None \<and> maxTrigramPredecessors \<le> fmsize counts then counts
      else fmupd grandparent (fmget 0 counts grandparent + 1) counts)"

definition recordDelegator :: "(string, u64) fmap \<Rightarrow> string \<Rightarrow> (string, u64) fmap" where
  "recordDelegator counts delegator =
     (if fmlookup counts delegator = None \<and> maxDelegators \<le> fmsize counts then counts
      else fmupd delegator (fmget 0 counts delegator + 1) counts)"

definition observeOutgoingTransition :: "FingerprintStats \<Rightarrow> FingerprintStats" where
  "observeOutgoingTransition s =
     s\<lparr>fs_OutgoingTransitionTotal := fs_OutgoingTransitionTotal s + 1\<rparr>"

definition observeTrigramContinuation :: "FingerprintStats \<Rightarrow> string \<Rightarrow> FingerprintStats" where
  "observeTrigramContinuation s grandparent =
     s\<lparr>fs_TrigramContinuationTotal :=
         recordTrigramContinuation (fs_TrigramContinuationTotal s) grandparent\<rparr>"

definition LatencyMeanDuration :: "FingerprintStats \<Rightarrow> i64" where
  "LatencyMeanDuration s = i64_of_f64 (fs_LatencyMean s)"

definition LatencyStdDevDuration :: "FingerprintStats \<Rightarrow> i64" where
  "LatencyStdDevDuration s =
     (if fs_LatencyObservations s = 0 then 0 else i64_of_f64 (fsqrt (fs_LatencyVariance s)))"

definition IsStale :: "FingerprintStats \<Rightarrow> gotime \<Rightarrow> i64 \<Rightarrow> bool" where
  "IsStale s now maxAge =
     (if fs_Count s = 0 then False else sint maxAge < sint (Time_Sub now (fs_LastObserved s)))"

text \<open>The exponential moving average step of mean and variance, as both timing blocks write it.\<close>

definition ema_mean :: "f64 \<Rightarrow> f64 \<Rightarrow> f64" where
  "ema_mean mean sample = fadd mean (fmul emaAlpha (fsub sample mean))"

definition ema_variance :: "f64 \<Rightarrow> f64 \<Rightarrow> f64 \<Rightarrow> f64" where
  "ema_variance var mean sample =
     (let delta = fsub sample mean in
      fmul oneMinusEmaAlpha (fadd var (fmul (fmul emaAlpha delta) delta)))"

definition observe_interval :: "gotime \<Rightarrow> FingerprintStats \<Rightarrow> FingerprintStats" where
  "observe_interval now s =
     (if fs_Count s = 0 then s\<lparr>fs_FirstObserved := now\<rparr>
      else if Time_After now (fs_LastObserved s) then
        (let intervalNS = f64_of_i64 (Time_Sub now (fs_LastObserved s)) in
         if fs_IntervalObservations s = 0
         then s\<lparr>fs_IntervalMean := intervalNS, fs_IntervalVariance := f0,
                fs_IntervalObservations := fs_IntervalObservations s + 1\<rparr>
         else s\<lparr>fs_IntervalMean := ema_mean (fs_IntervalMean s) intervalNS,
                fs_IntervalVariance :=
                  ema_variance (fs_IntervalVariance s) (fs_IntervalMean s) intervalNS,
                fs_IntervalObservations := fs_IntervalObservations s + 1\<rparr>)
      else s)"

definition observe_seen :: "StableFeatures \<Rightarrow> gotime \<Rightarrow> FingerprintStats \<Rightarrow> FingerprintStats" where
  "observe_seen sf now s =
     s\<lparr>fs_Count := fs_Count s + 1,
       fs_LastObserved := (if Time_After now (fs_LastObserved s) then now else fs_LastObserved s),
       fs_Stable := sf\<rparr>"

definition observe_hours :: "gotime \<Rightarrow> FingerprintStats \<Rightarrow> FingerprintStats" where
  "observe_hours now s =
     (let hour = Time_UTC_Hour now;
          activity =
            (if fs_TimePatternObservations s = 0
             then (map (\<lambda>_. f0) (fs_HourActivity s))[hour := f1]
             else map (\<lambda>h. let a = fs_HourActivity s ! h;
                               sample = (if h = hour then f1 else f0)
                           in fadd a (fmul hourActivityAlpha (fsub sample a)))
                    [0..<length (fs_HourActivity s)])
      in s\<lparr>fs_HourActivity := activity,
           fs_TimePatternObservations := fs_TimePatternObservations s + 1\<rparr>)"

definition observe_latency :: "VolatileFeatures \<Rightarrow> FingerprintStats \<Rightarrow> FingerprintStats" where
  "observe_latency vol s =
     (if vf_HasLatency vol then
        (let latencyNS = f64_of_i64 (vf_Latency vol) in
         if fs_LatencyObservations s = 0
         then s\<lparr>fs_LatencyMean := latencyNS, fs_LatencyVariance := f0,
                fs_LatencyObservations := fs_LatencyObservations s + 1\<rparr>
         else s\<lparr>fs_LatencyMean := ema_mean (fs_LatencyMean s) latencyNS,
                fs_LatencyVariance :=
                  ema_variance (fs_LatencyVariance s) (fs_LatencyMean s) latencyNS,
                fs_LatencyObservations := fs_LatencyObservations s + 1\<rparr>)
      else s)"

definition observe_error :: "VolatileFeatures \<Rightarrow> FingerprintStats \<Rightarrow> FingerprintStats" where
  "observe_error vol s =
     (let errSample = (if vf_Error vol then f1 else f0) in
      s\<lparr>fs_ErrorRate := (if fs_Count s = 1 then errSample
                          else ema_mean (fs_ErrorRate s) errSample)\<rparr>)"

definition observe_sequence :: "string \<Rightarrow> string \<Rightarrow> FingerprintStats \<Rightarrow> FingerprintStats" where
  "observe_sequence predecessor grandparent s =
     (if predecessor = '''' then s
      else let s1 = s\<lparr>fs_PredecessorCounts := recordPredecessor (fs_PredecessorCounts s) predecessor\<rparr>
           in if grandparent = '''' then s1
              else s1\<lparr>fs_TrigramCounts := recordTrigram (fs_TrigramCounts s1)
                        \<lparr>tk_First = grandparent, tk_Second = predecessor\<rparr>\<rparr>)"

definition FingerprintStats_observe ::
  "FingerprintStats \<Rightarrow> StableFeatures \<Rightarrow> VolatileFeatures \<Rightarrow> gotime \<Rightarrow> string \<Rightarrow> string
     \<Rightarrow> FingerprintStats" where
  "FingerprintStats_observe s sf vol now predecessor grandparent =
     observe_sequence predecessor grandparent
       (observe_error vol
         (observe_latency vol
           (observe_hours now
             (observe_seen sf now
               (observe_interval now s)))))"

subsection \<open>The baseline of one key\<close>

record Baseline =
  bl_Key :: Key
  bl_Fingerprints :: "(string, FingerprintStats) fmap"
  bl_LastObserved :: gotime
  bl_LastFingerprintID :: string
  bl_LastFingerprintTime :: gotime
  bl_PreviousFingerprintID :: string
  bl_DelegatorCounts :: "(string, u64) fmap"

definition Baseline_New :: "Key \<Rightarrow> Baseline" where
  "Baseline_New key = \<lparr>bl_Key = key, bl_Fingerprints = fmempty, bl_LastObserved = zeroTime,
     bl_LastFingerprintID = '''', bl_LastFingerprintTime = zeroTime,
     bl_PreviousFingerprintID = '''', bl_DelegatorCounts = fmempty\<rparr>"

definition Baseline_Observe ::
  "Baseline \<Rightarrow> Fingerprint \<Rightarrow> VolatileFeatures \<Rightarrow> gotime \<Rightarrow> Baseline \<times> bool" where
  "Baseline_Observe b fp vol now =
     (let advances = (bl_LastFingerprintID b = '''' \<or> Time_After now (bl_LastFingerprintTime b));
          validTransition =
            (bl_LastFingerprintID b \<noteq> '''' \<and> Time_After now (bl_LastFingerprintTime b));
          predecessor = (if validTransition then bl_LastFingerprintID b else '''');
          grandparent = (if validTransition then bl_PreviousFingerprintID b else '''');
          known = (fmlookup (bl_Fingerprints b) (fp_ID fp) \<noteq> None);
          admit = (known \<or> fmsize (bl_Fingerprints b) < maxFingerprints);
          next1 =
            (if admit
             then fmupd (fp_ID fp)
                    (FingerprintStats_observe (fmget zeroStats (bl_Fingerprints b) (fp_ID fp))
                       (fp_Stable fp) vol now predecessor grandparent)
                    (bl_Fingerprints b)
             else bl_Fingerprints b);
          next2 =
            (if predecessor \<noteq> '''' \<and> fmlookup next1 predecessor \<noteq> None
             then let st = observeOutgoingTransition (fmget zeroStats next1 predecessor) in
                  fmupd predecessor
                    (if grandparent \<noteq> '''' then observeTrigramContinuation st grandparent else st)
                    next1
             else next1);
          shift = (advances \<and> admit);
          delegatorCounts =
            (if vf_DelegatedFrom vol \<noteq> ''''
             then recordDelegator (bl_DelegatorCounts b) (vf_DelegatedFrom vol)
             else bl_DelegatorCounts b)
      in (\<lparr>bl_Key = bl_Key b,
           bl_Fingerprints = next2,
           bl_LastObserved = now,
           bl_LastFingerprintID = (if shift then fp_ID fp else bl_LastFingerprintID b),
           bl_LastFingerprintTime = (if shift then now else bl_LastFingerprintTime b),
           bl_PreviousFingerprintID =
             (if shift then bl_LastFingerprintID b else bl_PreviousFingerprintID b),
           bl_DelegatorCounts = delegatorCounts\<rparr>, admit))"

subsection \<open>The counting maps are bounded counters\<close>

interpretation preds: bounded_counts recordPredecessor maxPredecessors
  by unfold_locales (auto simp: recordPredecessor_def)

interpretation trigrams: bounded_counts recordTrigram maxTrigramPredecessors
  by unfold_locales (auto simp: recordTrigram_def)

interpretation conts: bounded_counts recordTrigramContinuation maxTrigramPredecessors
  by unfold_locales (auto simp: recordTrigramContinuation_def)

interpretation delegs: bounded_counts recordDelegator maxDelegators
  by unfold_locales (auto simp: recordDelegator_def)

subsection \<open>One observation, field by field\<close>

lemma observe_interval_frame [simp, go_record]:
  "fs_Count (observe_interval now s) = fs_Count s"
  "fs_LastObserved (observe_interval now s) = fs_LastObserved s"
  "fs_LatencyObservations (observe_interval now s) = fs_LatencyObservations s"
  "fs_ErrorRate (observe_interval now s) = fs_ErrorRate s"
  "fs_HourActivity (observe_interval now s) = fs_HourActivity s"
  "fs_TimePatternObservations (observe_interval now s) = fs_TimePatternObservations s"
  "fs_PredecessorCounts (observe_interval now s) = fs_PredecessorCounts s"
  "fs_OutgoingTransitionTotal (observe_interval now s) = fs_OutgoingTransitionTotal s"
  "fs_TrigramCounts (observe_interval now s) = fs_TrigramCounts s"
  "fs_TrigramContinuationTotal (observe_interval now s) = fs_TrigramContinuationTotal s"
  by (simp_all add: observe_interval_def Let_def)

lemma observe_latency_frame [simp, go_record]:
  "fs_Count (observe_latency vol s) = fs_Count s"
  "fs_LastObserved (observe_latency vol s) = fs_LastObserved s"
  "fs_IntervalObservations (observe_latency vol s) = fs_IntervalObservations s"
  "fs_ErrorRate (observe_latency vol s) = fs_ErrorRate s"
  "fs_HourActivity (observe_latency vol s) = fs_HourActivity s"
  "fs_TimePatternObservations (observe_latency vol s) = fs_TimePatternObservations s"
  "fs_Stable (observe_latency vol s) = fs_Stable s"
  "fs_PredecessorCounts (observe_latency vol s) = fs_PredecessorCounts s"
  "fs_OutgoingTransitionTotal (observe_latency vol s) = fs_OutgoingTransitionTotal s"
  "fs_TrigramCounts (observe_latency vol s) = fs_TrigramCounts s"
  "fs_TrigramContinuationTotal (observe_latency vol s) = fs_TrigramContinuationTotal s"
  by (simp_all add: observe_latency_def Let_def)

lemmas observe_defs = FingerprintStats_observe_def observe_sequence_def observe_error_def
  observe_hours_def observe_seen_def Let_def

lemma observe_counts [simp]:
  "fs_Count (FingerprintStats_observe s sf vol now p g) = fs_Count s + 1"
  "fs_OutgoingTransitionTotal (FingerprintStats_observe s sf vol now p g) =
     fs_OutgoingTransitionTotal s"
  "fs_TrigramContinuationTotal (FingerprintStats_observe s sf vol now p g) =
     fs_TrigramContinuationTotal s"
  "fs_Stable (FingerprintStats_observe s sf vol now p g) = sf"
  "fs_PredecessorCounts (FingerprintStats_observe s sf vol now p g) =
     (if p = '''' then fs_PredecessorCounts s else recordPredecessor (fs_PredecessorCounts s) p)"
  "fs_TrigramCounts (FingerprintStats_observe s sf vol now p g) =
     (if p = '''' \<or> g = '''' then fs_TrigramCounts s
      else recordTrigram (fs_TrigramCounts s) \<lparr>tk_First = g, tk_Second = p\<rparr>)"
  by (simp_all add: observe_defs)

lemma observe_LastObserved [simp]:
  "fs_LastObserved (FingerprintStats_observe s sf vol now p g) =
     (if Time_After now (fs_LastObserved s) then now else fs_LastObserved s)"
  by (simp add: observe_defs)

lemma length_HourActivity [simp]:
  "length (fs_HourActivity (FingerprintStats_observe s sf vol now p g)) =
     length (fs_HourActivity s)"
  by (simp add: observe_defs)

lemma observe_credit [simp]:
  "fs_PredecessorCounts (observeOutgoingTransition s) = fs_PredecessorCounts s"
  "fs_TrigramCounts (observeOutgoingTransition s) = fs_TrigramCounts s"
  "fs_TrigramContinuationTotal (observeOutgoingTransition s) = fs_TrigramContinuationTotal s"
  "fs_OutgoingTransitionTotal (observeOutgoingTransition s) = fs_OutgoingTransitionTotal s + 1"
  "fs_HourActivity (observeOutgoingTransition s) = fs_HourActivity s"
  "fs_Count (observeOutgoingTransition s) = fs_Count s"
  "fs_LastObserved (observeOutgoingTransition s) = fs_LastObserved s"
  "fs_ErrorRate (observeOutgoingTransition s) = fs_ErrorRate s"
  "fs_PredecessorCounts (observeTrigramContinuation s g) = fs_PredecessorCounts s"
  "fs_TrigramCounts (observeTrigramContinuation s g) = fs_TrigramCounts s"
  "fs_OutgoingTransitionTotal (observeTrigramContinuation s g) = fs_OutgoingTransitionTotal s"
  "fs_TrigramContinuationTotal (observeTrigramContinuation s g) =
     recordTrigramContinuation (fs_TrigramContinuationTotal s) g"
  "fs_HourActivity (observeTrigramContinuation s g) = fs_HourActivity s"
  "fs_Count (observeTrigramContinuation s g) = fs_Count s"
  "fs_LastObserved (observeTrigramContinuation s g) = fs_LastObserved s"
  "fs_ErrorRate (observeTrigramContinuation s g) = fs_ErrorRate s"
  by (simp_all add: observeOutgoingTransition_def observeTrigramContinuation_def)

lemma zeroStats_fields [simp]:
  "fs_PredecessorCounts zeroStats = fmempty" "fs_TrigramCounts zeroStats = fmempty"
  "fs_TrigramContinuationTotal zeroStats = fmempty" "fs_OutgoingTransitionTotal zeroStats = 0"
  "fs_Count zeroStats = 0" "fs_HourActivity zeroStats = replicate 24 f0"
  "fs_LastObserved zeroStats = zeroTime" "fs_ErrorRate zeroStats = f0"
  by (simp_all add: zeroStats_def)

subsection \<open>One observation of the baseline\<close>

text \<open>The intermediate values of \<open>Baseline_Observe\<close>, named for the proofs.\<close>

definition pred_of :: "Baseline \<Rightarrow> gotime \<Rightarrow> string" where
  "pred_of b now =
     (if bl_LastFingerprintID b \<noteq> '''' \<and> Time_After now (bl_LastFingerprintTime b)
      then bl_LastFingerprintID b else '''')"

definition grand_of :: "Baseline \<Rightarrow> gotime \<Rightarrow> string" where
  "grand_of b now =
     (if bl_LastFingerprintID b \<noteq> '''' \<and> Time_After now (bl_LastFingerprintTime b)
      then bl_PreviousFingerprintID b else '''')"

definition admits :: "Baseline \<Rightarrow> Fingerprint \<Rightarrow> bool" where
  "admits b fp = (fmlookup (bl_Fingerprints b) (fp_ID fp) \<noteq> None \<or>
     fmsize (bl_Fingerprints b) < maxFingerprints)"

definition learn_map ::
  "Baseline \<Rightarrow> Fingerprint \<Rightarrow> VolatileFeatures \<Rightarrow> gotime \<Rightarrow> (string, FingerprintStats) fmap" where
  "learn_map b fp vol now =
     (if admits b fp
      then fmupd (fp_ID fp)
             (FingerprintStats_observe (fmget zeroStats (bl_Fingerprints b) (fp_ID fp))
                (fp_Stable fp) vol now (pred_of b now) (grand_of b now))
             (bl_Fingerprints b)
      else bl_Fingerprints b)"

definition credit :: "string \<Rightarrow> FingerprintStats \<Rightarrow> FingerprintStats" where
  "credit g s = (let st = observeOutgoingTransition s in
     if g \<noteq> '''' then observeTrigramContinuation st g else st)"

definition credit_map ::
  "string \<Rightarrow> string \<Rightarrow> (string, FingerprintStats) fmap \<Rightarrow> (string, FingerprintStats) fmap" where
  "credit_map p g F =
     (if p \<noteq> '''' \<and> fmlookup F p \<noteq> None then fmupd p (credit g (fmget zeroStats F p)) F else F)"

lemma Baseline_Observe_eq:
  "Baseline_Observe b fp vol now =
     (\<lparr>bl_Key = bl_Key b,
       bl_Fingerprints = credit_map (pred_of b now) (grand_of b now) (learn_map b fp vol now),
       bl_LastObserved = now,
       bl_LastFingerprintID =
         (if (bl_LastFingerprintID b = '''' \<or> Time_After now (bl_LastFingerprintTime b)) \<and> admits b fp
          then fp_ID fp else bl_LastFingerprintID b),
       bl_LastFingerprintTime =
         (if (bl_LastFingerprintID b = '''' \<or> Time_After now (bl_LastFingerprintTime b)) \<and> admits b fp
          then now else bl_LastFingerprintTime b),
       bl_PreviousFingerprintID =
         (if (bl_LastFingerprintID b = '''' \<or> Time_After now (bl_LastFingerprintTime b)) \<and> admits b fp
          then bl_LastFingerprintID b else bl_PreviousFingerprintID b),
       bl_DelegatorCounts =
         (if vf_DelegatedFrom vol \<noteq> ''''
          then recordDelegator (bl_DelegatorCounts b) (vf_DelegatedFrom vol)
          else bl_DelegatorCounts b)\<rparr>, admits b fp)"
  unfolding Baseline_Observe_def Let_def pred_of_def grand_of_def admits_def learn_map_def
    credit_map_def credit_def by (rule refl)

lemma lookup_credit_map:
  "fmlookup (credit_map p g F) j =
     (if j = p \<and> p \<noteq> '''' then map_option (credit g) (fmlookup F p) else fmlookup F j)"
  by (auto simp: credit_map_def fmget_def split: option.splits)

lemma lookup_learn_map:
  "fmlookup (learn_map b fp vol now) j =
     (if admits b fp \<and> j = fp_ID fp
      then Some (FingerprintStats_observe (fmget zeroStats (bl_Fingerprints b) j)
             (fp_Stable fp) vol now (pred_of b now) (grand_of b now))
      else fmlookup (bl_Fingerprints b) j)"
  by (simp add: learn_map_def)

lemma size_credit_map [simp]: "fmsize (credit_map p g F) = fmsize F"
  by (auto simp: credit_map_def fmsize_fmupd)

lemma size_learn_map:
  "fmsize (bl_Fingerprints b) \<le> maxFingerprints \<Longrightarrow>
   fmsize (learn_map b fp vol now) \<le> maxFingerprints"
  by (auto simp: learn_map_def admits_def fmsize_fmupd)

end
