(* ===== verification/Baseline_Bounds.thy ===== *)
theory Baseline_Bounds
  imports Baseline
begin

text \<open>
  Reachable baselines and what holds of them: the resource bounds of every map, the history window
  that only names learned fingerprints and never moves backwards in time, the statistics that stay in
  range, and admission without eviction.
\<close>

subsection \<open>Reachable baselines\<close>

text \<open>\<open>learned_from key n b\<close>: \<open>b\<close> is the baseline of \<open>key\<close> after \<open>n\<close> observations of
  fingerprints with a non-empty identifier, as \<open>Fingerprint_Compute\<close> makes them.\<close>

inductive learned_from :: "Key \<Rightarrow> nat \<Rightarrow> Baseline \<Rightarrow> bool" for key where
  start: "learned_from key 0 (Baseline_New key)"
| step: "learned_from key n b \<Longrightarrow> fp_ID fp \<noteq> '''' \<Longrightarrow>
    learned_from key (Suc n) (fst (Baseline_Observe b fp vol now))"

inductive_cases learned_from_SucE: "learned_from key (Suc n) b"

fun observe_all :: "Baseline \<Rightarrow> (StableFeatures \<times> VolatileFeatures \<times> gotime) list \<Rightarrow> Baseline" where
  "observe_all b [] = b"
| "observe_all b ((sf, vol, now) # es) =
     observe_all (fst (Baseline_Observe b (Fingerprint_Compute sf) vol now)) es"

lemma learned_from_observe_all:
  "learned_from key n b \<Longrightarrow> learned_from key (n + length es) (observe_all b es)"
proof (induction es arbitrary: n b)
  case (Cons e es)
  obtain sf vol now where e: "e = (sf, vol, now)" by (cases e)
  have "learned_from key (Suc n) (fst (Baseline_Observe b (Fingerprint_Compute sf) vol now))"
    using Cons.prems by (rule learned_from.step) simp
  from Cons.IH [OF this] show ?case by (simp add: e)
qed simp

subsection \<open>Resource bounds\<close>

definition stats_bounded :: "FingerprintStats \<Rightarrow> bool" where
  "stats_bounded s \<longleftrightarrow>
     fmsize (fs_PredecessorCounts s) \<le> maxPredecessors \<and>
     fmsize (fs_TrigramCounts s) \<le> maxTrigramPredecessors \<and>
     fmsize (fs_TrigramContinuationTotal s) \<le> maxTrigramPredecessors \<and>
     length (fs_HourActivity s) = 24"

definition baseline_bounded :: "Baseline \<Rightarrow> bool" where
  "baseline_bounded b \<longleftrightarrow>
     fmsize (bl_Fingerprints b) \<le> maxFingerprints \<and>
     fmsize (bl_DelegatorCounts b) \<le> maxDelegators \<and>
     (\<forall>i s. fmlookup (bl_Fingerprints b) i = Some s \<longrightarrow> stats_bounded s)"

lemma stats_bounded_zero: "stats_bounded zeroStats"
  by (simp add: stats_bounded_def)

lemma stats_bounded_observe:
  "stats_bounded s \<Longrightarrow> stats_bounded (FingerprintStats_observe s sf vol now p g)"
  by (simp add: stats_bounded_def preds.size_bound trigrams.size_bound)

lemma stats_bounded_credit: "stats_bounded s \<Longrightarrow> stats_bounded (credit g s)"
  by (simp add: stats_bounded_def credit_def conts.size_bound Let_def)

text \<open>A property of statistics that holds of the zero value and is kept by an observation and by
  a credit holds of every entry of the map after \<open>Baseline_Observe\<close>.\<close>

lemma Observe_entries:
  assumes "\<And>i s. fmlookup (bl_Fingerprints b) i = Some s \<Longrightarrow> P s"
    and "P zeroStats"
    and "\<And>s p g. P s \<Longrightarrow> P (FingerprintStats_observe s (fp_Stable fp) vol now p g)"
    and "\<And>s g. P s \<Longrightarrow> P (credit g s)"
    and "fmlookup (bl_Fingerprints (fst (Baseline_Observe b fp vol now))) i = Some s"
  shows "P s"
proof -
  have get: "P (fmget zeroStats (bl_Fingerprints b) j)" for j
    using assms(1,2) by (cases "fmlookup (bl_Fingerprints b) j") (auto simp: fmget_def)
  have learn: "P s'" if "fmlookup (learn_map b fp vol now) j = Some s'" for j s'
    using that assms(1,3) get by (auto simp: lookup_learn_map split: if_splits)
  show ?thesis
    using assms(5) learn assms(4)
    by (auto simp: Baseline_Observe_eq lookup_credit_map split: if_splits)
qed

lemma baseline_bounded_New: "baseline_bounded (Baseline_New key)"
  by (simp add: baseline_bounded_def Baseline_New_def)

lemma baseline_bounded_Observe:
  assumes "baseline_bounded b"
  shows "baseline_bounded (fst (Baseline_Observe b fp vol now))"
proof -
  have "stats_bounded s" if "fmlookup (bl_Fingerprints (fst (Baseline_Observe b fp vol now))) i = Some s" for i s
    using assms that
    by (intro Observe_entries [of b stats_bounded fp vol now i s])
      (auto simp: baseline_bounded_def stats_bounded_zero stats_bounded_observe stats_bounded_credit)
  then show ?thesis
    using assms size_learn_map [of b fp vol now]
    by (auto simp: baseline_bounded_def Baseline_Observe_eq delegs.size_bound)
qed

lemma baseline_bounded_reachable: "learned_from key n b \<Longrightarrow> baseline_bounded b"
  by (induction rule: learned_from.induct) (auto simp: baseline_bounded_New baseline_bounded_Observe)

subsection \<open>The history window\<close>

definition window_ok :: "Baseline \<Rightarrow> bool" where
  "window_ok b \<longleftrightarrow>
     (bl_LastFingerprintID b = '''' \<longrightarrow>
        bl_PreviousFingerprintID b = '''' \<and> bl_LastFingerprintTime b = zeroTime) \<and>
     (bl_LastFingerprintID b \<noteq> '''' \<longrightarrow>
        fmlookup (bl_Fingerprints b) (bl_LastFingerprintID b) \<noteq> None) \<and>
     (bl_PreviousFingerprintID b \<noteq> '''' \<longrightarrow>
        fmlookup (bl_Fingerprints b) (bl_PreviousFingerprintID b) \<noteq> None)"

lemma Observe_keeps_known:
  "fmlookup (bl_Fingerprints b) i \<noteq> None \<Longrightarrow>
   fmlookup (bl_Fingerprints (fst (Baseline_Observe b fp vol now))) i \<noteq> None"
  by (auto simp: Baseline_Observe_eq lookup_credit_map lookup_learn_map)

lemma Observe_learns:
  "admits b fp \<Longrightarrow> fmlookup (bl_Fingerprints (fst (Baseline_Observe b fp vol now))) (fp_ID fp) \<noteq> None"
  by (auto simp: Baseline_Observe_eq lookup_credit_map lookup_learn_map)

lemma window_ok_Observe:
  assumes "window_ok b" and "fp_ID fp \<noteq> ''''"
  shows "window_ok (fst (Baseline_Observe b fp vol now))"
proof -
  let ?b' = "fst (Baseline_Observe b fp vol now)"
  have keep: "fmlookup (bl_Fingerprints b) i \<noteq> None \<Longrightarrow> fmlookup (bl_Fingerprints ?b') i \<noteq> None" for i
    by (rule Observe_keeps_known)
  have new: "admits b fp \<Longrightarrow> fmlookup (bl_Fingerprints ?b') (fp_ID fp) \<noteq> None"
    by (rule Observe_learns)
  have "bl_LastFingerprintID ?b' = fp_ID fp \<and> admits b fp
          \<and> bl_PreviousFingerprintID ?b' = bl_LastFingerprintID b \<or>
        bl_LastFingerprintID ?b' = bl_LastFingerprintID b
          \<and> bl_PreviousFingerprintID ?b' = bl_PreviousFingerprintID b
          \<and> bl_LastFingerprintTime ?b' = bl_LastFingerprintTime b"
    by (simp add: Baseline_Observe_eq)
  then show ?thesis using assms keep new by (metis (no_types, lifting) window_ok_def)
qed

lemma window_ok_reachable: "learned_from key n b \<Longrightarrow> window_ok b"
proof (induction rule: learned_from.induct)
  case start
  show ?case by (simp add: window_ok_def Baseline_New_def)
next
  case (step n b fp vol now)
  then show ?case by (blast intro: window_ok_Observe)
qed

subsection \<open>Rates stay rates\<close>

definition rates_ok :: "FingerprintStats \<Rightarrow> bool" where
  "rates_ok s \<longleftrightarrow> in01 (fs_ErrorRate s) \<and> fvalid (fs_ErrorRate s) \<and>
     (\<forall>a \<in> set (fs_HourActivity s). in01 a \<and> fvalid a)"

lemma emaAlpha_val: "emaAlpha = Fin (3602879701896397 / 18014398509481984)"
  unfolding emaAlpha_def by (subst f64_of_01, simp, simp) code_simp

lemma hourActivityAlpha_val: "hourActivityAlpha = Fin (5764607523034235 / 288230376151711744)"
  unfolding hourActivityAlpha_def by (subst f64_of_01, simp, simp) code_simp

lemma fvalid_alphas [simp]: "fvalid emaAlpha" "fvalid hourActivityAlpha"
  by (simp_all add: emaAlpha_def hourActivityAlpha_def)

lemma fvalid_fsub [simp]: "fvalid a \<Longrightarrow> fvalid b \<Longrightarrow> fvalid (fsub a b)"
  by (simp add: fsub_def)

lemma ema_mean_01:
  "in01 e \<Longrightarrow> fvalid e \<Longrightarrow> s = f0 \<or> s = f1 \<Longrightarrow> in01 (ema_mean e s) \<and> fvalid (ema_mean e s)"
  unfolding ema_mean_def
  using ema_step_01 [of "3602879701896397 / 18014398509481984" e s] by (auto simp: emaAlpha_val [symmetric])

lemma hour_step_01:
  "in01 a \<Longrightarrow> fvalid a \<Longrightarrow> s = f0 \<or> s = f1 \<Longrightarrow>
   in01 (fadd a (fmul hourActivityAlpha (fsub s a))) \<and>
   fvalid (fadd a (fmul hourActivityAlpha (fsub s a)))"
  using ema_step_01 [of "5764607523034235 / 288230376151711744" a s]
  by (auto simp: hourActivityAlpha_val [symmetric])

lemma rates_ok_zero: "rates_ok zeroStats"
  by (simp add: rates_ok_def)

lemma observe_ErrorRate:
  "fs_ErrorRate (FingerprintStats_observe s sf vol now p g) =
     (if fs_Count s + 1 = 1 then (if vf_Error vol then f1 else f0)
      else ema_mean (fs_ErrorRate s) (if vf_Error vol then f1 else f0))"
  by (simp add: observe_defs)

lemma observe_HourActivity:
  "fs_HourActivity (FingerprintStats_observe s sf vol now p g) =
     (if fs_TimePatternObservations s = 0
      then (map (\<lambda>_. f0) (fs_HourActivity s))[Time_UTC_Hour now := f1]
      else map (\<lambda>h. fadd (fs_HourActivity s ! h)
               (fmul hourActivityAlpha
                 (fsub (if h = Time_UTC_Hour now then f1 else f0) (fs_HourActivity s ! h))))
             [0..<length (fs_HourActivity s)])"
  by (simp add: observe_defs)

lemma rates_ok_observe:
  assumes "rates_ok s"
  shows "rates_ok (FingerprintStats_observe s sf vol now p g)"
proof -
  have "in01 a \<and> fvalid a"
    if "a \<in> set (fs_HourActivity (FingerprintStats_observe s sf vol now p g))" for a
  proof (cases "fs_TimePatternObservations s = 0")
    case True
    then show ?thesis
      using that set_update_subset_insert [of "map (\<lambda>_. f0) (fs_HourActivity s)" "Time_UTC_Hour now" f1]
      by (auto simp: observe_HourActivity)
  next
    case False
    with that assms show ?thesis
      by (auto simp: observe_HourActivity rates_ok_def hour_step_01)
  qed
  moreover have "in01 (fs_ErrorRate (FingerprintStats_observe s sf vol now p g)) \<and>
      fvalid (fs_ErrorRate (FingerprintStats_observe s sf vol now p g))"
    using assms ema_mean_01 [of "fs_ErrorRate s"] by (auto simp: observe_ErrorRate rates_ok_def)
  ultimately show ?thesis by (simp add: rates_ok_def)
qed

lemma rates_ok_credit: "rates_ok s \<Longrightarrow> rates_ok (credit g s)"
  by (simp add: rates_ok_def credit_def Let_def)

lemma rates_ok_reachable:
  "learned_from key n b \<Longrightarrow> fmlookup (bl_Fingerprints b) i = Some s \<Longrightarrow> rates_ok s"
proof (induction arbitrary: i s rule: learned_from.induct)
  case start
  then show ?case by (simp add: Baseline_New_def)
next
  case (step n b fp vol now)
  show ?case
    by (rule Observe_entries [OF step.IH rates_ok_zero rates_ok_observe rates_ok_credit step.prems])
qed

end
