(* ===== verification/Baseline_Flow.thy ===== *)
theory Baseline_Flow
  imports Baseline_Bounds
begin

text \<open>
  The sequence counters. \<open>outflow F p\<close> adds up, over every learned destination, how often
  \<open>p\<close> was recorded as its predecessor; it never exceeds the outgoing total of \<open>p\<close>, so the
  relative frequencies the anomaly stage reads form a sub-distribution. The same holds of 3-grams for
  every grandparent the continuation map tracks.
\<close>

definition pred_count :: "(string, FingerprintStats) fmap \<Rightarrow> string \<Rightarrow> string \<Rightarrow> nat" where
  "pred_count F d p = unat (fmget 0 (fs_PredecessorCounts (fmget zeroStats F d)) p)"

definition out_total :: "(string, FingerprintStats) fmap \<Rightarrow> string \<Rightarrow> nat" where
  "out_total F p = unat (fs_OutgoingTransitionTotal (fmget zeroStats F p))"

definition tri_count :: "(string, FingerprintStats) fmap \<Rightarrow> string \<Rightarrow> string \<Rightarrow> string \<Rightarrow> nat" where
  "tri_count F d g p =
     unat (fmget 0 (fs_TrigramCounts (fmget zeroStats F d)) \<lparr>tk_First = g, tk_Second = p\<rparr>)"

definition cont_total :: "(string, FingerprintStats) fmap \<Rightarrow> string \<Rightarrow> string \<Rightarrow> nat" where
  "cont_total F p g = unat (fmget 0 (fs_TrigramContinuationTotal (fmget zeroStats F p)) g)"

definition cont_map :: "(string, FingerprintStats) fmap \<Rightarrow> string \<Rightarrow> (string, u64) fmap" where
  "cont_map F p = fs_TrigramContinuationTotal (fmget zeroStats F p)"

definition outflow :: "(string, FingerprintStats) fmap \<Rightarrow> string \<Rightarrow> nat" where
  "outflow F p = (\<Sum>d\<in>fset (fmdom F). pred_count F d p)"

definition triflow :: "(string, FingerprintStats) fmap \<Rightarrow> string \<Rightarrow> string \<Rightarrow> nat" where
  "triflow F g p = (\<Sum>d\<in>fset (fmdom F). tri_count F d g p)"

subsection \<open>Sums over a map under an update\<close>

lemma sum_fmupd:
  fixes f :: "'v \<Rightarrow> nat"
  assumes "f z = 0"
  shows "(\<Sum>d\<in>fset (fmdom (fmupd k v F)). f (fmget z (fmupd k v F) d)) + f (fmget z F k) =
    (\<Sum>d\<in>fset (fmdom F). f (fmget z F d)) + f v"
proof -
  let ?D = "fset (fmdom F)"
  have ins: "fset (fmdom (fmupd k v F)) = insert k ?D" by simp
  have "(\<Sum>d\<in>insert k ?D. f (fmget z (fmupd k v F) d)) = f v + (\<Sum>d\<in>?D - {k}. f (fmget z F d))"
    by (subst sum.insert_remove) (auto intro: sum.cong)
  moreover have "(\<Sum>d\<in>?D. f (fmget z F d)) = f (fmget z F k) + (\<Sum>d\<in>?D - {k}. f (fmget z F d))"
  proof (cases "k \<in> ?D")
    case True
    then show ?thesis by (intro sum.remove) auto
  next
    case False
    then have "fmget z F k = z" by (simp add: fmget_def fmdom_notD)
    with False assms show ?thesis by simp
  qed
  ultimately show ?thesis by (simp add: ins)
qed

lemma outflow_fmupd:
  "outflow (fmupd d s F) p + pred_count F d p =
   outflow F p + unat (fmget 0 (fs_PredecessorCounts s) p)"
  unfolding outflow_def pred_count_def
  by (rule sum_fmupd [where f = "\<lambda>s. unat (fmget 0 (fs_PredecessorCounts s) p)"]) simp

lemma triflow_fmupd:
  "triflow (fmupd d s F) g p + tri_count F d g p =
   triflow F g p + unat (fmget 0 (fs_TrigramCounts s) \<lparr>tk_First = g, tk_Second = p\<rparr>)"
  unfolding triflow_def tri_count_def
  by (rule sum_fmupd [where f = "\<lambda>s. unat (fmget 0 (fs_TrigramCounts s) \<lparr>tk_First = g, tk_Second = p\<rparr>)"])
    simp

lemma pred_count_le_outflow: "pred_count F d p \<le> outflow F p"
proof (cases "d \<in> fset (fmdom F)")
  case True
  then show ?thesis unfolding outflow_def by (intro member_le_sum) auto
next
  case False
  then show ?thesis by (simp add: pred_count_def fmget_def fmdom_notD)
qed

lemma tri_count_le_triflow: "tri_count F d g p \<le> triflow F g p"
proof (cases "d \<in> fset (fmdom F)")
  case True
  then show ?thesis unfolding triflow_def by (intro member_le_sum) auto
next
  case False
  then show ?thesis by (simp add: tri_count_def fmget_def fmdom_notD)
qed

subsection \<open>The two halves of an observation\<close>

lemma learn_outflow:
  "outflow (learn_map b fp vol now) p \<le>
   outflow (bl_Fingerprints b) p + (if p = pred_of b now \<and> p \<noteq> '''' then 1 else 0)"
proof (cases "admits b fp")
  case True
  let ?F = "bl_Fingerprints b" and ?d = "fp_ID fp"
  let ?s = "FingerprintStats_observe (fmget zeroStats ?F ?d) (fp_Stable fp) vol now (pred_of b now) (grand_of b now)"
  have "unat (fmget 0 (fs_PredecessorCounts ?s) p) \<le>
    pred_count ?F ?d p + (if p = pred_of b now \<and> p \<noteq> '''' then 1 else 0)"
    using preds.step_le [of "fs_PredecessorCounts (fmget zeroStats ?F ?d)" "pred_of b now" p]
    by (auto simp: pred_count_def)
  then show ?thesis using outflow_fmupd [of ?d ?s ?F p] True by (simp add: learn_map_def)
qed (simp add: learn_map_def)

lemma learn_triflow:
  "triflow (learn_map b fp vol now) g p \<le>
   triflow (bl_Fingerprints b) g p +
     (if p = pred_of b now \<and> p \<noteq> '''' \<and> g = grand_of b now \<and> g \<noteq> '''' then 1 else 0)"
proof (cases "admits b fp")
  case True
  let ?F = "bl_Fingerprints b" and ?d = "fp_ID fp"
  let ?s = "FingerprintStats_observe (fmget zeroStats ?F ?d) (fp_Stable fp) vol now (pred_of b now) (grand_of b now)"
  have "unat (fmget 0 (fs_TrigramCounts ?s) \<lparr>tk_First = g, tk_Second = p\<rparr>) \<le>
    tri_count ?F ?d g p +
      (if p = pred_of b now \<and> p \<noteq> '''' \<and> g = grand_of b now \<and> g \<noteq> '''' then 1 else 0)"
    using trigrams.step_le [of "fs_TrigramCounts (fmget zeroStats ?F ?d)"
        "\<lparr>tk_First = grand_of b now, tk_Second = pred_of b now\<rparr>" "\<lparr>tk_First = g, tk_Second = p\<rparr>"]
    by (auto simp: tri_count_def)
  then show ?thesis using triflow_fmupd [of ?d ?s ?F g p] True by (simp add: learn_map_def)
qed (simp add: learn_map_def)

lemma learn_totals [simp]:
  "out_total (learn_map b fp vol now) p = out_total (bl_Fingerprints b) p"
  "cont_map (learn_map b fp vol now) p = cont_map (bl_Fingerprints b) p"
  by (auto simp: learn_map_def out_total_def cont_map_def)

lemma credit_fields [simp]:
  "fs_PredecessorCounts (credit g s) = fs_PredecessorCounts s"
  "fs_TrigramCounts (credit g s) = fs_TrigramCounts s"
  "fs_OutgoingTransitionTotal (credit g s) = fs_OutgoingTransitionTotal s + 1"
  "fs_TrigramContinuationTotal (credit g s) =
     (if g = '''' then fs_TrigramContinuationTotal s
      else recordTrigramContinuation (fs_TrigramContinuationTotal s) g)"
  by (simp_all add: credit_def Let_def)

lemma credit_flows [simp]:
  "outflow (credit_map p g F) q = outflow F q"
  "triflow (credit_map p g F) h q = triflow F h q"
proof -
  show "outflow (credit_map p g F) q = outflow F q"
    using outflow_fmupd [of p "credit g (fmget zeroStats F p)" F q]
    by (simp add: credit_map_def pred_count_def)
  show "triflow (credit_map p g F) h q = triflow F h q"
    using triflow_fmupd [of p "credit g (fmget zeroStats F p)" F h q]
    by (simp add: credit_map_def tri_count_def)
qed

lemma credit_out_total:
  assumes "p \<noteq> ''''" and "fmlookup F p \<noteq> None" and "out_total F p < 2 ^ 64 - 1"
  shows "out_total (credit_map p g F) q = out_total F q + (if q = p then 1 else 0)"
  using assms unat_inc64 [of "fs_OutgoingTransitionTotal (fmget zeroStats F p)"]
  by (auto simp: credit_map_def out_total_def)

lemma credit_cont_map:
  assumes "p \<noteq> ''''" and "fmlookup F p \<noteq> None"
  shows "cont_map (credit_map p g F) q =
    (if q = p \<and> g \<noteq> '''' then recordTrigramContinuation (cont_map F q) g else cont_map F q)"
  using assms by (auto simp: credit_map_def cont_map_def)

lemma credit_map_empty [simp]: "credit_map '''' g F = F"
  by (simp add: credit_map_def)

subsection \<open>The flow invariant\<close>

text \<open>\<open>cont_bounds C T\<close>: a tracked grandparent bounds its flow by its count, and while the map
  has room an untracked one has no flow at all.\<close>

definition cont_bounds :: "(string, u64) fmap \<Rightarrow> (string \<Rightarrow> nat) \<Rightarrow> bool" where
  "cont_bounds C T \<longleftrightarrow>
     (\<forall>g. (fmlookup C g \<noteq> None \<longrightarrow> T g \<le> unat (fmget 0 C g)) \<and>
          (fmlookup C g = None \<longrightarrow> fmsize C < maxTrigramPredecessors \<longrightarrow> T g = 0))"

definition flow_ok :: "nat \<Rightarrow> (string, FingerprintStats) fmap \<Rightarrow> bool" where
  "flow_ok n F \<longleftrightarrow>
     (\<forall>p. outflow F p \<le> out_total F p) \<and> (\<forall>p. out_total F p \<le> n) \<and>
     (\<forall>p g. unat (fmget 0 (cont_map F p) g) \<le> n) \<and>
     (\<forall>p. cont_bounds (cont_map F p) (\<lambda>g. triflow F g p))"

lemma flow_okD:
  assumes "flow_ok n F"
  shows "outflow F p \<le> out_total F p" and "out_total F p \<le> n"
    and "unat (fmget 0 (cont_map F p) g) \<le> n"
    and "cont_bounds (cont_map F p) (\<lambda>g. triflow F g p)"
  using assms by (simp_all add: flow_ok_def)

lemma flow_ok_New: "flow_ok 0 fmempty"
  by (simp add: flow_ok_def cont_bounds_def outflow_def triflow_def out_total_def cont_map_def)

lemma cont_bounds_mono:
  assumes "cont_bounds C T" and "\<And>g. T' g \<le> T g"
  shows "cont_bounds C T'"
  unfolding cont_bounds_def
proof (intro allI conjI impI)
  fix g
  show "T' g \<le> unat (fmget 0 C g)" if "fmlookup C g \<noteq> None"
    using assms(1) that assms(2) [of g] unfolding cont_bounds_def by (blast intro: order_trans)
  show "T' g = 0" if "fmlookup C g = None" "fmsize C < maxTrigramPredecessors"
    using assms(1) that assms(2) [of g] unfolding cont_bounds_def by (metis le_zero_eq)
qed

lemma cont_bounds_room:
  "cont_bounds C T \<Longrightarrow> fmlookup C g \<noteq> None \<or> fmsize C < maxTrigramPredecessors \<Longrightarrow>
   T g \<le> unat (fmget 0 C g)"
  unfolding cont_bounds_def by (cases "fmlookup C g") auto

text \<open>One 3-gram completion of grandparent \<open>g0\<close>.\<close>

lemma cont_bounds_step:
  assumes C: "cont_bounds C T" and T': "\<And>g. T' g \<le> T g + (if g = g0 then 1 else 0)"
    and n: "unat (fmget 0 C g0) < 2 ^ 64 - 1"
  shows "cont_bounds (recordTrigramContinuation C g0) T'"
proof (cases rule: conts.rec_cases [of C g0])
  case full
  have "T' g \<le> T g \<or> g = g0" for g using T' [of g] by (cases "g = g0") auto
  with full C show ?thesis unfolding cont_bounds_def by (metis not_less order_trans)
next
  case room
  have g0: "T' g0 \<le> unat (fmget 0 C g0 + 1)"
    using cont_bounds_room [OF C room(2)] T' [of g0] n by (simp add: unat_inc64)
  have other: "T' g \<le> T g" if "g \<noteq> g0" for g using T' [of g] that by simp
  have sz: "fmsize C \<le> fmsize (fmupd g0 (fmget 0 C g0 + 1) C)" by (simp add: fmsize_fmupd)
  show ?thesis unfolding cont_bounds_def room(1)
  proof (intro allI conjI impI)
    fix g
    show "T' g \<le> unat (fmget 0 (fmupd g0 (fmget 0 C g0 + 1) C) g)"
      if "fmlookup (fmupd g0 (fmget 0 C g0 + 1) C) g \<noteq> None"
      using that g0 C other [of g] by (cases "g = g0") (auto simp: cont_bounds_def intro: order_trans)
    show "T' g = 0" if "fmlookup (fmupd g0 (fmget 0 C g0 + 1) C) g = None"
        "fmsize (fmupd g0 (fmget 0 C g0 + 1) C) < maxTrigramPredecessors"
      using that C other [of g] sz by (auto simp: cont_bounds_def split: if_splits)
  qed
qed

lemma flow_ok_learn_only:
  assumes "flow_ok n (bl_Fingerprints b)" and "pred_of b now = ''''"
  shows "flow_ok n (learn_map b fp vol now)"
proof -
  have o: "outflow (learn_map b fp vol now) p \<le> out_total (bl_Fingerprints b) p" for p
    using learn_outflow [of b fp vol now p] assms(2) flow_okD(1) [OF assms(1), of p]
    by (auto split: if_splits)
  have t: "triflow (learn_map b fp vol now) g p \<le> triflow (bl_Fingerprints b) g p" for g p
    using learn_triflow [of b fp vol now g p] assms(2) by (auto split: if_splits)
  show ?thesis unfolding flow_ok_def learn_totals
    using o t flow_okD [OF assms(1)] by (auto intro: cont_bounds_mono [OF flow_okD(4) [OF assms(1)]])
qed

lemma flow_ok_Suc: "flow_ok n F \<Longrightarrow> flow_ok (Suc n) F"
  by (auto simp: flow_ok_def le_SucI)

lemma flow_ok_Observe:
  assumes flow: "flow_ok n (bl_Fingerprints b)" and win: "window_ok b" and n: "n < 2 ^ 64 - 1"
  shows "flow_ok (Suc n) (bl_Fingerprints (fst (Baseline_Observe b fp vol now)))"
proof (cases "pred_of b now = ''''")
  case True
  then show ?thesis
    using flow_ok_learn_only [OF flow True, of fp vol] by (simp add: Baseline_Observe_eq flow_ok_Suc)
next
  case False
  let ?F = "bl_Fingerprints b" and ?L = "learn_map b fp vol now"
  let ?p = "pred_of b now" and ?g = "grand_of b now"
  let ?N = "credit_map ?p ?g ?L"
  have tracked: "fmlookup ?L ?p \<noteq> None"
    using win False by (auto simp: lookup_learn_map pred_of_def window_ok_def split: if_splits)
  have small: "out_total ?F ?p < 2 ^ 64 - 1" "unat (fmget 0 (cont_map ?F ?p) ?g) < 2 ^ 64 - 1"
    using flow_okD(2,3) [OF flow] n by (meson order_le_less_trans)+
  have tot: "out_total ?N q = out_total ?F q + (if q = ?p then 1 else 0)" for q
    using credit_out_total [OF False tracked, of ?g q] small(1) by simp
  have cont: "cont_map ?N q =
      (if q = ?p \<and> ?g \<noteq> '''' then recordTrigramContinuation (cont_map ?F q) ?g else cont_map ?F q)" for q
    using credit_cont_map [OF False tracked, of ?g q] by simp
  have out: "outflow ?N q \<le> outflow ?F q + (if q = ?p then 1 else 0)" for q
    using learn_outflow [of b fp vol now q] by (auto split: if_splits)
  have tri: "triflow ?N g q \<le> triflow ?F g q + (if q = ?p \<and> g = ?g \<and> g \<noteq> '''' then 1 else 0)" for g q
    using learn_triflow [of b fp vol now g q] by (auto split: if_splits)
  have f1: "outflow ?N q \<le> out_total ?N q" "out_total ?N q \<le> Suc n" for q
    using out [of q] tot [of q] flow_okD(1,2) [OF flow, of q] by auto
  have f2: "unat (fmget 0 (cont_map ?N q) g) \<le> Suc n" for q g
    using flow_okD(3) [OF flow, of q g] conts.step_le [of "cont_map ?F q" ?g g] unfolding cont
    by (auto split: if_splits)
  have f3: "cont_bounds (cont_map ?N q) (\<lambda>g. triflow ?N g q)" for q
  proof (cases "q = ?p \<and> ?g \<noteq> ''''")
    case True
    have "triflow ?N g q \<le> triflow ?F g q + (if g = ?g then 1 else 0)" for g
      using tri [of g q] by (auto split: if_splits)
    then show ?thesis unfolding cont using True small(2) flow_okD(4) [OF flow, of q]
      by (simp add: cont_bounds_step)
  next
    case False
    then have "triflow ?N g q \<le> triflow ?F g q" for g using tri [of g q] by (auto split: if_splits)
    with False show ?thesis unfolding cont
      using cont_bounds_mono [OF flow_okD(4) [OF flow, of q]] by auto
  qed
  show ?thesis using f1 f2 f3 by (simp add: Baseline_Observe_eq flow_ok_def)
qed

lemma flow_ok_reachable:
  "learned_from key n b \<Longrightarrow> n < 2 ^ 64 \<Longrightarrow> flow_ok n (bl_Fingerprints b)"
proof (induction rule: learned_from.induct)
  case start
  show ?case by (simp add: Baseline_New_def flow_ok_New)
next
  case (step n b fp vol now)
  then show ?case by (intro flow_ok_Observe window_ok_reachable [of key n b]) auto
qed

end
