(* ===== verification/Baseline_Props.thy ===== *)
theory Baseline_Props
  imports Baseline_Flow
begin

text \<open>
  The properties of fingerprints and learned baselines, over the invariants of
  \<open>Baseline_Bounds\<close> and \<open>Baseline_Flow\<close>.
\<close>

text \<open>The bytes a fingerprint hashes determine the stable features when no
  field holds a NUL byte, so two behaviours with the same identifier and different features are a
  collision of the 64-bit hash and not of the framing; the identifier is never empty and holds
  lowercase hexadecimal digits only.\<close>

theorem fingerprint_stream_injective:
  assumes "nul_free s" and "nul_free t"
  shows "(fp_stream s = fp_stream t \<longleftrightarrow> s = t) \<and>
    fp_ID (Fingerprint_Compute s) = FormatUint16 (fnv_write fnv_offset64 (fp_stream s)) \<and>
    (fp_ID (Fingerprint_Compute s) = fp_ID (Fingerprint_Compute t) \<longleftrightarrow>
       fnv_write fnv_offset64 (fp_stream s) = fnv_write fnv_offset64 (fp_stream t)) \<and>
    fp_ID (Fingerprint_Compute s) \<noteq> '''' \<and>
    set (fp_ID (Fingerprint_Compute s)) \<subseteq> set ''0123456789abcdef''"
  using fp_stream_inject [OF assms] fp_ID_ne [of s] fp_ID_chars [of s]
  by (simp only: fp_ID_stream FormatUint16_inject simp_thms)

text \<open>Without that condition the framing is not injective: a NUL byte at
  the end of a name moves a field boundary, and two different operations get one fingerprint.\<close>

theorem nul_shifts_field_boundary:
  "\<exists>s t. s \<noteq> t \<and> sf_OperationName s \<noteq> sf_OperationName t \<and>
     fp_ID (Fingerprint_Compute s) = fp_ID (Fingerprint_Compute t)"
proof -
  let ?s = "\<lparr>sf_ActorType = ''service'', sf_OperationCategory = ''http'', sf_OperationName = [CHR ''a'', nul, CHR ''b''],
    sf_TargetName = '''', sf_TargetCategory = '''', sf_Environment = ''''\<rparr>"
  let ?t = "\<lparr>sf_ActorType = ''service'', sf_OperationCategory = ''http'', sf_OperationName = ''a'',
    sf_TargetName = [CHR ''b'', nul], sf_TargetCategory = '''', sf_Environment = ''''\<rparr>"
  have "fp_stream ?s = fp_stream ?t" by (simp add: fp_stream_def fp_fields_def)
  then have "fp_ID (Fingerprint_Compute ?s) = fp_ID (Fingerprint_Compute ?t)" by (simp add: fp_ID_stream)
  moreover have "sf_OperationName ?s \<noteq> sf_OperationName ?t" by simp
  ultimately show ?thesis by metis
qed

subsection \<open>Persisted keys\<close>

lemma Cut_append: "sep \<notin> set xs \<Longrightarrow> strings_Cut (xs @ sep # ys) sep = Some (xs, ys)"
  by (induction xs) auto

text \<open>The text form of a 3-gram key is read back as the same key when its first
  part is a fingerprint identifier, as every recorded one is; a text with no separator is refused.\<close>

theorem trigram_key_roundtrip:
  "TrigramKey_UnmarshalText (TrigramKey_MarshalText \<lparr>tk_First = fp_ID (Fingerprint_Compute s), tk_Second = q\<rparr>) =
     Inr \<lparr>tk_First = fp_ID (Fingerprint_Compute s), tk_Second = q\<rparr> \<and>
   (TrigramKey_UnmarshalText enc = Inl enc \<longleftrightarrow> CHR ''|'' \<notin> set enc)"
proof -
  have "CHR ''|'' \<notin> set (fp_ID (Fingerprint_Compute s))" using fp_ID_chars [of s] by auto
  then have "TrigramKey_UnmarshalText (TrigramKey_MarshalText \<lparr>tk_First = fp_ID (Fingerprint_Compute s), tk_Second = q\<rparr>) =
     Inr \<lparr>tk_First = fp_ID (Fingerprint_Compute s), tk_Second = q\<rparr>"
    by (simp add: TrigramKey_UnmarshalText_def TrigramKey_MarshalText_def trigramKeySeparator_def Cut_append)
  moreover have "strings_Cut enc (CHR ''|'') = None \<longleftrightarrow> CHR ''|'' \<notin> set enc" by (induction enc) auto
  then have "TrigramKey_UnmarshalText enc = Inl enc \<longleftrightarrow> CHR ''|'' \<notin> set enc"
    by (cases "strings_Cut enc (CHR ''|'')") (auto simp: TrigramKey_UnmarshalText_def trigramKeySeparator_def)
  ultimately show ?thesis by blast
qed

subsection \<open>Learned baselines\<close>

text \<open>However many observations a baseline receives, it tracks at most 512
  fingerprints and 64 delegators, and each fingerprint at most 64 predecessors, 64 3-grams and 64
  continuation totals, over a histogram of exactly 24 hours.\<close>

theorem baseline_resource_bounds:
  assumes "learned_from key n b"
  shows "fmsize (bl_Fingerprints b) \<le> 512 \<and> fmsize (bl_DelegatorCounts b) \<le> 64 \<and>
    (\<forall>i s. fmlookup (bl_Fingerprints b) i = Some s \<longrightarrow>
       fmsize (fs_PredecessorCounts s) \<le> 64 \<and>
       fmsize (fs_TrigramCounts s) \<le> 64 \<and>
       fmsize (fs_TrigramContinuationTotal s) \<le> 64 \<and>
       length (fs_HourActivity s) = 24)"
  using baseline_bounded_reachable [OF assms]
  by (auto simp: baseline_bounded_def stats_bounded_def maxFingerprints_def maxDelegators_def
      maxPredecessors_def maxTrigramPredecessors_def)

text \<open>An observation is learned exactly when its fingerprint is known or there is
  room; at capacity an unknown fingerprint is refused, known ones keep learning, and no observation
  ever removes a fingerprint or changes the statistics of one that is neither observed nor the
  predecessor.\<close>

theorem admission_never_evicts:
  "(snd (Baseline_Observe b fp vol now) \<longleftrightarrow>
      fmlookup (bl_Fingerprints b) (fp_ID fp) \<noteq> None \<or> fmsize (bl_Fingerprints b) < maxFingerprints) \<and>
   (snd (Baseline_Observe b fp vol now) \<longleftrightarrow>
      fmlookup (bl_Fingerprints (fst (Baseline_Observe b fp vol now))) (fp_ID fp) \<noteq> None) \<and>
   (\<forall>i. fmlookup (bl_Fingerprints b) i \<noteq> None \<longrightarrow>
      fmlookup (bl_Fingerprints (fst (Baseline_Observe b fp vol now))) i \<noteq> None) \<and>
   (\<forall>i. i \<noteq> fp_ID fp \<and> i \<noteq> bl_LastFingerprintID b \<longrightarrow>
      fmlookup (bl_Fingerprints (fst (Baseline_Observe b fp vol now))) i = fmlookup (bl_Fingerprints b) i)"
proof -
  have s: "snd (Baseline_Observe b fp vol now) = admits b fp" by (simp add: Baseline_Observe_eq)
  have l: "fmlookup (bl_Fingerprints (fst (Baseline_Observe b fp vol now))) (fp_ID fp) \<noteq> None \<longleftrightarrow> admits b fp"
    by (auto simp: Baseline_Observe_eq lookup_credit_map lookup_learn_map admits_def)
  have o: "fmlookup (bl_Fingerprints (fst (Baseline_Observe b fp vol now))) i = fmlookup (bl_Fingerprints b) i"
    if "i \<noteq> fp_ID fp" "i \<noteq> bl_LastFingerprintID b" for i
    using that by (auto simp: Baseline_Observe_eq lookup_credit_map lookup_learn_map pred_of_def)
  show ?thesis using Observe_keeps_known [of b _ fp vol now] o l unfolding s by (auto simp: admits_def)
qed

text \<open>The two-step history of a learned baseline names only fingerprints it has
  learned, and its time never moves backwards: a late observation leaves the window as it is.\<close>

theorem history_window_sound:
  assumes "learned_from key n b"
  shows "(bl_LastFingerprintID b \<noteq> '''' \<longrightarrow> fmlookup (bl_Fingerprints b) (bl_LastFingerprintID b) \<noteq> None) \<and>
    (bl_PreviousFingerprintID b \<noteq> '''' \<longrightarrow> fmlookup (bl_Fingerprints b) (bl_PreviousFingerprintID b) \<noteq> None) \<and>
    (bl_LastFingerprintID b \<noteq> '''' \<longrightarrow>
       \<not> Time_Before (bl_LastFingerprintTime (fst (Baseline_Observe b fp vol now))) (bl_LastFingerprintTime b)) \<and>
    (bl_LastFingerprintID b \<noteq> '''' \<longrightarrow> \<not> Time_After now (bl_LastFingerprintTime b) \<longrightarrow>
       bl_LastFingerprintID (fst (Baseline_Observe b fp vol now)) = bl_LastFingerprintID b \<and>
       bl_PreviousFingerprintID (fst (Baseline_Observe b fp vol now)) = bl_PreviousFingerprintID b)"
  using window_ok_reachable [OF assms]
  by (auto simp: window_ok_def Baseline_Observe_eq Time_Before_def Time_After_def)

text \<open>The error rate and every hour-of-day share of a learned baseline are finite and
  in [0, 1]: the moving averages do not leave the interval by rounding.\<close>

theorem learned_rates_unit:
  assumes "learned_from key n b" and "fmlookup (bl_Fingerprints b) i = Some s"
  shows "in01 (fs_ErrorRate s) \<and> (\<forall>a \<in> set (fs_HourActivity s). in01 a)"
  using rates_ok_reachable [OF assms] by (simp add: rates_ok_def)

text \<open>C16. In a baseline learned from fewer than 2^64 observations the transitions
  recorded from a fingerprint to all its destinations add up to at most its outgoing total, with no
  wrap-around, and every 3-gram count is at most the continuation total of its tracked pair; so the
  proportions the anomaly signals take never exceed 1.\<close>

theorem transition_flow_conserved:
  assumes "learned_from key n b" and "n < 2 ^ 64"
  shows "(\<Sum>d\<in>fset (fmdom (bl_Fingerprints b)).
      unat (fmget 0 (fs_PredecessorCounts (fmget zeroStats (bl_Fingerprints b) d)) p))
      \<le> unat (fs_OutgoingTransitionTotal (fmget zeroStats (bl_Fingerprints b) p)) \<and>
    (fmlookup (fs_TrigramContinuationTotal (fmget zeroStats (bl_Fingerprints b) p)) g \<noteq> None \<longrightarrow>
     fmget 0 (fs_TrigramCounts (fmget zeroStats (bl_Fingerprints b) d)) \<lparr>tk_First = g, tk_Second = p\<rparr>
      \<le> fmget 0 (fs_TrigramContinuationTotal (fmget zeroStats (bl_Fingerprints b) p)) g)"
proof -
  let ?F = "bl_Fingerprints b"
  have f: "flow_ok n ?F" using assms by (rule flow_ok_reachable)
  have "outflow ?F p \<le> out_total ?F p" using f by (rule flow_okD)
  moreover have "tri_count ?F d g p \<le> unat (fmget 0 (cont_map ?F p) g)" if "fmlookup (cont_map ?F p) g \<noteq> None"
    using tri_count_le_triflow [of ?F d g p] flow_okD(4) [OF f, of p] that
    by (auto simp: cont_bounds_def intro: le_trans)
  ultimately show ?thesis
    unfolding outflow_def pred_count_def out_total_def tri_count_def cont_map_def word_le_nat_alt by blast
qed

end
