(* ===== verification/Anomaly.thy ===== *)
theory Anomaly
  imports Baseline_Props
begin

text \<open>
  Anomaly scoring (\<^verbatim>\<open>internal/anomaly/anomaly.go\<close>): the twelve signals, the order in
  which \<^verbatim>\<open>Score\<close> collects them, and their noisy-OR combination in floating point.
  \<^verbatim>\<open>math.Log2\<close> is an argument of the definitions that use it. A detail text is kept
  as its format string with the values it prints.
\<close>

datatype fmt_arg = ArgU64 u64 | ArgF64 f64 | ArgDuration i64 | ArgString string | ArgInt int
  | ArgSprintf string "fmt_arg list"

datatype detail = NoDetail | Sprintf string "fmt_arg list"

record Config =
  cfg_MinObservations :: u64
  cfg_LatencyZThreshold :: f64
  cfg_FrequencyZThreshold :: f64
  cfg_NoveltyWeight :: f64
  cfg_LatencyWeight :: f64
  cfg_ErrorWeight :: f64
  cfg_FrequencyWeight :: f64
  cfg_TimePatternWeight :: f64
  cfg_TransitionWeight :: f64
  cfg_MinTransitionObservations :: u64
  cfg_TransitionRarityWeight :: f64
  cfg_NGramWeight :: f64
  cfg_MinNGramObservations :: u64
  cfg_NGramRarityWeight :: f64
  cfg_MarkovWeight :: f64
  cfg_DelegationWeight :: f64
  cfg_SensitiveTargetFloor :: "(string, f64) fmap"

definition Anomaly_DefaultConfig :: Config where
  "Anomaly_DefaultConfig = \<lparr>cfg_MinObservations = 20, cfg_LatencyZThreshold = Fin 3,
     cfg_FrequencyZThreshold = Fin 3, cfg_NoveltyWeight = f1, cfg_LatencyWeight = f64_of (3 / 5),
     cfg_ErrorWeight = f64_of (4 / 5), cfg_FrequencyWeight = f0, cfg_TimePatternWeight = f0,
     cfg_TransitionWeight = f0, cfg_MinTransitionObservations = 20,
     cfg_TransitionRarityWeight = f0, cfg_NGramWeight = f0, cfg_MinNGramObservations = 20,
     cfg_NGramRarityWeight = f0, cfg_MarkovWeight = f0, cfg_DelegationWeight = f0,
     cfg_SensitiveTargetFloor = fmempty\<rparr>"

record Signal =
  sig_Name :: string
  sig_Value :: f64
  sig_Weight :: f64
  sig_Detail :: detail

record Anomaly =
  an_FingerprintID :: string
  an_Score :: f64
  an_Confidence :: f64
  an_Contributors :: "Signal list"

abbreviation mkSignal :: "string \<Rightarrow> f64 \<Rightarrow> f64 \<Rightarrow> detail \<Rightarrow> Signal" where
  "mkSignal n v w d \<equiv> \<lparr>sig_Name = n, sig_Value = v, sig_Weight = w, sig_Detail = d\<rparr>"

subsection \<open>The signals\<close>

text \<open>The z-score both timing signals compute: a deviation counted in standard deviations, its
  absolute value, scaled by the configured threshold and capped at 1. With a standard deviation near
  zero any difference is a full deviation.\<close>

definition z_score :: "f64 \<Rightarrow> f64 \<Rightarrow> f64 \<Rightarrow> f64" where
  "z_score current mean stddev =
     (let z = fdiv (fsub current mean) stddev in if flt z f0 then fneg z else z)"

definition latencySignal :: "i64 \<Rightarrow> FingerprintStats \<Rightarrow> Config \<Rightarrow> Signal" where
  "latencySignal current stats cfg =
     (let stddev = f64_of_i64 (LatencyStdDevDuration stats);
          mean = fs_LatencyMean stats;
          currentNS = f64_of_i64 current;
          nearZeroStdDev = flt stddev (f64_of 1000);
          z = (if nearZeroStdDev then f0 else z_score currentNS mean stddev);
          v = (if nearZeroStdDev then (if \<not> feq currentNS mean then f1 else f0)
               else fmin (fdiv z (cfg_LatencyZThreshold cfg)) f1)
      in if feq v f0 then mkSignal ''latency_deviation'' f0 (cfg_LatencyWeight cfg) NoDetail
         else mkSignal ''latency_deviation'' v (cfg_LatencyWeight cfg)
           (if nearZeroStdDev
            then Sprintf ''latency %s deviates from a stable baseline of %s (stddev ~0)''
              [ArgDuration current, ArgDuration (LatencyMeanDuration stats)]
            else Sprintf ''latency z-score %.2f (mean %s, stddev %s)''
              [ArgF64 z, ArgDuration (LatencyMeanDuration stats),
               ArgDuration (LatencyStdDevDuration stats)]))"

definition frequencySignal :: "i64 \<Rightarrow> FingerprintStats \<Rightarrow> Config \<Rightarrow> Signal" where
  "frequencySignal currentInterval stats cfg =
     (let stddev = fsqrt (fs_IntervalVariance stats);
          mean = fs_IntervalMean stats;
          currentNS = f64_of_i64 currentInterval;
          nearZeroStdDev = flt stddev (f64_of 1000000);
          z = (if nearZeroStdDev then f0 else z_score currentNS mean stddev);
          v = (if nearZeroStdDev then (if \<not> feq currentNS mean then f1 else f0)
               else fmin (fdiv z (cfg_FrequencyZThreshold cfg)) f1)
      in if feq v f0 then mkSignal ''frequency_deviation'' f0 (cfg_FrequencyWeight cfg) NoDetail
         else mkSignal ''frequency_deviation'' v (cfg_FrequencyWeight cfg)
           (if nearZeroStdDev
            then Sprintf ''interval %s deviates from a stable baseline of %s (stddev ~0)''
              [ArgDuration currentInterval, ArgDuration (i64_of_f64 mean)]
            else Sprintf ''inter-event interval z-score %.2f (mean %s, stddev %s)''
              [ArgF64 z, ArgDuration (i64_of_f64 mean), ArgDuration (i64_of_f64 stddev)]))"

definition uniformShare :: f64 where "uniformShare = f64_of (1 / 24)"

definition timePatternSignal :: "nat \<Rightarrow> FingerprintStats \<Rightarrow> Config \<Rightarrow> Signal" where
  "timePatternSignal hour stats cfg =
     (let activity = fmax (fs_HourActivity stats ! hour) f0;
          v = fsub f1 (fmin (fdiv activity uniformShare) f1)
      in if feq v f0 then mkSignal ''time_pattern_deviation'' f0 (cfg_TimePatternWeight cfg) NoDetail
         else mkSignal ''time_pattern_deviation'' v (cfg_TimePatternWeight cfg)
           (Sprintf ''hour-of-day %02d:00 UTC has historically accounted for %.1f%% of this fingerprint's traffic (uniform baseline: %.1f%%)''
              [ArgInt (int hour), ArgF64 (fmul activity (Fin 100)), ArgF64 (f64_of (25 / 6))]))"

definition transitionSignal :: "string \<Rightarrow> FingerprintStats \<Rightarrow> Config \<Rightarrow> Signal" where
  "transitionSignal predecessor destStats cfg =
     (if 0 < fmget 0 (fs_PredecessorCounts destStats) predecessor
      then mkSignal ''transition_deviation'' f0 (cfg_TransitionWeight cfg) NoDetail
      else mkSignal ''transition_deviation'' f1 (cfg_TransitionWeight cfg)
        (Sprintf ''transition from fingerprint %s has never been observed leading to this one''
           [ArgString predecessor]))"

definition delegationSignal :: "string \<Rightarrow> Baseline \<Rightarrow> Config \<Rightarrow> Signal" where
  "delegationSignal delegatedFrom bl cfg =
     (if 0 < fmget 0 (bl_DelegatorCounts bl) delegatedFrom
      then mkSignal ''delegation_deviation'' f0 (cfg_DelegationWeight cfg) NoDetail
      else mkSignal ''delegation_deviation'' f1 (cfg_DelegationWeight cfg)
        (Sprintf ''delegator %q has never been observed for this actor'' [ArgString delegatedFrom]))"

definition clamp_unit :: "f64 \<Rightarrow> f64" where
  "clamp_unit v = fmax (fmin v f1) f0"

definition transitionRaritySignal ::
  "string \<Rightarrow> FingerprintStats \<Rightarrow> FingerprintStats \<Rightarrow> Config \<Rightarrow> Signal" where
  "transitionRaritySignal predecessor predStats destStats cfg =
     (let count = fmget 0 (fs_PredecessorCounts destStats) predecessor;
          total = fs_OutgoingTransitionTotal predStats;
          quiet = mkSignal ''transition_rarity'' f0 (cfg_TransitionRarityWeight cfg) NoDetail
      in if count = 0 then quiet
         else if total = 0 \<or> total < cfg_MinTransitionObservations cfg then quiet
         else let frequency = fdiv (f64_of_u64 count) (f64_of_u64 total);
                  v = clamp_unit (fsub f1 frequency)
              in if feq v f0 then quiet
                 else mkSignal ''transition_rarity'' v (cfg_TransitionRarityWeight cfg)
                   (Sprintf ''transition observed %d/%d (%.2f%%) of this fingerprint's outgoing transitions''
                      [ArgU64 count, ArgU64 total, ArgF64 (fmul frequency (Fin 100))]))"

definition markovSurprisalSignal ::
  "(f64 \<Rightarrow> f64) \<Rightarrow> string \<Rightarrow> FingerprintStats \<Rightarrow> FingerprintStats \<Rightarrow> Config \<Rightarrow> Signal" where
  "markovSurprisalSignal log2 predecessor predStats destStats cfg =
     (let count = fmget 0 (fs_PredecessorCounts destStats) predecessor;
          total = fs_OutgoingTransitionTotal predStats;
          quiet = mkSignal ''markov_surprisal'' f0 (cfg_MarkovWeight cfg) NoDetail
      in if count = 0 then quiet
         else if total = 0 \<or> total < cfg_MinTransitionObservations cfg then quiet
         else let frequency = fdiv (f64_of_u64 count) (f64_of_u64 total);
                  surprisal = fneg (log2 frequency);
                  k = log2 (fmax (f64_of_u64 (cfg_MinTransitionObservations cfg)) (Fin 2));
                  v = clamp_unit (fdiv surprisal (fadd surprisal k))
              in if feq v f0 then quiet
                 else mkSignal ''markov_surprisal'' v (cfg_MarkovWeight cfg)
                   (Sprintf ''transition observed %d/%d (%.2f%%) of this fingerprint's outgoing transitions, carrying %.2f bits of surprise under the learned first-order model''
                      [ArgU64 count, ArgU64 total, ArgF64 (fmul frequency (Fin 100)), ArgF64 surprisal]))"

definition ngramDeviationSignal :: "string \<Rightarrow> string \<Rightarrow> FingerprintStats \<Rightarrow> Config \<Rightarrow> Signal" where
  "ngramDeviationSignal grandparent predecessor destStats cfg =
     (if 0 < fmget 0 (fs_TrigramCounts destStats) \<lparr>tk_First = grandparent, tk_Second = predecessor\<rparr>
      then mkSignal ''ngram_deviation'' f0 (cfg_NGramWeight cfg) NoDetail
      else mkSignal ''ngram_deviation'' f1 (cfg_NGramWeight cfg)
        (Sprintf ''behavioral sequence via fingerprints %s -> %s has never been observed leading to this one, for this actor''
           [ArgString grandparent, ArgString predecessor]))"

definition ngramRaritySignal ::
  "string \<Rightarrow> string \<Rightarrow> FingerprintStats \<Rightarrow> FingerprintStats \<Rightarrow> Config \<Rightarrow> Signal" where
  "ngramRaritySignal grandparent predecessor predStats destStats cfg =
     (let count = fmget 0 (fs_TrigramCounts destStats)
                    \<lparr>tk_First = grandparent, tk_Second = predecessor\<rparr>;
          total = fmget 0 (fs_TrigramContinuationTotal predStats) grandparent;
          quiet = mkSignal ''ngram_rarity'' f0 (cfg_NGramRarityWeight cfg) NoDetail
      in if count = 0 then quiet
         else if total = 0 \<or> total < cfg_MinNGramObservations cfg then quiet
         else let frequency = fdiv (f64_of_u64 count) (f64_of_u64 total);
                  v = clamp_unit (fsub f1 frequency)
              in if feq v f0 then quiet
                 else mkSignal ''ngram_rarity'' v (cfg_NGramRarityWeight cfg)
                   (Sprintf ''behavioral sequence %s -> %s -> (this fingerprint) observed %d/%d (%.2f%%) of this pair's continuations''
                      [ArgString grandparent, ArgString predecessor, ArgU64 count, ArgU64 total,
                       ArgF64 (fmul frequency (Fin 100))]))"

definition errorSignal :: "bool \<Rightarrow> FingerprintStats \<Rightarrow> Config \<Rightarrow> Signal" where
  "errorSignal known stats cfg =
     (if \<not> known
      then mkSignal ''error_deviation'' f1 (cfg_ErrorWeight cfg)
        (Sprintf ''error observed on a fingerprint with no baseline error history'' [])
      else mkSignal ''error_deviation'' (fsub f1 (fs_ErrorRate stats)) (cfg_ErrorWeight cfg)
        (Sprintf ''error observed against a baseline error rate of %.1f%%''
           [ArgF64 (fmul (fs_ErrorRate stats) (Fin 100))]))"

subsection \<open>Combination\<close>

definition contribution :: "Signal \<Rightarrow> f64" where
  "contribution s = fmax (fmin (fmul (sig_Value s) (sig_Weight s)) f1) f0"

definition combine_step :: "f64 \<Rightarrow> Signal \<Rightarrow> f64" where
  "combine_step product s = fmul product (fsub f1 (contribution s))"

definition combine :: "Signal list \<Rightarrow> f64" where
  "combine signals = fsub f1 (foldl combine_step f1 signals)"

definition firing :: "Signal \<Rightarrow> Signal list" where
  "firing s = (if flt f0 (sig_Value s) then [s] else [])"

definition familiarity_of :: "bool \<Rightarrow> FingerprintStats \<Rightarrow> Config \<Rightarrow> f64" where
  "familiarity_of known stats cfg =
     (if known then
        (if cfg_MinObservations cfg = 0 then f1
         else fmin (fdiv (f64_of_u64 (fs_Count stats)) (f64_of_u64 (cfg_MinObservations cfg))) f1)
      else f0)"

definition noveltySignals :: "bool \<Rightarrow> FingerprintStats \<Rightarrow> Config \<Rightarrow> Signal list" where
  "noveltySignals known stats cfg =
     (let noveltyValue = fsub f1 (familiarity_of known stats cfg) in
      firing (mkSignal ''categorical_novelty'' noveltyValue (cfg_NoveltyWeight cfg)
        (if known then Sprintf ''fingerprint observed %d/%d times required for maturity''
                         [ArgU64 (fs_Count stats), ArgU64 (cfg_MinObservations cfg)]
         else Sprintf ''fingerprint never observed for this actor'' [])))"

definition sequenceSignals ::
  "(f64 \<Rightarrow> f64) \<Rightarrow> Features \<Rightarrow> Baseline \<Rightarrow> FingerprintStats \<Rightarrow> Config \<Rightarrow> Signal list" where
  "sequenceSignals log2 feat bl stats cfg =
     (if bl_LastFingerprintID bl \<noteq> ''''
         \<and> Time_After (vf_Timestamp (ft_Volatile feat)) (bl_LastFingerprintTime bl)
      then let predStats = fmget zeroStats (bl_Fingerprints bl) (bl_LastFingerprintID bl);
               rarity = transitionRaritySignal (bl_LastFingerprintID bl) predStats stats cfg
           in firing (transitionSignal (bl_LastFingerprintID bl) stats cfg)
              @ firing (if flt f0 (cfg_MarkovWeight cfg) then rarity\<lparr>sig_Weight := f0\<rparr> else rarity)
              @ firing (markovSurprisalSignal log2 (bl_LastFingerprintID bl) predStats stats cfg)
              @ (if bl_PreviousFingerprintID bl \<noteq> ''''
                 then firing (ngramDeviationSignal (bl_PreviousFingerprintID bl)
                                (bl_LastFingerprintID bl) stats cfg)
                      @ firing (ngramRaritySignal (bl_PreviousFingerprintID bl)
                                  (bl_LastFingerprintID bl) predStats stats cfg)
                 else [])
      else [])"

definition Score ::
  "(f64 \<Rightarrow> f64) \<Rightarrow> Features \<Rightarrow> Fingerprint \<Rightarrow> Baseline \<Rightarrow> Config \<Rightarrow> Anomaly" where
  "Score log2 feat fp bl cfg =
     (let known = (fmlookup (bl_Fingerprints bl) (fp_ID fp) \<noteq> None);
          stats = fmget zeroStats (bl_Fingerprints bl) (fp_ID fp);
          vol = ft_Volatile feat;
          interval = Time_Sub (vf_Timestamp vol) (fs_LastObserved stats);
          signals =
            noveltySignals known stats cfg
            @ (if vf_HasLatency vol \<and> known \<and> 0 < fs_LatencyObservations stats
               then firing (latencySignal (vf_Latency vol) stats cfg) else [])
            @ (if known \<and> 0 < fs_IntervalObservations stats \<and> 0 < sint interval
               then firing (frequencySignal interval stats cfg) else [])
            @ (if known \<and> cfg_MinObservations cfg \<le> fs_TimePatternObservations stats
               then firing (timePatternSignal (Time_UTC_Hour (vf_Timestamp vol)) stats cfg) else [])
            @ sequenceSignals log2 feat bl stats cfg
            @ (if vf_Error vol then firing (errorSignal known stats cfg) else [])
            @ (if vf_DelegatedFrom vol \<noteq> ''''
               then firing (delegationSignal (vf_DelegatedFrom vol) bl cfg) else [])
            @ (case fmlookup (cfg_SensitiveTargetFloor cfg) (sf_TargetName (ft_Stable feat)) of
                 None \<Rightarrow> []
               | Some flr \<Rightarrow>
                   firing (mkSignal ''sensitive_target'' flr f1
                     (Sprintf ''target %q carries a fixed risk floor regardless of baseline familiarity''
                        [ArgString (sf_TargetName (ft_Stable feat))])))
      in \<lparr>an_FingerprintID = fp_ID fp, an_Score = combine signals,
          an_Confidence = familiarity_of known stats cfg, an_Contributors = signals\<rparr>)"

subsection \<open>The noisy-OR stays in the unit interval\<close>

text \<open>A signal \<open>Score\<close> collects has a positive value; its product with the weight is a number.\<close>

definition usable :: "Signal \<Rightarrow> bool" where
  "usable s \<longleftrightarrow> fmul (sig_Value s) (sig_Weight s) \<noteq> NaN"

lemma in01_contribution: "usable s \<Longrightarrow> in01 (contribution s)"
  unfolding contribution_def usable_def by (rule in01_clamp)

lemma combine_step_01:
  assumes "in01 a" "fvalid a" "usable s"
  shows "in01 (combine_step a s)" "fvalid (combine_step a s)" "fle (combine_step a s) a"
proof -
  have c: "in01 (fsub f1 (contribution s))" using assms(3) by (intro in01_fsub in01_contribution)
  show "in01 (combine_step a s)" unfolding combine_step_def using assms(1) c by (rule in01_fmul)
  show "fle (combine_step a s) a" unfolding combine_step_def using assms c by (intro fmul_le_left)
  obtain x y where "a = Fin x" "fsub f1 (contribution s) = Fin y" using assms(1) c by (auto elim!: in01E)
  then show "fvalid (combine_step a s)" by (simp add: combine_step_def)
qed

lemma fold_combine:
  assumes "list_all usable ss" "in01 a" "fvalid a"
  shows "in01 (foldl combine_step a ss) \<and> fvalid (foldl combine_step a ss) \<and>
    fle (foldl combine_step a ss) a"
  using assms
proof (induction ss arbitrary: a)
  case Nil
  then show ?case by (auto elim!: in01E)
next
  case (Cons s ss)
  then have st: "in01 (combine_step a s)" "fvalid (combine_step a s)" "fle (combine_step a s) a"
    by (auto intro: combine_step_01)
  with Cons.IH [of "combine_step a s"] Cons.prems show ?case by (auto intro: fle_trans)
qed

lemma in01_combine: "list_all usable ss \<Longrightarrow> in01 (combine ss)"
  unfolding combine_def using fold_combine [of ss f1] by (intro in01_fsub) auto

lemma combine_ge_member:
  assumes "list_all usable ss" and "s \<in> set ss"
  shows "fle (fsub f1 (fsub f1 (contribution s))) (combine ss)"
proof -
  obtain xs ys where ss: "ss = xs @ s # ys" using assms(2) by (auto simp: in_set_conv_decomp)
  let ?a = "foldl combine_step f1 xs"
  have u: "list_all usable xs" "usable s" "list_all usable ys" using assms(1) ss by auto
  have a: "in01 ?a" "fvalid ?a" using fold_combine [OF u(1), of f1] by auto
  have c: "in01 (fsub f1 (contribution s))" using u(2) by (intro in01_fsub in01_contribution)
  have v: "fvalid (fsub f1 (contribution s))"
    using in01_contribution [OF u(2)] by (auto elim!: in01E simp: fsub_def f1_def)
  have "combine_step ?a s = fmul ?a (fsub f1 (contribution s))" by (rule combine_step_def)
  then have "fle (combine_step ?a s) (fsub f1 (contribution s))"
    using fmul_le_right [OF a(1) c v] by simp
  moreover have st: "in01 (combine_step ?a s)" "fvalid (combine_step ?a s)"
    using combine_step_01 [OF a u(2)] by auto
  moreover have "fle (foldl combine_step (combine_step ?a s) ys) (combine_step ?a s)"
      "in01 (foldl combine_step (combine_step ?a s) ys)"
    using fold_combine [OF u(3) st] by auto
  ultimately show ?thesis unfolding combine_def ss foldl_append foldl_Cons
    using c by (intro fsub_antimono_01) (auto intro: fle_trans)
qed

text \<open>A signal whose weight is zero leaves the score as it is.\<close>

lemma contribution_zero: "sig_Value s = Fin v \<Longrightarrow> sig_Weight s = f0 \<Longrightarrow> contribution s = f0"
  by (simp add: contribution_def f0_def f1_def fmin_def fmax_def)

lemma combine_step_zero:
  "in01 a \<Longrightarrow> fvalid a \<Longrightarrow> contribution s = f0 \<Longrightarrow> combine_step a s = a"
  by (simp add: combine_step_def fsub_zero fmul_one)

definition weighted :: "Signal \<Rightarrow> bool" where
  "weighted s \<longleftrightarrow> contribution s \<noteq> f0"

lemma fold_combine_filter:
  assumes "list_all usable ss" "in01 a" "fvalid a"
  shows "foldl combine_step a ss = foldl combine_step a (filter weighted ss)"
  using assms
proof (induction ss arbitrary: a)
  case (Cons s ss)
  show ?case
  proof (cases "weighted s")
    case True
    then show ?thesis using Cons combine_step_01 [of a s] by simp
  next
    case False
    then show ?thesis using Cons combine_step_zero [of a s] by (simp add: weighted_def)
  qed
qed simp

lemma combine_filter: "list_all usable ss \<Longrightarrow> combine ss = combine (filter weighted ss)"
  unfolding combine_def using fold_combine_filter [of ss f1] by simp

end
