(* ===== verification/Anomaly_Score.thy ===== *)
theory Anomaly_Score
  imports Anomaly
begin

text \<open>
  What holds of \<^verbatim>\<open>anomaly.Score\<close>: every signal it collects can be combined, so the
  score is a number between 0 and 1; the sensitive-target floor bounds it from below; the signals of
  the learned sequence are proportions, one of deviation and rarity at a time.
\<close>

subsection \<open>Signal values\<close>

definition le1 :: "f64 \<Rightarrow> bool" where
  "le1 v \<longleftrightarrow> v = NaN \<or> fle v f1"

lemma le1_basic [simp]: "le1 f0" "le1 f1" "le1 (fmin x f1)" "le1 NaN"
  by (cases x; auto simp: le1_def fmin_def f0_def f1_def)+

lemma le1_clamp [simp]: "le1 (clamp_unit v)"
  by (cases v) (auto simp: le1_def clamp_unit_def fmin_def fmax_def f0_def f1_def)

lemma le1_fsub_01: "in01 x \<Longrightarrow> le1 (fsub f1 x)"
  using in01_fsub [of x] by (auto simp: le1_def f1_def elim!: in01E)

lemma uniformShare_pos: "\<exists>r. uniformShare = Fin r \<and> 0 < r"
proof -
  have "(0::rat) < 6004799503160661 / 144115188075855872" by simp
  moreover have "uniformShare = Fin (6004799503160661 / 144115188075855872)"
    unfolding uniformShare_def by (subst f64_of_01, simp, simp) code_simp
  ultimately show ?thesis by blast
qed

lemma fmin_nonneg_01: "x \<noteq> NaN \<Longrightarrow> fle f0 x \<Longrightarrow> in01 (fmin x f1)"
  by (cases x) (auto simp: fmin_def f0_def f1_def)

lemma fdiv_share_nonneg:
  assumes "x \<noteq> NaN" and "fle f0 x"
  shows "fle f0 (fdiv x uniformShare) \<and> fdiv x uniformShare \<noteq> NaN"
proof -
  obtain r where r: "uniformShare = Fin r" "0 < r" using uniformShare_pos by blast
  show ?thesis unfolding r(1) using assms r(2) f64_of_mono [of 0]
    by (cases x) (auto simp: f0_def inf_sgn_def)
qed

lemma fmax_nonneg: "fmax a f0 = NaN \<or> fle f0 (fmax a f0)"
  by (cases a) (auto simp: fmax_def f0_def)

lemma le1_timePattern: "le1 (fsub f1 (fmin (fdiv (fmax a f0) uniformShare) f1))"
proof (cases "fmax a f0 = NaN")
  case True
  then show ?thesis by (simp add: fmin_def fsub_def f1_def)
next
  case False
  then have "in01 (fmin (fdiv (fmax a f0) uniformShare) f1)"
    using fdiv_share_nonneg [OF False] fmax_nonneg [of a] by (intro fmin_nonneg_01) auto
  then show ?thesis by (rule le1_fsub_01)
qed

lemma in01_familiarity: "in01 (familiarity_of known stats cfg)"
  by (simp add: familiarity_of_def ratio_01)

lemma signal_le1 [simp]:
  "le1 (sig_Value (latencySignal d stats cfg))"
  "le1 (sig_Value (frequencySignal d stats cfg))"
  "le1 (sig_Value (timePatternSignal h stats cfg))"
  "le1 (sig_Value (transitionSignal p stats cfg))"
  "le1 (sig_Value (delegationSignal p bl cfg))"
  "le1 (sig_Value (transitionRaritySignal p ps stats cfg))"
  "le1 (sig_Value (markovSurprisalSignal log2 p ps stats cfg))"
  "le1 (sig_Value (ngramDeviationSignal g p stats cfg))"
  "le1 (sig_Value (ngramRaritySignal g p ps stats cfg))"
  by (simp_all add: latencySignal_def frequencySignal_def timePatternSignal_def transitionSignal_def
      delegationSignal_def transitionRaritySignal_def markovSurprisalSignal_def
      ngramDeviationSignal_def ngramRaritySignal_def Let_def le1_timePattern)

lemma signal_weight [simp]:
  "sig_Weight (latencySignal d stats cfg) = cfg_LatencyWeight cfg"
  "sig_Weight (frequencySignal d stats cfg) = cfg_FrequencyWeight cfg"
  "sig_Weight (timePatternSignal h stats cfg) = cfg_TimePatternWeight cfg"
  "sig_Weight (transitionSignal p stats cfg) = cfg_TransitionWeight cfg"
  "sig_Weight (delegationSignal p bl cfg) = cfg_DelegationWeight cfg"
  "sig_Weight (transitionRaritySignal p ps stats cfg) = cfg_TransitionRarityWeight cfg"
  "sig_Weight (markovSurprisalSignal log2 p ps stats cfg) = cfg_MarkovWeight cfg"
  "sig_Weight (ngramDeviationSignal g p stats cfg) = cfg_NGramWeight cfg"
  "sig_Weight (ngramRaritySignal g p ps stats cfg) = cfg_NGramRarityWeight cfg"
  "sig_Weight (errorSignal known stats cfg) = cfg_ErrorWeight cfg"
  by (simp_all add: latencySignal_def frequencySignal_def timePatternSignal_def transitionSignal_def
      delegationSignal_def transitionRaritySignal_def markovSurprisalSignal_def
      ngramDeviationSignal_def ngramRaritySignal_def errorSignal_def Let_def)

definition weights_ok :: "Config \<Rightarrow> bool" where
  "weights_ok cfg \<longleftrightarrow> NaN \<notin> {cfg_NoveltyWeight cfg, cfg_LatencyWeight cfg, cfg_ErrorWeight cfg,
     cfg_FrequencyWeight cfg, cfg_TimePatternWeight cfg, cfg_TransitionWeight cfg,
     cfg_TransitionRarityWeight cfg, cfg_NGramWeight cfg, cfg_NGramRarityWeight cfg,
     cfg_MarkovWeight cfg, cfg_DelegationWeight cfg}"

lemma weights_okD:
  assumes "weights_ok cfg"
  shows "cfg_NoveltyWeight cfg \<noteq> NaN" "cfg_LatencyWeight cfg \<noteq> NaN" "cfg_ErrorWeight cfg \<noteq> NaN"
    "cfg_FrequencyWeight cfg \<noteq> NaN" "cfg_TimePatternWeight cfg \<noteq> NaN"
    "cfg_TransitionWeight cfg \<noteq> NaN" "cfg_TransitionRarityWeight cfg \<noteq> NaN"
    "cfg_NGramWeight cfg \<noteq> NaN" "cfg_NGramRarityWeight cfg \<noteq> NaN" "cfg_MarkovWeight cfg \<noteq> NaN"
    "cfg_DelegationWeight cfg \<noteq> NaN"
  using assms by (auto simp: weights_ok_def)

subsection \<open>Every collected signal is usable\<close>

lemma usable_firing:
  assumes "le1 (sig_Value s)" and "sig_Weight s \<noteq> NaN"
  shows "list_all usable (firing s)"
proof (cases "flt f0 (sig_Value s)")
  case True
  with assms(1) obtain r where "sig_Value s = Fin r" "0 < r"
    by (cases "sig_Value s") (auto simp: le1_def f0_def f1_def)
  then have "fmul (sig_Value s) (sig_Weight s) \<noteq> NaN"
    using assms(2) by (cases "sig_Weight s") (auto simp: inf_sgn_def)
  then show ?thesis by (simp add: firing_def usable_def)
qed (simp add: firing_def)

lemma usable_floor: "sig_Weight s = f1 \<Longrightarrow> list_all usable (firing s)"
  by (cases "sig_Value s") (auto simp: firing_def usable_def f1_def f0_def inf_sgn_def)

lemma usable_sequence: "weights_ok cfg \<Longrightarrow> list_all usable (sequenceSignals log2 feat bl stats cfg)"
  by (auto simp: sequenceSignals_def Let_def weights_okD list_all_append f0_def
      intro!: usable_firing)

lemma usable_novelty: "weights_ok cfg \<Longrightarrow> list_all usable (noveltySignals known stats cfg)"
  unfolding noveltySignals_def Let_def
  by (rule usable_firing) (simp_all add: le1_fsub_01 in01_familiarity weights_okD)

lemma usable_error:
  assumes "weights_ok cfg" and "known \<Longrightarrow> in01 (fs_ErrorRate stats)"
  shows "list_all usable (firing (errorSignal known stats cfg))"
  using assms by (intro usable_firing) (auto simp: errorSignal_def le1_fsub_01 weights_okD)

lemma usable_if: "(c \<Longrightarrow> list_all usable xs) \<Longrightarrow> list_all usable (if c then xs else [])"
  by simp

lemma Score_usable:
  assumes "weights_ok cfg" and "\<And>s. fmlookup (bl_Fingerprints bl) (fp_ID fp) = Some s \<Longrightarrow> rates_ok s"
  shows "list_all usable (an_Contributors (Score log2 feat fp bl cfg))"
proof -
  have e: "fmlookup (bl_Fingerprints bl) (fp_ID fp) \<noteq> None \<Longrightarrow>
      in01 (fs_ErrorRate (fmget zeroStats (bl_Fingerprints bl) (fp_ID fp)))"
    using assms(2) by (auto simp: fmget_Some rates_ok_def)
  show ?thesis
    unfolding Score_def Let_def Anomaly.select_convs list_all_append
    apply (intro conjI usable_if usable_novelty usable_sequence usable_error assms(1) e)
    by (simp_all add: usable_firing weights_okD assms(1) usable_floor split: option.split)
qed

lemma Score_is_combine:
  "an_Score (Score log2 feat fp bl cfg) = combine (an_Contributors (Score log2 feat fp bl cfg))"
  by (simp add: Score_def Let_def)

lemma Score_in01:
  assumes "weights_ok cfg" and "\<And>s. fmlookup (bl_Fingerprints bl) (fp_ID fp) = Some s \<Longrightarrow> rates_ok s"
  shows "in01 (an_Score (Score log2 feat fp bl cfg))"
  unfolding Score_is_combine using Score_usable [OF assms] by (rule in01_combine)

subsection \<open>Weights, floors and novelty\<close>

lemma zero_weight_unweighted: "usable s \<Longrightarrow> weighted s \<Longrightarrow> sig_Weight s \<noteq> f0"
  by (cases "sig_Value s") (auto simp: weighted_def contribution_zero usable_def f0_def inf_sgn_def)

lemma combine_drop_zero:
  assumes "list_all usable ss"
  shows "combine (filter (\<lambda>s. sig_Weight s \<noteq> f0) ss) = combine ss"
proof -
  let ?zs = "filter (\<lambda>s. sig_Weight s \<noteq> f0) ss"
  have "list_all usable ?zs" using assms by (auto simp: list_all_iff)
  then have "combine ?zs = combine (filter weighted ?zs)" by (rule combine_filter)
  also have "filter weighted ?zs = filter weighted ss"
    using assms by (auto simp: list_all_iff zero_weight_unweighted intro!: filter_cong)
  also have "combine (filter weighted ss) = combine ss" using combine_filter [OF assms] by simp
  finally show ?thesis .
qed

lemma contribution_unit_weight: "fvalid (Fin r) \<Longrightarrow> 0 \<le> r \<Longrightarrow> r \<le> 1 \<Longrightarrow>
  sig_Value s = Fin r \<Longrightarrow> sig_Weight s = f1 \<Longrightarrow> contribution s = Fin r"
  using f64_of_self [of r] by (simp add: contribution_def f1_def f0_def fmin_def fmax_def)

lemma Score_has_floor:
  assumes "fmlookup (cfg_SensitiveTargetFloor cfg) (sf_TargetName (ft_Stable feat)) = Some (Fin r)"
    and "0 < r"
  shows "\<exists>s \<in> set (an_Contributors (Score log2 feat fp bl cfg)). sig_Value s = Fin r \<and> sig_Weight s = f1"
  unfolding Score_def Let_def Anomaly.select_convs using assms by (simp add: firing_def f0_def)

lemma Score_novel:
  assumes "fmlookup (bl_Fingerprints bl) (fp_ID fp) = None"
  shows "\<exists>s \<in> set (an_Contributors (Score log2 feat fp bl cfg)).
    sig_Name s = ''categorical_novelty'' \<and> sig_Value s = f1 \<and> sig_Weight s = cfg_NoveltyWeight cfg"
proof -
  have "flt f0 f1" by (simp add: f0_def f1_def)
  then show ?thesis unfolding Score_def Let_def Anomaly.select_convs noveltySignals_def familiarity_of_def
    using assms by (simp add: fsub_zero firing_def)
qed

lemma fsub_fsub_half: "1 / 2 \<le> r \<Longrightarrow> r \<le> 1 \<Longrightarrow> rnd r = r \<Longrightarrow> fsub f1 (fsub f1 (Fin r)) = Fin r"
  using one_minus_exact [of r] by (simp add: fsub_01)

text \<open>C38. For every baseline learned from events and every configuration whose
  weights are numbers, the anomaly score and the confidence are finite and lie in [0, 1].\<close>

theorem score_unit_interval:
  assumes "learned_from key n bl" and "weights_ok cfg"
  shows "in01 (an_Score (Score log2 feat fp bl cfg)) \<and> in01 (an_Confidence (Score log2 feat fp bl cfg))"
proof
  show "in01 (an_Score (Score log2 feat fp bl cfg))"
    using assms by (intro Score_in01) (auto intro: rates_ok_reachable)
  show "in01 (an_Confidence (Score log2 feat fp bl cfg))"
    by (simp add: Score_def Let_def in01_familiarity)
qed

text \<open>A target with a configured floor of at least one half scores at
  least that floor, however familiar the behaviour is; a smaller floor bounds the score up to the
  rounding of 1 - (1 - floor).\<close>

theorem sensitive_floor_dominates:
  assumes "learned_from key n bl" and "weights_ok cfg"
    and "fmlookup (cfg_SensitiveTargetFloor cfg) (sf_TargetName (ft_Stable feat)) = Some (Fin r)"
    and "0 < r" and "r \<le> 1" and "rnd r = r"
  shows "fle (if 1 / 2 \<le> r then Fin r else fsub f1 (fsub f1 (Fin r)))
           (an_Score (Score log2 feat fp bl cfg))"
proof -
  let ?ss = "an_Contributors (Score log2 feat fp bl cfg)"
  obtain s where s: "s \<in> set ?ss" "sig_Value s = Fin r" "sig_Weight s = f1"
    using Score_has_floor [OF assms(3,4)] by blast
  have "fvalid (Fin r)" using assms(4,5,6) big_f64 by simp
  then have "contribution s = Fin r" using assms(4,5) s by (intro contribution_unit_weight) auto
  moreover have "list_all usable ?ss"
    using assms(1,2) by (intro Score_usable) (auto intro: rates_ok_reachable)
  ultimately have "fle (fsub f1 (fsub f1 (Fin r))) (combine ?ss)"
    using combine_ge_member [OF _ s(1)] by simp
  then show ?thesis using fsub_fsub_half [OF _ assms(5,6)] by (auto simp: Score_is_combine)
qed

text \<open>A fingerprint the baseline has never seen has confidence 0,
  and with the default full weight on novelty its score is exactly 1.\<close>

theorem novel_fingerprint_scores_one:
  assumes "learned_from key n bl" and "weights_ok cfg"
    and "fmlookup (bl_Fingerprints bl) (fp_ID fp) = None" and "cfg_NoveltyWeight cfg = f1"
  shows "an_Score (Score log2 feat fp bl cfg) = f1 \<and> an_Confidence (Score log2 feat fp bl cfg) = f0"
proof -
  let ?ss = "an_Contributors (Score log2 feat fp bl cfg)"
  obtain s where s: "s \<in> set ?ss" "sig_Value s = Fin 1" "sig_Weight s = f1"
    using Score_novel [OF assms(3), of log2 feat cfg] assms(4) by (auto simp: f1_def)
  have "contribution s = Fin 1" using big_f64 s by (intro contribution_unit_weight) auto
  moreover have u: "list_all usable ?ss"
    using assms(1,2) by (intro Score_usable) (auto intro: rates_ok_reachable)
  ultimately have "fle (Fin 1) (combine ?ss)"
    using combine_ge_member [OF u s(1)] fsub_fsub_half [of 1] by simp
  moreover have "fle (combine ?ss) (Fin 1)" using in01_combine [OF u] by (auto elim!: in01E)
  ultimately have "combine ?ss = f1" unfolding f1_def by (intro fle_antisym)
  then show ?thesis using assms(3) by (simp add: Score_is_combine Score_def Let_def familiarity_of_def)
qed

text \<open>Signals are always collected, but one whose weight is 0
  (every opt-in signal of the default configuration) has no influence at all on the score.\<close>

theorem zero_weight_contributes_nothing:
  assumes "learned_from key n bl" and "weights_ok cfg"
  shows "an_Score (Score log2 feat fp bl cfg) =
    combine (filter (\<lambda>s. sig_Weight s \<noteq> f0) (an_Contributors (Score log2 feat fp bl cfg)))"
proof -
  have "list_all usable (an_Contributors (Score log2 feat fp bl cfg))"
    using assms by (intro Score_usable) (auto intro: rates_ok_reachable)
  then show ?thesis by (simp add: Score_is_combine combine_drop_zero)
qed

subsection \<open>The learned sequence\<close>

lemma pred_le_total:
  assumes "flow_ok n F"
  shows "fmget 0 (fs_PredecessorCounts (fmget zeroStats F d)) p \<le> fs_OutgoingTransitionTotal (fmget zeroStats F p)"
  using pred_count_le_outflow [of F d p] flow_okD(1) [OF assms, of p]
  unfolding pred_count_def out_total_def word_le_nat_alt by linarith

lemma clamp_unit_id: "in01 v \<Longrightarrow> clamp_unit v = v"
  by (simp add: clamp_unit_def in01_fmin in01_fmax)

text \<open>For a learned baseline the share of a predecessor's outgoing
  transitions that lead to a destination is a proportion in (0, 1], the clamp never acts, and the
  rarity signal is its rounded complement; the deviation signal fires exactly on the transitions
  never observed, for which rarity is silent, so the two never fire together.\<close>

theorem transition_rarity_is_complement:
  assumes "learned_from key n bl" and "n < 2 ^ 64"
    and "pc = fmget 0 (fs_PredecessorCounts (fmget zeroStats (bl_Fingerprints bl) d)) p"
    and "tot = fs_OutgoingTransitionTotal (fmget zeroStats (bl_Fingerprints bl) p)"
    and "mature \<longleftrightarrow> pc \<noteq> 0 \<and> cfg_MinTransitionObservations cfg \<le> tot"
  shows "(sig_Value (transitionRaritySignal p (fmget zeroStats (bl_Fingerprints bl) p)
             (fmget zeroStats (bl_Fingerprints bl) d) cfg) =
           (if mature then fsub f1 (fdiv (f64_of_u64 pc) (f64_of_u64 tot)) else f0)) \<and>
         (mature \<longrightarrow> (\<exists>r. fdiv (f64_of_u64 pc) (f64_of_u64 tot) = Fin r \<and> 0 < r \<and> r \<le> 1)) \<and>
         sig_Value (transitionSignal p (fmget zeroStats (bl_Fingerprints bl) d) cfg) =
           (if pc = 0 then f1 else f0)"
proof -
  have le: "pc \<le> tot" unfolding assms(3,4)
    using flow_ok_reachable [OF assms(1,2)] by (rule pred_le_total)
  have fr: "\<exists>r. fdiv (f64_of_u64 pc) (f64_of_u64 tot) = Fin r \<and> 0 < r \<and> r \<le> 1" if mature
    using that le assms(5) by (intro proportion) auto
  have eq: "feq v f0 \<Longrightarrow> v = f0" for v by (cases v) (auto simp: f0_def)
  have "in01 (fsub f1 (fdiv (f64_of_u64 pc) (f64_of_u64 tot)))" if mature
    using fr [OF that] by (auto intro!: in01_fsub)
  moreover have "tot \<noteq> 0" if mature
    using that le assms(5) by (metis word_le_0_iff)
  ultimately have "sig_Value (transitionRaritySignal p (fmget zeroStats (bl_Fingerprints bl) p)
             (fmget zeroStats (bl_Fingerprints bl) d) cfg) =
           (if mature then fsub f1 (fdiv (f64_of_u64 pc) (f64_of_u64 tot)) else f0)"
    using assms(5) by (auto simp: transitionRaritySignal_def Let_def clamp_unit_id not_le
        simp flip: assms(3,4) dest: eq)
  moreover have "sig_Value (transitionSignal p (fmget zeroStats (bl_Fingerprints bl) d) cfg) =
           (if pc = 0 then f1 else f0)"
    by (simp add: transitionSignal_def word_gt_0 flip: assms(3))
  ultimately show ?thesis using fr by blast
qed

end
