(* ===== verification/Trust.thy ===== *)
theory Trust
  imports Anomaly_Score
begin

text \<open>
  Trust (\<^verbatim>\<open>internal/trust/trust.go\<close>): the anomaly, the identity confidence and the
  context risk combine into one score and a risk level. Every input is sanitised first, so the
  theorems below hold of any floating-point input, infinities and NaN included.
\<close>

record TrustConfig =
  tc_MediumThreshold :: f64
  tc_HighThreshold :: f64
  tc_CriticalThreshold :: f64

definition Trust_DefaultConfig :: TrustConfig where
  "Trust_DefaultConfig = \<lparr>tc_MediumThreshold = f64_of (1 / 4), tc_HighThreshold = f64_of (1 / 2),
     tc_CriticalThreshold = f64_of (3 / 4)\<rparr>"

type_synonym RiskLevel = string

definition RiskLow :: RiskLevel where "RiskLow = ''low''"
definition RiskMedium :: RiskLevel where "RiskMedium = ''medium''"
definition RiskHigh :: RiskLevel where "RiskHigh = ''high''"
definition RiskCritical :: RiskLevel where "RiskCritical = ''critical''"

lemmas risk_defs = RiskLow_def RiskMedium_def RiskHigh_def RiskCritical_def

definition riskRank :: "(RiskLevel \<times> int) list" where
  "riskRank = [(RiskLow, 0), (RiskMedium, 1), (RiskHigh, 2), (RiskCritical, 3)]"

definition rank_of :: "RiskLevel \<Rightarrow> int" where
  "rank_of r = (case map_of riskRank r of None \<Rightarrow> 0 | Some n \<Rightarrow> n)"

definition RiskLevel_AtLeast :: "RiskLevel \<Rightarrow> RiskLevel \<Rightarrow> bool" where
  "RiskLevel_AtLeast r m = (rank_of m \<le> rank_of r)"

record Trust =
  tr_Score :: f64
  tr_Risk :: RiskLevel
  tr_IdentityConfidence :: f64
  tr_AnomalyScore :: f64
  tr_AnomalyConfidence :: f64
  tr_ContextRisk :: f64

definition clamp01 :: "f64 \<Rightarrow> f64" where
  "clamp01 v = fmax (fmin v f1) f0"

definition clampFavorable :: "f64 \<Rightarrow> f64" where
  "clampFavorable v = (if isNaN v \<or> isInf v then f0 else clamp01 v)"

definition clampAdverse :: "f64 \<Rightarrow> f64" where
  "clampAdverse v = (if isNaN v \<or> isInf v then f1 else clamp01 v)"

definition riskLevel :: "f64 \<Rightarrow> TrustConfig \<Rightarrow> RiskLevel" where
  "riskLevel residualDistrust cfg =
     (if fle (tc_CriticalThreshold cfg) residualDistrust then RiskCritical
      else if fle (tc_HighThreshold cfg) residualDistrust then RiskHigh
      else if fle (tc_MediumThreshold cfg) residualDistrust then RiskMedium
      else RiskLow)"

definition Trust_Compute :: "Anomaly \<Rightarrow> f64 \<Rightarrow> f64 \<Rightarrow> TrustConfig \<Rightarrow> Trust" where
  "Trust_Compute an identityConfidence contextRisk cfg =
     (let identityConfidence = clampFavorable identityConfidence;
          contextRisk = clampAdverse contextRisk;
          anomalyScore = clampAdverse (an_Score an);
          confidence = clampAdverse (an_Confidence an);
          effectiveAnomaly = fmul anomalyScore confidence;
          score = fmul (fmul identityConfidence (fsub f1 effectiveAnomaly)) (fsub f1 contextRisk)
      in \<lparr>tr_Score = score, tr_Risk = riskLevel (fsub f1 score) cfg,
          tr_IdentityConfidence = identityConfidence, tr_AnomalyScore = anomalyScore,
          tr_AnomalyConfidence = confidence, tr_ContextRisk = contextRisk\<rparr>)"

definition Trust_Explain :: "Trust \<Rightarrow> detail" where
  "Trust_Explain t =
     (let confidence =
            (if flt (tr_AnomalyConfidence t) f1
             then ArgSprintf ''%.0f%% confidence'' [ArgF64 (fmul (tr_AnomalyConfidence t) (Fin 100))]
             else ArgString ''full confidence'')
      in Sprintf ''trust %.2f (%s): identity confidence %.2f, anomaly %.2f at %s, context risk %.2f''
           [ArgF64 (tr_Score t), ArgString (tr_Risk t), ArgF64 (tr_IdentityConfidence t),
            ArgF64 (tr_AnomalyScore t), confidence, ArgF64 (tr_ContextRisk t)])"

subsection \<open>Sanitised inputs\<close>

lemma clamp01_01: "\<not> isNaN v \<Longrightarrow> in01 (clamp01 v)"
  unfolding clamp01_def by (rule in01_clamp) (simp add: isNaN_def)

lemma clamps_01 [simp]: "in01 (clampFavorable v)" "in01 (clampAdverse v)"
  by (simp_all add: clampFavorable_def clampAdverse_def clamp01_01)

lemma clamp01_id: "in01 v \<Longrightarrow> clamp01 v = v"
  by (simp add: clamp01_def in01_fmin in01_fmax)

lemma clamps_id [simp]:
  "in01 v \<Longrightarrow> clampFavorable v = v" "in01 v \<Longrightarrow> clampAdverse v = v"
  by (simp_all add: clampFavorable_def clampAdverse_def clamp01_id)

lemma fvalid_clamps [simp]: "fvalid v \<Longrightarrow> fvalid (clampFavorable v)" "fvalid v \<Longrightarrow> fvalid (clampAdverse v)"
  by (auto simp: clampFavorable_def clampAdverse_def clamp01_def fmin_def fmax_def)

text \<open>The two halves of the product: what the anomaly leaves and what the context leaves.\<close>

lemma anomaly_factor_01 [simp]: "in01 (fsub f1 (fmul (clampAdverse a) (clampAdverse b)))"
  by (intro in01_fsub in01_fmul) simp_all

lemma context_factor_01 [simp]: "in01 (fsub f1 (clampAdverse c))"
  by (intro in01_fsub) simp

lemma fvalid_fsub1: "in01 a \<Longrightarrow> fvalid (fsub f1 a)"
  by (auto elim!: in01E simp: fsub_def f1_def)

lemma fvalid_fmul_01: "in01 a \<Longrightarrow> in01 b \<Longrightarrow> fvalid (fmul a b)"
  by (auto elim!: in01E)

lemma compute_unit:
  "in01 (tr_Score (Trust_Compute an ic cr cfg))" "in01 (tr_IdentityConfidence (Trust_Compute an ic cr cfg))"
  "in01 (tr_AnomalyScore (Trust_Compute an ic cr cfg))" "in01 (tr_AnomalyConfidence (Trust_Compute an ic cr cfg))"
  "in01 (tr_ContextRisk (Trust_Compute an ic cr cfg))"
  by (simp_all add: Trust_Compute_def Let_def in01_fmul)

text \<open>Whatever the anomaly result, the identity confidence and the context risk
  are (NaN and infinities included), every field of the computed trust is finite and in [0, 1].\<close>

theorem trust_fields_unit:
  "in01 (tr_Score (Trust_Compute an ic cr cfg)) \<and>
   in01 (tr_IdentityConfidence (Trust_Compute an ic cr cfg)) \<and>
   in01 (tr_AnomalyScore (Trust_Compute an ic cr cfg)) \<and>
   in01 (tr_AnomalyConfidence (Trust_Compute an ic cr cfg)) \<and>
   in01 (tr_ContextRisk (Trust_Compute an ic cr cfg))"
  by (simp add: compute_unit)

text \<open>The trust score never exceeds any of its three factors: the identity
  confidence, the complement of the confidence-scaled anomaly, the complement of the context risk.\<close>

theorem trust_weakest_factor:
  assumes "fvalid ic"
  shows "fle (tr_Score (Trust_Compute an ic cr cfg)) (clampFavorable ic) \<and>
    fle (tr_Score (Trust_Compute an ic cr cfg))
      (fsub f1 (fmul (clampAdverse (an_Score an)) (clampAdverse (an_Confidence an)))) \<and>
    fle (tr_Score (Trust_Compute an ic cr cfg)) (fsub f1 (clampAdverse cr))"
proof -
  let ?i = "clampFavorable ic" and ?c = "fsub f1 (clampAdverse cr)"
  let ?a = "fsub f1 (fmul (clampAdverse (an_Score an)) (clampAdverse (an_Confidence an)))"
  have v: "fvalid ?i" "fvalid ?a" "fvalid ?c" using assms by (simp_all add: fvalid_fsub1 in01_fmul)
  have p: "in01 (fmul ?i ?a)" "fvalid (fmul ?i ?a)" by (simp_all add: in01_fmul fvalid_fmul_01)
  have "fle (fmul (fmul ?i ?a) ?c) (fmul ?i ?a)" using p by (intro fmul_le_left) auto
  moreover have "fle (fmul ?i ?a) ?i" "fle (fmul ?i ?a) ?a"
    using v by (auto intro: fmul_le_left fmul_le_right)
  moreover have "fle (fmul (fmul ?i ?a) ?c) ?c" using p v by (intro fmul_le_right) auto
  ultimately show ?thesis by (auto simp: Trust_Compute_def Let_def intro: fle_trans)
qed

text \<open>An unusable reading never raises trust: a non-finite identity
  confidence or a non-finite context risk gives score 0, and a non-finite anomaly score counts as a
  full anomaly.\<close>

theorem trust_fails_closed:
  "((isNaN ic \<or> isInf ic) \<or> (isNaN cr \<or> isInf cr) \<longrightarrow> tr_Score (Trust_Compute an ic cr cfg) = f0) \<and>
   (isNaN (an_Score an) \<or> isInf (an_Score an) \<longrightarrow> tr_AnomalyScore (Trust_Compute an ic cr cfg) = f1)"
proof -
  have z: "fsub f1 f1 = f0" by (simp add: f1_def fsub_def) (simp add: f0_def)
  have i: "clampFavorable ic = f0" if "isNaN ic \<or> isInf ic" using that by (simp add: clampFavorable_def)
  have c: "clampAdverse v = f1" if "isNaN v \<or> isInf v" for v using that by (simp add: clampAdverse_def)
  have "tr_Score (Trust_Compute an ic cr cfg) = f0" if "isNaN ic \<or> isInf ic"
    unfolding Trust_Compute_def Let_def Trust.select_convs i [OF that] by (simp add: fmul_zero)
  moreover have "tr_Score (Trust_Compute an ic cr cfg) = f0" if "isNaN cr \<or> isInf cr"
    unfolding Trust_Compute_def Let_def Trust.select_convs c [OF that] z by (simp add: fmul_zero in01_fmul)
  moreover have "tr_AnomalyScore (Trust_Compute an ic cr cfg) = f1"
    if "isNaN (an_Score an) \<or> isInf (an_Score an)"
    using c [OF that] by (simp add: Trust_Compute_def Let_def)
  ultimately show ?thesis by blast
qed

text \<open>An anomaly measured with confidence 0, as for a fingerprint never seen
  before, does not lower trust: the score is the identity confidence discounted by the context risk
  alone.\<close>

theorem trust_cold_start:
  assumes "an_Confidence an = f0" and "fvalid ic"
  shows "tr_Score (Trust_Compute an ic cr cfg) =
    fmul (clampFavorable ic) (fsub f1 (clampAdverse cr))"
  using assms by (simp add: Trust_Compute_def Let_def fmul_zero fsub_zero fmul_one)

subsection \<open>Risk\<close>

lemma rank_simps [simp]:
  "rank_of RiskLow = 0" "rank_of RiskMedium = 1" "rank_of RiskHigh = 2" "rank_of RiskCritical = 3"
  by (simp_all add: rank_of_def riskRank_def risk_defs)

lemma riskLevel_mono:
  assumes "fle r r'"
  shows "rank_of (riskLevel r cfg) \<le> rank_of (riskLevel r' cfg)"
  using assms by (auto simp: riskLevel_def dest: fle_trans)

lemma clamps_mono:
  assumes "fle v w"
  shows "\<not> isInf w \<Longrightarrow> fle (clampFavorable v) (clampFavorable w)" "\<not> isInf v \<Longrightarrow> fle (clampAdverse v) (clampAdverse w)"
  using assms by (cases v; cases w; auto simp: clampFavorable_def clampAdverse_def clamp01_def fmin_def fmax_def f0_def f1_def isNaN_def isInf_def)+

text \<open>C39. Compare two computations. If the second has no more identity confidence, no lower anomaly score, no
  lower anomaly confidence and no less context risk than the first, as the caller passed them and whether or not they lie in
  [0, 1], and the four values of the first are not infinite, then the second has no higher score and no lower risk level.\<close>

theorem trust_risk_monotone:
  assumes "fle ic' ic" and "\<not> isInf ic" and "fle cr cr'" and "\<not> isInf cr"
    and "fle (an_Score an) (an_Score an')" and "\<not> isInf (an_Score an)"
    and "fle (an_Confidence an) (an_Confidence an')" and "\<not> isInf (an_Confidence an)"
  shows "fle (tr_Score (Trust_Compute an' ic' cr' cfg)) (tr_Score (Trust_Compute an ic cr cfg)) \<and>
    RiskLevel_AtLeast (tr_Risk (Trust_Compute an' ic' cr' cfg)) (tr_Risk (Trust_Compute an ic cr cfg))"
proof -
  have s: "fle (tr_Score (Trust_Compute an' ic' cr' cfg)) (tr_Score (Trust_Compute an ic cr cfg))"
    unfolding Trust_Compute_def Let_def Trust.select_convs
    using clamps_mono(1) [OF assms(1,2)] clamps_mono(2) [OF assms(3,4)] clamps_mono(2) [OF assms(5,6)] clamps_mono(2) [OF assms(7,8)]
    by (intro fmul_mono_01 fsub_antimono_01) (simp_all add: in01_fmul)
  moreover have "fle (fsub f1 (tr_Score (Trust_Compute an ic cr cfg)))
      (fsub f1 (tr_Score (Trust_Compute an' ic' cr' cfg)))"
    using s by (intro fsub_antimono_01) (simp_all add: Trust_Compute_def Let_def in01_fmul)
  then have "RiskLevel_AtLeast (tr_Risk (Trust_Compute an' ic' cr' cfg)) (tr_Risk (Trust_Compute an ic cr cfg))"
    unfolding RiskLevel_AtLeast_def by (simp add: Trust_Compute_def Let_def riskLevel_mono)
  ultimately show ?thesis by blast
qed

text \<open>A risk level outside the four constants ranks exactly as
  \<open>RiskLow\<close>: every level is at least it, and it is at least \<open>RiskLow\<close>.\<close>

theorem unrecognized_risk_is_low:
  assumes "r \<notin> {RiskLow, RiskMedium, RiskHigh, RiskCritical}"
  shows "RiskLevel_AtLeast r RiskLow \<and> RiskLevel_AtLeast RiskLow r \<and> RiskLevel_AtLeast q r"
  using assms by (auto simp: RiskLevel_AtLeast_def rank_of_def riskRank_def split: option.splits)

end
