(* ===== verification/Policy.thy ===== *)
theory Policy
  imports Trust
begin

text \<open>
  Policy evaluation (\<^verbatim>\<open>internal/policy/policy.go\<close>): an ordered list of rules, first
  match wins, with a default that fails closed. \<^verbatim>\<open>fmt.Sprint\<close> is modelled on the dynamic
  types an attribute can have; the shortest decimal form of a float (for its bit size) is the
  argument \<open>showf\<close> of the definitions that print one.
\<close>

type_synonym Decision = string

definition DecisionAllow :: Decision where "DecisionAllow = ''allow''"
definition DecisionObserveOnly :: Decision where "DecisionObserveOnly = ''observe_only''"
definition DecisionAlert :: Decision where "DecisionAlert = ''alert''"
definition DecisionChallenge :: Decision where "DecisionChallenge = ''challenge''"
definition DecisionRequireApproval :: Decision where "DecisionRequireApproval = ''require_approval''"
definition DecisionBlock :: Decision where "DecisionBlock = ''block''"

lemmas decision_defs = DecisionAllow_def DecisionObserveOnly_def DecisionAlert_def
  DecisionChallenge_def DecisionRequireApproval_def DecisionBlock_def

definition Decision_Valid :: "Decision \<Rightarrow> bool" where
  "Decision_Valid d = List.member [DecisionAllow, DecisionObserveOnly, DecisionAlert,
     DecisionChallenge, DecisionRequireApproval, DecisionBlock] d"

record PolicyInput =
  pin_Stable :: StableFeatures
  pin_Trust :: Trust
  pin_Attributes :: "(string, goany) fmap"
  pin_ApprovalStatus :: ApprovalStatus

text \<open>The attributes of a condition are listed in some order; \<^verbatim>\<open>Matches\<close> asks every one
  of them, so the order does not matter (\<open>Condition_Matches_perm\<close>).\<close>

record Condition =
  cond_ActorType :: ActorType
  cond_OperationCategory :: OperationCategory
  cond_TargetName :: string
  cond_Environment :: string
  cond_MinRiskLevel :: RiskLevel
  cond_Attributes :: "(string \<times> string) list"
  cond_ApprovalStatus :: ApprovalStatus

subsection \<open>Printing an attribute\<close>

fun dec_nat :: "nat \<Rightarrow> string" where
  "dec_nat n = (if n < 10 then [''0123456789'' ! n] else dec_nat (n div 10) @ [''0123456789'' ! (n mod 10)])"

declare dec_nat.simps [simp del]

definition dec_int :: "int \<Rightarrow> string" where
  "dec_int i = (if i < 0 then CHR ''-'' # dec_nat (nat (- i)) else dec_nat (nat i))"

fun Sprint :: "(nat \<Rightarrow> f64 \<Rightarrow> string) \<Rightarrow> goany \<Rightarrow> string" where
  "Sprint showf (AnyFloat64 x) = showf 64 x"
| "Sprint showf (AnyFloat32 x) = showf 32 x"
| "Sprint showf (AnyInt n) = dec_int (sint n)"
| "Sprint showf (AnyInt32 n) = dec_int (sint n)"
| "Sprint showf (AnyInt64 n) = dec_int (sint n)"
| "Sprint showf (AnyBool b) = (if b then ''true'' else ''false'')"
| "Sprint showf (AnyString s) = s"
| "Sprint showf (AnyOther s) = s"

subsection \<open>Conditions and rules\<close>

fun attributesMatch :: "(nat \<Rightarrow> f64 \<Rightarrow> string) \<Rightarrow> (string \<times> string) list \<Rightarrow> (string, goany) fmap \<Rightarrow> bool" where
  "attributesMatch showf [] attrs = True"
| "attributesMatch showf ((key, want) # rest) attrs =
     (case fmlookup attrs key of
        None \<Rightarrow> False
      | Some got \<Rightarrow> if Sprint showf got \<noteq> want then False else attributesMatch showf rest attrs)"

definition Condition_Matches :: "(nat \<Rightarrow> f64 \<Rightarrow> string) \<Rightarrow> Condition \<Rightarrow> PolicyInput \<Rightarrow> bool" where
  "Condition_Matches showf c inp =
     (if cond_ActorType c \<noteq> '''' \<and> cond_ActorType c \<noteq> sf_ActorType (pin_Stable inp) then False
      else if cond_OperationCategory c \<noteq> ''''
              \<and> cond_OperationCategory c \<noteq> sf_OperationCategory (pin_Stable inp) then False
      else if cond_TargetName c \<noteq> '''' \<and> cond_TargetName c \<noteq> sf_TargetName (pin_Stable inp) then False
      else if cond_Environment c \<noteq> '''' \<and> cond_Environment c \<noteq> sf_Environment (pin_Stable inp) then False
      else if cond_MinRiskLevel c \<noteq> ''''
              \<and> \<not> RiskLevel_AtLeast (tr_Risk (pin_Trust inp)) (cond_MinRiskLevel c) then False
      else if cond_ApprovalStatus c \<noteq> '''' \<and> cond_ApprovalStatus c \<noteq> pin_ApprovalStatus inp then False
      else attributesMatch showf (cond_Attributes c) (pin_Attributes inp))"

record Rule =
  rule_Name :: string
  rule_When :: Condition
  rule_Unless :: "Condition option"
  rule_Action :: Decision
  rule_Reason :: string

record Explanation =
  ex_RuleName :: string
  ex_Reason :: string
  ex_MatchedDefault :: bool

record PolicyResult =
  pr_Decision :: Decision
  pr_Explanation :: Explanation

definition failClosedReason :: string where
  "failClosedReason = ''no policy default configured; failing closed to BLOCK''"

record Policy =
  pol_Rules :: "Rule list"
  pol_DefaultAction :: Decision
  pol_DefaultReason :: string

definition rule_applies :: "(nat \<Rightarrow> f64 \<Rightarrow> string) \<Rightarrow> Rule \<Rightarrow> PolicyInput \<Rightarrow> bool" where
  "rule_applies showf rule inp =
     (if \<not> Condition_Matches showf (rule_When rule) inp then False
      else case rule_Unless rule of
        None \<Rightarrow> True
      | Some u \<Rightarrow> \<not> Condition_Matches showf u inp)"

definition Policy_default :: "Policy \<Rightarrow> PolicyResult" where
  "Policy_default p =
     (if \<not> Decision_Valid (pol_DefaultAction p) \<or> pol_DefaultReason p = ''''
      then \<lparr>pr_Decision = DecisionBlock,
            pr_Explanation = \<lparr>ex_RuleName = '''', ex_Reason = failClosedReason, ex_MatchedDefault = True\<rparr>\<rparr>
      else \<lparr>pr_Decision = pol_DefaultAction p,
            pr_Explanation = \<lparr>ex_RuleName = '''', ex_Reason = pol_DefaultReason p, ex_MatchedDefault = True\<rparr>\<rparr>)"

fun evaluate_rules :: "(nat \<Rightarrow> f64 \<Rightarrow> string) \<Rightarrow> Rule list \<Rightarrow> PolicyInput \<Rightarrow> PolicyResult \<Rightarrow> PolicyResult" where
  "evaluate_rules showf [] inp dflt = dflt"
| "evaluate_rules showf (rule # rules) inp dflt =
     (if \<not> rule_applies showf rule inp then evaluate_rules showf rules inp dflt
      else \<lparr>pr_Decision = rule_Action rule,
            pr_Explanation = \<lparr>ex_RuleName = rule_Name rule, ex_Reason = rule_Reason rule,
                              ex_MatchedDefault = False\<rparr>\<rparr>)"

definition Policy_Evaluate :: "(nat \<Rightarrow> f64 \<Rightarrow> string) \<Rightarrow> Policy \<Rightarrow> PolicyInput \<Rightarrow> PolicyResult" where
  "Policy_Evaluate showf p inp = evaluate_rules showf (pol_Rules p) inp (Policy_default p)"

definition PolicyResult_String :: "PolicyResult \<Rightarrow> detail" where
  "PolicyResult_String r =
     (if ex_MatchedDefault (pr_Explanation r)
      then Sprintf ''%s (default: %s)'' [ArgString (pr_Decision r), ArgString (ex_Reason (pr_Explanation r))]
      else Sprintf ''%s (rule %q: %s)''
        [ArgString (pr_Decision r), ArgString (ex_RuleName (pr_Explanation r)),
         ArgString (ex_Reason (pr_Explanation r))])"

subsection \<open>What evaluation does\<close>


lemma attributesMatch_iff:
  "attributesMatch showf kvs attrs \<longleftrightarrow>
   (\<forall>(k, w) \<in> set kvs. \<exists>g. fmlookup attrs k = Some g \<and> Sprint showf g = w)"
  by (induction kvs) (auto simp: guard_False split: option.splits)

text \<open>The early returns of \<open>Matches\<close> as one conjunction.\<close>

lemma Condition_Matches_iff:
  "Condition_Matches showf c inp \<longleftrightarrow>
     (cond_ActorType c = '''' \<or> cond_ActorType c = sf_ActorType (pin_Stable inp)) \<and>
     (cond_OperationCategory c = '''' \<or> cond_OperationCategory c = sf_OperationCategory (pin_Stable inp)) \<and>
     (cond_TargetName c = '''' \<or> cond_TargetName c = sf_TargetName (pin_Stable inp)) \<and>
     (cond_Environment c = '''' \<or> cond_Environment c = sf_Environment (pin_Stable inp)) \<and>
     (cond_MinRiskLevel c = '''' \<or> RiskLevel_AtLeast (tr_Risk (pin_Trust inp)) (cond_MinRiskLevel c)) \<and>
     (cond_ApprovalStatus c = '''' \<or> cond_ApprovalStatus c = pin_ApprovalStatus inp) \<and>
     attributesMatch showf (cond_Attributes c) (pin_Attributes inp)"
  by (simp only: Condition_Matches_def guard_False de_Morgan_conj not_not)

lemma Condition_Matches_perm:
  "set kvs = set (cond_Attributes c) \<Longrightarrow>
   Condition_Matches showf (c\<lparr>cond_Attributes := kvs\<rparr>) inp = Condition_Matches showf c inp"
  by (simp add: Condition_Matches_iff attributesMatch_iff)

lemma evaluate_rules_skip:
  "\<forall>r \<in> set pre. \<not> rule_applies showf r inp \<Longrightarrow>
   evaluate_rules showf (pre @ post) inp d = evaluate_rules showf post inp d"
  by (induction pre) auto

text \<open>The verdict is decided by the first rule whose \<open>When\<close> matches and
  whose \<open>Unless\<close> does not: rules after it are irrelevant, and the default is used exactly when no
  rule applies.\<close>

theorem policy_first_match:
  "(\<exists>pre r post. pol_Rules p = pre @ r # post \<and> (\<forall>q \<in> set pre. \<not> rule_applies showf q inp) \<and>
      rule_applies showf r inp \<and> pr_Decision (Policy_Evaluate showf p inp) = rule_Action r \<and>
      pr_Explanation (Policy_Evaluate showf p inp) =
        \<lparr>ex_RuleName = rule_Name r, ex_Reason = rule_Reason r, ex_MatchedDefault = False\<rparr>) \<or>
   (\<forall>q \<in> set (pol_Rules p). \<not> rule_applies showf q inp) \<and>
      Policy_Evaluate showf p inp = Policy_default p"
proof (cases "\<exists>q \<in> set (pol_Rules p). rule_applies showf q inp")
  case True
  then obtain pre r post where d: "pol_Rules p = pre @ r # post"
    "\<forall>q \<in> set pre. \<not> rule_applies showf q inp" "rule_applies showf r inp"
    using split_list_first_prop [of "pol_Rules p" "\<lambda>q. rule_applies showf q inp"] by blast
  then show ?thesis by (auto simp: Policy_Evaluate_def evaluate_rules_skip)
next
  case False
  then show ?thesis
    using evaluate_rules_skip [of "pol_Rules p" showf inp "[]" "Policy_default p"]
    by (simp add: Policy_Evaluate_def)
qed

lemma default_valid: "Decision_Valid (pr_Decision (Policy_default p))"
  by (auto simp: Policy_default_def Decision_Valid_def)

lemma evaluate_valid:
  assumes "\<And>r. r \<in> set (pol_Rules p) \<Longrightarrow> Decision_Valid (rule_Action r)"
  shows "Decision_Valid (pr_Decision (Policy_Evaluate showf p inp))"
proof -
  have "Decision_Valid (pr_Decision (evaluate_rules showf rs inp (Policy_default p)))"
    if "set rs \<subseteq> set (pol_Rules p)" for rs
    using that assms default_valid by (induction rs) auto
  then show ?thesis by (simp add: Policy_Evaluate_def)
qed

text \<open>If the action of every rule is one of the six decisions, so is every
  verdict, whatever the default; a missing or invalid default with no applicable rule is BLOCK.\<close>

theorem policy_decision_valid:
  assumes "\<And>r. r \<in> set (pol_Rules p) \<Longrightarrow> Decision_Valid (rule_Action r)"
  shows "Decision_Valid (pr_Decision (Policy_Evaluate showf p inp)) \<and>
    (\<not> Decision_Valid (pol_DefaultAction p) \<or> pol_DefaultReason p = '''' \<longrightarrow>
     (\<forall>r \<in> set (pol_Rules p). \<not> rule_applies showf r inp) \<longrightarrow>
     pr_Decision (Policy_Evaluate showf p inp) = DecisionBlock)"
proof -
  have "pr_Decision (Policy_Evaluate showf p inp) = DecisionBlock"
    if "\<not> Decision_Valid (pol_DefaultAction p) \<or> pol_DefaultReason p = ''''"
      and "\<forall>r \<in> set (pol_Rules p). \<not> rule_applies showf r inp"
    using that evaluate_rules_skip [of "pol_Rules p" showf inp "[]" "Policy_default p"]
    by (simp add: Policy_Evaluate_def Policy_default_def)
  then show ?thesis using evaluate_valid [of p showf inp] assms by blast
qed

text \<open>A rule that matches an operation and is suppressed only by
  an approved status applies to that operation under every other approval status, also under one
  that claims no approval is required.\<close>

theorem approval_rule_fires_unless_approved:
  assumes "rule_Unless r = Some \<lparr>cond_ActorType = '''', cond_OperationCategory = '''', cond_TargetName = '''',
      cond_Environment = '''', cond_MinRiskLevel = '''', cond_Attributes = [],
      cond_ApprovalStatus = ApprovalApproved\<rparr>"
    and "Condition_Matches showf (rule_When r) inp"
  shows "rule_applies showf r inp \<longleftrightarrow> pin_ApprovalStatus inp \<noteq> ApprovalApproved"
  using assms by (simp add: rule_applies_def Condition_Matches_iff eq_commute [of "''approved''"])

text \<open>A condition with a minimum risk level that matches an input still matches
  it when the risk becomes more severe, so raising risk can never take an input out of the reach of
  a rule with no exception.\<close>

theorem risk_rule_monotone:
  assumes "Condition_Matches showf c inp"
    and "RiskLevel_AtLeast risk (tr_Risk (pin_Trust inp))"
  shows "Condition_Matches showf c (inp\<lparr>pin_Trust := (pin_Trust inp)\<lparr>tr_Risk := risk\<rparr>\<rparr>)"
  using assms by (auto simp: Condition_Matches_iff RiskLevel_AtLeast_def)

end
