(* ===== verification/Store.thy ===== *)
theory Store
  imports Policy
begin

text \<open>
  Persistence of baselines (\<^verbatim>\<open>internal/store/store.go\<close>): the contract of the
  \<^verbatim>\<open>Store\<close> port as a locale, and the in-memory store with its per-key freeze. An
  operation runs here as one step; \<open>Store_Concurrent\<close> shows that the locking of the source makes
  it so. Contexts are never read by the code and are left out.
\<close>

text \<open>The errors of a store: a step of a flush, or of opening the file, that failed. The in-memory
  store has none.\<close>

datatype flush_step = Encode | CreateTemp | WriteTemp | SyncTemp | CloseTemp | RenameTemp

datatype store_error = FlushFailed flush_step | ReadFailed | ParseFailed | UnsupportedVersion int

type_synonym observe_result = "Baseline \<times> bool \<times> store_error option"

subsection \<open>The port\<close>

text \<open>\<open>get\<close> and \<open>observe\<close> of a store whose states satisfy \<open>inv\<close>. An observation of one key
  leaves the others alone; it applies \<open>Baseline_Observe\<close> or declines the write; what it returns is
  what a later \<open>get\<close> reads; it reports learning only when the fingerprint was admitted, and never
  together with an error.\<close>

locale baseline_store =
  fixes get :: "'s \<Rightarrow> Key \<Rightarrow> Baseline \<times> bool"
    and observe :: "'s \<Rightarrow> Key \<Rightarrow> Fingerprint \<Rightarrow> VolatileFeatures \<Rightarrow> gotime \<Rightarrow> 's \<times> observe_result"
    and inv :: "'s \<Rightarrow> bool"
  assumes get_absent: "inv s \<Longrightarrow> \<not> snd (get s k) \<Longrightarrow> fst (get s k) = Baseline_New k"
    and observe_inv: "inv s \<Longrightarrow> inv (fst (observe s k fp vol now))"
    and observe_frame: "inv s \<Longrightarrow> k' \<noteq> k \<Longrightarrow> get (fst (observe s k fp vol now)) k' = get s k'"
    and observe_get: "inv s \<Longrightarrow> observe s k fp vol now = (s', bl, learned, err) \<Longrightarrow> get s' k = (bl, True)"
    and observe_applies: "inv s \<Longrightarrow> observe s k fp vol now = (s', bl, learned, err) \<Longrightarrow>
      bl = fst (get s k) \<and> \<not> learned \<or>
      bl = fst (Baseline_Observe (fst (get s k)) fp vol now) \<and>
        (learned \<longrightarrow> snd (Baseline_Observe (fst (get s k)) fp vol now))"
    and observe_error: "inv s \<Longrightarrow> observe s k fp vol now = (s', bl, learned, Some e) \<Longrightarrow> \<not> learned"
begin

text \<open>A store whose baselines were all learned from events.\<close>

definition grown :: "'s \<Rightarrow> bool" where
  "grown s \<longleftrightarrow> inv s \<and> (\<forall>k. \<exists>n. learned_from k n (fst (get s k)))"

lemma grown_observe:
  assumes "grown s" and "fp_ID fp \<noteq> ''''"
  shows "grown (fst (observe s k fp vol now))"
proof -
  obtain s' bl learned err where o: "observe s k fp vol now = (s', bl, learned, err)"
    by (cases "observe s k fp vol now") auto
  have inv: "inv s" "inv s'" using assms(1) observe_inv [of s k fp vol now] o by (auto simp: grown_def)
  have "\<exists>n. learned_from k' n (fst (get s' k'))" for k'
  proof (cases "k' = k")
    case True
    obtain n where n: "learned_from k n (fst (get s k))" using assms(1) by (auto simp: grown_def)
    have "bl = fst (get s k) \<or> bl = fst (Baseline_Observe (fst (get s k)) fp vol now)"
      using observe_applies [OF inv(1) o] by blast
    then have "learned_from k n bl \<or> learned_from k (Suc n) bl"
      using n learned_from.step [OF n assms(2), of vol now] by metis
    then show ?thesis using True observe_get [OF inv(1) o] by auto
  next
    case False
    then show ?thesis using assms(1) observe_frame [OF inv(1) False, of fp vol now] o by (auto simp: grown_def)
  qed
  then show ?thesis using inv o by (simp add: grown_def)
qed

lemma grown_get: "grown s \<Longrightarrow> \<exists>n. learned_from k n (fst (get s k))"
  by (simp add: grown_def)

end

subsection \<open>The in-memory store\<close>

record shard =
  sh_baseline :: Baseline
  sh_frozen :: bool

record InMemory =
  im_shards :: "(Key, shard) fmap"

definition NewInMemory :: InMemory where
  "NewInMemory = \<lparr>im_shards = fmempty\<rparr>"

definition newShard :: "Key \<Rightarrow> shard" where
  "newShard key = \<lparr>sh_baseline = Baseline_New key, sh_frozen = False\<rparr>"

definition InMemory_lookup :: "InMemory \<Rightarrow> Key \<Rightarrow> shard option" where
  "InMemory_lookup s key = fmlookup (im_shards s) key"

definition InMemory_Get :: "InMemory \<Rightarrow> Key \<Rightarrow> Baseline \<times> bool" where
  "InMemory_Get s key =
     (case InMemory_lookup s key of
        None \<Rightarrow> (Baseline_New key, False)
      | Some sh \<Rightarrow> (sh_baseline sh, True))"

text \<open>The shard \<^verbatim>\<open>getOrCreate\<close> returns, in the store that holds it.\<close>

definition InMemory_getOrCreate :: "InMemory \<Rightarrow> Key \<Rightarrow> InMemory \<times> shard" where
  "InMemory_getOrCreate s key =
     (case InMemory_lookup s key of
        Some sh \<Rightarrow> (s, sh)
      | None \<Rightarrow> let sh = newShard key in (s\<lparr>im_shards := fmupd key sh (im_shards s)\<rparr>, sh))"

text \<open>The write through the shard's pointer.\<close>

definition InMemory_put :: "InMemory \<Rightarrow> Key \<Rightarrow> shard \<Rightarrow> InMemory" where
  "InMemory_put s key sh = s\<lparr>im_shards := fmupd key sh (im_shards s)\<rparr>"

definition shard_observe ::
  "shard \<Rightarrow> Fingerprint \<Rightarrow> VolatileFeatures \<Rightarrow> gotime \<Rightarrow> shard \<times> observe_result" where
  "shard_observe sh fp vol now =
     (if sh_frozen sh then (sh, sh_baseline sh, False, None)
      else let (updated, learned) = Baseline_Observe (sh_baseline sh) fp vol now
           in (sh\<lparr>sh_baseline := updated\<rparr>, updated, learned, None))"

definition InMemory_Observe ::
  "InMemory \<Rightarrow> Key \<Rightarrow> Fingerprint \<Rightarrow> VolatileFeatures \<Rightarrow> gotime \<Rightarrow> InMemory \<times> observe_result" where
  "InMemory_Observe s key fp vol now =
     (let (s1, sh) = InMemory_getOrCreate s key;
          (sh', r) = shard_observe sh fp vol now
      in (InMemory_put s1 key sh', r))"

definition InMemory_Freeze :: "InMemory \<Rightarrow> Key \<Rightarrow> InMemory" where
  "InMemory_Freeze s key =
     (let (s1, sh) = InMemory_getOrCreate s key in InMemory_put s1 key (sh\<lparr>sh_frozen := True\<rparr>))"

definition InMemory_Unfreeze :: "InMemory \<Rightarrow> Key \<Rightarrow> InMemory" where
  "InMemory_Unfreeze s key =
     (let (s1, sh) = InMemory_getOrCreate s key in InMemory_put s1 key (sh\<lparr>sh_frozen := False\<rparr>))"

definition InMemory_IsFrozen :: "InMemory \<Rightarrow> Key \<Rightarrow> bool" where
  "InMemory_IsFrozen s key =
     (case InMemory_lookup s key of None \<Rightarrow> False | Some sh \<Rightarrow> sh_frozen sh)"

definition InMemory_snapshot :: "InMemory \<Rightarrow> (Key, Baseline) fmap" where
  "InMemory_snapshot s = fmmap sh_baseline (im_shards s)"

text \<open>\<^verbatim>\<open>restore\<close> ranges over its map; the entries are listed in the order it meets them.\<close>

fun InMemory_restore :: "InMemory \<Rightarrow> (Key \<times> Baseline) list \<Rightarrow> InMemory" where
  "InMemory_restore s [] = s"
| "InMemory_restore s ((key, bl) # rest) =
     InMemory_restore (s\<lparr>im_shards := fmupd key \<lparr>sh_baseline = bl, sh_frozen = False\<rparr> (im_shards s)\<rparr>) rest"

subsection \<open>Reading after writing\<close>

text \<open>The shard a key has, created or not.\<close>

definition shard_of :: "InMemory \<Rightarrow> Key \<Rightarrow> shard" where
  "shard_of s key = (case fmlookup (im_shards s) key of None \<Rightarrow> newShard key | Some sh \<Rightarrow> sh)"

named_theorems store_simps "reads of the in-memory store after its operations"

lemma getOrCreate_snd [store_simps]: "snd (InMemory_getOrCreate s key) = shard_of s key"
  by (simp add: InMemory_getOrCreate_def InMemory_lookup_def shard_of_def Let_def split: option.split)

lemma getOrCreate_put [store_simps]:
  "InMemory_put (fst (InMemory_getOrCreate s key)) key sh = InMemory_put s key sh"
  by (simp add: InMemory_getOrCreate_def InMemory_lookup_def InMemory_put_def Let_def fmupd_idem
      split: option.split)

lemma lookup_put [store_simps]:
  "fmlookup (im_shards (InMemory_put s key sh)) k = (if k = key then Some sh else fmlookup (im_shards s) k)"
  by (simp add: InMemory_put_def)

lemma put_put [store_simps]: "InMemory_put (InMemory_put s key sh) key sh' = InMemory_put s key sh'"
  by (simp add: InMemory_put_def)

lemma Observe_eq [store_simps]:
  "InMemory_Observe s key fp vol now =
     (InMemory_put s key (fst (shard_observe (shard_of s key) fp vol now)),
      snd (shard_observe (shard_of s key) fp vol now))"
  by (simp add: InMemory_Observe_def split_def Let_def store_simps)

lemma Freeze_eq [store_simps]:
  "InMemory_Freeze s key = InMemory_put s key ((shard_of s key)\<lparr>sh_frozen := True\<rparr>)"
  "InMemory_Unfreeze s key = InMemory_put s key ((shard_of s key)\<lparr>sh_frozen := False\<rparr>)"
  by (simp_all add: InMemory_Freeze_def InMemory_Unfreeze_def split_def Let_def store_simps)

lemma Get_shard_of: "fst (InMemory_Get s key) = sh_baseline (shard_of s key)"
  by (simp add: InMemory_Get_def InMemory_lookup_def shard_of_def newShard_def split: option.split)

lemma IsFrozen_shard_of: "InMemory_IsFrozen s key = sh_frozen (shard_of s key)"
  by (simp add: InMemory_IsFrozen_def InMemory_lookup_def shard_of_def newShard_def split: option.split)

lemma Get_put [store_simps]:
  "InMemory_Get (InMemory_put s key sh) k = (if k = key then (sh_baseline sh, True) else InMemory_Get s k)"
  by (simp add: InMemory_Get_def InMemory_lookup_def store_simps)

lemma shard_of_put [store_simps]:
  "shard_of (InMemory_put s key sh) k = (if k = key then sh else shard_of s k)"
  by (simp add: shard_of_def store_simps)

definition InMemory_inv :: "InMemory \<Rightarrow> bool" where
  "InMemory_inv s \<longleftrightarrow> (\<forall>k sh. fmlookup (im_shards s) k = Some sh \<longrightarrow> bl_Key (sh_baseline sh) = k)"

lemma Observe_bl_Key [simp]: "bl_Key (fst (Baseline_Observe b fp vol now)) = bl_Key b"
  by (simp add: Baseline_Observe_eq)

lemma New_bl_Key [simp]: "bl_Key (Baseline_New k) = k"
  by (simp add: Baseline_New_def)

lemma inv_shard_of: "InMemory_inv s \<Longrightarrow> bl_Key (sh_baseline (shard_of s k)) = k"
  by (simp add: InMemory_inv_def shard_of_def newShard_def split: option.split)

lemma inv_put: "InMemory_inv s \<Longrightarrow> bl_Key (sh_baseline sh) = k \<Longrightarrow> InMemory_inv (InMemory_put s k sh)"
  by (simp add: InMemory_inv_def store_simps)

lemma shard_observe_Key [simp]:
  "bl_Key (sh_baseline (fst (shard_observe sh fp vol now))) = bl_Key (sh_baseline sh)"
  by (simp add: shard_observe_def split_def Let_def)

lemma inv_operations:
  "InMemory_inv NewInMemory"
  "InMemory_inv s \<Longrightarrow> InMemory_inv (fst (InMemory_Observe s k fp vol now))"
  "InMemory_inv s \<Longrightarrow> InMemory_inv (InMemory_Freeze s k)"
  "InMemory_inv s \<Longrightarrow> InMemory_inv (InMemory_Unfreeze s k)"
  by (simp_all add: store_simps inv_put inv_shard_of) (simp add: InMemory_inv_def NewInMemory_def)

interpretation mem: baseline_store InMemory_Get InMemory_Observe InMemory_inv
proof
  show "fst (InMemory_Get s k) = Baseline_New k" if "\<not> snd (InMemory_Get s k)" for s k
    using that by (auto simp: InMemory_Get_def split: option.splits)
  show "InMemory_inv (fst (InMemory_Observe s k fp vol now))" if "InMemory_inv s" for s k fp vol now
    using that by (rule inv_operations)
  show "InMemory_Get (fst (InMemory_Observe s k fp vol now)) k' = InMemory_Get s k'"
    if "k' \<noteq> k" for s k k' fp vol now
    using that by (simp add: store_simps)
  show "InMemory_Get s' k = (bl, True)"
    if "InMemory_Observe s k fp vol now = (s', bl, learned, err)" for s k fp vol now s' bl learned err
    using that by (auto simp: store_simps shard_observe_def split_def Let_def split: if_splits)
  show "bl = fst (InMemory_Get s k) \<and> \<not> learned \<or>
      bl = fst (Baseline_Observe (fst (InMemory_Get s k)) fp vol now) \<and>
        (learned \<longrightarrow> snd (Baseline_Observe (fst (InMemory_Get s k)) fp vol now))"
    if "InMemory_Observe s k fp vol now = (s', bl, learned, err)" for s k fp vol now s' bl learned err
    using that by (auto simp: Get_shard_of store_simps shard_observe_def split_def Let_def split: if_splits)
  show "\<not> learned" if "InMemory_Observe s k fp vol now = (s', bl, learned, Some e)"
    for s k fp vol now s' bl learned e
    using that by (auto simp: store_simps shard_observe_def split_def Let_def split: if_splits)
qed

text \<open>While a key is frozen an observation of it changes nothing that
  can be read, reports no learning and no error, and keeps it frozen; the same observation of an
  unfrozen key applies \<open>Baseline_Observe\<close> and reports its admission verdict.\<close>

theorem frozen_key_declines_writes:
  "InMemory_IsFrozen (InMemory_Freeze s k) k \<and>
   \<not> InMemory_IsFrozen (InMemory_Unfreeze s k) k \<and>
   fst (InMemory_Get (InMemory_Freeze s k) k) = fst (InMemory_Get s k) \<and>
   InMemory_Observe (InMemory_Freeze s k) k fp vol now =
     (InMemory_Freeze s k, fst (InMemory_Get s k), False, None) \<and>
   snd (InMemory_Observe (InMemory_Unfreeze s k) k fp vol now) =
     (fst (Baseline_Observe (fst (InMemory_Get s k)) fp vol now),
      snd (Baseline_Observe (fst (InMemory_Get s k)) fp vol now), None)"
  by (simp add: store_simps IsFrozen_shard_of Get_shard_of shard_observe_def split_def Let_def)

text \<open>Freezing a key no observation was ever recorded for creates its shard,
  so a later read reports it as found although its baseline is still the empty one.\<close>

theorem freeze_creates_found_key:
  "InMemory_Get NewInMemory k = (Baseline_New k, False) \<and>
   InMemory_Get (InMemory_Freeze NewInMemory k) k = (Baseline_New k, True)"
  by (simp add: store_simps InMemory_Get_def InMemory_lookup_def NewInMemory_def InMemory_put_def
      shard_of_def newShard_def)

end
