(* ===== verification/File_Store.thy ===== *)
theory File_Store
  imports Store
begin

text \<open>
  The persistent store (\<^verbatim>\<open>internal/store/file.go\<close>): the in-memory store with a snapshot
  file that every observation rewrites through a temporary file and a rename. The disk is the content
  of the file and of the temporary files left on it, the newest first; any system calls of a flush may
  fail, the removal of its temporary file too, and the disk states it passes through are kept, since a
  crash can happen after any of them. \<^verbatim>\<open>encoding/json\<close>
  is the pair of arguments \<open>encode\<close> and \<open>decode\<close>; the order in which Go ranges over a map is
  the argument \<open>order\<close>.
\<close>

definition fileSnapshotVersion :: int where "fileSnapshotVersion = 2"
definition fileSnapshotVersionLegacy :: int where "fileSnapshotVersionLegacy = 1"

record fileSnapshot =
  snap_Version :: int
  snap_Baselines :: "Baseline list"

record disk =
  d_file :: "string option"
  d_temps :: "string list"

text \<open>What the environment does to one flush: the calls that fail, how much a failing write leaves
  behind, and whether the deferred removal of the temporary file fails.\<close>

record flush_env =
  env_fails :: "flush_step \<Rightarrow> bool"
  env_written :: nat
  env_stuck :: bool

type_synonym map_order = "(Key, Baseline) fmap \<Rightarrow> Key list"

definition enumerates :: "map_order \<Rightarrow> bool" where
  "enumerates order \<longleftrightarrow> (\<forall>m. distinct (order m) \<and> set (order m) = fset (fmdom m))"

definition map_entries :: "map_order \<Rightarrow> (Key, Baseline) fmap \<Rightarrow> (Key \<times> Baseline) list" where
  "map_entries order m = List.map_filter (\<lambda>k. map_option (Pair k) (fmlookup m k)) (order m)"

record FileStore =
  fst_inner :: InMemory
  fst_disk :: disk

text \<open>The disk states after each call that changes the disk, and the error.\<close>

definition snapshot_of :: "map_order \<Rightarrow> (Key, Baseline) fmap \<Rightarrow> fileSnapshot" where
  "snapshot_of order data = \<lparr>snap_Version = fileSnapshotVersion, snap_Baselines = map snd (map_entries order data)\<rparr>"

definition writeFileSnapshotAtomic ::
  "(fileSnapshot \<Rightarrow> string option) \<Rightarrow> map_order \<Rightarrow> flush_env \<Rightarrow> (Key, Baseline) fmap \<Rightarrow> disk \<Rightarrow>
   disk list \<times> store_error option" where
  "writeFileSnapshotAtomic encode order env data d =
     (let fails = env_fails env;
          temp = (\<lambda>c. d\<lparr>d_temps := c # d_temps d\<rparr>);
          removed = (\<lambda>d. if env_stuck env then d else d\<lparr>d_temps := tl (d_temps d)\<rparr>)
      in case encode (snapshot_of order data) of
           None \<Rightarrow> ([], Some (FlushFailed Encode))
         | Some raw \<Rightarrow>
             if fails CreateTemp then ([], Some (FlushFailed CreateTemp))
             else if fails WriteTemp
               then let partial = temp (take (env_written env) raw)
                    in ([temp '''', partial, removed partial], Some (FlushFailed WriteTemp))
             else let written = temp raw in
               if fails SyncTemp then ([temp '''', written, removed written], Some (FlushFailed SyncTemp))
               else if fails CloseTemp then ([temp '''', written, removed written], Some (FlushFailed CloseTemp))
               else if fails RenameTemp then ([temp '''', written, removed written], Some (FlushFailed RenameTemp))
               else ([temp '''', written, d\<lparr>d_file := Some raw\<rparr>], None))"

definition after_calls :: "disk \<Rightarrow> disk list \<Rightarrow> disk" where
  "after_calls d ds = (if ds = [] then d else last ds)"

definition FileStore_flush ::
  "(fileSnapshot \<Rightarrow> string option) \<Rightarrow> map_order \<Rightarrow> flush_env \<Rightarrow> FileStore \<Rightarrow> FileStore \<times> store_error option" where
  "FileStore_flush encode order env s =
     (let (ds, err) = writeFileSnapshotAtomic encode order env (InMemory_snapshot (fst_inner s)) (fst_disk s)
      in (s\<lparr>fst_disk := after_calls (fst_disk s) ds\<rparr>, err))"

definition FileStore_Get :: "FileStore \<Rightarrow> Key \<Rightarrow> Baseline \<times> bool" where
  "FileStore_Get s key = InMemory_Get (fst_inner s) key"

definition FileStore_Observe ::
  "(fileSnapshot \<Rightarrow> string option) \<Rightarrow> map_order \<Rightarrow> flush_env \<Rightarrow> FileStore \<Rightarrow> Key \<Rightarrow> Fingerprint \<Rightarrow>
   VolatileFeatures \<Rightarrow> gotime \<Rightarrow> FileStore \<times> observe_result" where
  "FileStore_Observe encode order env s key fp vol now =
     (let (inner, bl, learned, err) = InMemory_Observe (fst_inner s) key fp vol now;
          s1 = s\<lparr>fst_inner := inner\<rparr>
      in case err of
           Some e \<Rightarrow> (s1, bl, False, Some e)
         | None \<Rightarrow>
             (let (s2, ferr) = FileStore_flush encode order env s1
              in case ferr of
                   Some e \<Rightarrow> (s2, bl, False, Some e)
                 | None \<Rightarrow> (s2, bl, learned, None)))"

definition FileStore_Freeze :: "FileStore \<Rightarrow> Key \<Rightarrow> FileStore" where
  "FileStore_Freeze s key = s\<lparr>fst_inner := InMemory_Freeze (fst_inner s) key\<rparr>"

definition FileStore_Unfreeze :: "FileStore \<Rightarrow> Key \<Rightarrow> FileStore" where
  "FileStore_Unfreeze s key = s\<lparr>fst_inner := InMemory_Unfreeze (fst_inner s) key\<rparr>"

definition FileStore_IsFrozen :: "FileStore \<Rightarrow> Key \<Rightarrow> bool" where
  "FileStore_IsFrozen s key = InMemory_IsFrozen (fst_inner s) key"

definition loadFileSnapshot ::
  "(string \<Rightarrow> fileSnapshot option) \<Rightarrow> bool \<Rightarrow> disk \<Rightarrow> store_error + (Key, Baseline) fmap" where
  "loadFileSnapshot decode readable d =
     (case d_file d of
        None \<Rightarrow> Inr fmempty
      | Some raw \<Rightarrow>
          if \<not> readable then Inl ReadFailed
          else case decode raw of
            None \<Rightarrow> Inl ParseFailed
          | Some snap \<Rightarrow>
              if snap_Version snap = fileSnapshotVersion \<or> snap_Version snap = fileSnapshotVersionLegacy
              then Inr (foldl (\<lambda>m bl. fmupd (bl_Key bl) bl m) fmempty (snap_Baselines snap))
              else Inl (UnsupportedVersion (snap_Version snap)))"

definition NewFileStore ::
  "(string \<Rightarrow> fileSnapshot option) \<Rightarrow> map_order \<Rightarrow> bool \<Rightarrow> disk \<Rightarrow> store_error + FileStore" where
  "NewFileStore decode order readable d =
     (case loadFileSnapshot decode readable d of
        Inl e \<Rightarrow> Inl e
      | Inr data \<Rightarrow>
          Inr \<lparr>fst_inner = InMemory_restore NewInMemory (map_entries order data), fst_disk = d\<rparr>)"

subsection \<open>The store contract\<close>

lemma flush_inner [simp]: "fst_inner (fst (FileStore_flush encode order env s)) = fst_inner s"
  by (simp add: FileStore_flush_def split_def Let_def)

text \<open>Memory follows the in-memory store; a flush error only takes the report of learning away.\<close>

lemma FileStore_Observe_inner:
  "fst_inner (fst (FileStore_Observe encode order env s key fp vol now)) =
     fst (InMemory_Observe (fst_inner s) key fp vol now)"
  by (auto simp: FileStore_Observe_def split_def Let_def split: option.split)

lemma FileStore_Observe_result:
  assumes "FileStore_Observe encode order env s key fp vol now = (s', bl, learned, err)"
  shows "\<exists>l e. InMemory_Observe (fst_inner s) key fp vol now = (fst_inner s', bl, l, e) \<and>
    (learned \<longrightarrow> l) \<and> (err \<noteq> None \<longrightarrow> \<not> learned) \<and> (err = None \<longrightarrow> learned = l)"
proof -
  obtain inner bl' l e where o: "InMemory_Observe (fst_inner s) key fp vol now = (inner, bl', l, e)"
    by (metis prod_cases4)
  obtain s2 ferr where f: "FileStore_flush encode order env (s\<lparr>fst_inner := inner\<rparr>) = (s2, ferr)"
    by (metis surj_pair)
  then have "fst_inner s2 = inner" using flush_inner [of encode order env "s\<lparr>fst_inner := inner\<rparr>"] by simp
  with assms o f show ?thesis
    by (auto simp: FileStore_Observe_def Let_def split: option.splits)
qed

lemma FileStore_Observe_flush:
  assumes "FileStore_Observe encode order env s key fp vol now = (s', bl, learned, err)"
  shows "FileStore_flush encode order env
    (s\<lparr>fst_inner := fst (InMemory_Observe (fst_inner s) key fp vol now)\<rparr>) = (s', err)"
proof -
  have "snd (snd (snd (InMemory_Observe (fst_inner s) key fp vol now))) = None"
    by (simp add: store_simps shard_observe_def split_def Let_def)
  then show ?thesis
    using assms by (auto simp: FileStore_Observe_def split_def Let_def prod_eq_iff split: option.splits)
qed

definition FileStore_inv :: "FileStore \<Rightarrow> bool" where
  "FileStore_inv s = InMemory_inv (fst_inner s)"

interpretation fstore: baseline_store FileStore_Get "FileStore_Observe encode order env" FileStore_inv
  for encode order env
proof
  let ?obs = "FileStore_Observe encode order env"
  show "fst (FileStore_Get s k) = Baseline_New k"
    if "FileStore_inv s" "\<not> snd (FileStore_Get s k)" for s k
    using that mem.get_absent by (simp add: FileStore_Get_def FileStore_inv_def)
  show "FileStore_inv (fst (?obs s k fp vol now))" if "FileStore_inv s" for s k fp vol now
    using that by (simp add: FileStore_inv_def FileStore_Observe_inner inv_operations)
  show "FileStore_Get (fst (?obs s k fp vol now)) k' = FileStore_Get s k'"
    if "FileStore_inv s" "k' \<noteq> k" for s k k' fp vol now
    using that mem.observe_frame by (simp add: FileStore_Get_def FileStore_inv_def FileStore_Observe_inner)
  show "FileStore_Get s' k = (bl, True)"
    if "FileStore_inv s" "?obs s k fp vol now = (s', bl, learned, err)" for s k fp vol now s' bl learned err
    using that(1) FileStore_Observe_result [OF that(2)] mem.observe_get
    by (auto simp: FileStore_Get_def FileStore_inv_def)
  show "bl = fst (FileStore_Get s k) \<and> \<not> learned \<or>
      bl = fst (Baseline_Observe (fst (FileStore_Get s k)) fp vol now) \<and>
        (learned \<longrightarrow> snd (Baseline_Observe (fst (FileStore_Get s k)) fp vol now))"
    if "FileStore_inv s" "?obs s k fp vol now = (s', bl, learned, err)" for s k fp vol now s' bl learned err
    using that(1) FileStore_Observe_result [OF that(2)] mem.observe_applies
    unfolding FileStore_Get_def FileStore_inv_def by meson
  show "\<not> learned" if "?obs s k fp vol now = (s', bl, learned, Some e)"
    for s k fp vol now s' bl learned e
    using FileStore_Observe_result [OF that] by auto
qed

subsection \<open>The file is replaced atomically\<close>

lemma flush_once:
  assumes "writeFileSnapshotAtomic encode order env data d = (ds, err)" and "raw = encode (snapshot_of order data)"
  shows "\<forall>d' \<in> set ds. d_file d' = d_file d \<or> raw \<noteq> None \<and> d_file d' = raw"
    and "d_file (after_calls d ds) = (if err = None then raw else d_file d)"
    and "err = None \<longleftrightarrow> raw \<noteq> None \<and> (\<forall>c \<in> {CreateTemp, WriteTemp, SyncTemp, CloseTemp, RenameTemp}. \<not> env_fails env c)"
    and "d_temps (after_calls d ds) = d_temps d \<or>
      err \<noteq> None \<and> raw \<noteq> None \<and> \<not> env_fails env CreateTemp \<and> env_stuck env \<and> tl (d_temps (after_calls d ds)) = d_temps d"
  using assms by (auto simp: writeFileSnapshotAtomic_def Let_def after_calls_def split: option.splits if_splits)

text \<open>Flushes one after the other, each with its own faults, map order and data: the disk states passed
  through and the results.\<close>

fun flushes ::
  "(fileSnapshot \<Rightarrow> string option) \<Rightarrow> (flush_env \<times> map_order \<times> (Key, Baseline) fmap) list \<Rightarrow> disk \<Rightarrow>
   disk list \<times> store_error option list" where
  "flushes encode [] d = ([], [])"
| "flushes encode ((env, order, data) # ops) d =
     (let (ds, err) = writeFileSnapshotAtomic encode order env data d;
          (vs, errs) = flushes encode ops (after_calls d ds)
      in (ds @ vs, err # errs))"

definition last_written ::
  "(fileSnapshot \<Rightarrow> string option) \<Rightarrow> string option \<Rightarrow> (flush_env \<times> map_order \<times> (Key, Baseline) fmap) list \<Rightarrow>
   store_error option list \<Rightarrow> string option" where
  "last_written encode old ops errs =
     last (old # map (\<lambda>((_, order, data), _). encode (snapshot_of order data)) (filter (\<lambda>(_, err). err = None) (zip ops errs)))"

lemma last_written_simps [simp]:
  "last_written encode old [] errs = old"
  "last_written encode old ((env, order, data) # ops) (err # errs) =
     last_written encode (if err = None then encode (snapshot_of order data) else old) ops errs"
  by (simp_all add: last_written_def)

lemma after_calls_append: "after_calls d (ds @ vs) = after_calls (after_calls d ds) vs"
  by (simp add: after_calls_def)

lemma flushes_written: "flushes encode ops d = (vs, errs) \<Longrightarrow> d_file (after_calls d vs) = last_written encode (d_file d) ops errs"
proof (induction ops arbitrary: d vs errs)
  case (Cons op ops)
  obtain env order data where op: "op = (env, order, data)" by (cases op)
  obtain ds err where w: "writeFileSnapshotAtomic encode order env data d = (ds, err)" by force
  obtain us es where r: "flushes encode ops (after_calls d ds) = (us, es)" by force
  have "vs = ds @ us" "errs = err # es" using Cons.prems by (simp_all add: op w r)
  then show ?case using Cons.IH [OF r] flush_once(2) [OF w refl] by (simp add: op after_calls_append)
qed (simp add: after_calls_def)

text \<open>C32. Let any flushes run one after the other, each with any of its system calls failing, and then one more that a
  crash may cut off anywhere. Before it the snapshot file holds what the last flush that returned no error wrote, or what
  it held at the start; during it the file holds that or the complete new snapshot, never a part of it; a flush that
  fails leaves it as it was, one that succeeds leaves the new snapshot; a flush succeeds exactly when the snapshot can be
  encoded and none of its five calls fails; and the only temporary file a flush ever leaves is its own, when it
  failed after creating it and the removal failed too.\<close>

theorem flush_atomic:
  assumes "flushes encode ops d0 = (vs, errs)" and "d = after_calls d0 vs"
    and "writeFileSnapshotAtomic encode order env data d = (ds, err)" and "raw = encode (snapshot_of order data)"
  shows "d_file d = last_written encode (d_file d0) ops errs \<and>
    (\<forall>d' \<in> set ds. d_file d' = d_file d \<or> raw \<noteq> None \<and> d_file d' = raw) \<and>
    d_file (after_calls d ds) = (if err = None then raw else d_file d) \<and>
    (err = None \<longleftrightarrow> raw \<noteq> None \<and> (\<forall>c \<in> {CreateTemp, WriteTemp, SyncTemp, CloseTemp, RenameTemp}. \<not> env_fails env c)) \<and>
    (d_temps (after_calls d ds) = d_temps d \<or>
       err \<noteq> None \<and> raw \<noteq> None \<and> \<not> env_fails env CreateTemp \<and> env_stuck env \<and> tl (d_temps (after_calls d ds)) = d_temps d)"
  using flushes_written [OF assms(1)] flush_once [OF assms(3,4)] assms(2) by blast

subsection \<open>Restarting\<close>

lemma lookup_foldl:
  "fmlookup (foldl (\<lambda>m bl. fmupd (bl_Key bl) bl m) m bls) k =
     (case map_of (rev (map (\<lambda>bl. (bl_Key bl, bl)) bls)) k of None \<Rightarrow> fmlookup m k | Some bl \<Rightarrow> Some bl)"
  by (induction bls arbitrary: m) (auto simp: map_of_append map_add_def split: option.splits)

lemma lookup_restore:
  "fmlookup (im_shards (InMemory_restore s kbs)) k =
     (case map_of (rev kbs) k of None \<Rightarrow> fmlookup (im_shards s) k
      | Some bl \<Rightarrow> Some \<lparr>sh_baseline = bl, sh_frozen = False\<rparr>)"
  by (induction s kbs rule: InMemory_restore.induct) (auto split: option.splits)

lemma map_of_entries:
  assumes "enumerates order"
  shows "distinct (map fst (map_entries order m))" "map_of (map_entries order m) = fmlookup m"
proof -
  have o: "distinct (order m)" "set (order m) = fset (fmdom m)" using assms by (auto simp: enumerates_def)
  have e: "map_entries order m = map (\<lambda>k. (k, the (fmlookup m k))) (order m)"
    unfolding map_entries_def using o(2)
    by (induction "order m" arbitrary: m) (auto simp: List.map_filter_def fmlookup_dom_iff intro!: map_cong)
  show "distinct (map fst (map_entries order m))" unfolding e using o(1) by (simp add: comp_def)
  have "((Some \<circ> (\<lambda>k. the (fmlookup m k))) |` set (order m)) k = fmlookup m k" for k
    using o(2) by (cases "fmlookup m k") (auto simp: restrict_map_def fmdomI fmdom_notI)
  then show "map_of (map_entries order m) = fmlookup m" unfolding e map_of_map_restrict by blast
qed

lemma lookup_snapshot: "fmlookup (InMemory_snapshot s) k = map_option sh_baseline (fmlookup (im_shards s) k)"
  by (simp add: InMemory_snapshot_def)

lemma entries_keyed:
  assumes "enumerates order" and "InMemory_inv s"
  shows "map (\<lambda>bl. (bl_Key bl, bl)) (map snd (map_entries order (InMemory_snapshot s))) =
    map_entries order (InMemory_snapshot s)"
proof -
  have "bl_Key bl = k" if "(k, bl) \<in> set (map_entries order (InMemory_snapshot s))" for k bl
  proof -
    have "fmlookup (InMemory_snapshot s) k = Some bl"
      using that map_of_is_SomeI [OF map_of_entries(1) [OF assms(1)]] map_of_entries(2) [OF assms(1)] by metis
    then show ?thesis using assms(2) by (auto simp: lookup_snapshot InMemory_inv_def)
  qed
  then show ?thesis by (auto simp: comp_def intro!: map_idI)
qed

lemma map_of_rev_distinct: "distinct (map fst xs) \<Longrightarrow> map_of (rev xs) k = map_of xs k"
  by (rule option.expand) (auto simp: map_of_eq_None_iff rev_map [symmetric] map_of_eq_Some_iff dest: map_of_SomeD)

lemma map_of_rev_entries:
  "enumerates order \<Longrightarrow> map_of (rev (map_entries order m)) = fmlookup m"
  using map_of_entries [of order m] map_of_rev_distinct [of "map_entries order m"] by auto

text \<open>Loading the snapshot that a flush wrote gives the same map back.\<close>

lemma load_snapshot:
  assumes "enumerates order" and "InMemory_inv s"
    and "decode raw = Some (snapshot_of order (InMemory_snapshot s))"
    and "d_file d = Some raw"
  shows "loadFileSnapshot decode True d = Inr (InMemory_snapshot s)"
proof -
  have "foldl (\<lambda>m bl. fmupd (bl_Key bl) bl m) fmempty (map snd (map_entries order (InMemory_snapshot s))) =
      InMemory_snapshot s"
    by (rule fmap_ext)
      (simp only: lookup_foldl entries_keyed [OF assms(1,2)] map_of_rev_entries [OF assms(1)], simp split: option.split)
  then show ?thesis using assms(3,4) by (simp add: loadFileSnapshot_def snapshot_of_def)
qed

lemma restore_entries:
  "enumerates order \<Longrightarrow>
   fmlookup (im_shards (InMemory_restore NewInMemory (map_entries order m))) k =
     map_option (\<lambda>bl. \<lparr>sh_baseline = bl, sh_frozen = False\<rparr>) (fmlookup m k)"
  by (simp add: lookup_restore map_of_rev_entries NewInMemory_def split: option.split)

text \<open>C33. After an observation that returned no error, opening a store on the same disk succeeds and
  reads back exactly the baselines the running store has, found flags included, whatever the order in which either store
  ranges over its maps; no key is frozen any more. This is for a snapshot that its JSON text preserves, which excludes
  text that is not UTF-8 and zone offsets with seconds: the text written is assumed to decode to the snapshot it was
  encoded from.\<close>

theorem restart_restores_baselines:
  assumes "enumerates order" and "enumerates order'" and "FileStore_inv s"
    and "FileStore_Observe encode order env s key fp vol now = (s', bl, learned, None)"
    and "Option.bind (encode (snapshot_of order (InMemory_snapshot (fst_inner s')))) decode =
      Some (snapshot_of order (InMemory_snapshot (fst_inner s')))"
  shows "\<exists>s2. NewFileStore decode order' True (fst_disk s') = Inr s2 \<and>
    (\<forall>k. FileStore_Get s2 k = FileStore_Get s' k \<and> \<not> FileStore_IsFrozen s2 k)"
proof -
  let ?s1 = "s\<lparr>fst_inner := fst (InMemory_Observe (fst_inner s) key fp vol now)\<rparr>"
  have "FileStore_flush encode order env ?s1 = (s', None)" using assms(4) by (rule FileStore_Observe_flush)
  then have in': "fst_inner s' = fst_inner ?s1"
    and w: "\<exists>ds. writeFileSnapshotAtomic encode order env (InMemory_snapshot (fst_inner s')) (fst_disk s) = (ds, None)
      \<and> fst_disk s' = after_calls (fst_disk s) ds"
    by (auto simp: FileStore_flush_def split_def Let_def prod_eq_iff)
  have inv: "InMemory_inv (fst_inner s')" unfolding in' using assms(3) inv_operations by (simp add: FileStore_inv_def)
  have "d_file (fst_disk s') = encode (snapshot_of order (InMemory_snapshot (fst_inner s')))"
    using w flush_once(2) by force
  then obtain raw where raw: "d_file (fst_disk s') = Some raw" "decode raw = Some (snapshot_of order (InMemory_snapshot (fst_inner s')))"
    using assms(5) by (auto simp: bind_eq_Some_conv)
  have "loadFileSnapshot decode True (fst_disk s') = Inr (InMemory_snapshot (fst_inner s'))"
    by (rule load_snapshot [where decode = decode, OF assms(1) inv raw(2,1)])
  then have "NewFileStore decode order' True (fst_disk s') =
      Inr \<lparr>fst_inner = InMemory_restore NewInMemory (map_entries order' (InMemory_snapshot (fst_inner s'))),
           fst_disk = fst_disk s'\<rparr>"
    by (simp add: NewFileStore_def)
  then show ?thesis
    by (auto simp: FileStore_Get_def FileStore_IsFrozen_def InMemory_Get_def InMemory_IsFrozen_def
        InMemory_lookup_def restore_entries [OF assms(2)] lookup_snapshot split: option.splits)
qed

text \<open>When the flush of an observation fails, the call reports the error and
  no learning, the file is untouched, and yet the observation is in memory: a later read of the key
  returns the updated baseline, and the next flush that succeeds writes it.\<close>

theorem flush_error_keeps_memory:
  assumes "FileStore_inv s"
    and "FileStore_Observe encode order env s key fp vol now = (s', bl, learned, Some e)"
    and "FileStore_flush encode order env' s' = (s'', None)"
  shows "\<not> learned \<and> d_file (fst_disk s') = d_file (fst_disk s) \<and>
    fst_inner s' = fst (InMemory_Observe (fst_inner s) key fp vol now) \<and>
    FileStore_Get s' key = (bl, True) \<and>
    d_file (fst_disk s'') = encode (snapshot_of order (InMemory_snapshot (fst_inner s')))"
proof -
  have in': "fst_inner s' = fst (InMemory_Observe (fst_inner s) key fp vol now)"
    using FileStore_Observe_inner [of encode order env s key fp vol now] assms(2) by simp
  have "d_file (fst_disk s') = d_file (fst_disk s)" using FileStore_Observe_flush [OF assms(2)]
    by (auto simp: FileStore_flush_def writeFileSnapshotAtomic_def Let_def after_calls_def
        split: option.splits if_splits)
  moreover have "d_file (fst_disk s'') = encode (snapshot_of order (InMemory_snapshot (fst_inner s')))"
    using assms(3) by (auto simp: FileStore_flush_def writeFileSnapshotAtomic_def Let_def after_calls_def
        split: option.splits if_splits)
  ultimately show ?thesis
    using in' fstore.observe_get [OF assms(1,2)] fstore.observe_error [OF assms(1,2)] by blast
qed

text \<open>Opening a store accepts a readable snapshot of version 1 or 2 and refuses any
  other version, so a file whose baselines a reader could misattribute is never loaded.\<close>

theorem snapshot_versions:
  assumes "d_file d = Some raw" and "decode raw = Some snap"
  shows "(\<exists>s. NewFileStore decode order True d = Inr s) \<longleftrightarrow> snap_Version snap \<in> {1, 2}"
  using assms
  by (auto simp: NewFileStore_def loadFileSnapshot_def fileSnapshotVersion_def fileSnapshotVersionLegacy_def)

end
