(* ===== verification/Store_Concurrent.thy ===== *)
theory Store_Concurrent
  imports Store
begin

text \<open>
  The locking of the in-memory store (\<^verbatim>\<open>internal/store/store.go\<close>,
  \<^verbatim>\<open>getOrCreate\<close>, \<^verbatim>\<open>Observe\<close>, \<^verbatim>\<open>Freeze\<close>,
  \<^verbatim>\<open>Unfreeze\<close>) as a step relation over threads: a call first looks its key up under the
  read lock; on a miss it takes the write lock, looks again and only then creates the shard; with the
  shard's pointer in hand it takes the shard's own lock and updates through the pointer. Shards live
  in a heap, so two shards for one key would be expressible: the theorem says that no interleaving
  produces one, and that the calls take effect one after another, in the order of their last step.
\<close>

datatype shard_op = OpObserve Fingerprint VolatileFeatures gotime | OpFreeze | OpUnfreeze

fun apply_op :: "shard_op \<Rightarrow> shard \<Rightarrow> shard \<times> observe_result option" where
  "apply_op (OpObserve fp vol now) sh =
     (fst (shard_observe sh fp vol now), Some (snd (shard_observe sh fp vol now)))"
| "apply_op OpFreeze sh = (sh\<lparr>sh_frozen := True\<rparr>, None)"
| "apply_op OpUnfreeze sh = (sh\<lparr>sh_frozen := False\<rparr>, None)"

datatype pc = Start | Missed | Got nat | Done "observe_result option"

record thread =
  th_key :: Key
  th_op :: shard_op
  th_pc :: pc

type_synonym log_entry = "nat \<times> Key \<times> shard_op \<times> observe_result option"

record cstate =
  cs_shards :: "(Key, nat) fmap"
  cs_heap :: "shard list"
  cs_threads :: "thread list"
  cs_log :: "log_entry list"

abbreviation set_pc :: "cstate \<Rightarrow> nat \<Rightarrow> pc \<Rightarrow> thread list" where
  "set_pc cs i p \<equiv> (cs_threads cs)[i := (cs_threads cs ! i)\<lparr>th_pc := p\<rparr>]"

text \<open>The locked section of \<^verbatim>\<open>getOrCreate\<close>: the second look, and the creation.\<close>

definition getOrCreate_locked :: "cstate \<Rightarrow> nat \<Rightarrow> cstate" where
  "getOrCreate_locked cs i =
     (case fmlookup (cs_shards cs) (th_key (cs_threads cs ! i)) of
        Some p \<Rightarrow> cs\<lparr>cs_threads := set_pc cs i (Got p)\<rparr>
      | None \<Rightarrow>
          cs\<lparr>cs_shards := fmupd (th_key (cs_threads cs ! i)) (length (cs_heap cs)) (cs_shards cs),
             cs_heap := cs_heap cs @ [newShard (th_key (cs_threads cs ! i))],
             cs_threads := set_pc cs i (Got (length (cs_heap cs)))\<rparr>)"

definition lookup_step :: "cstate \<Rightarrow> nat \<Rightarrow> cstate" where
  "lookup_step cs i =
     cs\<lparr>cs_threads := set_pc cs i
          (case fmlookup (cs_shards cs) (th_key (cs_threads cs ! i)) of
             Some p \<Rightarrow> Got p | None \<Rightarrow> Missed)\<rparr>"

definition update_step :: "cstate \<Rightarrow> nat \<Rightarrow> nat \<Rightarrow> cstate" where
  "update_step cs i p =
     (let t = cs_threads cs ! i; (sh, r) = apply_op (th_op t) (cs_heap cs ! p)
      in cs\<lparr>cs_heap := (cs_heap cs)[p := sh], cs_threads := set_pc cs i (Done r),
            cs_log := cs_log cs @ [(i, th_key t, th_op t, r)]\<rparr>)"

inductive cstep :: "cstate \<Rightarrow> cstate \<Rightarrow> bool" where
  lookup: "i < length (cs_threads cs) \<Longrightarrow> th_pc (cs_threads cs ! i) = Start \<Longrightarrow>
    cstep cs (lookup_step cs i)"
| create: "i < length (cs_threads cs) \<Longrightarrow> th_pc (cs_threads cs ! i) = Missed \<Longrightarrow>
    cstep cs (getOrCreate_locked cs i)"
| update: "i < length (cs_threads cs) \<Longrightarrow> th_pc (cs_threads cs ! i) = Got p \<Longrightarrow>
    cstep cs (update_step cs i p)"

inductive_cases cstepE: "cstep cs cs'"

definition cinit :: "(Key \<times> shard_op) list \<Rightarrow> cstate" where
  "cinit calls = \<lparr>cs_shards = fmempty, cs_heap = [],
     cs_threads = map (\<lambda>(k, oper). \<lparr>th_key = k, th_op = oper, th_pc = Start\<rparr>) calls, cs_log = []\<rparr>"

inductive creach :: "(Key \<times> shard_op) list \<Rightarrow> cstate \<Rightarrow> bool" for calls where
  init: "creach calls (cinit calls)"
| step: "creach calls cs \<Longrightarrow> cstep cs cs' \<Longrightarrow> creach calls cs'"

subsection \<open>The sequential execution\<close>

definition seq_op :: "InMemory \<Rightarrow> Key \<Rightarrow> shard_op \<Rightarrow> InMemory \<times> observe_result option" where
  "seq_op s k oper =
     (case oper of
        OpObserve fp vol now \<Rightarrow>
          (fst (InMemory_Observe s k fp vol now), Some (snd (InMemory_Observe s k fp vol now)))
      | OpFreeze \<Rightarrow> (InMemory_Freeze s k, None)
      | OpUnfreeze \<Rightarrow> (InMemory_Unfreeze s k, None))"

fun seq_run :: "InMemory \<Rightarrow> (Key \<times> shard_op) list \<Rightarrow> InMemory \<times> observe_result option list" where
  "seq_run s [] = (s, [])"
| "seq_run s ((k, oper) # rest) =
     (let (s', r) = seq_op s k oper; (s'', rs) = seq_run s' rest in (s'', r # rs))"

lemma seq_op_apply:
  "seq_op s k oper = (InMemory_put s k (fst (apply_op oper (shard_of s k))), snd (apply_op oper (shard_of s k)))"
  by (cases oper) (simp_all add: seq_op_def store_simps)

lemma seq_run_snoc:
  "seq_run s (xs @ [(k, oper)]) =
     (fst (seq_op (fst (seq_run s xs)) k oper), snd (seq_run s xs) @ [snd (seq_op (fst (seq_run s xs)) k oper)])"
  by (induction xs arbitrary: s) (auto simp: split_def Let_def)

subsection \<open>The invariant\<close>

definition shard_at :: "cstate \<Rightarrow> Key \<Rightarrow> shard" where
  "shard_at cs k = (case fmlookup (cs_shards cs) k of None \<Rightarrow> newShard k | Some p \<Rightarrow> cs_heap cs ! p)"

definition log_ops :: "cstate \<Rightarrow> (Key \<times> shard_op) list" where
  "log_ops cs = map (\<lambda>(i, k, oper, r). (k, oper)) (cs_log cs)"

definition log_results :: "cstate \<Rightarrow> observe_result option list" where
  "log_results cs = map (\<lambda>(i, k, oper, r). r) (cs_log cs)"

definition pointers_ok :: "cstate \<Rightarrow> bool" where
  "pointers_ok cs \<longleftrightarrow>
     (\<forall>k p. fmlookup (cs_shards cs) k = Some p \<longrightarrow> p < length (cs_heap cs)) \<and>
     (\<forall>k k' p. fmlookup (cs_shards cs) k = Some p \<longrightarrow> fmlookup (cs_shards cs) k' = Some p \<longrightarrow> k = k') \<and>
     (\<forall>i p. i < length (cs_threads cs) \<longrightarrow> th_pc (cs_threads cs ! i) = Got p \<longrightarrow>
        fmlookup (cs_shards cs) (th_key (cs_threads cs ! i)) = Some p)"

definition log_ok :: "cstate \<Rightarrow> bool" where
  "log_ok cs \<longleftrightarrow> distinct (map fst (cs_log cs)) \<and>
     (\<forall>i k oper r. (i, k, oper, r) \<in> set (cs_log cs) \<longleftrightarrow>
        i < length (cs_threads cs) \<and> th_key (cs_threads cs ! i) = k \<and>
        th_op (cs_threads cs ! i) = oper \<and> th_pc (cs_threads cs ! i) = Done r)"

definition simulates :: "cstate \<Rightarrow> bool" where
  "simulates cs \<longleftrightarrow> (\<forall>k. shard_at cs k = shard_of (fst (seq_run NewInMemory (log_ops cs))) k) \<and>
     log_results cs = snd (seq_run NewInMemory (log_ops cs))"

lemma pointers_ok_step:
  assumes "pointers_ok cs" and "cstep cs cs'"
  shows "pointers_ok cs'"
  using assms(2)
proof cases
  case (lookup i)
  then show ?thesis using assms(1)
    by (auto simp: pointers_ok_def lookup_step_def nth_list_update split: option.splits)
next
  case (create i)
  then show ?thesis using assms(1)
    by (auto simp: pointers_ok_def getOrCreate_locked_def nth_list_update less_Suc_eq
        split: option.splits if_splits)
next
  case (update i p)
  then show ?thesis using assms(1)
    by (auto simp: pointers_ok_def update_step_def Let_def split_def nth_list_update)
qed

lemma log_ok_keep:
  assumes "log_ok cs" and "i < length (cs_threads cs)" and "\<And>r. th_pc (cs_threads cs ! i) \<noteq> Done r"
    and "\<And>r. p \<noteq> Done r" and "cs_log cs' = cs_log cs" and "cs_threads cs' = set_pc cs i p"
  shows "log_ok cs'"
  using assms unfolding log_ok_def by (auto simp: nth_list_update)

lemma log_ok_step:
  assumes "log_ok cs" and "cstep cs cs'"
  shows "log_ok cs'"
  using assms(2)
proof cases
  case (lookup i)
  show ?thesis
    by (rule log_ok_keep [OF assms(1) lookup(2), where p = "case fmlookup (cs_shards cs) (th_key (cs_threads cs ! i)) of Some p \<Rightarrow> Got p | None \<Rightarrow> Missed"])
      (auto simp: lookup lookup_step_def split: option.splits)
next
  case (create i)
  show ?thesis
    by (rule log_ok_keep [OF assms(1) create(2), where p = "case fmlookup (cs_shards cs) (th_key (cs_threads cs ! i)) of Some p \<Rightarrow> Got p | None \<Rightarrow> Got (length (cs_heap cs))"])
      (auto simp: create getOrCreate_locked_def split: option.splits)
next
  case (update i p)
  obtain sh r where a: "apply_op (th_op (cs_threads cs ! i)) (cs_heap cs ! p) = (sh, r)" by fastforce
  have new: "i \<notin> fst ` set (cs_log cs)" using assms(1) update by (auto simp: log_ok_def)
  then show ?thesis using assms(1) update a
    by (auto simp: log_ok_def update_step_def Let_def nth_list_update)
qed

lemma simulates_step:
  assumes "pointers_ok cs" and "simulates cs" and "cstep cs cs'"
  shows "simulates cs'"
  using assms(3)
proof cases
  case (lookup i)
  then show ?thesis using assms(2)
    by (simp add: simulates_def lookup_step_def shard_at_def log_ops_def log_results_def
        cong: option.case_cong)
next
  case (create i)
  have "shard_at cs' k = shard_at cs k" for k
    using assms(1) create
    by (auto simp: shard_at_def getOrCreate_locked_def pointers_ok_def nth_append split: option.splits)
  moreover have "cs_log cs' = cs_log cs" using create by (simp add: getOrCreate_locked_def split: option.split)
  ultimately show ?thesis using assms(2) by (simp add: simulates_def log_ops_def log_results_def)
next
  case (update i p)
  let ?k = "th_key (cs_threads cs ! i)" and ?o = "th_op (cs_threads cs ! i)"
  let ?s = "fst (seq_run NewInMemory (log_ops cs))"
  have p: "fmlookup (cs_shards cs) ?k = Some p" "p < length (cs_heap cs)"
    using assms(1) update by (auto simp: pointers_ok_def)
  then have "shard_at cs ?k = cs_heap cs ! p" by (simp add: shard_at_def)
  then have sh: "cs_heap cs ! p = shard_of ?s ?k" using assms(2) by (simp add: simulates_def)
  have at: "shard_at cs' k = (if k = ?k then fst (apply_op ?o (cs_heap cs ! p)) else shard_at cs k)" for k
    using assms(1) p update
    by (auto simp: shard_at_def update_step_def Let_def split_def pointers_ok_def nth_list_update split: option.split)
  have ops: "log_ops cs' = log_ops cs @ [(?k, ?o)]"
    and res: "log_results cs' = log_results cs @ [snd (apply_op ?o (cs_heap cs ! p))]"
    using update by (simp_all add: log_ops_def log_results_def update_step_def Let_def split_def)
  show ?thesis using assms(2) sh
    by (simp add: simulates_def at ops res seq_run_snoc seq_op_apply store_simps)
qed

lemma creach_invariant: "creach calls cs \<Longrightarrow> pointers_ok cs \<and> log_ok cs \<and> simulates cs"
proof (induction rule: creach.induct)
  case init
  show ?case
    by (auto simp: cinit_def pointers_ok_def log_ok_def simulates_def shard_at_def log_ops_def
        log_results_def shard_of_def NewInMemory_def split_def)
next
  case (step cs cs')
  then show ?case by (blast intro: pointers_ok_step log_ok_step simulates_step)
qed

lemma creach_calls: "creach calls cs \<Longrightarrow> map (\<lambda>t. (th_key t, th_op t)) (cs_threads cs) = calls"
proof (induction rule: creach.induct)
  case init
  show ?case by (simp add: cinit_def split_def comp_def)
next
  case (step cs cs')
  have *: "map (\<lambda>t. (th_key t, th_op t)) (set_pc cs i p) = map (\<lambda>t. (th_key t, th_op t)) (cs_threads cs)" for i p
    by (cases "i < length (cs_threads cs)")
      (simp_all add: map_update list_update_same_conv list_update_beyond)
  from step(2,3) show ?case
    by cases (auto simp: * lookup_step_def getOrCreate_locked_def update_step_def Let_def split_def
        split: option.split)
qed

text \<open>C12. However the lookups, shard creations and shard updates of concurrent calls
  interleave, each call that has completed took effect exactly once, and the results the calls got
  and the state of every key are those of running the completed calls one after another on the
  sequential store.\<close>

theorem store_linearizable:
  assumes "creach calls cs"
  shows "(\<forall>i r. (i < length calls \<and> th_pc (cs_threads cs ! i) = Done r) \<longleftrightarrow>
            (i, fst (calls ! i), snd (calls ! i), r) \<in> set (cs_log cs)) \<and>
    distinct (map fst (cs_log cs)) \<and>
    snd (seq_run NewInMemory (log_ops cs)) = log_results cs \<and>
    (\<forall>k. shard_at cs k = shard_of (fst (seq_run NewInMemory (log_ops cs))) k)"
proof -
  have inv: "log_ok cs" "simulates cs" using creach_invariant [OF assms] by auto
  have c: "calls = map (\<lambda>t. (th_key t, th_op t)) (cs_threads cs)" using creach_calls [OF assms] by simp
  have len: "length (cs_threads cs) = length calls" unfolding c by simp
  have nth: "i < length calls \<Longrightarrow> calls ! i = (th_key (cs_threads cs ! i), th_op (cs_threads cs ! i))" for i
    unfolding c by simp
  have "(i < length calls \<and> th_pc (cs_threads cs ! i) = Done r) \<longleftrightarrow>
      (i, fst (calls ! i), snd (calls ! i), r) \<in> set (cs_log cs)" for i r
    using inv(1) len nth [of i] unfolding log_ok_def by (metis fst_conv snd_conv)
  then show ?thesis using inv by (auto simp: simulates_def log_ok_def)
qed

end
