(* ===== verification/Engine.thy ===== *)
theory Engine
  imports File_Store Store_Concurrent
begin

text \<open>
  The engine (\<^verbatim>\<open>engine.go\<close>, \<^verbatim>\<open>options.go\<close>,
  \<^verbatim>\<open>result.go\<close>): the pipeline that analyses one event and the gate in front of
  learning. The store is an interface of the source, so its two operations are arguments of the
  definitions; the lemmas are proved once against the store contract and hold of the in-memory and
  of the file store through their interpretations.
\<close>

record 's Engine =
  en_store :: 's
  en_policy :: Policy
  en_anomalyConfig :: Config
  en_trustConfig :: TrustConfig
  en_contextRisk :: "StableFeatures \<Rightarrow> f64"
  en_learningScope :: string

record Result =
  res_Event :: Event
  res_Features :: Features
  res_Fingerprint :: Fingerprint
  res_BaselineKey :: Key
  res_Anomaly :: Anomaly
  res_Trust :: Trust
  res_Decision :: Decision
  res_Explanation :: Explanation

definition DefaultPolicy :: Policy where
  "DefaultPolicy = \<lparr>pol_Rules = [], pol_DefaultAction = DecisionObserveOnly,
     pol_DefaultReason = ''no policy rules configured; observing by default''\<rparr>"

type_synonym 's Option = "'s Engine \<Rightarrow> 's Engine"

definition WithStore :: "'s \<Rightarrow> 's Option" where "WithStore s e = e\<lparr>en_store := s\<rparr>"
definition WithPolicy :: "Policy \<Rightarrow> 's Option" where "WithPolicy p e = e\<lparr>en_policy := p\<rparr>"
definition WithAnomalyConfig :: "Config \<Rightarrow> 's Option" where
  "WithAnomalyConfig cfg e = e\<lparr>en_anomalyConfig := cfg\<rparr>"
definition WithTrustConfig :: "TrustConfig \<Rightarrow> 's Option" where
  "WithTrustConfig cfg e = e\<lparr>en_trustConfig := cfg\<rparr>"

definition publicStableFeatures :: "StableFeatures \<Rightarrow> StableFeatures" where
  "publicStableFeatures sf =
     \<lparr>sf_ActorType = sf_ActorType sf, sf_OperationCategory = sf_OperationCategory sf,
      sf_OperationName = sf_OperationName sf, sf_TargetName = sf_TargetName sf,
      sf_TargetCategory = sf_TargetCategory sf, sf_Environment = sf_Environment sf\<rparr>"

definition WithContextRisk :: "(StableFeatures \<Rightarrow> f64) \<Rightarrow> 's Option" where
  "WithContextRisk fn e = e\<lparr>en_contextRisk := (\<lambda>sf. fn (publicStableFeatures sf))\<rparr>"
definition WithLearningScope :: "string \<Rightarrow> 's Option" where
  "WithLearningScope scope e = e\<lparr>en_learningScope := scope\<rparr>"

definition NewEngine :: "'s \<Rightarrow> 's Option list \<Rightarrow> 's Engine" where
  "NewEngine newStore opts =
     foldl (\<lambda>e opt. opt e)
       \<lparr>en_store = newStore, en_policy = DefaultPolicy, en_anomalyConfig = Anomaly_DefaultConfig,
        en_trustConfig = Trust_DefaultConfig, en_contextRisk = (\<lambda>_. f0), en_learningScope = ''''\<rparr> opts"

definition event_key :: "'s Engine \<Rightarrow> Event \<Rightarrow> Key" where
  "event_key e ev = \<lparr>key_Scope = en_learningScope e, key_ActorID = actor_ID (ev_Actor ev),
     key_Environment = ctx_Environment (ev_Context ev)\<rparr>"

definition Engine_Analyze ::
  "(f64 \<Rightarrow> f64) \<Rightarrow> (nat \<Rightarrow> f64 \<Rightarrow> string) \<Rightarrow> ('s \<Rightarrow> Key \<Rightarrow> Baseline \<times> bool) \<Rightarrow> 's Engine \<Rightarrow> Event \<Rightarrow>
   event_error + Result" where
  "Engine_Analyze log2 showf get e ev =
     (case Event_Validate ev of
        Some err \<Rightarrow> Inl err
      | None \<Rightarrow>
          let feat = Extract ev;
              fp = Fingerprint_Compute (ft_Stable feat);
              key = event_key e ev;
              (bl, _) = get (en_store e) key;
              an = Score log2 feat fp bl (en_anomalyConfig e);
              tr = Trust_Compute an (actor_IdentityConfidence (ev_Actor ev))
                     (en_contextRisk e (ft_Stable feat)) (en_trustConfig e);
              pr = Policy_Evaluate showf (en_policy e)
                     \<lparr>pin_Stable = ft_Stable feat, pin_Trust = tr, pin_Attributes = ev_Attributes ev,
                      pin_ApprovalStatus = ctx_ApprovalStatus (ev_Context ev)\<rparr>
          in Inr \<lparr>res_Event = ev, res_Features = feat, res_Fingerprint = fp, res_BaselineKey = key,
                  res_Anomaly = an, res_Trust = tr, res_Decision = pr_Decision pr,
                  res_Explanation = pr_Explanation pr\<rparr>)"

definition eligibleForLearning :: "Decision \<Rightarrow> bool" where
  "eligibleForLearning d = List.member [DecisionAllow, DecisionObserveOnly, DecisionAlert] d"

definition Engine_Observe ::
  "('s \<Rightarrow> Key \<Rightarrow> Fingerprint \<Rightarrow> VolatileFeatures \<Rightarrow> gotime \<Rightarrow> 's \<times> observe_result) \<Rightarrow>
   's Engine \<Rightarrow> Result \<Rightarrow> 's Engine \<times> bool \<times> store_error option" where
  "Engine_Observe observe e result =
     (if \<not> eligibleForLearning (res_Decision result) then (e, False, None)
      else let (s, bl, learned, err) =
                 observe (en_store e) (res_BaselineKey result) (res_Fingerprint result)
                   (ft_Volatile (res_Features result)) (ev_Timestamp (res_Event result));
               e' = e\<lparr>en_store := s\<rparr>
           in case err of Some x \<Rightarrow> (e', False, Some x) | None \<Rightarrow> (e', learned, None))"

definition Signal_line :: "Signal \<Rightarrow> detail list" where
  "Signal_line c =
     Sprintf ''  - %s: %.2f'' [ArgString (sig_Name c), ArgF64 (sig_Value c)]
     # (case sig_Detail c of NoDetail \<Rightarrow> [] | Sprintf f as \<Rightarrow> [Sprintf '' (%s)'' [ArgSprintf f as]])"

definition Result_Explain :: "Result \<Rightarrow> detail list" where
  "Result_Explain r =
     [Sprintf ''Decision: %s'' [ArgString (res_Decision r)],
      Trust_Explain (res_Trust r),
      Sprintf ''Anomaly score: %.2f (confidence %.2f)''
        [ArgF64 (an_Score (res_Anomaly r)), ArgF64 (an_Confidence (res_Anomaly r))]]
     @ (if an_Contributors (res_Anomaly r) \<noteq> []
        then Sprintf ''Detected:'' [] # concat (map Signal_line (an_Contributors (res_Anomaly r)))
        else [])
     @ [if ex_MatchedDefault (res_Explanation r)
        then Sprintf ''Policy: default action (%s)'' [ArgString (ex_Reason (res_Explanation r))]
        else Sprintf ''Policy: rule %q (%s)''
          [ArgString (ex_RuleName (res_Explanation r)), ArgString (ex_Reason (res_Explanation r))]]"

text \<open>One turn of a caller: analyse an event and hand the result to \<open>Observe\<close>.\<close>

definition engine_turn ::
  "(f64 \<Rightarrow> f64) \<Rightarrow> (nat \<Rightarrow> f64 \<Rightarrow> string) \<Rightarrow> ('s \<Rightarrow> Key \<Rightarrow> Baseline \<times> bool) \<Rightarrow>
   ('s \<Rightarrow> Key \<Rightarrow> Fingerprint \<Rightarrow> VolatileFeatures \<Rightarrow> gotime \<Rightarrow> 's \<times> observe_result) \<Rightarrow>
   's Engine \<Rightarrow> Event \<Rightarrow> 's Engine" where
  "engine_turn log2 showf get observe e ev =
     (case Engine_Analyze log2 showf get e ev of
        Inl _ \<Rightarrow> e
      | Inr r \<Rightarrow> fst (Engine_Observe observe e r))"

fun engine_run ::
  "(f64 \<Rightarrow> f64) \<Rightarrow> (nat \<Rightarrow> f64 \<Rightarrow> string) \<Rightarrow> ('s \<Rightarrow> Key \<Rightarrow> Baseline \<times> bool) \<Rightarrow>
   ('s \<Rightarrow> Key \<Rightarrow> Fingerprint \<Rightarrow> VolatileFeatures \<Rightarrow> gotime \<Rightarrow> 's \<times> observe_result) \<Rightarrow>
   's Engine \<Rightarrow> Event list \<Rightarrow> 's Engine" where
  "engine_run log2 showf get observe e [] = e"
| "engine_run log2 showf get observe e (ev # evs) =
     engine_run log2 showf get observe (engine_turn log2 showf get observe e ev) evs"

subsection \<open>Analysis\<close>

lemma publicStableFeatures_id [simp]: "publicStableFeatures sf = sf"
  by (simp add: publicStableFeatures_def)

lemma Analyze_Inr_iff: "(\<exists>r. Engine_Analyze log2 showf get e ev = Inr r) \<longleftrightarrow> Event_Validate ev = None"
  by (simp add: Engine_Analyze_def Let_def split_def split: option.split)

lemma Analyze_fields:
  assumes "Engine_Analyze log2 showf get e ev = Inr r"
  shows "res_Event r = ev" "res_Features r = Extract ev"
    "res_Fingerprint r = Fingerprint_Compute (ft_Stable (Extract ev))" "res_BaselineKey r = event_key e ev"
    "res_Anomaly r = Score log2 (Extract ev) (res_Fingerprint r) (fst (get (en_store e) (event_key e ev)))
       (en_anomalyConfig e)"
    "res_Trust r = Trust_Compute (res_Anomaly r) (actor_IdentityConfidence (ev_Actor ev))
       (en_contextRisk e (ft_Stable (Extract ev))) (en_trustConfig e)"
    "res_Decision r = pr_Decision (Policy_Evaluate showf (en_policy e)
       \<lparr>pin_Stable = ft_Stable (Extract ev), pin_Trust = res_Trust r, pin_Attributes = ev_Attributes ev,
        pin_ApprovalStatus = ctx_ApprovalStatus (ev_Context ev)\<rparr>)"
  using assms by (auto simp: Engine_Analyze_def Let_def split_def split: option.splits)

text \<open>Analysis reads the store at the event's own key only.\<close>

lemma Analyze_cong:
  assumes "fst (get (en_store e) (event_key e ev)) = fst (get s' (event_key e ev))"
  shows "Engine_Analyze log2 showf get e ev = Engine_Analyze log2 showf get (e\<lparr>en_store := s'\<rparr>) ev"
  using assms by (simp add: Engine_Analyze_def Let_def split_def event_key_def split: option.split)

lemma Observe_ineligible:
  "\<not> eligibleForLearning (res_Decision r) \<Longrightarrow> Engine_Observe observe e r = (e, False, None)"
  by (simp add: Engine_Observe_def)

lemma Observe_store:
  "fst (Engine_Observe observe e r) =
     e\<lparr>en_store := if eligibleForLearning (res_Decision r)
        then fst (observe (en_store e) (res_BaselineKey r) (res_Fingerprint r)
               (ft_Volatile (res_Features r)) (ev_Timestamp (res_Event r)))
        else en_store e\<rparr>"
  by (simp add: Engine_Observe_def Let_def split_def split: option.split)

lemma Observe_report:
  "snd (Engine_Observe observe e r) =
     (if eligibleForLearning (res_Decision r)
      then case observe (en_store e) (res_BaselineKey r) (res_Fingerprint r)
                  (ft_Volatile (res_Features r)) (ev_Timestamp (res_Event r)) of
             (_, _, learned, err) \<Rightarrow> (err = None \<and> learned, err)
      else (False, None))"
  by (simp add: Engine_Observe_def Let_def split_def split: option.split)

subsection \<open>The engine over any store\<close>

context baseline_store
begin

lemma turn_config:
  "en_policy (engine_turn log2 showf get observe e ev) = en_policy e"
  "en_anomalyConfig (engine_turn log2 showf get observe e ev) = en_anomalyConfig e"
  "en_learningScope (engine_turn log2 showf get observe e ev) = en_learningScope e"
  by (simp_all add: engine_turn_def Observe_store split: sum.split)

lemma turn_grown:
  assumes "grown (en_store e)"
  shows "grown (en_store (engine_turn log2 showf get observe e ev))"
proof (cases "Engine_Analyze log2 showf get e ev")
  case (Inr r)
  then have "fp_ID (res_Fingerprint r) \<noteq> ''''" by (simp add: Analyze_fields(3))
  then have "grown (fst (observe (en_store e) (res_BaselineKey r) (res_Fingerprint r)
      (ft_Volatile (res_Features r)) (ev_Timestamp (res_Event r))))"
    using assms by (intro grown_observe)
  then show ?thesis using Observe_store [of observe e r] Inr assms by (auto simp: engine_turn_def)
qed (simp add: engine_turn_def assms)

lemma run_grown:
  "grown (en_store e) \<Longrightarrow> grown (en_store (engine_run log2 showf get observe e evs))"
  by (induction evs arbitrary: e) (auto intro: turn_grown)

lemma run_config:
  "en_anomalyConfig (engine_run log2 showf get observe e evs) = en_anomalyConfig e"
  "en_policy (engine_run log2 showf get observe e evs) = en_policy e"
  "en_learningScope (engine_run log2 showf get observe e evs) = en_learningScope e"
  by (induction evs arbitrary: e) (auto simp: turn_config)

lemma turn_frame:
  assumes "inv (en_store e)" and "k \<noteq> event_key e ev"
  shows "get (en_store (engine_turn log2 showf get observe e ev)) k = get (en_store e) k"
proof (cases "Engine_Analyze log2 showf get e ev")
  case (Inr r)
  then have "res_BaselineKey r = event_key e ev" by (rule Analyze_fields)
  then have "get (fst (observe (en_store e) (res_BaselineKey r) (res_Fingerprint r)
      (ft_Volatile (res_Features r)) (ev_Timestamp (res_Event r)))) k = get (en_store e) k"
    using assms by (intro observe_frame) auto
  then show ?thesis using Observe_store [of observe e r] Inr by (auto simp: engine_turn_def)
qed (simp add: engine_turn_def)

lemma turn_inv: "inv (en_store e) \<Longrightarrow> inv (en_store (engine_turn log2 showf get observe e ev))"
  by (simp add: engine_turn_def Observe_store observe_inv split: sum.split)

lemma run_frame:
  assumes "inv (en_store e)" and "\<forall>ev \<in> set evs. k \<noteq> event_key e ev"
  shows "get (en_store (engine_run log2 showf get observe e evs)) k = get (en_store e) k"
  using assms
proof (induction evs arbitrary: e)
  case (Cons ev evs)
  let ?e = "engine_turn log2 showf get observe e ev"
  have "event_key ?e = event_key e" by (simp add: fun_eq_iff event_key_def turn_config)
  then have "get (en_store (engine_run log2 showf get observe ?e evs)) k = get (en_store ?e) k"
    using Cons by (intro Cons.IH) (auto simp: turn_inv)
  then show ?case using Cons.prems turn_frame [of e k ev log2 showf] by simp
qed simp

lemma analysis_ranges:
  assumes "grown (en_store e)" and "weights_ok (en_anomalyConfig e)"
    and "Engine_Analyze log2 showf get e ev = Inr r"
  shows "in01 (an_Score (res_Anomaly r))"
proof -
  obtain n where "learned_from (event_key e ev) n (fst (get (en_store e) (event_key e ev)))"
    using grown_get [OF assms(1)] by blast
  then show ?thesis unfolding Analyze_fields(5) [OF assms(3)]
    using assms(2) by (intro Score_in01) (auto intro: rates_ok_reachable)
qed

lemma Observe_learned:
  assumes "inv (en_store e)" and "Engine_Analyze log2 showf get e ev = Inr r"
    and "Engine_Observe observe e r = (e', learned, err)" and learned
  shows "eligibleForLearning (res_Decision r) \<and> err = None \<and>
    get (en_store e') (event_key e ev) =
      (fst (Baseline_Observe (fst (get (en_store e) (event_key e ev)))
             (Fingerprint_Compute (ft_Stable (Extract ev))) (ft_Volatile (Extract ev)) (ev_Timestamp ev)), True) \<and>
    snd (Baseline_Observe (fst (get (en_store e) (event_key e ev)))
           (Fingerprint_Compute (ft_Stable (Extract ev))) (ft_Volatile (Extract ev)) (ev_Timestamp ev))"
proof -
  note f = Analyze_fields [OF assms(2)]
  have el: "eligibleForLearning (res_Decision r)"
    using assms(3,4) Observe_ineligible [of r observe e] by auto
  obtain s' bl l er where o: "observe (en_store e) (event_key e ev)
      (Fingerprint_Compute (ft_Stable (Extract ev))) (ft_Volatile (Extract ev)) (ev_Timestamp ev) = (s', bl, l, er)"
    by (metis prod_cases4)
  have "e' = e\<lparr>en_store := s'\<rparr>" "learned = (er = None \<and> l)" "err = er"
    using assms(3) el o Observe_store [of observe e r] Observe_report [of observe e r] by (auto simp: f)
  moreover have "get s' (event_key e ev) = (bl, True)" using assms(1) o by (rule observe_get)
  moreover have "bl = fst (Baseline_Observe (fst (get (en_store e) (event_key e ev)))
      (Fingerprint_Compute (ft_Stable (Extract ev))) (ft_Volatile (Extract ev)) (ev_Timestamp ev)) \<and>
      snd (Baseline_Observe (fst (get (en_store e) (event_key e ev)))
      (Fingerprint_Compute (ft_Stable (Extract ev))) (ft_Volatile (Extract ev)) (ev_Timestamp ev))"
    using observe_applies [OF assms(1) o] calculation assms(4) by blast
  ultimately show ?thesis using el assms(4) by auto
qed

end

subsection \<open>Properties of the engine\<close>

lemma mem_grown_New: "mem.grown NewInMemory"
proof -
  have "learned_from k 0 (fst (InMemory_Get NewInMemory k))" for k
    by (simp add: Get_shard_of shard_of_def NewInMemory_def newShard_def learned_from.start)
  then show ?thesis by (auto simp: mem.grown_def inv_operations(1))
qed

text \<open>C1. Take an engine on an empty in-memory store whose anomaly weights are not NaN and whose policy
  rules all name one of the six decisions, and let it analyse and observe any sequence of events, valid or not. Analysing a
  further valid event then always succeeds, with an anomaly score and every trust field finite and in [0, 1], one of the six
  decisions, and a baseline within its resource bounds.\<close>

theorem engine_pipeline_safe:
  assumes "en_store e0 = NewInMemory" and "weights_ok (en_anomalyConfig e0)"
    and "\<And>r. r \<in> set (pol_Rules (en_policy e0)) \<Longrightarrow> Decision_Valid (rule_Action r)"
    and "e = engine_run log2 showf InMemory_Get InMemory_Observe e0 evs" and "Event_Validate ev = None"
  shows "\<exists>r. Engine_Analyze log2 showf InMemory_Get e ev = Inr r \<and>
    in01 (an_Score (res_Anomaly r)) \<and> in01 (tr_Score (res_Trust r)) \<and>
    in01 (tr_IdentityConfidence (res_Trust r)) \<and> in01 (tr_AnomalyScore (res_Trust r)) \<and>
    in01 (tr_AnomalyConfidence (res_Trust r)) \<and> in01 (tr_ContextRisk (res_Trust r)) \<and> Decision_Valid (res_Decision r) \<and>
    baseline_bounded (fst (InMemory_Get (en_store e) (res_BaselineKey r)))"
proof -
  have g: "mem.grown (en_store e)" unfolding assms(4)
    by (rule mem.run_grown) (simp add: assms(1) mem_grown_New)
  have cfg: "en_anomalyConfig e = en_anomalyConfig e0" "en_policy e = en_policy e0"
    by (simp_all add: assms(4) mem.run_config)
  obtain r where r: "Engine_Analyze log2 showf InMemory_Get e ev = Inr r"
    using assms(5) Analyze_Inr_iff by blast
  have "in01 (an_Score (res_Anomaly r))"
    using g r assms(2) cfg by (intro mem.analysis_ranges [of e log2 showf ev r]) auto
  moreover have "Decision_Valid (res_Decision r)"
    unfolding Analyze_fields(7) [OF r] using assms(3) cfg by (intro evaluate_valid) auto
  moreover have "baseline_bounded (fst (InMemory_Get (en_store e) (res_BaselineKey r)))"
    using mem.grown_get [OF g] baseline_bounded_reachable by blast
  ultimately show ?thesis using r by (auto simp: Analyze_fields(6) [OF r] compute_unit)
qed

text \<open>C11. An event whose decision is not allow, observe_only or alert (so also
  one with a decision that is none of the six) leaves the engine exactly as it was, and with it the
  analysis of every later event; \<open>Observe\<close> reports no learning and no error.\<close>

theorem held_events_never_learned:
  assumes "Engine_Analyze log2 showf get e ev = Inr r"
    and "res_Decision r \<notin> {DecisionAllow, DecisionObserveOnly, DecisionAlert}"
  shows "Engine_Observe observe e r = (e, False, None) \<and>
    engine_turn log2 showf get observe e ev = e \<and>
    Engine_Analyze log2 showf get (engine_turn log2 showf get observe e ev) ev' =
      Engine_Analyze log2 showf get e ev'"
proof -
  have "\<not> eligibleForLearning (res_Decision r)" using assms(2) by (auto simp: eligibleForLearning_def)
  then show ?thesis using assms(1) by (simp add: engine_turn_def Observe_ineligible)
qed

text \<open>When \<open>Observe\<close> reports learning, the decision was eligible, there was no
  error, the in-memory store now holds exactly \<open>Baseline_Observe\<close> of what it held, and the
  fingerprint of the event is in it.\<close>

theorem learning_reports_truth:
  assumes "InMemory_inv (en_store e)" and "Engine_Analyze log2 showf InMemory_Get e ev = Inr r"
    and "Engine_Observe InMemory_Observe e r = (e', True, err)"
  shows "eligibleForLearning (res_Decision r) \<and> err = None \<and>
    fst (InMemory_Get (en_store e') (event_key e ev)) =
      fst (Baseline_Observe (fst (InMemory_Get (en_store e) (event_key e ev)))
             (res_Fingerprint r) (ft_Volatile (res_Features r)) (ev_Timestamp ev)) \<and>
    fmlookup (bl_Fingerprints (fst (InMemory_Get (en_store e') (event_key e ev)))) (fp_ID (res_Fingerprint r)) \<noteq> None"
proof -
  note f = Analyze_fields(2,3) [OF assms(2)]
  have *: "eligibleForLearning (res_Decision r) \<and> err = None \<and>
    InMemory_Get (en_store e') (event_key e ev) =
      (fst (Baseline_Observe (fst (InMemory_Get (en_store e) (event_key e ev)))
             (res_Fingerprint r) (ft_Volatile (res_Features r)) (ev_Timestamp ev)), True) \<and>
    snd (Baseline_Observe (fst (InMemory_Get (en_store e) (event_key e ev)))
           (res_Fingerprint r) (ft_Volatile (res_Features r)) (ev_Timestamp ev))"
    unfolding f using mem.Observe_learned [OF assms(1,2,3)] by simp
  moreover have "admits (fst (InMemory_Get (en_store e) (event_key e ev))) (res_Fingerprint r)"
    using * by (simp add: Baseline_Observe_eq)
  ultimately show ?thesis using Observe_learns by simp
qed

text \<open>C40. Two engines share one file store but have different learning scopes. Whatever
  events the first processes, with any flush failures, every analysis of the second is what it was.\<close>

theorem scope_isolation:
  assumes "FileStore_inv (en_store a)" and "en_store b = en_store a"
    and "en_learningScope a \<noteq> en_learningScope b"
  shows "Engine_Analyze log2 showf FileStore_Get
      (b\<lparr>en_store := en_store (engine_run log2 showf FileStore_Get (FileStore_Observe encode order env) a evs)\<rparr>) ev =
    Engine_Analyze log2 showf FileStore_Get b ev"
proof -
  have "FileStore_Get (en_store (engine_run log2 showf FileStore_Get (FileStore_Observe encode order env) a evs))
      (event_key b ev) = FileStore_Get (en_store a) (event_key b ev)"
    using assms by (intro fstore.run_frame) (auto simp: event_key_def)
  then show ?thesis using assms(2) by (intro Analyze_cong [symmetric]) simp
qed

text \<open>Events of other actors, or of the same actor in other environments, do not
  change the analysis of an event.\<close>

theorem actor_isolation:
  assumes "InMemory_inv (en_store e)"
    and "\<And>ev'. ev' \<in> set evs \<Longrightarrow> actor_ID (ev_Actor ev') \<noteq> actor_ID (ev_Actor ev) \<or>
      ctx_Environment (ev_Context ev') \<noteq> ctx_Environment (ev_Context ev)"
  shows "Engine_Analyze log2 showf InMemory_Get
      (e\<lparr>en_store := en_store (engine_run log2 showf InMemory_Get InMemory_Observe e evs)\<rparr>) ev =
    Engine_Analyze log2 showf InMemory_Get e ev"
proof -
  have "event_key e ev \<noteq> event_key e ev'" if "ev' \<in> set evs" for ev'
    using assms(2) [OF that] by (auto simp: event_key_def)
  then have "InMemory_Get (en_store (engine_run log2 showf InMemory_Get InMemory_Observe e evs)) (event_key e ev) =
      InMemory_Get (en_store e) (event_key e ev)"
    using assms(1) by (intro mem.run_frame) auto
  then show ?thesis by (intro Analyze_cong [symmetric]) simp
qed

end
