(* ===== verification/Alert.thy ===== *)
theory Alert
  imports Engine
begin

text \<open>
  Alerts (\<^verbatim>\<open>alert/alert.go\<close>, \<^verbatim>\<open>alert/condition.go\<close>): a read-only view of a
  result, produced by the first matching rule. The random bytes of an identifier are an argument.
\<close>

type_synonym Severity = string

definition Severity_Valid :: "Severity \<Rightarrow> bool" where
  "Severity_Valid s = List.member [''info'', ''low'', ''medium'', ''high'', ''critical''] s"

record Alert =
  al_ID :: string
  al_Timestamp :: gotime
  al_Severity :: Severity
  al_Decision :: Decision
  al_Risk :: RiskLevel
  al_TrustScore :: f64
  al_AnomalyScore :: f64
  al_Actor :: Actor
  al_Target :: Target
  al_FingerprintID :: string
  al_Reasons :: "detail list"
  al_Metadata :: "(string, string) fmap"

definition hex_byte :: "8 word \<Rightarrow> string" where
  "hex_byte b = [hex_digit (unat b div 16), hex_digit (unat b mod 16)]"

definition newRandomID :: "8 word list \<Rightarrow> string \<Rightarrow> string" where
  "newRandomID rnd16 prefix = prefix @ ''_'' @ concat (map hex_byte rnd16)"

definition reasonsFromResult :: "Result \<Rightarrow> detail list" where
  "reasonsFromResult result =
     map (\<lambda>c. if sig_Detail c \<noteq> NoDetail then sig_Detail c else Sprintf ''%s'' [ArgString (sig_Name c)])
       (an_Contributors (res_Anomaly result))
     @ [if ex_MatchedDefault (res_Explanation result)
        then Sprintf ''policy default: %s'' [ArgString (ex_Reason (res_Explanation result))]
        else Sprintf ''policy rule %q: %s''
          [ArgString (ex_RuleName (res_Explanation result)), ArgString (ex_Reason (res_Explanation result))]]"

definition Alert_New :: "8 word list \<Rightarrow> Result \<Rightarrow> Severity \<Rightarrow> Alert" where
  "Alert_New rnd16 result severity =
     \<lparr>al_ID = newRandomID rnd16 ''alt'', al_Timestamp = ev_Timestamp (res_Event result),
      al_Severity = severity, al_Decision = res_Decision result, al_Risk = tr_Risk (res_Trust result),
      al_TrustScore = tr_Score (res_Trust result), al_AnomalyScore = an_Score (res_Anomaly result),
      al_Actor = ev_Actor (res_Event result), al_Target = ev_Target (res_Event result),
      al_FingerprintID = fp_ID (res_Fingerprint result), al_Reasons = reasonsFromResult result,
      al_Metadata = fmempty\<rparr>"

definition PayloadVersion :: string where "PayloadVersion = ''1''"

record Envelope =
  env_Version :: string
  env_Alert :: Alert

definition NewEnvelope :: "Alert \<Rightarrow> Envelope" where
  "NewEnvelope a = \<lparr>env_Version = PayloadVersion, env_Alert = a\<rparr>"

record AlertCondition =
  ac_Decision :: Decision
  ac_MinRiskLevel :: RiskLevel
  ac_ActorType :: ActorType
  ac_TargetCategory :: TargetCategory
  ac_MinAnomalyScore :: f64
  ac_MaxTrustScore :: "f64 option"

definition AlertCondition_Matches :: "AlertCondition \<Rightarrow> Result \<Rightarrow> bool" where
  "AlertCondition_Matches c result =
     (if ac_Decision c \<noteq> '''' \<and> ac_Decision c \<noteq> res_Decision result then False
      else if ac_MinRiskLevel c \<noteq> ''''
              \<and> \<not> RiskLevel_AtLeast (tr_Risk (res_Trust result)) (ac_MinRiskLevel c) then False
      else if ac_ActorType c \<noteq> '''' \<and> ac_ActorType c \<noteq> actor_Type (ev_Actor (res_Event result)) then False
      else if ac_TargetCategory c \<noteq> ''''
              \<and> ac_TargetCategory c \<noteq> target_Category (ev_Target (res_Event result)) then False
      else if flt (an_Score (res_Anomaly result)) (ac_MinAnomalyScore c) then False
      else if (case ac_MaxTrustScore c of None \<Rightarrow> False | Some m \<Rightarrow> flt m (tr_Score (res_Trust result)))
        then False
      else True)"

record AlertRule =
  ar_Name :: string
  ar_When :: AlertCondition
  ar_Severity :: Severity

fun Alert_Evaluate :: "8 word list \<Rightarrow> Result \<Rightarrow> AlertRule list \<Rightarrow> Alert option" where
  "Alert_Evaluate rnd16 result [] = None"
| "Alert_Evaluate rnd16 result (r # rules) =
     (if AlertCondition_Matches (ar_When r) result then Some (Alert_New rnd16 result (ar_Severity r))
      else Alert_Evaluate rnd16 result rules)"

definition zeroCondition :: AlertCondition where
  "zeroCondition = \<lparr>ac_Decision = '''', ac_MinRiskLevel = '''', ac_ActorType = '''',
     ac_TargetCategory = '''', ac_MinAnomalyScore = f0, ac_MaxTrustScore = None\<rparr>"

subsection \<open>What a rule list produces\<close>

lemma Evaluate_find:
  "Alert_Evaluate rnd16 result rules =
     map_option (\<lambda>r. Alert_New rnd16 result (ar_Severity r))
       (find (\<lambda>r. AlertCondition_Matches (ar_When r) result) rules)"
  by (induction rules) auto

lemma AlertCondition_Matches_iff:
  "AlertCondition_Matches c result \<longleftrightarrow>
     (ac_Decision c = '''' \<or> ac_Decision c = res_Decision result) \<and>
     (ac_MinRiskLevel c = '''' \<or> RiskLevel_AtLeast (tr_Risk (res_Trust result)) (ac_MinRiskLevel c)) \<and>
     (ac_ActorType c = '''' \<or> ac_ActorType c = actor_Type (ev_Actor (res_Event result))) \<and>
     (ac_TargetCategory c = '''' \<or> ac_TargetCategory c = target_Category (ev_Target (res_Event result))) \<and>
     \<not> flt (an_Score (res_Anomaly result)) (ac_MinAnomalyScore c) \<and>
     \<not> (case ac_MaxTrustScore c of None \<Rightarrow> False | Some m \<Rightarrow> flt m (tr_Score (res_Trust result)))"
  by (simp only: AlertCondition_Matches_def guard_False de_Morgan_conj not_not simp_thms)

text \<open>An alert exists exactly when some rule matches; it carries the severity of
  the first matching rule and nothing of the later ones, and its decision, risk, scores and
  fingerprint are those of the result.\<close>

theorem alert_first_match:
  "(Alert_Evaluate rnd16 result rules = None \<longleftrightarrow>
      (\<exists>r \<in> set rules. AlertCondition_Matches (ar_When r) result) = False) \<and>
   (\<forall>a. Alert_Evaluate rnd16 result rules = Some a \<longrightarrow>
      (\<exists>pre r post. rules = pre @ r # post \<and>
         (\<forall>q \<in> set pre. \<not> AlertCondition_Matches (ar_When q) result) \<and>
         AlertCondition_Matches (ar_When r) result \<and> al_Severity a = ar_Severity r \<and>
         al_Decision a = res_Decision result \<and> al_Risk a = tr_Risk (res_Trust result) \<and>
         al_TrustScore a = tr_Score (res_Trust result) \<and>
         al_AnomalyScore a = an_Score (res_Anomaly result) \<and>
         al_FingerprintID a = fp_ID (res_Fingerprint result)))"
proof (intro conjI allI impI)
  show "Alert_Evaluate rnd16 result rules = None \<longleftrightarrow>
      (\<exists>r \<in> set rules. AlertCondition_Matches (ar_When r) result) = False"
    by (auto simp: Evaluate_find find_None_iff)
  fix a
  assume "Alert_Evaluate rnd16 result rules = Some a"
  then show "\<exists>pre r post. rules = pre @ r # post \<and>
         (\<forall>q \<in> set pre. \<not> AlertCondition_Matches (ar_When q) result) \<and>
         AlertCondition_Matches (ar_When r) result \<and> al_Severity a = ar_Severity r \<and>
         al_Decision a = res_Decision result \<and> al_Risk a = tr_Risk (res_Trust result) \<and>
         al_TrustScore a = tr_Score (res_Trust result) \<and>
         al_AnomalyScore a = an_Score (res_Anomaly result) \<and>
         al_FingerprintID a = fp_ID (res_Fingerprint result)"
  proof (induction rules)
    case (Cons r rules)
    show ?case
    proof (cases "AlertCondition_Matches (ar_When r) result")
      case True
      then show ?thesis using Cons.prems
        by (intro exI [of _ "[]"] exI [of _ r] exI [of _ rules]) (auto simp: Alert_New_def)
    next
      case False
      then obtain pre q post where "rules = pre @ q # post \<and>
         (\<forall>q \<in> set pre. \<not> AlertCondition_Matches (ar_When q) result) \<and>
         AlertCondition_Matches (ar_When q) result \<and> al_Severity a = ar_Severity q \<and>
         al_Decision a = res_Decision result \<and> al_Risk a = tr_Risk (res_Trust result) \<and>
         al_TrustScore a = tr_Score (res_Trust result) \<and>
         al_AnomalyScore a = an_Score (res_Anomaly result) \<and>
         al_FingerprintID a = fp_ID (res_Fingerprint result)"
        using Cons by auto
      with False show ?thesis by (intro exI [of _ "r # pre"] exI [of _ q] exI [of _ post]) auto
    qed
  qed simp
qed

text \<open>The zero value of every condition field means "do not care": a
  condition with all fields zero matches every result of an engine run, since an anomaly score is
  never below 0.\<close>

theorem zero_condition_matches_all:
  assumes "en_store e0 = NewInMemory" and "weights_ok (en_anomalyConfig e0)"
    and "e = engine_run log2 showf InMemory_Get InMemory_Observe e0 evs"
    and "Engine_Analyze log2 showf InMemory_Get e ev = Inr r"
  shows "AlertCondition_Matches zeroCondition r"
proof -
  have "mem.grown (en_store e)" unfolding assms(3)
    by (rule mem.run_grown) (simp add: assms(1) mem_grown_New)
  then have "in01 (an_Score (res_Anomaly r))"
    using assms by (intro mem.analysis_ranges [OF _ _ assms(4)]) (simp_all add: mem.run_config)
  then show ?thesis by (auto simp: AlertCondition_Matches_iff zeroCondition_def f0_def elim: in01E)
qed

end
