(* ===== verification/Decision_Record.thy ===== *)
theory Decision_Record
  imports Alert
begin

text \<open>
  The serialisable projection of a result (\<^verbatim>\<open>decision_record.go\<close>): every field is
  copied from the result, and an elapsed time travels as canonical decimal text, which the consumer
  parses back and refuses in any other spelling.
\<close>

record ContributorRecord =
  cr_Name :: string
  cr_Value :: f64
  cr_Weight :: f64
  cr_Detail :: detail

record DecisionRecord =
  dr_EventID :: string
  dr_Timestamp :: gotime
  dr_ActorID :: string
  dr_ActorType :: ActorType
  dr_IdentityConfidence :: f64
  dr_Environment :: string
  dr_Behavior :: StableFeatures
  dr_FingerprintID :: string
  dr_AnomalyScore :: f64
  dr_AnomalyConfidence :: f64
  dr_Contributors :: "ContributorRecord list"
  dr_TrustScore :: f64
  dr_RiskLevel :: string
  dr_ContextRisk :: f64
  dr_Decision :: string
  dr_PolicyRule :: string
  dr_PolicyReason :: string
  dr_MatchedDefault :: bool
  dr_TraceID :: string
  dr_SpanID :: string
  dr_SessionID :: string
  dr_DelegatedFrom :: string
  dr_ApprovalStatus :: ApprovalStatus
  dr_ParentSpanID :: string
  dr_SpanLineage :: SpanLineage
  dr_DurationNanos :: string
  dr_SpanStatus :: SpanStatus

subsection \<open>Decimal text\<close>

definition FormatUint10 :: "u64 \<Rightarrow> string" where
  "FormatUint10 w = dec_nat (unat w)"

definition dec_value :: "char \<Rightarrow> nat option" where
  "dec_value c =
     (let n = of_char c :: nat in if 48 \<le> n \<and> n \<le> 57 then Some (n - 48) else None)"

fun parse_digits :: "nat \<Rightarrow> string \<Rightarrow> nat option" where
  "parse_digits acc [] = Some acc"
| "parse_digits acc (c # cs) =
     (case dec_value c of None \<Rightarrow> None | Some d \<Rightarrow> parse_digits (10 * acc + d) cs)"

text \<open>\<^verbatim>\<open>strconv.ParseUint(s, 10, 64)\<close>: a syntax or range error is None.\<close>

definition ParseUint10 :: "string \<Rightarrow> u64 option" where
  "ParseUint10 s =
     (if s = '''' then None
      else case parse_digits 0 s of
        None \<Rightarrow> None
      | Some n \<Rightarrow> if n < 2 ^ 64 then Some (of_nat n) else None)"

datatype duration_error = NotCanonical string | ExceedsMaximum u64

definition ValidateDurationNanos :: "DecisionRecord \<Rightarrow> duration_error + u64" where
  "ValidateDurationNanos r =
     (if dr_DurationNanos r = '''' then Inr 0
      else case ParseUint10 (dr_DurationNanos r) of
        None \<Rightarrow> Inl (NotCanonical (dr_DurationNanos r))
      | Some v \<Rightarrow>
          if FormatUint10 v \<noteq> dr_DurationNanos r then Inl (NotCanonical (dr_DurationNanos r))
          else if MaxDurationNanos < v then Inl (ExceedsMaximum v)
          else Inr v)"

definition DurationNanosValue :: "DecisionRecord \<Rightarrow> u64 \<times> bool" where
  "DurationNanosValue r =
     (case ValidateDurationNanos r of
        Inl _ \<Rightarrow> (0, False)
      | Inr v \<Rightarrow> if dr_DurationNanos r = '''' then (0, False) else (v, True))"

definition Result_DecisionRecord :: "Result \<Rightarrow> DecisionRecord" where
  "Result_DecisionRecord r =
     \<lparr>dr_EventID = ev_ID (res_Event r), dr_Timestamp = ev_Timestamp (res_Event r),
      dr_ActorID = actor_ID (ev_Actor (res_Event r)), dr_ActorType = actor_Type (ev_Actor (res_Event r)),
      dr_IdentityConfidence = actor_IdentityConfidence (ev_Actor (res_Event r)),
      dr_Environment = key_Environment (res_BaselineKey r),
      dr_Behavior = publicStableFeatures (fp_Stable (res_Fingerprint r)),
      dr_FingerprintID = fp_ID (res_Fingerprint r),
      dr_AnomalyScore = an_Score (res_Anomaly r), dr_AnomalyConfidence = an_Confidence (res_Anomaly r),
      dr_Contributors =
        map (\<lambda>c. \<lparr>cr_Name = sig_Name c, cr_Value = sig_Value c, cr_Weight = sig_Weight c,
                  cr_Detail = sig_Detail c\<rparr>) (an_Contributors (res_Anomaly r)),
      dr_TrustScore = tr_Score (res_Trust r), dr_RiskLevel = tr_Risk (res_Trust r),
      dr_ContextRisk = tr_ContextRisk (res_Trust r), dr_Decision = res_Decision r,
      dr_PolicyRule = ex_RuleName (res_Explanation r), dr_PolicyReason = ex_Reason (res_Explanation r),
      dr_MatchedDefault = ex_MatchedDefault (res_Explanation r),
      dr_TraceID = ctx_TraceID (ev_Context (res_Event r)), dr_SpanID = ctx_SpanID (ev_Context (res_Event r)),
      dr_SessionID = ctx_SessionID (ev_Context (res_Event r)),
      dr_DelegatedFrom = ctx_DelegatedFrom (ev_Context (res_Event r)),
      dr_ApprovalStatus = ctx_ApprovalStatus (ev_Context (res_Event r)),
      dr_ParentSpanID = ctx_ParentSpanID (ev_Context (res_Event r)),
      dr_SpanLineage = ctx_SpanLineage (ev_Context (res_Event r)),
      dr_DurationNanos =
        (if ex_DurationObserved (ev_Execution (res_Event r))
         then FormatUint10 (ex_DurationNanos (ev_Execution (res_Event r))) else ''''),
      dr_SpanStatus = ex_Status (ev_Execution (res_Event r))\<rparr>"

subsection \<open>Printing and parsing are inverse\<close>

lemma dec_value_digit: "d < 10 \<Longrightarrow> dec_value (''0123456789'' ! d) = Some d"
proof -
  assume "d < 10"
  then have "d \<in> set [0..<10]" by simp
  moreover have "list_all (\<lambda>d. dec_value (''0123456789'' ! d) = Some d) [0..<10]" by code_simp
  ultimately show ?thesis by (simp add: list_all_iff del: set_upt)
qed

lemma parse_digits_append:
  "parse_digits acc (xs @ ys) = (case parse_digits acc xs of None \<Rightarrow> None | Some n \<Rightarrow> parse_digits n ys)"
  by (induction xs arbitrary: acc) (auto split: option.split)

lemma parse_dec_nat: "parse_digits 0 (dec_nat n) = Some n"
proof (induction n rule: dec_nat.induct)
  case (1 n)
  show ?case
    using 1 dec_value_digit [of n] dec_value_digit [of "n mod 10"]
    by (subst dec_nat.simps) (auto simp: parse_digits_append)
qed

lemma dec_nat_nonempty [simp]: "dec_nat n \<noteq> ''''"
  by (subst dec_nat.simps) simp

lemma ParseUint10_FormatUint10: "ParseUint10 (FormatUint10 w) = Some w"
proof -
  have "unat w < 2 ^ LENGTH(64)" by (rule unsigned_less)
  then have "unat w < 2 ^ 64" by simp
  then show ?thesis by (simp add: ParseUint10_def FormatUint10_def parse_dec_nat)
qed

lemma FormatUint10_nonempty [simp]: "FormatUint10 w \<noteq> ''''"
  by (simp add: FormatUint10_def)

text \<open>The accepted texts of an elapsed time are the empty one and exactly the
  canonical decimals of the counts up to the maximum, each read back as its own value.\<close>

theorem duration_text_canonical:
  "ValidateDurationNanos r = Inr v \<longleftrightarrow>
     dr_DurationNanos r = '''' \<and> v = 0 \<or> dr_DurationNanos r = FormatUint10 v \<and> v \<le> MaxDurationNanos"
proof
  assume "ValidateDurationNanos r = Inr v"
  then show "dr_DurationNanos r = '''' \<and> v = 0 \<or> dr_DurationNanos r = FormatUint10 v \<and> v \<le> MaxDurationNanos"
    by (auto simp: ValidateDurationNanos_def not_less split: option.splits if_splits)
next
  assume "dr_DurationNanos r = '''' \<and> v = 0 \<or> dr_DurationNanos r = FormatUint10 v \<and> v \<le> MaxDurationNanos"
  then show "ValidateDurationNanos r = Inr v"
  proof
    assume "dr_DurationNanos r = FormatUint10 v \<and> v \<le> MaxDurationNanos"
    then show ?thesis by (simp add: ValidateDurationNanos_def ParseUint10_FormatUint10 not_less)
  qed (simp add: ValidateDurationNanos_def)
qed

text \<open>The elapsed time of a validated event survives the projection: the record
  reads back the observed count, and an unobserved one reads back as unobserved.\<close>

theorem duration_roundtrip:
  assumes "Event_Validate (res_Event r) = None"
  shows "DurationNanosValue (Result_DecisionRecord r) =
    (if ex_DurationObserved (ev_Execution (res_Event r))
     then (ex_DurationNanos (ev_Execution (res_Event r)), True) else (0, False))"
proof -
  have "ex_DurationObserved (ev_Execution (res_Event r)) \<Longrightarrow>
      ex_DurationNanos (ev_Execution (res_Event r)) \<le> MaxDurationNanos"
    using assms by (auto simp: Event_Validate_def validate_iffs split: if_splits)
  then show ?thesis
    by (auto simp: DurationNanosValue_def ValidateDurationNanos_def Result_DecisionRecord_def
        ParseUint10_FormatUint10 not_less)
qed

end
