(* ===== verification/Platform_Domain.thy ===== *)
theory Platform_Domain
  imports Decision_Record
begin

text \<open>
  The control plane's domain (\<^verbatim>\<open>platform/domain.go\<close>): identifiers, the entities and the
  lifecycle of an evaluation run. A Go string is a list of bytes; \<open>runes\<close> is how ranging over
  it decodes UTF-8, an invalid byte giving the replacement character. An error keeps its sentinel,
  which is what callers branch on.
\<close>

datatype platform_error =
    ErrInvalidID | ErrInvalidName | ErrInvalidMetadata | ErrInvalidTransition | ErrInvalidTimestamp
  | ErrInvalidDecisionRecord | ErrEnvironmentMismatch | ErrAggregateOverflow | ErrUnboundAggregate
  | ErrInvalidScorecardEvidence | ErrScorecardEvidenceMismatch
  | ErrInvalidGatePolicy | ErrInvalidGateEvidence
  | ErrInvalidBehaviorRecord | ErrBehaviorEnvironmentMismatch | ErrFingerprintConflict | ErrBehaviorCapacity
  | ErrIncompleteSnapshot | ErrUnboundCollector | ErrBehaviorOverflow | ErrInvalidFidelityPair
  | ErrInvalidObservation | ErrObservationCursor | ErrFrequencyOverflow | ErrInvalidRepeatedRequest
  | ErrRepeatedIsolation | ErrStoreCorrupt | ErrStoreNotFound | ErrStoreAlreadyExists | ErrStoreConflict
  | ErrIngestSequence | ErrEvaluationState | ErrComparisonScope | ErrRunScope | ErrPromotionScope | ErrPromotionOrder
  | ErrScenarioReference | ErrScenarioExecutionState | ErrScenarioScope | ErrCostOverflow | ErrInvalidOperationalRequest
  | ErrInvalidFinding | ErrRealtimeCapacity | ErrRealtimeClosed | ErrEncoding
  | ErrEnvironmentLimit | ErrEnvironmentUnavailable

subsection \<open>UTF-8\<close>

definition cont :: "nat \<Rightarrow> bool" where "cont b = (128 \<le> b \<and> b \<le> 191)"

text \<open>The rune a valid sequence at the front encodes, with its width.\<close>

definition decode_rune :: "nat list \<Rightarrow> (nat \<times> nat) option" where
  "decode_rune bs =
     (case bs of
        [] \<Rightarrow> None
      | b0 # r0 \<Rightarrow>
          if b0 < 128 then Some (b0, 1)
          else case r0 of
            [] \<Rightarrow> None
          | b1 # r1 \<Rightarrow>
              if 194 \<le> b0 \<and> b0 \<le> 223
                then (if cont b1 then Some ((b0 - 192) * 64 + (b1 - 128), 2) else None)
              else case r1 of
                [] \<Rightarrow> None
              | b2 # r2 \<Rightarrow>
                  if 224 \<le> b0 \<and> b0 \<le> 239
                    then (if (if b0 = 224 then 160 \<le> b1 \<and> b1 \<le> 191
                              else if b0 = 237 then 128 \<le> b1 \<and> b1 \<le> 159 else cont b1) \<and> cont b2
                          then Some ((b0 - 224) * 4096 + (b1 - 128) * 64 + (b2 - 128), 3) else None)
                  else case r2 of
                    [] \<Rightarrow> None
                  | b3 # _ \<Rightarrow>
                      if 240 \<le> b0 \<and> b0 \<le> 244
                         \<and> (if b0 = 240 then 144 \<le> b1 \<and> b1 \<le> 191
                            else if b0 = 244 then 128 \<le> b1 \<and> b1 \<le> 143 else cont b1)
                         \<and> cont b2 \<and> cont b3
                      then Some ((b0 - 240) * 262144 + (b1 - 128) * 4096 + (b2 - 128) * 64 + (b3 - 128), 4)
                      else None)"

lemma decode_rune_pos: "decode_rune bs = Some (r, n) \<Longrightarrow> 0 < n \<and> bs \<noteq> []"
  by (auto simp: decode_rune_def split: list.splits if_splits)

function runes :: "nat list \<Rightarrow> (nat \<times> bool) list" where
  "runes bs =
     (if bs = [] then []
      else case decode_rune bs of
        Some (r, n) \<Rightarrow> (r, True) # runes (drop n bs)
      | None \<Rightarrow> (65533, False) # runes (tl bs))"
  by pat_completeness auto
termination
  by (relation "measure length") (auto dest: decode_rune_pos simp: neq_Nil_conv)

declare runes.simps [simp del]

definition bytes :: "string \<Rightarrow> nat list" where
  "bytes s = map of_char s"

definition ValidString :: "string \<Rightarrow> bool" where
  "ValidString s = list_all snd (runes (bytes s))"

definition IsSpace :: "nat \<Rightarrow> bool" where
  "IsSpace r = (9 \<le> r \<and> r \<le> 13 \<or> r = 32 \<or> r = 133 \<or> r = 160 \<or> r = 5760 \<or> 8192 \<le> r \<and> r \<le> 8202
     \<or> r = 8232 \<or> r = 8233 \<or> r = 8239 \<or> r = 8287 \<or> r = 12288)"

text \<open>\<^verbatim>\<open>strings.TrimSpace\<close>, as the runes it keeps.\<close>

definition TrimSpace :: "string \<Rightarrow> (nat \<times> bool) list" where
  "TrimSpace s = rev (dropWhile (IsSpace \<circ> fst) (rev (dropWhile (IsSpace \<circ> fst) (runes (bytes s)))))"

subsection \<open>Validation of text\<close>

definition maxIdentifierLength :: nat where "maxIdentifierLength = 256"

definition is_control :: "nat \<Rightarrow> bool" where
  "is_control r = (r < 32 \<or> r = 127 \<or> 128 \<le> r \<and> r \<le> 159)"

definition validateText :: "platform_error \<Rightarrow> string \<Rightarrow> platform_error option" where
  "validateText kind v =
     (if maxIdentifierLength < length v then Some kind
      else if \<not> ValidString v then Some kind
      else if list_ex (is_control \<circ> fst) (runes (bytes v)) then Some kind
      else None)"

definition validateID :: "string \<Rightarrow> platform_error option" where
  "validateID v =
     (if v = '''' then Some ErrInvalidID
      else orElse (validateText ErrInvalidID v)
        (if TrimSpace v \<noteq> runes (bytes v) then Some ErrInvalidID else None))"

definition validateName :: "string \<Rightarrow> platform_error option" where
  "validateName v = (if TrimSpace v = [] then Some ErrInvalidName else validateText ErrInvalidName v)"

subsection \<open>Entities\<close>

type_synonym EvaluationRunID = string
type_synonym CandidateID = string
type_synonym EnvironmentRef = string
type_synonym BehavioralProfileRef = string

record Project =
  proj_id :: string
  proj_name :: string

definition NewProject :: "string \<Rightarrow> string \<Rightarrow> platform_error + Project" where
  "NewProject i n =
     (case orElse (validateID i) (validateName n) of
        Some e \<Rightarrow> Inl e | None \<Rightarrow> Inr \<lparr>proj_id = i, proj_name = n\<rparr>)"

record Agent =
  agent_id :: string
  agent_projectID :: string
  agent_name :: string

definition NewAgent :: "string \<Rightarrow> string \<Rightarrow> string \<Rightarrow> platform_error + Agent" where
  "NewAgent i p n =
     (case orElse (validateID i) (orElse (validateID p) (validateName n)) of
        Some e \<Rightarrow> Inl e | None \<Rightarrow> Inr \<lparr>agent_id = i, agent_projectID = p, agent_name = n\<rparr>)"

record CandidateMetadata =
  cm_Label :: string
  cm_SourceRef :: string
  cm_ArtifactDigest :: string
  cm_Model :: string
  cm_ToolsetDigest :: string
  cm_ConfigDigest :: string

fun first_error :: "platform_error option list \<Rightarrow> platform_error option" where
  "first_error [] = None"
| "first_error (x # xs) = (case x of Some e \<Rightarrow> Some e | None \<Rightarrow> first_error xs)"

definition CandidateMetadata_validate :: "CandidateMetadata \<Rightarrow> platform_error option" where
  "CandidateMetadata_validate m =
     first_error (map (\<lambda>v. if v = '''' then None else validateText ErrInvalidMetadata v)
       [cm_Label m, cm_SourceRef m, cm_ArtifactDigest m, cm_Model m, cm_ToolsetDigest m, cm_ConfigDigest m])"

record Candidate =
  cand_id :: CandidateID
  cand_agentID :: string
  cand_metadata :: CandidateMetadata

definition NewCandidate :: "CandidateID \<Rightarrow> string \<Rightarrow> CandidateMetadata \<Rightarrow> platform_error + Candidate" where
  "NewCandidate i a meta =
     (case orElse (validateID i) (orElse (validateID a) (CandidateMetadata_validate meta)) of
        Some e \<Rightarrow> Inl e | None \<Rightarrow> Inr \<lparr>cand_id = i, cand_agentID = a, cand_metadata = meta\<rparr>)"

subsection \<open>Evaluation runs\<close>

type_synonym RunStatus = string

definition RunPending :: RunStatus where "RunPending = ''pending''"
definition RunRunning :: RunStatus where "RunRunning = ''running''"
definition RunCompleted :: RunStatus where "RunCompleted = ''completed''"
definition RunFailed :: RunStatus where "RunFailed = ''failed''"
definition RunCancelled :: RunStatus where "RunCancelled = ''cancelled''"

lemmas run_status_defs = RunPending_def RunRunning_def RunCompleted_def RunFailed_def RunCancelled_def

definition RunStatus_IsTerminal :: "RunStatus \<Rightarrow> bool" where
  "RunStatus_IsTerminal s = List.member [RunCompleted, RunFailed, RunCancelled] s"

definition RunStatus_valid :: "RunStatus \<Rightarrow> bool" where
  "RunStatus_valid s = List.member [RunPending, RunRunning, RunCompleted, RunFailed, RunCancelled] s"

record EvaluationRun =
  run_id :: EvaluationRunID
  run_candidateID :: CandidateID
  run_environment :: EnvironmentRef
  run_profile :: BehavioralProfileRef
  run_status :: RunStatus
  run_createdAt :: gotime
  run_startedAt :: gotime
  run_finishedAt :: gotime
  run_failureReason :: string

definition NewEvaluationRun ::
  "EvaluationRunID \<Rightarrow> CandidateID \<Rightarrow> EnvironmentRef \<Rightarrow> BehavioralProfileRef \<Rightarrow> gotime \<Rightarrow>
   platform_error + EvaluationRun" where
  "NewEvaluationRun i c env profile createdAt =
     (case orElse (validateID i) (orElse (validateID c) (orElse (validateID env) (validateID profile))) of
        Some e \<Rightarrow> Inl e
      | None \<Rightarrow>
          if Time_IsZero createdAt then Inl ErrInvalidTimestamp
          else Inr \<lparr>run_id = i, run_candidateID = c, run_environment = env, run_profile = profile,
                    run_status = RunPending, run_createdAt = createdAt, run_startedAt = zeroTime,
                    run_finishedAt = zeroTime, run_failureReason = ''''\<rparr>)"

definition transitionAllowed :: "EvaluationRun \<Rightarrow> RunStatus \<Rightarrow> platform_error option" where
  "transitionAllowed r to =
     (if \<not> RunStatus_valid (run_status r) then Some ErrInvalidTransition
      else if RunStatus_IsTerminal (run_status r) then Some ErrInvalidTransition
      else let allowed =
             (if run_status r = RunPending then to = RunRunning \<or> to = RunCancelled
              else if run_status r = RunRunning then to = RunCompleted \<or> to = RunFailed \<or> to = RunCancelled
              else False)
           in if \<not> allowed then Some ErrInvalidTransition else None)"

definition notBefore :: "gotime \<Rightarrow> gotime \<Rightarrow> platform_error option" where
  "notBefore ts than =
     (if Time_IsZero ts then Some ErrInvalidTimestamp
      else if Time_Before ts than then Some ErrInvalidTimestamp
      else None)"

definition EvaluationRun_Start :: "EvaluationRun \<Rightarrow> gotime \<Rightarrow> EvaluationRun \<times> platform_error option" where
  "EvaluationRun_Start r ts =
     (case orElse (transitionAllowed r RunRunning) (notBefore ts (run_createdAt r)) of
        Some e \<Rightarrow> (r, Some e)
      | None \<Rightarrow> (r\<lparr>run_status := RunRunning, run_startedAt := ts\<rparr>, None))"

definition EvaluationRun_finish ::
  "EvaluationRun \<Rightarrow> RunStatus \<Rightarrow> gotime \<Rightarrow> string \<Rightarrow> EvaluationRun \<times> platform_error option" where
  "EvaluationRun_finish r to ts reason =
     (let after = (if Time_IsZero (run_startedAt r) then run_createdAt r else run_startedAt r)
      in case orElse (transitionAllowed r to)
               (orElse (if reason \<noteq> '''' then validateText ErrInvalidMetadata reason else None)
                  (notBefore ts after)) of
           Some e \<Rightarrow> (r, Some e)
         | None \<Rightarrow> (r\<lparr>run_status := to, run_finishedAt := ts, run_failureReason := reason\<rparr>, None))"

definition EvaluationRun_Complete :: "EvaluationRun \<Rightarrow> gotime \<Rightarrow> EvaluationRun \<times> platform_error option" where
  "EvaluationRun_Complete r ts = EvaluationRun_finish r RunCompleted ts ''''"

definition EvaluationRun_Fail :: "EvaluationRun \<Rightarrow> gotime \<Rightarrow> string \<Rightarrow> EvaluationRun \<times> platform_error option" where
  "EvaluationRun_Fail r ts reason = EvaluationRun_finish r RunFailed ts reason"

definition EvaluationRun_Cancel :: "EvaluationRun \<Rightarrow> gotime \<Rightarrow> EvaluationRun \<times> platform_error option" where
  "EvaluationRun_Cancel r ts = EvaluationRun_finish r RunCancelled ts ''''"

subsection \<open>The lifecycle as a step relation\<close>

inductive run_step :: "EvaluationRun \<Rightarrow> EvaluationRun \<Rightarrow> bool" where
  start: "EvaluationRun_Start r ts = (r', None) \<Longrightarrow> run_step r r'"
| complete: "EvaluationRun_Complete r ts = (r', None) \<Longrightarrow> run_step r r'"
| fail: "EvaluationRun_Fail r ts reason = (r', None) \<Longrightarrow> run_step r r'"
| cancel: "EvaluationRun_Cancel r ts = (r', None) \<Longrightarrow> run_step r r'"

inductive run_reach :: "EvaluationRun \<Rightarrow> bool" where
  new: "NewEvaluationRun i c env profile ts = Inr r \<Longrightarrow> run_reach r"
| step: "run_reach r \<Longrightarrow> run_step r r' \<Longrightarrow> run_reach r'"

lemma status_distinct [simp]:
  "RunPending \<noteq> RunRunning" "RunPending \<noteq> RunCompleted" "RunPending \<noteq> RunFailed" "RunPending \<noteq> RunCancelled"
  "RunRunning \<noteq> RunPending" "RunRunning \<noteq> RunCompleted" "RunRunning \<noteq> RunFailed" "RunRunning \<noteq> RunCancelled"
  "RunCompleted \<noteq> RunPending" "RunCompleted \<noteq> RunRunning" "RunCompleted \<noteq> RunFailed" "RunCompleted \<noteq> RunCancelled"
  "RunFailed \<noteq> RunPending" "RunFailed \<noteq> RunRunning" "RunFailed \<noteq> RunCompleted" "RunFailed \<noteq> RunCancelled"
  "RunCancelled \<noteq> RunPending" "RunCancelled \<noteq> RunRunning" "RunCancelled \<noteq> RunCompleted" "RunCancelled \<noteq> RunFailed"
  by (simp_all add: run_status_defs)

lemma transitionAllowed_None_iff:
  "transitionAllowed r to = None \<longleftrightarrow>
     run_status r = RunPending \<and> (to = RunRunning \<or> to = RunCancelled) \<or>
     run_status r = RunRunning \<and> (to = RunCompleted \<or> to = RunFailed \<or> to = RunCancelled)"
  by (auto simp: transitionAllowed_def RunStatus_valid_def RunStatus_IsTerminal_def Let_def)

lemma notBefore_None_iff: "notBefore ts than = None \<longleftrightarrow> t_ns ts \<noteq> 0 \<and> t_ns than \<le> t_ns ts"
  by (auto simp: notBefore_def time_order)

definition same_identity :: "EvaluationRun \<Rightarrow> EvaluationRun \<Rightarrow> bool" where
  "same_identity r r' \<longleftrightarrow> run_id r' = run_id r \<and> run_candidateID r' = run_candidateID r \<and>
     run_environment r' = run_environment r \<and> run_profile r' = run_profile r \<and> run_createdAt r' = run_createdAt r"

lemma guarded_None_iff:
  "(case x of Some e \<Rightarrow> (r, Some e) | None \<Rightarrow> (r2, None)) = (r', None) \<longleftrightarrow> x = None \<and> r' = r2"
  by (cases x) auto

lemma guarded_Some:
  "snd (case x of Some e \<Rightarrow> (r, Some e) | None \<Rightarrow> (r2, None)) \<noteq> None \<Longrightarrow>
   fst (case x of Some e \<Rightarrow> (r, Some e) | None \<Rightarrow> (r2, None)) = r"
  by (cases x) auto

lemma Start_None_iff:
  "EvaluationRun_Start r ts = (r', None) \<longleftrightarrow>
     run_status r = RunPending \<and> t_ns ts \<noteq> 0 \<and> t_ns (run_createdAt r) \<le> t_ns ts \<and>
     r' = r\<lparr>run_status := RunRunning, run_startedAt := ts\<rparr>"
  unfolding EvaluationRun_Start_def guarded_None_iff orElse_None_iff transitionAllowed_None_iff notBefore_None_iff
  by auto

lemma finish_None_iff:
  "EvaluationRun_finish r to ts reason = (r', None) \<longleftrightarrow>
     transitionAllowed r to = None \<and> (reason \<noteq> '''' \<longrightarrow> validateText ErrInvalidMetadata reason = None) \<and>
     t_ns ts \<noteq> 0 \<and>
     t_ns (if Time_IsZero (run_startedAt r) then run_createdAt r else run_startedAt r) \<le> t_ns ts \<and>
     r' = r\<lparr>run_status := to, run_finishedAt := ts, run_failureReason := reason\<rparr>"
  unfolding EvaluationRun_finish_def Let_def guarded_None_iff orElse_None_iff notBefore_None_iff
  by (cases "reason = ''''") (simp_all only: simp_thms if_True if_False conj_assoc)

lemmas run_step_iffs = Start_None_iff finish_None_iff EvaluationRun_Complete_def EvaluationRun_Fail_def
  EvaluationRun_Cancel_def transitionAllowed_None_iff

definition run_ok :: "EvaluationRun \<Rightarrow> bool" where
  "run_ok r \<longleftrightarrow> RunStatus_valid (run_status r) \<and> t_ns (run_createdAt r) \<noteq> 0 \<and>
     (run_status r = RunPending \<longrightarrow> t_ns (run_startedAt r) = 0 \<and> t_ns (run_finishedAt r) = 0) \<and>
     (run_status r = RunRunning \<longrightarrow> t_ns (run_startedAt r) \<noteq> 0 \<and> t_ns (run_finishedAt r) = 0) \<and>
     (run_status r = RunCompleted \<or> run_status r = RunFailed \<longrightarrow> t_ns (run_startedAt r) \<noteq> 0) \<and>
     (t_ns (run_startedAt r) \<noteq> 0 \<longrightarrow> t_ns (run_createdAt r) \<le> t_ns (run_startedAt r)) \<and>
     (RunStatus_IsTerminal (run_status r) \<longrightarrow> t_ns (run_finishedAt r) \<noteq> 0 \<and>
        t_ns (run_createdAt r) \<le> t_ns (run_finishedAt r) \<and>
        (t_ns (run_startedAt r) \<noteq> 0 \<longrightarrow> t_ns (run_startedAt r) \<le> t_ns (run_finishedAt r))) \<and>
     (run_failureReason r \<noteq> '''' \<longrightarrow> run_status r = RunFailed)"

lemma IsTerminal_simps [simp]:
  "\<not> RunStatus_IsTerminal RunPending" "\<not> RunStatus_IsTerminal RunRunning"
  "RunStatus_IsTerminal RunCompleted" "RunStatus_IsTerminal RunFailed" "RunStatus_IsTerminal RunCancelled"
  by (simp_all add: RunStatus_IsTerminal_def)

lemma valid_simps [simp]:
  "RunStatus_valid RunPending" "RunStatus_valid RunRunning" "RunStatus_valid RunCompleted"
  "RunStatus_valid RunFailed" "RunStatus_valid RunCancelled"
  by (simp_all add: RunStatus_valid_def)

lemma run_ok_step: "run_ok r \<Longrightarrow> run_step r r' \<Longrightarrow> run_ok r'"
  by (erule run_step.cases) (auto simp: run_step_iffs run_ok_def Time_IsZero_def split: if_splits)

lemma run_ok_new: "NewEvaluationRun i c env profile ts = Inr r \<Longrightarrow> run_ok r"
  by (auto simp: NewEvaluationRun_def run_ok_def Time_IsZero_def zeroTime_def split: option.splits if_splits)

lemma run_ok_reach: "run_reach r \<Longrightarrow> run_ok r"
  by (induction rule: run_reach.induct) (auto intro: run_ok_new run_ok_step)

text \<open>A run that came from the constructor and any sequence of transitions is in a
  known state with ordered timestamps: created, then started, then finished, each present exactly
  when its state has been reached; only a failed run carries a failure reason.\<close>

theorem run_lifecycle_invariant:
  assumes "run_reach r"
  shows "RunStatus_valid (run_status r) \<and> t_ns (run_createdAt r) \<noteq> 0 \<and>
    (run_status r = RunPending \<longrightarrow> t_ns (run_startedAt r) = 0) \<and>
    (run_status r \<in> {RunRunning, RunCompleted, RunFailed} \<longrightarrow>
       t_ns (run_startedAt r) \<noteq> 0 \<and> t_ns (run_createdAt r) \<le> t_ns (run_startedAt r)) \<and>
    (RunStatus_IsTerminal (run_status r) \<longleftrightarrow> t_ns (run_finishedAt r) \<noteq> 0) \<and>
    (RunStatus_IsTerminal (run_status r) \<longrightarrow> t_ns (run_createdAt r) \<le> t_ns (run_finishedAt r) \<and>
       (t_ns (run_startedAt r) \<noteq> 0 \<longrightarrow> t_ns (run_startedAt r) \<le> t_ns (run_finishedAt r))) \<and>
    (run_failureReason r \<noteq> '''' \<longrightarrow> run_status r = RunFailed)"
  using run_ok_reach [OF assms] by (auto simp: run_ok_def RunStatus_valid_def)

text \<open>A terminal run never transitions again, whatever the call; a transition that is
  refused returns the run unchanged, and one that succeeds keeps every identity of the run.\<close>

theorem run_terminal_is_final:
  "(RunStatus_IsTerminal (run_status r) \<longrightarrow>
      EvaluationRun_Start r ts = (r, Some ErrInvalidTransition) \<and>
      EvaluationRun_Complete r ts = (r, Some ErrInvalidTransition) \<and>
      EvaluationRun_Fail r ts reason = (r, Some ErrInvalidTransition) \<and>
      EvaluationRun_Cancel r ts = (r, Some ErrInvalidTransition)) \<and>
   (snd (EvaluationRun_finish r to ts reason) \<noteq> None \<longrightarrow> fst (EvaluationRun_finish r to ts reason) = r) \<and>
   (run_step r r' \<longrightarrow> same_identity r r')"
proof (intro conjI impI)
  assume t: "RunStatus_IsTerminal (run_status r)"
  then have e: "transitionAllowed r to = Some ErrInvalidTransition" for to by (simp add: transitionAllowed_def)
  show "EvaluationRun_Start r ts = (r, Some ErrInvalidTransition)"
    "EvaluationRun_Complete r ts = (r, Some ErrInvalidTransition)"
    "EvaluationRun_Fail r ts reason = (r, Some ErrInvalidTransition)"
    "EvaluationRun_Cancel r ts = (r, Some ErrInvalidTransition)"
    unfolding EvaluationRun_Start_def EvaluationRun_Complete_def EvaluationRun_Fail_def
      EvaluationRun_Cancel_def EvaluationRun_finish_def Let_def orElse_def e by simp_all
next
  show "fst (EvaluationRun_finish r to ts reason) = r" if "snd (EvaluationRun_finish r to ts reason) \<noteq> None"
    using that unfolding EvaluationRun_finish_def Let_def by (rule guarded_Some)
next
  assume "run_step r r'"
  then show "same_identity r r'"
    by cases (auto simp: same_identity_def run_step_iffs)
qed

end
