(* ===== verification/Platform_Operational.thy ===== *)
theory Platform_Operational
  imports Platform_Domain
begin

text \<open>
  Operational evidence of a run (\<^verbatim>\<open>platform/operational.go\<close>, and
  \<^verbatim>\<open>sumNoOverflow\<close> of \<^verbatim>\<open>platform/sqlite.go\<close>): the duration summary, the
  status counters, and the validation of stored summaries. The theorem of this theory is that the
  validation is exact: it accepts a stored summary precisely when some sequence of observations
  produces it.
\<close>

definition MaxUint64 :: u64 where "MaxUint64 = - 1"

record DurationSummary =
  du_Count :: u64
  du_Unobserved :: u64
  du_Sum :: u64
  du_Min :: u64
  du_Max :: u64

definition zeroDurations :: DurationSummary where
  "zeroDurations = \<lparr>du_Count = 0, du_Unobserved = 0, du_Sum = 0, du_Min = 0, du_Max = 0\<rparr>"

definition DurationSummary_Mean :: "DurationSummary \<Rightarrow> u64 \<times> bool" where
  "DurationSummary_Mean s = (if du_Count s = 0 then (0, False) else (du_Sum s div du_Count s, True))"

definition DurationSummary_observe :: "DurationSummary \<Rightarrow> u64 \<Rightarrow> platform_error + DurationSummary" where
  "DurationSummary_observe s nanos =
     (if du_Count s = MaxUint64 then Inl ErrAggregateOverflow
      else if MaxUint64 - nanos < du_Sum s then Inl ErrAggregateOverflow
      else if du_Count s = 0
        then Inr \<lparr>du_Count = 1, du_Unobserved = du_Unobserved s, du_Sum = nanos, du_Min = nanos, du_Max = nanos\<rparr>
      else Inr (s\<lparr>du_Count := du_Count s + 1, du_Sum := du_Sum s + nanos,
                 du_Min := min (du_Min s) nanos, du_Max := max (du_Max s) nanos\<rparr>))"

definition DurationSummary_skip :: "DurationSummary \<Rightarrow> platform_error + DurationSummary" where
  "DurationSummary_skip s =
     (if du_Unobserved s = MaxUint64 then Inl ErrAggregateOverflow
      else Inr (s\<lparr>du_Unobserved := du_Unobserved s + 1\<rparr>))"

record SpanStatusCounts =
  sc_Unavailable :: u64
  sc_Unset :: u64
  sc_OK :: u64
  sc_Error :: u64

definition zeroStatuses :: SpanStatusCounts where
  "zeroStatuses = \<lparr>sc_Unavailable = 0, sc_Unset = 0, sc_OK = 0, sc_Error = 0\<rparr>"

definition SpanStatusCounts_Total :: "SpanStatusCounts \<Rightarrow> u64" where
  "SpanStatusCounts_Total c = sc_Unavailable c + sc_Unset c + sc_OK c + sc_Error c"

definition SpanStatusCounts_Stated :: "SpanStatusCounts \<Rightarrow> u64" where
  "SpanStatusCounts_Stated c = sc_OK c + sc_Error c"

definition SpanStatusCounts_count :: "SpanStatusCounts \<Rightarrow> SpanStatus \<Rightarrow> platform_error + SpanStatusCounts" where
  "SpanStatusCounts_count c status =
     (if status = ''''
        then (if sc_Unavailable c = MaxUint64 then Inl ErrAggregateOverflow
              else Inr (c\<lparr>sc_Unavailable := sc_Unavailable c + 1\<rparr>))
      else if status = ''unset''
        then (if sc_Unset c = MaxUint64 then Inl ErrAggregateOverflow
              else Inr (c\<lparr>sc_Unset := sc_Unset c + 1\<rparr>))
      else if status = ''ok''
        then (if sc_OK c = MaxUint64 then Inl ErrAggregateOverflow
              else Inr (c\<lparr>sc_OK := sc_OK c + 1\<rparr>))
      else if status = ''error''
        then (if sc_Error c = MaxUint64 then Inl ErrAggregateOverflow
              else Inr (c\<lparr>sc_Error := sc_Error c + 1\<rparr>))
      else Inl ErrInvalidDecisionRecord)"

definition observeOperational ::
  "DurationSummary \<Rightarrow> SpanStatusCounts \<Rightarrow> DecisionRecord \<Rightarrow> platform_error + DurationSummary \<times> SpanStatusCounts" where
  "observeOperational durations statuses r =
     (case ValidateDurationNanos r of
        Inl _ \<Rightarrow> Inl ErrInvalidDecisionRecord
      | Inr nanos \<Rightarrow>
          (case (if dr_DurationNanos r \<noteq> '''' then DurationSummary_observe durations nanos
                 else DurationSummary_skip durations) of
             Inl e \<Rightarrow> Inl e
           | Inr durations' \<Rightarrow>
               (case SpanStatusCounts_count statuses (dr_SpanStatus r) of
                  Inl e \<Rightarrow> Inl e
                | Inr statuses' \<Rightarrow> Inr (durations', statuses'))))"

fun sumNoOverflow_from :: "u64 \<Rightarrow> u64 list \<Rightarrow> u64 option" where
  "sumNoOverflow_from t [] = Some t"
| "sumNoOverflow_from t (p # ps) =
     (if MaxUint64 - p < t then None else sumNoOverflow_from (t + p) ps)"

definition sumNoOverflow :: "u64 list \<Rightarrow> u64 option" where
  "sumNoOverflow parts = sumNoOverflow_from 0 parts"

definition addMulNoOverflow :: "u64 \<Rightarrow> u64 \<Rightarrow> u64 \<Rightarrow> u64 \<times> bool" where
  "addMulNoOverflow base factor v =
     (if v \<noteq> 0 \<and> MaxUint64 div v < factor then (0, False)
      else let product = factor * v in
        if MaxUint64 - base < product then (0, False) else (base + product, True))"

datatype restore_error =
    DurationCountsOverflow | DurationCountsTotal | StatusCountsOverflow | StatusCountsTotal
  | StatisticsWithoutCount | MinExceedsMax | MaxExceedsBound | SingleDisagrees | NoRepresentableSum
  | SumBelow u64 | SumAbove u64

definition validateRestoredOperational ::
  "DurationSummary \<Rightarrow> SpanStatusCounts \<Rightarrow> u64 \<Rightarrow> restore_error option" where
  "validateRestoredOperational d c records =
     (case sumNoOverflow [du_Count d, du_Unobserved d] of
        None \<Rightarrow> Some DurationCountsOverflow
      | Some durationTotal \<Rightarrow>
          if durationTotal \<noteq> records then Some DurationCountsTotal
          else case sumNoOverflow [sc_Unavailable c, sc_Unset c, sc_OK c, sc_Error c] of
            None \<Rightarrow> Some StatusCountsOverflow
          | Some statusTotal \<Rightarrow>
              if statusTotal \<noteq> records then Some StatusCountsTotal
              else if du_Count d = 0
                then (if du_Sum d \<noteq> 0 \<or> du_Min d \<noteq> 0 \<or> du_Max d \<noteq> 0 then Some StatisticsWithoutCount else None)
              else if du_Max d < du_Min d then Some MinExceedsMax
              else if MaxDurationNanos < du_Max d then Some MaxExceedsBound
              else if du_Count d = 1
                then (if du_Min d \<noteq> du_Max d \<or> du_Sum d \<noteq> du_Min d then Some SingleDisagrees else None)
              else let others = du_Count d - 1; (lower, ok) = addMulNoOverflow (du_Max d) others (du_Min d) in
                if \<not> ok then Some NoRepresentableSum
                else if du_Sum d < lower then Some (SumBelow lower)
                else let (upper, ok2) = addMulNoOverflow (du_Min d) others (du_Max d) in
                  if ok2 \<and> upper < du_Sum d then Some (SumAbove upper) else None)"

subsection \<open>Words as numbers\<close>

lemma unat_MaxUint64: "unat MaxUint64 = 2 ^ 64 - 1"
  by (simp add: MaxUint64_def unsigned_minus_1_eq_mask mask_eq_exp_minus_1)

lemma unat_less_2p64: "unat (x :: u64) < 2 ^ 64"
proof -
  have "unat x < 2 ^ LENGTH(64)" by (rule unsigned_less)
  then show ?thesis by simp
qed

lemma unat_Max_minus: "unat (MaxUint64 - x) = 2 ^ 64 - 1 - unat x"
  using unat_sub [of x MaxUint64] unat_less_2p64 [of x]
  by (simp add: word_le_nat_alt unat_MaxUint64)

lemma Max_minus_less: "MaxUint64 - x < y \<longleftrightarrow> 2 ^ 64 \<le> unat x + unat y"
  using unat_less_2p64 [of x] by (auto simp: word_less_nat_alt unat_Max_minus)

lemma unat_plus_small: "unat x + unat y < 2 ^ 64 \<Longrightarrow> unat (x + y :: u64) = unat x + unat y"
  by (simp add: unat_word_ariths)

lemma unat_mult_small: "unat x * unat y < 2 ^ 64 \<Longrightarrow> unat (x * y :: u64) = unat x * unat y"
  by (simp add: unat_word_ariths)

lemma eq_MaxUint64: "x = MaxUint64 \<longleftrightarrow> unat x = 2 ^ 64 - 1"
  by (metis unat_MaxUint64 word_unat_eq_iff)

lemma unat_Suc_small: "x \<noteq> MaxUint64 \<Longrightarrow> unat (x + 1) = Suc (unat x)"
  using unat_less_2p64 [of x] by (intro unat_inc64) (auto simp: eq_MaxUint64)

lemma sumNoOverflow_from_Some:
  "sumNoOverflow_from t ps = Some r \<longleftrightarrow> unat r = unat t + sum_list (map unat ps)"
proof (induction ps arbitrary: t)
  case Nil
  show ?case by (auto simp: word_unat_eq_iff)
next
  case (Cons p ps)
  show ?case
  proof (cases "unat p + unat t < 2 ^ 64")
    case True
    then have "unat (t + p) = unat t + unat p" by (intro unat_plus_small) simp
    then show ?thesis using True Cons.IH [of "t + p"] by (simp add: Max_minus_less add.assoc)
  next
    case False
    then show ?thesis using unat_less_2p64 [of r] by (auto simp: Max_minus_less)
  qed
qed

lemma sumNoOverflow_Some: "sumNoOverflow ps = Some r \<longleftrightarrow> unat r = sum_list (map unat ps)"
  by (simp add: sumNoOverflow_def sumNoOverflow_from_Some)

lemma addMulNoOverflow_iff:
  "addMulNoOverflow base factor v =
     (if unat base + unat factor * unat v < 2 ^ 64 then (base + factor * v, True) else (0, False))"
proof (cases "unat factor * unat v < 2 ^ 64")
  case True
  then have p: "unat (factor * v) = unat factor * unat v" by (rule unat_mult_small)
  have "\<not> (v \<noteq> 0 \<and> MaxUint64 div v < factor)"
  proof
    assume a: "v \<noteq> 0 \<and> MaxUint64 div v < factor"
    then have v: "0 < unat v" by (simp add: unat_gt_0)
    have "(2 ^ 64 - 1) div unat v < unat factor"
      using a by (simp add: word_less_nat_alt unat_div unat_MaxUint64)
    then have "2 ^ 64 - 1 < unat factor * unat v" using v by (simp add: div_less_iff_less_mult)
    with True show False by simp
  qed
  then show ?thesis using p by (auto simp: addMulNoOverflow_def Let_def Max_minus_less)
next
  case False
  then have v: "v \<noteq> 0" "0 < unat v" by (auto simp: unat_gt_0)
  have "2 ^ 64 - 1 < unat factor * unat v" using False by simp
  then have "(2 ^ 64 - 1) div unat v < unat factor" using v by (simp add: div_less_iff_less_mult)
  then have "MaxUint64 div v < factor" by (simp add: word_less_nat_alt unat_div unat_MaxUint64)
  then show ?thesis using False v by (simp add: addMulNoOverflow_def)
qed

subsection \<open>What a sequence of observations produces\<close>

text \<open>The duration of one record is measured or absent.\<close>

fun fold_durations :: "DurationSummary \<Rightarrow> u64 option list \<Rightarrow> platform_error + DurationSummary" where
  "fold_durations s [] = Inr s"
| "fold_durations s (x # xs) =
     (case (case x of Some d \<Rightarrow> DurationSummary_observe s d | None \<Rightarrow> DurationSummary_skip s) of
        Inl e \<Rightarrow> Inl e | Inr s' \<Rightarrow> fold_durations s' xs)"

fun fold_statuses :: "SpanStatusCounts \<Rightarrow> SpanStatus list \<Rightarrow> platform_error + SpanStatusCounts" where
  "fold_statuses c [] = Inr c"
| "fold_statuses c (x # xs) =
     (case SpanStatusCounts_count c x of Inl e \<Rightarrow> Inl e | Inr c' \<Rightarrow> fold_statuses c' xs)"

text \<open>\<open>dur_rep s vs u\<close>: the summary of the measured values \<open>vs\<close> and \<open>u\<close> absent ones.\<close>

definition dur_rep :: "DurationSummary \<Rightarrow> u64 list \<Rightarrow> nat \<Rightarrow> bool" where
  "dur_rep s vs u \<longleftrightarrow> unat (du_Count s) = length vs \<and> unat (du_Unobserved s) = u \<and>
     unat (du_Sum s) = sum_list (map unat vs) \<and>
     (if vs = [] then du_Min s = 0 \<and> du_Max s = 0
      else du_Min s = Min (set vs) \<and> du_Max s = Max (set vs))"

lemma dur_rep_zero: "dur_rep zeroDurations [] 0"
  by (simp add: dur_rep_def zeroDurations_def)

lemma dur_rep_unique: "dur_rep s vs u \<Longrightarrow> dur_rep t vs u \<Longrightarrow> s = t"
  by (cases s; cases t) (auto simp: dur_rep_def word_unat_eq_iff split: if_splits)

lemma observe_rep:
  assumes "dur_rep s vs u"
  shows "DurationSummary_observe s d = Inr s' \<longleftrightarrow> dur_rep s' (vs @ [d]) u"
proof (cases "length vs < 2 ^ 64 - 1 \<and> sum_list (map unat vs) + unat d < 2 ^ 64")
  case True
  have c: "du_Count s \<noteq> MaxUint64" using True assms by (auto simp: dur_rep_def eq_MaxUint64)
  have sm: "\<not> MaxUint64 - d < du_Sum s" using True assms by (simp add: Max_minus_less dur_rep_def)
  have sum: "unat (du_Sum s + d) = sum_list (map unat vs) + unat d"
    using True assms by (subst unat_plus_small) (auto simp: dur_rep_def)
  have "\<exists>t. DurationSummary_observe s d = Inr t \<and> dur_rep t (vs @ [d]) u"
  proof (cases "vs = []")
    case True
    then have "du_Count s = 0" using assms by (simp add: dur_rep_def unat_eq_zero)
    then show ?thesis using c sm True assms by (simp add: DurationSummary_observe_def dur_rep_def)
  next
    case False
    then have "du_Count s \<noteq> 0" using assms by (auto simp: dur_rep_def)
    moreover have "Min (set vs \<union> {d}) = min (Min (set vs)) d" "Max (set vs \<union> {d}) = max (Max (set vs)) d"
      using False by (simp_all add: min.commute max.commute)
    ultimately show ?thesis using c sm sum False assms
      by (simp add: DurationSummary_observe_def dur_rep_def unat_Suc_small)
  qed
  then show ?thesis using dur_rep_unique by auto
next
  case False
  have "DurationSummary_observe s d = Inl ErrAggregateOverflow"
    using False assms unat_less_2p64 [of "du_Count s"]
    by (auto simp: DurationSummary_observe_def dur_rep_def eq_MaxUint64 Max_minus_less)
  moreover have "\<not> dur_rep s' (vs @ [d]) u"
    using False unat_less_2p64 [of "du_Count s'"] unat_less_2p64 [of "du_Sum s'"] by (auto simp: dur_rep_def)
  ultimately show ?thesis by simp
qed

lemma skip_rep:
  assumes "dur_rep s vs u"
  shows "DurationSummary_skip s = Inr s' \<longleftrightarrow> dur_rep s' vs (Suc u)"
proof (cases "u < 2 ^ 64 - 1")
  case True
  then have "du_Unobserved s \<noteq> MaxUint64" using assms by (auto simp: dur_rep_def eq_MaxUint64)
  then have "DurationSummary_skip s = Inr (s\<lparr>du_Unobserved := du_Unobserved s + 1\<rparr>)"
    "dur_rep (s\<lparr>du_Unobserved := du_Unobserved s + 1\<rparr>) vs (Suc u)"
    using assms by (simp_all add: DurationSummary_skip_def dur_rep_def unat_Suc_small)
  then show ?thesis using dur_rep_unique by auto
next
  case False
  then have "DurationSummary_skip s = Inl ErrAggregateOverflow"
    using assms unat_less_2p64 [of "du_Unobserved s"]
    by (auto simp: DurationSummary_skip_def dur_rep_def eq_MaxUint64)
  moreover have "\<not> dur_rep s' vs (Suc u)"
    using False unat_less_2p64 [of "du_Unobserved s'"] by (auto simp: dur_rep_def)
  ultimately show ?thesis by simp
qed

definition measured :: "u64 option list \<Rightarrow> u64 list" where
  "measured obs = List.map_filter id obs"

definition absent :: "u64 option list \<Rightarrow> nat" where
  "absent obs = length (filter (\<lambda>x. x = None) obs)"

lemma measured_simps [simp]:
  "measured [] = []" "measured (Some d # obs) = d # measured obs" "measured (None # obs) = measured obs"
  "absent [] = 0" "absent (Some d # obs) = absent obs" "absent (None # obs) = Suc (absent obs)"
  by (simp_all add: measured_def absent_def List.map_filter_simps)

lemma length_measured: "length (measured obs) + absent obs = length obs"
  by (induction obs) (auto split: option.splits, metis measured_simps(2,3,5,6) not_None_eq length_Cons add_Suc add_Suc_right)

lemma dur_rep_prefix:
  assumes "dur_rep t (vs @ ws) (u + k)"
  shows "\<exists>s. dur_rep s vs u"
proof -
  have "length vs < 2 ^ 64" "u < 2 ^ 64" "sum_list (map unat vs) < 2 ^ 64"
    using assms unat_less_2p64 [of "du_Count t"] unat_less_2p64 [of "du_Unobserved t"] unat_less_2p64 [of "du_Sum t"]
    by (auto simp: dur_rep_def)
  then have "dur_rep \<lparr>du_Count = of_nat (length vs), du_Unobserved = of_nat u, du_Sum = of_nat (sum_list (map unat vs)),
      du_Min = if vs = [] then 0 else Min (set vs), du_Max = if vs = [] then 0 else Max (set vs)\<rparr> vs u"
    by (simp add: dur_rep_def unat_of_nat)
  then show ?thesis by blast
qed

lemma fold_durations_rep:
  "dur_rep s vs u \<Longrightarrow> fold_durations s obs = Inr t \<longleftrightarrow> dur_rep t (vs @ measured obs) (u + absent obs)"
proof (induction obs arbitrary: s vs u)
  case Nil
  then show ?case using dur_rep_unique by auto
next
  case (Cons x obs)
  show ?case
  proof (cases x)
    case None
    have "fold_durations s (x # obs) = Inr t \<longleftrightarrow>
        (\<exists>s'. DurationSummary_skip s = Inr s' \<and> fold_durations s' obs = Inr t)"
      using None by (cases "DurationSummary_skip s") auto
    also have "\<dots> \<longleftrightarrow> (\<exists>s'. dur_rep s' vs (Suc u) \<and> fold_durations s' obs = Inr t)"
      by (simp only: skip_rep [OF Cons.prems])
    also have "\<dots> \<longleftrightarrow> dur_rep t (vs @ measured obs) (Suc u + absent obs)"
      using Cons.IH dur_rep_prefix [of t vs "measured obs" "Suc u" "absent obs"] by blast
    finally show ?thesis using None by simp
  next
    case (Some d)
    have "fold_durations s (x # obs) = Inr t \<longleftrightarrow>
        (\<exists>s'. DurationSummary_observe s d = Inr s' \<and> fold_durations s' obs = Inr t)"
      using Some by (cases "DurationSummary_observe s d") auto
    also have "\<dots> \<longleftrightarrow> (\<exists>s'. dur_rep s' (vs @ [d]) u \<and> fold_durations s' obs = Inr t)"
      by (simp only: observe_rep [OF Cons.prems])
    also have "\<dots> \<longleftrightarrow> dur_rep t ((vs @ [d]) @ measured obs) (u + absent obs)"
      using Cons.IH dur_rep_prefix [of t "vs @ [d]" "measured obs" u "absent obs"] by blast
    finally show ?thesis using Some by simp
  qed
qed

lemma fold_durations_iff:
  "fold_durations zeroDurations obs = Inr t \<longleftrightarrow> dur_rep t (measured obs) (absent obs)"
  using fold_durations_rep [OF dur_rep_zero] by simp

subsection \<open>Status counts\<close>

definition status_rep :: "SpanStatusCounts \<Rightarrow> SpanStatus list \<Rightarrow> bool" where
  "status_rep c xs \<longleftrightarrow> set xs \<subseteq> {'''', ''unset'', ''ok'', ''error''} \<and>
     unat (sc_Unavailable c) = count_list xs '''' \<and> unat (sc_Unset c) = count_list xs ''unset'' \<and>
     unat (sc_OK c) = count_list xs ''ok'' \<and> unat (sc_Error c) = count_list xs ''error''"

lemma status_rep_unique: "status_rep c xs \<Longrightarrow> status_rep d xs \<Longrightarrow> c = d"
  by (cases c; cases d) (auto simp: status_rep_def word_unat_eq_iff)

lemma status_rep_total:
  "status_rep c xs \<Longrightarrow> unat (sc_Unavailable c) + unat (sc_Unset c) + unat (sc_OK c) + unat (sc_Error c) = length xs"
proof -
  have "count_list xs '''' + count_list xs ''unset'' + count_list xs ''ok'' + count_list xs ''error'' = length xs"
    if "set xs \<subseteq> {'''', ''unset'', ''ok'', ''error''}"
    using that by (induction xs) auto
  then show "status_rep c xs \<Longrightarrow> ?thesis" by (simp add: status_rep_def)
qed

lemma inc_counter:
  "unat (x :: u64) = n \<Longrightarrow> (x = MaxUint64 \<longrightarrow> \<not> Suc n < 2 ^ 64) \<and> (x \<noteq> MaxUint64 \<longrightarrow> unat (x + 1) = Suc n)"
  by (auto simp: eq_MaxUint64 unat_Suc_small)

lemma status_count_rep:
  assumes "status_rep c xs" and "length xs < 2 ^ 64 - 1" and "x \<in> {'''', ''unset'', ''ok'', ''error''}"
  shows "\<exists>d. SpanStatusCounts_count c x = Inr d \<and> status_rep d (xs @ [x])"
proof -
  have "count_list xs y \<le> length xs" for y by (induction xs) auto
  then have "sc_Unavailable c \<noteq> MaxUint64" "sc_Unset c \<noteq> MaxUint64" "sc_OK c \<noteq> MaxUint64" "sc_Error c \<noteq> MaxUint64"
    using assms(1,2) by (auto simp: status_rep_def eq_MaxUint64 not_less dest!: sym [of "_ - _"]) (metis leD)+
  with assms(1,3) show ?thesis
    by (auto simp: SpanStatusCounts_count_def status_rep_def unat_Suc_small)
qed

lemma status_count_Inr:
  "SpanStatusCounts_count c x = Inr d \<Longrightarrow> x \<in> {'''', ''unset'', ''ok'', ''error''}"
  by (auto simp: SpanStatusCounts_count_def split: if_splits)

lemma fold_statuses_rep:
  "status_rep c xs \<Longrightarrow> length xs + length ys < 2 ^ 64 \<Longrightarrow>
   fold_statuses c ys = Inr d \<longleftrightarrow> status_rep d (xs @ ys)"
proof (induction ys arbitrary: c xs)
  case Nil
  then show ?case using status_rep_unique by auto
next
  case (Cons y ys)
  show ?case
  proof (cases "y \<in> {'''', ''unset'', ''ok'', ''error''}")
    case True
    have "length xs < 2 ^ 64 - 1" using Cons.prems(2) by simp
    then obtain c' where c': "SpanStatusCounts_count c y = Inr c'" "status_rep c' (xs @ [y])"
      using status_count_rep [OF Cons.prems(1) _ True] by blast
    show ?thesis using c' Cons.IH [OF c'(2)] Cons.prems(2) by simp
  next
    case False
    then have "\<not> status_rep d (xs @ y # ys)" by (auto simp: status_rep_def)
    moreover have "fold_statuses c (y # ys) \<noteq> Inr d"
      using False status_count_Inr [of c y] by (cases "SpanStatusCounts_count c y") auto
    ultimately show ?thesis by simp
  qed
qed

lemma fold_statuses_iff:
  "length xs < 2 ^ 64 \<Longrightarrow> fold_statuses zeroStatuses xs = Inr d \<longleftrightarrow> status_rep d xs"
  using fold_statuses_rep [of zeroStatuses "[]" xs d] by (simp add: status_rep_def zeroStatuses_def)

subsection \<open>The stored bounds are the tight ones\<close>

lemma fill_between:
  fixes a b :: nat
  assumes "a \<le> b" and "m * a \<le> T" and "T \<le> m * b"
  shows "\<exists>ws. length ws = m \<and> sum_list ws = T \<and> set ws \<subseteq> {a..b}"
  using assms(2,3)
proof (induction m arbitrary: T)
  case (Suc m)
  let ?x = "min b (T - m * a)"
  have x: "a \<le> ?x" "?x \<le> b" "?x \<le> T" using Suc.prems(1) assms(1) by (auto simp: min_def)
  have "m * a \<le> T - ?x" "T - ?x \<le> m * b"
    using Suc.prems assms(1) mult_le_mono2 [OF assms(1), of m] by (auto simp: min_def)
  then obtain ws where ws: "length ws = m" "sum_list ws = T - ?x" "set ws \<subseteq> {a..b}" using Suc.IH by blast
  then have "sum_list (?x # ws) = T" "length (?x # ws) = Suc m" "set (?x # ws) \<subseteq> {a..b}" using x by auto
  then show ?case by blast
qed simp

lemma extrema_list:
  fixes a b :: nat
  assumes "a \<le> b" and "2 \<le> n" and "b + (n - 1) * a \<le> S" and "S \<le> a + (n - 1) * b"
  shows "\<exists>vs. length vs = n \<and> sum_list vs = S \<and> set vs \<subseteq> {a..b} \<and> a \<in> set vs \<and> b \<in> set vs"
proof -
  obtain m where m: "n = Suc (Suc m)" using assms(2) by (metis add_2_eq_Suc le_Suc_ex)
  have "m * a \<le> S - (a + b)" "S - (a + b) \<le> m * b" using assms(3,4) by (auto simp: m)
  then obtain ws where ws: "length ws = m" "sum_list ws = S - (a + b)" "set ws \<subseteq> {a..b}"
    using fill_between [OF assms(1)] by blast
  have "a + b \<le> S" using assms(3) by (simp add: m)
  with ws assms(1) show ?thesis by (intro exI [of _ "a # b # ws"]) (auto simp: m)
qed

text \<open>Every list of values between its extrema has its sum within the bounds.\<close>

lemma sum_between:
  fixes a b :: nat
  assumes "set vs \<subseteq> {a..b}"
  shows "length vs * a \<le> sum_list vs" "sum_list vs \<le> length vs * b"
  using assms by (induction vs) auto

lemma extrema_bounds:
  fixes a b :: nat
  assumes "set vs \<subseteq> {a..b}" and "a \<in> set vs" and "b \<in> set vs"
  shows "b + (length vs - 1) * a \<le> sum_list vs" "sum_list vs \<le> a + (length vs - 1) * b"
proof -
  have r: "sum_list vs = x + sum_list (remove1 x vs)" "length vs - 1 = length (remove1 x vs)"
    "set (remove1 x vs) \<subseteq> {a..b}" if "x \<in> set vs" for x
    using that assms(1) set_remove1_subset [of x vs] sum_list_map_remove1 [of x vs "\<lambda>v. v"]
    by (auto simp: length_remove1)
  show "b + (length vs - 1) * a \<le> sum_list vs"
    using r [OF assms(3)] sum_between [of "remove1 b vs" a b] by auto
  show "sum_list vs \<le> a + (length vs - 1) * b"
    using r [OF assms(2)] sum_between [of "remove1 a vs" a b] by auto
qed

text \<open>The stored numbers that \<open>validateRestoredOperational\<close> accepts, as arithmetic without
  wrap-around.\<close>

definition duration_numbers_ok :: "DurationSummary \<Rightarrow> bool" where
  "duration_numbers_ok d \<longleftrightarrow>
     (if du_Count d = 0 then du_Sum d = 0 \<and> du_Min d = 0 \<and> du_Max d = 0
      else du_Min d \<le> du_Max d \<and> du_Max d \<le> MaxDurationNanos \<and>
        (if du_Count d = 1 then du_Min d = du_Max d \<and> du_Sum d = du_Min d
         else unat (du_Max d) + (unat (du_Count d) - 1) * unat (du_Min d) \<le> unat (du_Sum d) \<and>
              unat (du_Sum d) \<le> unat (du_Min d) + (unat (du_Count d) - 1) * unat (du_Max d)))"

lemma unat_count_minus: "c \<noteq> 0 \<Longrightarrow> unat (c - 1 :: u64) = unat c - 1"
  by (simp add: unat_minus_one)

lemma lower_check:
  "(case addMulNoOverflow x f y of (lower, ok) \<Rightarrow> ok \<and> \<not> s < lower) \<longleftrightarrow> unat x + unat f * unat y \<le> unat s"
  using unat_less_2p64 [of s]
  by (auto simp: addMulNoOverflow_iff word_less_nat_alt unat_plus_small unat_mult_small not_less)

lemma upper_check:
  "(case addMulNoOverflow x f y of (upper, ok) \<Rightarrow> \<not> (ok \<and> upper < s)) \<longleftrightarrow> unat s \<le> unat x + unat f * unat y"
  using unat_less_2p64 [of s]
  by (auto simp: addMulNoOverflow_iff word_less_nat_alt unat_plus_small unat_mult_small not_less)

lemma validate_numbers:
  "validateRestoredOperational d c n = None \<longleftrightarrow>
     unat (du_Count d) + unat (du_Unobserved d) = unat n \<and>
     unat (sc_Unavailable c) + unat (sc_Unset c) + unat (sc_OK c) + unat (sc_Error c) = unat n \<and>
     duration_numbers_ok d"
proof -
  let ?A = "sumNoOverflow [du_Count d, du_Unobserved d] = Some n"
  let ?B = "sumNoOverflow [sc_Unavailable c, sc_Unset c, sc_OK c, sc_Error c] = Some n"
  have l: "(case addMulNoOverflow (du_Max d) (du_Count d - 1) (du_Min d) of (lower, ok) \<Rightarrow> ok \<and> \<not> du_Sum d < lower) \<longleftrightarrow>
      unat (du_Max d) + (unat (du_Count d) - 1) * unat (du_Min d) \<le> unat (du_Sum d)" if "du_Count d \<noteq> 0"
    unfolding lower_check unat_count_minus [OF that] by (rule refl)
  have u: "(case addMulNoOverflow (du_Min d) (du_Count d - 1) (du_Max d) of (upper, ok) \<Rightarrow> \<not> (ok \<and> upper < du_Sum d)) \<longleftrightarrow>
      unat (du_Sum d) \<le> unat (du_Min d) + (unat (du_Count d) - 1) * unat (du_Max d)" if "du_Count d \<noteq> 0"
    unfolding upper_check unat_count_minus [OF that] by (rule refl)
  have "validateRestoredOperational d c n = None \<longleftrightarrow> ?A \<and> ?B \<and> duration_numbers_ok d"
  proof (cases "?A \<and> ?B")
    case True
    obtain lower ok where lo: "addMulNoOverflow (du_Max d) (du_Count d - 1) (du_Min d) = (lower, ok)"
      by fastforce
    obtain upper ok2 where up: "addMulNoOverflow (du_Min d) (du_Count d - 1) (du_Max d) = (upper, ok2)"
      by fastforce
    consider "du_Count d = 0" | "du_Count d = 1" "du_Count d \<noteq> 0" | "du_Count d \<noteq> 0" "du_Count d \<noteq> 1" by blast
    then show ?thesis
    proof cases
      case 3
      then show ?thesis using True l [OF 3(1)] u [OF 3(1)]
        by (simp add: validateRestoredOperational_def duration_numbers_ok_def lo up not_less guard_None
            split del: if_split) blast
    qed (use True in \<open>auto simp: validateRestoredOperational_def duration_numbers_ok_def not_less\<close>)
  next
    case False
    then show ?thesis by (auto simp: validateRestoredOperational_def split: option.split)
  qed
  then show ?thesis by (simp add: sumNoOverflow_Some eq_commute [of "unat n"] add.assoc)
qed

lemma numbers_realizable:
  assumes "duration_numbers_ok d"
  shows "\<exists>vs. dur_rep d vs (unat (du_Unobserved d)) \<and> list_all (\<lambda>v. v \<le> MaxDurationNanos) vs"
proof -
  consider "du_Count d = 0" | "du_Count d = 1" | "du_Count d \<noteq> 0" "du_Count d \<noteq> 1" by blast
  then show ?thesis
  proof cases
    case 1
    then have "dur_rep d [] (unat (du_Unobserved d))" using assms by (simp add: dur_rep_def duration_numbers_ok_def)
    then show ?thesis by auto
  next
    case 2
    then have "dur_rep d [du_Min d] (unat (du_Unobserved d))"
      using assms by (simp add: dur_rep_def duration_numbers_ok_def)
    then show ?thesis using assms 2 by (intro exI [of _ "[du_Min d]"]) (simp add: duration_numbers_ok_def)
  next
    case 3
    have "unat (du_Count d) \<noteq> 0" using 3(1) by (simp add: unat_eq_zero)
    moreover have "unat (du_Count d) \<noteq> 1" using 3(2) by (metis unat_1 word_unat_eq_iff)
    ultimately have n: "2 \<le> unat (du_Count d)" by simp
    have le: "unat (du_Min d) \<le> unat (du_Max d)" using assms 3 by (simp add: duration_numbers_ok_def word_le_nat_alt)
    obtain vs where vs: "length vs = unat (du_Count d)" "sum_list vs = unat (du_Sum d)"
      "set vs \<subseteq> {unat (du_Min d)..unat (du_Max d)}" "unat (du_Min d) \<in> set vs" "unat (du_Max d) \<in> set vs"
      using extrema_list [OF le n] assms 3 by (auto simp: duration_numbers_ok_def)
    let ?ws = "map (of_nat :: nat \<Rightarrow> u64) vs"
    have sm: "unat (of_nat v :: u64) = v" if "v \<in> set vs" for v
      using that vs(3) unat_less_2p64 [of "du_Max d"] by (auto simp: unat_of_nat)
    then have inv_ws: "map unat ?ws = vs" by (simp add: map_idI)
    have bounds: "du_Min d \<le> w \<and> w \<le> du_Max d" if "w \<in> set ?ws" for w
      using that vs(3) sm by (auto simp: word_le_nat_alt)
    have mem: "du_Min d \<in> set ?ws" "du_Max d \<in> set ?ws"
      using vs(4,5) by (force, force)
    then have "Min (set ?ws) = du_Min d" "Max (set ?ws) = du_Max d"
      using bounds by (auto intro!: Min_eqI Max_eqI)
    then have "dur_rep d ?ws (unat (du_Unobserved d))"
      using vs(1,2) mem inv_ws by (auto simp: dur_rep_def)
    moreover have "list_all (\<lambda>v. v \<le> MaxDurationNanos) ?ws"
      using bounds assms 3 unfolding list_all_iff by (auto simp: duration_numbers_ok_def intro: order_trans)
    ultimately show ?thesis by blast
  qed
qed

lemma rep_numbers:
  assumes "dur_rep d vs u" and "list_all (\<lambda>v. v \<le> MaxDurationNanos) vs"
  shows "duration_numbers_ok d"
proof (cases "vs = []")
  case True
  then show ?thesis using assms by (simp add: dur_rep_def duration_numbers_ok_def unat_eq_zero)
next
  case False
  have mm: "du_Min d = Min (set vs)" "du_Max d = Max (set vs)" and c: "unat (du_Count d) = length vs"
    and s: "unat (du_Sum d) = sum_list (map unat vs)" using assms(1) False by (auto simp: dur_rep_def)
  have mem: "du_Min d \<in> set vs" "du_Max d \<in> set vs" using False mm by auto
  have rng: "set (map unat vs) \<subseteq> {unat (du_Min d)..unat (du_Max d)}" using mm by (auto simp: word_le_nat_alt [symmetric])
  have "unat (du_Max d) + (length vs - 1) * unat (du_Min d) \<le> unat (du_Sum d)"
    "unat (du_Sum d) \<le> unat (du_Min d) + (length vs - 1) * unat (du_Max d)"
    using extrema_bounds [OF rng] mem s by auto
  moreover have "du_Max d \<le> MaxDurationNanos" using assms(2) mem by (auto simp: list_all_iff)
  moreover have "du_Min d \<le> du_Max d" using mm False by simp
  moreover have "du_Count d \<noteq> 0" using c False by auto
  moreover have "du_Min d = du_Max d \<and> du_Sum d = du_Min d" if one: "du_Count d = 1"
  proof -
    obtain v where "vs = [v]" using one c by (cases vs) auto
    then show ?thesis using mm s by (simp add: word_unat_eq_iff)
  qed
  ultimately show ?thesis using c by (simp add: duration_numbers_ok_def)
qed

lemma statuses_realizable:
  "\<exists>xs. status_rep c xs \<and>
     length xs = unat (sc_Unavailable c) + unat (sc_Unset c) + unat (sc_OK c) + unat (sc_Error c)"
  by (rule exI [of _ "replicate (unat (sc_Unavailable c)) '''' @ replicate (unat (sc_Unset c)) ''unset''
        @ replicate (unat (sc_OK c)) ''ok'' @ replicate (unat (sc_Error c)) ''error''"])
    (auto simp: status_rep_def count_list_eq_length_filter)

lemma restored_exact:
  "validateRestoredOperational d c n = None \<longleftrightarrow>
     (\<exists>obs. length obs = unat n \<and> list_all (\<lambda>v. v \<le> MaxDurationNanos) (measured obs) \<and>
        fold_durations zeroDurations obs = Inr d) \<and>
     (\<exists>sts. length sts = unat n \<and> fold_statuses zeroStatuses sts = Inr c)"
proof -
  have D: "(unat (du_Count d) + unat (du_Unobserved d) = unat n \<and> duration_numbers_ok d) \<longleftrightarrow>
      (\<exists>obs. length obs = unat n \<and> list_all (\<lambda>v. v \<le> MaxDurationNanos) (measured obs) \<and>
        fold_durations zeroDurations obs = Inr d)" (is "?L \<longleftrightarrow> ?R")
  proof
    assume ?L
    then obtain vs where vs: "dur_rep d vs (unat (du_Unobserved d))" "list_all (\<lambda>v. v \<le> MaxDurationNanos) vs"
      using numbers_realizable by blast
    let ?obs = "map Some vs @ replicate (unat (du_Unobserved d)) None"
    have m: "measured (map Some ws @ replicate k None) = ws \<and> absent (map Some ws @ replicate k None) = k"
      for ws and k :: nat
    proof (induction ws)
      case Nil
      show ?case by (induction k) auto
    qed auto
    then have "fold_durations zeroDurations ?obs = Inr d" using vs(1) by (simp add: fold_durations_iff)
    moreover have "length ?obs = unat n" using \<open>?L\<close> vs(1) by (simp add: dur_rep_def)
    ultimately show ?R using m vs(2) by (intro exI [of _ ?obs]) simp
  next
    assume ?R
    then obtain obs where o: "length obs = unat n" "list_all (\<lambda>v. v \<le> MaxDurationNanos) (measured obs)"
      "dur_rep d (measured obs) (absent obs)" by (auto simp: fold_durations_iff)
    then show ?L using rep_numbers length_measured [of obs] by (auto simp: dur_rep_def)
  qed
  have S: "unat (sc_Unavailable c) + unat (sc_Unset c) + unat (sc_OK c) + unat (sc_Error c) = unat n \<longleftrightarrow>
      (\<exists>sts. length sts = unat n \<and> fold_statuses zeroStatuses sts = Inr c)"
    using statuses_realizable [of c] status_rep_total [of c] fold_statuses_iff unat_less_2p64 [of n] by metis
  show ?thesis unfolding validate_numbers using D S by blast
qed

text \<open>C15. A stored duration summary and status count for \<open>n\<close> records is accepted
  exactly when \<open>n\<close> observations exist that produce them: measured durations within the
  per-observation bound, absent ones, and known statuses. So no aggregate the engine can write is
  refused on load, and none it cannot write is accepted.\<close>

theorem restored_operational_exact:
  "validateRestoredOperational d c n = None \<longleftrightarrow>
     (\<exists>obs. length obs = unat n \<and> list_all (\<lambda>v. v \<le> MaxDurationNanos) (measured obs) \<and>
        fold_durations zeroDurations obs = Inr d) \<and>
     (\<exists>sts. length sts = unat n \<and> fold_statuses zeroStatuses sts = Inr c)"
  by (rule restored_exact)

end
