(* ===== verification/Platform_Aggregate.thy ===== *)
theory Platform_Aggregate
  imports Platform_Operational
begin

text \<open>
  Aggregation of decision records (\<^verbatim>\<open>platform/aggregate.go\<close>): a fixed-shape summary of one
  run. \<open>AddRecord\<close> validates every field it consumes before it changes anything.
\<close>

record DecisionCounts =
  dc_Allow :: u64
  dc_ObserveOnly :: u64
  dc_Alert :: u64
  dc_Challenge :: u64
  dc_RequireApproval :: u64
  dc_Block :: u64

definition DecisionCounts_Total :: "DecisionCounts \<Rightarrow> u64" where
  "DecisionCounts_Total c = dc_Allow c + dc_ObserveOnly c + dc_Alert c + dc_Challenge c
     + dc_RequireApproval c + dc_Block c"

record RiskCounts =
  rc_Low :: u64
  rc_Medium :: u64
  rc_High :: u64
  rc_Critical :: u64

definition RiskCounts_Total :: "RiskCounts \<Rightarrow> u64" where
  "RiskCounts_Total c = rc_Low c + rc_Medium c + rc_High c + rc_Critical c"

record ApprovalCounts =
  apc_Unspecified :: u64
  apc_NotRequired :: u64
  apc_Required :: u64
  apc_Approved :: u64
  apc_Denied :: u64

definition ApprovalCounts_Total :: "ApprovalCounts \<Rightarrow> u64" where
  "ApprovalCounts_Total c = apc_Unspecified c + apc_NotRequired c + apc_Required c + apc_Approved c + apc_Denied c"

record PolicySelection =
  ps_MatchedRule :: u64
  ps_MatchedDefault :: u64

definition PolicySelection_Total :: "PolicySelection \<Rightarrow> u64" where
  "PolicySelection_Total s = ps_MatchedRule s + ps_MatchedDefault s"

record MetricSummary =
  ms_Count :: u64
  ms_Sum :: f64
  ms_Min :: f64
  ms_Max :: f64

definition MetricSummary_Mean :: "MetricSummary \<Rightarrow> f64 \<times> bool" where
  "MetricSummary_Mean s =
     (if ms_Count s = 0 then (f0, False) else (fdiv (ms_Sum s) (f64_of_u64 (ms_Count s)), True))"

definition MetricSummary_observe :: "MetricSummary \<Rightarrow> f64 \<Rightarrow> MetricSummary" where
  "MetricSummary_observe s v =
     (if ms_Count s = 0 then \<lparr>ms_Count = 1, ms_Sum = v, ms_Min = v, ms_Max = v\<rparr>
      else s\<lparr>ms_Count := ms_Count s + 1, ms_Sum := fadd (ms_Sum s) v,
             ms_Min := fmin (ms_Min s) v, ms_Max := fmax (ms_Max s) v\<rparr>)"

record EvaluationAggregate =
  ag_bound :: bool
  ag_runID :: EvaluationRunID
  ag_candidateID :: CandidateID
  ag_environment :: EnvironmentRef
  ag_profile :: BehavioralProfileRef
  ag_recordCount :: u64
  ag_firstObservedAt :: gotime
  ag_lastObservedAt :: gotime
  ag_decisions :: DecisionCounts
  ag_risks :: RiskCounts
  ag_approvals :: ApprovalCounts
  ag_policy :: PolicySelection
  ag_durations :: DurationSummary
  ag_statuses :: SpanStatusCounts
  ag_identityConfidence :: MetricSummary
  ag_anomalyScore :: MetricSummary
  ag_anomalyConfidence :: MetricSummary
  ag_trustScore :: MetricSummary
  ag_contextRisk :: MetricSummary

definition validateRunBinding :: "EvaluationRun \<Rightarrow> platform_error option" where
  "validateRunBinding run =
     orElse (validateID (run_id run)) (orElse (validateID (run_candidateID run))
       (orElse (validateID (run_environment run)) (orElse (validateID (run_profile run))
         (if Time_IsZero (run_createdAt run) then Some ErrInvalidTimestamp
          else if \<not> RunStatus_valid (run_status run) then Some ErrInvalidTransition
          else None))))"

definition zeroMetric :: MetricSummary where
  "zeroMetric = \<lparr>ms_Count = 0, ms_Sum = f0, ms_Min = f0, ms_Max = f0\<rparr>"

definition NewEvaluationAggregate :: "EvaluationRun \<Rightarrow> platform_error + EvaluationAggregate" where
  "NewEvaluationAggregate run =
     (case validateRunBinding run of
        Some e \<Rightarrow> Inl e
      | None \<Rightarrow>
          Inr \<lparr>ag_bound = True, ag_runID = run_id run, ag_candidateID = run_candidateID run,
               ag_environment = run_environment run, ag_profile = run_profile run, ag_recordCount = 0,
               ag_firstObservedAt = zeroTime, ag_lastObservedAt = zeroTime,
               ag_decisions = \<lparr>dc_Allow = 0, dc_ObserveOnly = 0, dc_Alert = 0, dc_Challenge = 0,
                               dc_RequireApproval = 0, dc_Block = 0\<rparr>,
               ag_risks = \<lparr>rc_Low = 0, rc_Medium = 0, rc_High = 0, rc_Critical = 0\<rparr>,
               ag_approvals = \<lparr>apc_Unspecified = 0, apc_NotRequired = 0, apc_Required = 0,
                               apc_Approved = 0, apc_Denied = 0\<rparr>,
               ag_policy = \<lparr>ps_MatchedRule = 0, ps_MatchedDefault = 0\<rparr>,
               ag_durations = zeroDurations, ag_statuses = zeroStatuses,
               ag_identityConfidence = zeroMetric, ag_anomalyScore = zeroMetric,
               ag_anomalyConfidence = zeroMetric, ag_trustScore = zeroMetric, ag_contextRisk = zeroMetric\<rparr>)"

definition DecisionCounts_count :: "DecisionCounts \<Rightarrow> string \<Rightarrow> platform_error + DecisionCounts" where
  "DecisionCounts_count c d =
     (if d = ''allow'' then Inr (c\<lparr>dc_Allow := dc_Allow c + 1\<rparr>)
      else if d = ''observe_only'' then Inr (c\<lparr>dc_ObserveOnly := dc_ObserveOnly c + 1\<rparr>)
      else if d = ''alert'' then Inr (c\<lparr>dc_Alert := dc_Alert c + 1\<rparr>)
      else if d = ''challenge'' then Inr (c\<lparr>dc_Challenge := dc_Challenge c + 1\<rparr>)
      else if d = ''require_approval'' then Inr (c\<lparr>dc_RequireApproval := dc_RequireApproval c + 1\<rparr>)
      else if d = ''block'' then Inr (c\<lparr>dc_Block := dc_Block c + 1\<rparr>)
      else Inl ErrInvalidDecisionRecord)"

definition RiskCounts_count :: "RiskCounts \<Rightarrow> string \<Rightarrow> platform_error + RiskCounts" where
  "RiskCounts_count c r =
     (if r = ''low'' then Inr (c\<lparr>rc_Low := rc_Low c + 1\<rparr>)
      else if r = ''medium'' then Inr (c\<lparr>rc_Medium := rc_Medium c + 1\<rparr>)
      else if r = ''high'' then Inr (c\<lparr>rc_High := rc_High c + 1\<rparr>)
      else if r = ''critical'' then Inr (c\<lparr>rc_Critical := rc_Critical c + 1\<rparr>)
      else Inl ErrInvalidDecisionRecord)"

definition ApprovalCounts_count :: "ApprovalCounts \<Rightarrow> ApprovalStatus \<Rightarrow> platform_error + ApprovalCounts" where
  "ApprovalCounts_count c s =
     (if s = ApprovalUnspecified then Inr (c\<lparr>apc_Unspecified := apc_Unspecified c + 1\<rparr>)
      else if s = ApprovalNotRequired then Inr (c\<lparr>apc_NotRequired := apc_NotRequired c + 1\<rparr>)
      else if s = ApprovalRequired then Inr (c\<lparr>apc_Required := apc_Required c + 1\<rparr>)
      else if s = ApprovalApproved then Inr (c\<lparr>apc_Approved := apc_Approved c + 1\<rparr>)
      else if s = ApprovalDenied then Inr (c\<lparr>apc_Denied := apc_Denied c + 1\<rparr>)
      else Inl ErrInvalidDecisionRecord)"

definition validateUnitInterval :: "f64 \<Rightarrow> platform_error option" where
  "validateUnitInterval v =
     (if isNaN v then Some ErrInvalidDecisionRecord
      else if isInf v then Some ErrInvalidDecisionRecord
      else if flt v f0 \<or> flt f1 v then Some ErrInvalidDecisionRecord
      else None)"

definition AddRecord_guard :: "EvaluationAggregate \<Rightarrow> DecisionRecord \<Rightarrow> platform_error option" where
  "AddRecord_guard a r =
     (if \<not> ag_bound a then Some ErrUnboundAggregate
      else if ag_recordCount a = MaxUint64 then Some ErrAggregateOverflow
      else if dr_EventID r = '''' then Some ErrInvalidDecisionRecord
      else if Time_IsZero (dr_Timestamp r) then Some ErrInvalidDecisionRecord
      else if dr_Environment r \<noteq> ag_environment a then Some ErrEnvironmentMismatch
      else if sf_Environment (dr_Behavior r) \<noteq> dr_Environment r then Some ErrInvalidDecisionRecord
      else None)"

definition AddRecord_selection :: "DecisionRecord \<Rightarrow> platform_error option" where
  "AddRecord_selection r =
     (if dr_MatchedDefault r \<and> dr_PolicyRule r \<noteq> '''' then Some ErrInvalidDecisionRecord
      else if \<not> dr_MatchedDefault r \<and> dr_PolicyRule r = '''' then Some ErrInvalidDecisionRecord
      else None)"

text \<open>The part of \<open>AddRecord\<close> that can no longer fail.\<close>

definition AddRecord_fold ::
  "EvaluationAggregate \<Rightarrow> DecisionRecord \<Rightarrow> DecisionCounts \<Rightarrow> RiskCounts \<Rightarrow> ApprovalCounts \<Rightarrow>
   DurationSummary \<Rightarrow> SpanStatusCounts \<Rightarrow> EvaluationAggregate" where
  "AddRecord_fold a r decisions risks approvals durations statuses =
     a\<lparr>ag_recordCount := ag_recordCount a + 1, ag_decisions := decisions, ag_risks := risks,
       ag_approvals := approvals,
       ag_policy := (if dr_MatchedDefault r
                     then (ag_policy a)\<lparr>ps_MatchedDefault := ps_MatchedDefault (ag_policy a) + 1\<rparr>
                     else (ag_policy a)\<lparr>ps_MatchedRule := ps_MatchedRule (ag_policy a) + 1\<rparr>),
       ag_firstObservedAt := (if Time_IsZero (ag_firstObservedAt a)
                                 \<or> Time_Before (dr_Timestamp r) (ag_firstObservedAt a)
                              then dr_Timestamp r else ag_firstObservedAt a),
       ag_lastObservedAt := (if Time_After (dr_Timestamp r) (ag_lastObservedAt a)
                             then dr_Timestamp r else ag_lastObservedAt a),
       ag_durations := durations, ag_statuses := statuses,
       ag_identityConfidence := MetricSummary_observe (ag_identityConfidence a) (dr_IdentityConfidence r),
       ag_anomalyScore := MetricSummary_observe (ag_anomalyScore a) (dr_AnomalyScore r),
       ag_anomalyConfidence := MetricSummary_observe (ag_anomalyConfidence a) (dr_AnomalyConfidence r),
       ag_trustScore := MetricSummary_observe (ag_trustScore a) (dr_TrustScore r),
       ag_contextRisk := MetricSummary_observe (ag_contextRisk a) (dr_ContextRisk r)\<rparr>"

definition AddRecord :: "EvaluationAggregate \<Rightarrow> DecisionRecord \<Rightarrow> EvaluationAggregate \<times> platform_error option" where
  "AddRecord a r =
     (case AddRecord_guard a r of
        Some e \<Rightarrow> (a, Some e)
      | None \<Rightarrow>
        case DecisionCounts_count (ag_decisions a) (dr_Decision r) of
          Inl e \<Rightarrow> (a, Some e)
        | Inr decisions \<Rightarrow>
          case RiskCounts_count (ag_risks a) (dr_RiskLevel r) of
            Inl e \<Rightarrow> (a, Some e)
          | Inr risks \<Rightarrow>
            case ApprovalCounts_count (ag_approvals a) (dr_ApprovalStatus r) of
              Inl e \<Rightarrow> (a, Some e)
            | Inr approvals \<Rightarrow>
              case AddRecord_selection r of
                Some e \<Rightarrow> (a, Some e)
              | None \<Rightarrow>
                case first_error (map validateUnitInterval
                       [dr_IdentityConfidence r, dr_AnomalyScore r, dr_AnomalyConfidence r, dr_TrustScore r,
                        dr_ContextRisk r]) of
                  Some e \<Rightarrow> (a, Some e)
                | None \<Rightarrow>
                  case observeOperational (ag_durations a) (ag_statuses a) r of
                    Inl e \<Rightarrow> (a, Some e)
                  | Inr (durations, statuses) \<Rightarrow>
                      (AddRecord_fold a r decisions risks approvals durations statuses, None))"

subsection \<open>Accepted records\<close>

lemma validateUnitInterval_None_iff: "validateUnitInterval v = None \<longleftrightarrow> in01 v"
  by (cases v) (auto simp: validateUnitInterval_def isNaN_def isInf_def f0_def f1_def)

lemma first_error_None_iff [simp]: "first_error xs = None \<longleftrightarrow> list_all (\<lambda>x. x = None) xs"
  by (induction xs) (auto split: option.split)

lemma AddRecord_guard_None_iff:
  "AddRecord_guard a r = None \<longleftrightarrow> ag_bound a \<and> ag_recordCount a \<noteq> MaxUint64 \<and> dr_EventID r \<noteq> '''' \<and>
     t_ns (dr_Timestamp r) \<noteq> 0 \<and> dr_Environment r = ag_environment a \<and>
     sf_Environment (dr_Behavior r) = dr_Environment r"
  unfolding AddRecord_guard_def guard_None Time_IsZero_def by simp

lemma AddRecord_selection_None_iff:
  "AddRecord_selection r = None \<longleftrightarrow> (dr_MatchedDefault r \<longleftrightarrow> dr_PolicyRule r = '''')"
  by (auto simp: AddRecord_selection_def)

text \<open>What an accepted record gave, and the folded state.\<close>

definition accepted ::
  "EvaluationAggregate \<Rightarrow> DecisionRecord \<Rightarrow> DecisionCounts \<Rightarrow> RiskCounts \<Rightarrow> ApprovalCounts \<Rightarrow>
   DurationSummary \<Rightarrow> SpanStatusCounts \<Rightarrow> bool" where
  "accepted a r dc rc apc du sc \<longleftrightarrow>
     AddRecord_guard a r = None \<and> DecisionCounts_count (ag_decisions a) (dr_Decision r) = Inr dc \<and>
     RiskCounts_count (ag_risks a) (dr_RiskLevel r) = Inr rc \<and>
     ApprovalCounts_count (ag_approvals a) (dr_ApprovalStatus r) = Inr apc \<and>
     AddRecord_selection r = None \<and>
     first_error (map validateUnitInterval
       [dr_IdentityConfidence r, dr_AnomalyScore r, dr_AnomalyConfidence r, dr_TrustScore r, dr_ContextRisk r]) = None \<and>
     observeOperational (ag_durations a) (ag_statuses a) r = Inr (du, sc)"

lemma AddRecord_None_iff:
  "AddRecord a r = (a', None) \<longleftrightarrow>
     (\<exists>dc rc apc du sc. accepted a r dc rc apc du sc \<and> a' = AddRecord_fold a r dc rc apc du sc)"
  unfolding AddRecord_def accepted_def
  by (auto simp del: first_error_None_iff list.map first_error.simps split: option.split sum.split)

lemma metrics_None_iff:
  "first_error (map validateUnitInterval
     [dr_IdentityConfidence r, dr_AnomalyScore r, dr_AnomalyConfidence r, dr_TrustScore r, dr_ContextRisk r]) = None \<longleftrightarrow>
   in01 (dr_IdentityConfidence r) \<and> in01 (dr_AnomalyScore r) \<and> in01 (dr_AnomalyConfidence r) \<and>
   in01 (dr_TrustScore r) \<and> in01 (dr_ContextRisk r)"
  by (simp add: validateUnitInterval_None_iff del: first_error.simps)

lemma AddRecord_error: "AddRecord a r = (a', Some e) \<Longrightarrow> a' = a"
  by (simp add: AddRecord_def split: option.splits sum.splits prod.splits)

subsection \<open>Counters count\<close>

lemma count_list_le_length: "count_list xs x \<le> length xs"
  by (induction xs) auto

lemma count_step:
  assumes "unat (x :: u64) = count_list xs v" and "length xs < 2 ^ 64 - 1"
  shows "unat (x + 1) = count_list xs v + 1"
proof -
  have "x \<noteq> MaxUint64" using assms count_list_le_length [of xs v] by (auto simp: eq_MaxUint64)
  then show ?thesis using assms(1) by (simp add: unat_Suc_small)
qed

definition decisions_rep :: "DecisionCounts \<Rightarrow> string list \<Rightarrow> bool" where
  "decisions_rep c ds \<longleftrightarrow>
     set ds \<subseteq> {''allow'', ''observe_only'', ''alert'', ''challenge'', ''require_approval'', ''block''} \<and>
     unat (dc_Allow c) = count_list ds ''allow'' \<and> unat (dc_ObserveOnly c) = count_list ds ''observe_only'' \<and>
     unat (dc_Alert c) = count_list ds ''alert'' \<and> unat (dc_Challenge c) = count_list ds ''challenge'' \<and>
     unat (dc_RequireApproval c) = count_list ds ''require_approval'' \<and> unat (dc_Block c) = count_list ds ''block''"

definition risks_rep :: "RiskCounts \<Rightarrow> string list \<Rightarrow> bool" where
  "risks_rep c rs \<longleftrightarrow> set rs \<subseteq> {''low'', ''medium'', ''high'', ''critical''} \<and>
     unat (rc_Low c) = count_list rs ''low'' \<and> unat (rc_Medium c) = count_list rs ''medium'' \<and>
     unat (rc_High c) = count_list rs ''high'' \<and> unat (rc_Critical c) = count_list rs ''critical''"

definition approvals_rep :: "ApprovalCounts \<Rightarrow> string list \<Rightarrow> bool" where
  "approvals_rep c xs \<longleftrightarrow> set xs \<subseteq> {'''', ''not_required'', ''required'', ''approved'', ''denied''} \<and>
     unat (apc_Unspecified c) = count_list xs '''' \<and> unat (apc_NotRequired c) = count_list xs ''not_required'' \<and>
     unat (apc_Required c) = count_list xs ''required'' \<and> unat (apc_Approved c) = count_list xs ''approved'' \<and>
     unat (apc_Denied c) = count_list xs ''denied''"

definition policy_rep :: "PolicySelection \<Rightarrow> bool list \<Rightarrow> bool" where
  "policy_rep s ms \<longleftrightarrow> unat (ps_MatchedDefault s) = count_list ms True \<and> unat (ps_MatchedRule s) = count_list ms False"

lemma decisions_rep_count:
  assumes "decisions_rep c ds" and "length ds < 2 ^ 64 - 1" and "DecisionCounts_count c d = Inr c'"
  shows "decisions_rep c' (ds @ [d])"
  using assms(1,3) count_step [OF _ assms(2)]
  by (auto simp: decisions_rep_def DecisionCounts_count_def split: if_splits)

lemma risks_rep_count:
  assumes "risks_rep c rs" and "length rs < 2 ^ 64 - 1" and "RiskCounts_count c r = Inr c'"
  shows "risks_rep c' (rs @ [r])"
  using assms(1,3) count_step [OF _ assms(2)]
  by (auto simp: risks_rep_def RiskCounts_count_def split: if_splits)

lemma approvals_rep_count:
  assumes "approvals_rep c xs" and "length xs < 2 ^ 64 - 1" and "ApprovalCounts_count c x = Inr c'"
  shows "approvals_rep c' (xs @ [x])"
  using assms(1,3) count_step [OF _ assms(2)]
  by (auto simp: approvals_rep_def ApprovalCounts_count_def split: if_splits)

lemma word_of_unat_sum: "unat (w :: u64) = n \<Longrightarrow> w = of_nat n"
  by (auto simp: of_nat_unat)

lemma decisions_total: "decisions_rep c ds \<Longrightarrow> DecisionCounts_Total c = of_nat (length ds)"
proof -
  have "length ds = count_list ds ''allow'' + count_list ds ''observe_only'' + count_list ds ''alert''
      + count_list ds ''challenge'' + count_list ds ''require_approval'' + count_list ds ''block''"
    if "set ds \<subseteq> {''allow'', ''observe_only'', ''alert'', ''challenge'', ''require_approval'', ''block''}"
    using that by (induction ds) auto
  then show "decisions_rep c ds \<Longrightarrow> ?thesis"
    by (auto simp: decisions_rep_def DecisionCounts_Total_def dest!: word_of_unat_sum)
qed

lemma risks_total: "risks_rep c rs \<Longrightarrow> RiskCounts_Total c = of_nat (length rs)"
proof -
  have "length rs = count_list rs ''low'' + count_list rs ''medium'' + count_list rs ''high'' + count_list rs ''critical''"
    if "set rs \<subseteq> {''low'', ''medium'', ''high'', ''critical''}"
    using that by (induction rs) auto
  then show "risks_rep c rs \<Longrightarrow> ?thesis"
    by (auto simp: risks_rep_def RiskCounts_Total_def dest!: word_of_unat_sum)
qed

lemma approvals_total: "approvals_rep c xs \<Longrightarrow> ApprovalCounts_Total c = of_nat (length xs)"
proof -
  have "length xs = count_list xs '''' + count_list xs ''not_required'' + count_list xs ''required''
      + count_list xs ''approved'' + count_list xs ''denied''"
    if "set xs \<subseteq> {'''', ''not_required'', ''required'', ''approved'', ''denied''}"
    using that by (induction xs) auto
  then show "approvals_rep c xs \<Longrightarrow> ?thesis"
    by (auto simp: approvals_rep_def ApprovalCounts_Total_def dest!: word_of_unat_sum)
qed

lemma policy_total: "policy_rep s ms \<Longrightarrow> PolicySelection_Total s = of_nat (length ms)"
proof -
  have "length ms = count_list ms True + count_list ms False" by (induction ms) auto
  then show "policy_rep s ms \<Longrightarrow> ?thesis"
    by (auto simp: policy_rep_def PolicySelection_Total_def add.commute dest!: word_of_unat_sum)
qed

text \<open>A metric summary holds the number of values and two of them that bound all the others.\<close>

definition metric_rep :: "MetricSummary \<Rightarrow> f64 list \<Rightarrow> bool" where
  "metric_rep s vs \<longleftrightarrow> unat (ms_Count s) = length vs \<and>
     (vs \<noteq> [] \<longrightarrow> ms_Min s \<in> set vs \<and> ms_Max s \<in> set vs \<and>
        (\<forall>v \<in> set vs. fle (ms_Min s) v \<and> fle v (ms_Max s)))"

lemma fle_refl_01: "in01 v \<Longrightarrow> fle v v"
  by (auto elim: in01E)

lemma fle_total_01: "in01 a \<Longrightarrow> in01 b \<Longrightarrow> \<not> fle a b \<Longrightarrow> fle b a"
  by (auto elim!: in01E)

lemma metric_rep_observe:
  assumes "metric_rep s vs" and "\<forall>x \<in> set vs. in01 x" and "in01 v" and "length vs < 2 ^ 64 - 1"
  shows "metric_rep (MetricSummary_observe s v) (vs @ [v])"
proof (cases "vs = []")
  case True
  then have "ms_Count s = 0" using assms(1) by (simp add: metric_rep_def unat_eq_zero)
  then show ?thesis using True assms(3) by (simp add: MetricSummary_observe_def metric_rep_def fle_refl_01)
next
  case False
  then have nz: "ms_Count s \<noteq> 0" using assms(1) by (auto simp: metric_rep_def)
  have "ms_Count s \<noteq> MaxUint64" using assms(1,4) by (auto simp: metric_rep_def eq_MaxUint64)
  then have c: "unat (ms_Count s + 1) = Suc (length vs)" using assms(1) by (simp add: unat_Suc_small metric_rep_def)
  have m: "in01 (ms_Min s)" "in01 (ms_Max s)" using assms(1,2) False by (auto simp: metric_rep_def)
  have mn: "fmin (ms_Min s) v = (if fle (ms_Min s) v then ms_Min s else v)"
    and mx: "fmax (ms_Max s) v = (if fle (ms_Max s) v then v else ms_Max s)"
    using m assms(3) by (auto simp: fmin_def fmax_def elim!: in01E)
  show ?thesis using assms False nz c m fle_refl_01 [OF assms(3)] fle_total_01 [OF m(1) assms(3)] fle_total_01 [OF m(2) assms(3)]
    by (auto simp: metric_rep_def MetricSummary_observe_def mn mx intro: fle_trans)
qed

subsection \<open>Aggregates of a record stream\<close>

inductive agg_reach :: "EvaluationRun \<Rightarrow> DecisionRecord list \<Rightarrow> EvaluationAggregate \<Rightarrow> bool" for run where
  empty: "NewEvaluationAggregate run = Inr a \<Longrightarrow> agg_reach run [] a"
| add: "agg_reach run rs a \<Longrightarrow> AddRecord a r = (a', None) \<Longrightarrow> agg_reach run (rs @ [r]) a'"

definition dur_obs :: "DecisionRecord \<Rightarrow> u64 option" where
  "dur_obs r = (if dr_DurationNanos r = '''' then None
     else case ValidateDurationNanos r of Inr v \<Rightarrow> Some v | Inl _ \<Rightarrow> None)"

lemma observeOperational_Inr:
  assumes "observeOperational du sc r = Inr (du', sc')"
  shows "fold_durations du [dur_obs r] = Inr du' \<and> SpanStatusCounts_count sc (dr_SpanStatus r) = Inr sc' \<and>
    list_all (\<lambda>v. v \<le> MaxDurationNanos) (measured [dur_obs r])"
proof -
  obtain v where v: "ValidateDurationNanos r = Inr v"
    using assms by (cases "ValidateDurationNanos r") (auto simp: observeOperational_def)
  have le: "dr_DurationNanos r \<noteq> '''' \<Longrightarrow> v \<le> MaxDurationNanos"
    using v by (auto simp: ValidateDurationNanos_def not_less split: option.splits if_splits)
  show ?thesis using assms v le
    by (auto simp: observeOperational_def dur_obs_def split: sum.splits if_splits)
qed

lemma fold_durations_append:
  "fold_durations s (xs @ ys) = (case fold_durations s xs of Inl e \<Rightarrow> Inl e | Inr t \<Rightarrow> fold_durations t ys)"
  by (induction xs arbitrary: s) (auto split: sum.split option.split)

lemma fold_statuses_append:
  "fold_statuses s (xs @ ys) = (case fold_statuses s xs of Inl e \<Rightarrow> Inl e | Inr t \<Rightarrow> fold_statuses t ys)"
  by (induction xs arbitrary: s) (auto split: sum.split)

definition counts_inv :: "DecisionRecord list \<Rightarrow> EvaluationAggregate \<Rightarrow> bool" where
  "counts_inv rs a \<longleftrightarrow> ag_bound a \<and> unat (ag_recordCount a) = length rs \<and>
     decisions_rep (ag_decisions a) (map dr_Decision rs) \<and> risks_rep (ag_risks a) (map dr_RiskLevel rs) \<and>
     approvals_rep (ag_approvals a) (map dr_ApprovalStatus rs) \<and>
     policy_rep (ag_policy a) (map dr_MatchedDefault rs)"

definition operational_inv :: "DecisionRecord list \<Rightarrow> EvaluationAggregate \<Rightarrow> bool" where
  "operational_inv rs a \<longleftrightarrow> fold_durations zeroDurations (map dur_obs rs) = Inr (ag_durations a) \<and>
     fold_statuses zeroStatuses (map dr_SpanStatus rs) = Inr (ag_statuses a) \<and>
     list_all (\<lambda>v. v \<le> MaxDurationNanos) (measured (map dur_obs rs))"

definition metrics_inv :: "DecisionRecord list \<Rightarrow> EvaluationAggregate \<Rightarrow> bool" where
  "metrics_inv rs a \<longleftrightarrow>
     (\<forall>r \<in> set rs. in01 (dr_IdentityConfidence r) \<and> in01 (dr_AnomalyScore r) \<and> in01 (dr_AnomalyConfidence r) \<and>
        in01 (dr_TrustScore r) \<and> in01 (dr_ContextRisk r)) \<and>
     metric_rep (ag_identityConfidence a) (map dr_IdentityConfidence rs) \<and>
     metric_rep (ag_anomalyScore a) (map dr_AnomalyScore rs) \<and>
     metric_rep (ag_anomalyConfidence a) (map dr_AnomalyConfidence rs) \<and>
     metric_rep (ag_trustScore a) (map dr_TrustScore rs) \<and> metric_rep (ag_contextRisk a) (map dr_ContextRisk rs)"

definition times_inv :: "DecisionRecord list \<Rightarrow> EvaluationAggregate \<Rightarrow> bool" where
  "times_inv rs a \<longleftrightarrow> (\<forall>r \<in> set rs. t_ns (dr_Timestamp r) \<noteq> 0) \<and>
     t_ns (ag_firstObservedAt a) = (if rs = [] then 0 else Min (set (map (t_ns \<circ> dr_Timestamp) rs))) \<and>
     t_ns (ag_lastObservedAt a) = Max (insert 0 (set (map (t_ns \<circ> dr_Timestamp) rs)))"

lemma room:
  assumes "counts_inv rs a" and "AddRecord_guard a r = None"
  shows "length rs < 2 ^ 64 - 1"
  using assms unat_less_2p64 [of "ag_recordCount a"]
  by (auto simp: counts_inv_def AddRecord_guard_None_iff eq_MaxUint64)

lemma fold_fields [simp]:
  "ag_recordCount (AddRecord_fold a r dc rc apc du sc) = ag_recordCount a + 1"
  "ag_decisions (AddRecord_fold a r dc rc apc du sc) = dc" "ag_risks (AddRecord_fold a r dc rc apc du sc) = rc"
  "ag_approvals (AddRecord_fold a r dc rc apc du sc) = apc" "ag_bound (AddRecord_fold a r dc rc apc du sc) = ag_bound a"
  "ag_durations (AddRecord_fold a r dc rc apc du sc) = du" "ag_statuses (AddRecord_fold a r dc rc apc du sc) = sc"
  "ag_runID (AddRecord_fold a r dc rc apc du sc) = ag_runID a"
  "ag_candidateID (AddRecord_fold a r dc rc apc du sc) = ag_candidateID a"
  "ag_environment (AddRecord_fold a r dc rc apc du sc) = ag_environment a"
  "ag_profile (AddRecord_fold a r dc rc apc du sc) = ag_profile a"
  by (simp_all add: AddRecord_fold_def)

lemma counts_inv_add:
  assumes "counts_inv rs a" and "accepted a r dc rc apc du sc"
  shows "counts_inv (rs @ [r]) (AddRecord_fold a r dc rc apc du sc)"
proof -
  have len: "length rs < 2 ^ 64 - 1" using assms room by (auto simp: accepted_def)
  have "unat (ag_recordCount a + 1) = Suc (length rs)"
    using assms by (auto simp: accepted_def counts_inv_def AddRecord_guard_None_iff unat_Suc_small)
  moreover have "policy_rep (ag_policy (AddRecord_fold a r dc rc apc du sc)) (map dr_MatchedDefault rs @ [dr_MatchedDefault r])"
    using assms(1) len count_step [of _ "map dr_MatchedDefault rs"]
    by (auto simp: counts_inv_def policy_rep_def AddRecord_fold_def)
  ultimately show ?thesis using assms len
    by (auto simp: counts_inv_def accepted_def
        intro: decisions_rep_count risks_rep_count approvals_rep_count)
qed

lemma operational_inv_add:
  assumes "operational_inv rs a" and "accepted a r dc rc apc du sc"
  shows "operational_inv (rs @ [r]) (AddRecord_fold a r dc rc apc du sc)"
  using assms observeOperational_Inr [of "ag_durations a" "ag_statuses a" r du sc]
  by (auto simp: operational_inv_def accepted_def fold_durations_append fold_statuses_append measured_def
      List.map_filter_def)

lemma metrics_inv_add:
  assumes "metrics_inv rs a" and "counts_inv rs a" and "accepted a r dc rc apc du sc"
  shows "metrics_inv (rs @ [r]) (AddRecord_fold a r dc rc apc du sc)"
proof -
  have len: "length rs < 2 ^ 64 - 1" using assms(2,3) room by (auto simp: accepted_def)
  have "in01 (dr_IdentityConfidence r) \<and> in01 (dr_AnomalyScore r) \<and> in01 (dr_AnomalyConfidence r) \<and>
      in01 (dr_TrustScore r) \<and> in01 (dr_ContextRisk r)"
    using assms(3) metrics_None_iff unfolding accepted_def by blast
  then show ?thesis using assms(1) len
    by (auto simp: metrics_inv_def AddRecord_fold_def intro!: metric_rep_observe)
qed

lemma times_inv_add:
  assumes "times_inv rs a" and "accepted a r dc rc apc du sc"
  shows "times_inv (rs @ [r]) (AddRecord_fold a r dc rc apc du sc)"
proof -
  let ?T = "set (map (t_ns \<circ> dr_Timestamp) rs)" and ?t = "t_ns (dr_Timestamp r)"
  have t: "?t \<noteq> 0" using assms(2) by (simp add: accepted_def AddRecord_guard_None_iff)
  have "t_ns (ag_lastObservedAt (AddRecord_fold a r dc rc apc du sc)) = max ?t (t_ns (ag_lastObservedAt a))"
    by (simp add: AddRecord_fold_def Time_After_def max_def)
  also have "\<dots> = max ?t (Max (insert 0 ?T))" using assms(1) unfolding times_inv_def by metis
  also have "\<dots> = Max (insert ?t (insert 0 ?T))" by simp
  also have "insert ?t (insert 0 ?T) = insert 0 (set (map (t_ns \<circ> dr_Timestamp) (rs @ [r])))" by auto
  finally have l: "t_ns (ag_lastObservedAt (AddRecord_fold a r dc rc apc du sc)) =
      Max (insert 0 (set (map (t_ns \<circ> dr_Timestamp) (rs @ [r]))))" .
  have f: "t_ns (ag_firstObservedAt (AddRecord_fold a r dc rc apc du sc)) = Min (insert ?t ?T)"
  proof (cases "rs = []")
    case False
    then have "Min ?T \<in> ?T" by (intro Min_in) auto
    then have nz: "Min ?T \<noteq> 0" using assms(1) by (auto simp: times_inv_def)
    have m: "t_ns (ag_firstObservedAt a) = Min ?T" using assms(1) False unfolding times_inv_def by metis
    have "t_ns (ag_firstObservedAt (AddRecord_fold a r dc rc apc du sc)) = min ?t (t_ns (ag_firstObservedAt a))"
      using nz m by (simp add: AddRecord_fold_def Time_Before_def Time_IsZero_def min_def)
    also have "\<dots> = Min (insert ?t ?T)" unfolding m using False by (subst Min_insert) auto
    finally show ?thesis .
  qed (use assms(1) in \<open>simp add: AddRecord_fold_def times_inv_def Time_IsZero_def\<close>)
  show ?thesis using assms(1) t l f by (auto simp: times_inv_def)
qed

lemma agg_reach_inv:
  "agg_reach run rs a \<Longrightarrow> counts_inv rs a \<and> operational_inv rs a \<and> metrics_inv rs a \<and> times_inv rs a"
proof (induction rule: agg_reach.induct)
  case (empty a)
  then show ?case
    by (auto simp: NewEvaluationAggregate_def counts_inv_def operational_inv_def metrics_inv_def times_inv_def
        decisions_rep_def risks_rep_def approvals_rep_def policy_rep_def metric_rep_def zeroMetric_def
        zeroTime_def split: option.splits)
next
  case (add rs a r a')
  then obtain dc rc apc du sc where "accepted a r dc rc apc du sc" "a' = AddRecord_fold a r dc rc apc du sc"
    by (auto simp: AddRecord_None_iff)
  with add.IH show ?case
    by (auto intro: counts_inv_add operational_inv_add metrics_inv_add times_inv_add)
qed

lemma agg_reach_identity:
  "agg_reach run rs a \<Longrightarrow> ag_bound a \<and> ag_runID a = run_id run \<and> ag_candidateID a = run_candidateID run \<and>
     ag_environment a = run_environment run \<and> ag_profile a = run_profile run"
proof (induction rule: agg_reach.induct)
  case (empty a)
  then show ?case by (auto simp: NewEvaluationAggregate_def split: option.splits)
next
  case (add rs a r a')
  then show ?case by (auto simp: AddRecord_None_iff)
qed

subsection \<open>Properties of aggregation\<close>

lemma count_Inr_iffs:
  "(\<exists>c'. DecisionCounts_count c d = Inr c') \<longleftrightarrow>
     d \<in> {''allow'', ''observe_only'', ''alert'', ''challenge'', ''require_approval'', ''block''}"
  "(\<exists>c'. RiskCounts_count rc rk = Inr c') \<longleftrightarrow> rk \<in> {''low'', ''medium'', ''high'', ''critical''}"
  "(\<exists>c'. ApprovalCounts_count ac st = Inr c') \<longleftrightarrow>
     st \<in> {'''', ''not_required'', ''required'', ''approved'', ''denied''}"
  by (auto simp: DecisionCounts_count_def RiskCounts_count_def ApprovalCounts_count_def)

lemma AddRecord_accepts:
  "snd (AddRecord a r) = None \<longleftrightarrow>
     AddRecord_guard a r = None \<and>
     dr_Decision r \<in> {''allow'', ''observe_only'', ''alert'', ''challenge'', ''require_approval'', ''block''} \<and>
     dr_RiskLevel r \<in> {''low'', ''medium'', ''high'', ''critical''} \<and>
     dr_ApprovalStatus r \<in> {'''', ''not_required'', ''required'', ''approved'', ''denied''} \<and>
     (dr_MatchedDefault r \<longleftrightarrow> dr_PolicyRule r = '''') \<and>
     in01 (dr_IdentityConfidence r) \<and> in01 (dr_AnomalyScore r) \<and> in01 (dr_AnomalyConfidence r) \<and>
     in01 (dr_TrustScore r) \<and> in01 (dr_ContextRisk r) \<and>
     (\<exists>x. observeOperational (ag_durations a) (ag_statuses a) r = Inr x)"
proof -
  have "snd (AddRecord a r) = None \<longleftrightarrow> (\<exists>a'. AddRecord a r = (a', None))" by (cases "AddRecord a r") auto
  also have "\<dots> \<longleftrightarrow> (\<exists>dc rc apc du sc. accepted a r dc rc apc du sc)" by (auto simp: AddRecord_None_iff)
  finally show ?thesis unfolding accepted_def metrics_None_iff AddRecord_selection_None_iff
    unfolding count_Inr_iffs(1) [of "ag_decisions a", symmetric] count_Inr_iffs(2) [of "ag_risks a", symmetric]
      count_Inr_iffs(3) [of "ag_approvals a", symmetric] by auto
qed

text \<open>A record is folded into an aggregate exactly when the aggregate is bound
  and not full and every consumed field of the record is usable; any other record is refused and the
  aggregate is returned exactly as it was.\<close>

theorem add_record_all_or_nothing:
  "(snd (AddRecord a r) \<noteq> None \<longrightarrow> fst (AddRecord a r) = a) \<and>
   (snd (AddRecord a r) = None \<longleftrightarrow>
     ag_bound a \<and> ag_recordCount a \<noteq> MaxUint64 \<and> dr_EventID r \<noteq> '''' \<and> t_ns (dr_Timestamp r) \<noteq> 0 \<and>
     dr_Environment r = ag_environment a \<and> sf_Environment (dr_Behavior r) = dr_Environment r \<and>
     dr_Decision r \<in> {''allow'', ''observe_only'', ''alert'', ''challenge'', ''require_approval'', ''block''} \<and>
     dr_RiskLevel r \<in> {''low'', ''medium'', ''high'', ''critical''} \<and>
     dr_ApprovalStatus r \<in> {'''', ''not_required'', ''required'', ''approved'', ''denied''} \<and>
     (dr_MatchedDefault r \<longleftrightarrow> dr_PolicyRule r = '''') \<and>
     in01 (dr_IdentityConfidence r) \<and> in01 (dr_AnomalyScore r) \<and> in01 (dr_AnomalyConfidence r) \<and>
     in01 (dr_TrustScore r) \<and> in01 (dr_ContextRisk r) \<and>
     (\<exists>x. observeOperational (ag_durations a) (ag_statuses a) r = Inr x))"
  using AddRecord_error [of a r] unfolding AddRecord_accepts AddRecord_guard_None_iff
  by (metis (no_types, lifting) fst_conv option.exhaust snd_conv surj_pair AddRecord_accepts AddRecord_guard_None_iff)

lemma aggregate_operational:
  assumes "agg_reach run rs a"
  shows "dur_rep (ag_durations a) (measured (map dur_obs rs)) (absent (map dur_obs rs))" and "status_rep (ag_statuses a) (map dr_SpanStatus rs)"
proof -
  have inv: "counts_inv rs a" "operational_inv rs a" using agg_reach_inv [OF assms] by auto
  show "dur_rep (ag_durations a) (measured (map dur_obs rs)) (absent (map dur_obs rs))"
    using inv(2) by (simp add: operational_inv_def fold_durations_iff)
  show "status_rep (ag_statuses a) (map dr_SpanStatus rs)"
    using inv unat_less_2p64 [of "ag_recordCount a"] by (simp add: operational_inv_def counts_inv_def fold_statuses_iff)
qed

text \<open>C34. After any sequence of accepted records the record count is the number of records, and every decision,
  risk, approval, policy-selection and span-status counter is the number of records with its value, with no wrap-around; the
  durations count, add up and bound the stated durations and count the records without one; the five metrics count every record;
  and the totals of the counters, as the code adds them up, are the record count.\<close>

theorem aggregate_totals:
  assumes "agg_reach run rs a"
  shows "unat (ag_recordCount a) = length rs \<and>
    (let n = count_list (map dr_Decision rs); c = ag_decisions a in
       unat (dc_Allow c) = n ''allow'' \<and> unat (dc_ObserveOnly c) = n ''observe_only'' \<and> unat (dc_Alert c) = n ''alert'' \<and>
       unat (dc_Challenge c) = n ''challenge'' \<and> unat (dc_RequireApproval c) = n ''require_approval'' \<and> unat (dc_Block c) = n ''block'') \<and>
    (let n = count_list (map dr_RiskLevel rs); c = ag_risks a in
       unat (rc_Low c) = n ''low'' \<and> unat (rc_Medium c) = n ''medium'' \<and> unat (rc_High c) = n ''high'' \<and> unat (rc_Critical c) = n ''critical'') \<and>
    (let n = count_list (map dr_ApprovalStatus rs); c = ag_approvals a in
       unat (apc_Unspecified c) = n '''' \<and> unat (apc_NotRequired c) = n ''not_required'' \<and> unat (apc_Required c) = n ''required'' \<and>
       unat (apc_Approved c) = n ''approved'' \<and> unat (apc_Denied c) = n ''denied'') \<and>
    (let n = count_list (map dr_MatchedDefault rs); c = ag_policy a in
       unat (ps_MatchedDefault c) = n True \<and> unat (ps_MatchedRule c) = n False) \<and>
    (let n = count_list (map dr_SpanStatus rs); c = ag_statuses a in
       unat (sc_Unavailable c) = n '''' \<and> unat (sc_Unset c) = n ''unset'' \<and> unat (sc_OK c) = n ''ok'' \<and> unat (sc_Error c) = n ''error'') \<and>
    (let vs = measured (map dur_obs rs); d = ag_durations a in
       unat (du_Count d) = length vs \<and> unat (du_Unobserved d) = length rs - length vs \<and> unat (du_Sum d) = sum_list (map unat vs) \<and>
       (if vs = [] then du_Min d = 0 \<and> du_Max d = 0 else du_Min d = Min (set vs) \<and> du_Max d = Max (set vs))) \<and>
    list_all (\<lambda>m. ms_Count m = ag_recordCount a)
      [ag_identityConfidence a, ag_anomalyScore a, ag_anomalyConfidence a, ag_trustScore a, ag_contextRisk a] \<and>
    DecisionCounts_Total (ag_decisions a) = ag_recordCount a \<and> RiskCounts_Total (ag_risks a) = ag_recordCount a \<and>
    ApprovalCounts_Total (ag_approvals a) = ag_recordCount a \<and> PolicySelection_Total (ag_policy a) = ag_recordCount a"
proof -
  have inv: "counts_inv rs a" "metrics_inv rs a" using agg_reach_inv [OF assms] by auto
  note op = aggregate_operational [OF assms]
  have n: "ag_recordCount a = of_nat (length rs)"
    using inv(1) by (intro word_of_unat_sum) (simp add: counts_inv_def)
  have "list_all (\<lambda>m. ms_Count m = ag_recordCount a)
      [ag_identityConfidence a, ag_anomalyScore a, ag_anomalyConfidence a, ag_trustScore a, ag_contextRisk a]"
    using inv by (simp add: metrics_inv_def metric_rep_def counts_inv_def word_unat_eq_iff)
  moreover have "DecisionCounts_Total (ag_decisions a) = ag_recordCount a" "RiskCounts_Total (ag_risks a) = ag_recordCount a"
    "ApprovalCounts_Total (ag_approvals a) = ag_recordCount a" "PolicySelection_Total (ag_policy a) = ag_recordCount a"
    unfolding n using inv(1) decisions_total [of "ag_decisions a" "map dr_Decision rs"]
      risks_total [of "ag_risks a" "map dr_RiskLevel rs"] approvals_total [of "ag_approvals a" "map dr_ApprovalStatus rs"]
      policy_total [of "ag_policy a" "map dr_MatchedDefault rs"]
    by (simp_all add: counts_inv_def)
  moreover have "absent (map dur_obs rs) = length rs - length (measured (map dur_obs rs))" using length_measured [of "map dur_obs rs"] by simp
  ultimately show ?thesis
    using inv(1) op by (simp add: counts_inv_def decisions_rep_def risks_rep_def approvals_rep_def policy_rep_def status_rep_def dur_rep_def)
qed

text \<open>The first observation time of an aggregate is the smallest record timestamp.
  The last one is the largest, as long as some record is later than the zero time; otherwise it
  stays the zero time.\<close>

theorem aggregate_time_range:
  assumes "agg_reach run rs a" and "rs \<noteq> []"
  shows "t_ns (ag_firstObservedAt a) = Min (set (map (t_ns \<circ> dr_Timestamp) rs)) \<and>
    t_ns (ag_lastObservedAt a) = max 0 (Max (set (map (t_ns \<circ> dr_Timestamp) rs)))"
proof -
  have "times_inv rs a" using agg_reach_inv [OF assms(1)] by blast
  then show ?thesis using assms(2) by (simp add: times_inv_def)
qed

text \<open>The operational evidence of every reachable aggregate passes the
  validation a stored aggregate is loaded through.\<close>

theorem aggregate_survives_storage:
  assumes "agg_reach run rs a"
  shows "validateRestoredOperational (ag_durations a) (ag_statuses a) (ag_recordCount a) = None"
proof -
  have "operational_inv rs a" "unat (ag_recordCount a) = length rs"
    using agg_reach_inv [OF assms] by (auto simp: counts_inv_def)
  then show ?thesis unfolding restored_exact operational_inv_def
    by (intro conjI exI [of _ "map dur_obs rs"] exI [of _ "map dr_SpanStatus rs"]) auto
qed

end
