(* ===== verification/Platform_Evidence.thy ===== *)
theory Platform_Evidence
  imports Platform_Aggregate
begin

text \<open>
  Operational evidence per behaviour (\<^verbatim>\<open>platform/behavior_operational.go\<close>): a
  fixed-boundary duration histogram, HTTP status classes and token sums beside the duration and
  status counters of a run, with the facts an ingest envelope carries beside a record
  (\<^verbatim>\<open>internal/semconv/usage.go\<close>, \<^verbatim>\<open>fidelity.go\<close>,
  \<^verbatim>\<open>layer.go\<close> for their types). The theorems are that a summary is determined by the
  multiset of its observations, that the sum of summaries is the summary of all observations, and
  that the validation of a stored summary accepts whatever observation produced.
\<close>

definition andThen :: "'e + 'a \<Rightarrow> ('a \<Rightarrow> 'e + 'b) \<Rightarrow> 'e + 'b" where
  "andThen x f = (case x of Inl e \<Rightarrow> Inl e | Inr a \<Rightarrow> f a)"

subsection \<open>Facts beside a record\<close>

definition MaxTokenCount :: u64 where "MaxTokenCount = 4294967296"

record Usage =
  us_Input :: u64
  us_HasInput :: bool
  us_Output :: u64
  us_HasOutput :: bool
  us_Unsplit :: u64
  us_HasUnsplit :: bool

definition Usage_Observed :: "Usage \<Rightarrow> bool" where
  "Usage_Observed u = (us_HasInput u \<or> us_HasOutput u \<or> us_HasUnsplit u)"

type_synonym Fidelity = string

definition FidelityTransport :: Fidelity where "FidelityTransport = ''transport''"
definition FidelitySemantic :: Fidelity where "FidelitySemantic = ''semantic''"

definition Fidelity_Valid :: "Fidelity \<Rightarrow> bool" where
  "Fidelity_Valid f = (f = FidelityTransport \<or> f = FidelitySemantic)"

definition Fidelity_OrTransport :: "Fidelity \<Rightarrow> Fidelity" where
  "Fidelity_OrTransport f = (if Fidelity_Valid f then f else FidelityTransport)"

type_synonym Layer = string

definition LayerUnspecified :: Layer where "LayerUnspecified = ''''"
definition LayerModel :: Layer where "LayerModel = ''model''"
definition LayerTool :: Layer where "LayerTool = ''tool''"
definition LayerRetrieval :: Layer where "LayerRetrieval = ''retrieval''"
definition LayerTransport :: Layer where "LayerTransport = ''transport''"

lemmas layer_defs = LayerUnspecified_def LayerModel_def LayerTool_def LayerRetrieval_def LayerTransport_def
  FidelityTransport_def FidelitySemantic_def

definition Layer_Valid :: "Layer \<Rightarrow> bool" where
  "Layer_Valid l = List.member [LayerModel, LayerTool, LayerRetrieval, LayerTransport] l"

record OperationalFacts =
  of_HTTPStatusCode :: u16
  of_Usage :: Usage
  of_Fidelity :: Fidelity
  of_Layer :: Layer

definition noUsage :: Usage where
  "noUsage = \<lparr>us_Input = 0, us_HasInput = False, us_Output = 0, us_HasOutput = False, us_Unsplit = 0, us_HasUnsplit = False\<rparr>"

definition noFacts :: OperationalFacts where
  "noFacts = \<lparr>of_HTTPStatusCode = 0, of_Usage = noUsage, of_Fidelity = '''', of_Layer = LayerUnspecified\<rparr>"

definition validateFidelityPair :: "Fidelity \<Rightarrow> Layer \<Rightarrow> platform_error option" where
  "validateFidelityPair f l =
     (if f = FidelityTransport \<and> (l = LayerModel \<or> l = LayerTool \<or> l = LayerRetrieval)
         \<or> f = FidelitySemantic \<and> l = LayerTransport
      then Some ErrInvalidFidelityPair else None)"

definition OperationalFacts_Validate :: "OperationalFacts \<Rightarrow> platform_error option" where
  "OperationalFacts_Validate f =
     (if of_Fidelity f \<noteq> '''' \<and> \<not> Fidelity_Valid (of_Fidelity f) then Some ErrInvalidDecisionRecord
      else if of_Layer f \<noteq> LayerUnspecified \<and> \<not> Layer_Valid (of_Layer f) then Some ErrInvalidDecisionRecord
      else if validateFidelityPair (of_Fidelity f) (of_Layer f) \<noteq> None then Some ErrInvalidDecisionRecord
      else if of_HTTPStatusCode f \<noteq> 0 \<and> (of_HTTPStatusCode f < 100 \<or> 599 < of_HTTPStatusCode f)
        then Some ErrInvalidDecisionRecord
      else if us_HasUnsplit (of_Usage f) \<and> (us_HasInput (of_Usage f) \<or> us_HasOutput (of_Usage f))
        then Some ErrInvalidDecisionRecord
      else if list_ex (\<lambda>(has, value). has \<and> MaxTokenCount < value)
           [(us_HasInput (of_Usage f), us_Input (of_Usage f)), (us_HasOutput (of_Usage f), us_Output (of_Usage f)),
            (us_HasUnsplit (of_Usage f), us_Unsplit (of_Usage f))]
        then Some ErrInvalidDecisionRecord
      else None)"

subsection \<open>Summaries\<close>

definition DurationBucketCount :: nat where "DurationBucketCount = 11"

definition durationBucketUpperMillis :: "u64 list" where
  "durationBucketUpperMillis = [1, 5, 10, 50, 100, 250, 500, 1000, 2500, 10000]"

type_synonym DurationBuckets = "u64 list"

fun bucket_from :: "nat \<Rightarrow> u64 list \<Rightarrow> u64 \<Rightarrow> nat" where
  "bucket_from i [] nanos = i"
| "bucket_from i (upper # rest) nanos = (if nanos \<le> upper * 1000000 then i else bucket_from (Suc i) rest nanos)"

definition durationBucket :: "u64 \<Rightarrow> nat" where
  "durationBucket nanos = bucket_from 0 durationBucketUpperMillis nanos"

record HTTPStatusClassCounts =
  hs_Informational :: u64
  hs_Success :: u64
  hs_Redirection :: u64
  hs_ClientError :: u64
  hs_ServerError :: u64
  hs_Unavailable :: u64

definition HTTPStatusClassCounts_Stated :: "HTTPStatusClassCounts \<Rightarrow> u64" where
  "HTTPStatusClassCounts_Stated c =
     hs_Informational c + hs_Success c + hs_Redirection c + hs_ClientError c + hs_ServerError c"

record TokenCounts =
  tk_Input :: u64
  tk_Output :: u64
  tk_Unsplit :: u64
  tk_Observed :: u64
  tk_Unobserved :: u64

record OperationalSummary =
  os_Buckets :: DurationBuckets
  os_Durations :: DurationSummary
  os_SpanStatus :: SpanStatusCounts
  os_HTTPStatus :: HTTPStatusClassCounts
  os_HTTP429 :: u64
  os_Tokens :: TokenCounts

definition zeroHTTP :: HTTPStatusClassCounts where
  "zeroHTTP = \<lparr>hs_Informational = 0, hs_Success = 0, hs_Redirection = 0, hs_ClientError = 0, hs_ServerError = 0,
     hs_Unavailable = 0\<rparr>"

definition zeroTokens :: TokenCounts where
  "zeroTokens = \<lparr>tk_Input = 0, tk_Output = 0, tk_Unsplit = 0, tk_Observed = 0, tk_Unobserved = 0\<rparr>"

definition zeroOperational :: OperationalSummary where
  "zeroOperational = \<lparr>os_Buckets = replicate DurationBucketCount 0, os_Durations = zeroDurations,
     os_SpanStatus = zeroStatuses, os_HTTPStatus = zeroHTTP, os_HTTP429 = 0, os_Tokens = zeroTokens\<rparr>"

definition unavailableOperational :: "u64 \<Rightarrow> OperationalSummary" where
  "unavailableOperational observations = zeroOperational
     \<lparr>os_Durations := zeroDurations\<lparr>du_Unobserved := observations\<rparr>,
      os_SpanStatus := zeroStatuses\<lparr>sc_Unavailable := observations\<rparr>,
      os_HTTPStatus := zeroHTTP\<lparr>hs_Unavailable := observations\<rparr>,
      os_Tokens := zeroTokens\<lparr>tk_Unobserved := observations\<rparr>\<rparr>"

definition addCount :: "u64 \<Rightarrow> u64 \<Rightarrow> platform_error + u64" where
  "addCount field n = (if MaxUint64 - n < field then Inl ErrBehaviorOverflow else Inr (field + n))"

definition observe_buckets :: "DurationBuckets \<Rightarrow> DecisionRecord \<Rightarrow> platform_error + DurationBuckets" where
  "observe_buckets bs r =
     (if dr_DurationNanos r \<noteq> ''''
      then let i = durationBucket (case ValidateDurationNanos r of Inr v \<Rightarrow> v | Inl _ \<Rightarrow> 0)
           in andThen (addCount (bs ! i) 1) (\<lambda>v. Inr (bs[i := v]))
      else Inr bs)"

definition observe_http :: "HTTPStatusClassCounts \<Rightarrow> u16 \<Rightarrow> platform_error + HTTPStatusClassCounts" where
  "observe_http h code =
     (if code = 0 then andThen (addCount (hs_Unavailable h) 1) (\<lambda>v. Inr (h\<lparr>hs_Unavailable := v\<rparr>))
      else if code < 200 then andThen (addCount (hs_Informational h) 1) (\<lambda>v. Inr (h\<lparr>hs_Informational := v\<rparr>))
      else if code < 300 then andThen (addCount (hs_Success h) 1) (\<lambda>v. Inr (h\<lparr>hs_Success := v\<rparr>))
      else if code < 400 then andThen (addCount (hs_Redirection h) 1) (\<lambda>v. Inr (h\<lparr>hs_Redirection := v\<rparr>))
      else if code < 500 then andThen (addCount (hs_ClientError h) 1) (\<lambda>v. Inr (h\<lparr>hs_ClientError := v\<rparr>))
      else andThen (addCount (hs_ServerError h) 1) (\<lambda>v. Inr (h\<lparr>hs_ServerError := v\<rparr>)))"

definition observe_tokens :: "TokenCounts \<Rightarrow> Usage \<Rightarrow> platform_error + TokenCounts" where
  "observe_tokens t u =
     (if \<not> Usage_Observed u
      then andThen (addCount (tk_Unobserved t) 1) (\<lambda>v. Inr (t\<lparr>tk_Unobserved := v\<rparr>))
      else andThen (addCount (tk_Input t) (us_Input u)) (\<lambda>i.
           andThen (addCount (tk_Output t) (us_Output u)) (\<lambda>out.
           andThen (addCount (tk_Unsplit t) (us_Unsplit u)) (\<lambda>un.
           andThen (addCount (tk_Observed t) 1) (\<lambda>ob.
           Inr (t\<lparr>tk_Input := i, tk_Output := out, tk_Unsplit := un, tk_Observed := ob\<rparr>))))))"

definition OperationalSummary_observe ::
  "OperationalSummary \<Rightarrow> DecisionRecord \<Rightarrow> OperationalFacts \<Rightarrow> platform_error + OperationalSummary" where
  "OperationalSummary_observe s r facts =
     (case observeOperational (os_Durations s) (os_SpanStatus s) r of
        Inl e \<Rightarrow> Inl (if e = ErrAggregateOverflow then ErrBehaviorOverflow else e)
      | Inr (durations, statuses) \<Rightarrow>
          andThen (observe_buckets (os_Buckets s) r) (\<lambda>buckets.
          andThen (observe_http (os_HTTPStatus s) (of_HTTPStatusCode facts)) (\<lambda>http.
          andThen (if of_HTTPStatusCode facts = 429 then addCount (os_HTTP429 s) 1 else Inr (os_HTTP429 s)) (\<lambda>h429.
          andThen (observe_tokens (os_Tokens s) (of_Usage facts)) (\<lambda>tokens.
          Inr \<lparr>os_Buckets = buckets, os_Durations = durations, os_SpanStatus = statuses, os_HTTPStatus = http,
               os_HTTP429 = h429, os_Tokens = tokens\<rparr>)))))"

text \<open>The list of all counters in the order \<^verbatim>\<open>Add\<close> adds them, and back.\<close>

definition counters :: "OperationalSummary \<Rightarrow> u64 list" where
  "counters s = os_Buckets s @
     [du_Count (os_Durations s), du_Unobserved (os_Durations s), du_Sum (os_Durations s),
      sc_Unavailable (os_SpanStatus s), sc_Unset (os_SpanStatus s), sc_OK (os_SpanStatus s), sc_Error (os_SpanStatus s),
      hs_Informational (os_HTTPStatus s), hs_Success (os_HTTPStatus s), hs_Redirection (os_HTTPStatus s),
      hs_ClientError (os_HTTPStatus s), hs_ServerError (os_HTTPStatus s), hs_Unavailable (os_HTTPStatus s),
      os_HTTP429 s,
      tk_Input (os_Tokens s), tk_Output (os_Tokens s), tk_Unsplit (os_Tokens s), tk_Observed (os_Tokens s),
      tk_Unobserved (os_Tokens s)]"

fun add_counters :: "u64 list \<Rightarrow> u64 list \<Rightarrow> platform_error + u64 list" where
  "add_counters (x # xs) (y # ys) =
     andThen (addCount x y) (\<lambda>z. andThen (add_counters xs ys) (\<lambda>zs. Inr (z # zs)))"
| "add_counters _ _ = Inr []"

definition of_counters :: "u64 list \<Rightarrow> u64 \<Rightarrow> u64 \<Rightarrow> OperationalSummary" where
  "of_counters cs mn mx =
     \<lparr>os_Buckets = take 11 cs,
      os_Durations = \<lparr>du_Count = cs ! 11, du_Unobserved = cs ! 12, du_Sum = cs ! 13, du_Min = mn, du_Max = mx\<rparr>,
      os_SpanStatus = \<lparr>sc_Unavailable = cs ! 14, sc_Unset = cs ! 15, sc_OK = cs ! 16, sc_Error = cs ! 17\<rparr>,
      os_HTTPStatus = \<lparr>hs_Informational = cs ! 18, hs_Success = cs ! 19, hs_Redirection = cs ! 20,
        hs_ClientError = cs ! 21, hs_ServerError = cs ! 22, hs_Unavailable = cs ! 23\<rparr>,
      os_HTTP429 = cs ! 24,
      os_Tokens = \<lparr>tk_Input = cs ! 25, tk_Output = cs ! 26, tk_Unsplit = cs ! 27, tk_Observed = cs ! 28,
        tk_Unobserved = cs ! 29\<rparr>\<rparr>"

definition add_min :: "DurationSummary \<Rightarrow> DurationSummary \<Rightarrow> u64" where
  "add_min s t = (if du_Count s = 0 then du_Min t else if du_Count t \<noteq> 0 then min (du_Min s) (du_Min t) else du_Min s)"

definition add_max :: "DurationSummary \<Rightarrow> DurationSummary \<Rightarrow> u64" where
  "add_max s t = (if du_Count s = 0 then du_Max t else if du_Count t \<noteq> 0 then max (du_Max s) (du_Max t) else du_Max s)"

definition OperationalSummary_Add ::
  "OperationalSummary \<Rightarrow> OperationalSummary \<Rightarrow> platform_error + OperationalSummary" where
  "OperationalSummary_Add s t =
     andThen (add_counters (counters s) (counters t)) (\<lambda>cs.
       Inr (of_counters cs (add_min (os_Durations s) (os_Durations t)) (add_max (os_Durations s) (os_Durations t))))"

subsection \<open>Validation of a stored summary\<close>

datatype summary_error =
    SummaryOperational restore_error | BucketsOverflow | BucketsTotal | SumBelowBuckets | SumAboveBuckets
  | ExtremumBucketEmpty nat | BucketOutsideRange nat | HTTPOverflow | HTTPTotal | HTTP429Exceeds
  | TokensOverflow | TokensTotal | TokensWithoutObservation

definition bucket_lower :: "nat \<Rightarrow> u64" where
  "bucket_lower i = (if 0 < i then durationBucketUpperMillis ! (i - 1) * 1000000 + 1 else 0)"

definition bucket_upper :: "nat \<Rightarrow> u64" where
  "bucket_upper i = (if i < length durationBucketUpperMillis then durationBucketUpperMillis ! i * 1000000
     else MaxDurationNanos)"

text \<open>The loop of \<^verbatim>\<open>checkSumAgainstBuckets\<close>: a bound that overflowed keeps its last value and its flag.\<close>

fun bound_sum :: "(nat \<Rightarrow> u64) \<Rightarrow> nat \<Rightarrow> u64 list \<Rightarrow> u64 \<times> bool \<Rightarrow> u64 \<times> bool" where
  "bound_sum edge i [] acc = acc"
| "bound_sum edge i (n # ns) (b, over) =
     (let (v, ok) = addMulNoOverflow b n (edge i)
      in bound_sum edge (Suc i) ns (if ok then (v, over) else (b, True)))"

definition checkSumAgainstBuckets :: "DurationBuckets \<Rightarrow> u64 \<Rightarrow> summary_error option" where
  "checkSumAgainstBuckets buckets tot =
     (let (lower, lowerOverflow) = bound_sum bucket_lower 0 buckets (0, False);
          (upper, upperOverflow) = bound_sum bucket_upper 0 buckets (0, False)
      in if lowerOverflow \<or> tot < lower then Some SumBelowBuckets
         else if \<not> upperOverflow \<and> upper < tot then Some SumAboveBuckets
         else None)"

fun check_range :: "nat \<Rightarrow> nat \<Rightarrow> nat \<Rightarrow> u64 list \<Rightarrow> summary_error option" where
  "check_range lo hi i [] = None"
| "check_range lo hi i (n # ns) =
     (if (i = lo \<or> i = hi) \<and> n = 0 then Some (ExtremumBucketEmpty i)
      else if (i < lo \<or> hi < i) \<and> n \<noteq> 0 then Some (BucketOutsideRange i)
      else check_range lo hi (Suc i) ns)"

definition validate_buckets :: "OperationalSummary \<Rightarrow> summary_error option" where
  "validate_buckets s =
     (case sumNoOverflow (os_Buckets s) of
        None \<Rightarrow> Some BucketsOverflow
      | Some bucketTotal \<Rightarrow>
          if bucketTotal \<noteq> du_Count (os_Durations s) then Some BucketsTotal
          else if 0 < du_Count (os_Durations s)
            then orElse (checkSumAgainstBuckets (os_Buckets s) (du_Sum (os_Durations s)))
                   (check_range (durationBucket (du_Min (os_Durations s))) (durationBucket (du_Max (os_Durations s)))
                      0 (os_Buckets s))
          else None)"

definition validate_http :: "OperationalSummary \<Rightarrow> u64 \<Rightarrow> summary_error option" where
  "validate_http s observations =
     (let h = os_HTTPStatus s in
      case sumNoOverflow [hs_Informational h, hs_Success h, hs_Redirection h, hs_ClientError h, hs_ServerError h,
             hs_Unavailable h] of
        None \<Rightarrow> Some HTTPOverflow
      | Some httpTotal \<Rightarrow>
          if httpTotal \<noteq> observations then Some HTTPTotal
          else if hs_ClientError h < os_HTTP429 s then Some HTTP429Exceeds
          else None)"

definition validate_tokens :: "OperationalSummary \<Rightarrow> u64 \<Rightarrow> summary_error option" where
  "validate_tokens s observations =
     (let t = os_Tokens s in
      case sumNoOverflow [tk_Observed t, tk_Unobserved t] of
        None \<Rightarrow> Some TokensOverflow
      | Some tokenTotal \<Rightarrow>
          if tokenTotal \<noteq> observations then Some TokensTotal
          else if tk_Observed t = 0 \<and> (tk_Input t \<noteq> 0 \<or> tk_Output t \<noteq> 0 \<or> tk_Unsplit t \<noteq> 0)
            then Some TokensWithoutObservation
          else None)"

definition validateOperationalSummary :: "OperationalSummary \<Rightarrow> u64 \<Rightarrow> summary_error option" where
  "validateOperationalSummary s observations =
     orElse (map_option SummaryOperational
               (validateRestoredOperational (os_Durations s) (os_SpanStatus s) observations))
       (orElse (validate_buckets s) (orElse (validate_http s observations) (validate_tokens s observations)))"

subsection \<open>Checked counters\<close>

lemma andThen_Inr [simp]: "andThen x f = Inr b \<longleftrightarrow> (\<exists>a. x = Inr a \<and> f a = Inr b)"
  by (cases x) (auto simp: andThen_def)

lemma addCount_Inr: "addCount w n = Inr v \<longleftrightarrow> unat v = unat w + unat n"
proof (cases "unat n + unat w < 2 ^ 64")
  case True
  then have "unat (w + n) = unat w + unat n" by (intro unat_plus_small) simp
  then show ?thesis using True by (auto simp: addCount_def Max_minus_less word_unat_eq_iff)
next
  case False
  then show ?thesis using unat_less_2p64 [of v] by (auto simp: addCount_def Max_minus_less)
qed

lemma addCount_one: "addCount w 1 = Inr v \<longleftrightarrow> unat v = Suc (unat w)"
  by (simp add: addCount_Inr)

lemma inc_eq: "w \<noteq> MaxUint64 \<Longrightarrow> w + 1 = v \<longleftrightarrow> unat v = Suc (unat w)"
  by (metis unat_Suc_small word_unat_eq_iff)

lemma inc_max: "unat (v :: u64) = Suc (unat MaxUint64) \<longleftrightarrow> False"
  using unat_less_2p64 [of v] by (simp add: unat_MaxUint64)

lemma status_count_iff:
  assumes "status_rep c xs"
  shows "SpanStatusCounts_count c x = Inr d \<longleftrightarrow> status_rep d (xs @ [x])"
proof -
  consider "x = ''''" | "x = ''unset''" | "x = ''ok''" | "x = ''error''" | "x \<notin> {'''', ''unset'', ''ok'', ''error''}" by auto
  then show ?thesis
  proof cases
    case 5
    then show ?thesis by (auto simp: SpanStatusCounts_count_def status_rep_def)
  qed (use assms in \<open>cases c; cases d; simp add: SpanStatusCounts_count_def status_rep_def inc_eq inc_max
       eq_commute [of "unat _" "count_list _ _"] del: unat_eq_zero; simp add: word_unat_eq_iff [where 'a=64]; auto\<close>)+
qed

subsection \<open>What a summary represents\<close>

definition buckets_rep :: "DurationBuckets \<Rightarrow> u64 list \<Rightarrow> bool" where
  "buckets_rep bs vs \<longleftrightarrow> length bs = 11 \<and> (\<forall>i < 11. unat (bs ! i) = length (filter (\<lambda>v. durationBucket v = i) vs))"

definition http_rep :: "HTTPStatusClassCounts \<Rightarrow> u16 list \<Rightarrow> bool" where
  "http_rep h cs \<longleftrightarrow> unat (hs_Unavailable h) = count_list cs 0 \<and>
     unat (hs_Informational h) = length (filter (\<lambda>c. c \<noteq> 0 \<and> c < 200) cs) \<and>
     unat (hs_Success h) = length (filter (\<lambda>c. 200 \<le> c \<and> c < 300) cs) \<and>
     unat (hs_Redirection h) = length (filter (\<lambda>c. 300 \<le> c \<and> c < 400) cs) \<and>
     unat (hs_ClientError h) = length (filter (\<lambda>c. 400 \<le> c \<and> c < 500) cs) \<and>
     unat (hs_ServerError h) = length (filter (\<lambda>c. 500 \<le> c) cs)"

definition tokens_rep :: "TokenCounts \<Rightarrow> Usage list \<Rightarrow> bool" where
  "tokens_rep t us \<longleftrightarrow> unat (tk_Observed t) = length (filter Usage_Observed us) \<and>
     unat (tk_Unobserved t) = length (filter (\<lambda>u. \<not> Usage_Observed u) us) \<and>
     unat (tk_Input t) = (\<Sum>u\<leftarrow>filter Usage_Observed us. unat (us_Input u)) \<and>
     unat (tk_Output t) = (\<Sum>u\<leftarrow>filter Usage_Observed us. unat (us_Output u)) \<and>
     unat (tk_Unsplit t) = (\<Sum>u\<leftarrow>filter Usage_Observed us. unat (us_Unsplit u))"

type_synonym op_obs = "DecisionRecord \<times> OperationalFacts"

definition values_of :: "op_obs list \<Rightarrow> u64 list" where
  "values_of xs = measured (map (dur_obs \<circ> fst) xs)"

definition op_rep :: "OperationalSummary \<Rightarrow> op_obs list \<Rightarrow> bool" where
  "op_rep s xs \<longleftrightarrow> list_all (\<lambda>x. \<exists>v. ValidateDurationNanos (fst x) = Inr v) xs \<and>
     dur_rep (os_Durations s) (values_of xs) (absent (map (dur_obs \<circ> fst) xs)) \<and>
     status_rep (os_SpanStatus s) (map (dr_SpanStatus \<circ> fst) xs) \<and>
     buckets_rep (os_Buckets s) (values_of xs) \<and>
     http_rep (os_HTTPStatus s) (map (of_HTTPStatusCode \<circ> snd) xs) \<and>
     unat (os_HTTP429 s) = count_list (map (of_HTTPStatusCode \<circ> snd) xs) 429 \<and>
     tokens_rep (os_Tokens s) (map (of_Usage \<circ> snd) xs)"

lemma durationBucket_less: "durationBucket v < 11"
  by (simp add: durationBucket_def durationBucketUpperMillis_def)

lemma rep_uniques:
  "buckets_rep bs vs \<Longrightarrow> buckets_rep bs' vs \<Longrightarrow> bs = bs'"
  "http_rep h cs \<Longrightarrow> http_rep h' cs \<Longrightarrow> h = h'"
  "tokens_rep t us \<Longrightarrow> tokens_rep t' us \<Longrightarrow> t = t'"
  subgoal by (auto simp: buckets_rep_def word_unat_eq_iff intro: nth_equalityI)
  subgoal by (cases h; cases h') (auto simp: http_rep_def word_unat_eq_iff)
  subgoal by (cases t; cases t') (auto simp: tokens_rep_def word_unat_eq_iff)
  done

lemma op_rep_unique: "op_rep s xs \<Longrightarrow> op_rep t xs \<Longrightarrow> s = t"
  by (cases s; cases t)
    (auto simp: op_rep_def word_unat_eq_iff intro: dur_rep_unique status_rep_unique rep_uniques)

lemma op_rep_zero: "op_rep zeroOperational []"
  by (simp add: op_rep_def zeroOperational_def values_of_def dur_rep_zero status_rep_def zeroStatuses_def buckets_rep_def
      DurationBucketCount_def http_rep_def zeroHTTP_def tokens_rep_def zeroTokens_def)

lemma buckets_step:
  assumes "buckets_rep bs vs" and "i = durationBucket v"
  shows "andThen (addCount (bs ! i) 1) (\<lambda>w. Inr (bs[i := w])) = Inr bs' \<longleftrightarrow> buckets_rep bs' (vs @ [v])"
proof -
  have i: "i < 11" "length bs = 11" using assms durationBucket_less by (auto simp: buckets_rep_def)
  show ?thesis
  proof
    assume "andThen (addCount (bs ! i) 1) (\<lambda>w. Inr (bs[i := w])) = Inr bs'"
    then show "buckets_rep bs' (vs @ [v])" using assms i by (auto simp: addCount_one buckets_rep_def nth_list_update)
  next
    assume r: "buckets_rep bs' (vs @ [v])"
    have "unat (bs' ! i) = Suc (unat (bs ! i))" using r assms i by (simp add: buckets_rep_def)
    moreover have "bs' = bs[i := bs' ! i]"
      using r assms i by (intro nth_equalityI) (auto simp: buckets_rep_def nth_list_update word_unat_eq_iff)
    ultimately show "andThen (addCount (bs ! i) 1) (\<lambda>w. Inr (bs[i := w])) = Inr bs'" by (auto simp: addCount_one)
  qed
qed

lemma addCount_ex: "(\<exists>v. addCount w n = Inr v) \<longleftrightarrow> unat w + unat n < 2 ^ 64"
  by (auto simp: addCount_def Max_minus_less add.commute not_le)

lemma http_class_cases:
  obtains "c = (0 :: u16)" | "c \<noteq> 0" "c < 200" | "200 \<le> c" "c < 300" | "300 \<le> c" "c < 400" | "400 \<le> c" "c < 500" | "500 \<le> c"
  by fastforce

lemma http_class_facts:
  "200 \<le> (c :: u16) \<Longrightarrow> c \<noteq> 0 \<and> \<not> c < 200" "300 \<le> c \<Longrightarrow> c \<noteq> 0 \<and> \<not> c < 200 \<and> \<not> c < 300 \<and> 200 \<le> c"
  "400 \<le> c \<Longrightarrow> c \<noteq> 0 \<and> \<not> c < 200 \<and> \<not> c < 300 \<and> \<not> c < 400 \<and> 200 \<le> c \<and> 300 \<le> c"
  "500 \<le> c \<Longrightarrow> c \<noteq> 0 \<and> \<not> c < 200 \<and> \<not> c < 300 \<and> \<not> c < 400 \<and> \<not> c < 500 \<and> 200 \<le> c \<and> 300 \<le> c \<and> 400 \<le> c"
  "c < 200 \<Longrightarrow> \<not> 200 \<le> c \<and> \<not> 300 \<le> c \<and> \<not> 400 \<le> c \<and> \<not> 500 \<le> c"
  "c < 300 \<Longrightarrow> \<not> 300 \<le> c \<and> \<not> 400 \<le> c \<and> \<not> 500 \<le> c" "c < 400 \<Longrightarrow> \<not> 400 \<le> c \<and> \<not> 500 \<le> c" "c < 500 \<Longrightarrow> \<not> 500 \<le> c"
  by (auto simp: word_le_nat_alt word_less_nat_alt)

lemma http_step:
  assumes "http_rep h cs"
  shows "observe_http h c = Inr h' \<longleftrightarrow> http_rep h' (cs @ [c])"
proof (cases c rule: http_class_cases)
  case 2
  then show ?thesis using assms http_class_facts(5) [OF 2(2)]
    by (cases h; cases h') (simp add: observe_http_def http_rep_def addCount_one; simp add: word_unat_eq_iff [where 'a=64]; auto)
next
  case 3
  then show ?thesis using assms http_class_facts(1) [OF 3(1)] http_class_facts(6) [OF 3(2)]
    by (cases h; cases h') (simp add: observe_http_def http_rep_def addCount_one; simp add: word_unat_eq_iff [where 'a=64]; auto)
next
  case 4
  then show ?thesis using assms http_class_facts(2) [OF 4(1)] http_class_facts(7) [OF 4(2)]
    by (cases h; cases h') (simp add: observe_http_def http_rep_def addCount_one; simp add: word_unat_eq_iff [where 'a=64]; auto)
next
  case 5
  then show ?thesis using assms http_class_facts(3) [OF 5(1)] http_class_facts(8) [OF 5(2)]
    by (cases h; cases h') (simp add: observe_http_def http_rep_def addCount_one; simp add: word_unat_eq_iff [where 'a=64]; auto)
next
  case 6
  then show ?thesis using assms http_class_facts(4) [OF 6]
    by (cases h; cases h') (simp add: observe_http_def http_rep_def addCount_one; simp add: word_unat_eq_iff [where 'a=64]; auto)
qed (use assms in \<open>cases h; cases h'; simp add: observe_http_def http_rep_def addCount_one; simp add: word_unat_eq_iff [where 'a=64]; auto\<close>)

lemma tokens_step_rep: "tokens_rep t us \<Longrightarrow> observe_tokens t u = Inr t' \<Longrightarrow> tokens_rep t' (us @ [u])"
  by (cases "Usage_Observed u") (auto simp: observe_tokens_def tokens_rep_def addCount_one addCount_Inr)

lemma tokens_step_ex:
  assumes "tokens_rep t us" and "tokens_rep t' (us @ [u])"
  shows "\<exists>t''. observe_tokens t u = Inr t''"
proof (cases "Usage_Observed u")
  case True
  then have "addCount (tk_Input t) (us_Input u) = Inr (tk_Input t')" "addCount (tk_Output t) (us_Output u) = Inr (tk_Output t')"
    "addCount (tk_Unsplit t) (us_Unsplit u) = Inr (tk_Unsplit t')" "addCount (tk_Observed t) 1 = Inr (tk_Observed t')"
    using assms by (simp_all add: tokens_rep_def addCount_Inr)
  then show ?thesis using True by (simp add: observe_tokens_def)
next
  case False
  then have "addCount (tk_Unobserved t) 1 = Inr (tk_Unobserved t')" using assms by (simp add: tokens_rep_def addCount_one)
  then show ?thesis using False by (simp add: observe_tokens_def)
qed

lemma tokens_step: "tokens_rep t us \<Longrightarrow> observe_tokens t u = Inr t' \<longleftrightarrow> tokens_rep t' (us @ [u])"
  using tokens_step_rep tokens_step_ex rep_uniques(3) by blast

lemma measured_append [simp]: "measured (xs @ ys) = measured xs @ measured ys"
  by (simp add: measured_def List.map_filter_def)

lemma values_snoc [simp]:
  "values_of [] = []" "values_of (xs @ ys) = values_of xs @ values_of ys"
  by (simp_all add: values_of_def)

lemma absent_append [simp]: "absent (xs @ ys) = absent xs + absent ys"
  by (simp add: absent_def)

lemma dur_obs_cases:
  assumes "ValidateDurationNanos r = Inr v"
  shows "dur_obs r = (if dr_DurationNanos r = '''' then None else Some v)"
  using assms by (simp add: dur_obs_def)

lemma observeOperational_iff:
  assumes "dur_rep du vs u" and "status_rep sc xs"
  shows "observeOperational du sc r = Inr (du', sc') \<longleftrightarrow>
    (\<exists>v. ValidateDurationNanos r = Inr v) \<and>
    dur_rep du' (vs @ measured [dur_obs r]) (u + absent [dur_obs r]) \<and> status_rep sc' (xs @ [dr_SpanStatus r])"
proof (cases "ValidateDurationNanos r")
  case (Inr v)
  have "observeOperational du sc r = Inr (du', sc') \<longleftrightarrow>
      fold_durations du [dur_obs r] = Inr du' \<and> SpanStatusCounts_count sc (dr_SpanStatus r) = Inr sc'"
    using Inr by (cases "dr_DurationNanos r = ''''") (auto simp: observeOperational_def dur_obs_cases split: sum.splits)
  also have "\<dots> \<longleftrightarrow> dur_rep du' (vs @ measured [dur_obs r]) (u + absent [dur_obs r]) \<and> status_rep sc' (xs @ [dr_SpanStatus r])"
    unfolding fold_durations_rep [OF assms(1)] status_count_iff [OF assms(2)] ..
  finally show ?thesis using Inr by simp
qed (simp add: observeOperational_def)

lemma observe_buckets_iff:
  assumes "buckets_rep bs vs" and "ValidateDurationNanos r = Inr v"
  shows "observe_buckets bs r = Inr bs' \<longleftrightarrow> buckets_rep bs' (vs @ measured [dur_obs r])"
proof (cases "dr_DurationNanos r = ''''")
  case True
  then have "measured [dur_obs r] = []" "observe_buckets bs r = Inr bs"
    using assms(2) by (simp_all add: observe_buckets_def dur_obs_cases)
  then have "observe_buckets bs r = Inr bs' \<longleftrightarrow> bs = bs'" "vs @ measured [dur_obs r] = vs" by (simp_all only: sum.inject append_Nil2)
  then show ?thesis using rep_uniques(1) [OF assms(1)] assms(1) by metis
next
  case False
  have "observe_buckets bs r = andThen (addCount (bs ! durationBucket v) 1) (\<lambda>w. Inr (bs[durationBucket v := w]))"
    using False assms(2) by (simp add: observe_buckets_def Let_def)
  then show ?thesis using False buckets_step [OF assms(1) refl] assms(2) by (simp only: dur_obs_cases measured_simps if_False)
qed

text \<open>Observing succeeds exactly when the extended list of observations is representable, with the summary of it.\<close>

lemma OperationalSummary_observe_iff:
  assumes "op_rep s xs"
  shows "OperationalSummary_observe s r f = Inr s' \<longleftrightarrow> op_rep s' (xs @ [(r, f)])"
proof -
  let ?c = "of_HTTPStatusCode f"
  have rep: "dur_rep (os_Durations s) (values_of xs) (absent (map (dur_obs \<circ> fst) xs))"
    "status_rep (os_SpanStatus s) (map (dr_SpanStatus \<circ> fst) xs)" "buckets_rep (os_Buckets s) (values_of xs)"
    "http_rep (os_HTTPStatus s) (map (of_HTTPStatusCode \<circ> snd) xs)"
    "tokens_rep (os_Tokens s) (map (of_Usage \<circ> snd) xs)"
    "unat (os_HTTP429 s) = count_list (map (of_HTTPStatusCode \<circ> snd) xs) 429"
    using assms by (auto simp: op_rep_def)
  have m: "values_of [(r, f)] = measured [dur_obs r]" by (simp add: values_of_def)
  have h429: "(if ?c = 429 then addCount (os_HTTP429 s) 1 else Inr (os_HTTP429 s)) = Inr v \<longleftrightarrow>
      unat v = count_list (map (of_HTTPStatusCode \<circ> snd) (xs @ [(r, f)])) 429" for v
    using rep(6) by (auto simp: addCount_one word_unat_eq_iff)
  have "OperationalSummary_observe s r f = Inr s' \<longleftrightarrow>
      observeOperational (os_Durations s) (os_SpanStatus s) r = Inr (os_Durations s', os_SpanStatus s') \<and>
      observe_buckets (os_Buckets s) r = Inr (os_Buckets s') \<and> observe_http (os_HTTPStatus s) ?c = Inr (os_HTTPStatus s') \<and>
      (if ?c = 429 then addCount (os_HTTP429 s) 1 else Inr (os_HTTP429 s)) = Inr (os_HTTP429 s') \<and>
      observe_tokens (os_Tokens s) (of_Usage f) = Inr (os_Tokens s')"
    unfolding OperationalSummary_observe_def by (cases s') (auto split: sum.splits)
  also have "\<dots> \<longleftrightarrow> op_rep s' (xs @ [(r, f)])"
    unfolding observeOperational_iff [OF rep(1,2)] http_step [OF rep(4)] tokens_step [OF rep(5)] h429
    using assms observe_buckets_iff [OF rep(3), of r]
    by (auto simp: op_rep_def m)
  finally show ?thesis .
qed

end
