(* ===== verification/Platform_Summary.thy ===== *)
theory Platform_Summary
  imports Platform_Evidence "HOL-Library.Multiset"
begin

text \<open>
  What the operational summary of a behaviour promises: it is a function of the multiset of its
  observations, summaries add up to the summary of all observations
  (\<^verbatim>\<open>OperationalSummary.Add\<close>), and a stored summary that observation produced passes
  \<^verbatim>\<open>validateOperationalSummary\<close>.
\<close>

subsection \<open>Histogram edges\<close>

fun edge_sum :: "(nat \<Rightarrow> u64) \<Rightarrow> nat \<Rightarrow> u64 list \<Rightarrow> nat" where
  "edge_sum edge i [] = 0"
| "edge_sum edge i (n # ns) = unat n * unat (edge i) + edge_sum edge (Suc i) ns"

lemma bound_sum_sticky: "snd (bound_sum edge i ns (b, True))"
  by (induction ns arbitrary: i b) (auto simp: Let_def split: prod.split)

lemma bound_sum_exact:
  "if unat b + edge_sum edge i ns < 2 ^ 64
   then bound_sum edge i ns (b, False) = (b + of_nat (edge_sum edge i ns), False)
   else snd (bound_sum edge i ns (b, False))"
proof (induction ns arbitrary: i b)
  case Nil
  show ?case using unat_less_2p64 [of b] by simp
next
  case (Cons n ns)
  show ?case
  proof (cases "unat b + unat n * unat (edge i) < 2 ^ 64")
    case True
    then have "unat n * unat (edge i) < 2 ^ 64" by linarith
    then have u: "unat (b + n * edge i) = unat b + unat n * unat (edge i)"
      using True by (simp add: unat_plus_small unat_mult_small)
    have w: "of_nat (unat n * unat (edge i)) = n * edge i" by simp
    show ?thesis using Cons.IH [of "b + n * edge i" "Suc i"] True u w
      by (simp add: addMulNoOverflow_iff add.assoc)
  next
    case False
    then show ?thesis using bound_sum_sticky [of edge "Suc i" ns b] by (simp add: addMulNoOverflow_iff)
  qed
qed

lemma edge_sum_nth: "edge_sum edge i ns = (\<Sum>k<length ns. unat (ns ! k) * unat (edge (i + k)))"
  by (induction ns arbitrary: i) (simp_all add: sum.lessThan_Suc_shift del: sum.lessThan_Suc)

lemma sum_by_class:
  "(\<And>v. v \<in> set vs \<Longrightarrow> g v < n) \<Longrightarrow>
   (\<Sum>k<n. length (filter (\<lambda>v. g v = k) vs) * f k) = (\<Sum>v\<leftarrow>vs. f (g v :: nat) :: nat)"
proof (induction vs)
  case (Cons v vs)
  have "(\<Sum>k<n. length (filter (\<lambda>x. g x = k) (v # vs)) * f k) =
      (\<Sum>k<n. (if k = g v then f k else 0) + length (filter (\<lambda>x. g x = k) vs) * f k)"
    by (intro sum.cong) auto
  also have "\<dots> = f (g v) + (\<Sum>v\<leftarrow>vs. f (g v))" using Cons by (simp add: sum.distrib)
  finally show ?case by simp
qed simp

lemma buckets_edge_sum:
  assumes "buckets_rep bs vs"
  shows "edge_sum edge 0 bs = (\<Sum>v\<leftarrow>vs. unat (edge (durationBucket v)))"
proof -
  have "edge_sum edge 0 bs = (\<Sum>k<11. length (filter (\<lambda>v. durationBucket v = k) vs) * unat (edge k))"
    unfolding edge_sum_nth using assms by (intro sum.cong) (auto simp: buckets_rep_def)
  also have "\<dots> = (\<Sum>v\<leftarrow>vs. unat (edge (durationBucket v)))" by (rule sum_by_class) (rule durationBucket_less)
  finally show ?thesis .
qed

lemma bucket_edges:
  "bucket_lower (durationBucket v) \<le> v"
  "v \<le> MaxDurationNanos \<Longrightarrow> v \<le> bucket_upper (durationBucket v)"
  by (simp_all add: durationBucket_def bucket_lower_def bucket_upper_def durationBucketUpperMillis_def word_le_nat_alt)

lemma bucket_from_mono: "v \<le> w \<Longrightarrow> bucket_from i us v \<le> bucket_from i us w"
proof (induction us arbitrary: i)
  case (Cons u us)
  have "i \<le> bucket_from i us w" for i by (induction us arbitrary: i) (auto intro: Suc_leD)
  then show ?case using Cons by (auto intro: Suc_leD)
qed simp

lemma durationBucket_mono: "v \<le> w \<Longrightarrow> durationBucket v \<le> durationBucket w"
  by (simp add: durationBucket_def bucket_from_mono)

lemma check_range_None:
  "check_range lo hi i ns = None \<longleftrightarrow>
     (\<forall>k < length ns. (i + k = lo \<or> i + k = hi \<longrightarrow> ns ! k \<noteq> 0) \<and> (i + k < lo \<or> hi < i + k \<longrightarrow> ns ! k = 0))"
proof (induction ns arbitrary: i)
  case (Cons n ns)
  show ?case unfolding All_less_Suc2 length_Cons by (simp add: Cons.IH) (metis add_Suc)
qed simp


subsection \<open>Stored summaries\<close>

lemma checkSum_accepts:
  assumes "buckets_rep bs vs" and "list_all (\<lambda>v. v \<le> MaxDurationNanos) vs" and "unat tot = sum_list (map unat vs)"
  shows "checkSumAgainstBuckets bs tot = None"
proof -
  let ?lo = "edge_sum bucket_lower 0 bs" and ?hi = "edge_sum bucket_upper 0 bs"
  have "?lo \<le> sum_list (map unat vs)"
    unfolding buckets_edge_sum [OF assms(1)] using bucket_edges(1) by (intro sum_list_mono) (simp add: word_le_nat_alt)
  then have lo: "?lo \<le> unat tot" "?lo < 2 ^ 64" using assms(3) unat_less_2p64 [of tot] by simp_all
  have hi: "unat tot \<le> ?hi"
    unfolding assms(3) buckets_edge_sum [OF assms(1)] using bucket_edges(2) assms(2)
    by (intro sum_list_mono) (auto simp: word_le_nat_alt list_all_iff)
  have l: "bound_sum bucket_lower 0 bs (0, False) = (of_nat ?lo, False)"
    using bound_sum_exact [of 0 bucket_lower 0 bs] lo(2) by simp
  have "\<not> tot < of_nat ?lo" using lo by (simp add: word_less_nat_alt unat_of_nat)
  moreover have "\<not> (\<not> snd (bound_sum bucket_upper 0 bs (0, False)) \<and> fst (bound_sum bucket_upper 0 bs (0, False)) < tot)"
    using bound_sum_exact [of 0 bucket_upper 0 bs] hi by (auto simp: word_less_nat_alt unat_of_nat split: if_splits)
  ultimately show ?thesis using l by (simp add: checkSumAgainstBuckets_def split_beta)
qed

lemma buckets_total:
  assumes "buckets_rep bs vs" and "dur_rep d vs u"
  shows "sumNoOverflow bs = Some (du_Count d)"
proof -
  have "edge_sum (\<lambda>_. 1) 0 bs = length vs" using buckets_edge_sum [OF assms(1), of "\<lambda>_. 1"] by (simp add: sum_list_triv)
  moreover have "edge_sum (\<lambda>_. 1) i ns = sum_list (map unat ns)" for i ns by (induction ns arbitrary: i) simp_all
  ultimately show ?thesis using assms(2) by (simp add: sumNoOverflow_Some dur_rep_def)
qed

lemma validate_buckets_accepts:
  assumes b: "buckets_rep (os_Buckets s) vs" and d: "dur_rep (os_Durations s) vs u"
    and m: "list_all (\<lambda>v. v \<le> MaxDurationNanos) vs"
  shows "validate_buckets s = None"
proof -
  let ?bs = "os_Buckets s" and ?d = "os_Durations s"
  note tot = buckets_total [OF b d]
  have "check_range (durationBucket (du_Min ?d)) (durationBucket (du_Max ?d)) 0 ?bs = None" if ne: "vs \<noteq> []"
  proof -
    have mm: "du_Min ?d = Min (set vs)" "du_Max ?d = Max (set vs)" using d ne by (auto simp: dur_rep_def)
    then have mem: "du_Min ?d \<in> set vs" "du_Max ?d \<in> set vs" using ne by auto
    have cnt: "?bs ! k = 0 \<longleftrightarrow> (\<forall>v \<in> set vs. durationBucket v \<noteq> k)" if "k < 11" for k
    proof -
      have "unat (?bs ! k) = length (filter (\<lambda>v. durationBucket v = k) vs)" using b that by (simp add: buckets_rep_def)
      then show ?thesis by (auto simp: unat_eq_0 [symmetric] filter_empty_conv)
    qed
    have rng: "durationBucket (du_Min ?d) \<le> durationBucket v \<and> durationBucket v \<le> durationBucket (du_Max ?d)"
      if "v \<in> set vs" for v using that mm by (auto intro!: durationBucket_mono)
    have "length ?bs = 11" using b by (simp add: buckets_rep_def)
    moreover have "?bs ! k \<noteq> 0" if "k < 11" "k = durationBucket (du_Min ?d) \<or> k = durationBucket (du_Max ?d)" for k
      using that mem cnt [OF that(1)] by metis
    moreover have "?bs ! k = 0" if "k < 11" "k < durationBucket (du_Min ?d) \<or> durationBucket (du_Max ?d) < k" for k
      using that rng cnt [OF that(1)] by (metis leD)
    ultimately show ?thesis unfolding check_range_None by simp
  qed
  moreover have "checkSumAgainstBuckets ?bs (du_Sum ?d) = None"
    using checkSum_accepts [OF b m] d by (simp add: dur_rep_def)
  moreover have "0 < du_Count ?d \<longleftrightarrow> vs \<noteq> []" using d by (auto simp: dur_rep_def word_neq_0_conv [symmetric] unat_eq_0)
  ultimately show ?thesis using tot by (auto simp: validate_buckets_def)
qed

lemma http_rep_total:
  assumes "http_rep h cs"
  shows "unat (hs_Informational h) + unat (hs_Success h) + unat (hs_Redirection h) + unat (hs_ClientError h) +
    unat (hs_ServerError h) + unat (hs_Unavailable h) = length cs"
proof -
  have "length (filter (\<lambda>c. c \<noteq> 0 \<and> c < 200) cs) + length (filter (\<lambda>c. 200 \<le> c \<and> c < 300) cs) +
      length (filter (\<lambda>c. 300 \<le> c \<and> c < 400) cs) + length (filter (\<lambda>c. 400 \<le> c \<and> c < 500) cs) +
      length (filter (\<lambda>c. 500 \<le> c) cs) + count_list cs 0 = length (cs :: u16 list)"
  proof (induction cs)
    case (Cons c cs)
    show ?case
    proof (cases c rule: http_class_cases)
      case 2
      then show ?thesis using Cons http_class_facts(5) [OF 2(2)] by simp
    next
      case 3
      then show ?thesis using Cons http_class_facts(1) [OF 3(1)] http_class_facts(6) [OF 3(2)] by simp
    next
      case 4
      then show ?thesis using Cons http_class_facts(2) [OF 4(1)] http_class_facts(7) [OF 4(2)] by simp
    next
      case 5
      then show ?thesis using Cons http_class_facts(3) [OF 5(1)] http_class_facts(8) [OF 5(2)] by simp
    next
      case 6
      then show ?thesis using Cons http_class_facts(4) [OF 6] by simp
    qed (use Cons in simp)
  qed simp
  then show ?thesis using assms by (simp add: http_rep_def)
qed

lemma validate_http_accepts:
  assumes h: "http_rep (os_HTTPStatus s) cs" and r: "unat (os_HTTP429 s) = count_list cs 429"
    and n: "unat n = length cs"
  shows "validate_http s n = None"
proof -
  have "count_list cs 429 \<le> length (filter (\<lambda>c. 400 \<le> c \<and> c < 500) (cs :: u16 list))" by (induction cs) auto
  then have "\<not> hs_ClientError (os_HTTPStatus s) < os_HTTP429 s" using h r by (simp add: word_less_nat_alt http_rep_def)
  moreover have "sumNoOverflow [hs_Informational (os_HTTPStatus s), hs_Success (os_HTTPStatus s),
      hs_Redirection (os_HTTPStatus s), hs_ClientError (os_HTTPStatus s), hs_ServerError (os_HTTPStatus s),
      hs_Unavailable (os_HTTPStatus s)] = Some n"
    using http_rep_total [OF h] n by (simp add: sumNoOverflow_Some)
  ultimately show ?thesis by (simp add: validate_http_def)
qed

lemma validate_tokens_accepts:
  assumes t: "tokens_rep (os_Tokens s) us" and n: "unat n = length us"
  shows "validate_tokens s n = None"
proof -
  have "sumNoOverflow [tk_Observed (os_Tokens s), tk_Unobserved (os_Tokens s)] = Some n"
    using t n sum_length_filter_compl [of Usage_Observed us] by (simp add: sumNoOverflow_Some tokens_rep_def)
  moreover have "tk_Input (os_Tokens s) = 0 \<and> tk_Output (os_Tokens s) = 0 \<and> tk_Unsplit (os_Tokens s) = 0"
    if "tk_Observed (os_Tokens s) = 0"
  proof -
    have "filter Usage_Observed us = []" using t that by (simp add: tokens_rep_def)
    then show ?thesis using t by (simp add: tokens_rep_def unat_eq_0)
  qed
  ultimately show ?thesis by (auto simp: validate_tokens_def Let_def)
qed

lemma op_rep_measured:
  "op_rep s xs \<Longrightarrow> list_all (\<lambda>v. v \<le> MaxDurationNanos) (values_of xs)"
proof -
  have "v \<le> MaxDurationNanos" if "ValidateDurationNanos r = Inr v" "dr_DurationNanos r \<noteq> ''''" for r v
    using that by (auto simp: ValidateDurationNanos_def not_less split: option.splits if_splits)
  then have "list_all (\<lambda>x. \<exists>v. ValidateDurationNanos (fst x) = Inr v) ys \<Longrightarrow>
      list_all (\<lambda>v. v \<le> MaxDurationNanos) (values_of ys)" for ys :: "op_obs list"
    by (induction ys) (auto simp: values_of_def dur_obs_cases)
  then show "op_rep s xs \<Longrightarrow> ?thesis" by (simp add: op_rep_def)
qed

lemma summary_accepted:
  assumes rep: "op_rep s xs" and n: "unat n = length xs"
  shows "validateOperationalSummary s n = None"
proof -
  have "validateRestoredOperational (os_Durations s) (os_SpanStatus s) n = None"
    using rep n length_measured [of "map (dur_obs \<circ> fst) xs"] status_rep_total rep_numbers [OF _ op_rep_measured [OF rep]]
    unfolding validate_numbers op_rep_def values_of_def dur_rep_def by fastforce
  moreover have "validate_buckets s = None" using rep validate_buckets_accepts [OF _ _ op_rep_measured [OF rep]]
    by (auto simp: op_rep_def)
  moreover have "validate_http s n = None" "validate_tokens s n = None"
    using rep n by (auto simp: op_rep_def intro: validate_http_accepts validate_tokens_accepts)
  ultimately show ?thesis by (simp add: validateOperationalSummary_def orElse_None_iff)
qed


subsection \<open>Sums of summaries\<close>

lemma add_counters_iff:
  "length xs = length ys \<Longrightarrow>
   add_counters xs ys = Inr zs \<longleftrightarrow> length zs = length xs \<and> (\<forall>k < length xs. unat (zs ! k) = unat (xs ! k) + unat (ys ! k))"
proof (induction xs ys arbitrary: zs rule: list_induct2)
  case (Cons x xs y ys)
  show ?case
  proof (cases zs)
    case (Cons z zs')
    then show ?thesis using Cons.IH unfolding Cons length_Cons All_less_Suc2 by (simp add: addCount_Inr) blast
  qed simp
qed auto

lemma length_counters: "length (os_Buckets s) = 11 \<Longrightarrow> length (counters s) = 30"
  by (simp add: counters_def)

lemma of_counters_counters:
  "length (os_Buckets s) = 11 \<Longrightarrow> of_counters (counters s) (du_Min (os_Durations s)) (du_Max (os_Durations s)) = s"
  by (simp add: counters_def of_counters_def nth_append)

lemma counters_of_counters:
  assumes "length cs = 30"
  shows "counters (of_counters cs mn mx) = cs"
proof -
  have "drop n cs = cs ! n # drop (Suc n) cs" if "n < 30" for n using that assms by (simp add: Cons_nth_drop_Suc)
  then have "counters (of_counters cs mn mx) = take 11 cs @ drop 11 cs"
    using assms by (simp add: counters_def of_counters_def del: append_take_drop_id)
  then show ?thesis by simp
qed

lemma Add_Inr:
  assumes "length (os_Buckets s) = 11" and "length (os_Buckets t) = 11"
  shows "OperationalSummary_Add s t = Inr u \<longleftrightarrow>
    length (os_Buckets u) = 11 \<and> (\<forall>k < 30. unat (counters u ! k) = unat (counters s ! k) + unat (counters t ! k)) \<and>
    du_Min (os_Durations u) = add_min (os_Durations s) (os_Durations t) \<and>
    du_Max (os_Durations u) = add_max (os_Durations s) (os_Durations t)" (is "?L \<longleftrightarrow> ?R")
proof
  assume ?L
  then obtain cs where cs: "add_counters (counters s) (counters t) = Inr cs"
    "u = of_counters cs (add_min (os_Durations s) (os_Durations t)) (add_max (os_Durations s) (os_Durations t))"
    by (auto simp: OperationalSummary_Add_def)
  then have "length cs = 30" "\<forall>k < 30. unat (cs ! k) = unat (counters s ! k) + unat (counters t ! k)"
    using assms by (auto simp: add_counters_iff length_counters)
  then show ?R using cs(2) counters_of_counters by (simp add: of_counters_def)
next
  assume ?R
  then have "add_counters (counters s) (counters t) = Inr (counters u)"
    using assms by (simp add: add_counters_iff length_counters)
  then show ?L using \<open>?R\<close> of_counters_counters [of u] by (simp add: OperationalSummary_Add_def)
qed


lemma All_less_30:
  "(\<forall>k < 30. P k) \<longleftrightarrow> (\<forall>k < 11. P k) \<and> P 11 \<and> P 12 \<and> P 13 \<and> P 14 \<and> P 15 \<and> P 16 \<and> P 17 \<and> P 18 \<and> P 19 \<and>
     P 20 \<and> P 21 \<and> P 22 \<and> P 23 \<and> P 24 \<and> P 25 \<and> P 26 \<and> P 27 \<and> P 28 \<and> P (29 :: nat)"
  by (simp add: eval_nat_numeral All_less_Suc conj_ac)

lemma counters_nth:
  assumes "length (os_Buckets s) = 11"
  shows "k < 11 \<Longrightarrow> counters s ! k = os_Buckets s ! k"
    "counters s ! 11 = du_Count (os_Durations s)" "counters s ! 12 = du_Unobserved (os_Durations s)"
    "counters s ! 13 = du_Sum (os_Durations s)" "counters s ! 14 = sc_Unavailable (os_SpanStatus s)"
    "counters s ! 15 = sc_Unset (os_SpanStatus s)" "counters s ! 16 = sc_OK (os_SpanStatus s)"
    "counters s ! 17 = sc_Error (os_SpanStatus s)" "counters s ! 18 = hs_Informational (os_HTTPStatus s)"
    "counters s ! 19 = hs_Success (os_HTTPStatus s)" "counters s ! 20 = hs_Redirection (os_HTTPStatus s)"
    "counters s ! 21 = hs_ClientError (os_HTTPStatus s)" "counters s ! 22 = hs_ServerError (os_HTTPStatus s)"
    "counters s ! 23 = hs_Unavailable (os_HTTPStatus s)" "counters s ! 24 = os_HTTP429 s"
    "counters s ! 25 = tk_Input (os_Tokens s)" "counters s ! 26 = tk_Output (os_Tokens s)"
    "counters s ! 27 = tk_Unsplit (os_Tokens s)" "counters s ! 28 = tk_Observed (os_Tokens s)"
    "counters s ! 29 = tk_Unobserved (os_Tokens s)"
  using assms by (simp_all add: counters_def nth_append)

lemma extrema_append:
  assumes "dur_rep d vs a" and "dur_rep e ws b"
  shows "add_min d e = (if vs @ ws = [] then 0 else Min (set (vs @ ws)))"
    "add_max d e = (if vs @ ws = [] then 0 else Max (set (vs @ ws)))"
proof -
  have z: "du_Count d = 0 \<longleftrightarrow> vs = []" "du_Count e = 0 \<longleftrightarrow> ws = []"
    using assms by (auto simp: dur_rep_def unat_eq_0 [symmetric])
  show "add_min d e = (if vs @ ws = [] then 0 else Min (set (vs @ ws)))"
    using assms z by (auto simp: add_min_def dur_rep_def Min_Un)
  show "add_max d e = (if vs @ ws = [] then 0 else Max (set (vs @ ws)))"
    using assms z by (auto simp: add_max_def dur_rep_def Max_Un)
qed

lemma buckets_rep_append:
  "buckets_rep bs vs \<Longrightarrow> buckets_rep cs ws \<Longrightarrow>
   buckets_rep ds (vs @ ws) \<longleftrightarrow> length ds = 11 \<and> (\<forall>k < 11. unat (ds ! k) = unat (bs ! k) + unat (cs ! k))"
  by (simp add: buckets_rep_def)

lemma dur_rep_append:
  assumes "dur_rep d vs a" and "dur_rep e ws b"
  shows "dur_rep f (vs @ ws) (a + b) \<longleftrightarrow> unat (du_Count f) = unat (du_Count d) + unat (du_Count e) \<and>
   unat (du_Unobserved f) = unat (du_Unobserved d) + unat (du_Unobserved e) \<and>
   unat (du_Sum f) = unat (du_Sum d) + unat (du_Sum e) \<and>
   du_Min f = add_min d e \<and> du_Max f = add_max d e"
  unfolding extrema_append [OF assms] using assms by (auto simp: dur_rep_def)

lemma status_rep_append:
  "status_rep c xs \<Longrightarrow> status_rep d ys \<Longrightarrow> status_rep e (xs @ ys) \<longleftrightarrow>
   unat (sc_Unavailable e) = unat (sc_Unavailable c) + unat (sc_Unavailable d) \<and>
   unat (sc_Unset e) = unat (sc_Unset c) + unat (sc_Unset d) \<and>
   unat (sc_OK e) = unat (sc_OK c) + unat (sc_OK d) \<and>
   unat (sc_Error e) = unat (sc_Error c) + unat (sc_Error d)"
  by (simp add: status_rep_def)

lemma http_rep_append:
  "http_rep c xs \<Longrightarrow> http_rep d ys \<Longrightarrow> http_rep e (xs @ ys) \<longleftrightarrow>
   unat (hs_Unavailable e) = unat (hs_Unavailable c) + unat (hs_Unavailable d) \<and>
   unat (hs_Informational e) = unat (hs_Informational c) + unat (hs_Informational d) \<and>
   unat (hs_Success e) = unat (hs_Success c) + unat (hs_Success d) \<and>
   unat (hs_Redirection e) = unat (hs_Redirection c) + unat (hs_Redirection d) \<and>
   unat (hs_ClientError e) = unat (hs_ClientError c) + unat (hs_ClientError d) \<and>
   unat (hs_ServerError e) = unat (hs_ServerError c) + unat (hs_ServerError d)"
  by (simp add: http_rep_def)

lemma tokens_rep_append:
  "tokens_rep c xs \<Longrightarrow> tokens_rep d ys \<Longrightarrow> tokens_rep e (xs @ ys) \<longleftrightarrow>
   unat (tk_Observed e) = unat (tk_Observed c) + unat (tk_Observed d) \<and>
   unat (tk_Unobserved e) = unat (tk_Unobserved c) + unat (tk_Unobserved d) \<and>
   unat (tk_Input e) = unat (tk_Input c) + unat (tk_Input d) \<and>
   unat (tk_Output e) = unat (tk_Output c) + unat (tk_Output d) \<and>
   unat (tk_Unsplit e) = unat (tk_Unsplit c) + unat (tk_Unsplit d)"
  by (simp add: tokens_rep_def)

lemma op_rep_append:
  assumes s: "op_rep s xs" and t: "op_rep t ys"
  shows "OperationalSummary_Add s t = Inr u \<longleftrightarrow> op_rep u (xs @ ys)"
proof -
  note rs = s [unfolded op_rep_def] and rt = t [unfolded op_rep_def]
  have len: "length (os_Buckets s) = 11" "length (os_Buckets t) = 11" using rs rt by (auto simp: buckets_rep_def)
  note b = buckets_rep_append [OF rs [THEN conjunct2, THEN conjunct2, THEN conjunct2, THEN conjunct1]
      rt [THEN conjunct2, THEN conjunct2, THEN conjunct2, THEN conjunct1]]
    and d = dur_rep_append [OF rs [THEN conjunct2, THEN conjunct1] rt [THEN conjunct2, THEN conjunct1]]
    and st = status_rep_append [OF rs [THEN conjunct2, THEN conjunct2, THEN conjunct1] rt [THEN conjunct2, THEN conjunct2, THEN conjunct1]]
    and h = http_rep_append [OF rs [THEN conjunct2, THEN conjunct2, THEN conjunct2, THEN conjunct2, THEN conjunct1]
      rt [THEN conjunct2, THEN conjunct2, THEN conjunct2, THEN conjunct2, THEN conjunct1]]
  have k: "tokens_rep (os_Tokens s) (map (of_Usage \<circ> snd) xs)" "tokens_rep (os_Tokens t) (map (of_Usage \<circ> snd) ys)"
    using rs rt by blast+
  have r: "unat (os_HTTP429 u) = count_list (map (of_HTTPStatusCode \<circ> snd) xs @ map (of_HTTPStatusCode \<circ> snd) ys) 429 \<longleftrightarrow>
      unat (os_HTTP429 u) = unat (os_HTTP429 s) + unat (os_HTTP429 t)" using rs rt by simp
  have v: "list_all (\<lambda>x. \<exists>v. ValidateDurationNanos (fst x) = Inr v) (xs @ ys)" using rs rt by simp
  show ?thesis
  proof (cases "length (os_Buckets u) = 11")
    case True
    have bk: "(\<forall>j < 11. unat (counters u ! j) = unat (counters s ! j) + unat (counters t ! j)) \<longleftrightarrow>
        (\<forall>j < 11. unat (os_Buckets u ! j) = unat (os_Buckets s ! j) + unat (os_Buckets t ! j))"
      using counters_nth(1) [OF True] counters_nth(1) [OF len(1)] counters_nth(1) [OF len(2)] by simp
    show ?thesis
      unfolding Add_Inr [OF len] op_rep_def values_snoc absent_append map_append b d st h tokens_rep_append [OF k] r
        All_less_30 bk counters_nth(2-) [OF True] counters_nth(2-) [OF len(1)] counters_nth(2-) [OF len(2)]
      by (rule iffI; elim conjE; intro conjI; (assumption | rule v))
  next
    case False
    then show ?thesis unfolding Add_Inr [OF len] op_rep_def values_snoc b by blast
  qed
qed

subsection \<open>Order of arrival\<close>

lemma count_list_mset: "mset xs = mset ys \<Longrightarrow> count_list xs = count_list ys"
  by (simp add: fun_eq_iff flip: count_mset)

lemma length_filter_mset: "mset xs = mset ys \<Longrightarrow> length (filter P xs) = length (filter P ys)"
  by (metis mset_filter size_mset)

lemma sum_filter_mset:
  "mset xs = mset ys \<Longrightarrow> (\<Sum>x\<leftarrow>filter P xs. f x) = (\<Sum>x\<leftarrow>filter P ys. f x :: nat)"
  by (metis mset_filter mset_map sum_mset_sum_list)

lemma values_of_mset: "mset xs = mset ys \<Longrightarrow> mset (values_of xs) = mset (values_of ys)"
  by (simp add: values_of_def measured_def List.map_filter_def)

lemma op_rep_mset:
  assumes m: "mset xs = mset ys" and r: "op_rep s xs"
  shows "op_rep s ys"
proof -
  have mm: "mset (map f xs) = mset (map f ys)" for f :: "op_obs \<Rightarrow> 'x" using m by simp
  have v: "mset (values_of xs) = mset (values_of ys)" by (rule values_of_mset [OF m])
  then have vs: "length (values_of xs) = length (values_of ys)" "set (values_of xs) = set (values_of ys)"
    "sum_list (map unat (values_of xs)) = sum_list (map unat (values_of ys))" "values_of xs = [] \<longleftrightarrow> values_of ys = []"
    by (metis size_mset, metis set_mset_mset, metis mset_map sum_mset_sum_list, metis mset_zero_iff)
  have "absent (map (dur_obs \<circ> fst) xs) = absent (map (dur_obs \<circ> fst) ys)"
    unfolding absent_def by (rule length_filter_mset [OF mm])
  moreover have "set xs = set ys" using m by (metis set_mset_mset)
  moreover have "count_list (map (dr_SpanStatus \<circ> fst) xs) = count_list (map (dr_SpanStatus \<circ> fst) ys)"
    "count_list (map (of_HTTPStatusCode \<circ> snd) xs) = count_list (map (of_HTTPStatusCode \<circ> snd) ys)"
    by (rule count_list_mset [OF mm])+
  moreover note length_filter_mset [OF v] length_filter_mset [OF mm [of "of_HTTPStatusCode \<circ> snd"]]
    length_filter_mset [OF mm [of "of_Usage \<circ> snd"]] sum_filter_mset [OF mm [of "of_Usage \<circ> snd"]]
  ultimately show ?thesis using r vs
    unfolding op_rep_def dur_rep_def status_rep_def buckets_rep_def http_rep_def tokens_rep_def list_all_iff set_map
    by simp
qed


subsection \<open>Sequences of observations\<close>

fun fold_operational :: "OperationalSummary \<Rightarrow> op_obs list \<Rightarrow> platform_error + OperationalSummary" where
  "fold_operational s [] = Inr s"
| "fold_operational s ((r, f) # xs) = andThen (OperationalSummary_observe s r f) (\<lambda>t. fold_operational t xs)"

lemma buckets_rep_prefix:
  assumes "buckets_rep cs (vs @ ws)"
  shows "\<exists>bs. buckets_rep bs vs"
proof -
  let ?n = "\<lambda>i. length (filter (\<lambda>v. durationBucket v = i) vs)"
  have "?n i < 2 ^ 64" if "i < 11" for i using assms that unat_less_2p64 [of "cs ! i"] by (simp add: buckets_rep_def)
  then have "buckets_rep (map (\<lambda>i. of_nat (?n i)) [0..<11]) vs" by (simp add: buckets_rep_def unat_of_nat)
  then show ?thesis by blast
qed

lemma counter_prefix: "unat (w :: u64) = n + k \<Longrightarrow> \<exists>v :: u64. unat v = n"
  using unat_less_2p64 [of w] by (intro exI [of _ "of_nat n"]) (simp add: unat_of_nat)

lemma status_rep_prefix:
  assumes "status_rep d (xs @ ys)"
  shows "\<exists>c. status_rep c xs"
proof -
  note r = assms [unfolded status_rep_def count_list_append]
  obtain a b c d where "unat (a :: u64) = count_list xs ''''" "unat (b :: u64) = count_list xs ''unset''"
    "unat (c :: u64) = count_list xs ''ok''" "unat (d :: u64) = count_list xs ''error''"
    using r counter_prefix by meson
  then have "status_rep \<lparr>sc_Unavailable = a, sc_Unset = b, sc_OK = c, sc_Error = d\<rparr> xs" using r by (simp add: status_rep_def)
  then show ?thesis by blast
qed

lemma http_rep_prefix:
  assumes "http_rep h (xs @ ys)"
  shows "\<exists>c. http_rep c xs"
proof -
  note r = assms [unfolded http_rep_def count_list_append filter_append length_append]
  have "\<exists>v :: u64. unat v = count_list xs 0" "\<exists>v :: u64. unat v = length (filter (\<lambda>c. c \<noteq> 0 \<and> c < 200) xs)"
    "\<exists>v :: u64. unat v = length (filter (\<lambda>c. 200 \<le> c \<and> c < 300) xs)"
    "\<exists>v :: u64. unat v = length (filter (\<lambda>c. 300 \<le> c \<and> c < 400) xs)"
    "\<exists>v :: u64. unat v = length (filter (\<lambda>c. 400 \<le> c \<and> c < 500) xs)"
    "\<exists>v :: u64. unat v = length (filter (\<lambda>c. 500 \<le> c) xs)"
    using r by (blast intro: counter_prefix)+
  then obtain a b c d e f where "unat (a :: u64) = count_list xs 0"
    "unat (b :: u64) = length (filter (\<lambda>c. c \<noteq> 0 \<and> c < 200) xs)"
    "unat (c :: u64) = length (filter (\<lambda>c. 200 \<le> c \<and> c < 300) xs)"
    "unat (d :: u64) = length (filter (\<lambda>c. 300 \<le> c \<and> c < 400) xs)"
    "unat (e :: u64) = length (filter (\<lambda>c. 400 \<le> c \<and> c < 500) xs)"
    "unat (f :: u64) = length (filter (\<lambda>c. 500 \<le> c) xs)" by metis
  then have "http_rep \<lparr>hs_Informational = b, hs_Success = c, hs_Redirection = d, hs_ClientError = e, hs_ServerError = f,
      hs_Unavailable = a\<rparr> xs" unfolding http_rep_def by simp
  then show ?thesis by blast
qed

lemma tokens_rep_prefix:
  assumes "tokens_rep t (us @ ws)"
  shows "\<exists>c. tokens_rep c us"
proof -
  note r = assms [unfolded tokens_rep_def filter_append length_append map_append sum_list_append]
  have "\<exists>v :: u64. unat v = length (filter Usage_Observed us)" "\<exists>v :: u64. unat v = length (filter (\<lambda>u. \<not> Usage_Observed u) us)"
    "\<exists>v :: u64. unat v = (\<Sum>u\<leftarrow>filter Usage_Observed us. unat (us_Input u))"
    "\<exists>v :: u64. unat v = (\<Sum>u\<leftarrow>filter Usage_Observed us. unat (us_Output u))"
    "\<exists>v :: u64. unat v = (\<Sum>u\<leftarrow>filter Usage_Observed us. unat (us_Unsplit u))"
    using r by (blast intro: counter_prefix)+
  then obtain a b c d e where "unat (a :: u64) = length (filter Usage_Observed us)"
    "unat (b :: u64) = length (filter (\<lambda>u. \<not> Usage_Observed u) us)"
    "unat (c :: u64) = (\<Sum>u\<leftarrow>filter Usage_Observed us. unat (us_Input u))"
    "unat (d :: u64) = (\<Sum>u\<leftarrow>filter Usage_Observed us. unat (us_Output u))"
    "unat (e :: u64) = (\<Sum>u\<leftarrow>filter Usage_Observed us. unat (us_Unsplit u))" by metis
  then have "tokens_rep \<lparr>tk_Input = c, tk_Output = d, tk_Unsplit = e, tk_Observed = a, tk_Unobserved = b\<rparr> us"
    by (simp add: tokens_rep_def)
  then show ?thesis by blast
qed

lemma op_rep_prefix:
  assumes "op_rep t (xs @ ys)"
  shows "\<exists>s. op_rep s xs"
proof -
  note r = assms [unfolded op_rep_def values_snoc map_append absent_append]
  obtain d st b h k where d: "dur_rep d (values_of xs) (absent (map (dur_obs \<circ> fst) xs))"
    "status_rep st (map (dr_SpanStatus \<circ> fst) xs)" "buckets_rep b (values_of xs)"
    "http_rep h (map (of_HTTPStatusCode \<circ> snd) xs)" "tokens_rep k (map (of_Usage \<circ> snd) xs)"
    using r dur_rep_prefix status_rep_prefix buckets_rep_prefix http_rep_prefix tokens_rep_prefix by meson
  moreover obtain w where "unat (w :: u64) = count_list (map (of_HTTPStatusCode \<circ> snd) xs) 429"
    using r counter_prefix by (metis count_list_append)
  ultimately have "op_rep \<lparr>os_Buckets = b, os_Durations = d, os_SpanStatus = st, os_HTTPStatus = h, os_HTTP429 = w, os_Tokens = k\<rparr> xs"
    using r unfolding op_rep_def list_all_append by simp
  then show ?thesis by blast
qed

lemma fold_operational_rep: "op_rep s xs \<Longrightarrow> fold_operational s ys = Inr t \<longleftrightarrow> op_rep t (xs @ ys)"
proof (induction ys arbitrary: s xs)
  case Nil
  then show ?case using op_rep_unique by auto
next
  case (Cons y ys)
  obtain r f where y: "y = (r, f)" by fastforce
  have "fold_operational s (y # ys) = Inr t \<longleftrightarrow> (\<exists>u. op_rep u (xs @ [y]) \<and> fold_operational u ys = Inr t)"
    using OperationalSummary_observe_iff [OF Cons.prems] by (simp add: y)
  also have "\<dots> \<longleftrightarrow> op_rep t ((xs @ [y]) @ ys)" using Cons.IH op_rep_prefix [of t "xs @ [y]" ys] by blast
  finally show ?case by simp
qed

lemma fold_operational_iff: "fold_operational zeroOperational xs = Inr s \<longleftrightarrow> op_rep s xs"
  using fold_operational_rep [OF op_rep_zero] by simp

text \<open>Adding the summaries of two sequences of observations gives the summary of all of
  them together, and fails exactly when observing them in one sequence would overflow a counter; the
  order in which the observations arrived makes no difference to either.\<close>

theorem summary_sum_exact:
  assumes "fold_operational zeroOperational xs = Inr s" and "fold_operational zeroOperational ys = Inr t"
    and "mset zs = mset xs + mset ys"
  shows "OperationalSummary_Add s t = Inr u \<longleftrightarrow> fold_operational zeroOperational zs = Inr u"
proof -
  have m: "mset (xs @ ys) = mset zs" using assms(3) by simp
  have "OperationalSummary_Add s t = Inr u \<longleftrightarrow> op_rep u (xs @ ys)"
    using assms op_rep_append by (simp add: fold_operational_iff)
  also have "\<dots> \<longleftrightarrow> op_rep u zs" using op_rep_mset [OF m] op_rep_mset [OF m [symmetric]] by blast
  finally show ?thesis by (simp add: fold_operational_iff)
qed

end
