(* ===== verification/Platform_Codec.thy ===== *)
theory Platform_Codec
  imports Platform_Summary
begin

text \<open>
  Counter texts of a stored behaviour (\<^verbatim>\<open>platform/evidence_columns.go\<close>,
  \<^verbatim>\<open>platform/behavior_fidelity.go\<close>): canonical decimals separated by commas. The two decoders
  run the same loop over a fixed number of counters. The theorems are that a decoder accepts exactly
  the texts its encoder writes, that whatever observation produced is read back unchanged and passes
  its restore validation, and that the validation of fidelity counts is exact.
\<close>

subsection \<open>Canonical decimals\<close>

text \<open>\<^verbatim>\<open>strings.Cut\<close> at a one-character separator.\<close>

definition Cut :: "char \<Rightarrow> string \<Rightarrow> string \<times> string \<times> bool" where
  "Cut sep s =
     (case dropWhile (\<lambda>c. c \<noteq> sep) s of
        [] \<Rightarrow> (s, '''', False)
      | _ # rest \<Rightarrow> (takeWhile (\<lambda>c. c \<noteq> sep) s, rest, True))"

definition parseCanonicalUint64 :: "string \<Rightarrow> u64 option" where
  "parseCanonicalUint64 s =
     (if s = '''' then None
      else if (of_char (hd s) :: nat) < 48 \<or> 57 < (of_char (hd s) :: nat) then None
      else if 1 < length s \<and> hd s = CHR ''0'' then None
      else ParseUint10 s)"

fun decode_counters :: "nat \<Rightarrow> string \<Rightarrow> platform_error + u64 list" where
  "decode_counters 0 rest = Inr []"
| "decode_counters (Suc k) rest =
     (let (field, tail, more) = Cut CHR '','' rest in
      if more \<noteq> (0 < k) then Inl ErrStoreCorrupt
      else case parseCanonicalUint64 field of
        None \<Rightarrow> Inl ErrStoreCorrupt
      | Some v \<Rightarrow> andThen (decode_counters k tail) (\<lambda>vs. Inr (v # vs)))"

fun encode_counters :: "u64 list \<Rightarrow> string" where
  "encode_counters [] = ''''"
| "encode_counters [n] = FormatUint10 n"
| "encode_counters (n # ns) = FormatUint10 n @ CHR '','' # encode_counters ns"

subsection \<open>Operational counters\<close>

definition operationalCounterCount :: nat where "operationalCounterCount = 31"

definition operationalCounters :: "OperationalSummary \<Rightarrow> u64 list" where
  "operationalCounters s = os_Buckets s @
     [du_Unobserved (os_Durations s), du_Sum (os_Durations s), du_Min (os_Durations s), du_Max (os_Durations s),
      sc_Unavailable (os_SpanStatus s), sc_Unset (os_SpanStatus s), sc_OK (os_SpanStatus s), sc_Error (os_SpanStatus s),
      hs_Informational (os_HTTPStatus s), hs_Success (os_HTTPStatus s), hs_Redirection (os_HTTPStatus s),
      hs_ClientError (os_HTTPStatus s), hs_ServerError (os_HTTPStatus s), hs_Unavailable (os_HTTPStatus s),
      os_HTTP429 s,
      tk_Input (os_Tokens s), tk_Output (os_Tokens s), tk_Unsplit (os_Tokens s), tk_Observed (os_Tokens s),
      tk_Unobserved (os_Tokens s)]"

definition encodeOperationalCounts :: "OperationalSummary \<Rightarrow> string" where
  "encodeOperationalCounts s = encode_counters (operationalCounters s)"

definition decodeOperationalCounts :: "string \<Rightarrow> platform_error + OperationalSummary" where
  "decodeOperationalCounts s =
     andThen (decode_counters operationalCounterCount s) (\<lambda>vs.
       let buckets = take DurationBucketCount vs; r = drop DurationBucketCount vs in
       case sumNoOverflow buckets of
         None \<Rightarrow> Inl ErrStoreCorrupt
       | Some cnt \<Rightarrow> Inr
           \<lparr>os_Buckets = buckets,
            os_Durations = \<lparr>du_Count = cnt, du_Unobserved = r ! 0, du_Sum = r ! 1, du_Min = r ! 2, du_Max = r ! 3\<rparr>,
            os_SpanStatus = \<lparr>sc_Unavailable = r ! 4, sc_Unset = r ! 5, sc_OK = r ! 6, sc_Error = r ! 7\<rparr>,
            os_HTTPStatus = \<lparr>hs_Informational = r ! 8, hs_Success = r ! 9, hs_Redirection = r ! 10,
              hs_ClientError = r ! 11, hs_ServerError = r ! 12, hs_Unavailable = r ! 13\<rparr>,
            os_HTTP429 = r ! 14,
            os_Tokens = \<lparr>tk_Input = r ! 15, tk_Output = r ! 16, tk_Unsplit = r ! 17, tk_Observed = r ! 18,
              tk_Unobserved = r ! 19\<rparr>\<rparr>)"

subsection \<open>Fidelity counters\<close>

record BehaviorFidelity =
  bf_Semantic :: u64
  bf_Transport :: u64
  bf_Unrecorded :: u64
  bf_LayerModel :: u64
  bf_LayerTool :: u64
  bf_LayerRetrieval :: u64
  bf_LayerTransport :: u64
  bf_LayerUnclassified :: u64
  bf_LayerUnrecorded :: u64

definition zeroFidelity :: BehaviorFidelity where
  "zeroFidelity = \<lparr>bf_Semantic = 0, bf_Transport = 0, bf_Unrecorded = 0, bf_LayerModel = 0, bf_LayerTool = 0,
     bf_LayerRetrieval = 0, bf_LayerTransport = 0, bf_LayerUnclassified = 0, bf_LayerUnrecorded = 0\<rparr>"

type_synonym FidelityLevel = string

definition FidelityLevelSemantic :: FidelityLevel where "FidelityLevelSemantic = ''semantic''"
definition FidelityLevelTransport :: FidelityLevel where "FidelityLevelTransport = ''transport''"
definition FidelityLevelUnrecorded :: FidelityLevel where "FidelityLevelUnrecorded = ''unrecorded''"

definition BehaviorFidelity_observe :: "BehaviorFidelity \<Rightarrow> Fidelity \<Rightarrow> Layer \<Rightarrow> platform_error + BehaviorFidelity" where
  "BehaviorFidelity_observe b f l =
     (if f = FidelitySemantic then
        andThen (addCount (bf_Semantic b) 1) (\<lambda>n.
          let next = b\<lparr>bf_Semantic := n\<rparr> in
          if l = LayerModel then andThen (addCount (bf_LayerModel b) 1) (\<lambda>m. Inr (next\<lparr>bf_LayerModel := m\<rparr>))
          else if l = LayerTool then andThen (addCount (bf_LayerTool b) 1) (\<lambda>m. Inr (next\<lparr>bf_LayerTool := m\<rparr>))
          else if l = LayerRetrieval
            then andThen (addCount (bf_LayerRetrieval b) 1) (\<lambda>m. Inr (next\<lparr>bf_LayerRetrieval := m\<rparr>))
          else andThen (addCount (bf_LayerUnclassified b) 1) (\<lambda>m. Inr (next\<lparr>bf_LayerUnclassified := m\<rparr>)))
      else if f = FidelityTransport \<and> l = LayerTransport then
        andThen (addCount (bf_Transport b) 1) (\<lambda>n.
        andThen (addCount (bf_LayerTransport b) 1) (\<lambda>m. Inr (b\<lparr>bf_Transport := n, bf_LayerTransport := m\<rparr>)))
      else
        andThen (addCount (bf_Unrecorded b) 1) (\<lambda>n.
        andThen (addCount (bf_LayerUnrecorded b) 1) (\<lambda>m. Inr (b\<lparr>bf_Unrecorded := n, bf_LayerUnrecorded := m\<rparr>))))"

definition unrecordedFidelity :: "u64 \<Rightarrow> BehaviorFidelity" where
  "unrecordedFidelity observations = zeroFidelity\<lparr>bf_Unrecorded := observations, bf_LayerUnrecorded := observations\<rparr>"

definition BehaviorFidelity_Reported :: "BehaviorFidelity \<Rightarrow> FidelityLevel \<times> bool" where
  "BehaviorFidelity_Reported b =
     (let nonZero = length (filter (\<lambda>n. 0 < n) [bf_Semantic b, bf_Transport b, bf_Unrecorded b]);
          mixed = 1 < nonZero
      in if 0 < bf_Transport b then (FidelityLevelTransport, mixed)
         else if 0 < bf_Semantic b then (FidelityLevelSemantic, mixed)
         else (FidelityLevelUnrecorded, mixed))"

definition fidelityCounters :: "BehaviorFidelity \<Rightarrow> u64 list" where
  "fidelityCounters b = [bf_Semantic b, bf_Transport b, bf_Unrecorded b, bf_LayerModel b, bf_LayerTool b,
     bf_LayerRetrieval b, bf_LayerTransport b, bf_LayerUnclassified b, bf_LayerUnrecorded b]"

definition fidelity_of_counters :: "u64 list \<Rightarrow> BehaviorFidelity" where
  "fidelity_of_counters v = \<lparr>bf_Semantic = v ! 0, bf_Transport = v ! 1, bf_Unrecorded = v ! 2, bf_LayerModel = v ! 3,
     bf_LayerTool = v ! 4, bf_LayerRetrieval = v ! 5, bf_LayerTransport = v ! 6, bf_LayerUnclassified = v ! 7,
     bf_LayerUnrecorded = v ! 8\<rparr>"

definition BehaviorFidelity_Add :: "BehaviorFidelity \<Rightarrow> BehaviorFidelity \<Rightarrow> platform_error + BehaviorFidelity" where
  "BehaviorFidelity_Add b d =
     andThen (add_counters (fidelityCounters b) (fidelityCounters d)) (\<lambda>v. Inr (fidelity_of_counters v))"

datatype fidelity_error = FidelityOverflow | FidelityTotal | LayersOverflow | SemanticLayers | TransportLayer | UnrecordedLayer

definition validateBehaviorFidelity :: "BehaviorFidelity \<Rightarrow> u64 \<Rightarrow> fidelity_error option" where
  "validateBehaviorFidelity b observations =
     (case sumNoOverflow [bf_Semantic b, bf_Transport b, bf_Unrecorded b] of
        None \<Rightarrow> Some FidelityOverflow
      | Some fidelityTotal \<Rightarrow>
          if fidelityTotal \<noteq> observations then Some FidelityTotal
          else case sumNoOverflow [bf_LayerModel b, bf_LayerTool b, bf_LayerRetrieval b, bf_LayerUnclassified b] of
            None \<Rightarrow> Some LayersOverflow
          | Some semanticLayers \<Rightarrow>
              if semanticLayers \<noteq> bf_Semantic b then Some SemanticLayers
              else if bf_LayerTransport b \<noteq> bf_Transport b then Some TransportLayer
              else if bf_LayerUnrecorded b \<noteq> bf_Unrecorded b then Some UnrecordedLayer
              else None)"

definition fidelityCounterCount :: nat where "fidelityCounterCount = 9"

definition encodeFidelityCounts :: "BehaviorFidelity \<Rightarrow> string" where
  "encodeFidelityCounts b = encode_counters (fidelityCounters b)"

definition decodeFidelityCounts :: "string \<Rightarrow> platform_error + BehaviorFidelity" where
  "decodeFidelityCounts s = andThen (decode_counters fidelityCounterCount s) (\<lambda>v. Inr (fidelity_of_counters v))"

subsection \<open>A decoder accepts exactly what its encoder writes\<close>

lemma dec_value_Some: "dec_value c = Some d \<Longrightarrow> d < 10 \<and> c = ''0123456789'' ! d"
proof -
  assume a: "dec_value c = Some d"
  then have n: "of_char c = 48 + d" "d < 10" by (auto simp: dec_value_def Let_def split: if_splits)
  have "c = char_of (48 + d)" using n(1) by (metis char_of_char)
  moreover have "list_all (\<lambda>d. char_of (48 + d) = ''0123456789'' ! d) [0..<10]" by code_simp
  ultimately show ?thesis using n(2) by (simp add: list_all_iff del: upt_Suc)
qed

lemma parse_digits_canonical:
  "parse_digits 0 s = Some n \<Longrightarrow> s \<noteq> '''' \<Longrightarrow> \<not> (1 < length s \<and> hd s = CHR ''0'') \<Longrightarrow> s = dec_nat n"
proof (induction s arbitrary: n rule: rev_induct)
  case (snoc c t)
  obtain m d where m: "parse_digits 0 t = Some m" "dec_value c = Some d" "n = 10 * m + d"
    using snoc.prems(1) by (auto simp: parse_digits_append split: option.splits)
  note c = dec_value_Some [OF m(2)]
  show ?case
  proof (cases "t = ''''")
    case True
    then have "n = d" using m by simp
    then show ?thesis using True c by (subst dec_nat.simps) simp
  next
    case False
    then have h: "hd t \<noteq> CHR ''0''" using snoc.prems(3) by (cases t) auto
    then have t: "t = dec_nat m" using snoc.IH [OF m(1) False] by simp
    have "hd (dec_nat 0) = CHR ''0''" by (simp add: dec_nat.simps)
    then have "m \<noteq> 0" using h t by metis
    then show ?thesis using c t m(3) by (subst dec_nat.simps) simp
  qed
qed simp

lemma dec_nat_shape: "set (dec_nat n) \<subseteq> set ''0123456789'' \<and> (1 < length (dec_nat n) \<longrightarrow> hd (dec_nat n) \<noteq> CHR ''0'')"
proof (induction n rule: dec_nat.induct)
  case (1 n)
  have d: "''0123456789'' ! k \<in> set ''0123456789''" if "k < 10" for k using that by (intro nth_mem) simp
  show ?case
  proof (cases "n < 10")
    case True
    then show ?thesis using d by (subst (1 2 3) dec_nat.simps) simp
  next
    case False
    have "hd (dec_nat (n div 10)) \<noteq> CHR ''0''"
    proof (cases "1 < length (dec_nat (n div 10))")
      case True
      then show ?thesis using 1 False by simp
    next
      case short: False
      have "n div 10 < 10"
      proof (rule ccontr)
        assume "\<not> n div 10 < 10"
        then have "dec_nat (n div 10) = dec_nat (n div 10 div 10) @ [''0123456789'' ! (n div 10 mod 10)]"
          by (subst dec_nat.simps) simp
        with short show False by (cases "dec_nat (n div 10 div 10)") auto
      qed
      moreover have "list_all (\<lambda>d. ''0123456789'' ! d \<noteq> CHR ''0'') [1..<10]" by code_simp
      ultimately show ?thesis using False by (subst dec_nat.simps) (auto simp: list_all_iff simp del: upt_Suc)
    qed
    moreover have "dec_nat n = dec_nat (n div 10) @ [''0123456789'' ! (n mod 10)]" using False by (subst dec_nat.simps) simp
    ultimately show ?thesis using 1 False d [of "n mod 10"] by auto
  qed
qed


lemma parseCanonical_iff: "parseCanonicalUint64 s = Some v \<longleftrightarrow> s = FormatUint10 v"
proof
  assume a: "parseCanonicalUint64 s = Some v"
  then obtain n where n: "s \<noteq> ''''" "\<not> (1 < length s \<and> hd s = CHR ''0'')" "parse_digits 0 s = Some n" "n < 2 ^ 64" "v = of_nat n"
    by (auto simp: parseCanonicalUint64_def ParseUint10_def split: if_splits option.splits)
  then have "s = dec_nat n" by (intro parse_digits_canonical)
  then show "s = FormatUint10 v" using n(4,5) by (simp add: FormatUint10_def unat_of_nat)
next
  assume s: "s = FormatUint10 v"
  have "list_all (\<lambda>c. 48 \<le> (of_char c :: nat) \<and> (of_char c :: nat) \<le> 57) ''0123456789''" by code_simp
  then have "48 \<le> (of_char c :: nat) \<and> (of_char c :: nat) \<le> 57" if "c \<in> set ''0123456789''" for c
    using that by (simp only: list_all_iff)
  moreover have "s \<noteq> ''''" "set s \<subseteq> set ''0123456789''"
    using s dec_nat_shape [of "unat v"] unfolding FormatUint10_def by (metis dec_nat_nonempty, metis)
  then have "hd s \<in> set ''0123456789''" using hd_in_set [of s] by blast
  ultimately have "48 \<le> (of_char (hd s) :: nat) \<and> (of_char (hd s) :: nat) \<le> 57" by blast
  moreover have "\<not> (1 < length s \<and> hd s = CHR ''0'')" using dec_nat_shape [of "unat v"] s by (simp add: FormatUint10_def)
  ultimately show "parseCanonicalUint64 s = Some v"
    using s ParseUint10_FormatUint10 [of v] by (simp add: parseCanonicalUint64_def not_less)
qed

lemma FormatUint10_no_comma: "c \<in> set (FormatUint10 v) \<Longrightarrow> c \<noteq> CHR '',''"
  using dec_nat_shape [of "unat v"] by (auto simp: FormatUint10_def)

lemma Cut_rec:
  "Cut sep [] = ([], [], False)"
  "Cut sep (c # s) = (if c = sep then ([], s, True) else (c # fst (Cut sep s), snd (Cut sep s)))"
  subgoal by (simp add: Cut_def)
  subgoal by (cases "dropWhile (\<lambda>c. c \<noteq> sep) s") (simp_all add: Cut_def del: dropWhile_eq_Nil_conv)
  done

lemma Cut_iff:
  "Cut sep s = (field, tail, mo) \<longleftrightarrow>
     sep \<notin> set field \<and> (if mo then s = field @ sep # tail else s = field \<and> tail = [])"
proof (induction s arbitrary: field)
  case Nil
  show ?case by (auto simp: Cut_rec)
next
  case (Cons c s)
  show ?case
  proof (cases field)
    case Nil
    then show ?thesis by (cases "c = sep") (auto simp: Cut_rec)
  next
    case (Cons d ds)
    have "Cut sep s = (fst (Cut sep s), snd (Cut sep s))" by simp
    then have "fst (Cut sep s) = ds \<and> snd (Cut sep s) = (tail, mo) \<longleftrightarrow> Cut sep s = (ds, tail, mo)" by (metis prod.inject)
    then show ?thesis using Cons Cons.IH [of ds] by (cases "c = sep") (auto simp: Cut_rec)
  qed
qed

lemma decode_counters_iff:
  "decode_counters (Suc k) s = Inr vs \<longleftrightarrow> length vs = Suc k \<and> s = encode_counters vs"
proof (induction k arbitrary: s vs)
  case 0
  obtain field tail mo where c: "Cut CHR '','' s = (field, tail, mo)" by (metis prod_cases3)
  show ?case
  proof
    assume a: "decode_counters (Suc 0) s = Inr vs"
    then have m: "\<not> mo" using c by (auto split: if_splits)
    then obtain v where "vs = [v]" "field = FormatUint10 v"
      using a c by (auto simp: parseCanonical_iff [symmetric] split: option.splits)
    then show "length vs = Suc 0 \<and> s = encode_counters vs" using c m Cut_iff [of "CHR '',''" s field tail mo] by simp
  next
    assume a: "length vs = Suc 0 \<and> s = encode_counters vs"
    then obtain v where v: "vs = [v]" "s = FormatUint10 v" by (cases vs) auto
    then have "Cut CHR '','' s = (s, '''', False)" using FormatUint10_no_comma by (auto simp: Cut_iff)
    then show "decode_counters (Suc 0) s = Inr vs" using v parseCanonical_iff [of s v] by simp
  qed
next
  case (Suc k)
  obtain field tail mo where c: "Cut CHR '','' s = (field, tail, mo)" by (metis prod_cases3)
  show ?case
  proof
    assume a: "decode_counters (Suc (Suc k)) s = Inr vs"
    then have m: mo using c by (auto split: if_splits)
    then obtain v ws where v: "vs = v # ws" "field = FormatUint10 v" "decode_counters (Suc k) tail = Inr ws"
      using a c by (auto simp: parseCanonical_iff [symmetric] simp del: decode_counters.simps(2)
          simp: decode_counters.simps(2) [of "Suc k"] split: option.splits)
    then have "length ws = Suc k" "tail = encode_counters ws" using Suc.IH by auto
    then show "length vs = Suc (Suc k) \<and> s = encode_counters vs"
      using c m v Cut_iff [of "CHR '',''" s field tail mo] by (cases ws) auto
  next
    assume a: "length vs = Suc (Suc k) \<and> s = encode_counters vs"
    then obtain v w ws where v: "vs = v # w # ws" by (metis length_Suc_conv)
    then have s: "s = FormatUint10 v @ CHR '','' # encode_counters (w # ws)" using a by simp
    then have "Cut CHR '','' s = (FormatUint10 v, encode_counters (w # ws), True)"
      using FormatUint10_no_comma by (auto simp: Cut_iff)
    moreover have "decode_counters (Suc k) (encode_counters (w # ws)) = Inr (w # ws)" using Suc.IH a v by auto
    ultimately show "decode_counters (Suc (Suc k)) s = Inr vs"
      using v parseCanonical_iff [of "FormatUint10 v" v] by (simp add: decode_counters.simps(2) [of "Suc k"] del: decode_counters.simps)
  qed
qed


subsection \<open>What fidelity counts represent\<close>

definition fid_class :: "Fidelity \<times> Layer \<Rightarrow> nat" where
  "fid_class p =
     (if fst p = FidelitySemantic
      then (if snd p = LayerModel then 0 else if snd p = LayerTool then 1 else if snd p = LayerRetrieval then 2 else 3)
      else if fst p = FidelityTransport \<and> snd p = LayerTransport then 4 else 5)"

definition fid_rep :: "BehaviorFidelity \<Rightarrow> (Fidelity \<times> Layer) list \<Rightarrow> bool" where
  "fid_rep b xs \<longleftrightarrow>
     unat (bf_LayerModel b) = count_list (map fid_class xs) 0 \<and> unat (bf_LayerTool b) = count_list (map fid_class xs) 1 \<and>
     unat (bf_LayerRetrieval b) = count_list (map fid_class xs) 2 \<and>
     unat (bf_LayerUnclassified b) = count_list (map fid_class xs) 3 \<and>
     unat (bf_LayerTransport b) = count_list (map fid_class xs) 4 \<and>
     unat (bf_LayerUnrecorded b) = count_list (map fid_class xs) 5 \<and>
     unat (bf_Semantic b) = length (filter (\<lambda>k. k < 4) (map fid_class xs)) \<and>
     unat (bf_Transport b) = count_list (map fid_class xs) 4 \<and> unat (bf_Unrecorded b) = count_list (map fid_class xs) 5"

lemma fid_rep_zero: "fid_rep zeroFidelity []"
  by (simp add: fid_rep_def zeroFidelity_def)

lemma fid_rep_unique: "fid_rep b xs \<Longrightarrow> fid_rep c xs \<Longrightarrow> b = c"
  by (cases b; cases c) (simp add: fid_rep_def word_unat_eq_iff)

lemma fid_class_cases:
  obtains "f = FidelitySemantic" "l = LayerModel" "fid_class (f, l) = 0"
  | "f = FidelitySemantic" "l = LayerTool" "l \<noteq> LayerModel" "fid_class (f, l) = 1"
  | "f = FidelitySemantic" "l = LayerRetrieval" "l \<noteq> LayerModel" "l \<noteq> LayerTool" "fid_class (f, l) = 2"
  | "f = FidelitySemantic" "l \<noteq> LayerModel" "l \<noteq> LayerTool" "l \<noteq> LayerRetrieval" "fid_class (f, l) = 3"
  | "f \<noteq> FidelitySemantic" "f = FidelityTransport \<and> l = LayerTransport" "fid_class (f, l) = 4"
  | "f \<noteq> FidelitySemantic" "\<not> (f = FidelityTransport \<and> l = LayerTransport)" "fid_class (f, l) = 5"
proof -
  have d: "LayerTool \<noteq> LayerModel" "LayerRetrieval \<noteq> LayerModel" "LayerRetrieval \<noteq> LayerTool" by (simp_all add: layer_defs)
  have c: "fid_class (f, l) = (if f = FidelitySemantic
      then (if l = LayerModel then 0 else if l = LayerTool then 1 else if l = LayerRetrieval then 2 else 3)
      else if f = FidelityTransport \<and> l = LayerTransport then 4 else 5)" by (simp add: fid_class_def)
  consider "f = FidelitySemantic" "l = LayerModel" | "f = FidelitySemantic" "l = LayerTool"
    | "f = FidelitySemantic" "l = LayerRetrieval" | "f = FidelitySemantic" "l \<noteq> LayerModel" "l \<noteq> LayerTool" "l \<noteq> LayerRetrieval"
    | "f \<noteq> FidelitySemantic" "f = FidelityTransport \<and> l = LayerTransport"
    | "f \<noteq> FidelitySemantic" "\<not> (f = FidelityTransport \<and> l = LayerTransport)" by blast
  then show ?thesis
  proof cases
    case 1 show ?thesis by (rule that(1)) (use 1 c in simp_all)
  next
    case 2 show ?thesis by (rule that(2)) (use 2 c d in simp_all)
  next
    case 3 show ?thesis by (rule that(3)) (use 3 c d in simp_all)
  next
    case 4 show ?thesis by (rule that(4)) (use 4 c in simp_all)
  next
    case 5 show ?thesis by (rule that(5)) (use 5 c in simp_all)
  next
    case 6 show ?thesis by (rule that(6)) (use 6 c in simp_all)
  qed
qed

lemma fidelity_observe_iff:
  assumes "fid_rep b xs"
  shows "BehaviorFidelity_observe b f l = Inr b' \<longleftrightarrow> fid_rep b' (xs @ [(f, l)])"
proof (cases rule: fid_class_cases [of f l])
  case 1
  then have "BehaviorFidelity_observe b f l = Inr b' \<longleftrightarrow>
      (\<exists>n m. unat n = Suc (unat (bf_Semantic b)) \<and> unat m = Suc (unat (bf_LayerModel b)) \<and> b' = b\<lparr>bf_Semantic := n, bf_LayerModel := m\<rparr>)"
    by (simp add: BehaviorFidelity_observe_def addCount_one eq_commute [of _ b'] conj_assoc Let_def) blast?
  then show ?thesis using assms 1 by (cases b; cases b') (simp add: fid_rep_def; simp add: word_unat_eq_iff [where 'a=64]; metis)
next
  case 2
  then have "BehaviorFidelity_observe b f l = Inr b' \<longleftrightarrow>
      (\<exists>n m. unat n = Suc (unat (bf_Semantic b)) \<and> unat m = Suc (unat (bf_LayerTool b)) \<and> b' = b\<lparr>bf_Semantic := n, bf_LayerTool := m\<rparr>)"
    by (simp add: BehaviorFidelity_observe_def addCount_one eq_commute [of _ b'] conj_assoc Let_def) blast?
  then show ?thesis using assms 2 by (cases b; cases b') (simp add: fid_rep_def; simp add: word_unat_eq_iff [where 'a=64]; metis)
next
  case 3
  then have "BehaviorFidelity_observe b f l = Inr b' \<longleftrightarrow>
      (\<exists>n m. unat n = Suc (unat (bf_Semantic b)) \<and> unat m = Suc (unat (bf_LayerRetrieval b)) \<and> b' = b\<lparr>bf_Semantic := n, bf_LayerRetrieval := m\<rparr>)"
    by (simp add: BehaviorFidelity_observe_def addCount_one eq_commute [of _ b'] conj_assoc Let_def) blast?
  then show ?thesis using assms 3 by (cases b; cases b') (simp add: fid_rep_def; simp add: word_unat_eq_iff [where 'a=64]; metis)
next
  case 4
  then have "BehaviorFidelity_observe b f l = Inr b' \<longleftrightarrow>
      (\<exists>n m. unat n = Suc (unat (bf_Semantic b)) \<and> unat m = Suc (unat (bf_LayerUnclassified b)) \<and> b' = b\<lparr>bf_Semantic := n, bf_LayerUnclassified := m\<rparr>)"
    by (simp add: BehaviorFidelity_observe_def addCount_one eq_commute [of _ b'] conj_assoc Let_def) blast?
  then show ?thesis using assms 4 by (cases b; cases b') (simp add: fid_rep_def; simp add: word_unat_eq_iff [where 'a=64]; metis)
next
  case 5
  then have "BehaviorFidelity_observe b f l = Inr b' \<longleftrightarrow>
      (\<exists>n m. unat n = Suc (unat (bf_Transport b)) \<and> unat m = Suc (unat (bf_LayerTransport b)) \<and> b' = b\<lparr>bf_Transport := n, bf_LayerTransport := m\<rparr>)"
    by (simp add: BehaviorFidelity_observe_def addCount_one eq_commute [of _ b'] conj_assoc Let_def) blast?
  then show ?thesis using assms 5 by (cases b; cases b') (simp add: fid_rep_def; simp add: word_unat_eq_iff [where 'a=64]; metis)
next
  case 6
  then have "BehaviorFidelity_observe b f l = Inr b' \<longleftrightarrow>
      (\<exists>n m. unat n = Suc (unat (bf_Unrecorded b)) \<and> unat m = Suc (unat (bf_LayerUnrecorded b)) \<and> b' = b\<lparr>bf_Unrecorded := n, bf_LayerUnrecorded := m\<rparr>)"
    by (simp add: BehaviorFidelity_observe_def addCount_one eq_commute [of _ b'] conj_assoc Let_def) blast?
  then show ?thesis using assms 6 by (cases b; cases b') (simp add: fid_rep_def; simp add: word_unat_eq_iff [where 'a=64]; metis)
qed

fun fold_fidelity :: "BehaviorFidelity \<Rightarrow> (Fidelity \<times> Layer) list \<Rightarrow> platform_error + BehaviorFidelity" where
  "fold_fidelity b [] = Inr b"
| "fold_fidelity b ((f, l) # xs) = andThen (BehaviorFidelity_observe b f l) (\<lambda>c. fold_fidelity c xs)"


lemma fid_rep_prefix:
  assumes "fid_rep c (xs @ ys)"
  shows "\<exists>b. fid_rep b xs"
proof -
  have lt: "n < 2 ^ 64" if "unat (w :: u64) = n + k" for w n k using that unat_less_2p64 [of w] by simp
  let ?cl = "map fid_class xs"
  let ?w = "\<lambda>k. of_nat (count_list ?cl k) :: u64"
  have "count_list ?cl 0 < 2 ^ 64" "count_list ?cl 1 < 2 ^ 64" "count_list ?cl 2 < 2 ^ 64" "count_list ?cl 3 < 2 ^ 64"
    "count_list ?cl 4 < 2 ^ 64" "count_list ?cl 5 < 2 ^ 64" "length (filter (\<lambda>k. k < 4) ?cl) < 2 ^ 64"
    using assms by (simp_all only: fid_rep_def map_append count_list_append filter_append length_append) (rule lt, blast)+
  then have "fid_rep \<lparr>bf_Semantic = of_nat (length (filter (\<lambda>k. k < 4) ?cl)), bf_Transport = ?w 4, bf_Unrecorded = ?w 5,
      bf_LayerModel = ?w 0, bf_LayerTool = ?w 1, bf_LayerRetrieval = ?w 2, bf_LayerTransport = ?w 4,
      bf_LayerUnclassified = ?w 3, bf_LayerUnrecorded = ?w 5\<rparr> xs"
    by (simp add: fid_rep_def unat_of_nat)
  then show ?thesis by blast
qed

lemma fold_fidelity_rep: "fid_rep b xs \<Longrightarrow> fold_fidelity b ys = Inr c \<longleftrightarrow> fid_rep c (xs @ ys)"
proof (induction ys arbitrary: b xs)
  case Nil
  then show ?case using fid_rep_unique by auto
next
  case (Cons y ys)
  obtain f l where y: "y = (f, l)" by fastforce
  have "fold_fidelity b (y # ys) = Inr c \<longleftrightarrow> (\<exists>d. fid_rep d (xs @ [y]) \<and> fold_fidelity d ys = Inr c)"
    using fidelity_observe_iff [OF Cons.prems] by (simp add: y)
  also have "\<dots> \<longleftrightarrow> fid_rep c ((xs @ [y]) @ ys)"
    using Cons.IH fid_rep_prefix [of c "xs @ [y]" ys] by blast
  finally show ?case by simp
qed

lemma validateFidelity_None:
  "validateBehaviorFidelity b n = None \<longleftrightarrow>
     unat (bf_Semantic b) + unat (bf_Transport b) + unat (bf_Unrecorded b) = unat n \<and>
     unat (bf_LayerModel b) + unat (bf_LayerTool b) + unat (bf_LayerRetrieval b) + unat (bf_LayerUnclassified b) =
       unat (bf_Semantic b) \<and>
     bf_LayerTransport b = bf_Transport b \<and> bf_LayerUnrecorded b = bf_Unrecorded b"
proof -
  have "validateBehaviorFidelity b n = None \<longleftrightarrow>
      sumNoOverflow [bf_Semantic b, bf_Transport b, bf_Unrecorded b] = Some n \<and>
      sumNoOverflow [bf_LayerModel b, bf_LayerTool b, bf_LayerRetrieval b, bf_LayerUnclassified b] = Some (bf_Semantic b) \<and>
      bf_LayerTransport b = bf_Transport b \<and> bf_LayerUnrecorded b = bf_Unrecorded b"
    by (auto simp: validateBehaviorFidelity_def split: option.splits if_splits)
  then show ?thesis by (simp add: sumNoOverflow_Some add.assoc eq_commute [of "unat n"] eq_commute [of "unat (bf_Semantic b)"])
qed

lemma class_count:
  "count_list ks 0 + (count_list ks 1 + (count_list ks 2 + count_list ks 3)) = length (filter (\<lambda>k. k < 4) (ks :: nat list))"
  by (induction ks) auto

lemma fidelity_exact:
  "validateBehaviorFidelity b n = None \<longleftrightarrow>
     (\<exists>xs. length xs = unat n \<and> list_all (\<lambda>(f, l). validateFidelityPair f l = None) xs \<and> fold_fidelity zeroFidelity xs = Inr b)"
proof
  assume "validateBehaviorFidelity b n = None"
  note v = this [unfolded validateFidelity_None]
  let ?xs = "replicate (unat (bf_LayerModel b)) (FidelitySemantic, LayerModel) @
    replicate (unat (bf_LayerTool b)) (FidelitySemantic, LayerTool) @
    replicate (unat (bf_LayerRetrieval b)) (FidelitySemantic, LayerRetrieval) @
    replicate (unat (bf_LayerUnclassified b)) (FidelitySemantic, LayerUnspecified) @
    replicate (unat (bf_LayerTransport b)) (FidelityTransport, LayerTransport) @
    replicate (unat (bf_LayerUnrecorded b)) ('''', LayerUnspecified)"
  have cls: "fid_class (FidelitySemantic, LayerModel) = 0" "fid_class (FidelitySemantic, LayerTool) = 1"
    "fid_class (FidelitySemantic, LayerRetrieval) = 2" "fid_class (FidelitySemantic, LayerUnspecified) = 3"
    "fid_class (FidelityTransport, LayerTransport) = 4" "fid_class ('''', LayerUnspecified) = 5"
    by (simp_all add: fid_class_def layer_defs)
  have rep: "count_list (replicate k x) y = (if x = y then k else 0)" for k x and y :: nat by (induction k) auto
  have "fid_rep b ?xs" unfolding fid_rep_def map_append map_replicate cls filter_append length_append count_list_append rep
    using v by simp
  moreover have "length ?xs = unat n" using v by simp
  moreover have "list_all (\<lambda>(f, l). validateFidelityPair f l = None) ?xs"
  proof -
    have r: "list_all P (replicate k x)" if "P x" for P k and x :: "Fidelity \<times> Layer" using that by (induction k) simp_all
    show ?thesis unfolding list_all_append by (intro conjI r) (simp_all add: validateFidelityPair_def layer_defs)
  qed
  ultimately show "\<exists>xs. length xs = unat n \<and> list_all (\<lambda>(f, l). validateFidelityPair f l = None) xs \<and>
      fold_fidelity zeroFidelity xs = Inr b"
    using fold_fidelity_rep [OF fid_rep_zero, of ?xs b] by (intro exI [of _ ?xs]) simp
next
  assume "\<exists>xs. length xs = unat n \<and> list_all (\<lambda>(f, l). validateFidelityPair f l = None) xs \<and>
      fold_fidelity zeroFidelity xs = Inr b"
  then obtain xs where xs: "length xs = unat n" "fid_rep b xs" using fold_fidelity_rep [OF fid_rep_zero] by auto
  have "fid_class p < 6" for p by (simp add: fid_class_def)
  then have "length (filter (\<lambda>k. k < 4) (map fid_class xs)) + count_list (map fid_class xs) 4 + count_list (map fid_class xs) 5 = length xs"
  proof (induction xs)
    case (Cons x xs)
    have "fid_class x < 4 \<or> fid_class x = 4 \<or> fid_class x = 5" using Cons.prems [of x] by linarith
    then show ?case using Cons by auto
  qed simp
  then show "validateBehaviorFidelity b n = None"
    using xs class_count [of "map fid_class xs"] unfolding validateFidelity_None fid_rep_def by (simp add: word_unat_eq_iff)
qed

subsection \<open>Stored counters read back\<close>

lemma fidelity_counters_inverse:
  "fidelity_of_counters (fidelityCounters b) = b" "length v = 9 \<Longrightarrow> fidelityCounters (fidelity_of_counters v) = v"
proof -
  show "fidelity_of_counters (fidelityCounters b) = b" by (simp add: fidelity_of_counters_def fidelityCounters_def)
  assume l: "length v = 9"
  have "drop n v = v ! n # drop (Suc n) v" if "n < 9" for n using that l by (simp add: Cons_nth_drop_Suc)
  from this [of 0] this [of 1] this [of 2] this [of 3] this [of 4] this [of 5] this [of 6] this [of 7] this [of 8]
  have "v = [v ! 0, v ! 1, v ! 2, v ! 3, v ! 4, v ! 5, v ! 6, v ! 7, v ! 8]"
    using l by (simp add: eval_nat_numeral)
  then show "fidelityCounters (fidelity_of_counters v) = v"
    by (simp add: fidelityCounters_def fidelity_of_counters_def)
qed

lemma decodeFidelity_iff: "decodeFidelityCounts s = Inr b \<longleftrightarrow> s = encodeFidelityCounts b"
proof -
  have "decode_counters 9 s = Inr v \<longleftrightarrow> length v = 9 \<and> s = encode_counters v" for v
    using decode_counters_iff [of 8 s v] by (simp add: numeral_eq_Suc)
  moreover have "length (fidelityCounters b) = 9" by (simp add: fidelityCounters_def)
  ultimately show ?thesis
    using fidelity_counters_inverse unfolding decodeFidelityCounts_def encodeFidelityCounts_def fidelityCounterCount_def andThen_Inr
    by (metis sum.inject(2))
qed

lemma decodeOperational_encode:
  assumes "length (os_Buckets s) = 11" and "sumNoOverflow (os_Buckets s) = Some (du_Count (os_Durations s))"
  shows "decodeOperationalCounts (encodeOperationalCounts s) = Inr s"
proof -
  have "length (operationalCounters s) = Suc 30" using assms(1) by (simp add: operationalCounters_def)
  then have d: "decode_counters 31 (encodeOperationalCounts s) = Inr (operationalCounters s)"
    using decode_counters_iff [of 30 "encodeOperationalCounts s" "operationalCounters s"]
    by (simp add: encodeOperationalCounts_def numeral_eq_Suc)
  have "take 11 (operationalCounters s) = os_Buckets s" "drop 11 (operationalCounters s) = drop 11 (operationalCounters s)"
    using assms(1) by (simp_all add: operationalCounters_def)
  then show ?thesis using d assms
    by (simp add: decodeOperationalCounts_def operationalCounterCount_def DurationBucketCount_def Let_def operationalCounters_def nth_append)
qed


text \<open>Stored fidelity counts for \<open>n\<close> observations are accepted exactly when some
  sequence of \<open>n\<close> valid fidelity and layer pairs produces them: no counts the collector can write
  are refused on load, and none it cannot write are accepted.\<close>

theorem fidelity_validation_exact:
  "validateBehaviorFidelity b n = None \<longleftrightarrow>
     (\<exists>xs. length xs = unat n \<and> list_all (\<lambda>(f, l). validateFidelityPair f l = None) xs \<and> fold_fidelity zeroFidelity xs = Inr b)"
  by (rule fidelity_exact)

text \<open>The decoder of fidelity counts accepts exactly the text the encoder writes, and
  returns the counts it was written from: one text per value, one value per text.\<close>

theorem counter_text_exact: "decodeFidelityCounts s = Inr b \<longleftrightarrow> s = encodeFidelityCounts b"
  by (rule decodeFidelity_iff)

lemma op_rep_codec:
  assumes r: "op_rep s xs"
  shows "decodeOperationalCounts (encodeOperationalCounts s) = Inr s"
proof -
  have "length (os_Buckets s) = 11" "buckets_rep (os_Buckets s) (values_of xs)"
    "dur_rep (os_Durations s) (values_of xs) (absent (map (dur_obs \<circ> fst) xs))"
    using r by (auto simp: op_rep_def buckets_rep_def)
  then show ?thesis by (intro decodeOperational_encode buckets_total)
qed

text \<open>The operational summary of any sequence of observations survives storage:
  its text decodes to the same summary, although the observed duration count is not stored, and the
  restored summary passes the restore validation for that number of observations.\<close>

theorem stored_summary_restores:
  assumes "fold_operational zeroOperational xs = Inr s" and "length xs < 2 ^ 64"
  shows "decodeOperationalCounts (encodeOperationalCounts s) = Inr s \<and>
    validateOperationalSummary s (of_nat (length xs)) = None"
proof
  have r: "op_rep s xs" using assms(1) by (simp add: fold_operational_iff)
  show "decodeOperationalCounts (encodeOperationalCounts s) = Inr s" by (rule op_rep_codec [OF r])
  show "validateOperationalSummary s (of_nat (length xs)) = None"
    using assms(2) by (intro summary_accepted [OF r]) (simp add: unat_of_nat)
qed

end
