(* ===== verification/Platform_Observation.thy ===== *)
theory Platform_Observation
  imports Platform_Codec Alert "HOL-Library.List_Lexorder" "HOL-Library.Char_ord"
begin

text \<open>
  Retained per-observation history (\<^verbatim>\<open>platform/observation.go\<close>,
  \<^verbatim>\<open>observation_store.go\<close>, the sequence keys of \<^verbatim>\<open>observation_columns.go\<close> and
  the paged read of \<^verbatim>\<open>controlplane.go\<close>): the row of one accepted record, the retention bound,
  the text columns of the store, what a run's history is, and the pages a reader sees. A row holds the
  encoded columns and is decoded with every check of the reader. The rows of a run are a list; a page statement
  selects the rows above the cursor that satisfy the filter, in the order of their stored key, up to
  the limit. SHA-256, whose digests are indexed, is a parameter.
  The theorems are that the stored keys order as the sequences do, that retention keeps exactly the
  first 4096 records and says so, and that the paged read decodes the whole history.
\<close>

subsection \<open>Columns\<close>

definition uint64Text :: "u64 \<Rightarrow> string" where "uint64Text v = FormatUint10 v"

definition parseUint64Text :: "string \<Rightarrow> platform_error + u64" where
  "parseUint64Text s =
     (case ParseUint10 s of
        None \<Rightarrow> Inl ErrStoreCorrupt
      | Some v \<Rightarrow> if FormatUint10 v \<noteq> s then Inl ErrStoreCorrupt else Inr v)"

definition parseStoredBool :: "int \<Rightarrow> platform_error + bool" where
  "parseStoredBool v = (if v = 0 then Inr False else if v = 1 then Inr True else Inl ErrStoreCorrupt)"

definition boolInt :: "bool \<Rightarrow> int" where "boolInt b = (if b then 1 else 0)"

definition timeText :: "gotime \<Rightarrow> time_text" where "timeText t = formatTime t"

definition parseTimeText :: "time_text \<Rightarrow> platform_error + gotime" where
  "parseTimeText s = (case parseTime s of None \<Rightarrow> Inl ErrStoreCorrupt | Some t \<Rightarrow> Inr t)"

definition nullTimeText :: "gotime \<Rightarrow> time_text option" where
  "nullTimeText t = (if Time_IsZero t then None else Some (timeText t))"

definition parseNullTimeText :: "time_text option \<Rightarrow> platform_error + gotime" where
  "parseNullTimeText s = (case s of None \<Rightarrow> Inr zeroTime | Some v \<Rightarrow> parseTimeText v)"

lemma parse_uint64Text [simp]: "parseUint64Text (uint64Text v) = Inr v"
  by (simp add: parseUint64Text_def uint64Text_def ParseUint10_FormatUint10)

lemma parse_bool [simp]: "parseStoredBool (boolInt b) = Inr b"
  by (simp add: parseStoredBool_def boolInt_def)

lemma parse_time_text: "parseTimeText (timeText t) = Inr t \<longleftrightarrow> time_storable t"
  using parse_format_time [of t] by (auto simp: parseTimeText_def timeText_def split: option.splits)

lemma parse_null_time_text: "(t_ns t = 0 \<Longrightarrow> t = zeroTime) \<Longrightarrow> (t_ns t \<noteq> 0 \<Longrightarrow> time_storable t) \<Longrightarrow> parseNullTimeText (nullTimeText t) = Inr t"
  using parse_time_text [of t] by (auto simp: parseNullTimeText_def nullTimeText_def Time_IsZero_def)

subsection \<open>Observations\<close>

definition MaxRetainedObservations :: u64 where "MaxRetainedObservations = 4096"
definition MaxListPage :: nat where "MaxListPage = 64"

record Observation =
  ob_Sequence :: u64
  ob_EventID :: string
  ob_Timestamp :: gotime
  ob_ActorID :: string
  ob_ActorType :: ActorType
  ob_IdentityConfidence :: f64
  ob_FingerprintID :: string
  ob_Behavior :: StableFeatures
  ob_NewBehavior :: bool
  ob_AnomalyScore :: f64
  ob_AnomalyConfidence :: f64
  ob_TrustScore :: f64
  ob_ContextRisk :: f64
  ob_RiskLevel :: string
  ob_Decision :: string
  ob_PolicyRule :: string
  ob_PolicyReason :: string
  ob_MatchedDefault :: bool
  ob_TraceID :: string
  ob_SpanID :: string
  ob_SessionID :: string
  ob_DelegatedFrom :: string
  ob_ApprovalStatus :: ApprovalStatus
  ob_ParentSpanID :: string
  ob_SpanLineage :: SpanLineage
  ob_DurationNanos :: u64
  ob_DurationObserved :: bool
  ob_SpanStatus :: SpanStatus

definition Time_UTC :: "gotime \<Rightarrow> gotime" where "Time_UTC t = t\<lparr>t_offset := 0\<rparr>"

definition ObservationFromRecord :: "u64 \<Rightarrow> DecisionRecord \<Rightarrow> bool \<Rightarrow> platform_error + Observation" where
  "ObservationFromRecord sequence r newBehavior =
     (if sequence = 0 then Inl ErrInvalidObservation
      else if dr_EventID r = '''' then Inl ErrInvalidObservation
      else if Time_IsZero (dr_Timestamp r) then Inl ErrInvalidObservation
      else case ValidateDurationNanos r of
        Inl _ \<Rightarrow> Inl ErrInvalidObservation
      | Inr duration \<Rightarrow> Inr
          \<lparr>ob_Sequence = sequence, ob_EventID = dr_EventID r, ob_Timestamp = Time_UTC (dr_Timestamp r),
           ob_ActorID = dr_ActorID r, ob_ActorType = dr_ActorType r, ob_IdentityConfidence = dr_IdentityConfidence r,
           ob_FingerprintID = dr_FingerprintID r, ob_Behavior = dr_Behavior r, ob_NewBehavior = newBehavior,
           ob_AnomalyScore = dr_AnomalyScore r, ob_AnomalyConfidence = dr_AnomalyConfidence r,
           ob_TrustScore = dr_TrustScore r, ob_ContextRisk = dr_ContextRisk r, ob_RiskLevel = dr_RiskLevel r,
           ob_Decision = dr_Decision r, ob_PolicyRule = dr_PolicyRule r, ob_PolicyReason = dr_PolicyReason r,
           ob_MatchedDefault = dr_MatchedDefault r, ob_TraceID = dr_TraceID r, ob_SpanID = dr_SpanID r,
           ob_SessionID = dr_SessionID r, ob_DelegatedFrom = dr_DelegatedFrom r, ob_ApprovalStatus = dr_ApprovalStatus r,
           ob_ParentSpanID = dr_ParentSpanID r, ob_SpanLineage = dr_SpanLineage r, ob_DurationNanos = duration,
           ob_DurationObserved = (dr_DurationNanos r \<noteq> ''''), ob_SpanStatus = dr_SpanStatus r\<rparr>)"

subsection \<open>Cursors and stored keys\<close>

definition FormatObservationCursor :: "u64 \<Rightarrow> string" where
  "FormatObservationCursor sequence = FormatUint10 sequence"

definition ParseObservationCursor :: "string \<Rightarrow> platform_error + u64" where
  "ParseObservationCursor s =
     (if s = '''' then Inr 0
      else case ParseUint10 s of
        None \<Rightarrow> Inl ErrObservationCursor
      | Some v \<Rightarrow> if FormatUint10 v \<noteq> s then Inl ErrObservationCursor
                  else if v = 0 then Inl ErrObservationCursor else Inr v)"

definition validateObservationPage :: "string \<Rightarrow> int \<Rightarrow> platform_error option" where
  "validateObservationPage after limit =
     (if limit < 1 \<or> int MaxListPage < limit then Some ErrInvalidID
      else case ParseObservationCursor after of Inl e \<Rightarrow> Some e | Inr _ \<Rightarrow> None)"

definition observationSequenceDigits :: nat where "observationSequenceDigits = 20"

definition observationSequenceKey :: "u64 \<Rightarrow> string" where
  "observationSequenceKey sequence =
     (let s = FormatUint10 sequence in replicate (observationSequenceDigits - length s) (CHR ''0'') @ s)"

definition parseObservationSequenceKey :: "string \<Rightarrow> platform_error + u64" where
  "parseObservationSequenceKey s =
     (case ParseUint10 s of
        None \<Rightarrow> Inl ErrStoreCorrupt
      | Some v \<Rightarrow> if observationSequenceKey v \<noteq> s then Inl ErrStoreCorrupt
                  else if v = 0 then Inl ErrStoreCorrupt else Inr v)"

type_synonym sha256 = "string \<Rightarrow> 8 word list"

definition observationDigestKey :: "sha256 \<Rightarrow> string \<Rightarrow> string" where
  "observationDigestKey sha v = (if v = '''' then '''' else concat (map hex_byte (sha v)))"

subsection \<open>Rows\<close>

text \<open>A stored row. The columns that hold a value as it is are the fields of \<open>ow_out\<close>, whose decoded fields stay zero, as
  in the struct a row is scanned into; the others hold the encoded value, and the last three the digests that are indexed.\<close>

record observation_row =
  ow_sequence :: string
  ow_timestamp :: time_text
  ow_newBehavior :: int
  ow_matchedDefault :: int
  ow_durationNanos :: string
  ow_durationObserved :: int
  ow_fingerprintKey :: string
  ow_traceKey :: string
  ow_sessionKey :: string
  ow_out :: Observation

definition observationInsertArgs :: "sha256 \<Rightarrow> Observation \<Rightarrow> observation_row" where
  "observationInsertArgs sha o' =
     \<lparr>ow_sequence = observationSequenceKey (ob_Sequence o'), ow_timestamp = timeText (ob_Timestamp o'),
      ow_newBehavior = boolInt (ob_NewBehavior o'), ow_matchedDefault = boolInt (ob_MatchedDefault o'),
      ow_durationNanos = uint64Text (ob_DurationNanos o'), ow_durationObserved = boolInt (ob_DurationObserved o'),
      ow_fingerprintKey = observationDigestKey sha (ob_FingerprintID o'), ow_traceKey = observationDigestKey sha (ob_TraceID o'),
      ow_sessionKey = observationDigestKey sha (ob_SessionID o'),
      ow_out = o'\<lparr>ob_Sequence := 0, ob_Timestamp := zeroTime, ob_NewBehavior := False, ob_MatchedDefault := False,
                   ob_DurationNanos := 0, ob_DurationObserved := False\<rparr>\<rparr>"

definition scan_observation :: "sha256 \<Rightarrow> observation_row \<Rightarrow> platform_error + Observation" where
  "scan_observation sha s =
     andThen (parseObservationSequenceKey (ow_sequence s)) (\<lambda>sequence.
     andThen (parseTimeText (ow_timestamp s)) (\<lambda>timestamp.
     andThen (parseUint64Text (ow_durationNanos s)) (\<lambda>duration.
       let status = ob_SpanStatus (ow_out s); observed = (ow_durationObserved s \<noteq> 0)
       in if MaxDurationNanos < duration then Inl ErrStoreCorrupt
          else if status \<noteq> '''' \<and> \<not> SpanStatus_Valid status then Inl ErrStoreCorrupt
          else if \<not> observed \<and> duration \<noteq> 0 then Inl ErrStoreCorrupt
          else if list_ex (\<lambda>(stored, value). stored \<noteq> observationDigestKey sha value)
            [(ow_fingerprintKey s, ob_FingerprintID (ow_out s)), (ow_traceKey s, ob_TraceID (ow_out s)),
             (ow_sessionKey s, ob_SessionID (ow_out s))] then Inl ErrStoreCorrupt
          else Inr ((ow_out s)\<lparr>ob_Sequence := sequence, ob_Timestamp := timestamp, ob_NewBehavior := ow_newBehavior s \<noteq> 0,
                      ob_MatchedDefault := ow_matchedDefault s \<noteq> 0, ob_DurationNanos := duration,
                      ob_DurationObserved := observed\<rparr>))))"

fun scan_rows :: "sha256 \<Rightarrow> observation_row list \<Rightarrow> platform_error + Observation list" where
  "scan_rows sha [] = Inr []"
| "scan_rows sha (r # rs) = andThen (scan_observation sha r) (\<lambda>ob. andThen (scan_rows sha rs) (\<lambda>obs. Inr (ob # obs)))"

subsection \<open>What a run's history is\<close>

datatype ObservationHistoryState =
  ObservationHistoryUnavailable | ObservationHistoryComplete | ObservationHistoryPartial

record ObservationHistory =
  oh_state :: ObservationHistoryState
  oh_retained :: u64

definition ObservationHistory_Available :: "ObservationHistory \<Rightarrow> bool" where
  "ObservationHistory_Available h = (oh_state h \<noteq> ObservationHistoryUnavailable)"

definition ObservationHistory_Complete :: "ObservationHistory \<Rightarrow> bool" where
  "ObservationHistory_Complete h = (oh_state h = ObservationHistoryComplete)"

definition NewObservationHistory :: "bool \<Rightarrow> u64 \<Rightarrow> bool \<Rightarrow> u64 \<Rightarrow> ObservationHistory" where
  "NewObservationHistory present retained cmpl recordCount =
     (if \<not> present then
        (if recordCount = 0 then \<lparr>oh_state = ObservationHistoryComplete, oh_retained = 0\<rparr>
         else \<lparr>oh_state = ObservationHistoryUnavailable, oh_retained = 0\<rparr>)
      else \<lparr>oh_state = (if cmpl then ObservationHistoryComplete else ObservationHistoryPartial),
            oh_retained = retained\<rparr>)"

record observationRetention =
  rt_Insert :: bool
  rt_Retained :: u64
  rt_Complete :: bool

definition planObservationRetention :: "bool \<Rightarrow> u64 \<Rightarrow> bool \<Rightarrow> u64 \<Rightarrow> observationRetention" where
  "planObservationRetention present retained cmpl sequence =
     (if \<not> present then \<lparr>rt_Insert = True, rt_Retained = 1, rt_Complete = (sequence = 1)\<rparr>
      else if MaxRetainedObservations \<le> retained
        then \<lparr>rt_Insert = False, rt_Retained = retained, rt_Complete = False\<rparr>
      else \<lparr>rt_Insert = True, rt_Retained = retained + 1, rt_Complete = cmpl\<rparr>)"

text \<open>What one run holds durably: its observation rows, its history row if there is one, and its record count.\<close>

record run_rows =
  rr_observations :: "observation_row list"
  rr_history :: "(string \<times> int) option"
  rr_recordCount :: u64

definition loadObservationHistoryRow :: "run_rows \<Rightarrow> platform_error + bool \<times> u64 \<times> bool" where
  "loadObservationHistoryRow s =
     (case rr_history s of
        None \<Rightarrow> Inr (False, 0, False)
      | Some (retainedText, completeInt) \<Rightarrow>
          andThen (parseUint64Text retainedText) (\<lambda>retained.
          andThen (parseStoredBool completeInt) (\<lambda>cmpl.
            if MaxRetainedObservations < retained then Inl ErrStoreCorrupt else Inr (True, retained, cmpl))))"

definition observationHistoryFor :: "run_rows \<Rightarrow> platform_error + ObservationHistory" where
  "observationHistoryFor s =
     andThen (loadObservationHistoryRow s) (\<lambda>(present, retained, cmpl).
       Inr (NewObservationHistory present retained cmpl (rr_recordCount s)))"

definition retainObservation :: "sha256 \<Rightarrow> run_rows \<Rightarrow> Observation \<Rightarrow> platform_error + run_rows \<times> ObservationHistory" where
  "retainObservation sha s ob =
     andThen (loadObservationHistoryRow s) (\<lambda>(present, retained, cmpl).
       let plan = planObservationRetention present retained cmpl (ob_Sequence ob);
           s' = s\<lparr>rr_observations := (if rt_Insert plan then rr_observations s @ [observationInsertArgs sha ob] else rr_observations s),
                  rr_history := Some (uint64Text (rt_Retained plan), boolInt (rt_Complete plan))\<rparr>
       in Inr (s', NewObservationHistory True (rt_Retained plan) (rt_Complete plan) 0))"

subsection \<open>Filtered pages\<close>

record ObservationFilter =
  fl_FingerprintID :: string
  fl_Decision :: string
  fl_RiskLevel :: string
  fl_SessionID :: string
  fl_TraceID :: string

definition noFilter :: ObservationFilter where
  "noFilter = \<lparr>fl_FingerprintID = '''', fl_Decision = '''', fl_RiskLevel = '''', fl_SessionID = '''', fl_TraceID = ''''\<rparr>"

text \<open>The conjuncts of the predicate as a test of a row.\<close>

definition filter_matches :: "sha256 \<Rightarrow> ObservationFilter \<Rightarrow> observation_row \<Rightarrow> bool" where
  "filter_matches sha f r =
     ((fl_FingerprintID f \<noteq> '''' \<longrightarrow> ow_fingerprintKey r = observationDigestKey sha (fl_FingerprintID f) \<and>
         ob_FingerprintID (ow_out r) = fl_FingerprintID f) \<and>
      (fl_Decision f \<noteq> '''' \<longrightarrow> ob_Decision (ow_out r) = fl_Decision f) \<and>
      (fl_RiskLevel f \<noteq> '''' \<longrightarrow> ob_RiskLevel (ow_out r) = fl_RiskLevel f) \<and>
      (fl_SessionID f \<noteq> '''' \<longrightarrow> ow_sessionKey r = observationDigestKey sha (fl_SessionID f) \<and>
         ob_SessionID (ow_out r) = fl_SessionID f) \<and>
      (fl_TraceID f \<noteq> '''' \<longrightarrow> ow_traceKey r = observationDigestKey sha (fl_TraceID f) \<and>
         ob_TraceID (ow_out r) = fl_TraceID f))"

record ObservationScope =
  sp_SessionID :: string
  sp_TraceID :: string
  sp_FingerprintID :: string

definition ObservationScope_filter :: "ObservationScope \<Rightarrow> platform_error + ObservationFilter" where
  "ObservationScope_filter s =
     (if 1 < length (filter (\<lambda>v. v \<noteq> '''') [sp_SessionID s, sp_TraceID s, sp_FingerprintID s]) then Inl ErrInvalidID
      else if sp_FingerprintID s \<noteq> '''' \<and> validateID (sp_FingerprintID s) \<noteq> None
        then Inl (the (validateID (sp_FingerprintID s)))
      else Inr (noFilter\<lparr>fl_SessionID := sp_SessionID s, fl_TraceID := sp_TraceID s, fl_FingerprintID := sp_FingerprintID s\<rparr>))"

record ObservationPage =
  pg_Observations :: "Observation list"
  pg_History :: ObservationHistory
  pg_Matched :: bool

definition page_rows :: "sha256 \<Rightarrow> ObservationFilter \<Rightarrow> u64 \<Rightarrow> nat \<Rightarrow> observation_row list \<Rightarrow> observation_row list" where
  "page_rows sha f after limit rows =
     take limit (sort_key ow_sequence (filter (\<lambda>r. observationSequenceKey after < ow_sequence r \<and> filter_matches sha f r) rows))"

definition observationsMatch :: "sha256 \<Rightarrow> ObservationFilter \<Rightarrow> observation_row list \<Rightarrow> bool" where
  "observationsMatch sha f rows = list_ex (filter_matches sha f) rows"

definition runObservationPage ::
  "sha256 \<Rightarrow> run_rows option \<Rightarrow> ObservationFilter \<Rightarrow> u64 \<Rightarrow> nat \<Rightarrow> platform_error + ObservationPage" where
  "runObservationPage sha stored f after limit =
     (case stored of
        None \<Rightarrow> Inl ErrStoreNotFound
      | Some s \<Rightarrow>
          andThen (observationHistoryFor s) (\<lambda>history.
          andThen (scan_rows sha (page_rows sha f after limit (rr_observations s))) (\<lambda>observations.
            let matched = (if observations \<noteq> [] then True else observationsMatch sha f (rr_observations s))
            in Inr \<lparr>pg_Observations = observations, pg_History = history, pg_Matched = matched\<rparr>)))"

definition FindEvaluationRunObservations ::
  "sha256 \<Rightarrow> (EvaluationRunID \<Rightarrow> run_rows option) \<Rightarrow> EvaluationRunID \<Rightarrow> ObservationScope \<Rightarrow> string \<Rightarrow> int \<Rightarrow>
   platform_error + ObservationPage" where
  "FindEvaluationRunObservations sha store runID scope after limit =
     (case validateID runID of
        Some e \<Rightarrow> Inl e
      | None \<Rightarrow>
          andThen (ObservationScope_filter scope) (\<lambda>f.
            case validateObservationPage after limit of
              Some e \<Rightarrow> Inl e
            | None \<Rightarrow>
                andThen (ParseObservationCursor after) (\<lambda>cursor.
                  if store runID = None then Inl ErrStoreNotFound
                  else runObservationPage sha (store runID) f cursor (nat limit))))"

definition maxPages :: nat where "maxPages = unat MaxRetainedObservations div MaxListPage + 1"

fun retainedHistory_from ::
  "sha256 \<Rightarrow> run_rows option \<Rightarrow> nat \<Rightarrow> u64 \<Rightarrow> Observation list \<times> ObservationHistory \<Rightarrow>
   platform_error + Observation list \<times> ObservationHistory" where
  "retainedHistory_from sha s 0 after acc = Inr acc"
| "retainedHistory_from sha s (Suc pages) after (observations, history) =
     andThen (runObservationPage sha s noFilter after MaxListPage) (\<lambda>got.
       let history = pg_History got in
       if pg_Observations got = [] then Inr (observations, history)
       else let observations = observations @ pg_Observations got;
                next = ob_Sequence (last (pg_Observations got))
            in if next \<le> after then Inr (observations, history)
               else retainedHistory_from sha s pages next (observations, history))"

definition retainedHistory ::
  "sha256 \<Rightarrow> run_rows option \<Rightarrow> platform_error + Observation list \<times> ObservationHistory" where
  "retainedHistory sha s =
     retainedHistory_from sha s maxPages 0 ([], \<lparr>oh_state = ObservationHistoryUnavailable, oh_retained = 0\<rparr>)"


subsection \<open>Stored keys order as sequences\<close>

fun digit_value :: "string \<Rightarrow> nat" where
  "digit_value [] = 0"
| "digit_value (c # s) = (of_char c - 48) * 10 ^ length s + digit_value s"

lemma digit_value_snoc: "digit_value (s @ [c]) = 10 * digit_value s + (of_char c - 48)"
  by (induction s) (simp_all add: distrib_left)

definition digits :: "string \<Rightarrow> bool" where
  "digits s = list_all (\<lambda>c. 48 \<le> (of_char c :: nat) \<and> (of_char c :: nat) \<le> 57) s"

lemma digit_value_less: "digits s \<Longrightarrow> digit_value s < 10 ^ length s"
proof (induction s)
  case (Cons c s)
  have "of_char c \<le> (57 :: nat)" using Cons.prems by (simp add: digits_def)
  then have "(of_char c - 48 :: nat) \<le> 9" by linarith
  then have "(of_char c - 48) * 10 ^ length s \<le> (9 :: nat) * 10 ^ length s" by (intro mult_right_mono) simp_all
  moreover have "digit_value s < 10 ^ length s" using Cons by (simp add: digits_def)
  ultimately have "(of_char c - 48) * 10 ^ length s + digit_value s < 10 * 10 ^ length s" by linarith
  then show ?case by simp
qed simp

lemma digit_order:
  "length s = length t \<Longrightarrow> digits s \<Longrightarrow> digits t \<Longrightarrow> s < t \<longleftrightarrow> digit_value s < digit_value t"
proof (induction s t rule: list_induct2)
  case (Cons c s d t)
  let ?c = "of_char c - 48 :: nat" and ?d = "of_char d - 48 :: nat" and ?p = "10 ^ length s :: nat"
  have ih: "s < t \<longleftrightarrow> digit_value s < digit_value t" using Cons by (simp add: digits_def)
  have b: "digit_value s < ?p" "digit_value t < ?p" using Cons.prems Cons.hyps digit_value_less [of s] digit_value_less [of t] by (auto simp: digits_def)
  have cd: "c < d \<longleftrightarrow> ?c < ?d" "c = d \<longleftrightarrow> ?c = ?d"
    using Cons.prems by (auto simp: digits_def less_char_def eq_diff_iff)
  consider "?c < ?d" | "?c = ?d" | "?d < ?c" by linarith
  then have "c < d \<or> c = d \<and> digit_value s < digit_value t \<longleftrightarrow> ?c * ?p + digit_value s < ?d * ?p + digit_value t"
  proof cases
    case 1
    then have "Suc ?c * ?p \<le> ?d * ?p" by (intro mult_right_mono) simp_all
    then show ?thesis using 1 b cd by simp
  next
    case 3
    then have "Suc ?d * ?p \<le> ?c * ?p" by (intro mult_right_mono) simp_all
    then show ?thesis using 3 b cd by simp
  qed (simp add: cd)
  then show ?case using Cons.hyps ih by simp
qed simp

lemma digit_value_dec: "digit_value (dec_nat n) = n" and digits_dec: "digits (dec_nat n)"
proof -
  have d: "(of_char (''0123456789'' ! k) :: nat) = 48 + k" if "k < 10" for k
  proof -
    have "list_all (\<lambda>k. (of_char (''0123456789'' ! k) :: nat) = 48 + k) [0..<10]" by code_simp
    then show ?thesis using that by (simp add: list_all_iff del: upt_Suc)
  qed
  show "digit_value (dec_nat n) = n"
  proof (induction n rule: dec_nat.induct)
    case (1 n)
    show ?case using 1 d [of n] d [of "n mod 10"] by (subst dec_nat.simps) (auto simp: digit_value_snoc)
  qed
  show "digits (dec_nat n)"
  proof (induction n rule: dec_nat.induct)
    case (1 n)
    show ?case using 1 d [of n] d [of "n mod 10"] by (subst dec_nat.simps) (auto simp: digits_def)
  qed
qed

lemma length_dec_nat: "0 < k \<Longrightarrow> n < 10 ^ k \<Longrightarrow> length (dec_nat n) \<le> k"
proof (induction k arbitrary: n)
  case (Suc k)
  show ?case
  proof (cases "n < 10")
    case True
    then show ?thesis by (subst dec_nat.simps) simp
  next
    case False
    then have k: "0 < k" using Suc.prems(2) by (cases k) simp_all
    have "n div 10 < 10 ^ k" using Suc.prems(2) by (simp add: div_less_iff_less_mult mult.commute)
    then have "length (dec_nat (n div 10)) \<le> k" using Suc.IH k by simp
    then show ?thesis using False by (subst dec_nat.simps) simp
  qed
qed simp

lemma sequence_key: "length (observationSequenceKey v) = 20 \<and> digits (observationSequenceKey v) \<and>
  digit_value (observationSequenceKey v) = unat v"
proof -
  have "unat v < 10 ^ 20" using unat_less_2p64 [of v] by simp
  then have "length (FormatUint10 v) \<le> 20" unfolding FormatUint10_def by (intro length_dec_nat) simp_all
  moreover have "digit_value (replicate k (CHR ''0'') @ s) = digit_value s" for k s
    by (induction k) simp_all
  moreover have "digits (replicate k (CHR ''0''))" for k by (induction k) (simp_all add: digits_def)
  ultimately show ?thesis using digit_value_dec [of "unat v"] digits_dec [of "unat v"]
    by (simp add: observationSequenceKey_def observationSequenceDigits_def FormatUint10_def Let_def digits_def)
qed

lemma sequence_key_less: "observationSequenceKey v < observationSequenceKey w \<longleftrightarrow> v < w"
  using sequence_key [of v] sequence_key [of w] digit_order [of "observationSequenceKey v" "observationSequenceKey w"]
  by (simp add: word_less_nat_alt)


lemma FormatUint_canonical: "ParseUint10 s = Some v \<Longrightarrow> FormatUint10 v = s \<longleftrightarrow> parseCanonicalUint64 s = Some v"
  by (auto simp: parseCanonical_iff)

lemma parse_key_iff: "parseObservationSequenceKey s = Inr v \<longleftrightarrow> v \<noteq> 0 \<and> s = observationSequenceKey v"
proof
  assume "parseObservationSequenceKey s = Inr v"
  then show "v \<noteq> 0 \<and> s = observationSequenceKey v"
    by (auto simp: parseObservationSequenceKey_def split: option.splits if_splits)
next
  assume a: "v \<noteq> 0 \<and> s = observationSequenceKey v"
  have z: "parse_digits 0 (replicate k (CHR ''0'') @ t) = parse_digits 0 t" for k t
  proof (induction k)
    case (Suc k)
    have "dec_value (CHR ''0'') = Some 0" by code_simp
    then show ?case using Suc by simp
  qed simp
  have "ParseUint10 (observationSequenceKey v) = Some v"
    using z parse_dec_nat [of "unat v"] unat_less_2p64 [of v]
    by (simp add: ParseUint10_def observationSequenceKey_def FormatUint10_def Let_def)
  then show "parseObservationSequenceKey s = Inr v" using a by (simp add: parseObservationSequenceKey_def)
qed

text \<open>The stored sequence keys compare as byte strings exactly as their sequences compare
  as numbers, over the whole range of an unsigned 64-bit counter, and the parser accepts exactly the
  key of each non-zero sequence.\<close>

theorem sequence_keys_exact:
  "(observationSequenceKey v < observationSequenceKey w \<longleftrightarrow> v < w) \<and>
   (parseObservationSequenceKey s = Inr v \<longleftrightarrow> v \<noteq> 0 \<and> s = observationSequenceKey v)"
  using sequence_key_less parse_key_iff by blast

lemma cursor_iff: "ParseObservationCursor s = Inr v \<longleftrightarrow> s = (if v = 0 then '''' else FormatObservationCursor v)"
proof
  assume "ParseObservationCursor s = Inr v"
  then show "s = (if v = 0 then '''' else FormatObservationCursor v)"
    by (simp add: ParseObservationCursor_def FormatObservationCursor_def split: option.splits if_splits)
next
  assume "s = (if v = 0 then '''' else FormatObservationCursor v)"
  then show "ParseObservationCursor s = Inr v"
    by (cases "v = 0") (simp_all add: ParseObservationCursor_def FormatObservationCursor_def ParseUint10_FormatUint10)
qed

subsection \<open>Rows read back\<close>

text \<open>The observations whose row reads back.\<close>

definition storable_observation :: "Observation \<Rightarrow> bool" where
  "storable_observation ob = (ob_Sequence ob \<noteq> 0 \<and> time_storable (ob_Timestamp ob) \<and> ob_DurationNanos ob \<le> MaxDurationNanos \<and>
     (ob_SpanStatus ob = '''' \<or> SpanStatus_Valid (ob_SpanStatus ob)) \<and> (ob_DurationObserved ob \<or> ob_DurationNanos ob = 0))"

lemma boolInt_zero [simp]: "boolInt b \<noteq> 0 \<longleftrightarrow> b" "boolInt b = 0 \<longleftrightarrow> \<not> b"
  by (simp_all add: boolInt_def)

lemma scan_insert: "scan_observation sha (observationInsertArgs sha ob) = Inr ob \<longleftrightarrow> storable_observation ob"
proof -
  let ?r = "observationInsertArgs sha ob"
  have key: "parseObservationSequenceKey (ow_sequence ?r) = (if ob_Sequence ob = 0 then Inl ErrStoreCorrupt else Inr (ob_Sequence ob))"
  proof (cases "ob_Sequence ob = 0")
    case True
    have "parseObservationSequenceKey (observationSequenceKey 0) \<noteq> Inr v" for v
      using sequence_key [of 0] sequence_key [of v] by (auto simp: parse_key_iff unat_eq_0)
    moreover have "parseObservationSequenceKey x = Inl e \<Longrightarrow> e = ErrStoreCorrupt" for x e
      by (auto simp: parseObservationSequenceKey_def split: option.splits if_splits)
    ultimately show ?thesis using True
      by (cases "parseObservationSequenceKey (observationSequenceKey 0)") (auto simp: observationInsertArgs_def)
  next
    case False
    then show ?thesis using parse_key_iff [of "ow_sequence ?r" "ob_Sequence ob"] by (simp add: observationInsertArgs_def)
  qed
  have ins: "ow_timestamp ?r = timeText (ob_Timestamp ob)" "ow_durationNanos ?r = uint64Text (ob_DurationNanos ob)"
    "(ow_durationObserved ?r \<noteq> 0) = ob_DurationObserved ob" "ob_SpanStatus (ow_out ?r) = ob_SpanStatus ob"
    by (simp_all add: observationInsertArgs_def)
  have keys: "ow_fingerprintKey ?r = observationDigestKey sha (ob_FingerprintID (ow_out ?r))"
    "ow_traceKey ?r = observationDigestKey sha (ob_TraceID (ow_out ?r))"
    "ow_sessionKey ?r = observationDigestKey sha (ob_SessionID (ow_out ?r))"
    by (simp_all add: observationInsertArgs_def)
  have out: "(ow_out ?r)\<lparr>ob_Sequence := ob_Sequence ob, ob_Timestamp := t, ob_NewBehavior := ow_newBehavior ?r \<noteq> 0,
      ob_MatchedDefault := ow_matchedDefault ?r \<noteq> 0, ob_DurationNanos := ob_DurationNanos ob,
      ob_DurationObserved := ob_DurationObserved ob\<rparr> = ob \<longleftrightarrow> t = ob_Timestamp ob" for t
    by (cases ob) (auto simp: observationInsertArgs_def)
  show ?thesis using parse_time_text [of "ob_Timestamp ob"]
    unfolding scan_observation_def key ins parse_uint64Text Let_def storable_observation_def
    by (cases "parseTimeText (timeText (ob_Timestamp ob))") (auto simp: andThen_def keys out)
qed

lemma scan_rows_insert: "list_all storable_observation obs \<Longrightarrow> scan_rows sha (map (observationInsertArgs sha) obs) = Inr obs"
  by (induction obs) (simp_all add: scan_insert [THEN iffD2] andThen_def)

subsection \<open>Retention\<close>

text \<open>The rows of a run that ingested \<open>obs\<close> from its first record on, one retention after another.\<close>

fun retain_all :: "sha256 \<Rightarrow> run_rows \<Rightarrow> Observation list \<Rightarrow> platform_error + run_rows" where
  "retain_all sha s [] = Inr s"
| "retain_all sha s (ob # obs) =
     andThen (retainObservation sha s ob) (\<lambda>(s', h). retain_all sha (s'\<lparr>rr_recordCount := rr_recordCount s' + 1\<rparr>) obs)"

definition emptyRun :: run_rows where
  "emptyRun = \<lparr>rr_observations = [], rr_history = None, rr_recordCount = 0\<rparr>"

text \<open>The sequences of the records a run admits are dense and start at one.\<close>

definition dense :: "nat \<Rightarrow> Observation list \<Rightarrow> bool" where
  "dense k obs \<longleftrightarrow> (\<forall>i < length obs. ob_Sequence (obs ! i) = of_nat (Suc (k + i)))"

definition retained_state :: "sha256 \<Rightarrow> Observation list \<Rightarrow> run_rows \<Rightarrow> bool" where
  "retained_state sha obs s \<longleftrightarrow> rr_observations s = map (observationInsertArgs sha) (take 4096 obs) \<and>
     rr_recordCount s = of_nat (length obs) \<and>
     rr_history s = (if obs = [] then None
       else Some (uint64Text (of_nat (min (length obs) 4096)), boolInt (length obs \<le> 4096)))"

lemma dense_Cons: "dense k (ob # obs) \<longleftrightarrow> ob_Sequence ob = of_nat (Suc k) \<and> dense (Suc k) obs"
  unfolding dense_def length_Cons All_less_Suc2 by simp

lemma unat_small64: "n \<le> 4096 \<Longrightarrow> unat (of_nat n :: u64) = n"
  by (simp add: unat_of_nat)

lemma load_history_state:
  assumes "retained_state sha obs s" and "obs \<noteq> []"
  shows "loadObservationHistoryRow s = Inr (True, of_nat (min (length obs) 4096), length obs \<le> 4096)"
proof -
  have "\<not> MaxRetainedObservations < (of_nat (min (length obs) 4096) :: u64)"
    using unat_small64 [of "min (length obs) 4096"] by (simp add: MaxRetainedObservations_def word_less_nat_alt)
  then show ?thesis using assms
    by (simp add: loadObservationHistoryRow_def retained_state_def andThen_def del: of_nat_min)
qed

lemma retain_step:
  assumes "retained_state sha obs s" and "ob_Sequence ob = of_nat (Suc (length obs))"
  shows "\<exists>s' h. retainObservation sha s ob = Inr (s', h) \<and>
    retained_state sha (obs @ [ob]) (s'\<lparr>rr_recordCount := rr_recordCount s' + 1\<rparr>)"
proof -
  note load = load_history_state [OF assms(1)]
  consider "obs = []" | "obs \<noteq> []" "length obs < 4096" | "obs \<noteq> []" "4096 \<le> length obs" by linarith
  then show ?thesis
  proof cases
    case 1
    then show ?thesis using assms
      by (simp add: retainObservation_def loadObservationHistoryRow_def retained_state_def planObservationRetention_def Let_def)
  next
    case 2
    have "\<not> MaxRetainedObservations \<le> (of_nat (length obs) :: u64)"
      using 2 unat_small64 [of "length obs"] by (simp add: MaxRetainedObservations_def word_le_nat_alt)
    then show ?thesis using 2 assms
      by (simp add: retainObservation_def load andThen_def retained_state_def planObservationRetention_def Let_def add.commute)
  next
    case 3
    then have "min (length obs) 4096 = 4096" by simp
    then show ?thesis using 3 assms
      by (simp add: retainObservation_def load andThen_def retained_state_def planObservationRetention_def
          MaxRetainedObservations_def Let_def)
  qed
qed

lemma retain_all_state:
  "retained_state sha obs s \<Longrightarrow> dense (length obs) new \<Longrightarrow> \<exists>s'. retain_all sha s new = Inr s' \<and> retained_state sha (obs @ new) s'"
proof (induction new arbitrary: obs s)
  case (Cons ob new)
  have "ob_Sequence ob = of_nat (Suc (length obs))" using Cons.prems(2) by (simp add: dense_Cons)
  from retain_step [OF Cons.prems(1) this] obtain s' h where s':
    "retainObservation sha s ob = Inr (s', h)" "retained_state sha (obs @ [ob]) (s'\<lparr>rr_recordCount := rr_recordCount s' + 1\<rparr>)"
    by blast
  then show ?case using Cons.IH [OF s'(2)] Cons.prems(2) by (simp add: dense_Cons andThen_def)
qed simp


subsection \<open>The paged read\<close>

lemma page_dense:
  assumes "dense 0 obs" and "length obs \<le> 4096" and "k \<le> length obs"
  shows "page_rows sha noFilter (of_nat k) lm (map (observationInsertArgs sha) obs) = map (observationInsertArgs sha) (take lm (drop k obs))"
proof -
  have seq: "unat (ob_Sequence (obs ! i)) = Suc i" if "i < length obs" for i
    using assms(1,2) that unat_small64 [of "Suc i"] by (simp add: dense_def)
  have k: "unat (of_nat k :: u64) = k" using assms(2,3) by (intro unat_small64) simp
  let ?R = "\<lambda>r. observationSequenceKey (of_nat k) < ow_sequence r \<and> filter_matches sha noFilter r"
  let ?P = "?R \<circ> observationInsertArgs sha"
  have P: "?P (obs ! i) \<longleftrightarrow> k \<le> i" if "i < length obs" for i
    using seq [OF that] k
    by (auto simp: observationInsertArgs_def sequence_key_less word_less_nat_alt filter_matches_def noFilter_def)
  have "\<not> ?P ob" if mem: "ob \<in> set (take k obs)" for ob
  proof -
    obtain i where "i < length obs" "i < k" "ob = obs ! i" using mem by (auto simp: in_set_conv_nth)
    then show ?thesis using P [of i] by simp
  qed
  then have "filter ?P (take k obs) = []" unfolding filter_empty_conv by blast
  moreover have "?P ob" if mem: "ob \<in> set (drop k obs)" for ob
  proof -
    obtain i where "i < length (drop k obs)" "ob = drop k obs ! i" using mem unfolding in_set_conv_nth by blast
    then have "k + i < length obs" "ob = obs ! (k + i)" by auto
    then show ?thesis using P [of "k + i"] by simp
  qed
  then have "filter ?P (drop k obs) = drop k obs" unfolding filter_id_conv by blast
  ultimately have f: "filter ?P obs = drop k obs" 
    using filter_append [of ?P "take k obs" "drop k obs"] by (simp only: append_take_drop_id append_Nil)
  have "observationSequenceKey (ob_Sequence (obs ! i)) \<le> observationSequenceKey (ob_Sequence (obs ! j))"
    if "i \<le> j" "j < length obs" for i j
    using that seq [of i] seq [of j] unfolding not_less [symmetric] sequence_key_less by (simp add: word_less_nat_alt)
  then have "sorted (map ow_sequence (map (observationInsertArgs sha) (drop k obs)))"
    by (auto simp: sorted_iff_nth_mono observationInsertArgs_def)
  then show ?thesis unfolding page_rows_def filter_map f by (simp add: sort_key_id_if_sorted take_map)
qed

lemma page_read:
  assumes "dense 0 obs" and "length obs \<le> 4096" and "list_all storable_observation obs" and "k \<le> length obs"
    and "rr_observations s = map (observationInsertArgs sha) obs" and "observationHistoryFor s = Inr hist"
  shows "\<exists>m. runObservationPage sha (Some s) noFilter (of_nat k) MaxListPage =
    Inr \<lparr>pg_Observations = take 64 (drop k obs), pg_History = hist, pg_Matched = m\<rparr>"
proof -
  have "list_all storable_observation (take 64 (drop k obs))" using assms(3) by (auto simp: list_all_iff dest: in_set_takeD in_set_dropD)
  then have "scan_rows sha (page_rows sha noFilter (of_nat k) 64 (rr_observations s)) = Inr (take 64 (drop k obs))"
    unfolding assms(5) page_dense [OF assms(1,2,4)] by (rule scan_rows_insert)
  then show ?thesis by (simp add: runObservationPage_def assms(6) MaxListPage_def andThen_def Let_def)
qed

lemma retainedHistory_walk:
  assumes d: "dense 0 obs" and n: "length obs \<le> 4096" and st: "list_all storable_observation obs"
    and rows: "rr_observations s = map (observationInsertArgs sha) obs" and h: "observationHistoryFor s = Inr hist"
  shows "k \<le> length obs \<Longrightarrow> length obs \<le> k + 64 * m \<Longrightarrow>
    retainedHistory_from sha (Some s) (Suc m) (of_nat k) (take k obs, h0) = Inr (obs, hist)"
proof (induction m arbitrary: k h0)
  case 0
  then have "k = length obs" by simp
  then show ?case using page_read [OF d n st _ rows h, of k] by (auto simp: andThen_def)
next
  case (Suc m)
  obtain mt where page: "runObservationPage sha (Some s) noFilter (of_nat k) MaxListPage =
      Inr \<lparr>pg_Observations = take 64 (drop k obs), pg_History = hist, pg_Matched = mt\<rparr>"
    using page_read [OF d n st Suc.prems(1) rows h] by blast
  show ?case
  proof (cases "k = length obs")
    case True
    then show ?thesis using page by (simp add: andThen_def)
  next
    case False
    let ?k = "min (k + 64) (length obs)" and ?p = "take 64 (drop k obs)"
    have ne: "?p \<noteq> []" using False Suc.prems(1) by simp
    have "last ?p = obs ! (k + (length ?p - 1))" using ne Suc.prems(1) by (subst last_conv_nth) auto
    moreover have "k + (length ?p - 1) = ?k - 1" using False Suc.prems(1) by auto
    ultimately have "last ?p = obs ! (?k - 1)" by simp
    then have nx: "ob_Sequence (last ?p) = of_nat ?k"
      using d False Suc.prems(1) by (simp add: dense_def min_def)
    have "\<not> (of_nat ?k :: u64) \<le> of_nat k"
      using unat_small64 [of ?k] unat_small64 [of k] n False Suc.prems(1) by (simp add: word_le_nat_alt min_def)
    moreover have "take k obs @ ?p = take ?k obs" by (simp add: take_add [symmetric] min_def)
    moreover have "retainedHistory_from sha (Some s) (Suc m) (of_nat ?k) (take ?k obs, hist) = Inr (obs, hist)"
      using Suc.prems by (intro Suc.IH) auto
    ultimately show ?thesis using page ne nx
      by (simp add: andThen_def Let_def del: retainedHistory_from.simps(2)
          add: retainedHistory_from.simps(2) [of sha "Some s" "Suc m"])
  qed
qed

definition history_of :: "nat \<Rightarrow> ObservationHistory" where
  "history_of n = \<lparr>oh_state = (if n \<le> 4096 then ObservationHistoryComplete else ObservationHistoryPartial), oh_retained = of_nat (min n 4096)\<rparr>"

lemma retained_read:
  assumes "dense 0 obs" and "retained_state sha obs s"
  shows "observationHistoryFor s = Inr (history_of (length obs))" 
    and "list_all storable_observation (take 4096 obs) \<Longrightarrow> retainedHistory sha (Some s) = Inr (take 4096 obs, history_of (length obs))"
proof -
  show h: "observationHistoryFor s = Inr (history_of (length obs))"
  proof (cases "obs = []")
    case True
    then show ?thesis using assms(2)
      by (simp add: observationHistoryFor_def loadObservationHistoryRow_def retained_state_def NewObservationHistory_def history_of_def)
  next
    case False
    then show ?thesis
      by (simp add: observationHistoryFor_def load_history_state [OF assms(2)] andThen_def NewObservationHistory_def history_of_def
          del: of_nat_min)
  qed
  assume st: "list_all storable_observation (take 4096 obs)"
  have "dense 0 (take 4096 obs)" using assms(1) by (simp add: dense_def)
  moreover have "rr_observations s = map (observationInsertArgs sha) (take 4096 obs)" using assms(2) by (simp add: retained_state_def)
  ultimately have walk: "retainedHistory_from sha (Some s) (Suc 64) (of_nat 0) (take 0 (take 4096 obs), h0) =
      Inr (take 4096 obs, history_of (length obs))" for h0
    using retainedHistory_walk [of "take 4096 obs" s sha "history_of (length obs)" 0 64 h0] h st by simp
  have "maxPages = Suc 64" by (simp add: maxPages_def MaxRetainedObservations_def MaxListPage_def)
  then show "retainedHistory sha (Some s) = Inr (take 4096 obs, history_of (length obs))"
    unfolding retainedHistory_def using walk by (simp del: retainedHistory_from.simps)
qed

text \<open>C31. A run that retains observations under dense sequences stores exactly its first 4096,
  in order. When those can be read back (a time whose text reads back, a duration within the bound that is
  zero unless observed, a span status of the vocabulary), the paged read of the counting fold decodes all of them from their
  rows within its bound of 65 pages, also when the last page is full, and the history it returns is complete exactly when
  nothing was dropped.\<close>

theorem retained_history_exact:
  assumes "dense 0 obs"
  shows "\<exists>s. retain_all sha emptyRun obs = Inr s \<and>
    rr_observations s = map (observationInsertArgs sha) (take 4096 obs) \<and>
    (list_all storable_observation (take 4096 obs) \<longrightarrow> retainedHistory sha (Some s) = Inr (take 4096 obs,
      \<lparr>oh_state = (if length obs \<le> 4096 then ObservationHistoryComplete else ObservationHistoryPartial),
       oh_retained = of_nat (min (length obs) 4096)\<rparr>))"
proof -
  have "retained_state sha [] emptyRun" by (simp add: retained_state_def emptyRun_def)
  from retain_all_state [OF this] assms obtain s where s: "retain_all sha emptyRun obs = Inr s" "retained_state sha obs s" by auto
  moreover have "rr_observations s = map (observationInsertArgs sha) (take 4096 obs)" using s(2) by (simp add: retained_state_def)
  ultimately show ?thesis using s retained_read(2) [OF assms s(2)] by (auto simp: history_of_def)
qed

end
