(* ===== verification/Platform_Counting.thy ===== *)
theory Platform_Counting
  imports Platform_Observation
begin

text \<open>
  Correlation-aware counting of behavioural change (\<^verbatim>\<open>platform/counting.go\<close>): the recorded
  parentage of behavioural identities, the fold of an added set into counted changes, Kahn's cycle
  test and the reachability walk. Go maps are finite maps and Go sets are sets; the children of an
  added identity are built per parent, which is the list the two nested loops leave after sorting,
  whatever order the maps are iterated in. The theorems are that the cycle test is exact, that the
  walk is the reflexive transitive closure, that folding counts each change by the documented rule,
  never counts more than the added identities and covers every one of them, and that the result
  depends on the set of observations only.
\<close>

type_synonym CorrelationState = string

definition CorrelationUnavailable :: CorrelationState where "CorrelationUnavailable = ''unavailable''"
definition CorrelationComplete :: CorrelationState where "CorrelationComplete = ''complete''"
definition CorrelationPartial :: CorrelationState where "CorrelationPartial = ''partial''"
definition CountingPolicyVersion :: string where "CountingPolicyVersion = ''1''"

lemmas correlation_defs = CorrelationUnavailable_def CorrelationComplete_def CorrelationPartial_def

definition CorrelationState_folded :: "CorrelationState \<Rightarrow> bool" where
  "CorrelationState_folded s = (s = CorrelationComplete)"

record BehaviorChange =
  bc_RootFingerprintID :: string
  bc_ContributingFingerprintIDs :: "string list"

type_synonym spanRef = "string \<times> string"

record behaviorParentage =
  bp_parents :: "(string, string set) fmap"
  bp_independent :: "string set"
  bp_degraded :: bool

subsection \<open>Parentage\<close>

definition learn_span :: "Observation \<Rightarrow> (spanRef, string) fmap \<times> bool \<Rightarrow> (spanRef, string) fmap \<times> bool" where
  "learn_span ob st =
     (if ob_TraceID ob = '''' \<or> ob_SpanID ob = '''' \<or> ob_FingerprintID ob = '''' then st
      else let ref = (ob_TraceID ob, ob_SpanID ob) in
        case fmlookup (fst st) ref of
          None \<Rightarrow> (fmupd ref (ob_FingerprintID ob) (fst st), snd st)
        | Some known \<Rightarrow> if known \<noteq> ob_FingerprintID ob then (fst st, True) else st)"

definition classify :: "(spanRef, string) fmap \<Rightarrow> Observation \<Rightarrow> behaviorParentage \<Rightarrow> behaviorParentage" where
  "classify identityOf ob p =
     (let fp = ob_FingerprintID ob; independent = p\<lparr>bp_independent := insert fp (bp_independent p)\<rparr> in
      if fp = '''' then p
      else if ob_ParentSpanID ob = '''' \<or> ob_TraceID ob = '''' then independent
      else case fmlookup identityOf (ob_TraceID ob, ob_ParentSpanID ob) of
        None \<Rightarrow> independent
      | Some parentID \<Rightarrow>
          if parentID = fp then independent
          else p\<lparr>bp_parents := fmupd fp (insert parentID (fmget {} (bp_parents p) fp)) (bp_parents p)\<rparr>)"

definition buildBehaviorParentage :: "Observation list \<Rightarrow> behaviorParentage" where
  "buildBehaviorParentage observations =
     (let (identityOf, degraded) = fold learn_span observations (fmempty, False)
      in fold (classify identityOf) observations \<lparr>bp_parents = fmempty, bp_independent = {}, bp_degraded = degraded\<rparr>)"

definition foldEligible :: "behaviorParentage \<Rightarrow> string \<Rightarrow> string set \<Rightarrow> bool" where
  "foldEligible p ident inAdded =
     (if ident \<in> bp_independent p then False
      else let parents = fmget {} (bp_parents p) ident in
        if parents = {} then False else (\<forall>parent \<in> parents. parent \<in> inAdded))"

subsection \<open>Cycles and reachability\<close>

fun release :: "string list \<Rightarrow> (string, int) fmap \<times> string list \<Rightarrow> (string, int) fmap \<times> string list" where
  "release [] st = st"
| "release (child # rest) (inDegree, ready) =
     (let d = fmget 0 inDegree child - 1
      in release rest (fmupd child d inDegree, if d = 0 then ready @ [child] else ready))"

definition positive :: "(string, int) fmap \<Rightarrow> string set" where
  "positive m = {k. 0 < fmget 0 m k}"

lemma finite_positive: "finite (positive m)"
proof (rule finite_subset)
  show "positive m \<subseteq> fset (fmdom m)" by (auto simp: positive_def fmget_def fmdomI split: option.splits)
qed simp

lemma release_measure:
  "card (positive (fst (release cs st))) + length (snd (release cs st)) \<le> card (positive (fst st)) + length (snd st)"
proof (induction cs st rule: release.induct)
  case (2 c cs m ready)
  let ?d = "fmget 0 m c - 1"
  let ?m = "fmupd c ?d m"
  have "positive ?m \<subseteq> positive m" by (auto simp: positive_def)
  moreover have "c \<in> positive m \<and> c \<notin> positive ?m" if "?d = 0" using that by (simp add: positive_def)
  ultimately have "card (positive ?m) + (if ?d = 0 then 1 else 0) \<le> card (positive m)"
    using psubset_card_mono [OF finite_positive [of m], of "positive ?m"] card_mono [OF finite_positive [of m], of "positive ?m"]
    by (cases "?d = 0") (auto simp: Suc_le_eq)
  then show ?case using 2 [OF refl] by (simp add: Let_def split: if_splits)
qed simp

function kahn :: "(string, string list) fmap \<Rightarrow> (string, int) fmap \<Rightarrow> string list \<Rightarrow> nat \<Rightarrow> nat" where
  "kahn children inDegree ready removed =
     (if ready = [] then removed
      else let (inDegree', ready') = release (fmget [] children (last ready)) (inDegree, butlast ready)
           in kahn children inDegree' ready' (Suc removed))"
  by pat_completeness auto
termination
proof (relation "measure (\<lambda>(children, inDegree, ready, removed). card (positive inDegree) + length ready)")
  fix children inDegree and ready :: "string list" and removed x inDegree' ready'
  assume ne: "ready \<noteq> []" and x: "x = release (fmget [] children (last ready)) (inDegree, butlast ready)"
    and "(inDegree', ready') = x"
  then have "release (fmget [] children (last ready)) (inDegree, butlast ready) = (inDegree', ready')" by simp
  with ne show "((children, inDegree', ready', Suc removed), (children, inDegree, ready, removed)) \<in>
      measure (\<lambda>(children, inDegree, ready, removed). card (positive inDegree) + length ready)"
    using release_measure [of "fmget [] children (last ready)" "(inDegree, butlast ready)"]
    by (cases ready rule: rev_cases) auto
qed simp

declare kahn.simps [simp del]

definition bump :: "string \<Rightarrow> (string, int) fmap \<Rightarrow> (string, int) fmap" where
  "bump child m = fmupd child (fmget 0 m child + 1) m"

definition inDegrees :: "string list \<Rightarrow> (string, string list) fmap \<Rightarrow> (string, int) fmap" where
  "inDegrees nodes children =
     fold (\<lambda>id. fold bump (fmget [] children id)) nodes (fold (\<lambda>id. fmupd id 0) nodes fmempty)"

definition hasCycle :: "string list \<Rightarrow> (string, string list) fmap \<Rightarrow> bool" where
  "hasCycle nodes children =
     (let inDegree = inDegrees nodes children;
          ready = filter (\<lambda>id. fmget 0 inDegree id = 0) nodes;
          removed = kahn children inDegree ready 0
      in removed < fmsize inDegree)"

fun visit :: "string list \<Rightarrow> string list \<times> string list \<Rightarrow> string list \<times> string list" where
  "visit [] st = st"
| "visit (child # rest) (seen, stack) =
     (if child \<in> set seen then visit rest (seen, stack) else visit rest (seen @ [child], stack @ [child]))"

definition all_children :: "(string, string list) fmap \<Rightarrow> string set" where
  "all_children m = (\<Union>cs \<in> fmran' m. set cs)"

lemma finite_all_children: "finite (all_children m)"
proof -
  have "fmran' m = fset (fmran m)" by (simp add: fmran'_alt_def)
  then show ?thesis by (simp add: all_children_def)
qed

lemma children_subset: "set (fmget [] m ident) \<subseteq> all_children m"
  by (cases "fmlookup m ident") (auto simp: all_children_def fmget_def intro: fmran'I)

lemma visit_result:
  "\<exists>new. visit cs (seen, stack) = (seen @ new, stack @ new) \<and> set new = set cs - set seen \<and> distinct new \<and>
     set new \<inter> set seen = {}"
proof (induction cs arbitrary: seen stack)
  case (Cons c cs)
  show ?case
  proof (cases "c \<in> set seen")
    case True
    then show ?thesis using Cons [of seen stack] by auto
  next
    case False
    obtain new where "visit cs (seen @ [c], stack @ [c]) = ((seen @ [c]) @ new, (stack @ [c]) @ new)"
      "set new = set cs - set (seen @ [c])" "distinct new" "set new \<inter> set (seen @ [c]) = {}"
      using Cons [of "seen @ [c]" "stack @ [c]"] by blast
    then show ?thesis using False by (intro exI [of _ "c # new"]) auto
  qed
qed simp

function walk :: "(string, string list) fmap \<Rightarrow> string list \<Rightarrow> string list \<Rightarrow> string list" where
  "walk children seen stack =
     (if stack = [] then seen
      else let (seen', stack') = visit (fmget [] children (last stack)) (seen, butlast stack)
           in walk children seen' stack')"
  by pat_completeness auto
termination
proof (relation "measures [\<lambda>(children, seen, stack). card (all_children children - set seen), \<lambda>(children, seen, stack). length stack]")
  fix children and seen stack :: "string list" and x seen' stack'
  assume ne: "stack \<noteq> []" and x: "x = visit (fmget [] children (last stack)) (seen, butlast stack)" and "(seen', stack') = x"
  then obtain new where n: "seen' = seen @ new" "stack' = butlast stack @ new"
    "set new = set (fmget [] children (last stack)) - set seen" "set new \<inter> set seen = {}"
    using visit_result [of "fmget [] children (last stack)" seen "butlast stack"] by auto
  show "((children, seen', stack'), (children, seen, stack)) \<in>
      measures [\<lambda>(children, seen, stack). card (all_children children - set seen), \<lambda>(children, seen, stack). length stack]"
  proof (cases "new = []")
    case True
    then show ?thesis using n ne by simp
  next
    case False
    have "set new \<subseteq> all_children children - set seen" using n(3) children_subset by blast
    then have "all_children children - set seen' \<subset> all_children children - set seen"
      using False n(1) by (cases new) auto
    then show ?thesis using psubset_card_mono [OF finite_Diff [OF finite_all_children]] by simp
  qed
qed simp

declare walk.simps [simp del]

definition reachableFrom :: "string \<Rightarrow> (string, string list) fmap \<Rightarrow> string list" where
  "reachableFrom origin children = sort (walk children [origin] [origin])"

subsection \<open>The fold\<close>

definition addedChildren :: "string list \<Rightarrow> behaviorParentage \<Rightarrow> (string, string list) fmap" where
  "addedChildren added p =
     fmap_of_list [(parent, sort (filter (\<lambda>child. parent \<in> fmget {} (bp_parents p) child) added)).
       parent \<leftarrow> added, list_ex (\<lambda>child. parent \<in> fmget {} (bp_parents p) child) added]"

definition unfoldedChanges :: "string list \<Rightarrow> BehaviorChange list" where
  "unfoldedChanges added =
     sort_key bc_RootFingerprintID (map (\<lambda>id. \<lparr>bc_RootFingerprintID = id, bc_ContributingFingerprintIDs = [id]\<rparr>) added)"

definition foldAddedChanges ::
  "string list \<Rightarrow> behaviorParentage \<Rightarrow> CorrelationState \<Rightarrow> BehaviorChange list \<times> CorrelationState" where
  "foldAddedChanges added parentage state =
     (if \<not> CorrelationState_folded state \<or> bp_degraded parentage
      then (unfoldedChanges added,
            if bp_degraded parentage \<and> state = CorrelationComplete then CorrelationPartial else state)
      else let children = addedChildren added parentage in
        if hasCycle added children then (unfoldedChanges added, CorrelationPartial)
        else (sort_key bc_RootFingerprintID
                (map (\<lambda>root. \<lparr>bc_RootFingerprintID = root, bc_ContributingFingerprintIDs = reachableFrom root children\<rparr>)
                  (filter (\<lambda>root. \<not> foldEligible parentage root (set added)) added)),
              state))"

definition correlationStateFor :: "ObservationHistory \<Rightarrow> CorrelationState" where
  "correlationStateFor candidate =
     (if \<not> ObservationHistory_Available candidate then CorrelationUnavailable
      else if ObservationHistory_Complete candidate then CorrelationComplete
      else CorrelationPartial)"

definition validateChangeCountArithmetic :: "int \<Rightarrow> int \<Rightarrow> platform_error option" where
  "validateChangeCountArithmetic added changes =
     (if changes < 0 then Some ErrInvalidGateEvidence
      else if added < changes then Some ErrInvalidGateEvidence
      else if 0 < added \<and> changes = 0 then Some ErrInvalidGateEvidence
      else None)"


subsection \<open>The cycle test is exact\<close>

definition edges :: "(string, string list) fmap \<Rightarrow> (string \<times> string) set" where
  "edges children = {(p, c). c \<in> set (fmget [] children p)}"

definition graph_on :: "string list \<Rightarrow> (string, string list) fmap \<Rightarrow> bool" where
  "graph_on nodes children \<longleftrightarrow> distinct nodes \<and> edges children \<subseteq> set nodes \<times> set nodes \<and>
     (\<forall>p. distinct (fmget [] children p))"

lemma release_result:
  "distinct cs \<Longrightarrow> \<exists>m'. release cs (m, ready) = (m', ready @ filter (\<lambda>c. fmget 0 m c = 1) cs) \<and>
     (\<forall>k. fmget 0 m' k = fmget 0 m k - (if k \<in> set cs then 1 else 0))"
proof (induction cs arbitrary: m ready)
  case (Cons c cs)
  let ?m = "fmupd c (fmget 0 m c - 1) m"
  have eq: "filter (\<lambda>x. fmget 0 ?m x = 1) cs = filter (\<lambda>x. fmget 0 m x = 1) cs"
    using Cons.prems by (intro filter_cong) auto
  obtain m' where "release cs (?m, if fmget 0 m c = 1 then ready @ [c] else ready) =
      (m', (if fmget 0 m c = 1 then ready @ [c] else ready) @ filter (\<lambda>x. fmget 0 m x = 1) cs)"
    "\<forall>k. fmget 0 m' k = fmget 0 ?m k - (if k \<in> set cs then 1 else 0)"
    using Cons.IH [of ?m] Cons.prems unfolding eq by fastforce
  then show ?case using Cons.prems by (intro exI [of _ m']) (auto simp: Let_def)
qed simp

definition kahn_inv ::
  "string list \<Rightarrow> (string, string list) fmap \<Rightarrow> string set \<Rightarrow> (string, int) fmap \<Rightarrow> string list \<Rightarrow> bool" where
  "kahn_inv nodes children R deg ready \<longleftrightarrow> R \<subseteq> set nodes \<and> distinct ready \<and> set ready \<subseteq> set nodes - R \<and>
     (\<forall>k \<in> set nodes. fmget 0 deg k = int (card {p \<in> set nodes - R. (p, k) \<in> edges children})) \<and>
     (\<forall>k \<in> set nodes. fmget 0 deg k = 0 \<longleftrightarrow> k \<in> R \<union> set ready) \<and> R \<subseteq> Wellfounded.acc (edges children)"

lemma kahn_step:
  assumes g: "graph_on nodes children" and inv: "kahn_inv nodes children R deg (rs @ [x])"
    and rel: "release (fmget [] children x) (deg, rs) = (deg', ready')"
  shows "x \<notin> R \<and> kahn_inv nodes children (insert x R) deg' ready'"
proof -
  let ?E = "edges children" and ?cs = "fmget [] children x"
  have x: "x \<in> set nodes" "x \<notin> R" "x \<notin> set rs" "distinct rs" "set rs \<subseteq> set nodes - R" "R \<subseteq> set nodes"
    using inv [unfolded kahn_inv_def] by auto
  have deg: "\<And>k. k \<in> set nodes \<Longrightarrow> fmget 0 deg k = int (card {p \<in> set nodes - R. (p, k) \<in> ?E})"
    and zero: "\<And>k. k \<in> set nodes \<Longrightarrow> fmget 0 deg k = 0 \<longleftrightarrow> k \<in> R \<union> set (rs @ [x])"
    and acc: "R \<subseteq> Wellfounded.acc ?E"
    using inv unfolding kahn_inv_def by blast+
  have cs: "distinct ?cs" "set ?cs \<subseteq> set nodes" "k \<in> set ?cs \<longleftrightarrow> (x, k) \<in> ?E" for k
    using g by (auto simp: graph_on_def edges_def)
  obtain m' where "release ?cs (deg, rs) = (m', rs @ filter (\<lambda>c. fmget 0 deg c = 1) ?cs)"
    "\<forall>k. fmget 0 m' k = fmget 0 deg k - (if k \<in> set ?cs then 1 else 0)"
    using release_result [OF cs(1)] by blast
  then have r: "ready' = rs @ filter (\<lambda>c. fmget 0 deg c = 1) ?cs"
    and d': "\<And>k. fmget 0 deg' k = fmget 0 deg k - (if k \<in> set ?cs then 1 else 0)" using rel by auto
  have pre: "k \<notin> set ?cs" if "k \<in> set nodes" "fmget 0 deg k = 0" for k
  proof
    assume "k \<in> set ?cs"
    then have "x \<in> {p \<in> set nodes - R. (p, k) \<in> ?E}" using x cs by simp
    moreover have "card {p \<in> set nodes - R. (p, k) \<in> ?E} = 0" using deg [OF that(1)] that(2) by simp
    ultimately show False by (auto simp: card_eq_0_iff)
  qed
  have deg': "fmget 0 deg' k = int (card {p \<in> set nodes - insert x R. (p, k) \<in> ?E})" if k: "k \<in> set nodes" for k
  proof (cases "k \<in> set ?cs")
    case True
    then have "{p \<in> set nodes - R. (p, k) \<in> ?E} = insert x {p \<in> set nodes - insert x R. (p, k) \<in> ?E}" using x cs(3) by auto
    then show ?thesis using d' deg [OF k] True by simp
  next
    case False
    then have "{p \<in> set nodes - R. (p, k) \<in> ?E} = {p \<in> set nodes - insert x R. (p, k) \<in> ?E}" using x cs(3) by auto
    then show ?thesis using d' deg [OF k] False by simp
  qed
  have zero': "fmget 0 deg' k = 0 \<longleftrightarrow> k \<in> insert x R \<union> set ready'" if k: "k \<in> set nodes" for k
  proof (cases "fmget 0 deg k = 0")
    case True
    then show ?thesis using zero [OF k] pre [OF k True] d' by (auto simp: r)
  next
    case False
    then show ?thesis using zero [OF k] d' [of k] by (auto simp: r)
  qed
  have "x \<in> Wellfounded.acc ?E"
  proof (rule accI)
    fix p assume p: "(p, x) \<in> ?E"
    then have "p \<in> set nodes" using g by (auto simp: graph_on_def)
    moreover have "card {p \<in> set nodes - R. (p, x) \<in> ?E} = 0" using deg [OF x(1)] zero [OF x(1)] by simp
    ultimately have "p \<in> R" using p by (auto simp: card_eq_0_iff)
    then show "p \<in> Wellfounded.acc ?E" using acc by blast
  qed
  moreover have "distinct ready'" "set ready' \<subseteq> set nodes - insert x R"
  proof -
    have one: "c \<notin> R \<and> c \<noteq> x \<and> c \<notin> set rs" if "c \<in> set ?cs" "fmget 0 deg c = 1" for c
      using zero [of c] that cs(2) by auto
    then show "distinct ready'" "set ready' \<subseteq> set nodes - insert x R" using x cs(1,2) by (auto simp: r)
  qed
  ultimately show ?thesis unfolding kahn_inv_def using x acc deg' zero' by blast
qed

lemma kahn_result:
  "graph_on nodes children \<Longrightarrow> kahn_inv nodes children R deg ready \<Longrightarrow>
    \<exists>R' deg'. kahn_inv nodes children R' deg' [] \<and> kahn children deg ready n + card R = n + card R'"
proof (induction children deg ready n arbitrary: R rule: kahn.induct)
  case (1 children deg ready n)
  show ?case
  proof (cases ready rule: rev_cases)
    case Nil
    then show ?thesis using 1(3) by (auto simp: kahn.simps)
  next
    case (snoc rs x)
    obtain deg' ready' where rel: "release (fmget [] children x) (deg, rs) = (deg', ready')" by fastforce
    have st: "x \<notin> R" "kahn_inv nodes children (insert x R) deg' ready'"
      using kahn_step [OF 1(2) _ rel] 1(3) snoc by auto
    have "finite R" using st(2) unfolding kahn_inv_def by (meson finite_insert finite_set finite_subset)
    moreover have "kahn children deg ready n = kahn children deg' ready' (Suc n)"
      using snoc rel by (subst kahn.simps) simp
    moreover obtain R' d where "kahn_inv nodes children R' d []"
      "kahn children deg' ready' (Suc n) + card (insert x R) = Suc n + card R'"
      using 1(1) [OF _ refl _ 1(2) st(2)] snoc rel by auto
    ultimately show ?thesis using st(1) by auto
  qed
qed

lemma inDegrees_bump: "distinct cs \<Longrightarrow> fmget 0 (fold bump cs m) k = fmget 0 m k + (if k \<in> set cs then 1 else 0)"
  by (induction cs arbitrary: m) (auto simp: bump_def)

lemma inDegrees_fold:
  "\<forall>p. distinct (fmget [] children p) \<Longrightarrow> distinct ns \<Longrightarrow>
   fmget 0 (fold (\<lambda>i. fold bump (fmget [] children i)) ns m) k =
     fmget 0 m k + int (card {p \<in> set ns. (p, k) \<in> edges children})"
proof (induction ns arbitrary: m)
  case (Cons x ns)
  have "{p \<in> set (x # ns). (p, k) \<in> edges children} =
      (if k \<in> set (fmget [] children x) then insert x {p \<in> set ns. (p, k) \<in> edges children}
       else {p \<in> set ns. (p, k) \<in> edges children})" by (auto simp: edges_def)
  then show ?case using Cons inDegrees_bump [of "fmget [] children x" m k] by simp
qed simp

lemma inDegrees_dom:
  assumes "graph_on nodes children"
  shows "fset (fmdom (inDegrees nodes children)) = set nodes"
proof -
  have zero: "fset (fmdom (fold (\<lambda>i. fmupd i (0 :: int)) ns m)) = set ns \<union> fset (fmdom m)" for ns and m :: "(string, int) fmap"
    by (induction ns arbitrary: m) auto
  have b: "fset (fmdom (fold bump cs m)) = set cs \<union> fset (fmdom m)" for cs m
    by (induction cs arbitrary: m) (auto simp: bump_def)
  have "fset (fmdom (fold (\<lambda>i. fold bump (fmget [] children i)) ns m)) = (\<Union>i\<in>set ns. set (fmget [] children i)) \<union> fset (fmdom m)"
    for ns m by (induction ns arbitrary: m) (auto simp: b)
  moreover have "(\<Union>i\<in>set nodes. set (fmget [] children i)) \<subseteq> set nodes" using assms by (auto simp: graph_on_def edges_def)
  ultimately show ?thesis unfolding inDegrees_def using zero by auto
qed

lemma hasCycle_iff:
  assumes g: "graph_on nodes children"
  shows "hasCycle nodes children \<longleftrightarrow> \<not> acyclic (edges children)"
proof -
  let ?E = "edges children" and ?deg = "inDegrees nodes children"
  have dist: "distinct nodes" "?E \<subseteq> set nodes \<times> set nodes" using g by (auto simp: graph_on_def)
  have fin: "finite ?E" using dist(2) by (rule finite_subset) simp
  have zero: "fmget 0 (fold (\<lambda>i. fmupd i (0 :: int)) ns fmempty) k = 0" for ns k
  proof -
    have "fmget 0 m k = 0 \<Longrightarrow> fmget 0 (fold (\<lambda>i. fmupd i (0 :: int)) ns m) k = 0" for m by (induction ns arbitrary: m) auto
    then show ?thesis by simp
  qed
  have deg: "fmget 0 ?deg k = int (card {p \<in> set nodes - {}. (p, k) \<in> ?E})" for k
    unfolding inDegrees_def using inDegrees_fold [OF _ dist(1)] zero g by (simp add: graph_on_def)
  have inv: "kahn_inv nodes children {} ?deg (filter (\<lambda>i. fmget 0 ?deg i = 0) nodes)"
    unfolding kahn_inv_def using deg dist(1) by auto
  obtain R d where R: "kahn_inv nodes children R d []" "kahn children ?deg (filter (\<lambda>i. fmget 0 ?deg i = 0) nodes) 0 = card R"
    using kahn_result [OF g inv, of 0] by auto
  have "fmsize ?deg = card (set nodes)" unfolding fmsize_def fcard.rep_eq inDegrees_dom [OF g] ..
  then have h: "hasCycle nodes children \<longleftrightarrow> card R < card (set nodes)" by (simp add: hasCycle_def Let_def R(2))
  have Rn: "R \<subseteq> set nodes" "R \<subseteq> Wellfounded.acc ?E"
    "\<forall>k \<in> set nodes. k \<notin> R \<longrightarrow> {p \<in> set nodes - R. (p, k) \<in> ?E} \<noteq> {}"
    using R(1) unfolding kahn_inv_def by (auto simp del: Collect_empty_eq)
  show ?thesis
  proof
    assume "hasCycle nodes children"
    then have "R \<noteq> set nodes" using h by auto
    then obtain k where k: "k \<in> set nodes - R" using Rn(1) by blast
    show "\<not> acyclic ?E"
    proof
      assume "acyclic ?E"
      then have "wf ?E" using finite_acyclic_wf [OF fin] by simp
      then obtain z where "z \<in> set nodes - R" "\<And>y. (y, z) \<in> ?E \<Longrightarrow> y \<notin> set nodes - R"
        using k wfE_min by metis
      then show False using Rn(3) by blast
    qed
  next
    assume c: "\<not> acyclic ?E"
    show "hasCycle nodes children"
    proof (rule ccontr)
      assume "\<not> hasCycle nodes children"
      then have "R = set nodes" using h Rn(1) by (metis List.finite_set card_subset_eq card_mono le_antisym not_less)
      then have "x \<in> Wellfounded.acc ?E" for x
        using Rn(2) dist(2) by (cases "x \<in> set nodes") (auto intro: accI)
      then have "wf ?E" by (intro acc_wfI) simp
      then show False using c wf_acyclic by blast
    qed
  qed
qed


subsection \<open>The walk is reachability\<close>

definition walk_inv :: "(string, string list) fmap \<Rightarrow> string \<Rightarrow> string list \<Rightarrow> string list \<Rightarrow> bool" where
  "walk_inv children r seen stack \<longleftrightarrow> distinct seen \<and> r \<in> set seen \<and> set stack \<subseteq> set seen \<and>
     set seen \<subseteq> (edges children)\<^sup>* `` {r} \<and> edges children `` (set seen - set stack) \<subseteq> set seen"

lemma walk_result:
  "walk_inv children r seen stack \<Longrightarrow>
   distinct (walk children seen stack) \<and> set (walk children seen stack) = (edges children)\<^sup>* `` {r}"
proof (induction children seen stack rule: walk.induct)
  case (1 children seen stack)
  let ?E = "edges children"
  show ?case
  proof (cases stack rule: rev_cases)
    case Nil
    have "y \<in> set seen" if "(r, y) \<in> ?E\<^sup>*" for y
      using that
    proof (induction rule: rtrancl_induct)
      case base
      then show ?case using 1(2) by (simp add: walk_inv_def)
    next
      case (step y z)
      then show ?case using 1(2) Nil by (auto simp: walk_inv_def)
    qed
    then show ?thesis using 1(2) Nil by (auto simp: walk_inv_def walk.simps)
  next
    case (snoc rest x)
    obtain new where n: "visit (fmget [] children x) (seen, rest) = (seen @ new, rest @ new)"
      "set new = set (fmget [] children x) - set seen" "distinct new" "set new \<inter> set seen = {}"
      using visit_result by blast
    have i: "distinct seen" "r \<in> set seen" "set rest \<subseteq> set seen" "x \<in> set seen" "set seen \<subseteq> ?E\<^sup>* `` {r}"
      "?E `` (set seen - insert x (set rest)) \<subseteq> set seen"
      using 1(2) snoc by (auto simp: walk_inv_def)
    have cx: "set (fmget [] children x) = ?E `` {x}" by (auto simp: edges_def)
    have "walk_inv children r (seen @ new) (rest @ new)"
      unfolding walk_inv_def
    proof (intro conjI)
      show "distinct (seen @ new)" using i(1) n(3,4) by auto
      show "set (seen @ new) \<subseteq> ?E\<^sup>* `` {r}" using i(4,5) n(2) cx by (auto intro: rtrancl.rtrancl_into_rtrancl)
      show "?E `` (set (seen @ new) - set (rest @ new)) \<subseteq> set (seen @ new)" using i(6) n(2) cx by auto
    qed (use i in auto)
    moreover have "walk children seen stack = walk children (seen @ new) (rest @ new)"
      using snoc n(1) by (subst walk.simps) simp
    ultimately show ?thesis using 1(1) [of "(seen @ new, rest @ new)"] snoc n(1) by simp
  qed
qed

lemma reachableFrom_result:
  "sorted (reachableFrom r children) \<and> distinct (reachableFrom r children) \<and>
   set (reachableFrom r children) = (edges children)\<^sup>* `` {r}"
proof -
  have "walk_inv children r [r] [r]" by (auto simp: walk_inv_def)
  from walk_result [OF this] show ?thesis by (simp add: reachableFrom_def)
qed

text \<open>C37. On a graph over distinct identities without repeated edges Kahn's elimination reports a
  cycle exactly when the recorded relation has one, and the reachability walk returns, sorted and
  without repetition, exactly the identities reachable from its root, on any graph and also on a
  cyclic one.\<close>

theorem cycle_test_exact:
  "(graph_on nodes children \<longrightarrow> (hasCycle nodes children \<longleftrightarrow> \<not> acyclic (edges children))) \<and>
   sorted (reachableFrom r children) \<and> distinct (reachableFrom r children) \<and>
   set (reachableFrom r children) = (edges children)\<^sup>* `` {r}"
  using hasCycle_iff reachableFrom_result by blast


subsection \<open>The fold counts by the documented rule\<close>

abbreviation parents_of :: "behaviorParentage \<Rightarrow> string \<Rightarrow> string set" where
  "parents_of p i \<equiv> fmget {} (bp_parents p) i"

definition added_edges :: "string list \<Rightarrow> behaviorParentage \<Rightarrow> (string \<times> string) set" where
  "added_edges added p = {(q, c). q \<in> set added \<and> c \<in> set added \<and> q \<in> parents_of p c}"

lemma addedChildren_get:
  "fmget [] (addedChildren added p) q =
     (if q \<in> set added then sort (filter (\<lambda>c. q \<in> parents_of p c) added) else [])"
proof -
  have m: "map_of [(x, f x). x \<leftarrow> xs, P x] q = (if q \<in> set xs \<and> P q then Some (f q) else None)"
    for f :: "string \<Rightarrow> string list" and P and xs :: "string list"
    by (induction xs) auto
  have "\<not> list_ex (\<lambda>c. q \<in> parents_of p c) added \<Longrightarrow> filter (\<lambda>c. q \<in> parents_of p c) added = []"
    by (auto simp: list_ex_iff filter_empty_conv)
  then show ?thesis unfolding addedChildren_def fmget_def fmlookup_of_list m by auto
qed

lemma edges_added: "edges (addedChildren added p) = added_edges added p"
  by (auto simp: edges_def addedChildren_get added_edges_def split: if_splits)

lemma graph_added: "distinct added \<Longrightarrow> graph_on added (addedChildren added p)"
  unfolding graph_on_def edges_added by (auto simp: added_edges_def addedChildren_get)

lemma root_covers:
  assumes "acyclic (added_edges added p)" and "x \<in> set added"
  shows "\<exists>r \<in> set added. \<not> foldEligible p r (set added) \<and> (r, x) \<in> (added_edges added p)\<^sup>*"
proof -
  have "added_edges added p \<subseteq> set added \<times> set added" by (auto simp: added_edges_def)
  then have "finite (added_edges added p)" by (rule finite_subset) simp
  with assms(1) have "wf (added_edges added p)" using finite_acyclic_wf by blast
  then show ?thesis using assms(2)
  proof (induction x rule: wf_induct_rule)
    case (less x)
    show ?case
    proof (cases "foldEligible p x (set added)")
      case True
      then obtain q where "q \<in> parents_of p x" "q \<in> set added" by (auto simp: foldEligible_def Let_def split: if_splits)
      then have e: "(q, x) \<in> added_edges added p" using less.prems by (simp add: added_edges_def)
      then show ?thesis using less.IH [OF e \<open>q \<in> set added\<close>] by (meson rtrancl.rtrancl_into_rtrancl)
    qed (use less.prems in blast)
  qed
qed

lemma map_sort_key: "map f (sort_key f xs) = sort (map f xs)"
  by (rule properties_for_sort [symmetric]) simp_all

lemma unfolded_facts:
  "map bc_RootFingerprintID (unfoldedChanges added) = sort added"
  "(\<Union>c \<in> set (unfoldedChanges added). set (bc_ContributingFingerprintIDs c)) = set added"
  "length (unfoldedChanges added) = length added"
  by (simp_all add: unfoldedChanges_def map_sort_key comp_def)


lemma fold_complete_iff:
  assumes "distinct added" and "foldAddedChanges added p st = (changes, st')"
  shows "st' = CorrelationComplete \<longleftrightarrow> st = CorrelationComplete \<and> \<not> bp_degraded p \<and> acyclic (added_edges added p)"
  using assms hasCycle_iff [OF graph_added [OF assms(1)], of p]
  by (auto simp: foldAddedChanges_def CorrelationState_folded_def edges_added correlation_defs Let_def split: if_splits)

lemma fold_unfolded:
  assumes "foldAddedChanges added p st = (changes, st')" and "st' \<noteq> CorrelationComplete"
  shows "changes = unfoldedChanges added"
  using assms by (auto simp: foldAddedChanges_def CorrelationState_folded_def Let_def split: if_splits)

lemma fold_folded:
  assumes "distinct added" and "foldAddedChanges added p st = (changes, st')" and "st' = CorrelationComplete"
  shows "map bc_RootFingerprintID changes = sort (filter (\<lambda>r. \<not> foldEligible p r (set added)) added)"
    and "c \<in> set changes \<Longrightarrow> sorted (bc_ContributingFingerprintIDs c) \<and> distinct (bc_ContributingFingerprintIDs c) \<and>
      set (bc_ContributingFingerprintIDs c) = (added_edges added p)\<^sup>* `` {bc_RootFingerprintID c}"
proof -
  have ch: "changes = sort_key bc_RootFingerprintID
      (map (\<lambda>r. \<lparr>bc_RootFingerprintID = r, bc_ContributingFingerprintIDs = reachableFrom r (addedChildren added p)\<rparr>)
        (filter (\<lambda>r. \<not> foldEligible p r (set added)) added))"
    using assms(2,3) by (auto simp: foldAddedChanges_def CorrelationState_folded_def correlation_defs Let_def split: if_splits)
  show "map bc_RootFingerprintID changes = sort (filter (\<lambda>r. \<not> foldEligible p r (set added)) added)"
    unfolding ch map_sort_key by (simp add: comp_def)
  show "c \<in> set changes \<Longrightarrow> sorted (bc_ContributingFingerprintIDs c) \<and> distinct (bc_ContributingFingerprintIDs c) \<and>
      set (bc_ContributingFingerprintIDs c) = (added_edges added p)\<^sup>* `` {bc_RootFingerprintID c}"
    unfolding ch using reachableFrom_result [of _ "addedChildren added p"] by (auto simp: edges_added)
qed

lemma fold_covers:
  assumes "distinct added" and "foldAddedChanges added p st = (changes, st')"
  shows "(\<Union>c \<in> set changes. set (bc_ContributingFingerprintIDs c)) = set added"
proof (cases "st' = CorrelationComplete")
  case True
  note f = fold_folded [OF assms True]
  have ac: "acyclic (added_edges added p)" using fold_complete_iff [OF assms] True by simp
  have roots: "bc_RootFingerprintID ` set changes = {r \<in> set added. \<not> foldEligible p r (set added)}"
    using arg_cong [OF f(1), of set] by auto
  have closed: "y \<in> set added" if "(x, y) \<in> (added_edges added p)\<^sup>*" "x \<in> set added" for x y
    using that by (induction rule: rtrancl_induct) (auto simp: added_edges_def)
  show ?thesis
  proof (intro set_eqI iffI)
    fix x assume "x \<in> (\<Union>c \<in> set changes. set (bc_ContributingFingerprintIDs c))"
    then obtain c where "c \<in> set changes" "(bc_RootFingerprintID c, x) \<in> (added_edges added p)\<^sup>*" using f(2) by auto
    then show "x \<in> set added" using closed roots by blast
  next
    fix x assume "x \<in> set added"
    then obtain r where "r \<in> set added" "\<not> foldEligible p r (set added)" "(r, x) \<in> (added_edges added p)\<^sup>*"
      using root_covers [OF ac] by blast
    moreover from this have "r \<in> bc_RootFingerprintID ` set changes" unfolding roots by simp
    then obtain c where c: "c \<in> set changes" "bc_RootFingerprintID c = r" by (elim imageE) simp
    ultimately have "x \<in> set (bc_ContributingFingerprintIDs c)" using f(2) [OF c(1)] by simp
    then show "x \<in> (\<Union>c \<in> set changes. set (bc_ContributingFingerprintIDs c))" using c(1) by blast
  qed
next
  case False
  then show ?thesis using fold_unfolded [OF assms(2)] unfolded_facts by simp
qed

lemma fold_roots:
  assumes "distinct added" and "foldAddedChanges added p st = (changes, st')"
  shows "\<exists>R. map bc_RootFingerprintID changes = sort (filter R added)"
proof (cases "st' = CorrelationComplete")
  case True
  then show ?thesis using fold_folded(1) [OF assms True] by blast
next
  case False
  then show ?thesis using fold_unfolded [OF assms(2)] unfolded_facts(1) [of added]
    by (intro exI [of _ "\<lambda>_. True"]) simp
qed

lemma fold_arithmetic:
  assumes "distinct added" and "foldAddedChanges added p st = (changes, st')"
  shows "length changes \<le> length added \<and> (added \<noteq> [] \<longrightarrow> changes \<noteq> [])"
proof -
  obtain R where "map bc_RootFingerprintID changes = sort (filter R added)" using fold_roots [OF assms] by blast
  then have "length changes = length (filter R added)" by (metis length_map length_sort)
  then show ?thesis using fold_covers [OF assms] length_filter_le [of R added] by auto
qed

subsection \<open>The recorded relation, as the observations state it\<close>

definition names_span :: "Observation \<Rightarrow> bool" where
  "names_span ob \<longleftrightarrow> ob_TraceID ob \<noteq> '''' \<and> ob_SpanID ob \<noteq> '''' \<and> ob_FingerprintID ob \<noteq> ''''"

definition span_of :: "Observation \<Rightarrow> spanRef" where "span_of ob = (ob_TraceID ob, ob_SpanID ob)"

definition ambiguous :: "Observation set \<Rightarrow> bool" where
  "ambiguous S \<longleftrightarrow> (\<exists>a \<in> S. \<exists>b \<in> S. names_span a \<and> names_span b \<and> span_of a = span_of b \<and>
     ob_FingerprintID a \<noteq> ob_FingerprintID b)"

definition span_inv :: "Observation set \<Rightarrow> (spanRef, string) fmap \<times> bool \<Rightarrow> bool" where
  "span_inv S st \<longleftrightarrow>
     (\<forall>ref fp. fmlookup (fst st) ref = Some fp \<longrightarrow> (\<exists>ob \<in> S. names_span ob \<and> span_of ob = ref \<and> ob_FingerprintID ob = fp)) \<and>
     (\<forall>ob \<in> S. names_span ob \<longrightarrow> fmlookup (fst st) (span_of ob) \<noteq> None) \<and> (snd st \<longleftrightarrow> ambiguous S)"

lemma learn_span_inv:
  assumes i: "span_inv S st"
  shows "span_inv (insert ob S) (learn_span ob st)"
proof (cases "names_span ob")
  case False
  then have "learn_span ob st = st" by (auto simp: learn_span_def names_span_def)
  moreover have "ambiguous (insert ob S) \<longleftrightarrow> ambiguous S" using False by (auto simp: ambiguous_def)
  ultimately show ?thesis using i False by (auto simp: span_inv_def)
next
  case True
  show ?thesis
  proof (cases "fmlookup (fst st) (span_of ob)")
    case None
    have fresh: "span_of x \<noteq> span_of ob" if "x \<in> S" "names_span x" for x
      using i None that unfolding span_inv_def by metis
    have l: "learn_span ob st = (fmupd (span_of ob) (ob_FingerprintID ob) (fst st), snd st)"
      using True None by (simp add: learn_span_def names_span_def span_of_def)
    moreover have "ambiguous (insert ob S) \<longleftrightarrow> ambiguous S" using fresh unfolding ambiguous_def by (metis insert_iff)
    ultimately show ?thesis using i True unfolding span_inv_def by auto
  next
    case (Some known)
    obtain w where w: "w \<in> S" "names_span w" "span_of w = span_of ob" "ob_FingerprintID w = known"
      using i Some unfolding span_inv_def by blast
    have l: "learn_span ob st = (if known \<noteq> ob_FingerprintID ob then (fst st, True) else st)"
      using True Some by (simp add: learn_span_def names_span_def span_of_def)
    show ?thesis
    proof (cases "known = ob_FingerprintID ob")
      case same: True
      have "ambiguous (insert ob S) \<longleftrightarrow> ambiguous S"
      proof
        assume "ambiguous (insert ob S)"
        then obtain a b where ab: "a \<in> insert ob S" "b \<in> insert ob S" "names_span a" "names_span b" "span_of a = span_of b"
          "ob_FingerprintID a \<noteq> ob_FingerprintID b" unfolding ambiguous_def by blast
        define a' where "a' = (if a = ob then w else a)"
        define b' where "b' = (if b = ob then w else b)"
        have "a' \<in> S" "b' \<in> S" "names_span a'" "names_span b'" "span_of a' = span_of b'" "ob_FingerprintID a' \<noteq> ob_FingerprintID b'"
          using ab w same by (auto simp: a'_def b'_def)
        then show "ambiguous S" unfolding ambiguous_def by blast
      qed (auto simp: ambiguous_def)
      then show ?thesis using i l same Some unfolding span_inv_def by auto
    next
      case diff: False
      have "ambiguous (insert ob S)" unfolding ambiguous_def using w True diff by blast
      then show ?thesis using i l diff Some unfolding span_inv_def by auto
    qed
  qed
qed

lemma learn_spans: "span_inv S st \<Longrightarrow> span_inv (S \<union> set obs) (fold learn_span obs st)"
proof (induction obs arbitrary: S st)
  case (Cons ob obs)
  show ?case using Cons.IH [OF learn_span_inv [OF Cons.prems]] by simp
qed simp

lemma learned: "span_inv (set obs) (fold learn_span obs (fmempty, False))"
  using learn_spans [of "{}" "(fmempty, False)" obs] by (simp add: span_inv_def ambiguous_def)

text \<open>What an unambiguous relation resolves a reference to.\<close>

lemma resolve_iff:
  assumes "span_inv S st" and "\<not> ambiguous S"
  shows "fmlookup (fst st) ref = Some fp \<longleftrightarrow> (\<exists>ob \<in> S. names_span ob \<and> span_of ob = ref \<and> ob_FingerprintID ob = fp)"
  using assms unfolding span_inv_def ambiguous_def by (metis option.exhaust option.inject)

definition independent_in :: "(spanRef, string) fmap \<Rightarrow> Observation \<Rightarrow> bool" where
  "independent_in m ob \<longleftrightarrow> ob_ParentSpanID ob = '''' \<or> ob_TraceID ob = '''' \<or>
     fmlookup m (ob_TraceID ob, ob_ParentSpanID ob) = None \<or>
     fmlookup m (ob_TraceID ob, ob_ParentSpanID ob) = Some (ob_FingerprintID ob)"

lemma classify_one:
  "bp_degraded (classify m ob p) = bp_degraded p"
  "bp_independent (classify m ob p) = bp_independent p \<union>
    (if ob_FingerprintID ob \<noteq> '''' \<and> independent_in m ob then {ob_FingerprintID ob} else {})"
  "parents_of (classify m ob p) fp = parents_of p fp \<union>
    {q. ob_FingerprintID ob = fp \<and> fp \<noteq> '''' \<and> \<not> independent_in m ob \<and> fmlookup m (ob_TraceID ob, ob_ParentSpanID ob) = Some q}"
  by (auto simp: classify_def independent_in_def Let_def split: option.splits if_splits)

lemma classify_all:
  "bp_degraded (fold (classify m) obs p) = bp_degraded p \<and>
   bp_independent (fold (classify m) obs p) = bp_independent p \<union>
     {fp. \<exists>ob \<in> set obs. ob_FingerprintID ob = fp \<and> fp \<noteq> '''' \<and> independent_in m ob} \<and>
   parents_of (fold (classify m) obs p) fp = parents_of p fp \<union>
     {q. \<exists>ob \<in> set obs. ob_FingerprintID ob = fp \<and> fp \<noteq> '''' \<and> \<not> independent_in m ob \<and>
        fmlookup m (ob_TraceID ob, ob_ParentSpanID ob) = Some q}"
proof (induction obs arbitrary: p)
  case (Cons ob obs)
  note ih = Cons [of "classify m ob p"] and c = classify_one [of m ob p]
  show ?case
    using ih c(1) c(2) c(3) [of fp] by (simp only: fold_Cons comp_apply) auto
qed auto


lemma parentage_of:
  assumes "fold learn_span obs (fmempty, False) = (m, degraded)"
  shows "bp_degraded (buildBehaviorParentage obs) \<longleftrightarrow> ambiguous (set obs)"
    and "bp_independent (buildBehaviorParentage obs) =
      {fp. \<exists>ob \<in> set obs. ob_FingerprintID ob = fp \<and> fp \<noteq> '''' \<and> independent_in m ob}"
    and "parents_of (buildBehaviorParentage obs) fp =
      {q. \<exists>ob \<in> set obs. ob_FingerprintID ob = fp \<and> fp \<noteq> '''' \<and> \<not> independent_in m ob \<and>
        fmlookup m (ob_TraceID ob, ob_ParentSpanID ob) = Some q}"
  using learned [of obs] classify_all [of m obs "\<lparr>bp_parents = fmempty, bp_independent = {}, bp_degraded = degraded\<rparr>" fp] assms
  by (simp_all add: buildBehaviorParentage_def span_inv_def)

text \<open>The documented rule over the retained observations. An occurrence is recorded beneath another identity when its parent
  reference names a span that identity was observed under in the same trace; an added identity is explained when it occurs and
  every occurrence of it is recorded beneath some added identity.\<close>

definition recorded_beneath :: "Observation set \<Rightarrow> Observation \<Rightarrow> string \<Rightarrow> bool" where
  "recorded_beneath S ob q \<longleftrightarrow> ob_TraceID ob \<noteq> '''' \<and> ob_ParentSpanID ob \<noteq> '''' \<and> q \<noteq> ob_FingerprintID ob \<and>
     (\<exists>x \<in> S. names_span x \<and> span_of x = (ob_TraceID ob, ob_ParentSpanID ob) \<and> ob_FingerprintID x = q)"

definition explained :: "Observation set \<Rightarrow> string set \<Rightarrow> string \<Rightarrow> bool" where
  "explained S A i \<longleftrightarrow> i \<noteq> '''' \<and> (\<exists>ob \<in> S. ob_FingerprintID ob = i) \<and>
     (\<forall>ob \<in> S. ob_FingerprintID ob = i \<longrightarrow> (\<exists>q \<in> A. recorded_beneath S ob q))"

definition beneath_edges :: "Observation set \<Rightarrow> string set \<Rightarrow> (string \<times> string) set" where
  "beneath_edges S A = {(q, c). q \<in> A \<and> c \<in> A \<and> c \<noteq> '''' \<and> (\<exists>ob \<in> S. ob_FingerprintID ob = c \<and> recorded_beneath S ob q)}"

lemma beneath_iff:
  assumes "\<not> ambiguous (set obs)" and "fold learn_span obs (fmempty, False) = (m, d)"
  shows "\<not> independent_in m ob \<and> fmlookup m (ob_TraceID ob, ob_ParentSpanID ob) = Some q \<longleftrightarrow> recorded_beneath (set obs) ob q"
    and "independent_in m ob \<longleftrightarrow> (\<forall>q. \<not> recorded_beneath (set obs) ob q)"
    and "recorded_beneath (set obs) ob q \<Longrightarrow> recorded_beneath (set obs) ob q' \<Longrightarrow> q' = q"
proof -
  have r: "fmlookup m ref = Some fp \<longleftrightarrow> (\<exists>ob \<in> set obs. names_span ob \<and> span_of ob = ref \<and> ob_FingerprintID ob = fp)" for ref fp
    using resolve_iff [OF learned [of obs] assms(1), of ref fp] assms(2) by simp
  show i: "\<not> independent_in m ob \<and> fmlookup m (ob_TraceID ob, ob_ParentSpanID ob) = Some q \<longleftrightarrow> recorded_beneath (set obs) ob q" for q
    unfolding recorded_beneath_def r [symmetric] independent_in_def by auto
  show "independent_in m ob \<longleftrightarrow> (\<forall>q. \<not> recorded_beneath (set obs) ob q)"
    unfolding i [symmetric] by (cases "fmlookup m (ob_TraceID ob, ob_ParentSpanID ob)") (auto simp: independent_in_def)
  show "recorded_beneath (set obs) ob q \<Longrightarrow> recorded_beneath (set obs) ob q' \<Longrightarrow> q' = q" unfolding i [symmetric] by simp
qed

lemma eligible_iff_explained:
  assumes "\<not> ambiguous (set obs)"
  shows "foldEligible (buildBehaviorParentage obs) i A \<longleftrightarrow> explained (set obs) A i"
proof -
  obtain m d where m: "fold learn_span obs (fmempty, False) = (m, d)" by force
  note b = beneath_iff [OF assms m]
  have p: "parents_of (buildBehaviorParentage obs) i = {q. \<exists>ob \<in> set obs. ob_FingerprintID ob = i \<and> i \<noteq> '''' \<and> recorded_beneath (set obs) ob q}"
    unfolding parentage_of(3) [OF m] b(1) [symmetric] by blast
  have n: "i \<in> bp_independent (buildBehaviorParentage obs) \<longleftrightarrow>
      i \<noteq> '''' \<and> (\<exists>ob \<in> set obs. ob_FingerprintID ob = i \<and> (\<forall>q. \<not> recorded_beneath (set obs) ob q))"
    unfolding parentage_of(2) [OF m] b(2) by blast
  show ?thesis unfolding foldEligible_def Let_def n p explained_def using b(3) by (auto; metis)
qed

lemma edges_beneath:
  assumes "\<not> ambiguous (set obs)"
  shows "added_edges added (buildBehaviorParentage obs) = beneath_edges (set obs) (set added)"
proof -
  obtain m d where m: "fold learn_span obs (fmempty, False) = (m, d)" by force
  show ?thesis unfolding added_edges_def beneath_edges_def parentage_of(3) [OF m] beneath_iff(1) [OF assms m, symmetric] by auto
qed

lemma changes_from_roots:
  assumes "map bc_RootFingerprintID changes = rs" and "\<And>c. c \<in> set changes \<Longrightarrow> bc_ContributingFingerprintIDs c = f (bc_RootFingerprintID c)"
  shows "changes = map (\<lambda>r. \<lparr>bc_RootFingerprintID = r, bc_ContributingFingerprintIDs = f r\<rparr>) rs"
proof -
  have "\<lparr>bc_RootFingerprintID = bc_RootFingerprintID c, bc_ContributingFingerprintIDs = f (bc_RootFingerprintID c)\<rparr> = c" if "c \<in> set changes" for c
    using assms(2) [OF that] by simp
  then show ?thesis unfolding assms(1) [symmetric] by (simp add: map_idI)
qed

lemma folded_rule:
  assumes "distinct added" and "foldAddedChanges added (buildBehaviorParentage obs) st = (changes, st')"
  shows "st' = CorrelationComplete \<longleftrightarrow>
      st = CorrelationComplete \<and> \<not> ambiguous (set obs) \<and> acyclic (beneath_edges (set obs) (set added))"
    and "changes =
      (if st' = CorrelationComplete
       then map (\<lambda>r. \<lparr>bc_RootFingerprintID = r, bc_ContributingFingerprintIDs = sorted_list_of_set ((beneath_edges (set obs) (set added))\<^sup>* `` {r})\<rparr>)
              (sort (filter (\<lambda>r. \<not> explained (set obs) (set added) r) added))
       else map (\<lambda>r. \<lparr>bc_RootFingerprintID = r, bc_ContributingFingerprintIDs = [r]\<rparr>) (sort added))"
proof -
  obtain m d where m: "fold learn_span obs (fmempty, False) = (m, d)" by force
  have deg: "bp_degraded (buildBehaviorParentage obs) \<longleftrightarrow> ambiguous (set obs)" by (rule parentage_of(1) [OF m])
  show cmpl: "st' = CorrelationComplete \<longleftrightarrow>
      st = CorrelationComplete \<and> \<not> ambiguous (set obs) \<and> acyclic (beneath_edges (set obs) (set added))"
    unfolding fold_complete_iff [OF assms] deg using edges_beneath [of obs added] by auto
  show "changes =
      (if st' = CorrelationComplete
       then map (\<lambda>r. \<lparr>bc_RootFingerprintID = r, bc_ContributingFingerprintIDs = sorted_list_of_set ((beneath_edges (set obs) (set added))\<^sup>* `` {r})\<rparr>)
              (sort (filter (\<lambda>r. \<not> explained (set obs) (set added) r) added))
       else map (\<lambda>r. \<lparr>bc_RootFingerprintID = r, bc_ContributingFingerprintIDs = [r]\<rparr>) (sort added))"
  proof (cases "st' = CorrelationComplete")
    case True
    note f = fold_folded [OF assms True]
    have u: "\<not> ambiguous (set obs)" using cmpl True by simp
    have "changes = map (\<lambda>r. \<lparr>bc_RootFingerprintID = r, bc_ContributingFingerprintIDs = sorted_list_of_set ((beneath_edges (set obs) (set added))\<^sup>* `` {r})\<rparr>)
        (sort (filter (\<lambda>r. \<not> foldEligible (buildBehaviorParentage obs) r (set added)) added))"
    proof (rule changes_from_roots [OF f(1)])
      fix c assume "c \<in> set changes"
      then show "bc_ContributingFingerprintIDs c = sorted_list_of_set ((beneath_edges (set obs) (set added))\<^sup>* `` {bc_RootFingerprintID c})"
        using f(2) [of c] sorted_list_of_set.idem_if_sorted_distinct [of "bc_ContributingFingerprintIDs c"] by (simp add: edges_beneath [OF u])
    qed
    then show ?thesis using True by (simp add: eligible_iff_explained [OF u])
  next
    case False
    have "changes = map (\<lambda>r. \<lparr>bc_RootFingerprintID = r, bc_ContributingFingerprintIDs = [r]\<rparr>) (sort added)"
      unfolding fold_unfolded [OF assms(2) False] by (rule changes_from_roots [OF unfolded_facts(1)]) (auto simp: unfoldedChanges_def)
    then show ?thesis using False by simp
  qed
qed

text \<open>C22. Folding the added identities of a comparison by the retained observations. The result is complete
  exactly when the history was, no span was observed under two identities and the recorded relation among the added identities
  has no cycle. When it is complete the changes are, in order, the added identities that have an occurrence no added identity
  explains (or none at all), each with exactly the identities recorded beneath it, directly or through others, as
  contributors; when it is not, every added identity is one change that contributes itself. So every added identity
  contributes to some change, and the number of changes passes the arithmetic check: at most the number of added identities,
  and at least one when there is any.\<close>

theorem change_count_rule:
  assumes "distinct added" and "foldAddedChanges added (buildBehaviorParentage obs) st = (changes, st')"
  shows "(st' = CorrelationComplete \<longleftrightarrow>
      st = CorrelationComplete \<and> \<not> ambiguous (set obs) \<and> acyclic (beneath_edges (set obs) (set added))) \<and>
    changes =
      (if st' = CorrelationComplete
       then map (\<lambda>r. \<lparr>bc_RootFingerprintID = r, bc_ContributingFingerprintIDs = sorted_list_of_set ((beneath_edges (set obs) (set added))\<^sup>* `` {r})\<rparr>)
              (sort (filter (\<lambda>r. \<not> explained (set obs) (set added) r) added))
       else map (\<lambda>r. \<lparr>bc_RootFingerprintID = r, bc_ContributingFingerprintIDs = [r]\<rparr>) (sort added)) \<and>
    (\<Union>c \<in> set changes. set (bc_ContributingFingerprintIDs c)) = set added \<and>
    validateChangeCountArithmetic (int (length added)) (int (length changes)) = None"
  using folded_rule [OF assms] fold_covers [OF assms] fold_arithmetic [OF assms]
  by (auto simp: validateChangeCountArithmetic_def)

subsection \<open>The order of the observations does not matter\<close>

lemma fold_cong_parentage:
  assumes "bp_degraded p = bp_degraded q" and "bp_independent p = bp_independent q" and "\<And>i. parents_of p i = parents_of q i"
  shows "foldAddedChanges added p st = foldAddedChanges added q st"
proof -
  have "foldEligible p = foldEligible q" using assms by (intro ext) (simp add: foldEligible_def)
  moreover have "parents_of p = parents_of q" using assms(3) by (rule ext)
  then have "addedChildren added p = addedChildren added q" by (simp only: addedChildren_def)
  ultimately show ?thesis using assms(1) by (simp only: foldAddedChanges_def)
qed

text \<open>Two histories that retain the same observations, in whatever order and however
  often, fold an added set to the same changes and the same correlation state: a child may arrive
  before its parent.\<close>

theorem fold_order_independent:
  assumes "set obs = set obs'"
  shows "foldAddedChanges added (buildBehaviorParentage obs) st = foldAddedChanges added (buildBehaviorParentage obs') st"
proof -
  obtain m d where m: "fold learn_span obs (fmempty, False) = (m, d)" by fastforce
  obtain m' d' where m': "fold learn_span obs' (fmempty, False) = (m', d')" by fastforce
  note p = parentage_of [OF m] and p' = parentage_of [OF m']
  show ?thesis
  proof (cases "ambiguous (set obs)")
    case True
    then show ?thesis using p(1) p'(1) assms by (simp add: foldAddedChanges_def)
  next
    case False
    have "fmlookup m ref = fmlookup m' ref" for ref
      using resolve_iff [OF learned [of obs] False, of ref] resolve_iff [OF learned [of obs'], of ref] False assms m m'
      by (metis fst_conv not_Some_eq)
    then have "m = m'" by (intro fmap_ext) simp
    then show ?thesis using p p' assms by (intro fold_cong_parentage) simp_all
  qed
qed

end
