(* ===== verification/Platform_Behavior.thy ===== *)
theory Platform_Behavior
  imports Platform_Counting
begin

text \<open>
  Behavioural evidence of a run and its comparison (\<^verbatim>\<open>platform/behavior.go\<close>,
  \<^verbatim>\<open>operational_comparison.go\<close>): the bounded collector, its sorted snapshot, the diff of
  two snapshots with the operational comparison beside it, and the correlation applied to it. A
  collector is an explicit state; a nil collector behaves as an unbound one. The values of a Go map
  are taken in key order before they are sorted.
\<close>

definition maxBehaviorEntries :: nat where "maxBehaviorEntries = 512"

record BehaviorEntry =
  be_FingerprintID :: string
  be_Behavior :: StableFeatures
  be_Observations :: u64
  be_Operational :: OperationalSummary
  be_Fidelity :: BehaviorFidelity

record BehaviorCollector =
  co_bound :: bool
  co_runID :: EvaluationRunID
  co_candidateID :: CandidateID
  co_environment :: EnvironmentRef
  co_profile :: BehavioralProfileRef
  co_observations :: u64
  co_entries :: "(string, BehaviorEntry) fmap"
  co_byBehavior :: "(StableFeatures, string) fmap"
  co_complete :: bool

record BehaviorSnapshot =
  sn_bound :: bool
  sn_runID :: EvaluationRunID
  sn_candidateID :: CandidateID
  sn_environment :: EnvironmentRef
  sn_profile :: BehavioralProfileRef
  sn_observations :: u64
  sn_entries :: "BehaviorEntry list"
  sn_complete :: bool

subsection \<open>Collecting\<close>

definition NewBehaviorCollector :: "EvaluationRun \<Rightarrow> platform_error + BehaviorCollector" where
  "NewBehaviorCollector run =
     (case validateRunBinding run of
        Some e \<Rightarrow> Inl e
      | None \<Rightarrow> Inr \<lparr>co_bound = True, co_runID = run_id run, co_candidateID = run_candidateID run,
          co_environment = run_environment run, co_profile = run_profile run, co_observations = 0,
          co_entries = fmempty, co_byBehavior = fmempty, co_complete = True\<rparr>)"

definition validActorType :: "ActorType \<Rightarrow> bool" where
  "validActorType t = List.member [''service'', ''user'', ''service_account'', ''ai_agent'', ''device'', ''unknown''] t"

definition validOperationCategory :: "OperationCategory \<Rightarrow> bool" where
  "validOperationCategory c = List.member [''http'', ''db'', ''rpc'', ''tool'', ''external''] c"

definition validTargetCategory :: "TargetCategory \<Rightarrow> bool" where
  "validTargetCategory c = List.member ['''', ''internal'', ''external'', ''database''] c"

definition validateBehaviorIdentity :: "string \<Rightarrow> StableFeatures \<Rightarrow> platform_error option" where
  "validateBehaviorIdentity fingerprintID b =
     (if fingerprintID = '''' then Some ErrInvalidBehaviorRecord
      else case validateText ErrInvalidBehaviorRecord fingerprintID of Some e \<Rightarrow> Some e | None \<Rightarrow>
        if \<not> validActorType (sf_ActorType b) then Some ErrInvalidBehaviorRecord
        else if \<not> validOperationCategory (sf_OperationCategory b) then Some ErrInvalidBehaviorRecord
        else if \<not> validTargetCategory (sf_TargetCategory b) then Some ErrInvalidBehaviorRecord
        else if sf_OperationName b = '''' then Some ErrInvalidBehaviorRecord
        else case validateText ErrInvalidBehaviorRecord (sf_OperationName b) of Some e \<Rightarrow> Some e | None \<Rightarrow>
          if sf_TargetName b \<noteq> '''' then validateText ErrInvalidBehaviorRecord (sf_TargetName b) else None)"

definition Observe_guard :: "BehaviorCollector \<Rightarrow> DecisionRecord \<Rightarrow> platform_error option" where
  "Observe_guard c r =
     (if \<not> co_bound c then Some ErrUnboundCollector
      else if \<not> co_complete c then Some ErrBehaviorCapacity
      else if co_observations c = MaxUint64 then Some ErrBehaviorOverflow
      else if dr_EventID r = '''' then Some ErrInvalidBehaviorRecord
      else if Time_IsZero (dr_Timestamp r) then Some ErrInvalidBehaviorRecord
      else if dr_Environment r \<noteq> co_environment c then Some ErrBehaviorEnvironmentMismatch
      else if sf_Environment (dr_Behavior r) \<noteq> dr_Environment r then Some ErrInvalidBehaviorRecord
      else None)"

definition ObserveOperational ::
  "BehaviorCollector \<Rightarrow> DecisionRecord \<Rightarrow> OperationalFacts \<Rightarrow> BehaviorCollector \<times> platform_error option" where
  "ObserveOperational c r facts =
     (case orElse (Observe_guard c r)
             (orElse (validateBehaviorIdentity (dr_FingerprintID r) (dr_Behavior r)) (OperationalFacts_Validate facts)) of
        Some e \<Rightarrow> (c, Some e)
      | None \<Rightarrow>
        let fp = dr_FingerprintID r; b = dr_Behavior r; known = fmlookup (co_entries c) fp;
            fresh = (case known of Some e \<Rightarrow> e
              | None \<Rightarrow> \<lparr>be_FingerprintID = fp, be_Behavior = b, be_Observations = 0,
                         be_Operational = zeroOperational, be_Fidelity = zeroFidelity\<rparr>)
        in if known \<noteq> None \<and> be_Behavior fresh \<noteq> b then (c, Some ErrFingerprintConflict)
           else if known \<noteq> None \<and> be_Observations fresh = MaxUint64 then (c, Some ErrBehaviorOverflow)
           else if known = None \<and> fmlookup (co_byBehavior c) b \<noteq> None \<and> fmlookup (co_byBehavior c) b \<noteq> Some fp
             then (c, Some ErrFingerprintConflict)
           else if known = None \<and> maxBehaviorEntries \<le> fmsize (co_entries c)
             then (c\<lparr>co_complete := False\<rparr>, Some ErrBehaviorCapacity)
           else case OperationalSummary_observe (be_Operational fresh) r facts of
             Inl e \<Rightarrow> (c, Some e)
           | Inr operational \<Rightarrow>
               case BehaviorFidelity_observe (be_Fidelity fresh) (of_Fidelity facts) (of_Layer facts) of
                 Inl e \<Rightarrow> (c, Some e)
               | Inr fidelity \<Rightarrow>
                   (c\<lparr>co_observations := co_observations c + 1,
                      co_entries := fmupd fp (fresh\<lparr>be_Observations := be_Observations fresh + 1,
                        be_Operational := operational, be_Fidelity := fidelity\<rparr>) (co_entries c),
                      co_byBehavior := (if known = None then fmupd b fp (co_byBehavior c) else co_byBehavior c)\<rparr>,
                    None))"

definition Observe :: "BehaviorCollector \<Rightarrow> DecisionRecord \<Rightarrow> BehaviorCollector \<times> platform_error option" where
  "Observe c r = ObserveOperational c r noFacts"

definition zeroSnapshot :: BehaviorSnapshot where
  "zeroSnapshot = \<lparr>sn_bound = False, sn_runID = '''', sn_candidateID = '''', sn_environment = '''', sn_profile = '''',
     sn_observations = 0, sn_entries = [], sn_complete = False\<rparr>"

definition map_values :: "('k :: linorder, 'v) fmap \<Rightarrow> 'v list" where
  "map_values m = map snd (sorted_list_of_fmap m)"

definition Snapshot :: "BehaviorCollector \<Rightarrow> BehaviorSnapshot" where
  "Snapshot c =
     (if \<not> co_bound c then zeroSnapshot
      else \<lparr>sn_bound = True, sn_runID = co_runID c, sn_candidateID = co_candidateID c,
            sn_environment = co_environment c, sn_profile = co_profile c, sn_observations = co_observations c,
            sn_entries = sort_key be_FingerprintID (map_values (co_entries c)), sn_complete = co_complete c\<rparr>)"

fun load_entries ::
  "BehaviorEntry list \<Rightarrow> (string, BehaviorEntry) fmap \<times> (StableFeatures, string) fmap \<Rightarrow>
   platform_error + (string, BehaviorEntry) fmap \<times> (StableFeatures, string) fmap" where
  "load_entries [] st = Inr st"
| "load_entries (e # es) (entries, byBehavior) =
     (if fmlookup entries (be_FingerprintID e) \<noteq> None then Inl ErrStoreCorrupt
      else if fmlookup byBehavior (be_Behavior e) \<noteq> None then Inl ErrStoreCorrupt
      else load_entries es (fmupd (be_FingerprintID e) e entries, fmupd (be_Behavior e) (be_FingerprintID e) byBehavior))"

definition behaviorCollectorFromSnapshot :: "BehaviorSnapshot \<Rightarrow> platform_error + BehaviorCollector" where
  "behaviorCollectorFromSnapshot s =
     (if \<not> sn_bound s then Inl ErrUnboundCollector
      else andThen (load_entries (sn_entries s) (fmempty, fmempty)) (\<lambda>(entries, byBehavior).
        Inr \<lparr>co_bound = True, co_runID = sn_runID s, co_candidateID = sn_candidateID s,
             co_environment = sn_environment s, co_profile = sn_profile s, co_observations = sn_observations s,
             co_entries = entries, co_byBehavior = byBehavior, co_complete = sn_complete s\<rparr>))"

subsection \<open>Restored snapshots\<close>

datatype snapshot_error =
    SnapshotID platform_error | TooManyEntries | DistinctCountDisagrees | EntryIdentity platform_error | EntryUnobserved
  | EntryOperational summary_error | EntryFidelity fidelity_error | EntryEnvironment | EntriesUnsorted
  | DuplicateFingerprint | DuplicateBehavior | EntryCountsOverflow | ObservationsDisagree

fun restored_entries ::
  "EnvironmentRef \<Rightarrow> string option \<Rightarrow> string set \<Rightarrow> StableFeatures set \<Rightarrow> u64 \<Rightarrow> BehaviorEntry list \<Rightarrow>
   snapshot_error + u64" where
  "restored_entries env prev fps behaviors observed [] = Inr observed"
| "restored_entries env prev fps behaviors observed (e # es) =
     (case validateBehaviorIdentity (be_FingerprintID e) (be_Behavior e) of
        Some err \<Rightarrow> Inl (EntryIdentity err)
      | None \<Rightarrow>
        if be_Observations e = 0 then Inl EntryUnobserved
        else case validateOperationalSummary (be_Operational e) (be_Observations e) of
          Some err \<Rightarrow> Inl (EntryOperational err)
        | None \<Rightarrow>
          case validateBehaviorFidelity (be_Fidelity e) (be_Observations e) of
            Some err \<Rightarrow> Inl (EntryFidelity err)
          | None \<Rightarrow>
              if sf_Environment (be_Behavior e) \<noteq> env then Inl EntryEnvironment
              else if (case prev of None \<Rightarrow> False | Some p \<Rightarrow> be_FingerprintID e \<le> p) then Inl EntriesUnsorted
              else if be_FingerprintID e \<in> fps then Inl DuplicateFingerprint
              else if be_Behavior e \<in> behaviors then Inl DuplicateBehavior
              else if MaxUint64 - be_Observations e < observed then Inl EntryCountsOverflow
              else restored_entries env (Some (be_FingerprintID e)) (insert (be_FingerprintID e) fps)
                     (insert (be_Behavior e) behaviors) (observed + be_Observations e) es)"

definition validateRestoredSnapshot :: "BehaviorSnapshot \<Rightarrow> nat \<Rightarrow> snapshot_error option" where
  "validateRestoredSnapshot s storedDistinctCount =
     (case first_error (map validateID [sn_runID s, sn_candidateID s, sn_environment s, sn_profile s]) of
        Some e \<Rightarrow> Some (SnapshotID e)
      | None \<Rightarrow>
          if maxBehaviorEntries < length (sn_entries s) then Some TooManyEntries
          else if length (sn_entries s) \<noteq> storedDistinctCount then Some DistinctCountDisagrees
          else case restored_entries (sn_environment s) None {} {} 0 (sn_entries s) of
            Inl e \<Rightarrow> Some e
          | Inr observed \<Rightarrow> if observed \<noteq> sn_observations s then Some ObservationsDisagree else None)"


subsection \<open>Operational comparison\<close>

type_synonym OperationalUnavailability = string

definition ReferenceUnavailable :: OperationalUnavailability where "ReferenceUnavailable = ''reference_unavailable''"
definition CandidateUnavailable :: OperationalUnavailability where "CandidateUnavailable = ''candidate_unavailable''"
definition BothUnavailable :: OperationalUnavailability where "BothUnavailable = ''both_unavailable''"

definition unavailability :: "bool \<Rightarrow> bool \<Rightarrow> OperationalUnavailability" where
  "unavailability reference candidate =
     (if reference \<and> candidate then ''''
      else if candidate then ReferenceUnavailable
      else if reference then CandidateUnavailable
      else BothUnavailable)"

record LatencyEvidence =
  le_RunsWithEvidence :: u64
  le_Buckets :: DurationBuckets
  le_Durations :: DurationSummary

record ErrorEvidence =
  ee_RunsWithEvidence :: u64
  ee_SpanStatus :: SpanStatusCounts
  ee_HTTPStatus :: HTTPStatusClassCounts
  ee_HTTP429 :: u64

record TokenEvidence =
  te_RunsWithEvidence :: u64
  te_Tokens :: TokenCounts

definition LatencyEvidence_Available :: "DurationSummary \<Rightarrow> bool" where
  "LatencyEvidence_Available d = (0 < du_Count d)"

definition ErrorEvidence_Available :: "SpanStatusCounts \<Rightarrow> HTTPStatusClassCounts \<Rightarrow> bool" where
  "ErrorEvidence_Available s h = (0 < sc_Unset s + sc_OK s + sc_Error s \<or> 0 < HTTPStatusClassCounts_Stated h)"

definition TokenEvidence_Available :: "TokenCounts \<Rightarrow> bool" where
  "TokenEvidence_Available t = (0 < tk_Observed t)"

record LatencyComparison =
  lc_Reference :: LatencyEvidence
  lc_Candidate :: LatencyEvidence
  lc_Unavailable :: OperationalUnavailability

record ErrorComparison =
  ec_Reference :: ErrorEvidence
  ec_Candidate :: ErrorEvidence
  ec_Unavailable :: OperationalUnavailability

record TokenComparison =
  tc_Reference :: TokenEvidence
  tc_Candidate :: TokenEvidence
  tc_Unavailable :: OperationalUnavailability

record OperationalComparison =
  oc_Latency :: LatencyComparison
  oc_Errors :: ErrorComparison
  oc_Tokens :: TokenComparison

record operationalSide =
  side_sum :: OperationalSummary
  side_latencyRuns :: u64
  side_errorRuns :: u64
  side_tokenRuns :: u64

definition zeroSide :: operationalSide where
  "zeroSide = \<lparr>side_sum = zeroOperational, side_latencyRuns = 0, side_errorRuns = 0, side_tokenRuns = 0\<rparr>"

fun sum_entries :: "OperationalSummary \<Rightarrow> BehaviorEntry list \<Rightarrow> platform_error + OperationalSummary" where
  "sum_entries run [] = Inr run"
| "sum_entries run (e # es) = andThen (OperationalSummary_Add run (be_Operational e)) (\<lambda>next. sum_entries next es)"

definition addRun :: "operationalSide \<Rightarrow> BehaviorEntry list \<Rightarrow> platform_error + operationalSide" where
  "addRun s entries =
     andThen (sum_entries zeroOperational entries) (\<lambda>run.
     andThen (OperationalSummary_Add (side_sum s) run) (\<lambda>tot.
     Inr \<lparr>side_sum = tot,
          side_latencyRuns = (if LatencyEvidence_Available (os_Durations run) then side_latencyRuns s + 1 else side_latencyRuns s),
          side_errorRuns = (if ErrorEvidence_Available (os_SpanStatus run) (os_HTTPStatus run)
            then side_errorRuns s + 1 else side_errorRuns s),
          side_tokenRuns = (if TokenEvidence_Available (os_Tokens run) then side_tokenRuns s + 1 else side_tokenRuns s)\<rparr>))"

definition side_latency :: "operationalSide \<Rightarrow> LatencyEvidence" where
  "side_latency s = \<lparr>le_RunsWithEvidence = side_latencyRuns s, le_Buckets = os_Buckets (side_sum s),
     le_Durations = os_Durations (side_sum s)\<rparr>"

definition side_errors :: "operationalSide \<Rightarrow> ErrorEvidence" where
  "side_errors s = \<lparr>ee_RunsWithEvidence = side_errorRuns s, ee_SpanStatus = os_SpanStatus (side_sum s),
     ee_HTTPStatus = os_HTTPStatus (side_sum s), ee_HTTP429 = os_HTTP429 (side_sum s)\<rparr>"

definition side_tokens :: "operationalSide \<Rightarrow> TokenEvidence" where
  "side_tokens s = \<lparr>te_RunsWithEvidence = side_tokenRuns s, te_Tokens = os_Tokens (side_sum s)\<rparr>"

definition compareOperational :: "operationalSide \<Rightarrow> operationalSide \<Rightarrow> OperationalComparison" where
  "compareOperational reference candidate =
     (let rl = side_latency reference; cl = side_latency candidate; re = side_errors reference; ce = side_errors candidate;
          rt = side_tokens reference; ct = side_tokens candidate
      in \<lparr>oc_Latency = \<lparr>lc_Reference = rl, lc_Candidate = cl, lc_Unavailable =
            unavailability (LatencyEvidence_Available (le_Durations rl)) (LatencyEvidence_Available (le_Durations cl))\<rparr>,
          oc_Errors = \<lparr>ec_Reference = re, ec_Candidate = ce, ec_Unavailable =
            unavailability (ErrorEvidence_Available (ee_SpanStatus re) (ee_HTTPStatus re))
              (ErrorEvidence_Available (ee_SpanStatus ce) (ee_HTTPStatus ce))\<rparr>,
          oc_Tokens = \<lparr>tc_Reference = rt, tc_Candidate = ct, tc_Unavailable =
            unavailability (TokenEvidence_Available (te_Tokens rt)) (TokenEvidence_Available (te_Tokens ct))\<rparr>\<rparr>)"

definition compareOperationalEntries :: "BehaviorEntry list \<Rightarrow> BehaviorEntry list \<Rightarrow> platform_error + OperationalComparison" where
  "compareOperationalEntries reference candidate =
     andThen (addRun zeroSide reference) (\<lambda>ref. andThen (addRun zeroSide candidate) (\<lambda>cand.
       Inr (compareOperational ref cand)))"

record SignedCount =
  sg_Negative :: bool
  sg_Magnitude :: u64

definition Difference :: "u64 \<Rightarrow> u64 \<Rightarrow> SignedCount" where
  "Difference candidate reference =
     (if reference \<le> candidate then \<lparr>sg_Negative = False, sg_Magnitude = candidate - reference\<rparr>
      else \<lparr>sg_Negative = True, sg_Magnitude = reference - candidate\<rparr>)"

definition SignedCount_String :: "SignedCount \<Rightarrow> string" where
  "SignedCount_String s =
     (if sg_Negative s \<and> sg_Magnitude s \<noteq> 0 then CHR ''-'' # FormatUint10 (sg_Magnitude s) else FormatUint10 (sg_Magnitude s))"

subsection \<open>The diff\<close>

type_synonym BehaviorPresence = string

definition BehaviorAdded :: BehaviorPresence where "BehaviorAdded = ''added''"
definition BehaviorRemoved :: BehaviorPresence where "BehaviorRemoved = ''removed''"
definition BehaviorShared :: BehaviorPresence where "BehaviorShared = ''shared''"

lemmas presence_defs = BehaviorAdded_def BehaviorRemoved_def BehaviorShared_def

record BehaviorDelta =
  de_FingerprintID :: string
  de_Behavior :: StableFeatures
  de_Presence :: BehaviorPresence
  de_ReferenceCount :: u64
  de_CandidateCount :: u64
  de_ReferenceRate :: f64
  de_CandidateRate :: f64
  de_RateDelta :: f64
  de_ReferenceFidelity :: BehaviorFidelity
  de_CandidateFidelity :: BehaviorFidelity

record BehaviorDiff =
  bd_referenceRunID :: EvaluationRunID
  bd_referenceCandidateID :: CandidateID
  bd_referenceProfile :: BehavioralProfileRef
  bd_referenceObservations :: u64
  bd_referenceDistinctCount :: i64
  bd_candidateRunID :: EvaluationRunID
  bd_candidateCandidateID :: CandidateID
  bd_candidateProfile :: BehavioralProfileRef
  bd_candidateObservations :: u64
  bd_candidateDistinctCount :: i64
  bd_environment :: EnvironmentRef
  bd_deltas :: "BehaviorDelta list"
  bd_added :: i64
  bd_removed :: i64
  bd_shared :: i64
  bd_changes :: "BehaviorChange list"
  bd_correlationState :: CorrelationState
  bd_operational :: OperationalComparison

definition BehaviorDiff_AddedChangeCount :: "BehaviorDiff \<Rightarrow> i64" where
  "BehaviorDiff_AddedChangeCount d = of_nat (length (bd_changes d))"

definition BehaviorDiff_CorrelationState :: "BehaviorDiff \<Rightarrow> CorrelationState" where
  "BehaviorDiff_CorrelationState d =
     (if bd_correlationState d = '''' then CorrelationUnavailable else bd_correlationState d)"

definition rate :: "u64 \<Rightarrow> u64 \<Rightarrow> f64" where
  "rate cnt tot = (if tot = 0 then f0 else fdiv (f64_of_u64 cnt) (f64_of_u64 tot))"

definition check_snapshot :: "BehaviorSnapshot \<Rightarrow> platform_error option" where
  "check_snapshot s =
     (if \<not> sn_bound s then Some ErrUnboundCollector else if \<not> sn_complete s then Some ErrIncompleteSnapshot else None)"

definition index_ids :: "BehaviorEntry list \<Rightarrow> (string, BehaviorEntry) fmap" where
  "index_ids es = fold (\<lambda>e. fmupd (be_FingerprintID e) e) es fmempty"

definition index_behaviors :: "BehaviorEntry list \<Rightarrow> (StableFeatures, string) fmap" where
  "index_behaviors es = fold (\<lambda>e. fmupd (be_Behavior e) (be_FingerprintID e)) es fmempty"

fun assertConsistentIdentity ::
  "(string, BehaviorEntry) fmap \<Rightarrow> (StableFeatures, string) fmap \<Rightarrow> BehaviorEntry list \<Rightarrow> platform_error option" where
  "assertConsistentIdentity refByID refByBehavior [] = None"
| "assertConsistentIdentity refByID refByBehavior (cand # rest) =
     (if (case fmlookup refByID (be_FingerprintID cand) of None \<Rightarrow> False | Some ref \<Rightarrow> be_Behavior ref \<noteq> be_Behavior cand)
        then Some ErrFingerprintConflict
      else if (case fmlookup refByBehavior (be_Behavior cand) of None \<Rightarrow> False | Some i \<Rightarrow> i \<noteq> be_FingerprintID cand)
        then Some ErrFingerprintConflict
      else assertConsistentIdentity refByID refByBehavior rest)"

definition candidate_delta :: "(string, BehaviorEntry) fmap \<Rightarrow> BehaviorEntry \<Rightarrow> BehaviorDelta" where
  "candidate_delta refByID cand =
     (let d = \<lparr>de_FingerprintID = be_FingerprintID cand, de_Behavior = be_Behavior cand, de_Presence = BehaviorAdded,
               de_ReferenceCount = 0, de_CandidateCount = be_Observations cand, de_ReferenceRate = f0, de_CandidateRate = f0,
               de_RateDelta = f0, de_ReferenceFidelity = zeroFidelity, de_CandidateFidelity = be_Fidelity cand\<rparr>
      in case fmlookup refByID (be_FingerprintID cand) of
           None \<Rightarrow> d
         | Some ref \<Rightarrow> d\<lparr>de_Presence := BehaviorShared, de_ReferenceCount := be_Observations ref,
                         de_ReferenceFidelity := be_Fidelity ref\<rparr>)"

definition removed_delta :: "BehaviorEntry \<Rightarrow> BehaviorDelta" where
  "removed_delta ref =
     \<lparr>de_FingerprintID = be_FingerprintID ref, de_Behavior = be_Behavior ref, de_Presence = BehaviorRemoved,
      de_ReferenceCount = be_Observations ref, de_CandidateCount = 0, de_ReferenceRate = f0, de_CandidateRate = f0,
      de_RateDelta = f0, de_ReferenceFidelity = be_Fidelity ref, de_CandidateFidelity = zeroFidelity\<rparr>"

definition with_rates :: "u64 \<Rightarrow> u64 \<Rightarrow> BehaviorDelta \<Rightarrow> BehaviorDelta" where
  "with_rates refTotal candTotal d =
     (let r = rate (de_ReferenceCount d) refTotal; c = rate (de_CandidateCount d) candTotal
      in d\<lparr>de_ReferenceRate := r, de_CandidateRate := c, de_RateDelta := fsub c r\<rparr>)"

definition presence_count :: "BehaviorPresence \<Rightarrow> BehaviorDelta list \<Rightarrow> i64" where
  "presence_count p ds = of_nat (length (filter (\<lambda>d. de_Presence d = p) ds))"

definition addedIdentities :: "BehaviorDelta list \<Rightarrow> string list" where
  "addedIdentities deltas = sort (map de_FingerprintID (filter (\<lambda>d. de_Presence d = BehaviorAdded) deltas))"

definition snapshot_deltas :: "BehaviorSnapshot \<Rightarrow> BehaviorSnapshot \<Rightarrow> BehaviorDelta list" where
  "snapshot_deltas reference candidate =
     map (with_rates (sn_observations reference) (sn_observations candidate))
       (map (candidate_delta (index_ids (sn_entries reference))) (sn_entries candidate) @
        map removed_delta (filter (\<lambda>ref. be_FingerprintID ref \<notin> be_FingerprintID ` set (sn_entries candidate)) (sn_entries reference)))"

definition CompareBehaviorSnapshots :: "BehaviorSnapshot \<Rightarrow> BehaviorSnapshot \<Rightarrow> platform_error + BehaviorDiff" where
  "CompareBehaviorSnapshots reference candidate =
     (case orElse (check_snapshot reference) (orElse (check_snapshot candidate)
             (if sn_environment reference \<noteq> sn_environment candidate then Some ErrBehaviorEnvironmentMismatch
              else assertConsistentIdentity (index_ids (sn_entries reference)) (index_behaviors (sn_entries reference))
                     (sn_entries candidate))) of
        Some e \<Rightarrow> Inl e
      | None \<Rightarrow>
          let unsorted = snapshot_deltas reference candidate; deltas = sort_key de_FingerprintID unsorted in
          andThen (compareOperationalEntries (sn_entries reference) (sn_entries candidate)) (\<lambda>operational.
            Inr \<lparr>bd_referenceRunID = sn_runID reference, bd_referenceCandidateID = sn_candidateID reference,
                 bd_referenceProfile = sn_profile reference, bd_referenceObservations = sn_observations reference,
                 bd_referenceDistinctCount = of_nat (length (sn_entries reference)),
                 bd_candidateRunID = sn_runID candidate, bd_candidateCandidateID = sn_candidateID candidate,
                 bd_candidateProfile = sn_profile candidate, bd_candidateObservations = sn_observations candidate,
                 bd_candidateDistinctCount = of_nat (length (sn_entries candidate)),
                 bd_environment = sn_environment reference, bd_deltas = deltas,
                 bd_added = presence_count BehaviorAdded unsorted, bd_removed = presence_count BehaviorRemoved unsorted,
                 bd_shared = presence_count BehaviorShared unsorted,
                 bd_changes = unfoldedChanges (addedIdentities deltas), bd_correlationState = CorrelationUnavailable,
                 bd_operational = operational\<rparr>))"

definition WithCorrelation :: "BehaviorDiff \<Rightarrow> Observation list \<Rightarrow> ObservationHistory \<Rightarrow> platform_error + BehaviorDiff" where
  "WithCorrelation d observations history =
     (let added = addedIdentities (bd_deltas d);
          (changes, state) = foldAddedChanges added (buildBehaviorParentage observations) (correlationStateFor history)
      in case validateChangeCountArithmetic (int (length added)) (int (length changes)) of
           Some e \<Rightarrow> Inl e
         | None \<Rightarrow> Inr (d\<lparr>bd_changes := changes, bd_correlationState := state\<rparr>))"

end
