(* ===== verification/Platform_Collector.thy ===== *)
theory Platform_Collector
  imports Platform_Behavior
begin

text \<open>
  What the behavioural evidence of \<^verbatim>\<open>platform/behavior.go\<close> guarantees: the invariant of the
  collector as a function of the observations it accepted, the bound on its size, snapshots that do
  not depend on arrival order, restoration of a stored snapshot to the collector it came from, and
  the partition a diff is.
\<close>

subsection \<open>The observations behind a collector\<close>

definition grp :: "string \<Rightarrow> op_obs list \<Rightarrow> op_obs list" where
  "grp fp xs = filter (\<lambda>x. dr_FingerprintID (fst x) = fp) xs"

definition pairs :: "op_obs list \<Rightarrow> (Fidelity \<times> Layer) list" where
  "pairs xs = map (\<lambda>x. (of_Fidelity (snd x), of_Layer (snd x))) xs"

definition entry_rep :: "BehaviorEntry \<Rightarrow> op_obs list \<Rightarrow> bool" where
  "entry_rep e xs \<longleftrightarrow> (\<forall>x \<in> set xs. dr_Behavior (fst x) = be_Behavior e) \<and> unat (be_Observations e) = length xs \<and>
     op_rep (be_Operational e) xs \<and> fid_rep (be_Fidelity e) (pairs xs)"

definition admissible :: "EnvironmentRef \<Rightarrow> op_obs \<Rightarrow> bool" where
  "admissible env x \<longleftrightarrow> validateBehaviorIdentity (dr_FingerprintID (fst x)) (dr_Behavior (fst x)) = None \<and>
     sf_Environment (dr_Behavior (fst x)) = env \<and> OperationalFacts_Validate (snd x) = None"

definition coll_inv :: "op_obs list \<Rightarrow> BehaviorCollector \<Rightarrow> bool" where
  "coll_inv xs c \<longleftrightarrow> co_bound c \<and> unat (co_observations c) = length xs \<and> fmsize (co_entries c) \<le> maxBehaviorEntries \<and>
     (\<forall>x \<in> set xs. admissible (co_environment c) x) \<and>
     (\<forall>fp. case fmlookup (co_entries c) fp of
        None \<Rightarrow> grp fp xs = []
      | Some e \<Rightarrow> grp fp xs \<noteq> [] \<and> be_FingerprintID e = fp \<and> entry_rep e (grp fp xs)) \<and>
     (\<forall>b fp. fmlookup (co_byBehavior c) b = Some fp \<longleftrightarrow>
        (\<exists>e. fmlookup (co_entries c) fp = Some e \<and> be_Behavior e = b))"

inductive coll_reach :: "EvaluationRun \<Rightarrow> op_obs list \<Rightarrow> BehaviorCollector \<Rightarrow> bool" for run where
  new: "NewBehaviorCollector run = Inr c \<Longrightarrow> coll_reach run [] c"
| accept: "coll_reach run xs c \<Longrightarrow> ObserveOperational c r f = (c', None) \<Longrightarrow> coll_reach run (xs @ [(r, f)]) c'"
| refuse: "coll_reach run xs c \<Longrightarrow> ObserveOperational c r f = (c', Some e) \<Longrightarrow> coll_reach run xs c'"

lemma grp_snoc: "grp fp (xs @ [(r, f)]) = (if dr_FingerprintID r = fp then grp fp xs @ [(r, f)] else grp fp xs)"
  by (simp add: grp_def)

text \<open>A refused observation changes nothing, except that the capacity refusal marks the collector incomplete.\<close>

lemma Observe_refused:
  "ObserveOperational c r f = (c', Some e) \<Longrightarrow> c' = c \<or> c' = c\<lparr>co_complete := False\<rparr> \<and> e = ErrBehaviorCapacity"
  by (auto simp: ObserveOperational_def Let_def split: option.splits if_splits sum.splits)

definition fresh_entry :: "BehaviorCollector \<Rightarrow> DecisionRecord \<Rightarrow> BehaviorEntry" where
  "fresh_entry c r = (case fmlookup (co_entries c) (dr_FingerprintID r) of Some e \<Rightarrow> e
     | None \<Rightarrow> \<lparr>be_FingerprintID = dr_FingerprintID r, be_Behavior = dr_Behavior r, be_Observations = 0,
                be_Operational = zeroOperational, be_Fidelity = zeroFidelity\<rparr>)"

lemma Observe_accepted:
  assumes "ObserveOperational c r f = (c', None)"
  obtains operational fidelity where
    "Observe_guard c r = None" "validateBehaviorIdentity (dr_FingerprintID r) (dr_Behavior r) = None"
    "OperationalFacts_Validate f = None"
    "fmlookup (co_entries c) (dr_FingerprintID r) \<noteq> None \<Longrightarrow>
      be_Behavior (fresh_entry c r) = dr_Behavior r \<and> be_Observations (fresh_entry c r) \<noteq> MaxUint64"
    "fmlookup (co_entries c) (dr_FingerprintID r) = None \<Longrightarrow>
      (fmlookup (co_byBehavior c) (dr_Behavior r) = None \<or> fmlookup (co_byBehavior c) (dr_Behavior r) = Some (dr_FingerprintID r)) \<and>
      fmsize (co_entries c) < maxBehaviorEntries"
    "OperationalSummary_observe (be_Operational (fresh_entry c r)) r f = Inr operational"
    "BehaviorFidelity_observe (be_Fidelity (fresh_entry c r)) (of_Fidelity f) (of_Layer f) = Inr fidelity"
    "c' = c\<lparr>co_observations := co_observations c + 1,
        co_entries := fmupd (dr_FingerprintID r) ((fresh_entry c r)\<lparr>be_Observations := be_Observations (fresh_entry c r) + 1,
          be_Operational := operational, be_Fidelity := fidelity\<rparr>) (co_entries c),
        co_byBehavior := (if fmlookup (co_entries c) (dr_FingerprintID r) = None
          then fmupd (dr_Behavior r) (dr_FingerprintID r) (co_byBehavior c) else co_byBehavior c)\<rparr>"
proof -
  have g: "Observe_guard c r = None \<and> validateBehaviorIdentity (dr_FingerprintID r) (dr_Behavior r) = None \<and>
      OperationalFacts_Validate f = None"
    using assms by (auto simp: ObserveOperational_def orElse_None_iff split: option.splits)
  note eq = assms [unfolded ObserveOperational_def Let_def fresh_entry_def [symmetric]]
  obtain operational where op: "OperationalSummary_observe (be_Operational (fresh_entry c r)) r f = Inr operational"
    using eq by (auto split: option.splits if_splits sum.splits)
  obtain fidelity where fi: "BehaviorFidelity_observe (be_Fidelity (fresh_entry c r)) (of_Fidelity f) (of_Layer f) = Inr fidelity"
    using eq op by (auto split: option.splits if_splits sum.splits)
  show ?thesis
    by (rule that [OF _ _ _ _ _ op fi]) (use g eq op fi in \<open>auto simp: not_le split: option.splits if_splits\<close>)
qed


lemma coll_entry:
  assumes "coll_inv xs c"
  shows "fmlookup (co_entries c) fp = None \<Longrightarrow> grp fp xs = []"
    and "fmlookup (co_entries c) fp = Some e \<Longrightarrow> grp fp xs \<noteq> [] \<and> be_FingerprintID e = fp \<and> entry_rep e (grp fp xs)"
proof -
  have "case fmlookup (co_entries c) fp of None \<Rightarrow> grp fp xs = []
      | Some e \<Rightarrow> grp fp xs \<noteq> [] \<and> be_FingerprintID e = fp \<and> entry_rep e (grp fp xs)"
    using assms unfolding coll_inv_def by blast
  then show "fmlookup (co_entries c) fp = None \<Longrightarrow> grp fp xs = []"
    "fmlookup (co_entries c) fp = Some e \<Longrightarrow> grp fp xs \<noteq> [] \<and> be_FingerprintID e = fp \<and> entry_rep e (grp fp xs)" by simp_all
qed

lemma entry_rep_fresh:
  assumes "coll_inv xs c"
  shows "entry_rep (fresh_entry c r) (grp (dr_FingerprintID r) xs)"
proof (cases "fmlookup (co_entries c) (dr_FingerprintID r)")
  case None
  then have "grp (dr_FingerprintID r) xs = []" using coll_entry(1) [OF assms] by simp
  then show ?thesis using None by (simp add: fresh_entry_def entry_rep_def op_rep_zero pairs_def fid_rep_zero)
next
  case (Some e)
  then show ?thesis using coll_entry(2) [OF assms Some] by (simp add: fresh_entry_def)
qed

lemma entry_rep_step:
  assumes rep: "entry_rep e g" and "be_Behavior e = dr_Behavior r" and obs: "be_Observations e \<noteq> MaxUint64"
    and op: "OperationalSummary_observe (be_Operational e) r f = Inr operational"
    and fi: "BehaviorFidelity_observe (be_Fidelity e) (of_Fidelity f) (of_Layer f) = Inr fidelity"
  shows "entry_rep (e\<lparr>be_Observations := be_Observations e + 1, be_Operational := operational, be_Fidelity := fidelity\<rparr>) (g @ [(r, f)])"
proof -
  have "op_rep operational (g @ [(r, f)])"
    using rep op OperationalSummary_observe_iff [of "be_Operational e" g] by (simp add: entry_rep_def)
  moreover have "fid_rep fidelity (pairs (g @ [(r, f)]))"
    using rep fi fidelity_observe_iff [of "be_Fidelity e" "pairs g"] by (simp add: entry_rep_def pairs_def)
  ultimately show ?thesis using assms by (auto simp: entry_rep_def unat_Suc_small)
qed

lemma guard_facts:
  "Observe_guard c r = None \<Longrightarrow> co_complete c \<and> co_observations c \<noteq> MaxUint64 \<and> sf_Environment (dr_Behavior r) = co_environment c"
  by (auto simp: Observe_guard_def split: if_splits)

lemma coll_step:
  assumes inv: "coll_inv xs c" and acc: "ObserveOperational c r f = (c', None)"
  shows "coll_inv (xs @ [(r, f)]) c'"
proof (rule Observe_accepted [OF acc])
  fix operational fidelity
  let ?fp = "dr_FingerprintID r" and ?b = "dr_Behavior r" and ?e = "fresh_entry c r"
  let ?e' = "?e\<lparr>be_Observations := be_Observations ?e + 1, be_Operational := operational, be_Fidelity := fidelity\<rparr>"
  assume g: "Observe_guard c r = None" and ident: "validateBehaviorIdentity ?fp ?b = None" and facts: "OperationalFacts_Validate f = None"
    and known: "fmlookup (co_entries c) ?fp \<noteq> None \<Longrightarrow> be_Behavior ?e = ?b \<and> be_Observations ?e \<noteq> MaxUint64"
    and new: "fmlookup (co_entries c) ?fp = None \<Longrightarrow>
      (fmlookup (co_byBehavior c) ?b = None \<or> fmlookup (co_byBehavior c) ?b = Some ?fp) \<and> fmsize (co_entries c) < maxBehaviorEntries"
    and op: "OperationalSummary_observe (be_Operational ?e) r f = Inr operational"
    and fi: "BehaviorFidelity_observe (be_Fidelity ?e) (of_Fidelity f) (of_Layer f) = Inr fidelity"
    and c': "c' = c\<lparr>co_observations := co_observations c + 1, co_entries := fmupd ?fp ?e' (co_entries c),
      co_byBehavior := (if fmlookup (co_entries c) ?fp = None then fmupd ?b ?fp (co_byBehavior c) else co_byBehavior c)\<rparr>"
  note gf = guard_facts [OF g]
  note ent = coll_entry [OF inv]
  have byB: "\<And>b fp. fmlookup (co_byBehavior c) b = Some fp \<longleftrightarrow> (\<exists>e. fmlookup (co_entries c) fp = Some e \<and> be_Behavior e = b)"
    and base: "co_bound c" "unat (co_observations c) = length xs" "fmsize (co_entries c) \<le> maxBehaviorEntries"
      "\<forall>x \<in> set xs. admissible (co_environment c) x"
    using inv unfolding coll_inv_def by blast+
  have beh: "be_Behavior ?e = ?b" "be_Observations ?e \<noteq> MaxUint64" "be_FingerprintID ?e = ?fp"
    using known ent(2) [of ?fp] by (cases "fmlookup (co_entries c) ?fp"; simp add: fresh_entry_def MaxUint64_def)+
  have rep: "entry_rep ?e' (grp ?fp xs @ [(r, f)])" by (rule entry_rep_step [OF entry_rep_fresh [OF inv] beh(1,2) op fi])
  have "fmsize (fmupd ?fp ?e' (co_entries c)) \<le> maxBehaviorEntries"
    using new base(3) by (cases "fmlookup (co_entries c) ?fp") (auto simp: fmsize_fmupd)
  moreover have "unat (co_observations c + 1) = length (xs @ [(r, f)])" using base(2) gf by (simp add: unat_Suc_small)
  moreover have "\<forall>x \<in> set (xs @ [(r, f)]). admissible (co_environment c) x"
    using base(4) ident facts gf by (simp add: admissible_def)
  moreover have "case fmlookup (fmupd ?fp ?e' (co_entries c)) fp of None \<Rightarrow> grp fp (xs @ [(r, f)]) = []
      | Some e \<Rightarrow> grp fp (xs @ [(r, f)]) \<noteq> [] \<and> be_FingerprintID e = fp \<and> entry_rep e (grp fp (xs @ [(r, f)]))" for fp
    using ent [of fp] rep beh(3) by (cases "fp = ?fp"; cases "fmlookup (co_entries c) fp") (simp_all add: grp_snoc)
  moreover have "fmlookup (co_byBehavior c') b = Some fp \<longleftrightarrow>
      (\<exists>e. fmlookup (fmupd ?fp ?e' (co_entries c)) fp = Some e \<and> be_Behavior e = b)" for b fp
  proof (cases "fmlookup (co_entries c) ?fp")
    case None
    have "fmlookup (co_byBehavior c) ?b = None" using new [OF None] byB None by (metis option.distinct(1))
    then show ?thesis using byB [of b fp] byB [of ?b fp] None beh(1) by (auto simp: c')
  next
    case (Some e)
    then have "?e = e" by (simp add: fresh_entry_def)
    then show ?thesis using byB [of b fp] Some by (auto simp: c')
  qed
  ultimately show ?thesis using base(1) unfolding coll_inv_def c' by simp
qed

lemma coll_reach_inv: "coll_reach run xs c \<Longrightarrow> coll_inv xs c"
proof (induction rule: coll_reach.induct)
  case (new c)
  then show ?case
    by (auto simp: NewBehaviorCollector_def coll_inv_def maxBehaviorEntries_def grp_def split: option.splits)
next
  case (accept xs c r f c')
  then show ?case by (intro coll_step)
next
  case (refuse xs c r f c' e)
  then have "c' = c \<or> c' = c\<lparr>co_complete := False\<rparr>" using Observe_refused by blast
  then show ?case using refuse.IH by (auto simp: coll_inv_def)
qed


subsection \<open>Snapshots depend on the observations only\<close>

lemma fid_rep_mset: "mset xs = mset ys \<Longrightarrow> fid_rep b xs \<Longrightarrow> fid_rep b ys"
proof -
  assume m: "mset xs = mset ys"
  then have k: "mset (map fid_class xs) = mset (map fid_class ys)" by simp
  show "fid_rep b xs \<Longrightarrow> fid_rep b ys" unfolding fid_rep_def count_list_mset [OF k] length_filter_mset [OF k] .
qed

lemma mset_grp: "mset xs = mset ys \<Longrightarrow> mset (grp fp xs) = mset (grp fp ys)"
  by (simp add: grp_def)

lemma entry_rep_unique:
  assumes "entry_rep e g" and "entry_rep e' g'" and m: "mset g = mset g'" and ne: "g \<noteq> []"
    and "be_FingerprintID e = be_FingerprintID e'"
  shows "e = e'"
proof -
  have s: "set g = set g'" using m by (metis set_mset_mset)
  obtain x where "x \<in> set g" using ne by (cases g) auto
  then have "be_Behavior e = be_Behavior e'" using assms(1,2) s by (metis entry_rep_def)
  moreover have "be_Observations e = be_Observations e'"
    using assms(1,2) m by (metis entry_rep_def size_mset word_unat_eq_iff)
  moreover have "be_Operational e = be_Operational e'"
    using assms(1,2) op_rep_mset [OF m] op_rep_unique by (metis entry_rep_def)
  moreover have "mset (pairs g) = mset (pairs g')" using m by (simp add: pairs_def)
  then have "be_Fidelity e = be_Fidelity e'" using assms(1,2) fid_rep_mset fid_rep_unique by (metis entry_rep_def)
  ultimately show ?thesis using assms(5) by (cases e; cases e') simp
qed

lemma coll_unique:
  assumes c: "coll_inv xs c" and d: "coll_inv ys d" and m: "mset xs = mset ys"
  shows "co_observations c = co_observations d \<and> co_entries c = co_entries d \<and> co_byBehavior c = co_byBehavior d"
proof -
  have "fmlookup (co_entries c) fp = fmlookup (co_entries d) fp" for fp
  proof (cases "fmlookup (co_entries c) fp"; cases "fmlookup (co_entries d) fp")
    fix e assume "fmlookup (co_entries c) fp = None" "fmlookup (co_entries d) fp = Some e"
    then show ?thesis using coll_entry(1) [OF c] coll_entry(2) [OF d] mset_grp [OF m, of fp] by (metis mset_zero_iff)
  next
    fix e assume "fmlookup (co_entries c) fp = Some e" "fmlookup (co_entries d) fp = None"
    then show ?thesis using coll_entry(2) [OF c] coll_entry(1) [OF d] mset_grp [OF m, of fp] by (metis mset_zero_iff)
  next
    fix e e' assume e: "fmlookup (co_entries c) fp = Some e" "fmlookup (co_entries d) fp = Some e'"
    then have "e = e'"
      using coll_entry(2) [OF c e(1)] coll_entry(2) [OF d e(2)] entry_rep_unique [OF _ _ mset_grp [OF m, of fp]] by simp
    then show ?thesis using e by simp
  qed simp
  then have ent: "co_entries c = co_entries d" by (intro fmap_ext) simp
  have "fmlookup (co_byBehavior c) b = Some fp \<longleftrightarrow> fmlookup (co_byBehavior d) b = Some fp" for b fp
    using c d ent unfolding coll_inv_def by metis
  then have "co_byBehavior c = co_byBehavior d" by (intro fmap_ext) (metis not_None_eq)
  moreover have "co_observations c = co_observations d"
    using c d m unfolding coll_inv_def by (metis size_mset word_unat_eq_iff)
  ultimately show ?thesis using ent by simp
qed

lemma coll_identity:
  "coll_reach run xs c \<Longrightarrow> co_runID c = run_id run \<and> co_candidateID c = run_candidateID run \<and>
     co_environment c = run_environment run \<and> co_profile c = run_profile run"
proof (induction rule: coll_reach.induct)
  case (new c)
  then show ?case by (auto simp: NewBehaviorCollector_def split: option.splits)
next
  case (accept xs c r f c')
  then show ?case by (elim Observe_accepted) simp
next
  case (refuse xs c r f c' e)
  then show ?case using Observe_refused [of c r f c' e] by auto
qed

text \<open>Two collectors of one run that accepted the same observations, in any order
  and with any refused records between them, take the same snapshot once they agree on completeness.\<close>

theorem snapshot_order_independent:
  assumes "coll_reach run xs c" and "coll_reach run ys d" and "mset xs = mset ys" and "co_complete c = co_complete d"
  shows "Snapshot c = Snapshot d"
proof -
  have "coll_inv xs c" "coll_inv ys d" using assms(1,2) coll_reach_inv by blast+
  then have "co_bound c" "co_bound d" by (auto simp: coll_inv_def)
  then show ?thesis
    using coll_unique [OF coll_reach_inv [OF assms(1)] coll_reach_inv [OF assms(2)] assms(3)] assms(4)
      coll_identity [OF assms(1)] coll_identity [OF assms(2)] by (simp add: Snapshot_def)
qed

subsection \<open>The entries of a snapshot\<close>

definition fps_of :: "BehaviorCollector \<Rightarrow> string list" where
  "fps_of c = sorted_list_of_fset (fmdom (co_entries c))"

lemma fps_facts: "sorted (fps_of c)" "distinct (fps_of c)" "set (fps_of c) = fset (fmdom (co_entries c))"
  by (simp_all add: fps_of_def sorted_list_of_fset.rep_eq)

lemma snapshot_entries:
  assumes "coll_inv xs c"
  shows "sn_entries (Snapshot c) = map (\<lambda>fp. the (fmlookup (co_entries c) fp)) (fps_of c)"
    and "map be_FingerprintID (sn_entries (Snapshot c)) = fps_of c"
proof -
  let ?es = "map (\<lambda>fp. the (fmlookup (co_entries c) fp)) (fps_of c)"
  have m: "map_values (co_entries c) = ?es" by (simp add: map_values_def sorted_list_of_fmap_def fps_of_def)
  have "be_FingerprintID (the (fmlookup (co_entries c) fp)) = fp" if "fp \<in> set (fps_of c)" for fp
    using that coll_entry(2) [OF assms, of fp] by (auto simp: fps_facts(3) fmlookup_dom_iff)
  then have ids: "map be_FingerprintID ?es = fps_of c" by (simp add: map_idI)
  then have "sort_key be_FingerprintID ?es = ?es" using fps_facts(1) by (intro sort_key_id_if_sorted) metis
  then show "sn_entries (Snapshot c) = ?es" using assms m by (simp add: Snapshot_def coll_inv_def)
  then show "map be_FingerprintID (sn_entries (Snapshot c)) = fps_of c" using ids by simp
qed

lemma snapshot_entry:
  assumes "coll_inv xs c" and "e \<in> set (sn_entries (Snapshot c))"
  shows "fmlookup (co_entries c) (be_FingerprintID e) = Some e \<and> grp (be_FingerprintID e) xs \<noteq> [] \<and>
    entry_rep e (grp (be_FingerprintID e) xs)"
proof -
  obtain fp where fp: "fp |\<in>| fmdom (co_entries c)" "e = the (fmlookup (co_entries c) fp)"
    using assms(2) unfolding snapshot_entries(1) [OF assms(1)] by (auto simp: fps_facts(3))
  then have "fmlookup (co_entries c) fp = Some e" by (auto simp: fmlookup_dom_iff)
  then show ?thesis using coll_entry(2) [OF assms(1)] by auto
qed

lemma snapshot_mem:
  assumes "coll_inv xs c"
  shows "e \<in> set (sn_entries (Snapshot c)) \<and> be_FingerprintID e = k \<longleftrightarrow> fmlookup (co_entries c) k = Some e"
proof
  assume "e \<in> set (sn_entries (Snapshot c)) \<and> be_FingerprintID e = k"
  then show "fmlookup (co_entries c) k = Some e" using snapshot_entry [OF assms] by blast
next
  assume e: "fmlookup (co_entries c) k = Some e"
  then have "k \<in> set (fps_of c)" by (simp add: fps_facts(3) fmlookup_dom_iff)
  then have "the (fmlookup (co_entries c) k) \<in> set (sn_entries (Snapshot c))" unfolding snapshot_entries(1) [OF assms] by simp
  then show "e \<in> set (sn_entries (Snapshot c)) \<and> be_FingerprintID e = k" using e coll_entry(2) [OF assms e] by simp
qed

lemma snapshot_distinct:
  assumes "coll_inv xs c"
  shows "distinct (map be_FingerprintID (sn_entries (Snapshot c)))" "distinct (map be_Behavior (sn_entries (Snapshot c)))"
    "sorted (map be_FingerprintID (sn_entries (Snapshot c)))"
proof -
  show d: "distinct (map be_FingerprintID (sn_entries (Snapshot c)))" "sorted (map be_FingerprintID (sn_entries (Snapshot c)))"
    unfolding snapshot_entries(2) [OF assms] by (rule fps_facts)+
  have "inj_on be_Behavior (set (sn_entries (Snapshot c)))"
  proof (rule inj_onI)
    fix e e' assume e: "e \<in> set (sn_entries (Snapshot c))" "e' \<in> set (sn_entries (Snapshot c))" "be_Behavior e = be_Behavior e'"
    have "fmlookup (co_byBehavior c) (be_Behavior x) = Some (be_FingerprintID x)" if "x \<in> set (sn_entries (Snapshot c))" for x
      using snapshot_entry [OF assms that] assms unfolding coll_inv_def by blast
    from this [OF e(1)] this [OF e(2)] e(3) have "be_FingerprintID e = be_FingerprintID e'" by simp
    then have "Some e = Some e'"
      using snapshot_entry [OF assms e(1), THEN conjunct1] snapshot_entry [OF assms e(2), THEN conjunct1] by metis
    then show "e = e'" by simp
  qed
  then show "distinct (map be_Behavior (sn_entries (Snapshot c)))" using d(1) by (simp add: distinct_map)
qed


subsection \<open>Restoring a snapshot\<close>

lemma load_spec:
  "distinct (map be_FingerprintID es) \<Longrightarrow> distinct (map be_Behavior es) \<Longrightarrow>
   (\<forall>e \<in> set es. fmlookup m (be_FingerprintID e) = None \<and> fmlookup b (be_Behavior e) = None) \<Longrightarrow>
   \<exists>m' b'. load_entries es (m, b) = Inr (m', b') \<and>
     (\<forall>k e. fmlookup m' k = Some e \<longleftrightarrow> fmlookup m k = Some e \<or> e \<in> set es \<and> be_FingerprintID e = k) \<and>
     (\<forall>k i. fmlookup b' k = Some i \<longleftrightarrow> fmlookup b k = Some i \<or> (\<exists>e \<in> set es. be_Behavior e = k \<and> be_FingerprintID e = i))"
proof (induction es arbitrary: m b)
  case (Cons e es)
  let ?m = "fmupd (be_FingerprintID e) e m" and ?b = "fmupd (be_Behavior e) (be_FingerprintID e) b"
  have "\<forall>x \<in> set es. fmlookup ?m (be_FingerprintID x) = None \<and> fmlookup ?b (be_Behavior x) = None"
    using Cons.prems by (auto simp: image_iff)
  then obtain m' b' where r: "load_entries es (?m, ?b) = Inr (m', b')"
    "\<forall>k x. fmlookup m' k = Some x \<longleftrightarrow> fmlookup ?m k = Some x \<or> x \<in> set es \<and> be_FingerprintID x = k"
    "\<forall>k i. fmlookup b' k = Some i \<longleftrightarrow> fmlookup ?b k = Some i \<or> (\<exists>x \<in> set es. be_Behavior x = k \<and> be_FingerprintID x = i)"
    using Cons.IH [of ?m ?b] Cons.prems(1,2) by auto
  have e: "fmlookup m (be_FingerprintID e) = None" "fmlookup b (be_Behavior e) = None" using Cons.prems(3) by auto
  have "fmlookup m' k = Some x \<longleftrightarrow> fmlookup m k = Some x \<or> x \<in> set (e # es) \<and> be_FingerprintID x = k" for k x
    using r(2) e by auto
  moreover have "fmlookup b' k = Some i \<longleftrightarrow> fmlookup b k = Some i \<or> (\<exists>x \<in> set (e # es). be_Behavior x = k \<and> be_FingerprintID x = i)"
    for k i using r(3) e by auto
  ultimately show ?case using r(1) e by (intro exI [of _ m'] exI [of _ b']) simp
qed simp

lemma snapshot_restores:
  assumes "coll_inv xs c"
  shows "behaviorCollectorFromSnapshot (Snapshot c) = Inr c"
proof -
  let ?s = "Snapshot c"
  have bound: "co_bound c" using assms by (simp add: coll_inv_def)
  obtain m b where r: "load_entries (sn_entries ?s) (fmempty, fmempty) = Inr (m, b)"
    "\<forall>k e. fmlookup m k = Some e \<longleftrightarrow> e \<in> set (sn_entries ?s) \<and> be_FingerprintID e = k"
    "\<forall>k i. fmlookup b k = Some i \<longleftrightarrow> (\<exists>e \<in> set (sn_entries ?s). be_Behavior e = k \<and> be_FingerprintID e = i)"
    using load_spec [OF snapshot_distinct(1,2) [OF assms], of fmempty fmempty] by auto
  note mem = snapshot_mem [OF assms]
  have "m = co_entries c" using r(2) mem by (intro fmap_ext) (metis not_None_eq)
  moreover have "fmlookup b k = Some i \<longleftrightarrow> fmlookup (co_byBehavior c) k = Some i" for k i
    using r(3) mem assms unfolding coll_inv_def by metis
  then have "b = co_byBehavior c" by (intro fmap_ext) (metis not_None_eq)
  ultimately show ?thesis using r(1) bound
    by (cases c) (simp add: behaviorCollectorFromSnapshot_def Snapshot_def andThen_def)
qed

end
