(* ===== verification/Platform_Diff.thy ===== *)
theory Platform_Diff
  imports Platform_Collector
begin

text \<open>
  Restart and comparison of behavioural evidence: a stored snapshot of a collector passes the checks
  the store makes before trusting it and rebuilds that collector; the per-behaviour summaries of a
  snapshot add up to the summary of the run's observations; the deltas of a diff partition the
  behaviours of the two runs; correlation changes the counting of added behaviours and nothing else.
\<close>

subsection \<open>Grouped observations\<close>

lemma grp_total:
  assumes "distinct ks" and "\<And>x. x \<in> set xs \<Longrightarrow> dr_FingerprintID (fst x) \<in> set ks"
  shows "mset (concat (map (\<lambda>k. grp k xs) ks)) = mset xs"
proof -
  have one: "(\<Sum>k\<leftarrow>ks. if x = k then {#y#} else {#}) = (if x \<in> set ks then {#y#} else {#})" for x :: string and y :: op_obs
    using assms(1) by (induction ks) auto
  have cons: "mset (concat (map (\<lambda>k. grp k (x # ys)) ks)) =
      (\<Sum>k\<leftarrow>ks. if dr_FingerprintID (fst x) = k then {#x#} else {#}) + mset (concat (map (\<lambda>k. grp k ys) ks))" for x ys
    by (induction ks) (auto simp: grp_def)
  show ?thesis using assms(2) by (induction xs) (auto simp: cons one, simp add: grp_def)
qed

lemma snapshot_groups:
  assumes "coll_inv xs c"
  shows "mset (concat (map (\<lambda>e. grp (be_FingerprintID e) xs) (sn_entries (Snapshot c)))) = mset xs"
proof -
  have "dr_FingerprintID (fst x) \<in> set (fps_of c)" if x: "x \<in> set xs" for x
  proof (cases "fmlookup (co_entries c) (dr_FingerprintID (fst x))")
    case None
    then have "grp (dr_FingerprintID (fst x)) xs = []" using coll_entry(1) [OF assms] by simp
    then show ?thesis using x by (auto simp: grp_def filter_empty_conv)
  qed (simp add: fps_facts(3) fmlookup_dom_iff)
  then have "mset (concat (map (\<lambda>k. grp k xs) (fps_of c))) = mset xs" by (intro grp_total fps_facts(2))
  then show ?thesis unfolding snapshot_entries(2) [OF assms, symmetric] map_map comp_def .
qed

lemma snapshot_counts:
  assumes "coll_inv xs c"
  shows "(\<Sum>e\<leftarrow>sn_entries (Snapshot c). unat (be_Observations e)) = length xs"
proof -
  have "map (\<lambda>e. unat (be_Observations e)) (sn_entries (Snapshot c)) =
      map (\<lambda>e. length (grp (be_FingerprintID e) xs)) (sn_entries (Snapshot c))"
    using snapshot_entry [OF assms] by (simp add: entry_rep_def)
  also have "sum_list \<dots> = length (concat (map (\<lambda>e. grp (be_FingerprintID e) xs) (sn_entries (Snapshot c))))"
    by (simp add: length_concat comp_def)
  also have "\<dots> = length xs" using arg_cong [OF snapshot_groups [OF assms], of size] by simp
  finally show ?thesis .
qed

subsection \<open>A stored snapshot is accepted\<close>

definition entry_ok :: "EnvironmentRef \<Rightarrow> BehaviorEntry \<Rightarrow> bool" where
  "entry_ok env e \<longleftrightarrow> validateBehaviorIdentity (be_FingerprintID e) (be_Behavior e) = None \<and> be_Observations e \<noteq> 0 \<and>
     validateOperationalSummary (be_Operational e) (be_Observations e) = None \<and>
     validateBehaviorFidelity (be_Fidelity e) (be_Observations e) = None \<and> sf_Environment (be_Behavior e) = env"

lemma restored_accepts:
  "(\<forall>e \<in> set es. entry_ok env e \<and> be_FingerprintID e \<notin> fps \<and> be_Behavior e \<notin> bs \<and>
     (\<forall>p. prev = Some p \<longrightarrow> p < be_FingerprintID e)) \<Longrightarrow>
   sorted_wrt (<) (map be_FingerprintID es) \<Longrightarrow> distinct (map be_Behavior es) \<Longrightarrow>
   unat n = unat seen + (\<Sum>e\<leftarrow>es. unat (be_Observations e)) \<Longrightarrow> restored_entries env prev fps bs seen es = Inr n"
proof (induction es arbitrary: prev fps bs seen)
  case (Cons e es)
  let ?seen = "seen + be_Observations e"
  have b: "unat seen + unat (be_Observations e) < 2 ^ 64"
    using Cons.prems(4) unsigned_less [of n, where 'a = nat] by simp
  then have s: "unat ?seen = unat seen + unat (be_Observations e)"
    by (simp add: unat_word_ariths)
  have room: "\<not> MaxUint64 - be_Observations e < seen"
    using b addCount_ex [of seen "be_Observations e"] by (auto simp: addCount_def split: if_splits)
  have "restored_entries env (Some (be_FingerprintID e)) (insert (be_FingerprintID e) fps) (insert (be_Behavior e) bs) ?seen es = Inr n"
  proof (rule Cons.IH)
    have "be_FingerprintID e < be_FingerprintID x \<and> be_Behavior x \<noteq> be_Behavior e" if "x \<in> set es" for x
      using Cons.prems(2,3) that by (auto simp: image_iff)
    then show "\<forall>x \<in> set es. entry_ok env x \<and> be_FingerprintID x \<notin> insert (be_FingerprintID e) fps \<and>
        be_Behavior x \<notin> insert (be_Behavior e) bs \<and> (\<forall>p. Some (be_FingerprintID e) = Some p \<longrightarrow> p < be_FingerprintID x)"
      using Cons.prems(1) by fastforce
    show "unat n = unat ?seen + (\<Sum>e\<leftarrow>es. unat (be_Observations e))" using Cons.prems(4) s by simp
  qed (use Cons.prems(2,3) in simp_all)
  moreover have "\<not> (case prev of None \<Rightarrow> False | Some p \<Rightarrow> be_FingerprintID e \<le> p)"
    using Cons.prems(1) by (auto split: option.split)
  ultimately show ?case using Cons.prems(1) room by (simp add: entry_ok_def)
qed (simp add: word_unat_eq_iff)

lemma snapshot_entry_ok:
  assumes inv: "coll_inv xs c" and e: "e \<in> set (sn_entries (Snapshot c))"
  shows "entry_ok (co_environment c) e"
proof -
  let ?g = "grp (be_FingerprintID e) xs"
  have g: "?g \<noteq> []" "entry_rep e ?g" using snapshot_entry [OF inv e] by auto
  have adm: "\<forall>x \<in> set ?g. x \<in> set xs \<and> admissible (co_environment c) x \<and> dr_FingerprintID (fst x) = be_FingerprintID e"
    using inv by (auto simp: grp_def coll_inv_def)
  obtain x where x: "x \<in> set ?g" using g(1) by (cases ?g) auto
  have "list_all (\<lambda>(f, l). validateFidelityPair f l = None) (pairs ?g)"
    using adm by (auto simp: pairs_def list_all_iff admissible_def OperationalFacts_Validate_def orElse_None_iff split: if_splits option.splits)
  then have "validateBehaviorFidelity (be_Fidelity e) (be_Observations e) = None"
    unfolding fidelity_exact using g(2) fold_fidelity_rep [OF fid_rep_zero, of "pairs ?g"]
    by (intro exI [of _ "pairs ?g"]) (simp add: entry_rep_def, simp add: pairs_def)
  moreover have "validateOperationalSummary (be_Operational e) (be_Observations e) = None"
    using g(2) by (intro summary_accepted [where xs = ?g]) (auto simp: entry_rep_def)
  moreover have "be_Observations e \<noteq> 0" using g by (auto simp: entry_rep_def)
  ultimately show ?thesis using x adm g(2) by (auto simp: entry_ok_def entry_rep_def admissible_def)
qed

lemma coll_binding: "coll_reach run xs c \<Longrightarrow> validateRunBinding run = None"
  by (induction rule: coll_reach.induct) (auto simp: NewBehaviorCollector_def split: option.splits)

lemma sorted_strict: "sorted xs \<Longrightarrow> distinct xs \<Longrightarrow> sorted_wrt (<) (xs :: string list)"
  by (simp add: strict_sorted_iff)

lemma restart_facts:
  assumes "coll_reach run xs c"
  shows "validateRestoredSnapshot (Snapshot c) (fmsize (co_entries c)) = None \<and>
    behaviorCollectorFromSnapshot (Snapshot c) = Inr c \<and> unat (sn_observations (Snapshot c)) = length xs"
proof -
  note inv = coll_reach_inv [OF assms]
  let ?s = "Snapshot c"
  have f: "sn_environment ?s = co_environment c" "sn_observations ?s = co_observations c" "unat (co_observations c) = length xs"
    using inv by (auto simp: coll_inv_def Snapshot_def)
  have n: "length (sn_entries ?s) = fmsize (co_entries c)"
    using snapshot_entries(1) [OF inv] by (simp add: fps_of_def fmsize_def fcard.rep_eq sorted_list_of_fset.rep_eq)
  have "first_error (map validateID [sn_runID ?s, sn_candidateID ?s, sn_environment ?s, sn_profile ?s]) = None"
    using inv coll_identity [OF assms] coll_binding [OF assms]
    by (simp add: coll_inv_def Snapshot_def validateRunBinding_def orElse_None_iff)
  moreover have "restored_entries (co_environment c) None {} {} 0 (sn_entries ?s) = Inr (co_observations c)"
    using snapshot_entry_ok [OF inv] snapshot_distinct [OF inv] snapshot_counts [OF inv] f(3)
    by (intro restored_accepts) (simp_all add: sorted_strict)
  ultimately have "validateRestoredSnapshot ?s (fmsize (co_entries c)) = None"
    using inv n f by (simp add: validateRestoredSnapshot_def coll_inv_def)
  then show ?thesis using snapshot_restores [OF inv] f by simp
qed

text \<open>C17. Whatever a collector has accepted and refused, its stored snapshot passes every check made before
  a store trusts it, and the collector rebuilt from it is the one that was stopped: a restart between
  two observations is invisible to everything observed or read afterwards.\<close>

theorem restart_continues_run:
  assumes "coll_reach run xs c"
  shows "validateRestoredSnapshot (Snapshot c) (fmsize (co_entries c)) = None \<and>
    behaviorCollectorFromSnapshot (Snapshot c) = Inr c \<and> unat (sn_observations (Snapshot c)) = length xs"
  by (rule restart_facts [OF assms])


subsection \<open>Summaries of a run\<close>

lemma sum_entries_rep:
  "list_all2 (\<lambda>e g. op_rep (be_Operational e) g) es gs \<Longrightarrow> op_rep t ys \<Longrightarrow>
   sum_entries t es = Inr u \<longleftrightarrow> op_rep u (ys @ concat gs)"
proof (induction es gs arbitrary: t ys rule: list_all2_induct)
  case Nil
  then show ?case using op_rep_unique by auto
next
  case (Cons e es g gs)
  have "sum_entries t (e # es) = Inr u \<longleftrightarrow> (\<exists>v. op_rep v (ys @ g) \<and> sum_entries v es = Inr u)"
    using op_rep_append [OF Cons.prems Cons.hyps(1)] by simp
  also have "\<dots> \<longleftrightarrow> op_rep u ((ys @ g) @ concat gs)" using Cons.IH op_rep_prefix [of u "ys @ g"] by blast
  finally show ?case by simp
qed

lemma run_sum:
  assumes inv: "coll_inv xs c"
  shows "sum_entries zeroOperational (sn_entries (Snapshot c)) = Inr u \<longleftrightarrow> op_rep u xs"
proof -
  let ?es = "sn_entries (Snapshot c)" and ?gs = "map (\<lambda>e. grp (be_FingerprintID e) xs) (sn_entries (Snapshot c))"
  note m = snapshot_groups [OF inv]
  have "list_all2 (\<lambda>e g. op_rep (be_Operational e) g) ?es ?gs"
    using snapshot_entry [OF inv] by (simp add: list.rel_map list.rel_refl_strong entry_rep_def)
  from sum_entries_rep [OF this op_rep_zero, of u] have "sum_entries zeroOperational ?es = Inr u \<longleftrightarrow> op_rep u (concat ?gs)" by simp
  also have "\<dots> \<longleftrightarrow> op_rep u xs" using op_rep_mset [OF m] op_rep_mset [OF m [symmetric]] by blast
  finally show ?thesis .
qed

text \<open>Adding up the operational summaries of a snapshot's behaviours gives exactly the summary of all the
  observations the collector accepted, and is refused exactly when that summary would overflow.\<close>

theorem run_summary_exact:
  assumes "coll_reach run xs c"
  shows "sum_entries zeroOperational (sn_entries (Snapshot c)) = Inr u \<longleftrightarrow> fold_operational zeroOperational xs = Inr u"
  unfolding fold_operational_iff by (rule run_sum [OF coll_reach_inv [OF assms]])


subsection \<open>Indexes of a snapshot\<close>

lemma fold_fmupd_lookup:
  "distinct (map f es) \<Longrightarrow> fmlookup (fold (\<lambda>e. fmupd (f e) (g e)) es m) k = Some v \<longleftrightarrow>
     (\<exists>e \<in> set es. f e = k \<and> g e = v) \<or> k \<notin> f ` set es \<and> fmlookup m k = Some v"
  by (induction es arbitrary: m) auto

lemma snapshot_index:
  assumes "coll_inv xs c"
  shows "index_ids (sn_entries (Snapshot c)) = co_entries c" and "index_behaviors (sn_entries (Snapshot c)) = co_byBehavior c"
proof -
  have ext: "m = n" if "\<And>k v. fmlookup m k = Some v \<longleftrightarrow> fmlookup n k = Some v" for m n :: "('k, 'v) fmap"
    using that by (intro fmap_ext) (metis not_None_eq)
  show "index_ids (sn_entries (Snapshot c)) = co_entries c"
    using snapshot_mem [OF assms] unfolding index_ids_def
    by (intro ext) (auto simp: fold_fmupd_lookup [OF snapshot_distinct(1) [OF assms]])
  have "fmlookup (co_byBehavior c) b = Some fp \<longleftrightarrow>
      (\<exists>e. (e \<in> set (sn_entries (Snapshot c)) \<and> be_FingerprintID e = fp) \<and> be_Behavior e = b)" for b fp
    using assms unfolding snapshot_mem [OF assms] coll_inv_def by blast
  then show "index_behaviors (sn_entries (Snapshot c)) = co_byBehavior c"
    unfolding index_behaviors_def
    by (intro ext) (auto simp: fold_fmupd_lookup [OF snapshot_distinct(2) [OF assms]])
qed


subsection \<open>The deltas of a diff\<close>

definition fps_in :: "op_obs list \<Rightarrow> string set" where
  "fps_in xs = (\<lambda>x. dr_FingerprintID (fst x)) ` set xs"

definition presence_of :: "op_obs list \<Rightarrow> op_obs list \<Rightarrow> string \<Rightarrow> BehaviorPresence" where
  "presence_of xs ys fp = (if fp \<notin> fps_in xs then BehaviorAdded else if fp \<notin> fps_in ys then BehaviorRemoved else BehaviorShared)"

lemma grp_empty_iff: "grp fp xs = [] \<longleftrightarrow> fp \<notin> fps_in xs"
  by (auto simp: grp_def fps_in_def filter_empty_conv)

lemma snapshot_fps:
  assumes "coll_inv xs c"
  shows "be_FingerprintID ` set (sn_entries (Snapshot c)) = fps_in xs"
proof -
  have "fp \<in> be_FingerprintID ` set (sn_entries (Snapshot c)) \<longleftrightarrow> fmlookup (co_entries c) fp \<noteq> None" for fp
    unfolding image_iff not_None_eq snapshot_mem [OF assms, symmetric] by blast
  moreover have "fmlookup (co_entries c) fp \<noteq> None \<longleftrightarrow> grp fp xs \<noteq> []" for fp using coll_entry [OF assms, of fp] by auto
  ultimately show ?thesis by (auto simp: grp_empty_iff)
qed

lemma snapshot_lookup_count:
  assumes "coll_inv xs c"
  shows "(case fmlookup (co_entries c) fp of None \<Rightarrow> 0 | Some e \<Rightarrow> unat (be_Observations e)) = length (grp fp xs)"
    and "fmlookup (co_entries c) fp = None \<longleftrightarrow> fp \<notin> fps_in xs"
  using coll_entry [OF assms, of fp]
  by (cases "fmlookup (co_entries c) fp"; auto simp: entry_rep_def grp_empty_iff)+


lemma snapshot_deltas_fps:
  assumes "coll_inv xs c" and "coll_inv ys d"
  shows "distinct (map de_FingerprintID (snapshot_deltas (Snapshot c) (Snapshot d)))"
    and "set (map de_FingerprintID (snapshot_deltas (Snapshot c) (Snapshot d))) = fps_in xs \<union> fps_in ys"
proof -
  let ?cs = "sn_entries (Snapshot c)" and ?ds = "sn_entries (Snapshot d)"
  have cand: "de_FingerprintID (candidate_delta m e) = be_FingerprintID e" for m e
    by (simp add: candidate_delta_def Let_def split: option.split)
  have ids: "map de_FingerprintID (snapshot_deltas (Snapshot c) (Snapshot d)) =
      map be_FingerprintID ?ds @ map be_FingerprintID (filter (\<lambda>e. be_FingerprintID e \<notin> fps_in ys) ?cs)"
    by (simp add: snapshot_deltas_def with_rates_def Let_def removed_delta_def cand snapshot_fps [OF assms(2)])
  show "distinct (map de_FingerprintID (snapshot_deltas (Snapshot c) (Snapshot d)))"
    unfolding ids using snapshot_distinct(1) [OF assms(1)] snapshot_distinct(1) [OF assms(2)] snapshot_fps [OF assms(2)]
    by (auto simp: distinct_map_filter)
  show "set (map de_FingerprintID (snapshot_deltas (Snapshot c) (Snapshot d))) = fps_in xs \<union> fps_in ys"
    unfolding ids using snapshot_fps [OF assms(1)] snapshot_fps [OF assms(2)] by auto
qed

lemma snapshot_delta:
  assumes "coll_inv xs c" and "coll_inv ys d" and "\<delta> \<in> set (snapshot_deltas (Snapshot c) (Snapshot d))"
  shows "unat (de_ReferenceCount \<delta>) = length (grp (de_FingerprintID \<delta>) xs) \<and>
    unat (de_CandidateCount \<delta>) = length (grp (de_FingerprintID \<delta>) ys) \<and>
    de_Presence \<delta> = presence_of xs ys (de_FingerprintID \<delta>)"
proof -
  let ?cs = "sn_entries (Snapshot c)" and ?ds = "sn_entries (Snapshot d)"
  consider (cand) e where "e \<in> set ?ds" "\<delta> = with_rates (sn_observations (Snapshot c)) (sn_observations (Snapshot d)) (candidate_delta (co_entries c) e)"
    | (removed) e where "e \<in> set ?cs" "be_FingerprintID e \<notin> fps_in ys"
      "\<delta> = with_rates (sn_observations (Snapshot c)) (sn_observations (Snapshot d)) (removed_delta e)"
    using assms(3) unfolding snapshot_deltas_def snapshot_index(1) [OF assms(1)] snapshot_fps [OF assms(2)] by auto
  then show ?thesis
  proof cases
    case cand
    have "unat (be_Observations e) = length (grp (be_FingerprintID e) ys)" "be_FingerprintID e \<in> fps_in ys"
      using snapshot_entry [OF assms(2) cand(1)] by (auto simp: entry_rep_def grp_empty_iff)
    then show ?thesis unfolding cand(2)
      using snapshot_lookup_count [OF assms(1), of "be_FingerprintID e"]
      by (auto simp: with_rates_def candidate_delta_def Let_def presence_of_def split: option.splits)
  next
    case removed
    then have "unat (be_Observations e) = length (grp (be_FingerprintID e) xs)" "be_FingerprintID e \<in> fps_in xs" "grp (be_FingerprintID e) ys = []"
      using snapshot_entry [OF assms(1) removed(1)] by (auto simp: entry_rep_def grp_empty_iff)
    then show ?thesis unfolding removed(3) using removed(2) by (simp add: with_rates_def removed_delta_def Let_def presence_of_def)
  qed
qed

lemma presence_counted:
  assumes "distinct (map de_FingerprintID ds)" and "\<And>\<delta>. \<delta> \<in> set ds \<Longrightarrow> de_Presence \<delta> = f (de_FingerprintID \<delta>)"
  shows "presence_count p ds = of_nat (card {k \<in> set (map de_FingerprintID ds). f k = p})"
    and "sort (map de_FingerprintID (filter (\<lambda>\<delta>. de_Presence \<delta> = p) ds)) = sorted_list_of_set {k \<in> set (map de_FingerprintID ds). f k = p}"
proof -
  let ?l = "map de_FingerprintID (filter (\<lambda>\<delta>. de_Presence \<delta> = p) ds)"
  have d: "distinct ?l" using assms(1) by (rule distinct_map_filter)
  have s: "set ?l = {k \<in> set (map de_FingerprintID ds). f k = p}" using assms(2) by auto
  show "presence_count p ds = of_nat (card {k \<in> set (map de_FingerprintID ds). f k = p})"
    unfolding s [symmetric] distinct_card [OF d] by (simp add: presence_count_def)
  show "sort ?l = sorted_list_of_set {k \<in> set (map de_FingerprintID ds). f k = p}"
    unfolding s [symmetric] using d by (metis distinct_remdups_id sorted_list_of_set_sort_remdups)
qed

lemma presence_sets:
  "{k \<in> fps_in xs \<union> fps_in ys. presence_of xs ys k = BehaviorAdded} = fps_in ys - fps_in xs"
  "{k \<in> fps_in xs \<union> fps_in ys. presence_of xs ys k = BehaviorRemoved} = fps_in xs - fps_in ys"
  "{k \<in> fps_in xs \<union> fps_in ys. presence_of xs ys k = BehaviorShared} = fps_in xs \<inter> fps_in ys"
  by (auto simp: presence_of_def presence_defs)

lemma diff_fields:
  assumes "CompareBehaviorSnapshots r s = Inr b"
  shows "bd_deltas b = sort_key de_FingerprintID (snapshot_deltas r s)"
    "bd_added b = presence_count BehaviorAdded (snapshot_deltas r s)"
    "bd_removed b = presence_count BehaviorRemoved (snapshot_deltas r s)"
    "bd_shared b = presence_count BehaviorShared (snapshot_deltas r s)"
    "bd_changes b = unfoldedChanges (addedIdentities (bd_deltas b))"
  using assms by (auto simp: CompareBehaviorSnapshots_def Let_def split: option.splits)

lemma diff_added:
  assumes "coll_reach rr xs c" and "coll_reach rc ys d" and "CompareBehaviorSnapshots (Snapshot c) (Snapshot d) = Inr b"
  shows "addedIdentities (bd_deltas b) = sorted_list_of_set (fps_in ys - fps_in xs)"
proof -
  note inv = coll_reach_inv [OF assms(1)] coll_reach_inv [OF assms(2)]
  show ?thesis
    using snapshot_deltas_fps [OF inv] presence_sets(1) presence_counted(2) [of "bd_deltas b" "presence_of xs ys"] snapshot_delta [OF inv]
    by (simp add: addedIdentities_def diff_fields(1) [OF assms(3)] distinct_map)
qed

text \<open>C18. A diff of two runs has one delta for every behaviour either run showed, in fingerprint order, with
  the number of times each run showed it and the presence that follows; its added, removed and shared
  counts are the sizes of those sets, and the behaviours it counts as changes are the added ones.\<close>

theorem diff_exact:
  assumes "coll_reach rr xs c" and "coll_reach rc ys d" and "CompareBehaviorSnapshots (Snapshot c) (Snapshot d) = Inr b"
  shows "map de_FingerprintID (bd_deltas b) = sorted_list_of_set (fps_in xs \<union> fps_in ys) \<and>
    (\<forall>\<delta> \<in> set (bd_deltas b). unat (de_ReferenceCount \<delta>) = length (grp (de_FingerprintID \<delta>) xs) \<and>
       unat (de_CandidateCount \<delta>) = length (grp (de_FingerprintID \<delta>) ys) \<and>
       de_Presence \<delta> = presence_of xs ys (de_FingerprintID \<delta>)) \<and>
    bd_added b = of_nat (card (fps_in ys - fps_in xs)) \<and> bd_removed b = of_nat (card (fps_in xs - fps_in ys)) \<and>
    bd_shared b = of_nat (card (fps_in xs \<inter> fps_in ys)) \<and>
    bd_changes b = unfoldedChanges (sorted_list_of_set (fps_in ys - fps_in xs))"
proof -
  note inv = coll_reach_inv [OF assms(1)] coll_reach_inv [OF assms(2)]
  let ?u = "snapshot_deltas (Snapshot c) (Snapshot d)"
  note fps = snapshot_deltas_fps [OF inv] and cnt = presence_counted [of ?u "presence_of xs ys"]
  note f = diff_fields [OF assms(3)]
  have "map de_FingerprintID (bd_deltas b) = sort (map de_FingerprintID ?u)"
    unfolding f(1) by (rule properties_for_sort [symmetric]) simp_all
  then have "map de_FingerprintID (bd_deltas b) = sorted_list_of_set (fps_in xs \<union> fps_in ys)"
    using fps by (metis distinct_remdups_id sorted_list_of_set_sort_remdups)
  then show ?thesis using f fps presence_sets cnt(1) snapshot_delta [OF inv] diff_added [OF assms] by simp
qed


subsection \<open>When two runs can be compared\<close>

lemma consistent_iff:
  "assertConsistentIdentity m b es = None \<longleftrightarrow>
     (\<forall>e \<in> set es. (\<forall>r. fmlookup m (be_FingerprintID e) = Some r \<longrightarrow> be_Behavior r = be_Behavior e) \<and>
        (\<forall>i. fmlookup b (be_Behavior e) = Some i \<longrightarrow> i = be_FingerprintID e))"
  by (induction es) (auto split: option.splits)

definition agree :: "op_obs \<Rightarrow> op_obs \<Rightarrow> bool" where
  "agree x y \<longleftrightarrow> (dr_FingerprintID (fst x) = dr_FingerprintID (fst y) \<longleftrightarrow> dr_Behavior (fst x) = dr_Behavior (fst y))"

lemma entry_obs:
  assumes "coll_inv xs c"
  shows "(\<exists>e \<in> set (sn_entries (Snapshot c)). be_FingerprintID e = fp \<and> be_Behavior e = b) \<longleftrightarrow>
    (\<exists>x \<in> set xs. dr_FingerprintID (fst x) = fp \<and> dr_Behavior (fst x) = b)" (is "?L \<longleftrightarrow> ?R")
proof
  assume ?L
  then obtain e where e: "e \<in> set (sn_entries (Snapshot c))" "be_FingerprintID e = fp" "be_Behavior e = b" by blast
  then obtain x where "x \<in> set (grp fp xs)" "dr_Behavior (fst x) = b"
    using snapshot_entry [OF assms e(1)] unfolding entry_rep_def by (metis hd_in_set)
  then show ?R by (auto simp: grp_def)
next
  assume ?R
  then obtain x where x: "x \<in> set (grp fp xs)" "dr_Behavior (fst x) = b" by (auto simp: grp_def)
  then obtain e where e: "fmlookup (co_entries c) fp = Some e"
    using coll_entry(1) [OF assms, of fp] by fastforce
  then have "be_Behavior e = b" using x coll_entry(2) [OF assms e] by (auto simp: entry_rep_def)
  then show ?L using e snapshot_mem [OF assms] by blast
qed

lemma cross_agree:
  "(\<forall>k b. (\<exists>y \<in> Y. f y = k \<and> g y = b) \<longrightarrow> (\<forall>b'. (\<exists>x \<in> X. f x = k \<and> g x = b') \<longrightarrow> b' = b) \<and> (\<forall>i. (\<exists>x \<in> X. f x = i \<and> g x = b) \<longrightarrow> i = k)) \<longleftrightarrow>
     (\<forall>x \<in> X. \<forall>y \<in> Y. f x = f y \<longleftrightarrow> g x = g y)"
  by (intro iffI ballI allI impI conjI; metis)

lemma by_key:
  "(\<forall>e \<in> E. (\<forall>r. m (f e) = Some r \<longrightarrow> h r = g e) \<and> (\<forall>i. n (g e) = Some i \<longrightarrow> i = f e)) \<longleftrightarrow>
   (\<forall>k b. (\<exists>e \<in> E. f e = k \<and> g e = b) \<longrightarrow> (\<forall>b'. (\<exists>r. m k = Some r \<and> h r = b') \<longrightarrow> b' = b) \<and> (\<forall>i. n b = Some i \<longrightarrow> i = k))"
  by (intro iffI ballI allI impI conjI; metis)

lemma consistent_agree:
  assumes "coll_inv xs c" and "coll_inv ys d"
  shows "assertConsistentIdentity (co_entries c) (co_byBehavior c) (sn_entries (Snapshot d)) = None \<longleftrightarrow>
    (\<forall>x \<in> set xs. \<forall>y \<in> set ys. agree x y)" (is "?L \<longleftrightarrow> ?R")
proof -
  let ?R' = "\<lambda>zs fp b. \<exists>x \<in> set zs. dr_FingerprintID (fst x) = fp \<and> dr_Behavior (fst x) = b"
  have ids: "(\<exists>r. fmlookup (co_entries c) fp = Some r \<and> be_Behavior r = b) \<longleftrightarrow> ?R' xs fp b" for fp b
    unfolding entry_obs [OF assms(1), symmetric] snapshot_mem [OF assms(1), symmetric] by blast
  have bs: "fmlookup (co_byBehavior c) b = Some fp \<longleftrightarrow> ?R' xs fp b" for fp b
    using assms(1) unfolding ids [symmetric] coll_inv_def by blast
  have "?L \<longleftrightarrow> (\<forall>fp b. (\<exists>e \<in> set (sn_entries (Snapshot d)). be_FingerprintID e = fp \<and> be_Behavior e = b) \<longrightarrow>
      (\<forall>b'. (\<exists>r. fmlookup (co_entries c) fp = Some r \<and> be_Behavior r = b') \<longrightarrow> b' = b) \<and>
      (\<forall>i. fmlookup (co_byBehavior c) b = Some i \<longrightarrow> i = fp))"
    unfolding consistent_iff by (rule by_key)
  also have "\<dots> \<longleftrightarrow> (\<forall>fp b. ?R' ys fp b \<longrightarrow> (\<forall>b'. ?R' xs fp b' \<longrightarrow> b' = b) \<and> (\<forall>i. ?R' xs i b \<longrightarrow> i = fp))"
    unfolding ids bs entry_obs [OF assms(2)] ..
  also have "\<dots> \<longleftrightarrow> ?R" unfolding agree_def by (rule cross_agree)
  finally show ?thesis .
qed

lemma addRun_iff:
  assumes "coll_inv xs c"
  shows "(\<exists>s. addRun zeroSide (sn_entries (Snapshot c)) = Inr s) \<longleftrightarrow> (\<exists>u. op_rep u xs)"
proof -
  have z: "side_sum zeroSide = zeroOperational" by (simp add: zeroSide_def)
  have s: "sum_entries zeroOperational (sn_entries (Snapshot c)) = Inr u \<longleftrightarrow> op_rep u xs" for u
    by (rule run_sum [OF assms])
  have a: "OperationalSummary_Add zeroOperational u = Inr u" if "op_rep u xs" for u
    using op_rep_append [OF op_rep_zero that] that by simp
  have "(\<exists>s. addRun zeroSide (sn_entries (Snapshot c)) = Inr s) \<longleftrightarrow>
      (\<exists>u. op_rep u xs \<and> (\<exists>v. OperationalSummary_Add zeroOperational u = Inr v))"
    unfolding addRun_def z by (simp add: s del: split_paired_Ex) blast
  then show ?thesis using a by blast
qed

lemma comparable_iff:
  assumes "coll_reach rr xs c" and "coll_reach rc ys d"
  shows "(\<exists>b. CompareBehaviorSnapshots (Snapshot c) (Snapshot d) = Inr b) \<longleftrightarrow>
    co_complete c \<and> co_complete d \<and> run_environment rr = run_environment rc \<and> (\<forall>x \<in> set xs. \<forall>y \<in> set ys. agree x y) \<and>
    (\<exists>u. fold_operational zeroOperational xs = Inr u) \<and> (\<exists>v. fold_operational zeroOperational ys = Inr v)"
proof -
  note inv = coll_reach_inv [OF assms(1)] coll_reach_inv [OF assms(2)]
  have b: "co_bound c" "co_bound d" using inv by (auto simp: coll_inv_def)
  have s: "check_snapshot (Snapshot e) = None \<longleftrightarrow> co_complete e" "sn_environment (Snapshot e) = co_environment e" if "co_bound e" for e
    using that by (auto simp: check_snapshot_def Snapshot_def)
  have "(\<exists>q. compareOperationalEntries (sn_entries (Snapshot c)) (sn_entries (Snapshot d)) = Inr q) \<longleftrightarrow> (\<exists>u. op_rep u xs) \<and> (\<exists>v. op_rep v ys)"
    unfolding addRun_iff [OF inv(1), symmetric] addRun_iff [OF inv(2), symmetric] by (auto simp: compareOperationalEntries_def)
  moreover have "(\<exists>b. CompareBehaviorSnapshots (Snapshot c) (Snapshot d) = Inr b) \<longleftrightarrow>
      check_snapshot (Snapshot c) = None \<and> check_snapshot (Snapshot d) = None \<and> sn_environment (Snapshot c) = sn_environment (Snapshot d) \<and>
      assertConsistentIdentity (co_entries c) (co_byBehavior c) (sn_entries (Snapshot d)) = None \<and>
      (\<exists>q. compareOperationalEntries (sn_entries (Snapshot c)) (sn_entries (Snapshot d)) = Inr q)"
    unfolding CompareBehaviorSnapshots_def snapshot_index [OF inv(1)] Let_def
    by (cases "check_snapshot (Snapshot c)"; cases "check_snapshot (Snapshot d)"; simp add: orElse_def split: option.split)
  ultimately show ?thesis
    using s [OF b(1)] s [OF b(2)] consistent_agree [OF inv] coll_identity [OF assms(1)] coll_identity [OF assms(2)]
    by (simp add: fold_operational_iff)
qed

text \<open>C35. Two runs can be compared exactly when both snapshots are complete, they were taken in one
  environment, the two runs use one fingerprint for one behaviour, and neither run's operational
  evidence overflows when it is added up.\<close>

theorem diff_defined:
  assumes "coll_reach rr xs c" and "coll_reach rc ys d"
  shows "(\<exists>b. CompareBehaviorSnapshots (Snapshot c) (Snapshot d) = Inr b) \<longleftrightarrow>
    co_complete c \<and> co_complete d \<and> run_environment rr = run_environment rc \<and> (\<forall>x \<in> set xs. \<forall>y \<in> set ys. agree x y) \<and>
    (\<exists>u. fold_operational zeroOperational xs = Inr u) \<and> (\<exists>v. fold_operational zeroOperational ys = Inr v)"
  by (rule comparable_iff [OF assms])

subsection \<open>Correlation\<close>

lemma correlation_ok:
  assumes "coll_reach rr xs c" and "coll_reach rc ys d" and "CompareBehaviorSnapshots (Snapshot c) (Snapshot d) = Inr b"
  shows "\<exists>changes st. WithCorrelation b obs h = Inr (b\<lparr>bd_changes := changes, bd_correlationState := st\<rparr>) \<and>
    (\<Union>x \<in> set changes. set (bc_ContributingFingerprintIDs x)) = fps_in ys - fps_in xs \<and>
    length changes \<le> card (fps_in ys - fps_in xs) \<and>
    (st \<noteq> CorrelationComplete \<longrightarrow> length changes = card (fps_in ys - fps_in xs))"
proof -
  let ?added = "addedIdentities (bd_deltas b)"
  obtain changes st where f: "foldAddedChanges ?added (buildBehaviorParentage obs) (correlationStateFor h) = (changes, st)"
    by fastforce
  have added: "?added = sorted_list_of_set (fps_in ys - fps_in xs)"
    by (rule diff_added [OF assms])
  then have d: "distinct ?added" "set ?added = fps_in ys - fps_in xs" by (simp_all add: fps_in_def)
  have n: "length ?added = card (fps_in ys - fps_in xs)" using distinct_card [OF d(1)] d(2) by simp
  note a = fold_arithmetic [OF d(1) f] and u = fold_unfolded [OF f]
  have "validateChangeCountArithmetic (int (length ?added)) (int (length changes)) = None"
    using a by (auto simp: validateChangeCountArithmetic_def)
  then have "WithCorrelation b obs h = Inr (b\<lparr>bd_changes := changes, bd_correlationState := st\<rparr>)"
    using f by (simp add: WithCorrelation_def)
  moreover have "length changes = length ?added" if "st \<noteq> CorrelationComplete"
    using u [OF that] by (simp add: unfoldedChanges_def)
  ultimately show ?thesis using a n fold_covers [OF d(1) f] d(2)
    by (intro exI [of _ changes] exI [of _ st]) auto
qed

text \<open>C36. Applying the retained observations to a diff never fails. It replaces the list of changes and the
  correlation state and leaves the rest of the diff as it was; the changes still cover exactly the
  added behaviours, are at most as many, and are as many when the correlation is not complete.\<close>

theorem correlation_total:
  assumes "coll_reach rr xs c" and "coll_reach rc ys d" and "CompareBehaviorSnapshots (Snapshot c) (Snapshot d) = Inr b"
  shows "\<exists>changes st. WithCorrelation b obs h = Inr (b\<lparr>bd_changes := changes, bd_correlationState := st\<rparr>) \<and>
    (\<Union>x \<in> set changes. set (bc_ContributingFingerprintIDs x)) = fps_in ys - fps_in xs \<and>
    length changes \<le> card (fps_in ys - fps_in xs) \<and>
    (st \<noteq> CorrelationComplete \<longrightarrow> length changes = card (fps_in ys - fps_in xs))"
  by (rule correlation_ok [OF assms])

end
