(* ===== verification/Platform_Scorecard.thy ===== *)
theory Platform_Scorecard
  imports Platform_Diff
begin

text \<open>
  Scorecards (\<^verbatim>\<open>platform/scorecard.go\<close>): two aggregates and their behavioural diff become
  one comparison, or are refused. A Go \<^verbatim>\<open>int\<close> is a signed 64-bit word.
\<close>

record EvidenceRate =
  er_count :: u64
  er_total :: u64

definition EvidenceRate_Value :: "EvidenceRate \<Rightarrow> f64 \<times> bool" where
  "EvidenceRate_Value r =
     (if er_total r = 0 then (f0, False) else (fdiv (f64_of_u64 (er_count r)) (f64_of_u64 (er_total r)), True))"

record RateComparison =
  rcmp_reference :: EvidenceRate
  rcmp_candidate :: EvidenceRate

definition RateComparison_Delta :: "RateComparison \<Rightarrow> f64 \<times> bool" where
  "RateComparison_Delta c =
     (let (ref, refOK) = EvidenceRate_Value (rcmp_reference c);
          (cand, candOK) = EvidenceRate_Value (rcmp_candidate c)
      in if \<not> refOK \<or> \<not> candOK then (f0, False) else (fsub cand ref, True))"

definition compareRates :: "u64 \<Rightarrow> u64 \<Rightarrow> u64 \<Rightarrow> u64 \<Rightarrow> RateComparison" where
  "compareRates referenceCount referenceTotal candidateCount candidateTotal =
     \<lparr>rcmp_reference = \<lparr>er_count = referenceCount, er_total = referenceTotal\<rparr>,
      rcmp_candidate = \<lparr>er_count = candidateCount, er_total = candidateTotal\<rparr>\<rparr>"

record DecisionComparison =
  dcmp_Allow :: RateComparison
  dcmp_ObserveOnly :: RateComparison
  dcmp_Alert :: RateComparison
  dcmp_Challenge :: RateComparison
  dcmp_RequireApproval :: RateComparison
  dcmp_Block :: RateComparison

record RiskComparison =
  rkcmp_Low :: RateComparison
  rkcmp_Medium :: RateComparison
  rkcmp_High :: RateComparison
  rkcmp_Critical :: RateComparison

record ApprovalComparison =
  apcmp_Unspecified :: RateComparison
  apcmp_NotRequired :: RateComparison
  apcmp_Required :: RateComparison
  apcmp_Approved :: RateComparison
  apcmp_Denied :: RateComparison

record PolicySelectionComparison =
  pscmp_MatchedRule :: RateComparison
  pscmp_MatchedDefault :: RateComparison

record MetricComparison =
  mcmp_reference :: MetricSummary
  mcmp_candidate :: MetricSummary

definition MetricComparison_MeanDelta :: "MetricComparison \<Rightarrow> f64 \<times> bool" where
  "MetricComparison_MeanDelta m =
     (let (ref, refOK) = MetricSummary_Mean (mcmp_reference m);
          (cand, candOK) = MetricSummary_Mean (mcmp_candidate m)
      in if \<not> refOK \<or> \<not> candOK then (f0, False) else (fsub cand ref, True))"

record MetricComparisons =
  mcs_IdentityConfidence :: MetricComparison
  mcs_AnomalyScore :: MetricComparison
  mcs_AnomalyConfidence :: MetricComparison
  mcs_TrustScore :: MetricComparison
  mcs_ContextRisk :: MetricComparison

record BehaviorSummary =
  bs_ReferenceDistinctCount :: i64
  bs_CandidateDistinctCount :: i64
  bs_AddedCount :: i64
  bs_RemovedCount :: i64
  bs_SharedCount :: i64
  bs_AddedChangeCount :: i64
  bs_CorrelationState :: string
  bs_CountingPolicyVersion :: string

definition behaviorRatio :: "i64 \<Rightarrow> i64 \<Rightarrow> f64 \<times> bool" where
  "behaviorRatio part whole =
     (if sint whole \<le> 0 then (f0, False) else (fdiv (f64_of_i64 part) (f64_of_i64 whole), True))"

definition AddedCandidateRate :: "BehaviorSummary \<Rightarrow> f64 \<times> bool" where
  "AddedCandidateRate s = behaviorRatio (bs_AddedCount s) (bs_CandidateDistinctCount s)"

definition RemovedReferenceRate :: "BehaviorSummary \<Rightarrow> f64 \<times> bool" where
  "RemovedReferenceRate s = behaviorRatio (bs_RemovedCount s) (bs_ReferenceDistinctCount s)"

definition PresenceOverlap :: "BehaviorSummary \<Rightarrow> f64 \<times> bool" where
  "PresenceOverlap s = behaviorRatio (bs_SharedCount s) (bs_AddedCount s + bs_RemovedCount s + bs_SharedCount s)"

record EvaluationScorecard =
  sk_bound :: bool
  sk_referenceRunID :: EvaluationRunID
  sk_referenceCandidate :: CandidateID
  sk_referenceProfile :: BehavioralProfileRef
  sk_referenceRecords :: u64
  sk_candidateRunID :: EvaluationRunID
  sk_candidateCandidate :: CandidateID
  sk_candidateProfile :: BehavioralProfileRef
  sk_candidateRecords :: u64
  sk_environment :: EnvironmentRef
  sk_decisions :: DecisionComparison
  sk_risks :: RiskComparison
  sk_approvals :: ApprovalComparison
  sk_policy :: PolicySelectionComparison
  sk_metrics :: MetricComparisons
  sk_behavior :: BehaviorSummary
  sk_operational :: OperationalComparison

subsection \<open>Validation of the evidence\<close>

definition validateAggregateEvidence :: "EvaluationAggregate \<Rightarrow> platform_error option" where
  "validateAggregateEvidence a =
     (if \<not> ag_bound a then Some ErrInvalidScorecardEvidence
      else if list_ex (\<lambda>t. t \<noteq> ag_recordCount a)
           [DecisionCounts_Total (ag_decisions a), RiskCounts_Total (ag_risks a),
            ApprovalCounts_Total (ag_approvals a), PolicySelection_Total (ag_policy a)]
        then Some ErrInvalidScorecardEvidence
      else if list_ex (\<lambda>m. ms_Count m \<noteq> ag_recordCount a)
           [ag_identityConfidence a, ag_anomalyScore a, ag_anomalyConfidence a, ag_trustScore a, ag_contextRisk a]
        then Some ErrInvalidScorecardEvidence
      else None)"

definition validateDiffEvidence :: "BehaviorDiff \<Rightarrow> platform_error option" where
  "validateDiffEvidence d =
     (if list_ex (\<lambda>v. v = '''')
           [bd_referenceRunID d, bd_referenceCandidateID d, bd_referenceProfile d, bd_candidateRunID d,
            bd_candidateCandidateID d, bd_candidateProfile d, bd_environment d]
      then Some ErrInvalidScorecardEvidence else None)"

definition assertSameComparison ::
  "EvaluationAggregate \<Rightarrow> EvaluationAggregate \<Rightarrow> BehaviorDiff \<Rightarrow> platform_error option" where
  "assertSameComparison reference candidate diff =
     (if list_ex (\<lambda>(aggregate, own). aggregate \<noteq> own)
           [(ag_runID reference, bd_referenceRunID diff),
            (ag_candidateID reference, bd_referenceCandidateID diff),
            (ag_profile reference, bd_referenceProfile diff),
            (ag_runID candidate, bd_candidateRunID diff),
            (ag_candidateID candidate, bd_candidateCandidateID diff),
            (ag_profile candidate, bd_candidateProfile diff)]
        then Some ErrScorecardEvidenceMismatch
      else if ag_environment reference \<noteq> ag_environment candidate \<or> ag_environment reference \<noteq> bd_environment diff
        then Some ErrScorecardEvidenceMismatch
      else if ag_recordCount reference \<noteq> bd_referenceObservations diff then Some ErrScorecardEvidenceMismatch
      else if ag_recordCount candidate \<noteq> bd_candidateObservations diff then Some ErrScorecardEvidenceMismatch
      else None)"

subsection \<open>Construction\<close>

definition scorecard_of ::
  "EvaluationAggregate \<Rightarrow> EvaluationAggregate \<Rightarrow> BehaviorDiff \<Rightarrow> EvaluationScorecard" where
  "scorecard_of reference candidate diff =
     (let refTotal = ag_recordCount reference; candTotal = ag_recordCount candidate;
          refDec = ag_decisions reference; candDec = ag_decisions candidate;
          refRisk = ag_risks reference; candRisk = ag_risks candidate;
          refApp = ag_approvals reference; candApp = ag_approvals candidate;
          refPol = ag_policy reference; candPol = ag_policy candidate;
          cmp = (\<lambda>r c. compareRates r refTotal c candTotal)
      in \<lparr>sk_bound = True,
          sk_referenceRunID = ag_runID reference, sk_referenceCandidate = ag_candidateID reference,
          sk_referenceProfile = ag_profile reference, sk_referenceRecords = refTotal,
          sk_candidateRunID = ag_runID candidate, sk_candidateCandidate = ag_candidateID candidate,
          sk_candidateProfile = ag_profile candidate, sk_candidateRecords = candTotal,
          sk_environment = ag_environment reference,
          sk_decisions =
            \<lparr>dcmp_Allow = cmp (dc_Allow refDec) (dc_Allow candDec),
             dcmp_ObserveOnly = cmp (dc_ObserveOnly refDec) (dc_ObserveOnly candDec),
             dcmp_Alert = cmp (dc_Alert refDec) (dc_Alert candDec),
             dcmp_Challenge = cmp (dc_Challenge refDec) (dc_Challenge candDec),
             dcmp_RequireApproval = cmp (dc_RequireApproval refDec) (dc_RequireApproval candDec),
             dcmp_Block = cmp (dc_Block refDec) (dc_Block candDec)\<rparr>,
          sk_risks =
            \<lparr>rkcmp_Low = cmp (rc_Low refRisk) (rc_Low candRisk),
             rkcmp_Medium = cmp (rc_Medium refRisk) (rc_Medium candRisk),
             rkcmp_High = cmp (rc_High refRisk) (rc_High candRisk),
             rkcmp_Critical = cmp (rc_Critical refRisk) (rc_Critical candRisk)\<rparr>,
          sk_approvals =
            \<lparr>apcmp_Unspecified = cmp (apc_Unspecified refApp) (apc_Unspecified candApp),
             apcmp_NotRequired = cmp (apc_NotRequired refApp) (apc_NotRequired candApp),
             apcmp_Required = cmp (apc_Required refApp) (apc_Required candApp),
             apcmp_Approved = cmp (apc_Approved refApp) (apc_Approved candApp),
             apcmp_Denied = cmp (apc_Denied refApp) (apc_Denied candApp)\<rparr>,
          sk_policy =
            \<lparr>pscmp_MatchedRule = cmp (ps_MatchedRule refPol) (ps_MatchedRule candPol),
             pscmp_MatchedDefault = cmp (ps_MatchedDefault refPol) (ps_MatchedDefault candPol)\<rparr>,
          sk_metrics =
            \<lparr>mcs_IdentityConfidence = \<lparr>mcmp_reference = ag_identityConfidence reference,
                                       mcmp_candidate = ag_identityConfidence candidate\<rparr>,
             mcs_AnomalyScore = \<lparr>mcmp_reference = ag_anomalyScore reference,
                                 mcmp_candidate = ag_anomalyScore candidate\<rparr>,
             mcs_AnomalyConfidence = \<lparr>mcmp_reference = ag_anomalyConfidence reference,
                                      mcmp_candidate = ag_anomalyConfidence candidate\<rparr>,
             mcs_TrustScore = \<lparr>mcmp_reference = ag_trustScore reference,
                               mcmp_candidate = ag_trustScore candidate\<rparr>,
             mcs_ContextRisk = \<lparr>mcmp_reference = ag_contextRisk reference,
                                mcmp_candidate = ag_contextRisk candidate\<rparr>\<rparr>,
          sk_behavior =
            \<lparr>bs_ReferenceDistinctCount = bd_referenceDistinctCount diff,
             bs_CandidateDistinctCount = bd_candidateDistinctCount diff,
             bs_AddedCount = bd_added diff, bs_RemovedCount = bd_removed diff, bs_SharedCount = bd_shared diff,
             bs_AddedChangeCount = BehaviorDiff_AddedChangeCount diff,
             bs_CorrelationState = BehaviorDiff_CorrelationState diff,
             bs_CountingPolicyVersion = CountingPolicyVersion\<rparr>,
          sk_operational = bd_operational diff\<rparr>)"

definition NewEvaluationScorecard ::
  "EvaluationAggregate \<Rightarrow> EvaluationAggregate \<Rightarrow> BehaviorDiff \<Rightarrow>
   platform_error + EvaluationScorecard" where
  "NewEvaluationScorecard reference candidate diff =
     (case orElse (validateAggregateEvidence reference)
             (orElse (validateAggregateEvidence candidate)
               (orElse (validateDiffEvidence diff) (assertSameComparison reference candidate diff))) of
        Some e \<Rightarrow> Inl e
      | None \<Rightarrow> Inr (scorecard_of reference candidate diff))"

subsection \<open>What a scorecard guarantees\<close>

lemma case_guard_Inr: "(case x of None \<Rightarrow> Inr y | Some e \<Rightarrow> Inl e) = Inr s \<longleftrightarrow> x = None \<and> s = y"
  by (cases x) auto

lemma scorecard_Inr:
  "NewEvaluationScorecard reference candidate diff = Inr sk \<longleftrightarrow>
     validateAggregateEvidence reference = None \<and> validateAggregateEvidence candidate = None \<and>
     validateDiffEvidence diff = None \<and> assertSameComparison reference candidate diff = None \<and>
     sk = scorecard_of reference candidate diff"
  unfolding NewEvaluationScorecard_def case_guard_Inr orElse_None_iff by auto

lemma reachable_evidence: "agg_reach run rs a \<Longrightarrow> validateAggregateEvidence a = None"
proof -
  assume r: "agg_reach run rs a"
  have inv: "counts_inv rs a" "metrics_inv rs a" using agg_reach_inv [OF r] by auto
  have n: "ag_recordCount a = of_nat (length rs)" using inv(1) by (intro word_of_unat_sum) (simp add: counts_inv_def)
  have c: "ms_Count m = ag_recordCount a" if "metric_rep m (map f rs)" for m and f :: "DecisionRecord \<Rightarrow> f64"
    using that n by (auto simp: metric_rep_def intro: word_of_unat_sum)
  have metrics: "ms_Count (ag_identityConfidence a) = ag_recordCount a" "ms_Count (ag_anomalyScore a) = ag_recordCount a"
    "ms_Count (ag_anomalyConfidence a) = ag_recordCount a" "ms_Count (ag_trustScore a) = ag_recordCount a"
    "ms_Count (ag_contextRisk a) = ag_recordCount a"
    using inv(2) by (auto simp: metrics_inv_def intro: c)
  have "decisions_rep (ag_decisions a) (map dr_Decision rs)" "risks_rep (ag_risks a) (map dr_RiskLevel rs)"
    "approvals_rep (ag_approvals a) (map dr_ApprovalStatus rs)" "policy_rep (ag_policy a) (map dr_MatchedDefault rs)"
    "ag_bound a"
    using inv(1) by (auto simp: counts_inv_def)
  then show ?thesis
    using metrics decisions_total risks_total approvals_total policy_total n
    by (simp add: validateAggregateEvidence_def)
qed

text \<open>Two aggregates of record streams and a diff that names their runs,
  candidates, profiles and common environment and saw as many observations always give a scorecard:
  the internal consistency checks never refuse evidence the aggregation produced.\<close>

theorem scorecard_accepts_matching_evidence:
  assumes "agg_reach rrun rrs ref" and "agg_reach crun crs cand"
    and "run_environment rrun = run_environment crun"
    and "bd_referenceRunID diff = run_id rrun" and "bd_referenceCandidateID diff = run_candidateID rrun"
    and "bd_referenceProfile diff = run_profile rrun" and "bd_candidateRunID diff = run_id crun"
    and "bd_candidateCandidateID diff = run_candidateID crun" and "bd_candidateProfile diff = run_profile crun"
    and "bd_environment diff = run_environment rrun"
    and "bd_referenceObservations diff = ag_recordCount ref" and "bd_candidateObservations diff = ag_recordCount cand"
  shows "NewEvaluationScorecard ref cand diff = Inr (scorecard_of ref cand diff)"
proof -
  have nonempty: "run_id run \<noteq> '''' \<and> run_candidateID run \<noteq> '''' \<and> run_environment run \<noteq> '''' \<and> run_profile run \<noteq> ''''"
    if "agg_reach run rs a" for run rs a
    using that
    by (induction rule: agg_reach.induct)
      (auto simp: NewEvaluationAggregate_def validateRunBinding_def validateID_def split: option.splits if_splits)
  have "validateDiffEvidence diff = None"
    using assms nonempty [OF assms(1)] nonempty [OF assms(2)] by (simp add: validateDiffEvidence_def)
  moreover have "assertSameComparison ref cand diff = None"
    using assms agg_reach_identity [OF assms(1)] agg_reach_identity [OF assms(2)]
    by (simp add: assertSameComparison_def)
  ultimately show ?thesis
    using reachable_evidence [OF assms(1)] reachable_evidence [OF assms(2)] by (simp add: scorecard_Inr)
qed

text \<open>A scorecard exists only for evidence of one comparison: bound
  aggregates, each matching its own side of the diff, one environment, and the same number of
  observations on both evidence paths; its rates are the counts over those totals.\<close>

theorem scorecard_refuses_partial_views:
  assumes "NewEvaluationScorecard reference candidate diff = Inr sk"
  shows "ag_bound reference \<and> ag_bound candidate \<and> sk_bound sk \<and>
    ag_environment reference = ag_environment candidate \<and> sk_environment sk = bd_environment diff \<and>
    sk_referenceRecords sk = bd_referenceObservations diff \<and>
    sk_candidateRecords sk = bd_candidateObservations diff \<and>
    sk_referenceRunID sk = bd_referenceRunID diff \<and> sk_candidateRunID sk = bd_candidateRunID diff \<and>
    er_count (rcmp_candidate (dcmp_Block (sk_decisions sk))) = dc_Block (ag_decisions candidate) \<and>
    er_total (rcmp_candidate (dcmp_Block (sk_decisions sk))) = sk_candidateRecords sk \<and>
    DecisionCounts_Total (ag_decisions candidate) = sk_candidateRecords sk"
  using assms unfolding scorecard_Inr
  by (simp add: validateAggregateEvidence_def validateDiffEvidence_def assertSameComparison_def scorecard_of_def
      compareRates_def Let_def split: if_splits)

end
