(* ===== verification/Platform_Gate.thy ===== *)
theory Platform_Gate
  imports Platform_Scorecard
begin

text \<open>
  Hard gates (\<^verbatim>\<open>platform/gate.go\<close>): a scorecard against caller-owned limits. Every
  comparison is of unsigned counts; the behaviour counts arrive as signed words, and the checks in
  front of their conversion are what the theorems are about.
\<close>

type_synonym GateVerdict = string

definition GateVerdictPass :: GateVerdict where "GateVerdictPass = ''pass''"
definition GateVerdictFail :: GateVerdict where "GateVerdictFail = ''fail''"

record OptionalGateLimit =
  ol_maximum :: u64
  ol_set :: bool

definition NewOptionalGateLimit :: "u64 \<Rightarrow> OptionalGateLimit" where
  "NewOptionalGateLimit m = \<lparr>ol_maximum = m, ol_set = True\<rparr>"

definition unsetLimit :: OptionalGateLimit where
  "unsetLimit = \<lparr>ol_maximum = 0, ol_set = False\<rparr>"

record EvaluationGateLimits =
  gl_MaxAddedBehaviors :: u64
  gl_MaxBlockDecisions :: u64
  gl_MaxCriticalRiskObservations :: u64
  gl_MaxAddedBehaviorChanges :: OptionalGateLimit

record EvaluationGatePolicy =
  gp_bound :: bool
  gp_limits :: EvaluationGateLimits

definition NewEvaluationGatePolicy :: "EvaluationGateLimits \<Rightarrow> EvaluationGatePolicy" where
  "NewEvaluationGatePolicy limits = \<lparr>gp_bound = True, gp_limits = limits\<rparr>"

type_synonym GateCheckState = string

definition GateCheckEvaluated :: GateCheckState where "GateCheckEvaluated = ''evaluated''"
definition GateCheckNotEvaluated :: GateCheckState where "GateCheckNotEvaluated = ''not_evaluated''"
definition GateCheckNotRecorded :: GateCheckState where "GateCheckNotRecorded = ''not_recorded''"

definition GateCheckState_valid :: "GateCheckState \<Rightarrow> bool" where
  "GateCheckState_valid s = List.member [GateCheckEvaluated, GateCheckNotEvaluated, GateCheckNotRecorded] s"

record ChangeCountGate =
  cg_State :: GateCheckState
  cg_Actual :: u64
  cg_Maximum :: u64
  cg_Passed :: bool
  cg_CorrelationState :: string
  cg_CountingPolicyVersion :: string

definition emptyChangeGate :: "GateCheckState \<Rightarrow> ChangeCountGate" where
  "emptyChangeGate st = \<lparr>cg_State = st, cg_Actual = 0, cg_Maximum = 0, cg_Passed = False,
     cg_CorrelationState = '''', cg_CountingPolicyVersion = ''''\<rparr>"

definition ChangeCountGate_Evaluated :: "ChangeCountGate \<Rightarrow> bool" where
  "ChangeCountGate_Evaluated g = (cg_State g = GateCheckEvaluated)"

record MinimumCountGate =
  mig_Actual :: u64
  mig_Minimum :: u64
  mig_Passed :: bool

record MaximumCountGate =
  mag_Actual :: u64
  mag_Maximum :: u64
  mag_Passed :: bool

definition minimumGate :: "u64 \<Rightarrow> u64 \<Rightarrow> MinimumCountGate" where
  "minimumGate actual minimum = \<lparr>mig_Actual = actual, mig_Minimum = minimum, mig_Passed = (minimum \<le> actual)\<rparr>"

definition maximumGate :: "u64 \<Rightarrow> u64 \<Rightarrow> MaximumCountGate" where
  "maximumGate actual maximum = \<lparr>mag_Actual = actual, mag_Maximum = maximum, mag_Passed = (actual \<le> maximum)\<rparr>"

record EvaluationGateResult =
  gr_bound :: bool
  gr_referenceRunID :: EvaluationRunID
  gr_referenceCandidate :: CandidateID
  gr_candidateRunID :: EvaluationRunID
  gr_candidateCandidate :: CandidateID
  gr_environment :: EnvironmentRef
  gr_referenceEvidence :: MinimumCountGate
  gr_candidateEvidence :: MinimumCountGate
  gr_addedBehaviors :: MaximumCountGate
  gr_blockDecisions :: MaximumCountGate
  gr_criticalRiskObservations :: MaximumCountGate
  gr_addedBehaviorChanges :: ChangeCountGate
  gr_verdict :: GateVerdict

definition validateBehaviorSummaryArithmetic :: "BehaviorSummary \<Rightarrow> platform_error option" where
  "validateBehaviorSummaryArithmetic s =
     (if sint (bs_AddedCount s) < 0 \<or> sint (bs_RemovedCount s) < 0 \<or> sint (bs_SharedCount s) < 0
         \<or> sint (bs_ReferenceDistinctCount s) < 0 \<or> sint (bs_CandidateDistinctCount s) < 0
        then Some ErrInvalidGateEvidence
      else if bs_AddedCount s + bs_SharedCount s \<noteq> bs_CandidateDistinctCount s then Some ErrInvalidGateEvidence
      else if bs_RemovedCount s + bs_SharedCount s \<noteq> bs_ReferenceDistinctCount s then Some ErrInvalidGateEvidence
      else None)"

definition validateChangeCountEvidence :: "BehaviorSummary \<Rightarrow> platform_error option" where
  "validateChangeCountEvidence s =
     (let changes = bs_AddedChangeCount s; added = bs_AddedCount s in
      if sint changes < 0 then Some ErrInvalidGateEvidence
      else if sint added < sint changes then Some ErrInvalidGateEvidence
      else if 0 < sint added \<and> changes = 0 then Some ErrInvalidGateEvidence
      else if bs_CorrelationState s = CorrelationComplete
        then (if bs_CountingPolicyVersion s = '''' then Some ErrInvalidGateEvidence else None)
      else if bs_CorrelationState s = CorrelationPartial \<or> bs_CorrelationState s = CorrelationUnavailable
        then (if changes \<noteq> added then Some ErrInvalidGateEvidence
              else if bs_CountingPolicyVersion s = '''' then Some ErrInvalidGateEvidence else None)
      else Some ErrInvalidGateEvidence)"

definition changeGate :: "BehaviorSummary \<Rightarrow> OptionalGateLimit \<Rightarrow> ChangeCountGate" where
  "changeGate behavior limit =
     (if ol_set limit
      then let actual = bs_AddedChangeCount behavior in
        \<lparr>cg_State = GateCheckEvaluated, cg_Actual = actual, cg_Maximum = ol_maximum limit,
         cg_Passed = (actual \<le> ol_maximum limit), cg_CorrelationState = bs_CorrelationState behavior,
         cg_CountingPolicyVersion = bs_CountingPolicyVersion behavior\<rparr>
      else emptyChangeGate GateCheckNotEvaluated)"

definition gateResult :: "EvaluationScorecard \<Rightarrow> EvaluationGateLimits \<Rightarrow> EvaluationGateResult" where
  "gateResult scorecard limits =
     (let behavior = sk_behavior scorecard;
          referenceEvidence = minimumGate (sk_referenceRecords scorecard) 1;
          candidateEvidence = minimumGate (sk_candidateRecords scorecard) 1;
          addedBehaviors = maximumGate (bs_AddedCount behavior) (gl_MaxAddedBehaviors limits);
          blockDecisions = maximumGate (er_count (rcmp_candidate (dcmp_Block (sk_decisions scorecard))))
                             (gl_MaxBlockDecisions limits);
          criticalRisk = maximumGate (er_count (rcmp_candidate (rkcmp_Critical (sk_risks scorecard))))
                           (gl_MaxCriticalRiskObservations limits);
          changes = changeGate behavior (gl_MaxAddedBehaviorChanges limits);
          verdict = (if mig_Passed referenceEvidence \<and> mig_Passed candidateEvidence \<and> mag_Passed addedBehaviors
                        \<and> mag_Passed blockDecisions \<and> mag_Passed criticalRisk
                        \<and> (\<not> ChangeCountGate_Evaluated changes \<or> cg_Passed changes)
                     then GateVerdictPass else GateVerdictFail)
      in \<lparr>gr_bound = True, gr_referenceRunID = sk_referenceRunID scorecard,
          gr_referenceCandidate = sk_referenceCandidate scorecard, gr_candidateRunID = sk_candidateRunID scorecard,
          gr_candidateCandidate = sk_candidateCandidate scorecard, gr_environment = sk_environment scorecard,
          gr_referenceEvidence = referenceEvidence, gr_candidateEvidence = candidateEvidence,
          gr_addedBehaviors = addedBehaviors, gr_blockDecisions = blockDecisions,
          gr_criticalRiskObservations = criticalRisk, gr_addedBehaviorChanges = changes, gr_verdict = verdict\<rparr>)"

definition EvaluateEvaluationGate ::
  "EvaluationScorecard \<Rightarrow> EvaluationGatePolicy \<Rightarrow> platform_error + EvaluationGateResult" where
  "EvaluateEvaluationGate scorecard policy =
     (if \<not> gp_bound policy then Inl ErrInvalidGatePolicy
      else if \<not> sk_bound scorecard then Inl ErrInvalidGateEvidence
      else case validateBehaviorSummaryArithmetic (sk_behavior scorecard) of
        Some e \<Rightarrow> Inl e
      | None \<Rightarrow>
          (case (if ol_set (gl_MaxAddedBehaviorChanges (gp_limits policy))
                 then validateChangeCountEvidence (sk_behavior scorecard) else None) of
             Some e \<Rightarrow> Inl e
           | None \<Rightarrow> Inr (gateResult scorecard (gp_limits policy))))"

definition validateStoredChangeGate :: "ChangeCountGate \<Rightarrow> platform_error option" where
  "validateStoredChangeGate g =
     (if \<not> GateCheckState_valid (cg_State g) then Some ErrInvalidGateEvidence
      else if ChangeCountGate_Evaluated g
        then (if \<not> List.member [CorrelationComplete, CorrelationPartial, CorrelationUnavailable] (cg_CorrelationState g)
                then Some ErrInvalidGateEvidence
              else if cg_CountingPolicyVersion g = '''' then Some ErrInvalidGateEvidence
              else None)
      else if g \<noteq> emptyChangeGate (cg_State g) then Some ErrInvalidGateEvidence
      else None)"

definition restoreEvaluationGateResult ::
  "EvaluationRunID \<Rightarrow> CandidateID \<Rightarrow> EvaluationRunID \<Rightarrow> CandidateID \<Rightarrow> EnvironmentRef \<Rightarrow>
   MinimumCountGate \<Rightarrow> MinimumCountGate \<Rightarrow> MaximumCountGate \<Rightarrow> MaximumCountGate \<Rightarrow> MaximumCountGate \<Rightarrow>
   ChangeCountGate \<Rightarrow> GateVerdict \<Rightarrow> platform_error + EvaluationGateResult" where
  "restoreEvaluationGateResult refRun refCand candRun candCand env refEv candEv added block critical changes verdict =
     (if verdict \<noteq> GateVerdictPass \<and> verdict \<noteq> GateVerdictFail then Inl ErrInvalidGateEvidence
      else case validateStoredChangeGate changes of
        Some e \<Rightarrow> Inl e
      | None \<Rightarrow>
          Inr \<lparr>gr_bound = True, gr_referenceRunID = refRun, gr_referenceCandidate = refCand,
               gr_candidateRunID = candRun, gr_candidateCandidate = candCand, gr_environment = env,
               gr_referenceEvidence = refEv, gr_candidateEvidence = candEv, gr_addedBehaviors = added,
               gr_blockDecisions = block, gr_criticalRiskObservations = critical,
               gr_addedBehaviorChanges = changes, gr_verdict = verdict\<rparr>)"

definition restore_of :: "EvaluationGateResult \<Rightarrow> platform_error + EvaluationGateResult" where
  "restore_of r = restoreEvaluationGateResult (gr_referenceRunID r) (gr_referenceCandidate r) (gr_candidateRunID r)
     (gr_candidateCandidate r) (gr_environment r) (gr_referenceEvidence r) (gr_candidateEvidence r)
     (gr_addedBehaviors r) (gr_blockDecisions r) (gr_criticalRiskObservations r) (gr_addedBehaviorChanges r)
     (gr_verdict r)"

subsection \<open>Signed counts\<close>

lemma sint_unat: "sint x = int (unat x)" if nonneg: "0 \<le> sint (x :: i64)"
proof -
  have "sint x < 2 ^ 63" using sint_less [of x] by simp
  then have "take_bit 64 (sint x) = sint x" using nonneg by (intro take_bit_int_eq_self) auto
  then show ?thesis using uint_sint [of x] by simp
qed

lemma sint_unat_bound: "unat x < 2 ^ 63" if nonneg: "0 \<le> sint (x :: i64)"
proof -
  have "sint x < int (2 ^ 63)" using sint_less [of x] by simp
  then show ?thesis by (simp only: sint_unat [OF nonneg] of_nat_less_iff)
qed

lemma nonneg_add_exact:
  assumes "0 \<le> sint (a :: i64)" and "0 \<le> sint b" and "0 \<le> sint c" and "a + b = c"
  shows "unat a + unat b = unat c"
proof -
  have "unat a + unat b < 2 ^ LENGTH(64)"
    using sint_unat_bound [OF assms(1)] sint_unat_bound [OF assms(2)] by simp
  then have "unat (a + b) = unat a + unat b" by (rule unat_add_lem [THEN iffD1])
  then show ?thesis using assms(4) by simp
qed

subsection \<open>Evaluation of the gate\<close>

lemma gate_Inr:
  "EvaluateEvaluationGate scorecard policy = Inr r \<longleftrightarrow>
     gp_bound policy \<and> sk_bound scorecard \<and> validateBehaviorSummaryArithmetic (sk_behavior scorecard) = None \<and>
     (ol_set (gl_MaxAddedBehaviorChanges (gp_limits policy)) \<longrightarrow>
        validateChangeCountEvidence (sk_behavior scorecard) = None) \<and>
     r = gateResult scorecard (gp_limits policy)"
  by (auto simp: EvaluateEvaluationGate_def split: option.split if_splits)

lemma arithmetic_None:
  assumes "validateBehaviorSummaryArithmetic s = None"
  shows "0 \<le> sint (bs_AddedCount s) \<and> 0 \<le> sint (bs_RemovedCount s) \<and> 0 \<le> sint (bs_SharedCount s) \<and>
     0 \<le> sint (bs_ReferenceDistinctCount s) \<and> 0 \<le> sint (bs_CandidateDistinctCount s) \<and>
     bs_AddedCount s + bs_SharedCount s = bs_CandidateDistinctCount s \<and>
     bs_RemovedCount s + bs_SharedCount s = bs_ReferenceDistinctCount s"
  using assms by (simp add: validateBehaviorSummaryArithmetic_def split: if_splits)

lemma change_count_None:
  assumes "validateChangeCountEvidence s = None"
  shows "0 \<le> sint (bs_AddedChangeCount s) \<and> sint (bs_AddedChangeCount s) \<le> sint (bs_AddedCount s) \<and>
     (0 < sint (bs_AddedCount s) \<longrightarrow> bs_AddedChangeCount s \<noteq> 0) \<and> bs_CountingPolicyVersion s \<noteq> '''' \<and>
     List.member [CorrelationComplete, CorrelationPartial, CorrelationUnavailable] (bs_CorrelationState s)"
  using assms by (auto simp: validateChangeCountEvidence_def Let_def split: if_splits)

lemma verdict_pass:
  "gr_verdict (gateResult scorecard limits) = GateVerdictPass \<longleftrightarrow>
     1 \<le> sk_referenceRecords scorecard \<and> 1 \<le> sk_candidateRecords scorecard \<and>
     bs_AddedCount (sk_behavior scorecard) \<le> gl_MaxAddedBehaviors limits \<and>
     er_count (rcmp_candidate (dcmp_Block (sk_decisions scorecard))) \<le> gl_MaxBlockDecisions limits \<and>
     er_count (rcmp_candidate (rkcmp_Critical (sk_risks scorecard))) \<le> gl_MaxCriticalRiskObservations limits \<and>
     (ol_set (gl_MaxAddedBehaviorChanges limits) \<longrightarrow>
        bs_AddedChangeCount (sk_behavior scorecard) \<le> ol_maximum (gl_MaxAddedBehaviorChanges limits))"
  by (simp add: gateResult_def Let_def minimumGate_def maximumGate_def changeGate_def emptyChangeGate_def
      ChangeCountGate_Evaluated_def GateCheckEvaluated_def GateCheckNotEvaluated_def GateVerdictPass_def
      GateVerdictFail_def)

lemma verdict_values: "gr_verdict (gateResult scorecard limits) \<in> {GateVerdictPass, GateVerdictFail}"
  by (simp add: gateResult_def Let_def)

lemma le_word_unat: "0 \<le> sint (x :: i64) \<Longrightarrow> x \<le> (m :: u64) \<longleftrightarrow> sint x \<le> int (unat m)"
  by (simp only: sint_unat word_le_nat_alt of_nat_le_iff)

lemma one_le_word: "1 \<le> (x :: u64) \<longleftrightarrow> 0 < unat x"
  by (simp add: word_le_nat_alt Suc_le_eq)

text \<open>C14. Whatever the gate evaluates, its verdict is Pass exactly when both runs have a record
  and every count, read as the signed integer the evidence carries, is within its limit; the change
  limit takes part only when set. The arithmetic the evidence must satisfy holds over the integers,
  so neither the signed sums nor the conversion to an unsigned count has wrapped.\<close>

theorem gate_verdict_exact:
  assumes "EvaluateEvaluationGate scorecard policy = Inr r"
  shows "(gr_verdict r = GateVerdictPass \<longleftrightarrow>
       0 < unat (sk_referenceRecords scorecard) \<and> 0 < unat (sk_candidateRecords scorecard) \<and>
       sint (bs_AddedCount (sk_behavior scorecard)) \<le> int (unat (gl_MaxAddedBehaviors (gp_limits policy))) \<and>
       unat (er_count (rcmp_candidate (dcmp_Block (sk_decisions scorecard))))
         \<le> unat (gl_MaxBlockDecisions (gp_limits policy)) \<and>
       unat (er_count (rcmp_candidate (rkcmp_Critical (sk_risks scorecard))))
         \<le> unat (gl_MaxCriticalRiskObservations (gp_limits policy)) \<and>
       (ol_set (gl_MaxAddedBehaviorChanges (gp_limits policy)) \<longrightarrow>
          sint (bs_AddedChangeCount (sk_behavior scorecard))
            \<le> int (unat (ol_maximum (gl_MaxAddedBehaviorChanges (gp_limits policy)))))) \<and>
     (gr_verdict r = GateVerdictPass \<or> gr_verdict r = GateVerdictFail) \<and>
     sint (bs_AddedCount (sk_behavior scorecard)) + sint (bs_SharedCount (sk_behavior scorecard))
       = sint (bs_CandidateDistinctCount (sk_behavior scorecard)) \<and>
     sint (bs_RemovedCount (sk_behavior scorecard)) + sint (bs_SharedCount (sk_behavior scorecard))
       = sint (bs_ReferenceDistinctCount (sk_behavior scorecard)) \<and>
     int (unat (mag_Actual (gr_addedBehaviors r))) = sint (bs_AddedCount (sk_behavior scorecard))"
proof -
  let ?b = "sk_behavior scorecard" and ?l = "gp_limits policy"
  note g = assms [unfolded gate_Inr]
  note a = arithmetic_None [OF g [THEN conjunct2, THEN conjunct2, THEN conjunct1]]
  have changes: "0 \<le> sint (bs_AddedChangeCount ?b)" if "ol_set (gl_MaxAddedBehaviorChanges ?l)"
    using g that change_count_None by blast
  have exact: "sint x + sint y = sint z"
    if "0 \<le> sint (x :: i64)" "0 \<le> sint y" "0 \<le> sint z" "x + y = z" for x y z
    using nonneg_add_exact [OF that] sint_unat [OF that(1)] sint_unat [OF that(2)] sint_unat [OF that(3)] by linarith
  have r: "r = gateResult scorecard ?l" using g by simp
  have "gr_verdict r = GateVerdictPass \<longleftrightarrow>
      0 < unat (sk_referenceRecords scorecard) \<and> 0 < unat (sk_candidateRecords scorecard) \<and>
      sint (bs_AddedCount ?b) \<le> int (unat (gl_MaxAddedBehaviors ?l)) \<and>
      unat (er_count (rcmp_candidate (dcmp_Block (sk_decisions scorecard)))) \<le> unat (gl_MaxBlockDecisions ?l) \<and>
      unat (er_count (rcmp_candidate (rkcmp_Critical (sk_risks scorecard))))
        \<le> unat (gl_MaxCriticalRiskObservations ?l) \<and>
      (ol_set (gl_MaxAddedBehaviorChanges ?l) \<longrightarrow>
        sint (bs_AddedChangeCount ?b) \<le> int (unat (ol_maximum (gl_MaxAddedBehaviorChanges ?l))))"
    unfolding r verdict_pass using a changes by (auto simp only: le_word_unat one_le_word word_le_nat_alt [symmetric])
  moreover have "mag_Actual (gr_addedBehaviors r) = bs_AddedCount ?b"
    unfolding r by (simp add: gateResult_def Let_def maximumGate_def)
  ultimately show ?thesis
    using a exact [of "bs_AddedCount ?b" "bs_SharedCount ?b" "bs_CandidateDistinctCount ?b"]
      exact [of "bs_RemovedCount ?b" "bs_SharedCount ?b" "bs_ReferenceDistinctCount ?b"]
      sint_unat [of "bs_AddedCount ?b"] verdict_values [of scorecard ?l] r by simp
qed

definition limits_le :: "EvaluationGateLimits \<Rightarrow> EvaluationGateLimits \<Rightarrow> bool" where
  "limits_le l m \<longleftrightarrow> gl_MaxAddedBehaviors l \<le> gl_MaxAddedBehaviors m \<and>
     gl_MaxBlockDecisions l \<le> gl_MaxBlockDecisions m \<and>
     gl_MaxCriticalRiskObservations l \<le> gl_MaxCriticalRiskObservations m \<and>
     (ol_set (gl_MaxAddedBehaviorChanges m) \<longrightarrow> ol_set (gl_MaxAddedBehaviorChanges l) \<and>
        ol_maximum (gl_MaxAddedBehaviorChanges l) \<le> ol_maximum (gl_MaxAddedBehaviorChanges m))"

text \<open>A candidate that passes under some limits passes under any laxer ones: raising a maximum, or
  leaving the optional change limit out, never turns a Pass into a Fail or into an error.\<close>

theorem gate_monotone:
  assumes "EvaluateEvaluationGate scorecard (NewEvaluationGatePolicy l) = Inr r"
    and "gr_verdict r = GateVerdictPass" and "limits_le l m"
  shows "\<exists>r'. EvaluateEvaluationGate scorecard (NewEvaluationGatePolicy m) = Inr r' \<and> gr_verdict r' = GateVerdictPass"
proof -
  have "EvaluateEvaluationGate scorecard (NewEvaluationGatePolicy m) = Inr (gateResult scorecard m)"
    using assms(1,3) unfolding gate_Inr by (auto simp: NewEvaluationGatePolicy_def limits_le_def)
  moreover have "gr_verdict (gateResult scorecard l) = GateVerdictPass"
    using assms(1,2) unfolding gate_Inr by (simp add: NewEvaluationGatePolicy_def)
  then have "gr_verdict (gateResult scorecard m) = GateVerdictPass"
    using assms(3) unfolding verdict_pass limits_le_def by (auto intro: order_trans)
  ultimately show ?thesis by blast
qed

text \<open>What the gate decided is what a reader of the stored result sees: every result it
  returns is accepted by the restoring constructor and comes back unchanged.\<close>

theorem gate_storage_roundtrip:
  assumes "EvaluateEvaluationGate scorecard policy = Inr r"
  shows "restore_of r = Inr r"
proof -
  note g = assms [unfolded gate_Inr]
  have "validateStoredChangeGate (changeGate (sk_behavior scorecard) (gl_MaxAddedBehaviorChanges (gp_limits policy))) = None"
    using g change_count_None [of "sk_behavior scorecard"]
    by (simp add: validateStoredChangeGate_def changeGate_def GateCheckState_valid_def ChangeCountGate_Evaluated_def
        emptyChangeGate_def GateCheckNotEvaluated_def GateCheckEvaluated_def Let_def)
  moreover have "gr_addedBehaviorChanges r = changeGate (sk_behavior scorecard) (gl_MaxAddedBehaviorChanges (gp_limits policy))"
    using g by (simp add: gateResult_def Let_def)
  moreover have "gr_bound r" "gr_verdict r \<in> {GateVerdictPass, GateVerdictFail}"
    using g verdict_values by (simp_all add: gateResult_def Let_def)
  ultimately show ?thesis by (auto simp: restore_of_def restoreEvaluationGateResult_def)
qed

text \<open>From records to verdict: when a gate judges the scorecard of two aggregated
  record streams, the counts it compares are the numbers of block decisions and of critical-risk
  records in the candidate's stream, and a Pass means both streams are non-empty and those numbers
  are within the limits.\<close>

theorem gate_counts_record_stream:
  assumes "agg_reach rrun rrs ref" and "agg_reach crun crs cand"
    and "NewEvaluationScorecard ref cand diff = Inr sk"
    and "EvaluateEvaluationGate sk policy = Inr r"
  shows "unat (mag_Actual (gr_blockDecisions r)) = count_list (map dr_Decision crs) ''block'' \<and>
     unat (mag_Actual (gr_criticalRiskObservations r)) = count_list (map dr_RiskLevel crs) ''critical'' \<and>
     unat (mig_Actual (gr_referenceEvidence r)) = length rrs \<and>
     unat (mig_Actual (gr_candidateEvidence r)) = length crs \<and>
     (gr_verdict r = GateVerdictPass \<longrightarrow> rrs \<noteq> [] \<and> crs \<noteq> [] \<and>
        count_list (map dr_Decision crs) ''block'' \<le> unat (gl_MaxBlockDecisions (gp_limits policy)) \<and>
        count_list (map dr_RiskLevel crs) ''critical'' \<le> unat (gl_MaxCriticalRiskObservations (gp_limits policy)))"
proof -
  have sk: "sk = scorecard_of ref cand diff" using assms(3) unfolding scorecard_Inr by simp
  have r: "r = gateResult sk (gp_limits policy)" using assms(4) unfolding gate_Inr by simp
  have counts: "unat (ag_recordCount ref) = length rrs" "unat (ag_recordCount cand) = length crs"
    "unat (dc_Block (ag_decisions cand)) = count_list (map dr_Decision crs) ''block''"
    "unat (rc_Critical (ag_risks cand)) = count_list (map dr_RiskLevel crs) ''critical''"
    using agg_reach_inv [OF assms(1)] agg_reach_inv [OF assms(2)]
    by (auto simp: counts_inv_def decisions_rep_def risks_rep_def)
  have fields: "sk_referenceRecords sk = ag_recordCount ref" "sk_candidateRecords sk = ag_recordCount cand"
    "er_count (rcmp_candidate (dcmp_Block (sk_decisions sk))) = dc_Block (ag_decisions cand)"
    "er_count (rcmp_candidate (rkcmp_Critical (sk_risks sk))) = rc_Critical (ag_risks cand)"
    unfolding sk by (simp_all add: scorecard_of_def compareRates_def Let_def)
  have "mag_Actual (gr_blockDecisions r) = dc_Block (ag_decisions cand)"
    "mag_Actual (gr_criticalRiskObservations r) = rc_Critical (ag_risks cand)"
    "mig_Actual (gr_referenceEvidence r) = ag_recordCount ref" "mig_Actual (gr_candidateEvidence r) = ag_recordCount cand"
    unfolding r using fields by (simp_all add: gateResult_def Let_def maximumGate_def minimumGate_def)
  then show ?thesis
    using counts unfolding r verdict_pass fields one_le_word word_le_nat_alt by auto
qed

end
