(* ===== verification/Pipeline.thy ===== *)
theory Pipeline
  imports Platform_Gate
begin

text \<open>
  The seam between the engine and the platform: when the decision record of an engine result is
  accepted by the aggregate of an evaluation run. The engine validates an event on the way in and the
  platform validates a record again on the way out; the lemmas here say what of the second check
  the first one already gives.
\<close>

lemma evaluate_selection:
  assumes "\<And>r. r \<in> set (pol_Rules p) \<Longrightarrow> rule_Name r \<noteq> ''''"
  shows "ex_MatchedDefault (pr_Explanation (Policy_Evaluate showf p inp)) \<longleftrightarrow>
    ex_RuleName (pr_Explanation (Policy_Evaluate showf p inp)) = ''''"
proof -
  have "ex_MatchedDefault (pr_Explanation (evaluate_rules showf rs inp (Policy_default p))) \<longleftrightarrow>
      ex_RuleName (pr_Explanation (evaluate_rules showf rs inp (Policy_default p))) = ''''"
    if "set rs \<subseteq> set (pol_Rules p)" for rs
    using that assms by (induction rs) (auto simp: Policy_default_def)
  then show ?thesis by (simp add: Policy_Evaluate_def)
qed

lemma Analyze_explanation:
  assumes "Engine_Analyze log2 showf get e ev = Inr r"
  shows "res_Explanation r = pr_Explanation (Policy_Evaluate showf (en_policy e)
     \<lparr>pin_Stable = ft_Stable (Extract ev), pin_Trust = res_Trust r, pin_Attributes = ev_Attributes ev,
      pin_ApprovalStatus = ctx_ApprovalStatus (ev_Context ev)\<rparr>)"
  using assms by (auto simp: Engine_Analyze_def Let_def split_def split: option.splits)

lemma compute_risk: "tr_Risk (Trust_Compute an ic cr cfg) \<in> {''low'', ''medium'', ''high'', ''critical''}"
  by (simp add: Trust_Compute_def Let_def riskLevel_def risk_defs)

lemma valid_decisions:
  "Decision_Valid d \<Longrightarrow> d \<in> {''allow'', ''observe_only'', ''alert'', ''challenge'', ''require_approval'', ''block''}"
  by (auto simp: Decision_Valid_def decision_defs)

lemma observe_duration_iff:
  assumes "dur_rep s vs u" and "length vs < 2 ^ 64 - 1"
  shows "(\<exists>t. DurationSummary_observe s d = Inr t) \<longleftrightarrow> unat (du_Sum s) + unat d < 2 ^ 64"
proof -
  have "du_Count s \<noteq> MaxUint64" using assms by (auto simp: dur_rep_def eq_MaxUint64)
  then show ?thesis by (auto simp: DurationSummary_observe_def Max_minus_less not_le add.commute)
qed

lemma operational_accepts:
  assumes "dur_rep du vs u" and "length vs < 2 ^ 64 - 1" and "u < 2 ^ 64 - 1"
    and "status_rep sc xs" and "length xs < 2 ^ 64 - 1" and "ValidateDurationNanos r = Inr v"
  shows "(\<exists>x. observeOperational du sc r = Inr x) \<longleftrightarrow>
    dr_SpanStatus r \<in> {'''', ''unset'', ''ok'', ''error''} \<and>
    (dr_DurationNanos r \<noteq> '''' \<longrightarrow> unat (du_Sum du) + unat v < 2 ^ 64)"
proof -
  have skip: "\<exists>t. DurationSummary_skip du = Inr t"
    using assms(1,3) by (auto simp: DurationSummary_skip_def dur_rep_def eq_MaxUint64)
  have st: "(\<exists>c. SpanStatusCounts_count sc (dr_SpanStatus r) = Inr c) \<longleftrightarrow>
      dr_SpanStatus r \<in> {'''', ''unset'', ''ok'', ''error''}"
  proof
    assume "\<exists>c. SpanStatusCounts_count sc (dr_SpanStatus r) = Inr c"
    then show "dr_SpanStatus r \<in> {'''', ''unset'', ''ok'', ''error''}" by (elim exE) (rule status_count_Inr)
  next
    assume "dr_SpanStatus r \<in> {'''', ''unset'', ''ok'', ''error''}"
    from status_count_rep [OF assms(4,5) this]
    show "\<exists>c. SpanStatusCounts_count sc (dr_SpanStatus r) = Inr c" by (elim exE conjE) (rule exI)
  qed
  let ?step = "if dr_DurationNanos r \<noteq> '''' then DurationSummary_observe du v else DurationSummary_skip du"
  have step: "(\<exists>t. ?step = Inr t) \<longleftrightarrow> (dr_DurationNanos r \<noteq> '''' \<longrightarrow> unat (du_Sum du) + unat v < 2 ^ 64)"
    using skip observe_duration_iff [OF assms(1,2)] by simp
  have "(\<exists>x. observeOperational du sc r = Inr x) \<longleftrightarrow>
      (\<exists>t. ?step = Inr t) \<and> (\<exists>c. SpanStatusCounts_count sc (dr_SpanStatus r) = Inr c)"
    unfolding observeOperational_def assms(6) sum.case by (auto split: sum.split)
  then show ?thesis unfolding st step by blast
qed

lemma record_duration:
  assumes "Event_Validate (res_Event r) = None"
  shows "ValidateDurationNanos (Result_DecisionRecord r) =
    Inr (if ex_DurationObserved (ev_Execution (res_Event r)) then ex_DurationNanos (ev_Execution (res_Event r)) else 0)"
proof -
  have "ex_DurationObserved (ev_Execution (res_Event r)) \<Longrightarrow>
      ex_DurationNanos (ev_Execution (res_Event r)) \<le> MaxDurationNanos"
    using assms by (auto simp: Event_Validate_def validate_iffs split: if_splits)
  then show ?thesis
    by (auto simp: ValidateDurationNanos_def Result_DecisionRecord_def ParseUint10_FormatUint10 not_less)
qed

lemma reach_room:
  assumes "agg_reach run rs a" and "ag_recordCount a \<noteq> MaxUint64"
  shows "\<exists>vs u. dur_rep (ag_durations a) vs u \<and> length vs < 2 ^ 64 - 1 \<and> u < 2 ^ 64 - 1"
    and "\<exists>xs. status_rep (ag_statuses a) xs \<and> length xs < 2 ^ 64 - 1"
proof -
  have inv: "counts_inv rs a" "operational_inv rs a" using agg_reach_inv [OF assms(1)] by auto
  have n: "length rs < 2 ^ 64 - 1"
    using inv(1) assms(2) unat_less_2p64 [of "ag_recordCount a"] by (auto simp: counts_inv_def eq_MaxUint64)
  have "dur_rep (ag_durations a) (measured (map dur_obs rs)) (absent (map dur_obs rs))"
    using inv(2) by (simp add: operational_inv_def fold_durations_iff)
  then show "\<exists>vs u. dur_rep (ag_durations a) vs u \<and> length vs < 2 ^ 64 - 1 \<and> u < 2 ^ 64 - 1"
    using n length_measured [of "map dur_obs rs"]
    by (intro exI [of _ "measured (map dur_obs rs)"] exI [of _ "absent (map dur_obs rs)"]) auto
  have "status_rep (ag_statuses a) (map dr_SpanStatus rs)"
    using inv(2) n by (simp add: operational_inv_def fold_statuses_iff)
  then show "\<exists>xs. status_rep (ag_statuses a) xs \<and> length xs < 2 ^ 64 - 1"
    using n by (intro exI [of _ "map dr_SpanStatus rs"]) auto
qed

text \<open>The record of an engine result passes every range and vocabulary check of the platform except
  the two vocabularies the engine does not validate.\<close>

lemma engine_record_fields:
  assumes "mem.grown (en_store e)" and "weights_ok (en_anomalyConfig e)"
    and "\<And>r. r \<in> set (pol_Rules (en_policy e)) \<Longrightarrow> Decision_Valid (rule_Action r)"
    and "\<And>r. r \<in> set (pol_Rules (en_policy e)) \<Longrightarrow> rule_Name r \<noteq> ''''"
    and "Engine_Analyze log2 showf InMemory_Get e ev = Inr r" and "d = Result_DecisionRecord r"
  shows "dr_Decision d \<in> {''allow'', ''observe_only'', ''alert'', ''challenge'', ''require_approval'', ''block''} \<and>
    dr_RiskLevel d \<in> {''low'', ''medium'', ''high'', ''critical''} \<and>
    (dr_MatchedDefault d \<longleftrightarrow> dr_PolicyRule d = '''') \<and>
    in01 (dr_IdentityConfidence d) \<and> in01 (dr_AnomalyScore d) \<and> in01 (dr_AnomalyConfidence d) \<and>
    in01 (dr_TrustScore d) \<and> in01 (dr_ContextRisk d) \<and>
    dr_EventID d \<noteq> '''' \<and> t_ns (dr_Timestamp d) \<noteq> 0 \<and>
    dr_Environment d = ctx_Environment (ev_Context ev) \<and> sf_Environment (dr_Behavior d) = dr_Environment d"
proof -
  note f = Analyze_fields [OF assms(5)]
  have v: "Event_Validate ev = None" using assms(5) Analyze_Inr_iff by blast
  then have ev: "ev_ID ev \<noteq> ''''" "t_ns (ev_Timestamp ev) \<noteq> 0" "in01 (actor_IdentityConfidence (ev_Actor ev))"
    by (auto simp: Event_Validate_def validate_iffs Time_IsZero_def split: if_splits)
  have "dr_Decision d \<in> {''allow'', ''observe_only'', ''alert'', ''challenge'', ''require_approval'', ''block''}"
    using assms(3) by (intro valid_decisions) (simp add: assms(6) Result_DecisionRecord_def f(7) evaluate_valid)
  moreover have "dr_RiskLevel d \<in> {''low'', ''medium'', ''high'', ''critical''}"
    using compute_risk by (simp add: assms(6) Result_DecisionRecord_def f(6))
  moreover have "dr_MatchedDefault d \<longleftrightarrow> dr_PolicyRule d = ''''"
    using evaluate_selection [OF assms(4)]
    by (simp add: assms(6) Result_DecisionRecord_def Analyze_explanation [OF assms(5)])
  moreover have "in01 (dr_AnomalyScore d)"
    using mem.analysis_ranges [OF assms(1,2,5)] by (simp add: assms(6) Result_DecisionRecord_def)
  moreover have "in01 (dr_AnomalyConfidence d)"
    by (simp add: assms(6) Result_DecisionRecord_def f(5) Score_def Let_def in01_familiarity)
  moreover have "in01 (dr_TrustScore d)" "in01 (dr_ContextRisk d)"
    by (simp_all add: assms(6) Result_DecisionRecord_def f(6) compute_unit)
  moreover have "dr_Environment d = ctx_Environment (ev_Context ev)" "sf_Environment (dr_Behavior d) = dr_Environment d"
    by (simp_all add: assms(6) Result_DecisionRecord_def f(3,4) event_key_def Fingerprint_Compute_def)
  moreover have "dr_EventID d = ev_ID ev" "dr_Timestamp d = ev_Timestamp ev"
    "dr_IdentityConfidence d = actor_IdentityConfidence (ev_Actor ev)"
    by (simp_all add: assms(6) Result_DecisionRecord_def f(1))
  ultimately show ?thesis using ev by simp
qed

text \<open>C13. From event to evidence: take an engine that started on an empty in-memory store, with anomaly
  weights that are not NaN and policy rules that all have a name and one of the six decisions, after any events, and an aggregate
  of a run that is not full. The decision record of the engine's analysis of a further event is accepted exactly when the event is
  of the run's environment, its approval status and span status are known to the platform (the engine checks neither), and the
  sum of durations does not overflow. So with such a configuration nothing the engine computes is refused.\<close>

theorem engine_record_accepted:
  assumes "en_store e0 = NewInMemory" and "weights_ok (en_anomalyConfig e0)"
    and "\<And>r. r \<in> set (pol_Rules (en_policy e0)) \<Longrightarrow> Decision_Valid (rule_Action r)"
    and "\<And>r. r \<in> set (pol_Rules (en_policy e0)) \<Longrightarrow> rule_Name r \<noteq> ''''"
    and "e = engine_run log2 showf InMemory_Get InMemory_Observe e0 evs"
    and "Engine_Analyze log2 showf InMemory_Get e ev = Inr r"
    and "agg_reach run rs a" and "ag_recordCount a \<noteq> MaxUint64"
  shows "snd (AddRecord a (Result_DecisionRecord r)) = None \<longleftrightarrow>
    ctx_Environment (ev_Context ev) = run_environment run \<and>
    ctx_ApprovalStatus (ev_Context ev) \<in> {'''', ''not_required'', ''required'', ''approved'', ''denied''} \<and>
    ex_Status (ev_Execution ev) \<in> {'''', ''unset'', ''ok'', ''error''} \<and>
    (ex_DurationObserved (ev_Execution ev) \<longrightarrow>
       unat (du_Sum (ag_durations a)) + unat (ex_DurationNanos (ev_Execution ev)) < 2 ^ 64)"
proof -
  let ?d = "Result_DecisionRecord r"
  have g: "mem.grown (en_store e)" unfolding assms(5)
    by (rule mem.run_grown) (simp add: assms(1) mem_grown_New)
  have cfg: "en_anomalyConfig e = en_anomalyConfig e0" "en_policy e = en_policy e0"
    by (simp_all add: assms(5) mem.run_config)
  note fields = engine_record_fields [OF g _ _ _ assms(6) refl, unfolded cfg, OF assms(2,3,4)]
  have ev: "res_Event r = ev" by (rule Analyze_fields [OF assms(6)])
  have v: "Event_Validate (res_Event r) = None" unfolding ev using assms(6) Analyze_Inr_iff by blast
  obtain vs u where du: "dur_rep (ag_durations a) vs u" "length vs < 2 ^ 64 - 1" "u < 2 ^ 64 - 1"
    using reach_room(1) [OF assms(7,8)] by blast
  obtain xs where st: "status_rep (ag_statuses a) xs" "length xs < 2 ^ 64 - 1"
    using reach_room(2) [OF assms(7,8)] by blast
  note ops = operational_accepts [OF du st record_duration [OF v]]
  have rec: "dr_SpanStatus ?d = ex_Status (ev_Execution ev)"
    "dr_ApprovalStatus ?d = ctx_ApprovalStatus (ev_Context ev)"
    "dr_DurationNanos ?d \<noteq> '''' \<longleftrightarrow> ex_DurationObserved (ev_Execution ev)"
    by (simp_all add: Result_DecisionRecord_def ev)
  show ?thesis
    unfolding AddRecord_accepts AddRecord_guard_None_iff ops rec
    using fields agg_reach_identity [OF assms(7)] assms(8) by (auto simp: ev)
qed

end
