(* ===== verification/Witnesses.thy ===== *)
theory Witnesses
  imports Pipeline Store_Concurrent "HOL-Library.Char_ord" "HOL-Library.List_Lexorder" "HOL-Library.Product_Lexorder"
begin

text \<open>
  Sample data and the instances of the properties at concrete inputs: one agent calling a database
  tool, an engine in its default configuration, a file store with a toy serialisation, an evaluation
  run and its records.
\<close>

subsection \<open>Sample data\<close>

definition w_time :: gotime where "w_time = \<lparr>t_ns = 63000000000000000000, t_offset = 0\<rparr>"
definition w_later :: gotime where "w_later = \<lparr>t_ns = 63000000001000000000, t_offset = 3600\<rparr>"

definition w_event :: "string \<Rightarrow> string \<Rightarrow> gotime \<Rightarrow> Event" where
  "w_event i name ts =
     \<lparr>ev_ID = i, ev_Timestamp = ts,
      ev_Actor = \<lparr>actor_ID = ''agent-7'', actor_Type = ''ai_agent'', actor_IdentityConfidence = Fin (3 / 4)\<rparr>,
      ev_Operation = \<lparr>op_Category = ''tool'', op_Name = name, op_Direction = ''outbound''\<rparr>,
      ev_Target = \<lparr>target_Name = ''orders-db'', target_Category = ''database''\<rparr>,
      ev_Attributes = fmempty,
      ev_Context = \<lparr>ctx_Environment = ''prod'', ctx_TraceID = '''', ctx_SpanID = '''', ctx_SessionID = '''',
        ctx_DelegatedFrom = '''', ctx_ApprovalStatus = ''required'', ctx_ParentSpanID = '''', ctx_SpanLineage = ''root''\<rparr>,
      ev_Execution = \<lparr>ex_DurationNanos = 1500, ex_DurationObserved = True, ex_Status = ''ok''\<rparr>\<rparr>"

definition w_first :: Event where "w_first = w_event ''e-1'' ''read'' w_time"
definition w_second :: Event where "w_second = w_event ''e-2'' ''export'' w_later"

definition w_key :: Key where
  "w_key = \<lparr>key_Scope = '''', key_ActorID = ''agent-7'', key_Environment = ''prod''\<rparr>"

definition w_fp :: "Event \<Rightarrow> Fingerprint" where "w_fp ev = Fingerprint_Compute (ft_Stable (Extract ev))"

definition w_vol :: VolatileFeatures where
  "w_vol = \<lparr>vf_Timestamp = w_time, vf_Latency = 0, vf_HasLatency = False, vf_Error = False, vf_DelegatedFrom = ''''\<rparr>"

definition w_one :: Baseline where
  "w_one = fst (Baseline_Observe (Baseline_New w_key) (w_fp w_first) w_vol w_time)"

definition w_base :: Baseline where
  "w_base = fst (Baseline_Observe w_one (w_fp w_second) w_vol w_later)"

definition w_log2 :: "f64 \<Rightarrow> f64" where "w_log2 x = x"
definition w_showf :: "nat \<Rightarrow> f64 \<Rightarrow> string" where "w_showf n x = ''0''"

definition w_rule :: Rule where
  "w_rule = \<lparr>rule_Name = ''approval'', rule_When = \<lparr>cond_ActorType = ''ai_agent'', cond_OperationCategory = ''tool'',
       cond_TargetName = '''', cond_Environment = '''', cond_MinRiskLevel = '''', cond_Attributes = [],
       cond_ApprovalStatus = ''''\<rparr>,
     rule_Unless = Some \<lparr>cond_ActorType = '''', cond_OperationCategory = '''', cond_TargetName = '''',
       cond_Environment = '''', cond_MinRiskLevel = '''', cond_Attributes = [], cond_ApprovalStatus = ''approved''\<rparr>,
     rule_Action = DecisionRequireApproval, rule_Reason = ''agents need approval''\<rparr>"

definition w_policy :: Policy where
  "w_policy = \<lparr>pol_Rules = [w_rule], pol_DefaultAction = DecisionAllow, pol_DefaultReason = ''default''\<rparr>"

definition w_engine :: "InMemory Engine" where "w_engine = NewEngine NewInMemory []"
definition w_strict :: "InMemory Engine" where "w_strict = NewEngine NewInMemory [WithPolicy w_policy]"

subsection \<open>Facts about the samples\<close>

lemma w_valid: "Event_Validate w_first = None" "Event_Validate w_second = None"
  by code_simp+

lemma w_learned: "learned_from w_key 2 w_base"
proof -
  have "learned_from w_key (Suc (Suc 0)) w_base"
    unfolding w_base_def w_one_def by (intro learned_from.intros) (simp_all add: w_fp_def fp_ID_ne)
  then show ?thesis by (simp add: numeral_2_eq_2)
qed

lemma w_engine_fields [simp]:
  "en_store w_engine = NewInMemory" "en_policy w_engine = DefaultPolicy"
  "en_anomalyConfig w_engine = Anomaly_DefaultConfig" "en_learningScope w_engine = ''''"
  "en_store w_strict = NewInMemory" "en_policy w_strict = w_policy"
  "en_anomalyConfig w_strict = Anomaly_DefaultConfig" "en_learningScope w_strict = ''''"
  by (simp_all add: w_engine_def w_strict_def NewEngine_def WithPolicy_def)

lemma default_weights: "weights_ok Anomaly_DefaultConfig"
  by (auto simp: weights_ok_def Anomaly_DefaultConfig_def f0_def f1_def f64_of_not_NaN f64_of_not_NaN [symmetric])

subsection \<open>Fingerprints and baselines\<close>

theorem fingerprint_stream_injective_witness:
  "nul_free (ft_Stable (Extract w_first)) \<and> nul_free (ft_Stable (Extract w_second)) \<and>
   fp_stream (ft_Stable (Extract w_first)) \<noteq> fp_stream (ft_Stable (Extract w_second))"
proof -
  have h: "nul_free (ft_Stable (Extract w_first))" "nul_free (ft_Stable (Extract w_second))" by code_simp+
  have "ft_Stable (Extract w_first) \<noteq> ft_Stable (Extract w_second)"
    by (simp add: Extract_def w_first_def w_second_def w_event_def split_def Let_def)
  then show ?thesis using h fingerprint_stream_injective [OF h] by simp
qed

theorem baseline_resource_bounds_witness:
  "learned_from w_key 2 w_base \<and> fmsize (bl_Fingerprints w_base) \<le> 512 \<and> fmsize (bl_DelegatorCounts w_base) \<le> 64"
  using w_learned baseline_resource_bounds [OF w_learned] by simp

theorem admission_never_evicts_witness:
  "fmlookup (bl_Fingerprints (Baseline_New w_key)) (fp_ID (w_fp w_first)) = None \<and>
   snd (Baseline_Observe (Baseline_New w_key) (w_fp w_first) w_vol w_time) \<and>
   fmlookup (bl_Fingerprints (fst (Baseline_Observe (Baseline_New w_key) (w_fp w_first) w_vol w_time)))
     (fp_ID (w_fp w_first)) \<noteq> None"
proof -
  have "fmsize (bl_Fingerprints (Baseline_New w_key)) < maxFingerprints"
    "fmlookup (bl_Fingerprints (Baseline_New w_key)) (fp_ID (w_fp w_first)) = None"
    by (simp_all add: Baseline_New_def maxFingerprints_def)
  then show ?thesis using admission_never_evicts [of "Baseline_New w_key" "w_fp w_first" w_vol w_time] by blast
qed

lemma new_admits: "admits (Baseline_New k) fp"
  by (simp add: admits_def Baseline_New_def maxFingerprints_def)

lemma w_one_admits: "admits w_one fp"
  by (simp add: admits_def w_one_def Baseline_Observe_eq learn_map_def new_admits fmsize_fmupd)
    (simp add: Baseline_New_def maxFingerprints_def)

lemma w_base_last: "bl_LastFingerprintID w_base \<noteq> ''''"
proof -
  have "bl_LastFingerprintID (Baseline_New w_key) = ''''" by (simp add: Baseline_New_def)
  then have "bl_LastFingerprintID w_one \<noteq> ''''" by (simp add: w_one_def Baseline_Observe_eq new_admits w_fp_def)
  then show ?thesis by (simp add: w_base_def Baseline_Observe_eq w_fp_def)
qed

theorem history_window_sound_witness:
  "learned_from w_key 2 w_base \<and> bl_LastFingerprintID w_base \<noteq> '''' \<and>
   fmlookup (bl_Fingerprints w_base) (bl_LastFingerprintID w_base) \<noteq> None \<and>
   \<not> Time_Before (bl_LastFingerprintTime (fst (Baseline_Observe w_base (w_fp w_first) w_vol w_time)))
     (bl_LastFingerprintTime w_base)"
  using w_learned w_base_last history_window_sound [OF w_learned, of "w_fp w_first" w_vol w_time] by simp

lemma w_base_second: "fmlookup (bl_Fingerprints w_base) (fp_ID (w_fp w_second)) \<noteq> None"
  unfolding w_base_def
  by (intro Observe_learns w_one_admits)

theorem learned_rates_unit_witness:
  "\<exists>s. learned_from w_key 2 w_base \<and> fmlookup (bl_Fingerprints w_base) (fp_ID (w_fp w_second)) = Some s \<and>
     in01 (fs_ErrorRate s) \<and> (\<forall>a \<in> set (fs_HourActivity s). in01 a)"
proof -
  obtain s where s: "fmlookup (bl_Fingerprints w_base) (fp_ID (w_fp w_second)) = Some s" using w_base_second by blast
  show ?thesis using w_learned s learned_rates_unit [OF w_learned s] by blast
qed

theorem transition_flow_conserved_witness:
  "learned_from w_key 2 w_base \<and> (2 :: nat) < 2 ^ 64 \<and>
   (\<Sum>d\<in>fset (fmdom (bl_Fingerprints w_base)).
      unat (fmget 0 (fs_PredecessorCounts (fmget zeroStats (bl_Fingerprints w_base) d)) (fp_ID (w_fp w_first))))
     \<le> unat (fs_OutgoingTransitionTotal (fmget zeroStats (bl_Fingerprints w_base) (fp_ID (w_fp w_first))))"
proof -
  have n: "(2 :: nat) < 2 ^ 64" by simp
  show ?thesis using w_learned n transition_flow_conserved [OF w_learned n, of "fp_ID (w_fp w_first)"] by blast
qed

subsection \<open>Scoring, trust and policy\<close>

theorem score_unit_interval_witness:
  "learned_from w_key 2 w_base \<and> weights_ok Anomaly_DefaultConfig \<and>
   in01 (an_Score (Score w_log2 (Extract w_first) (w_fp w_first) w_base Anomaly_DefaultConfig))"
  using w_learned default_weights
    score_unit_interval [OF w_learned default_weights, of w_log2 "Extract w_first" "w_fp w_first"] by simp

definition w_floor :: Config where
  "w_floor = Anomaly_DefaultConfig\<lparr>cfg_SensitiveTargetFloor := fmupd ''orders-db'' (Fin (3 / 4)) fmempty\<rparr>"

theorem sensitive_floor_dominates_witness:
  "fmlookup (cfg_SensitiveTargetFloor w_floor) (sf_TargetName (ft_Stable (Extract w_first))) = Some (Fin (3 / 4)) \<and>
   fle (Fin (3 / 4)) (an_Score (Score w_log2 (Extract w_first) (w_fp w_first) w_base w_floor))"
proof -
  have w: "weights_ok w_floor" using default_weights by (simp add: w_floor_def weights_ok_def)
  have f: "fmlookup (cfg_SensitiveTargetFloor w_floor) (sf_TargetName (ft_Stable (Extract w_first))) = Some (Fin (3 / 4))"
    by (simp add: w_floor_def Extract_def w_first_def w_event_def split_def Let_def)
  have r: "(0 :: rat) < 3 / 4" "(3 / 4 :: rat) \<le> 1" "rnd (3 / 4) = 3 / 4" by (simp, simp, code_simp)
  show ?thesis
    using f sensitive_floor_dominates [OF w_learned w f r, of w_log2 "w_fp w_first"] by simp
qed

theorem novel_fingerprint_scores_one_witness:
  "fmlookup (bl_Fingerprints (Baseline_New w_key)) (fp_ID (w_fp w_first)) = None \<and>
   an_Score (Score w_log2 (Extract w_first) (w_fp w_first) (Baseline_New w_key) Anomaly_DefaultConfig) = f1"
proof -
  have n: "fmlookup (bl_Fingerprints (Baseline_New w_key)) (fp_ID (w_fp w_first)) = None" by (simp add: Baseline_New_def)
  have c: "cfg_NoveltyWeight Anomaly_DefaultConfig = f1" by (simp add: Anomaly_DefaultConfig_def)
  show ?thesis
    using n novel_fingerprint_scores_one [OF learned_from.start default_weights n c, of w_log2 "Extract w_first"] by simp
qed

definition w_anomaly :: "rat \<Rightarrow> Anomaly" where
  "w_anomaly q = \<lparr>an_FingerprintID = ''f'', an_Score = Fin q, an_Confidence = Fin (1 / 2), an_Contributors = []\<rparr>"

theorem trust_weakest_factor_witness:
  "fvalid (Fin (3 / 4)) \<and>
   fle (tr_Score (Trust_Compute (w_anomaly (1 / 4)) (Fin (3 / 4)) (Fin (1 / 2)) Trust_DefaultConfig)) (clampFavorable (Fin (3 / 4)))"
proof -
  have h: "fvalid (Fin (3 / 4))" by code_simp
  show ?thesis using h trust_weakest_factor [OF h, of "w_anomaly (1 / 4)" "Fin (1 / 2)" Trust_DefaultConfig] by simp
qed

theorem trust_fails_closed_witness:
  "isNaN NaN \<and> tr_Score (Trust_Compute (w_anomaly 0) NaN f0 Trust_DefaultConfig) = f0 \<and>
   isInf PInf \<and> tr_AnomalyScore (Trust_Compute ((w_anomaly 0)\<lparr>an_Score := PInf\<rparr>) f1 f0 Trust_DefaultConfig) = f1"
proof -
  have h: "isNaN NaN" "isInf PInf" by (simp_all add: isNaN_def isInf_def)
  show ?thesis
    using h trust_fails_closed [of NaN f0 "w_anomaly 0" Trust_DefaultConfig]
      trust_fails_closed [of f1 f0 "(w_anomaly 0)\<lparr>an_Score := PInf\<rparr>" Trust_DefaultConfig] by simp
qed

theorem trust_risk_monotone_witness:
  "fle (tr_Score (Trust_Compute (w_anomaly (3 / 4)) (Fin (1 / 2)) (Fin (1 / 4)) Trust_DefaultConfig))
     (tr_Score (Trust_Compute (w_anomaly (1 / 4)) (Fin (3 / 4)) f0 Trust_DefaultConfig)) \<and>
   RiskLevel_AtLeast (tr_Risk (Trust_Compute (w_anomaly (3 / 4)) (Fin (1 / 2)) (Fin (1 / 4)) Trust_DefaultConfig))
     (tr_Risk (Trust_Compute (w_anomaly (1 / 4)) (Fin (3 / 4)) f0 Trust_DefaultConfig))"
proof (rule trust_risk_monotone)
  show "fle (Fin (1 / 2)) (Fin (3 / 4))" "fle f0 (Fin (1 / 4))" "\<not> isInf (Fin (3 / 4))" "\<not> isInf f0" by code_simp+
  show "fle (an_Score (w_anomaly (1 / 4))) (an_Score (w_anomaly (3 / 4)))" "\<not> isInf (an_Score (w_anomaly (1 / 4)))"
    "fle (an_Confidence (w_anomaly (1 / 4))) (an_Confidence (w_anomaly (3 / 4)))" "\<not> isInf (an_Confidence (w_anomaly (1 / 4)))"
    by code_simp+
qed

definition w_input :: "ApprovalStatus \<Rightarrow> PolicyInput" where
  "w_input st = \<lparr>pin_Stable = ft_Stable (Extract w_first),
     pin_Trust = Trust_Compute (w_anomaly 0) f1 f0 Trust_DefaultConfig, pin_Attributes = fmempty, pin_ApprovalStatus = st\<rparr>"

lemma w_rule_matches: "Condition_Matches w_showf (rule_When w_rule) (w_input st)"
  by (simp add: Condition_Matches_iff w_rule_def w_input_def Extract_def w_first_def w_event_def split_def Let_def)

theorem policy_first_match_witness:
  "rule_applies w_showf w_rule (w_input ''required'') \<and>
   pr_Decision (Policy_Evaluate w_showf w_policy (w_input ''required'')) = DecisionRequireApproval"
proof -
  have a: "rule_applies w_showf w_rule (w_input ''required'')"
    using w_rule_matches [of "''required''"] by (simp add: rule_applies_def Condition_Matches_iff w_rule_def w_input_def)
  then show ?thesis
    using policy_first_match [of w_policy w_showf "w_input ''required''"]
    by (auto simp: w_policy_def w_rule_def Cons_eq_append_conv)
qed

theorem approval_rule_fires_unless_approved_witness:
  "Condition_Matches w_showf (rule_When w_rule) (w_input ''denied'') \<and>
   rule_applies w_showf w_rule (w_input ''denied'') \<and> \<not> rule_applies w_showf w_rule (w_input ''approved'')"
  using w_rule_matches [of "''denied''"] w_rule_matches [of "''approved''"]
    approval_rule_fires_unless_approved [of w_rule w_showf "w_input ''denied''"]
    approval_rule_fires_unless_approved [of w_rule w_showf "w_input ''approved''"]
  by (simp add: w_rule_def w_input_def)

subsection \<open>Validation\<close>

theorem Event_Validate_iff_witness:
  "Event_Validate w_first = None \<and> in01 (actor_IdentityConfidence (ev_Actor w_first)) \<and>
   ex_DurationObserved (ev_Execution w_first) \<and> ex_DurationNanos (ev_Execution w_first) \<le> MaxDurationNanos"
  using w_valid(1) Event_Validate_iff [of w_first] by (simp add: w_first_def w_event_def)

end
