(* ===== verification/Witnesses_Engine.thy ===== *)
theory Witnesses_Engine
  imports Witnesses
begin

text \<open>Instances of the store, engine, alert and record properties.\<close>

subsection \<open>Stores\<close>

definition w_calls :: "(Key \<times> shard_op) list" where
  "w_calls = [(w_key, OpFreeze), (w_key, OpObserve (w_fp w_first) w_vol w_time)]"

text \<open>Both threads miss the key; the second to take the write lock finds the shard of the first.\<close>

definition w_race :: cstate where
  "w_race = update_step (update_step (getOrCreate_locked (getOrCreate_locked
     (lookup_step (lookup_step (cinit w_calls) 0) 1) 0) 1) 0 0) 1 0"

lemma w_race_reach: "creach w_calls w_race"
proof -
  let ?s0 = "cinit w_calls" let ?s1 = "lookup_step ?s0 0" let ?s2 = "lookup_step ?s1 1"
  let ?s3 = "getOrCreate_locked ?s2 0" let ?s4 = "getOrCreate_locked ?s3 1" let ?s5 = "update_step ?s4 0 0"
  note defs = cinit_def w_calls_def lookup_step_def getOrCreate_locked_def update_step_def Let_def split_def
  have "creach w_calls ?s1" by (rule creach.step [OF creach.init cstep.lookup]) (simp_all add: defs)
  then have "creach w_calls ?s2" by (rule creach.step [OF _ cstep.lookup]) (simp_all add: defs)
  then have "creach w_calls ?s3" by (rule creach.step [OF _ cstep.create]) (simp_all add: defs)
  then have "creach w_calls ?s4" by (rule creach.step [OF _ cstep.create]) (simp_all add: defs)
  then have "creach w_calls ?s5" by (rule creach.step [OF _ cstep.update]) (simp_all add: defs)
  then show ?thesis unfolding w_race_def by (rule creach.step [OF _ cstep.update]) (simp_all add: defs)
qed

theorem store_linearizable_witness:
  "creach w_calls w_race \<and> log_ops w_race = w_calls \<and>
   snd (seq_run NewInMemory (log_ops w_race)) = log_results w_race \<and>
   shard_at w_race w_key = shard_of (fst (seq_run NewInMemory (log_ops w_race))) w_key"
proof -
  have "log_ops w_race = w_calls"
    by (simp add: w_race_def log_ops_def cinit_def w_calls_def lookup_step_def getOrCreate_locked_def update_step_def
        Let_def split_def)
  then show ?thesis using w_race_reach store_linearizable [OF w_race_reach] by simp
qed

definition w_order :: map_order where
  "w_order m = map (\<lambda>(s, a, e). \<lparr>key_Scope = s, key_ActorID = a, key_Environment = e\<rparr>)
     (sorted_list_of_set ((\<lambda>k. (key_Scope k, key_ActorID k, key_Environment k)) ` fset (fmdom m)))"

lemma w_order_enumerates: "enumerates w_order"
proof -
  have i: "inj (\<lambda>(s, a, e). \<lparr>key_Scope = s, key_ActorID = a, key_Environment = e\<rparr>)" by (auto simp: inj_def)
  have eta: "\<lparr>key_Scope = key_Scope x, key_ActorID = key_ActorID x, key_Environment = key_Environment x\<rparr> = x" for x :: Key
    by simp
  show ?thesis unfolding enumerates_def
  proof (intro allI conjI)
    fix m
    show "distinct (w_order m)" unfolding w_order_def distinct_map using i by (auto intro: inj_on_subset)
    show "set (w_order m) = fset (fmdom m)" by (simp add: w_order_def image_image eta)
  qed
qed

definition w_disk :: disk where "w_disk = \<lparr>d_file = None, d_temps = []\<rparr>"
definition w_store :: FileStore where "w_store = \<lparr>fst_inner = NewInMemory, fst_disk = w_disk\<rparr>"
definition w_env :: "flush_step list \<Rightarrow> flush_env" where "w_env fs = \<lparr>env_fails = \<lambda>c. List.member fs c, env_written = 3, env_stuck = (fs \<noteq> [])\<rparr>"

definition w_snap :: fileSnapshot where
  "w_snap = \<lparr>snap_Version = 2, snap_Baselines = map snd (map_entries w_order
     (InMemory_snapshot (fst (InMemory_Observe NewInMemory w_key (w_fp w_first) w_vol w_time))))\<rparr>"

definition w_encode :: "fileSnapshot \<Rightarrow> string option" where
  "w_encode s = (if s = w_snap then Some ''{one observation}'' else None)"
definition w_decode :: "string \<Rightarrow> fileSnapshot option" where
  "w_decode r = (if r = ''{one observation}'' then Some w_snap else None)"

theorem flush_atomic_witness:
  "\<exists>vs errs ds err. flushes (\<lambda>s. Some ''snapshot'') [(w_env [], w_order, fmempty)] w_disk = (vs, errs) \<and>
     writeFileSnapshotAtomic (\<lambda>s. Some ''next'') w_order (w_env [WriteTemp, CloseTemp]) fmempty (after_calls w_disk vs) = (ds, err) \<and>
     err = Some (FlushFailed WriteTemp) \<and> d_file (after_calls w_disk vs) = Some ''snapshot'' \<and>
     writeFileSnapshotAtomic (\<lambda>s. Some ''snapshot'') w_order (w_env []) fmempty w_disk = (vs, None)"
proof -
  obtain vs errs where f: "flushes (\<lambda>s. Some ''snapshot'') [(w_env [], w_order, fmempty)] w_disk = (vs, errs)" by force
  obtain ds err where w: "writeFileSnapshotAtomic (\<lambda>s. Some ''next'') w_order (w_env [WriteTemp, CloseTemp]) fmempty (after_calls w_disk vs) = (ds, err)"
    by force
  have e: "errs = [None]" "writeFileSnapshotAtomic (\<lambda>s. Some ''snapshot'') w_order (w_env []) fmempty w_disk = (vs, None)"
    using f by (auto simp: writeFileSnapshotAtomic_def Let_def w_env_def)
  have "err = Some (FlushFailed WriteTemp)" using w by (auto simp: writeFileSnapshotAtomic_def Let_def w_env_def)
  moreover obtain ds' err' where "writeFileSnapshotAtomic (\<lambda>s. Some ''snapshot'') w_order (w_env []) fmempty (after_calls w_disk vs) = (ds', err')"
    by force
  then have "d_file (after_calls w_disk vs) = Some ''snapshot''" using flush_atomic [OF f refl _ refl] by (simp add: e)
  ultimately show ?thesis using f w e by blast
qed

theorem restart_restores_baselines_witness:
  "\<exists>s' s2. FileStore_Observe w_encode w_order (w_env []) w_store w_key (w_fp w_first) w_vol w_time = (s', w_one, True, None) \<and>
     NewFileStore w_decode (rev \<circ> w_order) True (fst_disk s') = Inr s2 \<and> FileStore_Get s2 w_key = (w_one, True)"
proof -
  let ?o = "FileStore_Observe w_encode w_order (w_env []) w_store w_key (w_fp w_first) w_vol w_time"
  let ?m = "InMemory_snapshot (fst (InMemory_Observe NewInMemory w_key (w_fp w_first) w_vol w_time))"
  have mem: "InMemory_Observe NewInMemory w_key (w_fp w_first) w_vol w_time =
      (fst (InMemory_Observe NewInMemory w_key (w_fp w_first) w_vol w_time), w_one, True, None)"
    by (simp add: store_simps shard_observe_def shard_of_def NewInMemory_def newShard_def split_def Let_def w_one_def
        Baseline_Observe_eq new_admits)
  have c: "w_encode (snapshot_of w_order ?m) = Some ''{one observation}''" "w_decode ''{one observation}'' = Some (snapshot_of w_order ?m)"
    by (simp_all add: w_encode_def w_decode_def w_snap_def snapshot_of_def fileSnapshotVersion_def)
  then obtain s' where o: "?o = (s', w_one, True, None)"
    unfolding FileStore_Observe_def w_store_def using mem
    by (cases "InMemory_Observe NewInMemory w_key (w_fp w_first) w_vol w_time")
      (auto simp: FileStore_flush_def writeFileSnapshotAtomic_def w_env_def Let_def)
  have inv: "FileStore_inv w_store" by (simp add: FileStore_inv_def w_store_def inv_operations(1))
  have "fst_inner s' = fst (InMemory_Observe NewInMemory w_key (w_fp w_first) w_vol w_time)"
    using FileStore_Observe_inner [of w_encode w_order "w_env []" w_store w_key "w_fp w_first" w_vol w_time] o by (simp add: w_store_def)
  then have d: "Option.bind (w_encode (snapshot_of w_order (InMemory_snapshot (fst_inner s')))) w_decode =
      Some (snapshot_of w_order (InMemory_snapshot (fst_inner s')))" using c by simp
  have e: "enumerates (rev \<circ> w_order)" using w_order_enumerates by (simp add: enumerates_def)
  obtain s2 where s2: "NewFileStore w_decode (rev \<circ> w_order) True (fst_disk s') = Inr s2" "FileStore_Get s2 w_key = FileStore_Get s' w_key"
    using restart_restores_baselines [OF w_order_enumerates e inv o d] by blast
  have "FileStore_Get s' w_key = (w_one, True)" by (rule fstore.observe_get [OF inv o])
  then show ?thesis using o s2 by auto
qed

subsection \<open>The engine\<close>

lemma default_policy_valid: "r \<in> set (pol_Rules (en_policy w_engine)) \<Longrightarrow> Decision_Valid (rule_Action r)"
  by (simp add: DefaultPolicy_def)

lemma w_policy_valid:
  "r \<in> set (pol_Rules (en_policy w_strict)) \<Longrightarrow> Decision_Valid (rule_Action r)"
  "r \<in> set (pol_Rules (en_policy w_strict)) \<Longrightarrow> rule_Name r \<noteq> ''''"
  by (simp_all add: w_policy_def w_rule_def Decision_Valid_def)

theorem engine_pipeline_safe_witness:
  "\<exists>r. Engine_Analyze w_log2 w_showf InMemory_Get
       (engine_run w_log2 w_showf InMemory_Get InMemory_Observe w_strict [w_first]) w_second = Inr r \<and>
     in01 (an_Score (res_Anomaly r)) \<and> in01 (tr_Score (res_Trust r)) \<and> Decision_Valid (res_Decision r)"
  using engine_pipeline_safe [of w_strict _ w_log2 w_showf "[w_first]" w_second, OF _ _ w_policy_valid(1) refl w_valid(2)]
    default_weights by auto

lemma strict_decision:
  assumes "Engine_Analyze w_log2 w_showf InMemory_Get w_strict w_first = Inr r"
  shows "res_Decision r = DecisionRequireApproval"
  unfolding Analyze_fields(7) [OF assms]
  by (simp add: Policy_Evaluate_def w_policy_def rule_applies_def Condition_Matches_iff w_rule_def Extract_def w_first_def
      w_event_def split_def Let_def)

theorem held_events_never_learned_witness:
  "\<exists>r. Engine_Analyze w_log2 w_showf InMemory_Get w_strict w_first = Inr r \<and>
     res_Decision r = DecisionRequireApproval \<and> Engine_Observe InMemory_Observe w_strict r = (w_strict, False, None) \<and>
     engine_turn w_log2 w_showf InMemory_Get InMemory_Observe w_strict w_first = w_strict"
proof -
  obtain r where r: "Engine_Analyze w_log2 w_showf InMemory_Get w_strict w_first = Inr r"
    using w_valid(1) Analyze_Inr_iff by blast
  have d: "res_Decision r \<notin> {DecisionAllow, DecisionObserveOnly, DecisionAlert}"
    by (simp add: strict_decision [OF r] decision_defs)
  show ?thesis using r strict_decision [OF r] held_events_never_learned [OF r d, of InMemory_Observe] by blast
qed

lemma default_decision:
  assumes "Engine_Analyze w_log2 w_showf InMemory_Get w_engine w_first = Inr r"
  shows "res_Decision r = DecisionObserveOnly"
  unfolding Analyze_fields(7) [OF assms]
  by (simp add: Policy_Evaluate_def DefaultPolicy_def Policy_default_def Decision_Valid_def)

lemma new_inv: "InMemory_inv (en_store w_engine)"
  by (simp add: inv_operations(1))

theorem learning_reports_truth_witness:
  "\<exists>r e'. Engine_Analyze w_log2 w_showf InMemory_Get w_engine w_first = Inr r \<and>
     Engine_Observe InMemory_Observe w_engine r = (e', True, None) \<and>
     fmlookup (bl_Fingerprints (fst (InMemory_Get (en_store e') (event_key w_engine w_first)))) (fp_ID (res_Fingerprint r)) \<noteq> None"
proof -
  obtain r where r: "Engine_Analyze w_log2 w_showf InMemory_Get w_engine w_first = Inr r"
    using w_valid(1) Analyze_Inr_iff by blast
  have "\<exists>e'. Engine_Observe InMemory_Observe w_engine r = (e', True, None)"
    by (simp add: Engine_Observe_def default_decision [OF r] eligibleForLearning_def store_simps shard_observe_def
        shard_of_def NewInMemory_def newShard_def split_def Let_def Baseline_Observe_eq new_admits)
  then obtain e' where e: "Engine_Observe InMemory_Observe w_engine r = (e', True, None)" by blast
  show ?thesis using r e learning_reports_truth [OF new_inv r e] by blast
qed

definition w_shared :: "string \<Rightarrow> FileStore Engine" where
  "w_shared scope = NewEngine w_store [WithLearningScope scope]"

theorem scope_isolation_witness:
  "Engine_Analyze w_log2 w_showf FileStore_Get
      ((w_shared ''b'')\<lparr>en_store := en_store (engine_run w_log2 w_showf FileStore_Get
        (FileStore_Observe w_encode w_order (w_env [RenameTemp])) (w_shared ''a'') [w_first, w_second])\<rparr>) w_first =
   Engine_Analyze w_log2 w_showf FileStore_Get (w_shared ''b'') w_first"
proof (rule scope_isolation)
  show "FileStore_inv (en_store (w_shared ''a''))"
    by (simp add: w_shared_def NewEngine_def WithLearningScope_def FileStore_inv_def w_store_def inv_operations(1))
  show "en_store (w_shared ''b'') = en_store (w_shared ''a'')" "en_learningScope (w_shared ''a'') \<noteq> en_learningScope (w_shared ''b'')"
    by (simp_all add: w_shared_def NewEngine_def WithLearningScope_def)
qed

definition w_other :: Event where
  "w_other = w_first\<lparr>ev_Actor := \<lparr>actor_ID = ''agent-8'', actor_Type = ''ai_agent'', actor_IdentityConfidence = f1\<rparr>\<rparr>"

theorem actor_isolation_witness:
  "Engine_Analyze w_log2 w_showf InMemory_Get
      (w_engine\<lparr>en_store := en_store (engine_run w_log2 w_showf InMemory_Get InMemory_Observe w_engine [w_other, w_other])\<rparr>) w_first =
   Engine_Analyze w_log2 w_showf InMemory_Get w_engine w_first"
proof (rule actor_isolation [OF new_inv])
  fix ev' assume "ev' \<in> set [w_other, w_other]"
  then show "actor_ID (ev_Actor ev') \<noteq> actor_ID (ev_Actor w_first) \<or>
      ctx_Environment (ev_Context ev') \<noteq> ctx_Environment (ev_Context w_first)"
    by (simp add: w_other_def w_first_def w_event_def)
qed

subsection \<open>Alerts and records\<close>

definition w_result :: Result where
  "w_result = \<lparr>res_Event = w_first, res_Features = Extract w_first, res_Fingerprint = w_fp w_first,
     res_BaselineKey = w_key, res_Anomaly = w_anomaly (3 / 4),
     res_Trust = Trust_Compute (w_anomaly (3 / 4)) (Fin (3 / 4)) f0 Trust_DefaultConfig, res_Decision = DecisionBlock,
     res_Explanation = \<lparr>ex_RuleName = ''approval'', ex_Reason = ''agents need approval'', ex_MatchedDefault = False\<rparr>\<rparr>"

definition w_alert_rule :: "Decision \<Rightarrow> Severity \<Rightarrow> AlertRule" where
  "w_alert_rule d sev = \<lparr>ar_Name = ''w'', ar_When = zeroCondition\<lparr>ac_Decision := d\<rparr>, ar_Severity = sev\<rparr>"

theorem alert_first_match_witness:
  "\<exists>a. Alert_Evaluate (replicate 16 7) w_result
       [w_alert_rule DecisionAllow ''info'', w_alert_rule DecisionBlock ''critical'', w_alert_rule '''' ''warning''] = Some a \<and>
     al_Severity a = ''critical'' \<and> al_Decision a = DecisionBlock"
proof -
  let ?rules = "[w_alert_rule DecisionAllow ''info'', w_alert_rule DecisionBlock ''critical'', w_alert_rule '''' ''warning'']"
  have m: "AlertCondition_Matches (ar_When (w_alert_rule DecisionBlock sev)) w_result"
    "\<not> AlertCondition_Matches (ar_When (w_alert_rule DecisionAllow sev)) w_result" for sev
    by (simp_all add: AlertCondition_Matches_def w_alert_rule_def zeroCondition_def w_result_def w_anomaly_def decision_defs f0_def)
  have "Alert_Evaluate (replicate 16 7) w_result ?rules \<noteq> None"
    using alert_first_match [of "replicate 16 7" w_result ?rules] m by auto
  then obtain a where a: "Alert_Evaluate (replicate 16 7) w_result ?rules = Some a" by blast
  have "al_Severity a = ''critical'' \<and> al_Decision a = DecisionBlock"
    using alert_first_match [of "replicate 16 7" w_result ?rules] m a
    by (auto simp: Cons_eq_append_conv w_alert_rule_def w_result_def)
  then show ?thesis using a by blast
qed

theorem duration_roundtrip_witness:
  "Event_Validate (res_Event w_result) = None \<and> DurationNanosValue (Result_DecisionRecord w_result) = (1500, True)"
proof -
  have h: "Event_Validate (res_Event w_result) = None" using w_valid by (simp add: w_result_def)
  show ?thesis using h duration_roundtrip [OF h] by (simp add: w_result_def w_first_def w_event_def)
qed

end
