(* ===== verification/Witnesses_Platform.thy ===== *)
theory Witnesses_Platform
  imports Witnesses_Engine
begin

text \<open>Instances of the platform properties: a run, the aggregates of two small record streams, their
  scorecard and the gate on it.\<close>

subsection \<open>Printable identifiers\<close>

lemma runes_ascii: "list_all (\<lambda>b. b < 128) bs \<Longrightarrow> runes bs = map (\<lambda>b. (b, True)) bs"
proof (induction bs)
  case (Cons b bs)
  then show ?case by (subst runes.simps) (simp add: decode_rune_def)
qed (simp add: runes.simps)

definition printable :: "string \<Rightarrow> bool" where
  "printable v = list_all (\<lambda>b. 33 \<le> b \<and> b < 127) (bytes v)"

lemma validateID_printable:
  assumes "v \<noteq> ''''" and "length v \<le> 256" and "printable v"
  shows "validateID v = None"
proof -
  have p: "33 \<le> b \<and> b < 127" if "b \<in> set (bytes v)" for b
    using assms(3) that by (simp add: printable_def list_all_iff)
  then have r: "runes (bytes v) = map (\<lambda>b. (b, True)) (bytes v)"
    by (intro runes_ascii) (fastforce simp: list_all_iff)
  have ns: "\<not> IsSpace b" if "b \<in> set (bytes v)" for b using p [OF that] by (auto simp: IsSpace_def)
  have drop: "dropWhile (IsSpace \<circ> fst) (map (\<lambda>b. (b, True)) bs) = map (\<lambda>b. (b, True)) bs"
    if "set bs \<subseteq> set (bytes v)" for bs :: "nat list"
    using that ns by (cases bs) auto
  have "TrimSpace v = runes (bytes v)"
    unfolding TrimSpace_def r drop [OF order_refl] rev_map using drop [of "rev (bytes v)"] by (simp add: rev_map)
  moreover have "\<not> list_ex (is_control \<circ> fst) (runes (bytes v))"
    unfolding r using p by (fastforce simp: list_ex_iff is_control_def)
  moreover have "ValidString v" by (simp add: ValidString_def r list_all_iff)
  ultimately show ?thesis using assms(1,2) by (simp add: validateID_def validateText_def maxIdentifierLength_def)
qed

lemma w_ids:
  "validateID ''ref'' = None" "validateID ''new'' = None" "validateID ''cand-ref'' = None" "validateID ''cand-new'' = None"
  "validateID ''prod'' = None" "validateID ''profile'' = None"
  by (rule validateID_printable; code_simp)+

subsection \<open>Runs\<close>

definition w_run :: "string \<Rightarrow> EvaluationRun" where
  "w_run i = \<lparr>run_id = i, run_candidateID = ''cand-'' @ i, run_environment = ''prod'', run_profile = ''profile'',
     run_status = RunPending, run_createdAt = w_time, run_startedAt = zeroTime, run_finishedAt = zeroTime,
     run_failureReason = ''''\<rparr>"

lemma w_run_new:
  "NewEvaluationRun ''ref'' ''cand-ref'' ''prod'' ''profile'' w_time = Inr (w_run ''ref'')"
  "NewEvaluationRun ''new'' ''cand-new'' ''prod'' ''profile'' w_time = Inr (w_run ''new'')"
  by (simp_all add: NewEvaluationRun_def w_ids w_run_def Time_IsZero_def w_time_def orElse_def)

definition w_running :: EvaluationRun where "w_running = fst (EvaluationRun_Start (w_run ''ref'') w_later)"
definition w_failed :: EvaluationRun where "w_failed = fst (EvaluationRun_Fail w_running w_later ''timeout'')"

lemma w_failed_reach: "run_reach w_failed"
proof -
  have s: "EvaluationRun_Start (w_run ''ref'') w_later = (w_running, None)"
    and f: "EvaluationRun_Fail w_running w_later ''timeout'' = (w_failed, None)" by code_simp+
  show ?thesis
    by (rule run_reach.step [OF run_reach.step [OF run_reach.new [OF w_run_new(1)] run_step.start [OF s]] run_step.fail [OF f]])
qed

theorem run_lifecycle_invariant_witness:
  "run_reach w_failed \<and> run_status w_failed = RunFailed \<and> t_ns (run_createdAt w_failed) \<le> t_ns (run_startedAt w_failed) \<and>
   t_ns (run_finishedAt w_failed) \<noteq> 0"
proof -
  have "run_status w_failed = RunFailed" by code_simp
  then show ?thesis
    using w_failed_reach run_lifecycle_invariant [OF w_failed_reach] by (simp add: RunStatus_IsTerminal_def)
qed

theorem run_terminal_is_final_witness:
  "RunStatus_IsTerminal (run_status w_failed) \<and> EvaluationRun_Start w_failed w_later = (w_failed, Some ErrInvalidTransition)"
proof -
  have "RunStatus_IsTerminal (run_status w_failed)" by code_simp
  then show ?thesis using run_terminal_is_final [of w_failed w_later] by blast
qed

subsection \<open>Aggregates\<close>

definition w_record :: "gotime \<Rightarrow> DecisionRecord" where
  "w_record ts = \<lparr>dr_EventID = ''e-1'', dr_Timestamp = ts, dr_ActorID = ''agent-7'', dr_ActorType = ''ai_agent'',
     dr_IdentityConfidence = Fin (3 / 4), dr_Environment = ''prod'',
     dr_Behavior = \<lparr>sf_ActorType = ''ai_agent'', sf_OperationCategory = ''tool'', sf_OperationName = ''read'',
       sf_TargetName = ''orders-db'', sf_TargetCategory = ''database'', sf_Environment = ''prod''\<rparr>,
     dr_FingerprintID = ''f'', dr_AnomalyScore = Fin (3 / 4), dr_AnomalyConfidence = Fin (1 / 2), dr_Contributors = [],
     dr_TrustScore = Fin (1 / 4), dr_RiskLevel = ''critical'', dr_ContextRisk = f0, dr_Decision = ''block'',
     dr_PolicyRule = ''approval'', dr_PolicyReason = ''agents need approval'', dr_MatchedDefault = False,
     dr_TraceID = '''', dr_SpanID = '''', dr_SessionID = '''', dr_DelegatedFrom = '''', dr_ApprovalStatus = ''required'',
     dr_ParentSpanID = '''', dr_SpanLineage = ''root'', dr_DurationNanos = ''1500'', dr_SpanStatus = ''ok''\<rparr>"

definition w_empty :: "string \<Rightarrow> EvaluationAggregate" where
  "w_empty i = \<lparr>ag_bound = True, ag_runID = i, ag_candidateID = ''cand-'' @ i, ag_environment = ''prod'',
     ag_profile = ''profile'', ag_recordCount = 0, ag_firstObservedAt = zeroTime, ag_lastObservedAt = zeroTime,
     ag_decisions = \<lparr>dc_Allow = 0, dc_ObserveOnly = 0, dc_Alert = 0, dc_Challenge = 0, dc_RequireApproval = 0, dc_Block = 0\<rparr>,
     ag_risks = \<lparr>rc_Low = 0, rc_Medium = 0, rc_High = 0, rc_Critical = 0\<rparr>,
     ag_approvals = \<lparr>apc_Unspecified = 0, apc_NotRequired = 0, apc_Required = 0, apc_Approved = 0, apc_Denied = 0\<rparr>,
     ag_policy = \<lparr>ps_MatchedRule = 0, ps_MatchedDefault = 0\<rparr>, ag_durations = zeroDurations, ag_statuses = zeroStatuses,
     ag_identityConfidence = zeroMetric, ag_anomalyScore = zeroMetric, ag_anomalyConfidence = zeroMetric,
     ag_trustScore = zeroMetric, ag_contextRisk = zeroMetric\<rparr>"
definition w_agg1 :: "string \<Rightarrow> EvaluationAggregate" where
  "w_agg1 i = fst (AddRecord (w_empty i) (w_record w_later))"
definition w_agg :: "string \<Rightarrow> EvaluationAggregate" where
  "w_agg i = fst (AddRecord (w_agg1 i) (w_record w_time))"

definition w_records :: "DecisionRecord list" where "w_records = [w_record w_later, w_record w_time]"

lemma w_new_agg: "NewEvaluationAggregate (w_run ''ref'') = Inr (w_empty ''ref'')"
  "NewEvaluationAggregate (w_run ''new'') = Inr (w_empty ''new'')"
  by (simp_all add: w_empty_def NewEvaluationAggregate_def validateRunBinding_def w_run_def w_ids Time_IsZero_def w_time_def
      RunStatus_valid_def orElse_def)

lemma w_record_duration: "ValidateDurationNanos (w_record ts) = Inr 1500"
proof -
  have f: "FormatUint10 1500 = ''1500''" by (simp add: FormatUint10_def dec_nat.simps)
  have "ParseUint10 ''1500'' = Some 1500" unfolding f [symmetric] by (rule ParseUint10_FormatUint10)
  moreover have "\<not> MaxDurationNanos < 1500" by (simp add: MaxDurationNanos_def)
  ultimately show ?thesis using f by (simp add: ValidateDurationNanos_def w_record_def)
qed

lemma w_fields:
  "dr_Timestamp (w_record ts) = ts" "dr_DurationNanos (w_record ts) = ''1500''"
  "dr_EventID (w_record ts) \<noteq> ''''" "dr_Environment (w_record ts) = ''prod''" "sf_Environment (dr_Behavior (w_record ts)) = ''prod''"
  "dr_Decision (w_record ts) = ''block''" "dr_RiskLevel (w_record ts) = ''critical''" "dr_ApprovalStatus (w_record ts) = ''required''"
  "\<not> dr_MatchedDefault (w_record ts)" "dr_PolicyRule (w_record ts) \<noteq> ''''" "in01 (dr_IdentityConfidence (w_record ts))"
  "in01 (dr_AnomalyScore (w_record ts))" "in01 (dr_AnomalyConfidence (w_record ts))" "in01 (dr_TrustScore (w_record ts))"
  "in01 (dr_ContextRisk (w_record ts))" "dr_SpanStatus (w_record ts) = ''ok''"
  by (simp_all add: w_record_def f0_def)

lemmas w_add_eval = AddRecord_def AddRecord_guard_def AddRecord_selection_def AddRecord_fold_def w_fields DecisionCounts_count_def
  RiskCounts_count_def ApprovalCounts_count_def validateUnitInterval_None_iff [THEN iffD2] observeOperational_def
  w_record_duration DurationSummary_observe_def SpanStatusCounts_count_def Time_IsZero_def MaxUint64_def
  zeroDurations_def zeroStatuses_def

lemma w_first_added: "t_ns ts \<noteq> 0 \<Longrightarrow> snd (AddRecord (w_empty i) (w_record ts)) = None"
  by (simp add: w_add_eval w_empty_def)

lemma w_added:
  "AddRecord (w_empty ''ref'') (w_record w_later) = (w_agg1 ''ref'', None)"
  "AddRecord (w_empty ''new'') (w_record w_later) = (w_agg1 ''new'', None)"
  "AddRecord (w_agg1 ''ref'') (w_record w_time) = (w_agg ''ref'', None)"
  "AddRecord (w_agg1 ''new'') (w_record w_time) = (w_agg ''new'', None)"
proof -
  have t: "t_ns w_later \<noteq> 0" "t_ns w_time \<noteq> 0" by (simp_all add: w_later_def w_time_def)
  have 1: "snd (AddRecord (w_empty i) (w_record w_later)) = None" for i
    using w_first_added t(1) .
  have 2: "snd (AddRecord (w_agg1 i) (w_record w_time)) = None" for i
    by (simp add: w_add_eval t w_empty_def w_agg1_def)
  show "AddRecord (w_empty ''ref'') (w_record w_later) = (w_agg1 ''ref'', None)"
    "AddRecord (w_empty ''new'') (w_record w_later) = (w_agg1 ''new'', None)"
    "AddRecord (w_agg1 ''ref'') (w_record w_time) = (w_agg ''ref'', None)"
    "AddRecord (w_agg1 ''new'') (w_record w_time) = (w_agg ''new'', None)"
    using 1 2 by (simp_all add: w_agg1_def w_agg_def prod_eq_iff)
qed

lemma w_agg_reach: "agg_reach (w_run ''ref'') w_records (w_agg ''ref'')" "agg_reach (w_run ''new'') w_records (w_agg ''new'')"
  using agg_reach.add [OF agg_reach.add [OF agg_reach.empty [OF w_new_agg(1)] w_added(1)] w_added(3)]
    agg_reach.add [OF agg_reach.add [OF agg_reach.empty [OF w_new_agg(2)] w_added(2)] w_added(4)]
  by (simp_all add: w_records_def)

theorem add_record_all_or_nothing_witness:
  "snd (AddRecord (w_agg ''new'') ((w_record w_time)\<lparr>dr_Decision := ''maybe''\<rparr>)) \<noteq> None \<and>
   fst (AddRecord (w_agg ''new'') ((w_record w_time)\<lparr>dr_Decision := ''maybe''\<rparr>)) = w_agg ''new''"
  using add_record_all_or_nothing [of "w_agg ''new''" "(w_record w_time)\<lparr>dr_Decision := ''maybe''\<rparr>"] by simp

theorem aggregate_totals_witness:
  "agg_reach (w_run ''new'') w_records (w_agg ''new'') \<and> unat (ag_recordCount (w_agg ''new'')) = 2 \<and>
   unat (dc_Block (ag_decisions (w_agg ''new''))) = 2 \<and> DecisionCounts_Total (ag_decisions (w_agg ''new'')) = ag_recordCount (w_agg ''new'')"
proof -
  note t = aggregate_totals [OF w_agg_reach(2), unfolded Let_def]
  have m: "map dr_Decision w_records = [''block'', ''block'']" "length w_records = 2"
    by (simp_all add: w_records_def w_record_def)
  have "unat (dc_Block (ag_decisions (w_agg ''new''))) = count_list (map dr_Decision w_records) ''block''" using t by blast
  moreover have "DecisionCounts_Total (ag_decisions (w_agg ''new'')) = ag_recordCount (w_agg ''new'')" using t by blast
  ultimately show ?thesis using w_agg_reach(2) conjunct1 [OF t] m by simp
qed

theorem aggregate_time_range_witness:
  "agg_reach (w_run ''new'') w_records (w_agg ''new'') \<and> w_records \<noteq> [] \<and>
   t_ns (ag_firstObservedAt (w_agg ''new'')) = t_ns w_time \<and> t_ns (ag_lastObservedAt (w_agg ''new'')) = t_ns w_later"
proof -
  have n: "w_records \<noteq> []" by (simp add: w_records_def)
  show ?thesis using w_agg_reach(2) n aggregate_time_range [OF w_agg_reach(2) n]
    by (simp add: w_records_def w_record_def w_time_def w_later_def)
qed

theorem aggregate_survives_storage_witness:
  "agg_reach (w_run ''new'') w_records (w_agg ''new'') \<and>
   validateRestoredOperational (ag_durations (w_agg ''new'')) (ag_statuses (w_agg ''new'')) (ag_recordCount (w_agg ''new'')) = None"
  using w_agg_reach(2) aggregate_survives_storage [OF w_agg_reach(2)] by simp

subsection \<open>Scorecards and gates\<close>

definition w_diff :: BehaviorDiff where
  "w_diff = \<lparr>bd_referenceRunID = ''ref'', bd_referenceCandidateID = ''cand-ref'', bd_referenceProfile = ''profile'',
     bd_referenceObservations = ag_recordCount (w_agg ''ref''), bd_referenceDistinctCount = 1, bd_candidateRunID = ''new'',
     bd_candidateCandidateID = ''cand-new'', bd_candidateProfile = ''profile'',
     bd_candidateObservations = ag_recordCount (w_agg ''new''), bd_candidateDistinctCount = 2, bd_environment = ''prod'',
     bd_deltas = [], bd_added = 1, bd_removed = 0, bd_shared = 1,
     bd_changes = unfoldedChanges [''fp-1''], bd_correlationState = CorrelationComplete,
     bd_operational = compareOperational zeroSide zeroSide\<rparr>"

definition w_card :: EvaluationScorecard where "w_card = scorecard_of (w_agg ''ref'') (w_agg ''new'') w_diff"

theorem scorecard_accepts_matching_evidence_witness:
  "NewEvaluationScorecard (w_agg ''ref'') (w_agg ''new'') w_diff = Inr w_card"
  unfolding w_card_def
  by (rule scorecard_accepts_matching_evidence [OF w_agg_reach]) (simp_all add: w_diff_def w_run_def)

lemma w_card_new: "NewEvaluationScorecard (w_agg ''ref'') (w_agg ''new'') w_diff = Inr w_card"
proof -
  have "validateDiffEvidence w_diff = None" by (simp add: validateDiffEvidence_def w_diff_def)
  moreover have "assertSameComparison (w_agg ''ref'') (w_agg ''new'') w_diff = None"
    using agg_reach_identity [OF w_agg_reach(1)] agg_reach_identity [OF w_agg_reach(2)]
    by (simp add: assertSameComparison_def w_diff_def w_run_def)
  ultimately show ?thesis
    using reachable_evidence [OF w_agg_reach(1)] reachable_evidence [OF w_agg_reach(2)] by (simp add: scorecard_Inr w_card_def)
qed

definition w_limits :: "u64 \<Rightarrow> EvaluationGateLimits" where
  "w_limits b = \<lparr>gl_MaxAddedBehaviors = 1, gl_MaxBlockDecisions = b, gl_MaxCriticalRiskObservations = 5,
     gl_MaxAddedBehaviorChanges = NewOptionalGateLimit 1\<rparr>"

lemma w_card_behavior:
  "sk_bound w_card" "bs_AddedCount (sk_behavior w_card) = 1" "bs_RemovedCount (sk_behavior w_card) = 0"
  "bs_SharedCount (sk_behavior w_card) = 1" "bs_ReferenceDistinctCount (sk_behavior w_card) = 1"
  "bs_CandidateDistinctCount (sk_behavior w_card) = 2" "bs_AddedChangeCount (sk_behavior w_card) = 1"
  "bs_CorrelationState (sk_behavior w_card) = CorrelationComplete" "bs_CountingPolicyVersion (sk_behavior w_card) \<noteq> ''''"
  by (simp_all add: w_card_def scorecard_of_def w_diff_def BehaviorDiff_AddedChangeCount_def BehaviorDiff_CorrelationState_def
      unfoldedChanges_def CountingPolicyVersion_def CorrelationComplete_def Let_def)

lemma w_gate:
  "EvaluateEvaluationGate w_card (NewEvaluationGatePolicy (w_limits b)) = Inr (gateResult w_card (w_limits b))"
  unfolding gate_Inr
  by (simp add: NewEvaluationGatePolicy_def w_limits_def NewOptionalGateLimit_def w_card_behavior
      validateBehaviorSummaryArithmetic_def validateChangeCountEvidence_def Let_def)

lemma w_counts:
  "unat (sk_referenceRecords w_card) = 2" "unat (sk_candidateRecords w_card) = 2"
  "unat (er_count (rcmp_candidate (dcmp_Block (sk_decisions w_card)))) = 2"
  "unat (er_count (rcmp_candidate (rkcmp_Critical (sk_risks w_card)))) = 2"
  using agg_reach_inv [OF w_agg_reach(1)] agg_reach_inv [OF w_agg_reach(2)]
  by (auto simp: w_card_def scorecard_of_def compareRates_def Let_def counts_inv_def decisions_rep_def risks_rep_def
      w_records_def w_record_def)

theorem gate_verdict_exact_witness:
  "EvaluateEvaluationGate w_card (NewEvaluationGatePolicy (w_limits 2)) = Inr (gateResult w_card (w_limits 2)) \<and>
   gr_verdict (gateResult w_card (w_limits 2)) = GateVerdictPass"
  using w_gate [of 2] gate_verdict_exact [OF w_gate [of 2]]
  by (simp add: w_counts w_card_behavior NewEvaluationGatePolicy_def w_limits_def NewOptionalGateLimit_def)

lemma w_pass: "gr_verdict (gateResult w_card (w_limits 2)) = GateVerdictPass"
  unfolding verdict_pass
  by (simp add: word_le_nat_alt w_counts w_card_behavior w_limits_def NewOptionalGateLimit_def)

theorem gate_monotone_witness:
  "\<exists>r'. limits_le (w_limits 2) (w_limits 3) \<and>
     EvaluateEvaluationGate w_card (NewEvaluationGatePolicy (w_limits 3)) = Inr r' \<and> gr_verdict r' = GateVerdictPass"
proof -
  have l: "limits_le (w_limits 2) (w_limits 3)" by (simp add: limits_le_def w_limits_def)
  show ?thesis using l gate_monotone [OF w_gate w_pass l] by blast
qed

theorem gate_storage_roundtrip_witness:
  "EvaluateEvaluationGate w_card (NewEvaluationGatePolicy (w_limits 0)) = Inr (gateResult w_card (w_limits 0)) \<and>
   restore_of (gateResult w_card (w_limits 0)) = Inr (gateResult w_card (w_limits 0))"
  using w_gate [of 0] gate_storage_roundtrip [OF w_gate [of 0]] by simp

theorem gate_counts_record_stream_witness:
  "unat (mag_Actual (gr_blockDecisions (gateResult w_card (w_limits 2)))) = 2 \<and>
   gr_verdict (gateResult w_card (w_limits 2)) = GateVerdictPass \<and> w_records \<noteq> []"
  using gate_counts_record_stream [OF w_agg_reach w_card_new w_gate [of 2]] w_pass
  by (simp add: w_records_def w_record_def)

subsection \<open>From event to evidence\<close>

theorem engine_record_accepted_witness:
  "\<exists>r. Engine_Analyze w_log2 w_showf InMemory_Get
       (engine_run w_log2 w_showf InMemory_Get InMemory_Observe w_strict [w_second]) w_first = Inr r \<and>
     snd (AddRecord (w_empty ''new'') (Result_DecisionRecord r)) = None"
proof -
  let ?e = "engine_run w_log2 w_showf InMemory_Get InMemory_Observe w_strict [w_second]"
  obtain r where r: "Engine_Analyze w_log2 w_showf InMemory_Get ?e w_first = Inr r" using w_valid(1) Analyze_Inr_iff by blast
  have s: "en_store w_strict = NewInMemory" "weights_ok (en_anomalyConfig w_strict)" using default_weights by simp_all
  have a: "agg_reach (w_run ''new'') [] (w_empty ''new'')" "ag_recordCount (w_empty ''new'') \<noteq> MaxUint64"
    by (rule agg_reach.empty [OF w_new_agg(2)]) (simp add: w_empty_def MaxUint64_def)
  have "snd (AddRecord (w_empty ''new'') (Result_DecisionRecord r)) = None"
    using engine_record_accepted [OF s w_policy_valid refl r a]
    by (simp add: w_first_def w_event_def w_run_def w_empty_def zeroDurations_def)
  then show ?thesis using r by blast
qed

end
