(* ===== verification/Witnesses_Evidence.thy ===== *)
theory Witnesses_Evidence
  imports Witnesses_Platform
begin

text \<open>
  Concrete instances of the theorems on behavioural evidence, change counting and stored counters:
  each applies its theorem at evaluated data on which the hypotheses hold.
\<close>

subsection \<open>Collectors\<close>

definition w_coll0 :: "string \<Rightarrow> BehaviorCollector" where
  "w_coll0 i = \<lparr>co_bound = True, co_runID = i, co_candidateID = ''cand-'' @ i, co_environment = ''prod'', co_profile = ''profile'',
     co_observations = 0, co_entries = fmempty, co_byBehavior = fmempty, co_complete = True\<rparr>"

definition w_rec2 :: DecisionRecord where
  "w_rec2 = (w_record w_time)\<lparr>dr_FingerprintID := ''g'',
     dr_Behavior := dr_Behavior (w_record w_time)\<lparr>sf_OperationName := ''write''\<rparr>\<rparr>"

definition w_coll1 :: "string \<Rightarrow> BehaviorCollector" where
  "w_coll1 i = fst (ObserveOperational (w_coll0 i) (w_record w_later) noFacts)"

definition w_coll2 :: "string \<Rightarrow> BehaviorCollector" where
  "w_coll2 i = fst (ObserveOperational (w_coll1 i) w_rec2 noFacts)"

lemma w_new_coll: "NewBehaviorCollector (w_run ''ref'') = Inr (w_coll0 ''ref'')" "NewBehaviorCollector (w_run ''new'') = Inr (w_coll0 ''new'')"
  by (simp_all add: w_coll0_def NewBehaviorCollector_def validateRunBinding_def w_run_def w_ids Time_IsZero_def w_time_def
      RunStatus_valid_def orElse_def)

lemma w_rec2_duration: "ValidateDurationNanos w_rec2 = Inr 1500"
proof -
  have "dr_DurationNanos w_rec2 = dr_DurationNanos (w_record w_time)" by (simp add: w_rec2_def)
  then show ?thesis using w_record_duration [of w_time] unfolding ValidateDurationNanos_def by (simp only:)
qed

lemma w_operational: "OperationalFacts_Validate noFacts = None"
  by code_simp

lemma w_bucket: "durationBucket 1500 = 0"
  by code_simp

lemma w_summary_ex:
  assumes "ValidateDurationNanos r = Inr 1500" and "dr_DurationNanos r = ''1500''" and "dr_SpanStatus r = ''ok''"
  shows "\<exists>s. OperationalSummary_observe zeroOperational r noFacts = Inr s"
  using assms by (simp add: OperationalSummary_observe_def observeOperational_def observe_buckets_def observe_http_def observe_tokens_def
      w_bucket zeroOperational_def noFacts_def DurationSummary_observe_def SpanStatusCounts_count_def zeroDurations_def zeroStatuses_def
      addCount_def andThen_def MaxUint64_def Usage_Observed_def Let_def zeroTokens_def zeroHTTP_def noUsage_def DurationBucketCount_def)

lemma w_fidelity: "\<exists>b. BehaviorFidelity_observe zeroFidelity (of_Fidelity noFacts) (of_Layer noFacts) = Inr b"
proof -
  have "case BehaviorFidelity_observe zeroFidelity (of_Fidelity noFacts) (of_Layer noFacts) of Inl e \<Rightarrow> False | Inr b \<Rightarrow> True"
    by code_simp
  then show ?thesis by (auto split: sum.splits)
qed

lemma validateText_printable: "v \<noteq> '''' \<Longrightarrow> length v \<le> 256 \<Longrightarrow> printable v \<Longrightarrow> validateText k v = None"
  using validateID_printable [of v] by (auto simp: validateID_def validateText_def orElse_None_iff split: if_splits)

lemma w_text: "validateText k ''f'' = None" "validateText k ''g'' = None" "validateText k ''read'' = None" "validateText k ''write'' = None"
  "validateText k ''orders-db'' = None"
  by (rule validateText_printable; code_simp)+

lemma w_identity:
  "validateBehaviorIdentity ''f'' (dr_Behavior (w_record ts)) = None"
  "validateBehaviorIdentity ''g'' (dr_Behavior w_rec2) = None"
  by (simp_all add: validateBehaviorIdentity_def w_record_def w_rec2_def w_text validActorType_def validOperationCategory_def validTargetCategory_def)


lemma w_guard: "w_later \<noteq> zeroTime \<and> w_time \<noteq> zeroTime \<and> \<not> Time_IsZero w_later \<and> \<not> Time_IsZero w_time"
  by code_simp

lemma w_rec: "dr_FingerprintID (w_record ts) = ''f''" "dr_EventID (w_record ts) = ''e-1''" "dr_Timestamp (w_record ts) = ts"
  "dr_Environment (w_record ts) = ''prod''" "sf_Environment (dr_Behavior (w_record ts)) = ''prod''"
  "dr_FingerprintID w_rec2 = ''g''" "dr_EventID w_rec2 = ''e-1''" "dr_Timestamp w_rec2 = w_time" "dr_Environment w_rec2 = ''prod''"
  "sf_Environment (dr_Behavior w_rec2) = ''prod''" "dr_Behavior (w_record ts) \<noteq> dr_Behavior w_rec2"
  "dr_DurationNanos w_rec2 = ''1500''" "dr_SpanStatus w_rec2 = ''ok''" "dr_DurationNanos (w_record ts) = ''1500''" "dr_SpanStatus (w_record ts) = ''ok''"
  by (simp_all add: w_record_def w_rec2_def)

lemmas w_eval = Observe_guard_def w_rec w_identity w_operational w_guard MaxUint64_def maxBehaviorEntries_def orElse_def Let_def

lemma w_observe1:
  "ObserveOperational (w_coll0 i) (w_record w_later) noFacts = (w_coll1 i, None)"
  "\<exists>e. w_coll1 i = (w_coll0 i)\<lparr>co_observations := 1, co_entries := fmupd ''f'' e fmempty,
     co_byBehavior := fmupd (dr_Behavior (w_record w_later)) ''f'' fmempty\<rparr>"
proof -
  obtain s b where sb: "OperationalSummary_observe zeroOperational (w_record w_later) noFacts = Inr s"
    "BehaviorFidelity_observe zeroFidelity (of_Fidelity noFacts) (of_Layer noFacts) = Inr b"
    using w_summary_ex [OF w_record_duration w_rec(14,15)] w_fidelity by blast
  have "snd (ObserveOperational (w_coll0 i) (w_record w_later) noFacts) = None"
    by (simp add: ObserveOperational_def w_coll0_def sb w_eval)
  then show "ObserveOperational (w_coll0 i) (w_record w_later) noFacts = (w_coll1 i, None)" by (simp add: w_coll1_def prod_eq_iff)
  show "\<exists>e. w_coll1 i = (w_coll0 i)\<lparr>co_observations := 1, co_entries := fmupd ''f'' e fmempty,
     co_byBehavior := fmupd (dr_Behavior (w_record w_later)) ''f'' fmempty\<rparr>"
    unfolding w_coll1_def by (simp add: ObserveOperational_def w_coll0_def sb w_eval) blast
qed

lemma w_observe2: "ObserveOperational (w_coll1 i) w_rec2 noFacts = (w_coll2 i, None)"
proof -
  obtain s b where sb: "OperationalSummary_observe zeroOperational w_rec2 noFacts = Inr s"
    "BehaviorFidelity_observe zeroFidelity (of_Fidelity noFacts) (of_Layer noFacts) = Inr b"
    using w_summary_ex [OF w_rec2_duration w_rec(12,13)] w_fidelity by blast
  obtain e where e: "w_coll1 i = (w_coll0 i)\<lparr>co_observations := 1, co_entries := fmupd ''f'' e fmempty,
     co_byBehavior := fmupd (dr_Behavior (w_record w_later)) ''f'' fmempty\<rparr>" using w_observe1(2) by blast
  have "snd (ObserveOperational (w_coll1 i) w_rec2 noFacts) = None"
    unfolding e by (simp add: ObserveOperational_def w_coll0_def sb w_eval fmsize_def fcard_finsert_if fcard_fempty)
  then show ?thesis by (simp add: w_coll2_def prod_eq_iff)
qed

lemma w_coll_reach:
  "coll_reach (w_run ''ref'') [(w_record w_later, noFacts)] (w_coll1 ''ref'')"
  "coll_reach (w_run ''new'') [(w_record w_later, noFacts), (w_rec2, noFacts)] (w_coll2 ''new'')"
  using coll_reach.accept [OF coll_reach.new [OF w_new_coll(1)] w_observe1(1)]
    coll_reach.accept [OF coll_reach.accept [OF coll_reach.new [OF w_new_coll(2)] w_observe1(1)] w_observe2] by simp_all

lemma w_complete: "co_complete (w_coll1 i)" "co_complete (w_coll2 i)"
proof -
  show 1: "co_complete (w_coll1 i)" using w_observe1(2) [of i] by (auto simp: w_coll0_def)
  have "co_complete c' = co_complete c" if "ObserveOperational c r f = (c', None)" for c c' r f
    using that by (elim Observe_accepted) simp
  from this [OF w_observe2] 1 show "co_complete (w_coll2 i)" by simp
qed

lemma w_summaries: "\<exists>s. fold_operational zeroOperational [(w_record w_later, noFacts)] = Inr s"
  "\<exists>s. fold_operational zeroOperational [(w_rec2, noFacts)] = Inr s"
  using w_summary_ex [OF w_record_duration w_rec(14,15)] w_summary_ex [OF w_rec2_duration w_rec(12,13)] by simp_all

theorem restart_continues_run_witness:
  "unat (sn_observations (Snapshot (w_coll2 ''new''))) = 2 \<and> behaviorCollectorFromSnapshot (Snapshot (w_coll2 ''new'')) = Inr (w_coll2 ''new'')"
  using restart_continues_run [OF w_coll_reach(2)] by simp

theorem run_summary_exact_witness:
  "\<exists>u. sum_entries zeroOperational (sn_entries (Snapshot (w_coll1 ''ref''))) = Inr u"
  using run_summary_exact [OF w_coll_reach(1)] w_summaries(1) by blast


lemma w_both: "\<exists>s. fold_operational zeroOperational [(w_record w_later, noFacts), (w_rec2, noFacts)] = Inr s"
  by (simp add: OperationalSummary_observe_def observeOperational_def observe_buckets_def observe_http_def observe_tokens_def
      w_record_duration w_rec2_duration w_rec w_bucket zeroOperational_def noFacts_def DurationSummary_observe_def
      SpanStatusCounts_count_def zeroDurations_def zeroStatuses_def addCount_def andThen_def MaxUint64_def Usage_Observed_def
      Let_def zeroTokens_def zeroHTTP_def noUsage_def DurationBucketCount_def)


lemma w_reach2: "coll_reach (w_run ''ref'') [(w_record w_later, noFacts)] (w_coll1 ''ref'')"
  "coll_reach (w_run ''ref'') [(w_record w_later, noFacts)] (fst (ObserveOperational (w_coll1 ''ref'') ((w_record w_time)\<lparr>dr_EventID := ''''\<rparr>) noFacts))"
proof -
  have "snd (ObserveOperational (w_coll1 ''ref'') ((w_record w_time)\<lparr>dr_EventID := ''''\<rparr>) noFacts) \<noteq> None"
    by (simp add: ObserveOperational_def Observe_guard_def orElse_def)
  then obtain e where e: "ObserveOperational (w_coll1 ''ref'') ((w_record w_time)\<lparr>dr_EventID := ''''\<rparr>) noFacts =
      (fst (ObserveOperational (w_coll1 ''ref'') ((w_record w_time)\<lparr>dr_EventID := ''''\<rparr>) noFacts), Some e)"
    by (metis not_None_eq prod.collapse)
  show "coll_reach (w_run ''ref'') [(w_record w_later, noFacts)] (fst (ObserveOperational (w_coll1 ''ref'') ((w_record w_time)\<lparr>dr_EventID := ''''\<rparr>) noFacts))"
    by (rule coll_reach.refuse [OF w_coll_reach(1) e])
qed (rule w_coll_reach(1))

theorem snapshot_order_independent_witness:
  "Snapshot (w_coll1 ''ref'') =
     Snapshot (fst (ObserveOperational (w_coll1 ''ref'') ((w_record w_time)\<lparr>dr_EventID := ''''\<rparr>) noFacts))"
proof (rule snapshot_order_independent [OF w_reach2 refl])
  show "co_complete (w_coll1 ''ref'') = co_complete (fst (ObserveOperational (w_coll1 ''ref'') ((w_record w_time)\<lparr>dr_EventID := ''''\<rparr>) noFacts))"
    using w_complete(1) [of "''ref''"] by (simp add: ObserveOperational_def Observe_guard_def orElse_def)
qed

subsection \<open>Diffs\<close>

lemma w_agree: "\<forall>x \<in> set [(w_record w_later, noFacts)]. \<forall>y \<in> set [(w_record w_later, noFacts), (w_rec2, noFacts)]. agree x y"
  by (simp add: agree_def w_rec)

lemma w_comparable: "\<exists>b. CompareBehaviorSnapshots (Snapshot (w_coll1 ''ref'')) (Snapshot (w_coll2 ''new'')) = Inr b"
  unfolding comparable_iff [OF w_coll_reach] using w_complete w_agree w_both w_summaries(1) by (simp add: w_run_def)

theorem diff_defined_witness: "\<exists>b. CompareBehaviorSnapshots (Snapshot (w_coll1 ''ref'')) (Snapshot (w_coll2 ''new'')) = Inr b"
  unfolding diff_defined [OF w_coll_reach] using w_complete w_agree w_both w_summaries(1) by (simp add: w_run_def)

lemma w_fps: "fps_in [(w_record w_later, noFacts)] = {''f''}" "fps_in [(w_record w_later, noFacts), (w_rec2, noFacts)] = {''f'', ''g''}"
  by (simp_all add: fps_in_def w_rec)

theorem diff_exact_witness:
  "\<exists>b. CompareBehaviorSnapshots (Snapshot (w_coll1 ''ref'')) (Snapshot (w_coll2 ''new'')) = Inr b \<and>
     map de_FingerprintID (bd_deltas b) = [''f'', ''g''] \<and> bd_added b = 1 \<and> bd_removed b = 0 \<and> bd_shared b = 1"
proof -
  obtain b where b: "CompareBehaviorSnapshots (Snapshot (w_coll1 ''ref'')) (Snapshot (w_coll2 ''new'')) = Inr b"
    using w_comparable by blast
  have s: "{''f''} \<union> {''f'', ''g''} = {''f'', ''g''}" "sorted_list_of_set {''f'', ''g''} = [''f'', ''g'']" by code_simp+
  have d: "{''f'', ''g''} - {''f''} = {''g''}" "{''f''} - {''f'', ''g''} = {}" "{''f''} \<inter> {''f'', ''g''} = {''f''}" by auto
  have "map de_FingerprintID (bd_deltas b) = [''f'', ''g'']" "bd_added b = of_nat (card {''g''})" "bd_removed b = of_nat (card ({} :: string set))"
    "bd_shared b = of_nat (card {''f''})"
    using diff_exact [OF w_coll_reach b] unfolding w_fps s d by blast+
  then show ?thesis using b by simp
qed

theorem correlation_total_witness:
  "\<exists>b changes st. CompareBehaviorSnapshots (Snapshot (w_coll1 ''ref'')) (Snapshot (w_coll2 ''new'')) = Inr b \<and>
     WithCorrelation b [] \<lparr>oh_state = ObservationHistoryComplete, oh_retained = 0\<rparr> =
       Inr (b\<lparr>bd_changes := changes, bd_correlationState := st\<rparr>) \<and> length changes \<le> 1"
proof -
  obtain b where b: "CompareBehaviorSnapshots (Snapshot (w_coll1 ''ref'')) (Snapshot (w_coll2 ''new'')) = Inr b"
    using w_comparable by blast
  have d: "{''f'', ''g''} - {''f''} = {''g''}" by auto
  show ?thesis using b correlation_total [OF w_coll_reach b, of "[]" "\<lparr>oh_state = ObservationHistoryComplete, oh_retained = 0\<rparr>"]
    unfolding w_fps d by auto
qed

subsection \<open>Summaries and their stored form\<close>

theorem summary_sum_exact_witness:
  "\<exists>s t u. fold_operational zeroOperational [(w_record w_later, noFacts)] = Inr s \<and>
     fold_operational zeroOperational [(w_rec2, noFacts)] = Inr t \<and> OperationalSummary_Add s t = Inr u"
proof -
  obtain s t where st: "fold_operational zeroOperational [(w_record w_later, noFacts)] = Inr s"
    "fold_operational zeroOperational [(w_rec2, noFacts)] = Inr t" using w_summaries by blast
  have m: "mset [(w_record w_later, noFacts), (w_rec2, noFacts)] = mset [(w_record w_later, noFacts)] + mset [(w_rec2, noFacts)]" by simp
  show ?thesis using st w_both summary_sum_exact [OF st m] by blast
qed

theorem stored_summary_restores_witness:
  "\<exists>s. fold_operational zeroOperational [(w_record w_later, noFacts), (w_rec2, noFacts)] = Inr s \<and>
     decodeOperationalCounts (encodeOperationalCounts s) = Inr s \<and> validateOperationalSummary s 2 = None"
proof -
  obtain s where s: "fold_operational zeroOperational [(w_record w_later, noFacts), (w_rec2, noFacts)] = Inr s" using w_both by blast
  have "validateOperationalSummary s 2 = None" "decodeOperationalCounts (encodeOperationalCounts s) = Inr s"
    using stored_summary_restores [OF s] by simp_all
  then show ?thesis using s by blast
qed

subsection \<open>Counting\<close>

theorem cycle_test_exact_witness:
  "graph_on [''a'', ''b''] (fmupd ''a'' [''b''] fmempty) \<and> \<not> hasCycle [''a'', ''b''] (fmupd ''a'' [''b''] fmempty)"
proof -
  have e: "edges (fmupd ''a'' [''b''] fmempty) = {(''a'', ''b'')}" by (auto simp: edges_def fmget_def split: if_splits)
  have g: "graph_on [''a'', ''b''] (fmupd ''a'' [''b''] fmempty)" by (auto simp: graph_on_def e fmget_def)
  have "acyclic {(''a'', ''b'')}" unfolding acyclic_insert by (auto simp: acyclic_def)
  then show ?thesis using g cycle_test_exact [of "[''a'', ''b'']" "fmupd ''a'' [''b''] fmempty" "''a''"] e by simp
qed

definition w_ob :: "u64 \<Rightarrow> Observation" where
  "w_ob n = (case ObservationFromRecord n (w_record w_time) True of Inr ob \<Rightarrow> ob)"

definition w_spans :: "Observation list" where
  "w_spans = [(w_ob 1)\<lparr>ob_FingerprintID := ''a'', ob_TraceID := ''t'', ob_SpanID := ''s'', ob_ParentSpanID := ''''\<rparr>,
     (w_ob 2)\<lparr>ob_FingerprintID := ''b'', ob_TraceID := ''t'', ob_SpanID := ''u'', ob_ParentSpanID := ''s''\<rparr>]"

lemma w_beneath:
  "\<not> ambiguous (set w_spans)" "beneath_edges (set w_spans) {''a'', ''b''} = {(''a'', ''b'')}"
  "explained (set w_spans) {''a'', ''b''} ''b''" "\<not> explained (set w_spans) {''a'', ''b''} ''a''"
  by (auto simp: w_spans_def ambiguous_def names_span_def span_of_def beneath_edges_def explained_def recorded_beneath_def)

theorem change_count_rule_witness:
  "foldAddedChanges [''a'', ''b''] (buildBehaviorParentage w_spans) CorrelationComplete =
     ([\<lparr>bc_RootFingerprintID = ''a'', bc_ContributingFingerprintIDs = [''a'', ''b'']\<rparr>], CorrelationComplete)"
proof -
  obtain changes st where f: "foldAddedChanges [''a'', ''b''] (buildBehaviorParentage w_spans) CorrelationComplete = (changes, st)" by fastforce
  have d: "distinct [''a'', ''b'']" by simp
  have ac: "acyclic {(''a'', ''b'')}" unfolding acyclic_insert by (auto simp: acyclic_def)
  note r = change_count_rule [OF d f]
  have st: "st = CorrelationComplete" using r w_beneath ac by simp
  have "{(''a'', ''b'')}\<^sup>* `` {''a''} = {''a'', ''b''}"
    by (auto elim: rtranclE)
  then have "changes = [\<lparr>bc_RootFingerprintID = ''a'', bc_ContributingFingerprintIDs = [''a'', ''b'']\<rparr>]"
    using r w_beneath st by simp
  then show ?thesis using f st by simp
qed

theorem fold_order_independent_witness:
  "foldAddedChanges [''f''] (buildBehaviorParentage [w_ob 1, w_ob 2]) CorrelationComplete =
   foldAddedChanges [''f''] (buildBehaviorParentage [w_ob 2, w_ob 1]) CorrelationComplete"
  by (rule fold_order_independent) auto

subsection \<open>Retained history\<close>

lemma w_ob_sequence: "n \<noteq> 0 \<Longrightarrow> ob_Sequence (w_ob n) = n"
  by (simp add: w_ob_def ObservationFromRecord_def w_rec w_guard w_record_duration)

lemma w_ob_storable: "n \<noteq> 0 \<Longrightarrow> storable_observation (w_ob n)"
proof -
  assume n: "n \<noteq> 0"
  have "time_storable (Time_UTC w_time)" by (simp add: time_storable_def Time_Year_def yearOfDay_def Time_UTC_def w_time_def Let_def)
  then show ?thesis using n
    by (simp add: storable_observation_def w_ob_def ObservationFromRecord_def w_rec w_guard w_record_duration MaxDurationNanos_def SpanStatus_Valid_def)
qed

theorem retained_history_exact_witness:
  "\<exists>s. dense 0 [w_ob 1, w_ob 2] \<and> list_all storable_observation [w_ob 1, w_ob 2] \<and>
     retain_all (\<lambda>x. []) emptyRun [w_ob 1, w_ob 2] = Inr s \<and>
     retainedHistory (\<lambda>x. []) (Some s) = Inr ([w_ob 1, w_ob 2], \<lparr>oh_state = ObservationHistoryComplete, oh_retained = 2\<rparr>)"
proof -
  have d: "dense 0 [w_ob 1, w_ob 2]" unfolding dense_Cons by (simp add: dense_def w_ob_sequence)
  have t: "list_all storable_observation [w_ob 1, w_ob 2]" using w_ob_storable by simp
  show ?thesis using d t retained_history_exact [OF d, of "\<lambda>x. []"] by auto
qed

end
