(* ===== verification/Platform_Runs.thy ===== *)
theory Platform_Runs
  imports Platform_Diff
begin

text \<open>
  Runs in the store (the run tables of \<^verbatim>\<open>platform/sqlite.go\<close>, the lifecycle calls of
  \<^verbatim>\<open>platform/controlplane.go\<close>, the recency keys of \<^verbatim>\<open>platform/recency.go\<close>). A row
  keeps the columns of a run; a time column keeps the time itself, since its RFC 3339 text is the
  library's, and an absent one is \<^verbatim>\<open>NULL\<close>. A transaction is one function of the table.
  The theorems are that a run loaded from its row is the run that was written, that only rows a
  lifecycle can produce are accepted, and that the compare-and-swap update admits exactly one of two
  racing transitions.
\<close>

subsection \<open>Recency keys\<close>

definition unixEpoch :: int where "unixEpoch = 62135596800000000000"

definition recencyKeyDigits :: nat where "recencyKeyDigits = 20"

definition recencyKey :: "gotime \<Rightarrow> platform_error + string" where
  "recencyKey t =
     (if Time_IsZero t \<or> t_ns t < unixEpoch \<or> unixEpoch + (2 ^ 63 - 1) \<le> t_ns t then Inl ErrInvalidID
      else let s = dec_nat (nat (t_ns t - unixEpoch)) in Inr (replicate (recencyKeyDigits - length s) CHR ''0'' @ s))"

definition validRecencyKey :: "string \<Rightarrow> bool" where
  "validRecencyKey s = (length s = recencyKeyDigits \<and> list_all (\<lambda>c. CHR ''0'' \<le> c \<and> c \<le> CHR ''9'') s)"

subsection \<open>Rows\<close>

record storedRun =
  sr_candidateID :: CandidateID
  sr_environment :: EnvironmentRef
  sr_profile :: BehavioralProfileRef
  sr_status :: RunStatus
  sr_createdAt :: gotime
  sr_startedAt :: "gotime option"
  sr_finishedAt :: "gotime option"
  sr_failureReason :: string
  sr_createdOrder :: string

type_synonym run_table = "(EvaluationRunID, storedRun) fmap"

definition nullTime :: "gotime \<Rightarrow> gotime option" where
  "nullTime t = (if Time_IsZero t then None else Some t)"

definition parseNullTime :: "gotime option \<Rightarrow> gotime" where
  "parseNullTime t = (case t of None \<Rightarrow> zeroTime | Some v \<Rightarrow> v)"

definition Time_Equal :: "gotime \<Rightarrow> gotime \<Rightarrow> bool" where
  "Time_Equal t u = (t_ns t = t_ns u)"

definition transitioned :: "EvaluationRun \<times> platform_error option \<Rightarrow> platform_error + EvaluationRun" where
  "transitioned r = (case snd r of Some e \<Rightarrow> Inl ErrStoreCorrupt | None \<Rightarrow> Inr (fst r))"

definition replayRun :: "EvaluationRun \<Rightarrow> storedRun \<Rightarrow> gotime \<Rightarrow> gotime \<Rightarrow> platform_error + EvaluationRun" where
  "replayRun run stored startedAt finishedAt =
     (if sr_status stored = RunPending
        then (if \<not> Time_IsZero startedAt \<or> \<not> Time_IsZero finishedAt \<or> sr_failureReason stored \<noteq> ''''
              then Inl ErrStoreCorrupt else Inr run)
      else if sr_status stored = RunRunning
        then (if \<not> Time_IsZero finishedAt \<or> sr_failureReason stored \<noteq> '''' then Inl ErrStoreCorrupt
              else transitioned (EvaluationRun_Start run startedAt))
      else if sr_status stored = RunCompleted
        then (if sr_failureReason stored \<noteq> '''' then Inl ErrStoreCorrupt
              else andThen (transitioned (EvaluationRun_Start run startedAt)) (\<lambda>r.
                transitioned (EvaluationRun_Complete r finishedAt)))
      else if sr_status stored = RunFailed
        then andThen (transitioned (EvaluationRun_Start run startedAt)) (\<lambda>r.
               transitioned (EvaluationRun_Fail r finishedAt (sr_failureReason stored)))
      else if sr_status stored = RunCancelled
        then andThen (if \<not> Time_IsZero startedAt then transitioned (EvaluationRun_Start run startedAt) else Inr run) (\<lambda>r.
             andThen (transitioned (EvaluationRun_Cancel r finishedAt)) (\<lambda>r'.
               if sr_failureReason stored \<noteq> '''' then Inl ErrStoreCorrupt else Inr r'))
      else Inl ErrStoreCorrupt)"

definition rehydrateRun :: "EvaluationRunID \<Rightarrow> storedRun \<Rightarrow> platform_error + EvaluationRun" where
  "rehydrateRun i stored =
     (let startedAt = parseNullTime (sr_startedAt stored); finishedAt = parseNullTime (sr_finishedAt stored)
      in case NewEvaluationRun i (sr_candidateID stored) (sr_environment stored) (sr_profile stored) (sr_createdAt stored) of
           Inl _ \<Rightarrow> Inl ErrStoreCorrupt
         | Inr run \<Rightarrow> andThen (replayRun run stored startedAt finishedAt) (\<lambda>r.
             if run_status r \<noteq> sr_status stored then Inl ErrStoreCorrupt
             else if \<not> Time_Equal (run_startedAt r) startedAt \<or> \<not> Time_Equal (run_finishedAt r) finishedAt
               then Inl ErrStoreCorrupt
             else Inr r))"

definition loadRun :: "run_table \<Rightarrow> EvaluationRunID \<Rightarrow> platform_error + EvaluationRun" where
  "loadRun tab i = (case fmlookup tab i of None \<Rightarrow> Inl ErrStoreNotFound | Some stored \<Rightarrow> rehydrateRun i stored)"

definition runRow :: "EvaluationRun \<Rightarrow> string \<Rightarrow> storedRun" where
  "runRow run key =
     \<lparr>sr_candidateID = run_candidateID run, sr_environment = run_environment run, sr_profile = run_profile run,
      sr_status = run_status run, sr_createdAt = run_createdAt run, sr_startedAt = nullTime (run_startedAt run),
      sr_finishedAt = nullTime (run_finishedAt run), sr_failureReason = run_failureReason run, sr_createdOrder = key\<rparr>"

definition CreateEvaluationRun ::
  "(CandidateID \<Rightarrow> bool) \<Rightarrow> run_table \<Rightarrow> EvaluationRun \<Rightarrow> run_table \<times> platform_error option" where
  "CreateEvaluationRun candidateExists tab run =
     (case validateRunBinding run of
        Some e \<Rightarrow> (tab, Some e)
      | None \<Rightarrow>
          if \<not> candidateExists (run_candidateID run) then (tab, Some ErrStoreNotFound)
          else case recencyKey (run_createdAt run) of
            Inl e \<Rightarrow> (tab, Some e)
          | Inr key \<Rightarrow>
              if fmlookup tab (run_id run) \<noteq> None then (tab, Some ErrStoreAlreadyExists)
              else (fmupd (run_id run) (runRow run key) tab, None))"

subsection \<open>Compare and swap\<close>

definition sameRun :: "EvaluationRun \<Rightarrow> EvaluationRun \<Rightarrow> bool" where
  "sameRun a b = (run_id a = run_id b \<and> run_candidateID a = run_candidateID b \<and> run_environment a = run_environment b \<and>
     run_profile a = run_profile b \<and> run_status a = run_status b \<and> Time_Equal (run_createdAt a) (run_createdAt b) \<and>
     Time_Equal (run_startedAt a) (run_startedAt b) \<and> Time_Equal (run_finishedAt a) (run_finishedAt b) \<and>
     run_failureReason a = run_failureReason b)"

definition produced_by :: "EvaluationRun \<Rightarrow> EvaluationRun \<Rightarrow> (EvaluationRun \<times> platform_error option) option" where
  "produced_by previous next =
     (if run_status next = RunRunning then Some (EvaluationRun_Start previous (run_startedAt next))
      else if run_status next = RunCompleted then Some (EvaluationRun_Complete previous (run_finishedAt next))
      else if run_status next = RunFailed then Some (EvaluationRun_Fail previous (run_finishedAt next) (run_failureReason next))
      else if run_status next = RunCancelled then Some (EvaluationRun_Cancel previous (run_finishedAt next))
      else None)"

definition validTransition :: "EvaluationRun \<Rightarrow> EvaluationRun \<Rightarrow> platform_error option" where
  "validTransition previous next =
     (case produced_by previous next of
        None \<Rightarrow> Some ErrStoreConflict
      | Some (produced, Some e) \<Rightarrow> Some ErrStoreConflict
      | Some (produced, None) \<Rightarrow> if \<not> sameRun produced next then Some ErrStoreConflict else None)"

definition update_guard :: "EvaluationRun \<Rightarrow> EvaluationRun \<Rightarrow> platform_error option" where
  "update_guard previous next =
     orElse (validateRunBinding previous) (orElse (validateRunBinding next)
       (if run_id previous \<noteq> run_id next then Some ErrStoreConflict
        else if run_candidateID previous \<noteq> run_candidateID next \<or> run_environment previous \<noteq> run_environment next \<or>
          run_profile previous \<noteq> run_profile next \<or> \<not> Time_Equal (run_createdAt previous) (run_createdAt next)
          then Some ErrStoreConflict
        else validTransition previous next))"

definition UpdateEvaluationRun :: "run_table \<Rightarrow> EvaluationRun \<Rightarrow> EvaluationRun \<Rightarrow> run_table \<times> platform_error option" where
  "UpdateEvaluationRun tab previous next =
     (case update_guard previous next of
        Some e \<Rightarrow> (tab, Some e)
      | None \<Rightarrow>
          case loadRun tab (run_id previous) of
            Inl e \<Rightarrow> (tab, Some e)
          | Inr stored \<Rightarrow>
              if \<not> sameRun stored previous then (tab, Some ErrStoreConflict)
              else case fmlookup tab (run_id next) of
                None \<Rightarrow> (tab, Some ErrStoreConflict)
              | Some row \<Rightarrow>
                  if sr_status row \<noteq> run_status previous then (tab, Some ErrStoreConflict)
                  else (fmupd (run_id next) (row\<lparr>sr_status := run_status next, sr_startedAt := nullTime (run_startedAt next),
                          sr_finishedAt := nullTime (run_finishedAt next), sr_failureReason := run_failureReason next\<rparr>) tab, None))"

definition transition_plan ::
  "run_table \<Rightarrow> EvaluationRunID \<Rightarrow> (EvaluationRun \<Rightarrow> EvaluationRun \<times> platform_error option) \<Rightarrow> platform_error + EvaluationRun \<times> EvaluationRun" where
  "transition_plan tab i apply =
     (case loadRun tab i of
        Inl e \<Rightarrow> Inl e
      | Inr current \<Rightarrow>
          case apply current of (next, Some e) \<Rightarrow> Inl ErrEvaluationState | (next, None) \<Rightarrow> Inr (current, next))"

definition transition ::
  "run_table \<Rightarrow> EvaluationRunID \<Rightarrow> (EvaluationRun \<Rightarrow> EvaluationRun \<times> platform_error option) \<Rightarrow>
   run_table \<times> (platform_error + EvaluationRun)" where
  "transition tab i apply =
     (case transition_plan tab i apply of
        Inl e \<Rightarrow> (tab, Inl e)
      | Inr (current, next) \<Rightarrow>
          case UpdateEvaluationRun tab current next of (tab', Some e) \<Rightarrow> (tab', Inl e) | (tab', None) \<Rightarrow> (tab', Inr next))"

definition StartEvaluationRun :: "run_table \<Rightarrow> EvaluationRunID \<Rightarrow> gotime \<Rightarrow> run_table \<times> (platform_error + EvaluationRun)" where
  "StartEvaluationRun tab i ts = transition tab i (\<lambda>r. EvaluationRun_Start r ts)"

definition CompleteEvaluationRun :: "run_table \<Rightarrow> EvaluationRunID \<Rightarrow> gotime \<Rightarrow> run_table \<times> (platform_error + EvaluationRun)" where
  "CompleteEvaluationRun tab i ts = transition tab i (\<lambda>r. EvaluationRun_Complete r ts)"

definition FailEvaluationRun :: "run_table \<Rightarrow> EvaluationRunID \<Rightarrow> gotime \<Rightarrow> string \<Rightarrow> run_table \<times> (platform_error + EvaluationRun)" where
  "FailEvaluationRun tab i ts reason = transition tab i (\<lambda>r. EvaluationRun_Fail r ts reason)"

definition CancelEvaluationRun :: "run_table \<Rightarrow> EvaluationRunID \<Rightarrow> gotime \<Rightarrow> run_table \<times> (platform_error + EvaluationRun)" where
  "CancelEvaluationRun tab i ts = transition tab i (\<lambda>r. EvaluationRun_Cancel r ts)"

subsection \<open>The runs a lifecycle can produce\<close>

definition run_shape :: "EvaluationRun \<Rightarrow> bool" where
  "run_shape r \<longleftrightarrow> (\<forall>v \<in> {run_id r, run_candidateID r, run_environment r, run_profile r}. validateID v = None) \<and>
     (t_ns (run_startedAt r) = 0 \<longrightarrow> run_startedAt r = zeroTime) \<and> (t_ns (run_finishedAt r) = 0 \<longrightarrow> run_finishedAt r = zeroTime) \<and>
     (run_failureReason r \<noteq> '''' \<longrightarrow> validateText ErrInvalidMetadata (run_failureReason r) = None)"

definition run_form :: "EvaluationRun \<Rightarrow> bool" where
  "run_form r \<longleftrightarrow> run_ok r \<and> run_shape r"

lemma t_ns_zeroTime [simp]: "t_ns zeroTime = 0"
  by (simp add: zeroTime_def)

lemma New_Inr_iff:
  "NewEvaluationRun i c env profile ts = Inr r \<longleftrightarrow>
     (\<forall>v \<in> {i, c, env, profile}. validateID v = None) \<and> t_ns ts \<noteq> 0 \<and>
     r = \<lparr>run_id = i, run_candidateID = c, run_environment = env, run_profile = profile, run_status = RunPending,
          run_createdAt = ts, run_startedAt = zeroTime, run_finishedAt = zeroTime, run_failureReason = ''''\<rparr>"
  by (auto simp: NewEvaluationRun_def orElse_def Time_IsZero_def split: option.split)

lemma run_form_reach: "run_reach r \<Longrightarrow> run_form r"
proof (induction rule: run_reach.induct)
  case (new i c env profile ts r)
  then show ?case using run_ok_new [OF new] by (auto simp: run_form_def run_shape_def New_Inr_iff)
next
  case (step r r')
  have "run_ok r'" using step run_ok_reach run_ok_step by blast
  moreover have "run_shape r'" using step.hyps(2)
  proof cases
    case (start ts)
    then show ?thesis using step.IH unfolding Start_None_iff by (simp add: run_form_def run_shape_def)
  qed (use step.IH in \<open>simp add: run_form_def run_shape_def EvaluationRun_Complete_def EvaluationRun_Fail_def
       EvaluationRun_Cancel_def finish_None_iff\<close>)+
  ultimately show ?case by (simp add: run_form_def)
qed

lemma replay_start:
  assumes "run_form r" and "t_ns (run_startedAt r) \<noteq> 0"
  shows "EvaluationRun_Start (r\<lparr>run_status := RunPending, run_startedAt := zeroTime, run_finishedAt := zeroTime, run_failureReason := ''''\<rparr>)
    (run_startedAt r) = (r\<lparr>run_status := RunRunning, run_finishedAt := zeroTime, run_failureReason := ''''\<rparr>, None)"
  using assms unfolding Start_None_iff by (simp add: run_form_def run_ok_def)

lemma replay_finish:
  assumes "run_form r" and "RunStatus_IsTerminal (run_status r)" and "run_status r \<noteq> RunCancelled \<Longrightarrow> s = RunRunning"
    and "s = (if t_ns (run_startedAt r) = 0 then RunPending else RunRunning)"
  shows "EvaluationRun_finish (r\<lparr>run_status := s, run_finishedAt := zeroTime, run_failureReason := ''''\<rparr>) (run_status r)
    (run_finishedAt r) (run_failureReason r) = (r, None)"
  using assms unfolding finish_None_iff transitionAllowed_None_iff
  by (auto simp: run_form_def run_shape_def run_ok_def RunStatus_IsTerminal_def Time_IsZero_def)


definition pending_of :: "EvaluationRun \<Rightarrow> EvaluationRun" where
  "pending_of r = r\<lparr>run_status := RunPending, run_startedAt := zeroTime, run_finishedAt := zeroTime, run_failureReason := ''''\<rparr>"

definition normTime :: "gotime \<Rightarrow> gotime" where "normTime t = (if Time_IsZero t then zeroTime else t)"

lemma pending_of_New:
  assumes "run_form r"
  shows "NewEvaluationRun (run_id r) (run_candidateID r) (run_environment r) (run_profile r) (run_createdAt r) = Inr (pending_of r)"
  using assms by (simp add: New_Inr_iff run_form_def run_shape_def run_ok_def pending_of_def)

lemma form_cases:
  assumes "run_form r"
  shows "run_status r = RunPending \<Longrightarrow> r = pending_of r"
    and "run_status r = RunRunning \<Longrightarrow> EvaluationRun_Start (pending_of r) (run_startedAt r) = (r, None)"
    and "run_status r = RunCompleted \<or> run_status r = RunFailed \<or> run_status r = RunCancelled \<and> t_ns (run_startedAt r) \<noteq> 0 \<Longrightarrow>
      \<exists>m. EvaluationRun_Start (pending_of r) (run_startedAt r) = (m, None) \<and>
        EvaluationRun_finish m (run_status r) (run_finishedAt r) (run_failureReason r) = (r, None)"
    and "run_status r = RunCancelled \<Longrightarrow> t_ns (run_startedAt r) = 0 \<Longrightarrow>
      EvaluationRun_finish (pending_of r) RunCancelled (run_finishedAt r) (run_failureReason r) = (r, None)"
proof -
  note f = assms [unfolded run_form_def run_shape_def run_ok_def]
  show "run_status r = RunPending \<Longrightarrow> r = pending_of r" using f by (cases r) (simp add: pending_of_def)
  show "EvaluationRun_Start (pending_of r) (run_startedAt r) = (r, None)" if s: "run_status r = RunRunning"
  proof -
    have "r\<lparr>run_status := RunRunning, run_finishedAt := zeroTime, run_failureReason := ''''\<rparr> = r" using f s by (cases r) auto
    then show ?thesis using replay_start [OF assms] f s by (simp add: pending_of_def)
  qed
  show "\<exists>m. EvaluationRun_Start (pending_of r) (run_startedAt r) = (m, None) \<and>
        EvaluationRun_finish m (run_status r) (run_finishedAt r) (run_failureReason r) = (r, None)"
    if s: "run_status r = RunCompleted \<or> run_status r = RunFailed \<or> run_status r = RunCancelled \<and> t_ns (run_startedAt r) \<noteq> 0"
  proof -
    have "t_ns (run_startedAt r) \<noteq> 0" "RunStatus_IsTerminal (run_status r)" using f s by auto
    then show ?thesis using replay_start [OF assms] replay_finish [OF assms, of RunRunning] by (simp add: pending_of_def)
  qed
  show "EvaluationRun_finish (pending_of r) RunCancelled (run_finishedAt r) (run_failureReason r) = (r, None)"
    if s: "run_status r = RunCancelled" "t_ns (run_startedAt r) = 0"
  proof -
    have "pending_of r = r\<lparr>run_status := RunPending, run_finishedAt := zeroTime, run_failureReason := ''''\<rparr>"
      using f s by (cases r) (simp add: pending_of_def)
    then show ?thesis using replay_finish [OF assms, of RunPending] s by simp
  qed
qed

lemma transitioned_Inr [simp]: "transitioned p = Inr r \<longleftrightarrow> p = (r, None)"
  by (cases p) (auto simp: transitioned_def split: option.splits)

lemma rehydrate_complete:
  assumes f: "run_form r"
  shows "rehydrateRun (run_id r) (runRow r key) = Inr r"
proof -
  note o = f [unfolded run_form_def run_shape_def run_ok_def]
  have t: "parseNullTime (nullTime t) = (if t_ns t = 0 then zeroTime else t)" for t
    by (simp add: parseNullTime_def nullTime_def Time_IsZero_def)
  have s: "parseNullTime (nullTime (run_startedAt r)) = run_startedAt r" "parseNullTime (nullTime (run_finishedAt r)) = run_finishedAt r"
    using o unfolding t by presburger+
  note c = form_cases [OF f]
  have "replayRun (pending_of r) (runRow r key) (run_startedAt r) (run_finishedAt r) = Inr r"
  proof -
    consider "run_status r = RunPending" | "run_status r = RunRunning" | "run_status r = RunCompleted" | "run_status r = RunFailed"
      | "run_status r = RunCancelled" "t_ns (run_startedAt r) = 0" | "run_status r = RunCancelled" "t_ns (run_startedAt r) \<noteq> 0"
      using o by (auto simp: RunStatus_valid_def)
    then show ?thesis
    proof cases
      case 1
      then show ?thesis using c(1) o by (simp add: replayRun_def runRow_def Time_IsZero_def)
    next
      case 2
      then show ?thesis using c(2) o by (simp add: replayRun_def runRow_def Time_IsZero_def)
    next
      case 3
      then show ?thesis using c(3) o by (simp add: replayRun_def runRow_def EvaluationRun_Complete_def)
    next
      case 4
      then show ?thesis using c(3) o by (simp add: replayRun_def runRow_def EvaluationRun_Fail_def)
    next
      case 5
      then show ?thesis using c(4) o by (simp add: replayRun_def runRow_def EvaluationRun_Cancel_def Time_IsZero_def)
    next
      case 6
      then show ?thesis using c(3) o by (simp add: replayRun_def runRow_def EvaluationRun_Cancel_def Time_IsZero_def)
    qed
  qed
  then show ?thesis using pending_of_New [OF f] s
    by (simp add: rehydrateRun_def runRow_def Let_def Time_Equal_def)
qed


lemma replay_sound:
  assumes new: "NewEvaluationRun i (sr_candidateID row) (sr_environment row) (sr_profile row) (sr_createdAt row) = Inr run"
    and replay: "replayRun run row s f = Inr r"
  shows "run_reach r \<and> run_id r = i \<and> run_candidateID r = sr_candidateID row \<and> run_environment r = sr_environment row \<and>
    run_profile r = sr_profile row \<and> run_createdAt r = sr_createdAt row \<and> run_failureReason r = sr_failureReason row"
proof -
  note n = new [unfolded New_Inr_iff]
  have reach: "run_reach run" by (rule run_reach.new [OF new])
  have st: "run_reach m" if "EvaluationRun_Start run s = (m, None)" for m
    using run_reach.step [OF reach run_step.start [OF that]] .
  note iffs = Start_None_iff EvaluationRun_Complete_def EvaluationRun_Fail_def EvaluationRun_Cancel_def finish_None_iff
  consider "sr_status row = RunPending" | "sr_status row = RunRunning" | "sr_status row = RunCompleted"
    | "sr_status row = RunFailed" | "sr_status row = RunCancelled"
    using replay by (auto simp: replayRun_def split: if_splits)
  then show ?thesis
  proof cases
    case 1
    then show ?thesis using replay n reach by (auto simp: replayRun_def split: if_splits)
  next
    case 2
    then have "EvaluationRun_Start run s = (r, None)" "sr_failureReason row = ''''" using replay by (auto simp: replayRun_def split: if_splits)
    then show ?thesis using st n by (simp add: iffs)
  next
    case 3
    then obtain m where "EvaluationRun_Start run s = (m, None)" "EvaluationRun_Complete m f = (r, None)" "sr_failureReason row = ''''"
      using replay by (auto simp: replayRun_def split: if_splits)
    then show ?thesis using run_reach.step [OF st run_step.complete] n by (simp add: iffs)
  next
    case 4
    then obtain m where "EvaluationRun_Start run s = (m, None)" "EvaluationRun_Fail m f (sr_failureReason row) = (r, None)"
      using replay by (auto simp: replayRun_def split: if_splits)
    then show ?thesis using run_reach.step [OF st run_step.fail] n by (simp add: iffs)
  next
    case 5
    then obtain m where m: "m = run \<or> EvaluationRun_Start run s = (m, None)" "EvaluationRun_Cancel m f = (r, None)" "sr_failureReason row = ''''"
      using replay by (auto simp: replayRun_def split: if_splits)
    then have "run_reach m" using st reach by blast
    then show ?thesis using run_reach.step [OF _ run_step.cancel [OF m(2)]] m n by (auto simp: iffs)
  qed
qed

definition normalRow :: "storedRun \<Rightarrow> storedRun" where
  "normalRow row = row\<lparr>sr_startedAt := nullTime (parseNullTime (sr_startedAt row)), sr_finishedAt := nullTime (parseNullTime (sr_finishedAt row))\<rparr>"

lemma replay_times:
  assumes "replayRun run row s f = Inr r" and "run_startedAt run = zeroTime" and "run_finishedAt run = zeroTime"
  shows "run_startedAt r = normTime s \<and> run_finishedAt r = normTime f"
proof -
  note iffs = Start_None_iff EvaluationRun_Complete_def EvaluationRun_Fail_def EvaluationRun_Cancel_def finish_None_iff normTime_def Time_IsZero_def
  consider "sr_status row = RunPending" | "sr_status row = RunRunning" | "sr_status row = RunCompleted"
    | "sr_status row = RunFailed" | "sr_status row = RunCancelled"
    using assms(1) by (auto simp: replayRun_def split: if_splits)
  then show ?thesis
    by cases (use assms in \<open>auto simp: replayRun_def iffs split: if_splits\<close>)
qed

lemma transitioned_norm:
  "transitioned (EvaluationRun_Start m (normTime s)) = transitioned (EvaluationRun_Start m s)"
  "transitioned (EvaluationRun_finish m to (normTime s) reason) = transitioned (EvaluationRun_finish m to s reason)"
proof -
  have e: "notBefore (normTime s) t = notBefore s t" for t by (simp add: notBefore_def normTime_def Time_Before_def Time_IsZero_def)
  have i: "normTime s = s" if "notBefore s t = None" for t using that by (auto simp: notBefore_None_iff normTime_def Time_IsZero_def)
  have bad: "transitioned (case x of Some v \<Rightarrow> (m, Some v) | None \<Rightarrow> (m', None)) = Inl ErrStoreCorrupt" if "x \<noteq> None" for x m'
    using that by (auto simp: transitioned_def)
  show "transitioned (EvaluationRun_Start m (normTime s)) = transitioned (EvaluationRun_Start m s)"
  proof (cases "notBefore s (run_createdAt m) = None")
    case False
    then have c: "orElse x (notBefore s (run_createdAt m)) \<noteq> None" for x by (simp add: orElse_None_iff)
    show ?thesis unfolding EvaluationRun_Start_def e bad [OF c] ..
  qed (simp only: i)
  let ?t = "if Time_IsZero (run_startedAt m) then run_createdAt m else run_startedAt m"
  show "transitioned (EvaluationRun_finish m to (normTime s) reason) = transitioned (EvaluationRun_finish m to s reason)"
  proof (cases "notBefore s ?t = None")
    case False
    then have c: "orElse x (orElse y (notBefore s ?t)) \<noteq> None" for x y by (simp only: orElse_None_iff) simp
    show ?thesis unfolding EvaluationRun_finish_def e Let_def bad [OF c] ..
  qed (simp only: i)
qed

lemma replay_norm: "replayRun run row (normTime s) (normTime f) = replayRun run row s f"
proof -
  have "Time_IsZero (normTime t) = Time_IsZero t" for t by (simp add: normTime_def Time_IsZero_def)
  then show ?thesis
    by (simp add: replayRun_def EvaluationRun_Complete_def EvaluationRun_Fail_def EvaluationRun_Cancel_def transitioned_norm)
qed

lemma rehydrate_normal: "rehydrateRun i (normalRow row) = rehydrateRun i row"
proof -
  have t: "parseNullTime (nullTime (parseNullTime t)) = normTime (parseNullTime t)" for t
    by (simp add: parseNullTime_def nullTime_def normTime_def split: option.split)
  have e: "Time_Equal u (normTime t) = Time_Equal u t" for t u by (simp add: Time_Equal_def normTime_def Time_IsZero_def)
  have r: "replayRun run (normalRow row) s f = replayRun run row s f" for run s f by (simp add: replayRun_def normalRow_def)
  have n: "sr_candidateID (normalRow row) = sr_candidateID row" "sr_environment (normalRow row) = sr_environment row"
    "sr_profile (normalRow row) = sr_profile row" "sr_createdAt (normalRow row) = sr_createdAt row" "sr_status (normalRow row) = sr_status row"
    "sr_startedAt (normalRow row) = nullTime (parseNullTime (sr_startedAt row))"
    "sr_finishedAt (normalRow row) = nullTime (parseNullTime (sr_finishedAt row))" by (simp_all add: normalRow_def)
  show ?thesis unfolding rehydrateRun_def Let_def r n t e replay_norm ..
qed

lemma rehydrate_iff:
  "rehydrateRun i row = Inr r \<longleftrightarrow> run_reach r \<and> run_id r = i \<and> runRow r (sr_createdOrder row) = normalRow row"
proof
  assume l: "rehydrateRun i row = Inr r"
  then obtain run where new: "NewEvaluationRun i (sr_candidateID row) (sr_environment row) (sr_profile row) (sr_createdAt row) = Inr run"
    and rep: "replayRun run row (parseNullTime (sr_startedAt row)) (parseNullTime (sr_finishedAt row)) = Inr r"
    and st: "run_status r = sr_status row"
    by (auto simp: rehydrateRun_def Let_def split: sum.splits if_splits)
  have z: "run_startedAt run = zeroTime" "run_finishedAt run = zeroTime" using new by (auto simp: New_Inr_iff)
  have "nullTime (normTime t) = nullTime t" for t by (simp add: nullTime_def normTime_def Time_IsZero_def)
  then show "run_reach r \<and> run_id r = i \<and> runRow r (sr_createdOrder row) = normalRow row"
    using replay_sound [OF new rep] replay_times [OF rep z] st by (simp add: runRow_def normalRow_def)
next
  assume r: "run_reach r \<and> run_id r = i \<and> runRow r (sr_createdOrder row) = normalRow row"
  then show "rehydrateRun i row = Inr r"
    using rehydrate_complete [OF run_form_reach, of r "sr_createdOrder row"] rehydrate_normal [of i row] by simp
qed

text \<open>A stored row is accepted exactly when it is the row of a run some sequence of legal transitions
  produces, and the run that comes back is that run: restarting neither loses nor invents a state.
  An absent time and a stored zero time count as the same.\<close>

theorem run_rows_exact:
  "rehydrateRun i row = Inr r \<longleftrightarrow> run_reach r \<and> run_id r = i \<and> runRow r (sr_createdOrder row) = normalRow row"
  by (rule rehydrate_iff)

subsection \<open>Racing transitions\<close>

lemma produced_status:
  assumes "produced_by p n = Some (q, None)"
  shows "run_status n \<noteq> run_status p \<and> run_step p q"
  using assms
  by (auto simp: produced_by_def run_step_iffs split: if_splits intro: run_step.intros)

lemma validTransition_None:
  "validTransition p n = None \<longleftrightarrow> (\<exists>q. produced_by p n = Some (q, None) \<and> sameRun q n)"
  by (auto simp: validTransition_def split: option.splits prod.splits)

lemma Update_None:
  assumes "UpdateEvaluationRun tab p n = (tab', None)"
  obtains s row q where "loadRun tab (run_id p) = Inr s" "sameRun s p" "fmlookup tab (run_id p) = Some row" "run_id n = run_id p"
    "run_candidateID n = run_candidateID p" "run_environment n = run_environment p" "run_profile n = run_profile p"
    "t_ns (run_createdAt n) = t_ns (run_createdAt p)" "produced_by p n = Some (q, None)" "sameRun q n"
    "tab' = fmupd (run_id p) (row\<lparr>sr_status := run_status n, sr_startedAt := nullTime (run_startedAt n),
       sr_finishedAt := nullTime (run_finishedAt n), sr_failureReason := run_failureReason n\<rparr>) tab"
proof -
  obtain s row where g: "update_guard p n = None" "loadRun tab (run_id p) = Inr s" "sameRun s p" "fmlookup tab (run_id n) = Some row"
    "tab' = fmupd (run_id n) (row\<lparr>sr_status := run_status n, sr_startedAt := nullTime (run_startedAt n),
       sr_finishedAt := nullTime (run_finishedAt n), sr_failureReason := run_failureReason n\<rparr>) tab"
    using assms unfolding UpdateEvaluationRun_def by (auto split: option.splits if_splits sum.splits)
  then have i: "run_id n = run_id p" "run_candidateID n = run_candidateID p" "run_environment n = run_environment p"
    "run_profile n = run_profile p" "t_ns (run_createdAt n) = t_ns (run_createdAt p)" "validTransition p n = None"
    by (simp_all add: update_guard_def orElse_None_iff Time_Equal_def split: if_splits)
  from i(6) obtain q where "produced_by p n = Some (q, None)" "sameRun q n" unfolding validTransition_None by blast
  then show ?thesis using that [of s row q] g i by simp
qed

lemma Update_Some: "UpdateEvaluationRun tab p n = (tab', Some e) \<Longrightarrow> tab' = tab"
  unfolding UpdateEvaluationRun_def by (auto split: option.splits if_splits sum.splits)

lemma race_facts:
  assumes "run_reach n" and "UpdateEvaluationRun tab p n = (tab', None)"
  shows "(\<exists>s. loadRun tab (run_id p) = Inr s \<and> sameRun s p) \<and>
    (\<exists>s'. loadRun tab' (run_id p) = Inr s' \<and> run_reach s' \<and> sameRun s' n) \<and>
    (\<forall>j. j \<noteq> run_id p \<longrightarrow> fmlookup tab' j = fmlookup tab j) \<and>
    (\<forall>m. snd (UpdateEvaluationRun tab' p m) \<noteq> None \<and> fst (UpdateEvaluationRun tab' p m) = tab')"
proof (rule Update_None [OF assms(2)])
  fix s row q
  assume s: "loadRun tab (run_id p) = Inr s" "sameRun s p" "fmlookup tab (run_id p) = Some row" "run_id n = run_id p"
    "run_candidateID n = run_candidateID p" "run_environment n = run_environment p" "run_profile n = run_profile p"
    "t_ns (run_createdAt n) = t_ns (run_createdAt p)" "produced_by p n = Some (q, None)"
    and tab': "tab' = fmupd (run_id p) (row\<lparr>sr_status := run_status n, sr_startedAt := nullTime (run_startedAt n),
       sr_finishedAt := nullTime (run_finishedAt n), sr_failureReason := run_failureReason n\<rparr>) tab"
  have "rehydrateRun (run_id p) row = Inr s" using s by (simp add: loadRun_def)
  then have row: "runRow s (sr_createdOrder row) = normalRow row" by (simp add: rehydrate_iff)
  let ?s = "n\<lparr>run_createdAt := run_createdAt s\<rparr>"
  have t: "t_ns (run_createdAt s) = t_ns (run_createdAt n)" using s(2,8) by (simp add: sameRun_def Time_Equal_def)
  then have f: "run_form ?s" using run_form_reach [OF assms(1)] by (simp add: run_form_def run_ok_def run_shape_def)
  have "row\<lparr>sr_status := run_status n, sr_startedAt := nullTime (run_startedAt n), sr_finishedAt := nullTime (run_finishedAt n),
      sr_failureReason := run_failureReason n\<rparr> = runRow ?s (sr_createdOrder row)"
    using row s(2,5-7) by (cases row) (simp add: runRow_def normalRow_def sameRun_def)
  then have l: "loadRun tab' (run_id p) = Inr ?s" using rehydrate_complete [OF f, of "sr_createdOrder row"] s(4) by (simp add: loadRun_def tab')
  then have "run_reach ?s" using s by (simp add: loadRun_def tab' rehydrate_iff)
  moreover have "sameRun ?s n" using t by (simp add: sameRun_def Time_Equal_def)
  moreover have ns: "\<not> sameRun ?s p" using produced_status [OF s(9)] by (simp add: sameRun_def)
  have "snd (UpdateEvaluationRun tab' p m) \<noteq> None" for m
    using Update_None [of tab' p m "fst (UpdateEvaluationRun tab' p m)" False] l ns by (metis Inr_inject prod.collapse)
  moreover from this have "fst (UpdateEvaluationRun tab' p m) = tab'" for m
    using Update_Some [of tab' p m "fst (UpdateEvaluationRun tab' p m)"] by (metis not_None_eq prod.collapse)
  ultimately show ?thesis using l s(1,2) by (simp add: tab')
qed

text \<open>C19. When a transition of a run is stored, the row was the run it was planned from, it is now the
  run it was planned to, and no other run changed; every other transition planned from the same
  state, whatever it is, is then refused and changes nothing.\<close>

theorem transition_race:
  assumes "run_reach n" and "UpdateEvaluationRun tab p n = (tab', None)"
  shows "(\<exists>s. loadRun tab (run_id p) = Inr s \<and> sameRun s p) \<and>
    (\<exists>s'. loadRun tab' (run_id p) = Inr s' \<and> run_reach s' \<and> sameRun s' n) \<and>
    (\<forall>j. j \<noteq> run_id p \<longrightarrow> fmlookup tab' j = fmlookup tab j) \<and>
    (\<forall>m. snd (UpdateEvaluationRun tab' p m) \<noteq> None \<and> fst (UpdateEvaluationRun tab' p m) = tab')"
  by (rule race_facts [OF assms])

lemma produced_self:
  "run_step r r' \<Longrightarrow> produced_by r r' = Some (r', None)"
  by (erule run_step.cases) (auto simp: produced_by_def Start_None_iff EvaluationRun_Complete_def EvaluationRun_Fail_def
      EvaluationRun_Cancel_def finish_None_iff)

lemma form_binding: "run_form r \<Longrightarrow> validateRunBinding r = None"
  by (simp add: validateRunBinding_def orElse_None_iff run_form_def run_shape_def run_ok_def Time_IsZero_def)

lemma step_identity: "run_step r r' \<Longrightarrow> same_identity r r'"
  by (erule run_step.cases) (auto simp: same_identity_def run_step_iffs)

lemma transition_facts:
  assumes "loadRun tab i = Inr r" and "f r = (r', None)" and "run_step r r'"
  shows "\<exists>tab'. transition tab i f = (tab', Inr r') \<and> loadRun tab' i = Inr r'"
proof -
  obtain row where row: "fmlookup tab i = Some row" "rehydrateRun i row = Inr r"
    using assms(1) by (auto simp: loadRun_def split: option.splits)
  then have r: "run_reach r" "run_id r = i" "runRow r (sr_createdOrder row) = normalRow row" by (auto simp: rehydrate_iff)
  have r': "run_reach r'" using run_reach.step [OF r(1) assms(3)] .
  note same = step_identity [OF assms(3), unfolded same_identity_def]
  let ?row = "row\<lparr>sr_status := run_status r', sr_startedAt := nullTime (run_startedAt r'),
       sr_finishedAt := nullTime (run_finishedAt r'), sr_failureReason := run_failureReason r'\<rparr>"
  have eq: "?row = runRow r' (sr_createdOrder row)" using r(3) same by (cases row) (simp add: runRow_def normalRow_def)
  have "update_guard r r' = None"
    using form_binding [OF run_form_reach [OF r(1)]] form_binding [OF run_form_reach [OF r']] produced_self [OF assms(3)] same
    by (simp add: update_guard_def orElse_None_iff validTransition_None Time_Equal_def sameRun_def)
  moreover have "sr_status row = run_status r" using r(3) by (cases row) (simp add: runRow_def normalRow_def)
  ultimately have "UpdateEvaluationRun tab r r' = (fmupd i ?row tab, None)"
    using assms(1) r(2) row(1) same by (simp add: UpdateEvaluationRun_def sameRun_def Time_Equal_def)
  moreover have "rehydrateRun i ?row = Inr r'" unfolding eq using rehydrate_complete [OF run_form_reach [OF r']] same r(2) by simp
  ultimately show ?thesis using assms(1,2) by (simp add: transition_def transition_plan_def loadRun_def)
qed

text \<open>A legal lifecycle call on a stored run always succeeds when nothing intervenes, and loading the
  run afterwards gives exactly the run it returned.\<close>

theorem transition_stored:
  assumes "loadRun tab i = Inr r" and "f r = (r', None)" and "run_step r r'"
  shows "\<exists>tab'. transition tab i f = (tab', Inr r') \<and> loadRun tab' i = Inr r'"
  by (rule transition_facts [of tab i r f r', OF assms])

end
