(* ===== verification/Platform_Restore.thy ===== *)
theory Platform_Restore
  imports Platform_Runs
begin

text \<open>
  Evidence in the store (\<^verbatim>\<open>platform/sqlite.go\<close>, \<^verbatim>\<open>evidence_columns.go\<close>): the rows of an
  aggregate and a snapshot, the checks made before stored values are trusted, and the save and load
  transactions. A counter column holds its decimal text, a time column its RFC 3339 text, an entry its
  encoded counters; a float column holds the float. The theorems are that the evidence of every
  sequence of records survives its rows unchanged, as long as its times are after the zero time and their text reads back, and
  that saving never moves stored evidence backwards.
\<close>

subsection \<open>Columns\<close>

fun parse_counters :: "string list \<Rightarrow> platform_error + u64 list" where
  "parse_counters [] = Inr []"
| "parse_counters (s # ss) = andThen (parseUint64Text s) (\<lambda>v. andThen (parse_counters ss) (\<lambda>vs. Inr (v # vs)))"

type_synonym metric_columns = "string \<times> f64 \<times> f64 \<times> f64"

record aggregate_row =
  gr_candidateID :: CandidateID
  gr_environment :: EnvironmentRef
  gr_profile :: BehavioralProfileRef
  gr_recordCount :: string
  gr_firstObservedAt :: "time_text option"
  gr_lastObservedAt :: "time_text option"
  gr_counts :: "string list"
  gr_metrics :: "metric_columns list"
  gr_operational :: "string list"

definition aggregateMetrics :: "EvaluationAggregate \<Rightarrow> MetricSummary list" where
  "aggregateMetrics a =
     [ag_identityConfidence a, ag_anomalyScore a, ag_anomalyConfidence a, ag_trustScore a, ag_contextRisk a]"

definition aggregate_counts :: "EvaluationAggregate \<Rightarrow> u64 list" where
  "aggregate_counts a =
     (let d = ag_decisions a; r = ag_risks a; p = ag_approvals a; s = ag_policy a
      in [dc_Allow d, dc_ObserveOnly d, dc_Alert d, dc_Challenge d, dc_RequireApproval d, dc_Block d,
          rc_Low r, rc_Medium r, rc_High r, rc_Critical r,
          apc_Unspecified p, apc_NotRequired p, apc_Required p, apc_Approved p, apc_Denied p,
          ps_MatchedRule s, ps_MatchedDefault s])"

definition aggregate_operational :: "EvaluationAggregate \<Rightarrow> u64 list" where
  "aggregate_operational a =
     (let d = ag_durations a; s = ag_statuses a
      in [du_Count d, du_Unobserved d, du_Sum d, du_Min d, du_Max d, sc_Unavailable s, sc_Unset s, sc_OK s, sc_Error s])"

definition aggregateInsertArgs :: "EvaluationAggregate \<Rightarrow> aggregate_row" where
  "aggregateInsertArgs a =
     \<lparr>gr_candidateID = ag_candidateID a, gr_environment = ag_environment a, gr_profile = ag_profile a,
      gr_recordCount = uint64Text (ag_recordCount a),
      gr_firstObservedAt = nullTimeText (ag_firstObservedAt a), gr_lastObservedAt = nullTimeText (ag_lastObservedAt a),
      gr_counts = map uint64Text (aggregate_counts a),
      gr_metrics = map (\<lambda>m. (uint64Text (ms_Count m), ms_Sum m, ms_Min m, ms_Max m)) (aggregateMetrics a),
      gr_operational = map uint64Text (aggregate_operational a)\<rparr>"

subsection \<open>Restored aggregates\<close>

datatype aggregate_error =
    AggregateID platform_error | CountsOverflow | CountsDisagree | MetricCount | MetricNotFinite | MetricWithoutCount
  | MetricExtremes | MetricOrder | MetricNegative | AggregateOperational restore_error
  | EmptyWithTimes | TimesMissing | TimesReversed

definition validateRestoredMetric :: "MetricSummary \<Rightarrow> u64 \<Rightarrow> aggregate_error option" where
  "validateRestoredMetric m records =
     (if ms_Count m \<noteq> records then Some MetricCount
      else if list_ex (\<lambda>v. isNaN v \<or> isInf v) [ms_Sum m, ms_Min m, ms_Max m] then Some MetricNotFinite
      else if ms_Count m = 0
        then (if \<not> feq (ms_Sum m) f0 \<or> \<not> feq (ms_Min m) f0 \<or> \<not> feq (ms_Max m) f0 then Some MetricWithoutCount else None)
      else if flt (ms_Min m) f0 \<or> flt f1 (ms_Min m) \<or> flt (ms_Max m) f0 \<or> flt f1 (ms_Max m) then Some MetricExtremes
      else if flt (ms_Max m) (ms_Min m) then Some MetricOrder
      else if flt (ms_Sum m) f0 then Some MetricNegative
      else None)"

fun check_groups :: "u64 \<Rightarrow> u64 list list \<Rightarrow> aggregate_error option" where
  "check_groups records [] = None"
| "check_groups records (g # gs) =
     (case sumNoOverflow g of
        None \<Rightarrow> Some CountsOverflow
      | Some tot \<Rightarrow> if tot \<noteq> records then Some CountsDisagree else check_groups records gs)"

fun check_metrics :: "u64 \<Rightarrow> MetricSummary list \<Rightarrow> aggregate_error option" where
  "check_metrics records [] = None"
| "check_metrics records (m # ms) =
     (case validateRestoredMetric m records of Some e \<Rightarrow> Some e | None \<Rightarrow> check_metrics records ms)"

definition validateRestoredAggregate :: "EvaluationAggregate \<Rightarrow> aggregate_error option" where
  "validateRestoredAggregate a =
     (let d = ag_decisions a; r = ag_risks a; p = ag_approvals a; s = ag_policy a
      in case first_error (map validateID [ag_runID a, ag_candidateID a, ag_environment a, ag_profile a]) of
        Some e \<Rightarrow> Some (AggregateID e)
      | None \<Rightarrow>
        case check_groups (ag_recordCount a)
               [[dc_Allow d, dc_ObserveOnly d, dc_Alert d, dc_Challenge d, dc_RequireApproval d, dc_Block d],
                [rc_Low r, rc_Medium r, rc_High r, rc_Critical r],
                [apc_Unspecified p, apc_NotRequired p, apc_Required p, apc_Approved p, apc_Denied p],
                [ps_MatchedRule s, ps_MatchedDefault s]] of
          Some e \<Rightarrow> Some e
        | None \<Rightarrow>
          case check_metrics (ag_recordCount a) (aggregateMetrics a) of
            Some e \<Rightarrow> Some e
          | None \<Rightarrow>
            case validateRestoredOperational (ag_durations a) (ag_statuses a) (ag_recordCount a) of
              Some e \<Rightarrow> Some (AggregateOperational e)
            | None \<Rightarrow>
                if ag_recordCount a = 0
                then (if \<not> Time_IsZero (ag_firstObservedAt a) \<or> \<not> Time_IsZero (ag_lastObservedAt a) then Some EmptyWithTimes else None)
                else if Time_IsZero (ag_firstObservedAt a) \<or> Time_IsZero (ag_lastObservedAt a) then Some TimesMissing
                else if Time_Before (ag_lastObservedAt a) (ag_firstObservedAt a) then Some TimesReversed
                else None)"

fun parse_metrics :: "metric_columns list \<Rightarrow> platform_error + MetricSummary list" where
  "parse_metrics [] = Inr []"
| "parse_metrics ((n, s, lo, hi) # ms) =
     andThen (parseUint64Text n) (\<lambda>v. andThen (parse_metrics ms) (\<lambda>rest.
       Inr (\<lparr>ms_Count = v, ms_Sum = s, ms_Min = lo, ms_Max = hi\<rparr> # rest)))"

definition loadAggregate :: "EvaluationRunID \<Rightarrow> aggregate_row \<Rightarrow> platform_error + EvaluationAggregate" where
  "loadAggregate i row =
     andThen (parse_counters (gr_counts row)) (\<lambda>c.
     andThen (parseUint64Text (gr_recordCount row)) (\<lambda>records.
     andThen (parseNullTimeText (gr_firstObservedAt row)) (\<lambda>firstObservedAt.
     andThen (parseNullTimeText (gr_lastObservedAt row)) (\<lambda>lastObservedAt.
     andThen (parse_counters (gr_operational row)) (\<lambda>op.
     andThen (parse_metrics (gr_metrics row)) (\<lambda>m.
       let a = \<lparr>ag_bound = False, ag_runID = i, ag_candidateID = gr_candidateID row, ag_environment = gr_environment row,
                ag_profile = gr_profile row, ag_recordCount = records,
                ag_firstObservedAt = firstObservedAt, ag_lastObservedAt = lastObservedAt,
                ag_decisions = \<lparr>dc_Allow = c ! 0, dc_ObserveOnly = c ! 1, dc_Alert = c ! 2, dc_Challenge = c ! 3,
                                dc_RequireApproval = c ! 4, dc_Block = c ! 5\<rparr>,
                ag_risks = \<lparr>rc_Low = c ! 6, rc_Medium = c ! 7, rc_High = c ! 8, rc_Critical = c ! 9\<rparr>,
                ag_approvals = \<lparr>apc_Unspecified = c ! 10, apc_NotRequired = c ! 11, apc_Required = c ! 12,
                                apc_Approved = c ! 13, apc_Denied = c ! 14\<rparr>,
                ag_policy = \<lparr>ps_MatchedRule = c ! 15, ps_MatchedDefault = c ! 16\<rparr>,
                ag_durations = \<lparr>du_Count = op ! 0, du_Unobserved = op ! 1, du_Sum = op ! 2, du_Min = op ! 3, du_Max = op ! 4\<rparr>,
                ag_statuses = \<lparr>sc_Unavailable = op ! 5, sc_Unset = op ! 6, sc_OK = op ! 7, sc_Error = op ! 8\<rparr>,
                ag_identityConfidence = m ! 0, ag_anomalyScore = m ! 1, ag_anomalyConfidence = m ! 2,
                ag_trustScore = m ! 3, ag_contextRisk = m ! 4\<rparr>
       in case validateRestoredAggregate a of
            Some e \<Rightarrow> Inl ErrStoreCorrupt
          | None \<Rightarrow> Inr (a\<lparr>ag_bound := True\<rparr>)))))))"

subsection \<open>Restored snapshots\<close>

record entry_row =
  en_FingerprintID :: string
  en_Behavior :: StableFeatures
  en_observations :: string
  en_operational :: string
  en_fidelity :: string

record snapshot_row =
  sw_candidateID :: CandidateID
  sw_environment :: EnvironmentRef
  sw_profile :: BehavioralProfileRef
  sw_observations :: string
  sw_distinct :: nat
  sw_complete :: int

definition behaviorEntryInsertArgs :: "BehaviorEntry \<Rightarrow> entry_row" where
  "behaviorEntryInsertArgs e =
     \<lparr>en_FingerprintID = be_FingerprintID e, en_Behavior = be_Behavior e, en_observations = uint64Text (be_Observations e),
      en_operational = encodeOperationalCounts (be_Operational e), en_fidelity = encodeFidelityCounts (be_Fidelity e)\<rparr>"

definition snapshotRow :: "BehaviorSnapshot \<Rightarrow> snapshot_row" where
  "snapshotRow s =
     \<lparr>sw_candidateID = sn_candidateID s, sw_environment = sn_environment s, sw_profile = sn_profile s,
      sw_observations = uint64Text (sn_observations s), sw_distinct = length (sn_entries s), sw_complete = boolInt (sn_complete s)\<rparr>"

fun parse_entries :: "entry_row list \<Rightarrow> platform_error + BehaviorEntry list" where
  "parse_entries [] = Inr []"
| "parse_entries (r # rs) =
     andThen (parseUint64Text (en_observations r)) (\<lambda>n.
     andThen (decodeOperationalCounts (en_operational r)) (\<lambda>op.
     andThen (decodeFidelityCounts (en_fidelity r)) (\<lambda>fi.
     andThen (parse_entries rs) (\<lambda>es.
       Inr (\<lparr>be_FingerprintID = en_FingerprintID r, be_Behavior = en_Behavior r, be_Observations = n,
             be_Operational = op, be_Fidelity = fi\<rparr> # es)))))"

definition loadBehaviorEntries :: "entry_row list \<Rightarrow> platform_error + BehaviorEntry list" where
  "loadBehaviorEntries rows = parse_entries (sort_key en_FingerprintID rows)"

definition loadSnapshot :: "EvaluationRunID \<Rightarrow> snapshot_row \<Rightarrow> entry_row list \<Rightarrow> platform_error + BehaviorSnapshot" where
  "loadSnapshot i row rows =
     andThen (parseUint64Text (sw_observations row)) (\<lambda>observations.
     andThen (loadBehaviorEntries rows) (\<lambda>entries.
     andThen (parseStoredBool (sw_complete row)) (\<lambda>cmpl.
       let s = \<lparr>sn_bound = False, sn_runID = i, sn_candidateID = sw_candidateID row, sn_environment = sw_environment row,
                sn_profile = sw_profile row, sn_observations = observations, sn_entries = entries, sn_complete = cmpl\<rparr>
       in case validateRestoredSnapshot s (sw_distinct row) of
            Some e \<Rightarrow> Inl ErrStoreCorrupt
          | None \<Rightarrow> Inr (s\<lparr>sn_bound := True\<rparr>))))"


subsection \<open>The tables and their transactions\<close>

record store_db =
  db_runs :: run_table
  db_aggregates :: "(EvaluationRunID, aggregate_row) fmap"
  db_snapshots :: "(EvaluationRunID, snapshot_row) fmap"
  db_entries :: "(EvaluationRunID, entry_row list) fmap"
  db_observations :: "(EvaluationRunID, observation_row list) fmap"
  db_histories :: "(EvaluationRunID, string \<times> int) fmap"
  db_cursors :: "(EvaluationRunID, string \<times> string) fmap"

definition validateEvidencePair :: "EvaluationAggregate \<Rightarrow> BehaviorSnapshot \<Rightarrow> platform_error option" where
  "validateEvidencePair a s =
     (if \<not> ag_bound a then Some ErrUnboundAggregate
      else if \<not> sn_bound s then Some ErrUnboundCollector
      else if ag_runID a \<noteq> sn_runID s \<or> ag_candidateID a \<noteq> sn_candidateID s \<or> ag_environment a \<noteq> sn_environment s \<or>
        ag_profile a \<noteq> sn_profile s then Some ErrStoreConflict
      else if sn_complete s
        then (if ag_recordCount a \<noteq> sn_observations s then Some ErrStoreConflict else None)
      else if ag_recordCount a < sn_observations s then Some ErrStoreConflict else None)"

definition validateRestoredEvidenceAgainstRun ::
  "EvaluationRun \<Rightarrow> EvaluationAggregate \<Rightarrow> BehaviorSnapshot \<Rightarrow> platform_error option" where
  "validateRestoredEvidenceAgainstRun run a s =
     (if list_ex (\<lambda>(r, av, sv). av \<noteq> r \<or> sv \<noteq> r)
           [(run_id run, ag_runID a, sn_runID s), (run_candidateID run, ag_candidateID a, sn_candidateID s),
            (run_environment run, ag_environment a, sn_environment s), (run_profile run, ag_profile a, sn_profile s)]
      then Some ErrStoreCorrupt else None)"

definition sameMetric :: "MetricSummary \<Rightarrow> MetricSummary \<Rightarrow> bool" where
  "sameMetric m n = (ms_Count m = ms_Count n \<and> feq (ms_Sum m) (ms_Sum n) \<and> feq (ms_Min m) (ms_Min n) \<and> feq (ms_Max m) (ms_Max n))"

definition sameAggregate :: "EvaluationAggregate \<Rightarrow> EvaluationAggregate \<Rightarrow> bool" where
  "sameAggregate a b = (ag_runID a = ag_runID b \<and> ag_candidateID a = ag_candidateID b \<and> ag_environment a = ag_environment b \<and>
     ag_profile a = ag_profile b \<and> ag_recordCount a = ag_recordCount b \<and>
     Time_Equal (ag_firstObservedAt a) (ag_firstObservedAt b) \<and> Time_Equal (ag_lastObservedAt a) (ag_lastObservedAt b) \<and>
     ag_decisions a = ag_decisions b \<and> ag_risks a = ag_risks b \<and> ag_approvals a = ag_approvals b \<and> ag_policy a = ag_policy b \<and>
     list_all2 sameMetric (aggregateMetrics a) (aggregateMetrics b))"

definition sameSnapshot :: "BehaviorSnapshot \<Rightarrow> BehaviorSnapshot \<Rightarrow> bool" where
  "sameSnapshot a b = (sn_runID a = sn_runID b \<and> sn_candidateID a = sn_candidateID b \<and> sn_environment a = sn_environment b \<and>
     sn_profile a = sn_profile b \<and> sn_observations a = sn_observations b \<and> sn_complete a = sn_complete b \<and>
     sn_entries a = sn_entries b)"

definition loadEvidence :: "store_db \<Rightarrow> EvaluationRunID \<Rightarrow> platform_error + EvaluationAggregate \<times> BehaviorSnapshot" where
  "loadEvidence db i =
     (case (fmlookup (db_aggregates db) i, fmlookup (db_snapshots db) i) of
        (None, None) \<Rightarrow> Inl ErrStoreNotFound
      | (None, Some _) \<Rightarrow> Inl ErrStoreCorrupt
      | (Some _, None) \<Rightarrow> Inl ErrStoreCorrupt
      | (Some arow, Some srow) \<Rightarrow>
          andThen (loadAggregate i arow) (\<lambda>a.
          andThen (loadSnapshot i srow (fmget [] (db_entries db) i)) (\<lambda>s.
            if validateEvidencePair a s \<noteq> None then Inl ErrStoreCorrupt
            else case loadRun (db_runs db) i of
              Inl e \<Rightarrow> Inl (if e = ErrStoreNotFound then ErrStoreCorrupt else e)
            | Inr run \<Rightarrow>
                case validateRestoredEvidenceAgainstRun run a s of Some e \<Rightarrow> Inl e | None \<Rightarrow> Inr (a, s))))"

definition checkEvidenceNotStale :: "store_db \<Rightarrow> EvaluationAggregate \<Rightarrow> BehaviorSnapshot \<Rightarrow> platform_error option" where
  "checkEvidenceNotStale db a s =
     (let i = ag_runID a in
      if fmlookup (db_aggregates db) i = None \<and> fmlookup (db_snapshots db) i = None then None
      else if fmlookup (db_aggregates db) i = None \<or> fmlookup (db_snapshots db) i = None then Some ErrStoreCorrupt
      else case loadEvidence db i of
        Inl e \<Rightarrow> Some e
      | Inr (sa, ss) \<Rightarrow>
          if \<not> sn_complete ss \<and> sn_complete s then Some ErrStoreConflict
          else if ag_recordCount a < ag_recordCount sa then Some ErrStoreConflict
          else if ag_recordCount a = ag_recordCount sa
            then (if \<not> sameAggregate sa a \<or> \<not> sameSnapshot ss s then Some ErrStoreConflict else None)
          else None)"

definition writeEvidence :: "store_db \<Rightarrow> EvaluationAggregate \<Rightarrow> BehaviorSnapshot \<Rightarrow> store_db" where
  "writeEvidence db a s =
     db\<lparr>db_aggregates := fmupd (ag_runID a) (aggregateInsertArgs a) (db_aggregates db),
        db_snapshots := fmupd (sn_runID s)
          (case fmlookup (db_snapshots db) (sn_runID s) of
             None \<Rightarrow> snapshotRow s
           | Some row \<Rightarrow> row\<lparr>sw_observations := uint64Text (sn_observations s), sw_distinct := length (sn_entries s),
                             sw_complete := boolInt (sn_complete s)\<rparr>) (db_snapshots db),
        db_entries := fmupd (sn_runID s) (map behaviorEntryInsertArgs (sn_entries s)) (db_entries db)\<rparr>"

definition SaveEvaluationEvidence :: "store_db \<Rightarrow> EvaluationAggregate \<Rightarrow> BehaviorSnapshot \<Rightarrow> store_db \<times> platform_error option" where
  "SaveEvaluationEvidence db a s =
     (case validateEvidencePair a s of
        Some e \<Rightarrow> (db, Some e)
      | None \<Rightarrow>
          case loadRun (db_runs db) (ag_runID a) of
            Inl e \<Rightarrow> (db, Some e)
          | Inr run \<Rightarrow>
              if run_candidateID run \<noteq> ag_candidateID a \<or> run_environment run \<noteq> ag_environment a \<or> run_profile run \<noteq> ag_profile a
              then (db, Some ErrStoreConflict)
              else case checkEvidenceNotStale db a s of
                Some e \<Rightarrow> (db, Some e)
              | None \<Rightarrow> (writeEvidence db a s, None))"


subsection \<open>Columns read back\<close>

lemma parse_counters_text [simp]: "parse_counters (map uint64Text vs) = Inr vs"
  by (induction vs) (simp_all add: andThen_def)

lemma parse_metrics_text [simp]: "parse_metrics (map (\<lambda>m. (uint64Text (ms_Count m), ms_Sum m, ms_Min m, ms_Max m)) ms) = Inr ms"
  by (induction ms) (simp_all add: andThen_def)

subsection \<open>Metrics\<close>

definition metric_sound :: "MetricSummary \<Rightarrow> bool" where
  "metric_sound m \<longleftrightarrow> (if ms_Count m = 0 then m = zeroMetric
     else in01 (ms_Min m) \<and> in01 (ms_Max m) \<and> fle (ms_Min m) (ms_Max m) \<and> (\<exists>x. ms_Sum m = Fin x \<and> 0 \<le> x \<and> x \<le> 2 ^ 54))"

lemma rnd_limit: "rnd (2 ^ 54 + 1) = 2 ^ 54"
  by code_simp

lemma sum_step:
  assumes "0 \<le> x" and "x \<le> 2 ^ 54" and "0 \<le> v" and "v \<le> 1"
  shows "\<exists>y. fadd (Fin x) (Fin v) = Fin y \<and> 0 \<le> y \<and> y \<le> 2 ^ 54"
proof -
  have "(2 :: rat) ^ 54 + 1 \<le> 2 ^ 1000" by simp
  then have "fadd (Fin x) (Fin v) = Fin (rnd (x + v))" using assms f64_of_small [of "x + v"] by simp
  moreover have "rnd (x + v) \<le> rnd (2 ^ 54 + 1)" using assms by (intro rnd_mono) simp
  ultimately show ?thesis using assms rnd_limit rnd_nonneg [of "x + v"] by simp
qed

lemma metric_sound_observe:
  assumes m: "metric_sound m" and v: "in01 v" and n: "ms_Count m + 1 \<noteq> 0"
  shows "metric_sound (MetricSummary_observe m v)"
proof (cases "ms_Count m = 0")
  case True
  then show ?thesis using v
    by (auto simp: metric_sound_def MetricSummary_observe_def elim!: in01E)
next
  case False
  then obtain x a b c where f: "ms_Sum m = Fin x" "0 \<le> x" "x \<le> 2 ^ 54" "ms_Min m = Fin a" "ms_Max m = Fin b" "v = Fin c"
    "0 \<le> a" "a \<le> b" "b \<le> 1" "0 \<le> c" "c \<le> 1"
    using m v by (auto simp: metric_sound_def elim!: in01E)
  obtain y where "fadd (Fin x) (Fin c) = Fin y" "0 \<le> y" "y \<le> 2 ^ 54" using sum_step [of x c] f by blast
  then show ?thesis using f n False by (auto simp: metric_sound_def MetricSummary_observe_def fmin_def fmax_def)
qed

lemma metric_sound_valid: "metric_sound m \<Longrightarrow> validateRestoredMetric m (ms_Count m) = None"
  by (cases "ms_Count m = 0")
     (auto simp: metric_sound_def validateRestoredMetric_def zeroMetric_def f0_def f1_def isNaN_def isInf_def elim!: in01E)


lemma agg_metrics_sound: "agg_reach run rs a \<Longrightarrow> list_all metric_sound (aggregateMetrics a)"
proof (induction rule: agg_reach.induct)
  case (empty a)
  then show ?case by (auto simp: NewEvaluationAggregate_def aggregateMetrics_def metric_sound_def zeroMetric_def split: option.splits)
next
  case (add rs a r a')
  then obtain dc rc apc du sc where acc: "accepted a r dc rc apc du sc" "a' = AddRecord_fold a r dc rc apc du sc"
    by (auto simp: AddRecord_None_iff)
  have in01s: "in01 (dr_IdentityConfidence r) \<and> in01 (dr_AnomalyScore r) \<and> in01 (dr_AnomalyConfidence r) \<and>
      in01 (dr_TrustScore r) \<and> in01 (dr_ContextRisk r)"
    using acc(1) metrics_None_iff unfolding accepted_def by blast
  have inv: "counts_inv rs a" "metrics_inv rs a" using agg_reach_inv [OF add.hyps(1)] by auto
  have room: "length rs < 2 ^ 64 - 1" using inv(1) acc(1) room by (auto simp: accepted_def)
  have "ms_Count m + 1 \<noteq> 0" if "m \<in> set (aggregateMetrics a)" for m
  proof -
    have "unat (ms_Count m) = length rs" using that inv(2) by (auto simp: aggregateMetrics_def metrics_inv_def metric_rep_def)
    then show ?thesis using room by (simp add: word_unat_eq_iff unat_word_ariths)
  qed
  then show ?case using add.IH in01s acc(2)
    by (simp add: aggregateMetrics_def AddRecord_fold_def metric_sound_observe)
qed

lemma agg_counts: "agg_reach run rs a \<Longrightarrow> \<forall>m \<in> set (aggregateMetrics a). ms_Count m = ag_recordCount a"
  using agg_reach_inv [of run rs a]
  by (auto simp: aggregateMetrics_def metrics_inv_def metric_rep_def counts_inv_def word_unat_eq_iff)

lemma check_metrics_None: "list_all (\<lambda>m. metric_sound m \<and> ms_Count m = n) ms \<Longrightarrow> check_metrics n ms = None"
  by (induction ms) (auto simp: metric_sound_valid)

lemma count_list_total: "distinct ks \<Longrightarrow> set xs \<subseteq> set ks \<Longrightarrow> (\<Sum>k\<leftarrow>ks. count_list xs k) = length xs"
proof (induction xs)
  case (Cons x xs)
  have "(\<Sum>k\<leftarrow>ks. if x = k then 1 else 0 :: nat) = 1" if "x \<in> set ks" "distinct ks" for ks using that by (induction ks) auto
  moreover have "(\<Sum>k\<leftarrow>ks. count_list (x # xs) k) = (\<Sum>k\<leftarrow>ks. if x = k then 1 else 0) + (\<Sum>k\<leftarrow>ks. count_list xs k)"
    unfolding sum_list_addf [symmetric] by (rule arg_cong [where f = sum_list]) simp
  ultimately show ?case using Cons by simp
qed (simp add: sum_list_triv)

lemma count_totals:
  assumes "counts_inv rs a"
  shows "unat (ag_recordCount a) = (\<Sum>w\<leftarrow>[dc_Allow (ag_decisions a), dc_ObserveOnly (ag_decisions a), dc_Alert (ag_decisions a),
      dc_Challenge (ag_decisions a), dc_RequireApproval (ag_decisions a), dc_Block (ag_decisions a)]. unat w)"
    and "unat (ag_recordCount a) = (\<Sum>w\<leftarrow>[rc_Low (ag_risks a), rc_Medium (ag_risks a), rc_High (ag_risks a), rc_Critical (ag_risks a)]. unat w)"
    and "unat (ag_recordCount a) = (\<Sum>w\<leftarrow>[apc_Unspecified (ag_approvals a), apc_NotRequired (ag_approvals a), apc_Required (ag_approvals a),
      apc_Approved (ag_approvals a), apc_Denied (ag_approvals a)]. unat w)"
    and "unat (ag_recordCount a) = (\<Sum>w\<leftarrow>[ps_MatchedRule (ag_policy a), ps_MatchedDefault (ag_policy a)]. unat w)"
proof -
  note c = assms [unfolded counts_inv_def decisions_rep_def risks_rep_def approvals_rep_def policy_rep_def]
  show "unat (ag_recordCount a) = (\<Sum>w\<leftarrow>[dc_Allow (ag_decisions a), dc_ObserveOnly (ag_decisions a), dc_Alert (ag_decisions a),
      dc_Challenge (ag_decisions a), dc_RequireApproval (ag_decisions a), dc_Block (ag_decisions a)]. unat w)"
    using c count_list_total [of "[''allow'', ''observe_only'', ''alert'', ''challenge'', ''require_approval'', ''block'']" "map dr_Decision rs"] by simp
  show "unat (ag_recordCount a) = (\<Sum>w\<leftarrow>[rc_Low (ag_risks a), rc_Medium (ag_risks a), rc_High (ag_risks a), rc_Critical (ag_risks a)]. unat w)"
    using c count_list_total [of "[''low'', ''medium'', ''high'', ''critical'']" "map dr_RiskLevel rs"] by simp
  show "unat (ag_recordCount a) = (\<Sum>w\<leftarrow>[apc_Unspecified (ag_approvals a), apc_NotRequired (ag_approvals a), apc_Required (ag_approvals a),
      apc_Approved (ag_approvals a), apc_Denied (ag_approvals a)]. unat w)"
    using c count_list_total [of "['''', ''not_required'', ''required'', ''approved'', ''denied'']" "map dr_ApprovalStatus rs"] by simp
  show "unat (ag_recordCount a) = (\<Sum>w\<leftarrow>[ps_MatchedRule (ag_policy a), ps_MatchedDefault (ag_policy a)]. unat w)"
    using c count_list_total [of "[False, True]" "map dr_MatchedDefault rs"] by (auto simp: subset_iff)
qed

lemma agg_groups:
  assumes "agg_reach run rs a"
  shows "check_groups (ag_recordCount a)
    [[dc_Allow (ag_decisions a), dc_ObserveOnly (ag_decisions a), dc_Alert (ag_decisions a), dc_Challenge (ag_decisions a),
      dc_RequireApproval (ag_decisions a), dc_Block (ag_decisions a)],
     [rc_Low (ag_risks a), rc_Medium (ag_risks a), rc_High (ag_risks a), rc_Critical (ag_risks a)],
     [apc_Unspecified (ag_approvals a), apc_NotRequired (ag_approvals a), apc_Required (ag_approvals a), apc_Approved (ag_approvals a), apc_Denied (ag_approvals a)],
     [ps_MatchedRule (ag_policy a), ps_MatchedDefault (ag_policy a)]] = None"
proof -
  have inv: "counts_inv rs a" using agg_reach_inv [OF assms] by auto
  have g: "check_groups n (g # gs) = check_groups n gs" if "unat n = sum_list (map unat g)" for n g gs
    using that sumNoOverflow_Some [of g n] by simp
  note t = count_totals [OF inv]
  show ?thesis by (subst g, use t in simp)+ simp
qed


subsection \<open>Evidence survives its rows\<close>

text \<open>A record whose time is after the zero time and reads back from its text.\<close>

definition dated :: "DecisionRecord \<Rightarrow> bool" where
  "dated r = (0 < t_ns (dr_Timestamp r) \<and> time_storable (dr_Timestamp r))"

lemma agg_times_recorded: "agg_reach run rs a \<Longrightarrow>
  ag_firstObservedAt a \<in> insert zeroTime (dr_Timestamp ` set rs) \<and> ag_lastObservedAt a \<in> insert zeroTime (dr_Timestamp ` set rs)"
proof (induction rule: agg_reach.induct)
  case (empty a)
  then show ?case by (auto simp: NewEvaluationAggregate_def split: option.splits)
next
  case (add rs a r a')
  have "ag_firstObservedAt a' \<in> {dr_Timestamp r, ag_firstObservedAt a}" "ag_lastObservedAt a' \<in> {dr_Timestamp r, ag_lastObservedAt a}"
    using add.hyps(2) by (auto simp: AddRecord_def AddRecord_fold_def split: option.splits sum.splits prod.splits if_splits)
  then show ?case using add.IH by auto
qed

lemma agg_times:
  assumes "agg_reach run rs a" and "\<forall>r \<in> set rs. dated r"
  shows "rs = [] \<Longrightarrow> ag_firstObservedAt a = zeroTime \<and> ag_lastObservedAt a = zeroTime"
    and "rs \<noteq> [] \<Longrightarrow> 0 < t_ns (ag_firstObservedAt a) \<and> t_ns (ag_firstObservedAt a) \<le> t_ns (ag_lastObservedAt a)"
proof -
  show "ag_firstObservedAt a = zeroTime \<and> ag_lastObservedAt a = zeroTime" if "rs = []"
    using assms(1) that by cases (auto simp: NewEvaluationAggregate_def split: option.splits)
  assume ne: "rs \<noteq> []"
  let ?T = "set (map (t_ns \<circ> dr_Timestamp) rs)"
  have t: "t_ns (ag_firstObservedAt a) = Min ?T" "t_ns (ag_lastObservedAt a) = Max (insert 0 ?T)"
    using agg_reach_inv [OF assms(1)] ne by (auto simp: times_inv_def)
  have "Min ?T \<in> ?T" using ne by (intro Min_in) auto
  then show "0 < t_ns (ag_firstObservedAt a) \<and> t_ns (ag_firstObservedAt a) \<le> t_ns (ag_lastObservedAt a)"
    using assms(2) t Max_ge [of "insert 0 ?T" "Min ?T"] by (auto simp: dated_def)
qed

lemma agg_binding: "agg_reach run rs a \<Longrightarrow> validateRunBinding run = None"
  by (induction rule: agg_reach.induct) (auto simp: NewEvaluationAggregate_def split: option.splits)

lemma restored_aggregate_valid:
  assumes "agg_reach run rs a" and "\<forall>r \<in> set rs. dated r"
  shows "validateRestoredAggregate a = None"
proof -
  have ids: "first_error (map validateID [ag_runID a, ag_candidateID a, ag_environment a, ag_profile a]) = None"
    using agg_reach_identity [OF assms(1)] agg_binding [OF assms(1)] by (simp add: validateRunBinding_def orElse_None_iff)
  have metrics: "check_metrics (ag_recordCount a) (aggregateMetrics a) = None"
    using agg_metrics_sound [OF assms(1)] agg_counts [OF assms(1)] by (intro check_metrics_None) (simp add: list_all_iff)
  have "unat (ag_recordCount a) = length rs" using agg_reach_inv [OF assms(1)] by (simp add: counts_inv_def)
  then have "ag_recordCount a = 0 \<longleftrightarrow> rs = []" by (auto simp: word_unat_eq_iff)
  then show ?thesis using agg_times [OF assms]
    unfolding validateRestoredAggregate_def Let_def ids agg_groups [OF assms(1)] metrics
      aggregate_survives_storage [OF assms(1)] option.case
    by (cases "rs = []") (simp_all add: time_order)
qed

lemma validate_unbound: "validateRestoredAggregate (a\<lparr>ag_bound := b\<rparr>) = validateRestoredAggregate a"
  by (cases a, hypsubst) (unfold validateRestoredAggregate_def aggregateMetrics_def EvaluationAggregate.select_convs EvaluationAggregate.update_convs, rule refl)

lemma counter_records:
  "\<lparr>dc_Allow = dc_Allow d, dc_ObserveOnly = dc_ObserveOnly d, dc_Alert = dc_Alert d, dc_Challenge = dc_Challenge d,
    dc_RequireApproval = dc_RequireApproval d, dc_Block = dc_Block d\<rparr> = d"
  "\<lparr>rc_Low = rc_Low r, rc_Medium = rc_Medium r, rc_High = rc_High r, rc_Critical = rc_Critical r\<rparr> = r"
  "\<lparr>apc_Unspecified = apc_Unspecified p, apc_NotRequired = apc_NotRequired p, apc_Required = apc_Required p,
    apc_Approved = apc_Approved p, apc_Denied = apc_Denied p\<rparr> = p"
  "\<lparr>ps_MatchedRule = ps_MatchedRule s, ps_MatchedDefault = ps_MatchedDefault s\<rparr> = s"
  "\<lparr>du_Count = du_Count u, du_Unobserved = du_Unobserved u, du_Sum = du_Sum u, du_Min = du_Min u, du_Max = du_Max u\<rparr> = u"
  "\<lparr>sc_Unavailable = sc_Unavailable v, sc_Unset = sc_Unset v, sc_OK = sc_OK v, sc_Error = sc_Error v\<rparr> = v"
  by simp_all

lemma load_aggregate_row:
  assumes "agg_reach run rs a" and "\<forall>r \<in> set rs. dated r"
  shows "loadAggregate (run_id run) (aggregateInsertArgs a) = Inr a"
proof -
  have b: "ag_bound a" "ag_runID a = run_id run" using agg_reach_identity [OF assms(1)] by auto
  have st: "t_ns x \<noteq> 0 \<Longrightarrow> time_storable x" "t_ns x = 0 \<Longrightarrow> x = zeroTime" if "x \<in> insert zeroTime (dr_Timestamp ` set rs)" for x
    using that assms(2) by (auto simp: dated_def zeroTime_def)
  have t: "parseNullTimeText (nullTimeText (ag_firstObservedAt a)) = Inr (ag_firstObservedAt a)"
    "parseNullTimeText (nullTimeText (ag_lastObservedAt a)) = Inr (ag_lastObservedAt a)"
    using agg_times_recorded [OF assms(1)] st by (blast intro: parse_null_time_text)+
  let ?u = "a\<lparr>ag_bound := False\<rparr>"
  have v: "validateRestoredAggregate ?u = None" using restored_aggregate_valid [OF assms] by (simp add: validate_unbound)
  have "loadAggregate (run_id run) (aggregateInsertArgs a) =
      (case validateRestoredAggregate ?u of Some e \<Rightarrow> Inl ErrStoreCorrupt | None \<Rightarrow> Inr (?u\<lparr>ag_bound := True\<rparr>))"
    using b
    unfolding loadAggregate_def aggregateInsertArgs_def aggregate_row.select_convs parse_counters_text parse_metrics_text parse_uint64Text
      andThen_def sum.case t Let_def
    by (cases a) (simp add: aggregate_counts_def aggregate_operational_def aggregateMetrics_def Let_def counter_records split: option.split)
  then show ?thesis using b unfolding v by simp
qed


lemma parse_entries_args:
  "\<forall>e \<in> set es. \<exists>ys. op_rep (be_Operational e) ys \<Longrightarrow> parse_entries (map behaviorEntryInsertArgs es) = Inr es"
proof (induction es)
  case (Cons e es)
  then obtain ys where "op_rep (be_Operational e) ys" by auto
  then have "decodeOperationalCounts (encodeOperationalCounts (be_Operational e)) = Inr (be_Operational e)" by (rule op_rep_codec)
  moreover have "decodeFidelityCounts (encodeFidelityCounts (be_Fidelity e)) = Inr (be_Fidelity e)" by (simp add: decodeFidelity_iff)
  ultimately show ?case using Cons by (simp add: behaviorEntryInsertArgs_def andThen_def)
qed simp

lemma sort_key_rows: "sort_key en_FingerprintID (map behaviorEntryInsertArgs (sort_key be_FingerprintID es)) =
    map behaviorEntryInsertArgs (sort_key be_FingerprintID es)"
  by (rule sort_key_id_if_sorted) (simp add: behaviorEntryInsertArgs_def comp_def)


lemma validate_unbound_snapshot: "validateRestoredSnapshot (s\<lparr>sn_bound := b\<rparr>) n = validateRestoredSnapshot s n"
  by (cases s, hypsubst) (unfold validateRestoredSnapshot_def BehaviorSnapshot.select_convs BehaviorSnapshot.update_convs, rule refl)

lemma load_snapshot_row:
  assumes "coll_reach run xs c"
  shows "loadSnapshot (run_id run) (snapshotRow (Snapshot c)) (map behaviorEntryInsertArgs (sn_entries (Snapshot c))) = Inr (Snapshot c)"
proof -
  let ?s = "Snapshot c" and ?u = "Snapshot c\<lparr>sn_bound := False\<rparr>"
  note inv = coll_reach_inv [OF assms]
  have b: "co_bound c" "co_runID c = run_id run" using inv coll_identity [OF assms] by (auto simp: coll_inv_def)
  have srt: "sn_entries ?s = sort_key be_FingerprintID (map_values (co_entries c))" using b by (simp add: Snapshot_def)
  have "parse_entries (map behaviorEntryInsertArgs (sn_entries ?s)) = Inr (sn_entries ?s)"
    using snapshot_entry [OF inv] by (intro parse_entries_args) (auto simp: entry_rep_def)
  then have es: "loadBehaviorEntries (map behaviorEntryInsertArgs (sn_entries ?s)) = Inr (sn_entries ?s)"
    by (simp add: loadBehaviorEntries_def srt sort_key_rows)
  have "length (sn_entries ?s) = fmsize (co_entries c)"
    using snapshot_entries(1) [OF inv] by (simp add: fps_of_def fmsize_def fcard.rep_eq sorted_list_of_fset.rep_eq)
  then have v: "validateRestoredSnapshot ?u (length (sn_entries ?s)) = None"
    using restart_facts [OF assms] by (simp add: validate_unbound_snapshot)
  have "loadSnapshot (run_id run) (snapshotRow ?s) (map behaviorEntryInsertArgs (sn_entries ?s)) =
      (case validateRestoredSnapshot ?u (length (sn_entries ?s)) of Some e \<Rightarrow> Inl ErrStoreCorrupt | None \<Rightarrow> Inr (?u\<lparr>sn_bound := True\<rparr>))"
    using b unfolding loadSnapshot_def es by (simp add: snapshotRow_def andThen_def Let_def Snapshot_def split: option.split)
  then show ?thesis using b unfolding v by (simp add: Snapshot_def)
qed


lemma snapshot_of_run:
  assumes "coll_reach run xs c"
  shows "sn_bound (Snapshot c)" and "sn_runID (Snapshot c) = run_id run" and "sn_candidateID (Snapshot c) = run_candidateID run"
    and "sn_environment (Snapshot c) = run_environment run" and "sn_profile (Snapshot c) = run_profile run"
    and "unat (sn_observations (Snapshot c)) = length xs" and "sn_complete (Snapshot c) = co_complete c"
  using coll_reach_inv [OF assms] coll_identity [OF assms] by (auto simp: Snapshot_def coll_inv_def)

lemma written_reads_back:
  assumes a: "agg_reach run rs a" and c: "coll_reach run xs c" and t: "\<forall>r \<in> set rs. dated r"
    and run: "loadRun (db_runs db) (run_id run) = Inr run" and pair: "validateEvidencePair a (Snapshot c) = None"
    and own: "\<And>row. fmlookup (db_snapshots db) (run_id run) = Some row \<Longrightarrow>
      sw_candidateID row = run_candidateID run \<and> sw_environment row = run_environment run \<and> sw_profile row = run_profile run"
  shows "loadEvidence (writeEvidence db a (Snapshot c)) (run_id run) = Inr (a, Snapshot c)"
proof -
  note s = snapshot_of_run [OF c] and g = agg_reach_identity [OF a]
  have row: "fmlookup (db_snapshots (writeEvidence db a (Snapshot c))) (run_id run) = Some (snapshotRow (Snapshot c))"
    using s own by (cases "fmlookup (db_snapshots db) (run_id run)") (auto simp: writeEvidence_def snapshotRow_def)
  have own': "validateRestoredEvidenceAgainstRun run a (Snapshot c) = None"
    using s g by (simp add: validateRestoredEvidenceAgainstRun_def)
  have other: "fmlookup (db_aggregates (writeEvidence db a (Snapshot c))) (run_id run) = Some (aggregateInsertArgs a)"
    "fmget [] (db_entries (writeEvidence db a (Snapshot c))) (run_id run) = map behaviorEntryInsertArgs (sn_entries (Snapshot c))"
    "db_runs (writeEvidence db a (Snapshot c)) = db_runs db"
    using s g by (simp_all add: writeEvidence_def fmget_def)
  show ?thesis
    unfolding loadEvidence_def row other prod.case option.case load_aggregate_row [OF a t] load_snapshot_row [OF c] andThen_def sum.case
      pair run own' by simp
qed

lemma loadEvidence_cong:
  assumes "fmlookup (db_aggregates db') i = fmlookup (db_aggregates db) i" and "fmlookup (db_snapshots db') i = fmlookup (db_snapshots db) i"
    and "fmlookup (db_entries db') i = fmlookup (db_entries db) i" and "loadRun (db_runs db') i = loadRun (db_runs db) i"
  shows "loadEvidence db' i = loadEvidence db i"
  unfolding loadEvidence_def fmget_def assms ..

lemma written_elsewhere:
  assumes "ag_runID a \<noteq> i" and "sn_runID s \<noteq> i"
  shows "loadEvidence (writeEvidence db a s) i = loadEvidence db i"
  using assms by (intro loadEvidence_cong) (simp_all add: writeEvidence_def)

lemma loaded_identity:
  assumes "loadEvidence db i = Inr (a, s)" and "loadRun (db_runs db) i = Inr run" and "fmlookup (db_snapshots db) i = Some row"
  shows "sw_candidateID row = run_candidateID run \<and> sw_environment row = run_environment run \<and> sw_profile row = run_profile run"
proof -
  obtain arow where "fmlookup (db_aggregates db) i = Some arow" "loadSnapshot i row (fmget [] (db_entries db) i) = Inr s"
    "validateRestoredEvidenceAgainstRun run a s = None"
    using assms by (auto simp: loadEvidence_def andThen_Inr split: option.splits sum.splits if_splits prod.splits)
  moreover from this(2) have "sn_candidateID s = sw_candidateID row" "sn_environment s = sw_environment row" "sn_profile s = sw_profile row"
    by (auto simp: loadSnapshot_def andThen_Inr Let_def split: option.splits)
  ultimately show ?thesis by (auto simp: validateRestoredEvidenceAgainstRun_def split: if_splits)
qed


lemma save_accepted:
  assumes "SaveEvaluationEvidence db a s = (db', None)"
  obtains run where "validateEvidencePair a s = None" and "loadRun (db_runs db) (ag_runID a) = Inr run"
    and "checkEvidenceNotStale db a s = None" and "db' = writeEvidence db a s"
  using assms by (auto simp: SaveEvaluationEvidence_def split: option.splits sum.splits if_splits)

lemma not_stale:
  assumes "checkEvidenceNotStale db a s = None" and "loadEvidence db (ag_runID a) = Inr (sa, ss)"
  shows "ag_recordCount sa \<le> ag_recordCount a \<and> (sn_complete s \<longrightarrow> sn_complete ss) \<and>
    (ag_recordCount sa = ag_recordCount a \<longrightarrow> sameAggregate sa a \<and> sameSnapshot ss s)"
proof -
  have "fmlookup (db_aggregates db) (ag_runID a) \<noteq> None" "fmlookup (db_snapshots db) (ag_runID a) \<noteq> None"
    using assms(2) by (auto simp: loadEvidence_def split: option.splits)
  then show ?thesis using assms by (auto simp: checkEvidenceNotStale_def Let_def split: if_splits)
qed

lemma not_stale_loads:
  assumes "checkEvidenceNotStale db a s = None" and "fmlookup (db_snapshots db) (ag_runID a) = Some row"
  obtains e where "loadEvidence db (ag_runID a) = Inr e"
  using assms by (auto simp: checkEvidenceNotStale_def Let_def split: if_splits sum.splits)

text \<open>Two aggregates that differ in their operational evidence only count as the same.\<close>

lemma same_ignores_operational: "sameAggregate (a\<lparr>ag_durations := d, ag_statuses := v\<rparr>) b = sameAggregate a b"
  by (simp add: sameAggregate_def aggregateMetrics_def)


text \<open>C21. The zero time stands for an absent time in every column, and the latest time of an
  aggregate starts from it. A run whose records all lie before the zero time is accepted, but its
  latest time stays zero and its own rows are refused as corrupt when they are read.\<close>

theorem ancient_records_corrupt:
  assumes "agg_reach run rs a" and "rs \<noteq> []" and "\<forall>r \<in> set rs. t_ns (dr_Timestamp r) < 0"
  shows "loadAggregate (run_id run) (aggregateInsertArgs a) = Inl ErrStoreCorrupt"
proof -
  have "Max (insert 0 (set (map (t_ns \<circ> dr_Timestamp) rs))) = 0" using assms(3) by (intro Max_eqI) auto
  then have "t_ns (ag_lastObservedAt a) = 0" using agg_reach_inv [OF assms(1)] assms(2) by (auto simp: times_inv_def)
  then have l: "parseNullTimeText (nullTimeText (ag_lastObservedAt a)) = Inr zeroTime"
    by (simp add: parseNullTimeText_def nullTimeText_def Time_IsZero_def)
  have f: "parseNullTimeText x = Inl e \<Longrightarrow> e = ErrStoreCorrupt" for x e
    by (auto simp: parseNullTimeText_def parseTimeText_def split: option.splits)
  have "ag_recordCount a \<noteq> 0"
    using agg_reach_inv [OF assms(1)] assms(2) by (auto simp: counts_inv_def)
  then have "validateRestoredAggregate x \<noteq> None" if "ag_lastObservedAt x = zeroTime" "ag_recordCount x = ag_recordCount a" for x
    using that by (auto simp: validateRestoredAggregate_def Let_def Time_IsZero_def zeroTime_def split: option.splits)
  then show ?thesis using f
    unfolding loadAggregate_def aggregateInsertArgs_def aggregate_row.select_convs parse_counters_text parse_metrics_text parse_uint64Text
      l andThen_def sum.case Let_def
    by (cases "parseNullTimeText (nullTimeText (ag_firstObservedAt a))") (simp_all del: not_None_eq split: option.split)
qed

end
