(* ===== verification/Platform_Ingest.thy ===== *)
theory Platform_Ingest
  imports Platform_Restore Platform_Observation Alert
begin

text \<open>
  Ingest of decision records (\<^verbatim>\<open>platform/ingest.go\<close>, the cursor and commit transactions of
  \<^verbatim>\<open>platform/sqlite.go\<close> and \<^verbatim>\<open>IngestDecisionRecord\<close> of \<^verbatim>\<open>controlplane.go\<close>).
  One request makes four store transactions: it loads the run, reads the cursor, reads the evidence,
  and commits. \<open>ingest_step\<close> makes the next one of a request, \<open>sys_step\<close> interleaves any
  number of requests with the creation and the lifecycle of runs. The JSON encoding of a record and
  SHA-256 are parameters. Announcements to live subscribers are left out: nothing durable depends on them.
\<close>

subsection \<open>Sequences and digests\<close>

definition FormatSequence :: "u64 \<Rightarrow> string" where "FormatSequence v = FormatUint10 v"

definition ParseSequence :: "string \<Rightarrow> platform_error + u64" where
  "ParseSequence s =
     (case ParseUint10 s of
        None \<Rightarrow> Inl ErrIngestSequence
      | Some v \<Rightarrow> if FormatUint10 v \<noteq> s then Inl ErrIngestSequence else if v = 0 then Inl ErrIngestSequence else Inr v)"

type_synonym encoder = "DecisionRecord \<Rightarrow> string option"

definition RecordDigest :: "encoder \<Rightarrow> sha256 \<Rightarrow> DecisionRecord \<Rightarrow> platform_error + string" where
  "RecordDigest marshal sha r =
     (case marshal r of None \<Rightarrow> Inl ErrEncoding | Some encoded \<Rightarrow> Inr (concat (map hex_byte (sha encoded))))"

text \<open>A digest with a byte outside ASCII is refused by the last check, whatever lower case would make of it.\<close>

definition strings_ToLower :: "string \<Rightarrow> string" where
  "strings_ToLower s = map (\<lambda>c. let n = of_char c :: nat in if 65 \<le> n \<and> n \<le> 90 then char_of (n + 32) else c) s"

definition hex_DecodeString_ok :: "string \<Rightarrow> bool" where
  "hex_DecodeString_ok s \<longleftrightarrow> even (length s) \<and> list_all (\<lambda>c. c \<in> set ''0123456789abcdefABCDEF'') s"

definition validateDigestShape :: "string \<Rightarrow> platform_error option" where
  "validateDigestShape digest =
     (if length digest \<noteq> 64 then Some ErrStoreCorrupt
      else if digest \<noteq> strings_ToLower digest then Some ErrStoreCorrupt
      else if \<not> hex_DecodeString_ok digest then Some ErrStoreCorrupt
      else None)"

definition validatePersistedDigest :: "string \<Rightarrow> platform_error option" where
  "validatePersistedDigest digest = (if digest = '''' then Some ErrStoreCorrupt else validateDigestShape digest)"

definition nextSequenceAfter :: "u64 \<Rightarrow> platform_error + u64" where
  "nextSequenceAfter sequence = (if sequence = MaxUint64 then Inl ErrIngestSequence else Inr (sequence + 1))"

definition initialSequenceFor :: "u64 \<Rightarrow> platform_error + u64" where
  "initialSequenceFor recordCount =
     (case nextSequenceAfter recordCount of Inl _ \<Rightarrow> Inl ErrIngestSequence | Inr next \<Rightarrow> Inr next)"

subsection \<open>The cursor\<close>

record EvaluationIngestState =
  is_nextSequence :: u64
  is_lastDigest :: string
  is_recordCount :: u64
  is_behaviorObservationCount :: u64
  is_distinctBehaviorCount :: nat
  is_behaviorComplete :: bool

definition state_of :: "u64 \<Rightarrow> string \<Rightarrow> EvaluationAggregate \<Rightarrow> BehaviorSnapshot \<Rightarrow> EvaluationIngestState" where
  "state_of next digest a s =
     \<lparr>is_nextSequence = next, is_lastDigest = digest, is_recordCount = ag_recordCount a,
      is_behaviorObservationCount = sn_observations s, is_distinctBehaviorCount = length (sn_entries s),
      is_behaviorComplete = sn_complete s\<rparr>"

definition derivedIngestState :: "store_db \<Rightarrow> EvaluationRunID \<Rightarrow> platform_error + EvaluationIngestState" where
  "derivedIngestState db i =
     (case loadEvidence db i of
        Inl e \<Rightarrow>
          if e = ErrStoreNotFound
          then Inr \<lparr>is_nextSequence = 1, is_lastDigest = '''', is_recordCount = 0, is_behaviorObservationCount = 0,
                    is_distinctBehaviorCount = 0, is_behaviorComplete = True\<rparr>
          else Inl e
      | Inr (a, s) \<Rightarrow> andThen (initialSequenceFor (ag_recordCount a)) (\<lambda>next. Inr (state_of next '''' a s)))"

definition cursorState :: "store_db \<Rightarrow> EvaluationRunID \<Rightarrow> string \<Rightarrow> string \<Rightarrow> platform_error + EvaluationIngestState" where
  "cursorState db i nextSequence lastDigest =
     andThen (parseUint64Text nextSequence) (\<lambda>sequence.
       if sequence = 0 then Inl ErrStoreCorrupt
       else case validatePersistedDigest lastDigest of
         Some e \<Rightarrow> Inl e
       | None \<Rightarrow>
           case loadEvidence db i of
             Inl e \<Rightarrow> Inl (if e = ErrStoreNotFound then ErrStoreCorrupt else e)
           | Inr (a, s) \<Rightarrow>
               case initialSequenceFor (ag_recordCount a) of
                 Inl _ \<Rightarrow> Inl ErrStoreCorrupt
               | Inr expected \<Rightarrow> if sequence \<noteq> expected then Inl ErrStoreCorrupt else Inr (state_of sequence lastDigest a s))"

definition ingestState :: "store_db \<Rightarrow> EvaluationRunID \<Rightarrow> platform_error + EvaluationIngestState" where
  "ingestState db i =
     andThen (loadRun (db_runs db) i) (\<lambda>_.
       case fmlookup (db_cursors db) i of
         None \<Rightarrow> derivedIngestState db i
       | Some (nextSequence, lastDigest) \<Rightarrow> cursorState db i nextSequence lastDigest)"

subsection \<open>The commit transaction\<close>

record EvaluationIngestCommit =
  ec_PreviousNextSequence :: u64
  ec_Sequence :: u64
  ec_RecordDigest :: string
  ec_Aggregate :: EvaluationAggregate
  ec_Snapshot :: BehaviorSnapshot
  ec_Observation :: Observation

datatype EvaluationIngestDisposition = EvaluationIngestCommitted | EvaluationIngestAlreadyCommitted

record EvaluationIngestCommitResult =
  cr_Disposition :: EvaluationIngestDisposition
  cr_NextSequence :: u64
  cr_RecordCount :: u64
  cr_BehaviorComplete :: bool
  cr_History :: ObservationHistory

definition validateCommitObservation :: "EvaluationIngestCommit \<Rightarrow> platform_error option" where
  "validateCommitObservation cm = (if ob_Sequence (ec_Observation cm) \<noteq> ec_Sequence cm then Some ErrInvalidObservation else None)"

text \<open>The rows of one run that its history is read from.\<close>

definition observationRecordCount :: "store_db \<Rightarrow> EvaluationRunID \<Rightarrow> platform_error + u64" where
  "observationRecordCount db i =
     (case fmlookup (db_aggregates db) i of None \<Rightarrow> Inr 0 | Some row \<Rightarrow> parseUint64Text (gr_recordCount row))"

definition run_rows_of :: "store_db \<Rightarrow> EvaluationRunID \<Rightarrow> u64 \<Rightarrow> run_rows" where
  "run_rows_of db i n =
     \<lparr>rr_observations = fmget [] (db_observations db) i, rr_history = fmlookup (db_histories db) i, rr_recordCount = n\<rparr>"

definition history_for :: "store_db \<Rightarrow> EvaluationRunID \<Rightarrow> platform_error + ObservationHistory" where
  "history_for db i =
     andThen (loadObservationHistoryRow (run_rows_of db i 0)) (\<lambda>_.
     andThen (observationRecordCount db i) (\<lambda>n. observationHistoryFor (run_rows_of db i n)))"

definition commit_guard :: "EvaluationIngestCommit \<Rightarrow> platform_error option" where
  "commit_guard cm =
     orElse (validateEvidencePair (ec_Aggregate cm) (ec_Snapshot cm))
     (orElse (validatePersistedDigest (ec_RecordDigest cm))
     (orElse (validateCommitObservation cm)
       (if ec_Sequence cm = MaxUint64 then Some ErrIngestSequence
        else if ec_Sequence cm \<noteq> ec_PreviousNextSequence cm then Some ErrIngestSequence
        else None)))"

definition commit_already :: "store_db \<Rightarrow> EvaluationIngestState \<Rightarrow> EvaluationIngestCommit \<Rightarrow> platform_error + EvaluationIngestCommitResult" where
  "commit_already db current cm =
     (if nextSequenceAfter (ec_Sequence cm) = Inr (is_nextSequence current) \<and> is_lastDigest current = ec_RecordDigest cm
      then andThen (history_for db (ag_runID (ec_Aggregate cm))) (\<lambda>history.
        Inr \<lparr>cr_Disposition = EvaluationIngestAlreadyCommitted, cr_NextSequence = is_nextSequence current,
             cr_RecordCount = is_recordCount current, cr_BehaviorComplete = is_behaviorComplete current, cr_History = history\<rparr>)
      else Inl ErrIngestSequence)"

definition commit_run_guard :: "store_db \<Rightarrow> EvaluationIngestCommit \<Rightarrow> platform_error option" where
  "commit_run_guard db cm =
     (case loadRun (db_runs db) (ag_runID (ec_Aggregate cm)) of
        Inl e \<Rightarrow> Some e
      | Inr run \<Rightarrow>
          if run_status run \<noteq> RunRunning then Some ErrEvaluationState
          else if run_candidateID run \<noteq> ag_candidateID (ec_Aggregate cm) \<or> run_environment run \<noteq> ag_environment (ec_Aggregate cm) \<or>
            run_profile run \<noteq> ag_profile (ec_Aggregate cm) then Some ErrStoreConflict
          else checkEvidenceNotStale db (ec_Aggregate cm) (ec_Snapshot cm))"

definition commit_write :: "sha256 \<Rightarrow> store_db \<Rightarrow> EvaluationIngestCommit \<Rightarrow> platform_error + store_db \<times> EvaluationIngestCommitResult" where
  "commit_write sha db cm =
     (let i = ag_runID (ec_Aggregate cm); db1 = writeEvidence db (ec_Aggregate cm) (ec_Snapshot cm); next = ec_Sequence cm + 1
      in andThen (retainObservation sha (run_rows_of db1 i 0) (ec_Observation cm)) (\<lambda>(rows, history).
        Inr (db1\<lparr>db_observations := fmupd i (rr_observations rows) (db_observations db1),
                 db_histories := (case rr_history rows of None \<Rightarrow> db_histories db1 | Some h \<Rightarrow> fmupd i h (db_histories db1)),
                 db_cursors := fmupd i (uint64Text next, ec_RecordDigest cm) (db_cursors db1)\<rparr>,
             \<lparr>cr_Disposition = EvaluationIngestCommitted, cr_NextSequence = next,
              cr_RecordCount = ag_recordCount (ec_Aggregate cm), cr_BehaviorComplete = sn_complete (ec_Snapshot cm),
              cr_History = history\<rparr>)))"

definition CommitEvaluationIngest ::
  "sha256 \<Rightarrow> store_db \<Rightarrow> EvaluationIngestCommit \<Rightarrow> store_db \<times> (platform_error + EvaluationIngestCommitResult)" where
  "CommitEvaluationIngest sha db cm =
     (case commit_guard cm of
        Some e \<Rightarrow> (db, Inl e)
      | None \<Rightarrow>
          case ingestState db (ag_runID (ec_Aggregate cm)) of
            Inl e \<Rightarrow> (db, Inl e)
          | Inr current \<Rightarrow>
              if is_nextSequence current \<noteq> ec_PreviousNextSequence cm then (db, commit_already db current cm)
              else case commit_run_guard db cm of
                Some e \<Rightarrow> (db, Inl e)
              | None \<Rightarrow> case commit_write sha db cm of Inl e \<Rightarrow> (db, Inl e) | Inr (db', result) \<Rightarrow> (db', Inr result))"

subsection \<open>The handler\<close>

datatype IngestDisposition = IngestApplied | IngestReplayed

record IngestRequest =
  iq_RunID :: EvaluationRunID
  iq_Sequence :: u64
  iq_BehavioralProfile :: BehavioralProfileRef
  iq_Fidelity :: Fidelity
  iq_BehaviorLayer :: Layer
  iq_Operational :: OperationalFacts
  iq_Record :: DecisionRecord

record IngestResult =
  ir_Disposition :: IngestDisposition
  ir_NextSequence :: u64
  ir_RecordCount :: u64
  ir_BehaviorComplete :: bool

definition request_facts :: "IngestRequest \<Rightarrow> OperationalFacts" where
  "request_facts q = (iq_Operational q)\<lparr>of_Fidelity := iq_Fidelity q, of_Layer := iq_BehaviorLayer q\<rparr>"

definition knows :: "BehaviorCollector \<Rightarrow> string \<Rightarrow> bool" where
  "knows c fingerprintID = (co_bound c \<and> fmlookup (co_entries c) fingerprintID \<noteq> None)"

definition currentEvidence :: "store_db \<Rightarrow> EvaluationRun \<Rightarrow> platform_error + EvaluationAggregate \<times> BehaviorCollector" where
  "currentEvidence db run =
     (case loadEvidence db (run_id run) of
        Inl e \<Rightarrow>
          if e = ErrStoreNotFound
          then andThen (NewEvaluationAggregate run) (\<lambda>a. andThen (NewBehaviorCollector run) (\<lambda>c. Inr (a, c)))
          else Inl e
      | Inr (a, s) \<Rightarrow> andThen (behaviorCollectorFromSnapshot s) (\<lambda>c. Inr (a, c)))"

text \<open>One record folded into both reducers; a full collector degrades the evidence but does not refuse the record.\<close>

definition fold_request ::
  "EvaluationAggregate \<times> BehaviorCollector \<Rightarrow> IngestRequest \<Rightarrow> platform_error + EvaluationAggregate \<times> BehaviorCollector" where
  "fold_request ac q =
     (case AddRecord (fst ac) (iq_Record q) of
        (_, Some e) \<Rightarrow> Inl e
      | (a, None) \<Rightarrow>
          case ObserveOperational (snd ac) (iq_Record q) (request_facts q) of
            (c, None) \<Rightarrow> Inr (a, c)
          | (c, Some e) \<Rightarrow> if e = ErrBehaviorCapacity then Inr (a, c) else Inl e)"

definition prepare_commit ::
  "IngestRequest \<Rightarrow> string \<Rightarrow> EvaluationIngestState \<Rightarrow> EvaluationAggregate \<times> BehaviorCollector \<Rightarrow> platform_error + EvaluationIngestCommit" where
  "prepare_commit q digest state ac =
     andThen (fold_request ac q) (\<lambda>(a, c).
     andThen (ObservationFromRecord (iq_Sequence q) (iq_Record q) (\<not> knows (snd ac) (dr_FingerprintID (iq_Record q)))) (\<lambda>ob.
       Inr \<lparr>ec_PreviousNextSequence = is_nextSequence state, ec_Sequence = iq_Sequence q, ec_RecordDigest = digest,
            ec_Aggregate = a, ec_Snapshot = Snapshot c, ec_Observation = ob\<rparr>))"

definition ingest_preflight ::
  "encoder \<Rightarrow> sha256 \<Rightarrow> store_db \<Rightarrow> IngestRequest \<Rightarrow> platform_error + EvaluationRun \<times> string" where
  "ingest_preflight marshal sha db q =
     andThen (loadRun (db_runs db) (iq_RunID q)) (\<lambda>run.
       if run_status run \<noteq> RunRunning then Inl ErrEvaluationState
       else if iq_BehavioralProfile q \<noteq> run_profile run then Inl ErrInvalidBehaviorRecord
       else andThen (RecordDigest marshal sha (iq_Record q)) (\<lambda>digest. Inr (run, digest)))"

datatype ingest_decision = ApplyRecord | ReplayRecord IngestResult

definition decide_sequence :: "IngestRequest \<Rightarrow> string \<Rightarrow> EvaluationIngestState \<Rightarrow> platform_error + ingest_decision" where
  "decide_sequence q digest state =
     (if iq_Sequence q = is_nextSequence state then Inr ApplyRecord
      else if iq_Sequence q + 1 = is_nextSequence state
        then (if is_lastDigest state \<noteq> '''' \<and> is_lastDigest state = digest
              then Inr (ReplayRecord \<lparr>ir_Disposition = IngestReplayed, ir_NextSequence = is_nextSequence state,
                      ir_RecordCount = is_recordCount state, ir_BehaviorComplete = is_behaviorComplete state\<rparr>)
              else Inl ErrIngestSequence)
      else if iq_Sequence q < is_nextSequence state then Inl ErrIngestSequence
      else Inl ErrIngestSequence)"

definition apply_prepare ::
  "store_db \<Rightarrow> EvaluationRun \<Rightarrow> IngestRequest \<Rightarrow> string \<Rightarrow> EvaluationIngestState \<Rightarrow> platform_error + EvaluationIngestCommit" where
  "apply_prepare db run q digest state =
     (case OperationalFacts_Validate (request_facts q) of
        Some e \<Rightarrow> Inl e
      | None \<Rightarrow> andThen (currentEvidence db run) (prepare_commit q digest state))"

definition ingest_answer :: "EvaluationIngestCommitResult \<Rightarrow> IngestResult" where
  "ingest_answer r =
     \<lparr>ir_Disposition = (if cr_Disposition r = EvaluationIngestAlreadyCommitted then IngestReplayed else IngestApplied),
      ir_NextSequence = cr_NextSequence r, ir_RecordCount = cr_RecordCount r, ir_BehaviorComplete = cr_BehaviorComplete r\<rparr>"

definition applyRecord ::
  "sha256 \<Rightarrow> store_db \<Rightarrow> EvaluationRun \<Rightarrow> IngestRequest \<Rightarrow> string \<Rightarrow> EvaluationIngestState \<Rightarrow> store_db \<times> (platform_error + IngestResult)" where
  "applyRecord sha db run q digest state =
     (case apply_prepare db run q digest state of
        Inl e \<Rightarrow> (db, Inl e)
      | Inr cm \<Rightarrow> (case CommitEvaluationIngest sha db cm of (db', r) \<Rightarrow> (db', map_sum (\<lambda>e. e) ingest_answer r)))"

definition IngestDecisionRecord ::
  "encoder \<Rightarrow> sha256 \<Rightarrow> store_db \<Rightarrow> IngestRequest \<Rightarrow> store_db \<times> (platform_error + IngestResult)" where
  "IngestDecisionRecord marshal sha db q =
     (case ingest_preflight marshal sha db q of
        Inl e \<Rightarrow> (db, Inl e)
      | Inr (run, digest) \<Rightarrow>
          case ingestState db (iq_RunID q) of
            Inl e \<Rightarrow> (db, Inl e)
          | Inr state \<Rightarrow>
              case decide_sequence q digest state of
                Inl e \<Rightarrow> (db, Inl e)
              | Inr (ReplayRecord r) \<Rightarrow> (db, Inr r)
              | Inr ApplyRecord \<Rightarrow> applyRecord sha db run q digest state)"

subsection \<open>Requests in progress\<close>

text \<open>A request between two of its transactions, with what it has read so far.\<close>

datatype ingest_task =
    IngestReceived IngestRequest
  | IngestChecked IngestRequest EvaluationRun string
  | IngestSequenced IngestRequest EvaluationRun string EvaluationIngestState
  | IngestPrepared IngestRequest EvaluationIngestCommit
  | IngestAnswered IngestRequest "platform_error + IngestResult"

fun ingest_step :: "encoder \<Rightarrow> sha256 \<Rightarrow> store_db \<Rightarrow> ingest_task \<Rightarrow> store_db \<times> ingest_task" where
  "ingest_step marshal sha db (IngestReceived q) =
     (db, case ingest_preflight marshal sha db q of
            Inl e \<Rightarrow> IngestAnswered q (Inl e) | Inr (run, digest) \<Rightarrow> IngestChecked q run digest)"
| "ingest_step marshal sha db (IngestChecked q run digest) =
     (db, case ingestState db (iq_RunID q) of
            Inl e \<Rightarrow> IngestAnswered q (Inl e)
          | Inr state \<Rightarrow>
              case decide_sequence q digest state of
                Inl e \<Rightarrow> IngestAnswered q (Inl e)
              | Inr (ReplayRecord r) \<Rightarrow> IngestAnswered q (Inr r)
              | Inr ApplyRecord \<Rightarrow> IngestSequenced q run digest state)"
| "ingest_step marshal sha db (IngestSequenced q run digest state) =
     (db, case apply_prepare db run q digest state of
            Inl e \<Rightarrow> IngestAnswered q (Inl e) | Inr cm \<Rightarrow> IngestPrepared q cm)"
| "ingest_step marshal sha db (IngestPrepared q cm) =
     (case CommitEvaluationIngest sha db cm of (db', r) \<Rightarrow> (db', IngestAnswered q (map_sum (\<lambda>e. e) ingest_answer r)))"
| "ingest_step marshal sha db (IngestAnswered q r) = (db, IngestAnswered q r)"

end
