(* ===== verification/Platform_Ingest_Proofs.thy ===== *)
theory Platform_Ingest_Proofs
  imports Platform_Ingest
begin

text \<open>
  Ingest is exactly once. The reference is a plain fold of the accepted requests in order
  (\<open>reference_evidence\<close>). The theorems are that in every interleaving the stored evidence, cursor and
  history of a run are those of the log of the requests answered as applied, that every answer tells
  what happened to its record, that a finished run is never written again, and that an acceptable
  record at the expected sequence is applied and its retry replayed.
\<close>

subsection \<open>The interleaved system\<close>

record ingest_system =
  sy_db :: store_db
  sy_tasks :: "ingest_task list"
  sy_log :: "IngestRequest list"

text \<open>The log records a request when its commit is answered as applied.\<close>

fun applied_by :: "ingest_task \<Rightarrow> ingest_task \<Rightarrow> IngestRequest list" where
  "applied_by (IngestPrepared q cm) (IngestAnswered _ (Inr r)) = (if ir_Disposition r = IngestApplied then [q] else [])"
| "applied_by _ _ = []"

definition emptyStore :: store_db where
  "emptyStore = \<lparr>db_runs = fmempty, db_aggregates = fmempty, db_snapshots = fmempty, db_entries = fmempty,
     db_observations = fmempty, db_histories = fmempty, db_cursors = fmempty\<rparr>"

text \<open>The steps of the system: a request arrives, a request makes its next transaction, a run is created, a run moves through
  its lifecycle. Which requests arrive is a parameter \<open>ok\<close>. These are the store transactions of the control plane's
  calls on a run; \<^verbatim>\<open>SaveEvaluationEvidence\<close>, which no call of the control plane makes, is not among them.\<close>

inductive sys_step :: "(IngestRequest \<Rightarrow> bool) \<Rightarrow> encoder \<Rightarrow> sha256 \<Rightarrow> ingest_system \<Rightarrow> ingest_system \<Rightarrow> bool" for ok marshal sha where
  submit: "ok q \<Longrightarrow> sys_step ok marshal sha s (s\<lparr>sy_tasks := sy_tasks s @ [IngestReceived q]\<rparr>)"
| work: "k < length (sy_tasks s) \<Longrightarrow> ingest_step marshal sha (sy_db s) (sy_tasks s ! k) = (db', t) \<Longrightarrow>
    sys_step ok marshal sha s \<lparr>sy_db = db', sy_tasks = (sy_tasks s)[k := t], sy_log = sy_log s @ applied_by (sy_tasks s ! k) t\<rparr>"
| create: "run_reach run \<Longrightarrow> CreateEvaluationRun exs (db_runs (sy_db s)) run = (tab', err) \<Longrightarrow>
    sys_step ok marshal sha s (s\<lparr>sy_db := (sy_db s)\<lparr>db_runs := tab'\<rparr>\<rparr>)"
| lifecycle: "run_reach n \<Longrightarrow> UpdateEvaluationRun (db_runs (sy_db s)) p n = (tab', err) \<Longrightarrow>
    sys_step ok marshal sha s (s\<lparr>sy_db := (sy_db s)\<lparr>db_runs := tab'\<rparr>\<rparr>)"

inductive sys_reach :: "(IngestRequest \<Rightarrow> bool) \<Rightarrow> encoder \<Rightarrow> sha256 \<Rightarrow> ingest_system \<Rightarrow> bool" for ok marshal sha where
  start: "sys_reach ok marshal sha \<lparr>sy_db = emptyStore, sy_tasks = [], sy_log = []\<rparr>"
| step: "sys_reach ok marshal sha s \<Longrightarrow> sys_step ok marshal sha s s' \<Longrightarrow> sys_reach ok marshal sha s'"

text \<open>The requests the theorems are about: the record is dated after the zero time, and its time reads back from the text of
  its own zone and of UTC. A record dated otherwise is accepted too, but its run's evidence does not read back.\<close>

definition dated_request :: "IngestRequest \<Rightarrow> bool" where
  "dated_request q = (dated (iq_Record q) \<and> time_storable (Time_UTC (dr_Timestamp (iq_Record q))))"

definition log_of :: "EvaluationRunID \<Rightarrow> IngestRequest list \<Rightarrow> IngestRequest list" where
  "log_of i l = filter (\<lambda>q. iq_RunID q = i) l"

subsection \<open>The reference\<close>

type_synonym reference = "EvaluationAggregate \<times> BehaviorCollector \<times> Observation list"

definition ingest_one :: "reference \<Rightarrow> IngestRequest \<Rightarrow> platform_error + reference" where
  "ingest_one st q =
     (case st of (a, c, obs) \<Rightarrow>
        andThen (fold_request (a, c) q) (\<lambda>(a', c').
        andThen (ObservationFromRecord (iq_Sequence q) (iq_Record q) (\<not> knows c (dr_FingerprintID (iq_Record q)))) (\<lambda>ob.
          Inr (a', c', obs @ [ob]))))"

definition reference_evidence :: "EvaluationRun \<Rightarrow> IngestRequest list \<Rightarrow> platform_error + reference" where
  "reference_evidence run L =
     foldl (\<lambda>st q. andThen st (\<lambda>s. ingest_one s q))
       (andThen (NewEvaluationAggregate run) (\<lambda>a. andThen (NewBehaviorCollector run) (\<lambda>c. Inr (a, c, [])))) L"

lemma reference_Nil:
  "reference_evidence run [] = andThen (NewEvaluationAggregate run) (\<lambda>a. andThen (NewBehaviorCollector run) (\<lambda>c. Inr (a, c, [])))"
  by (simp add: reference_evidence_def)

lemma reference_snoc: "reference_evidence run (L @ [q]) = andThen (reference_evidence run L) (\<lambda>s. ingest_one s q)"
  by (simp add: reference_evidence_def)

lemma fold_request_Inr:
  "fold_request (a, c) q = Inr (a', c') \<longleftrightarrow> AddRecord a (iq_Record q) = (a', None) \<and>
     (ObserveOperational c (iq_Record q) (request_facts q) = (c', None) \<or>
      ObserveOperational c (iq_Record q) (request_facts q) = (c', Some ErrBehaviorCapacity))"
  by (auto simp: fold_request_def split: prod.splits option.splits if_splits)

lemma ingest_one_Inr:
  "ingest_one (a, c, obs) q = Inr (a', c', obs') \<longleftrightarrow>
     (\<exists>ob. fold_request (a, c) q = Inr (a', c') \<and>
        ObservationFromRecord (iq_Sequence q) (iq_Record q) (\<not> knows c (dr_FingerprintID (iq_Record q))) = Inr ob \<and> obs' = obs @ [ob])"
  by (auto simp: ingest_one_def)

lemma andThen_Inl: "andThen x f = Inl e \<longleftrightarrow> x = Inl e \<or> (\<exists>a. x = Inr a \<and> f a = Inl e)"
  by (cases x) (auto simp: andThen_def)

lemma addCount_Inl: "addCount v n = Inl e \<Longrightarrow> e = ErrBehaviorOverflow"
  by (simp add: addCount_def split: if_splits)

lemma fidelity_overflow: "BehaviorFidelity_observe b f l = Inl e \<Longrightarrow> e = ErrBehaviorOverflow"
  by (auto simp: BehaviorFidelity_observe_def andThen_Inl Let_def dest: addCount_Inl split: if_splits)

lemma observeOperational_error:
  "observeOperational du sc r = Inl e \<Longrightarrow> e = ErrInvalidDecisionRecord \<or> e = ErrAggregateOverflow"
  by (auto simp: observeOperational_def DurationSummary_observe_def DurationSummary_skip_def SpanStatusCounts_count_def
      split: sum.splits if_splits)

lemma summary_error:
  assumes "OperationalSummary_observe s r f = Inl e"
  shows "e \<noteq> ErrBehaviorCapacity"
proof (cases "observeOperational (os_Durations s) (os_SpanStatus s) r")
  case (Inl x)
  then show ?thesis using assms observeOperational_error [OF Inl] by (auto simp: OperationalSummary_observe_def split: if_splits)
next
  case (Inr p)
  have "observe_buckets bs r = Inl e \<Longrightarrow> e \<noteq> ErrBehaviorCapacity" for bs
    by (auto simp: observe_buckets_def andThen_Inl Let_def dest: addCount_Inl split: if_splits)
  moreover have "observe_http h c = Inl e \<Longrightarrow> e \<noteq> ErrBehaviorCapacity" for h c
    by (auto simp: observe_http_def andThen_Inl Let_def dest: addCount_Inl split: if_splits)
  moreover have "observe_tokens t u = Inl e \<Longrightarrow> e \<noteq> ErrBehaviorCapacity" for t u
    by (auto simp: observe_tokens_def andThen_Inl Let_def dest: addCount_Inl split: if_splits)
  ultimately show ?thesis using assms Inr
    by (cases p) (auto simp: OperationalSummary_observe_def andThen_Inl dest: addCount_Inl split: if_splits)
qed

lemma capacity_incomplete:
  assumes "ObserveOperational c r f = (c', Some ErrBehaviorCapacity)"
  shows "\<not> co_complete c'"
proof -
  have v: "validateText ErrInvalidBehaviorRecord t \<noteq> Some ErrBehaviorCapacity" for t by (auto simp: validateText_def split: if_splits)
  have i: "validateBehaviorIdentity x y \<noteq> Some ErrBehaviorCapacity" for x y
    using v by (auto simp: validateBehaviorIdentity_def split: if_splits option.splits)
  have "OperationalFacts_Validate f \<noteq> Some ErrBehaviorCapacity" by (auto simp: OperationalFacts_Validate_def split: if_splits)
  with i show ?thesis using assms
    by (auto simp: ObserveOperational_def Observe_guard_def Let_def orElse_def dest: summary_error fidelity_overflow
        split: option.splits if_splits sum.splits)
qed

lemma complete_mono: "ObserveOperational c r f = (c', e) \<Longrightarrow> co_complete c' \<Longrightarrow> co_complete c"
  by (auto simp: ObserveOperational_def Let_def split: option.splits if_splits sum.splits)

text \<open>What the reference says about its reducers.\<close>

definition reference_ok :: "EvaluationRun \<Rightarrow> IngestRequest list \<Rightarrow> reference \<Rightarrow> bool" where
  "reference_ok run L st \<longleftrightarrow>
     (case st of (a, c, obs) \<Rightarrow>
        agg_reach run (map iq_Record L) a \<and> map ob_Sequence obs = map iq_Sequence L \<and>
        (\<exists>xs. coll_reach run xs c \<and> length xs \<le> length L \<and> (co_complete c \<longrightarrow> length xs = length L)))"

lemma reference_reaches: "reference_evidence run L = Inr st \<Longrightarrow> reference_ok run L st"
proof (induction L arbitrary: st rule: rev_induct)
  case Nil
  then show ?case
    by (auto simp: reference_ok_def reference_Nil intro!: agg_reach.empty coll_reach.new exI [of _ "[]"])
next
  case (snoc q L)
  obtain a' c' obs' where st: "st = (a', c', obs')" using prod_cases3 by blast
  then obtain a c obs ob where s: "reference_evidence run L = Inr (a, c, obs)" "fold_request (a, c) q = Inr (a', c')"
    "ObservationFromRecord (iq_Sequence q) (iq_Record q) (\<not> knows c (dr_FingerprintID (iq_Record q))) = Inr ob" "obs' = obs @ [ob]"
    using snoc.prems by (auto simp: reference_snoc ingest_one_Inr)
  from snoc.IH [OF s(1)] obtain xs where ih: "agg_reach run (map iq_Record L) a" "map ob_Sequence obs = map iq_Sequence L"
    "coll_reach run xs c" "length xs \<le> length L" "co_complete c \<longrightarrow> length xs = length L"
    by (auto simp: reference_ok_def)
  have ob: "ob_Sequence ob = iq_Sequence q" using s(3) by (auto simp: ObservationFromRecord_def split: if_splits sum.splits)
  consider "ObserveOperational c (iq_Record q) (request_facts q) = (c', None)"
    | "ObserveOperational c (iq_Record q) (request_facts q) = (c', Some ErrBehaviorCapacity)"
    using s(2) by (auto simp: fold_request_Inr)
  then have "\<exists>xs. coll_reach run xs c' \<and> length xs \<le> Suc (length L) \<and> (co_complete c' \<longrightarrow> length xs = Suc (length L))"
  proof cases
    case 1
    have "co_complete c' \<longrightarrow> co_complete c" using complete_mono [OF 1] by blast
    then show ?thesis using coll_reach.accept [OF ih(3) 1] ih(4,5) by fastforce
  next
    case 2
    have "\<not> co_complete c'" using 2 capacity_incomplete by blast
    then show ?thesis using coll_reach.refuse [OF ih(3) 2] ih(4) le_SucI by blast
  qed
  moreover have "agg_reach run (map iq_Record L @ [iq_Record q]) a'"
    using ih(1) s(2) by (auto simp: fold_request_Inr intro: agg_reach.add)
  ultimately show ?case using ih(2) ob by (auto simp: reference_ok_def st s(4))
qed


subsection \<open>What is stored for a run\<close>

definition same_ids :: "EvaluationRun \<Rightarrow> EvaluationRun \<Rightarrow> bool" where
  "same_ids r r' \<longleftrightarrow> run_id r' = run_id r \<and> run_candidateID r' = run_candidateID r \<and>
     run_environment r' = run_environment r \<and> run_profile r' = run_profile r"

lemma loaded_run:
  assumes "loadRun tab i = Inr r"
  shows "run_reach r" and "run_id r = i" and "validateRunBinding r = None"
proof -
  obtain row where "rehydrateRun i row = Inr r" using assms by (auto simp: loadRun_def split: option.splits)
  then show "run_reach r" "run_id r = i" by (auto simp: rehydrate_iff)
  then show "validateRunBinding r = None" by (simp add: form_binding run_form_reach)
qed

lemma reference_rebind:
  assumes "same_ids r r'" and "validateRunBinding r = None" and "validateRunBinding r' = None"
  shows "reference_evidence r' L = reference_evidence r L"
proof -
  have "NewEvaluationAggregate r' = NewEvaluationAggregate r" "NewBehaviorCollector r' = NewBehaviorCollector r"
    using assms by (simp_all add: NewEvaluationAggregate_def NewBehaviorCollector_def same_ids_def)
  then show ?thesis by (simp add: reference_evidence_def)
qed

definition rows_absent :: "store_db \<Rightarrow> EvaluationRunID \<Rightarrow> bool" where
  "rows_absent db i \<longleftrightarrow> fmlookup (db_aggregates db) i = None \<and> fmlookup (db_snapshots db) i = None \<and>
     fmlookup (db_entries db) i = None \<and> fmlookup (db_observations db) i = None \<and> fmlookup (db_histories db) i = None \<and>
     fmlookup (db_cursors db) i = None"

definition rows_hold :: "sha256 \<Rightarrow> store_db \<Rightarrow> EvaluationRunID \<Rightarrow> EvaluationAggregate \<Rightarrow> BehaviorCollector \<Rightarrow> Observation list \<Rightarrow> string \<Rightarrow> bool" where
  "rows_hold sha db i a c obs d \<longleftrightarrow>
     fmlookup (db_aggregates db) i = Some (aggregateInsertArgs a) \<and>
     fmlookup (db_snapshots db) i = Some (snapshotRow (Snapshot c)) \<and>
     fmlookup (db_entries db) i = Some (map behaviorEntryInsertArgs (sn_entries (Snapshot c))) \<and>
     fmlookup (db_cursors db) i = Some (uint64Text (of_nat (Suc (length obs))), d) \<and>
     retained_state sha obs (run_rows_of db i (of_nat (length obs)))"

text \<open>The requests of the log carry the sequences 1, 2, 3 and so on, and dated records.\<close>

definition ingest_log_ok :: "IngestRequest list \<Rightarrow> bool" where
  "ingest_log_ok L \<longleftrightarrow> (\<forall>k < length L. iq_Sequence (L ! k) = of_nat (Suc k)) \<and>
     (\<forall>q \<in> set L. dated_request q) \<and> length L < 2 ^ 64 - 1"

definition run_stored :: "encoder \<Rightarrow> sha256 \<Rightarrow> store_db \<Rightarrow> EvaluationRun \<Rightarrow> IngestRequest list \<Rightarrow> bool" where
  "run_stored marshal sha db run L \<longleftrightarrow> ingest_log_ok L \<and>
     (if L = [] then rows_absent db (run_id run)
      else \<exists>a c obs d. reference_evidence run L = Inr (a, c, obs) \<and> rows_hold sha db (run_id run) a c obs d \<and>
        RecordDigest marshal sha (iq_Record (last L)) = Inr d \<and> validatePersistedDigest d = None)"

definition db_inv :: "encoder \<Rightarrow> sha256 \<Rightarrow> store_db \<Rightarrow> IngestRequest list \<Rightarrow> bool" where
  "db_inv marshal sha db l \<longleftrightarrow> (\<forall>i.
     (fmlookup (db_runs db) i = None \<and> log_of i l = [] \<and> rows_absent db i) \<or>
     (\<exists>run. loadRun (db_runs db) i = Inr run \<and> run_stored marshal sha db run (log_of i l)))"

lemma reference_pair:
  assumes "reference_ok run L (a, c, obs)"
  shows "validateEvidencePair a (Snapshot c) = None" and "ag_runID a = run_id run" and "unat (ag_recordCount a) = length L"
    and "length obs = length L"
proof -
  obtain xs where r: "agg_reach run (map iq_Record L) a" "coll_reach run xs c" "length xs \<le> length L" "co_complete c \<longrightarrow> length xs = length L"
    "map ob_Sequence obs = map iq_Sequence L"
    using assms by (auto simp: reference_ok_def)
  note s = snapshot_of_run [OF r(2)] and g = agg_reach_identity [OF r(1)]
  have n: "unat (ag_recordCount a) = length L" using agg_reach_inv [OF r(1)] by (simp add: counts_inv_def)
  then have "sn_observations (Snapshot c) \<le> ag_recordCount a" "co_complete c \<Longrightarrow> ag_recordCount a = sn_observations (Snapshot c)"
    using s(6) r(3,4) by (simp_all add: word_le_nat_alt word_unat_eq_iff)
  then show "validateEvidencePair a (Snapshot c) = None" using s g by (auto simp: validateEvidencePair_def)
  show "ag_runID a = run_id run" "unat (ag_recordCount a) = length L" using g n by auto
  show "length obs = length L" using map_eq_imp_length_eq [OF r(5)] .
qed

lemma stored_evidence:
  assumes "loadRun (db_runs db) i = Inr run" and "reference_evidence run L = Inr (a, c, obs)" and "ingest_log_ok L"
    and "rows_hold sha db i a c obs d"
  shows "loadEvidence db i = Inr (a, Snapshot c)"
proof -
  note ok = reference_reaches [OF assms(2)] and run = loaded_run [OF assms(1)]
  obtain xs where r: "agg_reach run (map iq_Record L) a" "coll_reach run xs c" using ok by (auto simp: reference_ok_def)
  have t: "\<forall>r \<in> set (map iq_Record L). dated r" using assms(3) by (auto simp: ingest_log_ok_def dated_request_def)
  have rows: "fmlookup (db_aggregates db) i = Some (aggregateInsertArgs a)" "fmlookup (db_snapshots db) i = Some (snapshotRow (Snapshot c))"
    "fmget [] (db_entries db) i = map behaviorEntryInsertArgs (sn_entries (Snapshot c))"
    using assms(4) by (simp_all add: rows_hold_def fmget_def)
  have own: "validateRestoredEvidenceAgainstRun run a (Snapshot c) = None"
    using snapshot_of_run [OF r(2)] agg_reach_identity [OF r(1)] by (simp add: validateRestoredEvidenceAgainstRun_def)
  show ?thesis
    unfolding loadEvidence_def rows prod.case option.case load_aggregate_row [OF r(1) t, unfolded run(2)]
      load_snapshot_row [OF r(2), unfolded run(2)] andThen_def sum.case reference_pair(1) [OF ok] assms(1) own by simp
qed


lemma next_after: "n < 2 ^ 64 - 1 \<Longrightarrow> unat w = n \<Longrightarrow> nextSequenceAfter w = Inr (of_nat (Suc n))"
  by (auto simp: nextSequenceAfter_def eq_MaxUint64)

text \<open>The cursor of a stored run.\<close>

definition cursor_of :: "encoder \<Rightarrow> sha256 \<Rightarrow> EvaluationRun \<Rightarrow> IngestRequest list \<Rightarrow> EvaluationIngestState \<Rightarrow> bool" where
  "cursor_of marshal sha run L st \<longleftrightarrow> is_nextSequence st = of_nat (Suc (length L)) \<and> is_recordCount st = of_nat (length L) \<and>
     (if L = [] then is_lastDigest st = '''' \<and> is_behaviorComplete st
      else RecordDigest marshal sha (iq_Record (last L)) = Inr (is_lastDigest st) \<and>
        (\<exists>a c obs. reference_evidence run L = Inr (a, c, obs) \<and> is_behaviorComplete st = co_complete c))"

lemma absent_evidence: "rows_absent db i \<Longrightarrow> loadEvidence db i = Inl ErrStoreNotFound"
  by (simp add: rows_absent_def loadEvidence_def)

lemma stored_cursor:
  assumes "loadRun (db_runs db) i = Inr run" and "run_stored marshal sha db run L"
  shows "\<exists>st. ingestState db i = Inr st \<and> cursor_of marshal sha run L st"
proof (cases "L = []")
  case True
  then have "rows_absent db i" using assms loaded_run(2) [OF assms(1)] by (simp add: run_stored_def)
  then show ?thesis using assms(1) True absent_evidence [of db i]
    by (simp add: ingestState_def derivedIngestState_def cursor_of_def rows_absent_def andThen_def)
next
  case False
  then obtain a c obs d where s: "ingest_log_ok L" "reference_evidence run L = Inr (a, c, obs)" "rows_hold sha db i a c obs d"
    "RecordDigest marshal sha (iq_Record (last L)) = Inr d" "validatePersistedDigest d = None"
    using assms loaded_run(2) [OF assms(1)] by (auto simp: run_stored_def)
  note p = reference_pair [OF reference_reaches [OF s(2)]]
  have ev: "loadEvidence db i = Inr (a, Snapshot c)" using stored_evidence [OF assms(1) s(2,1,3)] .
  obtain xs where c: "coll_reach run xs c" using reference_reaches [OF s(2)] by (auto simp: reference_ok_def)
  have n: "length L < 2 ^ 64 - 1" using s(1) by (simp add: ingest_log_ok_def)
  then have nx: "nextSequenceAfter (ag_recordCount a) = Inr (of_nat (Suc (length L)))" using p(3) by (rule next_after)
  have nz: "of_nat (Suc (length L)) \<noteq> (0 :: u64)" using n by (simp add: word_unat_eq_iff unat_of_nat del: of_nat_Suc)
  have rc: "ag_recordCount a = of_nat (length L)" using p(3) n by (simp add: word_unat_eq_iff unat_of_nat)
  have cur: "fmlookup (db_cursors db) i = Some (uint64Text (of_nat (Suc (length L))), d)" using s(3) p(4) by (simp add: rows_hold_def)
  have "cursorState db i (uint64Text (of_nat (Suc (length L)))) d = Inr (state_of (of_nat (Suc (length L))) d a (Snapshot c))"
    using nz s(5) ev nx by (simp add: cursorState_def andThen_def initialSequenceFor_def del: of_nat_Suc)
  then have "ingestState db i = Inr (state_of (of_nat (Suc (length L))) d a (Snapshot c))"
    by (simp add: ingestState_def assms(1) cur andThen_def del: of_nat_Suc)
  then show ?thesis using False s rc snapshot_of_run(7) [OF c]
    by (simp add: cursor_of_def state_of_def del: of_nat_Suc)
qed


subsection \<open>A commit\<close>

definition rows_eq :: "store_db \<Rightarrow> store_db \<Rightarrow> EvaluationRunID \<Rightarrow> bool" where
  "rows_eq db db' i \<longleftrightarrow> fmlookup (db_aggregates db') i = fmlookup (db_aggregates db) i \<and>
     fmlookup (db_snapshots db') i = fmlookup (db_snapshots db) i \<and> fmlookup (db_entries db') i = fmlookup (db_entries db) i \<and>
     fmlookup (db_observations db') i = fmlookup (db_observations db) i \<and>
     fmlookup (db_histories db') i = fmlookup (db_histories db) i \<and> fmlookup (db_cursors db') i = fmlookup (db_cursors db) i"

lemma rows_eq_cong:
  assumes "rows_eq db db' i"
  shows "rows_absent db' i = rows_absent db i" and "rows_hold sha db' i a c obs d = rows_hold sha db i a c obs d"
  using assms by (simp_all add: rows_eq_def rows_absent_def rows_hold_def run_rows_of_def fmget_def)

lemma run_stored_cong:
  "rows_eq db db' (run_id run) \<Longrightarrow> run_stored marshal sha db' run L = run_stored marshal sha db run L"
  by (simp add: run_stored_def rows_eq_cong)

lemma retain_count:
  "retainObservation sha (s\<lparr>rr_recordCount := n\<rparr>) ob = map_sum id (\<lambda>(s', h). (s'\<lparr>rr_recordCount := n\<rparr>, h)) (retainObservation sha s ob)"
proof -
  have "loadObservationHistoryRow (s\<lparr>rr_recordCount := n\<rparr>) = loadObservationHistoryRow s" by (simp add: loadObservationHistoryRow_def)
  then show ?thesis
    by (cases "loadObservationHistoryRow s") (auto simp: retainObservation_def andThen_def Let_def)
qed

lemma retain_history: "retainObservation sha s ob = Inr (s', h) \<Longrightarrow> \<exists>x. rr_history s' = Some x"
  by (auto simp: retainObservation_def Let_def)

lemma retain_stored:
  assumes "retained_state sha obs (run_rows_of db i (of_nat (length obs)))" and "ob_Sequence ob = of_nat (Suc (length obs))"
  obtains rows h x where "retainObservation sha (run_rows_of db i 0) ob = Inr (rows, h)" and "rr_history rows = Some x"
    and "retained_state sha (obs @ [ob]) (rows\<lparr>rr_recordCount := of_nat (Suc (length obs))\<rparr>)"
proof -
  obtain s' h where s: "retainObservation sha (run_rows_of db i (of_nat (length obs))) ob = Inr (s', h)"
    "retained_state sha (obs @ [ob]) (s'\<lparr>rr_recordCount := rr_recordCount s' + 1\<rparr>)"
    using retain_step [OF assms] by blast
  have "run_rows_of db i 0 = (run_rows_of db i (of_nat (length obs)))\<lparr>rr_recordCount := 0\<rparr>" by (simp add: run_rows_of_def)
  then have "retainObservation sha (run_rows_of db i 0) ob = Inr (s'\<lparr>rr_recordCount := 0\<rparr>, h)"
    using s(1) by (simp only: retain_count) simp
  moreover have "retained_state sha (obs @ [ob]) (s'\<lparr>rr_recordCount := of_nat (Suc (length obs))\<rparr>)"
    using s(2) by (simp add: retained_state_def)
  ultimately show ?thesis using that [of "s'\<lparr>rr_recordCount := 0\<rparr>" h] retain_history by fastforce
qed

text \<open>A request that has been prepared against the present evidence.\<close>

definition prepared_now :: "encoder \<Rightarrow> sha256 \<Rightarrow> EvaluationRun \<Rightarrow> IngestRequest list \<Rightarrow> IngestRequest \<Rightarrow> EvaluationIngestCommit \<Rightarrow> bool" where
  "prepared_now marshal sha run L q cm \<longleftrightarrow>
     (\<exists>a c obs ob. reference_evidence run (L @ [q]) = Inr (a, c, obs @ [ob]) \<and> ec_Aggregate cm = a \<and>
        ec_Snapshot cm = Snapshot c \<and> ec_Observation cm = ob)"

lemma stored_state:
  assumes "run_stored marshal sha db run L" and "reference_evidence run L = Inr (a, c, obs)"
  shows "retained_state sha obs (run_rows_of db (run_id run) (of_nat (length obs)))"
    and "fmlookup (db_snapshots db) (run_id run) = None \<or> fmlookup (db_snapshots db) (run_id run) = Some (snapshotRow (Snapshot c))"
proof -
  have "obs = []" if "L = []" using assms(2) that by (auto simp: reference_Nil)
  then show "retained_state sha obs (run_rows_of db (run_id run) (of_nat (length obs)))"
    "fmlookup (db_snapshots db) (run_id run) = None \<or> fmlookup (db_snapshots db) (run_id run) = Some (snapshotRow (Snapshot c))"
    using assms
    by (cases "L = []"; auto simp: run_stored_def rows_absent_def rows_hold_def retained_state_def run_rows_of_def fmget_def)+
qed

lemma snapshot_row_update:
  assumes "coll_reach run xs c" and "coll_reach run ys c'"
  shows "(snapshotRow (Snapshot c))\<lparr>sw_observations := uint64Text (sn_observations (Snapshot c')),
      sw_distinct := length (sn_entries (Snapshot c')), sw_complete := boolInt (sn_complete (Snapshot c'))\<rparr> = snapshotRow (Snapshot c')"
  using snapshot_of_run [OF assms(1)] snapshot_of_run [OF assms(2)] by (simp add: snapshotRow_def)


lemma ingest_log_ok_snoc:
  assumes "ingest_log_ok L" and "iq_Sequence q = of_nat (Suc (length L))" and "dated_request q" and "iq_Sequence q \<noteq> MaxUint64"
  shows "ingest_log_ok (L @ [q])"
proof -
  have "length L < 2 ^ 64 - 1" using assms(1) by (simp add: ingest_log_ok_def)
  then have "Suc (length L) < 2 ^ 64 - 1" using assms(2,4) by (simp add: eq_MaxUint64 unat_of_nat del: of_nat_Suc)
  then show ?thesis using assms by (auto simp: ingest_log_ok_def nth_append less_Suc_eq)
qed

definition commit_result :: "u64 \<Rightarrow> bool \<Rightarrow> EvaluationIngestCommitResult \<Rightarrow> bool" where
  "commit_result seq cmpl res \<longleftrightarrow> cr_Disposition res = EvaluationIngestCommitted \<and> cr_NextSequence res = seq + 1 \<and>
     cr_RecordCount res = seq \<and> cr_BehaviorComplete res = cmpl"

lemma commit_writes:
  assumes st: "run_stored marshal sha db run L" and q: "iq_Sequence q = of_nat (Suc (length L))" "dated_request q"
    and cm: "prepared_now marshal sha run L q cm" "ec_Sequence cm = iq_Sequence q" "commit_guard cm = None"
    and dg: "RecordDigest marshal sha (iq_Record q) = Inr (ec_RecordDigest cm)"
  shows "\<exists>db' res. commit_write sha db cm = Inr (db', res) \<and> run_stored marshal sha db' run (L @ [q]) \<and>
    db_runs db' = db_runs db \<and> (\<forall>j. j \<noteq> run_id run \<longrightarrow> rows_eq db db' j) \<and>
    commit_result (iq_Sequence q) (sn_complete (ec_Snapshot cm)) res"
proof -
  obtain a' c' obs ob where p: "reference_evidence run (L @ [q]) = Inr (a', c', obs @ [ob])" "ec_Aggregate cm = a'"
    "ec_Snapshot cm = Snapshot c'" "ec_Observation cm = ob"
    using cm(1) by (auto simp: prepared_now_def)
  then obtain a c where r: "reference_evidence run L = Inr (a, c, obs)" by (auto simp: reference_snoc ingest_one_def split: prod.splits)
  note ok = reference_reaches [OF r] and ok' = reference_reaches [OF p(1)]
  obtain xs ys where cr: "coll_reach run xs c" "coll_reach run ys c'" using ok ok' by (auto simp: reference_ok_def)
  have n: "length obs = length L" "ag_runID a' = run_id run" "unat (ag_recordCount a') = Suc (length L)"
    "ob_Sequence ob = iq_Sequence q" and pair: "validatePersistedDigest (ec_RecordDigest cm) = None" "iq_Sequence q \<noteq> MaxUint64"
    using reference_pair [OF ok] reference_pair [OF ok'] ok' ok cm(2,3) by (auto simp: reference_ok_def commit_guard_def orElse_None_iff split: if_splits)
  have lk: "ingest_log_ok (L @ [q])" using st q pair(2) by (intro ingest_log_ok_snoc) (auto simp: run_stored_def)
  have rc: "ag_recordCount a' = iq_Sequence q"
    using n(3) lk q(1) by (simp add: word_unat_eq_iff unat_of_nat ingest_log_ok_def del: of_nat_Suc)
  obtain rows h x where rt: "retainObservation sha (run_rows_of db (run_id run) 0) ob = Inr (rows, h)" "rr_history rows = Some x"
    "retained_state sha (obs @ [ob]) (rows\<lparr>rr_recordCount := of_nat (Suc (length obs))\<rparr>)"
    using retain_stored [OF stored_state(1) [OF st r]] n(1,4) q(1) by metis
  define db1 where "db1 = writeEvidence db a' (Snapshot c')"
  define db2 where "db2 = db1\<lparr>db_observations := fmupd (run_id run) (rr_observations rows) (db_observations db1),
    db_histories := fmupd (run_id run) x (db_histories db1),
    db_cursors := fmupd (run_id run) (uint64Text (iq_Sequence q + 1), ec_RecordDigest cm) (db_cursors db1)\<rparr>"
  have same: "run_rows_of db1 (run_id run) 0 = run_rows_of db (run_id run) 0" by (simp add: db1_def writeEvidence_def run_rows_of_def)
  have w: "commit_write sha db cm = Inr (db2, \<lparr>cr_Disposition = EvaluationIngestCommitted, cr_NextSequence = iq_Sequence q + 1,
      cr_RecordCount = ag_recordCount a', cr_BehaviorComplete = sn_complete (Snapshot c'), cr_History = h\<rparr>)"
    using rt(1,2) same by (simp add: commit_write_def Let_def p n cm(2) db1_def [symmetric] db2_def andThen_def)
  note sr = snapshot_of_run [OF cr(2)]
  have row: "fmlookup (db_snapshots db2) (run_id run) = Some (snapshotRow (Snapshot c'))"
    using stored_state(2) [OF st r] snapshot_row_update [OF cr] sr(2) by (auto simp: db2_def db1_def writeEvidence_def)
  have rr: "run_rows_of db2 (run_id run) m = rows\<lparr>rr_recordCount := m\<rparr>" for m
    using rt(2) by (simp add: run_rows_of_def db2_def fmget_def)
  have "rows_hold sha db2 (run_id run) a' c' (obs @ [ob]) (ec_RecordDigest cm)"
    using row rt(3) n q(1) sr(2) by (simp add: rows_hold_def rr) (simp add: db2_def db1_def writeEvidence_def)
  then have "run_stored marshal sha db2 run (L @ [q])" using lk p(1) dg pair(1) by (auto simp: run_stored_def)
  moreover have "db_runs db2 = db_runs db" "\<forall>j. j \<noteq> run_id run \<longrightarrow> rows_eq db db2 j"
    using n(2) sr(2) by (simp_all add: db2_def db1_def writeEvidence_def rows_eq_def)
  ultimately show ?thesis using w rc p(3) by (auto simp: commit_result_def)
qed


text \<open>The three outcomes of a commit: refused, already committed by the same record, written.\<close>

definition commit_refused :: "store_db \<Rightarrow> store_db \<Rightarrow> platform_error + EvaluationIngestCommitResult \<Rightarrow> bool" where
  "commit_refused db db' r \<longleftrightarrow> (\<exists>e. r = Inl e) \<and> db' = db"

definition commit_replayed ::
  "encoder \<Rightarrow> sha256 \<Rightarrow> store_db \<Rightarrow> store_db \<Rightarrow> IngestRequest list \<Rightarrow> IngestRequest \<Rightarrow> platform_error + EvaluationIngestCommitResult \<Rightarrow> bool" where
  "commit_replayed marshal sha db db' L q r \<longleftrightarrow> (\<exists>res. r = Inr res \<and> cr_Disposition res = EvaluationIngestAlreadyCommitted \<and>
     cr_NextSequence res = iq_Sequence q + 1 \<and> cr_RecordCount res = iq_Sequence q) \<and> db' = db \<and> L \<noteq> [] \<and>
     iq_Sequence q = of_nat (length L) \<and> RecordDigest marshal sha (iq_Record (last L)) = RecordDigest marshal sha (iq_Record q)"

definition commit_applied ::
  "encoder \<Rightarrow> sha256 \<Rightarrow> store_db \<Rightarrow> store_db \<Rightarrow> EvaluationRun \<Rightarrow> IngestRequest list \<Rightarrow> IngestRequest \<Rightarrow>
   platform_error + EvaluationIngestCommitResult \<Rightarrow> bool" where
  "commit_applied marshal sha db db' run L q r \<longleftrightarrow>
     (\<exists>res cmpl. r = Inr res \<and> commit_result (iq_Sequence q) cmpl res) \<and> iq_Sequence q = of_nat (Suc (length L)) \<and>
     run_status run = RunRunning \<and> run_stored marshal sha db' run (L @ [q]) \<and> db_runs db' = db_runs db \<and>
     (\<forall>j. j \<noteq> run_id run \<longrightarrow> rows_eq db db' j)"

lemma commit_outcome:
  assumes run: "loadRun (db_runs db) i = Inr run" and st: "run_stored marshal sha db run L"
    and q: "dated_request q" "RecordDigest marshal sha (iq_Record q) = Inr (ec_RecordDigest cm)"
    and cm: "ec_Sequence cm = iq_Sequence q" "ec_PreviousNextSequence cm = iq_Sequence q" "ag_runID (ec_Aggregate cm) = i"
      "iq_Sequence q = of_nat (Suc (length L)) \<Longrightarrow> prepared_now marshal sha run L q cm"
    and c: "CommitEvaluationIngest sha db cm = (db', r)"
  shows "commit_refused db db' r \<or> commit_replayed marshal sha db db' L q r \<or> commit_applied marshal sha db db' run L q r"
proof (cases "commit_guard cm")
  case (Some e)
  then show ?thesis using c by (auto simp: CommitEvaluationIngest_def commit_refused_def)
next
  case None
  obtain cur where cur: "ingestState db i = Inr cur" "cursor_of marshal sha run L cur" using stored_cursor [OF run st] by blast
  have nm: "iq_Sequence q \<noteq> MaxUint64" and dg: "ec_RecordDigest cm \<noteq> ''''"
    using None cm(1) by (auto simp: commit_guard_def orElse_None_iff validatePersistedDigest_def split: if_splits)
  show ?thesis
  proof (cases "is_nextSequence cur = iq_Sequence q")
    case True
    then have sq: "iq_Sequence q = of_nat (Suc (length L))" using cur(2) by (simp add: cursor_of_def)
    then obtain db2 res where w: "commit_write sha db cm = Inr (db2, res)" "run_stored marshal sha db2 run (L @ [q])"
      "db_runs db2 = db_runs db" "\<forall>j. j \<noteq> run_id run \<longrightarrow> rows_eq db db2 j" "commit_result (iq_Sequence q) (sn_complete (ec_Snapshot cm)) res"
      using commit_writes [OF st sq q(1) cm(4) cm(1) None q(2)] by blast
    show ?thesis
    proof (cases "commit_run_guard db cm")
      case (Some e)
      then show ?thesis using c None cur(1) True cm by (auto simp: CommitEvaluationIngest_def commit_refused_def)
    next
      case g: None
      then have "run_status run = RunRunning" using run cm(3) by (auto simp: commit_run_guard_def split: if_splits)
      then show ?thesis using c None cur(1) True cm w g sq by (auto simp: CommitEvaluationIngest_def commit_applied_def)
    qed
  next
    case False
    then have "db' = db" "r = commit_already db cur cm" using c None cur(1) cm by (auto simp: CommitEvaluationIngest_def)
    moreover have "L \<noteq> [] \<and> iq_Sequence q = of_nat (length L) \<and> is_nextSequence cur = iq_Sequence q + 1 \<and> is_recordCount cur = iq_Sequence q \<and>
        RecordDigest marshal sha (iq_Record (last L)) = RecordDigest marshal sha (iq_Record q)"
      if "nextSequenceAfter (ec_Sequence cm) = Inr (is_nextSequence cur)" "is_lastDigest cur = ec_RecordDigest cm"
      using that cur(2) dg nm cm(1) q(2) by (auto simp: cursor_of_def nextSequenceAfter_def split: if_splits)
    ultimately show ?thesis
      by (auto simp: commit_already_def commit_refused_def commit_replayed_def andThen_def split: sum.splits if_splits)
  qed
qed


subsection \<open>Requests in progress\<close>

definition known_run :: "store_db \<Rightarrow> EvaluationRunID \<Rightarrow> EvaluationRun \<Rightarrow> bool" where
  "known_run db i run \<longleftrightarrow> run_id run = i \<and> validateRunBinding run = None \<and> (\<exists>r. loadRun (db_runs db) i = Inr r \<and> same_ids run r)"

definition replay_of :: "encoder \<Rightarrow> sha256 \<Rightarrow> IngestRequest list \<Rightarrow> IngestRequest \<Rightarrow> bool" where
  "replay_of marshal sha L q \<longleftrightarrow> 0 < unat (iq_Sequence q) \<and> unat (iq_Sequence q) \<le> length L \<and>
     RecordDigest marshal sha (iq_Record (L ! (unat (iq_Sequence q) - 1))) = RecordDigest marshal sha (iq_Record q)"

fun answer_ok :: "encoder \<Rightarrow> sha256 \<Rightarrow> IngestRequest list \<Rightarrow> IngestRequest \<Rightarrow> platform_error + IngestResult \<Rightarrow> bool" where
  "answer_ok marshal sha L q (Inl e) = True"
| "answer_ok marshal sha L q (Inr r) \<longleftrightarrow> ir_NextSequence r = iq_Sequence q + 1 \<and> ir_RecordCount r = iq_Sequence q \<and>
     replay_of marshal sha L q \<and> (ir_Disposition r = IngestApplied \<longrightarrow> L ! (unat (iq_Sequence q) - 1) = q)"

fun task_inv :: "encoder \<Rightarrow> sha256 \<Rightarrow> store_db \<Rightarrow> IngestRequest list \<Rightarrow> ingest_task \<Rightarrow> bool" where
  "task_inv marshal sha db l (IngestReceived q) \<longleftrightarrow> dated_request q"
| "task_inv marshal sha db l (IngestChecked q run d) \<longleftrightarrow> dated_request q \<and>
     RecordDigest marshal sha (iq_Record q) = Inr d \<and> known_run db (iq_RunID q) run"
| "task_inv marshal sha db l (IngestSequenced q run d st) \<longleftrightarrow> dated_request q \<and>
     RecordDigest marshal sha (iq_Record q) = Inr d \<and> known_run db (iq_RunID q) run \<and> is_nextSequence st = iq_Sequence q \<and>
     unat (iq_Sequence q) \<le> Suc (length (log_of (iq_RunID q) l))"
| "task_inv marshal sha db l (IngestPrepared q cm) \<longleftrightarrow> dated_request q \<and>
     RecordDigest marshal sha (iq_Record q) = Inr (ec_RecordDigest cm) \<and> ec_Sequence cm = iq_Sequence q \<and>
     ec_PreviousNextSequence cm = iq_Sequence q \<and> ag_runID (ec_Aggregate cm) = iq_RunID q \<and>
     unat (iq_Sequence q) \<le> Suc (length (log_of (iq_RunID q) l)) \<and>
     (\<exists>run. loadRun (db_runs db) (iq_RunID q) = Inr run \<and>
        (unat (iq_Sequence q) = Suc (length (log_of (iq_RunID q) l)) \<longrightarrow> prepared_now marshal sha run (log_of (iq_RunID q) l) q cm))"
| "task_inv marshal sha db l (IngestAnswered q r) \<longleftrightarrow> answer_ok marshal sha (log_of (iq_RunID q) l) q r"

text \<open>Every step lets a run keep its identity and its log grow by at most one request.\<close>

definition advances :: "store_db \<Rightarrow> IngestRequest list \<Rightarrow> store_db \<Rightarrow> IngestRequest list \<Rightarrow> bool" where
  "advances db l db' l' \<longleftrightarrow>
     (\<forall>i. log_of i l' = log_of i l \<or> (\<exists>q. log_of i l' = log_of i l @ [q])) \<and>
     (\<forall>i r. loadRun (db_runs db) i = Inr r \<longrightarrow> (\<exists>r'. loadRun (db_runs db') i = Inr r' \<and> same_ids r r'))"

lemma same_ids_trans: "same_ids a b \<Longrightarrow> same_ids b c \<Longrightarrow> same_ids a c"
  by (simp add: same_ids_def)

lemma known_run_mono: "known_run db i run \<Longrightarrow> advances db l db' l' \<Longrightarrow> known_run db' i run"
  unfolding known_run_def advances_def using same_ids_trans by blast

lemma answer_mono:
  assumes "answer_ok marshal sha L q r"
  shows "answer_ok marshal sha (L @ M) q r"
  using assms by (cases r) (auto simp: replay_of_def nth_append)

lemma prepared_mono:
  assumes "prepared_now marshal sha run L q cm" and "same_ids run run'" and "validateRunBinding run = None" and "validateRunBinding run' = None"
  shows "prepared_now marshal sha run' L q cm"
  using assms(1) unfolding prepared_now_def reference_rebind [OF assms(2-4)] .

lemma task_inv_mono:
  assumes "task_inv marshal sha db l t" and adv: "advances db l db' l'"
  shows "task_inv marshal sha db' l' t"
proof -
  have grow: "log_of i l' = log_of i l \<or> (\<exists>q. log_of i l' = log_of i l @ [q])" for i using adv by (simp add: advances_def)
  show ?thesis
  proof (cases t)
    case (IngestReceived q)
    then show ?thesis using assms(1) by simp
  next
    case (IngestChecked q run d)
    then show ?thesis using assms(1) known_run_mono [OF _ adv] by simp
  next
    case (IngestSequenced q run d st)
    then show ?thesis using assms(1) known_run_mono [OF _ adv] grow [of "iq_RunID q"] by auto
  next
    case (IngestPrepared q cm)
    with assms(1) obtain run where run: "loadRun (db_runs db) (iq_RunID q) = Inr run"
      "unat (iq_Sequence q) = Suc (length (log_of (iq_RunID q) l)) \<longrightarrow> prepared_now marshal sha run (log_of (iq_RunID q) l) q cm"
      by auto
    then obtain run' where run': "loadRun (db_runs db') (iq_RunID q) = Inr run'" "same_ids run run'" using adv unfolding advances_def by blast
    have "unat (iq_Sequence q) = Suc (length (log_of (iq_RunID q) l')) \<longrightarrow> prepared_now marshal sha run' (log_of (iq_RunID q) l') q cm"
      using grow [of "iq_RunID q"] run(2) prepared_mono [OF _ run'(2) loaded_run(3) [OF run(1)] loaded_run(3) [OF run'(1)]]
        assms(1) IngestPrepared by auto
    then show ?thesis using assms(1) IngestPrepared run'(1) grow [of "iq_RunID q"] by auto
  next
    case (IngestAnswered q r)
    then show ?thesis using assms(1) grow [of "iq_RunID q"] answer_mono by auto
  qed
qed


subsection \<open>Every step keeps the invariant\<close>

lemma inv_stored:
  assumes "db_inv marshal sha db l" and "loadRun (db_runs db) i = Inr run"
  shows "run_stored marshal sha db run (log_of i l)"
proof -
  have "fmlookup (db_runs db) i \<noteq> None" using assms(2) by (auto simp: loadRun_def split: option.splits)
  then show ?thesis using assms unfolding db_inv_def by (metis Inr_inject)
qed

lemma same_ids_refl [simp]: "same_ids r r"
  by (simp add: same_ids_def)

lemma known_loaded: "loadRun (db_runs db) i = Inr run \<Longrightarrow> known_run db i run"
  using loaded_run by (auto simp: known_run_def)

lemma log_unat: "length L < 2 ^ 64 - 1 \<Longrightarrow> unat (of_nat (Suc (length L)) :: u64) = Suc (length L) \<and> unat (of_nat (length L) :: u64) = length L"
  by (simp add: unat_of_nat del: of_nat_Suc)

lemma sequence_decided:
  assumes "cursor_of marshal sha run L st" and "ingest_log_ok L" and "RecordDigest marshal sha (iq_Record q) = Inr d"
    and "decide_sequence q d st = Inr x"
  shows "case x of ApplyRecord \<Rightarrow> is_nextSequence st = iq_Sequence q \<and> unat (iq_Sequence q) \<le> Suc (length L)
    | ReplayRecord r \<Rightarrow> answer_ok marshal sha L q (Inr r) \<and> ir_Disposition r = IngestReplayed"
proof (cases "iq_Sequence q = is_nextSequence st")
  case True
  then show ?thesis using assms log_unat [of L] by (simp add: decide_sequence_def cursor_of_def ingest_log_ok_def del: of_nat_Suc)
next
  case False
  with assms(4) have d: "iq_Sequence q + 1 = is_nextSequence st" "is_lastDigest st \<noteq> ''''" "is_lastDigest st = d"
    "x = ReplayRecord \<lparr>ir_Disposition = IngestReplayed, ir_NextSequence = is_nextSequence st,
       ir_RecordCount = is_recordCount st, ir_BehaviorComplete = is_behaviorComplete st\<rparr>"
    by (auto simp: decide_sequence_def split: if_splits)
  then have L: "L \<noteq> []" "iq_Sequence q = of_nat (length L)" using assms(1) by (auto simp: cursor_of_def split: if_splits)
  then have "unat (iq_Sequence q) = length L" using assms(2) log_unat [of L] by (simp add: ingest_log_ok_def)
  then show ?thesis using assms(1,3) d L by (simp add: cursor_of_def replay_of_def last_conv_nth)
qed

lemma current_reference:
  assumes "known_run db i run" and "loadRun (db_runs db) i = Inr r" and "run_stored marshal sha db r L" and "currentEvidence db run = Inr (a, c)"
  shows "\<exists>obs. reference_evidence r L = Inr (a, c, obs)"
proof -
  have k: "run_id run = i" "validateRunBinding run = None" "same_ids run r" using assms(1,2) by (auto simp: known_run_def)
  note eq = reference_rebind [OF k(3,2) loaded_run(3) [OF assms(2)]]
  show ?thesis
  proof (cases "L = []")
    case True
    then have "loadEvidence db i = Inl ErrStoreNotFound" using assms(3) loaded_run(2) [OF assms(2)] by (simp add: run_stored_def absent_evidence)
    then show ?thesis using assms(4) k(1) unfolding True eq by (auto simp: currentEvidence_def reference_Nil)
  next
    case False
    then obtain a0 c0 obs d where s: "ingest_log_ok L" "reference_evidence r L = Inr (a0, c0, obs)" "rows_hold sha db i a0 c0 obs d"
      using assms(3) loaded_run(2) [OF assms(2)] by (auto simp: run_stored_def)
    obtain xs where "coll_reach r xs c0" using reference_reaches [OF s(2)] by (auto simp: reference_ok_def)
    then have "behaviorCollectorFromSnapshot (Snapshot c0) = Inr c0" using restart_facts by blast
    then show ?thesis using assms(4) k(1) stored_evidence [OF assms(2) s(2,1,3)] s(2) by (auto simp: currentEvidence_def)
  qed
qed

lemma prepared_facts:
  assumes "known_run db i run" and "loadRun (db_runs db) i = Inr r" and "run_stored marshal sha db r L"
    and "apply_prepare db run q d st = Inr cm"
  shows "prepared_now marshal sha r L q cm" and "ag_runID (ec_Aggregate cm) = i" and "ec_Sequence cm = iq_Sequence q"
    and "ec_RecordDigest cm = d" and "ec_PreviousNextSequence cm = is_nextSequence st"
proof -
  obtain a c a' c' ob where p: "currentEvidence db run = Inr (a, c)" "fold_request (a, c) q = Inr (a', c')"
    "ObservationFromRecord (iq_Sequence q) (iq_Record q) (\<not> knows c (dr_FingerprintID (iq_Record q))) = Inr ob"
    "cm = \<lparr>ec_PreviousNextSequence = is_nextSequence st, ec_Sequence = iq_Sequence q, ec_RecordDigest = d,
            ec_Aggregate = a', ec_Snapshot = Snapshot c', ec_Observation = ob\<rparr>"
    using assms(4) by (auto simp: apply_prepare_def prepare_commit_def split: option.splits)
  obtain obs where r: "reference_evidence r L = Inr (a, c, obs)" using current_reference [OF assms(1-3) p(1)] by blast
  then have r': "reference_evidence r (L @ [q]) = Inr (a', c', obs @ [ob])" using p by (simp add: reference_snoc ingest_one_Inr)
  show "prepared_now marshal sha r L q cm" unfolding prepared_now_def using r' p(4) by simp
  show "ag_runID (ec_Aggregate cm) = i" using reference_pair(2) [OF reference_reaches [OF r']] p(4) loaded_run(2) [OF assms(2)] by simp
  show "ec_Sequence cm = iq_Sequence q" "ec_RecordDigest cm = d" "ec_PreviousNextSequence cm = is_nextSequence st" using p(4) by simp_all
qed


definition inv_kept :: "encoder \<Rightarrow> sha256 \<Rightarrow> store_db \<Rightarrow> IngestRequest list \<Rightarrow> store_db \<Rightarrow> IngestRequest list \<Rightarrow> ingest_task \<Rightarrow> bool" where
  "inv_kept marshal sha db l db' l' t \<longleftrightarrow> db_inv marshal sha db' l' \<and> advances db l db' l' \<and> task_inv marshal sha db' l' t"

lemma advances_refl: "advances db l db l"
  by (auto simp: advances_def)

lemma log_of_append: "log_of i (l @ m) = log_of i l @ log_of i m"
  by (simp add: log_of_def)

lemma inv_commit:
  assumes inv: "db_inv marshal sha db l" and run: "loadRun (db_runs db) i = Inr run" and q: "iq_RunID q = i"
    and a: "commit_applied marshal sha db db' run (log_of i l) q r"
  shows "db_inv marshal sha db' (l @ [q])" and "advances db l db' (l @ [q])"
proof -
  have ap: "run_stored marshal sha db' run (log_of i l @ [q])" "db_runs db' = db_runs db" "\<And>j. j \<noteq> i \<Longrightarrow> rows_eq db db' j"
    using a loaded_run(2) [OF run] by (auto simp: commit_applied_def)
  have lo: "log_of j (l @ [q]) = (if j = i then log_of i l @ [q] else log_of j l)" for j using q by (simp add: log_of_def)
  show "advances db l db' (l @ [q])" using ap(2) by (auto simp: advances_def lo)
  show "db_inv marshal sha db' (l @ [q])" unfolding db_inv_def
  proof (intro allI)
    fix j
    show "(fmlookup (db_runs db') j = None \<and> log_of j (l @ [q]) = [] \<and> rows_absent db' j) \<or>
      (\<exists>run. loadRun (db_runs db') j = Inr run \<and> run_stored marshal sha db' run (log_of j (l @ [q])))"
    proof (cases "j = i")
      case True
      then show ?thesis using ap run lo by auto
    next
      case False
      have "run_stored marshal sha db' r (log_of j l)" if "loadRun (db_runs db) j = Inr r" "run_stored marshal sha db r (log_of j l)" for r
        using that run_stored_cong [of db db' r] ap(3) [OF False] loaded_run(2) [OF that(1)] by simp
      then show ?thesis using inv False lo ap rows_eq_cong(1) [OF ap(3) [OF False]] unfolding db_inv_def by metis
    qed
  qed
qed

lemma answer_applied:
  assumes "ingest_log_ok (L @ [q])" and "iq_Sequence q = of_nat (Suc (length L))" and "\<exists>e. RecordDigest marshal sha (iq_Record q) = Inr e"
    and "commit_result (iq_Sequence q) cmpl res"
  shows "answer_ok marshal sha (L @ [q]) q (Inr (ingest_answer res))"
proof -
  have "unat (iq_Sequence q) = Suc (length L)" using assms(1,2) log_unat [of L] by (simp add: ingest_log_ok_def del: of_nat_Suc)
  then show ?thesis using assms by (simp add: commit_result_def ingest_answer_def replay_of_def)
qed

lemma prepared_outcome:
  assumes inv: "db_inv marshal sha db l" and t: "task_inv marshal sha db l (IngestPrepared q cm)"
    and c: "CommitEvaluationIngest sha db cm = (db', r)"
  obtains (refused) "commit_refused db db' r"
    | (replayed) "commit_replayed marshal sha db db' (log_of (iq_RunID q) l) q r" "ingest_log_ok (log_of (iq_RunID q) l)"
    | (applied) run where "loadRun (db_runs db) (iq_RunID q) = Inr run" "commit_applied marshal sha db db' run (log_of (iq_RunID q) l) q r"
proof -
  let ?L = "log_of (iq_RunID q) l"
  obtain run where run: "loadRun (db_runs db) (iq_RunID q) = Inr run"
    "unat (iq_Sequence q) = Suc (length ?L) \<longrightarrow> prepared_now marshal sha run ?L q cm" using t by auto
  note st = inv_stored [OF inv run(1)]
  have lk: "ingest_log_ok ?L" using st by (simp add: run_stored_def)
  have now: "prepared_now marshal sha run ?L q cm" if "iq_Sequence q = of_nat (Suc (length ?L))"
    using that run(2) lk log_unat [of ?L] by (simp add: ingest_log_ok_def del: of_nat_Suc)
  show ?thesis using commit_outcome [OF run(1) st _ _ _ _ _ now c] t refused replayed applied run(1) lk by auto
qed

lemma prepared_step:
  assumes inv: "db_inv marshal sha db l" and t: "task_inv marshal sha db l (IngestPrepared q cm)"
    and s: "ingest_step marshal sha db (IngestPrepared q cm) = (db', t')"
  shows "inv_kept marshal sha db l db' (l @ applied_by (IngestPrepared q cm) t') t'"
proof -
  let ?L = "log_of (iq_RunID q) l"
  obtain r where c: "CommitEvaluationIngest sha db cm = (db', r)" "t' = IngestAnswered q (map_sum (\<lambda>e. e) ingest_answer r)"
    using s by (auto split: prod.splits)
  from inv t c(1) show ?thesis
  proof (cases rule: prepared_outcome)
    case refused
    then show ?thesis using inv c(2) advances_refl by (auto simp: commit_refused_def inv_kept_def)
  next
    case replayed
    then obtain res where res: "r = Inr res" "cr_Disposition res = EvaluationIngestAlreadyCommitted" "cr_NextSequence res = iq_Sequence q + 1"
      "cr_RecordCount res = iq_Sequence q" "db' = db" "?L \<noteq> []" "iq_Sequence q = of_nat (length ?L)"
      "RecordDigest marshal sha (iq_Record (last ?L)) = RecordDigest marshal sha (iq_Record q)" by (auto simp: commit_replayed_def)
    then have "unat (iq_Sequence q) = length ?L" using replayed(2) log_unat [of ?L] by (simp add: ingest_log_ok_def)
    then show ?thesis using inv c(2) advances_refl res by (simp add: inv_kept_def ingest_answer_def replay_of_def last_conv_nth)
  next
    case (applied run)
    then obtain res cmpl where res: "r = Inr res" "commit_result (iq_Sequence q) cmpl res" "iq_Sequence q = of_nat (Suc (length ?L))"
      "ingest_log_ok (?L @ [q])" by (auto simp: commit_applied_def run_stored_def)
    have ap: "applied_by (IngestPrepared q cm) t' = [q]" using c(2) res(1,2) by (simp add: ingest_answer_def commit_result_def)
    have "answer_ok marshal sha (?L @ [q]) q (Inr (ingest_answer res))" using answer_applied [OF res(4,3) _ res(2)] t by auto
    then show ?thesis using inv_commit [OF inv applied(1) refl applied(2)] c(2) res(1) unfolding ap by (simp add: inv_kept_def log_of_def)
  qed
qed


lemma reading_step:
  assumes inv: "db_inv marshal sha db l" and t: "task_inv marshal sha db l t" and s: "ingest_step marshal sha db t = (db', t')"
    and np: "\<nexists>q cm. t = IngestPrepared q cm"
  shows "db' = db \<and> task_inv marshal sha db l t'"
proof (cases t)
  case (IngestReceived q)
  then show ?thesis using s t by (auto simp: ingest_preflight_def known_loaded split: sum.splits if_splits)
next
  case (IngestChecked q run d)
  then obtain r where r: "loadRun (db_runs db) (iq_RunID q) = Inr r" using t by (auto simp: known_run_def)
  note st = inv_stored [OF inv r]
  obtain cur where cur: "ingestState db (iq_RunID q) = Inr cur" "cursor_of marshal sha r (log_of (iq_RunID q) l) cur"
    using stored_cursor [OF r st] by blast
  have lk: "ingest_log_ok (log_of (iq_RunID q) l)" using st by (simp add: run_stored_def)
  show ?thesis
  proof (cases "decide_sequence q d cur")
    case (Inl e)
    then show ?thesis using IngestChecked s cur by auto
  next
    case (Inr x)
    have "case x of ApplyRecord \<Rightarrow> is_nextSequence cur = iq_Sequence q \<and> unat (iq_Sequence q) \<le> Suc (length (log_of (iq_RunID q) l))
      | ReplayRecord r \<Rightarrow> answer_ok marshal sha (log_of (iq_RunID q) l) q (Inr r) \<and> ir_Disposition r = IngestReplayed"
      using sequence_decided [OF cur(2) lk _ Inr] t IngestChecked by auto
    then show ?thesis using IngestChecked s t cur(1) Inr by (cases x) auto
  qed
next
  case (IngestSequenced q run d st)
  then obtain r where r: "loadRun (db_runs db) (iq_RunID q) = Inr r" using t by (auto simp: known_run_def)
  show ?thesis
  proof (cases "apply_prepare db run q d st")
    case (Inl e)
    then show ?thesis using IngestSequenced s by auto
  next
    case (Inr cm)
    then show ?thesis using prepared_facts [OF _ r inv_stored [OF inv r] Inr] t IngestSequenced s r by auto
  qed
next
  case (IngestAnswered q r)
  then show ?thesis using s t by auto
qed (use np in auto)

lemma applied_by_other: "\<nexists>q cm. t = IngestPrepared q cm \<Longrightarrow> applied_by t t' = []"
  by (cases t) auto

lemma work_step:
  assumes "db_inv marshal sha db l" and "task_inv marshal sha db l t" and "ingest_step marshal sha db t = (db', t')"
  shows "inv_kept marshal sha db l db' (l @ applied_by t t') t'"
proof (cases "\<exists>q cm. t = IngestPrepared q cm")
  case True
  then show ?thesis using assms prepared_step by blast
next
  case False
  then have "applied_by t t' = []" by (rule applied_by_other)
  then show ?thesis using reading_step [OF assms False] assms(1) advances_refl by (simp add: inv_kept_def)
qed

lemma inv_runs:
  assumes inv: "db_inv marshal sha db l"
    and keep: "\<And>i r. loadRun (db_runs db) i = Inr r \<Longrightarrow> \<exists>r'. loadRun tab' i = Inr r' \<and> same_ids r r'"
    and new: "\<And>i. fmlookup (db_runs db) i = None \<Longrightarrow> fmlookup tab' i = None \<or> (\<exists>r. loadRun tab' i = Inr r)"
  shows "db_inv marshal sha (db\<lparr>db_runs := tab'\<rparr>) l" and "advances db l (db\<lparr>db_runs := tab'\<rparr>) l"
proof -
  let ?db = "db\<lparr>db_runs := tab'\<rparr>"
  show "advances db l ?db l" using keep by (simp add: advances_def)
  have rows: "rows_eq db ?db i" for i by (simp add: rows_eq_def)
  have ext: "run_stored marshal sha ?db r' (log_of i l)"
    if "loadRun (db_runs db) i = Inr r" "loadRun tab' i = Inr r'" "same_ids r r'" for i r r'
  proof -
    have "reference_evidence r' = reference_evidence r" using reference_rebind [OF that(3) loaded_run(3) [OF that(1)] loaded_run(3) [OF that(2)]] by blast
    moreover have "run_stored marshal sha ?db r (log_of i l)" using inv_stored [OF inv that(1)] run_stored_cong [OF rows] by blast
    ultimately show ?thesis using that(3) unfolding run_stored_def same_ids_def by metis
  qed
  have fresh: "run_stored marshal sha ?db r []" if "loadRun tab' i = Inr r" "rows_absent db i" for i r
    using that loaded_run(2) [OF that(1)] rows_eq_cong(1) [OF rows, of i] by (simp add: run_stored_def ingest_log_ok_def)
  show "db_inv marshal sha ?db l" unfolding db_inv_def
  proof (intro allI)
    fix i
    show "(fmlookup (db_runs ?db) i = None \<and> log_of i l = [] \<and> rows_absent ?db i) \<or>
      (\<exists>run. loadRun (db_runs ?db) i = Inr run \<and> run_stored marshal sha ?db run (log_of i l))"
    proof (cases "fmlookup (db_runs db) i")
      case None
      then have e: "log_of i l = []" "rows_absent db i" using inv by (auto simp: db_inv_def loadRun_def dest!: spec [of _ i])
      then show ?thesis using new [OF None] fresh rows_eq_cong(1) [OF rows, of i] by auto
    next
      case (Some row)
      then obtain r where "loadRun (db_runs db) i = Inr r" using inv by (auto simp: db_inv_def dest!: spec [of _ i])
      then show ?thesis using keep ext by force
    qed
  qed
qed

lemma update_keeps:
  assumes "run_reach n" and "UpdateEvaluationRun tab p n = (tab', err)"
  shows "loadRun tab i = Inr r \<Longrightarrow> \<exists>r'. loadRun tab' i = Inr r' \<and> same_ids r r'"
    and "fmlookup tab i = None \<Longrightarrow> fmlookup tab' i = None"
proof -
  show "\<exists>r'. loadRun tab' i = Inr r' \<and> same_ids r r'" if l: "loadRun tab i = Inr r"
  proof (cases err)
    case None
    note u = assms(2) [unfolded None]
    have ids: "run_id n = run_id p" "run_candidateID n = run_candidateID p" "run_environment n = run_environment p" "run_profile n = run_profile p"
      by (rule Update_None [OF u]; simp)+
    from race_facts [OF assms(1) u] l ids show ?thesis
      by (cases "i = run_id p") (auto simp: sameRun_def same_ids_def loadRun_def)
  qed (use Update_Some [of tab p n tab'] assms(2) l in auto)
  show "fmlookup tab' i = None" if "fmlookup tab i = None"
  proof (cases err)
    case None
    from Update_None [OF assms(2) [unfolded None]] that show ?thesis by (metis fmupd_lookup option.distinct(1))
  qed (use Update_Some [of tab p n tab'] assms(2) that in auto)
qed

lemma create_keeps:
  assumes "run_reach run" and "CreateEvaluationRun exs tab run = (tab', err)"
  shows "loadRun tab i = Inr r \<Longrightarrow> loadRun tab' i = Inr r"
    and "fmlookup tab i = None \<Longrightarrow> fmlookup tab' i = None \<or> (\<exists>r. loadRun tab' i = Inr r)"
proof -
  consider "tab' = tab" | key where "fmlookup tab (run_id run) = None" "tab' = fmupd (run_id run) (runRow run key) tab"
    using assms(2) unfolding CreateEvaluationRun_def
    by (cases "validateRunBinding run"; cases "recencyKey (run_createdAt run)"; cases "fmlookup tab (run_id run)"; cases "exs (run_candidateID run)")
       auto
  then have "(loadRun tab i = Inr r \<longrightarrow> loadRun tab' i = Inr r) \<and>
      (fmlookup tab i = None \<longrightarrow> fmlookup tab' i = None \<or> (\<exists>r. loadRun tab' i = Inr r))"
  proof cases
    case (2 key)
    have "rehydrateRun (run_id run) (runRow run key) = Inr run" using rehydrate_complete [OF run_form_reach [OF assms(1)]] .
    then show ?thesis using 2 by (cases "i = run_id run") (simp_all add: loadRun_def)
  qed simp
  then show "loadRun tab i = Inr r \<Longrightarrow> loadRun tab' i = Inr r"
    "fmlookup tab i = None \<Longrightarrow> fmlookup tab' i = None \<or> (\<exists>r. loadRun tab' i = Inr r)" by blast+
qed


fun applied_answer :: "ingest_task \<Rightarrow> IngestRequest list" where
  "applied_answer (IngestAnswered q (Inr r)) = (if ir_Disposition r = IngestApplied then [q] else [])"
| "applied_answer _ = []"

lemma step_answer:
  assumes "ingest_step marshal sha db t = (db', t')"
  shows "applied_answer t' = applied_answer t @ applied_by t t'"
proof (cases t)
  case (IngestPrepared q cm)
  obtain d r where "CommitEvaluationIngest sha db cm = (d, r)" by (cases "CommitEvaluationIngest sha db cm")
  then show ?thesis using assms IngestPrepared by (cases r) auto
next
  case (IngestChecked q run d)
  then show ?thesis using assms
    by (auto simp: decide_sequence_def split: sum.splits ingest_decision.splits if_splits)
qed (use assms in \<open>auto split: sum.splits prod.splits\<close>)

lemma mset_update:
  "k < length xs \<Longrightarrow> f y = f (xs ! k) @ z \<Longrightarrow> mset (concat (map f (xs[k := y]))) = mset (concat (map f xs)) + mset z"
proof (induction xs arbitrary: k)
  case (Cons x xs)
  then show ?case by (cases k) auto
qed simp

definition sys_inv :: "encoder \<Rightarrow> sha256 \<Rightarrow> ingest_system \<Rightarrow> bool" where
  "sys_inv marshal sha s \<longleftrightarrow> db_inv marshal sha (sy_db s) (sy_log s) \<and>
     (\<forall>t \<in> set (sy_tasks s). task_inv marshal sha (sy_db s) (sy_log s) t) \<and>
     mset (sy_log s) = mset (concat (map applied_answer (sy_tasks s)))"

lemma runs_step:
  assumes inv: "sys_inv marshal sha s"
    and "\<And>i r. loadRun (db_runs (sy_db s)) i = Inr r \<Longrightarrow> \<exists>r'. loadRun tab' i = Inr r' \<and> same_ids r r'"
    and "\<And>i. fmlookup (db_runs (sy_db s)) i = None \<Longrightarrow> fmlookup tab' i = None \<or> (\<exists>r. loadRun tab' i = Inr r)"
  shows "sys_inv marshal sha (s\<lparr>sy_db := (sy_db s)\<lparr>db_runs := tab'\<rparr>\<rparr>)"
proof -
  have db: "db_inv marshal sha (sy_db s) (sy_log s)" using inv by (simp add: sys_inv_def)
  note k = inv_runs [OF db assms(2,3)]
  show ?thesis using inv k(1) task_inv_mono [OF _ k(2)] by (simp add: sys_inv_def)
qed

lemma sys_inv_step:
  assumes "sys_step dated_request marshal sha s s'" and inv: "sys_inv marshal sha s"
  shows "sys_inv marshal sha s'"
  using assms(1)
proof cases
  case (submit q)
  then show ?thesis using inv by (simp add: sys_inv_def)
next
  case (work k db' t)
  let ?l = "sy_log s @ applied_by (sy_tasks s ! k) t"
  have old: "task_inv marshal sha (sy_db s) (sy_log s) (sy_tasks s ! k)" using inv work by (simp add: sys_inv_def)
  then have kept: "inv_kept marshal sha (sy_db s) (sy_log s) db' ?l t"
    using work_step [OF _ old work(3)] inv by (simp add: sys_inv_def)
  have "task_inv marshal sha db' ?l u" if "u \<in> set ((sy_tasks s)[k := t])" for u
    using that kept inv set_update_subset_insert [of "sy_tasks s" k t]
    by (auto simp: inv_kept_def sys_inv_def intro: task_inv_mono)
  moreover have "mset ?l = mset (concat (map applied_answer ((sy_tasks s)[k := t])))"
    using mset_update [OF work(2) step_answer [OF work(3)]] inv by (simp add: sys_inv_def)
  ultimately show ?thesis using kept work(1) by (simp add: sys_inv_def inv_kept_def)
next
  case (create run exs tab' err)
  show ?thesis unfolding create(1) using create_keeps [OF create(2,3)] by (intro runs_step [OF inv]) auto
next
  case (lifecycle n p tab' err)
  show ?thesis unfolding lifecycle(1) using update_keeps [OF lifecycle(2,3)] by (intro runs_step [OF inv]) auto
qed

lemma sys_reach_inv: "sys_reach dated_request marshal sha s \<Longrightarrow> sys_inv marshal sha s"
proof (induction rule: sys_reach.induct)
  case start
  have "loadRun fmempty i = Inl ErrStoreNotFound" for i by (simp add: loadRun_def)
  then show ?case by (simp add: sys_inv_def db_inv_def emptyStore_def rows_absent_def log_of_def)
qed (rule sys_inv_step)


subsection \<open>Exactly once\<close>

lemma observed_rows:
  assumes "rows_hold sha db i a c obs d" and "obs \<noteq> []"
  shows "fmlookup (db_observations db) i = Some (map (observationInsertArgs sha) (take 4096 obs))"
  using assms by (cases "fmlookup (db_observations db) i") (auto simp: rows_hold_def retained_state_def run_rows_of_def fmget_def)

text \<open>C3. However the requests of any number of clients, all with dated records (\<open>dated_request\<close>:
  after the zero time, a year up to 9999 in their zone and in UTC, an offset of whole minutes), and the creation and lifecycle
  calls interleave, the store holds for every run exactly the evidence of its accepted requests: folding them one after another
  from nothing gives the stored aggregate and snapshot, their sequences are 1, 2, 3 and so on, the
  cursor is one past the last, and the retained rows are those of the first 4096 observations.\<close>

theorem ingest_exactly_once:
  assumes "sys_reach dated_request marshal sha s" and "loadRun (db_runs (sy_db s)) i = Inr run"
  shows "let L = log_of i (sy_log s) in
    map iq_Sequence L = map (\<lambda>k. of_nat (Suc k)) [0..<length L] \<and>
    (\<exists>st. ingestState (sy_db s) i = Inr st \<and> is_nextSequence st = of_nat (Suc (length L)) \<and> is_recordCount st = of_nat (length L)) \<and>
    (if L = [] then loadEvidence (sy_db s) i = Inl ErrStoreNotFound
     else \<exists>a c obs. reference_evidence run L = Inr (a, c, obs) \<and> loadEvidence (sy_db s) i = Inr (a, Snapshot c) \<and>
       fmlookup (db_observations (sy_db s)) i = Some (map (observationInsertArgs sha) (take 4096 obs)))"
proof -
  define L where "L = log_of i (sy_log s)"
  have st: "run_stored marshal sha (sy_db s) run L"
    using sys_reach_inv [OF assms(1)] inv_stored [OF _ assms(2)] by (auto simp: sys_inv_def L_def)
  then have lk: "ingest_log_ok L" by (simp add: run_stored_def)
  have "map iq_Sequence L = map (\<lambda>k. of_nat (Suc k)) [0..<length L]"
    using lk by (intro nth_equalityI) (simp_all add: ingest_log_ok_def)
  moreover have "\<exists>st. ingestState (sy_db s) i = Inr st \<and> is_nextSequence st = of_nat (Suc (length L)) \<and> is_recordCount st = of_nat (length L)"
    using stored_cursor [OF assms(2) st] by (auto simp: cursor_of_def)
  moreover have "loadEvidence (sy_db s) i = Inl ErrStoreNotFound" if "L = []"
    using st that loaded_run(2) [OF assms(2)] by (simp add: run_stored_def absent_evidence)
  moreover have "\<exists>a c obs. reference_evidence run L = Inr (a, c, obs) \<and> loadEvidence (sy_db s) i = Inr (a, Snapshot c) \<and>
       fmlookup (db_observations (sy_db s)) i = Some (map (observationInsertArgs sha) (take 4096 obs))" if ne: "L \<noteq> []"
  proof -
    obtain a c obs d where r: "reference_evidence run L = Inr (a, c, obs)" "rows_hold sha (sy_db s) i a c obs d"
      using st ne loaded_run(2) [OF assms(2)] by (auto simp: run_stored_def)
    moreover have "obs \<noteq> []" using reference_pair(4) [OF reference_reaches [OF r(1)]] ne by auto
    ultimately show ?thesis using stored_evidence [OF assms(2) r(1) lk r(2)] observed_rows by blast
  qed
  ultimately show ?thesis by (simp add: L_def [symmetric])
qed

text \<open>C4. Every client learns the truth, while records are dated (\<open>dated_request\<close>). The requests answered as applied are, each exactly once, the
  requests of the log; such a request is the log entry at its sequence. A request answered as
  replayed carries the same record, by its digest, as the log entry at its sequence. Either answer
  names the next sequence and the record count that its record had when it was applied.\<close>

theorem ingest_answers:
  assumes "sys_reach dated_request marshal sha s"
  shows "mset (concat (map applied_answer (sy_tasks s))) = mset (sy_log s) \<and>
    (\<forall>q r. IngestAnswered q (Inr r) \<in> set (sy_tasks s) \<longrightarrow>
       (let L = log_of (iq_RunID q) (sy_log s); n = unat (iq_Sequence q)
        in 0 < n \<and> n \<le> length L \<and> (ir_Disposition r = IngestApplied \<longrightarrow> L ! (n - 1) = q) \<and>
           RecordDigest marshal sha (iq_Record (L ! (n - 1))) = RecordDigest marshal sha (iq_Record q) \<and>
           ir_NextSequence r = iq_Sequence q + 1 \<and> ir_RecordCount r = iq_Sequence q))"
proof -
  have "answer_ok marshal sha (log_of (iq_RunID q) (sy_log s)) q (Inr r)" if "IngestAnswered q (Inr r) \<in> set (sy_tasks s)" for q r
    using sys_reach_inv [OF assms] that unfolding sys_inv_def by (metis task_inv.simps(5))
  then show ?thesis using sys_reach_inv [OF assms] by (auto simp: sys_inv_def replay_of_def Let_def)
qed


subsection \<open>Finished runs\<close>

lemma update_terminal:
  assumes "run_reach n" and "UpdateEvaluationRun tab p n = (tab', err)" and "loadRun tab i = Inr r" and "RunStatus_IsTerminal (run_status r)"
  shows "loadRun tab' i = Inr r"
proof (cases err)
  case None
  note u = assms(2) [unfolded None]
  have "i \<noteq> run_id p"
  proof
    assume i: "i = run_id p"
    then have "sameRun r p" using race_facts [OF assms(1) u] assms(3) by auto
    then have "RunStatus_IsTerminal (run_status p)" using assms(4) by (simp add: sameRun_def)
    moreover have "\<exists>q. run_step p q" by (rule Update_None [OF u]) (use produced_status in blast)
    ultimately show False by (auto simp: run_step_iffs elim!: run_step.cases)
  qed
  then show ?thesis using race_facts [OF assms(1) u] assms(3) by (auto simp: loadRun_def)
qed (use Update_Some [of tab p n tab'] assms(2,3) in auto)

lemma prepared_frozen:
  assumes inv: "db_inv marshal sha db l" and t: "task_inv marshal sha db l (IngestPrepared q cm)"
    and s: "ingest_step marshal sha db (IngestPrepared q cm) = (db', t')"
    and r: "loadRun (db_runs db) i = Inr run'" and fin: "RunStatus_IsTerminal (run_status run')"
  shows "db_runs db' = db_runs db \<and> rows_eq db db' i \<and> log_of i (applied_by (IngestPrepared q cm) t') = []"
proof -
  obtain x where c: "CommitEvaluationIngest sha db cm = (db', x)" "t' = IngestAnswered q (map_sum (\<lambda>e. e) ingest_answer x)"
    using s by (auto split: prod.splits)
  from inv t c(1) show ?thesis
  proof (cases rule: prepared_outcome)
    case (applied run)
    then have "iq_RunID q \<noteq> i" using r fin by (auto simp: commit_applied_def)
    then show ?thesis using applied c(2) loaded_run(2) [OF applied(1)] by (auto simp: commit_applied_def commit_result_def ingest_answer_def log_of_def)
  qed (use c(2) in \<open>auto simp: commit_refused_def commit_replayed_def ingest_answer_def rows_eq_def log_of_def\<close>)
qed

lemma finished_step:
  assumes "sys_inv marshal sha s" and "sys_step dated_request marshal sha s s'" and r: "loadRun (db_runs (sy_db s)) i = Inr r"
    and t: "RunStatus_IsTerminal (run_status r)"
  shows "loadRun (db_runs (sy_db s')) i = Inr r \<and> rows_eq (sy_db s) (sy_db s') i \<and> log_of i (sy_log s') = log_of i (sy_log s)"
  using assms(2)
proof cases
  case (submit q)
  then show ?thesis using r by (simp add: rows_eq_def)
next
  case (create run exs tab' err)
  then show ?thesis using create_keeps(1) [OF create(2,3) r] by (simp add: rows_eq_def)
next
  case (lifecycle n p tab' err)
  then show ?thesis using update_terminal [OF lifecycle(2,3) r t] by (simp add: rows_eq_def)
next
  case (work k db' u)
  have inv: "db_inv marshal sha (sy_db s) (sy_log s)" "task_inv marshal sha (sy_db s) (sy_log s) (sy_tasks s ! k)"
    using assms(1) work(2) by (simp_all add: sys_inv_def)
  show ?thesis
  proof (cases "\<exists>q cm. sy_tasks s ! k = IngestPrepared q cm")
    case False
    then have "db' = sy_db s" "applied_by (sy_tasks s ! k) u = []"
      using reading_step [OF inv work(3)] applied_by_other by auto
    then show ?thesis using r work(1) by (simp add: rows_eq_def)
  next
    case True
    then obtain q cm where p: "sy_tasks s ! k = IngestPrepared q cm" by blast
    then show ?thesis using prepared_frozen [OF inv(1) _ work(3) [unfolded p] r t] inv(2) r work(1) by (simp add: log_of_append)
  qed
qed


text \<open>C5. Once a run is completed, failed or cancelled, no ingest request with a dated record, no creation
  and no lifecycle call that comes later changes it or its evidence: not a request that passed the status check before the run
  finished and commits after it, not a retry, not another transition. (\<^verbatim>\<open>SaveEvaluationEvidence\<close> does not look at
  the status; no call of the control plane makes it, and it is not a step here.)\<close>

theorem finished_run_frozen:
  assumes "(sys_step dated_request marshal sha)\<^sup>*\<^sup>* s s'" and "sys_reach dated_request marshal sha s"
    and "loadRun (db_runs (sy_db s)) i = Inr run" and "RunStatus_IsTerminal (run_status run)"
  shows "loadRun (db_runs (sy_db s')) i = Inr run \<and> loadEvidence (sy_db s') i = loadEvidence (sy_db s) i \<and>
    log_of i (sy_log s') = log_of i (sy_log s)"
  using assms(1)
proof (induction rule: rtranclp_induct)
  case base
  then show ?case using assms(3) by simp
next
  case (step t t')
  have "sys_reach dated_request marshal sha t" using step.hyps(1) assms(2) by (induction rule: rtranclp_induct) (auto intro: sys_reach.step)
  then have f: "loadRun (db_runs (sy_db t')) i = Inr run" "rows_eq (sy_db t) (sy_db t') i" "log_of i (sy_log t') = log_of i (sy_log t)"
    using finished_step [OF sys_reach_inv step.hyps(2) _ assms(4)] step.IH by auto
  then have "loadEvidence (sy_db t') i = loadEvidence (sy_db t) i" using step.IH by (intro loadEvidence_cong) (auto simp: rows_eq_def)
  then show ?case using f step.IH by simp
qed

subsection \<open>The handler as steps, and progress\<close>

lemma handler_steps:
  "((\<lambda>(db, t). ingest_step marshal sha db t) ^^ 4) (db, IngestReceived q) =
     (case IngestDecisionRecord marshal sha db q of (db', r) \<Rightarrow> (db', IngestAnswered q r))"
proof (cases "ingest_preflight marshal sha db q")
  case (Inl e)
  then show ?thesis by (simp add: IngestDecisionRecord_def numeral_eq_Suc)
next
  case (Inr p)
  then obtain run d where p: "ingest_preflight marshal sha db q = Inr (run, d)" by (cases p) auto
  show ?thesis
  proof (cases "ingestState db (iq_RunID q)")
    case (Inl e)
    then show ?thesis using p by (simp add: IngestDecisionRecord_def numeral_eq_Suc)
  next
    case (Inr st)
    then show ?thesis using p
      by (cases "decide_sequence q d st"; cases "apply_prepare db run q d st")
         (auto simp: IngestDecisionRecord_def applyRecord_def numeral_eq_Suc split: ingest_decision.splits prod.splits)
  qed
qed

text \<open>The handler is its four transactions: run without interruption they leave the store and give the
  answer that the handler does.\<close>

theorem handler_is_steps:
  "((\<lambda>(db, t). ingest_step marshal sha db t) ^^ 4) (db, IngestReceived q) =
     (case IngestDecisionRecord marshal sha db q of (db', r) \<Rightarrow> (db', IngestAnswered q r))"
  by (rule handler_steps)

lemma lower_hex:
  "set d \<subseteq> set ''0123456789abcdef'' \<Longrightarrow> strings_ToLower d = d \<and> list_all (\<lambda>c. c \<in> set ''0123456789abcdefABCDEF'') d"
  by (induction d) (auto simp: strings_ToLower_def)

lemma digest_shape:
  assumes "length (sha b) = 32"
  shows "validatePersistedDigest (concat (map hex_byte (sha b))) = None"
proof -
  let ?d = "concat (map hex_byte (sha b))"
  have len: "length (concat (map hex_byte bs)) = 2 * length bs" for bs by (induction bs) (auto simp: hex_byte_def)
  have "c \<in> set ''0123456789abcdef''" if c: "c \<in> set ?d" for c
  proof -
    obtain w where "c \<in> set (hex_byte w)" using c by auto
    moreover have "unat w div 16 < 16" using unsigned_less [of w, where 'a = nat] by simp
    ultimately show ?thesis using hex_digit_chars [of "unat w div 16"] hex_digit_chars [of "unat w mod 16"] by (auto simp: hex_byte_def)
  qed
  then have "strings_ToLower ?d = ?d" "hex_DecodeString_ok ?d" using lower_hex [of ?d] len [of "sha b"] assms
    by (auto simp: hex_DecodeString_ok_def subset_iff)
  moreover have l: "length ?d = 64" using len [of "sha b"] assms by simp
  moreover have "?d \<noteq> ''''" using l by (metis list.size(3) zero_neq_numeral)
  ultimately show ?thesis by (simp add: validatePersistedDigest_def validateDigestShape_def)
qed

lemma evidence_for_run:
  assumes "loadRun (db_runs db) i = Inr run" and "run_stored marshal sha db run L" and "reference_evidence run L = Inr (a, c, obs)"
  shows "currentEvidence db run = Inr (a, c)"
    and "if L = [] then rows_absent db i else loadEvidence db i = Inr (a, Snapshot c)"
proof -
  note i = loaded_run(2) [OF assms(1)]
  show ev: "if L = [] then rows_absent db i else loadEvidence db i = Inr (a, Snapshot c)"
    using assms(2,3) i stored_evidence [OF assms(1,3)] by (auto simp: run_stored_def)
  obtain xs where "coll_reach run xs c" using reference_reaches [OF assms(3)] by (auto simp: reference_ok_def)
  then have "behaviorCollectorFromSnapshot (Snapshot c) = Inr c" using restart_facts by blast
  then show "currentEvidence db run = Inr (a, c)"
    using ev i assms(3) absent_evidence by (cases "L = []") (auto simp: currentEvidence_def reference_Nil)
qed

lemma fold_not_stale:
  assumes "loadRun (db_runs db) i = Inr run" and "run_stored marshal sha db run L" and "reference_evidence run L = Inr (a, c, obs)"
    and "reference_evidence run (L @ [q]) = Inr (a', c', obs')" and "fold_request (a, c) q = Inr (a', c')"
  shows "checkEvidenceNotStale db a' (Snapshot c') = None"
proof (cases "L = []")
  case True
  then show ?thesis using evidence_for_run(2) [OF assms(1-3)] reference_pair(2) [OF reference_reaches [OF assms(4)]] loaded_run(2) [OF assms(1)]
    by (simp add: checkEvidenceNotStale_def Let_def rows_absent_def)
next
  case False
  note ok = reference_reaches [OF assms(3)] and ok' = reference_reaches [OF assms(4)]
  have ev: "loadEvidence db (ag_runID a') = Inr (a, Snapshot c)"
    using False evidence_for_run(2) [OF assms(1-3)] reference_pair(2) [OF ok'] loaded_run(2) [OF assms(1)] by simp
  then have "fmlookup (db_aggregates db) (ag_runID a') \<noteq> None" "fmlookup (db_snapshots db) (ag_runID a') \<noteq> None"
    by (auto simp: loadEvidence_def split: option.splits)
  moreover have "ag_recordCount a < ag_recordCount a'"
    using reference_pair(3) [OF ok] reference_pair(3) [OF ok'] by (simp add: word_less_nat_alt)
  moreover have "sn_complete (Snapshot c') \<longrightarrow> sn_complete (Snapshot c)"
    using ok ok' assms(5) complete_mono snapshot_of_run(7) by (auto simp: reference_ok_def fold_request_Inr)
  ultimately show ?thesis using ev by (auto simp: checkEvidenceNotStale_def Let_def)
qed


text \<open>A request that the present state of its run accepts.\<close>

definition acceptable :: "encoder \<Rightarrow> sha256 \<Rightarrow> store_db \<Rightarrow> IngestRequest list \<Rightarrow> IngestRequest \<Rightarrow> EvaluationRun \<Rightarrow> reference \<Rightarrow> bool" where
  "acceptable marshal sha db l q run st \<longleftrightarrow>
     loadRun (db_runs db) (iq_RunID q) = Inr run \<and> run_status run = RunRunning \<and> iq_BehavioralProfile q = run_profile run \<and>
     marshal (iq_Record q) \<noteq> None \<and> dated_request q \<and> OperationalFacts_Validate (request_facts q) = None \<and>
     iq_Sequence q = of_nat (Suc (length (log_of (iq_RunID q) l))) \<and> iq_Sequence q \<noteq> MaxUint64 \<and>
     reference_evidence run (log_of (iq_RunID q) l @ [q]) = Inr st"

lemma acceptable_commit:
  assumes acc: "acceptable marshal sha db l q run (a', c', obs')" and sha: "\<And>b. length (sha b) = 32" and inv: "db_inv marshal sha db l"
    and cur: "ingestState db (iq_RunID q) = Inr cur" "cursor_of marshal sha run (log_of (iq_RunID q) l) cur"
    and d: "RecordDigest marshal sha (iq_Record q) = Inr d"
  shows "\<exists>db' res. applyRecord sha db run q d cur = (db', Inr (ingest_answer res)) \<and> db_runs db' = db_runs db \<and>
    run_stored marshal sha db' run (log_of (iq_RunID q) l @ [q]) \<and> commit_result (iq_Sequence q) (co_complete c') res"
proof -
  let ?L = "log_of (iq_RunID q) l"
  note A = acc [unfolded acceptable_def]
  have run: "loadRun (db_runs db) (iq_RunID q) = Inr run" and ref': "reference_evidence run (?L @ [q]) = Inr (a', c', obs')"
    and nm: "iq_Sequence q \<noteq> MaxUint64" using A by auto
  note st = inv_stored [OF inv run]
  obtain a c obs ob where r: "reference_evidence run ?L = Inr (a, c, obs)" "fold_request (a, c) q = Inr (a', c')" "obs' = obs @ [ob]"
    "ObservationFromRecord (iq_Sequence q) (iq_Record q) (\<not> knows c (dr_FingerprintID (iq_Record q))) = Inr ob"
    using ref' by (auto simp: reference_snoc ingest_one_Inr)
  note ok' = reference_reaches [OF ref'] and p' = reference_pair [OF reference_reaches [OF ref']]
  obtain xs where c: "coll_reach run xs c'" and obs: "map ob_Sequence obs' = map iq_Sequence (?L @ [q])" and g: "agg_reach run (map iq_Record (?L @ [q])) a'"
    using ok' by (auto simp: reference_ok_def)
  define cm where "cm = \<lparr>ec_PreviousNextSequence = is_nextSequence cur, ec_Sequence = iq_Sequence q, ec_RecordDigest = d,
    ec_Aggregate = a', ec_Snapshot = Snapshot c', ec_Observation = ob\<rparr>"
  have prep: "apply_prepare db run q d cur = Inr cm"
    using A r evidence_for_run(1) [OF run st r(1)] by (simp add: apply_prepare_def prepare_commit_def andThen_def cm_def)
  have dg: "validatePersistedDigest d = None" using d digest_shape [of sha] sha by (auto simp: RecordDigest_def split: option.splits)
  have ob: "ob_Sequence ob = iq_Sequence q" using obs r(3) by simp
  have nx: "is_nextSequence cur = iq_Sequence q" using cur(2) A by (simp add: cursor_of_def)
  have guard: "commit_guard cm = None"
    using p'(1) dg ob nx nm by (simp add: commit_guard_def cm_def orElse_None_iff validateCommitObservation_def)
  have rg: "commit_run_guard db cm = None"
    using A p'(2) agg_reach_identity [OF g] fold_not_stale [OF run st r(1) ref' r(2)] loaded_run(2) [OF run] by (simp add: commit_run_guard_def cm_def)
  have now: "prepared_now marshal sha run ?L q cm" using ref' r(3) by (simp add: prepared_now_def cm_def)
  obtain db' res where w: "commit_write sha db cm = Inr (db', res)" "run_stored marshal sha db' run (?L @ [q])" "db_runs db' = db_runs db"
    "commit_result (iq_Sequence q) (sn_complete (ec_Snapshot cm)) res"
    using commit_writes [OF st _ _ now _ guard] A d by (auto simp: cm_def)
  have "CommitEvaluationIngest sha db cm = (db', Inr res)"
    using guard cur(1) nx rg w(1) p'(2) loaded_run(2) [OF run] by (simp add: CommitEvaluationIngest_def) (simp add: cm_def)
  then show ?thesis using prep w snapshot_of_run(7) [OF c] by (auto simp: applyRecord_def cm_def)
qed


lemma preflight_ok:
  assumes "loadRun (db_runs db) (iq_RunID q) = Inr run" and "run_status run = RunRunning" and "iq_BehavioralProfile q = run_profile run"
    and "RecordDigest marshal sha (iq_Record q) = Inr d"
  shows "ingest_preflight marshal sha db q = Inr (run, d)"
  using assms by (simp add: ingest_preflight_def andThen_def)

lemma retry_replays:
  assumes pre: "ingest_preflight marshal sha db q = Inr (run, d)" and run: "loadRun (db_runs db) (iq_RunID q) = Inr run"
    and st: "run_stored marshal sha db run (L @ [q])" and q: "iq_Sequence q = of_nat (Suc (length L))"
    and ref: "reference_evidence run (L @ [q]) = Inr (a, c, obs)"
  shows "IngestDecisionRecord marshal sha db q =
    (db, Inr \<lparr>ir_Disposition = IngestReplayed, ir_NextSequence = iq_Sequence q + 1, ir_RecordCount = iq_Sequence q, ir_BehaviorComplete = co_complete c\<rparr>)"
proof -
  obtain cur where cur: "ingestState db (iq_RunID q) = Inr cur" "cursor_of marshal sha run (L @ [q]) cur"
    using stored_cursor [OF run st] by blast
  have d: "RecordDigest marshal sha (iq_Record q) = Inr d" using pre by (auto simp: ingest_preflight_def split: if_splits)
  have "d \<noteq> ''''" using st d by (auto simp: run_stored_def validatePersistedDigest_def split: if_splits)
  then have "decide_sequence q d cur = Inr (ReplayRecord \<lparr>ir_Disposition = IngestReplayed, ir_NextSequence = iq_Sequence q + 1,
      ir_RecordCount = iq_Sequence q, ir_BehaviorComplete = co_complete c\<rparr>)"
    using cur(2) d q ref by (auto simp: cursor_of_def decide_sequence_def)
  then show ?thesis using pre cur(1) by (simp add: IngestDecisionRecord_def)
qed

lemma progress_facts:
  assumes "sys_reach dated_request marshal sha s" and "\<And>b. length (sha b) = 32"
    and "acceptable marshal sha (sy_db s) (sy_log s) q run (a, c, obs)"
  shows "\<exists>db'. IngestDecisionRecord marshal sha (sy_db s) q =
      (db', Inr \<lparr>ir_Disposition = IngestApplied, ir_NextSequence = iq_Sequence q + 1, ir_RecordCount = iq_Sequence q, ir_BehaviorComplete = co_complete c\<rparr>) \<and>
    db_runs db' = db_runs (sy_db s) \<and> loadEvidence db' (iq_RunID q) = Inr (a, Snapshot c) \<and>
    IngestDecisionRecord marshal sha db' q =
      (db', Inr \<lparr>ir_Disposition = IngestReplayed, ir_NextSequence = iq_Sequence q + 1, ir_RecordCount = iq_Sequence q, ir_BehaviorComplete = co_complete c\<rparr>)"
proof -
  let ?L = "log_of (iq_RunID q) (sy_log s)"
  have inv: "db_inv marshal sha (sy_db s) (sy_log s)" using sys_reach_inv [OF assms(1)] by (simp add: sys_inv_def)
  have A: "loadRun (db_runs (sy_db s)) (iq_RunID q) = Inr run" "run_status run = RunRunning" "iq_BehavioralProfile q = run_profile run"
    "iq_Sequence q = of_nat (Suc (length ?L))" "reference_evidence run (?L @ [q]) = Inr (a, c, obs)"
    using assms(3) by (auto simp: acceptable_def)
  obtain d where d: "RecordDigest marshal sha (iq_Record q) = Inr d" using assms(3) by (auto simp: acceptable_def RecordDigest_def)
  obtain cur where cur: "ingestState (sy_db s) (iq_RunID q) = Inr cur" "cursor_of marshal sha run ?L cur"
    using stored_cursor [OF A(1) inv_stored [OF inv A(1)]] by blast
  obtain db' res where w: "applyRecord sha (sy_db s) run q d cur = (db', Inr (ingest_answer res))" "db_runs db' = db_runs (sy_db s)"
    "run_stored marshal sha db' run (?L @ [q])" "commit_result (iq_Sequence q) (co_complete c) res"
    using acceptable_commit [OF assms(3,2) inv cur d] by blast
  have "decide_sequence q d cur = Inr ApplyRecord" using cur(2) A(4) by (simp add: decide_sequence_def cursor_of_def)
  then have 1: "IngestDecisionRecord marshal sha (sy_db s) q = (db', Inr (ingest_answer res))"
    using preflight_ok [OF A(1-3) d] cur(1) w(1) by (simp add: IngestDecisionRecord_def)
  have l: "loadRun (db_runs db') (iq_RunID q) = Inr run" using A(1) w(2) by simp
  show ?thesis using 1 w(2,4) evidence_for_run(2) [OF l w(3) A(5)] retry_replays [OF preflight_ok [OF l A(2,3) d] l w(3) A(4,5)]
    by (auto simp: ingest_answer_def commit_result_def)
qed

text \<open>C6. Ingest never gets stuck while records are dated (\<open>dated_request\<close>): in every state reached by such
  requests a running run applies a dated and encodable record of its profile that carries the next sequence, if the
  reducers accept it and its facts are valid, and stores the folded evidence; and
  the same request sent again is answered as replayed, with the same counts, and changes nothing.\<close>

theorem ingest_progress:
  assumes "sys_reach dated_request marshal sha s" and "\<And>b. length (sha b) = 32"
    and "acceptable marshal sha (sy_db s) (sy_log s) q run (a, c, obs)"
  shows "\<exists>db'. IngestDecisionRecord marshal sha (sy_db s) q =
      (db', Inr \<lparr>ir_Disposition = IngestApplied, ir_NextSequence = iq_Sequence q + 1, ir_RecordCount = iq_Sequence q, ir_BehaviorComplete = co_complete c\<rparr>) \<and>
    loadEvidence db' (iq_RunID q) = Inr (a, Snapshot c) \<and>
    IngestDecisionRecord marshal sha db' q =
      (db', Inr \<lparr>ir_Disposition = IngestReplayed, ir_NextSequence = iq_Sequence q + 1, ir_RecordCount = iq_Sequence q, ir_BehaviorComplete = co_complete c\<rparr>)"
  using progress_facts [OF assms] by blast

text \<open>C20. On a running run whose requests so far had dated records (\<open>dated_request\<close>), a request of the
  run's profile with an encodable record fails closed at every other sequence: a gap, a stale sequence, and a different
  record, by its digest, at the sequence of the last one are all refused as a sequence conflict, and the store is unchanged.\<close>

theorem ingest_conflicts:
  assumes "sys_reach dated_request marshal sha s" and "loadRun (db_runs (sy_db s)) (iq_RunID q) = Inr run" and "run_status run = RunRunning"
    and "iq_BehavioralProfile q = run_profile run" and "RecordDigest marshal sha (iq_Record q) = Inr d"
    and "iq_Sequence q \<noteq> of_nat (Suc (length (log_of (iq_RunID q) (sy_log s))))"
    and "log_of (iq_RunID q) (sy_log s) = [] \<or> iq_Sequence q \<noteq> of_nat (length (log_of (iq_RunID q) (sy_log s))) \<or>
      RecordDigest marshal sha (iq_Record (last (log_of (iq_RunID q) (sy_log s)))) \<noteq> Inr d"
  shows "IngestDecisionRecord marshal sha (sy_db s) q = (sy_db s, Inl ErrIngestSequence)"
proof -
  let ?L = "log_of (iq_RunID q) (sy_log s)"
  have inv: "db_inv marshal sha (sy_db s) (sy_log s)" using sys_reach_inv [OF assms(1)] by (simp add: sys_inv_def)
  obtain cur where cur: "ingestState (sy_db s) (iq_RunID q) = Inr cur" "cursor_of marshal sha run ?L cur"
    using stored_cursor [OF assms(2) inv_stored [OF inv assms(2)]] by blast
  have "decide_sequence q d cur = Inl ErrIngestSequence"
    using cur(2) assms(6,7) by (auto simp: decide_sequence_def cursor_of_def split: if_splits)
  then show ?thesis using preflight_ok [OF assms(2-5)] cur(1) by (simp add: IngestDecisionRecord_def)
qed

end
