(* ===== verification/Witnesses_Store.thy ===== *)
theory Witnesses_Store
  imports Witnesses_Evidence Platform_Ingest_Proofs
begin

text \<open>
  Concrete instances of the theorems on stored runs, stored evidence and ingest: a run is created,
  started, fed with one record by the handler, and finished, in a store that began empty.
\<close>

subsection \<open>A handler call as a path of the system\<close>

lemma work_iter:
  assumes "sys_reach dated_request marshal sha s" and "k < length (sy_tasks s)"
  shows "\<exists>s' d. sys_reach dated_request marshal sha s' \<and> (sys_step dated_request marshal sha)\<^sup>*\<^sup>* s s' \<and>
    ((\<lambda>(db, t). ingest_step marshal sha db t) ^^ n) (sy_db s, sy_tasks s ! k) = (sy_db s', sy_tasks s' ! k) \<and>
    length (sy_tasks s') = length (sy_tasks s) \<and> sy_log s' = sy_log s @ d \<and>
    applied_answer (sy_tasks s' ! k) = applied_answer (sy_tasks s ! k) @ d"
proof (induction n)
  case 0
  show ?case using assms(1) by (intro exI [of _ s] exI [of _ "[]"]) simp
next
  case (Suc n)
  then obtain s' d where s': "sys_reach dated_request marshal sha s'" "(sys_step dated_request marshal sha)\<^sup>*\<^sup>* s s'"
    "((\<lambda>(db, t). ingest_step marshal sha db t) ^^ n) (sy_db s, sy_tasks s ! k) = (sy_db s', sy_tasks s' ! k)"
    "length (sy_tasks s') = length (sy_tasks s)" "sy_log s' = sy_log s @ d"
    "applied_answer (sy_tasks s' ! k) = applied_answer (sy_tasks s ! k) @ d" by blast
  obtain db t where st: "ingest_step marshal sha (sy_db s') (sy_tasks s' ! k) = (db, t)" by force
  let ?s = "\<lparr>sy_db = db, sy_tasks = (sy_tasks s')[k := t], sy_log = sy_log s' @ applied_by (sy_tasks s' ! k) t\<rparr>"
  have step: "sys_step dated_request marshal sha s' ?s" using sys_step.work [OF _ st] s'(4) assms(2) by simp
  show ?case
    using sys_reach.step [OF s'(1) step] rtranclp.rtrancl_into_rtrancl [OF s'(2) step] s'(3-6) st step_answer [OF st] assms(2)
    by (intro exI [of _ ?s] exI [of _ "d @ applied_by (sy_tasks s' ! k) t"]) simp
qed

lemma handler_reach:
  assumes "sys_reach dated_request marshal sha s" and "dated_request q" and "IngestDecisionRecord marshal sha (sy_db s) q = (db', r)"
  shows "\<exists>s'. sys_reach dated_request marshal sha s' \<and> sy_db s' = db' \<and> IngestAnswered q r \<in> set (sy_tasks s') \<and>
    sy_log s' = sy_log s @ applied_answer (IngestAnswered q r)"
proof -
  let ?s = "s\<lparr>sy_tasks := sy_tasks s @ [IngestReceived q]\<rparr>" and ?k = "length (sy_tasks s)"
  have "sys_reach dated_request marshal sha ?s" by (rule sys_reach.step [OF assms(1) sys_step.submit [where ok = dated_request, OF assms(2)]])
  then obtain s' d where s': "sys_reach dated_request marshal sha s'" "length (sy_tasks s') = Suc ?k" "sy_log s' = sy_log s @ d"
    "((\<lambda>(db, t). ingest_step marshal sha db t) ^^ 4) (sy_db s, IngestReceived q) = (sy_db s', sy_tasks s' ! ?k)"
    "applied_answer (sy_tasks s' ! ?k) = d"
    using work_iter [of marshal sha ?s ?k 4] by auto
  then have "sy_db s' = db'" "sy_tasks s' ! ?k = IngestAnswered q r"
    unfolding handler_steps using assms(3) by auto
  then show ?thesis using s' nth_mem [of ?k "sy_tasks s'"] by (intro exI [of _ s']) auto
qed

subsection \<open>Runs\<close>

lemma w_transitions:
  "EvaluationRun_Start (w_run ''ref'') w_later = (w_running, None)" "EvaluationRun_Fail w_running w_later ''timeout'' = (w_failed, None)"
  by code_simp+

lemma w_steps: "run_step (w_run ''ref'') w_running" "run_step w_running w_failed"
  "run_reach (w_run ''ref'')" "run_reach w_running" "run_reach w_failed"
  using run_step.start [OF w_transitions(1)] run_step.fail [OF w_transitions(2)] run_reach.new [OF w_run_new(1)]
  by (auto intro: run_reach.step)

definition w_tab0 :: run_table where "w_tab0 = fmupd ''ref'' (runRow (w_run ''ref'') ''key'') fmempty"

lemma w_tab0_load: "loadRun w_tab0 ''ref'' = Inr (w_run ''ref'')"
  using rehydrate_complete [OF run_form_reach [OF w_steps(3)]] by (simp add: loadRun_def w_tab0_def w_run_def)

theorem transition_stored_witness:
  "\<exists>tab'. StartEvaluationRun w_tab0 ''ref'' w_later = (tab', Inr w_running) \<and> loadRun tab' ''ref'' = Inr w_running"
  using transition_stored [of w_tab0 "''ref''" "w_run ''ref''" "\<lambda>r. EvaluationRun_Start r w_later" w_running] w_tab0_load w_transitions(1) w_steps(1)
  by (simp add: StartEvaluationRun_def)

lemma stored_update:
  assumes "loadRun tab i = Inr r" and "f r = (r', None :: platform_error option)" and "run_step r r'"
  obtains tab' where "UpdateEvaluationRun tab r r' = (tab', None)" and "loadRun tab' i = Inr r'"
proof -
  obtain tab' where t: "transition tab i f = (tab', Inr r')" "loadRun tab' i = Inr r'" using transition_facts [of tab i r f r', OF assms] by blast
  moreover have "UpdateEvaluationRun tab r r' = (tab', None)"
    using t(1) assms(1,2) by (auto simp: transition_def transition_plan_def split: prod.splits option.splits)
  ultimately show ?thesis using that by blast
qed

theorem transition_race_witness:
  "\<exists>tab'. UpdateEvaluationRun w_tab0 (w_run ''ref'') w_running = (tab', None) \<and>
     snd (UpdateEvaluationRun tab' (w_run ''ref'') w_failed) \<noteq> None"
proof -
  obtain tab' where "UpdateEvaluationRun w_tab0 (w_run ''ref'') w_running = (tab', None)"
    using stored_update [of _ _ _ "\<lambda>r. EvaluationRun_Start r w_later", OF w_tab0_load w_transitions(1) w_steps(1)] by blast
  then show ?thesis using transition_race [OF w_steps(4)] by blast
qed


subsection \<open>Saved evidence\<close>

lemma w_dated: "dated (w_record w_later)" "time_storable (Time_UTC (dr_Timestamp (w_record w_later)))"
  by (simp_all add: dated_def w_rec time_storable_def Time_Year_def yearOfDay_def Time_UTC_def w_later_def Let_def)

lemma w_agg1_reach: "agg_reach (w_run ''ref'') [w_record w_later] (w_agg1 ''ref'')"
  using agg_reach.add [OF agg_reach.empty [OF w_new_agg(1)] w_added(1)] by simp

lemma w_pair: "validateEvidencePair (w_agg1 ''ref'') (Snapshot (w_coll1 ''ref'')) = None"
proof -
  have "ag_recordCount (w_agg1 ''ref'') = sn_observations (Snapshot (w_coll1 ''ref''))"
    using agg_reach_inv [OF w_agg1_reach] snapshot_of_run(6) [OF w_coll_reach(1)] by (simp add: counts_inv_def word_unat_eq_iff)
  then show ?thesis using agg_reach_identity [OF w_agg1_reach] snapshot_of_run [OF w_coll_reach(1)] by (simp add: validateEvidencePair_def)
qed

definition w_db :: store_db where "w_db = emptyStore\<lparr>db_runs := w_tab0\<rparr>"


definition w_ancient :: gotime where "w_ancient = \<lparr>t_ns = - 1, t_offset = 0\<rparr>"

theorem ancient_records_corrupt_witness:
  "\<exists>a. agg_reach (w_run ''ref'') [w_record w_ancient] a \<and> loadAggregate ''ref'' (aggregateInsertArgs a) = Inl ErrStoreCorrupt"
proof -
  have "snd (AddRecord (w_empty ''ref'') (w_record w_ancient)) = None" by (rule w_first_added) (simp add: w_ancient_def)
  then obtain a where "AddRecord (w_empty ''ref'') (w_record w_ancient) = (a, None)" by (metis prod.collapse)
  then have a: "agg_reach (w_run ''ref'') [w_record w_ancient] a" using agg_reach.add [OF agg_reach.empty [OF w_new_agg(1)]] by fastforce
  then show ?thesis using ancient_records_corrupt [OF a] by (auto simp: w_run_def w_record_def w_ancient_def)
qed


subsection \<open>Ingest\<close>

definition w_marshal :: encoder where "w_marshal r = Some (dr_FingerprintID r)"
definition w_sha :: sha256 where "w_sha b = replicate 32 (of_nat (length b))"

definition w_request :: IngestRequest where
  "w_request = \<lparr>iq_RunID = ''ref'', iq_Sequence = 1, iq_BehavioralProfile = ''profile'', iq_Fidelity = '''', iq_BehaviorLayer = LayerUnspecified,
     iq_Operational = noFacts, iq_Record = w_record w_later\<rparr>"

lemma w_created: "\<exists>key. CreateEvaluationRun (\<lambda>_. True) fmempty (w_run ''ref'') = (fmupd ''ref'' (runRow (w_run ''ref'') key) fmempty, None)"
proof -
  have "\<not> (Time_IsZero w_time \<or> t_ns w_time < unixEpoch \<or> unixEpoch + (2 ^ 63 - 1) \<le> t_ns w_time)"
    using w_guard by (simp add: w_time_def unixEpoch_def)
  then obtain key where "recencyKey (run_createdAt (w_run ''ref'')) = Inr key"
    by (simp add: recencyKey_def w_run_def Let_def)
  then show ?thesis using form_binding [OF run_form_reach [OF w_steps(3)]] by (intro exI [of _ key]) (simp add: CreateEvaluationRun_def, simp add: w_run_def)
qed

lemma w_running_state:
  "\<exists>s. sys_reach dated_request w_marshal w_sha s \<and> loadRun (db_runs (sy_db s)) ''ref'' = Inr w_running \<and> sy_log s = [] \<and> fmlookup (db_runs (sy_db s)) ''new'' = None"
proof -
  obtain key where c: "CreateEvaluationRun (\<lambda>_. True) fmempty (w_run ''ref'') = (fmupd ''ref'' (runRow (w_run ''ref'') key) fmempty, None)"
    using w_created by blast
  let ?tab = "fmupd ''ref'' (runRow (w_run ''ref'') key) fmempty"
  define s0 where "s0 = \<lparr>sy_db = emptyStore, sy_tasks = [], sy_log = []\<rparr>"
  define s1 where "s1 = s0\<lparr>sy_db := (sy_db s0)\<lparr>db_runs := ?tab\<rparr>\<rparr>"
  have "sys_step dated_request w_marshal w_sha s0 s1" unfolding s1_def using c by (intro sys_step.create [OF w_steps(3)]) (simp add: s0_def emptyStore_def)
  then have r1: "sys_reach dated_request w_marshal w_sha s1" using sys_reach.start by (auto simp: s0_def intro: sys_reach.step)
  have "loadRun ?tab ''ref'' = Inr (w_run ''ref'')"
    using rehydrate_complete [OF run_form_reach [OF w_steps(3)]] by (simp add: loadRun_def w_run_def)
  then obtain tab' where u: "UpdateEvaluationRun ?tab (w_run ''ref'') w_running = (tab', None)" "loadRun tab' ''ref'' = Inr w_running"
    using stored_update [of _ _ _ "\<lambda>r. EvaluationRun_Start r w_later", OF _ w_transitions(1) w_steps(1)] by blast
  let ?s = "s1\<lparr>sy_db := (sy_db s1)\<lparr>db_runs := tab'\<rparr>\<rparr>"
  have "sys_step dated_request w_marshal w_sha s1 ?s" using u(1) by (intro sys_step.lifecycle [OF w_steps(4)]) (simp add: s1_def)
  moreover have "fmlookup tab' ''new'' = None" using race_facts [OF w_steps(4) u(1)] by (simp add: w_run_def)
  ultimately show ?thesis using sys_reach.step [OF r1] u(2) by (intro exI [of _ ?s]) (simp add: s1_def s0_def)
qed

lemma w_reference: "\<exists>ob. reference_evidence w_running [w_request] = Inr (w_agg1 ''ref'', w_coll1 ''ref'', [ob])"
proof -
  have ids: "same_ids (w_run ''ref'') w_running" by code_simp
  have "reference_evidence w_running [] = Inr (w_empty ''ref'', w_coll0 ''ref'', [])"
    unfolding reference_rebind [OF ids form_binding [OF run_form_reach [OF w_steps(3)]] form_binding [OF run_form_reach [OF w_steps(4)]]]
    using w_new_agg(1) w_new_coll(1) by (simp add: reference_Nil andThen_def)
  moreover have "request_facts w_request = noFacts" by (simp add: request_facts_def w_request_def noFacts_def)
  then have "fold_request (w_empty ''ref'', w_coll0 ''ref'') w_request = Inr (w_agg1 ''ref'', w_coll1 ''ref'')"
    using w_added(1) w_observe1(1) by (simp add: fold_request_Inr w_request_def)
  moreover have "\<exists>ob. ObservationFromRecord 1 (w_record w_later) True = Inr ob"
    by (simp add: ObservationFromRecord_def w_rec w_guard w_record_duration)
  moreover have "\<not> knows (w_coll0 ''ref'') x" for x by (simp add: knows_def w_coll0_def)
  ultimately show ?thesis using reference_snoc [of w_running "[]" w_request] by (auto simp: andThen_def ingest_one_def w_request_def)
qed

lemma w_acceptable:
  assumes "loadRun (db_runs db) ''ref'' = Inr w_running"
  shows "\<exists>ob. acceptable w_marshal w_sha db [] w_request w_running (w_agg1 ''ref'', w_coll1 ''ref'', [ob])"
proof -
  have "run_status w_running = RunRunning" "run_profile w_running = ''profile''" by code_simp+
  moreover have "request_facts w_request = noFacts" by (simp add: request_facts_def w_request_def noFacts_def)
  ultimately show ?thesis using w_reference assms w_operational
    by (simp add: acceptable_def w_marshal_def log_of_def MaxUint64_def) (use w_dated in \<open>simp add: w_request_def dated_request_def\<close>)
qed


lemma w_sha_length: "length (w_sha b) = 32"
  by (simp add: w_sha_def)

theorem ingest_progress_witness:
  "\<exists>s db'. sys_reach dated_request w_marshal w_sha s \<and> (\<exists>r. IngestDecisionRecord w_marshal w_sha (sy_db s) w_request = (db', Inr r) \<and> ir_Disposition r = IngestApplied) \<and>
     loadEvidence db' ''ref'' = Inr (w_agg1 ''ref'', Snapshot (w_coll1 ''ref'')) \<and>
     (\<exists>r. IngestDecisionRecord w_marshal w_sha db' w_request = (db', Inr r) \<and> ir_Disposition r = IngestReplayed)"
proof -
  obtain s where s: "sys_reach dated_request w_marshal w_sha s" "loadRun (db_runs (sy_db s)) ''ref'' = Inr w_running" "sy_log s = []" using w_running_state by blast
  then obtain ob where "acceptable w_marshal w_sha (sy_db s) (sy_log s) w_request w_running (w_agg1 ''ref'', w_coll1 ''ref'', [ob])"
    using w_acceptable by auto
  from ingest_progress [OF s(1) w_sha_length this] show ?thesis using s(1) by (auto simp: w_request_def intro!: exI [of _ s])
qed

lemma w_ingested:
  "\<exists>s r. sys_reach dated_request w_marshal w_sha s \<and> loadRun (db_runs (sy_db s)) ''ref'' = Inr w_running \<and> sy_log s = [w_request] \<and>
     IngestAnswered w_request (Inr r) \<in> set (sy_tasks s) \<and> ir_Disposition r = IngestApplied \<and> fmlookup (db_runs (sy_db s)) ''new'' = None"
proof -
  obtain s where s: "sys_reach dated_request w_marshal w_sha s" "loadRun (db_runs (sy_db s)) ''ref'' = Inr w_running" "sy_log s = []"
    "fmlookup (db_runs (sy_db s)) ''new'' = None" using w_running_state by blast
  then obtain ob where acc: "acceptable w_marshal w_sha (sy_db s) (sy_log s) w_request w_running (w_agg1 ''ref'', w_coll1 ''ref'', [ob])"
    using w_acceptable by auto
  from progress_facts [OF s(1) w_sha_length acc] obtain db' r where h:
    "IngestDecisionRecord w_marshal w_sha (sy_db s) w_request = (db', Inr r)" "ir_Disposition r = IngestApplied" "db_runs db' = db_runs (sy_db s)"
    by fastforce
  have "dated_request w_request" using acc by (simp add: acceptable_def)
  from handler_reach [OF s(1) this h(1)] obtain s' where "sys_reach dated_request w_marshal w_sha s'" "sy_db s' = db'"
    "IngestAnswered w_request (Inr r) \<in> set (sy_tasks s')" "sy_log s' = [w_request]" using h(2) s(3) by auto
  then show ?thesis using h(2,3) s(2,4) by (intro exI [of _ s'] exI [of _ r]) simp
qed

theorem ingest_exactly_once_witness:
  "\<exists>s ob. sys_reach dated_request w_marshal w_sha s \<and> sy_log s = [w_request] \<and>
     reference_evidence w_running [w_request] = Inr (w_agg1 ''ref'', w_coll1 ''ref'', [ob]) \<and>
     loadEvidence (sy_db s) ''ref'' = Inr (w_agg1 ''ref'', Snapshot (w_coll1 ''ref'')) \<and>
     fmlookup (db_observations (sy_db s)) ''ref'' = Some [observationInsertArgs w_sha ob]"
proof -
  obtain s where s: "sys_reach dated_request w_marshal w_sha s" "loadRun (db_runs (sy_db s)) ''ref'' = Inr w_running" "sy_log s = [w_request]"
    using w_ingested by blast
  have l: "log_of ''ref'' [w_request] = [w_request]" by (simp add: log_of_def w_request_def)
  show ?thesis using ingest_exactly_once [OF s(1,2)] w_reference s(1,3) unfolding s(3) l Let_def by (auto intro!: exI [of _ s] s(3))
qed

theorem ingest_answers_witness:
  "\<exists>s r. sys_reach dated_request w_marshal w_sha s \<and> IngestAnswered w_request (Inr r) \<in> set (sy_tasks s) \<and>
     mset (concat (map applied_answer (sy_tasks s))) = {#w_request#} \<and> ir_NextSequence r = 2 \<and> ir_RecordCount r = 1"
proof -
  obtain s r where s: "sys_reach dated_request w_marshal w_sha s" "sy_log s = [w_request]" "IngestAnswered w_request (Inr r) \<in> set (sy_tasks s)"
    using w_ingested by blast
  then show ?thesis using ingest_answers [OF s(1)] by (intro exI [of _ s] exI [of _ r]) (auto simp: Let_def w_request_def)
qed


theorem ingest_conflicts_witness:
  "\<exists>s. sys_reach dated_request w_marshal w_sha s \<and> IngestDecisionRecord w_marshal w_sha (sy_db s) (w_request\<lparr>iq_Sequence := 7\<rparr>) = (sy_db s, Inl ErrIngestSequence)"
proof -
  obtain s where s: "sys_reach dated_request w_marshal w_sha s" "loadRun (db_runs (sy_db s)) ''ref'' = Inr w_running" "sy_log s = [w_request]"
    using w_ingested by blast
  have run: "run_status w_running = RunRunning" "run_profile w_running = ''profile''" by code_simp+
  obtain d where d: "RecordDigest w_marshal w_sha (w_record w_later) = Inr d" by (simp add: RecordDigest_def w_marshal_def)
  have l: "log_of ''ref'' [w_request] = [w_request]" by (simp add: log_of_def w_request_def)
  show ?thesis
    using ingest_conflicts [OF s(1), of "w_request\<lparr>iq_Sequence := 7\<rparr>" w_running d] s run d l
    by (intro exI [of _ s]) (simp add: w_request_def)
qed

theorem finished_run_frozen_witness:
  "\<exists>s s'. sys_reach dated_request w_marshal w_sha s \<and> (sys_step dated_request w_marshal w_sha)\<^sup>*\<^sup>* s s' \<and> s \<noteq> s' \<and> log_of ''ref'' (sy_log s) = [w_request] \<and>
     loadRun (db_runs (sy_db s')) ''ref'' = Inr w_failed \<and> loadEvidence (sy_db s') ''ref'' = loadEvidence (sy_db s) ''ref''"
proof -
  obtain s where s: "sys_reach dated_request w_marshal w_sha s" "loadRun (db_runs (sy_db s)) ''ref'' = Inr w_running" "sy_log s = [w_request]"
    using w_ingested by blast
  obtain tab' where u: "UpdateEvaluationRun (db_runs (sy_db s)) w_running w_failed = (tab', None)" "loadRun tab' ''ref'' = Inr w_failed"
    using stored_update [of _ _ _ "\<lambda>r. EvaluationRun_Fail r w_later ''timeout''", OF s(2) w_transitions(2) w_steps(2)] by blast
  define t where "t = s\<lparr>sy_db := (sy_db s)\<lparr>db_runs := tab'\<rparr>\<rparr>"
  have t: "sys_reach dated_request w_marshal w_sha t" unfolding t_def by (rule sys_reach.step [OF s(1) sys_step.lifecycle [OF w_steps(5) u(1)]])
  define t' where "t' = t\<lparr>sy_tasks := sy_tasks t @ [IngestReceived w_request]\<rparr>"
  have "sys_step dated_request w_marshal w_sha t t'" unfolding t'_def by (rule sys_step.submit) (use w_dated in \<open>simp add: w_request_def dated_request_def\<close>)
  then have st: "(sys_step dated_request w_marshal w_sha)\<^sup>*\<^sup>* t t'" by blast
  have "sy_tasks t \<noteq> sy_tasks t'" by (simp add: t'_def)
  then have ne: "t \<noteq> t'" by auto
  have fin: "RunStatus_IsTerminal (run_status w_failed)" by code_simp
  have l: "loadRun (db_runs (sy_db t)) ''ref'' = Inr w_failed" using u(2) by (simp add: t_def)
  have "log_of ''ref'' (sy_log t) = [w_request]" using s(3) by (simp add: t_def log_of_def w_request_def)
  then show ?thesis using finished_run_frozen [OF st t l fin] t st ne by blast
qed

end
