(* ===== verification/Platform_Cost.thy ===== *)
theory Platform_Cost
  imports Platform_Behavior
begin

text \<open>
  Cost from a pricing table (\<^verbatim>\<open>platform/cost.go\<close>). Token counts are summed per model,
  each model's cost is taken in 128 bits and rounded down once, and every step past 64 bits is an
  error. The theorems are that the 128-bit arithmetic computes the exact floor, and that the cost of a
  side is the exact natural-number formula of the documentation, with an error exactly when one of the
  reported totals does not fit 64 bits, whatever the order of runs, behaviours and map iteration.
\<close>

subsection \<open>Checked counters\<close>

text \<open>The contract of the overflow-checked additions of this package.\<close>

locale checked_counter =
  fixes add :: "u64 \<Rightarrow> u64 \<Rightarrow> platform_error + u64"
  assumes add_Inr: "add w n = Inr v \<longleftrightarrow> unat v = unat w + unat n"
begin

lemma add_fits: "(\<exists>v. add w n = Inr v) \<longleftrightarrow> unat w + unat n < 2 ^ 64"
proof
  assume "unat w + unat n < 2 ^ 64"
  then have "unat (w + n) = unat w + unat n" by (rule unat_plus_small)
  then show "\<exists>v. add w n = Inr v" unfolding add_Inr by blast
next
  assume "\<exists>v. add w n = Inr v"
  then obtain v where "add w n = Inr v" ..
  then have "unat v = unat w + unat n" by (simp add: add_Inr)
  then show "unat w + unat n < 2 ^ 64" using unat_less_2p64 [of v] by simp
qed

lemma add_Inl: "add w n = Inl err \<Longrightarrow> 2 ^ 64 \<le> unat w + unat n"
  using add_fits [of w n] by (cases "unat w + unat n < 2 ^ 64") auto

lemma add_ok: "unat w + unat n < 2 ^ 64 \<Longrightarrow> add w n = Inr (w + n)"
  by (simp add: add_Inr unat_plus_small)

lemma add_chain: "(\<exists>v :: u64. unat v = unat (w :: u64) + unat (n :: u64) \<and> unat u = unat v + k) \<longleftrightarrow> unat (u :: u64) = unat w + unat n + k"
proof
  assume u: "unat u = unat w + unat n + k"
  then have "unat w + unat n < 2 ^ 64" using unat_less_2p64 [of u] by simp
  then show "\<exists>v :: u64. unat v = unat w + unat n \<and> unat u = unat v + k"
    using u by (intro exI [of _ "w + n"]) (simp add: unat_plus_small)
qed auto

end

interpretation behaviour_counter: checked_counter addCount
  by unfold_locales (rule addCount_Inr)

subsection \<open>The table\<close>

record ModelPrice =
  mp_InputMicrosPerMillion :: u64
  mp_OutputMicrosPerMillion :: u64

record Pricing =
  pr_version :: string
  pr_source :: string
  pr_currency :: string
  pr_digest :: string
  pr_models :: "(string, ModelPrice) fmap option"

definition noPricing :: Pricing where
  "noPricing = \<lparr>pr_version = '''', pr_source = '''', pr_currency = '''', pr_digest = '''', pr_models = None\<rparr>"

definition NewPricing :: "string \<Rightarrow> string \<Rightarrow> string \<Rightarrow> string \<Rightarrow> (string, ModelPrice) fmap \<Rightarrow> Pricing option" where
  "NewPricing version source currency digest models =
     (if version = '''' \<or> source = '''' \<or> currency = '''' \<or> digest = '''' \<or> models = fmempty then None
      else Some \<lparr>pr_version = version, pr_source = source, pr_currency = currency, pr_digest = digest, pr_models = Some models\<rparr>)"

definition Configured :: "Pricing \<Rightarrow> bool" where "Configured p = (pr_models p \<noteq> None)"

text \<open>The look-ups \<open>p.models[model]\<close>: whether the table has the model, and its price (the zero value when not).\<close>

definition price_of :: "Pricing \<Rightarrow> string \<Rightarrow> ModelPrice option" where
  "price_of p model = (case pr_models p of None \<Rightarrow> None | Some ms \<Rightarrow> fmlookup ms model)"

definition zeroPrice :: ModelPrice where
  "zeroPrice = \<lparr>mp_InputMicrosPerMillion = 0, mp_OutputMicrosPerMillion = 0\<rparr>"

definition price_at :: "Pricing \<Rightarrow> string \<Rightarrow> ModelPrice" where
  "price_at p model = (case price_of p model of None \<Rightarrow> zeroPrice | Some price \<Rightarrow> price)"

record CostEvidence =
  ce_RunsWithEvidence :: u64
  ce_CostMicros :: u64
  ce_PricedTokens :: u64
  ce_UnpricedTokens :: u64
  ce_TokenObservations :: u64
  ce_ObservationsWithoutTokens :: u64

definition CostEvidence_Available :: "CostEvidence \<Rightarrow> bool" where
  "CostEvidence_Available e = (0 < ce_RunsWithEvidence e)"

record CostComparison =
  cc_PricingVersion :: string
  cc_PricingDigest :: string
  cc_Source :: string
  cc_Currency :: string
  cc_Reference :: CostEvidence
  cc_Candidate :: CostEvidence
  cc_Unavailable :: OperationalUnavailability

definition CostComparison_Comparable :: "CostComparison \<Rightarrow> bool" where
  "CostComparison_Comparable c = (cc_Unavailable c = '''')"

subsection \<open>128-bit arithmetic\<close>

text \<open>\<^verbatim>\<open>math/bits\<close>: \<open>Mul64\<close> gives the two halves of the product, \<open>Add64\<close> the sum and the
  carry, \<open>Div64\<close> the quotient of a two-word dividend (the high word is below the divisor).\<close>

definition Mul64 :: "u64 \<Rightarrow> u64 \<Rightarrow> u64 \<times> u64" where
  "Mul64 x y = (of_nat (unat x * unat y div 2 ^ 64), of_nat (unat x * unat y))"

definition Add64 :: "u64 \<Rightarrow> u64 \<Rightarrow> u64 \<Rightarrow> u64 \<times> u64" where
  "Add64 x y carry = (x + y + carry, if unat x + unat y + unat carry < 2 ^ 64 then 0 else 1)"

definition Div64 :: "u64 \<Rightarrow> u64 \<Rightarrow> u64 \<Rightarrow> u64" where
  "Div64 hi lo y = of_nat ((unat hi * 2 ^ 64 + unat lo) div unat y)"

definition modelCost :: "u64 \<Rightarrow> u64 \<Rightarrow> u64 \<Rightarrow> u64 \<Rightarrow> platform_error + u64" where
  "modelCost inp inPrice out outPrice =
     (let (hiIn, loIn) = Mul64 inp inPrice; (hiOut, loOut) = Mul64 out outPrice;
          (lo, carry) = Add64 loIn loOut 0; (hi, overflow) = Add64 hiIn hiOut carry
      in if overflow \<noteq> 0 then Inl ErrCostOverflow
         else if 1000000 \<le> hi then Inl ErrCostOverflow
         else Inr (Div64 hi lo 1000000))"

subsection \<open>One side\<close>

definition addCost :: "u64 \<Rightarrow> u64 \<Rightarrow> platform_error + u64" where
  "addCost field n = (if MaxUint64 - n < field then Inl ErrCostOverflow else Inr (field + n))"

record costSide =
  cs_runs :: u64
  cs_tokenObservations :: u64
  cs_withoutTokens :: u64
  cs_input :: "(string, u64) fmap"
  cs_output :: "(string, u64) fmap"
  cs_unpaid :: u64
  cs_unsplit :: u64

definition emptyCostSide :: costSide where
  "emptyCostSide = \<lparr>cs_runs = 0, cs_tokenObservations = 0, cs_withoutTokens = 0, cs_input = fmempty, cs_output = fmempty,
     cs_unpaid = 0, cs_unsplit = 0\<rparr>"

definition cost_tokens :: "Pricing \<Rightarrow> string \<Rightarrow> TokenCounts \<Rightarrow> costSide \<Rightarrow> platform_error + costSide" where
  "cost_tokens p model t s =
     (if price_of p model = None
      then andThen (addCost (cs_unpaid s) (tk_Input t)) (\<lambda>u.
           andThen (addCost u (tk_Output t)) (\<lambda>v. Inr (s\<lparr>cs_unpaid := v\<rparr>)))
      else andThen (addCost (fmget 0 (cs_input s) model) (tk_Input t)) (\<lambda>inp.
           andThen (addCost (fmget 0 (cs_output s) model) (tk_Output t)) (\<lambda>out.
             Inr (s\<lparr>cs_input := fmupd model inp (cs_input s), cs_output := fmupd model out (cs_output s)\<rparr>))))"

definition cost_entry :: "Pricing \<Rightarrow> BehaviorEntry \<Rightarrow> costSide \<Rightarrow> platform_error + costSide" where
  "cost_entry p e s =
     (let t = os_Tokens (be_Operational e) in
      andThen (addCost (cs_tokenObservations s) (tk_Observed t)) (\<lambda>n.
      andThen (addCost (cs_withoutTokens s) (tk_Unobserved t)) (\<lambda>m.
        let s' = s\<lparr>cs_tokenObservations := n, cs_withoutTokens := m\<rparr> in
        if tk_Observed t = 0 then Inr s'
        else andThen (addCost (cs_unsplit s') (tk_Unsplit t)) (\<lambda>u.
          cost_tokens p (sf_OperationName (be_Behavior e)) t (s'\<lparr>cs_unsplit := u\<rparr>)))))"

fun cost_entries :: "Pricing \<Rightarrow> BehaviorEntry list \<Rightarrow> costSide \<Rightarrow> platform_error + costSide" where
  "cost_entries p [] s = Inr s"
| "cost_entries p (e # es) s = andThen (cost_entry p e s) (cost_entries p es)"

definition cost_addRun :: "Pricing \<Rightarrow> BehaviorEntry list \<Rightarrow> costSide \<Rightarrow> platform_error + costSide" where
  "cost_addRun p es s =
     andThen (cost_entries p es s) (\<lambda>s'.
       Inr (if list_ex (\<lambda>e. tk_Observed (os_Tokens (be_Operational e)) \<noteq> 0) es then s'\<lparr>cs_runs := cs_runs s' + 1\<rparr> else s'))"

fun cost_addRuns :: "Pricing \<Rightarrow> BehaviorEntry list list \<Rightarrow> costSide \<Rightarrow> platform_error + costSide" where
  "cost_addRuns p [] s = Inr s"
| "cost_addRuns p (r # rs) s = andThen (cost_addRun p r s) (cost_addRuns p rs)"

text \<open>The models are visited in the order of the map iteration, which is an argument: a function that lists a set of
  keys, each once.\<close>

definition enumerates :: "('k fset \<Rightarrow> 'k list) \<Rightarrow> bool" where
  "enumerates order \<longleftrightarrow> (\<forall>S. distinct (order S) \<and> set (order S) = fset S)"

fun price_models :: "Pricing \<Rightarrow> costSide \<Rightarrow> string list \<Rightarrow> CostEvidence \<Rightarrow> platform_error + CostEvidence" where
  "price_models p s [] ev = Inr ev"
| "price_models p s (model # ms) ev =
     (let price = price_at p model; inp = fmget 0 (cs_input s) model; out = fmget 0 (cs_output s) model in
      andThen (modelCost inp (mp_InputMicrosPerMillion price) out (mp_OutputMicrosPerMillion price)) (\<lambda>cost.
      andThen (addCost (ce_CostMicros ev) cost) (\<lambda>c.
      andThen (addCost (ce_PricedTokens ev) inp) (\<lambda>t1.
      andThen (addCost t1 out) (\<lambda>t2.
        price_models p s ms (ev\<lparr>ce_CostMicros := c, ce_PricedTokens := t2\<rparr>))))))"

definition costSide_evidence :: "Pricing \<Rightarrow> (string fset \<Rightarrow> string list) \<Rightarrow> costSide \<Rightarrow> platform_error + CostEvidence" where
  "costSide_evidence p order s =
     andThen (addCost (cs_unpaid s) (cs_unsplit s)) (\<lambda>unpriced.
       price_models p s (order (fmdom (cs_input s)))
         \<lparr>ce_RunsWithEvidence = cs_runs s, ce_CostMicros = 0, ce_PricedTokens = 0, ce_UnpricedTokens = unpriced,
          ce_TokenObservations = cs_tokenObservations s, ce_ObservationsWithoutTokens = cs_withoutTokens s\<rparr>)"

definition compareCost ::
  "(string fset \<Rightarrow> string list) \<Rightarrow> Pricing \<Rightarrow> BehaviorEntry list list \<Rightarrow> BehaviorEntry list list \<Rightarrow>
   platform_error + CostComparison option" where
  "compareCost order p reference candidate =
     (if \<not> Configured p then Inr None
      else andThen (cost_addRuns p reference emptyCostSide) (\<lambda>ref.
           andThen (cost_addRuns p candidate emptyCostSide) (\<lambda>cand.
           andThen (costSide_evidence p order ref) (\<lambda>refEvidence.
           andThen (costSide_evidence p order cand) (\<lambda>candEvidence.
             Inr (Some \<lparr>cc_PricingVersion = pr_version p, cc_PricingDigest = pr_digest p, cc_Source = pr_source p,
                        cc_Currency = pr_currency p, cc_Reference = refEvidence, cc_Candidate = candEvidence,
                        cc_Unavailable = unavailability (CostEvidence_Available refEvidence) (CostEvidence_Available candEvidence)\<rparr>))))))"

subsection \<open>The 128-bit product is exact\<close>

lemma Mul64_exact:
  assumes "Mul64 x y = (hi, lo)" shows "unat hi * 2 ^ 64 + unat lo = unat x * unat y"
proof -
  have "unat x * unat y < 2 ^ 64 * 2 ^ 64" by (intro mult_strict_mono unat_less_2p64) auto
  then have "unat x * unat y div 2 ^ 64 < 2 ^ 64" by (simp add: less_mult_imp_div_less)
  then have "unat hi = unat x * unat y div 2 ^ 64" using assms by (auto simp: Mul64_def unat_of_nat)
  moreover have "unat lo = unat x * unat y mod 2 ^ 64" using assms by (auto simp: Mul64_def unat_word_ariths)
  ultimately show ?thesis by (metis div_mult_mod_eq)
qed

lemma Add64_exact:
  assumes "Add64 x y carry = (z, carryOut)" "carry \<le> 1"
  shows "unat carryOut * 2 ^ 64 + unat z = unat x + unat y + unat carry"
proof -
  have z: "unat z = (unat x + unat y + unat carry) mod 2 ^ 64"
    using assms(1) by (auto simp: Add64_def unat_word_ariths mod_simps)
  have "unat carry \<le> 1" using assms(2) by (simp add: word_le_nat_alt)
  then have "unat x + unat y + unat carry < 2 * 2 ^ 64" using unat_less_2p64 [of x] unat_less_2p64 [of y] by simp
  then have "unat carryOut = (unat x + unat y + unat carry) div 2 ^ 64"
    using assms(1) by (auto simp: Add64_def div_nat_eqI)
  then show ?thesis unfolding z by (metis div_mult_mod_eq)
qed

lemma Add64_carry: "Add64 x y carry = (z, carryOut) \<Longrightarrow> carryOut \<le> 1"
  by (auto simp: Add64_def)

lemma modelCost_exact:
  "modelCost inp inPrice out outPrice =
     (let t = (unat inp * unat inPrice + unat out * unat outPrice) div 1000000
      in if t < 2 ^ 64 then Inr (of_nat t) else Inl ErrCostOverflow)"
proof -
  obtain hiIn loIn hiOut loOut lo carry hi overflow where
    m: "Mul64 inp inPrice = (hiIn, loIn)" "Mul64 out outPrice = (hiOut, loOut)"
      "Add64 loIn loOut 0 = (lo, carry)" "Add64 hiIn hiOut carry = (hi, overflow)"
    by (metis surj_pair)
  let ?n = "unat inp * unat inPrice + unat out * unat outPrice"
  have n: "unat overflow * 2 ^ 128 + (unat hi * 2 ^ 64 + unat lo) = ?n"
    using Mul64_exact [OF m(1)] Mul64_exact [OF m(2)] Add64_exact [OF m(3)] Add64_exact [OF m(4) Add64_carry [OF m(3)]]
    by simp
  have big: "?n div 1000000 < 2 ^ 64 \<longleftrightarrow> overflow = 0 \<and> hi < 1000000"
  proof (cases "overflow = 0")
    case False
    then have "0 < unat overflow" by (simp add: unat_gt_0)
    then have "2 ^ 128 \<le> ?n" using n by (cases "unat overflow") auto
    then show ?thesis using False by (simp add: div_less_iff_less_mult)
  next
    case True
    have "?n < 1000000 * 2 ^ 64 \<longleftrightarrow> unat hi < 1000000" using n unat_less_2p64 [of lo] True by auto
    then show ?thesis using True by (simp add: div_less_iff_less_mult word_less_nat_alt mult.commute)
  qed
  show ?thesis
    using n big unfolding modelCost_def m Let_def prod.case by (auto simp: Div64_def not_le)
qed

subsection \<open>A side adds up exactly\<close>

interpretation cost_counter: checked_counter addCost
proof
  fix w n v :: u64
  show "addCost w n = Inr v \<longleftrightarrow> unat v = unat w + unat n"
    using unat_less_2p64 [of v] unat_plus_small [of w n]
    by (auto simp: addCost_def Max_minus_less add.commute word_unat_eq_iff)
qed

text \<open>The documented totals of a list of entries, over the natural numbers.\<close>

abbreviation entry_tokens :: "BehaviorEntry \<Rightarrow> TokenCounts" where
  "entry_tokens e \<equiv> os_Tokens (be_Operational e)"

abbreviation entry_model :: "BehaviorEntry \<Rightarrow> string" where
  "entry_model e \<equiv> sf_OperationName (be_Behavior e)"

definition reports_tokens :: "BehaviorEntry \<Rightarrow> bool" where
  "reports_tokens e = (tk_Observed (entry_tokens e) \<noteq> 0)"

definition tokens_where :: "(BehaviorEntry \<Rightarrow> bool) \<Rightarrow> (TokenCounts \<Rightarrow> u64) \<Rightarrow> BehaviorEntry list \<Rightarrow> nat" where
  "tokens_where P field es = (\<Sum>e\<leftarrow>es. if reports_tokens e \<and> P e then unat (field (entry_tokens e)) else 0)"

definition model_tokens :: "string \<Rightarrow> (TokenCounts \<Rightarrow> u64) \<Rightarrow> BehaviorEntry list \<Rightarrow> nat" where
  "model_tokens m = tokens_where (\<lambda>e. entry_model e = m)"

definition priced_models :: "Pricing \<Rightarrow> BehaviorEntry list \<Rightarrow> string set" where
  "priced_models p es = entry_model ` {e \<in> set es. reports_tokens e \<and> price_of p (entry_model e) \<noteq> None}"

definition unpaid_tokens :: "Pricing \<Rightarrow> BehaviorEntry list \<Rightarrow> nat" where
  "unpaid_tokens p es =
     tokens_where (\<lambda>e. price_of p (entry_model e) = None) tk_Input es +
     tokens_where (\<lambda>e. price_of p (entry_model e) = None) tk_Output es"

definition unsplit_tokens :: "BehaviorEntry list \<Rightarrow> nat" where
  "unsplit_tokens = tokens_where (\<lambda>_. True) tk_Unsplit"

definition observed_total :: "BehaviorEntry list \<Rightarrow> nat" where
  "observed_total es = (\<Sum>e\<leftarrow>es. unat (tk_Observed (entry_tokens e)))"

definition unobserved_total :: "BehaviorEntry list \<Rightarrow> nat" where
  "unobserved_total es = (\<Sum>e\<leftarrow>es. unat (tk_Unobserved (entry_tokens e)))"

definition priced_tokens :: "Pricing \<Rightarrow> BehaviorEntry list \<Rightarrow> nat" where
  "priced_tokens p es = (\<Sum>m\<in>priced_models p es. model_tokens m tk_Input es + model_tokens m tk_Output es)"

definition cost_micros :: "Pricing \<Rightarrow> BehaviorEntry list \<Rightarrow> nat" where
  "cost_micros p es =
     (\<Sum>m\<in>priced_models p es.
        (model_tokens m tk_Input es * unat (mp_InputMicrosPerMillion (price_at p m)) +
         model_tokens m tk_Output es * unat (mp_OutputMicrosPerMillion (price_at p m))) div 1000000)"

text \<open>The accumulator holds the totals of the entries seen, and the bound under which it can.\<close>

definition cost_holds :: "Pricing \<Rightarrow> BehaviorEntry list \<Rightarrow> costSide \<Rightarrow> bool" where
  "cost_holds p es s \<longleftrightarrow>
     unat (cs_tokenObservations s) = observed_total es \<and> unat (cs_withoutTokens s) = unobserved_total es \<and>
     unat (cs_unsplit s) = unsplit_tokens es \<and> unat (cs_unpaid s) = unpaid_tokens p es \<and>
     fset (fmdom (cs_input s)) = priced_models p es \<and>
     (\<forall>m. price_of p m \<noteq> None \<longrightarrow> unat (fmget 0 (cs_input s) m) = model_tokens m tk_Input es) \<and>
     (\<forall>m. price_of p m \<noteq> None \<longrightarrow> unat (fmget 0 (cs_output s) m) = model_tokens m tk_Output es)"

definition cost_fits :: "Pricing \<Rightarrow> BehaviorEntry list \<Rightarrow> bool" where
  "cost_fits p es \<longleftrightarrow>
     observed_total es < 2 ^ 64 \<and> unobserved_total es < 2 ^ 64 \<and> unsplit_tokens es < 2 ^ 64 \<and> unpaid_tokens p es < 2 ^ 64 \<and>
     (\<forall>m. price_of p m \<noteq> None \<longrightarrow> model_tokens m tk_Input es < 2 ^ 64 \<and> model_tokens m tk_Output es < 2 ^ 64)"

lemmas cost_totals = observed_total_def unobserved_total_def unsplit_tokens_def unpaid_tokens_def model_tokens_def
  tokens_where_def

lemma cost_totals_append:
  "observed_total (es @ fs) = observed_total es + observed_total fs"
  "unobserved_total (es @ fs) = unobserved_total es + unobserved_total fs"
  "unsplit_tokens (es @ fs) = unsplit_tokens es + unsplit_tokens fs"
  "unpaid_tokens p (es @ fs) = unpaid_tokens p es + unpaid_tokens p fs"
  "model_tokens m f (es @ fs) = model_tokens m f es + model_tokens m f fs"
  "priced_models p (es @ fs) = priced_models p es \<union> priced_models p fs"
  by (auto simp: cost_totals priced_models_def)

lemma cost_fits_append: "cost_fits p (es @ fs) \<Longrightarrow> cost_fits p es"
  by (auto simp: cost_fits_def cost_totals_append)

lemma cost_holds_empty: "cost_holds p [] emptyCostSide"
  by (simp add: cost_holds_def emptyCostSide_def cost_totals priced_models_def fmget_def)

lemma cost_totals_single:
  "observed_total [e] = unat (tk_Observed (entry_tokens e))"
  "unobserved_total [e] = unat (tk_Unobserved (entry_tokens e))"
  "unsplit_tokens [e] = (if reports_tokens e then unat (tk_Unsplit (entry_tokens e)) else 0)"
  "unpaid_tokens p [e] =
     (if reports_tokens e \<and> price_of p (entry_model e) = None
      then unat (tk_Input (entry_tokens e)) + unat (tk_Output (entry_tokens e)) else 0)"
  "model_tokens m f [e] = (if reports_tokens e \<and> entry_model e = m then unat (f (entry_tokens e)) else 0)"
  "priced_models p [e] = (if reports_tokens e \<and> price_of p (entry_model e) \<noteq> None then {entry_model e} else {})"
  by (auto simp: cost_totals priced_models_def)

text \<open>The three ways an entry is folded in: no tokens, an unpriced model, a priced one.\<close>

lemma cost_entry_skip:
  "\<not> reports_tokens e \<Longrightarrow> cost_entry p e s =
     andThen (addCost (cs_tokenObservations s) (tk_Observed (entry_tokens e))) (\<lambda>n.
     andThen (addCost (cs_withoutTokens s) (tk_Unobserved (entry_tokens e))) (\<lambda>m.
       Inr (s\<lparr>cs_tokenObservations := n, cs_withoutTokens := m\<rparr>)))"
  by (simp add: cost_entry_def reports_tokens_def Let_def)

lemma cost_entry_unpriced:
  "reports_tokens e \<Longrightarrow> price_of p (entry_model e) = None \<Longrightarrow> cost_entry p e s =
     andThen (addCost (cs_tokenObservations s) (tk_Observed (entry_tokens e))) (\<lambda>n.
     andThen (addCost (cs_withoutTokens s) (tk_Unobserved (entry_tokens e))) (\<lambda>m.
     andThen (addCost (cs_unsplit s) (tk_Unsplit (entry_tokens e))) (\<lambda>u.
     andThen (addCost (cs_unpaid s) (tk_Input (entry_tokens e))) (\<lambda>v.
     andThen (addCost v (tk_Output (entry_tokens e))) (\<lambda>w.
       Inr (s\<lparr>cs_tokenObservations := n, cs_withoutTokens := m, cs_unsplit := u, cs_unpaid := w\<rparr>))))))"
  by (simp add: cost_entry_def reports_tokens_def Let_def cost_tokens_def)

lemma cost_entry_priced:
  "reports_tokens e \<Longrightarrow> price_of p (entry_model e) \<noteq> None \<Longrightarrow> cost_entry p e s =
     andThen (addCost (cs_tokenObservations s) (tk_Observed (entry_tokens e))) (\<lambda>n.
     andThen (addCost (cs_withoutTokens s) (tk_Unobserved (entry_tokens e))) (\<lambda>m.
     andThen (addCost (cs_unsplit s) (tk_Unsplit (entry_tokens e))) (\<lambda>u.
     andThen (addCost (fmget 0 (cs_input s) (entry_model e)) (tk_Input (entry_tokens e))) (\<lambda>i.
     andThen (addCost (fmget 0 (cs_output s) (entry_model e)) (tk_Output (entry_tokens e))) (\<lambda>out.
       Inr (s\<lparr>cs_tokenObservations := n, cs_withoutTokens := m, cs_unsplit := u,
              cs_input := fmupd (entry_model e) i (cs_input s), cs_output := fmupd (entry_model e) out (cs_output s)\<rparr>))))))"
  by (simp add: cost_entry_def reports_tokens_def Let_def cost_tokens_def del: not_None_eq)

lemma cost_entry_cases:
  obtains "\<not> reports_tokens e" | "reports_tokens e" "price_of p (entry_model e) = None"
  | "reports_tokens e" "price_of p (entry_model e) \<noteq> None"
  by blast

lemma cost_entry_Inr:
  assumes "cost_holds p es s" "cost_entry p e s = Inr s'" shows "cost_holds p (es @ [e]) s'"
proof (cases rule: cost_entry_cases [of e _ p])
  case 1
  then show ?thesis using assms
    by (auto simp: cost_entry_skip cost_counter.add_Inr cost_holds_def cost_totals_append cost_totals_single)
next
  case 2
  then show ?thesis using assms
    by (auto simp: cost_entry_unpriced cost_counter.add_Inr cost_holds_def cost_totals_append cost_totals_single)
next
  case 3
  then show ?thesis using assms
    by (auto simp: cost_entry_priced cost_counter.add_Inr cost_holds_def cost_totals_append cost_totals_single fmget_def)
qed

lemma andThen_refuses: "andThen x f = Inl err \<longleftrightarrow> x = Inl err \<or> (\<exists>a. x = Inr a \<and> f a = Inl err)"
  by (cases x) (auto simp: andThen_def)

lemma cost_entry_fits:
  assumes "cost_holds p es s" "cost_fits p (es @ [e])" shows "\<exists>s'. cost_entry p e s = Inr s'"
proof -
  have b: "unat (cs_tokenObservations s) + unat (tk_Observed (entry_tokens e)) < 2 ^ 64"
    "unat (cs_withoutTokens s) + unat (tk_Unobserved (entry_tokens e)) < 2 ^ 64"
    using assms unfolding cost_holds_def cost_fits_def cost_totals_append cost_totals_single by presburger+
  show ?thesis
  proof (cases rule: cost_entry_cases [of e _ p])
    case 1
    then show ?thesis using b by (simp add: cost_entry_skip cost_counter.add_ok)
  next
    case 2
    then have c: "unat (cs_unsplit s) + unat (tk_Unsplit (entry_tokens e)) < 2 ^ 64"
      "unat (cs_unpaid s) + unat (tk_Input (entry_tokens e)) + unat (tk_Output (entry_tokens e)) < 2 ^ 64"
      using assms unfolding cost_holds_def cost_fits_def cost_totals_append cost_totals_single by simp_all
    then have "unat (cs_unpaid s) + unat (tk_Input (entry_tokens e)) < 2 ^ 64" by simp
    then show ?thesis using 2 b c
      by (simp add: cost_entry_unpriced cost_counter.add_ok unat_plus_small del: power_numeral)
  next
    case 3
    then have "unat (cs_unsplit s) + unat (tk_Unsplit (entry_tokens e)) < 2 ^ 64"
      "unat (fmget 0 (cs_input s) (entry_model e)) + unat (tk_Input (entry_tokens e)) < 2 ^ 64"
      "unat (fmget 0 (cs_output s) (entry_model e)) + unat (tk_Output (entry_tokens e)) < 2 ^ 64"
      using assms unfolding cost_holds_def cost_fits_def cost_totals_append cost_totals_single
      by (auto dest!: spec [of _ "entry_model e"])
    then show ?thesis using 3 b by (simp add: cost_entry_priced cost_counter.add_ok del: power_numeral not_None_eq)
  qed
qed

lemma cost_entry_Inl:
  assumes "cost_holds p es s" "cost_entry p e s = Inl err" shows "\<not> cost_fits p (es @ [e])"
  using cost_entry_fits [OF assms(1)] assms(2) by fastforce

lemma cost_entries_Inr:
  "cost_holds p es s \<Longrightarrow> cost_entries p fs s = Inr s' \<Longrightarrow> cost_holds p (es @ fs) s'"
proof (induction fs arbitrary: es s)
  case (Cons f fs)
  then obtain t where t: "cost_entry p f s = Inr t" "cost_entries p fs t = Inr s'" by auto
  show ?case using Cons.IH [OF cost_entry_Inr [OF Cons.prems(1) t(1)] t(2)] by simp
qed simp

lemma cost_entries_Inl:
  "cost_holds p es s \<Longrightarrow> cost_entries p fs s = Inl err \<Longrightarrow> \<not> cost_fits p (es @ fs)"
proof (induction fs arbitrary: es s)
  case (Cons f fs)
  show ?case
  proof (cases "cost_entry p f s")
    case (Inl e')
    then show ?thesis using cost_entry_Inl [OF Cons.prems(1)] cost_fits_append [of p "es @ [f]" fs] by auto
  next
    case (Inr t)
    then have "cost_entries p fs t = Inl err" using Cons.prems(2) by (simp add: andThen_refuses)
    then show ?thesis using Cons.IH [OF cost_entry_Inr [OF Cons.prems(1) Inr]] by simp
  qed
qed simp

lemma cost_holds_runs [simp]: "cost_holds p es (s\<lparr>cs_runs := n\<rparr>) = cost_holds p es s"
  by (simp add: cost_holds_def)

definition runs_with_tokens :: "BehaviorEntry list list \<Rightarrow> BehaviorEntry list list" where
  "runs_with_tokens = filter (list_ex reports_tokens)"

lemma cost_addRun_split:
  "cost_addRun p r s = andThen (cost_entries p r s) (\<lambda>s'. Inr (if list_ex reports_tokens r then s'\<lparr>cs_runs := cs_runs s' + 1\<rparr> else s'))"
  by (simp add: cost_addRun_def reports_tokens_def [abs_def])

lemma cost_entry_runs: "cost_entry p e s = Inr s' \<Longrightarrow> cs_runs s' = cs_runs s"
  by (cases rule: cost_entry_cases [of e _ p]) (auto simp: cost_entry_skip cost_entry_unpriced cost_entry_priced)

lemma cost_entries_runs: "cost_entries p es s = Inr s' \<Longrightarrow> cs_runs s' = cs_runs s"
  by (induction es arbitrary: s) (auto dest: cost_entry_runs)

lemma cost_addRuns_Inr:
  "cost_holds p es s \<Longrightarrow> cost_addRuns p rs s = Inr s' \<Longrightarrow>
   cost_holds p (es @ concat rs) s' \<and> cs_runs s' = cs_runs s + of_nat (length (runs_with_tokens rs))"
proof (induction rs arbitrary: es s)
  case (Cons r rs)
  then obtain t where t: "cost_addRun p r s = Inr t" "cost_addRuns p rs t = Inr s'" by auto
  then obtain u where u: "cost_entries p r s = Inr u" "t = (if list_ex reports_tokens r then u\<lparr>cs_runs := cs_runs u + 1\<rparr> else u)"
    by (auto simp: cost_addRun_split)
  have "cost_holds p (es @ r) t" using cost_entries_Inr [OF Cons.prems(1) u(1)] u(2) by simp
  from Cons.IH [OF this t(2)] show ?case using cost_entries_runs [OF u(1)] u(2) by (simp add: runs_with_tokens_def)
qed (simp add: runs_with_tokens_def)

lemma cost_addRuns_Inl:
  "cost_holds p es s \<Longrightarrow> cost_addRuns p rs s = Inl err \<Longrightarrow> \<not> cost_fits p (es @ concat rs)"
proof (induction rs arbitrary: es s)
  case (Cons r rs)
  show ?case
  proof (cases "cost_entries p r s")
    case (Inl e')
    then show ?thesis using cost_entries_Inl [OF Cons.prems(1)] cost_fits_append [of p "es @ r" "concat rs"] by auto
  next
    case (Inr t)
    then have h: "cost_holds p (es @ r) t" by (rule cost_entries_Inr [OF Cons.prems(1)])
    have "cost_addRuns p rs (if list_ex reports_tokens r then t\<lparr>cs_runs := cs_runs t + 1\<rparr> else t) = Inl err"
      using Cons.prems(2) Inr by (simp add: cost_addRun_split andThen_refuses)
    then show ?thesis using Cons.IH [of "es @ r" "if list_ex reports_tokens r then t\<lparr>cs_runs := cs_runs t + 1\<rparr> else t"] h by simp
  qed
qed simp

subsection \<open>Pricing the side\<close>

lemma nat_word_exists: "k < 2 ^ 64 \<Longrightarrow> \<exists>w :: u64. unat w = k"
  by (intro exI [of _ "of_nat k"]) (simp add: unat_of_nat)

lemma modelCost_Inr:
  "modelCost i ip out op = Inr c \<longleftrightarrow> unat c = (unat i * unat ip + unat out * unat op) div 1000000"
proof -
  let ?t = "(unat i * unat ip + unat out * unat op) div 1000000"
  have "unat (of_nat ?t :: u64) = ?t" if "?t < 2 ^ 64" using that by (simp only: unat_of_nat) simp
  then show ?thesis using unat_less_2p64 [of c] unfolding modelCost_exact Let_def by (auto simp: word_unat_eq_iff)
qed

definition model_floor :: "Pricing \<Rightarrow> costSide \<Rightarrow> string \<Rightarrow> nat" where
  "model_floor p s m =
     (unat (fmget 0 (cs_input s) m) * unat (mp_InputMicrosPerMillion (price_at p m)) +
      unat (fmget 0 (cs_output s) m) * unat (mp_OutputMicrosPerMillion (price_at p m))) div 1000000"

definition model_sum :: "costSide \<Rightarrow> string \<Rightarrow> nat" where
  "model_sum s m = unat (fmget 0 (cs_input s) m) + unat (fmget 0 (cs_output s) m)"

lemma price_models_Cons:
  "price_models p s (m # ms) ev = Inr ev' \<longleftrightarrow>
     (\<exists>c t. unat c = unat (ce_CostMicros ev) + model_floor p s m \<and> unat t = unat (ce_PricedTokens ev) + model_sum s m \<and>
            price_models p s ms (ev\<lparr>ce_CostMicros := c, ce_PricedTokens := t\<rparr>) = Inr ev')" (is "?l \<longleftrightarrow> ?r")
proof
  assume ?l
  then obtain k c t1 t where "unat k = model_floor p s m" "unat c = unat (ce_CostMicros ev) + unat (k :: u64)"
    "unat t1 = unat (ce_PricedTokens ev) + unat (fmget 0 (cs_input s) m)"
    "unat t = unat (t1 :: u64) + unat (fmget 0 (cs_output s) m)"
    "price_models p s ms (ev\<lparr>ce_CostMicros := c, ce_PricedTokens := t\<rparr>) = Inr ev'"
    by (auto simp: Let_def cost_counter.add_Inr modelCost_Inr model_floor_def)
  then show ?r by (intro exI [of _ c] exI [of _ t]) (simp add: model_sum_def)
next
  assume ?r
  then obtain c t where ct: "unat c = unat (ce_CostMicros ev) + model_floor p s m"
    "unat t = unat (ce_PricedTokens ev) + model_sum s m"
    "price_models p s ms (ev\<lparr>ce_CostMicros := c, ce_PricedTokens := t\<rparr>) = Inr ev'" by blast
  have "model_floor p s m < 2 ^ 64" using ct(1) unat_less_2p64 [of c] by simp
  then obtain k :: u64 where k: "unat k = model_floor p s m" using nat_word_exists by blast
  obtain t1 :: u64 where t1: "unat t1 = unat (ce_PricedTokens ev) + unat (fmget 0 (cs_input s) m)"
    "unat t = unat t1 + unat (fmget 0 (cs_output s) m)"
    using ct(2) cost_counter.add_chain [of "ce_PricedTokens ev" "fmget 0 (cs_input s) m" t] by (auto simp: model_sum_def)
  have "modelCost (fmget 0 (cs_input s) m) (mp_InputMicrosPerMillion (price_at p m))
      (fmget 0 (cs_output s) m) (mp_OutputMicrosPerMillion (price_at p m)) = Inr k"
    using k by (simp add: modelCost_Inr model_floor_def)
  moreover have "addCost (ce_CostMicros ev) k = Inr c" "addCost (ce_PricedTokens ev) (fmget 0 (cs_input s) m) = Inr t1"
    "addCost t1 (fmget 0 (cs_output s) m) = Inr t"
    using k t1 ct(1) by (simp_all add: cost_counter.add_Inr)
  ultimately show ?l using ct(3) by (simp add: Let_def)
qed

lemma price_models_exact:
  "price_models p s ms ev = Inr ev' \<longleftrightarrow>
     (\<exists>c t. ev' = ev\<lparr>ce_CostMicros := c, ce_PricedTokens := t\<rparr> \<and>
        unat c = unat (ce_CostMicros ev) + (\<Sum>m\<leftarrow>ms. model_floor p s m) \<and>
        unat t = unat (ce_PricedTokens ev) + (\<Sum>m\<leftarrow>ms. model_sum s m))"
proof (induction ms arbitrary: ev)
  case Nil
  show ?case by (cases ev) (auto simp flip: word_unat_eq_iff)
next
  case (Cons m ms)
  show ?case (is "?l \<longleftrightarrow> ?r")
  proof
    assume ?l
    then obtain c t where "ev' = ev\<lparr>ce_CostMicros := c, ce_PricedTokens := t\<rparr>"
      "unat c = unat (ce_CostMicros ev) + model_floor p s m + (\<Sum>m\<leftarrow>ms. model_floor p s m)"
      "unat t = unat (ce_PricedTokens ev) + model_sum s m + (\<Sum>m\<leftarrow>ms. model_sum s m)"
      unfolding price_models_Cons Cons.IH by auto
    then show ?r by (intro exI [of _ c] exI [of _ t]) simp
  next
    assume ?r
    then obtain c t where ct: "ev' = ev\<lparr>ce_CostMicros := c, ce_PricedTokens := t\<rparr>"
      "unat c = unat (ce_CostMicros ev) + model_floor p s m + (\<Sum>m\<leftarrow>ms. model_floor p s m)"
      "unat t = unat (ce_PricedTokens ev) + model_sum s m + (\<Sum>m\<leftarrow>ms. model_sum s m)" by auto
    obtain c' t' :: u64 where "unat c' = unat (ce_CostMicros ev) + model_floor p s m"
      "unat t' = unat (ce_PricedTokens ev) + model_sum s m"
      using ct(2,3) unat_less_2p64 [of c] unat_less_2p64 [of t] nat_word_exists by (metis add_lessD1)
    then show ?l using ct unfolding price_models_Cons Cons.IH by fastforce
  qed
qed

text \<open>What a side's figures are: the documented sums, over all the runs of the side.\<close>

definition cost_figures :: "Pricing \<Rightarrow> BehaviorEntry list list \<Rightarrow> CostEvidence \<Rightarrow> bool" where
  "cost_figures p runs ev \<longleftrightarrow>
     ce_RunsWithEvidence ev = of_nat (length (runs_with_tokens runs)) \<and>
     unat (ce_TokenObservations ev) = observed_total (concat runs) \<and>
     unat (ce_ObservationsWithoutTokens ev) = unobserved_total (concat runs) \<and>
     unat (ce_UnpricedTokens ev) = unpaid_tokens p (concat runs) + unsplit_tokens (concat runs) \<and>
     unat (ce_PricedTokens ev) = priced_tokens p (concat runs) \<and>
     unat (ce_CostMicros ev) = cost_micros p (concat runs)"

definition side_cost :: "(string fset \<Rightarrow> string list) \<Rightarrow> Pricing \<Rightarrow> BehaviorEntry list list \<Rightarrow> platform_error + CostEvidence" where
  "side_cost order p runs = andThen (cost_addRuns p runs emptyCostSide) (\<lambda>s. costSide_evidence p order s)"

lemma price_of_priced: "m \<in> priced_models p es \<Longrightarrow> price_of p m \<noteq> None"
  by (auto simp: priced_models_def)

lemma finite_priced [simp]: "finite (priced_models p es)"
  by (simp add: priced_models_def)

lemma side_sums:
  assumes "cost_holds p es s" "distinct ms" "set ms = fset (fmdom (cs_input s))"
  shows "(\<Sum>m\<leftarrow>ms. model_floor p s m) = cost_micros p es" "(\<Sum>m\<leftarrow>ms. model_sum s m) = priced_tokens p es"
proof -
  have ms: "set ms = priced_models p es" using assms(1,3) by (simp add: cost_holds_def)
  have v: "unat (fmget 0 (cs_input s) m) = model_tokens m tk_Input es" "unat (fmget 0 (cs_output s) m) = model_tokens m tk_Output es"
    if "m \<in> priced_models p es" for m
    using assms(1) price_of_priced [OF that] by (auto simp: cost_holds_def)
  show "(\<Sum>m\<leftarrow>ms. model_floor p s m) = cost_micros p es" "(\<Sum>m\<leftarrow>ms. model_sum s m) = priced_tokens p es"
    using assms(2) v by (auto simp: sum_list_distinct_conv_sum_set ms cost_micros_def priced_tokens_def model_floor_def
        model_sum_def intro!: sum.cong)
qed

lemma model_tokens_le:
  assumes "m \<in> priced_models p es"
  shows "model_tokens m tk_Input es \<le> priced_tokens p es" "model_tokens m tk_Output es \<le> priced_tokens p es"
  using member_le_sum [of m "priced_models p es" "\<lambda>m. model_tokens m tk_Input es + model_tokens m tk_Output es"] assms
  by (simp_all add: priced_tokens_def)

lemma model_tokens_unused: "price_of p m \<noteq> None \<Longrightarrow> m \<notin> priced_models p es \<Longrightarrow> model_tokens m f es = 0"
  by (auto simp: model_tokens_def tokens_where_def priced_models_def image_iff)

lemma figures_fit: "cost_figures p runs ev \<Longrightarrow> cost_fits p (concat runs)"
proof -
  assume f: "cost_figures p runs ev"
  have "model_tokens m tk_Input (concat runs) \<le> priced_tokens p (concat runs) \<and>
      model_tokens m tk_Output (concat runs) \<le> priced_tokens p (concat runs)" if "price_of p m \<noteq> None" for m
    using model_tokens_le [of m p "concat runs"] model_tokens_unused [OF that, of "concat runs"]
    by (cases "m \<in> priced_models p (concat runs)") auto
  moreover have "priced_tokens p (concat runs) < 2 ^ 64" "observed_total (concat runs) < 2 ^ 64"
    "unobserved_total (concat runs) < 2 ^ 64" "unpaid_tokens p (concat runs) + unsplit_tokens (concat runs) < 2 ^ 64"
    using f unat_less_2p64 unfolding cost_figures_def by metis+
  ultimately show ?thesis unfolding cost_fits_def by (meson add_lessD1 le_less_trans trans_less_add2 add.commute le_add2)
qed

lemma costSide_evidence_exact:
  assumes "cost_holds p (concat runs) s" "cs_runs s = of_nat (length (runs_with_tokens runs))" "enumerates order"
  shows "costSide_evidence p order s = Inr ev \<longleftrightarrow> cost_figures p runs ev"
proof -
  have o: "distinct (order (fmdom (cs_input s)))" "set (order (fmdom (cs_input s))) = fset (fmdom (cs_input s))" using assms(3) by (auto simp: enumerates_def)
  show ?thesis
    using assms(1,2) unfolding costSide_evidence_def andThen_Inr cost_counter.add_Inr price_models_exact side_sums [OF assms(1) o]
    by (cases ev) (auto simp: cost_figures_def cost_holds_def word_unat_eq_iff)
qed

lemma side_cost_exact: "enumerates order \<Longrightarrow> side_cost order p runs = Inr ev \<longleftrightarrow> cost_figures p runs ev"
proof -
  assume i: "enumerates order"
  show ?thesis
  proof (cases "cost_addRuns p runs emptyCostSide")
    case (Inl e)
    then have "\<not> cost_fits p (concat runs)" using cost_addRuns_Inl [OF cost_holds_empty Inl] by simp
    then show ?thesis using Inl figures_fit [of p runs ev] by (auto simp: side_cost_def)
  next
    case (Inr s)
    note h = cost_addRuns_Inr [OF cost_holds_empty Inr]
    then have "cs_runs s = of_nat (length (runs_with_tokens runs))" by (simp add: emptyCostSide_def)
    with h costSide_evidence_exact [OF _ this i] Inr show ?thesis by (simp add: side_cost_def)
  qed
qed

lemma compareCost_sides:
  "compareCost order p reference candidate = Inr (Some c) \<longleftrightarrow> Configured p \<and>
     side_cost order p reference = Inr (cc_Reference c) \<and> side_cost order p candidate = Inr (cc_Candidate c) \<and>
     c = \<lparr>cc_PricingVersion = pr_version p, cc_PricingDigest = pr_digest p, cc_Source = pr_source p,
          cc_Currency = pr_currency p, cc_Reference = cc_Reference c, cc_Candidate = cc_Candidate c,
          cc_Unavailable = unavailability (CostEvidence_Available (cc_Reference c)) (CostEvidence_Available (cc_Candidate c))\<rparr>"
  by (cases c) (auto simp: compareCost_def side_cost_def)

lemma sum_list_perm: "mset xs = mset ys \<Longrightarrow> (\<Sum>x\<leftarrow>xs. f x :: 'b :: comm_monoid_add) = (\<Sum>x\<leftarrow>ys. f x)"
  by (metis mset_map sum_mset_sum_list)

lemma cost_totals_perm:
  assumes "mset es = mset fs"
  shows "observed_total es = observed_total fs" "unobserved_total es = unobserved_total fs"
    "tokens_where P g es = tokens_where P g fs" "priced_models p es = priced_models p fs"
  unfolding observed_total_def unobserved_total_def tokens_where_def priced_models_def
  using assms by (simp_all only: sum_list_perm [OF assms] mset_eq_setD [OF assms])

lemma cost_figures_perm:
  assumes "mset runs = mset runs'" shows "cost_figures p runs = cost_figures p runs'"
proof -
  have "mset (concat runs) = mset (concat runs')" using sum_list_perm [OF assms, of mset] by (simp add: mset_concat)
  note t = cost_totals_perm [OF this]
  have "length (runs_with_tokens runs) = length (runs_with_tokens runs')"
    using assms unfolding runs_with_tokens_def by (metis mset_filter size_mset)
  then show ?thesis
    unfolding cost_figures_def fun_eq_iff unpaid_tokens_def unsplit_tokens_def priced_tokens_def cost_micros_def model_tokens_def
    by (simp add: t)
qed

lemma addCost_error: "addCost w n = Inl err \<Longrightarrow> err = ErrCostOverflow"
  by (auto simp: addCost_def split: if_splits)

lemma cost_entry_error: "cost_entry p e s = Inl err \<Longrightarrow> err = ErrCostOverflow"
  by (cases rule: cost_entry_cases [of e _ p])
    (auto simp: cost_entry_skip cost_entry_unpriced cost_entry_priced andThen_refuses dest: addCost_error)

lemma cost_entries_error: "cost_entries p es s = Inl err \<Longrightarrow> err = ErrCostOverflow"
  by (induction es arbitrary: s) (auto simp: andThen_refuses dest: cost_entry_error)

lemma cost_addRuns_error: "cost_addRuns p rs s = Inl err \<Longrightarrow> err = ErrCostOverflow"
  by (induction rs arbitrary: s) (auto simp: andThen_refuses cost_addRun_def dest: cost_entries_error)

lemma modelCost_error: "modelCost i ip out op = Inl err \<Longrightarrow> err = ErrCostOverflow"
  by (auto simp: modelCost_exact Let_def split: if_splits)

lemma price_models_error: "price_models p s ms ev = Inl err \<Longrightarrow> err = ErrCostOverflow"
  by (induction ms arbitrary: ev) (auto simp: Let_def andThen_refuses dest: addCost_error modelCost_error)

lemma side_cost_error: "side_cost order p runs = Inl err \<Longrightarrow> err = ErrCostOverflow"
  by (auto simp: side_cost_def costSide_evidence_def andThen_refuses dest: cost_addRuns_error addCost_error price_models_error)

lemma compareCost_by_sides:
  "compareCost order p reference candidate =
     (if \<not> Configured p then Inr None
      else case (side_cost order p reference, side_cost order p candidate) of
        (Inr r, Inr c) \<Rightarrow> Inr (Some \<lparr>cc_PricingVersion = pr_version p, cc_PricingDigest = pr_digest p, cc_Source = pr_source p,
          cc_Currency = pr_currency p, cc_Reference = r, cc_Candidate = c,
          cc_Unavailable = unavailability (CostEvidence_Available r) (CostEvidence_Available c)\<rparr>)
      | _ \<Rightarrow> Inl ErrCostOverflow)"
proof -
  have "compareCost order p reference candidate = Inl ErrCostOverflow"
    if "compareCost order p reference candidate = Inl err" for err
    using that by (auto simp: compareCost_def costSide_evidence_def andThen_refuses dest: cost_addRuns_error addCost_error price_models_error
        split: if_splits)
  then show ?thesis
    by (auto simp: compareCost_def side_cost_def andThen_def split: sum.splits)
qed

lemma side_cost_perm:
  assumes "enumerates order" "enumerates order'" "mset runs = mset runs'"
  shows "side_cost order p runs = side_cost order' p runs'"
proof (cases "side_cost order' p runs'")
  case (Inr ev)
  then have "cost_figures p runs ev"
    unfolding side_cost_exact [OF assms(2)] cost_figures_perm [OF assms(3)] .
  then have "side_cost order p runs = Inr ev" unfolding side_cost_exact [OF assms(1)] .
  then show ?thesis using Inr by simp
next
  case (Inl err)
  then have "\<not> cost_figures p runs' ev" for ev using side_cost_exact [OF assms(2), of p runs' ev] by simp
  then have "side_cost order p runs \<noteq> Inr ev" for ev
    using side_cost_exact [OF assms(1)] cost_figures_perm [OF assms(3)] by simp
  then obtain err' where "side_cost order p runs = Inl err'" by (cases "side_cost order p runs") auto
  then show ?thesis using Inl side_cost_error by metis
qed

text \<open>C30. A cost section is reported exactly when a table is configured and every reported total of both sides
  fits 64 bits; then each side's cost is the documented formula, the sum over the priced models of
  floor((input x input price + output x output price) / 1000000) with the tokens summed per model first, its priced, unpriced
  and coverage totals are the exact sums over all runs, and the table's version, digest, source and currency come with it.\<close>

theorem cost_exact:
  assumes "enumerates order"
  shows "compareCost order p reference candidate = Inr (Some c) \<longleftrightarrow>
     Configured p \<and> cost_figures p reference (cc_Reference c) \<and> cost_figures p candidate (cc_Candidate c) \<and>
     cc_PricingVersion c = pr_version p \<and> cc_PricingDigest c = pr_digest p \<and> cc_Source c = pr_source p \<and>
     cc_Currency c = pr_currency p \<and>
     cc_Unavailable c = unavailability (CostEvidence_Available (cc_Reference c)) (CostEvidence_Available (cc_Candidate c))"
  unfolding compareCost_sides side_cost_exact [OF assms] by (cases c) auto

text \<open>The cost section, a refusal included, depends neither on the order of a side's runs nor
  on the order in which the model map is iterated.\<close>

theorem cost_order_independent:
  assumes "enumerates order" "enumerates order'" "mset reference = mset reference'" "mset candidate = mset candidate'"
  shows "compareCost order p reference candidate = compareCost order' p reference' candidate'"
  unfolding compareCost_by_sides side_cost_perm [OF assms(1,2,3)] side_cost_perm [OF assms(1,2,4)] ..


end
