(* ===== verification/Platform_Frequency.thy ===== *)
theory Platform_Frequency
  imports Platform_Cost "HOL-Library.Product_Lexorder"
begin

text \<open>
  How often a behaviour or a target is called, per side of a repeated comparison
  (\<^verbatim>\<open>platform/frequency.go\<close>). Every completed run is folded into one accumulator per
  behaviour, per target and per target name; a run without the key is a run of no calls. The theorems
  are that the reported totals, minima, maxima and means are those of the lists of per-run call
  counts, computed in natural numbers, and that the figures of a side do not depend on the order of
  its runs. The order in which Go iterates a map is an argument.
\<close>

definition LostTransitionsNotRecorded :: string where "LostTransitionsNotRecorded = ''not_recorded''"

record FrequencyStats =
  fq_Runs :: u64
  fq_CallsTotal :: u64
  fq_CallsPerRunMin :: u64
  fq_CallsPerRunMax :: u64
  fq_CallsPerRunMeanMilli :: u64

definition zeroFrequency :: FrequencyStats where
  "zeroFrequency = \<lparr>fq_Runs = 0, fq_CallsTotal = 0, fq_CallsPerRunMin = 0, fq_CallsPerRunMax = 0, fq_CallsPerRunMeanMilli = 0\<rparr>"

definition FrequencyStats_Available :: "FrequencyStats \<Rightarrow> bool" where
  "FrequencyStats_Available s = (0 < fq_Runs s)"

record frequencyAccumulator =
  fa_total :: u64
  fa_max :: u64
  fa_minPresent :: u64
  fa_presentRuns :: u64

definition emptyAccumulator :: frequencyAccumulator where
  "emptyAccumulator = \<lparr>fa_total = 0, fa_max = 0, fa_minPresent = 0, fa_presentRuns = 0\<rparr>"

definition addCalls :: "u64 \<Rightarrow> u64 \<Rightarrow> platform_error + u64" where
  "addCalls field n = (if MaxUint64 - n < field then Inl ErrFrequencyOverflow else Inr (field + n))"

definition acc_addRun :: "frequencyAccumulator \<Rightarrow> u64 \<Rightarrow> platform_error + frequencyAccumulator" where
  "acc_addRun a calls =
     andThen (addCalls (fa_total a) calls) (\<lambda>t.
       Inr \<lparr>fa_total = t, fa_max = max (fa_max a) calls,
            fa_minPresent = (if fa_presentRuns a = 0 \<or> calls < fa_minPresent a then calls else fa_minPresent a),
            fa_presentRuns = fa_presentRuns a + 1\<rparr>)"

definition floorDivTimes1000 :: "u64 \<Rightarrow> u64 \<Rightarrow> platform_error + u64" where
  "floorDivTimes1000 n d =
     (let (hi, lo) = Mul64 n 1000 in
      if d \<le> hi then Inl ErrFrequencyOverflow else Inr (Div64 hi lo d))"

definition acc_stats :: "frequencyAccumulator \<Rightarrow> u64 \<Rightarrow> platform_error + FrequencyStats" where
  "acc_stats a runs =
     (if runs = 0 then Inr zeroFrequency
      else andThen (floorDivTimes1000 (fa_total a) runs) (\<lambda>mean.
        Inr \<lparr>fq_Runs = runs, fq_CallsTotal = fa_total a,
             fq_CallsPerRunMin = (if fa_presentRuns a < runs then 0 else fa_minPresent a),
             fq_CallsPerRunMax = fa_max a, fq_CallsPerRunMeanMilli = mean\<rparr>))"

record OperationalTarget =
  ot_Name :: string
  ot_Category :: string

record RepeatedTargetFrequency =
  rt_Target :: OperationalTarget
  rt_Reference :: FrequencyStats
  rt_Candidate :: FrequencyStats
  rt_CallRatioPermille :: u64
  rt_RatioAvailable :: bool
  rt_CandidateHTTP429 :: u64
  rt_CandidateHTTPStated :: u64

record frequencySide =
  fd_runs :: u64
  fd_behaviors :: "(string, frequencyAccumulator) fmap"
  fd_targets :: "(OperationalTarget, frequencyAccumulator) fmap"
  fd_byName :: "(string, frequencyAccumulator) fmap"
  fd_http429 :: "(OperationalTarget, u64) fmap"
  fd_httpSaid :: "(OperationalTarget, u64) fmap"

definition newFrequencySide :: frequencySide where
  "newFrequencySide = \<lparr>fd_runs = 0, fd_behaviors = fmempty, fd_targets = fmempty, fd_byName = fmempty,
     fd_http429 = fmempty, fd_httpSaid = fmempty\<rparr>"

text \<open>The accumulator of a key, created on its first use, takes one run's calls.\<close>

definition bump :: "'k \<Rightarrow> u64 \<Rightarrow> ('k, frequencyAccumulator) fmap \<Rightarrow> platform_error + ('k, frequencyAccumulator) fmap" where
  "bump k calls m = andThen (acc_addRun (fmget emptyAccumulator m k) calls) (\<lambda>a. Inr (fmupd k a m))"

definition add_into :: "'k \<Rightarrow> u64 \<Rightarrow> ('k, u64) fmap \<Rightarrow> platform_error + ('k, u64) fmap" where
  "add_into k n m = andThen (addCalls (fmget 0 m k) n) (\<lambda>v. Inr (fmupd k v m))"

definition entry_target :: "BehaviorEntry \<Rightarrow> OperationalTarget" where
  "entry_target e = \<lparr>ot_Name = sf_TargetName (be_Behavior e), ot_Category = sf_TargetCategory (be_Behavior e)\<rparr>"

definition freq_entry ::
  "BehaviorEntry \<Rightarrow> frequencySide \<times> (OperationalTarget, u64) fmap \<Rightarrow> platform_error + frequencySide \<times> (OperationalTarget, u64) fmap" where
  "freq_entry e = (\<lambda>(s, perTarget).
     if be_Observations e = 0 then Inr (s, perTarget)
     else let t = entry_target e in
       andThen (bump (be_FingerprintID e) (be_Observations e) (fd_behaviors s)) (\<lambda>behaviors.
       andThen (add_into t (be_Observations e) perTarget) (\<lambda>perTarget'.
       andThen (add_into t (os_HTTP429 (be_Operational e)) (fd_http429 s)) (\<lambda>h429.
       andThen (add_into t (HTTPStatusClassCounts_Stated (os_HTTPStatus (be_Operational e))) (fd_httpSaid s)) (\<lambda>said.
         Inr (s\<lparr>fd_behaviors := behaviors, fd_http429 := h429, fd_httpSaid := said\<rparr>, perTarget'))))))"

fun freq_entries ::
  "BehaviorEntry list \<Rightarrow> frequencySide \<times> (OperationalTarget, u64) fmap \<Rightarrow> platform_error + frequencySide \<times> (OperationalTarget, u64) fmap" where
  "freq_entries [] st = Inr st"
| "freq_entries (e # es) st = andThen (freq_entry e st) (freq_entries es)"

fun freq_targets ::
  "(OperationalTarget, u64) fmap \<Rightarrow> OperationalTarget list \<Rightarrow>
   (OperationalTarget, frequencyAccumulator) fmap \<times> (string, u64) fmap \<Rightarrow>
   platform_error + (OperationalTarget, frequencyAccumulator) fmap \<times> (string, u64) fmap" where
  "freq_targets perTarget [] st = Inr st"
| "freq_targets perTarget (t # ts) (targets, perName) =
     andThen (bump t (fmget 0 perTarget t) targets) (\<lambda>targets'.
     andThen (add_into (ot_Name t) (fmget 0 perTarget t) perName) (\<lambda>perName'.
       freq_targets perTarget ts (targets', perName')))"

fun freq_names ::
  "(string, u64) fmap \<Rightarrow> string list \<Rightarrow> (string, frequencyAccumulator) fmap \<Rightarrow> platform_error + (string, frequencyAccumulator) fmap" where
  "freq_names perName [] m = Inr m"
| "freq_names perName (n # ns) m = andThen (bump n (fmget 0 perName n) m) (freq_names perName ns)"

text \<open>The two map iterations of \<open>addRun\<close>.\<close>

record map_orders =
  mo_target :: "OperationalTarget fset \<Rightarrow> OperationalTarget list"
  mo_string :: "string fset \<Rightarrow> string list"

definition enumerating :: "map_orders \<Rightarrow> bool" where
  "enumerating ord \<longleftrightarrow> enumerates (mo_target ord) \<and> enumerates (mo_string ord)"

definition freq_addRun :: "map_orders \<Rightarrow> BehaviorEntry list \<Rightarrow> frequencySide \<Rightarrow> platform_error + frequencySide" where
  "freq_addRun ord entries s =
     andThen (freq_entries entries (s\<lparr>fd_runs := fd_runs s + 1\<rparr>, fmempty)) (\<lambda>(s', perTarget).
     andThen (freq_targets perTarget (mo_target ord (fmdom perTarget)) (fd_targets s', fmempty)) (\<lambda>(targets, perName).
     andThen (freq_names perName (mo_string ord (fmdom perName)) (fd_byName s')) (\<lambda>byName.
       Inr (s'\<lparr>fd_targets := targets, fd_byName := byName\<rparr>))))"

definition behaviorStats :: "frequencySide \<Rightarrow> string \<Rightarrow> platform_error + FrequencyStats" where
  "behaviorStats s fingerprint = acc_stats (fmget emptyAccumulator (fd_behaviors s) fingerprint) (fd_runs s)"

definition targetStats :: "frequencySide \<Rightarrow> OperationalTarget \<Rightarrow> platform_error + FrequencyStats" where
  "targetStats s t = acc_stats (fmget emptyAccumulator (fd_targets s) t) (fd_runs s)"

definition target_row :: "frequencySide \<Rightarrow> frequencySide \<Rightarrow> OperationalTarget \<Rightarrow> platform_error + RepeatedTargetFrequency" where
  "target_row reference candidate t =
     andThen (targetStats reference t) (\<lambda>ref.
     andThen (targetStats candidate t) (\<lambda>cand.
       let row = \<lparr>rt_Target = t, rt_Reference = ref, rt_Candidate = cand, rt_CallRatioPermille = 0, rt_RatioAvailable = False,
                  rt_CandidateHTTP429 = fmget 0 (fd_http429 candidate) t, rt_CandidateHTTPStated = fmget 0 (fd_httpSaid candidate) t\<rparr>
       in if 0 < fq_CallsTotal ref
          then andThen (floorDivTimes1000 (fq_CallsTotal cand) (fq_CallsTotal ref)) (\<lambda>ratio.
                 Inr (row\<lparr>rt_CallRatioPermille := ratio, rt_RatioAvailable := True\<rparr>))
          else Inr row))"

fun target_rows :: "frequencySide \<Rightarrow> frequencySide \<Rightarrow> OperationalTarget list \<Rightarrow> platform_error + RepeatedTargetFrequency list" where
  "target_rows reference candidate [] = Inr []"
| "target_rows reference candidate (t # ts) =
     andThen (target_row reference candidate t) (\<lambda>row.
     andThen (target_rows reference candidate ts) (\<lambda>rows. Inr (row # rows)))"

definition targetFrequencies :: "map_orders \<Rightarrow> frequencySide \<Rightarrow> frequencySide \<Rightarrow> platform_error + RepeatedTargetFrequency list" where
  "targetFrequencies ord reference candidate =
     (let keys = mo_target ord (fmdom (fd_targets reference)) @
                 filter (\<lambda>t. fmlookup (fd_targets reference) t = None) (mo_target ord (fmdom (fd_targets candidate)))
      in target_rows reference candidate (sort_key (\<lambda>t. (ot_Category t, ot_Name t)) keys))"

definition isLost :: "u64 \<Rightarrow> u64 \<Rightarrow> u64 \<Rightarrow> bool" where
  "isLost referencePresent candidatePresent runs = (0 < runs \<and> referencePresent = runs \<and> candidatePresent < runs)"

subsection \<open>The quotient and the accumulator are exact\<close>

interpretation frequency_counter: checked_counter addCalls
proof
  fix w n v :: u64
  show "addCalls w n = Inr v \<longleftrightarrow> unat v = unat w + unat n"
    using unat_less_2p64 [of v] unat_plus_small [of w n]
    by (auto simp: addCalls_def Max_minus_less add.commute word_unat_eq_iff)
qed

lemma floorDivTimes1000_exact:
  assumes "d \<noteq> 0"
  shows "floorDivTimes1000 n d = Inr q \<longleftrightarrow> unat q = unat n * 1000 div unat d"
proof -
  obtain hi lo where m: "Mul64 n 1000 = (hi, lo)" by force
  have n: "unat hi * 2 ^ 64 + unat lo = unat n * 1000" using Mul64_exact [OF m] by simp
  have d: "0 < unat d" using assms by (simp add: unat_gt_0)
  have "hi < d \<longleftrightarrow> unat n * 1000 < unat d * 2 ^ 64"
    using n unat_less_2p64 [of lo] unfolding word_less_nat_alt
    by (smt (verit) add_less_cancel_left less_or_eq_imp_le linorder_not_less mult_Suc mult_le_mono1 Suc_leI add.commute le_less_trans trans_less_add1)
  then have "hi < d \<longleftrightarrow> unat n * 1000 div unat d < 2 ^ 64"
    using d by (simp add: div_less_iff_less_mult mult.commute)
  moreover have "floorDivTimes1000 n d =
      (if hi < d then Inr (of_nat (unat n * 1000 div unat d)) else Inl ErrFrequencyOverflow)"
    unfolding floorDivTimes1000_def m Let_def prod.case Div64_def n by auto
  ultimately show ?thesis
    using unat_less_2p64 [of q] by (auto simp: word_unat_eq_iff unat_of_nat)
qed

definition acc_rep :: "frequencyAccumulator \<Rightarrow> nat list \<Rightarrow> bool" where
  "acc_rep a cs \<longleftrightarrow> length cs < 2 ^ 64 \<and> unat (fa_total a) = sum_list cs \<and> unat (fa_max a) = Max (insert 0 (set cs)) \<and>
     unat (fa_presentRuns a) = length cs \<and> (cs \<noteq> [] \<longrightarrow> unat (fa_minPresent a) = Min (set cs))"

lemma acc_rep_empty: "acc_rep emptyAccumulator []"
  by (simp add: acc_rep_def emptyAccumulator_def)

lemma Max_snoc: "Max (insert 0 (set (cs @ [c]))) = max (Max (insert 0 (set cs))) (c :: nat)"
proof -
  have "insert 0 (set (cs @ [c])) = insert c (insert 0 (set cs))" by auto
  then show ?thesis by (simp add: max.commute)
qed

lemma unat_max: "unat (max x y :: u64) = max (unat x) (unat y)"
  by (simp add: max_def word_le_nat_alt)

lemma acc_addRun_rep:
  assumes "acc_rep a cs" "acc_addRun a c = Inr a'" "length cs + 1 < 2 ^ 64"
  shows "acc_rep a' (cs @ [unat c])"
proof -
  have t: "unat (fa_total a') = unat (fa_total a) + unat c" "fa_max a' = max (fa_max a) c"
    "fa_minPresent a' = (if fa_presentRuns a = 0 \<or> c < fa_minPresent a then c else fa_minPresent a)"
    "fa_presentRuns a' = fa_presentRuns a + 1"
    using assms(2) by (auto simp: acc_addRun_def frequency_counter.add_Inr)
  have "unat (fa_presentRuns a') = length cs + 1"
    using t(4) assms(1,3) by (simp add: acc_rep_def unat_inc64)
  moreover have "unat (fa_max a') = Max (insert 0 (set (cs @ [unat c])))"
    using assms(1) unfolding Max_snoc t(2) unat_max by (simp add: acc_rep_def)
  moreover have "unat (fa_minPresent a') = Min (set (cs @ [unat c]))"
  proof (cases "cs = []")
    case False
    then have "fa_presentRuns a \<noteq> 0" "unat (fa_minPresent a) = Min (set cs)" using assms(1) by (auto simp: acc_rep_def)
    moreover have "Min (set (cs @ [unat c])) = min (Min (set cs)) (unat c)" using False by (simp add: min.commute)
    ultimately show ?thesis using t(3) by (simp add: word_less_nat_alt min_def)
  qed (use t(3) assms(1) in \<open>simp add: acc_rep_def unat_eq_0\<close>)
  ultimately show ?thesis using t(1) assms(1,3) by (simp add: acc_rep_def)
qed

subsection \<open>Folding runs\<close>

text \<open>Calls in one run to whatever a predicate selects, and the accumulators of a map of keys as those of the lists of per-run
  calls.\<close>

definition calls :: "(BehaviorEntry \<Rightarrow> bool) \<Rightarrow> BehaviorEntry list \<Rightarrow> nat" where
  "calls P es = (\<Sum>e\<leftarrow>es. if P e then unat (be_Observations e) else 0)"

definition present_calls :: "(BehaviorEntry \<Rightarrow> bool) \<Rightarrow> BehaviorEntry list list \<Rightarrow> nat list" where
  "present_calls P runs = filter (\<lambda>c. c \<noteq> 0) (map (calls P) runs)"

definition key_rep :: "('k, frequencyAccumulator) fmap \<Rightarrow> ('k \<Rightarrow> BehaviorEntry \<Rightarrow> bool) \<Rightarrow> BehaviorEntry list list \<Rightarrow> bool" where
  "key_rep m K runs \<longleftrightarrow>
     (\<forall>k. acc_rep (fmget emptyAccumulator m k) (present_calls (K k) runs) \<and>
          (k |\<in>| fmdom m \<longleftrightarrow> present_calls (K k) runs \<noteq> []))"

lemma key_rep_empty: "key_rep fmempty K []"
  by (simp add: key_rep_def present_calls_def acc_rep_empty fmget_def)

lemma present_calls_snoc:
  "present_calls P (runs @ [r]) = present_calls P runs @ (if calls P r = 0 then [] else [calls P r])"
  by (simp add: present_calls_def)

lemma present_calls_length: "length (present_calls P runs) \<le> length runs"
  by (simp add: present_calls_def order_trans [OF length_filter_le])

fun bumps :: "('k \<times> u64) list \<Rightarrow> ('k, frequencyAccumulator) fmap \<Rightarrow> platform_error + ('k, frequencyAccumulator) fmap" where
  "bumps [] m = Inr m"
| "bumps (kc # kcs) m = andThen (bump (fst kc) (snd kc) m) (bumps kcs)"

lemma bump_Inr:
  "bump k c m = Inr m' \<longleftrightarrow> (\<exists>a. acc_addRun (fmget emptyAccumulator m k) c = Inr a \<and> m' = fmupd k a m)"
  by (auto simp: bump_def)

lemma bumps_Inr:
  "bumps kcs m = Inr m' \<Longrightarrow> distinct (map fst kcs) \<Longrightarrow>
   (\<forall>k. k \<notin> fst ` set kcs \<longrightarrow> fmget emptyAccumulator m' k = fmget emptyAccumulator m k \<and> (k |\<in>| fmdom m' \<longleftrightarrow> k |\<in>| fmdom m)) \<and>
   (\<forall>(k, c) \<in> set kcs. k |\<in>| fmdom m' \<and> acc_addRun (fmget emptyAccumulator m k) c = Inr (fmget emptyAccumulator m' k))"
proof (induction kcs arbitrary: m)
  case (Cons kc kcs)
  obtain k c where kc: "kc = (k, c)" by force
  obtain a where a: "acc_addRun (fmget emptyAccumulator m k) c = Inr a" "bumps kcs (fmupd k a m) = Inr m'"
    using Cons.prems(1) by (auto simp: kc bump_Inr)
  have nk: "k \<notin> fst ` set kcs" and d: "distinct (map fst kcs)" using Cons.prems(2) by (auto simp: kc)
  note IH = Cons.IH [OF a(2) d]
  have "acc_addRun (fmget emptyAccumulator m k') c' = Inr (fmget emptyAccumulator m' k') \<and> k' |\<in>| fmdom m'"
    if "(k', c') \<in> set kcs" for k' c'
  proof -
    have "k' \<noteq> k" using nk that by force
    then show ?thesis using IH that by fastforce
  qed
  then show ?case using IH nk a(1) by (auto simp: kc)
qed simp

lemma bumps_rep:
  assumes "key_rep m K runs" "bumps kcs m = Inr m'" "distinct (map fst kcs)" "length runs + 1 < 2 ^ 64"
    and in_run: "\<And>k c. (k, c) \<in> set kcs \<Longrightarrow> unat c = calls (K k) r \<and> c \<noteq> 0"
    and out_run: "\<And>k. k \<notin> fst ` set kcs \<Longrightarrow> calls (K k) r = 0"
  shows "key_rep m' K (runs @ [r])"
  unfolding key_rep_def
proof
  fix k
  note b = bumps_Inr [OF assms(2,3)]
  show "acc_rep (fmget emptyAccumulator m' k) (present_calls (K k) (runs @ [r])) \<and>
      (k |\<in>| fmdom m' \<longleftrightarrow> present_calls (K k) (runs @ [r]) \<noteq> [])"
  proof (cases "k \<in> fst ` set kcs")
    case False
    then show ?thesis using b assms(1) out_run [OF False] by (simp add: key_rep_def present_calls_snoc)
  next
    case True
    then obtain c where c: "(k, c) \<in> set kcs" by force
    have l: "length (present_calls (K k) runs) + 1 < 2 ^ 64"
      using present_calls_length [of "K k" runs] assms(4) by simp
    have "acc_rep (fmget emptyAccumulator m' k) (present_calls (K k) runs @ [unat c])"
      using assms(1) b c l by (intro acc_addRun_rep [where a = "fmget emptyAccumulator m k"]) (auto simp: key_rep_def)
    moreover have "k |\<in>| fmdom m'" using b c by fastforce
    moreover have "calls (K k) r \<noteq> 0" using in_run [OF c] by (simp add: unat_eq_0 [symmetric])
    ultimately show ?thesis using in_run [OF c] by (simp add: present_calls_snoc)
  qed
qed

fun adds :: "('k \<times> u64) list \<Rightarrow> ('k, u64) fmap \<Rightarrow> platform_error + ('k, u64) fmap" where
  "adds [] m = Inr m"
| "adds (kc # kcs) m = andThen (add_into (fst kc) (snd kc) m) (adds kcs)"

lemma adds_Inr:
  "adds kcs m = Inr m' \<Longrightarrow>
   unat (fmget 0 m' k) = unat (fmget 0 m k) + (\<Sum>(k', c)\<leftarrow>kcs. if k' = k then unat c else 0) \<and>
   fset (fmdom m') = fset (fmdom m) \<union> fst ` set kcs"
proof (induction kcs arbitrary: m)
  case (Cons kc kcs)
  then obtain v where v: "unat v = unat (fmget 0 m (fst kc)) + unat (snd kc)" "adds kcs (fmupd (fst kc) v m) = Inr m'"
    by (auto simp: add_into_def frequency_counter.add_Inr)
  from Cons.IH [OF v(2)] v(1) show ?case by (auto simp: split_beta)
qed simp

definition counted :: "BehaviorEntry list \<Rightarrow> BehaviorEntry list" where
  "counted = filter (\<lambda>e. be_Observations e \<noteq> 0)"

lemma counted_counted [simp]: "counted (counted es) = counted es"
  by (simp add: counted_def)

lemma freq_entries_parts:
  "freq_entries es (s, pt) = Inr (s', pt') \<Longrightarrow>
     bumps (map (\<lambda>e. (be_FingerprintID e, be_Observations e)) (counted es)) (fd_behaviors s) = Inr (fd_behaviors s') \<and>
     adds (map (\<lambda>e. (entry_target e, be_Observations e)) (counted es)) pt = Inr pt' \<and>
     adds (map (\<lambda>e. (entry_target e, os_HTTP429 (be_Operational e))) (counted es)) (fd_http429 s) = Inr (fd_http429 s') \<and>
     fd_runs s' = fd_runs s \<and> fd_targets s' = fd_targets s \<and> fd_byName s' = fd_byName s"
proof (induction es arbitrary: s pt)
  case (Cons e es)
  show ?case
  proof (cases "be_Observations e = 0")
    case True
    then show ?thesis using Cons by (simp add: freq_entry_def counted_def)
  next
    case False
    then obtain b p h d where "bump (be_FingerprintID e) (be_Observations e) (fd_behaviors s) = Inr b"
      "add_into (entry_target e) (be_Observations e) pt = Inr p" "add_into (entry_target e) (os_HTTP429 (be_Operational e)) (fd_http429 s) = Inr h"
      "freq_entries es (s\<lparr>fd_behaviors := b, fd_http429 := h, fd_httpSaid := d\<rparr>, p) = Inr (s', pt')"
      using Cons.prems by (auto simp: freq_entry_def Let_def)
    then show ?thesis using Cons.IH False by (fastforce simp: counted_def)
  qed
qed (simp add: counted_def)

lemma freq_targets_parts:
  "freq_targets pt ts (targets, pn) = Inr (targets', pn') \<Longrightarrow>
     bumps (map (\<lambda>t. (t, fmget 0 pt t)) ts) targets = Inr targets' \<and>
     adds (map (\<lambda>t. (ot_Name t, fmget 0 pt t)) ts) pn = Inr pn'"
  by (induction ts arbitrary: targets pn) auto

lemma freq_names_bumps: "freq_names pn ns m = bumps (map (\<lambda>n. (n, fmget 0 pn n)) ns) m"
  by (induction ns arbitrary: m) (auto simp: andThen_def split: sum.splits)

lemma calls_counted: "calls P es = calls P (counted es)"
  by (induction es) (auto simp: calls_def counted_def)

lemma calls_eq_0: "calls P es = 0 \<longleftrightarrow> (\<forall>e \<in> set (counted es). \<not> P e)"
  by (induction es) (auto simp: calls_def counted_def unat_eq_0)

lemma calls_single:
  "distinct (map be_FingerprintID es) \<Longrightarrow> e \<in> set es \<Longrightarrow> calls (\<lambda>x. be_FingerprintID x = be_FingerprintID e) es = unat (be_Observations e)"
proof (induction es)
  case (Cons x es)
  have "be_FingerprintID x \<noteq> be_FingerprintID e" if "e \<in> set es" using Cons.prems(1) that by (auto simp: image_iff)
  moreover have "calls (\<lambda>y. be_FingerprintID y = be_FingerprintID x) es = 0"
    using Cons.prems(1) by (auto simp: calls_eq_0 counted_def image_iff)
  ultimately show ?case using Cons by (auto simp: calls_def)
qed simp

text \<open>What a side holds after a list of runs.\<close>

definition side_rep :: "frequencySide \<Rightarrow> BehaviorEntry list list \<Rightarrow> bool" where
  "side_rep s runs \<longleftrightarrow> length runs < 2 ^ 64 \<and> unat (fd_runs s) = length runs \<and>
     key_rep (fd_behaviors s) (\<lambda>fp e. be_FingerprintID e = fp) runs \<and>
     key_rep (fd_targets s) (\<lambda>t e. entry_target e = t) runs \<and>
     key_rep (fd_byName s) (\<lambda>n e. sf_TargetName (be_Behavior e) = n) runs"

lemma side_rep_new: "side_rep newFrequencySide []"
  by (simp add: side_rep_def newFrequencySide_def key_rep_empty)

lemma per_target_calls:
  assumes "adds (map (\<lambda>e. (entry_target e, be_Observations e)) (counted es)) fmempty = Inr pt"
  shows "unat (fmget 0 pt t) = calls (\<lambda>e. entry_target e = t) es" "t |\<in>| fmdom pt \<longleftrightarrow> calls (\<lambda>e. entry_target e = t) es \<noteq> 0"
  using adds_Inr [OF assms, of t] unfolding calls_counted [of _ es] calls_eq_0
  by (auto simp: calls_def comp_def fmget_def image_image)

lemma sum_calls_names:
  assumes "distinct ts" "set ts = entry_target ` set (counted es)"
  shows "(\<Sum>t\<leftarrow>ts. if ot_Name t = n then calls (\<lambda>e. entry_target e = t) es else 0) = calls (\<lambda>e. sf_TargetName (be_Behavior e) = n) es"
proof -
  have "(\<Sum>t\<in>T. if ot_Name t = n then calls (\<lambda>e. entry_target e = t) xs else 0) = calls (\<lambda>e. sf_TargetName (be_Behavior e) = n) xs"
    if "finite T" "entry_target ` set xs \<subseteq> T" for T xs
    using that(2)
  proof (induction xs)
    case (Cons e xs)
    have one: "(\<Sum>t\<in>T. if ot_Name t = n \<and> entry_target e = t then v else 0) = (if sf_TargetName (be_Behavior e) = n then v else 0)" for v :: nat
    proof -
      have "(\<Sum>t\<in>T. if ot_Name t = n \<and> entry_target e = t then v else 0) =
          (\<Sum>t\<in>T. if t = entry_target e then (if ot_Name (entry_target e) = n then v else 0) else 0)"
        by (intro sum.cong) auto
      also have "\<dots> = (if ot_Name (entry_target e) = n then v else 0)" using Cons.prems \<open>finite T\<close> by (simp add: sum.delta)
      finally show ?thesis by (simp add: entry_target_def)
    qed
    have "(\<Sum>t\<in>T. if ot_Name t = n then calls (\<lambda>e. entry_target e = t) (e # xs) else 0) =
        (\<Sum>t\<in>T. (if ot_Name t = n \<and> entry_target e = t then unat (be_Observations e) else 0) +
               (if ot_Name t = n then calls (\<lambda>e. entry_target e = t) xs else 0))"
      by (intro sum.cong) (auto simp: calls_def)
    then show ?case using Cons by (simp add: sum.distrib one calls_def)
  next
    case Nil
    show ?case by (simp add: calls_def cong: if_cong)
  qed
  from this [of "set ts" "counted es"] show ?thesis
    using assms by (simp add: sum_list_distinct_conv_sum_set flip: calls_counted cong: if_cong)
qed


lemma enumeratesD: "enumerates order \<Longrightarrow> distinct (order S) \<and> set (order S) = fset S"
  by (simp add: enumerates_def)

lemma freq_addRun_rep:
  assumes "side_rep s runs" "freq_addRun ord es s = Inr s'" "enumerating ord" "distinct (map be_FingerprintID es)"
    "length runs + 1 < 2 ^ 64"
  shows "side_rep s' (runs @ [es])"
proof -
  obtain s1 pt targets pn byName where
    e: "freq_entries es (s\<lparr>fd_runs := fd_runs s + 1\<rparr>, fmempty) = Inr (s1, pt)"
    and t: "freq_targets pt (mo_target ord (fmdom pt)) (fd_targets s1, fmempty) = Inr (targets, pn)"
    and n: "freq_names pn (mo_string ord (fmdom pn)) (fd_byName s1) = Inr byName"
    and s': "s' = s1\<lparr>fd_targets := targets, fd_byName := byName\<rparr>"
    using assms(2) by (auto simp: freq_addRun_def)
  note ep = freq_entries_parts [OF e, simplified] and tp = freq_targets_parts [OF t]
  note to = enumeratesD [of "mo_target ord" "fmdom pt"] and no = enumeratesD [of "mo_string ord" "fmdom pn"]
  have ord: "enumerates (mo_target ord)" "enumerates (mo_string ord)" using assms(3) by (auto simp: enumerating_def)
  note pt = per_target_calls [of es pt]
  have tset: "set (mo_target ord (fmdom pt)) = entry_target ` set (counted es)"
    using to ord(1) pt(2) ep unfolding calls_eq_0 by fastforce
  have pn: "unat (fmget 0 pn k) = calls (\<lambda>e. sf_TargetName (be_Behavior e) = k) es" for k
    using adds_Inr [OF conjunct2 [OF tp], of k] sum_calls_names [OF _ tset, of k] to ord(1) pt(1) ep
    by (simp add: comp_def fmget_def [of _ fmempty] cong: if_cong)
  have pnd: "k |\<in>| fmdom pn \<longleftrightarrow> calls (\<lambda>e. sf_TargetName (be_Behavior e) = k) es \<noteq> 0" for k
    using adds_Inr [OF conjunct2 [OF tp], of k] tset unfolding calls_eq_0 by (auto simp: image_image entry_target_def)
  have "key_rep (fd_behaviors s1) (\<lambda>fp e. be_FingerprintID e = fp) (runs @ [es])"
  proof (rule bumps_rep [OF _ conjunct1 [OF ep] _ assms(5)])
    show "key_rep (fd_behaviors s) (\<lambda>fp e. be_FingerprintID e = fp) runs" using assms(1) by (simp add: side_rep_def)
    show "distinct (map fst (map (\<lambda>e. (be_FingerprintID e, be_Observations e)) (counted es)))"
      using assms(4) by (simp add: comp_def counted_def distinct_map_filter)
  qed (use calls_single [OF assms(4)] in \<open>auto simp: calls_eq_0 image_image\<close>, auto simp: counted_def)
  moreover have "key_rep targets (\<lambda>t e. entry_target e = t) (runs @ [es])"
  proof (rule bumps_rep [OF _ conjunct1 [OF tp] _ assms(5)])
    show "key_rep (fd_targets s1) (\<lambda>t e. entry_target e = t) runs" using assms(1) ep by (simp add: side_rep_def)
  qed (use to ord(1) pt ep in \<open>auto simp: comp_def image_image unat_eq_0 [symmetric]\<close>)
  moreover have "key_rep byName (\<lambda>n e. sf_TargetName (be_Behavior e) = n) (runs @ [es])"
  proof (rule bumps_rep [OF _ n [unfolded freq_names_bumps] _ assms(5)])
    show "key_rep (fd_byName s1) (\<lambda>n e. sf_TargetName (be_Behavior e) = n) runs" using assms(1) ep by (simp add: side_rep_def)
  qed (use no ord(2) pn pnd in \<open>auto simp: comp_def image_image unat_eq_0 [symmetric]\<close>)
  moreover have "unat (fd_runs s1) = length runs + 1" using assms(1,5) ep by (simp add: side_rep_def unat_inc64)
  ultimately show ?thesis using assms(5) unfolding side_rep_def s' by simp
qed

fun freq_addRuns :: "map_orders \<Rightarrow> BehaviorEntry list list \<Rightarrow> frequencySide \<Rightarrow> platform_error + frequencySide" where
  "freq_addRuns ord [] s = Inr s"
| "freq_addRuns ord (r # rs) s = andThen (freq_addRun ord r s) (freq_addRuns ord rs)"

lemma freq_addRuns_rep:
  "side_rep s runs \<Longrightarrow> freq_addRuns ord rs s = Inr s' \<Longrightarrow> enumerating ord \<Longrightarrow>
   (\<forall>r \<in> set rs. distinct (map be_FingerprintID r)) \<Longrightarrow> length runs + length rs < 2 ^ 64 \<Longrightarrow> side_rep s' (runs @ rs)"
proof (induction rs arbitrary: s runs)
  case (Cons r rs)
  then obtain t where t: "freq_addRun ord r s = Inr t" "freq_addRuns ord rs t = Inr s'" by auto
  have "side_rep t (runs @ [r])" using Cons.prems t(1) by (intro freq_addRun_rep [OF _ t(1)]) auto
  from Cons.IH [OF this t(2)] Cons.prems show ?case by simp
qed simp

subsection \<open>The reported figures\<close>

text \<open>The documented figures of a key over the side's runs, one number of calls per run, zero where the key is absent.\<close>

definition stats_of :: "nat list \<Rightarrow> FrequencyStats \<Rightarrow> bool" where
  "stats_of cs st \<longleftrightarrow>
     (if cs = [] then st = zeroFrequency
      else unat (fq_Runs st) = length cs \<and> unat (fq_CallsTotal st) = sum_list cs \<and>
        unat (fq_CallsPerRunMin st) = Min (set cs) \<and> unat (fq_CallsPerRunMax st) = Max (set cs) \<and>
        unat (fq_CallsPerRunMeanMilli st) = sum_list cs * 1000 div length cs)"

lemma sum_nonzero: "sum_list (filter (\<lambda>c. c \<noteq> 0) cs) = sum_list (cs :: nat list)"
  by (induction cs) auto

lemma acc_stats_exact:
  assumes a: "acc_rep a (filter (\<lambda>c. c \<noteq> 0) cs)" and n: "unat n = length cs"
  shows "acc_stats a n = Inr st \<longleftrightarrow> stats_of cs st"
proof (cases "cs = []")
  case True
  then show ?thesis using n by (auto simp: acc_stats_def stats_of_def unat_eq_0)
next
  case False
  let ?ps = "filter (\<lambda>c. c \<noteq> 0) cs"
  have n0: "n \<noteq> 0" using n False by (auto simp: unat_eq_0 [symmetric])
  have mx: "Max (insert 0 (set ?ps)) = Max (set cs)"
  proof (cases "0 \<in> set cs")
    case True
    then have "insert 0 (set ?ps) = set cs" by auto
    then show ?thesis by simp
  next
    case z: False
    then have "set ?ps = set cs" by (auto intro!: gr0I)
    then show ?thesis using False by (simp add: Max_insert)
  qed
  have mn: "(if length ?ps < length cs then 0 else Min (set ?ps)) = Min (set cs)"
  proof (cases "0 \<in> set cs")
    case True
    then have "Min (set cs) = 0" by (metis List.finite_set Min_le le_zero_eq)
    then show ?thesis using True length_filter_less [of 0 cs "\<lambda>c. c \<noteq> 0"] by simp
  next
    case z: False
    then have "?ps = cs" by (auto simp: filter_id_conv intro!: gr0I)
    then show ?thesis by simp
  qed
  have low: "unat (if fa_presentRuns a < n then 0 else fa_minPresent a) = Min (set cs)"
  proof -
    have p: "unat (fa_presentRuns a) = length ?ps" "?ps \<noteq> [] \<Longrightarrow> unat (fa_minPresent a) = Min (set ?ps)"
      using a unfolding acc_rep_def by blast+
    have "length ?ps < length cs" if "?ps = []" using False that by (simp only: list.size length_greater_0_conv not_False_eq_True)
    then have q: "\<not> length ?ps < length cs \<Longrightarrow> unat (fa_minPresent a) = Min (set ?ps)" using p(2) by blast
    show ?thesis unfolding mn [symmetric]
      by (cases "length ?ps < length cs") (simp_all only: word_less_nat_alt n p(1) q if_True if_False unsigned_0 simp_thms)
  qed
  have e: "unat (fa_total a) = sum_list cs" "unat (fa_max a) = Max (set cs)"
    using a mx unfolding acc_rep_def sum_nonzero by simp_all
  have "acc_stats a n = Inr st \<longleftrightarrow> unat (fq_CallsPerRunMeanMilli st) = unat (fa_total a) * 1000 div unat n \<and>
      fq_Runs st = n \<and> fq_CallsTotal st = fa_total a \<and>
      fq_CallsPerRunMin st = (if fa_presentRuns a < n then 0 else fa_minPresent a) \<and> fq_CallsPerRunMax st = fa_max a"
    using n0 by (cases st) (auto simp: acc_stats_def floorDivTimes1000_exact)
  then show ?thesis using False unfolding stats_of_def word_unat_eq_iff low e n by auto
qed

lemma behaviorStats_exact:
  assumes "side_rep s runs"
  shows "behaviorStats s fp = Inr st \<longleftrightarrow> stats_of (map (calls (\<lambda>e. be_FingerprintID e = fp)) runs) st"
  unfolding behaviorStats_def using assms
  by (intro acc_stats_exact) (auto simp: side_rep_def key_rep_def present_calls_def)

lemma targetStats_exact:
  assumes "side_rep s runs"
  shows "targetStats s t = Inr st \<longleftrightarrow> stats_of (map (calls (\<lambda>e. entry_target e = t)) runs) st"
  unfolding targetStats_def using assms
  by (intro acc_stats_exact) (auto simp: side_rep_def key_rep_def present_calls_def)

end
