(* ===== verification/Platform_Repeated.thy ===== *)
theory Platform_Repeated
  imports Platform_Frequency Platform_Gate
begin

text \<open>
  Repeated evaluation: N isolated repetitions per side reduced to presence counts and judged by six
  checks and four optional ones (\<^verbatim>\<open>platform/repeated.go\<close>, \<^verbatim>\<open>frequency_gate.go\<close>,
  \<^verbatim>\<open>comparison_rules.go\<close>). The two sides are an enumeration; the text naming the evidence a
  deferred check lacked is kept as its parts. The sameness section, which the control plane adds to the
  finished comparison and nothing reads, is not part of the record.
\<close>

subsection \<open>Limits and requests\<close>

datatype ComparisonSide = SideReference | SideCandidate

definition MaxCallsPerRunTargets :: nat where "MaxCallsPerRunTargets = 16"
definition maxCallTargetLength :: nat where "maxCallTargetLength = 255"
definition MaxRepetitions :: nat where "MaxRepetitions = 64"

definition GateCheckDeferred :: GateCheckState where "GateCheckDeferred = ''deferred''"

type_synonym FrequencyCheckName = string

definition CheckMinCandidateFrequency :: FrequencyCheckName where "CheckMinCandidateFrequency = ''min_candidate_frequency''"
definition CheckMaxLostBehaviors :: FrequencyCheckName where "CheckMaxLostBehaviors = ''max_lost_behaviors''"
definition CheckMaxCallsPerRun :: FrequencyCheckName where "CheckMaxCallsPerRun = ''max_calls_per_run''"
definition CheckMaxLLMCallsPerRun :: FrequencyCheckName where "CheckMaxLLMCallsPerRun = ''max_llm_calls_per_run''"

type_synonym RepeatedCheckRule = string

definition RuleEquals :: RepeatedCheckRule where "RuleEquals = ''equals''"
definition RuleAtMost :: RepeatedCheckRule where "RuleAtMost = ''at_most''"
definition RuleAtLeast :: RepeatedCheckRule where "RuleAtLeast = ''at_least''"

record TargetCallLimit =
  tl_Target :: string
  tl_Max :: u64

record RepeatedEvaluationGateLimits =
  rl_AddedCandidatePresenceMinimum :: u64
  rl_AddedReferencePresenceMaximum :: u64
  rl_MaxRepeatedAddedBehaviors :: u64
  rl_MaxBlockDecisionsPerRun :: u64
  rl_MaxCriticalRiskObservationsPerRun :: u64
  rl_MinCandidateFrequency :: OptionalGateLimit
  rl_MaxLostBehaviors :: OptionalGateLimit
  rl_MaxCallsPerRun :: "TargetCallLimit list option"
  rl_MaxLLMCallsPerRun :: OptionalGateLimit

record RepeatedEvaluationRequest =
  rr_ReferenceRunIDs :: "EvaluationRunID list"
  rr_CandidateRunIDs :: "EvaluationRunID list"
  rr_Limits :: RepeatedEvaluationGateLimits

fun validate_targets :: "string set \<Rightarrow> TargetCallLimit list \<Rightarrow> platform_error option" where
  "validate_targets seen [] = None"
| "validate_targets seen (entry # es) =
     (if tl_Target entry = '''' \<or> maxCallTargetLength < length (tl_Target entry) then Some ErrInvalidRepeatedRequest
      else orElse (validateText ErrInvalidRepeatedRequest (tl_Target entry))
        (if tl_Target entry \<in> seen then Some ErrInvalidRepeatedRequest
         else validate_targets (insert (tl_Target entry) seen) es))"

definition validateFrequencyLimits :: "RepeatedEvaluationGateLimits \<Rightarrow> nat \<Rightarrow> platform_error option" where
  "validateFrequencyLimits l runs =
     (if ol_set (rl_MinCandidateFrequency l) \<and> of_nat runs < ol_maximum (rl_MinCandidateFrequency l)
        then Some ErrInvalidRepeatedRequest
      else case rl_MaxCallsPerRun l of
        None \<Rightarrow> None
      | Some ts \<Rightarrow> if ts = [] \<or> MaxCallsPerRunTargets < length ts then Some ErrInvalidRepeatedRequest
                   else validate_targets {} ts)"

definition validateRepeatedLimits :: "RepeatedEvaluationGateLimits \<Rightarrow> nat \<Rightarrow> platform_error option" where
  "validateRepeatedLimits l n =
     (let k = rl_AddedCandidatePresenceMinimum l; j = rl_AddedReferencePresenceMaximum l in
      if k < 1 \<or> of_nat n < k then Some ErrInvalidRepeatedRequest
      else if k \<le> j then Some ErrInvalidRepeatedRequest
      else validateFrequencyLimits l n)"

fun validate_run_ids :: "EvaluationRunID set \<Rightarrow> EvaluationRunID list \<Rightarrow> platform_error option" where
  "validate_run_ids seen [] = None"
| "validate_run_ids seen (i # is) =
     orElse (validateID i)
       (if i \<in> seen then Some ErrInvalidRepeatedRequest else validate_run_ids (insert i seen) is)"

definition Request_Validate :: "RepeatedEvaluationRequest \<Rightarrow> platform_error option" where
  "Request_Validate r =
     (let n = length (rr_ReferenceRunIDs r) in
      if n < 1 \<or> MaxRepetitions < n then Some ErrInvalidRepeatedRequest
      else if length (rr_CandidateRunIDs r) \<noteq> n then Some ErrInvalidRepeatedRequest
      else orElse (validate_run_ids {} (rr_ReferenceRunIDs r @ rr_CandidateRunIDs r))
             (validateRepeatedLimits (rr_Limits r) n))"

subsection \<open>Evidence and results\<close>

record RepetitionEvidence =
  rp_Side :: ComparisonSide
  rp_Index :: nat
  rp_RunID :: EvaluationRunID
  rp_Status :: RunStatus
  rp_BehavioralProfile :: BehavioralProfileRef
  rp_RecordCount :: u64
  rp_DistinctBehaviors :: nat
  rp_BlockDecisions :: u64
  rp_CriticalRiskObservations :: u64

definition Repetition_Completed :: "RepetitionEvidence \<Rightarrow> bool" where
  "Repetition_Completed r = (rp_Status r = RunCompleted)"

type_synonym RepeatedClassification = string

definition RepeatedAdded :: RepeatedClassification where "RepeatedAdded = ''added''"
definition RepeatedRemoved :: RepeatedClassification where "RepeatedRemoved = ''removed''"
definition RepeatedNeither :: RepeatedClassification where "RepeatedNeither = ''neither''"

record RepeatedBehaviorPresence =
  bp_FingerprintID :: string
  bp_Behavior :: StableFeatures
  bp_ReferenceRunsPresent :: u64
  bp_CandidateRunsPresent :: u64
  bp_Classification :: RepeatedClassification
  bp_Reference :: FrequencyStats
  bp_Candidate :: FrequencyStats
  bp_Lost :: bool
  bp_ReferenceFidelity :: BehaviorFidelity
  bp_CandidateFidelity :: BehaviorFidelity

type_synonym RepeatedCheckName = string

definition CheckReferenceRepetitionsCompleted :: RepeatedCheckName where
  "CheckReferenceRepetitionsCompleted = ''reference_repetitions_completed''"
definition CheckCandidateRepetitionsCompleted :: RepeatedCheckName where
  "CheckCandidateRepetitionsCompleted = ''candidate_repetitions_completed''"
definition CheckRepetitionsFailingMinimum :: RepeatedCheckName where
  "CheckRepetitionsFailingMinimum = ''repetitions_failing_minimum_evidence''"
definition CheckRepeatedlyAddedBehaviors :: RepeatedCheckName where
  "CheckRepeatedlyAddedBehaviors = ''repeatedly_added_behaviors''"
definition CheckWorstCandidateBlockDecisions :: RepeatedCheckName where
  "CheckWorstCandidateBlockDecisions = ''worst_candidate_block_decisions''"
definition CheckWorstCandidateCriticalRiskCount :: RepeatedCheckName where
  "CheckWorstCandidateCriticalRiskCount = ''worst_candidate_critical_risk_observations''"

definition AdvisoryFreshScope :: string where "AdvisoryFreshScope = ''fresh_scope''"

record RepeatedGateCheck =
  rg_Name :: RepeatedCheckName
  rg_Actual :: u64
  rg_Rule :: RepeatedCheckRule
  rg_Bound :: u64
  rg_Passed :: bool
  rg_Advisory :: string

type_synonym TargetCallOutcome = string

definition TargetCallPass :: TargetCallOutcome where "TargetCallPass = ''pass''"
definition TargetCallFail :: TargetCallOutcome where "TargetCallFail = ''fail''"
definition TargetCallNotObserved :: TargetCallOutcome where "TargetCallNotObserved = ''not_observed''"

record TargetCallCheck =
  tc_Target :: string
  tc_Actual :: u64
  tc_Max :: u64
  tc_Outcome :: TargetCallOutcome

text \<open>What a deferred check lacked; the run, the number of runs lacking and the number of runs in the last case.\<close>

datatype missing_evidence =
    NothingMissing | NoRepetitionOnEitherSide | NoReferenceRepetition | NoCandidateRepetition
  | NoBehaviorInEveryReferenceRun | NoModelLayer EvaluationRunID u64 nat

record FrequencyGateCheck =
  fg_Name :: FrequencyCheckName
  fg_State :: GateCheckState
  fg_Rule :: RepeatedCheckRule
  fg_Actual :: u64
  fg_Bound :: u64
  fg_Passed :: bool
  fg_Targets :: "TargetCallCheck list"
  fg_MissingEvidence :: missing_evidence

definition failsVerdict :: "FrequencyGateCheck \<Rightarrow> bool" where
  "failsVerdict c =
     (if fg_State c = GateCheckDeferred then True
      else if fg_State c = GateCheckEvaluated then \<not> fg_Passed c
      else False)"

record RepeatedEvaluationGateResult =
  rgr_bound :: bool
  rgr_checks :: "RepeatedGateCheck list"
  rgr_verdict :: GateVerdict
  rgr_frequency :: "FrequencyGateCheck list"

record SuggestionEvidence =
  se_Name :: string
  se_Value :: string

record Suggestion =
  sg_Rule :: string
  sg_RuleVersion :: nat
  sg_Evidence :: "SuggestionEvidence list"
  sg_Text :: string

record RepeatedEvaluationComparison =
  rq_Runs :: nat
  rq_Limits :: RepeatedEvaluationGateLimits
  rq_Repetitions :: "RepetitionEvidence list"
  rq_Behaviors :: "RepeatedBehaviorPresence list"
  rq_Gate :: RepeatedEvaluationGateResult
  rq_Operational :: OperationalComparison
  rq_Cost :: "CostComparison option"
  rq_Targets :: "RepeatedTargetFrequency list"
  rq_LostTransitions :: string
  rq_Suggestions :: "Suggestion list"
  rq_SuggestionsTruncated :: bool

subsection \<open>Optional checks\<close>

record runLayerEvidence =
  ly_runID :: EvaluationRunID
  ly_modelCalls :: u64

fun sum_model_calls :: "BehaviorEntry list \<Rightarrow> u64 \<Rightarrow> platform_error + u64" where
  "sum_model_calls [] n = Inr n"
| "sum_model_calls (e # es) n = andThen (addCount n (bf_LayerModel (be_Fidelity e))) (sum_model_calls es)"

definition layerEvidenceOf :: "EvaluationRunID \<Rightarrow> BehaviorEntry list \<Rightarrow> platform_error + runLayerEvidence" where
  "layerEvidenceOf runID entries =
     andThen (sum_model_calls entries 0) (\<lambda>n. Inr \<lparr>ly_runID = runID, ly_modelCalls = n\<rparr>)"

record frequencyGateInputs =
  gi_runs :: u64
  gi_referenceRuns :: u64
  gi_candidateRuns :: u64
  gi_behaviors :: "RepeatedBehaviorPresence list"
  gi_referenceByName :: "(string, frequencyAccumulator) fmap"
  gi_candidByName :: "(string, frequencyAccumulator) fmap"
  gi_candidateLayers :: "runLayerEvidence list"

definition missingSide :: "frequencyGateInputs \<Rightarrow> missing_evidence" where
  "missingSide i =
     (if gi_referenceRuns i = 0 \<and> gi_candidateRuns i = 0 then NoRepetitionOnEitherSide
      else if gi_referenceRuns i = 0 then NoReferenceRepetition
      else if gi_candidateRuns i = 0 then NoCandidateRepetition
      else NothingMissing)"

definition notEvaluated :: "FrequencyCheckName \<Rightarrow> FrequencyGateCheck" where
  "notEvaluated name = \<lparr>fg_Name = name, fg_State = GateCheckNotEvaluated, fg_Rule = '''', fg_Actual = 0, fg_Bound = 0,
     fg_Passed = False, fg_Targets = [], fg_MissingEvidence = NothingMissing\<rparr>"

definition deferred :: "FrequencyGateCheck \<Rightarrow> missing_evidence \<Rightarrow> FrequencyGateCheck" where
  "deferred c m = c\<lparr>fg_State := GateCheckDeferred, fg_MissingEvidence := m\<rparr>"

definition evaluated :: "FrequencyGateCheck \<Rightarrow> RepeatedCheckRule \<Rightarrow> u64 \<Rightarrow> u64 \<Rightarrow> bool \<Rightarrow> FrequencyGateCheck" where
  "evaluated c rule actual bound passed =
     c\<lparr>fg_State := GateCheckEvaluated, fg_Rule := rule, fg_Actual := actual, fg_Bound := bound, fg_Passed := passed\<rparr>"

fun lowest_presence :: "u64 \<Rightarrow> RepeatedBehaviorPresence list \<Rightarrow> u64 \<times> bool \<Rightarrow> u64 \<times> bool" where
  "lowest_presence runs [] acc = acc"
| "lowest_presence runs (b # bs) (lowest, qualifying) =
     (if bp_ReferenceRunsPresent b \<noteq> runs then lowest_presence runs bs (lowest, qualifying)
      else lowest_presence runs bs
        (if \<not> qualifying \<or> bp_CandidateRunsPresent b < lowest then bp_CandidateRunsPresent b else lowest, True))"

definition minCandidateCheck :: "RepeatedEvaluationGateLimits \<Rightarrow> frequencyGateInputs \<Rightarrow> FrequencyGateCheck" where
  "minCandidateCheck l i =
     (let c = notEvaluated CheckMinCandidateFrequency; minimum = ol_maximum (rl_MinCandidateFrequency l) in
      if \<not> ol_set (rl_MinCandidateFrequency l) then c
      else let (lowest, qualifying) = lowest_presence (gi_runs i) (gi_behaviors i) (0, False) in
        if missingSide i \<noteq> NothingMissing then deferred c (missingSide i)
        else if \<not> qualifying then deferred c NoBehaviorInEveryReferenceRun
        else evaluated c RuleAtLeast lowest minimum (minimum \<le> lowest))"

fun count_lost :: "RepeatedBehaviorPresence list \<Rightarrow> u64 \<Rightarrow> u64" where
  "count_lost [] n = n"
| "count_lost (b # bs) n = count_lost bs (if bp_Lost b then n + 1 else n)"

definition maxLostCheck :: "RepeatedEvaluationGateLimits \<Rightarrow> frequencyGateInputs \<Rightarrow> FrequencyGateCheck" where
  "maxLostCheck l i =
     (let c = notEvaluated CheckMaxLostBehaviors; maximum = ol_maximum (rl_MaxLostBehaviors l) in
      if \<not> ol_set (rl_MaxLostBehaviors l) then c
      else if missingSide i \<noteq> NothingMissing then deferred c (missingSide i)
      else let lost = count_lost (gi_behaviors i) 0 in evaluated c RuleAtMost lost maximum (lost \<le> maximum))"

definition target_call_check :: "frequencyGateInputs \<Rightarrow> TargetCallLimit \<Rightarrow> TargetCallCheck" where
  "target_call_check i limit =
     (let candidate = fmlookup (gi_candidByName i) (tl_Target limit);
          referenced = (fmlookup (gi_referenceByName i) (tl_Target limit) \<noteq> None);
          actual = (case candidate of None \<Rightarrow> 0 | Some a \<Rightarrow> fa_max a)
      in \<lparr>tc_Target = tl_Target limit, tc_Actual = actual, tc_Max = tl_Max limit,
          tc_Outcome = (if candidate = None \<and> \<not> referenced then TargetCallNotObserved
                        else if tl_Max limit < actual then TargetCallFail else TargetCallPass)\<rparr>)"

definition maxCallsCheck :: "RepeatedEvaluationGateLimits \<Rightarrow> frequencyGateInputs \<Rightarrow> FrequencyGateCheck" where
  "maxCallsCheck l i =
     (let c = notEvaluated CheckMaxCallsPerRun in
      case rl_MaxCallsPerRun l of
        None \<Rightarrow> c
      | Some limits \<Rightarrow>
          if gi_candidateRuns i = 0 then deferred c NoCandidateRepetition
          else let checks = map (target_call_check i) limits in
            c\<lparr>fg_State := GateCheckEvaluated, fg_Rule := RuleAtMost,
              fg_Passed := list_all (\<lambda>t. tc_Outcome t = TargetCallPass) checks, fg_Targets := checks\<rparr>)"

fun scan_layers :: "runLayerEvidence list \<Rightarrow> u64 \<times> u64 \<times> EvaluationRunID \<Rightarrow> u64 \<times> u64 \<times> EvaluationRunID" where
  "scan_layers [] acc = acc"
| "scan_layers (run # rs) (worst, lacking, first) =
     (if ly_modelCalls run = 0
      then scan_layers rs (worst, lacking + 1, if lacking = 0 \<or> ly_runID run < first then ly_runID run else first)
      else scan_layers rs (max worst (ly_modelCalls run), lacking, first))"

definition maxLLMCheck :: "RepeatedEvaluationGateLimits \<Rightarrow> frequencyGateInputs \<Rightarrow> FrequencyGateCheck" where
  "maxLLMCheck l i =
     (let c = notEvaluated CheckMaxLLMCallsPerRun; maximum = ol_maximum (rl_MaxLLMCallsPerRun l) in
      if \<not> ol_set (rl_MaxLLMCallsPerRun l) then c
      else let (worst, lacking, first) = scan_layers (gi_candidateLayers i) (0, 0, '''') in
        if 0 < lacking then deferred c (NoModelLayer first lacking (length (gi_candidateLayers i)))
        else if gi_candidateRuns i = 0 then deferred c NoCandidateRepetition
        else evaluated c RuleAtMost worst maximum (worst \<le> maximum))"

definition evaluateFrequencyGates :: "RepeatedEvaluationGateLimits \<Rightarrow> frequencyGateInputs \<Rightarrow> FrequencyGateCheck list" where
  "evaluateFrequencyGates l i = [minCandidateCheck l i, maxLostCheck l i, maxCallsCheck l i, maxLLMCheck l i]"

subsection \<open>Suggestions\<close>

definition MaxComparisonSuggestions :: nat where "MaxComparisonSuggestions = 64"
definition LoadRatioThresholdPermille :: u64 where "LoadRatioThresholdPermille = 2000"

text \<open>The UTF-8 bytes of the arrow and of the multiplication sign.\<close>

definition arrow :: string where "arrow = [CHR 0xE2, CHR 0x86, CHR 0x92]"
definition times_sign :: string where "times_sign = [CHR 0xC3, CHR 0x97]"

definition describeBehavior :: "RepeatedBehaviorPresence \<Rightarrow> string" where
  "describeBehavior b =
     (let head = sf_OperationCategory (bp_Behavior b) @ ''/'' @ sf_OperationName (bp_Behavior b) in
      if sf_TargetName (bp_Behavior b) \<noteq> '''' then head @ '' '' @ arrow @ '' '' @ sf_TargetName (bp_Behavior b) else head)"

definition RenderRatio :: "u64 \<Rightarrow> string" where
  "RenderRatio permille = FormatUint10 (permille div 1000) @ ''.'' @ FormatUint10 (permille mod 1000 div 100) @ times_sign"

definition evidence_field :: "string \<Rightarrow> string \<Rightarrow> SuggestionEvidence" where
  "evidence_field n v = \<lparr>se_Name = n, se_Value = v\<rparr>"

definition suggestion :: "SuggestionEvidence list \<Rightarrow> string \<Rightarrow> Suggestion" where
  "suggestion ev t = \<lparr>sg_Rule = '''', sg_RuleVersion = 0, sg_Evidence = ev, sg_Text = t\<rparr>"

definition ruleAddedInAllRuns :: "RepeatedEvaluationComparison \<Rightarrow> Suggestion list" where
  "ruleAddedInAllRuns c =
     (let n = of_nat (rq_Runs c) in
      map (\<lambda>b. suggestion
          [evidence_field ''fingerprint_id'' (bp_FingerprintID b), evidence_field ''behavior'' (describeBehavior b),
           evidence_field ''candidate_runs_present'' (FormatUint10 (bp_CandidateRunsPresent b)),
           evidence_field ''reference_runs_present'' ''0'', evidence_field ''runs'' (FormatUint10 n)]
          (describeBehavior b @ '' was added in '' @ FormatUint10 n @ ''/'' @ FormatUint10 n @
           '' candidate runs. If this was expected, add it to the scenario; otherwise investigate before promoting.''))
        (filter (\<lambda>b. bp_CandidateRunsPresent b = n \<and> bp_ReferenceRunsPresent b = 0) (rq_Behaviors c)))"

definition ruleTargetLoadWith429 :: "RepeatedEvaluationComparison \<Rightarrow> Suggestion list" where
  "ruleTargetLoadWith429 c =
     map (\<lambda>t. suggestion
         [evidence_field ''target_name'' (ot_Name (rt_Target t)), evidence_field ''target_category'' (ot_Category (rt_Target t)),
          evidence_field ''call_ratio_permille'' (FormatUint10 (rt_CallRatioPermille t)),
          evidence_field ''candidate_http_429'' (FormatUint10 (rt_CandidateHTTP429 t)),
          evidence_field ''threshold_permille'' (FormatUint10 LoadRatioThresholdPermille)]
         (ot_Name (rt_Target t) @ '' received '' @ RenderRatio (rt_CallRatioPermille t) @ '' the reference'' @ [CHR 0x27] @
          ''s calls and returned '' @ FormatUint10 (rt_CandidateHTTP429 t) @ '' 429 responses. Check its rate limit.''))
       (filter (\<lambda>t. \<not> (\<not> rt_RatioAvailable t \<or> rt_CallRatioPermille t < LoadRatioThresholdPermille \<or> rt_CandidateHTTP429 t = 0))
         (rq_Targets c))"

definition ruleLostInHalf :: "RepeatedEvaluationComparison \<Rightarrow> Suggestion list" where
  "ruleLostInHalf c =
     (let n = of_nat (rq_Runs c) in
      map (\<lambda>b. suggestion
          [evidence_field ''fingerprint_id'' (bp_FingerprintID b), evidence_field ''behavior'' (describeBehavior b),
           evidence_field ''reference_runs_present'' (FormatUint10 (bp_ReferenceRunsPresent b)),
           evidence_field ''candidate_runs_present'' (FormatUint10 (bp_CandidateRunsPresent b)),
           evidence_field ''runs'' (FormatUint10 n)]
          (describeBehavior b @ '' was in every reference run and is missing from '' @
           FormatUint10 (n - bp_CandidateRunsPresent b) @ '' of '' @ FormatUint10 n @
           '' candidate runs. Task completion may have regressed.''))
        (filter (\<lambda>b. \<not> (n = 0 \<or> bp_ReferenceRunsPresent b \<noteq> n \<or> n < bp_CandidateRunsPresent b * 2)) (rq_Behaviors c)))"

definition comparisonRules :: "(string \<times> nat \<times> (RepeatedEvaluationComparison \<Rightarrow> Suggestion list)) list" where
  "comparisonRules =
     [(''compare.added_in_all_runs'', 1, ruleAddedInAllRuns), (''compare.target_load_with_429'', 1, ruleTargetLoadWith429),
      (''compare.lost_in_half'', 1, ruleLostInHalf)]"

fun append_bounded :: "Suggestion list \<Rightarrow> Suggestion list \<Rightarrow> Suggestion list \<times> bool" where
  "append_bounded out [] = (out, False)"
| "append_bounded out (s # ss) =
     (if length out = MaxComparisonSuggestions then (out, True) else append_bounded (out @ [s]) ss)"

definition evaluateComparisonRules :: "RepeatedEvaluationComparison \<Rightarrow> Suggestion list \<times> bool" where
  "evaluateComparisonRules c =
     append_bounded []
       (concat (map (\<lambda>(rule, version, fire). map (\<lambda>s. s\<lparr>sg_Rule := rule, sg_RuleVersion := version\<rparr>) (fire c)) comparisonRules))"

subsection \<open>Reduction\<close>

definition classifyPresence :: "u64 \<Rightarrow> u64 \<Rightarrow> u64 \<Rightarrow> u64 \<Rightarrow> RepeatedClassification" where
  "classifyPresence referencePresent candidatePresent k j =
     (if k \<le> candidatePresent \<and> referencePresent \<le> j then RepeatedAdded
      else if k \<le> referencePresent \<and> candidatePresent \<le> j then RepeatedRemoved
      else RepeatedNeither)"

record repetitionInput =
  rin_evidence :: RepetitionEvidence
  rin_entries :: "BehaviorEntry list"

record tally =
  ta_behavior :: StableFeatures
  ta_reference :: u64
  ta_candidate :: u64
  ta_referenceFidelity :: BehaviorFidelity
  ta_candidateFidelity :: BehaviorFidelity

definition newTally :: "StableFeatures \<Rightarrow> tally" where
  "newTally b = \<lparr>ta_behavior = b, ta_reference = 0, ta_candidate = 0, ta_referenceFidelity = zeroFidelity,
     ta_candidateFidelity = zeroFidelity\<rparr>"

type_synonym tallies = "(string, tally) fmap \<times> (StableFeatures, string) fmap"

definition tally_count :: "ComparisonSide \<Rightarrow> BehaviorEntry \<Rightarrow> tally \<Rightarrow> platform_error + tally" where
  "tally_count side e t =
     (if side = SideReference
      then andThen (BehaviorFidelity_Add (ta_referenceFidelity t) (be_Fidelity e)) (\<lambda>f.
             Inr (t\<lparr>ta_reference := ta_reference t + 1, ta_referenceFidelity := f\<rparr>))
      else andThen (BehaviorFidelity_Add (ta_candidateFidelity t) (be_Fidelity e)) (\<lambda>f.
             Inr (t\<lparr>ta_candidate := ta_candidate t + 1, ta_candidateFidelity := f\<rparr>)))"

definition tally_of :: "BehaviorEntry \<Rightarrow> (string, tally) fmap \<Rightarrow> platform_error + tally" where
  "tally_of e seen =
     (case fmlookup seen (be_FingerprintID e) of
        None \<Rightarrow> if maxBehaviorEntries \<le> fmsize seen then Inl ErrIncompleteSnapshot else Inr (newTally (be_Behavior e))
      | Some t \<Rightarrow> if ta_behavior t \<noteq> be_Behavior e then Inl ErrFingerprintConflict else Inr t)"

definition reduce_entry :: "ComparisonSide \<Rightarrow> BehaviorEntry \<Rightarrow> tallies \<Rightarrow> platform_error + tallies" where
  "reduce_entry side e = (\<lambda>(seen, fingerprintOf).
     if be_Observations e = 0 then Inr (seen, fingerprintOf)
     else andThen (tally_of e seen) (\<lambda>t.
       if fmlookup fingerprintOf (be_Behavior e) \<noteq> None \<and> fmlookup fingerprintOf (be_Behavior e) \<noteq> Some (be_FingerprintID e)
       then Inl ErrFingerprintConflict
       else andThen (tally_count side e t) (\<lambda>t'.
         Inr (fmupd (be_FingerprintID e) t' seen, fmupd (be_Behavior e) (be_FingerprintID e) fingerprintOf))))"

fun reduce_entries :: "ComparisonSide \<Rightarrow> BehaviorEntry list \<Rightarrow> tallies \<Rightarrow> platform_error + tallies" where
  "reduce_entries side [] st = Inr st"
| "reduce_entries side (e # es) st = andThen (reduce_entry side e st) (reduce_entries side es)"

record side_state =
  ss_completed :: u64
  ss_operational :: operationalSide
  ss_frequency :: frequencySide

record reduction =
  rd_tallies :: tallies
  rd_reference :: side_state
  rd_candidate :: side_state
  rd_failingMinimum :: u64
  rd_worstBlock :: u64
  rd_worstCR :: u64
  rd_candidateLayers :: "runLayerEvidence list"

definition new_side :: side_state where
  "new_side = \<lparr>ss_completed = 0, ss_operational = zeroSide, ss_frequency = newFrequencySide\<rparr>"

definition new_reduction :: reduction where
  "new_reduction = \<lparr>rd_tallies = (fmempty, fmempty), rd_reference = new_side, rd_candidate = new_side,
     rd_failingMinimum = 0, rd_worstBlock = 0, rd_worstCR = 0, rd_candidateLayers = []\<rparr>"

definition side_addRun :: "map_orders \<Rightarrow> BehaviorEntry list \<Rightarrow> side_state \<Rightarrow> platform_error + side_state" where
  "side_addRun ord entries s =
     andThen (addRun (ss_operational s) entries) (\<lambda>operational.
     andThen (freq_addRun ord entries (ss_frequency s)) (\<lambda>frequency.
       Inr \<lparr>ss_completed = ss_completed s + 1, ss_operational = operational, ss_frequency = frequency\<rparr>))"

definition reduce_layers :: "repetitionInput \<Rightarrow> reduction \<Rightarrow> platform_error + reduction" where
  "reduce_layers i d =
     (if rp_Side (rin_evidence i) = SideCandidate
      then andThen (layerEvidenceOf (rp_RunID (rin_evidence i)) (rin_entries i)) (\<lambda>layers.
             Inr (d\<lparr>rd_worstBlock := max (rd_worstBlock d) (rp_BlockDecisions (rin_evidence i)),
                    rd_worstCR := max (rd_worstCR d) (rp_CriticalRiskObservations (rin_evidence i)),
                    rd_candidateLayers := rd_candidateLayers d @ [layers]\<rparr>))
      else Inr d)"

definition reduce_input :: "map_orders \<Rightarrow> repetitionInput \<Rightarrow> reduction \<Rightarrow> platform_error + reduction" where
  "reduce_input ord i d =
     (let ev = rin_evidence i; side = rp_Side ev in
      if \<not> Repetition_Completed ev then Inr d
      else andThen (side_addRun ord (rin_entries i) (if side = SideReference then rd_reference d else rd_candidate d)) (\<lambda>s.
        let d1 = (if side = SideReference then d\<lparr>rd_reference := s\<rparr> else d\<lparr>rd_candidate := s\<rparr>);
            d2 = (if rp_RecordCount ev = 0 then d1\<lparr>rd_failingMinimum := rd_failingMinimum d1 + 1\<rparr> else d1)
        in andThen (reduce_layers i d2) (\<lambda>d3.
           andThen (reduce_entries side (rin_entries i) (rd_tallies d3)) (\<lambda>ts. Inr (d3\<lparr>rd_tallies := ts\<rparr>)))))"

fun reduce_inputs :: "map_orders \<Rightarrow> repetitionInput list \<Rightarrow> reduction \<Rightarrow> platform_error + reduction" where
  "reduce_inputs ord [] d = Inr d"
| "reduce_inputs ord (i # is) d = andThen (reduce_input ord i d) (reduce_inputs ord is)"

definition behavior_presence ::
  "RepeatedEvaluationGateLimits \<Rightarrow> nat \<Rightarrow> reduction \<Rightarrow> string \<Rightarrow> tally \<Rightarrow> platform_error + RepeatedBehaviorPresence" where
  "behavior_presence limits runs d fp t =
     andThen (behaviorStats (ss_frequency (rd_reference d)) fp) (\<lambda>ref.
     andThen (behaviorStats (ss_frequency (rd_candidate d)) fp) (\<lambda>cand.
       Inr \<lparr>bp_FingerprintID = fp, bp_Behavior = ta_behavior t, bp_ReferenceRunsPresent = ta_reference t,
            bp_CandidateRunsPresent = ta_candidate t,
            bp_Classification = classifyPresence (ta_reference t) (ta_candidate t)
              (rl_AddedCandidatePresenceMinimum limits) (rl_AddedReferencePresenceMaximum limits),
            bp_Reference = ref, bp_Candidate = cand, bp_Lost = isLost (ta_reference t) (ta_candidate t) (of_nat runs),
            bp_ReferenceFidelity = ta_referenceFidelity t, bp_CandidateFidelity = ta_candidateFidelity t\<rparr>))"

fun behavior_presences ::
  "RepeatedEvaluationGateLimits \<Rightarrow> nat \<Rightarrow> reduction \<Rightarrow> string list \<Rightarrow> platform_error + RepeatedBehaviorPresence list" where
  "behavior_presences limits runs d [] = Inr []"
| "behavior_presences limits runs d (fp # fps) =
     (case fmlookup (fst (rd_tallies d)) fp of
        None \<Rightarrow> behavior_presences limits runs d fps
      | Some t \<Rightarrow>
          andThen (behavior_presence limits runs d fp t) (\<lambda>b.
          andThen (behavior_presences limits runs d fps) (\<lambda>bs. Inr (b # bs))))"

definition equalsCheck :: "RepeatedCheckName \<Rightarrow> u64 \<Rightarrow> u64 \<Rightarrow> RepeatedGateCheck" where
  "equalsCheck name actual bound = \<lparr>rg_Name = name, rg_Actual = actual, rg_Rule = RuleEquals, rg_Bound = bound,
     rg_Passed = (actual = bound), rg_Advisory = ''''\<rparr>"

definition atMostCheck :: "RepeatedCheckName \<Rightarrow> u64 \<Rightarrow> u64 \<Rightarrow> string \<Rightarrow> RepeatedGateCheck" where
  "atMostCheck name actual bound advisory = \<lparr>rg_Name = name, rg_Actual = actual, rg_Rule = RuleAtMost, rg_Bound = bound,
     rg_Passed = (actual \<le> bound), rg_Advisory = advisory\<rparr>"

definition repeated_checks ::
  "RepeatedEvaluationGateLimits \<Rightarrow> nat \<Rightarrow> reduction \<Rightarrow> RepeatedBehaviorPresence list \<Rightarrow> RepeatedGateCheck list" where
  "repeated_checks limits runs d behaviors =
     (let n = of_nat runs; advisory = (if 1 < runs then AdvisoryFreshScope else '''');
          added = of_nat (length (filter (\<lambda>b. bp_Classification b = RepeatedAdded) behaviors))
      in [equalsCheck CheckReferenceRepetitionsCompleted (ss_completed (rd_reference d)) n,
          equalsCheck CheckCandidateRepetitionsCompleted (ss_completed (rd_candidate d)) n,
          atMostCheck CheckRepetitionsFailingMinimum (rd_failingMinimum d) 0 '''',
          atMostCheck CheckRepeatedlyAddedBehaviors added (rl_MaxRepeatedAddedBehaviors limits) '''',
          atMostCheck CheckWorstCandidateBlockDecisions (rd_worstBlock d) (rl_MaxBlockDecisionsPerRun limits) advisory,
          atMostCheck CheckWorstCandidateCriticalRiskCount (rd_worstCR d) (rl_MaxCriticalRiskObservationsPerRun limits) advisory])"

definition gate_inputs :: "nat \<Rightarrow> reduction \<Rightarrow> RepeatedBehaviorPresence list \<Rightarrow> frequencyGateInputs" where
  "gate_inputs runs d behaviors =
     \<lparr>gi_runs = of_nat runs, gi_referenceRuns = ss_completed (rd_reference d), gi_candidateRuns = ss_completed (rd_candidate d),
      gi_behaviors = behaviors, gi_referenceByName = fd_byName (ss_frequency (rd_reference d)),
      gi_candidByName = fd_byName (ss_frequency (rd_candidate d)), gi_candidateLayers = rd_candidateLayers d\<rparr>"

definition repeated_gate ::
  "RepeatedEvaluationGateLimits \<Rightarrow> nat \<Rightarrow> reduction \<Rightarrow> RepeatedBehaviorPresence list \<Rightarrow> RepeatedEvaluationGateResult" where
  "repeated_gate limits runs d behaviors =
     (let checks = repeated_checks limits runs d behaviors;
          frequency = evaluateFrequencyGates limits (gate_inputs runs d behaviors);
          verdict = (if list_all rg_Passed checks \<and> list_all (\<lambda>c. \<not> failsVerdict c) frequency
                     then GateVerdictPass else GateVerdictFail)
      in \<lparr>rgr_bound = True, rgr_checks = checks, rgr_verdict = verdict, rgr_frequency = frequency\<rparr>)"

definition reduceRepeated ::
  "map_orders \<Rightarrow> RepeatedEvaluationGateLimits \<Rightarrow> nat \<Rightarrow> repetitionInput list \<Rightarrow> platform_error + RepeatedEvaluationComparison" where
  "reduceRepeated ord limits runs inputs =
     andThen (reduce_inputs ord inputs new_reduction) (\<lambda>d.
     andThen (behavior_presences limits runs d (mo_string ord (fmdom (fst (rd_tallies d))))) (\<lambda>unsorted.
     andThen (targetFrequencies ord (ss_frequency (rd_reference d)) (ss_frequency (rd_candidate d))) (\<lambda>targets.
       let behaviors = sort_key bp_FingerprintID unsorted;
           comparison =
             \<lparr>rq_Runs = runs, rq_Limits = limits, rq_Repetitions = map rin_evidence inputs, rq_Behaviors = behaviors,
              rq_Gate = repeated_gate limits runs d behaviors,
              rq_Operational = compareOperational (ss_operational (rd_reference d)) (ss_operational (rd_candidate d)),
              rq_Cost = None, rq_Targets = targets, rq_LostTransitions = LostTransitionsNotRecorded,
              rq_Suggestions = [], rq_SuggestionsTruncated = False\<rparr>;
           (suggestions, truncated) = evaluateComparisonRules comparison
       in Inr (comparison\<lparr>rq_Suggestions := suggestions, rq_SuggestionsTruncated := truncated\<rparr>))))"

definition completedRepetition ::
  "RepetitionEvidence \<Rightarrow> EvaluationAggregate \<Rightarrow> BehaviorSnapshot \<Rightarrow> platform_error + repetitionInput" where
  "completedRepetition evidence aggregate snapshot =
     (if \<not> sn_complete snapshot then Inl ErrIncompleteSnapshot
      else Inr \<lparr>rin_evidence = evidence\<lparr>rp_RecordCount := ag_recordCount aggregate,
                  rp_DistinctBehaviors := length (sn_entries snapshot), rp_BlockDecisions := dc_Block (ag_decisions aggregate),
                  rp_CriticalRiskObservations := rc_Critical (ag_risks aggregate)\<rparr>,
                rin_entries = sn_entries snapshot\<rparr>)"


end
