(* ===== verification/Platform_Repeated_Proofs.thy ===== *)
theory Platform_Repeated_Proofs
  imports Platform_Repeated Platform_Diff
begin

text \<open>
  What a repeated comparison counts: the presence counts, classifications and figures of every
  behaviour as functions of the completed repetitions of each side, the verdict as a condition on
  those numbers, its invariance under any reordering of the repetitions, and its agreement with the
  single-run gate at one repetition per side.
\<close>

subsection \<open>Tallies\<close>

definition shown :: "BehaviorEntry list \<Rightarrow> string set" where
  "shown es = be_FingerprintID ` set (counted es)"

definition side_count :: "ComparisonSide \<Rightarrow> tally \<Rightarrow> u64" where
  "side_count side t = (case side of SideReference \<Rightarrow> ta_reference t | SideCandidate \<Rightarrow> ta_candidate t)"

definition count_at :: "ComparisonSide \<Rightarrow> (string, tally) fmap \<Rightarrow> string \<Rightarrow> u64" where
  "count_at side seen fp = (case fmlookup seen fp of None \<Rightarrow> 0 | Some t \<Rightarrow> side_count side t)"

lemma tally_count_Inr:
  "tally_count side e t = Inr t' \<Longrightarrow>
     ta_behavior t' = ta_behavior t \<and> side_count s t' = (if s = side then side_count s t + 1 else side_count s t)"
  by (cases s; cases side) (auto simp: tally_count_def side_count_def)

lemma tally_of_Inr:
  "tally_of e seen = Inr t \<Longrightarrow> ta_behavior t = be_Behavior e \<and> side_count s t = count_at s seen (be_FingerprintID e) \<and>
     (\<forall>t'. fmlookup seen (be_FingerprintID e) = Some t' \<longrightarrow> t' = t)"
  by (cases s) (auto simp: tally_of_def count_at_def newTally_def side_count_def split: option.splits if_splits)

text \<open>The one-to-one pairing of fingerprints and descriptors.\<close>

definition paired :: "tallies \<Rightarrow> bool" where
  "paired = (\<lambda>(seen, fingerprintOf). \<forall>fp t. fmlookup seen fp = Some t \<longrightarrow> fmlookup fingerprintOf (ta_behavior t) = Some fp)"

lemma reduce_entry_Inr:
  assumes "reduce_entry side e (seen, f) = Inr (seen', f')" "be_Observations e \<noteq> 0"
  obtains t where "seen' = fmupd (be_FingerprintID e) t seen" "f' = fmupd (be_Behavior e) (be_FingerprintID e) f"
    "ta_behavior t = be_Behavior e"
    "\<And>s. side_count s t = count_at s seen (be_FingerprintID e) + (if s = side then 1 else 0)"
    "\<And>t'. fmlookup seen (be_FingerprintID e) = Some t' \<Longrightarrow> ta_behavior t' = be_Behavior e"
    "fmlookup f (be_Behavior e) = None \<or> fmlookup f (be_Behavior e) = Some (be_FingerprintID e)"
proof -
  obtain t0 t where t0: "tally_of e seen = Inr t0" and t: "tally_count side e t0 = Inr t"
    and r: "seen' = fmupd (be_FingerprintID e) t seen" "f' = fmupd (be_Behavior e) (be_FingerprintID e) f"
      "fmlookup f (be_Behavior e) = None \<or> fmlookup f (be_Behavior e) = Some (be_FingerprintID e)"
    using assms by (auto simp: reduce_entry_def split: if_splits)
  note o = tally_of_Inr [OF t0] and c = tally_count_Inr [OF t]
  show thesis
  proof (rule that [OF r(1,2) _ _ _ r(3)])
    show "ta_behavior t = be_Behavior e" using o c by simp
    show "side_count s t = count_at s seen (be_FingerprintID e) + (if s = side then 1 else 0)" for s
      using o [of s] c [of s] by auto
    show "ta_behavior t' = be_Behavior e" if "fmlookup seen (be_FingerprintID e) = Some t'" for t'
      using o that by blast
  qed
qed

lemma reduce_entry_counts:
  assumes "reduce_entry side e (seen, f) = Inr (seen', f')" "be_Observations e \<noteq> 0"
  shows "count_at s seen' fp = count_at s seen fp + (if s = side \<and> fp = be_FingerprintID e then 1 else 0)"
    and "fp |\<in>| fmdom seen' \<longleftrightarrow> fp |\<in>| fmdom seen \<or> fp = be_FingerprintID e"
    and "fmlookup seen fp = Some t \<Longrightarrow> \<exists>t'. fmlookup seen' fp = Some t' \<and> ta_behavior t' = ta_behavior t"
    and "\<exists>t'. fmlookup seen' (be_FingerprintID e) = Some t' \<and> ta_behavior t' = be_Behavior e"
    and "paired (seen, f) \<Longrightarrow> paired (seen', f')"
proof -
  obtain u where u: "seen' = fmupd (be_FingerprintID e) u seen" "f' = fmupd (be_Behavior e) (be_FingerprintID e) f"
    "ta_behavior u = be_Behavior e"
    "\<And>s. side_count s u = count_at s seen (be_FingerprintID e) + (if s = side then 1 else 0)"
    "\<And>t'. fmlookup seen (be_FingerprintID e) = Some t' \<Longrightarrow> ta_behavior t' = be_Behavior e"
    "fmlookup f (be_Behavior e) = None \<or> fmlookup f (be_Behavior e) = Some (be_FingerprintID e)"
    using reduce_entry_Inr [OF assms] by metis
  show "count_at s seen' fp = count_at s seen fp + (if s = side \<and> fp = be_FingerprintID e then 1 else 0)"
    unfolding u(1) using u(4) [of s] by (cases "fp = be_FingerprintID e") (auto simp: count_at_def)
  show "fp |\<in>| fmdom seen' \<longleftrightarrow> fp |\<in>| fmdom seen \<or> fp = be_FingerprintID e" unfolding u(1) by auto
  show "fmlookup seen fp = Some t \<Longrightarrow> \<exists>t'. fmlookup seen' fp = Some t' \<and> ta_behavior t' = ta_behavior t"
    unfolding u(1) using u(3) u(5) [of t] by (cases "fp = be_FingerprintID e") auto
  show "\<exists>t'. fmlookup seen' (be_FingerprintID e) = Some t' \<and> ta_behavior t' = be_Behavior e" using u(1,3) by simp
  show "paired (seen', f')" if "paired (seen, f)"
  proof -
    have "fmlookup f' (ta_behavior v) = Some k" if v: "fmlookup seen' k = Some v" for k v
    proof (cases "k = be_FingerprintID e")
      case True
      then show ?thesis using v u(1,2,3) by simp
    next
      case False
      then have "fmlookup f (ta_behavior v) = Some k" using v u(1) \<open>paired (seen, f)\<close> by (simp add: paired_def)
      then show ?thesis using False u(2,6) by auto
    qed
    then show ?thesis by (simp add: paired_def)
  qed
qed

lemma reduce_entries_counts:
  "reduce_entries side es (seen, f) = Inr (seen', f') \<Longrightarrow> distinct (map be_FingerprintID es) \<Longrightarrow>
   (\<forall>s fp. count_at s seen' fp = count_at s seen fp + (if s = side \<and> fp \<in> shown es then 1 else 0)) \<and>
   (\<forall>fp. fp |\<in>| fmdom seen' \<longleftrightarrow> fp |\<in>| fmdom seen \<or> fp \<in> shown es) \<and>
   (\<forall>fp t. fmlookup seen fp = Some t \<longrightarrow> (\<exists>t'. fmlookup seen' fp = Some t' \<and> ta_behavior t' = ta_behavior t)) \<and>
   (\<forall>e \<in> set (counted es). \<exists>t'. fmlookup seen' (be_FingerprintID e) = Some t' \<and> ta_behavior t' = be_Behavior e) \<and>
   (paired (seen, f) \<longrightarrow> paired (seen', f'))"
proof (induction es arbitrary: seen f)
  case Nil
  then show ?case by (auto simp: shown_def counted_def)
next
  case (Cons e es)
  then obtain seen1 f1 where e: "reduce_entry side e (seen, f) = Inr (seen1, f1)"
    and es: "reduce_entries side es (seen1, f1) = Inr (seen', f')" by auto
  have d: "distinct (map be_FingerprintID es)" "be_FingerprintID e \<notin> shown es"
    using Cons.prems(2) by (auto simp: shown_def counted_def)
  note IH = Cons.IH [OF es d(1)]
  show ?case
  proof (cases "be_Observations e = 0")
    case True
    then show ?thesis using e IH by (simp add: reduce_entry_def shown_def counted_def)
  next
    case False
    have sh: "shown (e # es) = insert (be_FingerprintID e) (shown es)" "counted (e # es) = e # counted es"
      using False by (auto simp: shown_def counted_def)
    note c = reduce_entry_counts [OF e False]
    show ?thesis unfolding sh
    proof (intro conjI allI impI ballI)
      fix s fp
      show "count_at s seen' fp = count_at s seen fp + (if s = side \<and> fp \<in> insert (be_FingerprintID e) (shown es) then 1 else 0)"
        using IH c(1) [of s fp] d(2) by auto
      show "fp |\<in>| fmdom seen' \<longleftrightarrow> fp |\<in>| fmdom seen \<or> fp \<in> insert (be_FingerprintID e) (shown es)"
        using IH c(2) [of fp] by auto
      show "\<exists>t'. fmlookup seen' fp = Some t' \<and> ta_behavior t' = ta_behavior t" if "fmlookup seen fp = Some t" for t
        using IH c(3) [OF that] by metis
      show "\<exists>t'. fmlookup seen' (be_FingerprintID x) = Some t' \<and> ta_behavior t' = be_Behavior x" if "x \<in> set (e # counted es)" for x
        using that IH c(4) by (metis set_ConsD)
      show "paired (seen', f')" if "paired (seen, f)" using IH c(5) [OF that] by blast
    qed
  qed
qed

subsection \<open>The reduction\<close>

definition of_side :: "ComparisonSide \<Rightarrow> repetitionInput \<Rightarrow> bool" where
  "of_side side i \<longleftrightarrow> Repetition_Completed (rin_evidence i) \<and> rp_Side (rin_evidence i) = side"

definition completed_inputs :: "ComparisonSide \<Rightarrow> repetitionInput list \<Rightarrow> repetitionInput list" where
  "completed_inputs side = filter (of_side side)"

definition completed_runs :: "ComparisonSide \<Rightarrow> repetitionInput list \<Rightarrow> BehaviorEntry list list" where
  "completed_runs side inputs = map rin_entries (completed_inputs side inputs)"

definition presence :: "ComparisonSide \<Rightarrow> repetitionInput list \<Rightarrow> string \<Rightarrow> nat" where
  "presence side inputs fp = length (filter (\<lambda>r. fp \<in> shown r) (completed_runs side inputs))"

definition all_shown :: "repetitionInput list \<Rightarrow> string set" where
  "all_shown inputs = (\<Union>i \<in> set inputs. if Repetition_Completed (rin_evidence i) then shown (rin_entries i) else {})"

definition empty_runs :: "repetitionInput list \<Rightarrow> repetitionInput list" where
  "empty_runs = filter (\<lambda>i. Repetition_Completed (rin_evidence i) \<and> rp_RecordCount (rin_evidence i) = 0)"

definition worst :: "(RepetitionEvidence \<Rightarrow> u64) \<Rightarrow> repetitionInput list \<Rightarrow> nat" where
  "worst field inputs = Max (insert 0 (set (map (\<lambda>i. unat (field (rin_evidence i))) (completed_inputs SideCandidate inputs))))"

definition model_calls :: "BehaviorEntry list \<Rightarrow> nat" where
  "model_calls es = (\<Sum>e\<leftarrow>es. unat (bf_LayerModel (be_Fidelity e)))"

definition rd_side :: "ComparisonSide \<Rightarrow> reduction \<Rightarrow> side_state" where
  "rd_side side d = (case side of SideReference \<Rightarrow> rd_reference d | SideCandidate \<Rightarrow> rd_candidate d)"

definition tallies_rep :: "tallies \<Rightarrow> repetitionInput list \<Rightarrow> bool" where
  "tallies_rep ts inputs \<longleftrightarrow>
     (\<forall>s fp. unat (count_at s (fst ts) fp) = presence s inputs fp) \<and> fset (fmdom (fst ts)) = all_shown inputs \<and> paired ts \<and>
     (\<forall>i \<in> set inputs. Repetition_Completed (rin_evidence i) \<longrightarrow>
        (\<forall>e \<in> set (counted (rin_entries i)). \<exists>t. fmlookup (fst ts) (be_FingerprintID e) = Some t \<and> ta_behavior t = be_Behavior e))"

definition red_rep :: "reduction \<Rightarrow> repetitionInput list \<Rightarrow> bool" where
  "red_rep d inputs \<longleftrightarrow>
     (\<forall>side. unat (ss_completed (rd_side side d)) = length (completed_runs side inputs) \<and>
             side_rep (ss_frequency (rd_side side d)) (completed_runs side inputs)) \<and>
     unat (rd_failingMinimum d) = length (empty_runs inputs) \<and>
     unat (rd_worstBlock d) = worst rp_BlockDecisions inputs \<and>
     unat (rd_worstCR d) = worst rp_CriticalRiskObservations inputs \<and>
     map (\<lambda>l. (ly_runID l, unat (ly_modelCalls l))) (rd_candidateLayers d) =
       map (\<lambda>i. (rp_RunID (rin_evidence i), model_calls (rin_entries i))) (completed_inputs SideCandidate inputs) \<and>
     tallies_rep (rd_tallies d) inputs"

lemma worst_snoc:
  "worst f (inputs @ [i]) = (if of_side SideCandidate i then max (worst f inputs) (unat (f (rin_evidence i))) else worst f inputs)"
proof -
  have "map g (completed_inputs SideCandidate (inputs @ [i])) =
      map g (completed_inputs SideCandidate inputs) @ (if of_side SideCandidate i then [g i] else [])" for g :: "repetitionInput \<Rightarrow> nat"
    by (simp add: completed_inputs_def)
  then show ?thesis unfolding worst_def by (simp only: Max_snoc append_Nil2 split: if_split) simp
qed

lemma sum_model_calls_Inr: "sum_model_calls es n = Inr m \<Longrightarrow> unat m = unat n + model_calls es"
  by (induction es arbitrary: n) (auto simp: model_calls_def addCount_Inr)

lemma layerEvidence_Inr: "layerEvidenceOf i es = Inr l \<Longrightarrow> ly_runID l = i \<and> unat (ly_modelCalls l) = model_calls es"
  by (auto simp: layerEvidenceOf_def dest!: sum_model_calls_Inr)

lemma side_addRun_Inr:
  "side_addRun ord es s = Inr s' \<Longrightarrow> ss_completed s' = ss_completed s + 1 \<and> freq_addRun ord es (ss_frequency s) = Inr (ss_frequency s')"
  by (auto simp: side_addRun_def)

text \<open>One completed repetition changes its own side and nothing of the other.\<close>

definition bump_empty :: "repetitionInput \<Rightarrow> u64 \<Rightarrow> u64" where
  "bump_empty i n = (if rp_RecordCount (rin_evidence i) = 0 then n + 1 else n)"

lemma reduce_input_reference:
  assumes "reduce_input ord i d = Inr d'" "of_side SideReference i"
  obtains s ts where "side_addRun ord (rin_entries i) (rd_reference d) = Inr s"
    "reduce_entries SideReference (rin_entries i) (rd_tallies d) = Inr ts"
    "d' = d\<lparr>rd_reference := s, rd_failingMinimum := bump_empty i (rd_failingMinimum d), rd_tallies := ts\<rparr>"
proof -
  have eq: "reduce_input ord i d =
      andThen (side_addRun ord (rin_entries i) (rd_reference d)) (\<lambda>s.
      andThen (reduce_entries SideReference (rin_entries i) (rd_tallies d)) (\<lambda>ts.
        Inr (d\<lparr>rd_reference := s, rd_failingMinimum := bump_empty i (rd_failingMinimum d), rd_tallies := ts\<rparr>)))"
    using assms(2) by (simp add: reduce_input_def reduce_layers_def Let_def of_side_def bump_empty_def andThen_def split: sum.splits)
  show thesis using assms(1) unfolding eq andThen_Inr by (elim exE conjE) (rule that, assumption+, simp)
qed

lemma reduce_input_candidate:
  assumes "reduce_input ord i d = Inr d'" "of_side SideCandidate i"
  obtains s ts l where "side_addRun ord (rin_entries i) (rd_candidate d) = Inr s"
    "layerEvidenceOf (rp_RunID (rin_evidence i)) (rin_entries i) = Inr l"
    "reduce_entries SideCandidate (rin_entries i) (rd_tallies d) = Inr ts"
    "d' = d\<lparr>rd_candidate := s, rd_failingMinimum := bump_empty i (rd_failingMinimum d),
        rd_worstBlock := max (rd_worstBlock d) (rp_BlockDecisions (rin_evidence i)),
        rd_worstCR := max (rd_worstCR d) (rp_CriticalRiskObservations (rin_evidence i)),
        rd_candidateLayers := rd_candidateLayers d @ [l], rd_tallies := ts\<rparr>"
proof -
  have eq: "reduce_input ord i d =
      andThen (side_addRun ord (rin_entries i) (rd_candidate d)) (\<lambda>s.
      andThen (layerEvidenceOf (rp_RunID (rin_evidence i)) (rin_entries i)) (\<lambda>l.
      andThen (reduce_entries SideCandidate (rin_entries i) (rd_tallies d)) (\<lambda>ts.
        Inr (d\<lparr>rd_candidate := s, rd_failingMinimum := bump_empty i (rd_failingMinimum d),
          rd_worstBlock := max (rd_worstBlock d) (rp_BlockDecisions (rin_evidence i)),
          rd_worstCR := max (rd_worstCR d) (rp_CriticalRiskObservations (rin_evidence i)),
          rd_candidateLayers := rd_candidateLayers d @ [l], rd_tallies := ts\<rparr>))))"
    using assms(2) by (simp add: reduce_input_def reduce_layers_def Let_def of_side_def bump_empty_def andThen_def split: sum.splits)
  show thesis using assms(1) unfolding eq andThen_Inr by (elim exE conjE) (rule that, assumption+, simp)
qed

lemma tallies_rep_step:
  assumes "tallies_rep ts inputs" "reduce_entries side (rin_entries i) ts = Inr ts'" "of_side side i"
    "distinct (map be_FingerprintID (rin_entries i))" "length inputs + 1 < 2 ^ 64"
  shows "tallies_rep ts' (inputs @ [i])"
proof -
  obtain seen f seen' f' where ts: "ts = (seen, f)" "ts' = (seen', f')" by (metis surj_pair)
  note c = reduce_entries_counts [OF assms(2) [unfolded ts] assms(4)]
  have pres: "presence s (inputs @ [i]) fp = presence s inputs fp + (if s = side \<and> fp \<in> shown (rin_entries i) then 1 else 0)" for s fp
    using assms(3) by (auto simp: presence_def completed_runs_def completed_inputs_def of_side_def)
  have le: "presence s inputs fp \<le> length inputs" for s fp
    unfolding presence_def completed_runs_def completed_inputs_def
    by (rule order_trans [OF length_filter_le]) (simp add: length_filter_le)
  have "unat (count_at s seen fp) < 2 ^ 64 - 1" for s fp
  proof -
    have "unat (count_at s seen fp) = presence s inputs fp" using assms(1) by (simp add: tallies_rep_def ts)
    also have "\<dots> \<le> length inputs" by (rule le)
    also have "\<dots> < 2 ^ 64 - 1" using assms(5) by simp
    finally show ?thesis .
  qed
  then have "unat (count_at s seen' fp) = presence s (inputs @ [i]) fp" for s fp
    using c assms(1) by (auto simp: pres ts tallies_rep_def unat_inc64)
  moreover have "fset (fmdom seen') = all_shown (inputs @ [i])"
    using c assms(1,3) by (auto simp: ts tallies_rep_def all_shown_def of_side_def)
  moreover have "paired (seen', f')" using c assms(1) by (auto simp: ts tallies_rep_def)
  moreover have "\<exists>t. fmlookup seen' (be_FingerprintID e) = Some t \<and> ta_behavior t = be_Behavior e"
    if x: "x \<in> set (inputs @ [i])" "Repetition_Completed (rin_evidence x)" "e \<in> set (counted (rin_entries x))" for x e
  proof (cases "x \<in> set inputs")
    case True
    then obtain t where "fmlookup seen (be_FingerprintID e) = Some t" "ta_behavior t = be_Behavior e"
      using assms(1) x(2,3) unfolding tallies_rep_def ts fst_conv by blast
    then show ?thesis using c by metis
  next
    case False
    then show ?thesis using x c by auto
  qed
  ultimately show ?thesis by (simp add: tallies_rep_def ts)
qed


lemma side_step:
  assumes "side_addRun ord (rin_entries i) s = Inr s'" "unat (ss_completed s) = length (completed_runs side inputs)"
    "side_rep (ss_frequency s) (completed_runs side inputs)" "of_side side i" "enumerating ord"
    "distinct (map be_FingerprintID (rin_entries i))" "length inputs + 1 < 2 ^ 64"
  shows "unat (ss_completed s') = length (completed_runs side (inputs @ [i])) \<and>
    side_rep (ss_frequency s') (completed_runs side (inputs @ [i]))"
proof -
  note a = side_addRun_Inr [OF assms(1)]
  have r: "completed_runs side (inputs @ [i]) = completed_runs side inputs @ [rin_entries i]"
    using assms(4) by (simp add: completed_runs_def completed_inputs_def)
  have l: "length (completed_runs side inputs) + 1 < 2 ^ 64"
    using assms(7) unfolding completed_runs_def completed_inputs_def length_map
    by (rule le_less_trans [OF add_le_mono1 [OF length_filter_le]])
  show ?thesis unfolding r
    using a assms(2) l freq_addRun_rep [OF assms(3) _ assms(5,6) l] by (simp add: unat_inc64)
qed

lemma other_side: "of_side side i \<Longrightarrow> s \<noteq> side \<Longrightarrow> completed_inputs s (inputs @ [i]) = completed_inputs s inputs"
  by (auto simp: completed_inputs_def of_side_def)

lemma empty_runs_step:
  assumes "unat n = length (empty_runs inputs)" "of_side side i" "length inputs + 1 < 2 ^ 64"
  shows "unat (bump_empty i n) = length (empty_runs (inputs @ [i]))"
proof -
  have "unat n < 2 ^ 64 - 1"
    unfolding assms(1) empty_runs_def using assms(3) by (intro le_less_trans [OF length_filter_le]) simp
  then show ?thesis using assms(1,2) by (simp add: bump_empty_def empty_runs_def of_side_def unat_inc64)
qed

lemma red_rep_skip: "\<not> Repetition_Completed (rin_evidence i) \<Longrightarrow> red_rep d (inputs @ [i]) = red_rep d inputs"
  by (auto simp: red_rep_def completed_runs_def completed_inputs_def of_side_def empty_runs_def worst_def tallies_rep_def presence_def
      all_shown_def)

lemma red_rep_step:
  assumes "red_rep d inputs" "reduce_input ord i d = Inr d'" "enumerating ord"
    "distinct (map be_FingerprintID (rin_entries i))" "length inputs + 1 < 2 ^ 64"
  shows "red_rep d' (inputs @ [i])"
proof (cases "Repetition_Completed (rin_evidence i)")
  case False
  then show ?thesis using assms(1,2) by (simp add: red_rep_skip reduce_input_def Let_def)
next
  case True
  have sides: "unat (ss_completed (rd_side s d)) = length (completed_runs s inputs)"
    "side_rep (ss_frequency (rd_side s d)) (completed_runs s inputs)" for s
    using assms(1) by (auto simp: red_rep_def)
  show ?thesis
  proof (cases "rp_Side (rin_evidence i)")
    case SideReference
    with True have o: "of_side SideReference i" by (simp add: of_side_def)
    obtain s ts where r: "side_addRun ord (rin_entries i) (rd_reference d) = Inr s"
      "reduce_entries SideReference (rin_entries i) (rd_tallies d) = Inr ts"
      "d' = d\<lparr>rd_reference := s, rd_failingMinimum := bump_empty i (rd_failingMinimum d), rd_tallies := ts\<rparr>"
      by (rule reduce_input_reference [OF assms(2) o])
    have "\<not> of_side SideCandidate i" using o by (simp add: of_side_def)
    moreover note side_step [OF r(1) _ _ o assms(3,4,5), of] sides [of SideReference, unfolded rd_side_def ComparisonSide.case]
    ultimately show ?thesis
      using sides [of SideCandidate, unfolded rd_side_def ComparisonSide.case] assms(1) other_side [OF o, of SideCandidate inputs]
        tallies_rep_step [OF _ r(2) o assms(4,5)] empty_runs_step [OF _ o assms(5)]
      unfolding red_rep_def r(3) by (auto simp: rd_side_def completed_runs_def worst_snoc split: ComparisonSide.split)
  next
    case SideCandidate
    with True have o: "of_side SideCandidate i" by (simp add: of_side_def)
    obtain s ts l where r: "side_addRun ord (rin_entries i) (rd_candidate d) = Inr s"
      "layerEvidenceOf (rp_RunID (rin_evidence i)) (rin_entries i) = Inr l"
      "reduce_entries SideCandidate (rin_entries i) (rd_tallies d) = Inr ts"
      "d' = d\<lparr>rd_candidate := s, rd_failingMinimum := bump_empty i (rd_failingMinimum d),
        rd_worstBlock := max (rd_worstBlock d) (rp_BlockDecisions (rin_evidence i)),
        rd_worstCR := max (rd_worstCR d) (rp_CriticalRiskObservations (rin_evidence i)),
        rd_candidateLayers := rd_candidateLayers d @ [l], rd_tallies := ts\<rparr>"
      by (rule reduce_input_candidate [OF assms(2) o])
    have "completed_inputs SideCandidate (inputs @ [i]) = completed_inputs SideCandidate inputs @ [i]"
      using o by (simp add: completed_inputs_def)
    then show ?thesis
      using sides [of SideReference, unfolded rd_side_def ComparisonSide.case] assms(1) other_side [OF o, of SideReference inputs]
        side_step [OF r(1) _ _ o assms(3,4,5)] sides [of SideCandidate, unfolded rd_side_def ComparisonSide.case]
        tallies_rep_step [OF _ r(3) o assms(4,5)] empty_runs_step [OF _ o assms(5)] layerEvidence_Inr [OF r(2)] o
      unfolding red_rep_def r(4) by (auto simp: rd_side_def completed_runs_def worst_snoc unat_max split: ComparisonSide.split)
  qed
qed

lemma red_rep_new: "red_rep new_reduction []"
  by (auto simp: red_rep_def new_reduction_def new_side_def rd_side_def completed_runs_def completed_inputs_def side_rep_new empty_runs_def
      worst_def tallies_rep_def presence_def all_shown_def paired_def count_at_def split: ComparisonSide.split)

lemma red_rep_inputs:
  "red_rep d done \<Longrightarrow> reduce_inputs ord inputs d = Inr d' \<Longrightarrow> enumerating ord \<Longrightarrow>
   (\<forall>i \<in> set inputs. distinct (map be_FingerprintID (rin_entries i))) \<Longrightarrow> length done + length inputs < 2 ^ 64 \<Longrightarrow>
   red_rep d' (done @ inputs)"
proof (induction inputs arbitrary: d "done")
  case (Cons i inputs)
  then obtain d1 where d1: "reduce_input ord i d = Inr d1" "reduce_inputs ord inputs d1 = Inr d'" by auto
  have "red_rep d1 (done @ [i])" using Cons.prems by (intro red_rep_step [OF _ d1(1)]) auto
  from Cons.IH [OF this d1(2)] Cons.prems show ?case by simp
qed simp

subsection \<open>The reported behaviours\<close>

lemma behavior_presences_Inr:
  "behavior_presences limits runs d fps = Inr bs \<Longrightarrow> set fps \<subseteq> fset (fmdom (fst (rd_tallies d))) \<Longrightarrow>
   list_all2 (\<lambda>fp b. \<exists>t. fmlookup (fst (rd_tallies d)) fp = Some t \<and> behavior_presence limits runs d fp t = Inr b) fps bs"
proof (induction fps arbitrary: bs)
  case (Cons fp fps)
  then obtain t where t: "fmlookup (fst (rd_tallies d)) fp = Some t" by (auto simp: fmlookup_dom_iff)
  then show ?case using Cons by (fastforce simp: list_all2_Cons1)
qed simp

text \<open>What the report says of one behaviour, as numbers over the completed repetitions.\<close>

definition presence_fields :: "RepeatedEvaluationGateLimits \<Rightarrow> nat \<Rightarrow> repetitionInput list \<Rightarrow> RepeatedBehaviorPresence \<Rightarrow> bool" where
  "presence_fields limits runs inputs b \<longleftrightarrow>
     (let fp = bp_FingerprintID b; ref = presence SideReference inputs fp; cand = presence SideCandidate inputs fp;
          k = unat (rl_AddedCandidatePresenceMinimum limits); j = unat (rl_AddedReferencePresenceMaximum limits) in
      unat (bp_ReferenceRunsPresent b) = ref \<and> unat (bp_CandidateRunsPresent b) = cand \<and>
      bp_Classification b = (if k \<le> cand \<and> ref \<le> j then RepeatedAdded else if k \<le> ref \<and> cand \<le> j then RepeatedRemoved else RepeatedNeither) \<and>
      (bp_Lost b \<longleftrightarrow> 0 < runs \<and> ref = runs \<and> cand < runs) \<and>
      stats_of (map (calls (\<lambda>e. be_FingerprintID e = fp)) (completed_runs SideReference inputs)) (bp_Reference b) \<and>
      stats_of (map (calls (\<lambda>e. be_FingerprintID e = fp)) (completed_runs SideCandidate inputs)) (bp_Candidate b))"

lemma behavior_presence_fields:
  assumes "red_rep d inputs" "fmlookup (fst (rd_tallies d)) fp = Some t" "behavior_presence limits runs d fp t = Inr b" "runs < 2 ^ 64"
  shows "bp_FingerprintID b = fp \<and> bp_Behavior b = ta_behavior t \<and> presence_fields limits runs inputs b"
proof -
  have n: "unat (of_nat runs :: u64) = runs" using assms(4) by (simp add: unat_of_nat)
  have c: "unat (ta_reference t) = presence SideReference inputs fp" "unat (ta_candidate t) = presence SideCandidate inputs fp"
    using assms(1,2) unfolding red_rep_def tallies_rep_def
    by (auto simp: count_at_def side_count_def dest!: spec [of _ fp] split: ComparisonSide.split_asm)
  have side: "side_rep (ss_frequency (rd_side side d)) (completed_runs side inputs)" for side
    using assms(1) unfolding red_rep_def by blast
  obtain ref cand where st: "behaviorStats (ss_frequency (rd_side SideReference d)) fp = Inr ref"
    "behaviorStats (ss_frequency (rd_side SideCandidate d)) fp = Inr cand" and b: "bp_Reference b = ref" "bp_Candidate b = cand"
    "bp_FingerprintID b = fp" "bp_Behavior b = ta_behavior t" "bp_ReferenceRunsPresent b = ta_reference t" "bp_CandidateRunsPresent b = ta_candidate t"
    "bp_Classification b = classifyPresence (ta_reference t) (ta_candidate t)
              (rl_AddedCandidatePresenceMinimum limits) (rl_AddedReferencePresenceMaximum limits)"
    "bp_Lost b = isLost (ta_reference t) (ta_candidate t) (of_nat runs)"
    using assms(3) by (auto simp: behavior_presence_def rd_side_def)
  have "stats_of (map (calls (\<lambda>e. be_FingerprintID e = fp)) (completed_runs SideReference inputs)) ref"
    "stats_of (map (calls (\<lambda>e. be_FingerprintID e = fp)) (completed_runs SideCandidate inputs)) cand"
    using st behaviorStats_exact [OF side] by blast+
  moreover have "isLost (ta_reference t) (ta_candidate t) (of_nat runs) \<longleftrightarrow>
      0 < runs \<and> presence SideReference inputs fp = runs \<and> presence SideCandidate inputs fp < runs"
    unfolding isLost_def word_less_nat_alt word_unat_eq_iff n c by auto
  ultimately show ?thesis
    by (simp add: presence_fields_def Let_def b classifyPresence_def word_le_nat_alt c)
qed

lemma reduceRepeated_Inr:
  assumes "reduceRepeated ord limits runs inputs = Inr c"
  obtains d unsorted where "reduce_inputs ord inputs new_reduction = Inr d"
    "behavior_presences limits runs d (mo_string ord (fmdom (fst (rd_tallies d)))) = Inr unsorted"
    "targetFrequencies ord (ss_frequency (rd_reference d)) (ss_frequency (rd_candidate d)) = Inr (rq_Targets c)"
    "rq_Behaviors c = sort_key bp_FingerprintID unsorted"
    "rq_Gate c = repeated_gate limits runs d (sort_key bp_FingerprintID unsorted)"
  using assms by (auto simp: reduceRepeated_def Let_def split_beta)

lemma list_all2_map_fst: "list_all2 (\<lambda>x y. f y = x \<and> P y) xs ys \<longleftrightarrow> map f ys = xs \<and> (\<forall>y \<in> set ys. P y)"
  by (induction xs arbitrary: ys) (auto simp: list_all2_Cons1)

lemma reported_behaviors:
  assumes d: "red_rep d inputs" and bs: "behavior_presences limits runs d (mo_string ord (fmdom (fst (rd_tallies d)))) = Inr bs"
    and "enumerating ord" "runs < 2 ^ 64"
  shows "map bp_FingerprintID (sort_key bp_FingerprintID bs) = sorted_list_of_set (all_shown inputs)"
    and "\<forall>b \<in> set bs. presence_fields limits runs inputs b"
    and "distinct (map bp_FingerprintID bs)" "set (map bp_FingerprintID bs) = all_shown inputs"
    and "distinct (map bp_Behavior bs)"
proof -
  let ?fps = "mo_string ord (fmdom (fst (rd_tallies d)))" and ?seen = "fst (rd_tallies d)"
  have dom: "distinct ?fps" "set ?fps = fset (fmdom ?seen)" "fset (fmdom ?seen) = all_shown inputs" "paired (rd_tallies d)"
    using assms(3) d by (auto simp: enumerating_def enumerates_def red_rep_def tallies_rep_def)
  let ?P = "\<lambda>b. presence_fields limits runs inputs b \<and> (\<exists>t. fmlookup ?seen (bp_FingerprintID b) = Some t \<and> bp_Behavior b = ta_behavior t)"
  have "list_all2 (\<lambda>fp b. \<exists>t. fmlookup ?seen fp = Some t \<and> behavior_presence limits runs d fp t = Inr b) ?fps bs"
    using behavior_presences_Inr [OF bs] dom(2) by simp
  then have "list_all2 (\<lambda>fp b. bp_FingerprintID b = fp \<and> ?P b) ?fps bs"
    by (rule list_all2_mono) (use behavior_presence_fields [OF d _ _ assms(4)] in fastforce)
  then have m: "map bp_FingerprintID bs = ?fps" and P: "\<forall>b \<in> set bs. ?P b" unfolding list_all2_map_fst by auto
  show "\<forall>b \<in> set bs. presence_fields limits runs inputs b" using P by blast
  show dis: "distinct (map bp_FingerprintID bs)" and st: "set (map bp_FingerprintID bs) = all_shown inputs" using m dom by auto
  have "finite (all_shown inputs)" using st by (metis List.finite_set)
  then show "map bp_FingerprintID (sort_key bp_FingerprintID bs) = sorted_list_of_set (all_shown inputs)"
    using dis st by (intro sorted_distinct_set_unique) (auto simp: distinct_map)
  have "bp_FingerprintID a = bp_FingerprintID b" if "a \<in> set bs" "b \<in> set bs" "bp_Behavior a = bp_Behavior b" for a b
  proof -
    obtain t u where tu: "fmlookup ?seen (bp_FingerprintID a) = Some t" "fmlookup ?seen (bp_FingerprintID b) = Some u" "ta_behavior t = ta_behavior u"
      using P \<open>a \<in> set bs\<close> \<open>b \<in> set bs\<close> \<open>bp_Behavior a = bp_Behavior b\<close> by metis
    have "fmlookup (snd (rd_tallies d)) (ta_behavior v) = Some k" if "fmlookup ?seen k = Some v" for k v
      using dom(4) that unfolding paired_def split_beta by blast
    from this [OF tu(1)] this [OF tu(2)] tu(3) show ?thesis by simp
  qed
  then show "distinct (map bp_Behavior bs)"
    using dis unfolding distinct_map inj_on_def by blast
qed

subsection \<open>The execution-wide bound\<close>

lemma reduce_entry_bound:
  assumes "reduce_entry side e (seen, f) = Inr (seen', f')" "fmsize seen \<le> maxBehaviorEntries"
  shows "fmsize seen' \<le> maxBehaviorEntries"
proof (cases "be_Observations e = 0")
  case True
  then show ?thesis using assms by (simp add: reduce_entry_def)
next
  case False
  then obtain t t' where t: "tally_of e seen = Inr t" "seen' = fmupd (be_FingerprintID e) t' seen"
    using assms(1) by (auto simp: reduce_entry_def split: if_splits)
  show ?thesis unfolding t(2) fmsize_fmupd using t(1) assms(2)
    by (cases "fmlookup seen (be_FingerprintID e)") (simp_all add: tally_of_def split: if_splits)
qed

lemma reduce_entries_bound:
  "reduce_entries side es (seen, f) = Inr (seen', f') \<Longrightarrow> fmsize seen \<le> maxBehaviorEntries \<Longrightarrow> fmsize seen' \<le> maxBehaviorEntries"
proof (induction es arbitrary: seen f)
  case (Cons e es)
  then obtain s1 f1 where "reduce_entry side e (seen, f) = Inr (s1, f1)" "reduce_entries side es (s1, f1) = Inr (seen', f')" by auto
  then show ?case using Cons reduce_entry_bound by blast
qed simp

lemma reduce_input_bound:
  assumes "reduce_input ord i d = Inr d'" "fmsize (fst (rd_tallies d)) \<le> maxBehaviorEntries"
  shows "fmsize (fst (rd_tallies d')) \<le> maxBehaviorEntries"
proof (cases "\<exists>side. of_side side i")
  case False
  then show ?thesis using assms by (auto simp: reduce_input_def of_side_def Let_def)
next
  case True
  then obtain side where o: "of_side side i" by blast
  obtain ts where "reduce_entries side (rin_entries i) (rd_tallies d) = Inr ts" "rd_tallies d' = ts"
  proof (cases side)
    case SideReference
    show thesis by (rule reduce_input_reference [OF assms(1) o [unfolded SideReference]]) (simp add: that SideReference)
  next
    case SideCandidate
    show thesis by (rule reduce_input_candidate [OF assms(1) o [unfolded SideCandidate]]) (simp add: that SideCandidate)
  qed
  then show ?thesis using reduce_entries_bound assms(2) by (metis prod.collapse)
qed

lemma reduce_inputs_bound:
  "reduce_inputs ord is d = Inr d' \<Longrightarrow> fmsize (fst (rd_tallies d)) \<le> maxBehaviorEntries \<Longrightarrow> fmsize (fst (rd_tallies d')) \<le> maxBehaviorEntries"
  by (induction "is" arbitrary: d) (auto dest: reduce_input_bound)

lemma shown_bound:
  assumes "reduce_inputs ord inputs new_reduction = Inr d" "red_rep d inputs"
  shows "card (all_shown inputs) \<le> maxBehaviorEntries"
proof -
  have "fset (fmdom (fst (rd_tallies d))) = all_shown inputs" using assms(2) by (simp add: red_rep_def tallies_rep_def)
  then have "card (all_shown inputs) = fmsize (fst (rd_tallies d))" by (metis fcard.rep_eq fmsize_def)
  moreover have "fmsize (fst (rd_tallies new_reduction)) \<le> maxBehaviorEntries" by (simp add: new_reduction_def)
  ultimately show ?thesis using reduce_inputs_bound [OF assms(1)] by simp
qed

subsection \<open>The checks\<close>

definition target_limit_met :: "repetitionInput list \<Rightarrow> TargetCallLimit \<Rightarrow> bool" where
  "target_limit_met inputs t \<longleftrightarrow>
     (\<exists>r \<in> set (completed_runs SideReference inputs) \<union> set (completed_runs SideCandidate inputs).
        calls (\<lambda>e. sf_TargetName (be_Behavior e) = tl_Target t) r \<noteq> 0) \<and>
     (\<forall>r \<in> set (completed_runs SideCandidate inputs). calls (\<lambda>e. sf_TargetName (be_Behavior e) = tl_Target t) r \<le> unat (tl_Max t))"

definition frequency_limits_met :: "RepeatedEvaluationGateLimits \<Rightarrow> nat \<Rightarrow> repetitionInput list \<Rightarrow> bool" where
  "frequency_limits_met l runs inputs \<longleftrightarrow>
     (let refs = completed_runs SideReference inputs; cands = completed_runs SideCandidate inputs;
          ref = presence SideReference inputs; cand = presence SideCandidate inputs in
      (ol_set (rl_MinCandidateFrequency l) \<longrightarrow> refs \<noteq> [] \<and> cands \<noteq> [] \<and> (\<exists>fp \<in> all_shown inputs. ref fp = runs) \<and>
         (\<forall>fp \<in> all_shown inputs. ref fp = runs \<longrightarrow> unat (ol_maximum (rl_MinCandidateFrequency l)) \<le> cand fp)) \<and>
      (ol_set (rl_MaxLostBehaviors l) \<longrightarrow> refs \<noteq> [] \<and> cands \<noteq> [] \<and>
         card {fp \<in> all_shown inputs. 0 < runs \<and> ref fp = runs \<and> cand fp < runs} \<le> unat (ol_maximum (rl_MaxLostBehaviors l))) \<and>
      (\<forall>ts. rl_MaxCallsPerRun l = Some ts \<longrightarrow> cands \<noteq> [] \<and>
         (\<forall>t \<in> set ts. target_limit_met inputs t)) \<and>
      (ol_set (rl_MaxLLMCallsPerRun l) \<longrightarrow> cands \<noteq> [] \<and>
         (\<forall>r \<in> set cands. 1 \<le> model_calls r \<and> model_calls r \<le> unat (ol_maximum (rl_MaxLLMCallsPerRun l)))))"

lemma states_distinct [simp]: "GateCheckDeferred \<noteq> GateCheckEvaluated" "GateCheckNotEvaluated \<noteq> GateCheckEvaluated"
  "GateCheckNotEvaluated \<noteq> GateCheckDeferred" "GateCheckEvaluated \<noteq> GateCheckDeferred"
  by (simp_all add: GateCheckDeferred_def GateCheckEvaluated_def GateCheckNotEvaluated_def)

lemma fails_simps [simp]: "\<not> failsVerdict (notEvaluated n)" "failsVerdict (deferred c m)"
  "failsVerdict (evaluated c r a b p) = (\<not> p)"
  by (simp_all add: failsVerdict_def notEvaluated_def deferred_def evaluated_def)

lemma lowest_presence_spec:
  "lowest_presence runs bs (l, q) = (l', q') \<Longrightarrow>
   (q' \<longleftrightarrow> q \<or> (\<exists>b \<in> set bs. bp_ReferenceRunsPresent b = runs)) \<and>
   (q' \<longrightarrow> (m \<le> l' \<longleftrightarrow> (q \<longrightarrow> m \<le> l) \<and> (\<forall>b \<in> set bs. bp_ReferenceRunsPresent b = runs \<longrightarrow> m \<le> bp_CandidateRunsPresent b)))"
proof (induction bs arbitrary: l q)
  case (Cons b bs)
  show ?case
  proof (cases "bp_ReferenceRunsPresent b = runs")
    case False
    then show ?thesis using Cons by simp
  next
    case True
    then have "lowest_presence runs bs (if \<not> q \<or> bp_CandidateRunsPresent b < l then bp_CandidateRunsPresent b else l, True) = (l', q')"
      using Cons.prems by simp
    from Cons.IH [OF this] True show ?thesis by (auto split: if_splits)
  qed
qed auto

lemma count_lost_spec: "count_lost bs n = n + of_nat (length (filter bp_Lost bs))"
  by (induction bs arbitrary: n) auto

lemma scan_layers_spec:
  "scan_layers ls (w, n, f) = (w', n', f') \<Longrightarrow>
   n' = n + of_nat (length (filter (\<lambda>l. ly_modelCalls l = 0) ls)) \<and> (w' \<le> m \<longleftrightarrow> w \<le> m \<and> (\<forall>l \<in> set ls. ly_modelCalls l \<le> m))"
proof (induction ls arbitrary: w n f)
  case (Cons l ls)
  then show ?case by (auto split: if_splits) fastforce+
qed simp

text \<open>What the checks read: a reduction that represents its inputs, and the list of reported behaviours.\<close>

definition reported :: "reduction \<Rightarrow> repetitionInput list \<Rightarrow> RepeatedEvaluationGateLimits \<Rightarrow> nat \<Rightarrow> RepeatedBehaviorPresence list \<Rightarrow> bool" where
  "reported d inputs limits runs bs \<longleftrightarrow>
     red_rep d inputs \<and> runs < 2 ^ 64 \<and> length inputs < 2 ^ 64 \<and> card (all_shown inputs) < 2 ^ 64 \<and>
     (\<forall>b \<in> set bs. presence_fields limits runs inputs b) \<and>
     distinct (map bp_FingerprintID bs) \<and> set (map bp_FingerprintID bs) = all_shown inputs"

lemma reportedD:
  assumes "reported d inputs limits runs bs"
  shows rep: "red_rep d inputs" and small: "runs < 2 ^ 64" "length inputs < 2 ^ 64" "card (all_shown inputs) < 2 ^ 64"
    and fields: "b \<in> set bs \<Longrightarrow> presence_fields limits runs inputs b"
    and fps: "distinct (map bp_FingerprintID bs)" "set (map bp_FingerprintID bs) = all_shown inputs"
  using assms by (simp_all add: reported_def)

lemma runs_word:
  assumes R: "reported d inputs limits runs bs"
  shows "unat (of_nat runs :: u64) = runs"
  using small(1) [OF R] by (simp add: unat_of_nat)

lemma reported_side:
  assumes R: "reported d inputs limits runs bs"
  shows completed: "unat (ss_completed (rd_side side d)) = length (completed_runs side inputs)"
  and frequency: "side_rep (ss_frequency (rd_side side d)) (completed_runs side inputs)"
  using rep [OF R] unfolding red_rep_def by blast+

lemma side_empty:
  assumes R: "reported d inputs limits runs bs"
  shows "ss_completed (rd_side side d) = 0 \<longleftrightarrow> completed_runs side inputs = []"
  using completed [OF R, of side] by (simp add: unat_eq_0 [symmetric])

lemma missing_side:
  assumes R: "reported d inputs limits runs bs"
  shows "missingSide (gate_inputs runs d bs) = NothingMissing \<longleftrightarrow>
    completed_runs SideReference inputs \<noteq> [] \<and> completed_runs SideCandidate inputs \<noteq> []"
  using side_empty [OF R, of SideReference] side_empty [OF R, of SideCandidate] by (auto simp: missingSide_def gate_inputs_def rd_side_def)

lemma reported_quantifiers:
  assumes R: "reported d inputs limits runs bs"
  shows ball_fps: "(\<forall>b \<in> set bs. P (bp_FingerprintID b)) \<longleftrightarrow> (\<forall>fp \<in> all_shown inputs. P fp)"
  and bex_fps: "(\<exists>b \<in> set bs. P (bp_FingerprintID b)) \<longleftrightarrow> (\<exists>fp \<in> all_shown inputs. P fp)"
  unfolding fps(2) [OF R, symmetric] by auto

lemma counts:
  assumes R: "reported d inputs limits runs bs"
  shows "b \<in> set bs \<Longrightarrow> unat (bp_ReferenceRunsPresent b) = presence SideReference inputs (bp_FingerprintID b)"
  "b \<in> set bs \<Longrightarrow> unat (bp_CandidateRunsPresent b) = presence SideCandidate inputs (bp_FingerprintID b)"
  using fields [OF R] by (auto simp: presence_fields_def Let_def)

lemma in_every:
  assumes R: "reported d inputs limits runs bs"
  shows "b \<in> set bs \<Longrightarrow> bp_ReferenceRunsPresent b = of_nat runs \<longleftrightarrow> presence SideReference inputs (bp_FingerprintID b) = runs"
  unfolding word_unat_eq_iff runs_word [OF R] counts(1) [OF R] ..

lemma card_filter:
  assumes R: "reported d inputs limits runs bs" and Q: "\<And>b. b \<in> set bs \<Longrightarrow> Q b \<longleftrightarrow> P (bp_FingerprintID b)"
  shows "length (filter Q bs) = card {fp \<in> all_shown inputs. P fp}" "length (filter Q bs) < 2 ^ 64"
proof -
  have "{fp \<in> all_shown inputs. P fp} = bp_FingerprintID ` set (filter Q bs)" unfolding fps(2) [OF R, symmetric] using Q by auto
  moreover have "distinct (map bp_FingerprintID (filter Q bs))" by (rule distinct_map_filter [OF fps(1) [OF R]])
  ultimately show "length (filter Q bs) = card {fp \<in> all_shown inputs. P fp}"
    by (metis distinct_card length_map set_map)
  have "length bs = card (all_shown inputs)" using fps [OF R] by (metis distinct_card length_map)
  then show "length (filter Q bs) < 2 ^ 64" using small(3) [OF R] le_less_trans [OF length_filter_le] by metis
qed

lemma min_check:
  assumes R: "reported d inputs limits runs bs"
  shows "\<not> failsVerdict (minCandidateCheck limits (gate_inputs runs d bs)) \<longleftrightarrow>
     (ol_set (rl_MinCandidateFrequency limits) \<longrightarrow>
        completed_runs SideReference inputs \<noteq> [] \<and> completed_runs SideCandidate inputs \<noteq> [] \<and>
        (\<exists>fp \<in> all_shown inputs. presence SideReference inputs fp = runs) \<and>
        (\<forall>fp \<in> all_shown inputs. presence SideReference inputs fp = runs \<longrightarrow>
           unat (ol_maximum (rl_MinCandidateFrequency limits)) \<le> presence SideCandidate inputs fp))"
proof -
  obtain lo q where l: "lowest_presence (of_nat runs) bs (0, False) = (lo, q)" by force
  let ?min = "ol_maximum (rl_MinCandidateFrequency limits)"
  note s = lowest_presence_spec [OF l, of ?min, simplified]
  have q: "q \<longleftrightarrow> (\<exists>fp \<in> all_shown inputs. presence SideReference inputs fp = runs)"
    using s in_every [OF R] unfolding bex_fps [OF R, symmetric] by auto
  have m: "q \<longrightarrow> (?min \<le> lo \<longleftrightarrow> (\<forall>fp \<in> all_shown inputs. presence SideReference inputs fp = runs \<longrightarrow> unat ?min \<le> presence SideCandidate inputs fp))"
    using s in_every [OF R] counts(2) [OF R] unfolding ball_fps [OF R, symmetric] word_le_nat_alt by auto
  have "\<not> failsVerdict (minCandidateCheck limits (gate_inputs runs d bs)) \<longleftrightarrow>
      (ol_set (rl_MinCandidateFrequency limits) \<longrightarrow> missingSide (gate_inputs runs d bs) = NothingMissing \<and> q \<and> ?min \<le> lo)"
    using l by (auto simp: minCandidateCheck_def Let_def gate_inputs_def)
  then show ?thesis unfolding missing_side [OF R] using q m by blast
qed

lemma lost_check:
  assumes R: "reported d inputs limits runs bs"
  shows "\<not> failsVerdict (maxLostCheck limits (gate_inputs runs d bs)) \<longleftrightarrow>
     (ol_set (rl_MaxLostBehaviors limits) \<longrightarrow>
        completed_runs SideReference inputs \<noteq> [] \<and> completed_runs SideCandidate inputs \<noteq> [] \<and>
        card {fp \<in> all_shown inputs. 0 < runs \<and> presence SideReference inputs fp = runs \<and> presence SideCandidate inputs fp < runs}
          \<le> unat (ol_maximum (rl_MaxLostBehaviors limits)))"
proof -
  have f: "b \<in> set bs \<Longrightarrow> bp_Lost b \<longleftrightarrow>
      0 < runs \<and> presence SideReference inputs (bp_FingerprintID b) = runs \<and> presence SideCandidate inputs (bp_FingerprintID b) < runs" for b
    using fields [OF R, of b] by (simp add: presence_fields_def Let_def)
  have c: "length (filter bp_Lost bs) = card {fp \<in> all_shown inputs. 0 < runs \<and> presence SideReference inputs fp = runs \<and>
      presence SideCandidate inputs fp < runs}" "length (filter bp_Lost bs) < 2 ^ 64"
    by (rule card_filter [OF R], rule f, assumption)+
  have "unat (count_lost bs 0) = length (filter bp_Lost bs)"
    using c(2) by (simp add: count_lost_spec unat_of_nat)
  then have "\<not> failsVerdict (maxLostCheck limits (gate_inputs runs d bs)) \<longleftrightarrow> (ol_set (rl_MaxLostBehaviors limits) \<longrightarrow>
      missingSide (gate_inputs runs d bs) = NothingMissing \<and> length (filter bp_Lost bs) \<le> unat (ol_maximum (rl_MaxLostBehaviors limits)))"
    by (auto simp: maxLostCheck_def Let_def gate_inputs_def word_le_nat_alt)
  then show ?thesis unfolding missing_side [OF R] c(1) by blast
qed

lemma reported_names:
  assumes R: "reported d inputs limits runs bs"
  shows called: "k |\<in>| fmdom (fd_byName (ss_frequency (rd_side side d))) \<longleftrightarrow>
      (\<exists>r \<in> set (completed_runs side inputs). calls (\<lambda>e. sf_TargetName (be_Behavior e) = k) r \<noteq> 0)"
  and most_calls: "fmlookup (fd_byName (ss_frequency (rd_side side d))) k = Some a \<Longrightarrow>
      unat (fa_max a) \<le> m \<longleftrightarrow> (\<forall>r \<in> set (completed_runs side inputs). calls (\<lambda>e. sf_TargetName (be_Behavior e) = k) r \<le> m)"
proof -
  let ?c = "calls (\<lambda>e. sf_TargetName (be_Behavior e) = k)"
  have k: "acc_rep (fmget emptyAccumulator (fd_byName (ss_frequency (rd_side side d))) k) (filter (\<lambda>c. c \<noteq> 0) (map ?c (completed_runs side inputs)))"
    "k |\<in>| fmdom (fd_byName (ss_frequency (rd_side side d))) \<longleftrightarrow> filter (\<lambda>c. c \<noteq> 0) (map ?c (completed_runs side inputs)) \<noteq> []"
    using frequency [OF R, of side] unfolding side_rep_def key_rep_def present_calls_def by blast+
  show "k |\<in>| fmdom (fd_byName (ss_frequency (rd_side side d))) \<longleftrightarrow> (\<exists>r \<in> set (completed_runs side inputs). ?c r \<noteq> 0)"
    unfolding k(2) by (auto simp: filter_empty_conv)
  show "unat (fa_max a) \<le> m \<longleftrightarrow> (\<forall>r \<in> set (completed_runs side inputs). ?c r \<le> m)"
    if "fmlookup (fd_byName (ss_frequency (rd_side side d))) k = Some a"
  proof -
    have "unat (fa_max a) = Max (insert 0 (set (filter (\<lambda>c. c \<noteq> 0) (map ?c (completed_runs side inputs)))))"
      using k(1) that by (simp add: acc_rep_def fmget_def)
    then show ?thesis by auto
  qed
qed

lemma target_check:
  assumes R: "reported d inputs limits runs bs"
  shows "tc_Outcome (target_call_check (gate_inputs runs d bs) t) = TargetCallPass \<longleftrightarrow> target_limit_met inputs t"
proof -
  let ?ref = "fmlookup (fd_byName (ss_frequency (rd_side SideReference d))) (tl_Target t)"
  let ?cand = "fmlookup (fd_byName (ss_frequency (rd_side SideCandidate d))) (tl_Target t)"
  have i: "gi_referenceByName (gate_inputs runs d bs) = fd_byName (ss_frequency (rd_side SideReference d))"
    "gi_candidByName (gate_inputs runs d bs) = fd_byName (ss_frequency (rd_side SideCandidate d))"
    by (simp_all add: gate_inputs_def rd_side_def)
  have o: "tc_Outcome (target_call_check (gate_inputs runs d bs) t) = TargetCallPass \<longleftrightarrow>
      (?cand \<noteq> None \<or> ?ref \<noteq> None) \<and> (\<forall>a. ?cand = Some a \<longrightarrow> unat (fa_max a) \<le> unat (tl_Max t))"
    by (auto simp: target_call_check_def Let_def i TargetCallPass_def TargetCallFail_def TargetCallNotObserved_def word_less_nat_alt
        split: option.splits)
  show ?thesis
  proof (cases ?cand)
    case None
    then have "tl_Target t |\<notin>| fmdom (fd_byName (ss_frequency (rd_side SideCandidate d)))" by (simp add: fmdom_notI)
    then show ?thesis unfolding o target_limit_met_def using None called [OF R, of "tl_Target t" SideCandidate] called [OF R, of "tl_Target t" SideReference]
      by (auto simp: fmlookup_dom_iff)
  next
    case (Some a)
    then have "tl_Target t |\<in>| fmdom (fd_byName (ss_frequency (rd_side SideCandidate d)))" by (rule fmdomI)
    then show ?thesis unfolding o target_limit_met_def using Some called [OF R, of "tl_Target t" SideCandidate] most_calls [OF R Some, of "unat (tl_Max t)"]
      by auto
  qed
qed

lemma calls_check:
  assumes R: "reported d inputs limits runs bs"
  shows "\<not> failsVerdict (maxCallsCheck limits (gate_inputs runs d bs)) \<longleftrightarrow>
     (\<forall>ts. rl_MaxCallsPerRun limits = Some ts \<longrightarrow> completed_runs SideCandidate inputs \<noteq> [] \<and> (\<forall>t \<in> set ts. target_limit_met inputs t))"
proof (cases "rl_MaxCallsPerRun limits")
  case (Some ts)
  have "gi_candidateRuns (gate_inputs runs d bs) = 0 \<longleftrightarrow> completed_runs SideCandidate inputs = []"
    using side_empty [OF R, of SideCandidate] by (simp add: gate_inputs_def rd_side_def)
  then show ?thesis using Some
    by (simp add: maxCallsCheck_def Let_def failsVerdict_def [of "_\<lparr>fg_State := GateCheckEvaluated, fg_Rule := _, fg_Passed := _, fg_Targets := _\<rparr>"]
        list_all_iff target_check [OF R])
qed (simp add: maxCallsCheck_def)

lemma llm_check:
  assumes R: "reported d inputs limits runs bs"
  shows "\<not> failsVerdict (maxLLMCheck limits (gate_inputs runs d bs)) \<longleftrightarrow>
     (ol_set (rl_MaxLLMCallsPerRun limits) \<longrightarrow> completed_runs SideCandidate inputs \<noteq> [] \<and>
        (\<forall>r \<in> set (completed_runs SideCandidate inputs). 1 \<le> model_calls r \<and> model_calls r \<le> unat (ol_maximum (rl_MaxLLMCallsPerRun limits))))"
proof -
  let ?ls = "rd_candidateLayers d" and ?max = "ol_maximum (rl_MaxLLMCallsPerRun limits)"
  obtain w n f where s: "scan_layers ?ls (0, 0, '''') = (w, n, f)" by (metis surj_pair)
  note sp = scan_layers_spec [OF s, of ?max, simplified]
  have "map (\<lambda>l. (ly_runID l, unat (ly_modelCalls l))) ?ls =
      map (\<lambda>i. (rp_RunID (rin_evidence i), model_calls (rin_entries i))) (completed_inputs SideCandidate inputs)"
    using rep [OF R] by (simp add: red_rep_def)
  from arg_cong [OF this, of "map snd"] have m: "map (\<lambda>l. unat (ly_modelCalls l)) ?ls = map model_calls (completed_runs SideCandidate inputs)"
    by (simp add: comp_def completed_runs_def)
  have set_ls: "(\<lambda>l. unat (ly_modelCalls l)) ` set ?ls = model_calls ` set (completed_runs SideCandidate inputs)"
    using arg_cong [OF m, of set] by simp
  have "length ?ls = length (completed_runs SideCandidate inputs)" using arg_cong [OF m, of length] by simp
  also have "\<dots> < 2 ^ 64" unfolding completed_runs_def completed_inputs_def length_map
    by (rule le_less_trans [OF length_filter_le small(2) [OF R]])
  finally have "length (filter (\<lambda>l. ly_modelCalls l = 0) ?ls) < 2 ^ 64" by (rule le_less_trans [OF length_filter_le])
  then have "unat n = length (filter (\<lambda>l. ly_modelCalls l = 0) ?ls)" using sp by (simp add: unat_of_nat)
  then have "n = 0 \<longleftrightarrow> (\<forall>v \<in> (\<lambda>l. unat (ly_modelCalls l)) ` set ?ls. 1 \<le> v)"
    by (auto simp: unat_eq_0 [symmetric] filter_empty_conv Suc_le_eq)
  moreover have "w \<le> ?max \<longleftrightarrow> (\<forall>v \<in> (\<lambda>l. unat (ly_modelCalls l)) ` set ?ls. v \<le> unat ?max)"
    using sp by (auto simp: word_le_nat_alt)
  moreover have "gi_candidateRuns (gate_inputs runs d bs) = 0 \<longleftrightarrow> completed_runs SideCandidate inputs = []"
    using side_empty [OF R, of SideCandidate] by (simp add: gate_inputs_def rd_side_def)
  moreover have "\<not> failsVerdict (maxLLMCheck limits (gate_inputs runs d bs)) \<longleftrightarrow>
      (ol_set (rl_MaxLLMCallsPerRun limits) \<longrightarrow> n = 0 \<and> gi_candidateRuns (gate_inputs runs d bs) \<noteq> 0 \<and> w \<le> ?max)"
    using s by (auto simp: maxLLMCheck_def Let_def gate_inputs_def word_gt_0)
  ultimately show ?thesis unfolding set_ls by auto
qed




lemma frequency_checks:
  assumes R: "reported d inputs limits runs bs"
  shows "list_all (\<lambda>c. \<not> failsVerdict c) (evaluateFrequencyGates limits (gate_inputs runs d bs)) \<longleftrightarrow> frequency_limits_met limits runs inputs"
  unfolding evaluateFrequencyGates_def frequency_limits_met_def Let_def
  by (simp only: list.pred_inject min_check [OF R] lost_check [OF R] calls_check [OF R] llm_check [OF R] simp_thms)

text \<open>The condition of the six named checks, in natural numbers.\<close>

definition required_limits_met :: "RepeatedEvaluationGateLimits \<Rightarrow> nat \<Rightarrow> repetitionInput list \<Rightarrow> bool" where
  "required_limits_met l runs inputs \<longleftrightarrow>
     length (completed_runs SideReference inputs) = runs \<and> length (completed_runs SideCandidate inputs) = runs \<and>
     (\<forall>i \<in> set inputs. Repetition_Completed (rin_evidence i) \<longrightarrow> rp_RecordCount (rin_evidence i) \<noteq> 0) \<and>
     card {fp \<in> all_shown inputs. unat (rl_AddedCandidatePresenceMinimum l) \<le> presence SideCandidate inputs fp \<and>
             presence SideReference inputs fp \<le> unat (rl_AddedReferencePresenceMaximum l)}
       \<le> unat (rl_MaxRepeatedAddedBehaviors l) \<and>
     (\<forall>i \<in> set inputs. of_side SideCandidate i \<longrightarrow>
        rp_BlockDecisions (rin_evidence i) \<le> rl_MaxBlockDecisionsPerRun l \<and>
        rp_CriticalRiskObservations (rin_evidence i) \<le> rl_MaxCriticalRiskObservationsPerRun l)"

lemma worst_le: "worst f inputs \<le> unat m \<longleftrightarrow> (\<forall>i \<in> set inputs. of_side SideCandidate i \<longrightarrow> f (rin_evidence i) \<le> m)"
  unfolding worst_def completed_inputs_def word_le_nat_alt by auto

lemma classes_distinct [simp]: "RepeatedRemoved \<noteq> RepeatedAdded" "RepeatedNeither \<noteq> RepeatedAdded"
  by (simp_all add: RepeatedRemoved_def RepeatedNeither_def RepeatedAdded_def)

lemma required_checks:
  assumes R: "reported d inputs limits runs bs"
  shows "list_all rg_Passed (repeated_checks limits runs d bs) \<longleftrightarrow> required_limits_met limits runs inputs"
proof -
  let ?added = "\<lambda>b. bp_Classification b = RepeatedAdded"
  have f: "b \<in> set bs \<Longrightarrow> ?added b \<longleftrightarrow> unat (rl_AddedCandidatePresenceMinimum limits) \<le> presence SideCandidate inputs (bp_FingerprintID b) \<and>
      presence SideReference inputs (bp_FingerprintID b) \<le> unat (rl_AddedReferencePresenceMaximum limits)" for b
    using fields [OF R, of b] by (auto simp: presence_fields_def Let_def)
  have c: "length (filter ?added bs) = card {fp \<in> all_shown inputs. unat (rl_AddedCandidatePresenceMinimum limits) \<le> presence SideCandidate inputs fp \<and>
      presence SideReference inputs fp \<le> unat (rl_AddedReferencePresenceMaximum limits)}" "length (filter ?added bs) < 2 ^ 64"
    by (rule card_filter [OF R], rule f, assumption)+
  have a: "unat (of_nat (length (filter ?added bs)) :: u64) = length (filter ?added bs)" using c(2) by (simp add: unat_of_nat)
  have r: "unat (rd_failingMinimum d) = length (empty_runs inputs)" "unat (rd_worstBlock d) = worst rp_BlockDecisions inputs"
    "unat (rd_worstCR d) = worst rp_CriticalRiskObservations inputs"
    using rep [OF R] by (auto simp: red_rep_def)
  have e: "length (empty_runs inputs) \<le> 0 \<longleftrightarrow> (\<forall>i \<in> set inputs. Repetition_Completed (rin_evidence i) \<longrightarrow> rp_RecordCount (rin_evidence i) \<noteq> 0)"
    by (auto simp: empty_runs_def filter_empty_conv)
  have n: "ss_completed (rd_reference d) = of_nat runs \<longleftrightarrow> length (completed_runs SideReference inputs) = runs"
    "ss_completed (rd_candidate d) = of_nat runs \<longleftrightarrow> length (completed_runs SideCandidate inputs) = runs"
    using completed [OF R, of SideReference] completed [OF R, of SideCandidate] unfolding word_unat_eq_iff runs_word [OF R]
    by (simp_all add: rd_side_def)
  have "list_all rg_Passed (repeated_checks limits runs d bs) \<longleftrightarrow>
      ss_completed (rd_reference d) = of_nat runs \<and> ss_completed (rd_candidate d) = of_nat runs \<and> rd_failingMinimum d \<le> 0 \<and>
      of_nat (length (filter ?added bs)) \<le> rl_MaxRepeatedAddedBehaviors limits \<and> rd_worstBlock d \<le> rl_MaxBlockDecisionsPerRun limits \<and>
      rd_worstCR d \<le> rl_MaxCriticalRiskObservationsPerRun limits"
    by (simp add: repeated_checks_def Let_def equalsCheck_def atMostCheck_def)
  then show ?thesis
    unfolding n word_le_nat_alt a [unfolded c(1)] c(1) r worst_le e unsigned_0 required_limits_met_def by blast
qed

lemma verdicts_distinct [simp]: "GateVerdictFail \<noteq> GateVerdictPass"
  by (simp add: GateVerdictFail_def GateVerdictPass_def)

lemma repeated_verdict:
  assumes R: "reported d inputs limits runs bs"
  shows "rgr_verdict (repeated_gate limits runs d bs) = GateVerdictPass \<longleftrightarrow>
    required_limits_met limits runs inputs \<and> frequency_limits_met limits runs inputs"
  unfolding repeated_gate_def Let_def using required_checks [OF R] frequency_checks [OF R] by auto

subsection \<open>From inputs to the report\<close>

text \<open>Repetitions as the control plane reads them: each with the entries of one snapshot, so no fingerprint twice in one run.\<close>

definition repetitions_ok :: "nat \<Rightarrow> repetitionInput list \<Rightarrow> bool" where
  "repetitions_ok runs inputs \<longleftrightarrow>
     runs < 2 ^ 64 \<and> length inputs < 2 ^ 64 \<and> (\<forall>i \<in> set inputs. distinct (map be_FingerprintID (rin_entries i)))"

lemma reduceRepeated_reported:
  assumes "reduceRepeated ord limits runs inputs = Inr c" "enumerating ord" "repetitions_ok runs inputs"
  obtains d where "reported d inputs limits runs (rq_Behaviors c)" "rq_Gate c = repeated_gate limits runs d (rq_Behaviors c)"
    "map bp_FingerprintID (rq_Behaviors c) = sorted_list_of_set (all_shown inputs)" "distinct (map bp_Behavior (rq_Behaviors c))"
    "card (all_shown inputs) \<le> maxBehaviorEntries"
proof -
  obtain d bs where r: "reduce_inputs ord inputs new_reduction = Inr d"
    "behavior_presences limits runs d (mo_string ord (fmdom (fst (rd_tallies d)))) = Inr bs"
    and c: "rq_Behaviors c = sort_key bp_FingerprintID bs" "rq_Gate c = repeated_gate limits runs d (sort_key bp_FingerprintID bs)"
    using reduceRepeated_Inr [OF assms(1)] by metis
  have d: "red_rep d inputs"
    using red_rep_inputs [OF red_rep_new r(1) assms(2)] assms(3) by (simp add: repetitions_ok_def)
  have n: "runs < 2 ^ 64" using assms(3) by (simp add: repetitions_ok_def)
  note b = reported_behaviors [OF d r(2) assms(2) n]
  have card: "card (all_shown inputs) \<le> maxBehaviorEntries" by (rule shown_bound [OF r(1) d])
  have "reported d inputs limits runs (rq_Behaviors c)"
    using d b(2,3,4) card assms(3) unfolding reported_def c repetitions_ok_def
    by (auto simp: maxBehaviorEntries_def distinct_map inj_on_def)
  moreover have "distinct (map bp_Behavior (rq_Behaviors c))" using b(5) by (simp add: c distinct_map inj_on_def)
  ultimately show thesis using that b(1) c card by simp
qed

text \<open>C27. A repeated comparison reports every behaviour some completed repetition showed, once, in
  fingerprint order, never one descriptor under two fingerprints and never more than 512; for each, the presence counts are the
  numbers of completed repetitions of each side that showed it, the classification and the lost mark follow from those numbers by
  the documented rules, and the call totals, minima, maxima and means are those of the per-repetition call counts.\<close>

theorem repeated_presence_exact:
  assumes "reduceRepeated ord limits runs inputs = Inr c" and "enumerating ord" and "repetitions_ok runs inputs"
  shows "map bp_FingerprintID (rq_Behaviors c) = sorted_list_of_set (all_shown inputs) \<and>
    card (all_shown inputs) \<le> maxBehaviorEntries \<and> distinct (map bp_Behavior (rq_Behaviors c)) \<and>
    (\<forall>b \<in> set (rq_Behaviors c). presence_fields limits runs inputs b)"
proof -
  obtain d where "reported d inputs limits runs (rq_Behaviors c)" "rq_Gate c = repeated_gate limits runs d (rq_Behaviors c)"
    "map bp_FingerprintID (rq_Behaviors c) = sorted_list_of_set (all_shown inputs)" "distinct (map bp_Behavior (rq_Behaviors c))"
    "card (all_shown inputs) \<le> maxBehaviorEntries"
    by (rule reduceRepeated_reported [OF assms])
  then show ?thesis using fields by blast
qed

lemma reduceRepeated_verdict:
  assumes "reduceRepeated ord limits runs inputs = Inr c" and "enumerating ord" and "repetitions_ok runs inputs"
  shows "rgr_verdict (rq_Gate c) = GateVerdictPass \<longleftrightarrow> required_limits_met limits runs inputs \<and> frequency_limits_met limits runs inputs"
proof -
  obtain d where "reported d inputs limits runs (rq_Behaviors c)" "rq_Gate c = repeated_gate limits runs d (rq_Behaviors c)"
    by (rule reduceRepeated_reported [OF assms])
  then show ?thesis using repeated_verdict by simp
qed

text \<open>C26. The verdict of a repeated comparison is Pass exactly when both sides completed all N
  repetitions, none without a record, at most the allowed number of behaviours are shown by at least k candidate and at most j
  reference repetitions, no candidate repetition exceeds the block and critical-risk limits, and every optional limit that was
  given is met by evidence that exists: a limit whose evidence is missing fails the verdict.\<close>

theorem repeated_verdict_exact:
  assumes "reduceRepeated ord limits runs inputs = Inr c" and "enumerating ord" and "repetitions_ok runs inputs"
  shows "rgr_verdict (rq_Gate c) = GateVerdictPass \<longleftrightarrow> required_limits_met limits runs inputs \<and> frequency_limits_met limits runs inputs"
  by (rule reduceRepeated_verdict [OF assms])

subsection \<open>Reordering the repetitions\<close>

lemma completed_perm: "mset inputs = mset inputs' \<Longrightarrow> mset (completed_runs s inputs) = mset (completed_runs s inputs')"
  by (simp add: completed_runs_def completed_inputs_def mset_map mset_filter)

lemma presence_perm:
  assumes "mset inputs = mset inputs'" shows "presence s inputs = presence s inputs'"
proof
  fix fp
  have "mset (filter (\<lambda>r. fp \<in> shown r) (completed_runs s inputs)) = mset (filter (\<lambda>r. fp \<in> shown r) (completed_runs s inputs'))"
    using completed_perm [OF assms, of s] by (simp add: mset_filter)
  then show "presence s inputs fp = presence s inputs' fp" unfolding presence_def by (rule mset_eq_length)
qed

lemma inputs_perm:
  assumes "mset inputs = mset inputs'"
  shows "all_shown inputs = all_shown inputs'" "set inputs = set inputs'" "set (completed_runs s inputs) = set (completed_runs s inputs')"
    "length (completed_runs s inputs) = length (completed_runs s inputs')" "completed_runs s inputs = [] \<longleftrightarrow> completed_runs s inputs' = []"
  using mset_eq_setD [OF assms] mset_eq_setD [OF completed_perm [OF assms, of s]] mset_eq_length [OF completed_perm [OF assms, of s]]
  by (auto simp: all_shown_def)

lemma limits_perm:
  assumes "mset inputs = mset inputs'"
  shows "required_limits_met l runs inputs = required_limits_met l runs inputs'"
    and "frequency_limits_met l runs inputs = frequency_limits_met l runs inputs'"
  unfolding required_limits_met_def frequency_limits_met_def target_limit_met_def Let_def presence_perm [OF assms] inputs_perm [OF assms] by (rule refl)+

lemma stats_of_unique: "stats_of cs st \<Longrightarrow> mset cs = mset ds \<Longrightarrow> stats_of ds st' \<Longrightarrow> st = st'"
proof -
  assume s: "stats_of cs st" "mset cs = mset ds" "stats_of ds st'"
  have "set cs = set ds" "length cs = length ds" "sum_list cs = sum_list ds" "cs = [] \<longleftrightarrow> ds = []"
    using mset_eq_setD [OF s(2)] mset_eq_length [OF s(2)] arg_cong [OF s(2), of sum_mset] by (auto simp: sum_mset_sum_list)
  then show "st = st'"
    using s(1,3) by (cases "cs = []") (simp add: stats_of_def, cases st, cases st', simp add: stats_of_def word_unat_eq_iff)
qed

text \<open>The fidelity counters of a behaviour are the sums over the completed repetitions of its side.\<close>

definition side_fidelity :: "ComparisonSide \<Rightarrow> tally \<Rightarrow> BehaviorFidelity" where
  "side_fidelity s t = (case s of SideReference \<Rightarrow> ta_referenceFidelity t | SideCandidate \<Rightarrow> ta_candidateFidelity t)"

definition fidelity_at :: "ComparisonSide \<Rightarrow> (string, tally) fmap \<Rightarrow> string \<Rightarrow> nat \<Rightarrow> nat" where
  "fidelity_at s seen fp k = (case fmlookup seen fp of None \<Rightarrow> 0 | Some t \<Rightarrow> unat (fidelityCounters (side_fidelity s t) ! k))"

definition entry_fidelity :: "string \<Rightarrow> nat \<Rightarrow> BehaviorEntry list \<Rightarrow> nat" where
  "entry_fidelity fp k es = (\<Sum>e\<leftarrow>counted es. if be_FingerprintID e = fp then unat (fidelityCounters (be_Fidelity e) ! k) else 0)"

definition total_fidelity :: "ComparisonSide \<Rightarrow> repetitionInput list \<Rightarrow> string \<Rightarrow> nat \<Rightarrow> nat" where
  "total_fidelity s inputs fp k = (\<Sum>r\<leftarrow>completed_runs s inputs. entry_fidelity fp k r)"

lemma length_fidelityCounters [simp]: "length (fidelityCounters b) = 9"
  by (simp add: fidelityCounters_def)

lemma fidelity_of_counters_inverse: "length v = 9 \<Longrightarrow> fidelityCounters (fidelity_of_counters v) = v"
  by (intro nth_equalityI) (auto simp: fidelityCounters_def fidelity_of_counters_def less_Suc_eq numeral_eq_Suc)

lemma fidelity_ext: "(\<And>k. k < 9 \<Longrightarrow> unat (fidelityCounters a ! k) = unat (fidelityCounters b ! k)) \<Longrightarrow> (a :: BehaviorFidelity) = b"
proof -
  assume "\<And>k. k < 9 \<Longrightarrow> unat (fidelityCounters a ! k) = unat (fidelityCounters b ! k)"
  then have "fidelityCounters a = fidelityCounters b" by (intro nth_equalityI) (simp_all add: word_unat_eq_iff)
  then show "a = b" by (cases a; cases b) (simp add: fidelityCounters_def)
qed

lemma fidelity_added:
  assumes "BehaviorFidelity_Add a b = Inr c" and "k < 9"
  shows "unat (fidelityCounters c ! k) = unat (fidelityCounters a ! k) + unat (fidelityCounters b ! k)"
proof -
  obtain v where "add_counters (fidelityCounters a) (fidelityCounters b) = Inr v" "c = fidelity_of_counters v"
    using assms(1) by (auto simp: BehaviorFidelity_Add_def)
  then show ?thesis using assms(2) by (simp add: add_counters_iff fidelity_of_counters_inverse)
qed

lemma entry_fidelity_step:
  assumes "reduce_entry side e (seen, f) = Inr (seen', f')" and "be_Observations e \<noteq> 0" and "k < 9"
  shows "fidelity_at s seen' fp k =
    fidelity_at s seen fp k + (if s = side \<and> fp = be_FingerprintID e then unat (fidelityCounters (be_Fidelity e) ! k) else 0)"
proof -
  obtain t0 t where t0: "tally_of e seen = Inr t0" and t: "tally_count side e t0 = Inr t" and r: "seen' = fmupd (be_FingerprintID e) t seen"
    using assms(1,2) by (auto simp: reduce_entry_def split: if_splits)
  have z: "fidelityCounters zeroFidelity ! k = 0" using assms(3) by (auto simp: zeroFidelity_def fidelityCounters_def less_Suc_eq numeral_eq_Suc)
  have "unat (fidelityCounters (side_fidelity s t0) ! k) = fidelity_at s seen (be_FingerprintID e) k"
    using t0 z by (cases s) (auto simp: tally_of_def fidelity_at_def newTally_def side_fidelity_def split: option.splits if_splits)
  moreover have "unat (fidelityCounters (side_fidelity s t) ! k) =
      unat (fidelityCounters (side_fidelity s t0) ! k) + (if s = side then unat (fidelityCounters (be_Fidelity e) ! k) else 0)"
    using t by (cases s; cases side) (auto simp: tally_count_def side_fidelity_def fidelity_added [OF _ assms(3)])
  ultimately show ?thesis unfolding r by (cases "fp = be_FingerprintID e") (auto simp: fidelity_at_def)
qed

lemma entries_fidelity:
  "reduce_entries side es (seen, f) = Inr (seen', f') \<Longrightarrow> k < 9 \<Longrightarrow>
   fidelity_at s seen' fp k = fidelity_at s seen fp k + (if s = side then entry_fidelity fp k es else 0)"
proof (induction es arbitrary: seen f)
  case (Cons e es)
  then obtain seen1 f1 where e: "reduce_entry side e (seen, f) = Inr (seen1, f1)" and es: "reduce_entries side es (seen1, f1) = Inr (seen', f')"
    by auto
  show ?case
  proof (cases "be_Observations e = 0")
    case True
    then show ?thesis using e Cons.IH [OF es Cons.prems(2)] by (simp add: reduce_entry_def entry_fidelity_def counted_def)
  next
    case False
    then show ?thesis using Cons.IH [OF es Cons.prems(2)] entry_fidelity_step [OF e False Cons.prems(2), of s fp]
      by (auto simp: entry_fidelity_def counted_def)
  qed
qed (simp add: entry_fidelity_def counted_def)

lemma input_tallies:
  assumes "reduce_input ord i d = Inr d'" "of_side side i"
  shows "reduce_entries side (rin_entries i) (rd_tallies d) = Inr (rd_tallies d')"
proof (cases side)
  case SideReference
  from assms(2) [unfolded SideReference] show ?thesis
    unfolding SideReference by (rule reduce_input_reference [OF assms(1)]) simp
next
  case SideCandidate
  from assms(2) [unfolded SideCandidate] show ?thesis
    unfolding SideCandidate by (rule reduce_input_candidate [OF assms(1)]) simp
qed

lemma inputs_fidelity:
  "reduce_inputs ord inputs d = Inr d' \<Longrightarrow> k < 9 \<Longrightarrow>
   fidelity_at s (fst (rd_tallies d')) fp k = fidelity_at s (fst (rd_tallies d)) fp k + total_fidelity s inputs fp k"
proof (induction inputs arbitrary: d)
  case (Cons i inputs)
  then obtain d1 where d1: "reduce_input ord i d = Inr d1" "reduce_inputs ord inputs d1 = Inr d'" by auto
  have "fidelity_at s (fst (rd_tallies d1)) fp k =
      fidelity_at s (fst (rd_tallies d)) fp k + (if of_side s i then entry_fidelity fp k (rin_entries i) else 0)"
  proof (cases "Repetition_Completed (rin_evidence i)")
    case False
    then show ?thesis using d1(1) by (simp add: reduce_input_def of_side_def)
  next
    case True
    define side where "side = rp_Side (rin_evidence i)"
    have "of_side side i" using True by (simp add: of_side_def side_def)
    note input_tallies [OF d1(1) this]
    then show ?thesis using True entries_fidelity [where side = side and es = "rin_entries i" and k = k and s = s and fp = fp] Cons.prems(2)
      by (cases "rd_tallies d"; cases "rd_tallies d1") (auto simp: of_side_def side_def)
  qed
  then show ?case using Cons.IH [OF d1(2) Cons.prems(2)] by (simp add: total_fidelity_def completed_runs_def completed_inputs_def)
qed (simp add: total_fidelity_def completed_runs_def completed_inputs_def)

text \<open>Everything that is reported of one behaviour.\<close>

definition presence_details :: "repetitionInput list \<Rightarrow> RepeatedBehaviorPresence \<Rightarrow> bool" where
  "presence_details inputs b \<longleftrightarrow>
     (\<forall>i \<in> set inputs. Repetition_Completed (rin_evidence i) \<longrightarrow>
        (\<forall>e \<in> set (counted (rin_entries i)). be_FingerprintID e = bp_FingerprintID b \<longrightarrow> be_Behavior e = bp_Behavior b)) \<and>
     (\<forall>k < 9. unat (fidelityCounters (bp_ReferenceFidelity b) ! k) = total_fidelity SideReference inputs (bp_FingerprintID b) k \<and>
             unat (fidelityCounters (bp_CandidateFidelity b) ! k) = total_fidelity SideCandidate inputs (bp_FingerprintID b) k)"

lemma reported_details:
  assumes "reduceRepeated ord limits runs inputs = Inr c" "enumerating ord" "repetitions_ok runs inputs" "b \<in> set (rq_Behaviors c)"
  shows "presence_details inputs b"
proof -
  obtain d bs where r: "reduce_inputs ord inputs new_reduction = Inr d"
    "behavior_presences limits runs d (mo_string ord (fmdom (fst (rd_tallies d)))) = Inr bs" and c: "rq_Behaviors c = sort_key bp_FingerprintID bs"
    using reduceRepeated_Inr [OF assms(1)] by metis
  have d: "tallies_rep (rd_tallies d) inputs"
    using red_rep_inputs [OF red_rep_new r(1) assms(2)] assms(3) by (simp add: repetitions_ok_def red_rep_def)
  have "set (mo_string ord (fmdom (fst (rd_tallies d)))) = fset (fmdom (fst (rd_tallies d)))"
    using assms(2) by (simp add: enumerating_def enumerates_def)
  then have L: "list_all2 (\<lambda>fp b. \<exists>t. fmlookup (fst (rd_tallies d)) fp = Some t \<and> behavior_presence limits runs d fp t = Inr b)
      (mo_string ord (fmdom (fst (rd_tallies d)))) bs" using behavior_presences_Inr [OF r(2)] by simp
  have "b \<in> set bs" using assms(4) by (simp add: c)
  then obtain n where n: "n < length bs" "bs ! n = b" unfolding in_set_conv_nth by blast
  from list_all2_nthD2 [OF L n(1), unfolded n(2)] obtain fp t where t: "fmlookup (fst (rd_tallies d)) fp = Some t"
    "behavior_presence limits runs d fp t = Inr b" by blast
  then have f: "bp_FingerprintID b = fp" "bp_Behavior b = ta_behavior t" "bp_ReferenceFidelity b = side_fidelity SideReference t"
    "bp_CandidateFidelity b = side_fidelity SideCandidate t" by (auto simp: behavior_presence_def side_fidelity_def)
  have "unat (fidelityCounters (side_fidelity s t) ! k) = total_fidelity s inputs fp k" if "k < 9" for s k
    using inputs_fidelity [OF r(1) that, of s fp] t(1) by (simp add: fidelity_at_def new_reduction_def)
  moreover have "be_Behavior e = ta_behavior t"
    if "i \<in> set inputs" "Repetition_Completed (rin_evidence i)" "e \<in> set (counted (rin_entries i))" "be_FingerprintID e = fp" for i e
    using d that t(1) unfolding tallies_rep_def by fastforce
  ultimately show ?thesis unfolding presence_details_def f by blast
qed

lemma total_fidelity_perm: "mset inputs = mset inputs' \<Longrightarrow> total_fidelity s inputs fp k = total_fidelity s inputs' fp k"
  unfolding total_fidelity_def using arg_cong [OF completed_perm [of inputs inputs' s], of "\<lambda>M. sum_mset (image_mset (entry_fidelity fp k) M)"]
  by (simp flip: mset_map add: sum_mset_sum_list)

lemma presence_unique:
  assumes perm: "mset inputs = mset inputs'" and "presence_fields l runs inputs b" "presence_fields l runs inputs' b'"
    and "presence_details inputs b" "presence_details inputs' b'" and fp: "bp_FingerprintID b = bp_FingerprintID b'"
    and "bp_FingerprintID b \<in> all_shown inputs"
  shows "b = b'"
proof -
  let ?c = "calls (\<lambda>e. be_FingerprintID e = bp_FingerprintID b')"
  have "mset (map ?c (completed_runs s inputs)) = mset (map ?c (completed_runs s inputs'))" for s
    using completed_perm [OF perm, of s] by (simp add: mset_map)
  then have st: "bp_Reference b = bp_Reference b'" "bp_Candidate b = bp_Candidate b'"
    using assms(2,3) fp stats_of_unique unfolding presence_fields_def Let_def by metis+
  obtain i e where "i \<in> set inputs" "Repetition_Completed (rin_evidence i)" "e \<in> set (counted (rin_entries i))" "be_FingerprintID e = bp_FingerprintID b"
    using assms(7) by (auto simp: all_shown_def shown_def split: if_splits)
  then have "bp_Behavior b = bp_Behavior b'" using assms(4,5) fp inputs_perm(2) [OF perm] unfolding presence_details_def by metis
  moreover have "bp_ReferenceFidelity b = bp_ReferenceFidelity b'" "bp_CandidateFidelity b = bp_CandidateFidelity b'"
    using assms(4,5) fp total_fidelity_perm [OF perm] unfolding presence_details_def by (auto intro!: fidelity_ext)
  ultimately show ?thesis
    using assms(2,3) fp st presence_perm [OF perm] by (cases b; cases b') (simp add: presence_fields_def Let_def word_unat_eq_iff)
qed

text \<open>C29. List the repetitions in any order and let Go iterate its maps in any order: if the comparison
  succeeds both times, the verdict is the same and so is everything reported of every behaviour - its descriptor, presence counts,
  classification, lost mark, call figures and the fidelity counters of both sides.\<close>

theorem repeated_order_independent:
  assumes "reduceRepeated ord limits runs inputs = Inr c" and "reduceRepeated ord' limits runs inputs' = Inr c'"
    and "enumerating ord" and "enumerating ord'" and "repetitions_ok runs inputs" and perm: "mset inputs = mset inputs'"
  shows "rgr_verdict (rq_Gate c) = rgr_verdict (rq_Gate c') \<and> rq_Behaviors c = rq_Behaviors c'"
proof -
  have ok': "repetitions_ok runs inputs'"
    using assms(5) inputs_perm(2) [OF perm] mset_eq_length [OF perm] by (simp add: repetitions_ok_def)
  obtain d where d: "reported d inputs limits runs (rq_Behaviors c)" "rq_Gate c = repeated_gate limits runs d (rq_Behaviors c)"
    "map bp_FingerprintID (rq_Behaviors c) = sorted_list_of_set (all_shown inputs)"
    by (rule reduceRepeated_reported [OF assms(1,3,5)])
  obtain d' where d': "reported d' inputs' limits runs (rq_Behaviors c')" "rq_Gate c' = repeated_gate limits runs d' (rq_Behaviors c')"
    "map bp_FingerprintID (rq_Behaviors c') = sorted_list_of_set (all_shown inputs')"
    by (rule reduceRepeated_reported [OF assms(2,4) ok'])
  have "rgr_verdict (rq_Gate c) = GateVerdictPass \<longleftrightarrow> rgr_verdict (rq_Gate c') = GateVerdictPass"
    using reduceRepeated_verdict [OF assms(1,3,5)] reduceRepeated_verdict [OF assms(2,4) ok'] limits_perm [OF perm] by simp
  then have v: "rgr_verdict (rq_Gate c) = rgr_verdict (rq_Gate c')"
    unfolding d(2) d'(2) repeated_gate_def Let_def by (auto split: if_splits)
  have m: "map bp_FingerprintID (rq_Behaviors c) = map bp_FingerprintID (rq_Behaviors c')"
    unfolding d(3) d'(3) inputs_perm(1) [OF perm] ..
  have "rq_Behaviors c = rq_Behaviors c'"
  proof (rule nth_equalityI)
    show l: "length (rq_Behaviors c) = length (rq_Behaviors c')" using arg_cong [OF m, of length] by simp
    fix n assume n: "n < length (rq_Behaviors c)"
    then have in': "rq_Behaviors c ! n \<in> set (rq_Behaviors c)" "rq_Behaviors c' ! n \<in> set (rq_Behaviors c')" using l by simp_all
    have "bp_FingerprintID (rq_Behaviors c ! n) = bp_FingerprintID (rq_Behaviors c' ! n)"
      using arg_cong [OF m, of "\<lambda>l. l ! n"] n l by simp
    moreover have "bp_FingerprintID (rq_Behaviors c ! n) \<in> all_shown inputs" using fps(2) [OF d(1)] in'(1) by auto
    ultimately show "rq_Behaviors c ! n = rq_Behaviors c' ! n"
      using presence_unique [OF perm fields [OF d(1) in'(1)] fields [OF d'(1) in'(2)] reported_details [OF assms(1,3,5) in'(1)]
          reported_details [OF assms(2,4) ok' in'(2)]] by blast
  qed
  with v show ?thesis by blast
qed

subsection \<open>One repetition per side\<close>

lemma snapshot_shown:
  assumes "coll_inv xs c" shows "shown (sn_entries (Snapshot c)) = fps_in xs"
proof -
  have "be_Observations e \<noteq> 0" if "e \<in> set (sn_entries (Snapshot c))" for e
    using snapshot_entry [OF assms that] by (auto simp: entry_rep_def)
  then have "counted (sn_entries (Snapshot c)) = sn_entries (Snapshot c)" by (simp add: counted_def filter_id_conv)
  then show ?thesis using snapshot_fps [OF assms] by (simp add: shown_def)
qed

lemma added_one_run:
  assumes R: "reported d [i, j] l 1 bs" and "of_side SideReference i" "of_side SideCandidate j"
    and "rl_AddedCandidatePresenceMinimum l = 1" "rl_AddedReferencePresenceMaximum l = 0"
  shows "length (filter (\<lambda>b. bp_Classification b = RepeatedAdded) bs) = card (shown (rin_entries j) - shown (rin_entries i))"
proof -
  have p: "presence SideReference [i, j] fp = (if fp \<in> shown (rin_entries i) then 1 else 0)"
    "presence SideCandidate [i, j] fp = (if fp \<in> shown (rin_entries j) then 1 else 0)" for fp
    using assms(2,3) by (auto simp: presence_def completed_runs_def completed_inputs_def of_side_def)
  have a: "all_shown [i, j] = shown (rin_entries i) \<union> shown (rin_entries j)"
    using assms(2,3) by (auto simp: all_shown_def of_side_def)
  have "length (filter (\<lambda>b. bp_Classification b = RepeatedAdded) bs) =
      card {fp \<in> all_shown [i, j]. fp \<in> shown (rin_entries j) \<and> fp \<notin> shown (rin_entries i)}"
    by (rule card_filter [OF R]) (use fields [OF R] assms(4,5) in \<open>auto simp: presence_fields_def Let_def p split: if_splits\<close>)
  moreover have "{fp \<in> all_shown [i, j]. fp \<in> shown (rin_entries j) \<and> fp \<notin> shown (rin_entries i)} = shown (rin_entries j) - shown (rin_entries i)"
    unfolding a by auto
  ultimately show ?thesis by simp
qed

text \<open>The limits of the repeated gate that ask the single-run question.\<close>

definition single_run_limits :: "EvaluationGateLimits \<Rightarrow> RepeatedEvaluationGateLimits" where
  "single_run_limits l =
     \<lparr>rl_AddedCandidatePresenceMinimum = 1, rl_AddedReferencePresenceMaximum = 0,
      rl_MaxRepeatedAddedBehaviors = gl_MaxAddedBehaviors l, rl_MaxBlockDecisionsPerRun = gl_MaxBlockDecisions l,
      rl_MaxCriticalRiskObservationsPerRun = gl_MaxCriticalRiskObservations l, rl_MinCandidateFrequency = unsetLimit,
      rl_MaxLostBehaviors = unsetLimit, rl_MaxCallsPerRun = None, rl_MaxLLMCallsPerRun = unsetLimit\<rparr>"

lemma single_run_checks:
  assumes R: "reported d [i, j] (single_run_limits l) 1 bs" and i: "of_side SideReference i" and j: "of_side SideCandidate j"
  shows "map rg_Actual (drop 3 (repeated_checks (single_run_limits l) 1 d bs)) =
      [of_nat (card (shown (rin_entries j) - shown (rin_entries i))), rp_BlockDecisions (rin_evidence j),
       rp_CriticalRiskObservations (rin_evidence j)]"
    and "map rg_Passed (take 3 (repeated_checks (single_run_limits l) 1 d bs)) =
      [True, True, rp_RecordCount (rin_evidence i) \<noteq> 0 \<and> rp_RecordCount (rin_evidence j) \<noteq> 0]"
proof -
  have ji: "\<not> of_side SideReference j" "\<not> of_side SideCandidate i" using i j by (auto simp: of_side_def)
  have cand: "completed_inputs SideCandidate [i, j] = [j]" "completed_inputs SideReference [i, j] = [i]"
    using i j ji by (simp_all add: completed_inputs_def)
  have "unat (rd_worstBlock d) = unat (rp_BlockDecisions (rin_evidence j))" "unat (rd_worstCR d) = unat (rp_CriticalRiskObservations (rin_evidence j))"
    "unat (rd_failingMinimum d) = length (empty_runs [i, j])"
    using rep [OF R] by (simp_all add: red_rep_def worst_def cand)
  then have w: "rd_worstBlock d = rp_BlockDecisions (rin_evidence j)" "rd_worstCR d = rp_CriticalRiskObservations (rin_evidence j)"
    "rd_failingMinimum d = 0 \<longleftrightarrow> rp_RecordCount (rin_evidence i) \<noteq> 0 \<and> rp_RecordCount (rin_evidence j) \<noteq> 0"
    using i j by (auto simp: word_unat_eq_iff empty_runs_def of_side_def split: if_splits)
  have n: "ss_completed (rd_reference d) = 1" "ss_completed (rd_candidate d) = 1"
    using completed [OF R, of SideReference] completed [OF R, of SideCandidate]
    by (simp_all add: rd_side_def completed_runs_def cand word_unat_eq_iff)
  have a: "length (filter (\<lambda>b. bp_Classification b = RepeatedAdded) bs) = card (shown (rin_entries j) - shown (rin_entries i))"
    by (rule added_one_run [OF R i j]) (simp_all add: single_run_limits_def)
  show "map rg_Actual (drop 3 (repeated_checks (single_run_limits l) 1 d bs)) =
      [of_nat (card (shown (rin_entries j) - shown (rin_entries i))), rp_BlockDecisions (rin_evidence j),
       rp_CriticalRiskObservations (rin_evidence j)]"
    by (simp add: repeated_checks_def Let_def atMostCheck_def equalsCheck_def w a)
  show "map rg_Passed (take 3 (repeated_checks (single_run_limits l) 1 d bs)) =
      [True, True, rp_RecordCount (rin_evidence i) \<noteq> 0 \<and> rp_RecordCount (rin_evidence j) \<noteq> 0]"
    by (simp add: repeated_checks_def Let_def atMostCheck_def equalsCheck_def w n)
qed

lemma single_frequency_passes: "list_all (\<lambda>c. \<not> failsVerdict c) (evaluateFrequencyGates (single_run_limits l) g)"
  by (simp add: evaluateFrequencyGates_def minCandidateCheck_def maxLostCheck_def maxCallsCheck_def maxLLMCheck_def
      single_run_limits_def unsetLimit_def Let_def)

lemma repeated_passed:
  "map rg_Passed (drop 3 (repeated_checks (single_run_limits l) 1 d bs)) =
     map2 (\<le>) (map rg_Actual (drop 3 (repeated_checks (single_run_limits l) 1 d bs)))
       [gl_MaxAddedBehaviors l, gl_MaxBlockDecisions l, gl_MaxCriticalRiskObservations l]"
  by (simp add: repeated_checks_def Let_def atMostCheck_def single_run_limits_def)

lemma completedRepetition_Inr:
  "completedRepetition ev a s = Inr i \<Longrightarrow>
     rin_entries i = sn_entries s \<and> rp_Side (rin_evidence i) = rp_Side ev \<and> rp_Status (rin_evidence i) = rp_Status ev \<and>
     rp_RecordCount (rin_evidence i) = ag_recordCount a \<and> rp_BlockDecisions (rin_evidence i) = dc_Block (ag_decisions a) \<and>
     rp_CriticalRiskObservations (rin_evidence i) = rc_Critical (ag_risks a)"
  by (auto simp: completedRepetition_def split: if_splits)

lemma gate_counts:
  assumes "EvaluateEvaluationGate sk (NewEvaluationGatePolicy l) = Inr g" "NewEvaluationScorecard ref cand diff = Inr sk"
  shows "mig_Passed (gr_referenceEvidence g) \<longleftrightarrow> ag_recordCount ref \<noteq> 0" "mig_Passed (gr_candidateEvidence g) \<longleftrightarrow> ag_recordCount cand \<noteq> 0"
    "gr_addedBehaviors g = maximumGate (bd_added diff) (gl_MaxAddedBehaviors l)"
    "gr_blockDecisions g = maximumGate (dc_Block (ag_decisions cand)) (gl_MaxBlockDecisions l)"
    "gr_criticalRiskObservations g = maximumGate (rc_Critical (ag_risks cand)) (gl_MaxCriticalRiskObservations l)"
    "ol_set (gl_MaxAddedBehaviorChanges l) = False \<Longrightarrow> gr_verdict g = (if mig_Passed (gr_referenceEvidence g) \<and> mig_Passed (gr_candidateEvidence g) \<and>
       mag_Passed (gr_addedBehaviors g) \<and> mag_Passed (gr_blockDecisions g) \<and> mag_Passed (gr_criticalRiskObservations g)
       then GateVerdictPass else GateVerdictFail)"
proof -
  have one: "1 \<le> (x :: u64) \<longleftrightarrow> x \<noteq> 0" for x by (simp add: word_le_nat_alt Suc_le_eq unat_gt_0)
  have "g = gateResult (scorecard_of ref cand diff) l"
    using assms by (simp add: gate_Inr scorecard_Inr NewEvaluationGatePolicy_def)
  then show "mig_Passed (gr_referenceEvidence g) \<longleftrightarrow> ag_recordCount ref \<noteq> 0" "mig_Passed (gr_candidateEvidence g) \<longleftrightarrow> ag_recordCount cand \<noteq> 0"
    "gr_addedBehaviors g = maximumGate (bd_added diff) (gl_MaxAddedBehaviors l)"
    "gr_blockDecisions g = maximumGate (dc_Block (ag_decisions cand)) (gl_MaxBlockDecisions l)"
    "gr_criticalRiskObservations g = maximumGate (rc_Critical (ag_risks cand)) (gl_MaxCriticalRiskObservations l)"
    "ol_set (gl_MaxAddedBehaviorChanges l) = False \<Longrightarrow> gr_verdict g = (if mig_Passed (gr_referenceEvidence g) \<and> mig_Passed (gr_candidateEvidence g) \<and>
       mag_Passed (gr_addedBehaviors g) \<and> mag_Passed (gr_blockDecisions g) \<and> mag_Passed (gr_criticalRiskObservations g)
       then GateVerdictPass else GateVerdictFail)"
    by (simp_all add: gateResult_def scorecard_of_def Let_def minimumGate_def compareRates_def one changeGate_def emptyChangeGate_def
        ChangeCountGate_Evaluated_def)
qed

text \<open>C28. Take a single-run gate without a limit on changes and the repeated gate with the same three limits,
  k = 1, j = 0 and no optional limit, at one repetition per side over the same evidence. The repeated gate asks what the
  single-run gate asks, check for check: the added behaviours, block decisions and critical-risk observations it compares are the same numbers,
  each check passes on one side exactly when it passes on the other, the minimum-evidence check passes when both single-run ones
  do, and the verdicts are equal.\<close>

theorem repeated_single_run:
  assumes "coll_reach rr xs c" and "coll_reach rc ys d"
    and "CompareBehaviorSnapshots (Snapshot c) (Snapshot d) = Inr diff" and "NewEvaluationScorecard ref cand diff = Inr sk"
    and "ol_set (gl_MaxAddedBehaviorChanges l) = False"
    and "EvaluateEvaluationGate sk (NewEvaluationGatePolicy l) = Inr g"
    and "completedRepetition evR ref (Snapshot c) = Inr i" and "rp_Side evR = SideReference" and "rp_Status evR = RunCompleted"
    and "completedRepetition evC cand (Snapshot d) = Inr j" and "rp_Side evC = SideCandidate" and "rp_Status evC = RunCompleted"
    and "enumerating ord" and "reduceRepeated ord (single_run_limits l) 1 [i, j] = Inr q"
  shows "rgr_verdict (rq_Gate q) = gr_verdict g \<and>
    map rg_Passed (rgr_checks (rq_Gate q)) =
      [True, True, mig_Passed (gr_referenceEvidence g) \<and> mig_Passed (gr_candidateEvidence g), mag_Passed (gr_addedBehaviors g),
       mag_Passed (gr_blockDecisions g), mag_Passed (gr_criticalRiskObservations g)] \<and>
    map rg_Actual (drop 3 (rgr_checks (rq_Gate q))) =
      [mag_Actual (gr_addedBehaviors g), mag_Actual (gr_blockDecisions g), mag_Actual (gr_criticalRiskObservations g)]"
proof -
  note inv = coll_reach_inv [OF assms(1)] coll_reach_inv [OF assms(2)]
  note ri = completedRepetition_Inr [OF assms(7)] and rj = completedRepetition_Inr [OF assms(10)]
  have o: "of_side SideReference i" "of_side SideCandidate j"
    using ri rj assms(8,9,11,12) by (simp_all add: of_side_def Repetition_Completed_def)
  have "repetitions_ok 1 [i, j]" using ri rj snapshot_distinct [OF inv(1)] snapshot_distinct [OF inv(2)] by (simp add: repetitions_ok_def)
  then obtain e where R: "reported e [i, j] (single_run_limits l) 1 (rq_Behaviors q)"
    and gate: "rq_Gate q = repeated_gate (single_run_limits l) 1 e (rq_Behaviors q)"
    using reduceRepeated_reported [OF assms(14,13)] by metis
  let ?cs = "repeated_checks (single_run_limits l) 1 e (rq_Behaviors q)"
  note s = single_run_checks [OF R o] and gc = gate_counts [OF assms(6,4)]
  have added: "bd_added diff = of_nat (card (fps_in ys - fps_in xs))"
    using diff_fields(2) [OF assms(3)] presence_counted(1) [of "snapshot_deltas (Snapshot c) (Snapshot d)" "presence_of xs ys"]
      snapshot_deltas_fps [OF inv] snapshot_delta [OF inv] presence_sets(1) by simp
  have actual: "map rg_Actual (drop 3 ?cs) = [mag_Actual (gr_addedBehaviors g), mag_Actual (gr_blockDecisions g), mag_Actual (gr_criticalRiskObservations g)]"
    unfolding s(1) gc using ri rj snapshot_shown [OF inv(1)] snapshot_shown [OF inv(2)] added by (simp add: maximumGate_def)
  have "map rg_Passed ?cs = map rg_Passed (take 3 ?cs) @ map rg_Passed (drop 3 ?cs)" by (metis append_take_drop_id map_append)
  also have "\<dots> = [True, True, mig_Passed (gr_referenceEvidence g) \<and> mig_Passed (gr_candidateEvidence g), mag_Passed (gr_addedBehaviors g),
       mag_Passed (gr_blockDecisions g), mag_Passed (gr_criticalRiskObservations g)]"
    unfolding repeated_passed s(2) actual using ri rj gc by (simp add: maximumGate_def)
  finally have passed: "map rg_Passed ?cs = [True, True, mig_Passed (gr_referenceEvidence g) \<and> mig_Passed (gr_candidateEvidence g),
       mag_Passed (gr_addedBehaviors g), mag_Passed (gr_blockDecisions g), mag_Passed (gr_criticalRiskObservations g)]" .
  have "list_all rg_Passed ?cs \<longleftrightarrow> list_all id (map rg_Passed ?cs)" by (simp add: list.pred_map comp_def)
  then have "rgr_verdict (rq_Gate q) = gr_verdict g"
    unfolding gate repeated_gate_def Let_def passed gc(6) [OF assms(5)] using single_frequency_passes by auto
  then show ?thesis using actual passed by (simp add: gate repeated_gate_def Let_def)
qed


end
