(* ===== verification/Platform_Compare.thy ===== *)
theory Platform_Compare
  imports Platform_Repeated_Proofs Platform_Ingest_Proofs
begin

text \<open>
  From stored evidence to a verdict. The theorems are that evidence produced by the reducers always
  decides: once the two snapshots can be compared, correlation, scorecard and gate never refuse.
\<close>

subsection \<open>Genuine evidence always decides\<close>

lemma diff_identity:
  assumes "CompareBehaviorSnapshots r s = Inr b"
  shows "bd_referenceRunID b = sn_runID r \<and> bd_referenceCandidateID b = sn_candidateID r \<and> bd_referenceProfile b = sn_profile r \<and>
    bd_candidateRunID b = sn_runID s \<and> bd_candidateCandidateID b = sn_candidateID s \<and> bd_candidateProfile b = sn_profile s \<and>
    bd_environment b = sn_environment r \<and> bd_environment b = sn_environment s \<and> sn_complete r \<and> sn_complete s \<and>
    bd_referenceObservations b = sn_observations r \<and> bd_candidateObservations b = sn_observations s \<and>
    bd_referenceDistinctCount b = of_nat (length (sn_entries r)) \<and> bd_candidateDistinctCount b = of_nat (length (sn_entries s))"
  using assms by (auto simp: CompareBehaviorSnapshots_def check_snapshot_def orElse_None_iff Let_def split: option.splits if_splits)

lemma correlation_state:
  "foldAddedChanges added p (correlationStateFor h) = (changes, st) \<Longrightarrow>
   st = CorrelationComplete \<or> st = CorrelationPartial \<or> st = CorrelationUnavailable"
  by (auto simp: foldAddedChanges_def correlationStateFor_def Let_def split: if_splits)

text \<open>The evidence two runs would have if their reducers saw the given streams.\<close>

definition evidence_of :: "EvaluationRun \<Rightarrow> op_obs list \<Rightarrow> EvaluationAggregate \<Rightarrow> BehaviorCollector \<Rightarrow> bool" where
  "evidence_of run xs a c \<longleftrightarrow> coll_reach run xs c \<and> agg_reach run (map fst xs) a"

lemma scorecard_decides:
  assumes "evidence_of rr xs a c" and "evidence_of rc ys b d" and "CompareBehaviorSnapshots (Snapshot c) (Snapshot d) = Inr diff"
  shows "NewEvaluationScorecard a b (diff\<lparr>bd_changes := ch, bd_correlationState := st\<rparr>) =
    Inr (scorecard_of a b (diff\<lparr>bd_changes := ch, bd_correlationState := st\<rparr>))"
proof -
  have r: "coll_reach rr xs c" "agg_reach rr (map fst xs) a" "coll_reach rc ys d" "agg_reach rc (map fst ys) b"
    using assms(1,2) by (auto simp: evidence_of_def)
  note i = diff_identity [OF assms(3)] and s = snapshot_of_run [OF r(1)] and t = snapshot_of_run [OF r(3)]
  have n: "unat (ag_recordCount a) = length xs" "unat (ag_recordCount b) = length ys"
    using agg_reach_inv [OF r(2)] agg_reach_inv [OF r(4)] by (auto simp: counts_inv_def)
  show ?thesis
    by (rule scorecard_accepts_matching_evidence [OF r(2,4)]) (use i s t n in \<open>auto simp: word_unat_eq_iff\<close>)
qed

lemma diff_counts:
  assumes "coll_reach rr xs c" and "coll_reach rc ys d" and "CompareBehaviorSnapshots (Snapshot c) (Snapshot d) = Inr diff"
  shows "bd_added diff = of_nat (card (fps_in ys - fps_in xs))" "bd_removed diff = of_nat (card (fps_in xs - fps_in ys))"
    "bd_shared diff = of_nat (card (fps_in xs \<inter> fps_in ys))"
    "bd_referenceDistinctCount diff = of_nat (card (fps_in xs))" "bd_candidateDistinctCount diff = of_nat (card (fps_in ys))"
    "card (fps_in xs) \<le> maxBehaviorEntries" "card (fps_in ys) \<le> maxBehaviorEntries"
proof -
  note inv = coll_reach_inv [OF assms(1)] coll_reach_inv [OF assms(2)]
  have p: "presence_count q (snapshot_deltas (Snapshot c) (Snapshot d)) = of_nat (card {k \<in> fps_in xs \<union> fps_in ys. presence_of xs ys k = q})" for q
    using presence_counted(1) [of "snapshot_deltas (Snapshot c) (Snapshot d)" "presence_of xs ys" q] snapshot_deltas_fps [OF inv]
      snapshot_delta [OF inv] by simp
  show "bd_added diff = of_nat (card (fps_in ys - fps_in xs))" "bd_removed diff = of_nat (card (fps_in xs - fps_in ys))"
    "bd_shared diff = of_nat (card (fps_in xs \<inter> fps_in ys))"
    unfolding diff_fields(2-4) [OF assms(3)] p presence_sets by (rule refl)+
  have len: "length (sn_entries (Snapshot e)) = card (fps_in zs)" "card (fps_in zs) \<le> maxBehaviorEntries" if "coll_inv zs e" for zs e
  proof -
    show "length (sn_entries (Snapshot e)) = card (fps_in zs)"
      using distinct_card [OF snapshot_distinct(1) [OF that]] snapshot_fps [OF that] by simp
    moreover have "length (sn_entries (Snapshot e)) = fmsize (co_entries e)"
      using arg_cong [OF snapshot_entries(2) [OF that], of length] distinct_card [OF fps_facts(2) [of e]]
      by (simp add: fps_facts(3) fmsize_def fcard.rep_eq)
    ultimately show "card (fps_in zs) \<le> maxBehaviorEntries" using that by (simp add: coll_inv_def)
  qed
  show "bd_referenceDistinctCount diff = of_nat (card (fps_in xs))" "bd_candidateDistinctCount diff = of_nat (card (fps_in ys))"
    "card (fps_in xs) \<le> maxBehaviorEntries" "card (fps_in ys) \<le> maxBehaviorEntries"
    using diff_identity [OF assms(3)] len [OF inv(1)] len [OF inv(2)] by simp_all
qed

lemma small_count: "n \<le> 1024 \<Longrightarrow> sint (of_nat n :: i64) = int n"
  by (simp add: signed_of_nat take_bit_nat_eq_self signed_take_bit_int_eq_self)

lemma fps_finite: "finite (fps_in xs)"
  by (simp add: fps_in_def)

lemma card_parts: "card (fps_in ys - fps_in xs) + card (fps_in xs \<inter> fps_in ys) = card (fps_in ys)"
proof -
  have "fps_in ys = (fps_in ys - fps_in xs) \<union> (fps_in xs \<inter> fps_in ys)" by blast
  then show ?thesis using card_Un_disjoint [of "fps_in ys - fps_in xs" "fps_in xs \<inter> fps_in ys"] fps_finite by (metis Diff_disjoint Int_assoc finite_Diff finite_Int inf_bot_right Int_commute)
qed

lemma summary_arithmetic:
  assumes "evidence_of rr xs a c" and "evidence_of rc ys b d" and "CompareBehaviorSnapshots (Snapshot c) (Snapshot d) = Inr diff"
  shows "validateBehaviorSummaryArithmetic (sk_behavior (scorecard_of a b (diff\<lparr>bd_changes := ch, bd_correlationState := st\<rparr>))) = None"
proof -
  have r: "coll_reach rr xs c" "coll_reach rc ys d" using assms(1,2) by (auto simp: evidence_of_def)
  note n = diff_counts [OF r assms(3)]
  have le: "card (fps_in ys - fps_in xs) \<le> 1024" "card (fps_in xs - fps_in ys) \<le> 1024" "card (fps_in xs \<inter> fps_in ys) \<le> 1024"
    "card (fps_in xs) \<le> 1024" "card (fps_in ys) \<le> 1024"
    using n(6,7) card_parts [of ys xs] card_parts [of xs ys] by (simp_all add: maxBehaviorEntries_def Int_commute)
  show ?thesis using le card_parts [of ys xs] card_parts [of xs ys]
    unfolding scorecard_of_def validateBehaviorSummaryArithmetic_def Let_def
    by (simp add: n small_count Int_commute flip: of_nat_add)
qed

lemma change_count_evidence:
  assumes "coll_reach rr xs c" and "coll_reach rc ys d" and "CompareBehaviorSnapshots (Snapshot c) (Snapshot d) = Inr diff"
    and "WithCorrelation diff obs h = Inr diff'"
  shows "validateChangeCountEvidence (sk_behavior (scorecard_of a b diff')) = None"
proof -
  let ?added = "addedIdentities (bd_deltas diff)"
  obtain changes st where f: "foldAddedChanges ?added (buildBehaviorParentage obs) (correlationStateFor h) = (changes, st)" by fastforce
  have added: "?added = sorted_list_of_set (fps_in ys - fps_in xs)" by (rule diff_added [OF assms(1-3)])
  then have d: "distinct ?added" "length ?added = card (fps_in ys - fps_in xs)" using fps_finite by simp_all
  have d': "diff' = diff\<lparr>bd_changes := changes, bd_correlationState := st\<rparr>"
    using assms(4) f by (auto simp: WithCorrelation_def split: option.splits)
  have le: "card (fps_in ys - fps_in xs) \<le> 512"
    using diff_counts(7) [OF assms(1-3)] card_parts [of ys xs] by (simp add: maxBehaviorEntries_def)
  have c: "length changes \<le> card (fps_in ys - fps_in xs)" "card (fps_in ys - fps_in xs) \<noteq> 0 \<Longrightarrow> changes \<noteq> []"
    using fold_arithmetic [OF d(1) f] d(2) by auto
  have u: "length changes = card (fps_in ys - fps_in xs)" if "st \<noteq> CorrelationComplete"
    using fold_unfolded [OF f that] d(2) by (simp add: unfoldedChanges_def)
  have s: "sint (of_nat (length changes) :: i64) = int (length changes)" "sint (of_nat (card (fps_in ys - fps_in xs)) :: i64) = int (card (fps_in ys - fps_in xs))"
    using le c by (auto intro!: small_count)
  have z: "(of_nat (length changes) :: i64) = 0 \<Longrightarrow> changes = []" using s(1) by (metis length_0_conv of_nat_0_eq_iff signed_0)
  show ?thesis
    unfolding d' scorecard_of_def validateChangeCountEvidence_def Let_def
    using c u z correlation_state [OF f]
    by (auto simp: diff_counts(1) [OF assms(1-3)] s BehaviorDiff_AddedChangeCount_def BehaviorDiff_CorrelationState_def CountingPolicyVersion_def
        correlation_defs)
qed

lemma evidence_decides:
  assumes "evidence_of rr xs a c" and "evidence_of rc ys b d" and "CompareBehaviorSnapshots (Snapshot c) (Snapshot d) = Inr diff"
  shows "\<exists>diff' sk. WithCorrelation diff obs h = Inr diff' \<and> NewEvaluationScorecard a b diff' = Inr sk \<and>
    EvaluateEvaluationGate sk (NewEvaluationGatePolicy l) = Inr (gateResult sk l)"
proof -
  have r: "coll_reach rr xs c" "coll_reach rc ys d" using assms(1,2) by (auto simp: evidence_of_def)
  obtain changes st where w: "WithCorrelation diff obs h = Inr (diff\<lparr>bd_changes := changes, bd_correlationState := st\<rparr>)"
    using correlation_ok [OF r assms(3)] by blast
  show ?thesis
    using w scorecard_decides [OF assms] summary_arithmetic [OF assms] change_count_evidence [OF r assms(3) w]
    by (auto simp: gate_Inr NewEvaluationGatePolicy_def scorecard_of_def Let_def)
qed

end
