(* ===== verification/Witnesses_Compare.thy ===== *)
theory Witnesses_Compare
  imports Witnesses_Evidence Witnesses_Store Platform_Compare
begin

text \<open>
  Concrete instances of the theorems on costs and repeated comparisons: each applies its theorem at
  evaluated data on which the hypotheses hold.
\<close>

subsection \<open>Map iteration orders\<close>

definition w_target :: "string \<times> string \<Rightarrow> OperationalTarget" where
  "w_target p = \<lparr>ot_Name = snd p, ot_Category = fst p\<rparr>"

definition w_orders :: map_orders where
  "w_orders = \<lparr>mo_target = \<lambda>S. map w_target (sorted_list_of_fset ((\<lambda>t. (ot_Category t, ot_Name t)) |`| S)),
     mo_string = sorted_list_of_fset\<rparr>"

definition w_orders' :: map_orders where
  "w_orders' = \<lparr>mo_target = \<lambda>S. rev (mo_target w_orders S), mo_string = \<lambda>S. rev (sorted_list_of_fset S)\<rparr>"

lemma w_target_inv: "w_target (ot_Category t, ot_Name t) = t" "inj w_target"
  by (auto simp: w_target_def inj_def prod_eq_iff)

lemma w_sorted_fset: "distinct (sorted_list_of_fset (S :: 'a :: linorder fset))"
  by (simp add: sorted_list_of_fset.rep_eq)

lemma w_strings: "enumerates (sorted_list_of_fset :: string fset \<Rightarrow> string list)"
  by (simp add: enumerates_def w_sorted_fset)

lemma w_enumerating: "enumerating w_orders" "enumerating w_orders'"
proof -
  have "enumerates (mo_target w_orders)"
    unfolding enumerates_def
  proof (intro allI conjI)
    fix S :: "OperationalTarget fset"
    show "distinct (mo_target w_orders S)" using inj_on_subset [OF w_target_inv(2) subset_UNIV] by (simp add: w_orders_def distinct_map w_sorted_fset)
    show "set (mo_target w_orders S) = fset S" by (simp add: w_orders_def image_image w_target_inv)
  qed
  then show "enumerating w_orders" "enumerating w_orders'"
    using w_strings by (simp_all add: enumerating_def enumerates_def w_orders'_def) (simp_all add: w_orders_def enumerates_def)
qed

subsection \<open>Cost\<close>

definition w_pricing :: Pricing where
  "w_pricing = \<lparr>pr_version = ''v1'', pr_source = ''list prices'', pr_currency = ''EUR'', pr_digest = ''d'',
     pr_models = Some (fmupd ''gpt'' \<lparr>mp_InputMicrosPerMillion = 3000000, mp_OutputMicrosPerMillion = 15000000\<rparr> fmempty)\<rparr>"

definition w_model_entry :: "string \<Rightarrow> u64 \<Rightarrow> BehaviorEntry" where
  "w_model_entry model n = \<lparr>be_FingerprintID = model, be_Behavior = \<lparr>sf_ActorType = ''ai_agent'', sf_OperationCategory = ''llm'',
     sf_OperationName = model, sf_TargetName = ''api'', sf_TargetCategory = ''llm'', sf_Environment = ''prod''\<rparr>,
     be_Observations = 1, be_Operational = zeroOperational\<lparr>os_Tokens := zeroTokens\<lparr>tk_Observed := 1, tk_Input := n, tk_Output := 2\<rparr>\<rparr>,
     be_Fidelity = zeroFidelity\<rparr>"

lemma w_model_entry: "reports_tokens (w_model_entry m n)" "entry_model (w_model_entry m n) = m"
  "entry_tokens (w_model_entry m n) = \<lparr>tk_Input = n, tk_Output = 2, tk_Unsplit = 0, tk_Observed = 1, tk_Unobserved = 0\<rparr>"
  by (simp_all add: w_model_entry_def reports_tokens_def zeroTokens_def)

definition w_cost :: CostComparison where
  "w_cost = \<lparr>cc_PricingVersion = ''v1'', cc_PricingDigest = ''d'', cc_Source = ''list prices'', cc_Currency = ''EUR'',
     cc_Reference = \<lparr>ce_RunsWithEvidence = 1, ce_CostMicros = 60, ce_PricedTokens = 12, ce_UnpricedTokens = 0,
       ce_TokenObservations = 1, ce_ObservationsWithoutTokens = 0\<rparr>,
     cc_Candidate = \<lparr>ce_RunsWithEvidence = 1, ce_CostMicros = 60, ce_PricedTokens = 12, ce_UnpricedTokens = 7,
       ce_TokenObservations = 2, ce_ObservationsWithoutTokens = 0\<rparr>, cc_Unavailable = ''''\<rparr>"

lemma w_priced: "price_of w_pricing ''gpt'' \<noteq> None" "price_of w_pricing ''local'' = None"
  "price_at w_pricing ''gpt'' = \<lparr>mp_InputMicrosPerMillion = 3000000, mp_OutputMicrosPerMillion = 15000000\<rparr>"
  by (simp_all add: price_of_def price_at_def w_pricing_def)

lemma w_cost_figures:
  "cost_figures w_pricing [[w_model_entry ''gpt'' 10]] (cc_Reference w_cost)"
  "cost_figures w_pricing [[w_model_entry ''gpt'' 10, w_model_entry ''local'' 5]] (cc_Candidate w_cost)"
proof -
  have two: "[w_model_entry ''gpt'' 10, w_model_entry ''local'' 5] = [w_model_entry ''gpt'' 10] @ [w_model_entry ''local'' 5]" by simp
  show "cost_figures w_pricing [[w_model_entry ''gpt'' 10]] (cc_Reference w_cost)"
    using w_priced by (simp add: cost_figures_def runs_with_tokens_def cost_totals_single w_model_entry w_cost_def priced_tokens_def
        cost_micros_def)
  show "cost_figures w_pricing [[w_model_entry ''gpt'' 10, w_model_entry ''local'' 5]] (cc_Candidate w_cost)"
    unfolding two using w_priced by (simp add: cost_figures_def runs_with_tokens_def cost_totals_append cost_totals_single w_model_entry
        w_cost_def priced_tokens_def cost_micros_def del: append.append_Cons append.append_Nil)
qed

theorem cost_exact_witness:
  "compareCost sorted_list_of_fset w_pricing [[w_model_entry ''gpt'' 10]] [[w_model_entry ''gpt'' 10, w_model_entry ''local'' 5]] =
     Inr (Some w_cost)"
  unfolding cost_exact [OF w_strings] using w_cost_figures
  by (simp add: w_cost_def Configured_def w_pricing_def CostEvidence_Available_def unavailability_def)

theorem cost_order_independent_witness:
  "compareCost sorted_list_of_fset w_pricing [[w_model_entry ''gpt'' 10], []] [[w_model_entry ''local'' 5]] =
   compareCost (rev \<circ> sorted_list_of_fset) w_pricing [[], [w_model_entry ''gpt'' 10]] [[w_model_entry ''local'' 5]]"
  by (rule cost_order_independent) (use w_strings in \<open>simp_all add: enumerates_def\<close>)

subsection \<open>Repetitions\<close>

definition w_behaviour :: "string \<Rightarrow> StableFeatures" where
  "w_behaviour op = \<lparr>sf_ActorType = ''ai_agent'', sf_OperationCategory = ''tool'', sf_OperationName = op, sf_TargetName = ''db'',
     sf_TargetCategory = ''database'', sf_Environment = ''prod''\<rparr>"

definition w_entry :: "string \<Rightarrow> BehaviorEntry" where
  "w_entry fp = \<lparr>be_FingerprintID = fp, be_Behavior = w_behaviour fp, be_Observations = 1, be_Operational = zeroOperational,
     be_Fidelity = zeroFidelity\<rparr>"

definition w_rep :: "ComparisonSide \<Rightarrow> string \<Rightarrow> u64 \<Rightarrow> RepetitionEvidence" where
  "w_rep side i n = \<lparr>rp_Side = side, rp_Index = 0, rp_RunID = i, rp_Status = RunCompleted, rp_BehavioralProfile = ''profile'',
     rp_RecordCount = n, rp_DistinctBehaviors = 1, rp_BlockDecisions = 0, rp_CriticalRiskObservations = 0\<rparr>"

definition w_inputs :: "repetitionInput list" where
  "w_inputs = [\<lparr>rin_evidence = w_rep SideReference ''ref'' 1, rin_entries = [w_entry ''f'']\<rparr>,
     \<lparr>rin_evidence = w_rep SideCandidate ''new'' 2, rin_entries = [w_entry ''f'', w_entry ''g'']\<rparr>]"

definition w_rlimits :: RepeatedEvaluationGateLimits where
  "w_rlimits = \<lparr>rl_AddedCandidatePresenceMinimum = 1, rl_AddedReferencePresenceMaximum = 0, rl_MaxRepeatedAddedBehaviors = 1,
     rl_MaxBlockDecisionsPerRun = 0, rl_MaxCriticalRiskObservationsPerRun = 0, rl_MinCandidateFrequency = \<lparr>ol_maximum = 1, ol_set = True\<rparr>,
     rl_MaxLostBehaviors = \<lparr>ol_maximum = 0, ol_set = True\<rparr>, rl_MaxCallsPerRun = Some [\<lparr>tl_Target = ''db'', tl_Max = 2\<rparr>],
     rl_MaxLLMCallsPerRun = \<lparr>ol_maximum = 0, ol_set = False\<rparr>\<rparr>"

lemma w_floor: "floorDivTimes1000 0 1 = Inr 0" "floorDivTimes1000 1 1 = Inr 1000" "floorDivTimes1000 2 1 = Inr 2000"
  by (simp_all add: floorDivTimes1000_exact)

lemma w_zeros: "OperationalSummary_Add zeroOperational zeroOperational = Inr zeroOperational"
  "BehaviorFidelity_Add zeroFidelity zeroFidelity = Inr zeroFidelity"
  "addCalls 0 n = Inr n" "addCount 0 n = Inr n"
  by code_simp (code_simp, simp_all add: addCalls_def addCount_def MaxUint64_def)

lemma w_unavailable: "LatencyEvidence_Available (os_Durations zeroOperational) = False" "TokenEvidence_Available (os_Tokens zeroOperational) = False"
  "ErrorEvidence_Available (os_SpanStatus zeroOperational) (os_HTTPStatus zeroOperational) = False"
  "os_HTTP429 zeroOperational = 0" "HTTPStatusClassCounts_Stated (os_HTTPStatus zeroOperational) = 0"
  "bf_LayerModel zeroFidelity = 0"
  by code_simp+

abbreviation w_t :: OperationalTarget where "w_t \<equiv> w_target (''database'', ''db'')"

lemma w_entry: "be_FingerprintID (w_entry fp) = fp" "be_Behavior (w_entry fp) = w_behaviour fp" "be_Observations (w_entry fp) = 1"
  "be_Operational (w_entry fp) = zeroOperational" "be_Fidelity (w_entry fp) = zeroFidelity" "entry_target (w_entry fp) = w_t"
  "w_behaviour fp = w_behaviour fp' \<longleftrightarrow> fp = fp'"
  by (simp_all add: w_entry_def entry_target_def w_target_def w_behaviour_def)

lemma w_order: "mo_target w_orders {|w_t|} = [w_t]" "mo_string w_orders {|x|} = [x]" "mo_target w_orders' {|w_t|} = [w_t]" "mo_string w_orders' {|x|} = [x]"
  "mo_string w_orders {|''g'', ''f''|} = [''f'', ''g'']" "mo_string w_orders' {|''g'', ''f''|} = [''g'', ''f'']" "mo_string w_orders' {|''f'', ''g'', ''f''|} = [''g'', ''f'']"
  by (simp_all add: w_orders_def w_orders'_def sorted_list_of_fset.rep_eq w_target_def insert_Diff_if)

lemmas w_reduce = reduce_input_def w_rep_def Repetition_Completed_def Let_def new_reduction_def new_side_def side_addRun_def
  addRun_def zeroSide_def w_zeros w_entry freq_addRun_def freq_entry_def w_unavailable andThen_def newFrequencySide_def
  bump_def add_into_def acc_addRun_def emptyAccumulator_def w_order reduce_layers_def layerEvidenceOf_def reduce_entry_def tally_of_def
  newTally_def tally_count_def maxBehaviorEntries_def fmsize_def addCalls_def fcard_finsert_if fcard_fempty
  MaxUint64_def

lemmas w_finish = reduceRepeated_def behavior_presence_def behaviorStats_def acc_stats_def w_floor targetFrequencies_def target_row_def
  targetStats_def zeroFrequency_def

lemma w_repeated: "\<exists>c. reduceRepeated w_orders w_rlimits 1 w_inputs = Inr c" "\<exists>c. reduceRepeated w_orders' w_rlimits 1 (rev w_inputs) = Inr c"
proof -
  have "case reduceRepeated w_orders w_rlimits 1 w_inputs of Inl _ \<Rightarrow> False | Inr c \<Rightarrow> True"
    "case reduceRepeated w_orders' w_rlimits 1 (rev w_inputs) of Inl _ \<Rightarrow> False | Inr c \<Rightarrow> True"
    by (simp_all add: w_inputs_def w_reduce w_finish split: prod.split)
  then show "\<exists>c. reduceRepeated w_orders w_rlimits 1 w_inputs = Inr c" "\<exists>c. reduceRepeated w_orders' w_rlimits 1 (rev w_inputs) = Inr c"
    by (auto split: sum.splits)
qed

lemma w_ok: "repetitions_ok 1 w_inputs"
  by (simp add: repetitions_ok_def w_inputs_def w_entry)

lemma w_completed: "completed_runs SideReference w_inputs = [[w_entry ''f'']]"
  "completed_runs SideCandidate w_inputs = [[w_entry ''f'', w_entry ''g'']]"
  by (simp_all add: completed_runs_def completed_inputs_def of_side_def w_inputs_def w_rep_def Repetition_Completed_def)

lemma w_shown: "shown [w_entry ''f''] = {''f''}" "shown [w_entry ''f'', w_entry ''g''] = {''f'', ''g''}"
  by (simp_all add: shown_def counted_def w_entry)

lemma w_all_shown: "all_shown w_inputs = {''f'', ''g''}"
  by (auto simp: all_shown_def w_inputs_def w_shown w_rep_def Repetition_Completed_def)

theorem repeated_presence_exact_witness:
  "\<exists>c. reduceRepeated w_orders w_rlimits 1 w_inputs = Inr c \<and> map bp_FingerprintID (rq_Behaviors c) = [''f'', ''g'']"
proof -
  obtain c where c: "reduceRepeated w_orders w_rlimits 1 w_inputs = Inr c" using w_repeated(1) ..
  have "sorted_list_of_set {''f'', ''g''} = [''f'', ''g'']" by code_simp
  then show ?thesis using c repeated_presence_exact [OF c w_enumerating(1) w_ok] by (simp add: w_all_shown)
qed

theorem repeated_order_independent_witness:
  "\<exists>c c'. reduceRepeated w_orders w_rlimits 1 w_inputs = Inr c \<and> reduceRepeated w_orders' w_rlimits 1 (rev w_inputs) = Inr c' \<and>
     rgr_verdict (rq_Gate c) = rgr_verdict (rq_Gate c')"
proof -
  obtain c c' where c: "reduceRepeated w_orders w_rlimits 1 w_inputs = Inr c" "reduceRepeated w_orders' w_rlimits 1 (rev w_inputs) = Inr c'"
    using w_repeated by blast
  have "mset w_inputs = mset (rev w_inputs)" by simp
  then show ?thesis using c repeated_order_independent [OF c w_enumerating w_ok] by blast
qed

theorem repeated_verdict_exact_witness:
  "\<exists>c. reduceRepeated w_orders w_rlimits 1 w_inputs = Inr c \<and> rgr_verdict (rq_Gate c) = GateVerdictPass"
proof -
  obtain c where c: "reduceRepeated w_orders w_rlimits 1 w_inputs = Inr c" using w_repeated(1) ..
  have "{fp \<in> all_shown w_inputs. unat (rl_AddedCandidatePresenceMinimum w_rlimits) \<le> presence SideCandidate w_inputs fp \<and>
      presence SideReference w_inputs fp \<le> unat (rl_AddedReferencePresenceMaximum w_rlimits)} = {''g''}"
    by (auto simp: w_all_shown presence_def w_completed w_shown w_rlimits_def)
  then have "required_limits_met w_rlimits 1 w_inputs"
    by (simp add: required_limits_met_def w_completed) (simp add: w_rlimits_def w_inputs_def w_rep_def)
  moreover have "frequency_limits_met w_rlimits 1 w_inputs"
    by (simp add: frequency_limits_met_def w_completed w_all_shown Let_def presence_def w_shown w_rlimits_def target_limit_met_def calls_def
        w_entry w_behaviour_def)
  ultimately show ?thesis using c repeated_verdict_exact [OF c w_enumerating(1) w_ok] by auto
qed

subsection \<open>One repetition per side\<close>

lemma w_single_fidelity: "\<exists>b'. BehaviorFidelity_Add zeroFidelity b = Inr b'"
  by (cases b) (simp add: BehaviorFidelity_Add_def zeroFidelity_def fidelityCounters_def w_zeros andThen_def)

lemma w_single_entry:
  "\<exists>e. sn_entries (Snapshot (w_coll1 i)) = [e] \<and> be_FingerprintID e = ''f'' \<and> be_Observations e = 1 \<and>
     be_Behavior e = dr_Behavior (w_record w_later)"
proof -
  obtain s b where sb: "OperationalSummary_observe zeroOperational (w_record w_later) noFacts = Inr s"
    "BehaviorFidelity_observe zeroFidelity (of_Fidelity noFacts) (of_Layer noFacts) = Inr b"
    using w_summary_ex [OF w_record_duration w_rec(14,15)] w_fidelity by blast
  show ?thesis unfolding w_coll1_def
    by (simp add: ObserveOperational_def w_coll0_def sb w_eval Snapshot_def map_values_def sorted_list_of_fmap_def sorted_list_of_fset.rep_eq)
qed

lemma w_single_reach: "coll_reach (w_run ''ref'') [(w_record w_later, noFacts)] (w_coll1 ''ref'')"
  "coll_reach (w_run ''new'') [(w_record w_later, noFacts)] (w_coll1 ''new'')"
  using coll_reach.accept [OF coll_reach.new [OF w_new_coll(1)] w_observe1(1)]
    coll_reach.accept [OF coll_reach.new [OF w_new_coll(2)] w_observe1(1)] by simp_all

lemma w_single_evidence:
  "evidence_of (w_run ''ref'') [(w_record w_later, noFacts)] (w_agg1 ''ref'') (w_coll1 ''ref'')"
  "evidence_of (w_run ''new'') [(w_record w_later, noFacts)] (w_agg1 ''new'') (w_coll1 ''new'')"
  using w_single_reach agg_reach.add [OF agg_reach.empty [OF w_new_agg(1)] w_added(1)]
    agg_reach.add [OF agg_reach.empty [OF w_new_agg(2)] w_added(2)] by (simp_all add: evidence_of_def)

lemma w_single_diff: "\<exists>b. CompareBehaviorSnapshots (Snapshot (w_coll1 ''ref'')) (Snapshot (w_coll1 ''new'')) = Inr b"
  unfolding comparable_iff [OF w_single_reach] using w_complete(1) w_summaries(1) by (simp add: w_run_def agree_def)

lemma w_single_addRun: "\<exists>s. addRun zeroSide (sn_entries (Snapshot (w_coll1 ''ref''))) = Inr s"
  "\<exists>s. addRun zeroSide (sn_entries (Snapshot (w_coll1 ''new''))) = Inr s"
proof -
  obtain b where "CompareBehaviorSnapshots (Snapshot (w_coll1 ''ref'')) (Snapshot (w_coll1 ''new'')) = Inr b" using w_single_diff ..
  then have "\<exists>op. compareOperationalEntries (sn_entries (Snapshot (w_coll1 ''ref''))) (sn_entries (Snapshot (w_coll1 ''new''))) = Inr op"
    by (auto simp: CompareBehaviorSnapshots_def Let_def split: option.splits)
  then show "\<exists>s. addRun zeroSide (sn_entries (Snapshot (w_coll1 ''ref''))) = Inr s"
    "\<exists>s. addRun zeroSide (sn_entries (Snapshot (w_coll1 ''new''))) = Inr s"
    by (auto simp: compareOperationalEntries_def)
qed

abbreviation w_u :: OperationalTarget where "w_u \<equiv> w_target (''database'', ''orders-db'')"

definition w_unfolded :: EvaluationGateLimits where
  "w_unfolded = \<lparr>gl_MaxAddedBehaviors = 0, gl_MaxBlockDecisions = 1, gl_MaxCriticalRiskObservations = 1,
     gl_MaxAddedBehaviorChanges = \<lparr>ol_maximum = 0, ol_set = False\<rparr>\<rparr>"

lemma w_single_order: "mo_target w_orders {|w_u|} = [w_u]"
  by (simp add: w_orders_def sorted_list_of_fset.rep_eq w_target_def)

lemmas w_single_reduce = reduce_input_def Let_def new_reduction_def new_side_def side_addRun_def w_zeros freq_addRun_def freq_entry_def
  andThen_def newFrequencySide_def bump_def add_into_def acc_addRun_def emptyAccumulator_def w_order w_single_order reduce_layers_def
  layerEvidenceOf_def reduce_entry_def tally_of_def newTally_def tally_count_def maxBehaviorEntries_def fmsize_def addCalls_def
  fcard_finsert_if fcard_fempty MaxUint64_def

definition w_single :: "ComparisonSide \<Rightarrow> string \<Rightarrow> repetitionInput" where
  "w_single side i = (case completedRepetition (w_rep side i 0) (w_agg1 i) (Snapshot (w_coll1 i)) of Inr x \<Rightarrow> x)"

lemma w_single_completed: "completedRepetition (w_rep side i 0) (w_agg1 i) (Snapshot (w_coll1 i)) = Inr (w_single side i)"
  using w_complete(1) [of i] w_observe1(2) [of i] by (auto simp: w_single_def completedRepetition_def Snapshot_def w_coll0_def)

lemma w_single_fields: "rin_entries (w_single side i) = sn_entries (Snapshot (w_coll1 i))" "rp_Side (rin_evidence (w_single side i)) = side"
  "Repetition_Completed (rin_evidence (w_single side i))"
  using completedRepetition_Inr [OF w_single_completed [of side i]] by (simp_all add: w_rep_def Repetition_Completed_def)

lemma w_single_reduced:
  "\<exists>q. reduceRepeated w_orders (single_run_limits l) 1 [w_single SideReference ''ref'', w_single SideCandidate ''new''] = Inr q"
proof -
  obtain e1 e2 where e: "sn_entries (Snapshot (w_coll1 ''ref'')) = [e1]" "be_FingerprintID e1 = ''f''" "be_Observations e1 = 1"
    "be_Behavior e1 = dr_Behavior (w_record w_later)" "sn_entries (Snapshot (w_coll1 ''new'')) = [e2]" "be_FingerprintID e2 = ''f''"
    "be_Observations e2 = 1" "be_Behavior e2 = dr_Behavior (w_record w_later)" using w_single_entry by metis
  obtain s1 s2 where s: "addRun zeroSide [e1] = Inr s1" "addRun zeroSide [e2] = Inr s2"
    using w_single_addRun unfolding e by blast
  obtain b1 b2 where b: "BehaviorFidelity_Add zeroFidelity (be_Fidelity e1) = Inr b1" "BehaviorFidelity_Add zeroFidelity (be_Fidelity e2) = Inr b2"
    using w_single_fidelity by blast
  have t: "entry_target e1 = w_u" "entry_target e2 = w_u" using e by (simp_all add: entry_target_def w_target_def w_record_def)
  have "case reduceRepeated w_orders (single_run_limits l) 1 [w_single SideReference ''ref'', w_single SideCandidate ''new''] of
      Inl _ \<Rightarrow> False | Inr q \<Rightarrow> True"
    by (simp add: w_single_fields w_single_reduce w_finish e t s b split: prod.split)
  then show ?thesis by (auto split: sum.splits)
qed

theorem repeated_single_run_witness:
  "\<exists>b sk q. CompareBehaviorSnapshots (Snapshot (w_coll1 ''ref'')) (Snapshot (w_coll1 ''new'')) = Inr b \<and>
     NewEvaluationScorecard (w_agg1 ''ref'') (w_agg1 ''new'') b = Inr sk \<and>
     reduceRepeated w_orders (single_run_limits w_unfolded) 1 [w_single SideReference ''ref'', w_single SideCandidate ''new''] = Inr q \<and>
     rgr_verdict (rq_Gate q) = gr_verdict (gateResult sk w_unfolded)"
proof -
  obtain b where b: "CompareBehaviorSnapshots (Snapshot (w_coll1 ''ref'')) (Snapshot (w_coll1 ''new'')) = Inr b" using w_single_diff ..
  let ?sk = "scorecard_of (w_agg1 ''ref'') (w_agg1 ''new'') b"
  obtain q where q: "reduceRepeated w_orders (single_run_limits w_unfolded) 1 [w_single SideReference ''ref'', w_single SideCandidate ''new''] = Inr q"
    using w_single_reduced by blast
  have sk: "NewEvaluationScorecard (w_agg1 ''ref'') (w_agg1 ''new'') b = Inr ?sk"
    using scorecard_decides [OF w_single_evidence b, where ch = "bd_changes b" and st = "bd_correlationState b"] by simp
  have u: "ol_set (gl_MaxAddedBehaviorChanges w_unfolded) = False" by (simp add: w_unfolded_def)
  have g: "EvaluateEvaluationGate ?sk (NewEvaluationGatePolicy w_unfolded) = Inr (gateResult ?sk w_unfolded)"
    using summary_arithmetic [OF w_single_evidence b, where ch = "bd_changes b" and st = "bd_correlationState b"] u
    by (simp add: gate_Inr NewEvaluationGatePolicy_def) (simp add: scorecard_of_def Let_def)
  have s: "rp_Side (w_rep side i n) = side" "rp_Status (w_rep side i n) = RunCompleted" for side i n by (simp_all add: w_rep_def)
  show ?thesis
    using b sk q repeated_single_run [OF w_single_reach b sk u g w_single_completed s w_single_completed s w_enumerating(1) q] by blast
qed

end
