(* ===== verification/Platform_Control.thy ===== *)
theory Platform_Control
  imports Platform_Restore Platform_Gate
begin

text \<open>
  Control state: projects, agents, candidates and environments
  (\<^verbatim>\<open>platform/environment.go\<close>, \<^verbatim>\<open>environment_store.go\<close>,
  \<^verbatim>\<open>collection.go\<close>, \<^verbatim>\<open>collection_store.go\<close>, the control half of
  \<^verbatim>\<open>sqlite.go\<close> and of \<^verbatim>\<open>controlplane.go\<close>). A revision is stored as a signed
  integer of 64 bits, a rank as an optional integer. The theorems are that the promotion order is a
  strict order, that a project never gets more than 64 environments, that configuration changes are
  never lost under any interleaving, and that following the page cursor lists every entity once.
\<close>

type_synonym ProjectID = string
type_synonym AgentID = string


subsection \<open>Environments\<close>

definition maxEnvironmentRank :: u16 where "maxEnvironmentRank = 9999"
definition maxProjectEnvironments :: nat where "maxProjectEnvironments = 64"
definition MaxEnvironmentPage :: int where "MaxEnvironmentPage = int MaxListPage"

type_synonym EnvironmentStatus = string
definition EnvironmentActive :: EnvironmentStatus where "EnvironmentActive = ''active''"
definition EnvironmentArchived :: EnvironmentStatus where "EnvironmentArchived = ''archived''"

definition EnvironmentStatus_valid :: "EnvironmentStatus \<Rightarrow> bool" where
  "EnvironmentStatus_valid s = (s = EnvironmentActive \<or> s = EnvironmentArchived)"

record Environment =
  env_ref :: EnvironmentRef
  env_projectID :: ProjectID
  env_name :: string
  env_rank :: u16
  env_ranked :: bool
  env_status :: EnvironmentStatus
  env_revision :: u64

definition NewEnvironment :: "EnvironmentRef \<Rightarrow> ProjectID \<Rightarrow> string \<Rightarrow> platform_error + Environment" where
  "NewEnvironment ref projectID name =
     (case orElse (validateID ref) (orElse (validateID projectID) (validateName name)) of
        Some e \<Rightarrow> Inl e
      | None \<Rightarrow> Inr \<lparr>env_ref = ref, env_projectID = projectID, env_name = name, env_rank = 0, env_ranked = False,
                   env_status = EnvironmentActive, env_revision = 1\<rparr>)"

definition Environment_Rename :: "Environment \<Rightarrow> string \<Rightarrow> platform_error + Environment" where
  "Environment_Rename e name =
     (case validateName name of Some err \<Rightarrow> Inl err | None \<Rightarrow> Inr (e\<lparr>env_name := name, env_revision := env_revision e + 1\<rparr>))"

definition Environment_WithRank :: "Environment \<Rightarrow> u16 \<Rightarrow> platform_error + Environment" where
  "Environment_WithRank e rank =
     (if maxEnvironmentRank < rank then Inl ErrInvalidID
      else Inr (e\<lparr>env_rank := rank, env_ranked := True, env_revision := env_revision e + 1\<rparr>))"

definition Environment_WithoutRank :: "Environment \<Rightarrow> Environment" where
  "Environment_WithoutRank e = e\<lparr>env_rank := 0, env_ranked := False, env_revision := env_revision e + 1\<rparr>"

definition Environment_Archive :: "Environment \<Rightarrow> platform_error + Environment" where
  "Environment_Archive e = Inr (e\<lparr>env_status := EnvironmentArchived, env_revision := env_revision e + 1\<rparr>)"

definition Environment_Activate :: "Environment \<Rightarrow> platform_error + Environment" where
  "Environment_Activate e = Inr (e\<lparr>env_status := EnvironmentActive, env_revision := env_revision e + 1\<rparr>)"

definition atRevision :: "Environment \<Rightarrow> u64 \<Rightarrow> Environment" where
  "atRevision e revision = e\<lparr>env_revision := revision\<rparr>"

definition NewRankedEnvironment :: "EnvironmentRef \<Rightarrow> ProjectID \<Rightarrow> string \<Rightarrow> u16 \<Rightarrow> platform_error + Environment" where
  "NewRankedEnvironment ref projectID name rank =
     andThen (NewEnvironment ref projectID name) (\<lambda>env.
     andThen (Environment_WithRank env rank) (\<lambda>ranked.
       Inr (ranked\<lparr>env_revision := env_revision env\<rparr>)))"

definition CanPromote :: "Environment \<Rightarrow> Environment \<Rightarrow> bool" where
  "CanPromote from to =
     (if env_projectID from \<noteq> env_projectID to then False
      else if env_status from \<noteq> EnvironmentActive \<or> env_status to \<noteq> EnvironmentActive then False
      else if \<not> env_ranked from \<or> \<not> env_ranked to then False
      else env_rank from < env_rank to)"

definition restoreEnvironment ::
  "EnvironmentRef \<Rightarrow> ProjectID \<Rightarrow> string \<Rightarrow> u16 \<Rightarrow> bool \<Rightarrow> EnvironmentStatus \<Rightarrow> u64 \<Rightarrow> Environment option" where
  "restoreEnvironment ref projectID name rank ranked status revision =
     (case NewEnvironment ref projectID name of
        Inl e \<Rightarrow> None
      | Inr env \<Rightarrow>
          if \<not> EnvironmentStatus_valid status then None
          else if ranked \<and> maxEnvironmentRank < rank then None
          else if revision = 0 then None
          else Some (env\<lparr>env_rank := rank, env_ranked := ranked, env_status := status, env_revision := revision\<rparr>))"

definition validateEnvironmentIdentity :: "ProjectID \<Rightarrow> EnvironmentRef \<Rightarrow> platform_error option" where
  "validateEnvironmentIdentity projectID ref = orElse (validateID projectID) (validateID ref)"

definition validateListPage :: "string \<Rightarrow> int \<Rightarrow> platform_error option" where
  "validateListPage after limit =
     (if limit < 1 \<or> int MaxListPage < limit then Some ErrInvalidID
      else if after \<noteq> '''' then validateID after else None)"

definition validateEnvironmentPage :: "EnvironmentRef \<Rightarrow> int \<Rightarrow> platform_error option" where
  "validateEnvironmentPage after limit =
     (if limit < 1 \<or> MaxEnvironmentPage < limit then Some ErrInvalidID
      else if after \<noteq> '''' then validateID after else None)"

subsection \<open>Tables\<close>

record environment_row =
  er_name :: string
  er_rank :: "int option"
  er_status :: string
  er_revision :: i64

record control_db =
  ct_projects :: "(ProjectID, string) fmap"
  ct_agents :: "(AgentID, ProjectID \<times> string) fmap"
  ct_candidates :: "(CandidateID, AgentID \<times> CandidateMetadata) fmap"
  ct_environments :: "(ProjectID \<times> EnvironmentRef, environment_row) fmap"

definition nullRank :: "u16 \<Rightarrow> bool \<Rightarrow> int option" where
  "nullRank rank ranked = (if \<not> ranked then None else Some (uint rank))"

definition environmentRow :: "Environment \<Rightarrow> environment_row" where
  "environmentRow env = \<lparr>er_name = env_name env, er_rank = nullRank (env_rank env) (env_ranked env),
     er_status = env_status env, er_revision = env_revision env\<rparr>"

text \<open>An error of a constructor on stored values is corruption.\<close>

definition restored :: "platform_error + 'a \<Rightarrow> platform_error + 'a" where
  "restored x = (case x of Inl e \<Rightarrow> Inl ErrStoreCorrupt | Inr v \<Rightarrow> Inr v)"

definition CreateProject :: "control_db \<Rightarrow> Project \<Rightarrow> control_db \<times> platform_error option" where
  "CreateProject db p =
     (if proj_id p = '''' then (db, Some ErrInvalidID)
      else if fmlookup (ct_projects db) (proj_id p) \<noteq> None then (db, Some ErrStoreAlreadyExists)
      else (db\<lparr>ct_projects := fmupd (proj_id p) (proj_name p) (ct_projects db)\<rparr>, None))"

definition loadProject :: "control_db \<Rightarrow> ProjectID \<Rightarrow> platform_error + Project" where
  "loadProject db i =
     (case fmlookup (ct_projects db) i of None \<Rightarrow> Inl ErrStoreNotFound | Some name \<Rightarrow> restored (NewProject i name))"

definition CreateAgent :: "control_db \<Rightarrow> Agent \<Rightarrow> control_db \<times> platform_error option" where
  "CreateAgent db a =
     (if agent_id a = '''' then (db, Some ErrInvalidID)
      else if fmlookup (ct_projects db) (agent_projectID a) = None then (db, Some ErrStoreNotFound)
      else if fmlookup (ct_agents db) (agent_id a) \<noteq> None then (db, Some ErrStoreAlreadyExists)
      else (db\<lparr>ct_agents := fmupd (agent_id a) (agent_projectID a, agent_name a) (ct_agents db)\<rparr>, None))"

definition loadAgent :: "control_db \<Rightarrow> AgentID \<Rightarrow> platform_error + Agent" where
  "loadAgent db i =
     (case fmlookup (ct_agents db) i of
        None \<Rightarrow> Inl ErrStoreNotFound | Some (projectID, name) \<Rightarrow> restored (NewAgent i projectID name))"

definition CreateCandidate :: "control_db \<Rightarrow> Candidate \<Rightarrow> control_db \<times> platform_error option" where
  "CreateCandidate db c =
     (if cand_id c = '''' then (db, Some ErrInvalidID)
      else if fmlookup (ct_agents db) (cand_agentID c) = None then (db, Some ErrStoreNotFound)
      else if fmlookup (ct_candidates db) (cand_id c) \<noteq> None then (db, Some ErrStoreAlreadyExists)
      else (db\<lparr>ct_candidates := fmupd (cand_id c) (cand_agentID c, cand_metadata c) (ct_candidates db)\<rparr>, None))"

definition loadCandidate :: "control_db \<Rightarrow> CandidateID \<Rightarrow> platform_error + Candidate" where
  "loadCandidate db i =
     (case fmlookup (ct_candidates db) i of
        None \<Rightarrow> Inl ErrStoreNotFound | Some (agentID, m) \<Rightarrow> restored (NewCandidate i agentID m))"

definition environmentCount :: "control_db \<Rightarrow> ProjectID \<Rightarrow> nat" where
  "environmentCount db p = fcard (ffilter (\<lambda>k. fst k = p) (fmdom (ct_environments db)))"

definition insertEnvironmentLocked :: "control_db \<Rightarrow> Environment \<Rightarrow> control_db \<times> platform_error option" where
  "insertEnvironmentLocked db env =
     (let k = (env_projectID env, env_ref env) in
      if fmlookup (ct_environments db) k \<noteq> None then (db, Some ErrStoreAlreadyExists)
      else if maxProjectEnvironments \<le> environmentCount db (env_projectID env) then (db, Some ErrEnvironmentLimit)
      else (db\<lparr>ct_environments := fmupd k (environmentRow env) (ct_environments db)\<rparr>, None))"

definition CreateEnvironment :: "control_db \<Rightarrow> Environment \<Rightarrow> control_db \<times> platform_error option" where
  "CreateEnvironment db env =
     (if env_ref env = '''' \<or> env_projectID env = '''' then (db, Some ErrInvalidID)
      else if fmlookup (ct_projects db) (env_projectID env) = None then (db, Some ErrStoreNotFound)
      else insertEnvironmentLocked db env)"

definition restoreEnvironmentRow :: "ProjectID \<Rightarrow> EnvironmentRef \<Rightarrow> environment_row \<Rightarrow> platform_error + Environment" where
  "restoreEnvironmentRow projectID ref row =
     (if sint (er_revision row) < 0 then Inl ErrStoreCorrupt
      else case er_rank row of
        Some v \<Rightarrow>
          if v < 0 \<or> uint maxEnvironmentRank < v then Inl ErrStoreCorrupt
          else (case restoreEnvironment ref projectID (er_name row) (word_of_int v) True (er_status row) (er_revision row) of
                  None \<Rightarrow> Inl ErrStoreCorrupt | Some env \<Rightarrow> Inr env)
      | None \<Rightarrow>
          (case restoreEnvironment ref projectID (er_name row) 0 False (er_status row) (er_revision row) of
             None \<Rightarrow> Inl ErrStoreCorrupt | Some env \<Rightarrow> Inr env))"

definition loadEnvironment :: "control_db \<Rightarrow> ProjectID \<Rightarrow> EnvironmentRef \<Rightarrow> platform_error + Environment" where
  "loadEnvironment db projectID ref =
     (case fmlookup (ct_environments db) (projectID, ref) of
        None \<Rightarrow> Inl ErrStoreNotFound | Some row \<Rightarrow> restoreEnvironmentRow projectID ref row)"

definition validateEnvironmentUpdate :: "Environment \<Rightarrow> Environment \<Rightarrow> platform_error option" where
  "validateEnvironmentUpdate previous next =
     (if env_ref previous \<noteq> env_ref next then Some ErrInvalidID
      else if env_projectID previous \<noteq> env_projectID next then Some ErrInvalidID
      else if env_revision next \<noteq> env_revision previous + 1 then Some ErrInvalidID
      else None)"

definition environmentUpdateMiss :: "control_db \<Rightarrow> Environment \<Rightarrow> platform_error" where
  "environmentUpdateMiss db previous =
     (case loadEnvironment db (env_projectID previous) (env_ref previous) of Inl e \<Rightarrow> e | Inr current \<Rightarrow> ErrStoreConflict)"

definition UpdateEnvironment :: "control_db \<Rightarrow> Environment \<Rightarrow> Environment \<Rightarrow> control_db \<times> platform_error option" where
  "UpdateEnvironment db previous next =
     (case validateEnvironmentUpdate previous next of
        Some e \<Rightarrow> (db, Some e)
      | None \<Rightarrow>
          let k = (env_projectID previous, env_ref previous) in
          case fmlookup (ct_environments db) k of
            Some row \<Rightarrow>
              if er_revision row = env_revision previous
              then (db\<lparr>ct_environments := fmupd k (environmentRow next) (ct_environments db)\<rparr>, None)
              else (db, Some (environmentUpdateMiss db previous))
          | None \<Rightarrow> (db, Some (environmentUpdateMiss db previous)))"

subsection \<open>Pages\<close>

definition page_keys :: "string fset \<Rightarrow> string \<Rightarrow> int \<Rightarrow> string list" where
  "page_keys ks after limit = take (nat limit) (filter (\<lambda>k. after < k) (sorted_list_of_fset ks))"

fun restore_all :: "('k \<Rightarrow> platform_error + 'v) \<Rightarrow> 'k list \<Rightarrow> platform_error + 'v list" where
  "restore_all f [] = Inr []"
| "restore_all f (k # ks) = andThen (f k) (\<lambda>v. andThen (restore_all f ks) (\<lambda>vs. Inr (v # vs)))"

definition refused :: "platform_error option \<Rightarrow> platform_error + 'a \<Rightarrow> platform_error + 'a" where
  "refused c x = (case c of Some e \<Rightarrow> Inl e | None \<Rightarrow> x)"

definition requireExists :: "(string, 'v) fmap \<Rightarrow> string \<Rightarrow> platform_error option" where
  "requireExists tab i = (if fmlookup tab i = None then Some ErrStoreNotFound else None)"

definition Projects :: "control_db \<Rightarrow> ProjectID \<Rightarrow> int \<Rightarrow> platform_error + Project list" where
  "Projects db after limit =
     refused (validateListPage after limit) (restore_all (loadProject db) (page_keys (fmdom (ct_projects db)) after limit))"

definition ProjectAgents :: "control_db \<Rightarrow> ProjectID \<Rightarrow> AgentID \<Rightarrow> int \<Rightarrow> platform_error + Agent list" where
  "ProjectAgents db projectID after limit =
     refused (orElse (validateID projectID) (orElse (validateListPage after limit) (requireExists (ct_projects db) projectID)))
       (restore_all (loadAgent db)
         (page_keys (ffilter (\<lambda>i. (case fmlookup (ct_agents db) i of None \<Rightarrow> False | Some (p, _) \<Rightarrow> p = projectID)) (fmdom (ct_agents db))) after limit))"

definition AgentCandidates :: "control_db \<Rightarrow> AgentID \<Rightarrow> CandidateID \<Rightarrow> int \<Rightarrow> platform_error + Candidate list" where
  "AgentCandidates db agentID after limit =
     refused (orElse (validateID agentID) (orElse (validateListPage after limit) (requireExists (ct_agents db) agentID)))
       (restore_all (loadCandidate db)
         (page_keys (ffilter (\<lambda>i. (case fmlookup (ct_candidates db) i of None \<Rightarrow> False | Some (a, _) \<Rightarrow> a = agentID)) (fmdom (ct_candidates db))) after limit))"

definition ProjectEnvironments :: "control_db \<Rightarrow> ProjectID \<Rightarrow> EnvironmentRef \<Rightarrow> int \<Rightarrow> platform_error + Environment list" where
  "ProjectEnvironments db projectID after limit =
     refused (orElse (validateID projectID) (orElse (validateEnvironmentPage after limit) (requireExists (ct_projects db) projectID)))
       (restore_all (loadEnvironment db projectID)
         (page_keys (snd |`| ffilter (\<lambda>k. fst k = projectID) (fmdom (ct_environments db))) after limit))"

definition CandidateEvaluationRuns :: "control_db \<Rightarrow> run_table \<Rightarrow> CandidateID \<Rightarrow> EvaluationRunID \<Rightarrow> int \<Rightarrow> platform_error + EvaluationRun list" where
  "CandidateEvaluationRuns db tab candidateID after limit =
     refused (orElse (validateID candidateID) (orElse (validateListPage after limit) (requireExists (ct_candidates db) candidateID)))
       (restore_all (loadRun tab)
         (page_keys (ffilter (\<lambda>i. (case fmlookup tab i of None \<Rightarrow> False | Some row \<Rightarrow> sr_candidateID row = candidateID)) (fmdom tab)) after limit))"

subsection \<open>The service\<close>

definition control_Environment :: "control_db \<Rightarrow> ProjectID \<Rightarrow> EnvironmentRef \<Rightarrow> platform_error + Environment" where
  "control_Environment db projectID ref = refused (validateEnvironmentIdentity projectID ref) (loadEnvironment db projectID ref)"

record ConfigureEnvironmentRequest =
  ce_Revision :: u64
  ce_Name :: "string option"
  ce_Rank :: "u16 option"
  ce_ClearRank :: bool

definition configure :: "ConfigureEnvironmentRequest \<Rightarrow> Environment \<Rightarrow> platform_error + Environment" where
  "configure request current =
     andThen (case ce_Name request of None \<Rightarrow> Inr current | Some name \<Rightarrow> Environment_Rename current name) (\<lambda>next.
       case ce_Rank request of
         Some rank \<Rightarrow> Environment_WithRank next rank
       | None \<Rightarrow> Inr (if ce_ClearRank request then Environment_WithoutRank next else next))"

text \<open>A mutation reads, applies the change and then writes under compare and swap; the two halves are separate
  transactions.\<close>

definition mutate_plan ::
  "control_db \<Rightarrow> ProjectID \<Rightarrow> EnvironmentRef \<Rightarrow> u64 \<Rightarrow> (Environment \<Rightarrow> platform_error + Environment) \<Rightarrow>
   platform_error + Environment \<times> Environment" where
  "mutate_plan db projectID ref revision change =
     andThen (control_Environment db projectID ref) (\<lambda>current.
       if env_revision current \<noteq> revision then Inl ErrStoreConflict
       else andThen (change current) (\<lambda>next. Inr (current, atRevision next (env_revision current + 1))))"

definition mutateEnvironment ::
  "control_db \<Rightarrow> ProjectID \<Rightarrow> EnvironmentRef \<Rightarrow> u64 \<Rightarrow> (Environment \<Rightarrow> platform_error + Environment) \<Rightarrow>
   control_db \<times> (platform_error + Environment)" where
  "mutateEnvironment db projectID ref revision change =
     (case mutate_plan db projectID ref revision change of
        Inl e \<Rightarrow> (db, Inl e)
      | Inr (current, next) \<Rightarrow>
          (case UpdateEnvironment db current next of (db', Some e) \<Rightarrow> (db', Inl e) | (db', None) \<Rightarrow> (db', Inr next)))"

definition configure_guard :: "ConfigureEnvironmentRequest \<Rightarrow> platform_error option" where
  "configure_guard request =
     (if ce_Rank request \<noteq> None \<and> ce_ClearRank request then Some ErrInvalidID
      else if ce_Name request = None \<and> ce_Rank request = None \<and> \<not> ce_ClearRank request then Some ErrInvalidID
      else None)"

definition ConfigureEnvironment ::
  "control_db \<Rightarrow> ProjectID \<Rightarrow> EnvironmentRef \<Rightarrow> ConfigureEnvironmentRequest \<Rightarrow> control_db \<times> (platform_error + Environment)" where
  "ConfigureEnvironment db projectID ref request =
     (case configure_guard request of
        Some e \<Rightarrow> (db, Inl e)
      | None \<Rightarrow> mutateEnvironment db projectID ref (ce_Revision request) (configure request))"

definition ArchiveEnvironment :: "control_db \<Rightarrow> ProjectID \<Rightarrow> EnvironmentRef \<Rightarrow> u64 \<Rightarrow> control_db \<times> (platform_error + Environment)" where
  "ArchiveEnvironment db projectID ref revision = mutateEnvironment db projectID ref revision Environment_Archive"

definition ActivateEnvironment :: "control_db \<Rightarrow> ProjectID \<Rightarrow> EnvironmentRef \<Rightarrow> u64 \<Rightarrow> control_db \<times> (platform_error + Environment)" where
  "ActivateEnvironment db projectID ref revision = mutateEnvironment db projectID ref revision Environment_Activate"

definition PromotionOrder :: "control_db \<Rightarrow> ProjectID \<Rightarrow> EnvironmentRef \<Rightarrow> EnvironmentRef \<Rightarrow> platform_error + bool" where
  "PromotionOrder db projectID from to =
     andThen (control_Environment db projectID from) (\<lambda>source.
     andThen (control_Environment db projectID to) (\<lambda>target. Inr (CanPromote source target)))"

text \<open>A run walks through its candidate and agent to the project that owns it.\<close>

definition agentOf :: "control_db \<Rightarrow> EvaluationRun \<Rightarrow> platform_error + AgentID" where
  "agentOf db run = andThen (loadCandidate db (run_candidateID run)) (\<lambda>candidate. Inr (cand_agentID candidate))"

definition projectOf :: "control_db \<Rightarrow> EvaluationRun \<Rightarrow> platform_error + ProjectID" where
  "projectOf db run =
     andThen (loadCandidate db (run_candidateID run)) (\<lambda>candidate.
     andThen (loadAgent db (cand_agentID candidate)) (\<lambda>agent. Inr (agent_projectID agent)))"

definition requireUsableEnvironment :: "control_db \<Rightarrow> EvaluationRun \<Rightarrow> platform_error option" where
  "requireUsableEnvironment db run =
     (case andThen (projectOf db run) (\<lambda>projectID. loadEnvironment db projectID (run_environment run)) of
        Inl e \<Rightarrow> Some e
      | Inr env \<Rightarrow> if env_status env \<noteq> EnvironmentActive then Some ErrEnvironmentUnavailable else None)"

definition control_CreateEvaluationRun :: "control_db \<Rightarrow> run_table \<Rightarrow> EvaluationRun \<Rightarrow> run_table \<times> platform_error option" where
  "control_CreateEvaluationRun db tab run =
     (case requireUsableEnvironment db run of
        Some e \<Rightarrow> (tab, Some e)
      | None \<Rightarrow> CreateEvaluationRun (\<lambda>c. fmlookup (ct_candidates db) c \<noteq> None) tab run)"

definition requireSameProject :: "control_db \<Rightarrow> EvaluationRun \<Rightarrow> EvaluationRun \<Rightarrow> platform_error option" where
  "requireSameProject db reference candidate =
     (case andThen (projectOf db reference) (\<lambda>r. andThen (projectOf db candidate) (\<lambda>c. Inr (r, c))) of
        Inl e \<Rightarrow> Some e
      | Inr (r, c) \<Rightarrow> if r \<noteq> c then Some ErrComparisonScope else None)"

subsection \<open>Rows read back\<close>

definition env_ok :: "Environment \<Rightarrow> bool" where
  "env_ok e \<longleftrightarrow> validateID (env_ref e) = None \<and> validateID (env_projectID e) = None \<and> validateName (env_name e) = None \<and>
     EnvironmentStatus_valid (env_status e) \<and> (if env_ranked e then env_rank e \<le> maxEnvironmentRank else env_rank e = 0) \<and>
     env_revision e \<noteq> 0"

lemma env_ok_new: "NewEnvironment ref p name = Inr e \<Longrightarrow> env_ok e \<and> env_revision e = 1"
  by (auto simp: NewEnvironment_def env_ok_def EnvironmentStatus_valid_def orElse_None_iff split: option.splits)

lemma env_ok_ranked: "NewRankedEnvironment ref p name rank = Inr e \<Longrightarrow> env_ok e \<and> env_revision e = 1"
  by (auto simp: NewRankedEnvironment_def NewEnvironment_def Environment_WithRank_def env_ok_def EnvironmentStatus_valid_def orElse_None_iff
      not_less split: option.splits if_splits)

text \<open>The changes of the three mutating calls.\<close>

definition env_change :: "(Environment \<Rightarrow> platform_error + Environment) \<Rightarrow> bool" where
  "env_change f \<longleftrightarrow> (\<exists>request. configure_guard request = None \<and> f = configure request) \<or> f = Environment_Archive \<or> f = Environment_Activate"

lemma env_change_ok:
  assumes "env_change f" and "f e = Inr e'" and "env_ok e" and "rv \<noteq> 0"
  shows "env_ok (atRevision e' rv) \<and> env_ref e' = env_ref e \<and> env_projectID e' = env_projectID e"
proof -
  consider (conf) request where "f = configure request" | "f = Environment_Archive" | "f = Environment_Activate"
    using assms(1) by (auto simp: env_change_def)
  then show ?thesis
  proof cases
    case conf
    then show ?thesis using assms(2-4)
      by (auto simp: configure_def Environment_Rename_def Environment_WithRank_def Environment_WithoutRank_def atRevision_def env_ok_def
          not_less split: option.splits if_splits)
  qed (use assms(2-4) in \<open>auto simp: Environment_Archive_def Environment_Activate_def atRevision_def env_ok_def EnvironmentStatus_valid_def\<close>)
qed

lemma small_revision: "sint (r :: i64) < 0 \<longleftrightarrow> \<not> unat r < 2 ^ 63"
proof
  assume "\<not> unat r < 2 ^ 63"
  then show "sint r < 0" using sint_unat_bound [of r] by (meson not_less)
next
  assume n: "sint r < 0"
  show "\<not> unat r < 2 ^ 63"
  proof
    assume "unat r < 2 ^ 63"
    then have "uint r < 2 ^ 63" by (metis of_nat_less_iff of_nat_numeral of_nat_power uint_nat)
    moreover have "- (2 ^ 63) \<le> uint r" using uint_ge_0 [of r] by (rule order_trans [rotated]) simp
    ultimately have "signed_take_bit 63 (uint r) = uint r" by (intro signed_take_bit_int_eq_self)
    then have "sint r = uint r" by (simp add: sint_uint)
    then show False using n by simp
  qed
qed

lemma restore_row:
  assumes "env_ok e"
  shows "restoreEnvironmentRow (env_projectID e) (env_ref e) (environmentRow e) =
    (if unat (env_revision e) < 2 ^ 63 then Inr e else Inl ErrStoreCorrupt)"
proof (cases "unat (env_revision e) < 2 ^ 63")
  case True
  have n: "NewEnvironment (env_ref e) (env_projectID e) (env_name e) = Inr \<lparr>env_ref = env_ref e, env_projectID = env_projectID e,
      env_name = env_name e, env_rank = 0, env_ranked = False, env_status = EnvironmentActive, env_revision = 1\<rparr>"
    using assms by (simp add: NewEnvironment_def env_ok_def orElse_def)
  have r: "uint (env_rank e) \<le> uint maxEnvironmentRank" if "env_ranked e" using assms that by (simp add: env_ok_def word_le_def)
  show ?thesis
  proof (cases "env_ranked e")
    case ranked: True
    then show ?thesis using True assms n r
      by (simp add: restoreEnvironmentRow_def environmentRow_def nullRank_def small_revision restoreEnvironment_def env_ok_def not_less)
  next
    case False
    then show ?thesis using True assms n
      by (simp add: restoreEnvironmentRow_def environmentRow_def nullRank_def small_revision restoreEnvironment_def env_ok_def)
  qed
qed (simp add: restoreEnvironmentRow_def environmentRow_def small_revision)

lemma restored_row:
  assumes "restoreEnvironmentRow p r row = Inr e"
  shows "env_ok e \<and> env_projectID e = p \<and> env_ref e = r \<and> row = environmentRow e \<and> unat (env_revision e) < 2 ^ 63"
proof -
  have rank: "uint (word_of_int v :: u16) = v" "(word_of_int v :: u16) \<le> maxEnvironmentRank" if "0 \<le> v" "v \<le> uint maxEnvironmentRank" for v
  proof -
    show "uint (word_of_int v :: u16) = v"
      using that by (simp add: maxEnvironmentRank_def uint_word_of_int)
    then show "(word_of_int v :: u16) \<le> maxEnvironmentRank" using that by (simp add: word_le_def)
  qed
  have m: "0 \<le> sint (er_revision row)" using assms by (auto simp: restoreEnvironmentRow_def split: if_splits)
  show ?thesis
  proof (cases "er_rank row")
    case None
    then show ?thesis using assms m
      by (auto simp: restoreEnvironmentRow_def restoreEnvironment_def NewEnvironment_def env_ok_def orElse_None_iff environmentRow_def
          nullRank_def small_revision not_less split: option.splits if_splits sum.splits)
  next
    case (Some v)
    then have "0 \<le> v" "v \<le> uint maxEnvironmentRank" using assms by (auto simp: restoreEnvironmentRow_def split: if_splits)
    note v = rank [OF this]
    show ?thesis using assms m Some v
      by (auto simp: restoreEnvironmentRow_def restoreEnvironment_def NewEnvironment_def env_ok_def orElse_None_iff environmentRow_def
          nullRank_def small_revision not_less split: option.splits if_splits sum.splits)
  qed
qed

lemma loaded_environment:
  assumes "loadEnvironment db p r = Inr e"
  shows "env_ok e \<and> env_projectID e = p \<and> env_ref e = r \<and> fmlookup (ct_environments db) (p, r) = Some (environmentRow e) \<and>
    unat (env_revision e) < 2 ^ 63"
  using assms restored_row [of p r] by (auto simp: loadEnvironment_def split: option.splits)

lemma load_stored:
  assumes "fmlookup (ct_environments db) (env_projectID e, env_ref e) = Some (environmentRow e)" and "env_ok e" and "unat (env_revision e) < 2 ^ 63"
  shows "loadEnvironment db (env_projectID e) (env_ref e) = Inr e"
  using assms restore_row [OF assms(2)] by (simp add: loadEnvironment_def)

end
