(* ===== verification/Platform_Control_Proofs.thy ===== *)
theory Platform_Control_Proofs
  imports Platform_Control
begin

text \<open>
  The control state under any interleaving of its transactions. A mutation of an environment is two of
  them, the read that plans it and the compare and swap that writes it; a plan may be written at any
  later time, more than once, or never.
\<close>

subsection \<open>The system\<close>

record control_system =
  cy_db :: control_db
  cy_plans :: "(Environment \<times> Environment) list"

definition emptyControl :: control_db where
  "emptyControl = \<lparr>ct_projects = fmempty, ct_agents = fmempty, ct_candidates = fmempty, ct_environments = fmempty\<rparr>"

inductive ctl_step :: "control_system \<Rightarrow> control_system \<Rightarrow> bool" where
  project: "NewProject i n = Inr p \<Longrightarrow> CreateProject (cy_db s) p = (db', e) \<Longrightarrow> ctl_step s (s\<lparr>cy_db := db'\<rparr>)"
| agent: "NewAgent i p n = Inr a \<Longrightarrow> CreateAgent (cy_db s) a = (db', e) \<Longrightarrow> ctl_step s (s\<lparr>cy_db := db'\<rparr>)"
| candidate: "NewCandidate i a m = Inr c \<Longrightarrow> CreateCandidate (cy_db s) c = (db', e) \<Longrightarrow> ctl_step s (s\<lparr>cy_db := db'\<rparr>)"
| environment: "NewEnvironment r p n = Inr env \<or> NewRankedEnvironment r p n k = Inr env \<Longrightarrow> CreateEnvironment (cy_db s) env = (db', e) \<Longrightarrow>
    ctl_step s (s\<lparr>cy_db := db'\<rparr>)"
| plan: "env_change f \<Longrightarrow> mutate_plan (cy_db s) p r rv f = Inr pl \<Longrightarrow> ctl_step s (s\<lparr>cy_plans := cy_plans s @ [pl]\<rparr>)"
| commit: "(c, n) \<in> set (cy_plans s) \<Longrightarrow> UpdateEnvironment (cy_db s) c n = (db', e) \<Longrightarrow> ctl_step s (s\<lparr>cy_db := db'\<rparr>)"

inductive ctl_reach :: "control_system \<Rightarrow> bool" where
  start: "ctl_reach \<lparr>cy_db = emptyControl, cy_plans = []\<rparr>"
| step: "ctl_reach s \<Longrightarrow> ctl_step s s' \<Longrightarrow> ctl_reach s'"

subsection \<open>The invariant\<close>

definition env_rows_ok :: "control_db \<Rightarrow> bool" where
  "env_rows_ok db \<longleftrightarrow> (\<forall>p r row. fmlookup (ct_environments db) (p, r) = Some row \<longrightarrow>
     (\<exists>e. env_ok e \<and> env_projectID e = p \<and> env_ref e = r \<and> row = environmentRow e \<and> unat (env_revision e) \<le> 2 ^ 63 \<and>
       fmlookup (ct_projects db) p \<noteq> None))"

definition hierarchy_ok :: "control_db \<Rightarrow> bool" where
  "hierarchy_ok db \<longleftrightarrow>
     (\<forall>i. fmlookup (ct_projects db) i \<noteq> None \<longrightarrow> (\<exists>p. loadProject db i = Inr p)) \<and>
     (\<forall>i p n. fmlookup (ct_agents db) i = Some (p, n) \<longrightarrow> (\<exists>a. loadAgent db i = Inr a) \<and> fmlookup (ct_projects db) p \<noteq> None) \<and>
     (\<forall>i a m. fmlookup (ct_candidates db) i = Some (a, m) \<longrightarrow> (\<exists>c. loadCandidate db i = Inr c) \<and> fmlookup (ct_agents db) a \<noteq> None)"

definition plan_ok :: "control_db \<Rightarrow> Environment \<times> Environment \<Rightarrow> bool" where
  "plan_ok db pl \<longleftrightarrow> (case pl of (c, n) \<Rightarrow>
     env_ok c \<and> env_ok n \<and> env_ref n = env_ref c \<and> env_projectID n = env_projectID c \<and> env_revision n = env_revision c + 1 \<and>
     unat (env_revision c) < 2 ^ 63 \<and>
     (\<exists>row. fmlookup (ct_environments db) (env_projectID c, env_ref c) = Some row \<and> unat (env_revision c) \<le> unat (er_revision row) \<and>
        (er_revision row = env_revision c \<longrightarrow> row = environmentRow c)))"

definition ctl_inv :: "control_system \<Rightarrow> bool" where
  "ctl_inv s \<longleftrightarrow> env_rows_ok (cy_db s) \<and> hierarchy_ok (cy_db s) \<and>
     (\<forall>p. environmentCount (cy_db s) p \<le> maxProjectEnvironments) \<and> (\<forall>pl \<in> set (cy_plans s). plan_ok (cy_db s) pl)"

lemma plan_next: "unat (r :: u64) < 2 ^ 63 \<Longrightarrow> unat (r + 1) = unat r + 1"
  using unat_plus_small [of r 1] by simp

lemma planned:
  assumes "env_change f" and "mutate_plan db p r rv f = Inr pl"
  shows "plan_ok db pl"
proof -
  obtain c n where pl: "pl = (c, atRevision n (env_revision c + 1))" and c: "loadEnvironment db p r = Inr c" "f c = Inr n"
    using assms(2) by (auto simp: mutate_plan_def control_Environment_def refused_def split: if_splits option.splits)
  note l = loaded_environment [OF c(1)]
  have "env_revision c + 1 \<noteq> 0" using l plan_next [of "env_revision c"] by (metis add_eq_0_iff_both_eq_0 unat_0 zero_neq_one)
  with env_change_ok [OF assms(1) c(2)] l show ?thesis
    by (auto simp: plan_ok_def pl atRevision_def environmentRow_def)
qed

text \<open>Every transaction only adds rows, or replaces an environment row by one with the next revision.\<close>

definition ctl_grows :: "control_db \<Rightarrow> control_db \<Rightarrow> bool" where
  "ctl_grows db db' \<longleftrightarrow>
     (\<forall>k row. fmlookup (ct_environments db) k = Some row \<longrightarrow>
        (\<exists>row'. fmlookup (ct_environments db') k = Some row' \<and> (row' = row \<or> unat (er_revision row) < unat (er_revision row'))))"

lemma plan_ok_mono:
  assumes "plan_ok db pl" and "ctl_grows db db'"
  shows "plan_ok db' pl"
proof -
  obtain c n where pl: "pl = (c, n)" by force
  obtain row where row: "fmlookup (ct_environments db) (env_projectID c, env_ref c) = Some row" "unat (env_revision c) \<le> unat (er_revision row)"
    "er_revision row = env_revision c \<longrightarrow> row = environmentRow c"
    using assms(1) by (auto simp: plan_ok_def pl)
  then obtain row' where "fmlookup (ct_environments db') (env_projectID c, env_ref c) = Some row'"
    "row' = row \<or> unat (er_revision row) < unat (er_revision row')"
    using assms(2) unfolding ctl_grows_def by metis
  then show ?thesis using assms(1) row by (auto simp: plan_ok_def pl)
qed

lemma updated:
  assumes "UpdateEnvironment db c n = (db', None)" and "plan_ok db (c, n)"
  shows "fmlookup (ct_environments db) (env_projectID c, env_ref c) = Some (environmentRow c) \<and>
    db' = db\<lparr>ct_environments := fmupd (env_projectID c, env_ref c) (environmentRow n) (ct_environments db)\<rparr>"
  using assms by (auto simp: UpdateEnvironment_def plan_ok_def Let_def split: option.splits if_splits)

lemma update_refused: "UpdateEnvironment db c n = (db', Some e) \<Longrightarrow> db' = db"
  by (auto simp: UpdateEnvironment_def Let_def split: option.splits if_splits)

lemma update_grows:
  assumes "UpdateEnvironment db c n = (db', e)" and "plan_ok db (c, n)"
  shows "ctl_grows db db'"
proof (cases e)
  case None
  have "unat (er_revision (environmentRow c)) < unat (er_revision (environmentRow n))"
    using assms(2) plan_next by (simp add: plan_ok_def environmentRow_def)
  then show ?thesis using updated [OF assms(1) [unfolded None] assms(2)] by (auto simp: ctl_grows_def)
next
  case (Some a)
  then show ?thesis using update_refused [OF assms(1) [unfolded Some]] by (simp add: ctl_grows_def)
qed

lemma count_update:
  assumes "fmlookup (ct_environments db) k = Some row"
  shows "environmentCount (db\<lparr>ct_environments := fmupd k row' (ct_environments db)\<rparr>) p = environmentCount db p"
proof -
  have "finsert k (fmdom (ct_environments db)) = fmdom (ct_environments db)" using assms by (simp add: finsert_absorb fmdomI)
  then show ?thesis by (simp add: environmentCount_def)
qed

lemma project_kept:
  assumes "NewProject i n = Inr p" and "CreateProject db p = (db', e)" and "env_rows_ok db" and "hierarchy_ok db"
  shows "env_rows_ok db' \<and> hierarchy_ok db' \<and> ct_environments db' = ct_environments db"
proof (cases "db' = db")
  case False
  have p: "p = \<lparr>proj_id = i, proj_name = n\<rparr>" using assms(1) by (auto simp: NewProject_def split: option.splits)
  have d: "db' = db\<lparr>ct_projects := fmupd i n (ct_projects db)\<rparr>" "fmlookup (ct_projects db) i = None"
    using assms(2) False p by (auto simp: CreateProject_def split: if_splits)
  have "loadProject db' j = (if j = i then Inr p else loadProject db j)" "loadAgent db' = loadAgent db" "loadCandidate db' = loadCandidate db" for j
    using assms(1) by (auto simp: d(1) loadProject_def loadAgent_def loadCandidate_def restored_def)
  then show ?thesis using assms(3,4) by (fastforce simp: env_rows_ok_def hierarchy_ok_def d)
qed (use assms in simp)

lemma agent_kept:
  assumes "NewAgent i p n = Inr a" and "CreateAgent db a = (db', e)" and "env_rows_ok db" and "hierarchy_ok db"
  shows "env_rows_ok db' \<and> hierarchy_ok db' \<and> ct_environments db' = ct_environments db"
proof (cases "db' = db")
  case False
  have a: "a = \<lparr>agent_id = i, agent_projectID = p, agent_name = n\<rparr>" using assms(1) by (auto simp: NewAgent_def split: option.splits)
  have d: "db' = db\<lparr>ct_agents := fmupd i (p, n) (ct_agents db)\<rparr>" "fmlookup (ct_agents db) i = None" "fmlookup (ct_projects db) p \<noteq> None"
    using assms(2) False a by (auto simp: CreateAgent_def simp del: not_None_eq split: if_splits)
  have "loadAgent db' j = (if j = i then Inr a else loadAgent db j)" "loadProject db' = loadProject db" "loadCandidate db' = loadCandidate db" for j
    using assms(1) by (auto simp: d(1) loadProject_def loadAgent_def loadCandidate_def restored_def)
  then show ?thesis using assms(3,4) d(3) by (fastforce simp: env_rows_ok_def hierarchy_ok_def d(1,2))
qed (use assms in simp)

lemma candidate_kept:
  assumes "NewCandidate i a m = Inr c" and "CreateCandidate db c = (db', e)" and "env_rows_ok db" and "hierarchy_ok db"
  shows "env_rows_ok db' \<and> hierarchy_ok db' \<and> ct_environments db' = ct_environments db"
proof (cases "db' = db")
  case False
  have c: "c = \<lparr>cand_id = i, cand_agentID = a, cand_metadata = m\<rparr>" using assms(1) by (auto simp: NewCandidate_def split: option.splits)
  have d: "db' = db\<lparr>ct_candidates := fmupd i (a, m) (ct_candidates db)\<rparr>" "fmlookup (ct_candidates db) i = None" "fmlookup (ct_agents db) a \<noteq> None"
    using assms(2) False c by (auto simp: CreateCandidate_def simp del: not_None_eq split: if_splits)
  have "loadCandidate db' j = (if j = i then Inr c else loadCandidate db j)" "loadProject db' = loadProject db" "loadAgent db' = loadAgent db" for j
    using assms(1) by (auto simp: d(1) loadProject_def loadAgent_def loadCandidate_def restored_def)
  then show ?thesis using assms(3,4) d(3) by (fastforce simp: env_rows_ok_def hierarchy_ok_def d(1,2))
qed (use assms in simp)

lemma count_insert:
  assumes "fmlookup (ct_environments db) (p, r) = None"
  shows "environmentCount (db\<lparr>ct_environments := fmupd (p, r) row (ct_environments db)\<rparr>) q =
    environmentCount db q + (if q = p then 1 else 0)"
proof -
  have n: "(p, r) |\<notin>| fmdom (ct_environments db)" using assms by (simp add: fmdom_notI)
  have "ffilter (\<lambda>k. fst k = q) (finsert (p, r) (fmdom (ct_environments db))) =
      (if q = p then finsert (p, r) (ffilter (\<lambda>k. fst k = q) (fmdom (ct_environments db))) else ffilter (\<lambda>k. fst k = q) (fmdom (ct_environments db)))"
    by auto
  then show ?thesis using n by (simp add: environmentCount_def fcard_finsert_if)
qed

lemma environment_kept:
  assumes "env_ok env" and "env_revision env = 1" and "CreateEnvironment db env = (db', e)" and "env_rows_ok db" and "hierarchy_ok db"
    and "\<forall>p. environmentCount db p \<le> maxProjectEnvironments"
  shows "env_rows_ok db' \<and> hierarchy_ok db' \<and> (\<forall>p. environmentCount db' p \<le> maxProjectEnvironments) \<and> ctl_grows db db'"
proof (cases "db' = db")
  case False
  then have d: "db' = db\<lparr>ct_environments := fmupd (env_projectID env, env_ref env) (environmentRow env) (ct_environments db)\<rparr>"
    "fmlookup (ct_environments db) (env_projectID env, env_ref env) = None" "environmentCount db (env_projectID env) < maxProjectEnvironments"
    "fmlookup (ct_projects db) (env_projectID env) \<noteq> None"
    using assms(3) by (auto simp: CreateEnvironment_def insertEnvironmentLocked_def Let_def split: if_splits)
  have "hierarchy_ok db'" using assms(5) by (simp add: d(1) hierarchy_ok_def loadProject_def loadAgent_def loadCandidate_def)
  moreover have "env_rows_ok db'" using assms(1,2,4) d(4) by (auto simp: env_rows_ok_def d(1))
  moreover have "environmentCount db' p \<le> maxProjectEnvironments" for p
    using d(3) assms(6) unfolding d(1) count_insert [OF d(2)] by (auto simp: Suc_le_eq)
  moreover have "ctl_grows db db'" using d(2) by (auto simp: ctl_grows_def d(1))
  ultimately show ?thesis by blast
qed (use assms in \<open>simp add: ctl_grows_def\<close>)

lemma commit_kept:
  assumes "UpdateEnvironment db c n = (db', e)" and "plan_ok db (c, n)" and "env_rows_ok db" and "hierarchy_ok db"
  shows "env_rows_ok db' \<and> hierarchy_ok db' \<and> environmentCount db' p = environmentCount db p"
proof (cases e)
  case None
  note u = updated [OF assms(1) [unfolded None] assms(2)]
  have n: "env_ok n" "unat (env_revision n) \<le> 2 ^ 63" "env_ref n = env_ref c" "env_projectID n = env_projectID c"
    using assms(2) plan_next [of "env_revision c"] by (auto simp: plan_ok_def)
  have "fmlookup (ct_projects db) (env_projectID c) \<noteq> None" using u assms(3) by (auto simp: env_rows_ok_def)
  then have "env_rows_ok db'" using u n assms(3) by (auto simp: env_rows_ok_def)
  moreover have "hierarchy_ok db'" using assms(4) u by (simp add: hierarchy_ok_def loadProject_def loadAgent_def loadCandidate_def)
  ultimately show ?thesis using u count_update by blast
next
  case (Some err)
  then show ?thesis using update_refused [OF assms(1) [unfolded Some]] assms by simp
qed

lemma same_environments:
  assumes "ct_environments db' = ct_environments db"
  shows "environmentCount db' = environmentCount db" "ctl_grows db db'"
  using assms by (auto simp: environmentCount_def ctl_grows_def)

lemma ctl_inv_step:
  assumes "ctl_step s s'" and "ctl_inv s"
  shows "ctl_inv s'"
proof -
  have inv: "env_rows_ok (cy_db s)" "hierarchy_ok (cy_db s)" "\<forall>p. environmentCount (cy_db s) p \<le> maxProjectEnvironments"
    "\<And>pl. pl \<in> set (cy_plans s) \<Longrightarrow> plan_ok (cy_db s) pl"
    using assms(2) by (auto simp: ctl_inv_def)
  have keep: "ctl_inv (s\<lparr>cy_db := db'\<rparr>)" if "env_rows_ok db'" "hierarchy_ok db'" "\<forall>p. environmentCount db' p \<le> maxProjectEnvironments"
    "ctl_grows (cy_db s) db'" for db'
    using that inv(4) plan_ok_mono [OF inv(4) that(4)] by (simp add: ctl_inv_def)
  show ?thesis using assms(1)
  proof cases
    case (project i n p db' e)
    then show ?thesis using project_kept [OF project(2,3) inv(1,2)] same_environments inv(3) keep by metis
  next
    case (agent i p n a db' e)
    then show ?thesis using agent_kept [OF agent(2,3) inv(1,2)] same_environments inv(3) keep by metis
  next
    case (candidate i a m c db' e)
    then show ?thesis using candidate_kept [OF candidate(2,3) inv(1,2)] same_environments inv(3) keep by metis
  next
    case (environment r p n env k db' e)
    then have "env_ok env" "env_revision env = 1" using env_ok_new env_ok_ranked by blast+
    then show ?thesis using environment_kept [OF _ _ environment(3) inv(1-3)] environment(1) keep by metis
  next
    case (plan f p r rv pl)
    then show ?thesis using planned [OF plan(2,3)] assms(2) by (auto simp: ctl_inv_def)
  next
    case (commit c n db' e)
    note p = inv(4) [OF commit(2)]
    show ?thesis using commit_kept [OF commit(3) p inv(1,2)] update_grows [OF commit(3) p] inv(3) commit(1) keep by metis
  qed
qed

lemma ctl_reach_inv: "ctl_reach s \<Longrightarrow> ctl_inv s"
proof (induction rule: ctl_reach.induct)
  case start
  have "ffilter P {||} = {||}" for P :: "ProjectID \<times> EnvironmentRef \<Rightarrow> bool" by auto
  then show ?case by (simp add: ctl_inv_def emptyControl_def env_rows_ok_def hierarchy_ok_def environmentCount_def fcard_fempty)
qed (rule ctl_inv_step)

subsection \<open>What holds in every state\<close>

text \<open>C24. In every reachable state no project has more than 64 environments, every stored environment, agent and
  candidate reads back through its validating constructor (an environment as long as its revision is below 2^63), and its owner
  exists, so that walking from a candidate to its project always succeeds.\<close>

theorem control_invariant:
  assumes "ctl_reach s"
  shows "environmentCount (cy_db s) p \<le> maxProjectEnvironments \<and>
    (fmlookup (ct_candidates (cy_db s)) (run_candidateID run) \<noteq> None \<longrightarrow>
       (\<exists>q proj. projectOf (cy_db s) run = Inr q \<and> loadProject (cy_db s) q = Inr proj)) \<and>
    (\<forall>r row. fmlookup (ct_environments (cy_db s)) (p, r) = Some row \<longrightarrow> unat (er_revision row) < 2 ^ 63 \<longrightarrow>
       (\<exists>e proj. loadEnvironment (cy_db s) p r = Inr e \<and> environmentRow e = row \<and> loadProject (cy_db s) p = Inr proj))"
proof -
  note inv = ctl_reach_inv [OF assms, unfolded ctl_inv_def]
  have h: "hierarchy_ok (cy_db s)" "env_rows_ok (cy_db s)" using inv by auto
  have "\<exists>q proj. projectOf (cy_db s) run = Inr q \<and> loadProject (cy_db s) q = Inr proj"
    if ne: "fmlookup (ct_candidates (cy_db s)) (run_candidateID run) \<noteq> None"
  proof -
    obtain a m where c: "fmlookup (ct_candidates (cy_db s)) (run_candidateID run) = Some (a, m)" using ne by auto
    then obtain cand where l: "loadCandidate (cy_db s) (run_candidateID run) = Inr cand" "fmlookup (ct_agents (cy_db s)) a \<noteq> None"
      using h(1) unfolding hierarchy_ok_def by blast
    then obtain q n where g: "fmlookup (ct_agents (cy_db s)) a = Some (q, n)" by auto
    then obtain agent proj where "loadAgent (cy_db s) a = Inr agent" "loadProject (cy_db s) q = Inr proj"
      using h(1) unfolding hierarchy_ok_def by blast
    then show ?thesis using c l g
      by (auto simp: projectOf_def loadCandidate_def loadAgent_def restored_def NewCandidate_def NewAgent_def andThen_def orElse_def split: sum.splits option.splits)
  qed
  moreover have "\<exists>e proj. loadEnvironment (cy_db s) p r = Inr e \<and> environmentRow e = row \<and> loadProject (cy_db s) p = Inr proj"
    if row: "fmlookup (ct_environments (cy_db s)) (p, r) = Some row" and rev: "unat (er_revision row) < 2 ^ 63" for r row
  proof -
    obtain e where e: "env_ok e" "env_projectID e = p" "env_ref e = r" "row = environmentRow e" "fmlookup (ct_projects (cy_db s)) p \<noteq> None"
      using row h(2) unfolding env_rows_ok_def by blast
    then have "loadEnvironment (cy_db s) p r = Inr e" using load_stored [of "cy_db s" e] row rev by (simp add: environmentRow_def)
    moreover obtain proj where "loadProject (cy_db s) p = Inr proj" using e(5) h(1) unfolding hierarchy_ok_def by blast
    ultimately show ?thesis using e(4) by blast
  qed
  ultimately show ?thesis using inv by blast
qed

text \<open>C23. However configuration calls interleave, a planned change is written only when the environment is
  still exactly the one it was planned from. The write touches no other environment and is what the next read returns; any other
  change planned from the same revision is then refused as a conflict, and a refused change leaves everything as it was.\<close>

theorem environment_no_lost_update:
  assumes "ctl_reach s" and "(c, n) \<in> set (cy_plans s)" and "unat (env_revision c) < 2 ^ 63 - 1"
    and "UpdateEnvironment (cy_db s) c n = (db', err)"
  shows "case err of
      Some e \<Rightarrow> db' = cy_db s
    | None \<Rightarrow>
        loadEnvironment (cy_db s) (env_projectID c) (env_ref c) = Inr c \<and>
        loadEnvironment db' (env_projectID c) (env_ref c) = Inr n \<and>
        (\<forall>p r. (p, r) \<noteq> (env_projectID c, env_ref c) \<longrightarrow> loadEnvironment db' p r = loadEnvironment (cy_db s) p r) \<and>
        (\<forall>c' n'. (c', n') \<in> set (cy_plans s) \<longrightarrow> env_projectID c' = env_projectID c \<longrightarrow> env_ref c' = env_ref c \<longrightarrow>
           env_revision c' = env_revision c \<longrightarrow> UpdateEnvironment db' c' n' = (db', Some ErrStoreConflict))"
proof (cases err)
  case (Some e)
  then show ?thesis using update_refused assms(4) by auto
next
  case None
  have ok: "plan_ok (cy_db s) pl" if "pl \<in> set (cy_plans s)" for pl using ctl_reach_inv [OF assms(1)] that by (simp add: ctl_inv_def)
  note p = ok [OF assms(2)]
  note u = updated [OF assms(4) [unfolded None] p]
  have n: "env_ok c" "env_ok n" "env_ref n = env_ref c" "env_projectID n = env_projectID c" "env_revision n = env_revision c + 1"
    "unat (env_revision n) < 2 ^ 63" using p plan_next [of "env_revision c"] assms(3) by (auto simp: plan_ok_def)
  have before: "loadEnvironment (cy_db s) (env_projectID c) (env_ref c) = Inr c" using load_stored u n assms(3) by simp
  have after: "loadEnvironment db' (env_projectID c) (env_ref c) = Inr n" using load_stored [of db' n] u n by simp
  have other: "loadEnvironment db' q r = loadEnvironment (cy_db s) q r" if "(q, r) \<noteq> (env_projectID c, env_ref c)" for q r
    using that u by (auto simp: loadEnvironment_def)
  have race: "UpdateEnvironment db' c' n' = (db', Some ErrStoreConflict)"
    if c': "(c', n') \<in> set (cy_plans s)" "env_projectID c' = env_projectID c" "env_ref c' = env_ref c" "env_revision c' = env_revision c" for c' n'
  proof -
    have "validateEnvironmentUpdate c' n' = None" using ok [OF c'(1)] by (auto simp: plan_ok_def validateEnvironmentUpdate_def)
    moreover have "fmlookup (ct_environments db') (env_projectID c, env_ref c) = Some (environmentRow n)" using u by simp
    moreover have "er_revision (environmentRow n) \<noteq> env_revision c" using n by (simp add: environmentRow_def)
    ultimately show ?thesis using after c' by (simp add: UpdateEnvironment_def environmentUpdateMiss_def)
  qed
  show ?thesis unfolding None using before after other race by simp
qed

lemma promotion_order:
  "\<not> CanPromote a a" "CanPromote a b \<Longrightarrow> \<not> CanPromote b a" "CanPromote a b \<Longrightarrow> CanPromote b c \<Longrightarrow> CanPromote a c"
  by (auto simp: CanPromote_def split: if_splits)

subsection \<open>Browsing\<close>

text \<open>A client that follows the cursor: the key of the last entity of a page asks for the next page, until a page is empty. The
  number of pages it may read is an argument.\<close>

fun browse :: "(string \<Rightarrow> int \<Rightarrow> platform_error + 'v list) \<Rightarrow> ('v \<Rightarrow> string) \<Rightarrow> int \<Rightarrow> nat \<Rightarrow> string \<Rightarrow> platform_error + 'v list" where
  "browse fetch key limit 0 after = Inr []"
| "browse fetch key limit (Suc pages) after =
     andThen (fetch after limit) (\<lambda>vs.
       if vs = [] then Inr []
       else andThen (browse fetch key limit pages (key (last vs))) (\<lambda>rest. Inr (vs @ rest)))"

text \<open>The contract of the bounded collections: a page is the entities after the cursor, in key order, at most the limit.\<close>

locale paged_collection =
  fixes fetch :: "'d \<Rightarrow> string \<Rightarrow> int \<Rightarrow> platform_error + 'v list"
    and contents :: "'d \<Rightarrow> 'v list"
    and key :: "'v \<Rightarrow> string"
    and healthy :: "'d \<Rightarrow> bool"
  assumes page: "healthy d \<Longrightarrow> 1 \<le> limit \<Longrightarrow> limit \<le> int MaxListPage \<Longrightarrow> after = '''' \<or> after \<in> key ` set (contents d) \<Longrightarrow>
      fetch d after limit = Inr (take (nat limit) (filter (\<lambda>v. after < key v) (contents d)))"
    and order: "healthy d \<Longrightarrow> sorted_wrt (<) (map key (contents d))"
    and keyed: "healthy d \<Longrightarrow> v \<in> set (contents d) \<Longrightarrow> key v \<noteq> ''''"
begin

lemma after_prefix:
  assumes "sorted_wrt (<) (map key (us @ ws))" and "us \<noteq> []"
  shows "filter (\<lambda>v. key (last us) < key v) (us @ ws) = ws"
proof -
  obtain vs u where us: "us = vs @ [u]" using assms(2) by (metis rev_exhaust)
  have "filter (\<lambda>v. key u < key v) us = []" using assms(1) by (auto simp: us filter_empty_conv sorted_wrt_append dest: order.strict_implies_not_eq less_asym)
  moreover have "filter (\<lambda>v. key u < key v) ws = ws" using assms(1) by (auto simp: us filter_id_conv sorted_wrt_append)
  ultimately show ?thesis by (simp add: us)
qed

lemma browse_from:
  assumes "healthy d" and "1 \<le> limit" and "limit \<le> int MaxListPage"
  shows "contents d = us @ ws \<Longrightarrow> after = (if us = [] then '''' else key (last us)) \<Longrightarrow> length ws \<le> pages \<Longrightarrow>
    browse (fetch d) key limit pages after = Inr ws"
proof (induction pages arbitrary: us ws after)
  case (Suc pages)
  have "filter (\<lambda>v. after < key v) (contents d) = ws"
  proof (cases "us = []")
    case True
    have "[] < x" if "x \<noteq> []" for x :: string using that by (cases x) simp_all
    then show ?thesis using True Suc.prems(1,2) keyed [OF assms(1)] by (auto simp: filter_id_conv)
  next
    case False
    then show ?thesis using after_prefix [of us ws] order [OF assms(1)] Suc.prems(1,2) by simp
  qed
  moreover have "after = '''' \<or> after \<in> key ` set (contents d)" using Suc.prems(1,2) by (auto split: if_splits)
  ultimately have f: "fetch d after limit = Inr (take (nat limit) ws)" using page [OF assms] by simp
  show ?case
  proof (cases "ws = []")
    case False
    let ?vs = "take (nat limit) ws"
    have ne: "?vs \<noteq> []" using False assms(2) by simp
    have "browse (fetch d) key limit pages (key (last ?vs)) = Inr (drop (nat limit) ws)"
    proof (rule Suc.IH)
      show "contents d = (us @ ?vs) @ drop (nat limit) ws" using Suc.prems(1) by simp
      show "key (last ?vs) = (if us @ ?vs = [] then '''' else key (last (us @ ?vs)))" using ne by simp
      have "length (drop (nat limit) ws) \<le> length ws - 1" using assms(2) by simp
      then show "length (drop (nat limit) ws) \<le> pages" using Suc.prems(3) by simp
    qed
    then show ?thesis using ne by (simp add: f andThen_def)
  qed (simp add: f andThen_def)
qed simp

lemma browse_all:
  assumes "healthy d" and "1 \<le> limit" and "limit \<le> int MaxListPage" and "length (contents d) \<le> pages"
  shows "browse (fetch d) key limit pages '''' = Inr (contents d)"
  using browse_from [OF assms(1-3), of "[]"] assms(4) by simp

end

text \<open>The entities of a table in key order.\<close>

definition entities :: "(string \<Rightarrow> platform_error + 'v) \<Rightarrow> string fset \<Rightarrow> 'v list" where
  "entities load ks = map (\<lambda>k. projr (load k)) (sorted_list_of_fset ks)"

definition loads :: "('v \<Rightarrow> string) \<Rightarrow> (string \<Rightarrow> platform_error + 'v) \<Rightarrow> string fset \<Rightarrow> bool" where
  "loads key load ks \<longleftrightarrow> (\<forall>k \<in> fset ks. \<exists>v. load k = Inr v \<and> key v = k \<and> validateID k = None)"

lemma restore_all_ok: "(\<And>k. k \<in> set ks \<Longrightarrow> \<exists>v. f k = Inr v) \<Longrightarrow> restore_all f ks = Inr (map (\<lambda>k. projr (f k)) ks)"
proof (induction ks)
  case (Cons k ks)
  obtain v where "f k = Inr v" using Cons.prems [of k] by auto
  then show ?case using Cons.IH Cons.prems by (simp add: andThen_def)
qed simp

lemma loaded: "loads key load ks \<Longrightarrow> k |\<in>| ks \<Longrightarrow> load k = Inr (projr (load k)) \<and> key (projr (load k)) = k \<and> validateID k = None"
  unfolding loads_def by (metis sum.sel(2))

lemma entity_keys: "loads key load ks \<Longrightarrow> map key (entities load ks) = sorted_list_of_fset ks"
  unfolding entities_def map_map comp_def by (rule map_idI) (auto dest: loaded)

lemma page_entities:
  assumes "loads key load ks"
  shows "restore_all load (page_keys ks after limit) = Inr (take (nat limit) (filter (\<lambda>v. after < key v) (entities load ks)))"
proof -
  have k: "load k = Inr (projr (load k)) \<and> key (projr (load k)) = k" if "k \<in> set (sorted_list_of_fset ks)" for k
    using loaded [OF assms, of k] that by simp
  have "filter (\<lambda>v. after < key v) (entities load ks) = map (\<lambda>k. projr (load k)) (filter (\<lambda>k. after < k) (sorted_list_of_fset ks))"
    unfolding entities_def filter_map comp_def using k by (intro arg_cong [where f = "map _"] filter_cong) auto
  moreover have "restore_all load (page_keys ks after limit) = Inr (map (\<lambda>k. projr (load k)) (page_keys ks after limit))"
    using k unfolding page_keys_def by (intro restore_all_ok) (metis filter_is_subset in_set_takeD subsetD)
  ultimately show ?thesis by (simp add: page_keys_def take_map)
qed

lemma page_cursor:
  assumes "loads key load ks" and "1 \<le> limit" and "limit \<le> int MaxListPage" and "after = '''' \<or> after \<in> key ` set (entities load ks)"
  shows "validateListPage after limit = None" "validateEnvironmentPage after limit = None"
proof -
  have "validateID after = None" if "after \<noteq> ''''"
    using assms(1,4) that entity_keys [OF assms(1)] by (metis list.set_map loads_def sorted_list_of_fset_simps(1))
  then show "validateListPage after limit = None" "validateEnvironmentPage after limit = None"
    using assms(2,3) by (auto simp: validateListPage_def validateEnvironmentPage_def MaxEnvironmentPage_def)
qed

lemma entities_order:
  assumes "loads key load ks"
  shows "sorted_wrt (<) (map key (entities load ks))" "v \<in> set (entities load ks) \<Longrightarrow> key v \<noteq> ''''"
proof -
  show "sorted_wrt (<) (map key (entities load ks))"
    unfolding entity_keys [OF assms] by (simp add: sorted_list_of_fset.rep_eq strict_sorted_list_of_set)
  show "key v \<noteq> ''''" if "v \<in> set (entities load ks)"
    using assms that by (auto simp: entities_def loads_def validateID_def)
qed

definition agents_of :: "control_db \<Rightarrow> ProjectID \<Rightarrow> AgentID fset" where
  "agents_of db p = ffilter (\<lambda>i. (case fmlookup (ct_agents db) i of None \<Rightarrow> False | Some (q, _) \<Rightarrow> q = p)) (fmdom (ct_agents db))"

definition candidates_of :: "control_db \<Rightarrow> AgentID \<Rightarrow> CandidateID fset" where
  "candidates_of db a = ffilter (\<lambda>i. (case fmlookup (ct_candidates db) i of None \<Rightarrow> False | Some (b, _) \<Rightarrow> b = a)) (fmdom (ct_candidates db))"

definition environments_of :: "control_db \<Rightarrow> ProjectID \<Rightarrow> EnvironmentRef fset" where
  "environments_of db p = snd |`| ffilter (\<lambda>k. fst k = p) (fmdom (ct_environments db))"

definition runs_of :: "run_table \<Rightarrow> CandidateID \<Rightarrow> EvaluationRunID fset" where
  "runs_of tab c = ffilter (\<lambda>i. (case fmlookup tab i of None \<Rightarrow> False | Some row \<Rightarrow> sr_candidateID row = c)) (fmdom tab)"

interpretation project_pages: paged_collection Projects "\<lambda>db. entities (loadProject db) (fmdom (ct_projects db))" proj_id
  "\<lambda>db. loads proj_id (loadProject db) (fmdom (ct_projects db))"
  by unfold_locales (auto simp: Projects_def refused_def page_cursor page_entities dest: entities_order)

interpretation agent_pages: paged_collection "\<lambda>db. ProjectAgents db p" "\<lambda>db. entities (loadAgent db) (agents_of db p)" agent_id
  "\<lambda>db. loads agent_id (loadAgent db) (agents_of db p) \<and> validateID p = None \<and> requireExists (ct_projects db) p = None" for p
  by unfold_locales
    (auto simp: ProjectAgents_def refused_def page_cursor page_entities orElse_def simp flip: agents_of_def dest: entities_order)

interpretation candidate_pages: paged_collection "\<lambda>db. AgentCandidates db a" "\<lambda>db. entities (loadCandidate db) (candidates_of db a)" cand_id
  "\<lambda>db. loads cand_id (loadCandidate db) (candidates_of db a) \<and> validateID a = None \<and> requireExists (ct_agents db) a = None" for a
  by unfold_locales
    (auto simp: AgentCandidates_def refused_def page_cursor page_entities orElse_def simp flip: candidates_of_def dest: entities_order)

interpretation environment_pages: paged_collection "\<lambda>db. ProjectEnvironments db p" "\<lambda>db. entities (loadEnvironment db p) (environments_of db p)" env_ref
  "\<lambda>db. loads env_ref (loadEnvironment db p) (environments_of db p) \<and> validateID p = None \<and> requireExists (ct_projects db) p = None" for p
  by unfold_locales
    (auto simp: ProjectEnvironments_def refused_def page_cursor page_entities orElse_def simp flip: environments_of_def dest: entities_order)

interpretation run_pages: paged_collection "\<lambda>(db, tab). CandidateEvaluationRuns db tab c" "\<lambda>(db, tab). entities (loadRun tab) (runs_of tab c)" run_id
  "\<lambda>(db, tab). loads run_id (loadRun tab) (runs_of tab c) \<and> validateID c = None \<and> requireExists (ct_candidates db) c = None" for c
  by unfold_locales
    (auto simp: CandidateEvaluationRuns_def refused_def page_cursor page_entities orElse_def simp flip: runs_of_def dest: entities_order)

lemma reachable_loads:
  assumes "ctl_inv s"
  shows "loads proj_id (loadProject (cy_db s)) (fmdom (ct_projects (cy_db s)))"
    and "loads agent_id (loadAgent (cy_db s)) (agents_of (cy_db s) p)"
    and "loads cand_id (loadCandidate (cy_db s)) (candidates_of (cy_db s) a)"
proof -
  have h: "hierarchy_ok (cy_db s)" using assms by (simp add: ctl_inv_def)
  have "\<exists>v. loadProject (cy_db s) k = Inr v \<and> proj_id v = k \<and> validateID k = None" if k: "k |\<in>| fmdom (ct_projects (cy_db s))" for k
  proof -
    obtain v where "loadProject (cy_db s) k = Inr v" using h k unfolding hierarchy_ok_def by (meson fmdom_notI)
    then show ?thesis by (auto simp: loadProject_def restored_def NewProject_def orElse_None_iff split: option.splits sum.splits)
  qed
  then show "loads proj_id (loadProject (cy_db s)) (fmdom (ct_projects (cy_db s)))" by (simp add: loads_def)
  have "\<exists>v. loadAgent (cy_db s) k = Inr v \<and> agent_id v = k \<and> validateID k = None" if k: "k |\<in>| agents_of (cy_db s) p" for k
  proof -
    obtain q n where "fmlookup (ct_agents (cy_db s)) k = Some (q, n)" using k by (auto simp: agents_of_def split: option.splits)
    then obtain v where "loadAgent (cy_db s) k = Inr v" using h unfolding hierarchy_ok_def by blast
    then show ?thesis by (auto simp: loadAgent_def restored_def NewAgent_def orElse_None_iff split: option.splits sum.splits)
  qed
  then show "loads agent_id (loadAgent (cy_db s)) (agents_of (cy_db s) p)" by (simp add: loads_def)
  have "\<exists>v. loadCandidate (cy_db s) k = Inr v \<and> cand_id v = k \<and> validateID k = None" if k: "k |\<in>| candidates_of (cy_db s) a" for k
  proof -
    obtain b m where "fmlookup (ct_candidates (cy_db s)) k = Some (b, m)" using k by (auto simp: candidates_of_def split: option.splits)
    then obtain v where "loadCandidate (cy_db s) k = Inr v" using h unfolding hierarchy_ok_def by blast
    then show ?thesis by (auto simp: loadCandidate_def restored_def NewCandidate_def orElse_None_iff split: option.splits sum.splits)
  qed
  then show "loads cand_id (loadCandidate (cy_db s)) (candidates_of (cy_db s) a)" by (simp add: loads_def)
qed

lemma reachable_keys:
  assumes "ctl_inv s"
  shows "requireExists (ct_projects (cy_db s)) p = None \<Longrightarrow> validateID p = None"
    and "requireExists (ct_agents (cy_db s)) a = None \<Longrightarrow> validateID a = None"
proof -
  have h: "hierarchy_ok (cy_db s)" using assms by (simp add: ctl_inv_def)
  show "validateID p = None" if "requireExists (ct_projects (cy_db s)) p = None"
    using loaded [OF reachable_loads(1) [OF assms], of p] that by (auto simp: requireExists_def dest: fmdomI split: if_splits)
  show "validateID a = None" if ex: "requireExists (ct_agents (cy_db s)) a = None"
  proof -
    obtain q n where "fmlookup (ct_agents (cy_db s)) a = Some (q, n)" using ex by (auto simp: requireExists_def split: if_splits)
    then have "a |\<in>| agents_of (cy_db s) q" by (simp add: agents_of_def fmdomI)
    then show ?thesis using loaded [OF reachable_loads(2) [OF assms]] by blast
  qed
qed

text \<open>C25. Starting from nothing, a client that follows the cursor page by page finds every project, for each existing
  project every agent, and for each existing agent every candidate, each exactly once and in identifier order, whatever page size
  it asks for.\<close>

theorem browsing_complete:
  assumes "ctl_reach s" and "1 \<le> limit" and "limit \<le> int MaxListPage"
  shows "\<exists>pages. (\<exists>ps. browse (Projects (cy_db s)) proj_id limit pages '''' = Inr ps \<and>
       map proj_id ps = sorted_list_of_fset (fmdom (ct_projects (cy_db s)))) \<and>
    (\<forall>p. fmlookup (ct_projects (cy_db s)) p \<noteq> None \<longrightarrow>
       (\<exists>as. browse (ProjectAgents (cy_db s) p) agent_id limit pages '''' = Inr as \<and>
         map agent_id as = sorted_list_of_fset (agents_of (cy_db s) p))) \<and>
    (\<forall>a. fmlookup (ct_agents (cy_db s)) a \<noteq> None \<longrightarrow>
       (\<exists>cs. browse (AgentCandidates (cy_db s) a) cand_id limit pages '''' = Inr cs \<and>
         map cand_id cs = sorted_list_of_fset (candidates_of (cy_db s) a)))"
proof -
  let ?db = "cy_db s"
  note inv = ctl_reach_inv [OF assms(1)]
  note l = reachable_loads [OF inv] and k = reachable_keys [OF inv]
  define pages where "pages = fcard (fmdom (ct_projects ?db)) + fcard (fmdom (ct_agents ?db)) + fcard (fmdom (ct_candidates ?db))"
  have len: "length (entities f ks) = fcard ks" for f :: "string \<Rightarrow> platform_error + 'v" and ks
    by (simp add: entities_def sorted_list_of_fset.rep_eq fcard.rep_eq)
  have n: "fcard (fmdom (ct_projects ?db)) \<le> pages" "fcard (agents_of ?db p) \<le> pages" "fcard (candidates_of ?db a) \<le> pages" for p a
  proof -
    have "agents_of ?db p |\<subseteq>| fmdom (ct_agents ?db)" "candidates_of ?db a |\<subseteq>| fmdom (ct_candidates ?db)"
      by (auto simp: agents_of_def candidates_of_def)
    then have "fcard (agents_of ?db p) \<le> fcard (fmdom (ct_agents ?db))" "fcard (candidates_of ?db a) \<le> fcard (fmdom (ct_candidates ?db))"
      by (simp_all add: fcard_mono)
    then show "fcard (fmdom (ct_projects ?db)) \<le> pages" "fcard (agents_of ?db p) \<le> pages" "fcard (candidates_of ?db a) \<le> pages"
      unfolding pages_def by linarith+
  qed
  have "browse (Projects ?db) proj_id limit pages '''' = Inr (entities (loadProject ?db) (fmdom (ct_projects ?db)))"
    using project_pages.browse_all [OF l(1) assms(2,3)] n(1) by (simp add: len)
  moreover have "browse (ProjectAgents ?db p) agent_id limit pages '''' = Inr (entities (loadAgent ?db) (agents_of ?db p))"
    if "fmlookup (ct_projects ?db) p \<noteq> None" for p
    using agent_pages.browse_all [of ?db p limit pages] l(2) k(1) [of p] that assms(2,3) n(2) by (simp add: len requireExists_def)
  moreover have "browse (AgentCandidates ?db a) cand_id limit pages '''' = Inr (entities (loadCandidate ?db) (candidates_of ?db a))"
    if "fmlookup (ct_agents ?db) a \<noteq> None" for a
    using candidate_pages.browse_all [of ?db a limit pages] l(3) k(2) [of a] that assms(2,3) n(3) by (simp add: len requireExists_def)
  ultimately show ?thesis using entity_keys [OF l(1)] entity_keys [OF l(2)] entity_keys [OF l(3)] by blast
qed

end
