(* ===== verification/Witnesses_Control.thy ===== *)
theory Witnesses_Control
  imports Witnesses_Evidence Platform_Control_Proofs
begin

text \<open>
  Witnesses for the control state: a project with an agent, a candidate and an environment, and two
  clients who both plan to archive it.
\<close>

lemma validateName_printable: "v \<noteq> '''' \<Longrightarrow> length v \<le> 256 \<Longrightarrow> printable v \<Longrightarrow> validateName v = None"
proof -
  assume v: "v \<noteq> ''''" "length v \<le> 256" "printable v"
  have "validateID v = None" by (rule validateID_printable [OF v])
  then have t: "TrimSpace v = runes (bytes v)" by (auto simp: validateID_def split: if_splits option.splits)
  have "runes (bytes v) = map (\<lambda>b. (b, True)) (bytes v)"
    using v(3) by (intro runes_ascii) (fastforce simp: printable_def list_all_iff)
  then have "TrimSpace v \<noteq> []" using v(1) by (simp add: t bytes_def)
  then show ?thesis using validateText_printable [OF v] by (simp add: validateName_def)
qed

lemma w_names:
  "validateName ''prod'' = None" "validateName ''ref'' = None" "validateID ''agent'' = None" "validateName ''agent'' = None"
  by ((rule validateName_printable validateID_printable; code_simp))+

definition w_metadata :: CandidateMetadata where
  "w_metadata = \<lparr>cm_Label = '''', cm_SourceRef = '''', cm_ArtifactDigest = '''',
     cm_Model = '''', cm_ToolsetDigest = '''', cm_ConfigDigest = ''''\<rparr>"

definition w_prod :: Environment where
  "w_prod = \<lparr>env_ref = ''prod'', env_projectID = ''ref'', env_name = ''prod'', env_rank = 0, env_ranked = False,
     env_status = EnvironmentActive, env_revision = 1\<rparr>"

definition w_archived :: Environment where "w_archived = w_prod\<lparr>env_status := EnvironmentArchived, env_revision := 2\<rparr>"

definition w_control :: control_db where
  "w_control = \<lparr>ct_projects = fmupd ''ref'' ''ref'' fmempty, ct_agents = fmupd ''agent'' (''ref'', ''agent'') fmempty,
     ct_candidates = fmupd ''cand-ref'' (''agent'', w_metadata) fmempty,
     ct_environments = fmupd (''ref'', ''prod'') (environmentRow w_prod) fmempty\<rparr>"

definition w_ctl :: control_system where
  "w_ctl = \<lparr>cy_db = w_control, cy_plans = [(w_prod, w_archived), (w_prod, w_archived)]\<rparr>"

lemma w_prod_new: "NewEnvironment ''prod'' ''ref'' ''prod'' = Inr w_prod"
  by (simp add: NewEnvironment_def w_ids w_names w_prod_def orElse_def)

lemma w_prod_load: "loadEnvironment w_control ''ref'' ''prod'' = Inr w_prod"
  using load_stored [of w_control w_prod] env_ok_new [OF w_prod_new]
  by (simp add: w_control_def w_prod_def)

lemma w_metadata: "NewCandidate ''cand-ref'' ''agent'' w_metadata = Inr \<lparr>cand_id = ''cand-ref'', cand_agentID = ''agent'', cand_metadata = w_metadata\<rparr>"
  by (simp add: NewCandidate_def w_ids w_names w_metadata_def orElse_def CandidateMetadata_validate_def)

lemma w_plan: "mutate_plan w_control ''ref'' ''prod'' 1 Environment_Archive = Inr (w_prod, w_archived)"
proof -
  have "control_Environment w_control ''ref'' ''prod'' = Inr w_prod"
    using w_prod_load by (simp add: control_Environment_def refused_def validateEnvironmentIdentity_def w_ids orElse_def)
  then show ?thesis by (simp add: mutate_plan_def andThen_def Environment_Archive_def atRevision_def w_archived_def w_prod_def)
qed

lemma w_ctl_reach: "ctl_reach w_ctl"
proof -
  have p: "NewProject ''ref'' ''ref'' = Inr \<lparr>proj_id = ''ref'', proj_name = ''ref''\<rparr>" by (simp add: NewProject_def w_ids w_names orElse_def)
  have a: "NewAgent ''agent'' ''ref'' ''agent'' = Inr \<lparr>agent_id = ''agent'', agent_projectID = ''ref'', agent_name = ''agent''\<rparr>"
    by (simp add: NewAgent_def w_ids w_names orElse_def)
  have f: "ffilter P {||} = {||}" for P :: "ProjectID \<times> EnvironmentRef \<Rightarrow> bool" by auto
  let ?d1 = "emptyControl\<lparr>ct_projects := fmupd ''ref'' ''ref'' fmempty\<rparr>"
  let ?d2 = "?d1\<lparr>ct_agents := fmupd ''agent'' (''ref'', ''agent'') fmempty\<rparr>"
  let ?d3 = "?d2\<lparr>ct_candidates := fmupd ''cand-ref'' (''agent'', w_metadata) fmempty\<rparr>"
  have "ctl_reach \<lparr>cy_db = ?d1, cy_plans = []\<rparr>"
    using ctl_reach.step [OF ctl_reach.start ctl_step.project [OF p]] by (simp add: CreateProject_def emptyControl_def)
  then have "ctl_reach \<lparr>cy_db = ?d2, cy_plans = []\<rparr>"
    using ctl_reach.step [OF _ ctl_step.agent [OF a]] by (force simp: CreateAgent_def emptyControl_def)
  then have "ctl_reach \<lparr>cy_db = ?d3, cy_plans = []\<rparr>"
    using ctl_reach.step [OF _ ctl_step.candidate [OF w_metadata]] by (force simp: CreateCandidate_def emptyControl_def)
  moreover have "CreateEnvironment ?d3 w_prod = (w_control, None)"
    by (simp add: CreateEnvironment_def insertEnvironmentLocked_def environmentCount_def emptyControl_def w_control_def w_prod_def f
        maxProjectEnvironments_def fcard_fempty)
  ultimately have "ctl_reach \<lparr>cy_db = w_control, cy_plans = []\<rparr>"
    using ctl_reach.step [OF _ ctl_step.environment [of _ _ _ w_prod]] w_prod_new by fastforce
  then have "ctl_reach \<lparr>cy_db = w_control, cy_plans = [(w_prod, w_archived)]\<rparr>"
    using ctl_reach.step [OF _ ctl_step.plan [of Environment_Archive]] w_plan by (fastforce simp: env_change_def)
  then show ?thesis
    using ctl_reach.step [OF _ ctl_step.plan [of Environment_Archive]] w_plan by (fastforce simp: env_change_def w_ctl_def)
qed

theorem control_invariant_witness:
  "environmentCount w_control ''ref'' \<le> maxProjectEnvironments \<and> (\<exists>q proj. projectOf w_control (w_run ''ref'') = Inr q \<and> loadProject w_control q = Inr proj)"
  using control_invariant [OF w_ctl_reach, of "''ref''" "w_run ''ref''"] by (simp add: w_ctl_def w_control_def w_run_def)

theorem environment_no_lost_update_witness:
  "\<exists>db'. UpdateEnvironment w_control w_prod w_archived = (db', None) \<and> loadEnvironment db' ''ref'' ''prod'' = Inr w_archived \<and>
     UpdateEnvironment db' w_prod w_archived = (db', Some ErrStoreConflict)"
proof -
  obtain db' where u: "UpdateEnvironment w_control w_prod w_archived = (db', None)"
    by (simp add: UpdateEnvironment_def validateEnvironmentUpdate_def w_control_def w_prod_def w_archived_def environmentRow_def)
  have "(w_prod, w_archived) \<in> set (cy_plans w_ctl)" "unat (env_revision w_prod) < 2 ^ 63 - 1" "UpdateEnvironment (cy_db w_ctl) w_prod w_archived = (db', None)"
    using u by (simp_all add: w_ctl_def w_prod_def)
  from environment_no_lost_update [OF w_ctl_reach this]
  have "loadEnvironment db' ''ref'' ''prod'' = Inr w_archived" "UpdateEnvironment db' w_prod w_archived = (db', Some ErrStoreConflict)"
    by (simp_all add: w_ctl_def) (simp_all add: w_prod_def)
  then show ?thesis using u by blast
qed

theorem browsing_complete_witness:
  "\<exists>pages as. browse (ProjectAgents w_control ''ref'') agent_id 1 pages '''' = Inr as \<and>
     map agent_id as = sorted_list_of_fset (agents_of w_control ''ref'')"
proof -
  have "fmlookup (ct_projects (cy_db w_ctl)) ''ref'' \<noteq> None" by (simp add: w_ctl_def w_control_def)
  then have "\<exists>pages as. browse (ProjectAgents (cy_db w_ctl) ''ref'') agent_id 1 pages [] = Inr as \<and>
      map agent_id as = sorted_list_of_fset (agents_of (cy_db w_ctl) ''ref'')"
    using browsing_complete [OF w_ctl_reach, of 1] unfolding MaxListPage_def by (metis of_nat_numeral one_le_numeral order_refl)
  then show ?thesis by (simp add: w_ctl_def)
qed

end
