(* ===== verification/Platform_Provenance.thy ===== *)
theory Platform_Provenance
  imports Platform_Repeated Platform_Control
begin

text \<open>
  What an execution recorded about its two sides (\<^verbatim>\<open>platform/scenario_provenance.go\<close>)
  and what a comparison may say about it (\<^verbatim>\<open>platform/sameness.go\<close>). The theorems are that
  the stored columns give back exactly the recorded values, that a value missing on either side is
  never reported as different, and that a warning is given exactly for a difference.
\<close>

subsection \<open>Provenance\<close>

definition lower_hex_digit :: "char \<Rightarrow> bool" where
  "lower_hex_digit c = List.member ''0123456789abcdef'' c"

definition provenanceDigestPattern :: "string \<Rightarrow> bool" where
  "provenanceDigestPattern s = (length s = 71 \<and> take 7 s = ''sha256:'' \<and> list_all lower_hex_digit (drop 7 s))"

definition alphanumeric :: "char \<Rightarrow> bool" where
  "alphanumeric c = (let b = of_char c :: nat in (65 \<le> b \<and> b \<le> 90) \<or> (97 \<le> b \<and> b \<le> 122) \<or> (48 \<le> b \<and> b \<le> 57))"

definition provenanceIdentifierPattern :: "string \<Rightarrow> bool" where
  "provenanceIdentifierPattern s =
     (case s of [] \<Rightarrow> False
      | c # cs \<Rightarrow> alphanumeric c \<and> length cs \<le> 127 \<and> list_all (\<lambda>c. alphanumeric c \<or> List.member ''._:/@+-'' c) cs)"

record PromptRef =
  pp_Name :: string
  pp_Digest :: string

definition zeroPromptRef :: PromptRef where "zeroPromptRef = \<lparr>pp_Name = '''', pp_Digest = ''''\<rparr>"

definition PromptRef_Stated :: "PromptRef \<Rightarrow> bool" where "PromptRef_Stated p = (p \<noteq> zeroPromptRef)"

record SideDeclaration =
  sd_Model :: string
  sd_PromptRef :: PromptRef

definition zeroDeclaration :: SideDeclaration where "zeroDeclaration = \<lparr>sd_Model = '''', sd_PromptRef = zeroPromptRef\<rparr>"

record SideProvenance =
  pv_ScenarioDigest :: string
  pv_InputsDeclared :: bool
  pv_InputDigest :: string
  pv_Declaration :: SideDeclaration

definition zeroProvenance :: SideProvenance where
  "zeroProvenance = \<lparr>pv_ScenarioDigest = '''', pv_InputsDeclared = False, pv_InputDigest = '''', pv_Declaration = zeroDeclaration\<rparr>"

abbreviation pv_Model :: "SideProvenance \<Rightarrow> string" where "pv_Model p \<equiv> sd_Model (pv_Declaration p)"
abbreviation pv_PromptRef :: "SideProvenance \<Rightarrow> PromptRef" where "pv_PromptRef p \<equiv> sd_PromptRef (pv_Declaration p)"

definition ScenarioRecorded :: "SideProvenance \<Rightarrow> bool" where "ScenarioRecorded p = (pv_ScenarioDigest p \<noteq> '''')"

record ExecutionProvenance =
  xp_ScenarioDigest :: string
  xp_InputsDeclared :: bool
  xp_InputDigest :: string
  xp_Reference :: SideDeclaration
  xp_Candidate :: SideDeclaration

definition provenance_side :: "ExecutionProvenance \<Rightarrow> SideDeclaration \<Rightarrow> SideProvenance" where
  "provenance_side p d = \<lparr>pv_ScenarioDigest = xp_ScenarioDigest p, pv_InputsDeclared = xp_InputsDeclared p,
     pv_InputDigest = xp_InputDigest p, pv_Declaration = d\<rparr>"

definition SideProvenance_validate :: "SideProvenance \<Rightarrow> platform_error option" where
  "SideProvenance_validate p =
     (if pv_ScenarioDigest p = '''' \<and> (pv_InputsDeclared p \<or> pv_InputDigest p \<noteq> '''') then Some ErrInvalidRepeatedRequest
      else if pv_ScenarioDigest p \<noteq> '''' \<and> \<not> provenanceDigestPattern (pv_ScenarioDigest p) then Some ErrInvalidRepeatedRequest
      else if pv_InputsDeclared p \<noteq> (pv_InputDigest p \<noteq> '''') then Some ErrInvalidRepeatedRequest
      else if pv_InputDigest p \<noteq> '''' \<and> \<not> provenanceDigestPattern (pv_InputDigest p) then Some ErrInvalidRepeatedRequest
      else if pv_Model p \<noteq> '''' \<and> \<not> provenanceIdentifierPattern (pv_Model p) then Some ErrInvalidRepeatedRequest
      else if PromptRef_Stated (pv_PromptRef p) then
        (if \<not> provenanceIdentifierPattern (pp_Name (pv_PromptRef p)) then Some ErrInvalidRepeatedRequest
         else if \<not> provenanceDigestPattern (pp_Digest (pv_PromptRef p)) then Some ErrInvalidRepeatedRequest
         else None)
      else None)"

definition ExecutionProvenance_validate :: "ExecutionProvenance \<Rightarrow> platform_error option" where
  "ExecutionProvenance_validate p =
     orElse (SideProvenance_validate (provenance_side p (xp_Reference p))) (SideProvenance_validate (provenance_side p (xp_Candidate p)))"

text \<open>The five columns of one side; a missing value is NULL.\<close>

type_synonym provenance_columns = "string option list"

definition null_text :: "string \<Rightarrow> string option" where "null_text s = (if s = '''' then None else Some s)"

definition column_String :: "string option \<Rightarrow> string" where "column_String c = (case c of None \<Rightarrow> '''' | Some s \<Rightarrow> s)"

definition provenanceColumnValues :: "SideProvenance \<Rightarrow> provenance_columns" where
  "provenanceColumnValues p = [null_text (pv_ScenarioDigest p), null_text (pv_InputDigest p), null_text (pv_Model p),
     null_text (pp_Name (pv_PromptRef p)), null_text (pp_Digest (pv_PromptRef p))]"

definition sideProvenanceFromColumns :: "provenance_columns \<Rightarrow> SideProvenance" where
  "sideProvenanceFromColumns c =
     \<lparr>pv_ScenarioDigest = column_String (c ! 0), pv_InputsDeclared = (c ! 1 \<noteq> None), pv_InputDigest = column_String (c ! 1),
      pv_Declaration = \<lparr>sd_Model = column_String (c ! 2),
        sd_PromptRef = \<lparr>pp_Name = column_String (c ! 3), pp_Digest = column_String (c ! 4)\<rparr>\<rparr>\<rparr>"

definition empty_column :: "provenance_columns \<Rightarrow> bool" where "empty_column cs = list_ex (\<lambda>c. c = Some '''') cs"

subsection \<open>Sameness\<close>

type_synonym SamenessState = string
definition SameTrue :: SamenessState where "SameTrue = ''true''"
definition SameFalse :: SamenessState where "SameFalse = ''false''"
definition SameNotRecorded :: SamenessState where "SameNotRecorded = ''not_recorded''"

record ComparisonSameness =
  cs_SameScenario :: SamenessState
  cs_SameInputs :: SamenessState
  cs_SameModel :: SamenessState
  cs_SamePromptRef :: SamenessState
  cs_Reference :: SideProvenance
  cs_Candidate :: SideProvenance

record ComparisonWarning =
  cw_Code :: string
  cw_Text :: string

definition WarningScenarioDiffers :: string where "WarningScenarioDiffers = ''scenario_differs''"
definition WarningInputsDiffer :: string where "WarningInputsDiffer = ''inputs_differ''"
definition WarningModelDiffers :: string where "WarningModelDiffers = ''model_differs''"
definition WarningPromptRefDiffers :: string where "WarningPromptRefDiffers = ''prompt_ref_differs''"

definition sameWhen :: "bool \<Rightarrow> bool \<Rightarrow> SamenessState" where
  "sameWhen recorded equal = (if \<not> recorded then SameNotRecorded else if equal then SameTrue else SameFalse)"

definition stated_differences :: "(SamenessState \<times> string \<times> string) list \<Rightarrow> ComparisonWarning list" where
  "stated_differences ws = map (\<lambda>(_, code, text). \<lparr>cw_Code = code, cw_Text = text\<rparr>) (filter (\<lambda>(state, _, _). state = SameFalse) ws)"

definition sameness_warnings :: "ComparisonSameness \<Rightarrow> ComparisonWarning list" where
  "sameness_warnings s = stated_differences
     [(cs_SameScenario s, WarningScenarioDiffers, ''The reference and candidate sides ran different scenario definitions.''),
      (cs_SameInputs s, WarningInputsDiffer, ''The reference and candidate sides ran with different inputs.''),
      (cs_SameModel s, WarningModelDiffers, ''The reference and candidate sides declared different models.''),
      (cs_SamePromptRef s, WarningPromptRefDiffers, ''The reference and candidate sides declared different prompt references.'')]"

definition newComparisonSameness :: "SideProvenance \<Rightarrow> SideProvenance \<Rightarrow> ComparisonSameness \<times> ComparisonWarning list" where
  "newComparisonSameness reference candidate =
     (let scenarios = ScenarioRecorded reference \<and> ScenarioRecorded candidate;
          s = \<lparr>cs_SameScenario = sameWhen scenarios (pv_ScenarioDigest reference = pv_ScenarioDigest candidate),
               cs_SameInputs = sameWhen scenarios (pv_InputsDeclared reference = pv_InputsDeclared candidate \<and>
                 pv_InputDigest reference = pv_InputDigest candidate),
               cs_SameModel = sameWhen (pv_Model reference \<noteq> '''' \<and> pv_Model candidate \<noteq> '''') (pv_Model reference = pv_Model candidate),
               cs_SamePromptRef = sameWhen (PromptRef_Stated (pv_PromptRef reference) \<and> PromptRef_Stated (pv_PromptRef candidate))
                 (pv_PromptRef reference = pv_PromptRef candidate),
               cs_Reference = reference, cs_Candidate = candidate\<rparr>
      in (s, sameness_warnings s))"

definition maxRunProvenanceRows :: nat where "maxRunProvenanceRows = 4 * MaxRepetitions"

fun sideProvenance_from ::
  "(EvaluationRunID, SideProvenance list) fmap \<Rightarrow> SideProvenance option \<Rightarrow> EvaluationRunID list \<Rightarrow> SideProvenance" where
  "sideProvenance_from recorded out [] = (case out of None \<Rightarrow> zeroProvenance | Some p \<Rightarrow> p)"
| "sideProvenance_from recorded out (i # is) =
     (case fmget [] recorded i of
        [v] \<Rightarrow> if out \<noteq> None \<and> Some v \<noteq> out then zeroProvenance else sideProvenance_from recorded (Some v) is
      | _ \<Rightarrow> zeroProvenance)"

definition sideProvenanceOfRuns :: "EvaluationRunID list \<Rightarrow> (EvaluationRunID, SideProvenance list) fmap \<Rightarrow> SideProvenance" where
  "sideProvenanceOfRuns ids recorded = sideProvenance_from recorded None ids"

subsection \<open>The recorded associations\<close>

type_synonym ScenarioExecutionID = string

record execution_row =
  xr_scenarioName :: string
  xr_projectID :: ProjectID
  xr_agentID :: AgentID
  xr_environment :: EnvironmentRef
  xr_runs :: i64
  xr_reference :: "string option"
  xr_status :: string
  xr_startedAt :: gotime
  xr_startedOrder :: string
  xr_finishedAt :: "gotime option"
  xr_sequence :: "i64 option"
  xr_verdict :: "string option"
  xr_referenceProvenance :: provenance_columns
  xr_candidateProvenance :: provenance_columns
  xr_gateSnapshot :: "string option"
  xr_cliVersion :: "string option"
  xr_referenceMode :: "string option"

record repetition_row =
  rw_execution :: ScenarioExecutionID
  rw_side :: ComparisonSide
  rw_index :: int
  rw_runID :: EvaluationRunID
  rw_profile :: BehavioralProfileRef

record scenario_db =
  sc_executions :: "(ScenarioExecutionID, execution_row) fmap"
  sc_repetitions :: "repetition_row list"

text \<open>The distinct rows of the join, by run; rows of one run come in table order.\<close>

definition provenance_rows ::
  "scenario_db \<Rightarrow> EvaluationRunID list \<Rightarrow> (EvaluationRunID \<times> provenance_columns) list" where
  "provenance_rows db ids =
     sort_key fst (remdups (List.map_filter (\<lambda>r.
       if \<not> List.member ids (rw_runID r) then None
       else case fmlookup (sc_executions db) (rw_execution r) of
         None \<Rightarrow> None
       | Some e \<Rightarrow> Some (rw_runID r, if rw_side r = SideReference then xr_referenceProvenance e else xr_candidateProvenance e))
       (sc_repetitions db)))"

fun scan_provenance ::
  "(EvaluationRunID \<times> provenance_columns) list \<Rightarrow> (EvaluationRunID, SideProvenance list) fmap \<Rightarrow>
   platform_error + (EvaluationRunID, SideProvenance list) fmap" where
  "scan_provenance [] out = Inr out"
| "scan_provenance ((i, c) # rows) out =
     (if empty_column c then Inl ErrStoreCorrupt
      else let p = sideProvenanceFromColumns c in
        if SideProvenance_validate p \<noteq> None then Inl ErrStoreCorrupt
        else scan_provenance rows (fmupd i (fmget [] out i @ [p]) out))"

text \<open>The second result says whether every value fits; the scan stops with it at the first row too many.\<close>

definition loadRunProvenance ::
  "scenario_db \<Rightarrow> EvaluationRunID list \<Rightarrow> platform_error + (EvaluationRunID, SideProvenance list) fmap \<times> bool" where
  "loadRunProvenance db ids =
     (if ids = [] then Inr (fmempty, True)
      else let rows = provenance_rows db ids in
        andThen (scan_provenance (take maxRunProvenanceRows rows) fmempty) (\<lambda>out.
          if maxRunProvenanceRows < length rows then Inr (fmempty, False) else Inr (out, True)))"

definition samenessOfRuns ::
  "scenario_db \<Rightarrow> EvaluationRunID list \<Rightarrow> EvaluationRunID list \<Rightarrow> platform_error + ComparisonSameness \<times> ComparisonWarning list" where
  "samenessOfRuns db referenceIDs candidateIDs =
     andThen (loadRunProvenance db (referenceIDs @ candidateIDs)) (\<lambda>(recorded, fits).
       Inr (if \<not> fits then newComparisonSameness zeroProvenance zeroProvenance
            else newComparisonSameness (sideProvenanceOfRuns referenceIDs recorded) (sideProvenanceOfRuns candidateIDs recorded)))"

subsection \<open>What the columns and the answers mean\<close>

lemma provenance_columns_roundtrip:
  assumes "SideProvenance_validate p = None"
  shows "sideProvenanceFromColumns (provenanceColumnValues p) = p" and "\<not> empty_column (provenanceColumnValues p)"
proof -
  have "pv_InputsDeclared p = (pv_InputDigest p \<noteq> '''')" using assms by (auto simp: SideProvenance_validate_def split: if_splits)
  moreover have "column_String (null_text s) = s" for s by (simp add: column_String_def null_text_def)
  ultimately show "sideProvenanceFromColumns (provenanceColumnValues p) = p"
    by (simp add: sideProvenanceFromColumns_def provenanceColumnValues_def null_text_def)
  show "\<not> empty_column (provenanceColumnValues p)" by (simp add: empty_column_def provenanceColumnValues_def null_text_def)
qed

lemma sameWhen_sym: "sameWhen (a \<and> b) (x = y) = sameWhen (b \<and> a) (y = x)"
  by (auto simp: sameWhen_def)

lemma same_false: "sameWhen r e = SameFalse \<longleftrightarrow> r \<and> \<not> e"
  by (simp add: sameWhen_def SameTrue_def SameFalse_def SameNotRecorded_def)

lemma stated_codes: "cw_Code ` set (stated_differences ws) = {code. \<exists>text. (SameFalse, code, text) \<in> set ws}"
  by (force simp: stated_differences_def)

lemma warning_codes:
  "cw_Code ` set (sameness_warnings s) = {code.
     (cs_SameScenario s = SameFalse \<and> code = WarningScenarioDiffers) \<or> (cs_SameInputs s = SameFalse \<and> code = WarningInputsDiffer) \<or>
     (cs_SameModel s = SameFalse \<and> code = WarningModelDiffers) \<or> (cs_SamePromptRef s = SameFalse \<and> code = WarningPromptRefDiffers)}"
  unfolding sameness_warnings_def stated_codes by (simp only: list.set insert_iff prod.inject empty_iff ex_disj_distrib simp_thms ex_simps eq_commute [of SameFalse])

lemma warning_code_distinct:
  "distinct [WarningScenarioDiffers, WarningInputsDiffer, WarningModelDiffers, WarningPromptRefDiffers]"
  by (simp add: WarningScenarioDiffers_def WarningInputsDiffer_def WarningModelDiffers_def WarningPromptRefDiffers_def)

lemma sameness_warned:
  assumes "newComparisonSameness r c = (s, w)"
  shows "WarningScenarioDiffers \<in> cw_Code ` set w \<longleftrightarrow>
      pv_ScenarioDigest r \<noteq> [] \<and> pv_ScenarioDigest c \<noteq> [] \<and> pv_ScenarioDigest r \<noteq> pv_ScenarioDigest c"
    and "WarningInputsDiffer \<in> cw_Code ` set w \<longleftrightarrow> pv_ScenarioDigest r \<noteq> [] \<and> pv_ScenarioDigest c \<noteq> [] \<and>
      \<not> (pv_InputsDeclared r = pv_InputsDeclared c \<and> pv_InputDigest r = pv_InputDigest c)"
    and "WarningModelDiffers \<in> cw_Code ` set w \<longleftrightarrow> pv_Model r \<noteq> [] \<and> pv_Model c \<noteq> [] \<and> pv_Model r \<noteq> pv_Model c"
    and "WarningPromptRefDiffers \<in> cw_Code ` set w \<longleftrightarrow>
      pv_PromptRef r \<noteq> zeroPromptRef \<and> pv_PromptRef c \<noteq> zeroPromptRef \<and> pv_PromptRef r \<noteq> pv_PromptRef c"
proof -
  have w: "w = sameness_warnings s" and s: "cs_SameScenario s = SameFalse \<longleftrightarrow>
      pv_ScenarioDigest r \<noteq> [] \<and> pv_ScenarioDigest c \<noteq> [] \<and> pv_ScenarioDigest r \<noteq> pv_ScenarioDigest c"
    "cs_SameInputs s = SameFalse \<longleftrightarrow> pv_ScenarioDigest r \<noteq> [] \<and> pv_ScenarioDigest c \<noteq> [] \<and>
      \<not> (pv_InputsDeclared r = pv_InputsDeclared c \<and> pv_InputDigest r = pv_InputDigest c)"
    "cs_SameModel s = SameFalse \<longleftrightarrow> pv_Model r \<noteq> [] \<and> pv_Model c \<noteq> [] \<and> pv_Model r \<noteq> pv_Model c"
    "cs_SamePromptRef s = SameFalse \<longleftrightarrow>
      pv_PromptRef r \<noteq> zeroPromptRef \<and> pv_PromptRef c \<noteq> zeroPromptRef \<and> pv_PromptRef r \<noteq> pv_PromptRef c"
    using assms by (auto simp only: newComparisonSameness_def Let_def prod.inject ComparisonSameness.simps same_false ScenarioRecorded_def PromptRef_Stated_def)
  note d = warning_code_distinct [unfolded distinct.simps list.set insert_iff de_Morgan_disj]
  show "WarningScenarioDiffers \<in> cw_Code ` set w \<longleftrightarrow>
      pv_ScenarioDigest r \<noteq> [] \<and> pv_ScenarioDigest c \<noteq> [] \<and> pv_ScenarioDigest r \<noteq> pv_ScenarioDigest c"
    "WarningInputsDiffer \<in> cw_Code ` set w \<longleftrightarrow> pv_ScenarioDigest r \<noteq> [] \<and> pv_ScenarioDigest c \<noteq> [] \<and>
      \<not> (pv_InputsDeclared r = pv_InputsDeclared c \<and> pv_InputDigest r = pv_InputDigest c)"
    "WarningModelDiffers \<in> cw_Code ` set w \<longleftrightarrow> pv_Model r \<noteq> [] \<and> pv_Model c \<noteq> [] \<and> pv_Model r \<noteq> pv_Model c"
    "WarningPromptRefDiffers \<in> cw_Code ` set w \<longleftrightarrow>
      pv_PromptRef r \<noteq> zeroPromptRef \<and> pv_PromptRef c \<noteq> zeroPromptRef \<and> pv_PromptRef r \<noteq> pv_PromptRef c"
    unfolding w warning_codes mem_Collect_eq s using d by metis+
qed

lemma nothing_recorded: "sc_repetitions db = [] \<Longrightarrow> samenessOfRuns db rs cs = Inr (newComparisonSameness zeroProvenance zeroProvenance)"
proof -
  assume e: "sc_repetitions db = []"
  have z: "sideProvenanceOfRuns ids fmempty = zeroProvenance" for ids
    by (cases ids) (simp_all add: sideProvenanceOfRuns_def fmget_def)
  have "loadRunProvenance db (rs @ cs) = Inr (fmempty, True)"
    by (simp add: loadRunProvenance_def provenance_rows_def e map_filter_simps andThen_def maxRunProvenanceRows_def)
  then show ?thesis by (simp add: samenessOfRuns_def andThen_def z)
qed

end
