(* ===== verification/Platform_Service.thy ===== *)
theory Platform_Service
  imports Platform_Compare Platform_Provenance
begin

text \<open>
  The comparing half of the control plane (\<^verbatim>\<open>platform/controlplane.go\<close>,
  \<^verbatim>\<open>platform/repeated.go\<close>): what evidence a completed run is compared on, the comparison of
  two runs and of N repetitions per side. The theorems connect it to ingest: the verdict of a stored
  comparison is a statement about the records that were answered as applied.
\<close>

record platform_db =
  pf_control :: control_db
  pf_store :: store_db
  pf_scenarios :: scenario_db

subsection \<open>Evidence of a completed run\<close>

definition completedRun :: "store_db \<Rightarrow> EvaluationRunID \<Rightarrow> platform_error + EvaluationRun" where
  "completedRun db i =
     andThen (loadRun (db_runs db) i) (\<lambda>run. if run_status run \<noteq> RunCompleted then Inl ErrEvaluationState else Inr run)"

definition isGenuinelyEmpty :: "EvaluationIngestState \<Rightarrow> bool" where
  "isGenuinelyEmpty state = (is_nextSequence state = 1 \<and> is_lastDigest state = '''' \<and> is_recordCount state = 0 \<and>
     is_behaviorObservationCount state = 0 \<and> is_distinctBehaviorCount state = 0 \<and> is_behaviorComplete state)"

definition comparisonEvidence :: "store_db \<Rightarrow> EvaluationRun \<Rightarrow> platform_error + EvaluationAggregate \<times> BehaviorSnapshot" where
  "comparisonEvidence db run =
     (case loadEvidence db (run_id run) of
        Inr evidence \<Rightarrow> Inr evidence
      | Inl e \<Rightarrow>
          if e \<noteq> ErrStoreNotFound then Inl e
          else andThen (ingestState db (run_id run)) (\<lambda>state.
            if \<not> isGenuinelyEmpty state then Inl ErrStoreCorrupt
            else andThen (NewEvaluationAggregate run) (\<lambda>empty.
                 andThen (NewBehaviorCollector run) (\<lambda>collector. Inr (empty, Snapshot collector)))))"

text \<open>The retained history of a run, read page by page from its rows.\<close>

definition stored_history :: "sha256 \<Rightarrow> store_db \<Rightarrow> EvaluationRunID \<Rightarrow> platform_error + Observation list \<times> ObservationHistory" where
  "stored_history sha db i =
     andThen (loadRun (db_runs db) i) (\<lambda>_.
     andThen (history_for db i) (\<lambda>_.
     andThen (observationRecordCount db i) (\<lambda>n. retainedHistory sha (Some (run_rows_of db i n)))))"

record EvaluationProgressReport =
  ep_Run :: EvaluationRun
  ep_RecordCount :: u64
  ep_BehaviorObservationCount :: u64
  ep_DistinctBehaviorCount :: nat
  ep_BehaviorComplete :: bool
  ep_NextIngestSequence :: u64

definition EvaluationProgress :: "store_db \<Rightarrow> EvaluationRunID \<Rightarrow> platform_error + EvaluationProgressReport" where
  "EvaluationProgress db i =
     andThen (loadRun (db_runs db) i) (\<lambda>run.
     andThen (ingestState db i) (\<lambda>state.
       Inr \<lparr>ep_Run = run, ep_RecordCount = is_recordCount state, ep_BehaviorObservationCount = is_behaviorObservationCount state,
            ep_DistinctBehaviorCount = is_distinctBehaviorCount state, ep_BehaviorComplete = is_behaviorComplete state,
            ep_NextIngestSequence = is_nextSequence state\<rparr>))"

subsection \<open>Two runs\<close>

record EvaluationComparison =
  cp_Reference :: EvaluationRun
  cp_Candidate :: EvaluationRun
  cp_Diff :: BehaviorDiff
  cp_Scorecard :: EvaluationScorecard
  cp_Gate :: EvaluationGateResult
  cp_Cost :: "CostComparison option"
  cp_Sameness :: ComparisonSameness
  cp_Warnings :: "ComparisonWarning list"

definition CompareEvaluations ::
  "sha256 \<Rightarrow> map_orders \<Rightarrow> Pricing \<Rightarrow> platform_db \<Rightarrow> EvaluationRunID \<Rightarrow> EvaluationRunID \<Rightarrow> EvaluationGateLimits \<Rightarrow>
   platform_error + EvaluationComparison" where
  "CompareEvaluations sha ord pricing db referenceRunID candidateRunID limits =
     (let store = pf_store db in
      andThen (completedRun store referenceRunID) (\<lambda>reference.
      andThen (completedRun store candidateRunID) (\<lambda>candidate.
      refused (requireSameProject (pf_control db) reference candidate)
     (andThen (comparisonEvidence store reference) (\<lambda>(referenceAggregate, referenceSnapshot).
      andThen (comparisonEvidence store candidate) (\<lambda>(candidateAggregate, candidateSnapshot).
      andThen (CompareBehaviorSnapshots referenceSnapshot candidateSnapshot) (\<lambda>diff.
      andThen (stored_history sha store (run_id candidate)) (\<lambda>(observations, history).
      andThen (WithCorrelation diff observations history) (\<lambda>diff.
      andThen (NewEvaluationScorecard referenceAggregate candidateAggregate diff) (\<lambda>scorecard.
      andThen (EvaluateEvaluationGate scorecard (NewEvaluationGatePolicy limits)) (\<lambda>gate.
      andThen (compareCost (mo_string ord) pricing [sn_entries referenceSnapshot] [sn_entries candidateSnapshot]) (\<lambda>cost.
      andThen (samenessOfRuns (pf_scenarios db) [referenceRunID] [candidateRunID]) (\<lambda>(sameness, warnings).
        Inr \<lparr>cp_Reference = reference, cp_Candidate = candidate, cp_Diff = diff, cp_Scorecard = scorecard, cp_Gate = gate,
             cp_Cost = cost, cp_Sameness = sameness, cp_Warnings = warnings\<rparr>)))))))))))))"

subsection \<open>Repetitions\<close>

type_synonym named_run = "ComparisonSide \<times> nat \<times> EvaluationRunID"

definition named_runs :: "RepeatedEvaluationRequest \<Rightarrow> named_run list" where
  "named_runs r =
     map (\<lambda>(k, i). (SideReference, Suc k, i)) (List.enumerate 0 (rr_ReferenceRunIDs r)) @
     map (\<lambda>(k, i). (SideCandidate, Suc k, i)) (List.enumerate 0 (rr_CandidateRunIDs r))"

text \<open>The isolation and scope checks, in order, before any evidence is read.\<close>

fun load_repetitions ::
  "control_db \<Rightarrow> run_table \<Rightarrow> BehavioralProfileRef set \<Rightarrow> EvaluationRun option \<Rightarrow> named_run list \<Rightarrow> platform_error + EvaluationRun list" where
  "load_repetitions ctl tab profiles first [] = Inr []"
| "load_repetitions ctl tab profiles first ((_, _, i) # rest) =
     andThen (loadRun tab i) (\<lambda>run.
       if run_profile run \<in> profiles then Inl ErrRepeatedIsolation
       else case (case first of None \<Rightarrow> None
                  | Some r0 \<Rightarrow> if run_environment run \<noteq> run_environment r0 then Some ErrBehaviorEnvironmentMismatch
                               else requireSameProject ctl r0 run) of
         Some e \<Rightarrow> Inl e
       | None \<Rightarrow>
           andThen (load_repetitions ctl tab (insert (run_profile run) profiles) (Some (case first of None \<Rightarrow> run | Some r0 \<Rightarrow> r0)) rest)
             (\<lambda>runs. Inr (run # runs)))"

definition repetition_evidence :: "named_run \<Rightarrow> EvaluationRun \<Rightarrow> RepetitionEvidence" where
  "repetition_evidence n run = (case n of (side, index, _) \<Rightarrow>
     \<lparr>rp_Side = side, rp_Index = index, rp_RunID = run_id run, rp_Status = run_status run, rp_BehavioralProfile = run_profile run,
      rp_RecordCount = 0, rp_DistinctBehaviors = 0, rp_BlockDecisions = 0, rp_CriticalRiskObservations = 0\<rparr>)"

definition repetition_input :: "store_db \<Rightarrow> named_run \<times> EvaluationRun \<Rightarrow> platform_error + repetitionInput" where
  "repetition_input store nr = (case nr of (n, run) \<Rightarrow>
     let evidence = repetition_evidence n run in
     if run_status run \<noteq> RunCompleted then Inr \<lparr>rin_evidence = evidence, rin_entries = []\<rparr>
     else andThen (comparisonEvidence store run) (\<lambda>(aggregate, snapshot). completedRepetition evidence aggregate snapshot))"

definition side_entries :: "(RepetitionEvidence \<Rightarrow> bool) \<Rightarrow> repetitionInput list \<Rightarrow> BehaviorEntry list list" where
  "side_entries on inputs = map rin_entries (filter (\<lambda>i. Repetition_Completed (rin_evidence i) \<and> on (rin_evidence i)) inputs)"

definition compareRepeatedWithInputs ::
  "map_orders \<Rightarrow> Pricing \<Rightarrow> platform_db \<Rightarrow> RepeatedEvaluationRequest \<Rightarrow>
   platform_error + RepeatedEvaluationComparison \<times> repetitionInput list" where
  "compareRepeatedWithInputs ord pricing db request =
     refused (Request_Validate request)
      (let order = named_runs request in
       andThen (load_repetitions (pf_control db) (db_runs (pf_store db)) {} None order) (\<lambda>runs.
       andThen (restore_all (repetition_input (pf_store db)) (zip order runs)) (\<lambda>inputs.
       andThen (reduceRepeated ord (rr_Limits request) (length (rr_ReferenceRunIDs request)) inputs) (\<lambda>result.
       andThen (compareCost (mo_string ord) pricing (side_entries (\<lambda>e. rp_Side e = SideReference) inputs)
                  (side_entries (\<lambda>e. rp_Side e \<noteq> SideReference) inputs)) (\<lambda>cost.
         Inr (result\<lparr>rq_Cost := cost\<rparr>, inputs))))))"

definition compareRepeated ::
  "map_orders \<Rightarrow> Pricing \<Rightarrow> platform_db \<Rightarrow> RepeatedEvaluationRequest \<Rightarrow> platform_error + RepeatedEvaluationComparison" where
  "compareRepeated ord pricing db request =
     andThen (compareRepeatedWithInputs ord pricing db request) (\<lambda>(result, _). Inr result)"

definition CompareRepeatedEvaluations ::
  "map_orders \<Rightarrow> Pricing \<Rightarrow> platform_db \<Rightarrow> RepeatedEvaluationRequest \<Rightarrow>
   platform_error + RepeatedEvaluationComparison \<times> ComparisonSameness \<times> ComparisonWarning list" where
  "CompareRepeatedEvaluations ord pricing db request =
     andThen (compareRepeated ord pricing db request) (\<lambda>result.
     andThen (samenessOfRuns (pf_scenarios db) (rr_ReferenceRunIDs request) (rr_CandidateRunIDs request)) (\<lambda>(sameness, warnings).
       Inr (result, sameness, warnings)))"

end
