(* ===== verification/Platform_Service_Proofs.thy ===== *)
theory Platform_Service_Proofs
  imports Platform_Service Platform_Control_Proofs
begin

text \<open>
  From ingest to verdict. The stored evidence a comparison reads is the evidence of the log of applied
  requests, so the verdict counts what the clients were told was applied.
\<close>

subsection \<open>What a comparison reads\<close>

definition log_stream :: "IngestRequest list \<Rightarrow> op_obs list" where
  "log_stream L = map (\<lambda>q. (iq_Record q, request_facts q)) L"

lemma reference_streams:
  "reference_evidence run L = Inr (a, c, obs) \<Longrightarrow> co_complete c \<Longrightarrow> evidence_of run (log_stream L) a c"
proof (induction L arbitrary: a c obs rule: rev_induct)
  case Nil
  then show ?case by (auto simp: reference_Nil evidence_of_def log_stream_def intro!: agg_reach.empty coll_reach.new)
next
  case (snoc q L)
  obtain a0 c0 obs0 where s: "reference_evidence run L = Inr (a0, c0, obs0)" "fold_request (a0, c0) q = Inr (a, c)"
    using snoc.prems(1) by (auto simp: reference_snoc ingest_one_Inr)
  have o: "ObserveOperational c0 (iq_Record q) (request_facts q) = (c, None)" and r: "AddRecord a0 (iq_Record q) = (a, None)"
    using s(2) snoc.prems(2) capacity_incomplete by (auto simp: fold_request_Inr)
  have "evidence_of run (log_stream L) a0 c0" using snoc.IH [OF s(1)] complete_mono [OF o] snoc.prems(2) by blast
  then show ?case using coll_reach.accept [OF _ o] agg_reach.add [OF _ r] by (simp add: evidence_of_def log_stream_def)
qed

lemma reference_bound: "validateRunBinding run = None \<Longrightarrow> \<exists>a c. reference_evidence run [] = Inr (a, c, [])"
  by (simp add: reference_Nil NewEvaluationAggregate_def NewBehaviorCollector_def andThen_def)

text \<open>The observations of the applied requests, one for each, and whether they read back.\<close>

definition observed_as :: "IngestRequest \<Rightarrow> Observation \<Rightarrow> bool" where
  "observed_as q ob \<longleftrightarrow> (\<exists>new. ObservationFromRecord (iq_Sequence q) (iq_Record q) new = Inr ob)"

lemma reference_observes: "reference_evidence run L = Inr (a, c, obs) \<Longrightarrow> list_all2 observed_as L obs"
proof (induction L arbitrary: a c obs rule: rev_induct)
  case (snoc q L)
  obtain a0 c0 obs0 ob where s: "reference_evidence run L = Inr (a0, c0, obs0)" "obs = obs0 @ [ob]" "observed_as q ob"
    using snoc.prems unfolding reference_snoc andThen_Inr by (metis ingest_one_Inr observed_as_def prod_cases3)
  then show ?case using snoc.IH [OF s(1)] by (simp add: list_all2_appendI)
qed (simp add: reference_Nil)

lemma observed_storable:
  assumes "observed_as q ob" and "dated_request q" and "dr_SpanStatus (iq_Record q) \<in> {'''', ''unset'', ''ok'', ''error''}"
  shows "storable_observation ob"
proof -
  obtain new where o: "ObservationFromRecord (iq_Sequence q) (iq_Record q) new = Inr ob" using assms(1) by (auto simp: observed_as_def)
  then obtain v where v: "ValidateDurationNanos (iq_Record q) = Inr v"
    by (auto simp: ObservationFromRecord_def split: if_splits sum.splits)
  have "v \<le> MaxDurationNanos" "dr_DurationNanos (iq_Record q) = '''' \<Longrightarrow> v = 0"
    using v FormatUint10_nonempty [of v] unfolding duration_text_canonical by force+
  then show ?thesis using o v assms(2,3)
    by (auto simp: ObservationFromRecord_def storable_observation_def dated_request_def SpanStatus_Valid_def split: if_splits)
qed

lemma applied_storable:
  assumes "reference_evidence run L = Inr (a, c, obs)" and "\<forall>q \<in> set L. dated_request q"
  shows "list_all storable_observation obs"
proof -
  have "agg_reach run (map iq_Record L) a" using reference_reaches [OF assms(1)] by (auto simp: reference_ok_def)
  then have st: "set (map (dr_SpanStatus \<circ> iq_Record) L) \<subseteq> {'''', ''unset'', ''ok'', ''error''}"
    using aggregate_operational(2) [of run "map iq_Record L" a] by (simp add: status_rep_def image_image)
  note o = reference_observes [OF assms(1)]
  have "storable_observation (obs ! i)" if i: "i < length obs" for i
  proof (rule observed_storable)
    have "L ! i \<in> set L" using i list_all2_lengthD [OF o] by simp
    then show "dated_request (L ! i)" "dr_SpanStatus (iq_Record (L ! i)) \<in> {'''', ''unset'', ''ok'', ''error''}"
      using assms(2) st by auto
  qed (rule list_all2_nthD2 [OF o i])
  then show ?thesis by (simp add: list_all_length)
qed

lemma stored_reference:
  assumes "loadRun (db_runs db) i = Inr run" and "run_stored marshal sha db run L"
  shows "\<exists>a c obs. reference_evidence run L = Inr (a, c, obs) \<and> comparisonEvidence db run = Inr (a, Snapshot c) \<and>
    retained_state sha obs (run_rows_of db i (of_nat (length obs))) \<and> dense 0 obs \<and> list_all storable_observation obs \<and>
    observationRecordCount db i = Inr (of_nat (length obs))"
proof -
  note run = loaded_run [OF assms(1)]
  show ?thesis
  proof (cases "L = []")
    case True
    obtain a c where e: "reference_evidence run [] = Inr (a, c, [])" using reference_bound [OF run(3)] by blast
    have ab: "rows_absent db i" using assms(2) True run(2) by (simp add: run_stored_def)
    have "comparisonEvidence db run = Inr (a, Snapshot c)"
      using e absent_evidence [OF ab] ab assms(1) run(2)
      by (auto simp: comparisonEvidence_def ingestState_def derivedIngestState_def rows_absent_def isGenuinelyEmpty_def andThen_def reference_Nil
          split: sum.splits)
    then show ?thesis using e ab True stored_state(1) [OF assms(2), of a c "[]"] run(2)
      by (auto simp: rows_absent_def observationRecordCount_def dense_def)
  next
    case False
    then obtain a c obs d where s: "ingest_log_ok L" "reference_evidence run L = Inr (a, c, obs)" "rows_hold sha db i a c obs d"
      using assms(2) run(2) by (auto simp: run_stored_def)
    note p = reference_pair [OF reference_reaches [OF s(2)]]
    have "comparisonEvidence db run = Inr (a, Snapshot c)" using stored_evidence [OF assms(1) s(2,1,3)] run(2) by (simp add: comparisonEvidence_def)
    moreover have "map ob_Sequence obs = map iq_Sequence L" using reference_reaches [OF s(2)] by (auto simp: reference_ok_def)
    then have "dense 0 obs" using s(1) p(4) by (auto simp: dense_def ingest_log_ok_def list_eq_iff_nth_eq)
    moreover have "observationRecordCount db i = Inr (of_nat (length obs))"
    proof -
      have "ag_recordCount a = of_nat (length obs)" using p(3,4) by (metis of_nat_unat ucast_id)
      then show ?thesis using s(3) by (simp add: rows_hold_def observationRecordCount_def aggregateInsertArgs_def)
    qed
    moreover have "list_all storable_observation obs" using applied_storable [OF s(2)] s(1) by (simp add: ingest_log_ok_def)
    ultimately show ?thesis using s(2,3) by (auto simp: rows_hold_def)
  qed
qed

lemma stored_history_read:
  assumes "loadRun (db_runs db) i = Inr run" and "dense 0 obs" and "retained_state sha obs (run_rows_of db i (of_nat (length obs)))"
    and "observationRecordCount db i = Inr (of_nat (length obs))" and "list_all storable_observation obs"
  shows "stored_history sha db i = Inr (take 4096 obs, history_of (length obs))"
proof -
  have "list_all storable_observation (take 4096 obs)" using assms(5) by (auto simp: list_all_iff dest: in_set_takeD)
  note r = retained_read(1) [OF assms(2,3)] retained_read(2) [OF assms(2,3) this]
  obtain h where "loadObservationHistoryRow (run_rows_of db i 0) = Inr h"
    using r(1) unfolding observationHistoryFor_def andThen_Inr by (auto simp: loadObservationHistoryRow_def run_rows_of_def)
  then show ?thesis using r assms(1,4) by (simp add: stored_history_def history_for_def andThen_def)
qed

subsection \<open>From the log to the verdict\<close>

text \<open>The number of changes the added identities \<open>A\<close> fold to, by the documented rule over the observations of a run: the
  identities that no added identity explains, if the whole history was retained, no span was observed under two identities
  and the recorded relation has no cycle; all of them otherwise.\<close>

definition folded_changes :: "Observation list \<Rightarrow> string set \<Rightarrow> nat" where
  "folded_changes obs A =
     (let S = set obs in
      if length obs \<le> 4096 \<and> \<not> ambiguous S \<and> acyclic (beneath_edges S A) then card {i \<in> A. \<not> explained S A i} else card A)"

lemma correlated_changes:
  assumes "coll_reach rr xs c" and "coll_reach rc ys d" and "CompareBehaviorSnapshots (Snapshot c) (Snapshot d) = Inr diff"
    and "WithCorrelation diff (take 4096 obs) (history_of (length obs)) = Inr diff'"
  shows "length (bd_changes diff') = folded_changes obs (fps_in ys - fps_in xs)"
proof -
  let ?A = "fps_in ys - fps_in xs" and ?st = "correlationStateFor (history_of (length obs))"
  have fin: "finite ?A" by (simp add: fps_in_def)
  have added: "addedIdentities (bd_deltas diff) = sorted_list_of_set ?A" by (rule diff_added [OF assms(1-3)])
  obtain changes st' where f: "foldAddedChanges (sorted_list_of_set ?A) (buildBehaviorParentage (take 4096 obs)) ?st = (changes, st')" by fastforce
  have w: "bd_changes diff' = changes" using assms(4) f added by (auto simp: WithCorrelation_def split: option.splits)
  have "?st = CorrelationComplete \<longleftrightarrow> length obs \<le> 4096"
    by (auto simp: correlationStateFor_def history_of_def ObservationHistory_Available_def ObservationHistory_Complete_def correlation_defs)
  note r = folded_rule [OF distinct_sorted_list_of_set f]
  have n: "length changes = (if st' = CorrelationComplete
      then length (filter (\<lambda>r. \<not> explained (set (take 4096 obs)) ?A r) (sorted_list_of_set ?A)) else card ?A)"
    using arg_cong [OF r(2), of length] fin by simp
  have "length (filter P (sorted_list_of_set ?A)) = card {i \<in> ?A. P i}" for P
    using distinct_card [of "filter P (sorted_list_of_set ?A)"] fin by simp
  then show ?thesis unfolding w n using r(1) \<open>?st = CorrelationComplete \<longleftrightarrow> length obs \<le> 4096\<close> fin
    by (auto simp: folded_changes_def Let_def)
qed

lemma scorecard_verdict:
  assumes "evidence_of rr xs a c" and "evidence_of rc ys b d" and "CompareBehaviorSnapshots (Snapshot c) (Snapshot d) = Inr diff"
    and "WithCorrelation diff (take 4096 obs) (history_of (length obs)) = Inr diff'" and "NewEvaluationScorecard a b diff' = Inr sk"
  shows "gr_verdict (gateResult sk l) = GateVerdictPass \<longleftrightarrow>
    xs \<noteq> [] \<and> ys \<noteq> [] \<and> card (fps_in ys - fps_in xs) \<le> unat (gl_MaxAddedBehaviors l) \<and>
    count_list (map (dr_Decision \<circ> fst) ys) ''block'' \<le> unat (gl_MaxBlockDecisions l) \<and>
    count_list (map (dr_RiskLevel \<circ> fst) ys) ''critical'' \<le> unat (gl_MaxCriticalRiskObservations l) \<and>
    (ol_set (gl_MaxAddedBehaviorChanges l) \<longrightarrow> folded_changes obs (fps_in ys - fps_in xs) \<le> unat (ol_maximum (gl_MaxAddedBehaviorChanges l)))"
proof -
  have r: "coll_reach rr xs c" "coll_reach rc ys d" "agg_reach rr (map fst xs) a" "agg_reach rc (map fst ys) b"
    using assms(1,2) by (auto simp: evidence_of_def)
  have sk: "sk = scorecard_of a b diff'" using assms(5) unfolding scorecard_Inr by simp
  obtain changes st where w: "diff' = diff\<lparr>bd_changes := changes, bd_correlationState := st\<rparr>" "length changes \<le> card (fps_in ys - fps_in xs)"
    using correlation_ok [OF r(1,2) assms(3), of "take 4096 obs" "history_of (length obs)"] assms(4) by auto
  have n: "unat (ag_recordCount a) = length xs" "unat (ag_recordCount b) = length ys"
    "unat (dc_Block (ag_decisions b)) = count_list (map (dr_Decision \<circ> fst) ys) ''block''"
    "unat (rc_Critical (ag_risks b)) = count_list (map (dr_RiskLevel \<circ> fst) ys) ''critical''"
    using agg_reach_inv [OF r(3)] agg_reach_inv [OF r(4)] by (auto simp: counts_inv_def decisions_rep_def risks_rep_def)
  have f: "sk_referenceRecords sk = ag_recordCount a" "sk_candidateRecords sk = ag_recordCount b"
    "er_count (rcmp_candidate (dcmp_Block (sk_decisions sk))) = dc_Block (ag_decisions b)"
    "er_count (rcmp_candidate (rkcmp_Critical (sk_risks sk))) = rc_Critical (ag_risks b)"
    "bs_AddedCount (sk_behavior sk) = of_nat (card (fps_in ys - fps_in xs))" "bs_AddedChangeCount (sk_behavior sk) = of_nat (length changes)"
    unfolding sk w(1)
    by (simp_all add: scorecard_of_def compareRates_def Let_def diff_counts(1) [OF r(1,2) assms(3)] BehaviorDiff_AddedChangeCount_def)
  have "card (fps_in ys - fps_in xs) \<le> 512"
    using diff_counts(7) [OF r(1,2) assms(3)] card_parts [of ys xs] by (simp add: maxBehaviorEntries_def)
  then have u: "unat (of_nat (card (fps_in ys - fps_in xs)) :: u64) = card (fps_in ys - fps_in xs)" "unat (of_nat (length changes) :: u64) = length changes"
    using w(2) by (simp_all add: unat_of_nat)
  show ?thesis unfolding verdict_pass f one_le_word correlated_changes [OF r(1,2) assms(3,4), symmetric]
    unfolding word_le_nat_alt u n w(1) by simp
qed

lemma stored_comparison:
  assumes "sys_reach dated_request marshal sha s" and "pf_store db = sy_db s"
    and "completedRun (sy_db s) r = Inr reference" and "completedRun (sy_db s) k = Inr candidate"
    and "requireSameProject (pf_control db) reference candidate = None"
    and "comparisonEvidence (sy_db s) reference = Inr (a, sa)" and "comparisonEvidence (sy_db s) candidate = Inr (b, sb)"
    and "CompareBehaviorSnapshots sa sb = Inr diff" and "compareCost (mo_string ord) pricing [sn_entries sa] [sn_entries sb] = Inr cost"
    and "samenessOfRuns (pf_scenarios db) [r] [k] = Inr sameness"
  obtains c d obs diff' sk sm ws where "reference_evidence candidate (log_of k (sy_log s)) = Inr (b, d, obs)" and "evidence_of reference (log_stream (log_of r (sy_log s))) a c"
    and "evidence_of candidate (log_stream (log_of k (sy_log s))) b d" and "CompareBehaviorSnapshots (Snapshot c) (Snapshot d) = Inr diff"
    and "WithCorrelation diff (take 4096 obs) (history_of (length obs)) = Inr diff'" and "NewEvaluationScorecard a b diff' = Inr sk"
    and "CompareEvaluations sha ord pricing db r k limits = Inr \<lparr>cp_Reference = reference, cp_Candidate = candidate, cp_Diff = diff',
      cp_Scorecard = sk, cp_Gate = gateResult sk limits, cp_Cost = cost, cp_Sameness = sm, cp_Warnings = ws\<rparr>"
proof -
  define R K where "R = log_of r (sy_log s)" and "K = log_of k (sy_log s)"
  have inv: "db_inv marshal sha (sy_db s) (sy_log s)" using sys_reach_inv [OF assms(1)] by (simp add: sys_inv_def)
  have l: "loadRun (db_runs (sy_db s)) r = Inr reference" "loadRun (db_runs (sy_db s)) k = Inr candidate"
    using assms(3,4) by (auto simp: completedRun_def andThen_def split: sum.splits if_splits)
  obtain c obs0 where c: "reference_evidence reference R = Inr (a, c, obs0)" "sa = Snapshot c"
    using stored_reference [OF l(1) inv_stored [OF inv l(1)]] assms(6) by (auto simp: R_def)
  obtain d obs where d: "reference_evidence candidate K = Inr (b, d, obs)" "sb = Snapshot d"
    "retained_state sha obs (run_rows_of (sy_db s) k (of_nat (length obs)))" "dense 0 obs"
    "observationRecordCount (sy_db s) k = Inr (of_nat (length obs))" "list_all storable_observation obs"
    using stored_reference [OF l(2) inv_stored [OF inv l(2)]] assms(7) by (auto simp: K_def)
  have "co_complete e" if "sn_complete (Snapshot e)" for e using that by (simp add: Snapshot_def zeroSnapshot_def split: if_splits)
  then have "co_complete c" "co_complete d" using diff_identity [OF assms(8)] by (simp_all add: c(2) d(2))
  note ev = reference_streams [OF c(1) this(1)] reference_streams [OF d(1) this(2)]
  note cb = assms(8) [unfolded c(2) d(2)]
  let ?h = "history_of (length obs)"
  obtain diff' sk where dec: "WithCorrelation diff (take 4096 obs) ?h = Inr diff'" "NewEvaluationScorecard a b diff' = Inr sk"
    "EvaluateEvaluationGate sk (NewEvaluationGatePolicy limits) = Inr (gateResult sk limits)"
    using evidence_decides [OF ev cb] by blast
  obtain sm ws where sw: "sameness = (sm, ws)" by force
  have "CompareEvaluations sha ord pricing db r k limits = Inr \<lparr>cp_Reference = reference, cp_Candidate = candidate, cp_Diff = diff',
      cp_Scorecard = sk, cp_Gate = gateResult sk limits, cp_Cost = cost, cp_Sameness = sm, cp_Warnings = ws\<rparr>"
    using assms(2-10) dec stored_history_read [OF l(2) d(4,3,5,6)] loaded_run(2) [OF l(2)]
    by (simp add: CompareEvaluations_def Let_def andThen_def refused_def sw)
  then show ?thesis using that [OF d(1) [unfolded K_def] ev [unfolded R_def K_def] cb dec(1,2)] by blast
qed

text \<open>C2. From ingest to verdict: in every state of the store reached by requests with dated
  records, comparing two completed runs of one project, whose evidence is comparable, whose cost can be compared and whose scenario
  provenance reads, reaches a verdict. It is Pass exactly when both runs applied a record, the
  candidate applied at most the allowed numbers of block decisions and of critical-risk records, it showed at most the allowed
  number of behaviours the reference did not show, and, if a limit on changes is set, these fold to at most that many changes
  by the parent references of the records the candidate applied (\<open>folded_changes\<close> of their observations).
  The counts are over the requests that were answered as applied.\<close>

theorem verdict_counts_applied_records:
  assumes "sys_reach dated_request marshal sha s" and "pf_store db = sy_db s"
    and "completedRun (sy_db s) r = Inr reference" and "completedRun (sy_db s) k = Inr candidate"
    and "requireSameProject (pf_control db) reference candidate = None"
    and "comparisonEvidence (sy_db s) reference = Inr (a, sa)" and "comparisonEvidence (sy_db s) candidate = Inr (b, sb)"
    and "CompareBehaviorSnapshots sa sb = Inr diff" and "compareCost (mo_string ord) pricing [sn_entries sa] [sn_entries sb] = Inr cost"
    and "samenessOfRuns (pf_scenarios db) [r] [k] = Inr sameness"
  shows "let R = log_of r (sy_log s); K = log_of k (sy_log s); A = fps_in (log_stream K) - fps_in (log_stream R) in
    \<exists>cmp obs. CompareEvaluations sha ord pricing db r k limits = Inr cmp \<and> cp_Cost cmp = cost \<and> list_all2 observed_as K obs \<and>
      (gr_verdict (cp_Gate cmp) = GateVerdictPass \<longleftrightarrow>
        R \<noteq> [] \<and> K \<noteq> [] \<and> card A \<le> unat (gl_MaxAddedBehaviors limits) \<and>
        count_list (map (dr_Decision \<circ> iq_Record) K) ''block'' \<le> unat (gl_MaxBlockDecisions limits) \<and>
        count_list (map (dr_RiskLevel \<circ> iq_Record) K) ''critical'' \<le> unat (gl_MaxCriticalRiskObservations limits) \<and>
        (ol_set (gl_MaxAddedBehaviorChanges limits) \<longrightarrow>
           folded_changes obs A \<le> unat (ol_maximum (gl_MaxAddedBehaviorChanges limits))))"
proof -
  obtain c d obs diff' sk sm ws where o: "reference_evidence candidate (log_of k (sy_log s)) = Inr (b, d, obs)"
    and v: "evidence_of reference (log_stream (log_of r (sy_log s))) a c"
    "evidence_of candidate (log_stream (log_of k (sy_log s))) b d" "CompareBehaviorSnapshots (Snapshot c) (Snapshot d) = Inr diff"
    "WithCorrelation diff (take 4096 obs) (history_of (length obs)) = Inr diff'" "NewEvaluationScorecard a b diff' = Inr sk"
    and c: "CompareEvaluations sha ord pricing db r k limits = Inr \<lparr>cp_Reference = reference, cp_Candidate = candidate, cp_Diff = diff',
      cp_Scorecard = sk, cp_Gate = gateResult sk limits, cp_Cost = cost, cp_Sameness = sm, cp_Warnings = ws\<rparr>"
    by (rule stored_comparison [OF assms])
  show ?thesis unfolding Let_def c
    using scorecard_verdict [OF v, of limits] reference_observes [OF o] by (auto simp: log_stream_def comp_def)
qed

subsection \<open>A comparison can be repeated\<close>

lemma frozen_rows:
  assumes "(sys_step dated_request marshal sha)\<^sup>*\<^sup>* s s'" and "sys_reach dated_request marshal sha s"
    and "loadRun (db_runs (sy_db s)) i = Inr run" and "RunStatus_IsTerminal (run_status run)"
  shows "sys_reach dated_request marshal sha s' \<and> loadRun (db_runs (sy_db s')) i = Inr run \<and> rows_eq (sy_db s) (sy_db s') i"
  using assms(1)
proof (induction rule: rtranclp_induct)
  case base
  then show ?case using assms(2,3) by (simp add: rows_eq_def)
next
  case (step t t')
  have f: "loadRun (db_runs (sy_db t')) i = Inr run \<and> rows_eq (sy_db t) (sy_db t') i"
    using finished_step [OF sys_reach_inv step.hyps(2) _ assms(4)] step.IH by blast
  moreover have "rows_eq (sy_db s) (sy_db t') i" using f step.IH by (simp add: rows_eq_def)
  ultimately show ?case using step.IH sys_reach.step [OF _ step.hyps(2)] by blast
qed

lemma rows_eq_reads:
  assumes "rows_eq db db' i" and "loadRun (db_runs db) i = Inr run" and "loadRun (db_runs db') i = Inr run" and "run_id run = i"
  shows "comparisonEvidence db' run = comparisonEvidence db run" and "stored_history key db' i = stored_history key db i"
proof -
  have l: "loadEvidence db' i = loadEvidence db i" by (rule loadEvidence_cong) (use assms in \<open>auto simp: rows_eq_def\<close>)
  have c: "fmlookup (db_cursors db') i = fmlookup (db_cursors db) i" using assms(1) by (simp add: rows_eq_def)
  have "derivedIngestState db' i = derivedIngestState db i" "cursorState db' i = cursorState db i"
    unfolding fun_eq_iff derivedIngestState_def cursorState_def l by simp_all
  then have n: "ingestState db' i = ingestState db i" using assms(2,3) c by (simp add: ingestState_def andThen_def split: option.split)
  show "comparisonEvidence db' run = comparisonEvidence db run" unfolding comparisonEvidence_def assms(4) l n by (rule refl)
  have "run_rows_of db' i n = run_rows_of db i n" "observationRecordCount db' i = observationRecordCount db i" for n
    using assms(1) by (simp_all add: rows_eq_def run_rows_of_def fmget_def observationRecordCount_def)
  then show "stored_history key db' i = stored_history key db i" unfolding stored_history_def history_for_def assms(2,3) by simp
qed

definition ownership_kept :: "control_db \<Rightarrow> control_db \<Rightarrow> bool" where
  "ownership_kept db db' \<longleftrightarrow>
     (\<forall>i v. fmlookup (ct_candidates db) i = Some v \<longrightarrow> fmlookup (ct_candidates db') i = Some v) \<and>
     (\<forall>i v. fmlookup (ct_agents db) i = Some v \<longrightarrow> fmlookup (ct_agents db') i = Some v)"

lemma ctl_ownership: "ctl_step s s' \<Longrightarrow> ownership_kept (cy_db s) (cy_db s')"
proof (induction rule: ctl_step.cases)
  case (environment r p n env k s db' e)
  then show ?case by (auto simp: ownership_kept_def CreateEnvironment_def insertEnvironmentLocked_def Let_def split: if_splits)
next
  case (commit c n s db' e)
  then show ?case by (auto simp: ownership_kept_def UpdateEnvironment_def Let_def split: if_splits option.splits)
qed (auto simp: ownership_kept_def CreateProject_def CreateAgent_def CreateCandidate_def split: if_splits)

lemma ctl_ownership_steps: "ctl_step\<^sup>*\<^sup>* s s' \<Longrightarrow> ownership_kept (cy_db s) (cy_db s')"
proof (induction rule: rtranclp_induct)
  case (step t t')
  then show ?case using ctl_ownership [OF step.hyps(2)] by (simp add: ownership_kept_def)
qed (simp add: ownership_kept_def)

lemma project_kept_later:
  assumes "ownership_kept db db'" and "projectOf db run = Inr p"
  shows "projectOf db' run = Inr p"
proof -
  have "loadCandidate db' i = loadCandidate db i" if "loadCandidate db i = Inr v" for i v
    using that assms(1) by (auto simp: loadCandidate_def ownership_kept_def split: option.splits)
  moreover have "loadAgent db' i = loadAgent db i" if "loadAgent db i = Inr v" for i v
    using that assms(1) by (auto simp: loadAgent_def ownership_kept_def split: option.splits)
  ultimately show ?thesis using assms(2) by (auto simp: projectOf_def andThen_def split: sum.splits)
qed

lemma same_project_later:
  assumes "ownership_kept db db'" and "requireSameProject db r k = None"
  shows "requireSameProject db' r k = None"
proof -
  obtain p where "projectOf db r = Inr p" "projectOf db k = Inr p"
    using assms(2) by (auto simp: requireSameProject_def andThen_def split: sum.splits if_splits)
  then show ?thesis using project_kept_later [OF assms(1)] by (simp add: requireSameProject_def andThen_def)
qed

text \<open>C10. A comparison that succeeded once succeeds with the same diff, scorecard, cost and verdict at every later
  moment, whatever is ingested, transitioned or configured in between; only what is reported about sameness may change.\<close>

theorem comparison_reproducible:
  assumes "sys_reach dated_request marshal sha s" and "(sys_step dated_request marshal sha)\<^sup>*\<^sup>* s s'" and "ctl_step\<^sup>*\<^sup>* t t'"
    and "pf_store db = sy_db s" and "pf_store db' = sy_db s'" and "pf_control db = cy_db t" and "pf_control db' = cy_db t'"
    and "CompareEvaluations key ord pricing db r k limits = Inr cmp"
    and "samenessOfRuns (pf_scenarios db') [r] [k] = Inr (sm, ws)"
  shows "CompareEvaluations key ord pricing db' r k limits = Inr (cmp\<lparr>cp_Sameness := sm, cp_Warnings := ws\<rparr>)"
proof -
  obtain reference candidate where l: "completedRun (sy_db s) r = Inr reference" "completedRun (sy_db s) k = Inr candidate"
    and p: "requireSameProject (cy_db t) reference candidate = None"
    using assms(8) by (auto simp: CompareEvaluations_def assms(4,6) refused_def Let_def andThen_def split: sum.splits option.splits)
  have kept: "loadRun (db_runs (sy_db s)) i = Inr run \<and> loadRun (db_runs (sy_db s')) i = Inr run \<and> rows_eq (sy_db s) (sy_db s') i \<and> run_id run = i \<and>
    completedRun (sy_db s') i = Inr run" if c: "completedRun (sy_db s) i = Inr run" for i run
  proof -
    have g: "loadRun (db_runs (sy_db s)) i = Inr run" "run_status run = RunCompleted"
      using c by (auto simp: completedRun_def andThen_def split: sum.splits if_splits)
    then have "RunStatus_IsTerminal (run_status run)" by (simp add: RunStatus_IsTerminal_def)
    then show ?thesis using frozen_rows [OF assms(2,1) g(1)] g loaded_run(2) [OF g(1)] by (simp add: completedRun_def andThen_def)
  qed
  note kr = kept [OF l(1)] and kk = kept [OF l(2)]
  have "requireSameProject (cy_db t') reference candidate = None"
    using same_project_later [OF ctl_ownership_steps [OF assms(3)] p] .
  moreover have "comparisonEvidence (sy_db s') reference = comparisonEvidence (sy_db s) reference"
    "comparisonEvidence (sy_db s') candidate = comparisonEvidence (sy_db s) candidate"
    "stored_history key (sy_db s') k = stored_history key (sy_db s) k"
    using kr kk by (auto intro: rows_eq_reads)
  ultimately show ?thesis using assms(8,9) p l kr kk
    by (auto simp: CompareEvaluations_def assms(4-7) refused_def Let_def andThen_def split: sum.splits)
qed

end
