(* ===== verification/Platform_Promotion.thy ===== *)
theory Platform_Promotion
  imports Platform_Service_Proofs
begin

text \<open>
  Promotions (\<^verbatim>\<open>platform/promotion.go\<close>, \<^verbatim>\<open>platform/promotion_store.go\<close>,
  \<^verbatim>\<open>Promote\<close> of \<^verbatim>\<open>platform/controlplane.go\<close>): recorded decisions
  that a candidate may advance from one environment toward another. Counters are stored as text, ranks and flags
  as integers, times as values.
\<close>

type_synonym PromotionID = string
type_synonym PromotionOutcome = string

definition PromotionAccepted :: PromotionOutcome where "PromotionAccepted = ''accepted''"
definition PromotionRejected :: PromotionOutcome where "PromotionRejected = ''rejected''"
definition MaxPromotionPage :: int where "MaxPromotionPage = int MaxListPage"

definition PromotionOutcome_valid :: "PromotionOutcome \<Rightarrow> bool" where
  "PromotionOutcome_valid o1 = (o1 = PromotionAccepted \<or> o1 = PromotionRejected)"

definition outcomeFor :: "GateVerdict \<Rightarrow> platform_error + PromotionOutcome" where
  "outcomeFor verdict =
     (if verdict = GateVerdictPass then Inr PromotionAccepted
      else if verdict = GateVerdictFail then Inr PromotionRejected
      else Inl ErrInvalidGateEvidence)"

record EnvironmentPosition =
  po_Ref :: EnvironmentRef
  po_Rank :: u16
  po_Revision :: u64

record Promotion =
  pm_id :: PromotionID
  pm_projectID :: ProjectID
  pm_candidateID :: CandidateID
  pm_referenceRunID :: EvaluationRunID
  pm_candidateRunID :: EvaluationRunID
  pm_source :: EnvironmentPosition
  pm_target :: EnvironmentPosition
  pm_limits :: EvaluationGateLimits
  pm_gateResult :: EvaluationGateResult
  pm_outcome :: PromotionOutcome
  pm_decidedAt :: gotime

record PromotionDecision =
  pd_ID :: PromotionID
  pd_Source :: Environment
  pd_Target :: Environment
  pd_GateResult :: EvaluationGateResult
  pd_DecidedAt :: gotime

definition changeLimitOf :: "ChangeCountGate \<Rightarrow> OptionalGateLimit" where
  "changeLimitOf g = (if \<not> ChangeCountGate_Evaluated g then unsetLimit else NewOptionalGateLimit (cg_Maximum g))"

definition position_of :: "Environment \<Rightarrow> EnvironmentPosition" where
  "position_of e = \<lparr>po_Ref = env_ref e, po_Rank = env_rank e, po_Revision = env_revision e\<rparr>"

definition gate_limits_of :: "EvaluationGateResult \<Rightarrow> EvaluationGateLimits" where
  "gate_limits_of g =
     \<lparr>gl_MaxAddedBehaviors = mag_Maximum (gr_addedBehaviors g), gl_MaxBlockDecisions = mag_Maximum (gr_blockDecisions g),
      gl_MaxCriticalRiskObservations = mag_Maximum (gr_criticalRiskObservations g),
      gl_MaxAddedBehaviorChanges = changeLimitOf (gr_addedBehaviorChanges g)\<rparr>"

definition NewPromotion :: "PromotionDecision \<Rightarrow> platform_error + Promotion" where
  "NewPromotion d =
     (let g = pd_GateResult d in
      refused (validateID (pd_ID d))
      (if Time_IsZero (pd_DecidedAt d) then Inl ErrInvalidTimestamp
       else if \<not> gr_bound g then Inl ErrInvalidGateEvidence
       else if \<not> CanPromote (pd_Source d) (pd_Target d) then Inl ErrPromotionOrder
       else if EvaluationGateResult.gr_environment g \<noteq> env_ref (pd_Source d) then Inl ErrInvalidGateEvidence
       else if gr_referenceRunID g = gr_candidateRunID g then Inl ErrInvalidGateEvidence
       else andThen (outcomeFor (gr_verdict g)) (\<lambda>outcome.
         Inr \<lparr>pm_id = pd_ID d, pm_projectID = env_projectID (pd_Source d), pm_candidateID = gr_candidateCandidate g,
              pm_referenceRunID = gr_referenceRunID g, pm_candidateRunID = gr_candidateRunID g,
              pm_source = position_of (pd_Source d), pm_target = position_of (pd_Target d),
              pm_limits = gate_limits_of g, pm_gateResult = g, pm_outcome = outcome, pm_decidedAt = pd_DecidedAt d\<rparr>)))"

definition restorePromotion ::
  "PromotionID \<Rightarrow> ProjectID \<Rightarrow> CandidateID \<Rightarrow> EnvironmentPosition \<Rightarrow> EnvironmentPosition \<Rightarrow> EvaluationGateLimits \<Rightarrow>
   EvaluationGateResult \<Rightarrow> PromotionOutcome \<Rightarrow> gotime \<Rightarrow> platform_error + Promotion" where
  "restorePromotion i projectID candidateID source target limits gate outcome decidedAt =
     (if first_error (map validateID [i, projectID, candidateID, po_Ref source, po_Ref target]) \<noteq> None then Inl ErrStoreCorrupt
      else if Time_IsZero decidedAt then Inl ErrStoreCorrupt
      else if \<not> PromotionOutcome_valid outcome then Inl ErrStoreCorrupt
      else if \<not> gr_bound gate then Inl ErrStoreCorrupt
      else case outcomeFor (gr_verdict gate) of
        Inl e \<Rightarrow> Inl ErrStoreCorrupt
      | Inr expected \<Rightarrow>
          if expected \<noteq> outcome then Inl ErrStoreCorrupt
          else case (restoreEnvironment (po_Ref source) projectID (po_Ref source) (po_Rank source) True EnvironmentActive (po_Revision source),
                     restoreEnvironment (po_Ref target) projectID (po_Ref target) (po_Rank target) True EnvironmentActive (po_Revision target)) of
            (Some sourceEnv, Some targetEnv) \<Rightarrow>
              if \<not> CanPromote sourceEnv targetEnv then Inl ErrStoreCorrupt
              else Inr \<lparr>pm_id = i, pm_projectID = projectID, pm_candidateID = candidateID,
                        pm_referenceRunID = gr_referenceRunID gate, pm_candidateRunID = gr_candidateRunID gate,
                        pm_source = source, pm_target = target, pm_limits = limits, pm_gateResult = gate,
                        pm_outcome = outcome, pm_decidedAt = decidedAt\<rparr>
          | _ \<Rightarrow> Inl ErrStoreCorrupt)"

definition validatePromotionPage :: "PromotionID \<Rightarrow> int \<Rightarrow> platform_error option" where
  "validatePromotionPage after limit =
     (if limit < 1 \<or> MaxPromotionPage < limit then Some ErrInvalidID
      else if after \<noteq> '''' then validateID after else None)"

subsection \<open>Rows\<close>

record changeGateRow =
  ch_check :: GateCheckState
  ch_maximum :: "string option"
  ch_actual :: "string option"
  ch_passed :: "int option"
  ch_correlation :: "string option"
  ch_policy :: "string option"

record promotionRow =
  pr_projectID :: string
  pr_candidateID :: string
  pr_referenceCandidateID :: string
  pr_referenceRunID :: string
  pr_candidateRunID :: string
  pr_sourceRef :: string
  pr_sourceRank :: int
  pr_sourceRevision :: string
  pr_targetRef :: string
  pr_targetRank :: int
  pr_targetRevision :: string
  pr_maximums :: "string list"
  pr_refEvidence :: "string \<times> string \<times> int"
  pr_candEvidence :: "string \<times> string \<times> int"
  pr_added :: "string \<times> int"
  pr_block :: "string \<times> int"
  pr_critical :: "string \<times> int"
  pr_verdict :: string
  pr_outcome :: string
  pr_decidedAt :: time_text
  pr_changes :: changeGateRow

type_synonym promotion_table = "(PromotionID, promotionRow) fmap"

definition changeGateColumns :: "ChangeCountGate \<Rightarrow> changeGateRow" where
  "changeGateColumns g =
     (if \<not> ChangeCountGate_Evaluated g
      then \<lparr>ch_check = cg_State g, ch_maximum = None, ch_actual = None, ch_passed = None, ch_correlation = None, ch_policy = None\<rparr>
      else \<lparr>ch_check = cg_State g, ch_maximum = Some (uint64Text (cg_Maximum g)), ch_actual = Some (uint64Text (cg_Actual g)),
            ch_passed = Some (boolInt (cg_Passed g)), ch_correlation = Some (cg_CorrelationState g),
            ch_policy = Some (cg_CountingPolicyVersion g)\<rparr>)"

definition restoreChangeGate :: "changeGateRow \<Rightarrow> platform_error + ChangeCountGate \<times> OptionalGateLimit" where
  "restoreChangeGate r =
     (if \<not> GateCheckState_valid (ch_check r) then Inl ErrStoreCorrupt
      else if ch_check r \<noteq> GateCheckEvaluated
        then (if ch_maximum r \<noteq> None \<or> ch_actual r \<noteq> None \<or> ch_passed r \<noteq> None \<or> ch_correlation r \<noteq> None \<or> ch_policy r \<noteq> None
              then Inl ErrStoreCorrupt else Inr (emptyChangeGate (ch_check r), unsetLimit))
      else case (ch_maximum r, ch_actual r, ch_passed r, ch_correlation r, ch_policy r) of
        (Some m, Some a, Some p, Some c, Some v) \<Rightarrow>
          andThen (parseUint64Text m) (\<lambda>maximum.
          andThen (parseUint64Text a) (\<lambda>actual.
            if p < 0 \<or> 1 < p then Inl ErrStoreCorrupt
            else andThen (parseStoredBool p) (\<lambda>passed.
              Inr (\<lparr>cg_State = GateCheckEvaluated, cg_Actual = actual, cg_Maximum = maximum, cg_Passed = passed,
                    cg_CorrelationState = c, cg_CountingPolicyVersion = v\<rparr>, NewOptionalGateLimit maximum))))
      | _ \<Rightarrow> Inl ErrStoreCorrupt)"

definition stored_rank :: "int \<Rightarrow> platform_error + u16" where
  "stored_rank v = (if v < 0 \<or> uint maxEnvironmentRank < v then Inl ErrStoreCorrupt else Inr (word_of_int v))"

definition promotionColumns :: "Promotion \<Rightarrow> promotionRow" where
  "promotionColumns p =
     (let gate = pm_gateResult p in
      \<lparr>pr_projectID = pm_projectID p, pr_candidateID = pm_candidateID p, pr_referenceCandidateID = gr_referenceCandidate gate,
       pr_referenceRunID = pm_referenceRunID p, pr_candidateRunID = pm_candidateRunID p,
       pr_sourceRef = po_Ref (pm_source p), pr_sourceRank = uint (po_Rank (pm_source p)),
       pr_sourceRevision = uint64Text (po_Revision (pm_source p)),
       pr_targetRef = po_Ref (pm_target p), pr_targetRank = uint (po_Rank (pm_target p)),
       pr_targetRevision = uint64Text (po_Revision (pm_target p)),
       pr_maximums = map uint64Text [gl_MaxAddedBehaviors (pm_limits p), gl_MaxBlockDecisions (pm_limits p),
                                     gl_MaxCriticalRiskObservations (pm_limits p)],
       pr_refEvidence = (uint64Text (mig_Actual (gr_referenceEvidence gate)), uint64Text (mig_Minimum (gr_referenceEvidence gate)),
                         boolInt (mig_Passed (gr_referenceEvidence gate))),
       pr_candEvidence = (uint64Text (mig_Actual (gr_candidateEvidence gate)), uint64Text (mig_Minimum (gr_candidateEvidence gate)),
                          boolInt (mig_Passed (gr_candidateEvidence gate))),
       pr_added = (uint64Text (mag_Actual (gr_addedBehaviors gate)), boolInt (mag_Passed (gr_addedBehaviors gate))),
       pr_block = (uint64Text (mag_Actual (gr_blockDecisions gate)), boolInt (mag_Passed (gr_blockDecisions gate))),
       pr_critical = (uint64Text (mag_Actual (gr_criticalRiskObservations gate)), boolInt (mag_Passed (gr_criticalRiskObservations gate))),
       pr_verdict = gr_verdict gate, pr_outcome = pm_outcome p, pr_decidedAt = timeText (pm_decidedAt p),
       pr_changes = changeGateColumns (gr_addedBehaviorChanges gate)\<rparr>)"

text \<open>The counters and flags of a row, parsed in order.\<close>

definition promotion_counters :: "promotionRow \<Rightarrow> platform_error + u64 list" where
  "promotion_counters r = restore_all parseUint64Text
     ([pr_sourceRevision r, pr_targetRevision r] @ pr_maximums r @
      [fst (pr_refEvidence r), fst (snd (pr_refEvidence r)), fst (pr_candEvidence r), fst (snd (pr_candEvidence r)),
       fst (pr_added r), fst (pr_block r), fst (pr_critical r)])"

definition promotion_flags :: "promotionRow \<Rightarrow> platform_error + bool list" where
  "promotion_flags r = restore_all parseStoredBool
     [snd (snd (pr_refEvidence r)), snd (snd (pr_candEvidence r)), snd (pr_added r), snd (pr_block r), snd (pr_critical r)]"

definition restorePromotionRow :: "PromotionID \<Rightarrow> promotionRow \<Rightarrow> platform_error + Promotion" where
  "restorePromotionRow i r =
     restored (
       andThen (stored_rank (pr_sourceRank r)) (\<lambda>sourceRank.
       andThen (stored_rank (pr_targetRank r)) (\<lambda>targetRank.
       andThen (promotion_counters r) (\<lambda>counters.
       andThen (promotion_flags r) (\<lambda>flags.
       andThen (parseTimeText (pr_decidedAt r)) (\<lambda>decidedAt.
       andThen (restoreChangeGate (pr_changes r)) (\<lambda>(changes, changeLimit).
         case (counters, flags) of
           ([sourceRev, targetRev, maxAdded, maxBlock, maxCritical, refActual, refMinimum, candActual, candMinimum,
             addedActual, blockActual, criticalActual], [refPassed, candPassed, addedPassed, blockPassed, criticalPassed]) \<Rightarrow>
             andThen (restoreEvaluationGateResult (pr_referenceRunID r) (pr_referenceCandidateID r) (pr_candidateRunID r) (pr_candidateID r)
               (pr_sourceRef r)
               \<lparr>mig_Actual = refActual, mig_Minimum = refMinimum, mig_Passed = refPassed\<rparr>
               \<lparr>mig_Actual = candActual, mig_Minimum = candMinimum, mig_Passed = candPassed\<rparr>
               \<lparr>mag_Actual = addedActual, mag_Maximum = maxAdded, mag_Passed = addedPassed\<rparr>
               \<lparr>mag_Actual = blockActual, mag_Maximum = maxBlock, mag_Passed = blockPassed\<rparr>
               \<lparr>mag_Actual = criticalActual, mag_Maximum = maxCritical, mag_Passed = criticalPassed\<rparr>
               changes (pr_verdict r)) (\<lambda>gate.
               restorePromotion i (pr_projectID r) (pr_candidateID r)
                 \<lparr>po_Ref = pr_sourceRef r, po_Rank = sourceRank, po_Revision = sourceRev\<rparr>
                 \<lparr>po_Ref = pr_targetRef r, po_Rank = targetRank, po_Revision = targetRev\<rparr>
                 \<lparr>gl_MaxAddedBehaviors = maxAdded, gl_MaxBlockDecisions = maxBlock, gl_MaxCriticalRiskObservations = maxCritical,
                  gl_MaxAddedBehaviorChanges = changeLimit\<rparr>
                 gate (pr_outcome r) decidedAt)
         | _ \<Rightarrow> Inl ErrStoreCorrupt)))))))"

definition loadPromotion :: "promotion_table \<Rightarrow> PromotionID \<Rightarrow> platform_error + Promotion" where
  "loadPromotion tab i = (case fmlookup tab i of None \<Rightarrow> Inl ErrStoreNotFound | Some r \<Rightarrow> restorePromotionRow i r)"

definition ProjectPromotions :: "control_db \<Rightarrow> promotion_table \<Rightarrow> ProjectID \<Rightarrow> PromotionID \<Rightarrow> int \<Rightarrow> platform_error + Promotion list" where
  "ProjectPromotions ctl tab projectID after limit =
     refused (orElse (validateID projectID) (orElse (validatePromotionPage after limit) (requireExists (ct_projects ctl) projectID)))
       (restore_all (loadPromotion tab)
         (page_keys (ffilter (\<lambda>i. (case fmlookup tab i of None \<Rightarrow> False | Some r \<Rightarrow> pr_projectID r = projectID)) (fmdom tab)) after limit))"

subsection \<open>The recording transaction\<close>

definition promotionEnvironmentOrder :: "Promotion \<Rightarrow> EnvironmentRef list" where
  "promotionEnvironmentOrder p =
     (if po_Ref (pm_target p) < po_Ref (pm_source p) then [po_Ref (pm_target p), po_Ref (pm_source p)]
      else [po_Ref (pm_source p), po_Ref (pm_target p)])"

definition lockEnvironment :: "control_db \<Rightarrow> ProjectID \<Rightarrow> EnvironmentRef \<Rightarrow> platform_error option" where
  "lockEnvironment db projectID ref = (if fmlookup (ct_environments db) (projectID, ref) = None then Some ErrStoreNotFound else None)"

text \<open>The foreign keys of the row: its project and both its candidates. The statement reports a key that is already used
  before a parent that is missing.\<close>

definition promotion_parents :: "control_db \<Rightarrow> Promotion \<Rightarrow> platform_error option" where
  "promotion_parents db p =
     orElse (requireExists (ct_projects db) (pm_projectID p))
     (orElse (requireExists (ct_candidates db) (pm_candidateID p))
       (requireExists (ct_candidates db) (gr_referenceCandidate (pm_gateResult p))))"

definition insertPromotionLocked :: "control_db \<Rightarrow> promotion_table \<Rightarrow> Promotion \<Rightarrow> promotion_table \<times> platform_error option" where
  "insertPromotionLocked db tab p =
     (case andThen (loadEnvironment db (pm_projectID p) (po_Ref (pm_source p))) (\<lambda>source.
           andThen (loadEnvironment db (pm_projectID p) (po_Ref (pm_target p))) (\<lambda>target. Inr (source, target))) of
        Inl e \<Rightarrow> (tab, Some e)
      | Inr (source, target) \<Rightarrow>
          if env_revision source \<noteq> po_Revision (pm_source p) then (tab, Some ErrStoreConflict)
          else if env_revision target \<noteq> po_Revision (pm_target p) then (tab, Some ErrStoreConflict)
          else if \<not> CanPromote source target then (tab, Some ErrStoreConflict)
          else if fmlookup tab (pm_id p) \<noteq> None then (tab, Some ErrStoreAlreadyExists)
          else if promotion_parents db p \<noteq> None then (tab, promotion_parents db p)
          else (fmupd (pm_id p) (promotionColumns p) tab, None))"

definition CreatePromotion :: "control_db \<Rightarrow> promotion_table \<Rightarrow> Promotion \<Rightarrow> promotion_table \<times> platform_error option" where
  "CreatePromotion db tab p =
     (if pm_id p = '''' \<or> pm_projectID p = '''' then (tab, Some ErrInvalidID)
      else case first_error (map (lockEnvironment db (pm_projectID p)) (promotionEnvironmentOrder p)) of
        Some e \<Rightarrow> (tab, Some e)
      | None \<Rightarrow> insertPromotionLocked db tab p)"

subsection \<open>The workflow\<close>

record PromotionRequest =
  pq_ID :: PromotionID
  pq_ReferenceRunID :: EvaluationRunID
  pq_CandidateRunID :: EvaluationRunID
  pq_TargetEnvironment :: EnvironmentRef
  pq_GateLimits :: EvaluationGateLimits

definition promotionEnvironments ::
  "control_db \<Rightarrow> EvaluationRun \<Rightarrow> EvaluationRun \<Rightarrow> EnvironmentRef \<Rightarrow> platform_error + Environment \<times> Environment" where
  "promotionEnvironments db reference candidate targetRef =
     refused (requireSameProject db reference candidate)
     (andThen (agentOf db reference) (\<lambda>referenceAgent.
      andThen (agentOf db candidate) (\<lambda>candidateAgent.
        if referenceAgent \<noteq> candidateAgent then Inl ErrPromotionScope
        else if run_environment reference \<noteq> run_environment candidate then Inl ErrPromotionScope
        else andThen (projectOf db candidate) (\<lambda>projectID.
             andThen (loadEnvironment db projectID (run_environment candidate)) (\<lambda>source.
             andThen (loadEnvironment db projectID targetRef) (\<lambda>target.
               if \<not> CanPromote source target then Inl ErrPromotionOrder else Inr (source, target)))))))"

text \<open>Everything before the recording transaction: the decision the request leads to.\<close>

definition promote_decide ::
  "sha256 \<Rightarrow> map_orders \<Rightarrow> Pricing \<Rightarrow> platform_db \<Rightarrow> PromotionRequest \<Rightarrow> gotime \<Rightarrow> platform_error + Promotion" where
  "promote_decide sha ord pricing db request now =
     refused (first_error (map validateID [pq_ID request, pq_ReferenceRunID request, pq_CandidateRunID request, pq_TargetEnvironment request]))
     (if pq_ReferenceRunID request = pq_CandidateRunID request then Inl ErrInvalidID
      else andThen (completedRun (pf_store db) (pq_CandidateRunID request)) (\<lambda>candidateRun.
           andThen (completedRun (pf_store db) (pq_ReferenceRunID request)) (\<lambda>referenceRun.
           andThen (promotionEnvironments (pf_control db) referenceRun candidateRun (pq_TargetEnvironment request)) (\<lambda>(source, target).
           andThen (CompareEvaluations sha ord pricing db (pq_ReferenceRunID request) (pq_CandidateRunID request) (pq_GateLimits request))
             (\<lambda>comparison.
             NewPromotion \<lparr>pd_ID = pq_ID request, pd_Source = source, pd_Target = target, pd_GateResult = cp_Gate comparison,
                           pd_DecidedAt = now\<rparr>)))))"

definition Promote ::
  "sha256 \<Rightarrow> map_orders \<Rightarrow> Pricing \<Rightarrow> platform_db \<Rightarrow> promotion_table \<Rightarrow> PromotionRequest \<Rightarrow> gotime \<Rightarrow>
   promotion_table \<times> (platform_error + Promotion)" where
  "Promote sha ord pricing db tab request now =
     (case promote_decide sha ord pricing db request now of
        Inl e \<Rightarrow> (tab, Inl e)
      | Inr promotion \<Rightarrow>
          (case CreatePromotion (pf_control db) tab promotion of
             (tab', Some e) \<Rightarrow> (tab', Inl e)
           | (tab', None) \<Rightarrow> (tab', Inr promotion)))"

end
