(* ===== verification/Platform_Promotion_Proofs.thy ===== *)
theory Platform_Promotion_Proofs
  imports Platform_Promotion
begin

text \<open>
  What a recorded promotion is worth: its outcome is the verdict of the comparison, it reads back exactly as it was decided,
  and it is recorded only while both environments are the ones it was decided on.
\<close>

subsection \<open>Reading back\<close>

lemma runes_nonempty: "bs \<noteq> [] \<Longrightarrow> runes bs \<noteq> []"
  by (subst runes.simps) (simp split: option.split prod.split)

lemma count_gate_eta:
  "\<lparr>mig_Actual = mig_Actual x, mig_Minimum = mig_Minimum x, mig_Passed = mig_Passed x\<rparr> = x"
  "\<lparr>mag_Actual = mag_Actual y, mag_Maximum = mag_Maximum y, mag_Passed = mag_Passed y\<rparr> = y"
  by simp_all

lemma id_is_name: "validateID v = None \<Longrightarrow> validateName v = None"
proof -
  assume v: "validateID v = None"
  then have "TrimSpace v = runes (bytes v)" "v \<noteq> ''''" "validateText ErrInvalidID v = None"
    by (auto simp: validateID_def split: if_splits option.splits)
  moreover have "validateText ErrInvalidName v = None" using calculation(3) by (auto simp: validateText_def split: if_splits)
  ultimately show ?thesis using runes_nonempty [of "bytes v"] by (simp add: validateName_def bytes_def)
qed

lemma change_gate_restores:
  assumes "validateStoredChangeGate g = None"
  shows "restoreChangeGate (changeGateColumns g) = Inr (g, changeLimitOf g)"
proof (cases "ChangeCountGate_Evaluated g")
  case True
  then show ?thesis
    by (cases g) (auto simp: restoreChangeGate_def changeGateColumns_def changeLimitOf_def ChangeCountGate_Evaluated_def GateCheckState_valid_def
        andThen_def parseStoredBool_def boolInt_def)
next
  case False
  then have "GateCheckState_valid (cg_State g)" "g = emptyChangeGate (cg_State g)"
    using assms by (auto simp: validateStoredChangeGate_def split: if_splits)
  then show ?thesis using False
    by (simp add: restoreChangeGate_def changeGateColumns_def changeLimitOf_def ChangeCountGate_Evaluated_def)
qed

lemma rank_restores: "r \<le> maxEnvironmentRank \<Longrightarrow> stored_rank (uint r) = Inr r"
  by (simp add: stored_rank_def word_le_def)

lemma position_restores:
  assumes "env_ok e" and "env_ranked e"
  shows "restoreEnvironment (env_ref e) (env_projectID e) (env_ref e) (env_rank e) True EnvironmentActive (env_revision e) =
    Some (e\<lparr>env_name := env_ref e, env_status := EnvironmentActive\<rparr>)"
  using assms id_is_name [of "env_ref e"]
  by (simp add: restoreEnvironment_def NewEnvironment_def env_ok_def orElse_def EnvironmentStatus_valid_def not_less)

lemma counters_restore:
  "promotion_counters (promotionColumns p) = Inr [po_Revision (pm_source p), po_Revision (pm_target p), gl_MaxAddedBehaviors (pm_limits p),
     gl_MaxBlockDecisions (pm_limits p), gl_MaxCriticalRiskObservations (pm_limits p),
     mig_Actual (gr_referenceEvidence (pm_gateResult p)), mig_Minimum (gr_referenceEvidence (pm_gateResult p)),
     mig_Actual (gr_candidateEvidence (pm_gateResult p)), mig_Minimum (gr_candidateEvidence (pm_gateResult p)),
     mag_Actual (gr_addedBehaviors (pm_gateResult p)), mag_Actual (gr_blockDecisions (pm_gateResult p)),
     mag_Actual (gr_criticalRiskObservations (pm_gateResult p))]"
  by (simp add: promotion_counters_def promotionColumns_def Let_def andThen_def)

lemma flags_restore:
  "promotion_flags (promotionColumns p) = Inr [mig_Passed (gr_referenceEvidence (pm_gateResult p)),
     mig_Passed (gr_candidateEvidence (pm_gateResult p)), mag_Passed (gr_addedBehaviors (pm_gateResult p)),
     mag_Passed (gr_blockDecisions (pm_gateResult p)), mag_Passed (gr_criticalRiskObservations (pm_gateResult p))]"
proof -
  have "parseStoredBool (boolInt b) = Inr b" for b by (simp add: parseStoredBool_def boolInt_def)
  then show ?thesis by (simp add: promotion_flags_def promotionColumns_def Let_def andThen_def)
qed

lemma new_promotion:
  assumes "NewPromotion d = Inr p"
  shows "validateID (pd_ID d) = None \<and> \<not> Time_IsZero (pd_DecidedAt d) \<and> gr_bound (pd_GateResult d) \<and> CanPromote (pd_Source d) (pd_Target d) \<and>
    EvaluationGateResult.gr_environment (pd_GateResult d) = env_ref (pd_Source d) \<and> outcomeFor (gr_verdict (pd_GateResult d)) = Inr (pm_outcome p) \<and>
    p = \<lparr>pm_id = pd_ID d, pm_projectID = env_projectID (pd_Source d), pm_candidateID = gr_candidateCandidate (pd_GateResult d),
         pm_referenceRunID = gr_referenceRunID (pd_GateResult d), pm_candidateRunID = gr_candidateRunID (pd_GateResult d),
         pm_source = position_of (pd_Source d), pm_target = position_of (pd_Target d),
         pm_limits = gate_limits_of (pd_GateResult d), pm_gateResult = pd_GateResult d, pm_outcome = pm_outcome p, pm_decidedAt = pd_DecidedAt d\<rparr>"
  using assms by (auto simp: NewPromotion_def Let_def refused_def andThen_def split: option.splits if_splits sum.splits)

lemma promotion_row_restores:
  assumes "NewPromotion d = Inr p" and "env_ok (pd_Source d)" and "env_ok (pd_Target d)"
    and "restore_of (pd_GateResult d) = Inr (pd_GateResult d)" and "validateID (gr_candidateCandidate (pd_GateResult d)) = None"
    and "time_storable (pd_DecidedAt d)"
  shows "restorePromotionRow (pm_id p) (promotionColumns p) = Inr p"
proof -
  let ?g = "pd_GateResult d" and ?s = "pd_Source d" and ?t = "pd_Target d"
  note n = new_promotion [OF assms(1)]
  have pf: "pm_id p = pd_ID d" "pm_projectID p = env_projectID ?s" "pm_candidateID p = gr_candidateCandidate ?g" "pm_source p = position_of ?s"
    "pm_target p = position_of ?t" "pm_limits p = gate_limits_of ?g" "pm_gateResult p = ?g" "pm_decidedAt p = pd_DecidedAt d"
    "pm_referenceRunID p = gr_referenceRunID ?g" "pm_candidateRunID p = gr_candidateRunID ?g"
    using n by (metis Promotion.select_convs)+
  have c: "env_ranked ?s" "env_ranked ?t" "env_rank ?s < env_rank ?t" "env_projectID ?t = env_projectID ?s"
    using n by (auto simp: CanPromote_def split: if_splits)
  have "validateStoredChangeGate (gr_addedBehaviorChanges ?g) = None"
    using assms(4) by (auto simp: restore_of_def restoreEvaluationGateResult_def split: if_splits option.splits)
  note ch = change_gate_restores [OF this]
  have r: "env_rank ?s \<le> maxEnvironmentRank" "env_rank ?t \<le> maxEnvironmentRank" using assms(2,3) c by (auto simp: env_ok_def)
  have ids: "validateID (env_ref ?s) = None" "validateID (env_ref ?t) = None" "validateID (env_projectID ?s) = None" using assms(2,3) by (auto simp: env_ok_def)
  have out: "PromotionOutcome_valid (pm_outcome p)" using n by (auto simp: outcomeFor_def PromotionOutcome_valid_def split: if_splits)
  have gate: "restoreEvaluationGateResult (gr_referenceRunID ?g) (gr_referenceCandidate ?g) (gr_candidateRunID ?g) (gr_candidateCandidate ?g)
      (env_ref ?s) (gr_referenceEvidence ?g) (gr_candidateEvidence ?g) (gr_addedBehaviors ?g) (gr_blockDecisions ?g) (gr_criticalRiskObservations ?g)
      (gr_addedBehaviorChanges ?g) (gr_verdict ?g) = Inr ?g"
    using assms(4) n by (simp add: restore_of_def)
  have env: "restoreEnvironment (env_ref ?s) (env_projectID ?s) (env_ref ?s) (env_rank ?s) True EnvironmentActive (env_revision ?s) =
      Some (?s\<lparr>env_name := env_ref ?s, env_status := EnvironmentActive\<rparr>)"
    "restoreEnvironment (env_ref ?t) (env_projectID ?s) (env_ref ?t) (env_rank ?t) True EnvironmentActive (env_revision ?t) =
      Some (?t\<lparr>env_name := env_ref ?t, env_status := EnvironmentActive\<rparr>)"
    using position_restores [OF assms(2) c(1)] position_restores [OF assms(3) c(2)] c(4) by simp_all
  have can: "CanPromote (?s\<lparr>env_name := env_ref ?s, env_status := EnvironmentActive\<rparr>) (?t\<lparr>env_name := env_ref ?t, env_status := EnvironmentActive\<rparr>)"
    using c by (simp add: CanPromote_def)
  have "restorePromotion (pm_id p) (pm_projectID p) (pm_candidateID p) (pm_source p) (pm_target p) (pm_limits p) ?g (pm_outcome p) (pm_decidedAt p) = Inr p"
    using n ids out env can assms(5) by (simp add: restorePromotion_def pf position_of_def)
  then show ?thesis
    unfolding restorePromotionRow_def counters_restore flags_restore
    using ch r gate assms(6) [folded parse_time_text]
    by (simp add: promotionColumns_def Let_def pf position_of_def rank_restores andThen_def restored_def gate_limits_of_def count_gate_eta)
qed

lemma evidence_identity:
  assumes "loadRun (db_runs db) i = Inr run" and "comparisonEvidence db run = Inr (a, s)"
  shows "ag_runID a = i \<and> ag_candidateID a = run_candidateID run \<and> ag_environment a = run_environment run"
    and "validateID (run_candidateID run) = None"
proof -
  note r = loaded_run [OF assms(1)]
  show "validateID (run_candidateID run) = None" using r(3) by (simp add: validateRunBinding_def orElse_None_iff)
  show "ag_runID a = i \<and> ag_candidateID a = run_candidateID run \<and> ag_environment a = run_environment run"
  proof (cases "loadEvidence db i")
    case (Inl e)
    then show ?thesis using assms r(2)
      by (auto simp: comparisonEvidence_def NewEvaluationAggregate_def andThen_def split: if_splits sum.splits option.splits)
  next
    case (Inr as)
    then have "loadEvidence db i = Inr (a, s)" using assms r(2) by (simp add: comparisonEvidence_def)
    then have "validateRestoredEvidenceAgainstRun run a s = None"
      using assms(1) by (auto simp: loadEvidence_def andThen_def split: option.splits sum.splits if_splits)
    then show ?thesis using r(2) by (auto simp: validateRestoredEvidenceAgainstRun_def split: if_splits)
  qed
qed

lemma compared_gate:
  assumes "CompareEvaluations key ord pricing db r k limits = Inr cmp"
  shows "restore_of (cp_Gate cmp) = Inr (cp_Gate cmp)" and "validateID (gr_candidateCandidate (cp_Gate cmp)) = None"
    and "gr_verdict (cp_Gate cmp) = GateVerdictPass \<or> gr_verdict (cp_Gate cmp) = GateVerdictFail"
    and "gr_bound (cp_Gate cmp) \<and> gr_referenceRunID (cp_Gate cmp) = r \<and> gr_candidateRunID (cp_Gate cmp) = k \<and>
      (\<exists>run. completedRun (pf_store db) r = Inr run \<and> EvaluationGateResult.gr_environment (cp_Gate cmp) = run_environment run)"
    and "\<exists>run run'. completedRun (pf_store db) r = Inr run \<and> completedRun (pf_store db) k = Inr run' \<and>
      gr_referenceCandidate (cp_Gate cmp) = run_candidateID run \<and> gr_candidateCandidate (cp_Gate cmp) = run_candidateID run'"
proof -
  obtain reference candidate a sa b sb diff sk where
    c: "completedRun (pf_store db) r = Inr reference" "comparisonEvidence (pf_store db) reference = Inr (a, sa)"
    "completedRun (pf_store db) k = Inr candidate" "comparisonEvidence (pf_store db) candidate = Inr (b, sb)"
    and sk: "NewEvaluationScorecard a b diff = Inr sk" and g: "EvaluateEvaluationGate sk (NewEvaluationGatePolicy limits) = Inr (cp_Gate cmp)"
    using assms by (auto simp: CompareEvaluations_def refused_def Let_def andThen_def split: sum.splits option.splits)
  show "restore_of (cp_Gate cmp) = Inr (cp_Gate cmp)" by (rule gate_storage_roundtrip [OF g])
  have "loadRun (db_runs (pf_store db)) r = Inr reference" "loadRun (db_runs (pf_store db)) k = Inr candidate"
    using c(1,3) by (auto simp: completedRun_def andThen_def split: sum.splits if_splits)
  note e = evidence_identity [OF this(1) c(2)] evidence_identity [OF this(2) c(4)]
  have f: "gr_bound (cp_Gate cmp)" "gr_candidateCandidate (cp_Gate cmp) = ag_candidateID b" "gr_referenceRunID (cp_Gate cmp) = ag_runID a"
    "gr_referenceCandidate (cp_Gate cmp) = ag_candidateID a"
    "gr_candidateRunID (cp_Gate cmp) = ag_runID b" "EvaluationGateResult.gr_environment (cp_Gate cmp) = ag_environment a"
    using g sk unfolding gate_Inr scorecard_Inr by (simp_all add: gateResult_def scorecard_of_def Let_def)
  show "validateID (gr_candidateCandidate (cp_Gate cmp)) = None" using e f by simp
  show "gr_verdict (cp_Gate cmp) = GateVerdictPass \<or> gr_verdict (cp_Gate cmp) = GateVerdictFail"
    using g verdict_values [of sk] unfolding gate_Inr by auto
  show "gr_bound (cp_Gate cmp) \<and> gr_referenceRunID (cp_Gate cmp) = r \<and> gr_candidateRunID (cp_Gate cmp) = k \<and>
      (\<exists>run. completedRun (pf_store db) r = Inr run \<and> EvaluationGateResult.gr_environment (cp_Gate cmp) = run_environment run)"
    using e f c(1) by simp
  show "\<exists>run run'. completedRun (pf_store db) r = Inr run \<and> completedRun (pf_store db) k = Inr run' \<and>
      gr_referenceCandidate (cp_Gate cmp) = run_candidateID run \<and> gr_candidateCandidate (cp_Gate cmp) = run_candidateID run'"
    using e f c(1,3) by simp
qed

lemma decision_made:
  assumes "CompareEvaluations key ord pricing db (pq_ReferenceRunID q) (pq_CandidateRunID q) (pq_GateLimits q) = Inr cmp"
    and "completedRun (pf_store db) (pq_ReferenceRunID q) = Inr reference" and "completedRun (pf_store db) (pq_CandidateRunID q) = Inr candidate"
    and "promotionEnvironments (pf_control db) reference candidate (pq_TargetEnvironment q) = Inr (source, target)"
    and "first_error (map validateID [pq_ID q, pq_ReferenceRunID q, pq_CandidateRunID q, pq_TargetEnvironment q]) = None"
    and "pq_ReferenceRunID q \<noteq> pq_CandidateRunID q" and "\<not> Time_IsZero now"
  shows "\<exists>p. promote_decide key ord pricing db q now = Inr p \<and>
    NewPromotion \<lparr>pd_ID = pq_ID q, pd_Source = source, pd_Target = target, pd_GateResult = cp_Gate cmp, pd_DecidedAt = now\<rparr> = Inr p"
proof -
  note g = compared_gate [OF assms(1)]
  obtain p where "loadEnvironment (pf_control db) p (run_environment candidate) = Inr source" and c: "CanPromote source target"
    and e: "run_environment reference = run_environment candidate"
    using assms(4) by (auto simp: promotionEnvironments_def refused_def andThen_def split: option.splits if_splits sum.splits)
  then have "env_ref source = run_environment reference" using loaded_environment by fastforce
  then have "EvaluationGateResult.gr_environment (cp_Gate cmp) = env_ref source" using g(4) assms(2) by auto
  moreover obtain out where "outcomeFor (gr_verdict (cp_Gate cmp)) = Inr out" using g(3) by (auto simp: outcomeFor_def)
  moreover have "validateID (pq_ID q) = None" using assms(5) by (simp split: option.splits)
  ultimately have "\<exists>p. NewPromotion \<lparr>pd_ID = pq_ID q, pd_Source = source, pd_Target = target, pd_GateResult = cp_Gate cmp, pd_DecidedAt = now\<rparr> = Inr p"
    using g(4) c assms(6,7) by (simp add: NewPromotion_def Let_def refused_def andThen_def)
  then show ?thesis using assms(1-6) unfolding promote_decide_def refused_def by (simp add: andThen_def)
qed

lemma decided:
  assumes "promote_decide key ord pricing db request now = Inr p"
  obtains source target cmp where "env_ok source" and "env_ok target"
    and "CompareEvaluations key ord pricing db (pq_ReferenceRunID request) (pq_CandidateRunID request) (pq_GateLimits request) = Inr cmp"
    and "NewPromotion \<lparr>pd_ID = pq_ID request, pd_Source = source, pd_Target = target, pd_GateResult = cp_Gate cmp, pd_DecidedAt = now\<rparr> = Inr p"
    and "loadEnvironment (pf_control db) (env_projectID source) (env_ref source) = Inr source"
    and "loadEnvironment (pf_control db) (env_projectID target) (env_ref target) = Inr target"
proof -
  obtain reference candidate source target cmp where d:
    "promotionEnvironments (pf_control db) reference candidate (pq_TargetEnvironment request) = Inr (source, target)"
    "CompareEvaluations key ord pricing db (pq_ReferenceRunID request) (pq_CandidateRunID request) (pq_GateLimits request) = Inr cmp"
    "NewPromotion \<lparr>pd_ID = pq_ID request, pd_Source = source, pd_Target = target, pd_GateResult = cp_Gate cmp, pd_DecidedAt = now\<rparr> = Inr p"
    using assms by (auto simp: promote_decide_def refused_def andThen_def split: option.splits if_splits sum.splits)
  then obtain q where l: "loadEnvironment (pf_control db) q (run_environment candidate) = Inr source"
    "loadEnvironment (pf_control db) q (pq_TargetEnvironment request) = Inr target"
    by (auto simp: promotionEnvironments_def refused_def andThen_def split: option.splits if_splits sum.splits)
  show ?thesis using that [OF _ _ d(2,3)] loaded_environment [OF l(1)] loaded_environment [OF l(2)] l by auto
qed

lemma created:
  assumes "CreatePromotion db tab p = (tab', None)"
  shows "tab' = fmupd (pm_id p) (promotionColumns p) tab \<and> fmlookup tab (pm_id p) = None"
  using assms by (auto simp: CreatePromotion_def insertPromotionLocked_def split: if_splits option.splits sum.splits prod.splits)

text \<open>C9. A promotion is recorded under an identifier that was not in use, leaves every other record as it was, and, when the
  time of the decision reads back from its text (a year up to 9999, an offset of whole minutes), reads
  back exactly as it was decided; it is accepted exactly when the comparison of its two runs passed, and rejected when it failed.\<close>

theorem promotion_reads_back:
  assumes "Promote key ord pricing db tab request now = (tab', Inr p)" and "time_storable now"
  shows "loadPromotion tab' (pq_ID request) = Inr p \<and> fmlookup tab (pq_ID request) = None \<and>
    (\<forall>i. i \<noteq> pq_ID request \<longrightarrow> loadPromotion tab' i = loadPromotion tab i) \<and>
    (\<exists>cmp. CompareEvaluations key ord pricing db (pq_ReferenceRunID request) (pq_CandidateRunID request) (pq_GateLimits request) = Inr cmp \<and>
       pm_referenceRunID p = pq_ReferenceRunID request \<and> pm_candidateRunID p = pq_CandidateRunID request \<and>
       pm_gateResult p = cp_Gate cmp \<and> pm_outcome p = (if gr_verdict (cp_Gate cmp) = GateVerdictPass then PromotionAccepted else PromotionRejected))"
proof -
  have d: "promote_decide key ord pricing db request now = Inr p" and c: "CreatePromotion (pf_control db) tab p = (tab', None)"
    using assms(1) by (auto simp: Promote_def split: sum.splits prod.splits option.splits)
  from d obtain source target cmp where x: "env_ok source" "env_ok target"
    "CompareEvaluations key ord pricing db (pq_ReferenceRunID request) (pq_CandidateRunID request) (pq_GateLimits request) = Inr cmp"
    "NewPromotion \<lparr>pd_ID = pq_ID request, pd_Source = source, pd_Target = target, pd_GateResult = cp_Gate cmp, pd_DecidedAt = now\<rparr> = Inr p"
    by (rule decided)
  note n = new_promotion [OF x(4), simplified]
  have f: "pm_id p = pq_ID request" "pm_gateResult p = cp_Gate cmp" "pm_referenceRunID p = gr_referenceRunID (cp_Gate cmp)"
    "pm_candidateRunID p = gr_candidateRunID (cp_Gate cmp)"
    using n by (metis Promotion.select_convs(1), metis Promotion.select_convs(9), metis Promotion.select_convs(4), metis Promotion.select_convs(5))
  have "restorePromotionRow (pm_id p) (promotionColumns p) = Inr p"
    by (rule promotion_row_restores [OF x(4)]) (use x(1,2) compared_gate [OF x(3)] assms(2) in simp_all)
  moreover have "pm_outcome p = (if gr_verdict (cp_Gate cmp) = GateVerdictPass then PromotionAccepted else PromotionRejected)"
    using n compared_gate(3) [OF x(3)] by (auto simp: outcomeFor_def split: if_splits)
  ultimately show ?thesis using created [OF c] x(3) f compared_gate(4) [OF x(3)] by (auto simp: loadPromotion_def)
qed

subsection \<open>Recorded only on current environments\<close>

lemma ctl_step_grows: "ctl_step s s' \<Longrightarrow> ctl_inv s \<Longrightarrow> ctl_grows (cy_db s) (cy_db s')"
proof (induction rule: ctl_step.cases)
  case (environment r p n env k s db' e)
  then show ?case by (auto simp: ctl_grows_def CreateEnvironment_def insertEnvironmentLocked_def Let_def split: if_splits)
next
  case (commit c n s db' e)
  then show ?case using update_grows [of "cy_db s" c n db' e] by (simp add: ctl_inv_def)
qed (auto simp: ctl_grows_def CreateProject_def CreateAgent_def CreateCandidate_def split: if_splits)

lemma ctl_grows_steps: "ctl_step\<^sup>*\<^sup>* s s' \<Longrightarrow> ctl_reach s \<Longrightarrow> ctl_reach s' \<and> ctl_grows (cy_db s) (cy_db s')"
proof (induction rule: rtranclp_induct)
  case (step t t')
  then have g: "ctl_reach t'" "ctl_grows (cy_db s) (cy_db t)" "ctl_grows (cy_db t) (cy_db t')"
    using ctl_step_grows [OF step.hyps(2) ctl_reach_inv] ctl_reach.step by blast+
  have "ctl_grows (cy_db s) (cy_db t')" unfolding ctl_grows_def
  proof (intro allI impI)
    fix k row
    assume "fmlookup (ct_environments (cy_db s)) k = Some row"
    then obtain row1 where "fmlookup (ct_environments (cy_db t)) k = Some row1" "row1 = row \<or> unat (er_revision row) < unat (er_revision row1)"
      using g(2) unfolding ctl_grows_def by blast
    moreover from this obtain row2 where "fmlookup (ct_environments (cy_db t')) k = Some row2" "row2 = row1 \<or> unat (er_revision row1) < unat (er_revision row2)"
      using g(3) unfolding ctl_grows_def by blast
    ultimately show "\<exists>row'. fmlookup (ct_environments (cy_db t')) k = Some row' \<and> (row' = row \<or> unat (er_revision row) < unat (er_revision row'))"
      by (auto intro: less_trans)
  qed
  then show ?case using g(1) by blast
qed (simp add: ctl_grows_def)

text \<open>An environment that is still at the revision at which it was read is still the environment that was read.\<close>

lemma same_revision:
  assumes "ctl_reach s" and "ctl_step\<^sup>*\<^sup>* s s'" and "loadEnvironment (cy_db s) p r = Inr e" and "loadEnvironment (cy_db s') p r = Inr e'"
    and "env_revision e' = env_revision e"
  shows "e' = e"
proof -
  note l = loaded_environment [OF assms(3)] and l' = loaded_environment [OF assms(4)]
  obtain row where w: "fmlookup (ct_environments (cy_db s')) (p, r) = Some row" "row = environmentRow e \<or> unat (er_revision (environmentRow e)) < unat (er_revision row)"
    using ctl_grows_steps [OF assms(2,1)] l unfolding ctl_grows_def by blast
  have row: "row = environmentRow e'" using w(1) l' by simp
  then have "er_revision row = er_revision (environmentRow e)" using assms(5) by (simp add: environmentRow_def)
  then have "environmentRow e' = environmentRow e" using w(2) row by auto
  moreover have "restoreEnvironmentRow p r (environmentRow e) = Inr e" using restore_row [of e] l by simp
  moreover have "restoreEnvironmentRow p r (environmentRow e') = Inr e'" using restore_row [of e'] l' by simp
  ultimately show ?thesis by simp
qed

lemma kept_environment:
  assumes "ctl_reach s" and "ctl_step\<^sup>*\<^sup>* s s'" and "loadEnvironment (cy_db s) p r = Inr e"
  shows "fmlookup (ct_environments (cy_db s')) (p, r) \<noteq> None"
  using ctl_grows_steps [OF assms(2,1)] loaded_environment [OF assms(3)] unfolding ctl_grows_def by blast

text \<open>C8. However the configuration changes between the two reads of the environments and the recording transaction,
  a decision is recorded exactly when both environments are, at the moment of recording, still exactly the ones it was decided on,
  its identifier is unused and both candidates its gate result names are registered; otherwise nothing is recorded.\<close>

theorem promotion_on_current_environments:
  assumes "ctl_reach s0" and "ctl_step\<^sup>*\<^sup>* s0 s1" and "ctl_step\<^sup>*\<^sup>* s1 s2"
    and "loadEnvironment (cy_db s0) (env_projectID source) (env_ref source) = Inr source"
    and "loadEnvironment (cy_db s1) (env_projectID target) (env_ref target) = Inr target"
    and "NewPromotion \<lparr>pd_ID = i, pd_Source = source, pd_Target = target, pd_GateResult = g, pd_DecidedAt = now\<rparr> = Inr p"
    and "CreatePromotion (cy_db s2) tab p = (tab', err)"
  shows "(err = None \<longleftrightarrow> loadEnvironment (cy_db s2) (env_projectID source) (env_ref source) = Inr source \<and>
      loadEnvironment (cy_db s2) (env_projectID target) (env_ref target) = Inr target \<and> fmlookup tab i = None \<and>
      fmlookup (ct_candidates (cy_db s2)) (gr_candidateCandidate g) \<noteq> None \<and>
      fmlookup (ct_candidates (cy_db s2)) (gr_referenceCandidate g) \<noteq> None) \<and>
    (err \<noteq> None \<longrightarrow> tab' = tab)"
proof -
  let ?db = "cy_db s2"
  note n = new_promotion [OF assms(6), simplified]
  have f: "pm_id p = i" "pm_projectID p = env_projectID source" "pm_source p = position_of source" "pm_target p = position_of target"
    "pm_candidateID p = gr_candidateCandidate g" "pm_gateResult p = g"
    using n by (metis Promotion.select_convs(1), metis Promotion.select_convs(2), metis Promotion.select_convs(6), metis Promotion.select_convs(7),
        metis Promotion.select_convs(3), metis Promotion.select_convs(9))
  have r1: "ctl_reach s1" and r02: "ctl_step\<^sup>*\<^sup>* s0 s2" using ctl_grows_steps [OF assms(2,1)] assms(2,3) by auto
  have can: "CanPromote source target" "env_projectID target = env_projectID source" using n by (auto simp: CanPromote_def split: if_splits)
  have ne: "i \<noteq> ''''" "env_projectID source \<noteq> ''''"
    using n loaded_environment [OF assms(4)] by (auto simp: validateID_def env_ok_def)
  have fe: "first_error (map (lockEnvironment ?db (env_projectID source)) (promotionEnvironmentOrder p)) = None"
    using kept_environment [OF assms(1) r02 assms(4)] kept_environment [OF r1 assms(3,5)] can(2)
    by (simp add: promotionEnvironmentOrder_def lockEnvironment_def f position_of_def)
  have c: "(tab', err) = insertPromotionLocked ?db tab p" using assms(7) ne unfolding CreatePromotion_def f fe by simp
  have same: "e = source" if "loadEnvironment ?db (env_projectID source) (env_ref source) = Inr e" "env_revision e = env_revision source" for e
    using same_revision [OF assms(1) r02 assms(4) that] .
  have same': "e = target" if "loadEnvironment ?db (env_projectID source) (env_ref target) = Inr e" "env_revision e = env_revision target" for e
    using same_revision [OF r1 assms(3,5)] that can(2) by simp
  have "fmlookup (ct_projects ?db) (env_projectID source) \<noteq> None"
    using ctl_grows_steps [OF r02 assms(1)] ctl_reach_inv [of s2] kept_environment [OF assms(1) r02 assms(4)]
    unfolding ctl_inv_def env_rows_ok_def by blast
  then have parents: "promotion_parents ?db p = None \<longleftrightarrow> fmlookup (ct_candidates ?db) (gr_candidateCandidate g) \<noteq> None \<and>
      fmlookup (ct_candidates ?db) (gr_referenceCandidate g) \<noteq> None"
    by (auto simp: promotion_parents_def f requireExists_def orElse_None_iff)
  show ?thesis
    using c can same same' parents unfolding insertPromotionLocked_def f position_of_def
    by (auto simp: andThen_def split: sum.splits if_splits)
qed

end
