(* ===== verification/Witnesses_Promotion.thy ===== *)
theory Witnesses_Promotion
  imports Witnesses_Store Witnesses_Control Platform_Promotion_Proofs
begin

text \<open>
  Witnesses for comparisons and promotions: two completed runs of one agent, one with a record and one that ran nothing, and two
  ranked environments of their project.
\<close>

subsection \<open>Two completed runs\<close>

definition w_done :: EvaluationRun where "w_done = fst (EvaluationRun_Complete w_running w_later)"
definition w_new_running :: EvaluationRun where "w_new_running = fst (EvaluationRun_Start (w_run ''new'') w_later)"
definition w_new_done :: EvaluationRun where "w_new_done = fst (EvaluationRun_Complete w_new_running w_later)"

lemma w_done_transitions:
  "EvaluationRun_Complete w_running w_later = (w_done, None)" "EvaluationRun_Start (w_run ''new'') w_later = (w_new_running, None)"
  "EvaluationRun_Complete w_new_running w_later = (w_new_done, None)"
  by code_simp+

lemma w_done_steps:
  "run_step w_running w_done" "run_step (w_run ''new'') w_new_running" "run_step w_new_running w_new_done"
  "run_reach (w_run ''new'')" "run_reach w_done" "run_reach w_new_running" "run_reach w_new_done"
proof -
  show s: "run_step w_running w_done" "run_step (w_run ''new'') w_new_running" "run_step w_new_running w_new_done"
    using run_step.complete [OF w_done_transitions(1)] run_step.start [OF w_done_transitions(2)] run_step.complete [OF w_done_transitions(3)] .
  show "run_reach (w_run ''new'')" using run_reach.new [OF w_run_new(2)] .
  then show "run_reach w_done" "run_reach w_new_running" "run_reach w_new_done" using s w_steps(4) run_reach.step by blast+
qed

lemma w_fields_done:
  "run_status w_done = RunCompleted" "run_status w_new_done = RunCompleted" "run_candidateID w_done = ''cand-ref''" "run_candidateID w_new_done = ''cand-new''"
  "run_environment w_done = ''prod''" "run_environment w_new_done = ''prod''" "run_id w_done = ''ref''" "run_id w_new_done = ''new''"
  "run_id (w_run ''new'') = ''new''" "run_id w_new_running = ''new''" "run_id w_running = ''ref''"
  by code_simp+

lemma move_run:
  assumes "sys_reach dated_request m h s" and "loadRun (db_runs (sy_db s)) i = Inr r" and "f r = (r', None :: platform_error option)" and "run_step r r'" and "run_reach r'"
  shows "\<exists>s'. sys_reach dated_request m h s' \<and> loadRun (db_runs (sy_db s')) i = Inr r' \<and> (\<forall>j. j \<noteq> i \<longrightarrow> loadRun (db_runs (sy_db s')) j = loadRun (db_runs (sy_db s)) j) \<and>
    sy_log s' = sy_log s"
proof -
  obtain tab' where u: "UpdateEvaluationRun (db_runs (sy_db s)) r r' = (tab', None)" "loadRun tab' i = Inr r'"
    using stored_update [of _ _ _ f, OF assms(2-4)] by blast
  have "loadRun tab' j = loadRun (db_runs (sy_db s)) j" if "j \<noteq> i" for j
    using race_facts [OF assms(5) u(1)] that loaded_run(2) [OF assms(2)] by (simp add: loadRun_def)
  then show ?thesis using sys_reach.step [OF assms(1) sys_step.lifecycle [OF assms(5) u(1)]] u(2)
    by (intro exI [of _ "s\<lparr>sy_db := (sy_db s)\<lparr>db_runs := tab'\<rparr>\<rparr>"]) simp
qed

lemma w_completed_state:
  "\<exists>s. sys_reach dated_request w_marshal w_sha s \<and> loadRun (db_runs (sy_db s)) ''ref'' = Inr w_done \<and> loadRun (db_runs (sy_db s)) ''new'' = Inr w_new_done \<and>
     sy_log s = [w_request]"
proof -
  obtain s where s: "sys_reach dated_request w_marshal w_sha s" "loadRun (db_runs (sy_db s)) ''ref'' = Inr w_running" "sy_log s = [w_request]"
    "fmlookup (db_runs (sy_db s)) ''new'' = None"
    using w_ingested by blast
  have "\<not> (Time_IsZero w_time \<or> t_ns w_time < unixEpoch \<or> unixEpoch + (2 ^ 63 - 1) \<le> t_ns w_time)"
    using w_guard by (simp add: w_time_def unixEpoch_def)
  then obtain key where "recencyKey (run_createdAt (w_run ''new'')) = Inr key" by (simp add: recencyKey_def w_run_def Let_def)
  then have c: "CreateEvaluationRun (\<lambda>_. True) (db_runs (sy_db s)) (w_run ''new'') = (fmupd ''new'' (runRow (w_run ''new'') key) (db_runs (sy_db s)), None)"
    using form_binding [OF run_form_reach [OF w_done_steps(4)]] s(4) by (simp add: CreateEvaluationRun_def w_fields_done)
  let ?s1 = "s\<lparr>sy_db := (sy_db s)\<lparr>db_runs := fmupd ''new'' (runRow (w_run ''new'') key) (db_runs (sy_db s))\<rparr>\<rparr>"
  have s1: "sys_reach dated_request w_marshal w_sha ?s1" by (rule sys_reach.step [OF s(1) sys_step.create [OF w_done_steps(4) c]])
  have "loadRun (db_runs (sy_db ?s1)) ''new'' = Inr (w_run ''new'')" "loadRun (db_runs (sy_db ?s1)) ''ref'' = Inr w_running"
    using rehydrate_complete [OF run_form_reach [OF w_done_steps(4)]] s(2) by (simp_all add: loadRun_def w_fields_done)
  from move_run [of _ _ _ _ _ "\<lambda>r. EvaluationRun_Start r w_later", OF s1 this(1) w_done_transitions(2) w_done_steps(2,6)] this(2)
  obtain s2 where s2: "sys_reach dated_request w_marshal w_sha s2" "loadRun (db_runs (sy_db s2)) ''new'' = Inr w_new_running" "loadRun (db_runs (sy_db s2)) ''ref'' = Inr w_running"
    "sy_log s2 = [w_request]" using s(3) by auto
  from move_run [of _ _ _ _ _ "\<lambda>r. EvaluationRun_Complete r w_later", OF s2(1,2) w_done_transitions(3) w_done_steps(3,7)] s2(3,4)
  obtain s3 where s3: "sys_reach dated_request w_marshal w_sha s3" "loadRun (db_runs (sy_db s3)) ''new'' = Inr w_new_done" "loadRun (db_runs (sy_db s3)) ''ref'' = Inr w_running"
    "sy_log s3 = [w_request]" by auto
  from move_run [of _ _ _ _ _ "\<lambda>r. EvaluationRun_Complete r w_later", OF s3(1,3) w_done_transitions(1) w_done_steps(1,5)] s3(2,4)
  obtain s4 where "sys_reach dated_request w_marshal w_sha s4" "loadRun (db_runs (sy_db s4)) ''new'' = Inr w_new_done" "loadRun (db_runs (sy_db s4)) ''ref'' = Inr w_done"
    "sy_log s4 = [w_request]" by auto
  then show ?thesis by blast
qed

subsection \<open>Their project\<close>

definition w_ranked :: "EnvironmentRef \<Rightarrow> u16 \<Rightarrow> Environment" where
  "w_ranked r k = \<lparr>env_ref = r, env_projectID = ''ref'', env_name = ''prod'', env_rank = k, env_ranked = True,
     env_status = EnvironmentActive, env_revision = 1\<rparr>"

definition w_owned :: control_db where
  "w_owned = \<lparr>ct_projects = fmupd ''ref'' ''ref'' fmempty, ct_agents = fmupd ''agent'' (''ref'', ''agent'') fmempty,
     ct_candidates = fmupd ''cand-new'' (''agent'', w_metadata) (fmupd ''cand-ref'' (''agent'', w_metadata) fmempty),
     ct_environments = fmupd (''ref'', ''new'') (environmentRow (w_ranked ''new'' 2)) (fmupd (''ref'', ''prod'') (environmentRow (w_ranked ''prod'' 1)) fmempty)\<rparr>"

lemma w_ranked_new: "NewRankedEnvironment ''prod'' ''ref'' ''prod'' 1 = Inr (w_ranked ''prod'' 1)" "NewRankedEnvironment ''new'' ''ref'' ''prod'' 2 = Inr (w_ranked ''new'' 2)"
  by (simp_all add: NewRankedEnvironment_def NewEnvironment_def w_ids w_names orElse_def andThen_def Environment_WithRank_def maxEnvironmentRank_def w_ranked_def)

lemma w_ranked_load: "loadEnvironment w_owned ''ref'' ''prod'' = Inr (w_ranked ''prod'' 1)" "loadEnvironment w_owned ''ref'' ''new'' = Inr (w_ranked ''new'' 2)"
  using load_stored [of w_owned "w_ranked ''prod'' 1"] load_stored [of w_owned "w_ranked ''new'' 2"] env_ok_ranked [OF w_ranked_new(1)] env_ok_ranked [OF w_ranked_new(2)]
  by (simp_all add: w_owned_def w_ranked_def)

lemma w_candidate: "validateID i = None \<Longrightarrow> NewCandidate i ''agent'' w_metadata = Inr \<lparr>cand_id = i, cand_agentID = ''agent'', cand_metadata = w_metadata\<rparr>"
  by (simp add: NewCandidate_def w_names w_metadata_def orElse_def CandidateMetadata_validate_def)

lemma w_owned_reach: "ctl_reach \<lparr>cy_db = w_owned, cy_plans = []\<rparr>"
proof -
  have p: "NewProject ''ref'' ''ref'' = Inr \<lparr>proj_id = ''ref'', proj_name = ''ref''\<rparr>" by (simp add: NewProject_def w_ids w_names orElse_def)
  have a: "NewAgent ''agent'' ''ref'' ''agent'' = Inr \<lparr>agent_id = ''agent'', agent_projectID = ''ref'', agent_name = ''agent''\<rparr>"
    by (simp add: NewAgent_def w_ids w_names orElse_def)
  let ?d1 = "emptyControl\<lparr>ct_projects := fmupd ''ref'' ''ref'' fmempty\<rparr>"
  let ?d2 = "?d1\<lparr>ct_agents := fmupd ''agent'' (''ref'', ''agent'') fmempty\<rparr>"
  let ?d3 = "?d2\<lparr>ct_candidates := fmupd ''cand-ref'' (''agent'', w_metadata) fmempty\<rparr>"
  let ?d4 = "?d2\<lparr>ct_candidates := fmupd ''cand-new'' (''agent'', w_metadata) (fmupd ''cand-ref'' (''agent'', w_metadata) fmempty)\<rparr>"
  let ?d5 = "?d4\<lparr>ct_environments := fmupd (''ref'', ''prod'') (environmentRow (w_ranked ''prod'' 1)) fmempty\<rparr>"
  have "ctl_reach \<lparr>cy_db = ?d1, cy_plans = []\<rparr>"
    using ctl_reach.step [OF ctl_reach.start ctl_step.project [OF p]] by (simp add: CreateProject_def emptyControl_def)
  then have "ctl_reach \<lparr>cy_db = ?d2, cy_plans = []\<rparr>"
    using ctl_reach.step [OF _ ctl_step.agent [OF a]] by (force simp: CreateAgent_def emptyControl_def)
  then have "ctl_reach \<lparr>cy_db = ?d3, cy_plans = []\<rparr>"
    using ctl_reach.step [OF _ ctl_step.candidate [OF w_candidate [OF w_ids(3)]]] by (force simp: CreateCandidate_def emptyControl_def)
  then have r4: "ctl_reach \<lparr>cy_db = ?d4, cy_plans = []\<rparr>"
    using ctl_reach.step [OF _ ctl_step.candidate [OF w_candidate [OF w_ids(4)]]] by (force simp: CreateCandidate_def emptyControl_def)
  have f: "ffilter P {||} = {||}" for P :: "ProjectID \<times> EnvironmentRef \<Rightarrow> bool" by auto
  have "CreateEnvironment ?d4 (w_ranked ''prod'' 1) = (?d5, None)"
    by (simp add: CreateEnvironment_def insertEnvironmentLocked_def environmentCount_def emptyControl_def w_ranked_def f maxProjectEnvironments_def fcard_fempty)
  then have r5: "ctl_reach \<lparr>cy_db = ?d5, cy_plans = []\<rparr>"
    using ctl_reach.step [OF r4 ctl_step.environment [of _ _ _ "w_ranked ''prod'' 1"]] w_ranked_new(1) by fastforce
  have "environmentCount ?d5 ''ref'' \<le> fcard {|(''ref'', ''prod'')|}"
    unfolding environmentCount_def by (intro fcard_mono) (auto simp: emptyControl_def)
  then have "\<not> maxProjectEnvironments \<le> environmentCount ?d5 ''ref''" by (simp add: maxProjectEnvironments_def fcard.rep_eq)
  then have "CreateEnvironment ?d5 (w_ranked ''new'' 2) = (w_owned, None)"
    by (simp add: CreateEnvironment_def insertEnvironmentLocked_def emptyControl_def w_owned_def) (simp add: w_ranked_def)
  then show ?thesis using ctl_reach.step [OF r5 ctl_step.environment [of _ _ _ "w_ranked ''new'' 2"]] w_ranked_new(2) by fastforce
qed

lemma w_project: "requireSameProject w_owned w_done w_new_done = None" "projectOf w_owned w_new_done = Inr ''ref''"
  "agentOf w_owned w_done = Inr ''agent''" "agentOf w_owned w_new_done = Inr ''agent''"
proof -
  have a: "loadAgent w_owned ''agent'' = Inr \<lparr>agent_id = ''agent'', agent_projectID = ''ref'', agent_name = ''agent''\<rparr>"
    by (simp add: loadAgent_def w_owned_def NewAgent_def w_ids w_names orElse_def restored_def)
  have c: "loadCandidate w_owned i = Inr \<lparr>cand_id = i, cand_agentID = ''agent'', cand_metadata = w_metadata\<rparr>" if "i = ''cand-ref'' \<or> i = ''cand-new''" for i
    using that w_candidate [OF w_ids(3)] w_candidate [OF w_ids(4)] by (auto simp: loadCandidate_def w_owned_def restored_def)
  show "requireSameProject w_owned w_done w_new_done = None" "projectOf w_owned w_new_done = Inr ''ref''"
    "agentOf w_owned w_done = Inr ''agent''" "agentOf w_owned w_new_done = Inr ''agent''"
    by (simp_all add: requireSameProject_def projectOf_def agentOf_def w_fields_done c a andThen_def)
qed

subsection \<open>The comparison\<close>

definition w_ord :: map_orders where "w_ord = \<lparr>mo_target = (\<lambda>_. []), mo_string = (\<lambda>_. [])\<rparr>"
definition w_platform :: "store_db \<Rightarrow> platform_db" where
  "w_platform store = \<lparr>pf_control = w_owned, pf_store = store, pf_scenarios = \<lparr>sc_executions = fmempty, sc_repetitions = []\<rparr>\<rparr>"

lemma w_same: "samenessOfRuns (pf_scenarios (w_platform store)) rs cs = Inr (newComparisonSameness zeroProvenance zeroProvenance)"
  by (rule nothing_recorded) (simp add: w_platform_def)

lemma w_uncosted: "compareCost o1 noPricing rs cs = Inr None"
  by (simp add: compareCost_def Configured_def noPricing_def)

lemma w_runs_comparable:
  assumes "sys_reach dated_request w_marshal w_sha s" and "loadRun (db_runs (sy_db s)) ''ref'' = Inr w_done" and "loadRun (db_runs (sy_db s)) ''new'' = Inr w_new_done"
    and "sy_log s = [w_request]"
  shows "\<exists>a sa b sb diff. comparisonEvidence (sy_db s) w_done = Inr (a, sa) \<and> comparisonEvidence (sy_db s) w_new_done = Inr (b, sb) \<and>
    CompareBehaviorSnapshots sa sb = Inr diff"
proof -
  have inv: "db_inv w_marshal w_sha (sy_db s) (sy_log s)" using sys_reach_inv [OF assms(1)] by (simp add: sys_inv_def)
  have l: "log_of ''ref'' (sy_log s) = [w_request]" "log_of ''new'' (sy_log s) = []" unfolding assms(4) by (simp_all add: log_of_def w_request_def)
  obtain a c obs where a: "reference_evidence w_done [w_request] = Inr (a, c, obs)" "comparisonEvidence (sy_db s) w_done = Inr (a, Snapshot c)"
    using stored_reference [OF assms(2) inv_stored [OF inv assms(2)]] l by auto
  obtain b d obs' where b: "reference_evidence w_new_done [] = Inr (b, d, obs')" "comparisonEvidence (sy_db s) w_new_done = Inr (b, Snapshot d)"
    using stored_reference [OF assms(3) inv_stored [OF inv assms(3)]] l by auto
  have ids: "same_ids w_running w_done" by code_simp
  have "reference_evidence w_done [w_request] = reference_evidence w_running [w_request]"
    by (rule reference_rebind [OF ids form_binding [OF run_form_reach [OF w_steps(4)]] form_binding [OF run_form_reach [OF w_done_steps(5)]]])
  then have c: "c = w_coll1 ''ref''" using a(1) w_reference by auto
  have d: "co_complete d" using b(1) by (auto simp: reference_Nil andThen_def NewBehaviorCollector_def split: sum.splits option.splits)
  have "coll_reach w_done (log_stream [w_request]) c" "coll_reach w_new_done (log_stream []) d"
    using reference_streams [OF a(1)] reference_streams [OF b(1)] c d w_complete(1) by (auto simp: evidence_of_def)
  moreover have "log_stream [w_request] = [(w_record w_later, noFacts)]"
    by (simp add: log_stream_def w_request_def request_facts_def noFacts_def)
  ultimately have "\<exists>diff. CompareBehaviorSnapshots (Snapshot c) (Snapshot d) = Inr diff"
    using comparable_iff [of w_done "[(w_record w_later, noFacts)]" c w_new_done "[]" d] c d w_complete(1) w_summaries
    by (simp add: log_stream_def w_fields_done)
  then show ?thesis using a(2) b(2) by blast
qed

lemma w_runs_completed:
  assumes "loadRun (db_runs db) ''ref'' = Inr w_done" and "loadRun (db_runs db) ''new'' = Inr w_new_done"
  shows "completedRun db ''ref'' = Inr w_done" "completedRun db ''new'' = Inr w_new_done"
  using assms by (simp_all add: completedRun_def andThen_def w_fields_done)

theorem verdict_counts_applied_records_witness:
  "\<exists>s cmp. sys_reach dated_request w_marshal w_sha s \<and> sy_log s = [w_request] \<and>
     CompareEvaluations w_sha w_ord noPricing (w_platform (sy_db s)) ''ref'' ''new'' (w_limits 2) = Inr cmp \<and>
     gr_verdict (cp_Gate cmp) \<noteq> GateVerdictPass"
proof -
  obtain s where s: "sys_reach dated_request w_marshal w_sha s" "loadRun (db_runs (sy_db s)) ''ref'' = Inr w_done"
    "loadRun (db_runs (sy_db s)) ''new'' = Inr w_new_done" "sy_log s = [w_request]"
    using w_completed_state by blast
  obtain a sa b sb diff where e: "comparisonEvidence (sy_db s) w_done = Inr (a, sa)" "comparisonEvidence (sy_db s) w_new_done = Inr (b, sb)"
    "CompareBehaviorSnapshots sa sb = Inr diff" using w_runs_comparable [OF s] by blast
  have db: "pf_store (w_platform (sy_db s)) = sy_db s" "requireSameProject (pf_control (w_platform (sy_db s))) w_done w_new_done = None"
    using w_project by (simp_all add: w_platform_def)
  have "log_of ''new'' (sy_log s) = []" unfolding s(4) by (simp add: log_of_def w_request_def)
  then show ?thesis
    using verdict_counts_applied_records [OF s(1) db(1) w_runs_completed [OF s(2,3)] db(2) e w_uncosted w_same,
        where limits = "w_limits 2" and ord = w_ord] s(1,4)
    by (auto simp: Let_def)
qed

lemma w_compared:
  "\<exists>s cmp. sys_reach dated_request w_marshal w_sha s \<and> loadRun (db_runs (sy_db s)) ''ref'' = Inr w_done \<and> loadRun (db_runs (sy_db s)) ''new'' = Inr w_new_done \<and>
     CompareEvaluations w_sha w_ord noPricing (w_platform (sy_db s)) ''ref'' ''new'' (w_limits 2) = Inr cmp"
proof -
  obtain s where s: "sys_reach dated_request w_marshal w_sha s" "loadRun (db_runs (sy_db s)) ''ref'' = Inr w_done"
    "loadRun (db_runs (sy_db s)) ''new'' = Inr w_new_done" "sy_log s = [w_request]"
    using w_completed_state by blast
  obtain a sa b sb diff where e: "comparisonEvidence (sy_db s) w_done = Inr (a, sa)" "comparisonEvidence (sy_db s) w_new_done = Inr (b, sb)"
    "CompareBehaviorSnapshots sa sb = Inr diff" using w_runs_comparable [OF s] by blast
  have db: "pf_store (w_platform (sy_db s)) = sy_db s" "requireSameProject (pf_control (w_platform (sy_db s))) w_done w_new_done = None"
    using w_project by (simp_all add: w_platform_def)
  then show ?thesis using s
    by (auto intro: stored_comparison [OF s(1) db(1) w_runs_completed [OF s(2,3)] db(2) e w_uncosted w_same,
          where limits = "w_limits 2" and ord = w_ord])
qed

theorem comparison_reproducible_witness:
  "\<exists>s s' cmp. sys_reach dated_request w_marshal w_sha s \<and> (sys_step dated_request w_marshal w_sha)\<^sup>*\<^sup>* s s' \<and> s \<noteq> s' \<and>
     CompareEvaluations w_sha w_ord noPricing (w_platform (sy_db s)) ''ref'' ''new'' (w_limits 2) = Inr cmp \<and>
     (\<exists>sm ws. CompareEvaluations w_sha w_ord noPricing (w_platform (sy_db s')) ''ref'' ''new'' (w_limits 2) = Inr (cmp\<lparr>cp_Sameness := sm, cp_Warnings := ws\<rparr>))"
proof -
  obtain s cmp where s: "sys_reach dated_request w_marshal w_sha s"
    "CompareEvaluations w_sha w_ord noPricing (w_platform (sy_db s)) ''ref'' ''new'' (w_limits 2) = Inr cmp"
    using w_compared by blast
  define s' where "s' = s\<lparr>sy_tasks := sy_tasks s @ [IngestReceived w_request]\<rparr>"
  have "sys_step dated_request w_marshal w_sha s s'" unfolding s'_def by (rule sys_step.submit) (use w_dated in \<open>simp add: w_request_def dated_request_def\<close>)
  then have st: "(sys_step dated_request w_marshal w_sha)\<^sup>*\<^sup>* s s'" by blast
  have "sy_tasks s \<noteq> sy_tasks s'" by (simp add: s'_def)
  then have "s \<noteq> s'" by auto
  moreover obtain sm ws where w: "newComparisonSameness zeroProvenance zeroProvenance = (sm, ws)" by force
  moreover have "pf_store (w_platform db) = db" "pf_control (w_platform db) = cy_db \<lparr>cy_db = w_owned, cy_plans = []\<rparr>" for db by (simp_all add: w_platform_def)
  note comparison_reproducible [OF s(1) st rtranclp.rtrancl_refl this(1) this(1) this(2) this(2) s(2) w_same [unfolded w]]
  ultimately show ?thesis using s st by blast
qed

subsection \<open>The promotion\<close>

definition w_promotion :: PromotionRequest where
  "w_promotion = \<lparr>pq_ID = ''ref'', pq_ReferenceRunID = ''ref'', pq_CandidateRunID = ''new'', pq_TargetEnvironment = ''new'', pq_GateLimits = w_limits 2\<rparr>"

lemma w_promotable: "CanPromote (w_ranked ''prod'' 1) (w_ranked ''new'' 2)"
  by (simp add: CanPromote_def w_ranked_def)

lemma w_decided:
  "\<exists>(s :: ingest_system) (cmp :: EvaluationComparison) p. promote_decide w_sha w_ord noPricing (w_platform (sy_db s)) w_promotion w_later = Inr p \<and>
     NewPromotion \<lparr>pd_ID = ''ref'', pd_Source = w_ranked ''prod'' 1, pd_Target = w_ranked ''new'' 2, pd_GateResult = cp_Gate cmp, pd_DecidedAt = w_later\<rparr> = Inr p \<and>
     gr_referenceCandidate (cp_Gate cmp) = ''cand-ref'' \<and> gr_candidateCandidate (cp_Gate cmp) = ''cand-new''"
proof -
  obtain s :: ingest_system and cmp where s: "loadRun (db_runs (sy_db s)) ''ref'' = Inr w_done" "loadRun (db_runs (sy_db s)) ''new'' = Inr w_new_done"
    "CompareEvaluations w_sha w_ord noPricing (w_platform (sy_db s)) ''ref'' ''new'' (w_limits 2) = Inr cmp"
    using w_compared by blast
  let ?db = "w_platform (sy_db s)"
  have "promotionEnvironments w_owned w_done w_new_done ''new'' = Inr (w_ranked ''prod'' 1, w_ranked ''new'' 2)"
    using w_ranked_load w_promotable by (simp add: promotionEnvironments_def refused_def w_project andThen_def w_fields_done)
  then have e: "promotionEnvironments (pf_control ?db) w_done w_new_done (pq_TargetEnvironment w_promotion) = Inr (w_ranked ''prod'' 1, w_ranked ''new'' 2)"
    by (simp add: w_promotion_def w_platform_def)
  have f: "pq_ID w_promotion = ''ref''" "pq_ReferenceRunID w_promotion = ''ref''" "pq_CandidateRunID w_promotion = ''new''"
    "pq_TargetEnvironment w_promotion = ''new''" "pq_GateLimits w_promotion = w_limits 2" "pf_store ?db = sy_db s"
    by (simp_all add: w_promotion_def w_platform_def)
  have c: "completedRun (sy_db s) ''ref'' = Inr w_done" "completedRun (sy_db s) ''new'' = Inr w_new_done"
    using w_runs_completed [OF s(1,2)] by simp_all
  have "\<exists>p. promote_decide w_sha w_ord noPricing ?db w_promotion w_later = Inr p \<and>
    NewPromotion \<lparr>pd_ID = pq_ID w_promotion, pd_Source = w_ranked ''prod'' 1, pd_Target = w_ranked ''new'' 2, pd_GateResult = cp_Gate cmp, pd_DecidedAt = w_later\<rparr> = Inr p"
  proof (rule decision_made [OF _ _ _ e])
    show "\<not> Time_IsZero w_later" using w_guard by blast
  qed (use s(3) c w_ids in \<open>simp_all add: f\<close>)
  moreover have "gr_referenceCandidate (cp_Gate cmp) = ''cand-ref''" "gr_candidateCandidate (cp_Gate cmp) = ''cand-new''"
    using compared_gate(5) [OF s(3)] c w_fields_done unfolding f(6) by auto
  ultimately show ?thesis unfolding f by blast
qed

lemma w_recorded:
  assumes "NewPromotion \<lparr>pd_ID = ''ref'', pd_Source = w_ranked ''prod'' 1, pd_Target = w_ranked ''new'' 2, pd_GateResult = g, pd_DecidedAt = w_later\<rparr> = Inr p"
    and "gr_referenceCandidate g = ''cand-ref''" and "gr_candidateCandidate g = ''cand-new''"
  shows "\<exists>tab'. CreatePromotion w_owned fmempty p = (tab', None)"
proof -
  note n = new_promotion [OF assms(1), simplified]
  have f: "pm_id p = ''ref''" "pm_projectID p = ''ref''" "pm_source p = position_of (w_ranked ''prod'' 1)" "pm_target p = position_of (w_ranked ''new'' 2)"
    "pm_candidateID p = ''cand-new''" "gr_referenceCandidate (pm_gateResult p) = ''cand-ref''"
    using n assms(2,3) by (metis Promotion.select_convs(1), metis Promotion.select_convs(2) w_ranked_def Environment.select_convs(2),
        metis Promotion.select_convs(6), metis Promotion.select_convs(7), metis Promotion.select_convs(3), metis Promotion.select_convs(9))
  have p: "po_Ref (position_of (w_ranked r k)) = r" "po_Revision (position_of (w_ranked r k)) = 1" "env_revision (w_ranked r k) = 1" for r k
    by (simp_all add: position_of_def w_ranked_def)
  have e: "lockEnvironment w_owned ''ref'' ''prod'' = None" "lockEnvironment w_owned ''ref'' ''new'' = None"
    by (simp_all add: lockEnvironment_def w_owned_def)
  have "promotion_parents w_owned p = None" by (simp add: promotion_parents_def f requireExists_def orElse_def w_owned_def)
  then show ?thesis
    by (simp add: CreatePromotion_def insertPromotionLocked_def promotionEnvironmentOrder_def f p e w_ranked_load w_promotable andThen_def)
qed

theorem promotion_reads_back_witness:
  "\<exists>db tab' p. Promote w_sha w_ord noPricing db fmempty w_promotion w_later = (tab', Inr p) \<and> loadPromotion tab' ''ref'' = Inr p"
proof -
  obtain s :: ingest_system and cmp :: EvaluationComparison and p where d: "promote_decide w_sha w_ord noPricing (w_platform (sy_db s)) w_promotion w_later = Inr p"
    "NewPromotion \<lparr>pd_ID = ''ref'', pd_Source = w_ranked ''prod'' 1, pd_Target = w_ranked ''new'' 2, pd_GateResult = cp_Gate cmp, pd_DecidedAt = w_later\<rparr> = Inr p"
    "gr_referenceCandidate (cp_Gate cmp) = ''cand-ref''" "gr_candidateCandidate (cp_Gate cmp) = ''cand-new''"
    using w_decided by blast
  obtain tab' where "CreatePromotion w_owned fmempty p = (tab', None)" using w_recorded [OF d(2,3,4)] by blast
  then have r: "Promote w_sha w_ord noPricing (w_platform (sy_db s)) fmempty w_promotion w_later = (tab', Inr p)"
    using d(1) by (simp add: Promote_def w_platform_def)
  then show ?thesis using promotion_reads_back [OF r] w_dated by (auto simp: w_promotion_def dated_def w_rec)
qed

theorem promotion_on_current_environments_witness:
  "\<exists>g p tab'. NewPromotion \<lparr>pd_ID = ''ref'', pd_Source = w_ranked ''prod'' 1, pd_Target = w_ranked ''new'' 2, pd_GateResult = g, pd_DecidedAt = w_later\<rparr> = Inr p \<and>
     CreatePromotion w_owned fmempty p = (tab', None) \<and> loadEnvironment w_owned ''ref'' ''prod'' = Inr (w_ranked ''prod'' 1)"
proof -
  obtain cmp :: EvaluationComparison and p where d: "NewPromotion \<lparr>pd_ID = ''ref'', pd_Source = w_ranked ''prod'' 1, pd_Target = w_ranked ''new'' 2, pd_GateResult = cp_Gate cmp,
      pd_DecidedAt = w_later\<rparr> = Inr p"
    and g: "gr_referenceCandidate (cp_Gate cmp) = ''cand-ref''" "gr_candidateCandidate (cp_Gate cmp) = ''cand-new''"
    using w_decided by blast
  obtain tab' where c: "CreatePromotion w_owned fmempty p = (tab', None)" using w_recorded [OF d g] by blast
  let ?s = "\<lparr>cy_db = w_owned, cy_plans = []\<rparr>"
  have l: "loadEnvironment (cy_db ?s) (env_projectID (w_ranked ''prod'' 1)) (env_ref (w_ranked ''prod'' 1)) = Inr (w_ranked ''prod'' 1)"
    "loadEnvironment (cy_db ?s) (env_projectID (w_ranked ''new'' 2)) (env_ref (w_ranked ''new'' 2)) = Inr (w_ranked ''new'' 2)"
    using w_ranked_load by (simp_all add: w_ranked_def)
  have c': "CreatePromotion (cy_db ?s) fmempty p = (tab', None)" using c by simp
  have "loadEnvironment w_owned ''ref'' ''prod'' = Inr (w_ranked ''prod'' 1)"
    using promotion_on_current_environments [OF w_owned_reach rtranclp.rtrancl_refl rtranclp.rtrancl_refl l d c'] by (simp add: w_ranked_def)
  then show ?thesis using d c by blast
qed

end
