(* ===== verification/Spec2Isabelle.thy ===== *)
theory Spec2Isabelle
  imports Pipeline Witnesses_Compare Witnesses_Control Witnesses_Promotion
begin

text \<open>
  A verification library for Trustvian, a behavioural trust engine for software actors with an
  evaluation platform beside it.

  \<^bold>\<open>The program.\<close> An event (one action of an actor) is validated, reduced to stable and volatile
  features and fingerprinted; the baseline of its actor and environment is read from a store; the
  anomaly scorer compares the event with the baseline; trust combines the anomaly with the identity
  confidence and a context risk; a first-match policy turns trust into one of six decisions; and only
  events whose decision lets them pass are learned. Alerts and decision records are projections of
  the result. The platform aggregates the decision records of evaluation runs, compares a candidate
  run with a reference in a scorecard and applies hard gates to it.

  \<^bold>\<open>Theories and sources.\<close>
  \<^item> \<open>Prelude\<close>, \<open>Go_Time\<close>, \<open>Float64\<close>: finite maps and capped counters, the part of Go's
    \<^verbatim>\<open>time\<close> in use, and IEEE binary64 arithmetic over the rationals with rounding to
    nearest even (zero is unsigned; every operation rounds, so no fused multiply-add, and a float
    is converted to an integer as on amd64).
  \<^item> \<open>Event\<close>, \<open>Features\<close>, \<open>Fingerprint\<close>: \<^verbatim>\<open>event/\<close>,
    \<^verbatim>\<open>internal/features\<close>, \<^verbatim>\<open>internal/fingerprint\<close>.
  \<^item> \<open>Baseline\<close> with \<open>Baseline_Bounds\<close>, \<open>Baseline_Flow\<close> and \<open>Baseline_Props\<close>:
    \<^verbatim>\<open>internal/baseline\<close>; the relation \<open>learned_from\<close> is the baselines any sequence of
    observations produces, and the invariants are proved over it.
  \<^item> \<open>Anomaly\<close>, \<open>Anomaly_Score\<close>, \<open>Trust\<close>, \<open>Policy\<close>: the packages of those names
    under \<^verbatim>\<open>internal/\<close>.
  \<^item> \<open>Store\<close>, \<open>Store_Concurrent\<close>, \<open>File_Store\<close>: \<^verbatim>\<open>internal/store\<close>. The locale
    \<open>baseline_store\<close> is the contract the engine relies on; it is interpreted on the in-memory
    store (\<open>mem\<close>) and on the file store (\<open>fstore\<close>).
  \<^item> \<open>Engine\<close>, \<open>Alert\<close>, \<open>Decision_Record\<close>: \<^verbatim>\<open>engine.go\<close>,
    \<^verbatim>\<open>options.go\<close>, \<^verbatim>\<open>result.go\<close>, \<^verbatim>\<open>alert/\<close>,
    \<^verbatim>\<open>decision_record.go\<close>. The engine's lemmas are proved inside the locale and reach the
    properties through the two interpretations.
  \<^item> \<open>Platform_Domain\<close>, \<open>Platform_Operational\<close>, \<open>Platform_Aggregate\<close>,
    \<open>Platform_Scorecard\<close>, \<open>Platform_Gate\<close>: the files of those names under
    \<^verbatim>\<open>platform/\<close>.
  \<^item> \<open>Platform_Evidence\<close>, \<open>Platform_Summary\<close>, \<open>Platform_Codec\<close>: the operational and
    fidelity counters of one behaviour (\<^verbatim>\<open>behavior_operational.go\<close>,
    \<^verbatim>\<open>behavior_fidelity.go\<close>), the relation between a summary and the observations it
    stands for, and the stored text of both (\<^verbatim>\<open>evidence_columns.go\<close>).
  \<^item> \<open>Platform_Observation\<close>: the columns of the store, the retained history of a run, its rows with
    their decoder, its keys, cursors and paged reads
    (\<^verbatim>\<open>observation.go\<close>, \<^verbatim>\<open>observation_store.go\<close>,
    \<^verbatim>\<open>observation_columns.go\<close>).
  \<^item> \<open>Platform_Counting\<close>: how added behaviours are folded into changes
    (\<^verbatim>\<open>counting.go\<close>).
  \<^item> \<open>Platform_Behavior\<close>, \<open>Platform_Collector\<close>, \<open>Platform_Diff\<close>: the behaviour collector,
    its snapshots and their restoration, the diff and the operational comparison
    (\<^verbatim>\<open>behavior.go\<close>, \<^verbatim>\<open>operational_comparison.go\<close>, the restoring half of
    \<^verbatim>\<open>ingest.go\<close> and \<^verbatim>\<open>sqlite.go\<close>); the relation \<open>coll_reach\<close> is the
    collectors any sequence of accepted and refused records produces.
  \<^item> \<open>Platform_Runs\<close>, \<open>Platform_Restore\<close>: the rows of runs and evidence, the checks on
    restored values, and the transactions that create, transition, save and load them
    (\<^verbatim>\<open>sqlite.go\<close>, \<^verbatim>\<open>evidence_columns.go\<close>, the lifecycle calls of
    \<^verbatim>\<open>controlplane.go\<close>). A table is a finite map from keys to rows and a transaction is
    a function on the tables. Counters are stored as their decimal text and the times of evidence,
    observations and promotions as their RFC 3339 text; a float column holds the float.
  \<^item> \<open>Platform_Ingest\<close>, \<open>Platform_Ingest_Proofs\<close>: ingest of decision records
    (\<^verbatim>\<open>ingest.go\<close>, the cursor of \<^verbatim>\<open>sqlite.go\<close>,
    \<^verbatim>\<open>IngestDecisionRecord\<close> of \<^verbatim>\<open>controlplane.go\<close>) with every
    interleaving of its transactions, and its refinement of a plain fold of the accepted records.
    The steps of \<open>sys_step\<close> are the arrival and the transactions of requests and the creation and lifecycle
    of runs. \<open>sys_step\<close> takes as an argument which requests arrive; the theorems are about \<open>dated_request\<close>: the
    record is dated after the zero time, in the years up to 9999 of its zone and of UTC, with an offset of whole minutes. The
    code accepts other records too, and their evidence does not read back (\<open>ancient_records_corrupt\<close>).
    \<^verbatim>\<open>SaveEvaluationEvidence\<close> is modelled in \<open>Platform_Restore\<close>; no call of the control plane makes it,
    so it is not a step of the system.
  \<^item> \<open>Platform_Cost\<close>, \<open>Platform_Frequency\<close>, \<open>Platform_Repeated\<close>,
    \<open>Platform_Repeated_Proofs\<close>: the cost section, the call figures and the comparison of N
    repetitions per side (\<^verbatim>\<open>cost.go\<close>, \<^verbatim>\<open>frequency.go\<close>,
    \<^verbatim>\<open>frequency_gate.go\<close>, \<^verbatim>\<open>comparison_rules.go\<close>,
    \<^verbatim>\<open>repeated.go\<close>). The locale \<open>checked_counter\<close> is the contract of the three
    overflow-checked additions.
  \<^item> \<open>Platform_Control\<close>, \<open>Platform_Control_Proofs\<close>: projects, agents, candidates and
    environments, their tables and pages (\<^verbatim>\<open>environment.go\<close>,
    \<^verbatim>\<open>environment_store.go\<close>, \<^verbatim>\<open>collection.go\<close>,
    \<^verbatim>\<open>collection_store.go\<close>, the control half of \<^verbatim>\<open>sqlite.go\<close> and
    \<^verbatim>\<open>controlplane.go\<close>), with every interleaving of configuration changes. The locale
    \<open>paged_collection\<close> is the contract of a listing that is followed by its cursor; its five
    interpretations are the collections of the store.
  \<^item> \<open>Platform_Compare\<close>: evidence produced by the reducers always reaches a verdict.
  \<^item> \<open>Platform_Provenance\<close>: what each side of a comparison was recorded with and the sameness
    answers (\<^verbatim>\<open>scenario_provenance.go\<close>, \<^verbatim>\<open>sameness.go\<close>).
  \<^item> \<open>Platform_Service\<close>, \<open>Platform_Service_Proofs\<close>: the calls that compare stored runs
    (\<^verbatim>\<open>CompareEvaluations\<close> of \<^verbatim>\<open>controlplane.go\<close>,
    \<^verbatim>\<open>CompareRepeatedEvaluations\<close> of \<^verbatim>\<open>repeated.go\<close>): the verdict in
    terms of the applied requests, and its stability.
  \<^item> \<open>Platform_Promotion\<close>, \<open>Platform_Promotion_Proofs\<close>: promotion decisions, their rows and
    the recording transaction (\<^verbatim>\<open>promotion.go\<close>, \<^verbatim>\<open>promotion_store.go\<close>,
    \<^verbatim>\<open>Promote\<close> of \<^verbatim>\<open>controlplane.go\<close>).
  \<^item> \<open>Pipeline\<close>: when the platform accepts what the engine produced.
  \<^item> \<open>Witnesses\<close>, \<open>Witnesses_Engine\<close>, \<open>Witnesses_Platform\<close>, \<open>Witnesses_Evidence\<close>,
    \<open>Witnesses_Store\<close>, \<open>Witnesses_Compare\<close>, \<open>Witnesses_Control\<close>,
    \<open>Witnesses_Promotion\<close>: the properties at concrete inputs.

  \<^bold>\<open>Conventions.\<close> A Go struct is a record with its fields prefixed, an error is a value, unsigned
  and signed 64-bit integers are 64-bit words read with \<open>unat\<close> and \<open>sint\<close>, a Go map is a finite
  map, and where a Go program ranges over a map the order is an argument. Code outside the sources is
  an argument as well (a hypothesis about one is a hypothesis of the theorem): \<^verbatim>\<open>math.Log2\<close> (\<open>log2\<close>), the formatting of floats (\<open>showf\<close>),
  JSON (\<open>encode\<close>, \<open>decode\<close>, \<open>marshal\<close>), SHA-256 (\<open>sha\<close>), random bytes and the failures of the file system. No recursion needs
  fuel: every loop is structural or has a termination proof. The text of a time is represented by what it spells, the
  wall clock and the zone in whole minutes (\<open>time_text\<close>), with the years and zones that \<^verbatim>\<open>time.Parse\<close> reads;
  \<open>time_storable\<close> are the times that read back.

  \<^bold>\<open>Statements and transactions.\<close> A transaction of the store is one step. Two calls make separate statements that are one
  step here as well: creating an agent or a candidate looks for the parent and then inserts, and no parent is ever deleted; a
  missed environment update looks again only to choose between not found and conflict, so an interleaved creation
  could change which of the two errors is reported and nothing else. The rows of runs keep their times as values: the
  clock of the control plane is taken to give times that read back from their text.

  \<^bold>\<open>What the theorems show.\<close> The numerical pipeline stays in its ranges for all inputs and all
  histories; learning is gated, isolated by actor, environment and scope, bounded in space and
  consistent with what is reported; the store is linearizable and its file is replaced atomically;
  policy and alert evaluation are first-match; run lifecycles are well-formed; aggregates count what
  they were given without overflow; behavioural evidence is a function of the accepted observations,
  survives storage and restart, and a diff counts exactly what the two runs showed; change counting
  follows its documented rule; stored evidence is validated exactly and read back unchanged; racing
  lifecycle calls have one winner; ingest is exactly once under every interleaving, makes progress, and
  never touches a finished run; configuration changes are never lost and listings are complete; a verdict means what it
  says about the applied requests and never changes afterwards; and a promotion is recorded only on the
  environments it was decided on.

  \<^bold>\<open>Not modelled.\<close> Network, HTTP, terminal and process code; the SQL text itself, schema
  migrations, the PostgreSQL dialect and the storage of scenario executions;
  the digits of the RFC 3339 text of stored times; live announcements; configuration loading; the rendering of CI
  documents; the text of error messages.
\<close>

end
